(* ===== verification/Prelude.thy ===== *)
theory Prelude
  imports Main "HOL-Library.AList" "HOL-Library.Word"
begin

text \<open>
  Shared vocabulary of the development: the model's basic types, the parts of Go's
  \<open>strings\<close>, \<open>strconv\<close> and \<open>time\<close> packages that the gateway uses, and association
  lists as Go maps.

  \<^item> A Go \<open>string\<close> is a list of bytes (\<open>string\<close>, that is \<open>char list\<close>).
  \<^item> A Go \<open>map\<close> is an association list with distinct keys. Go iterates a map in an
    unspecified order; here the list order is that order, and the theorems hold for every
    association list, so for every iteration order.
  \<^item> A \<open>time.Time\<close> and a \<open>time.Duration\<close> are \<open>int\<close> nanoseconds.
\<close>

section \<open>Collections of facts\<close>

named_theorems go_simps \<open>evaluation of the modelled standard-library functions\<close>
named_theorems table_simps \<open>look-up after an update of an association list\<close>

section \<open>Types\<close>

type_synonym time = int
type_synonym duration = int
type_synonym ('k, 'v) table = "('k \<times> 'v) list"
type_synonym u64 = "64 word"

section \<open>Machine integers\<close>

text \<open>What a 64-bit signed result of an operation is.\<close>

definition wrap64 :: "int \<Rightarrow> int" where
  "wrap64 n = sint (word_of_int n :: 64 word)"

lemma wrap64_small: "- (2 ^ 63) \<le> n \<Longrightarrow> n < 2 ^ 63 \<Longrightarrow> wrap64 n = n"
proof -
  assume n: "- (2 ^ 63) \<le> n" "n < 2 ^ 63"
  have "signed_take_bit 63 n = n" using n by (intro signed_take_bit_int_eq_self) simp_all
  then show "wrap64 n = n" by (simp add: wrap64_def sint_sbintrunc')
qed

section \<open>Durations (package time)\<close>

definition second :: duration where "second = 1000000000"
definition minute :: duration where "minute = 60 * second"
definition hour :: duration where "hour = 60 * minute"

lemma durations_pos [simp]: "0 < second" "0 < minute" "0 < hour"
  by (simp_all add: second_def minute_def hour_def)

text \<open>\<open>Time.Unix\<close>: whole seconds since the epoch, rounded towards minus infinity.\<close>

definition unix :: "time \<Rightarrow> int" where
  "unix t = t div second"

lemma unix_mono: "s \<le> t \<Longrightarrow> unix s \<le> unix t"
  by (simp add: unix_def zdiv_mono1)

text \<open>Go's integer division truncates towards zero.\<close>

definition quot :: "int \<Rightarrow> int \<Rightarrow> int" where
  "quot a b = sgn a * sgn b * (\<bar>a\<bar> div \<bar>b\<bar>)"

lemma quot_nonneg: "0 \<le> a \<Longrightarrow> 0 < b \<Longrightarrow> quot a b = a div b"
  by (cases "a = 0") (simp_all add: quot_def)

section \<open>Strings (package strings)\<close>

definition has_prefix :: "string \<Rightarrow> string \<Rightarrow> bool" where
  "has_prefix s p \<longleftrightarrow> take (length p) s = p"

definition has_suffix :: "string \<Rightarrow> string \<Rightarrow> bool" where
  "has_suffix s p \<longleftrightarrow> length p \<le> length s \<and> drop (length s - length p) s = p"

definition trim_prefix :: "string \<Rightarrow> string \<Rightarrow> string" where
  "trim_prefix s p = (if has_prefix s p then drop (length p) s else s)"

lemma has_prefix_iff: "has_prefix s p \<longleftrightarrow> (\<exists>r. s = p @ r)"
  unfolding has_prefix_def by (metis append_eq_conv_conj append_take_drop_id)

lemma has_suffix_iff: "has_suffix s p \<longleftrightarrow> (\<exists>r. s = r @ p)"
proof
  assume "has_suffix s p"
  then have "s = take (length s - length p) s @ p"
    by (metis append_take_drop_id has_suffix_def)
  then show "\<exists>r. s = r @ p" ..
qed (auto simp: has_suffix_def)

lemma has_prefix_append [simp]: "has_prefix (p @ r) p"
  by (auto simp: has_prefix_iff)

lemma has_suffix_append [simp]: "has_suffix (r @ p) p"
  by (auto simp: has_suffix_iff)

text \<open>ASCII white space, as \<open>strings.TrimSpace\<close> removes it from ASCII input.\<close>

definition is_space :: "char \<Rightarrow> bool" where
  "is_space c \<longleftrightarrow> of_char c \<in> {9 :: nat, 10, 11, 12, 13, 32}"

definition trim_space :: "string \<Rightarrow> string" where
  "trim_space s = rev (dropWhile is_space (rev (dropWhile is_space s)))"

text \<open>\<open>strings.ToLower\<close> on ASCII input.\<close>

definition lower_char :: "char \<Rightarrow> char" where
  "lower_char c = (let n = of_char c :: nat in if 65 \<le> n \<and> n \<le> 90 then char_of (n + 32) else c)"

definition to_lower :: "string \<Rightarrow> string" where
  "to_lower s = map lower_char s"

definition equal_fold :: "string \<Rightarrow> string \<Rightarrow> bool" where
  "equal_fold s t \<longleftrightarrow> to_lower s = to_lower t"

lemma lower_char_idem [simp]: "lower_char (lower_char c) = lower_char c"
  by (auto simp: lower_char_def Let_def of_char_of)

lemma length_to_lower [simp]: "length (to_lower s) = length s"
  by (simp add: to_lower_def)

lemma equal_fold_refl [simp]: "equal_fold s s"
  by (simp add: equal_fold_def)

lemma to_lower_idem [simp]: "to_lower (to_lower s) = to_lower s"
  by (simp add: to_lower_def)

text \<open>\<open>strings.Index\<close>.\<close>

fun index_of :: "string \<Rightarrow> string \<Rightarrow> nat option" where
  "index_of [] p = (if p = [] then Some 0 else None)"
| "index_of (c # s) p = (if has_prefix (c # s) p then Some 0 else map_option Suc (index_of s p))"

text \<open>\<open>strings.Contains\<close>.\<close>

definition contains :: "string \<Rightarrow> string \<Rightarrow> bool" where
  "contains s p \<longleftrightarrow> index_of s p \<noteq> None"

lemma contains_iff: "contains s p \<longleftrightarrow> (\<exists>u v. s = u @ p @ v)"
  unfolding contains_def
proof (induction s p rule: index_of.induct)
  case (1 p)
  show ?case by auto
next
  case (2 c s p)
  show ?case
  proof (cases "has_prefix (c # s) p")
    case True
    then show ?thesis by (auto simp: has_prefix_iff) (metis append_Nil)
  next
    case False
    have "(\<exists>u v. c # s = u @ p @ v) \<longleftrightarrow> (\<exists>u v. s = u @ p @ v)"
    proof
      assume "\<exists>u v. c # s = u @ p @ v"
      then obtain u v where uv: "c # s = u @ p @ v" by blast
      with False have "u \<noteq> []" by (auto simp: has_prefix_iff)
      with uv show "\<exists>u v. s = u @ p @ v" by (cases u) auto
    next
      assume "\<exists>u v. s = u @ p @ v"
      then show "\<exists>u v. c # s = u @ p @ v" by (metis append_Cons)
    qed
    with False 2 show ?thesis by auto
  qed
qed

lemma contains_char [simp]: "contains s [c] \<longleftrightarrow> c \<in> set s"
  by (auto simp: contains_iff in_set_conv_decomp)

text \<open>\<open>strings.Split\<close> with a one-byte separator, and \<open>strings.Join\<close>.\<close>

fun split_on :: "char \<Rightarrow> string \<Rightarrow> string list" where
  "split_on c [] = [[]]"
| "split_on c (x # xs) =
     (if x = c then [] # split_on c xs
      else (case split_on c xs of [] \<Rightarrow> [[x]] | y # ys \<Rightarrow> (x # y) # ys))"

fun join :: "string \<Rightarrow> string list \<Rightarrow> string" where
  "join sep [] = []"
| "join sep [s] = s"
| "join sep (s # t # ss) = s @ sep @ join sep (t # ss)"

lemma split_on_nonempty [simp]: "split_on c s \<noteq> []"
  by (induction s) (auto split: list.splits)

lemma split_on_no_sep: "c \<notin> set s \<Longrightarrow> split_on c s = [s]"
  by (induction s) auto

lemma split_on_append: "c \<notin> set s \<Longrightarrow> split_on c (s @ c # t) = s # split_on c t"
  by (induction s) auto

lemma join_split_on: "join [c] (split_on c s) = s"
proof (induction s)
  case Nil
  show ?case by simp
next
  case (Cons x xs)
  show ?case
  proof (cases "split_on c xs")
    case Nil
    then show ?thesis by simp
  next
    case (Cons y ys)
    with Cons.IH show ?thesis by (cases ys) auto
  qed
qed

lemma split_on_pieces: "p \<in> set (split_on c s) \<Longrightarrow> c \<notin> set p"
  by (induction s arbitrary: p) (fastforce split: list.splits if_splits)+

section \<open>Decimal numerals (package strconv)\<close>

definition digit :: "nat \<Rightarrow> char" where
  "digit d = ''0123456789'' ! d"

definition is_digit :: "char \<Rightarrow> bool" where
  "is_digit c \<longleftrightarrow> 48 \<le> (of_char c :: nat) \<and> (of_char c :: nat) \<le> 57"

definition digit_val :: "char \<Rightarrow> nat" where
  "digit_val c = of_char c - 48"

fun itoa_nat :: "nat \<Rightarrow> string" where
  "itoa_nat n = (if n < 10 then [digit n] else itoa_nat (n div 10) @ [digit (n mod 10)])"

declare itoa_nat.simps [simp del]

definition itoa :: "int \<Rightarrow> string" where
  "itoa i = (if i < 0 then ''-'' @ itoa_nat (nat (- i)) else itoa_nat (nat i))"

definition digits_val :: "string \<Rightarrow> nat" where
  "digits_val s = foldl (\<lambda>a c. 10 * a + digit_val c) 0 s"

text \<open>
  \<open>strconv.ParseInt(s, 10, 64)\<close>, and \<open>strconv.Atoi\<close> on a 64-bit platform: an optional
  sign, at least one digit, nothing else, and a value that fits.
\<close>

definition parse_int :: "string \<Rightarrow> int option" where
  "parse_int s =
     (let neg = has_prefix s ''-'';
          body = (if neg \<or> has_prefix s ''+'' then drop 1 s else s)
      in if body = [] \<or> \<not> list_all is_digit body then None
         else let v = (if neg then - int (digits_val body) else int (digits_val body))
              in if - (2 ^ 63) \<le> v \<and> v < 2 ^ 63 then Some v else None)"

lemma digit_props [simp]:
  assumes "d < 10"
  shows "is_digit (digit d)" "digit_val (digit d) = d"
proof -
  from assms have "d = 0 \<or> d = 1 \<or> d = 2 \<or> d = 3 \<or> d = 4 \<or> d = 5 \<or> d = 6 \<or> d = 7 \<or> d = 8 \<or> d = 9"
    by arith
  then show "is_digit (digit d)" "digit_val (digit d) = d"
    by (auto simp: is_digit_def digit_def digit_val_def)
qed

lemma itoa_nat_digits: "list_all is_digit (itoa_nat n)"
proof (induction n rule: itoa_nat.induct)
  case (1 n)
  then show ?case by (subst itoa_nat.simps) auto
qed

lemma itoa_nat_nonempty [simp]: "itoa_nat n \<noteq> []"
  by (subst itoa_nat.simps) simp

lemma digits_val_itoa_nat [simp]: "digits_val (itoa_nat n) = n"
proof (induction n rule: itoa_nat.induct)
  case (1 n)
  then show ?case
    by (subst itoa_nat.simps) (auto simp: digits_val_def)
qed

lemma is_digit_not: "is_digit c \<Longrightarrow> c \<noteq> CHR ''-''" "is_digit c \<Longrightarrow> c \<noteq> CHR ''+''"
  "is_digit c \<Longrightarrow> c \<noteq> CHR '':''" "is_digit c \<Longrightarrow> c \<noteq> CHR '',''" "is_digit c \<Longrightarrow> c \<noteq> CHR ''.''"
  by (auto simp: is_digit_def)

lemma itoa_nat_hd: "itoa_nat n = c # cs \<Longrightarrow> is_digit c"
  using itoa_nat_digits [of n] by simp

lemma itoa_nat_no_sign: "\<not> has_prefix (itoa_nat n) ''-''" "\<not> has_prefix (itoa_nat n) ''+''"
  by (cases "itoa_nat n"; auto simp: has_prefix_def dest: itoa_nat_hd is_digit_not)+

lemma parse_int_itoa:
  assumes "- (2 ^ 63) \<le> i" "i < 2 ^ 63"
  shows "parse_int (itoa i) = Some i"
proof (cases "i < 0")
  case True
  then show ?thesis
    using assms by (simp add: itoa_def parse_int_def has_prefix_def itoa_nat_digits)
next
  case False
  then show ?thesis
    using assms by (simp add: itoa_def parse_int_def itoa_nat_no_sign itoa_nat_digits)
qed

lemma itoa_chars: "c \<in> set (itoa i) \<Longrightarrow> is_digit c \<or> c = CHR ''-''"
  using itoa_nat_digits by (auto simp: itoa_def list_all_iff split: if_splits)

section \<open>Maps as association lists\<close>

text \<open>
  \<open>put\<close> is \<open>m[k] = v\<close>, \<open>del\<close> is \<open>delete(m, k)\<close>, \<open>get\<close> is the two-valued look-up.
\<close>

definition get :: "('k, 'v) table \<Rightarrow> 'k \<Rightarrow> 'v option" where
  "get m k = map_of m k"

definition put :: "'k \<Rightarrow> 'v \<Rightarrow> ('k, 'v) table \<Rightarrow> ('k, 'v) table" where
  "put k v m = AList.update k v m"

definition del :: "'k \<Rightarrow> ('k, 'v) table \<Rightarrow> ('k, 'v) table" where
  "del k m = AList.delete k m"

definition is_table :: "('k, 'v) table \<Rightarrow> bool" where
  "is_table m \<longleftrightarrow> distinct (map fst m)"

lemma get_Nil [simp]: "get [] k = None"
  by (simp add: get_def)

lemma get_put [table_simps]: "get (put k v m) k' = (if k' = k then Some v else get m k')"
  by (simp add: get_def put_def update_conv')

lemma get_del [table_simps]: "get (del k m) k' = (if k' = k then None else get m k')"
  by (simp add: get_def del_def delete_conv')

lemma is_table_Nil [simp]: "is_table []"
  by (simp add: is_table_def)

lemma is_table_put [simp]: "is_table m \<Longrightarrow> is_table (put k v m)"
  by (simp add: is_table_def put_def distinct_update)

lemma is_table_del [simp]: "is_table m \<Longrightarrow> is_table (del k m)"
  by (simp add: is_table_def del_def distinct_delete)

lemma is_table_filter [simp]: "is_table m \<Longrightarrow> is_table (filter P m)"
  by (simp add: is_table_def distinct_map_filter)

lemma get_in_set: "is_table m \<Longrightarrow> (k, v) \<in> set m \<longleftrightarrow> get m k = Some v"
  by (simp add: get_def is_table_def)

lemma get_SomeD: "get m k = Some v \<Longrightarrow> (k, v) \<in> set m"
  by (simp add: get_def map_of_SomeD)

lemma get_filter:
  assumes "is_table m"
  shows "get (filter (\<lambda>(k, v). P k v) m) k =
    (case get m k of None \<Rightarrow> None | Some v \<Rightarrow> if P k v then Some v else None)"
  using assms
proof (induction m)
  case Nil
  then show ?case by simp
next
  case (Cons a m)
  obtain k' v' where a: "a = (k', v')" by (cases a)
  from Cons have IH: "get (filter (\<lambda>(k, v). P k v) m) k =
    (case get m k of None \<Rightarrow> None | Some v \<Rightarrow> if P k v then Some v else None)"
    by (simp add: is_table_def)
  from Cons.prems a have "map_of m k' = None"
    by (simp add: is_table_def map_of_eq_None_iff)
  with IH a show ?case by (auto simp: get_def)
qed

text \<open>The first row with a key.\<close>

lemma find_unique:
  "distinct (map f xs) \<Longrightarrow> List.find (\<lambda>v. f v = n) xs = Some w \<longleftrightarrow> w \<in> set xs \<and> f w = n"
  by (induction xs) (auto simp: image_iff)

lemma find_SomeD: "List.find P xs = Some x \<Longrightarrow> x \<in> set xs \<and> P x"
  by (induction xs) (auto split: if_splits)

end
