(* ===== verification/Registry.thy ===== *)
theory Registry
  imports Prelude
begin

text \<open>
  The lease registry of \<open>pkg/server/auth.go\<close>: which public host is served by which tunnel,
  which tunnels belong to which client session, the ports handed out, and what was torn down
  recently.

  A \<open>*TunnelLease\<close> is shared: the host table and the session table of the code hold
  pointers to the same object, and \<open>CleanLease\<close> compares pointers. The model keeps the
  leases in a heap (a list; a pointer is a position) and the two tables hold positions.
  Nothing is ever removed from the heap, as in Go an object lives while anything refers to
  it.

  The embedded chisel server is third-party: the model records the calls made to it
  (\<open>r_chisel\<close>) and takes the outcome of \<open>AddUser\<close> as an input.
\<close>

section \<open>Leases\<close>

record port_mapping =
  pm_localPort :: int
  pm_nameSuffix :: string

record lease =
  l_userID :: string
  l_subdomainPrefix :: string
  l_fullHost :: string
  l_sessionToken :: string
  l_localPort :: int
  l_targetPort :: int
  l_rateLimit :: int
  l_baseRateLimit :: int
  l_clientIP :: string
  l_basicAuth :: string
  l_passcode :: string
  l_whitelistIPs :: string
  l_accessMode :: string
  l_addedHeaders :: "(string, string) table"
  l_status :: string
  l_bytesIn :: u64
  l_bytesOut :: u64
  l_lastBytesIn :: u64
  l_lastBytesOut :: u64
  l_lastHeartbeatBytes :: u64
  l_offlineAlertPending :: bool
  l_offlineAlertSince :: time
  l_createdAt :: time
  l_nodeID :: string
  l_visitorIPs :: "(string, time) table"
  l_launchFlags :: "string list"
  l_launchOverrides :: "(string, string) table"

text \<open>\<open>AccessControls\<close> and \<open>SetAccessControls\<close> on one lease.\<close>

definition access_controls :: "lease \<Rightarrow> string \<times> string \<times> string" where
  "access_controls l =
     (l_passcode l, l_whitelistIPs l, if l_accessMode l = [] then ''or'' else l_accessMode l)"

definition set_access_controls :: "string \<Rightarrow> string \<Rightarrow> string \<Rightarrow> lease \<Rightarrow> lease" where
  "set_access_controls pc wl am l = l\<lparr>l_passcode := pc, l_whitelistIPs := wl, l_accessMode := am\<rparr>"

text \<open>\<open>GetActiveVisitorIPs\<close>: the active addresses, and the pruned map it leaves behind.\<close>

definition get_active_visitor_ips :: "time \<Rightarrow> duration \<Rightarrow> lease \<Rightarrow> string list \<times> lease" where
  "get_active_visitor_ips now timeout l =
     (let live = filter (\<lambda>(ip, t). now - t \<le> timeout) (l_visitorIPs l)
      in (map fst live, l\<lparr>l_visitorIPs := live\<rparr>))"

section \<open>Names\<close>

definition is_alnum :: "char \<Rightarrow> bool" where
  "is_alnum c \<longleftrightarrow> is_digit c \<or> (97 \<le> (of_char c :: nat) \<and> (of_char c :: nat) \<le> 122)"

definition is_label_char :: "char \<Rightarrow> bool" where
  "is_label_char c \<longleftrightarrow> is_alnum c \<or> c = CHR ''-''"

text \<open>
  \<open>^[a-z0-9]([a-z0-9-]*[a-z0-9])?$\<close>: one alphanumeric, optionally followed by label
  characters of which the last is alphanumeric.
\<close>

definition subdomain_regex :: "string \<Rightarrow> bool" where
  "subdomain_regex s \<longleftrightarrow>
     (case s of [] \<Rightarrow> False
      | c # m \<Rightarrow> is_alnum c \<and> (m = [] \<or> (list_all is_label_char (butlast m) \<and> is_alnum (last m))))"

definition reserved_subdomains :: "string list" where
  "reserved_subdomains =
     [''www'', ''tunnel'', ''admin'', ''api'', ''mail'', ''blog'', ''git'', ''auth'', ''portal'',
      ''billing'', ''root'', ''assets'', ''static'', ''dev'', ''test'', ''prod'', ''status'']"

definition is_valid_subdomain :: "string \<Rightarrow> bool" where
  "is_valid_subdomain s0 =
     (let s = to_lower s0
      in if length s < 3 \<or> 63 < length s then False
         else if s \<in> set reserved_subdomains then False
         else subdomain_regex s)"

text \<open>
  The host a port mapping is published on. The separator is added here: an index suffix is
  the bare local port, and a suffix supplied by the client is used as it came.
\<close>

definition host_suffix :: "nat \<Rightarrow> port_mapping \<Rightarrow> string" where
  "host_suffix idx pm =
     (if pm_nameSuffix pm = [] \<and> 0 < idx then itoa (pm_localPort pm) else pm_nameSuffix pm)"

definition mapping_subdomain :: "string \<Rightarrow> string \<Rightarrow> string" where
  "mapping_subdomain pre suffix =
     (if suffix = [] then pre
      else if pre = [] then trim_prefix suffix ''-''
      else pre @ ''-'' @ suffix)"

definition full_host :: "string \<Rightarrow> string \<Rightarrow> string" where
  "full_host subdomain domain = (if subdomain = [] then domain else subdomain @ ''.'' @ domain)"

definition mapping_hosts :: "string \<Rightarrow> string list \<Rightarrow> nat \<times> port_mapping \<Rightarrow> string list" where
  "mapping_hosts pre domains ip =
     map (full_host (mapping_subdomain pre (host_suffix (fst ip) (snd ip)))) domains"

section \<open>The registry\<close>

datatype chisel_call =
    AddUser string string "string list" bool  \<comment> \<open>name, password, remotes, accepted\<close>
  | DeleteUser string

record byte_delta =
  d_userID :: string
  d_subdomainPrefix :: string
  d_fullHost :: string
  d_bytesIn :: int
  d_bytesOut :: int
  d_connectedAt :: time

record registry =
  r_heap :: "lease list"
  r_leases :: "(string, nat) table"
  r_sessions :: "(string, nat list) table"
  r_usedPorts :: "(int, bool) table"
  r_chisel :: "chisel_call list"
  r_nodeID :: string
  r_cleaned :: "(string, time) table"
  r_released :: "(string, time) table"
  r_reported :: "byte_delta list"

definition new_registry :: registry where
  "new_registry = \<lparr>r_heap = [], r_leases = [], r_sessions = [], r_usedPorts = [], r_chisel = [],
     r_nodeID = [], r_cleaned = [], r_released = [], r_reported = []\<rparr>"

definition set_node_id :: "string \<Rightarrow> registry \<Rightarrow> registry" where
  "set_node_id i r = r\<lparr>r_nodeID := trim_space i\<rparr>"

definition local_node_id :: "registry \<Rightarrow> string" where
  "local_node_id r = (if r_nodeID r = [] then ''control'' else r_nodeID r)"

text \<open>Reading and updating through a pointer.\<close>

definition deref :: "registry \<Rightarrow> nat \<Rightarrow> lease" where
  "deref r p = r_heap r ! p"

definition modify :: "(lease \<Rightarrow> lease) \<Rightarrow> nat \<Rightarrow> registry \<Rightarrow> registry" where
  "modify f p r = r\<lparr>r_heap := (r_heap r)[p := f (deref r p)]\<rparr>"

definition modify_all :: "(lease \<Rightarrow> lease) \<Rightarrow> nat list \<Rightarrow> registry \<Rightarrow> registry" where
  "modify_all f ps r = fold (modify f) ps r"

definition get_lease :: "registry \<Rightarrow> string \<Rightarrow> lease option" where
  "get_lease r host = map_option (deref r) (get (r_leases r) host)"

definition session_pointers :: "registry \<Rightarrow> string \<Rightarrow> nat list" where
  "session_pointers r tok = (case get (r_sessions r) tok of None \<Rightarrow> [] | Some ps \<Rightarrow> ps)"

definition get_session_leases :: "registry \<Rightarrow> string \<Rightarrow> lease list" where
  "get_session_leases r tok = map (deref r) (session_pointers r tok)"

section \<open>What was torn down recently\<close>

definition cleaned_session_ttl :: duration where "cleaned_session_ttl = 10 * minute"
definition released_host_ttl :: duration where "released_host_ttl = 5 * minute"

definition remember_cleaned_session :: "time \<Rightarrow> string \<Rightarrow> registry \<Rightarrow> registry" where
  "remember_cleaned_session now tok r =
     r\<lparr>r_cleaned := put tok now (filter (\<lambda>(k, t). \<not> cleaned_session_ttl \<le> now - t) (r_cleaned r))\<rparr>"

definition remember_released_host :: "time \<Rightarrow> string \<Rightarrow> registry \<Rightarrow> registry" where
  "remember_released_host now host r =
     r\<lparr>r_released := put host now (filter (\<lambda>(k, t). \<not> released_host_ttl \<le> now - t) (r_released r))\<rparr>"

definition session_was_cleaned :: "time \<Rightarrow> string \<Rightarrow> registry \<Rightarrow> bool" where
  "session_was_cleaned now tok r =
     (case get (r_cleaned r) tok of None \<Rightarrow> False | Some t \<Rightarrow> now - t < cleaned_session_ttl)"

definition recently_released :: "time \<Rightarrow> string \<Rightarrow> registry \<Rightarrow> bool" where
  "recently_released now host r =
     (case get (r_released r) host of None \<Rightarrow> False | Some t \<Rightarrow> now - t < released_host_ttl)"

section \<open>Register\<close>

datatype register_error =
    Empty_prefix | Invalid_prefix string | No_ports | No_domains
  | Already_registered string | Token_failed | Port_failed | Chisel_failed

text \<open>
  What \<open>Register\<close> obtains from outside the registry: the session token (none when the
  random source fails), the answers of successive \<open>getFreePort\<close> calls, whether chisel
  accepts the user, and the clock.
\<close>

record register_env =
  env_token :: "string option"
  env_ports :: "int option list"
  env_chisel_ok :: bool
  env_now :: time

record register_request =
  rq_userID :: string
  rq_prefix :: string
  rq_ports :: "port_mapping list"
  rq_domains :: "string list"
  rq_rateLimit :: int
  rq_clientIP :: string
  rq_basicAuth :: string
  rq_addedHeaders :: "(string, string) table"

text \<open>
  Step 1 visits every host of the request. A host held by the same user is released on the
  spot; a host held by somebody else stops the registration, keeping the releases already
  made.
\<close>

fun claim_hosts :: "string \<Rightarrow> string list \<Rightarrow> registry \<Rightarrow> string option \<times> registry" where
  "claim_hosts uid [] r = (None, r)"
| "claim_hosts uid (h # hs) r =
     (case get (r_leases r) h of
        None \<Rightarrow> claim_hosts uid hs r
      | Some p \<Rightarrow>
          (if l_userID (deref r p) = uid
           then claim_hosts uid hs
                  (r\<lparr>r_leases := del h (r_leases r),
                     r_usedPorts := del (l_localPort (deref r p)) (r_usedPorts r)\<rparr>)
           else (Some h, r)))"

definition new_lease :: "register_request \<Rightarrow> string \<Rightarrow> time \<Rightarrow> string \<Rightarrow> int \<Rightarrow> int \<Rightarrow> string \<Rightarrow> lease" where
  "new_lease rq tok now node port target host =
     \<lparr>l_userID = rq_userID rq, l_subdomainPrefix = rq_prefix rq, l_fullHost = host,
      l_sessionToken = tok, l_localPort = port, l_targetPort = target,
      l_rateLimit = rq_rateLimit rq, l_baseRateLimit = rq_rateLimit rq,
      l_clientIP = rq_clientIP rq, l_basicAuth = rq_basicAuth rq,
      l_passcode = [], l_whitelistIPs = [], l_accessMode = [],
      l_addedHeaders = rq_addedHeaders rq, l_status = ''up'',
      l_bytesIn = 0, l_bytesOut = 0, l_lastBytesIn = 0, l_lastBytesOut = 0,
      l_lastHeartbeatBytes = 0, l_offlineAlertPending = False, l_offlineAlertSince = 0,
      l_createdAt = now, l_nodeID = node, l_visitorIPs = [],
      l_launchFlags = [], l_launchOverrides = []\<rparr>"

text \<open>One lease: allocated on the heap and entered in the host table.\<close>

definition add_lease :: "lease \<Rightarrow> registry \<Rightarrow> nat \<times> registry" where
  "add_lease l r =
     (let p = length (r_heap r)
      in (p, r\<lparr>r_heap := r_heap r @ [l], r_leases := put (l_fullHost l) p (r_leases r)\<rparr>))"

fun add_leases :: "lease list \<Rightarrow> registry \<Rightarrow> nat list \<times> registry" where
  "add_leases [] r = ([], r)"
| "add_leases (l # ls) r =
     (let (p, r1) = add_lease l r; (ps, r2) = add_leases ls r1 in (p # ps, r2))"

definition allowed_remote :: "int \<Rightarrow> string" where
  "allowed_remote port = ''^R:.*:'' @ itoa port @ ''(:.*)?$''"

text \<open>
  Step 3, one port mapping after another. \<open>None\<close> is the early return when no free port can
  be had; the leases entered so far stay where they are, as in the code.
\<close>

fun allocate ::
  "register_request \<Rightarrow> string \<Rightarrow> time \<Rightarrow> (nat \<times> port_mapping) list \<Rightarrow> int option list \<Rightarrow> registry
   \<Rightarrow> (nat list \<times> string list) option \<times> registry" where
  "allocate rq tok now [] answers r = (Some ([], []), r)"
| "allocate rq tok now (ip # ips) answers r =
     (case answers of
        Some port # answers' \<Rightarrow>
          (let ls = map (new_lease rq tok now (local_node_id r) port (pm_localPort (snd ip)))
                      (mapping_hosts (rq_prefix rq) (rq_domains rq) ip);
               (ps, r1) = add_leases ls r;
               (res, r2) = allocate rq tok now ips answers'
                             (r1\<lparr>r_usedPorts := put port True (r_usedPorts r1)\<rparr>)
           in (map_option (\<lambda>(qs, rs). (ps @ qs, allowed_remote port # rs)) res, r2))
      | _ \<Rightarrow> (None, r))"

text \<open>Rollback after chisel refused the user.\<close>

definition roll_back :: "nat list \<Rightarrow> registry \<Rightarrow> registry" where
  "roll_back ps r =
     fold (\<lambda>p s. s\<lparr>r_leases := del (l_fullHost (deref s p)) (r_leases s),
                   r_usedPorts := del (l_localPort (deref s p)) (r_usedPorts s)\<rparr>) ps r"

text \<open>The remotes the client is told to open, one per distinct local port.\<close>

fun client_remotes :: "int list \<Rightarrow> lease list \<Rightarrow> string list" where
  "client_remotes seen [] = []"
| "client_remotes seen (l # ls) =
     (if l_localPort l \<in> set seen then client_remotes seen ls
      else (''R:127.0.0.1:'' @ itoa (l_localPort l) @ '':localhost:'' @ itoa (l_targetPort l))
             # client_remotes (l_localPort l # seen) ls)"

definition request_hosts :: "register_request \<Rightarrow> string list" where
  "request_hosts rq =
     concat (map (mapping_hosts (rq_prefix rq) (rq_domains rq)) (enumerate 0 (rq_ports rq)))"

definition register_check :: "register_request \<Rightarrow> register_error option" where
  "register_check rq =
     (if rq_prefix rq = [] \<and> (length (rq_domains rq) \<noteq> 1 \<or> rq_domains rq ! 0 = []) then Some Empty_prefix
      else if rq_prefix rq \<noteq> [] \<and> \<not> is_valid_subdomain (rq_prefix rq)
           then Some (Invalid_prefix (rq_prefix rq))
      else if rq_ports rq = [] then Some No_ports
      else if rq_domains rq = [] then Some No_domains
      else None)"

definition register ::
  "register_env \<Rightarrow> register_request \<Rightarrow> registry \<Rightarrow> (register_error + string \<times> string list) \<times> registry" where
  "register env rq r =
     (case register_check rq of
        Some e \<Rightarrow> (Inl e, r)
      | None \<Rightarrow>
     (case claim_hosts (rq_userID rq) (request_hosts rq) r of
        (Some h, r1) \<Rightarrow> (Inl (Already_registered h), r1)
      | (None, r1) \<Rightarrow>
     (case env_token env of
        None \<Rightarrow> (Inl Token_failed, r1)
      | Some tok \<Rightarrow>
     (case allocate rq tok (env_now env) (enumerate 0 (rq_ports rq)) (env_ports env) r1 of
        (None, r2) \<Rightarrow> (Inl Port_failed, r2)
      | (Some (ps, remotes), r2) \<Rightarrow>
          (let r3 = r2\<lparr>r_sessions := put tok ps (r_sessions r2),
                       r_chisel := r_chisel r2 @ [AddUser tok tok remotes (env_chisel_ok env)]\<rparr>
           in if \<not> env_chisel_ok env
              then (Inl Chisel_failed,
                    (roll_back ps r3)\<lparr>r_sessions := del tok (r_sessions r3)\<rparr>)
              else (Inr (tok, client_remotes [] (map (deref r3) ps)), r3))))))"

section \<open>Changing live leases\<close>

definition set_access_controls_for_host ::
  "string \<Rightarrow> string \<Rightarrow> string \<Rightarrow> string \<Rightarrow> registry \<Rightarrow> bool \<times> registry" where
  "set_access_controls_for_host host pc wl am r =
     (case get (r_leases r) host of
        None \<Rightarrow> (False, r)
      | Some p \<Rightarrow> (True, modify (set_access_controls pc wl am) p r))"

text \<open>The pointers in the host table, in iteration order, whose lease satisfies a test.\<close>

definition routed_where :: "(lease \<Rightarrow> bool) \<Rightarrow> registry \<Rightarrow> nat list" where
  "routed_where P r = filter (\<lambda>p. P (deref r p)) (map snd (r_leases r))"

definition set_access_controls_for_subdomain ::
  "string \<Rightarrow> string \<Rightarrow> string \<Rightarrow> string \<Rightarrow> registry \<Rightarrow> nat \<times> registry" where
  "set_access_controls_for_subdomain sub pc wl am r =
     (let ps = routed_where (\<lambda>l. l_subdomainPrefix l = sub) r
      in (length ps, modify_all (set_access_controls pc wl am) ps r))"

definition set_access_controls_for_session ::
  "string \<Rightarrow> string \<Rightarrow> string \<Rightarrow> string \<Rightarrow> registry \<Rightarrow> registry" where
  "set_access_controls_for_session tok pc wl am r =
     modify_all (set_access_controls pc wl am) (session_pointers r tok) r"

definition set_launch_context_for_session ::
  "string \<Rightarrow> string list \<Rightarrow> (string, string) table \<Rightarrow> registry \<Rightarrow> registry" where
  "set_launch_context_for_session tok flags overrides r =
     modify_all (\<lambda>l. l\<lparr>l_launchFlags := flags, l_launchOverrides := overrides\<rparr>)
       (session_pointers r tok) r"

text \<open>\<open>applyAccessControlsToLeases\<close>, with the per-domain rules as a table.\<close>

fun apply_access_controls_to_leases ::
  "string \<Rightarrow> string list \<Rightarrow> (string, string \<times> string \<times> string) table \<Rightarrow> registry \<Rightarrow> registry" where
  "apply_access_controls_to_leases sub [] acs r = r"
| "apply_access_controls_to_leases sub (d # ds) acs r =
     (case get acs d of
        None \<Rightarrow> apply_access_controls_to_leases sub ds acs r
      | Some (pc, wl, am) \<Rightarrow>
          apply_access_controls_to_leases sub ds acs
            (snd (set_access_controls_for_host (full_host sub d) pc wl am r)))"

definition update_lease_headers ::
  "string \<Rightarrow> (string, string) table \<Rightarrow> registry \<Rightarrow> bool \<times> registry" where
  "update_lease_headers host hs r =
     (case get (r_leases r) host of
        None \<Rightarrow> (False, r)
      | Some p \<Rightarrow> (True, modify (\<lambda>l. l\<lparr>l_addedHeaders := hs\<rparr>) p r))"

definition update_lease_rate_limit :: "string \<Rightarrow> int \<Rightarrow> registry \<Rightarrow> bool \<times> registry" where
  "update_lease_rate_limit host n r =
     (case get (r_leases r) host of
        None \<Rightarrow> (False, r)
      | Some p \<Rightarrow> (True, modify (\<lambda>l. l\<lparr>l_rateLimit := n, l_baseRateLimit := n\<rparr>) p r))"

definition set_quota_rate_limit_for_user :: "string \<Rightarrow> int \<Rightarrow> registry \<Rightarrow> nat \<times> registry" where
  "set_quota_rate_limit_for_user uid limit r =
     (let ps = routed_where (\<lambda>l. l_userID l = uid) r
      in (length ps, modify_all (\<lambda>l. l\<lparr>l_rateLimit := limit\<rparr>) ps r))"

text \<open>
  The test of \<open>ClearQuotaRateLimitForUser\<close>: the user's lease is off its baseline, and the
  baseline is not the zero the code reads as "nothing to restore to".
\<close>

definition restorable :: "string \<Rightarrow> lease \<Rightarrow> bool" where
  "restorable uid l \<longleftrightarrow>
     \<not> (l_userID l \<noteq> uid \<or> l_rateLimit l = l_baseRateLimit l) \<and>
     \<not> (l_baseRateLimit l = 0 \<and> 0 < l_rateLimit l)"

definition clear_quota_rate_limit_for_user :: "string \<Rightarrow> registry \<Rightarrow> nat \<times> registry" where
  "clear_quota_rate_limit_for_user uid r =
     (let ps = routed_where (restorable uid) r
      in (length ps, modify_all (\<lambda>l. l\<lparr>l_rateLimit := l_baseRateLimit l\<rparr>) ps r))"

definition lease_subdomains_for_user :: "string \<Rightarrow> registry \<Rightarrow> string list" where
  "lease_subdomains_for_user uid r =
     rev (remdups (rev (map (\<lambda>p. l_subdomainPrefix (deref r p))
        (routed_where (\<lambda>l. l_userID l = uid) r))))"

section \<open>Availability and suggestions\<close>

datatype subdomain_answer =
    Available | Empty_subdomain | Bad_length | Reserved_name | Bad_characters | Taken

fun domain_taken :: "registry \<Rightarrow> string \<Rightarrow> string \<Rightarrow> string list \<Rightarrow> bool" where
  "domain_taken r sub uid [] = False"
| "domain_taken r sub uid (d # ds) =
     (case get_lease r (sub @ ''.'' @ d) of
        Some l \<Rightarrow> (if uid \<noteq> [] \<and> l_userID l = uid then domain_taken r sub uid ds else True)
      | None \<Rightarrow> domain_taken r sub uid ds)"

definition check_subdomain_for_user ::
  "registry \<Rightarrow> string \<Rightarrow> string list \<Rightarrow> string \<Rightarrow> subdomain_answer" where
  "check_subdomain_for_user r sub0 domains uid =
     (if sub0 = [] then Empty_subdomain
      else let sub = to_lower (trim_space sub0)
      in if length sub < 3 \<or> 63 < length sub then Bad_length
         else if sub \<in> set reserved_subdomains then Reserved_name
         else if \<not> subdomain_regex sub then Bad_characters
         else if domain_taken r sub uid domains then Taken
         else Available)"

definition check_subdomain :: "registry \<Rightarrow> string \<Rightarrow> string list \<Rightarrow> subdomain_answer" where
  "check_subdomain r sub domains = check_subdomain_for_user r sub domains []"

definition suggestion_base :: "string \<Rightarrow> string" where
  "suggestion_base sub =
     (let base = filter is_label_char (to_lower (trim_space sub))
      in if length base < 3
         then (let base' = ''dev-'' @ base in if length base' < 3 then ''dev-tunnel'' else base')
         else base)"

definition suggestion_suffixes :: "string list" where
  "suggestion_suffixes =
     [''-dev'', ''-app'', ''-tunnel'', ''-se'', ''-1'', ''-2'', ''-3'', ''-hub'', ''-node'', ''-local'']"

definition suggestion_candidate :: "string \<Rightarrow> string \<Rightarrow> string" where
  "suggestion_candidate base suffix =
     (let c = base @ suffix
      in if 63 < length c
         then (let c' = take 63 c in if has_suffix c' ''-'' then take 62 c else c')
         else c)"

text \<open>First loop: stop at the third suggestion.\<close>

fun suffix_suggestions :: "registry \<Rightarrow> string list \<Rightarrow> string \<Rightarrow> string list \<Rightarrow> string list \<Rightarrow> string list" where
  "suffix_suggestions r domains base [] acc = acc"
| "suffix_suggestions r domains base (s # ss) acc =
     (let c = suggestion_candidate base s
      in if check_subdomain r c domains = Available
         then (if 3 \<le> length (acc @ [c]) then acc @ [c]
               else suffix_suggestions r domains base ss (acc @ [c]))
         else suffix_suggestions r domains base ss acc)"

text \<open>
  Second loop: \<open>i\<close> runs from 1 while fewer than three are found and \<open>i < 20\<close>; the clock is
  read afresh for every candidate, so the readings are an input.
\<close>

fun numbered_suggestions ::
  "registry \<Rightarrow> string list \<Rightarrow> string \<Rightarrow> (nat \<Rightarrow> time) \<Rightarrow> nat list \<Rightarrow> string list \<Rightarrow> string list" where
  "numbered_suggestions r domains base clock [] acc = acc"
| "numbered_suggestions r domains base clock (i # is) acc =
     (if length acc < 3
      then (let c = base @ ''-'' @ itoa (clock i mod 1000 + int i)
            in numbered_suggestions r domains base clock is
                 (if check_subdomain r c domains = Available then acc @ [c] else acc))
      else acc)"

definition generate_suggestions ::
  "registry \<Rightarrow> string \<Rightarrow> string list \<Rightarrow> (nat \<Rightarrow> time) \<Rightarrow> string list" where
  "generate_suggestions r sub domains clock =
     (let base = suggestion_base sub
      in numbered_suggestions r domains base clock [1..<20]
           (suffix_suggestions r domains base suggestion_suffixes []))"

end
