(* ===== verification/Registry_Lifecycle.thy ===== *)
theory Registry_Lifecycle
  imports Registry
begin

text \<open>
  The rest of the lease registry: tearing a session down (\<open>CleanLease\<close> with the cleanup
  callback \<open>NewServer\<close> installs), the sweep for dead tunnels, kicking a tunnel, the byte
  watermarks that feed metrics and quotas, the sorted snapshot the portals read, and the
  heartbeat with its offline alert (\<open>pkg/server/tunnel_offline.go\<close>).
\<close>

section \<open>Byte accounting\<close>

text \<open>
  \<open>int64(a - b)\<close> on two counters: the subtraction wraps in 64 bits and the result is read
  as a signed number.
\<close>

definition signed_diff :: "u64 \<Rightarrow> u64 \<Rightarrow> int" where
  "signed_diff a b = sint (a - b)"

definition advance_watermark :: "lease \<Rightarrow> lease" where
  "advance_watermark l = l\<lparr>l_lastBytesIn := l_bytesIn l, l_lastBytesOut := l_bytesOut l\<rparr>"

text \<open>The delta one lease has to report, if any.\<close>

definition lease_delta :: "lease \<Rightarrow> byte_delta list" where
  "lease_delta l =
     (let i = signed_diff (l_bytesIn l) (l_lastBytesIn l);
          out = signed_diff (l_bytesOut l) (l_lastBytesOut l)
      in if i \<le> 0 \<and> out \<le> 0 then []
         else [\<lparr>d_userID = l_userID l, d_subdomainPrefix = l_subdomainPrefix l,
                d_fullHost = l_fullHost l, d_bytesIn = i, d_bytesOut = out,
                d_connectedAt = l_createdAt l\<rparr>])"

fun take_deltas :: "nat list \<Rightarrow> registry \<Rightarrow> byte_delta list \<times> registry" where
  "take_deltas [] r = ([], r)"
| "take_deltas (p # ps) r =
     (let d = lease_delta (deref r p);
          (ds, r') = take_deltas ps (modify advance_watermark p r)
      in (d @ ds, r'))"

definition take_byte_deltas :: "registry \<Rightarrow> byte_delta list \<times> registry" where
  "take_byte_deltas r = take_deltas (map snd (r_leases r)) r"

section \<open>Teardown\<close>

text \<open>
  The cleanup callback, as far as the registry and the metrics feed see it: the final delta
  of the lease is handed to the feed (\<open>r_reported\<close>) and the watermark advances. Its other
  effects (rate limiter, DNS, telemetry, control-plane notice) are outside the registry.
\<close>

definition on_lease_cleanup :: "nat \<Rightarrow> registry \<Rightarrow> registry" where
  "on_lease_cleanup p r =
     (modify advance_watermark p r)\<lparr>r_reported := r_reported r @ lease_delta (deref r p)\<rparr>"

text \<open>
  One lease of the session: the route is removed only while it still points at this very
  lease, and only then is the host remembered as released.
\<close>

definition drop_lease :: "time \<Rightarrow> nat \<Rightarrow> registry \<Rightarrow> registry" where
  "drop_lease now p r0 =
     (let r = on_lease_cleanup p r0; l = deref r p;
          r1 = (if get (r_leases r) (l_fullHost l) = Some p
                then remember_released_host now (l_fullHost l)
                       (r\<lparr>r_leases := del (l_fullHost l) (r_leases r)\<rparr>)
                else r)
      in r1\<lparr>r_usedPorts := del (l_localPort l) (r_usedPorts r1)\<rparr>)"

definition clean_lease :: "time \<Rightarrow> string \<Rightarrow> registry \<Rightarrow> registry" where
  "clean_lease now tok r =
     (case get (r_sessions r) tok of
        None \<Rightarrow> r
      | Some ps \<Rightarrow>
          (let r1 = fold (drop_lease now) ps r;
               r2 = remember_cleaned_session now tok (r1\<lparr>r_sessions := del tok (r_sessions r1)\<rparr>)
           in r2\<lparr>r_chisel := r_chisel r2 @ [DeleteUser tok]\<rparr>))"

text \<open>
  The sweep: the tokens are copied first, then each session's first lease decides. The
  outcome of dialling a local port is an input (\<open>listening\<close>).
\<close>

definition sweep_session :: "time \<Rightarrow> (int \<Rightarrow> bool) \<Rightarrow> string \<Rightarrow> registry \<Rightarrow> registry" where
  "sweep_session now listening tok r =
     (case get (r_sessions r) tok of
        Some (p # ps) \<Rightarrow>
          (if now - l_createdAt (deref r p) < 30 * second then r
           else if \<not> listening (l_localPort (deref r p)) then clean_lease now tok r
           else r)
      | _ \<Rightarrow> r)"

definition cleanup_orphan_leases :: "time \<Rightarrow> (int \<Rightarrow> bool) \<Rightarrow> registry \<Rightarrow> registry" where
  "cleanup_orphan_leases now listening r =
     fold (sweep_session now listening) (map fst (r_sessions r)) r"

text \<open>\<open>KickLease\<close>: the first host, in iteration order, under the prefix decides the session.\<close>

definition kick_lease :: "time \<Rightarrow> string \<Rightarrow> registry \<Rightarrow> bool \<times> registry" where
  "kick_lease now pre r =
     (case List.find (\<lambda>(host, p). has_prefix host (pre @ ''.'')) (r_leases r) of
        None \<Rightarrow> (False, r)
      | Some (host, p) \<Rightarrow>
          (if l_sessionToken (deref r p) \<noteq> [] then (True, clean_lease now (l_sessionToken (deref r p)) r)
           else (False, r)))"

section \<open>The snapshot\<close>

text \<open>\<open>ListLeases\<close> copies these fields; the watermarks and the baseline limit are left zero.\<close>

definition snapshot_lease :: "lease \<Rightarrow> lease" where
  "snapshot_lease l =
     \<lparr>l_userID = l_userID l, l_subdomainPrefix = l_subdomainPrefix l, l_fullHost = l_fullHost l,
      l_sessionToken = l_sessionToken l, l_localPort = l_localPort l, l_targetPort = l_targetPort l,
      l_rateLimit = l_rateLimit l, l_baseRateLimit = 0, l_clientIP = l_clientIP l,
      l_basicAuth = l_basicAuth l, l_passcode = [], l_whitelistIPs = [], l_accessMode = [],
      l_addedHeaders = l_addedHeaders l, l_status = l_status l,
      l_bytesIn = l_bytesIn l, l_bytesOut = l_bytesOut l, l_lastBytesIn = 0, l_lastBytesOut = 0,
      l_lastHeartbeatBytes = 0, l_offlineAlertPending = False, l_offlineAlertSince = 0,
      l_createdAt = l_createdAt l, l_nodeID = l_nodeID l, l_visitorIPs = [],
      l_launchFlags = l_launchFlags l, l_launchOverrides = l_launchOverrides l\<rparr>"

text \<open>Go compares strings bytewise.\<close>

fun string_le :: "string \<Rightarrow> string \<Rightarrow> bool" where
  "string_le [] t = True"
| "string_le (c # s) [] = False"
| "string_le (c # s) (d # t) =
     ((of_char c :: nat) < of_char d \<or> (c = d \<and> string_le s t))"

fun insert_by_host :: "lease \<Rightarrow> lease list \<Rightarrow> lease list" where
  "insert_by_host l [] = [l]"
| "insert_by_host l (m # ms) =
     (if string_le (l_fullHost l) (l_fullHost m) then l # m # ms else m # insert_by_host l ms)"

definition sort_by_host :: "lease list \<Rightarrow> lease list" where
  "sort_by_host ls = foldr insert_by_host ls []"

definition list_leases :: "registry \<Rightarrow> lease list" where
  "list_leases r = sort_by_host (map (\<lambda>(h, p). snapshot_lease (deref r p)) (r_leases r))"

section \<open>Heartbeats and the offline alert\<close>

datatype offline_action = Alert_none | Alert_send | Alert_held

definition max_offline_alert_hold :: duration where "max_offline_alert_hold = minute"

definition note_bytes :: "lease \<Rightarrow> lease" where
  "note_bytes l = l\<lparr>l_lastHeartbeatBytes := l_bytesIn l + l_bytesOut l\<rparr>"

definition carried_bytes :: "lease \<Rightarrow> bool" where
  "carried_bytes l \<longleftrightarrow> l_lastHeartbeatBytes l < l_bytesIn l + l_bytesOut l"

definition note_heartbeat ::
  "string \<Rightarrow> string \<Rightarrow> time \<Rightarrow> registry \<Rightarrow> (bool \<times> offline_action) \<times> registry" where
  "note_heartbeat tok status now r =
     (case get (r_sessions r) tok of
        None \<Rightarrow> ((False, Alert_none), r)
      | Some [] \<Rightarrow> ((False, Alert_none), r)
      | Some (p # ps) \<Rightarrow>
          (let qs = p # ps;
               served = list_ex (\<lambda>q. carried_bytes (deref r q)) qs;
               changed = list_ex (\<lambda>q. l_status (deref r q) \<noteq> status) qs;
               r1 = modify_all (\<lambda>l. (note_bytes l)\<lparr>l_status := status\<rparr>) qs r
           in if status \<noteq> ''down''
              then ((True, Alert_none), modify_all (\<lambda>l. l\<lparr>l_offlineAlertPending := False\<rparr>) qs r1)
              else
              (let r2 = (if changed
                         then modify_all (\<lambda>l. l\<lparr>l_offlineAlertPending := True,
                                                 l_offlineAlertSince := now\<rparr>) qs r1
                         else r1)
               in if \<not> l_offlineAlertPending (deref r2 p) then ((True, Alert_none), r2)
                  else if served \<and> now - l_offlineAlertSince (deref r2 p) < max_offline_alert_hold
                  then ((True, Alert_held), r2)
                  else ((True, Alert_send),
                        modify_all (\<lambda>l. l\<lparr>l_offlineAlertPending := False\<rparr>) qs r2))))"

text \<open>\<open>sessionTokenSuffix\<close>: what of a token may reach a log line (the ellipsis in UTF-8).\<close>

definition ellipsis :: string where
  "ellipsis = map char_of [226 :: nat, 128, 166]"

definition session_token_suffix :: "string \<Rightarrow> string" where
  "session_token_suffix tok =
     (if length tok \<le> 2 * 6 then ellipsis else ellipsis @ drop (length tok - 6) tok)"

end
