(* ===== verification/Registry_Facts.thy ===== *)
theory Registry_Facts
  imports Registry_Lifecycle
begin

text \<open>
  Lemmas about the lease registry: reading after writing through pointers, the
  well-formedness invariant and its preservation, what \<open>register\<close> and \<open>clean_lease\<close> do to
  the host table, and the contract of the two "torn down recently" memories.
\<close>

section \<open>Pointers\<close>

lemma modify_frame [simp]:
  "r_leases (modify f p r) = r_leases r" "r_sessions (modify f p r) = r_sessions r"
  "r_usedPorts (modify f p r) = r_usedPorts r" "r_chisel (modify f p r) = r_chisel r"
  "r_nodeID (modify f p r) = r_nodeID r" "r_cleaned (modify f p r) = r_cleaned r"
  "r_released (modify f p r) = r_released r" "r_reported (modify f p r) = r_reported r"
  "length (r_heap (modify f p r)) = length (r_heap r)"
  by (simp_all add: modify_def)

lemma modify_all_frame [simp]:
  "r_leases (modify_all f ps r) = r_leases r" "r_sessions (modify_all f ps r) = r_sessions r"
  "r_usedPorts (modify_all f ps r) = r_usedPorts r" "r_chisel (modify_all f ps r) = r_chisel r"
  "r_nodeID (modify_all f ps r) = r_nodeID r" "r_cleaned (modify_all f ps r) = r_cleaned r"
  "r_released (modify_all f ps r) = r_released r" "r_reported (modify_all f ps r) = r_reported r"
  "length (r_heap (modify_all f ps r)) = length (r_heap r)"
  by (induction ps arbitrary: r) (simp_all add: modify_all_def)

lemma deref_modify:
  "p < length (r_heap r) \<Longrightarrow> deref (modify f p r) q = (if q = p then f (deref r p) else deref r q)"
  by (simp add: deref_def modify_def)

lemma deref_modify_all:
  assumes "\<forall>p \<in> set ps. p < length (r_heap r)" "distinct ps"
  shows "deref (modify_all f ps r) q = (if q \<in> set ps then f (deref r q) else deref r q)"
  using assms
proof (induction ps arbitrary: r)
  case Nil
  then show ?case by (simp add: modify_all_def)
next
  case (Cons p ps)
  then have "deref (modify_all f ps (modify f p r)) q
      = (if q \<in> set ps then f (deref (modify f p r) q) else deref (modify f p r) q)"
    by simp
  with Cons.prems show ?case by (auto simp: modify_all_def deref_modify)
qed

section \<open>Well-formedness\<close>

text \<open>
  The tables have distinct keys, every route points at an allocated lease for that very
  host, and every session lists allocated leases that carry its token.
\<close>

definition registry_wf :: "registry \<Rightarrow> bool" where
  "registry_wf r \<longleftrightarrow>
     is_table (r_leases r) \<and> is_table (r_sessions r) \<and>
     (\<forall>h p. get (r_leases r) h = Some p \<longrightarrow> p < length (r_heap r) \<and> l_fullHost (deref r p) = h) \<and>
     (\<forall>tok ps. get (r_sessions r) tok = Some ps \<longrightarrow>
        distinct ps \<and> (\<forall>p \<in> set ps. p < length (r_heap r) \<and> l_sessionToken (deref r p) = tok))"

text \<open>Every routed lease is listed by its own session, so the sweep can reach it.\<close>

definition routes_owned :: "registry \<Rightarrow> bool" where
  "routes_owned r \<longleftrightarrow>
     (\<forall>h p. get (r_leases r) h = Some p \<longrightarrow> p \<in> set (session_pointers r (l_sessionToken (deref r p))))"

lemma new_registry_wf [simp]: "registry_wf new_registry" "routes_owned new_registry"
  by (simp_all add: registry_wf_def routes_owned_def new_registry_def)

lemma wf_route:
  "registry_wf r \<Longrightarrow> get (r_leases r) h = Some p \<Longrightarrow> p < length (r_heap r) \<and> l_fullHost (deref r p) = h"
  by (simp add: registry_wf_def)

lemma wf_session:
  "registry_wf r \<Longrightarrow> get (r_sessions r) tok = Some ps \<Longrightarrow>
   distinct ps \<and> (\<forall>p \<in> set ps. p < length (r_heap r) \<and> l_sessionToken (deref r p) = tok)"
  by (simp add: registry_wf_def)

lemma wf_routes_distinct:
  assumes "registry_wf r"
  shows "distinct (map snd (r_leases r))" "\<forall>p \<in> set (map snd (r_leases r)). p < length (r_heap r)"
proof -
  have tab: "is_table (r_leases r)" using assms by (simp add: registry_wf_def)
  have *: "p < length (r_heap r) \<and> l_fullHost (deref r p) = h" if "(h, p) \<in> set (r_leases r)" for h p
    using that assms tab by (auto simp: get_in_set dest: wf_route)
  then show "\<forall>p \<in> set (map snd (r_leases r)). p < length (r_heap r)" by auto
  have "map fst (r_leases r) = map (\<lambda>p. l_fullHost (deref r p)) (map snd (r_leases r))"
    using * by auto
  then have "distinct (map (\<lambda>p. l_fullHost (deref r p)) (map snd (r_leases r)))"
    using tab by (metis is_table_def)
  then show "distinct (map snd (r_leases r))" by (simp only: distinct_map)
qed

lemma routed_where_props:
  assumes "registry_wf r"
  shows "distinct (routed_where P r)" "\<forall>p \<in> set (routed_where P r). p < length (r_heap r)"
  using wf_routes_distinct [OF assms] by (auto simp: routed_where_def)

lemma in_routed_where:
  assumes "registry_wf r"
  shows "p \<in> set (routed_where P r) \<longleftrightarrow> (\<exists>h. get (r_leases r) h = Some p) \<and> P (deref r p)"
proof -
  have "is_table (r_leases r)" using assms by (simp add: registry_wf_def)
  then have "get (r_leases r) h = Some p \<longleftrightarrow> (h, p) \<in> set (r_leases r)" for h
    by (simp add: get_in_set)
  then show ?thesis by (force simp: routed_where_def image_iff)
qed

text \<open>Updates that keep a lease's host and token keep both invariants.\<close>

definition keeps_identity :: "(lease \<Rightarrow> lease) \<Rightarrow> bool" where
  "keeps_identity f \<longleftrightarrow> (\<forall>l. l_fullHost (f l) = l_fullHost l \<and> l_sessionToken (f l) = l_sessionToken l)"

lemma keeps_identity_intros [simp, intro]:
  "keeps_identity (set_access_controls pc wl am)"
  "keeps_identity (\<lambda>l. l\<lparr>l_rateLimit := n\<rparr>)"
  "keeps_identity (\<lambda>l. l\<lparr>l_rateLimit := l_baseRateLimit l\<rparr>)"
  "keeps_identity (\<lambda>l. l\<lparr>l_rateLimit := n, l_baseRateLimit := n\<rparr>)"
  "keeps_identity (\<lambda>l. l\<lparr>l_addedHeaders := hs\<rparr>)"
  "keeps_identity (\<lambda>l. l\<lparr>l_launchFlags := fl, l_launchOverrides := ov\<rparr>)"
  "keeps_identity (\<lambda>l. (note_bytes l)\<lparr>l_status := st\<rparr>)"
  "keeps_identity (\<lambda>l. l\<lparr>l_offlineAlertPending := b\<rparr>)"
  "keeps_identity (\<lambda>l. l\<lparr>l_offlineAlertPending := b, l_offlineAlertSince := t\<rparr>)"
  "keeps_identity advance_watermark"
  by (simp_all add: keeps_identity_def set_access_controls_def note_bytes_def advance_watermark_def)

lemma modify_identity:
  assumes "keeps_identity f"
  shows "l_fullHost (deref (modify f p r) q) = l_fullHost (deref r q)"
    and "l_sessionToken (deref (modify f p r) q) = l_sessionToken (deref r q)"
  using assms by (cases "p < length (r_heap r)"; cases "q = p";
      simp add: keeps_identity_def deref_def modify_def nth_list_update list_update_beyond)+

lemma modify_wf:
  assumes "keeps_identity f"
  shows "registry_wf (modify f p r) \<longleftrightarrow> registry_wf r" "routes_owned (modify f p r) \<longleftrightarrow> routes_owned r"
  by (simp_all add: registry_wf_def routes_owned_def session_pointers_def modify_identity [OF assms])

lemma modify_all_wf:
  assumes "keeps_identity f"
  shows "registry_wf (modify_all f ps r) \<longleftrightarrow> registry_wf r"
    and "routes_owned (modify_all f ps r) \<longleftrightarrow> routes_owned r"
  by (induction ps arbitrary: r) (simp_all add: modify_all_def modify_wf [OF assms])

section \<open>Claiming hosts\<close>

lemma claim_hosts_frame:
  "claim_hosts uid hs r = (res, r') \<Longrightarrow>
   r_heap r' = r_heap r \<and> r_sessions r' = r_sessions r \<and> r_chisel r' = r_chisel r \<and>
   r_nodeID r' = r_nodeID r \<and> r_cleaned r' = r_cleaned r \<and> r_released r' = r_released r \<and>
   r_reported r' = r_reported r"
  by (induction uid hs r arbitrary: res r' rule: claim_hosts.induct)
    (fastforce split: option.splits if_splits)+

lemma claim_hosts_table:
  "claim_hosts uid hs r = (res, r') \<Longrightarrow> is_table (r_leases r) \<Longrightarrow> is_table (r_leases r')"
  by (induction uid hs r arbitrary: res r' rule: claim_hosts.induct)
    (fastforce split: option.splits if_splits)+

text \<open>Claiming only ever removes routes, and only those of the claiming user.\<close>

lemma claim_hosts_routes:
  "claim_hosts uid hs r = (res, r') \<Longrightarrow>
   get (r_leases r') h = get (r_leases r) h \<or>
   (get (r_leases r') h = None \<and> h \<in> set hs \<and>
     (\<exists>p. get (r_leases r) h = Some p \<and> l_userID (deref r p) = uid))"
proof (induction uid hs r arbitrary: res r' rule: claim_hosts.induct)
  case (1 uid r)
  then show ?case by simp
next
  case (2 uid h0 hs r)
  show ?case
  proof (cases "get (r_leases r) h0")
    case None
    with 2 show ?thesis by force
  next
    case (Some p)
    show ?thesis
    proof (cases "l_userID (deref r p) = uid")
      case False
      with 2 Some show ?thesis by simp
    next
      case True
      let ?s = "r\<lparr>r_leases := del h0 (r_leases r),
                  r_usedPorts := del (l_localPort (deref r p)) (r_usedPorts r)\<rparr>"
      have d: "deref ?s q = deref r q" for q by (simp add: deref_def)
      from 2 Some True have "get (r_leases r') h = get (r_leases ?s) h \<or>
        (get (r_leases r') h = None \<and> h \<in> set hs \<and>
          (\<exists>p. get (r_leases ?s) h = Some p \<and> l_userID (deref ?s p) = uid))"
        by simp
      with Some True show ?thesis by (auto simp: table_simps d split: if_splits)
    qed
  qed
qed

lemma claim_hosts_free:
  "claim_hosts uid hs r = (None, r') \<Longrightarrow> h \<in> set hs \<Longrightarrow> get (r_leases r') h = None"
proof (induction uid hs r arbitrary: r' rule: claim_hosts.induct)
  case (1 uid r)
  then show ?case by simp
next
  case (2 uid h0 hs r)
  show ?case
  proof (cases "h \<in> set hs")
    case True
    with 2 show ?thesis by (auto split: option.splits if_splits)
  next
    case False
    with "2.prems" have h: "h = h0" by simp
    obtain s where s: "claim_hosts uid hs s = (None, r')" "get (r_leases s) h0 = None"
      using "2.prems"(1) by (auto simp: table_simps split: option.splits if_splits)
    from claim_hosts_routes [OF s(1), of h0] s(2) h show ?thesis by auto
  qed
qed

text \<open>The refusal names a host of the request that somebody else holds.\<close>

lemma claim_hosts_conflict:
  "claim_hosts uid hs r = (Some h, r') \<Longrightarrow>
   h \<in> set hs \<and> (\<exists>p. get (r_leases r) h = Some p \<and> l_userID (deref r p) \<noteq> uid)"
proof (induction uid hs r arbitrary: r' rule: claim_hosts.induct)
  case (1 uid r)
  then show ?case by simp
next
  case (2 uid h0 hs r)
  show ?case
  proof (cases "get (r_leases r) h0")
    case None
    with 2 show ?thesis by auto
  next
    case (Some p)
    with 2 show ?thesis
      by (fastforce simp: table_simps deref_def split: if_splits)
  qed
qed

section \<open>Allocating leases\<close>

text \<open>
  What allocation does to the registry: new leases at the end of the heap, all of this user
  and this token and for hosts of the request; routes changed only to point at them.
\<close>

definition grown :: "string \<Rightarrow> string \<Rightarrow> string set \<Rightarrow> registry \<Rightarrow> registry \<Rightarrow> bool" where
  "grown uid tok hosts r r' \<longleftrightarrow>
     (\<exists>new. r_heap r' = r_heap r @ new \<and>
        (\<forall>l \<in> set new. l_userID l = uid \<and> l_sessionToken l = tok \<and> l_fullHost l \<in> hosts)) \<and>
     (\<forall>h. get (r_leases r') h = get (r_leases r) h \<or>
        (\<exists>p. get (r_leases r') h = Some p \<and> length (r_heap r) \<le> p \<and> p < length (r_heap r') \<and>
             l_fullHost (deref r' p) = h)) \<and>
     r_sessions r' = r_sessions r \<and> (is_table (r_leases r) \<longrightarrow> is_table (r_leases r'))"

lemma grown_refl [simp]: "grown uid tok hosts r r"
  by (simp add: grown_def)

lemma grown_heap: "grown uid tok hosts r r' \<Longrightarrow> length (r_heap r) \<le> length (r_heap r')"
  by (auto simp: grown_def)

lemma grown_old: "grown uid tok hosts r r' \<Longrightarrow> p < length (r_heap r) \<Longrightarrow> deref r' p = deref r p"
  by (auto simp: grown_def deref_def nth_append)

lemma grown_new:
  assumes "grown uid tok hosts r r'" "length (r_heap r) \<le> p" "p < length (r_heap r')"
  shows "l_userID (deref r' p) = uid \<and> l_sessionToken (deref r' p) = tok \<and> l_fullHost (deref r' p) \<in> hosts"
proof -
  from assms(1) obtain new where new: "r_heap r' = r_heap r @ new"
    "\<forall>l \<in> set new. l_userID l = uid \<and> l_sessionToken l = tok \<and> l_fullHost l \<in> hosts"
    by (auto simp: grown_def)
  then have "deref r' p \<in> set new"
    using assms(2,3) by (auto simp: deref_def nth_append)
  with new(2) show ?thesis by blast
qed

lemma grown_trans:
  assumes g: "grown uid tok hosts r s" "grown uid tok hosts s t"
  shows "grown uid tok hosts r t"
proof -
  have routes: "get (r_leases t) h = get (r_leases r) h \<or>
        (\<exists>p. get (r_leases t) h = Some p \<and> length (r_heap r) \<le> p \<and> p < length (r_heap t) \<and>
             l_fullHost (deref t p) = h)" for h
  proof (cases "get (r_leases t) h = get (r_leases s) h")
    case True
    from g(1) have "get (r_leases s) h = get (r_leases r) h \<or>
        (\<exists>p. get (r_leases s) h = Some p \<and> length (r_heap r) \<le> p \<and> p < length (r_heap s) \<and>
             l_fullHost (deref s p) = h)" by (simp add: grown_def)
    with True g(2) show ?thesis
      by (metis grown_heap grown_old order_less_le_trans)
  next
    case False
    with g(2) grown_heap [OF g(1)] show ?thesis
      unfolding grown_def by (meson order_trans)
  qed
  have "\<exists>new. r_heap t = r_heap r @ new \<and>
        (\<forall>l \<in> set new. l_userID l = uid \<and> l_sessionToken l = tok \<and> l_fullHost l \<in> hosts)"
  proof -
    from g(1) obtain n1 where 1: "r_heap s = r_heap r @ n1"
      "\<forall>l \<in> set n1. l_userID l = uid \<and> l_sessionToken l = tok \<and> l_fullHost l \<in> hosts"
      unfolding grown_def by blast
    from g(2) obtain n2 where 2: "r_heap t = r_heap s @ n2"
      "\<forall>l \<in> set n2. l_userID l = uid \<and> l_sessionToken l = tok \<and> l_fullHost l \<in> hosts"
      unfolding grown_def by blast
    from 1 2 show ?thesis by (intro exI [of _ "n1 @ n2"]) auto
  qed
  with routes g show ?thesis by (auto simp: grown_def)
qed

lemma grown_other_fields [simp]:
  "grown uid tok hosts r (s\<lparr>r_usedPorts := u\<rparr>) \<longleftrightarrow> grown uid tok hosts r s"
  "grown uid tok hosts (r\<lparr>r_usedPorts := u\<rparr>) s \<longleftrightarrow> grown uid tok hosts r s"
  by (simp_all add: grown_def deref_def)

lemma add_lease_grown:
  "l_userID l = uid \<Longrightarrow> l_sessionToken l = tok \<Longrightarrow> l_fullHost l \<in> hosts \<Longrightarrow>
   add_lease l r = (p, r') \<Longrightarrow>
   grown uid tok hosts r r' \<and> p = length (r_heap r) \<and> length (r_heap r') = Suc p \<and>
   get (r_leases r') (l_fullHost l) = Some p"
  by (auto simp: add_lease_def Let_def grown_def table_simps deref_def intro!: exI [of _ "length (r_heap r)"]
      split: if_splits)

lemma add_leases_grown:
  "\<forall>l \<in> set ls. l_userID l = uid \<and> l_sessionToken l = tok \<and> l_fullHost l \<in> hosts \<Longrightarrow>
   add_leases ls r = (ps, r') \<Longrightarrow>
   grown uid tok hosts r r' \<and> ps = [length (r_heap r)..<length (r_heap r')] \<and>
   map (deref r') ps = ls \<and>
   (\<forall>l \<in> set ls. \<exists>p \<in> set ps. get (r_leases r') (l_fullHost l) = Some p)"
proof (induction ls arbitrary: r ps r')
  case Nil
  then show ?case by simp
next
  case (Cons l ls)
  obtain p r1 where a: "add_lease l r = (p, r1)" by (cases "add_lease l r")
  obtain qs where b: "add_leases ls r1 = (qs, r')" and ps: "ps = p # qs"
    using Cons.prems(2) a by (auto split: prod.splits)
  from Cons.prems(1) a have A: "grown uid tok hosts r r1" "p = length (r_heap r)"
    "length (r_heap r1) = Suc p" "get (r_leases r1) (l_fullHost l) = Some p"
    using add_lease_grown [of l uid tok hosts r p r1] by auto
  have pre: "\<forall>l \<in> set ls. l_userID l = uid \<and> l_sessionToken l = tok \<and> l_fullHost l \<in> hosts"
    using Cons.prems(1) by simp
  from Cons.IH [OF pre b] have B: "grown uid tok hosts r1 r'"
    "qs = [length (r_heap r1)..<length (r_heap r')]" "map (deref r') qs = ls"
    "\<forall>l \<in> set ls. \<exists>p \<in> set qs. get (r_leases r') (l_fullHost l) = Some p"
    by blast+
  have le: "Suc p \<le> length (r_heap r')" using grown_heap [OF B(1)] A(3) by simp
  have l: "deref r' p = l"
  proof -
    have "deref r' p = deref r1 p" using grown_old [OF B(1)] A(3) by simp
    also have "\<dots> = l" using a by (auto simp: add_lease_def Let_def deref_def)
    finally show ?thesis .
  qed
  have route: "\<exists>p' \<in> set ps. get (r_leases r') (l_fullHost l) = Some p'"
  proof -
    from B(1) have "get (r_leases r') (l_fullHost l) = get (r_leases r1) (l_fullHost l) \<or>
        (\<exists>p. get (r_leases r') (l_fullHost l) = Some p \<and> length (r_heap r1) \<le> p \<and> p < length (r_heap r'))"
      unfolding grown_def by blast
    then show ?thesis using A(4) B(2) ps by auto
  qed
  have "ps = [length (r_heap r)..<length (r_heap r')]"
    unfolding ps B(2) using A(2,3) le by (simp add: upt_conv_Cons)
  moreover have "map (deref r') ps = l # ls"
    using l B(3) ps by simp
  moreover have "\<forall>m \<in> set (l # ls). \<exists>q \<in> set ps. get (r_leases r') (l_fullHost m) = Some q"
    using route B(4) ps by auto
  ultimately show ?case using grown_trans [OF A(1) B(1)] by blast
qed

lemma new_lease_props [simp]:
  "l_userID (new_lease rq tok now node port target h) = rq_userID rq"
  "l_sessionToken (new_lease rq tok now node port target h) = tok"
  "l_fullHost (new_lease rq tok now node port target h) = h"
  by (simp_all add: new_lease_def)

lemma grown_keeps_new:
  "grown uid tok hosts r r' \<Longrightarrow> get (r_leases r) h = Some q \<Longrightarrow> n \<le> q \<Longrightarrow> q < length (r_heap r) \<Longrightarrow>
   \<exists>p. get (r_leases r') h = Some p \<and> n \<le> p \<and> p < length (r_heap r')"
proof -
  assume g: "grown uid tok hosts r r'" and q: "get (r_leases r) h = Some q" "n \<le> q" "q < length (r_heap r)"
  note le = grown_heap [OF g]
  from g have "get (r_leases r') h = get (r_leases r) h \<or>
      (\<exists>p. get (r_leases r') h = Some p \<and> length (r_heap r) \<le> p \<and> p < length (r_heap r'))"
    unfolding grown_def by blast
  then show "\<exists>p. get (r_leases r') h = Some p \<and> n \<le> p \<and> p < length (r_heap r')"
  proof
    assume "get (r_leases r') h = get (r_leases r) h"
    with q le show ?thesis by auto
  next
    assume "\<exists>p. get (r_leases r') h = Some p \<and> length (r_heap r) \<le> p \<and> p < length (r_heap r')"
    then obtain p where "get (r_leases r') h = Some p" "length (r_heap r) \<le> p" "p < length (r_heap r')"
      by blast
    with q show ?thesis by auto
  qed
qed

lemma allocate_grown:
  "allocate rq tok now ips answers r = (res, r') \<Longrightarrow>
   \<forall>ip \<in> set ips. set (mapping_hosts (rq_prefix rq) (rq_domains rq) ip) \<subseteq> hosts \<Longrightarrow>
   grown (rq_userID rq) tok hosts r r' \<and>
   (\<forall>ps rs. res = Some (ps, rs) \<longrightarrow>
      ps = [length (r_heap r)..<length (r_heap r')] \<and> length rs = length ips \<and>
      (\<forall>ip \<in> set ips. \<forall>h \<in> set (mapping_hosts (rq_prefix rq) (rq_domains rq) ip).
         \<exists>p. get (r_leases r') h = Some p \<and> length (r_heap r) \<le> p \<and> p < length (r_heap r')))"
proof (induction rq tok now ips answers r arbitrary: res r' rule: allocate.induct)
  case (1 rq tok now answers r)
  then show ?case by auto
next
  case (2 rq tok now ip ips answers r)
  show ?case
  proof (cases "\<exists>port answers'. answers = Some port # answers'")
    case False
    then have "res = None" "r' = r"
      using "2.prems"(1) by (auto split: list.splits option.splits)
    then show ?thesis by simp
  next
    case True
    then obtain port answers' where sup: "answers = Some port # answers'" by blast
    let ?ls = "map (new_lease rq tok now (local_node_id r) port (pm_localPort (snd ip)))
                 (mapping_hosts (rq_prefix rq) (rq_domains rq) ip)"
    obtain ps1 r1 where a: "add_leases ?ls r = (ps1, r1)" by (cases "add_leases ?ls r")
    let ?s = "r1\<lparr>r_usedPorts := put port True (r_usedPorts r1)\<rparr>"
    obtain res2 where b: "allocate rq tok now ips answers' ?s = (res2, r')"
      and res: "res = map_option (\<lambda>(qs, rs). (ps1 @ qs, allowed_remote port # rs)) res2"
      using "2.prems"(1) sup a by (auto split: prod.splits)
    have pre: "\<forall>l \<in> set ?ls. l_userID l = rq_userID rq \<and> l_sessionToken l = tok \<and> l_fullHost l \<in> hosts"
      using "2.prems"(2) by auto
    have G1: "grown (rq_userID rq) tok hosts r r1" and P1: "ps1 = [length (r_heap r)..<length (r_heap r1)]"
      and R1: "\<forall>l \<in> set ?ls. \<exists>p \<in> set ps1. get (r_leases r1) (l_fullHost l) = Some p"
      using add_leases_grown [OF pre a] by blast+
    have IH: "grown (rq_userID rq) tok hosts ?s r' \<and>
      (\<forall>ps rs. res2 = Some (ps, rs) \<longrightarrow>
        ps = [length (r_heap ?s)..<length (r_heap r')] \<and> length rs = length ips \<and>
        (\<forall>ip \<in> set ips. \<forall>h \<in> set (mapping_hosts (rq_prefix rq) (rq_domains rq) ip).
           \<exists>p. get (r_leases r') h = Some p \<and> length (r_heap ?s) \<le> p \<and> p < length (r_heap r')))"
      using "2.IH" [OF sup refl refl a [symmetric] refl b] "2.prems"(2) by simp
    then have G2: "grown (rq_userID rq) tok hosts r1 r'" by simp
    note G = grown_trans [OF G1 G2]
    note le = grown_heap [OF G1] grown_heap [OF G2]
    have first: "\<exists>p. get (r_leases r') h = Some p \<and> length (r_heap r) \<le> p \<and> p < length (r_heap r')"
      if "h \<in> set (mapping_hosts (rq_prefix rq) (rq_domains rq) ip)" for h
    proof -
      from that R1 obtain q where "q \<in> set ps1" "get (r_leases r1) h = Some q" by auto
      then show ?thesis using grown_keeps_new [OF G2] P1 by auto
    qed
    have "ps = [length (r_heap r)..<length (r_heap r')] \<and> length rs = length (ip # ips) \<and>
        (\<forall>i \<in> set (ip # ips). \<forall>h \<in> set (mapping_hosts (rq_prefix rq) (rq_domains rq) i).
           \<exists>p. get (r_leases r') h = Some p \<and> length (r_heap r) \<le> p \<and> p < length (r_heap r'))"
      if "res = Some (ps, rs)" for ps rs
    proof -
      from that res obtain qs rs' where q: "res2 = Some (qs, rs')" "ps = ps1 @ qs" "rs = allowed_remote port # rs'"
        by auto
      with IH have *: "qs = [length (r_heap r1)..<length (r_heap r')]" "length rs' = length ips"
        "\<forall>i \<in> set ips. \<forall>h \<in> set (mapping_hosts (rq_prefix rq) (rq_domains rq) i).
           \<exists>p. get (r_leases r') h = Some p \<and> length (r_heap r1) \<le> p \<and> p < length (r_heap r')"
        by auto
      have "ps = [length (r_heap r)..<length (r_heap r')]"
        unfolding q(2) P1 *(1) using le by (metis le_Suc_ex upt_add_eq_append)
      moreover have "\<forall>i \<in> set (ip # ips). \<forall>h \<in> set (mapping_hosts (rq_prefix rq) (rq_domains rq) i).
           \<exists>p. get (r_leases r') h = Some p \<and> length (r_heap r) \<le> p \<and> p < length (r_heap r')"
        using *(3) first le(1) by (fastforce dest: order_trans)
      ultimately show ?thesis using q(3) *(2) by simp
    qed
    with G show ?thesis by blast
  qed
qed

section \<open>Register\<close>

text \<open>The six ways through \<open>register\<close>.\<close>

lemma register_cases:
  assumes "register env rq r = (res, r')"
  obtains
    (checked) e where "register_check rq = Some e" "res = Inl e" "r' = r"
  | (conflict) h where "register_check rq = None"
      "claim_hosts (rq_userID rq) (request_hosts rq) r = (Some h, r')" "res = Inl (Already_registered h)"
  | (no_token) "register_check rq = None"
      "claim_hosts (rq_userID rq) (request_hosts rq) r = (None, r')" "env_token env = None"
      "res = Inl Token_failed"
  | (no_port) tok r1 where "register_check rq = None"
      "claim_hosts (rq_userID rq) (request_hosts rq) r = (None, r1)" "env_token env = Some tok"
      "allocate rq tok (env_now env) (enumerate 0 (rq_ports rq)) (env_ports env) r1 = (None, r')"
      "res = Inl Port_failed"
  | (refused) tok r1 ps rs r2 r3 where "register_check rq = None"
      "claim_hosts (rq_userID rq) (request_hosts rq) r = (None, r1)" "env_token env = Some tok"
      "allocate rq tok (env_now env) (enumerate 0 (rq_ports rq)) (env_ports env) r1 = (Some (ps, rs), r2)"
      "r3 = r2\<lparr>r_sessions := put tok ps (r_sessions r2),
                r_chisel := r_chisel r2 @ [AddUser tok tok rs False]\<rparr>"
      "r' = (roll_back ps r3)\<lparr>r_sessions := del tok (r_sessions r3)\<rparr>"
      "res = Inl Chisel_failed"
  | (ok) tok r1 ps rs r2 where "register_check rq = None"
      "claim_hosts (rq_userID rq) (request_hosts rq) r = (None, r1)" "env_token env = Some tok"
      "allocate rq tok (env_now env) (enumerate 0 (rq_ports rq)) (env_ports env) r1 = (Some (ps, rs), r2)"
      "r' = r2\<lparr>r_sessions := put tok ps (r_sessions r2),
                r_chisel := r_chisel r2 @ [AddUser tok tok rs True]\<rparr>"
      "res = Inr (tok, client_remotes [] (map (deref r') ps))"
proof (cases "register_check rq")
  case (Some e)
  with assms that(1) show ?thesis by (simp add: register_def)
next
  case check: None
  obtain c r1 where claim: "claim_hosts (rq_userID rq) (request_hosts rq) r = (c, r1)"
    by (cases "claim_hosts (rq_userID rq) (request_hosts rq) r")
  show ?thesis
  proof (cases c)
    case (Some h)
    with assms check claim that(2) show ?thesis by (simp add: register_def)
  next
    case free: None
    show ?thesis
    proof (cases "env_token env")
      case None
      with assms check claim free that(3) show ?thesis by (simp add: register_def)
    next
      case (Some tok)
      obtain a r2 where alloc: "allocate rq tok (env_now env) (enumerate 0 (rq_ports rq)) (env_ports env) r1 = (a, r2)"
        by (cases "allocate rq tok (env_now env) (enumerate 0 (rq_ports rq)) (env_ports env) r1")
      show ?thesis
      proof (cases a)
        case None
        with assms check claim free Some alloc that(4) show ?thesis by (simp add: register_def)
      next
        case (Some x)
        obtain ps rs where x: "x = (ps, rs)" by (cases x)
        note facts = check claim [unfolded free] \<open>env_token env = Some tok\<close> alloc [unfolded Some x]
        show ?thesis
        proof (cases "env_chisel_ok env")
          case True
          with assms facts
          have "r' = r2\<lparr>r_sessions := put tok ps (r_sessions r2),
                r_chisel := r_chisel r2 @ [AddUser tok tok rs True]\<rparr>"
            "res = Inr (tok, client_remotes [] (map (deref r') ps))"
            by (auto simp: register_def Let_def)
          then show ?thesis by (rule that(6) [OF facts])
        next
          case False
          with assms facts
          have "r' = (roll_back ps (r2\<lparr>r_sessions := put tok ps (r_sessions r2),
                r_chisel := r_chisel r2 @ [AddUser tok tok rs False]\<rparr>))
                \<lparr>r_sessions := del tok (put tok ps (r_sessions r2))\<rparr>"
            "res = Inl Chisel_failed"
            by (auto simp: register_def Let_def)
          then show ?thesis by (intro that(5) [OF facts refl]) simp_all
        qed
      qed
    qed
  qed
qed

lemma request_hosts_allocated:
  "ip \<in> set (enumerate 0 (rq_ports rq)) \<Longrightarrow>
   set (mapping_hosts (rq_prefix rq) (rq_domains rq) ip) \<subseteq> set (request_hosts rq)"
  by (auto simp: request_hosts_def)

lemma register_allocation:
  assumes "allocate rq tok now (enumerate 0 (rq_ports rq)) answers r1 = (res, r2)"
  shows "grown (rq_userID rq) tok (set (request_hosts rq)) r1 r2"
    and "res = Some (ps, rs) \<Longrightarrow> ps = [length (r_heap r1)..<length (r_heap r2)]"
    and "res = Some (ps, rs) \<Longrightarrow> h \<in> set (request_hosts rq) \<Longrightarrow>
         \<exists>p. get (r_leases r2) h = Some p \<and> length (r_heap r1) \<le> p \<and> p < length (r_heap r2)"
proof -
  have pre: "\<forall>ip \<in> set (enumerate 0 (rq_ports rq)).
      set (mapping_hosts (rq_prefix rq) (rq_domains rq) ip) \<subseteq> set (request_hosts rq)"
    using request_hosts_allocated by blast
  note G = allocate_grown [OF assms pre]
  show "grown (rq_userID rq) tok (set (request_hosts rq)) r1 r2" using G by blast
  show "ps = [length (r_heap r1)..<length (r_heap r2)]" if "res = Some (ps, rs)"
    using G that by blast
  show "\<exists>p. get (r_leases r2) h = Some p \<and> length (r_heap r1) \<le> p \<and> p < length (r_heap r2)"
    if "res = Some (ps, rs)" "h \<in> set (request_hosts rq)"
  proof -
    from that(2) obtain ip where "ip \<in> set (enumerate 0 (rq_ports rq))"
      "h \<in> set (mapping_hosts (rq_prefix rq) (rq_domains rq) ip)"
      by (auto simp: request_hosts_def)
    with G that(1) show ?thesis by blast
  qed
qed

lemma roll_back_frame [simp]:
  "r_heap (roll_back ps r) = r_heap r" "r_sessions (roll_back ps r) = r_sessions r"
  "r_chisel (roll_back ps r) = r_chisel r" "r_nodeID (roll_back ps r) = r_nodeID r"
  "deref (roll_back ps r) p = deref r p"
proof -
  show h: "r_heap (roll_back ps r) = r_heap r"
    by (induction ps arbitrary: r) (simp_all add: roll_back_def)
  show "deref (roll_back ps r) p = deref r p" by (simp add: deref_def h)
qed (induction ps arbitrary: r; simp add: roll_back_def)+

lemma roll_back_routes:
  "get (r_leases (roll_back ps r)) h
     = (if h \<in> (\<lambda>p. l_fullHost (deref r p)) ` set ps then None else get (r_leases r) h)"
proof (induction ps arbitrary: r)
  case Nil
  then show ?case by (simp add: roll_back_def)
next
  case (Cons p ps)
  let ?s = "r\<lparr>r_leases := del (l_fullHost (deref r p)) (r_leases r),
              r_usedPorts := del (l_localPort (deref r p)) (r_usedPorts r)\<rparr>"
  have "roll_back (p # ps) r = roll_back ps ?s" by (simp add: roll_back_def)
  moreover have "deref ?s q = deref r q" for q by (simp add: deref_def)
  ultimately show ?case using Cons [of ?s] by (simp add: table_simps)
qed

lemma roll_back_table: "is_table (r_leases r) \<Longrightarrow> is_table (r_leases (roll_back ps r))"
  by (induction ps arbitrary: r) (simp_all add: roll_back_def)

end
