(* ===== verification/Registry_Register.thy ===== *)
theory Registry_Register
  imports Registry_Facts
begin

text \<open>
  What registering a tunnel guarantees: the invariant, the safety of everybody else's
  routes, the routes of a successful registration, the chisel credentials; and two places
  where a failing registration leaves something behind.
\<close>

section \<open>Other users' routes\<close>

lemma register_route_of_other:
  assumes reg: "register env rq r = (res, r')" and wf: "registry_wf r"
    and route: "get (r_leases r) h = Some p" and other: "l_userID (deref r p) \<noteq> rq_userID rq"
  shows "get (r_leases r') h = Some p \<and> deref r' p = deref r p"
proof -
  have kept: "get (r_leases s) h = Some p \<and> deref s p = deref r p"
    if "claim_hosts (rq_userID rq) (request_hosts rq) r = (c, s)" for c s
    using claim_hosts_routes [OF that, of h] claim_hosts_frame [OF that] route other
    by (auto simp: deref_def)
  have old: "p < length (r_heap r)" using wf route by (blast dest: wf_route)
  have grown: "get (r_leases s2) h = Some p \<and> deref s2 p = deref r p"
    if c: "claim_hosts (rq_userID rq) (request_hosts rq) r = (None, s1)"
      and g: "grown (rq_userID rq) tok (set (request_hosts rq)) s1 s2" for s1 s2 tok
  proof -
    have fresh: "h \<notin> set (request_hosts rq)"
      using claim_hosts_free [OF c, of h] kept [OF c] by auto
    have p1: "p < length (r_heap s1)" using old claim_hosts_frame [OF c] by simp
    have "get (r_leases s2) h = get (r_leases s1) h"
    proof (rule ccontr)
      assume "get (r_leases s2) h \<noteq> get (r_leases s1) h"
      then obtain q where "length (r_heap s1) \<le> q" "q < length (r_heap s2)" "l_fullHost (deref s2 q) = h"
        using g unfolding grown_def by blast
      with grown_new [OF g] fresh show False by blast
    qed
    with kept [OF c] grown_old [OF g p1] show ?thesis by simp
  qed
  from reg show ?thesis
  proof (cases rule: register_cases)
    case (checked e)
    with route show ?thesis by simp
  next
    case (conflict h')
    with kept show ?thesis by blast
  next
    case no_token
    with kept show ?thesis by blast
  next
    case (no_port tok r1)
    show ?thesis by (rule grown [OF no_port(2) register_allocation(1) [OF no_port(4)]])
  next
    case (refused tok r1 ps rs r2 r3)
    note g = register_allocation(1) [OF refused(4)]
    have ps: "ps = [length (r_heap r1)..<length (r_heap r2)]"
      using register_allocation(2) [OF refused(4)] by blast
    have "h \<notin> (\<lambda>q. l_fullHost (deref r3 q)) ` set ps"
    proof
      assume "h \<in> (\<lambda>q. l_fullHost (deref r3 q)) ` set ps"
      then obtain q where "q \<in> set ps" "h = l_fullHost (deref r2 q)"
        by (auto simp: refused(5) deref_def)
      then have "h \<in> set (request_hosts rq)" using ps grown_new [OF g] by auto
      with claim_hosts_free [OF refused(2), of h] kept [OF refused(2)] show False by auto
    qed
    with grown [OF refused(2) g] show ?thesis
      by (auto simp: refused(5,6) roll_back_routes deref_def)
  next
    case (ok tok r1 ps rs r2)
    with grown [OF ok(2) register_allocation(1) [OF ok(4)]] show ?thesis
      by (simp add: deref_def)
  qed
qed

section \<open>The invariant\<close>

lemma claim_hosts_wf:
  assumes c: "claim_hosts uid hs r = (res, r')" and wf: "registry_wf r"
  shows "registry_wf r'" "routes_owned r \<Longrightarrow> routes_owned r'"
proof -
  note fr = claim_hosts_frame [OF c]
  have d: "deref r' p = deref r p" for p using fr by (simp add: deref_def)
  have sub: "get (r_leases r) h = Some p" if "get (r_leases r') h = Some p" for h p
    using claim_hosts_routes [OF c, of h] that by auto
  have "is_table (r_leases r')" using wf c by (simp add: registry_wf_def claim_hosts_table)
  with wf fr sub show "registry_wf r'" by (auto simp: registry_wf_def d)
  show "routes_owned r'" if "routes_owned r"
  proof -
    have "session_pointers r' t = session_pointers r t" for t
      using fr by (simp add: session_pointers_def)
    with that sub show ?thesis unfolding routes_owned_def d by metis
  qed
qed

lemma grown_wf:
  assumes g: "grown uid tok hosts r r'" and wf: "registry_wf r"
  shows "registry_wf r'"
proof -
  have 1: "p < length (r_heap r') \<and> l_fullHost (deref r' p) = h" if "get (r_leases r') h = Some p" for h p
  proof (cases "get (r_leases r') h = get (r_leases r) h")
    case True
    with that wf have "p < length (r_heap r) \<and> l_fullHost (deref r p) = h" by (auto dest: wf_route)
    with grown_heap [OF g] grown_old [OF g] show ?thesis by auto
  next
    case False
    with g have "\<exists>p. get (r_leases r') h = Some p \<and> p < length (r_heap r') \<and> l_fullHost (deref r' p) = h"
      unfolding grown_def by blast
    with that show ?thesis by auto
  qed
  have "distinct qs \<and> (\<forall>p \<in> set qs. p < length (r_heap r') \<and> l_sessionToken (deref r' p) = t)"
    if "get (r_sessions r') t = Some qs" for t qs
  proof -
    have "get (r_sessions r) t = Some qs" using that g by (simp add: grown_def)
    from wf_session [OF wf this] grown_heap [OF g] grown_old [OF g] show ?thesis by auto
  qed
  with 1 g wf show ?thesis by (auto simp: registry_wf_def grown_def)
qed

lemma session_entry_wf:
  assumes wf: "registry_wf r" and ps: "distinct ps"
    "\<forall>p \<in> set ps. p < length (r_heap r) \<and> l_sessionToken (deref r p) = tok"
  shows "registry_wf (r\<lparr>r_sessions := put tok ps (r_sessions r), r_chisel := cs\<rparr>)"
proof -
  let ?r = "r\<lparr>r_sessions := put tok ps (r_sessions r), r_chisel := cs\<rparr>"
  have d: "deref ?r p = deref r p" for p by (simp add: deref_def)
  show ?thesis using wf ps by (auto simp: registry_wf_def d table_simps split: if_splits)
qed

text \<open>A token is fresh when no session carries it.\<close>

definition token_fresh :: "register_env \<Rightarrow> registry \<Rightarrow> bool" where
  "token_fresh env r \<longleftrightarrow> (\<forall>tok. env_token env = Some tok \<longrightarrow> get (r_sessions r) tok = None)"

lemma new_pointers:
  assumes g: "grown uid tok hosts r r'" and ps: "ps = [length (r_heap r)..<length (r_heap r')]"
  shows "distinct ps" "\<forall>p \<in> set ps. p < length (r_heap r') \<and> l_sessionToken (deref r' p) = tok"
  using ps grown_new [OF g] by auto

lemma register_wf_aux:
  assumes reg: "register env rq r = (res, r')" and wf: "registry_wf r" and fresh: "token_fresh env r"
  shows "registry_wf r'"
  using reg
proof (cases rule: register_cases)
  case (checked e)
  with wf show ?thesis by simp
next
  case (conflict h)
  with wf show ?thesis by (blast intro: claim_hosts_wf)
next
  case no_token
  with wf show ?thesis by (blast intro: claim_hosts_wf)
next
  case (no_port tok r1)
  with wf show ?thesis by (blast intro: claim_hosts_wf grown_wf register_allocation)
next
  case (refused tok r1 ps rs r2 r3)
  note g = register_allocation(1) [OF refused(4)]
  have ps: "ps = [length (r_heap r1)..<length (r_heap r2)]"
    using register_allocation(2) [OF refused(4)] by blast
  have wf2: "registry_wf r2" using wf refused(2) g by (blast intro: claim_hosts_wf grown_wf)
  have none: "get (r_sessions r2) tok = None"
    using fresh refused(3) claim_hosts_frame [OF refused(2)] g by (simp add: token_fresh_def grown_def)
  have d: "deref r3 p = deref r2 p" "deref r' p = deref r2 p" for p
    by (simp_all add: refused(5,6) deref_def)
  have sess: "get (r_sessions r') t = get (r_sessions r2) t" for t
    using none by (simp add: refused(5,6) table_simps)
  have route: "get (r_leases r2) h = Some p" if "get (r_leases r') h = Some p" for h p
    using that by (simp add: refused(5,6) roll_back_routes split: if_splits)
  have tab: "is_table (r_leases r')" "is_table (r_sessions r')" "length (r_heap r') = length (r_heap r2)"
    using wf2 by (simp_all add: refused(5,6) registry_wf_def roll_back_table)
  show ?thesis
    unfolding registry_wf_def d sess tab(3)
    using wf_route [OF wf2] wf_session [OF wf2] route tab(1,2) by blast
next
  case (ok tok r1 ps rs r2)
  note g = register_allocation(1) [OF ok(4)]
  have ps: "ps = [length (r_heap r1)..<length (r_heap r2)]"
    using register_allocation(2) [OF ok(4)] by blast
  have "registry_wf r2" using wf ok(2) g by (blast intro: claim_hosts_wf grown_wf)
  then show ?thesis
    unfolding ok(5) by (rule session_entry_wf [OF _ new_pointers [OF g ps]])
qed

section \<open>Reachability by the sweep\<close>

text \<open>
  Every routed lease belongs to a session the sweep visits, in every outcome but one: when
  a free port cannot be had half way through, the leases already entered are left behind.
\<close>

lemma routes_owned_old:
  assumes own: "routes_owned r" and route: "get (r_leases r) h = Some p"
    and fresh: "get (r_sessions r) tok = None"
    and sess: "\<And>t. t \<noteq> tok \<Longrightarrow> get (r_sessions r') t = get (r_sessions r) t"
    and d: "deref r' p = deref r p"
  shows "p \<in> set (session_pointers r' (l_sessionToken (deref r' p)))"
proof -
  have p: "p \<in> set (session_pointers r (l_sessionToken (deref r p)))"
    using own route by (simp add: routes_owned_def)
  then have "l_sessionToken (deref r p) \<noteq> tok"
    using fresh by (auto simp: session_pointers_def)
  with p sess d show ?thesis by (simp add: session_pointers_def)
qed

lemma register_owned_aux:
  assumes reg: "register env rq r = (res, r')" and wf: "registry_wf r" and own: "routes_owned r"
    and fresh: "token_fresh env r" and res: "res \<noteq> Inl Port_failed"
  shows "routes_owned r'"
  using reg
proof (cases rule: register_cases)
  case (checked e)
  with own show ?thesis by simp
next
  case (conflict h)
  with wf own show ?thesis by (blast intro: claim_hosts_wf)
next
  case no_token
  with wf own show ?thesis by (blast intro: claim_hosts_wf)
next
  case (no_port tok r1)
  with res show ?thesis by simp
next
  case (refused tok r1 ps rs r2 r3)
  note g = register_allocation(1) [OF refused(4)]
  have ps: "ps = [length (r_heap r1)..<length (r_heap r2)]"
    using register_allocation(2) [OF refused(4)] by blast
  have own1: "routes_owned r1" and wf1: "registry_wf r1"
    using wf own refused(2) by (blast intro: claim_hosts_wf)+
  have none: "get (r_sessions r1) tok = None"
    using fresh refused(3) claim_hosts_frame [OF refused(2)] by (simp add: token_fresh_def)
  have sess: "get (r_sessions r') t = get (r_sessions r1) t" for t
    using none g by (simp add: refused(5,6) table_simps grown_def)
  have d: "deref r' p = deref r2 p" for p by (simp add: refused(5,6) deref_def)
  show ?thesis unfolding routes_owned_def
  proof (intro allI impI)
    fix h p assume h: "get (r_leases r') h = Some p"
    then have h2: "get (r_leases r2) h = Some p" and nh: "h \<notin> (\<lambda>q. l_fullHost (deref r2 q)) ` set ps"
      by (auto simp: refused(5,6) roll_back_routes deref_def split: if_splits)
    have "get (r_leases r1) h = Some p"
    proof (rule ccontr)
      assume "get (r_leases r1) h \<noteq> Some p"
      then have "length (r_heap r1) \<le> p \<and> p < length (r_heap r2) \<and> l_fullHost (deref r2 p) = h"
        using g h2 unfolding grown_def by (metis option.inject)
      with nh ps show False by auto
    qed
    moreover from this have "deref r' p = deref r1 p"
      using wf1 grown_old [OF g] d by (auto dest: wf_route)
    ultimately show "p \<in> set (session_pointers r' (l_sessionToken (deref r' p)))"
      using routes_owned_old [OF own1 _ none, of h p r'] sess by blast
  qed
next
  case (ok tok r1 ps rs r2)
  note g = register_allocation(1) [OF ok(4)]
  have ps: "ps = [length (r_heap r1)..<length (r_heap r2)]"
    using register_allocation(2) [OF ok(4)] by blast
  have own1: "routes_owned r1" and wf1: "registry_wf r1"
    using wf own ok(2) by (blast intro: claim_hosts_wf)+
  have none: "get (r_sessions r1) tok = None"
    using fresh ok(3) claim_hosts_frame [OF ok(2)] by (simp add: token_fresh_def)
  have sess: "get (r_sessions r') t = get (r_sessions r1) t" if "t \<noteq> tok" for t
    using that g by (simp add: ok(5) table_simps grown_def)
  have d: "deref r' p = deref r2 p" for p by (simp add: ok(5) deref_def)
  show ?thesis unfolding routes_owned_def
  proof (intro allI impI)
    fix h p assume "get (r_leases r') h = Some p"
    then have h2: "get (r_leases r2) h = Some p" by (simp add: ok(5))
    show "p \<in> set (session_pointers r' (l_sessionToken (deref r' p)))"
    proof (cases "get (r_leases r1) h = Some p")
      case True
      with wf1 grown_old [OF g] d have "deref r' p = deref r1 p" by (auto dest: wf_route)
      with True show ?thesis using routes_owned_old [OF own1 _ none, of h p r'] sess by blast
    next
      case False
      then have new: "length (r_heap r1) \<le> p" "p < length (r_heap r2)"
        using g h2 unfolding grown_def by (metis option.inject)+
      with grown_new [OF g] d have "l_sessionToken (deref r' p) = tok" by simp
      with new ps show ?thesis by (simp add: session_pointers_def ok(5) table_simps)
    qed
  qed
qed

section \<open>Credentials\<close>

text \<open>
  The names chisel accepts after a sequence of calls, and the agreement with the session
  table: a client can connect exactly while its session is live.
\<close>

fun chisel_users :: "chisel_call list \<Rightarrow> string set" where
  "chisel_users [] = {}"
| "chisel_users (c # cs) =
     (case c of
        AddUser u pw rs accepted \<Rightarrow> chisel_users cs \<union> (if accepted \<and> DeleteUser u \<notin> set cs then {u} else {})
      | DeleteUser u \<Rightarrow> chisel_users cs)"

lemma chisel_users_snoc:
  "chisel_users (cs @ [AddUser u pw rs a]) = chisel_users cs \<union> (if a then {u} else {})"
  "chisel_users (cs @ [DeleteUser u]) = chisel_users cs - {u}"
  by (induction cs) (auto split: chisel_call.splits)

definition chisel_in_step :: "registry \<Rightarrow> bool" where
  "chisel_in_step r \<longleftrightarrow> (\<forall>tok. tok \<in> chisel_users (r_chisel r) \<longleftrightarrow> get (r_sessions r) tok \<noteq> None)"

lemma add_leases_chisel: "add_leases ls r = (ps, r') \<Longrightarrow> r_chisel r' = r_chisel r"
  by (induction ls arbitrary: r ps r') (auto simp: add_lease_def Let_def split: prod.splits)

lemma allocate_chisel:
  "allocate rq tok now ips answers r = (res, r') \<Longrightarrow> r_chisel r' = r_chisel r"
proof (induction rq tok now ips answers r arbitrary: res r' rule: allocate.induct)
  case (1 rq tok now answers r)
  then show ?case by simp
next
  case (2 rq tok now ip ips answers r)
  show ?case
  proof (cases "\<exists>port answers'. answers = Some port # answers'")
    case False
    then show ?thesis using "2.prems"(1) by (auto split: list.splits option.splits)
  next
    case True
    then obtain port answers' where sup: "answers = Some port # answers'" by blast
    let ?ls = "map (new_lease rq tok now (local_node_id r) port (pm_localPort (snd ip)))
                 (mapping_hosts (rq_prefix rq) (rq_domains rq) ip)"
    obtain ps1 r1 where a: "add_leases ?ls r = (ps1, r1)" by (cases "add_leases ?ls r")
    then obtain res2 where b: "allocate rq tok now ips answers' (r1\<lparr>r_usedPorts := put port True (r_usedPorts r1)\<rparr>) = (res2, r')"
      using "2.prems"(1) sup by (auto split: prod.splits)
    from "2.IH" [OF sup refl refl a [symmetric] refl b] add_leases_chisel [OF a] show ?thesis by simp
  qed
qed

lemma register_chisel_aux:
  assumes reg: "register env rq r = (res, r')" and ch: "chisel_in_step r" and fresh: "token_fresh env r"
  shows "chisel_in_step r'"
  using reg
proof (cases rule: register_cases)
  case (checked e)
  with ch show ?thesis by simp
next
  case (conflict h)
  with ch claim_hosts_frame [OF conflict(2)] show ?thesis by (simp add: chisel_in_step_def)
next
  case no_token
  with ch claim_hosts_frame [OF no_token(2)] show ?thesis by (simp add: chisel_in_step_def)
next
  case (no_port tok r1)
  with ch claim_hosts_frame [OF no_port(2)] allocate_chisel [OF no_port(4)]
    register_allocation(1) [OF no_port(4)]
  show ?thesis by (simp add: chisel_in_step_def grown_def)
next
  case (refused tok r1 ps rs r2 r3)
  have "get (r_sessions r) tok = None" using fresh refused(3) by (simp add: token_fresh_def)
  with ch claim_hosts_frame [OF refused(2)] allocate_chisel [OF refused(4)]
    register_allocation(1) [OF refused(4)]
  show ?thesis by (simp add: chisel_in_step_def grown_def refused(5,6) chisel_users_snoc table_simps)
next
  case (ok tok r1 ps rs r2)
  with ch claim_hosts_frame [OF ok(2)] allocate_chisel [OF ok(4)] register_allocation(1) [OF ok(4)]
  show ?thesis by (simp add: chisel_in_step_def grown_def chisel_users_snoc table_simps)
qed

section \<open>What a failed registration leaves behind\<close>

lemma claim_hosts_conflict_prefix:
  "claim_hosts uid (xs @ h # ys) r = (Some h, r') \<Longrightarrow> h \<notin> set xs \<Longrightarrow> g \<in> set xs \<Longrightarrow>
   get (r_leases r') g = None"
proof (induction xs arbitrary: r)
  case Nil
  then show ?case by simp
next
  case (Cons x xs)
  obtain s where s: "claim_hosts uid (xs @ h # ys) s = (Some h, r')" "get (r_leases s) x = None"
    using Cons.prems(1,2) by (auto simp: table_simps split: option.splits if_splits)
  show ?case
  proof (cases "g = x")
    case True
    with claim_hosts_routes [OF s(1), of x] s(2) show ?thesis by auto
  next
    case False
    with Cons.IH [OF s(1)] Cons.prems show ?thesis by simp
  qed
qed

section \<open>A small registry for the witnesses\<close>

definition ex_env :: "string \<Rightarrow> int option list \<Rightarrow> register_env" where
  "ex_env tok ports = \<lparr>env_token = Some tok, env_ports = ports, env_chisel_ok = True, env_now = 0\<rparr>"

definition ex_request :: "string \<Rightarrow> string \<Rightarrow> (int \<times> string) list \<Rightarrow> register_request" where
  "ex_request uid pre ports =
     \<lparr>rq_userID = uid, rq_prefix = pre,
      rq_ports = map (\<lambda>(p, s). \<lparr>pm_localPort = p, pm_nameSuffix = s\<rparr>) ports,
      rq_domains = [''ex.org''], rq_rateLimit = 0, rq_clientIP = ''10.0.0.1'', rq_basicAuth = [],
      rq_addedHeaders = []\<rparr>"

definition ex_registry :: registry where
  "ex_registry = snd (register (ex_env ''t1'' [Some 10001]) (ex_request ''alice'' ''demo'' [(8080, [])]) new_registry)"

lemmas eval_register = register_def register_check_def is_valid_subdomain_def to_lower_def lower_char_def
  reserved_subdomains_def subdomain_regex_def is_alnum_def is_label_char_def is_digit_def
  request_hosts_def mapping_hosts_def host_suffix_def mapping_subdomain_def full_host_def
  trim_prefix_def has_prefix_def get_def put_def del_def new_lease_def add_lease_def
  allowed_remote_def itoa_def itoa_nat.simps digit_def deref_def local_node_id_def roll_back_def
  ex_env_def ex_request_def Let_def get_lease_def

lemma ex_registry_value:
  "r_leases ex_registry = [(''demo.ex.org'', 0)]" "r_sessions ex_registry = [(''t1'', [0])]"
  "length (r_heap ex_registry) = 1" "l_userID (deref ex_registry 0) = ''alice''"
  "l_fullHost (deref ex_registry 0) = ''demo.ex.org''" "l_sessionToken (deref ex_registry 0) = ''t1''"
  "r_nodeID ex_registry = []" "l_localPort (deref ex_registry 0) = 10001"
  "l_createdAt (deref ex_registry 0) = 0"
  by (simp_all add: ex_registry_def new_registry_def eval_register)

lemma ex_registry_wf [simp]: "registry_wf ex_registry" "routes_owned ex_registry"
  by (auto simp: registry_wf_def routes_owned_def session_pointers_def ex_registry_value is_table_def get_def
      split: if_splits)

lemma ex_fresh [simp]: "tok \<noteq> ''t1'' \<Longrightarrow> token_fresh (ex_env tok ports) ex_registry"
  by (simp add: token_fresh_def ex_env_def ex_registry_value get_def)

section \<open>Properties\<close>

text \<open>Registering never disturbs anybody else: whatever its outcome, a host routed to a
  tunnel of another user is routed to that same tunnel afterwards.\<close>

theorem register_keeps_other_users:
  assumes "registry_wf r" and "get_lease r h = Some l" and "l_userID l \<noteq> rq_userID rq"
  shows "get_lease (snd (register env rq r)) h = Some l"
proof -
  obtain res r' where reg: "register env rq r = (res, r')" by (cases "register env rq r")
  from assms(2) obtain p where "get (r_leases r) h = Some p" "deref r p = l"
    by (auto simp: get_lease_def)
  with register_route_of_other [OF reg assms(1)] assms(3) reg show ?thesis
    by (simp add: get_lease_def)
qed

theorem register_keeps_other_users_witness:
  "\<exists>l. get_lease (snd (register (ex_env ''t2'' [Some 10002]) (ex_request ''bob'' ''demo'' [(8080, [])]) ex_registry))
       ''demo.ex.org'' = Some l \<and> l_userID l = ''alice''"
proof -
  have l: "get_lease ex_registry ''demo.ex.org'' = Some (deref ex_registry 0)"
    by (simp add: get_lease_def ex_registry_value get_def)
  have "l_userID (deref ex_registry 0) \<noteq> rq_userID (ex_request ''bob'' ''demo'' [(8080, [])])"
    by (simp add: ex_registry_value ex_request_def)
  from register_keeps_other_users [OF ex_registry_wf(1) l this] show ?thesis
    by (simp add: ex_registry_value)
qed

text \<open>Registering keeps the registry well-formed in every outcome, errors included,
  provided the session token is fresh.\<close>

theorem register_keeps_invariant:
  assumes "registry_wf r" "token_fresh env r"
  shows "registry_wf (snd (register env rq r))"
  using register_wf_aux [OF _ assms] by (metis prod.collapse)

theorem register_keeps_invariant_witness:
  "registry_wf (snd (register (ex_env ''t2'' [Some 10002]) (ex_request ''bob'' ''shop'' [(8080, [])]) ex_registry))"
  by (rule register_keeps_invariant) simp_all

text \<open>A registration leaves every route reachable by the sweep (listed under its own
  session), unless it failed for want of a free port.\<close>

theorem register_keeps_routes_owned:
  assumes "registry_wf r" "routes_owned r" "token_fresh env r"
    and "fst (register env rq r) \<noteq> Inl Port_failed"
  shows "routes_owned (snd (register env rq r))"
  using register_owned_aux [OF _ assms(1-3)] assms(4) by (metis prod.collapse)

theorem register_keeps_routes_owned_witness:
  "routes_owned (snd (register (ex_env ''t2'' [Some 10002]) (ex_request ''bob'' ''demo'' [(8080, [])]) ex_registry))"
proof (rule register_keeps_routes_owned)
  show "fst (register (ex_env ''t2'' [Some 10002]) (ex_request ''bob'' ''demo'' [(8080, [])]) ex_registry)
      \<noteq> Inl Port_failed"
    by (simp add: eval_register ex_registry_value [unfolded deref_def])
qed simp_all

text \<open>A successful registration routes every host of the request to a tunnel of this user
  and this session, and lists them under the new session token.\<close>

theorem register_success_routes:
  assumes ok: "fst (register env rq r) = Inr (tok, remotes)" and h: "h \<in> set (request_hosts rq)"
  shows "\<exists>l. get_lease (snd (register env rq r)) h = Some l \<and> l_userID l = rq_userID rq \<and>
     l_sessionToken l = tok \<and> l \<in> set (get_session_leases (snd (register env rq r)) tok)"
proof -
  obtain res r' where reg: "register env rq r = (res, r')" by (cases "register env rq r")
  from reg show ?thesis
  proof (cases rule: register_cases)
    case okc: (ok tok' r1 ps rs r2)
    note g = register_allocation(1) [OF okc(4)]
    from register_allocation(3) [OF okc(4) refl h] obtain p where
      p: "get (r_leases r2) h = Some p" "length (r_heap r1) \<le> p" "p < length (r_heap r2)" by blast
    have ps: "ps = [length (r_heap r1)..<length (r_heap r2)]"
      using register_allocation(2) [OF okc(4)] by blast
    from okc ok reg have t: "tok' = tok" by simp
    have d: "deref r' q = deref r2 q" for q by (simp add: okc(5) deref_def)
    have "get_session_leases r' tok = map (deref r2) ps"
      by (simp add: get_session_leases_def session_pointers_def okc(5) t table_simps deref_def)
    moreover have "get_lease r' h = Some (deref r2 p)"
      using p(1) d by (simp add: get_lease_def okc(5))
    ultimately show ?thesis using reg grown_new [OF g p(2,3)] p(2,3) ps t by auto
  qed (use ok reg in auto)
qed


theorem register_success_routes_witness:
  "\<exists>l. get_lease ex_registry ''demo.ex.org'' = Some l \<and> l_userID l = ''alice'' \<and> l_sessionToken l = ''t1''"
proof -
  have "fst (register (ex_env ''t1'' [Some 10001]) (ex_request ''alice'' ''demo'' [(8080, [])]) new_registry)
      = Inr (''t1'', [''R:127.0.0.1:10001:localhost:8080''])"
    by (simp add: new_registry_def eval_register)
  moreover have "''demo.ex.org'' \<in> set (request_hosts (ex_request ''alice'' ''demo'' [(8080, [])]))"
    by (simp add: eval_register)
  ultimately show ?thesis
    using register_success_routes unfolding ex_registry_def by (fastforce simp: ex_request_def)
qed

text \<open>Chisel's credentials stay in step with the session table through every outcome of a
  registration: a name is accepted exactly while its session is live.\<close>

theorem register_keeps_chisel_in_step:
  assumes "chisel_in_step r" "token_fresh env r"
  shows "chisel_in_step (snd (register env rq r))"
  using register_chisel_aux [OF _ assms] by (metis prod.collapse)

theorem register_keeps_chisel_in_step_witness:
  "chisel_in_step (snd (register (ex_env ''t2'' [Some 10002]) (ex_request ''bob'' ''shop'' [(8080, [])]) new_registry))"
  by (rule register_keeps_chisel_in_step)
    (simp_all add: chisel_in_step_def token_fresh_def new_registry_def)

section \<open>The effect on the routes\<close>

text \<open>Somebody else's tunnel answers to the host.\<close>

definition foreign_host :: "registry \<Rightarrow> string \<Rightarrow> string \<Rightarrow> bool" where
  "foreign_host r uid h \<longleftrightarrow> (case get_lease r h of None \<Rightarrow> False | Some l \<Rightarrow> l_userID l \<noteq> uid)"

lemma claim_hosts_exact:
  "claim_hosts uid hs r = (res, r') \<Longrightarrow>
   res = List.find (foreign_host r uid) hs \<and>
   get (r_leases r') h = (if h \<in> set (takeWhile (\<lambda>g. \<not> foreign_host r uid g) hs) then None else get (r_leases r) h)"
proof (induction uid hs r arbitrary: res r' rule: claim_hosts.induct)
  case (2 uid h0 hs r)
  show ?case
  proof (cases "get (r_leases r) h0")
    case None
    then show ?thesis using 2 by (auto simp: foreign_host_def get_lease_def)
  next
    case (Some p)
    show ?thesis
    proof (cases "l_userID (deref r p) = uid")
      case False
      then show ?thesis using "2.prems" Some by (auto simp: foreign_host_def get_lease_def)
    next
      case True
      let ?s = "r\<lparr>r_leases := del h0 (r_leases r), r_usedPorts := del (l_localPort (deref r p)) (r_usedPorts r)\<rparr>"
      have same: "foreign_host ?s uid = foreign_host r uid"
        using Some True by (auto simp: fun_eq_iff foreign_host_def get_lease_def table_simps deref_def split: option.split)
      have "claim_hosts uid hs ?s = (res, r')" using "2.prems" Some True by simp
      from "2.IH"(2) [OF Some True this] Some True show ?thesis
        unfolding same by (auto simp: foreign_host_def get_lease_def table_simps)
    qed
  qed
qed simp

text \<open>The hosts whose routes a registration touches, by its outcome.\<close>

definition touched_hosts :: "register_request \<Rightarrow> register_error + 'a \<Rightarrow> string set" where
  "touched_hosts rq res =
     (case res of
        Inl (Already_registered h) \<Rightarrow> set (takeWhile (\<lambda>g. g \<noteq> h) (request_hosts rq))
      | Inl e \<Rightarrow> if e = Token_failed \<or> e = Port_failed \<or> e = Chisel_failed then set (request_hosts rq) else {}
      | Inr _ \<Rightarrow> set (request_hosts rq))"

lemma find_takeWhile: "List.find P xs = Some h \<Longrightarrow> takeWhile (\<lambda>g. g \<noteq> h) xs = takeWhile (\<lambda>g. \<not> P g) xs"
  by (induction xs) (auto split: if_splits dest: find_SomeD)

lemma find_None_takeWhile: "List.find P xs = None \<Longrightarrow> takeWhile (\<lambda>g. \<not> P g) xs = xs"
  by (induction xs) (auto split: if_splits)

lemma allocated_lease:
  assumes "claim_hosts (rq_userID rq) (request_hosts rq) r = (None, r1)"
    "allocate rq tok now (enumerate 0 (rq_ports rq)) answers r1 = (x, r2)" "registry_wf r"
  shows "h \<notin> set (request_hosts rq) \<Longrightarrow> get_lease r2 h = get_lease r h"
    and "h \<in> set (request_hosts rq) \<Longrightarrow> get_lease r2 h = None \<or>
      (\<exists>p. get (r_leases r2) h = Some p \<and> length (r_heap r1) \<le> p \<and> p < length (r_heap r2) \<and> l_fullHost (deref r2 p) = h \<and>
         l_userID (deref r2 p) = rq_userID rq \<and> l_sessionToken (deref r2 p) = tok)"
proof -
  note g = register_allocation(1) [OF assms(2)]
  note c = claim_hosts_exact [OF assms(1)]
  have route: "get (r_leases r2) h = get (r_leases r1) h \<or>
      (\<exists>p. get (r_leases r2) h = Some p \<and> length (r_heap r1) \<le> p \<and> p < length (r_heap r2) \<and> l_fullHost (deref r2 p) = h)"
    using g unfolding grown_def by blast
  show "get_lease r2 h = get_lease r h" if "h \<notin> set (request_hosts rq)"
  proof -
    have "get (r_leases r2) h = get (r_leases r1) h" using route grown_new [OF g] that by auto
    moreover have "get (r_leases r1) h = get (r_leases r) h" using c [of h] that by (auto dest: set_takeWhileD)
    moreover have "deref r2 p = deref r p" if "get (r_leases r) h = Some p" for p
      using wf_route [OF assms(3) that] grown_old [OF g, of p] claim_hosts_frame [OF assms(1)] by (simp add: deref_def)
    ultimately show ?thesis by (cases "get (r_leases r) h") (auto simp: get_lease_def)
  qed
  show "get_lease r2 h = None \<or>
      (\<exists>p. get (r_leases r2) h = Some p \<and> length (r_heap r1) \<le> p \<and> p < length (r_heap r2) \<and> l_fullHost (deref r2 p) = h \<and>
         l_userID (deref r2 p) = rq_userID rq \<and> l_sessionToken (deref r2 p) = tok)" if "h \<in> set (request_hosts rq)"
    using route claim_hosts_free [OF assms(1) that] grown_new [OF g] by (auto simp: get_lease_def)
qed

text \<open>C40: What a registration does to the routes, exactly, in every outcome. It is refused for a host that is taken
  exactly when a well-formed request names one of somebody else's tunnel, and names the first. The hosts it touches are
  those before that one, or all of the request when it gets past the check; every other host leads where it led. A touched
  host leads to the new tunnel of this user and session when the registration succeeds and nowhere when it fails, the roll-back after
  a refusal of chisel included; only when the ports run out may a new route stay behind.\<close>

theorem register_effect_exact:
  assumes "register env rq r = (res, r')" "registry_wf r"
  shows "(res = Inl (Already_registered g) \<longleftrightarrow>
       register_check rq = None \<and> List.find (foreign_host r (rq_userID rq)) (request_hosts rq) = Some g) \<and>
    (h \<notin> touched_hosts rq res \<longrightarrow> get_lease r' h = get_lease r h) \<and>
    (h \<in> touched_hosts rq res \<longrightarrow>
       (case res of
          Inr (tok, remotes) \<Rightarrow> \<exists>l. get_lease r' h = Some l \<and> l_userID l = rq_userID rq \<and> l_sessionToken l = tok
        | Inl e \<Rightarrow> get_lease r' h = None \<or>
            e = Port_failed \<and> (\<exists>l. get_lease r' h = Some l \<and> l_userID l = rq_userID rq \<and> env_token env = Some (l_sessionToken l))))"
proof -
  let ?hosts = "request_hosts rq" and ?uid = "rq_userID rq"
  have claimed: "c = List.find (foreign_host r ?uid) ?hosts"
      "get_lease s h = (if h \<in> set (takeWhile (\<lambda>g. \<not> foreign_host r ?uid g) ?hosts) then None else get_lease r h)"
    if "claim_hosts ?uid ?hosts r = (c, s)" for c s
    using claim_hosts_exact [OF that, of h] claim_hosts_frame [OF that] by (cases "get (r_leases r) h"; auto simp: get_lease_def deref_def)+
  have all: "takeWhile (\<lambda>g. \<not> foreign_host r ?uid g) ?hosts = ?hosts" if "claim_hosts ?uid ?hosts r = (None, s)" for s
    using claimed(1) [OF that] by (simp add: find_None_takeWhile)
  from assms(1) show ?thesis
  proof (cases rule: register_cases)
    case (checked e)
    then have "e \<noteq> Already_registered x \<and> e \<noteq> Token_failed \<and> e \<noteq> Port_failed \<and> e \<noteq> Chisel_failed" for x
      by (auto simp: register_check_def split: if_splits)
    then show ?thesis using checked by (cases e) (auto simp: touched_hosts_def)
  next
    case (conflict h')
    then show ?thesis
      using claimed [OF conflict(2)] find_takeWhile [of "foreign_host r ?uid" ?hosts h'] by (auto simp: touched_hosts_def)
  next
    case no_token
    then show ?thesis using claimed [OF no_token(2)] all [OF no_token(2)] by (auto simp: touched_hosts_def)
  next
    case (no_port tok r1)
    note a = allocated_lease [OF no_port(2,4) assms(2), of h]
    show ?thesis using a no_port claimed(1) [OF no_port(2)] by (auto simp: touched_hosts_def get_lease_def)
  next
    case (refused tok r1 ps rs r2 r3)
    note a = allocated_lease [OF refused(2,4) assms(2), of h] and g = register_allocation(1) [OF refused(4)]
    have ps: "ps = [length (r_heap r1)..<length (r_heap r2)]" using register_allocation(2) [OF refused(4)] by blast
    have l: "get_lease r' h = (if h \<in> (\<lambda>p. l_fullHost (deref r2 p)) ` set ps then None else get_lease r2 h)"
    proof -
      have "deref r' p = deref r2 p" "deref r3 p = deref r2 p" for p using refused(5,6) by (simp_all add: deref_def)
      then show ?thesis
        using refused(5,6) by (cases "get (r_leases r2) h") (auto simp: get_lease_def roll_back_routes)
    qed
    have "h \<in> (\<lambda>p. l_fullHost (deref r2 p)) ` set ps \<longleftrightarrow> h \<in> set ?hosts"
    proof
      assume "h \<in> set ?hosts"
      with register_allocation(3) [OF refused(4) refl this] a(2) show "h \<in> (\<lambda>p. l_fullHost (deref r2 p)) ` set ps"
        by (auto simp: get_lease_def ps)
    qed (use grown_new [OF g] ps in auto)
    then show ?thesis using a(1) l refused claimed(1) [OF refused(2)] by (auto simp: touched_hosts_def)
  next
    case (ok tok r1 ps rs r2)
    note a = allocated_lease [OF ok(2,4) assms(2), of h]
    have l: "get_lease r' h = get_lease r2 h" using ok(5) by (cases "get (r_leases r2) h") (simp_all add: get_lease_def deref_def)
    have "h \<in> set ?hosts \<Longrightarrow> get_lease r2 h \<noteq> None" using register_allocation(3) [OF ok(4) refl] by (auto simp: get_lease_def)
    then show ?thesis using a l ok claimed(1) [OF ok(2)] by (auto simp: touched_hosts_def get_lease_def)
  qed
qed

theorem register_effect_exact_witness:
  "fst (register (ex_env ''t2'' [Some 10002]) (ex_request ''bob'' ''demo'' [(8080, [])]) ex_registry) = Inl (Already_registered ''demo.ex.org'')"
proof -
  let ?rq = "ex_request ''bob'' ''demo'' [(8080, [])]"
  obtain res r' where reg: "register (ex_env ''t2'' [Some 10002]) ?rq ex_registry = (res, r')" by fastforce
  have "l_userID (r_heap ex_registry ! 0) = ''alice''" using ex_registry_value(4) by (simp add: deref_def)
  then have "register_check ?rq = None" "List.find (foreign_host ex_registry (rq_userID ?rq)) (request_hosts ?rq) = Some ''demo.ex.org''"
    by (simp_all add: foreign_host_def ex_registry_value(1) eval_register)
  then show ?thesis using register_effect_exact [OF reg] reg by simp
qed

text \<open>A registration refused because somebody else holds one of its hosts has already torn
  down the user's own routes among the hosts before it: the refusal is not atomic.\<close>

theorem refused_register_drops_own_routes:
  assumes "fst (register env rq r) = Inl (Already_registered h)"
    and "request_hosts rq = before @ h # after" and "h \<notin> set before" and "g \<in> set before"
  shows "get_lease (snd (register env rq r)) g = None"
proof -
  obtain res r' where reg: "register env rq r = (res, r')" by (cases "register env rq r")
  from reg show ?thesis
  proof (cases rule: register_cases)
    case (checked e)
    with assms(1) reg show ?thesis by (auto simp: register_check_def split: if_splits)
  next
    case (conflict h')
    with assms(1) reg have "h' = h" by simp
    with conflict(2) assms(2-4) reg show ?thesis
      using claim_hosts_conflict_prefix by (fastforce simp: get_lease_def)
  qed (use assms(1) reg in auto)
qed

text \<open>In the witness bob holds \<open>demo-api\<close>; alice, whose tunnel \<open>demo\<close> is up, registers
  \<open>demo\<close> with a second port \<open>api\<close>, is refused, and \<open>demo\<close> is gone.\<close>

theorem refused_register_drops_own_routes_witness:
  "\<exists>r. get_lease r ''demo.ex.org'' \<noteq> None \<and>
     get_lease (snd (register (ex_env ''t3'' [Some 10003, Some 10004])
       (ex_request ''alice'' ''demo'' [(8080, []), (3000, ''api'')]) r)) ''demo.ex.org'' = None"
proof (intro exI conjI)
  let ?r = "snd (register (ex_env ''t2'' [Some 10002]) (ex_request ''bob'' ''demo-api'' [(8080, [])]) ex_registry)"
  let ?rq = "ex_request ''alice'' ''demo'' [(8080, []), (3000, ''api'')]"
  show "get_lease ?r ''demo.ex.org'' \<noteq> None"
    by (simp add: eval_register ex_registry_value [unfolded deref_def])
  show "get_lease (snd (register (ex_env ''t3'' [Some 10003, Some 10004]) ?rq ?r)) ''demo.ex.org'' = None"
  proof (rule refused_register_drops_own_routes)
    show "fst (register (ex_env ''t3'' [Some 10003, Some 10004]) ?rq ?r) = Inl (Already_registered ''demo-api.ex.org'')"
      by (simp add: eval_register ex_registry_value [unfolded deref_def] nth_append)
    show "request_hosts ?rq = [''demo.ex.org''] @ ''demo-api.ex.org'' # []"
      by (simp add: eval_register)
  qed simp_all
qed

end
