(* ===== verification/Registry_Teardown.thy ===== *)
theory Registry_Teardown
  imports Registry_Register
begin

text \<open>
  Tearing sessions down: the contract of the two memories of what was torn down (a locale,
  interpreted for released hosts and for cleaned sessions), exactly which routes
  \<open>clean_lease\<close> and the sweep remove, and where kicking a tunnel by its prefix goes wrong.
\<close>

section \<open>A memory with a time to live\<close>

text \<open>
  The contract both memories keep: remembering a key makes it recent for the time to live,
  and forgets nothing that is still recent (the pruning is invisible).
\<close>

locale ttl_memory =
  fixes remember :: "time \<Rightarrow> string \<Rightarrow> 's \<Rightarrow> 's"
    and recent :: "time \<Rightarrow> string \<Rightarrow> 's \<Rightarrow> bool"
    and ok :: "'s \<Rightarrow> bool"
    and ttl :: duration
  assumes ok_remember: "ok s \<Longrightarrow> ok (remember now k s)"
    and recent_same: "ok s \<Longrightarrow> recent t k (remember now k s) \<longleftrightarrow> t - now < ttl"
    and recent_other: "ok s \<Longrightarrow> k' \<noteq> k \<Longrightarrow> now \<le> t \<Longrightarrow> recent t k' (remember now k s) \<longleftrightarrow> recent t k' s"
begin

lemma recent_remember:
  "ok s \<Longrightarrow> now \<le> t \<Longrightarrow> recent t k' (remember now k s) \<longleftrightarrow> (if k' = k then t - now < ttl else recent t k' s)"
  by (simp add: recent_same recent_other)

lemma recent_fold:
  "ok s \<Longrightarrow> now \<le> t \<Longrightarrow>
   recent t k (fold (remember now) ks s) \<longleftrightarrow> (if k \<in> set ks then t - now < ttl else recent t k s)"
  by (induction ks arbitrary: s) (simp_all add: recent_remember ok_remember)

end

lemma get_pruned_put:
  fixes now t :: time and ttl :: duration and m :: "(string, time) table"
  assumes "is_table m" "now \<le> t"
  shows "(case get (put k now (filter (\<lambda>(k, t'). \<not> ttl \<le> now - t') m)) k' of
            None \<Rightarrow> False | Some t' \<Rightarrow> t - t' < ttl)
     \<longleftrightarrow> (if k' = k then t - now < ttl else (case get m k' of None \<Rightarrow> False | Some t' \<Rightarrow> t - t' < ttl))"
  using assms(2) get_filter [OF assms(1), of "\<lambda>k t'. \<not> ttl \<le> now - t'"]
  by (auto simp: table_simps split: option.splits)

lemma get_put_same: "get (put k v m) k = Some v"
  by (simp add: table_simps)

interpretation released: ttl_memory remember_released_host recently_released
  "\<lambda>r. is_table (r_released r)" released_host_ttl
  by unfold_locales
    (simp_all add: remember_released_host_def recently_released_def get_put_same get_pruned_put)

interpretation cleaned: ttl_memory remember_cleaned_session session_was_cleaned
  "\<lambda>r. is_table (r_cleaned r)" cleaned_session_ttl
  by unfold_locales
    (simp_all add: remember_cleaned_session_def session_was_cleaned_def get_put_same get_pruned_put)

section \<open>Dropping one lease\<close>

lemma remember_frame [simp]:
  "r_heap (remember_released_host now h r) = r_heap r"
  "r_leases (remember_released_host now h r) = r_leases r"
  "r_sessions (remember_released_host now h r) = r_sessions r"
  "r_usedPorts (remember_released_host now h r) = r_usedPorts r"
  "r_cleaned (remember_released_host now h r) = r_cleaned r"
  "r_chisel (remember_released_host now h r) = r_chisel r"
  "r_heap (remember_cleaned_session now h r) = r_heap r"
  "r_leases (remember_cleaned_session now h r) = r_leases r"
  "r_sessions (remember_cleaned_session now h r) = r_sessions r"
  "r_released (remember_cleaned_session now h r) = r_released r"
  "r_chisel (remember_cleaned_session now h r) = r_chisel r"
  by (simp_all add: remember_released_host_def remember_cleaned_session_def)

lemma deref_cong: "r_heap r = r_heap s \<Longrightarrow> deref r p = deref s p"
  by (simp add: deref_def)

text \<open>What a step leaves of every lease: all but the two byte watermarks.\<close>

definition same_lease :: "lease \<Rightarrow> lease \<Rightarrow> bool" where
  "same_lease l m \<longleftrightarrow>
     l\<lparr>l_lastBytesIn := 0, l_lastBytesOut := 0\<rparr> = m\<lparr>l_lastBytesIn := 0, l_lastBytesOut := 0\<rparr>"

lemma same_lease_refl [simp]: "same_lease l l"
  by (simp add: same_lease_def)

lemma same_lease_trans: "same_lease l m \<Longrightarrow> same_lease m n \<Longrightarrow> same_lease l n"
  by (simp add: same_lease_def)

lemma same_leaseD:
  assumes "same_lease l m"
  shows "l_fullHost l = l_fullHost m" "l_sessionToken l = l_sessionToken m" "l_localPort l = l_localPort m"
    "l_createdAt l = l_createdAt m" "l_userID l = l_userID m"
  using assms by (cases l; cases m; simp add: same_lease_def)+

lemma on_lease_cleanup_frame [simp]:
  "r_leases (on_lease_cleanup p r) = r_leases r" "r_sessions (on_lease_cleanup p r) = r_sessions r"
  "r_released (on_lease_cleanup p r) = r_released r" "r_cleaned (on_lease_cleanup p r) = r_cleaned r"
  "r_chisel (on_lease_cleanup p r) = r_chisel r"
  "length (r_heap (on_lease_cleanup p r)) = length (r_heap r)"
  by (simp_all add: on_lease_cleanup_def)

lemma on_lease_cleanup_deref:
  "same_lease (deref (on_lease_cleanup p r) q) (deref r q)"
  "q \<noteq> p \<Longrightarrow> deref (on_lease_cleanup p r) q = deref r q"
proof -
  have *: "deref (on_lease_cleanup p r) q = deref (modify advance_watermark p r) q"
    by (simp add: on_lease_cleanup_def deref_def)
  show "same_lease (deref (on_lease_cleanup p r) q) (deref r q)"
    unfolding * by (cases "p < length (r_heap r)"; cases "q = p")
      (auto simp: same_lease_def advance_watermark_def deref_def modify_def list_update_beyond)
  show "q \<noteq> p \<Longrightarrow> deref (on_lease_cleanup p r) q = deref r q"
    unfolding * by (simp add: deref_def modify_def)
qed

lemma drop_lease_frame [simp]:
  "r_sessions (drop_lease now p r) = r_sessions r" "r_cleaned (drop_lease now p r) = r_cleaned r"
  "r_chisel (drop_lease now p r) = r_chisel r"
  "length (r_heap (drop_lease now p r)) = length (r_heap r)"
  by (simp_all add: drop_lease_def Let_def)

lemma drop_lease_heap: "r_heap (drop_lease now p r) = r_heap (on_lease_cleanup p r)"
  by (simp add: drop_lease_def Let_def)

lemma drop_lease_deref:
  "same_lease (deref (drop_lease now p r) q) (deref r q)"
  "q \<noteq> p \<Longrightarrow> deref (drop_lease now p r) q = deref r q"
  using on_lease_cleanup_deref deref_cong [OF drop_lease_heap, of now p r q] by auto

text \<open>The host table names hosts correctly: the part of the invariant a teardown needs.\<close>

definition routes_named :: "registry \<Rightarrow> bool" where
  "routes_named r \<longleftrightarrow> (\<forall>h p. get (r_leases r) h = Some p \<longrightarrow> l_fullHost (deref r p) = h)"

lemma registry_wf_named: "registry_wf r \<Longrightarrow> routes_named r"
  by (simp add: routes_named_def registry_wf_def)

lemma routes_namedD: "routes_named r \<Longrightarrow> get (r_leases r) h = Some p \<Longrightarrow> l_fullHost (deref r p) = h"
  unfolding routes_named_def by blast

lemma drop_lease_routes:
  assumes "routes_named r"
  shows "get (r_leases (drop_lease now p r)) h = (if get (r_leases r) h = Some p then None else get (r_leases r) h)"
proof -
  have host: "l_fullHost (deref (on_lease_cleanup p r) p) = l_fullHost (deref r p)"
    by (rule same_leaseD [OF on_lease_cleanup_deref(1)])
  have table: "get (r_leases (drop_lease now p r)) h =
      (if get (r_leases r) (l_fullHost (deref r p)) = Some p \<and> h = l_fullHost (deref r p)
       then None else get (r_leases r) h)"
    by (simp add: drop_lease_def Let_def table_simps host)
  show ?thesis unfolding table using routes_namedD [OF assms, of h p] by (cases "get (r_leases r) h = Some p") auto
qed

lemma drop_lease_named:
  assumes "routes_named r"
  shows "routes_named (drop_lease now p r)"
  unfolding routes_named_def
proof (intro allI impI)
  fix h q assume "get (r_leases (drop_lease now p r)) h = Some q"
  then have "get (r_leases r) h = Some q"
    by (simp add: drop_lease_routes [OF assms] split: if_splits)
  with assms have "l_fullHost (deref r q) = h" by (rule routes_namedD)
  then show "l_fullHost (deref (drop_lease now p r) q) = h"
    using same_leaseD(1) [OF drop_lease_deref(1)] by simp
qed

text \<open>Dropping every lease of a list.\<close>

lemma drop_leases_frame [simp]:
  "r_sessions (fold (drop_lease now) ps r) = r_sessions r"
  "r_cleaned (fold (drop_lease now) ps r) = r_cleaned r"
  "r_chisel (fold (drop_lease now) ps r) = r_chisel r"
  "length (r_heap (fold (drop_lease now) ps r)) = length (r_heap r)"
  by (induction ps arbitrary: r) simp_all

lemma drop_leases_deref: "same_lease (deref (fold (drop_lease now) ps r) q) (deref r q)"
proof (induction ps arbitrary: r)
  case (Cons p ps)
  then show ?case using same_lease_trans [OF _ drop_lease_deref(1)] by fastforce
qed simp

lemma drop_leases_named: "routes_named r \<Longrightarrow> routes_named (fold (drop_lease now) ps r)"
  by (induction ps arbitrary: r) (simp_all add: drop_lease_named)

lemma drop_leases_routes:
  "routes_named r \<Longrightarrow>
   get (r_leases (fold (drop_lease now) ps r)) h =
     (case get (r_leases r) h of None \<Rightarrow> None | Some p \<Rightarrow> if p \<in> set ps then None else Some p)"
proof (induction ps arbitrary: r)
  case (Cons p ps)
  then show ?case using Cons.IH [OF drop_lease_named [OF Cons.prems]]
    by (simp add: drop_lease_routes [OF Cons.prems] split: option.splits)
qed (simp split: option.splits)

lemma drop_lease_table: "is_table (r_leases r) \<Longrightarrow> is_table (r_leases (drop_lease now p r))"
  by (simp add: drop_lease_def Let_def)

lemma drop_leases_table: "is_table (r_leases r) \<Longrightarrow> is_table (r_leases (fold (drop_lease now) ps r))"
  by (induction ps arbitrary: r) (simp_all add: drop_lease_table)

lemma drop_lease_released_cases:
  assumes "routes_named r"
  shows "r_released (drop_lease now p r) =
    (if get (r_leases r) (l_fullHost (deref r p)) = Some p
     then r_released (remember_released_host now (l_fullHost (deref r p)) r) else r_released r)"
proof -
  have host: "l_fullHost (deref (on_lease_cleanup p r) p) = l_fullHost (deref r p)"
    by (rule same_leaseD [OF on_lease_cleanup_deref(1)])
  show ?thesis by (simp add: drop_lease_def Let_def host remember_released_host_def)
qed

lemma recently_released_cong: "r_released r = r_released s \<Longrightarrow> recently_released t h r = recently_released t h s"
  by (simp add: recently_released_def)

lemma drop_lease_released_table:
  "routes_named r \<Longrightarrow> is_table (r_released r) \<Longrightarrow> is_table (r_released (drop_lease now p r))"
  using drop_lease_released_cases [of r now p] released.ok_remember [of r now] by simp

lemma drop_lease_recently:
  assumes "routes_named r" "is_table (r_released r)" "now \<le> t"
  shows "recently_released t h (drop_lease now p r) \<longleftrightarrow>
    (if get (r_leases r) h = Some p then t - now < released_host_ttl else recently_released t h r)"
proof (cases "get (r_leases r) (l_fullHost (deref r p)) = Some p")
  case True
  have "recently_released t h (drop_lease now p r)
      \<longleftrightarrow> recently_released t h (remember_released_host now (l_fullHost (deref r p)) r)"
    by (rule recently_released_cong) (simp add: drop_lease_released_cases [OF assms(1)] True)
  then have "recently_released t h (drop_lease now p r) \<longleftrightarrow>
      (if h = l_fullHost (deref r p) then t - now < released_host_ttl else recently_released t h r)"
    by (simp add: released.recent_remember [OF assms(2,3)])
  moreover have "h = l_fullHost (deref r p) \<longleftrightarrow> get (r_leases r) h = Some p"
    using routes_namedD [OF assms(1), of h p] True by blast
  ultimately show ?thesis by presburger
next
  case False
  have "recently_released t h (drop_lease now p r) \<longleftrightarrow> recently_released t h r"
    by (rule recently_released_cong) (simp add: drop_lease_released_cases [OF assms(1)] False)
  moreover have "get (r_leases r) h \<noteq> Some p"
    using routes_namedD [OF assms(1), of h p] False by blast
  ultimately show ?thesis by presburger
qed

lemma drop_leases_recently:
  assumes "routes_named r" "is_table (r_released r)" "now \<le> t"
  shows "recently_released t h (fold (drop_lease now) ps r) \<longleftrightarrow>
    (case get (r_leases r) h of
       Some p \<Rightarrow> if p \<in> set ps then t - now < released_host_ttl else recently_released t h r
     | None \<Rightarrow> recently_released t h r)"
  using assms
proof (induction ps arbitrary: r)
  case (Cons p ps)
  have "recently_released t h (fold (drop_lease now) ps (drop_lease now p r)) \<longleftrightarrow>
    (case get (r_leases (drop_lease now p r)) h of
       Some q \<Rightarrow> if q \<in> set ps then t - now < released_host_ttl else recently_released t h (drop_lease now p r)
     | None \<Rightarrow> recently_released t h (drop_lease now p r))"
    by (rule Cons.IH) (simp_all add: Cons.prems drop_lease_named drop_lease_released_table)
  also have "\<dots> \<longleftrightarrow>
    (case get (r_leases r) h of
       Some q \<Rightarrow> if q \<in> set (p # ps) then t - now < released_host_ttl else recently_released t h r
     | None \<Rightarrow> recently_released t h r)"
    unfolding drop_lease_recently [OF Cons.prems] drop_lease_routes [OF Cons.prems(1)]
    by (simp split: option.split)
  finally show ?case by simp
qed (simp split: option.splits)

section \<open>Cleaning a session\<close>

lemma session_members:
  assumes "registry_wf r" "routes_owned r" "get (r_sessions r) tok = Some ps" "get (r_leases r) h = Some p"
  shows "p \<in> set ps \<longleftrightarrow> l_sessionToken (deref r p) = tok"
proof
  assume "p \<in> set ps"
  then show "l_sessionToken (deref r p) = tok" using wf_session [OF assms(1,3)] by blast
next
  assume tok: "l_sessionToken (deref r p) = tok"
  have "p \<in> set (session_pointers r (l_sessionToken (deref r p)))"
    using assms(2,4) unfolding routes_owned_def by blast
  then show "p \<in> set ps" by (simp add: tok session_pointers_def assms(3))
qed

lemma clean_lease_known:
  assumes "get (r_sessions r) tok = Some ps"
  shows "r_leases (clean_lease now tok r) = r_leases (fold (drop_lease now) ps r)"
    "r_sessions (clean_lease now tok r) = del tok (r_sessions r)"
    "r_heap (clean_lease now tok r) = r_heap (fold (drop_lease now) ps r)"
    "r_chisel (clean_lease now tok r) = r_chisel r @ [DeleteUser tok]"
    "r_released (clean_lease now tok r) = r_released (fold (drop_lease now) ps r)"
    "r_cleaned (clean_lease now tok r) = r_cleaned (remember_cleaned_session now tok r)"
  using assms by (simp_all add: clean_lease_def Let_def remember_cleaned_session_def remember_released_host_def)

lemma clean_lease_unknown: "get (r_sessions r) tok = None \<Longrightarrow> clean_lease now tok r = r"
  by (simp add: clean_lease_def)

lemma clean_lease_deref: "same_lease (deref (clean_lease now tok r) q) (deref r q)"
proof (cases "get (r_sessions r) tok")
  case (Some ps)
  have "deref (clean_lease now tok r) q = deref (fold (drop_lease now) ps r) q"
    by (rule deref_cong) (simp add: clean_lease_known [OF Some])
  then show ?thesis using drop_leases_deref by simp
qed (simp add: clean_lease_unknown)

lemma clean_lease_routes_aux:
  assumes "registry_wf r" "routes_owned r"
  shows "get (r_leases (clean_lease now tok r)) h =
    (case get (r_leases r) h of None \<Rightarrow> None
     | Some p \<Rightarrow> if l_sessionToken (deref r p) = tok then None else Some p)"
proof (cases "get (r_sessions r) tok")
  case None
  have "l_sessionToken (deref r p) \<noteq> tok" if "get (r_leases r) h = Some p" for p
    using that assms(2) None unfolding routes_owned_def session_pointers_def
    by (metis empty_iff empty_set option.simps(4))
  then show ?thesis by (simp add: clean_lease_unknown [OF None] split: option.splits)
next
  case (Some ps)
  show ?thesis using session_members [OF assms Some, of h]
    by (simp add: clean_lease_known [OF Some] drop_leases_routes [OF registry_wf_named [OF assms(1)]]
        split: option.splits)
qed

lemma clean_lease_recently:
  assumes "registry_wf r" "routes_owned r" "is_table (r_released r)" "get (r_sessions r) tok = Some ps" "now \<le> t"
  shows "recently_released t h (clean_lease now tok r) \<longleftrightarrow>
      (case get_lease r h of
         Some l \<Rightarrow> if l_sessionToken l = tok then t - now < released_host_ttl else recently_released t h r
       | None \<Rightarrow> recently_released t h r)"
proof -
  have "recently_released t h (clean_lease now tok r) \<longleftrightarrow> recently_released t h (fold (drop_lease now) ps r)"
    by (rule recently_released_cong) (simp add: clean_lease_known [OF assms(4)])
  then show ?thesis
    using session_members [OF assms(1,2,4), of h]
    by (simp add: drop_leases_recently [OF registry_wf_named [OF assms(1)] assms(3,5)] get_lease_def split: option.split)
qed

lemma clean_lease_wf_aux:
  assumes "registry_wf r"
  shows "registry_wf (clean_lease now tok r)"
proof (cases "get (r_sessions r) tok")
  case (Some ps)
  let ?r = "clean_lease now tok r"
  have len: "length (r_heap ?r) = length (r_heap r)" by (simp add: clean_lease_known [OF Some])
  have same: "l_fullHost (deref ?r q) = l_fullHost (deref r q)" "l_sessionToken (deref ?r q) = l_sessionToken (deref r q)" for q
    using same_leaseD [OF clean_lease_deref] by blast+
  have route: "get (r_leases r) h = Some p" if "get (r_leases ?r) h = Some p" for h p
    using that drop_leases_routes [OF registry_wf_named [OF assms], of now ps h]
    by (simp add: clean_lease_known [OF Some] split: option.splits if_splits)
  have sess: "get (r_sessions r) tk = Some qs" if "get (r_sessions ?r) tk = Some qs" for tk qs
    using that by (simp add: clean_lease_known [OF Some] table_simps split: if_splits)
  have "is_table (r_leases ?r)" "is_table (r_sessions ?r)"
    using assms drop_leases_table [of r now ps] by (simp_all add: registry_wf_def clean_lease_known [OF Some])
  then show ?thesis
    unfolding registry_wf_def len same
    using wf_route [OF assms route] wf_session [OF assms sess] by blast
qed (simp add: clean_lease_unknown assms)

lemma clean_lease_owned_aux:
  assumes "registry_wf r" "routes_owned r"
  shows "routes_owned (clean_lease now tok r)"
  unfolding routes_owned_def
proof (intro allI impI)
  fix h p assume h: "get (r_leases (clean_lease now tok r)) h = Some p"
  have same: "l_sessionToken (deref (clean_lease now tok r) p) = l_sessionToken (deref r p)"
    by (rule same_leaseD [OF clean_lease_deref])
  from h have r: "get (r_leases r) h = Some p" "l_sessionToken (deref r p) \<noteq> tok"
    by (auto simp: clean_lease_routes_aux [OF assms] split: option.splits if_splits)
  have "p \<in> set (session_pointers r (l_sessionToken (deref r p)))"
    using assms(2) r(1) unfolding routes_owned_def by blast
  moreover have "session_pointers (clean_lease now tok r) (l_sessionToken (deref r p))
      = session_pointers r (l_sessionToken (deref r p))"
    using r(2) by (cases "get (r_sessions r) tok")
      (simp_all add: clean_lease_unknown clean_lease_known session_pointers_def table_simps)
  ultimately show "p \<in> set (session_pointers (clean_lease now tok r) (l_sessionToken (deref (clean_lease now tok r) p)))"
    by (simp add: same)
qed

section \<open>The sweep\<close>

text \<open>
  A session the sweep takes down: it has a lease, its first lease is at least thirty seconds
  old, and nothing listens on that lease's local port.
\<close>

definition session_dead :: "time \<Rightarrow> (int \<Rightarrow> bool) \<Rightarrow> registry \<Rightarrow> string \<Rightarrow> bool" where
  "session_dead now listening r tok =
     (case get (r_sessions r) tok of
        Some (p # ps) \<Rightarrow>
          30 * second \<le> now - l_createdAt (deref r p) \<and> \<not> listening (l_localPort (deref r p))
      | _ \<Rightarrow> False)"

lemma sweep_session_alt:
  "sweep_session now listening tok r =
     (if session_dead now listening r tok then clean_lease now tok r else r)"
  by (simp add: sweep_session_def session_dead_def split: option.split list.split)

lemma session_dead_clean:
  "tok' \<noteq> tok \<Longrightarrow> session_dead now listening (clean_lease t tok r) tok' = session_dead now listening r tok'"
  using same_leaseD(3,4) [OF clean_lease_deref, of t tok r]
  by (cases "get (r_sessions r) tok")
    (simp_all add: clean_lease_unknown session_dead_def clean_lease_known table_simps split: option.split list.split)

lemma sweep_sessions_aux:
  assumes "registry_wf r" "routes_owned r" "distinct toks"
  shows "registry_wf (fold (sweep_session now listening) toks r) \<and>
    routes_owned (fold (sweep_session now listening) toks r) \<and>
    get (r_leases (fold (sweep_session now listening) toks r)) h =
      (case get (r_leases r) h of None \<Rightarrow> None
       | Some p \<Rightarrow> if l_sessionToken (deref r p) \<in> set toks \<and> session_dead now listening r (l_sessionToken (deref r p))
                  then None else Some p)"
  using assms
proof (induction toks arbitrary: r)
  case (Cons tok toks)
  show ?case
  proof (cases "session_dead now listening r tok")
    case True
    let ?r = "clean_lease now tok r"
    have same: "l_sessionToken (deref ?r q) = l_sessionToken (deref r q)" for q
      by (rule same_leaseD [OF clean_lease_deref])
    have "tok \<notin> set toks" "distinct toks" using Cons.prems(3) by simp_all
    note IH = Cons.IH [OF clean_lease_wf_aux [OF Cons.prems(1)] clean_lease_owned_aux [OF Cons.prems(1,2)] this(2), of now tok]
    show ?thesis using IH True \<open>tok \<notin> set toks\<close>
      by (simp add: sweep_session_alt clean_lease_routes_aux [OF Cons.prems(1,2)] same session_dead_clean split: option.split)
  next
    case False
    have "distinct toks" using Cons.prems(3) by simp
    note IH = Cons.IH [OF Cons.prems(1,2) this]
    have skip: "fold (sweep_session now listening) (tok # toks) r = fold (sweep_session now listening) toks r"
      using False by (simp add: sweep_session_alt)
    show ?thesis unfolding skip using IH False by (auto split: option.splits)
  qed
qed (simp split: option.split)

lemma session_dead_listed: "session_dead now listening r tok \<Longrightarrow> tok \<in> set (map fst (r_sessions r))"
  by (force simp: session_dead_def dest: get_SomeD split: option.splits)

section \<open>Properties\<close>

text \<open>Cleaning a session removes exactly the routes that point at its own leases: a host
  that was taken over by a newer session stays routed to the newer one. The session is
  forgotten and its chisel user deleted.\<close>

theorem clean_lease_removes_own_routes:
  assumes "registry_wf r" "routes_owned r"
  shows "map_option l_sessionToken (get_lease (clean_lease now tok r) h) =
      (case get_lease r h of None \<Rightarrow> None
       | Some l \<Rightarrow> if l_sessionToken l = tok then None else Some (l_sessionToken l))
    \<and> get (r_sessions (clean_lease now tok r)) tok = None
    \<and> registry_wf (clean_lease now tok r) \<and> routes_owned (clean_lease now tok r)"
proof (intro conjI clean_lease_wf_aux clean_lease_owned_aux assms)
  have "l_sessionToken (deref (clean_lease now tok r) p) = l_sessionToken (deref r p)" for p
    by (rule same_leaseD [OF clean_lease_deref])
  then show "map_option l_sessionToken (get_lease (clean_lease now tok r) h) =
      (case get_lease r h of None \<Rightarrow> None
       | Some l \<Rightarrow> if l_sessionToken l = tok then None else Some (l_sessionToken l))"
    by (simp add: get_lease_def clean_lease_routes_aux [OF assms] split: option.split)
  show "get (r_sessions (clean_lease now tok r)) tok = None"
    by (cases "get (r_sessions r) tok") (simp_all add: clean_lease_unknown clean_lease_known table_simps)
qed

text \<open>In the witness alice reconnects: the host moves to her second session, and cleaning the
  first one late leaves it there.\<close>

theorem clean_lease_removes_own_routes_witness:
  "\<exists>r. l_sessionToken (the (get_lease r ''demo.ex.org'')) = ''t2'' \<and> get (r_sessions r) ''t1'' = Some [0] \<and>
     map_option l_sessionToken (get_lease (clean_lease 5 ''t1'' r) ''demo.ex.org'') = Some ''t2''"
proof (intro exI conjI)
  let ?env = "ex_env ''t2'' [Some 10002]" and ?rq = "ex_request ''alice'' ''demo'' [(8080, [])]"
  let ?r = "snd (register ?env ?rq ex_registry)"
  have ok: "fst (register ?env ?rq ex_registry) \<noteq> Inl Port_failed"
    by (simp add: eval_register ex_registry_value [unfolded deref_def])
  have reg: "register ?env ?rq ex_registry = (fst (register ?env ?rq ex_registry), ?r)" by (rule prod.collapse [symmetric])
  have fresh: "token_fresh ?env ex_registry" by (rule ex_fresh) simp
  note wf = register_wf_aux [OF reg ex_registry_wf(1) fresh]
  have own: "routes_owned ?r" using register_owned_aux [OF reg ex_registry_wf fresh] ok by blast
  have lease: "map_option l_sessionToken (get_lease ?r ''demo.ex.org'') = Some ''t2''"
    by (simp add: eval_register ex_registry_value [unfolded deref_def] nth_append)
  then obtain l where l: "get_lease ?r ''demo.ex.org'' = Some l" "l_sessionToken l = ''t2''" by blast
  show "l_sessionToken (the (get_lease ?r ''demo.ex.org'')) = ''t2''" using l by simp
  show "get (r_sessions ?r) ''t1'' = Some [0]"
    by (simp add: eval_register ex_registry_value [unfolded deref_def])
  show "map_option l_sessionToken (get_lease (clean_lease 5 ''t1'' ?r) ''demo.ex.org'') = Some ''t2''"
    using clean_lease_removes_own_routes [OF wf own, of 5 "''t1''" "''demo.ex.org''"] l by simp
qed

text \<open>What cleaning a session leaves in the two memories: the session counts as torn down
  for exactly ten minutes, and a host counts as just released for exactly five when it was
  one of the session's, while what was remembered of any other host is unchanged.\<close>

theorem clean_lease_remembers:
  assumes "registry_wf r" "routes_owned r" "is_table (r_released r)" "is_table (r_cleaned r)"
    and "get (r_sessions r) tok = Some ps" "now \<le> t"
  shows "(session_was_cleaned t tok (clean_lease now tok r) \<longleftrightarrow> t - now < 10 * minute)
    \<and> (recently_released t h (clean_lease now tok r) \<longleftrightarrow>
      (case get_lease r h of
         Some l \<Rightarrow> if l_sessionToken l = tok then t - now < 5 * minute else recently_released t h r
       | None \<Rightarrow> recently_released t h r))"
proof (rule conjI)
  have "session_was_cleaned t tok (clean_lease now tok r)
      \<longleftrightarrow> session_was_cleaned t tok (remember_cleaned_session now tok r)"
    by (simp add: session_was_cleaned_def clean_lease_known [OF assms(5)])
  then show "session_was_cleaned t tok (clean_lease now tok r) \<longleftrightarrow> t - now < 10 * minute"
    using cleaned.recent_same [OF assms(4)] by (simp add: cleaned_session_ttl_def)
  show "recently_released t h (clean_lease now tok r) \<longleftrightarrow>
      (case get_lease r h of
         Some l \<Rightarrow> if l_sessionToken l = tok then t - now < 5 * minute else recently_released t h r
       | None \<Rightarrow> recently_released t h r)"
    using clean_lease_recently [OF assms(1,2,3,5,6), of h, unfolded released_host_ttl_def] .
qed

theorem clean_lease_remembers_witness:
  "session_was_cleaned (9 * minute) ''t1'' (clean_lease 0 ''t1'' ex_registry)
   \<and> \<not> recently_released (9 * minute) ''demo.ex.org'' (clean_lease 0 ''t1'' ex_registry)"
proof -
  have tables: "is_table (r_released ex_registry)" "is_table (r_cleaned ex_registry)"
    by (simp_all add: ex_registry_def new_registry_def eval_register is_table_def)
  have sess: "get (r_sessions ex_registry) ''t1'' = Some [0]" by (simp add: ex_registry_value get_def)
  have lease: "get_lease ex_registry ''demo.ex.org'' = Some (deref ex_registry 0)"
    by (simp add: get_lease_def ex_registry_value get_def)
  have "(0::time) \<le> 9 * minute" by (simp add: minute_def second_def)
  note both = clean_lease_remembers [OF ex_registry_wf tables sess this]
  show ?thesis using both [of "''demo.ex.org''"]
    by (simp add: lease ex_registry_value minute_def second_def)
qed

text \<open>The sweep takes down exactly the dead sessions: a route survives it if and only if its
  session's first lease is younger than thirty seconds or still has its port listening, and
  the registry stays well-formed.\<close>

theorem sweep_removes_dead_sessions:
  assumes "registry_wf r" "routes_owned r"
  shows "get (r_leases (cleanup_orphan_leases now listening r)) h =
      (case get (r_leases r) h of None \<Rightarrow> None
       | Some p \<Rightarrow> if session_dead now listening r (l_sessionToken (deref r p)) then None else Some p)
    \<and> registry_wf (cleanup_orphan_leases now listening r)
    \<and> routes_owned (cleanup_orphan_leases now listening r)"
proof -
  have "distinct (map fst (r_sessions r))" using assms(1) by (simp add: registry_wf_def is_table_def)
  note swept = sweep_sessions_aux [OF assms this, of now listening h]
  show ?thesis
    using swept session_dead_listed [of now listening r]
    by (auto simp: cleanup_orphan_leases_def split: option.splits)
qed

theorem sweep_removes_dead_sessions_witness:
  "get (r_leases (cleanup_orphan_leases (31 * second) (\<lambda>p. p = 1) ex_registry)) ''demo.ex.org'' = None
   \<and> get (r_leases (cleanup_orphan_leases (29 * second) (\<lambda>p. p = 1) ex_registry)) ''demo.ex.org'' = Some 0"
  using sweep_removes_dead_sessions [OF ex_registry_wf, of "31 * second" "\<lambda>p. p = 1" "''demo.ex.org''"]
    sweep_removes_dead_sessions [OF ex_registry_wf, of "29 * second" "\<lambda>p. p = 1" "''demo.ex.org''"]
  by (simp add: session_dead_def ex_registry_value get_def)

text \<open>Kicking a prefix that holds a tunnel ends one whole session: the one of the first
  host, in iteration order, that begins with the prefix and a dot. Nothing else is routed
  differently, and when no host begins so nothing changes.\<close>

theorem kick_lease_ends_one_session:
  assumes "registry_wf r" "routes_owned r"
    and "\<And>h l. get_lease r h = Some l \<Longrightarrow> l_sessionToken l \<noteq> []"
  shows "(fst (kick_lease now pre r) \<longleftrightarrow> (\<exists>h. get_lease r h \<noteq> None \<and> has_prefix h (pre @ ''.'')))
    \<and> (if fst (kick_lease now pre r)
       then \<exists>h l. get_lease r h = Some l \<and> has_prefix h (pre @ ''.'') \<and>
              snd (kick_lease now pre r) = clean_lease now (l_sessionToken l) r
       else snd (kick_lease now pre r) = r)"
proof (cases "List.find (\<lambda>(host, p). has_prefix host (pre @ ''.'')) (r_leases r)")
  case None
  then have "\<not> has_prefix h (pre @ ''.'')" if "get_lease r h \<noteq> None" for h
    using that by (fastforce simp: find_None_iff get_lease_def dest: get_SomeD)
  with None show ?thesis by (auto simp: kick_lease_def)
next
  case (Some hp)
  obtain h p where hp: "hp = (h, p)" by (cases hp)
  have "is_table (r_leases r)" using assms(1) by (simp add: registry_wf_def)
  moreover have "(h, p) \<in> set (r_leases r)" "has_prefix h (pre @ ''.'')"
    using Some by (auto simp: hp find_Some_iff set_conv_nth)
  ultimately have lease: "get_lease r h = Some (deref r p)" "has_prefix h (pre @ ''.'')"
    by (simp_all add: get_in_set get_lease_def)
  then have "kick_lease now pre r = (True, clean_lease now (l_sessionToken (deref r p)) r)"
    using Some hp assms(3) by (auto simp: kick_lease_def)
  with lease show ?thesis by auto
qed

text \<open>The witness: kicking the prefix \<open>demo\<close> ends the session of another user whose custom
  domain happens to begin with \<open>demo.\<close>.\<close>

definition ex_custom_domain :: registry where
  "ex_custom_domain = snd (register (ex_env ''t9'' [Some 10009])
     ((ex_request ''carol'' [] [(8080, [])])\<lparr>rq_domains := [''demo.acme.com'']\<rparr>) new_registry)"

theorem kick_lease_ends_one_session_witness:
  "get_lease (snd (kick_lease 0 ''demo'' ex_custom_domain)) ''demo.acme.com'' = None
   \<and> map_option l_userID (get_lease ex_custom_domain ''demo.acme.com'') = Some ''carol''
   \<and> \<not> fst (kick_lease 0 [] ex_custom_domain)"
proof -
  have vals: "r_leases ex_custom_domain = [(''demo.acme.com'', 0)]" "r_sessions ex_custom_domain = [(''t9'', [0])]"
    "length (r_heap ex_custom_domain) = 1" "l_userID (deref ex_custom_domain 0) = ''carol''"
    "l_fullHost (deref ex_custom_domain 0) = ''demo.acme.com''" "l_sessionToken (deref ex_custom_domain 0) = ''t9''"
    by (simp_all add: ex_custom_domain_def new_registry_def eval_register)
  have wf: "registry_wf ex_custom_domain" "routes_owned ex_custom_domain"
    by (auto simp: registry_wf_def routes_owned_def session_pointers_def vals is_table_def get_def split: if_splits)
  have tok: "l_sessionToken l \<noteq> []" if "get_lease ex_custom_domain h = Some l" for h l
    using that by (auto simp: get_lease_def vals get_def split: if_splits)
  have lease: "get_lease ex_custom_domain h = (if h = ''demo.acme.com'' then Some (deref ex_custom_domain 0) else None)" for h
    by (simp add: get_lease_def vals get_def)
  have kick: "(fst (kick_lease 0 pre ex_custom_domain)
        \<longleftrightarrow> (\<exists>h. get_lease ex_custom_domain h \<noteq> None \<and> has_prefix h (pre @ ''.'')))
      \<and> (if fst (kick_lease 0 pre ex_custom_domain)
         then \<exists>h l. get_lease ex_custom_domain h = Some l \<and> has_prefix h (pre @ ''.'') \<and>
                snd (kick_lease 0 pre ex_custom_domain) = clean_lease 0 (l_sessionToken l) ex_custom_domain
         else snd (kick_lease 0 pre ex_custom_domain) = ex_custom_domain)" for pre
    by (rule kick_lease_ends_one_session [OF wf tok])
  have yes: "fst (kick_lease 0 ''demo'' ex_custom_domain)"
    using kick [of "''demo''"] by (simp add: lease has_prefix_def)
  then obtain h l where "get_lease ex_custom_domain h = Some l"
    "snd (kick_lease 0 ''demo'' ex_custom_domain) = clean_lease 0 (l_sessionToken l) ex_custom_domain"
    using kick [of "''demo''"] by auto
  then have snd: "snd (kick_lease 0 ''demo'' ex_custom_domain) = clean_lease 0 ''t9'' ex_custom_domain"
    by (auto simp: lease vals split: if_splits)
  have "get_lease (clean_lease 0 ''t9'' ex_custom_domain) ''demo.acme.com'' = None"
    using clean_lease_routes_aux [OF wf, of 0 "''t9''" "''demo.acme.com''"] by (simp add: get_lease_def vals get_def)
  moreover have "\<not> fst (kick_lease 0 [] ex_custom_domain)"
    using kick [of "[]"] by (simp add: lease has_prefix_def)
  ultimately show ?thesis by (simp add: snd lease vals)
qed

text \<open>A registration that runs out of ports after its first mapping leaves that mapping's
  route behind, listed by no session: it is still routed after every later sweep.\<close>

theorem failed_register_orphans_route:
  "\<exists>env rq. fst (register env rq new_registry) = Inl Port_failed \<and>
     get_lease (snd (register env rq new_registry)) ''demo.ex.org'' \<noteq> None \<and>
     (\<forall>now listening. cleanup_orphan_leases now listening (snd (register env rq new_registry))
        = snd (register env rq new_registry))"
proof (intro exI conjI allI)
  let ?env = "ex_env ''t1'' [Some 10001, None]"
  let ?rq = "ex_request ''alice'' ''demo'' [(8080, []), (3000, ''api'')]"
  show "fst (register ?env ?rq new_registry) = Inl Port_failed"
    by (simp add: new_registry_def eval_register)
  show "get_lease (snd (register ?env ?rq new_registry)) ''demo.ex.org'' \<noteq> None"
    by (simp add: new_registry_def eval_register)
  have "r_sessions (snd (register ?env ?rq new_registry)) = []"
    by (simp add: new_registry_def eval_register)
  then show "cleanup_orphan_leases now listening (snd (register ?env ?rq new_registry))
      = snd (register ?env ?rq new_registry)" for now listening
    by (simp add: cleanup_orphan_leases_def)
qed

end
