(* ===== verification/Accounts.thy ===== *)
theory Accounts
  imports Prelude
begin

text \<open>
  Accounts and the settings that bound them: the fields of a user record, a role and the server
  configuration the registration path reads, the three-level resolution of every limit
  (\<open>api.go\<close>, \<open>quota.go\<close>, \<open>rate_limit.go\<close>, \<open>registration_policy.go\<close>), and the policy that
  decides whether something may never expire (\<open>never_expires.go\<close>).
\<close>

section \<open>Records\<close>

text \<open>A pointer to a number in the source is an option here: \<open>None\<close> says nothing.\<close>

record user =
  u_id :: string
  u_email :: string
  u_role :: string
  u_status :: string
  u_preferredDomain :: string
  u_languagePreference :: string
  u_themePreference :: string
  u_lastClientVersion :: string
  u_lastClientOS :: string
  u_subdomainStyle :: string
  u_rateLimit :: int
  u_maxReservations :: "int option"
  u_maxCustomDomains :: "int option"
  u_maxTunnels :: "int option"
  u_bandwidthQuotaBytes :: "int option"

record role_setting =
  rs_maxReservations :: "int option"
  rs_maxCustomDomains :: "int option"
  rs_subdomainExpiryDays :: "int option"
  rs_customDomainExpiryDays :: "int option"
  rs_allowAutoReservation :: "bool option"
  rs_bandwidthQuotaBytes :: "int option"

record bandwidth_quota_config =
  bq_defaultBytes :: int
  bq_throttlePercent :: int
  bq_throttleRateLimit :: int
  bq_periodDays :: int

text \<open>
  The server configuration. The role settings are a table that may be absent; reading a nil
  map finds nothing, as an empty table does.
\<close>

record server_config =
  cf_domains :: "string list"
  cf_tunnelDomains :: "string list"
  cf_roleSettings :: "(string, role_setting) table"
  cf_defaultMaxReservations :: int
  cf_adminMaxReservations :: "int option"
  cf_ownerMaxReservations :: "int option"
  cf_defaultMaxCustomDomains :: int
  cf_adminMaxCustomDomains :: "int option"
  cf_ownerMaxCustomDomains :: "int option"
  cf_defaultMaxActiveTunnels :: int
  cf_adminMaxActiveTunnels :: "int option"
  cf_ownerMaxActiveTunnels :: "int option"
  cf_maxTunnelRateLimit :: int
  cf_allowClientAutoReservation :: bool
  cf_subdomainQuarantineDays :: int
  cf_bandwidthQuota :: bandwidth_quota_config
  cf_neverExpiresTokens :: string
  cf_neverExpiresSubdomains :: string
  cf_neverExpiresCustomDomains :: string

definition role_lookup :: "server_config \<Rightarrow> string \<Rightarrow> (role_setting \<Rightarrow> 'a option) \<Rightarrow> 'a option" where
  "role_lookup cfg role field = Option.bind (get (cf_roleSettings cfg) role) field"

section \<open>Limits\<close>

definition get_user_max_reservations :: "server_config \<Rightarrow> user \<Rightarrow> int" where
  "get_user_max_reservations cfg u =
     (case u_maxReservations u of Some n \<Rightarrow> n
      | None \<Rightarrow>
     (case role_lookup cfg (u_role u) rs_maxReservations of Some n \<Rightarrow> n
      | None \<Rightarrow>
        if u_role u = ''admin'' then (case cf_adminMaxReservations cfg of Some n \<Rightarrow> n | None \<Rightarrow> 3)
        else if u_role u = ''owner'' then (case cf_ownerMaxReservations cfg of Some n \<Rightarrow> n | None \<Rightarrow> -1)
        else cf_defaultMaxReservations cfg))"

definition get_user_max_custom_domains :: "server_config \<Rightarrow> user \<Rightarrow> int" where
  "get_user_max_custom_domains cfg u =
     (case u_maxCustomDomains u of Some n \<Rightarrow> n
      | None \<Rightarrow>
     (case role_lookup cfg (u_role u) rs_maxCustomDomains of Some n \<Rightarrow> n
      | None \<Rightarrow>
        if u_role u = ''admin'' then (case cf_adminMaxCustomDomains cfg of Some n \<Rightarrow> n | None \<Rightarrow> 1)
        else if u_role u = ''owner'' then (case cf_ownerMaxCustomDomains cfg of Some n \<Rightarrow> n | None \<Rightarrow> -1)
        else cf_defaultMaxCustomDomains cfg))"

text \<open>
  \<open>maxActiveTunnelsFor\<close>: the authenticated user carries the role, the record re-read from the
  database (absent when that failed) carries the override.
\<close>

definition max_active_tunnels_for :: "server_config \<Rightarrow> user option \<Rightarrow> user option \<Rightarrow> int" where
  "max_active_tunnels_for cfg user userRec =
     (let by_role =
        (case user of None \<Rightarrow> cf_defaultMaxActiveTunnels cfg
         | Some u \<Rightarrow>
            (if u_role u = ''admin'' \<and> cf_adminMaxActiveTunnels cfg \<noteq> None
             then the (cf_adminMaxActiveTunnels cfg)
             else if u_role u = ''owner'' \<and> cf_ownerMaxActiveTunnels cfg \<noteq> None
             then the (cf_ownerMaxActiveTunnels cfg)
             else cf_defaultMaxActiveTunnels cfg))
      in case Option.bind userRec u_maxTunnels of Some n \<Rightarrow> n | None \<Rightarrow> by_role)"

definition clamp_limit :: "int \<Rightarrow> int \<Rightarrow> int" where
  "clamp_limit limit n = (if n \<le> 0 \<or> limit < n then limit else n)"

definition effective_tunnel_rate_limit :: "server_config \<Rightarrow> int \<Rightarrow> user option \<Rightarrow> int" where
  "effective_tunnel_rate_limit cfg requested userRec =
     (let e = (case userRec of None \<Rightarrow> requested
               | Some u \<Rightarrow> (if 0 < u_rateLimit u then clamp_limit (u_rateLimit u) requested else requested))
      in if 0 < cf_maxTunnelRateLimit cfg then clamp_limit (cf_maxTunnelRateLimit cfg) e
         else if e \<le> 0 then 0 else e)"

definition subdomain_styles :: "string list" where
  "subdomain_styles = [''liferay'', ''words'', ''heroku'', ''ngrok'', ''random'']"

definition subdomain_style_for :: "user option \<Rightarrow> string" where
  "subdomain_style_for userRec =
     (case userRec of None \<Rightarrow> ''liferay''
      | Some u \<Rightarrow> if u_subdomainStyle u \<notin> set subdomain_styles then ''liferay'' else u_subdomainStyle u)"

definition can_user_auto_reserve :: "server_config \<Rightarrow> user option \<Rightarrow> bool" where
  "can_user_auto_reserve cfg userRec =
     (case Option.bind userRec (\<lambda>u. role_lookup cfg (u_role u) rs_allowAutoReservation) of
        Some b \<Rightarrow> b | None \<Rightarrow> cf_allowClientAutoReservation cfg)"

text \<open>What the client reports about itself, and whether the record has to be written back.\<close>

definition record_client_version_and_os :: "string \<Rightarrow> string \<Rightarrow> user \<Rightarrow> user \<times> bool" where
  "record_client_version_and_os version os u =
     (let v = version \<noteq> [] \<and> u_lastClientVersion u \<noteq> version;
          w = os \<noteq> [] \<and> u_lastClientOS u \<noteq> os;
          u1 = (if v then u\<lparr>u_lastClientVersion := version\<rparr> else u);
          u2 = (if w then u1\<lparr>u_lastClientOS := os\<rparr> else u1)
      in (u2, v \<or> w))"

definition resolve_bandwidth_quota :: "server_config option \<Rightarrow> user option \<Rightarrow> int" where
  "resolve_bandwidth_quota cfg user =
     (case Option.bind user u_bandwidthQuotaBytes of Some n \<Rightarrow> n
      | None \<Rightarrow>
     (case Option.bind cfg (\<lambda>c. Option.bind user (\<lambda>u. role_lookup c (u_role u) rs_bandwidthQuotaBytes)) of
        Some n \<Rightarrow> n
      | None \<Rightarrow> (case cfg of None \<Rightarrow> 0 | Some c \<Rightarrow> bq_defaultBytes (cf_bandwidthQuota c))))"

section \<open>Permanence\<close>

text \<open>A \<open>NeverExpiresPolicy\<close> is a string; every test resolves it first.\<close>

definition policy_resolve :: "string \<Rightarrow> string" where
  "policy_resolve p = (if trim_space p = [] then ''disabled'' else to_lower (trim_space p))"

definition policy_available :: "string \<Rightarrow> bool" where
  "policy_available p \<longleftrightarrow> policy_resolve p \<noteq> ''disabled''"

definition policy_grants_immediately :: "string \<Rightarrow> bool" where
  "policy_grants_immediately p \<longleftrightarrow> policy_resolve p = ''allowed''"

definition policy_requires_approval :: "string \<Rightarrow> bool" where
  "policy_requires_approval p \<longleftrightarrow> policy_resolve p = ''approval''"

definition policy_valid :: "string \<Rightarrow> bool" where
  "policy_valid p \<longleftrightarrow> trim_space p = [] \<or> policy_resolve p \<in> set [''disabled'', ''approval'', ''allowed'']"

text \<open>\<open>AddDate(0, 0, n)\<close> on a UTC instant: \<open>n\<close> days later.\<close>

definition add_days :: "time \<Rightarrow> int \<Rightarrow> time" where
  "add_days t n = t + n * (24 * hour)"

text \<open>An expiry is \<open>None\<close> when it never comes.\<close>

datatype permanence_error = Permanence_not_allowed

definition default_requested_pat_expiry_days :: int where "default_requested_pat_expiry_days = 30"

definition resolve_pat_expiry ::
  "string \<Rightarrow> int \<Rightarrow> time \<Rightarrow> permanence_error + (time option \<times> bool)" where
  "resolve_pat_expiry policy days now =
     (if 0 < days then Inr (Some (add_days now days), False)
      else if policy_grants_immediately policy then Inr (None, False)
      else if policy_requires_approval policy
           then Inr (Some (add_days now default_requested_pat_expiry_days), True)
      else Inl Permanence_not_allowed)"

definition permanence_grant_allowed :: "string \<Rightarrow> bool" where
  "permanence_grant_allowed policy = policy_available policy"

definition resolve_admin_granted_expiry :: "string \<Rightarrow> int \<Rightarrow> time \<Rightarrow> permanence_error + time option" where
  "resolve_admin_granted_expiry policy days now =
     (if 0 < days then Inr (Some (add_days now days))
      else if \<not> permanence_grant_allowed policy then Inl Permanence_not_allowed
      else Inr None)"

record expiry_inputs =
  ei_permanentByRole :: bool
  ei_days :: int
  ei_defaultDays :: int
  ei_permanentByDefault :: bool

definition default_subdomain_expiry_days :: int where "default_subdomain_expiry_days = 7"
definition default_custom_domain_expiry_days :: int where "default_custom_domain_expiry_days = 90"

definition resolve_expiry_under_policy :: "string \<Rightarrow> expiry_inputs \<Rightarrow> time \<Rightarrow> time option" where
  "resolve_expiry_under_policy policy ei now =
     (let d1 = (if ei_days ei \<le> 0 then ei_defaultDays ei else ei_days ei);
          days = (if d1 \<le> 0 then default_subdomain_expiry_days else d1)
      in if ei_permanentByRole ei
         then (if policy_available policy then None else Some (add_days now days))
         else if ei_permanentByDefault ei \<and> policy_grants_immediately policy then None
         else Some (add_days now days))"

text \<open>The two kinds of reservation.\<close>

datatype resource_kind = Kind_subdomain | Kind_custom_domain

definition policy_for_kind :: "server_config option \<Rightarrow> resource_kind \<Rightarrow> string" where
  "policy_for_kind cfg kind =
     (case cfg of None \<Rightarrow> ''disabled''
      | Some c \<Rightarrow> (case kind of
            Kind_custom_domain \<Rightarrow> policy_resolve (cf_neverExpiresCustomDomains c)
          | Kind_subdomain \<Rightarrow> policy_resolve (cf_neverExpiresSubdomains c)))"

definition expiry_inputs_for :: "server_config option \<Rightarrow> resource_kind \<Rightarrow> user \<Rightarrow> expiry_inputs" where
  "expiry_inputs_for cfg kind u =
     (case kind of
        Kind_custom_domain \<Rightarrow>
          (let ei = \<lparr>ei_permanentByRole = False, ei_days = default_custom_domain_expiry_days,
                     ei_defaultDays = default_custom_domain_expiry_days, ei_permanentByDefault = True\<rparr>
           in case Option.bind cfg (\<lambda>c. role_lookup c (u_role u) rs_customDomainExpiryDays) of
                None \<Rightarrow> ei
              | Some n \<Rightarrow> (if n \<le> 0 then ei\<lparr>ei_permanentByRole := True, ei_permanentByDefault := False\<rparr>
                          else ei\<lparr>ei_days := n, ei_permanentByDefault := False\<rparr>))
      | Kind_subdomain \<Rightarrow>
          (let ei = \<lparr>ei_permanentByRole = False, ei_days = default_subdomain_expiry_days,
                     ei_defaultDays = default_subdomain_expiry_days, ei_permanentByDefault = False\<rparr>
           in case Option.bind cfg (\<lambda>c. role_lookup c (u_role u) rs_subdomainExpiryDays) of
                None \<Rightarrow> ei
              | Some n \<Rightarrow> (if n \<le> 0 then ei\<lparr>ei_permanentByRole := True\<rparr> else ei\<lparr>ei_days := n\<rparr>)))"

definition reservation_expiry :: "server_config option \<Rightarrow> resource_kind \<Rightarrow> user \<Rightarrow> time \<Rightarrow> time option" where
  "reservation_expiry cfg kind u now =
     resolve_expiry_under_policy (policy_for_kind cfg kind) (expiry_inputs_for cfg kind u) now"

section \<open>Facts\<close>

lemma drop_spaces: "s = [] \<or> \<not> P (hd s) \<Longrightarrow> dropWhile P s = s"
  by (cases s) simp_all

lemma trim_space_ends:
  assumes "trim_space s \<noteq> []"
  shows "\<not> is_space (hd (trim_space s))" "\<not> is_space (last (trim_space s))"
proof -
  let ?d = "dropWhile is_space s"
  obtain u where u: "rev ?d = u @ rev (trim_space s)"
    by (metis rev_rev_ident takeWhile_dropWhile_id trim_space_def)
  then have d: "?d = trim_space s @ rev u" by (metis rev_append rev_rev_ident)
  with assms have "hd ?d = hd (trim_space s)" "?d \<noteq> []" by simp_all
  then show "\<not> is_space (hd (trim_space s))" using hd_dropWhile by metis
  have "rev (trim_space s) \<noteq> []" using assms by simp
  then have "\<not> is_space (hd (rev (trim_space s)))"
    unfolding trim_space_def rev_rev_ident by (rule hd_dropWhile)
  then show "\<not> is_space (last (trim_space s))" using assms by (simp add: hd_rev)
qed

lemma trim_space_fixed:
  assumes "s = [] \<or> (\<not> is_space (hd s) \<and> \<not> is_space (last s))"
  shows "trim_space s = s"
proof -
  have "dropWhile is_space s = s" "dropWhile is_space (rev s) = rev s"
    using assms by (auto intro!: drop_spaces simp: hd_rev)
  then show ?thesis by (simp add: trim_space_def)
qed

lemma is_space_lower [simp]: "is_space (lower_char c) \<longleftrightarrow> is_space c"
  by (cases "65 \<le> (of_char c :: nat) \<and> (of_char c :: nat) \<le> 90")
    (auto simp: is_space_def lower_char_def)

lemma trim_space_lower: "trim_space (to_lower (trim_space s)) = to_lower (trim_space s)"
proof (rule trim_space_fixed)
  show "to_lower (trim_space s) = [] \<or>
      \<not> is_space (hd (to_lower (trim_space s))) \<and> \<not> is_space (last (to_lower (trim_space s)))"
    using trim_space_ends [of s] by (cases "trim_space s = []") (simp_all add: to_lower_def hd_map last_map)
qed

lemma policy_resolve_idem [simp]: "policy_resolve (policy_resolve p) = policy_resolve p"
proof (cases "trim_space p = []")
  case True
  have "policy_resolve ''disabled'' = ''disabled''"
    by (simp add: policy_resolve_def trim_space_def is_space_def to_lower_def lower_char_def)
  with True show ?thesis by (simp add: policy_resolve_def)
next
  case False
  then have "policy_resolve p = to_lower (trim_space p)" by (simp add: policy_resolve_def)
  moreover have "to_lower (trim_space p) \<noteq> []" using False by (simp add: to_lower_def)
  ultimately show ?thesis by (simp add: policy_resolve_def trim_space_lower)
qed

lemma hour_positive: "0 < 24 * hour" by (simp add: hour_def minute_def second_def)

lemma add_days_later: "0 < n \<Longrightarrow> t < add_days t n"
  using hour_positive by (simp add: add_days_def)

section \<open>Properties\<close>

text \<open>A granted rate limit respects both bounds: it is positive and at most the fleet ceiling
  when there is one, positive and at most the user's own limit when there is one, never more
  than was asked for, and zero (unlimited) only when nothing bounds it and nothing was asked.\<close>

theorem effective_rate_limit_bounded:
  "let e = effective_tunnel_rate_limit cfg requested (Some u) in
    (0 < cf_maxTunnelRateLimit cfg \<longrightarrow> 0 < e \<and> e \<le> cf_maxTunnelRateLimit cfg) \<and>
    (0 < u_rateLimit u \<longrightarrow> 0 < e \<and> e \<le> u_rateLimit u) \<and>
    (0 < requested \<longrightarrow> 0 < e \<and> e \<le> requested) \<and>
    (e = 0 \<longleftrightarrow> cf_maxTunnelRateLimit cfg \<le> 0 \<and> u_rateLimit u \<le> 0 \<and> requested \<le> 0)"
  by (auto simp: effective_tunnel_rate_limit_def clamp_limit_def Let_def)

definition ex_user :: "string \<Rightarrow> string \<Rightarrow> user" where
  "ex_user i role = \<lparr>u_id = i, u_email = i @ ''@ex.org'', u_role = role, u_status = ''approved'', u_preferredDomain = [],
     u_languagePreference = [], u_themePreference = [], u_lastClientVersion = [],
     u_lastClientOS = [], u_subdomainStyle = [], u_rateLimit = 0, u_maxReservations = None,
     u_maxCustomDomains = None, u_maxTunnels = None, u_bandwidthQuotaBytes = None\<rparr>"

definition ex_config :: server_config where
  "ex_config = \<lparr>cf_domains = [''ex.org''], cf_tunnelDomains = [], cf_roleSettings = [],
     cf_defaultMaxReservations = 2, cf_adminMaxReservations = None, cf_ownerMaxReservations = None,
     cf_defaultMaxCustomDomains = 1, cf_adminMaxCustomDomains = None, cf_ownerMaxCustomDomains = None,
     cf_defaultMaxActiveTunnels = 3, cf_adminMaxActiveTunnels = None, cf_ownerMaxActiveTunnels = None,
     cf_maxTunnelRateLimit = 100, cf_allowClientAutoReservation = True, cf_subdomainQuarantineDays = 7,
     cf_bandwidthQuota = \<lparr>bq_defaultBytes = 1000, bq_throttlePercent = 80, bq_throttleRateLimit = 1,
       bq_periodDays = 0\<rparr>,
     cf_neverExpiresTokens = [], cf_neverExpiresSubdomains = [], cf_neverExpiresCustomDomains = []\<rparr>"

theorem effective_rate_limit_bounded_witness:
  "0 < effective_tunnel_rate_limit ex_config 500 (Some (ex_user ''alice'' ''developer'')) \<and>
   effective_tunnel_rate_limit ex_config 500 (Some (ex_user ''alice'' ''developer'')) \<le> 100"
  using effective_rate_limit_bounded [of ex_config 500 "ex_user ''alice'' ''developer''"]
  by (simp add: Let_def ex_config_def)

text \<open>Nothing becomes permanent except by policy. A reservation without an expiry means the
  policy of its kind is not \<open>disabled\<close>, and either it says \<open>allowed\<close> or the role's own lifetime
  is configured as zero or less; every other reservation lives for at least a day.\<close>

theorem permanence_needs_policy:
  "case reservation_expiry (Some cfg) kind u now of
     None \<Rightarrow> policy_for_kind (Some cfg) kind \<noteq> ''disabled'' \<and>
       (policy_for_kind (Some cfg) kind = ''allowed'' \<or>
        (\<exists>n \<le> 0. role_lookup cfg (u_role u)
           (case kind of Kind_subdomain \<Rightarrow> rs_subdomainExpiryDays | Kind_custom_domain \<Rightarrow> rs_customDomainExpiryDays)
           = Some n))
   | Some t \<Rightarrow> add_days now 1 \<le> t"
proof -
  have idem: "policy_resolve (policy_for_kind (Some cfg) k) = policy_for_kind (Some cfg) k" for k
    by (simp add: policy_for_kind_def split: resource_kind.split)
  have lit: "policy_resolve ''disabled'' = ''disabled''"
    by (simp add: policy_resolve_def trim_space_def is_space_def to_lower_def lower_char_def)
  have day: "add_days now 1 \<le> add_days now n" if "1 \<le> n" for n
    using that hour_positive by (simp add: add_days_def)
  show ?thesis
    by (cases kind)
      (auto simp: reservation_expiry_def resolve_expiry_under_policy_def expiry_inputs_for_def Let_def
        policy_available_def policy_grants_immediately_def idem lit default_subdomain_expiry_days_def
        default_custom_domain_expiry_days_def intro!: day split: option.splits if_splits)
qed

theorem permanence_needs_policy_witness:
  "reservation_expiry (Some ex_config) Kind_custom_domain (ex_user ''alice'' ''owner'') 0 \<noteq> None"
  using permanence_needs_policy [of ex_config Kind_custom_domain "ex_user ''alice'' ''owner''" 0]
  by (auto simp: policy_for_kind_def ex_config_def policy_resolve_def trim_space_def split: option.splits)

text \<open>Under \<open>disabled\<close> no token is permanent either, whoever asks: a holder and an
  administrator are both refused, and a request for a positive lifetime is granted exactly.\<close>

theorem disabled_tokens_expire:
  assumes "policy_resolve policy = ''disabled''"
  shows "resolve_pat_expiry policy days now =
      (if 0 < days then Inr (Some (add_days now days), False) else Inl Permanence_not_allowed) \<and>
    resolve_admin_granted_expiry policy days now =
      (if 0 < days then Inr (Some (add_days now days)) else Inl Permanence_not_allowed)"
  using assms by (simp add: resolve_pat_expiry_def resolve_admin_granted_expiry_def permanence_grant_allowed_def
      policy_available_def policy_grants_immediately_def policy_requires_approval_def)

theorem disabled_tokens_expire_witness: "resolve_pat_expiry [] 0 now = Inl Permanence_not_allowed"
  using disabled_tokens_expire [of "[]" 0 now] by (simp add: policy_resolve_def trim_space_def)

end
