(* ===== verification/Quota.thy ===== *)
theory Quota
  imports Registry_Teardown Accounts
begin

text \<open>
  The cumulative bandwidth quota (\<open>pkg/server/quota.go\<close>): the period, the classification of
  usage, the tracker of standings with its alert latch, the sweep that acts on transitions, the
  gate on registration, and what an edge does with the frame central broadcasts
  (\<open>edge_control_ws.go\<close>). The database is an input: the usage since an instant and the users,
  each absent when the read failed.
\<close>

section \<open>States and standings\<close>

text \<open>\<open>Q_none\<close> is the empty string, the zero value of the state and of the latch.\<close>

datatype quota_state = Q_none | Q_normal | Q_throttled | Q_stopped

record quota_user_standing =
  qs_state :: quota_state
  qs_bytesTotal :: int
  qs_bytesOut :: int
  qs_allowance :: int
  qs_alerted :: quota_state

text \<open>The period start is absent while it is the zero time.\<close>

record quota_tracker =
  qt_periodStart :: "time option"
  qt_standings :: "(string, quota_user_standing) table"

definition new_quota_tracker :: quota_tracker where
  "new_quota_tracker = \<lparr>qt_periodStart = None, qt_standings = []\<rparr>"

definition quota_standing :: "quota_tracker option \<Rightarrow> string \<Rightarrow> quota_user_standing option" where
  "quota_standing t uid = Option.bind t (\<lambda>q. get (qt_standings q) uid)"

definition quota_snapshot :: "quota_tracker option \<Rightarrow> time option \<times> (string, quota_user_standing) table" where
  "quota_snapshot t = (case t of None \<Rightarrow> (None, []) | Some q \<Rightarrow> (qt_periodStart q, qt_standings q))"

definition begin_period :: "time \<Rightarrow> quota_tracker \<Rightarrow> bool \<times> quota_tracker" where
  "begin_period start t =
     (if qt_periodStart t = Some start then (False, t)
      else (qt_periodStart t \<noteq> None, \<lparr>qt_periodStart = Some start, qt_standings = []\<rparr>))"

definition record_standing ::
  "string \<Rightarrow> quota_user_standing \<Rightarrow> quota_tracker \<Rightarrow> quota_state \<times> quota_tracker" where
  "record_standing uid st t =
     (let old = get (qt_standings t) uid;
          previous = (case old of None \<Rightarrow> Q_normal
                      | Some o' \<Rightarrow> if qs_state o' = Q_none then Q_normal else qs_state o');
          latched = (case old of None \<Rightarrow> Q_none | Some o' \<Rightarrow> qs_alerted o');
          st' = (if latched \<noteq> Q_none \<and> qs_alerted st = Q_none then st\<lparr>qs_alerted := latched\<rparr> else st)
      in (previous, t\<lparr>qt_standings := put uid st' (qt_standings t)\<rparr>))"

definition mark_alerted :: "string \<Rightarrow> quota_state \<Rightarrow> quota_tracker \<Rightarrow> bool \<times> quota_tracker" where
  "mark_alerted uid stage t =
     (case get (qt_standings t) uid of
        None \<Rightarrow> (False, t)
      | Some st \<Rightarrow>
          (if qs_alerted st = stage \<or> (qs_alerted st = Q_stopped \<and> stage = Q_throttled) then (False, t)
           else (True, t\<lparr>qt_standings := put uid (st\<lparr>qs_alerted := stage\<rparr>) (qt_standings t)\<rparr>)))"

section \<open>Period, thresholds, classification\<close>

text \<open>
  \<open>time.Date(year, month, 1, \<dots>)\<close> in UTC: the day of the month of a day number counted from
  1970-01-01, in the proleptic Gregorian calendar, with years counted from March.
\<close>

definition day_of_month :: "int \<Rightarrow> int" where
  "day_of_month d =
     (let z = d + 719468; era = z div 146097; doe = z - era * 146097;
          yoe = (doe - doe div 1460 + doe div 36524 - doe div 146096) div 365;
          doy = doe - (365 * yoe + yoe div 4 - yoe div 100);
          mp = (5 * doy + 2) div 153
      in doy - (153 * mp + 2) div 5 + 1)"

definition month_start :: "time \<Rightarrow> time" where
  "month_start t = (let d = t div (24 * hour) in (d - (day_of_month d - 1)) * (24 * hour))"

definition quota_period_start :: "server_config option \<Rightarrow> time \<Rightarrow> time" where
  "quota_period_start cfg now =
     (case cfg of None \<Rightarrow> month_start now
      | Some c \<Rightarrow>
          (if 0 < bq_periodDays (cf_bandwidthQuota c)
           then (let window = bq_periodDays (cf_bandwidthQuota c) * (24 * hour) in quot now window * window)
           else month_start now))"

definition quota_throttle_percent :: "server_config option \<Rightarrow> int" where
  "quota_throttle_percent cfg =
     (case cfg of None \<Rightarrow> 80
      | Some c \<Rightarrow> (let p = bq_throttlePercent (cf_bandwidthQuota c) in if p \<le> 0 \<or> 100 \<le> p then 80 else p))"

definition quota_throttle_rate_limit :: "server_config option \<Rightarrow> int" where
  "quota_throttle_rate_limit cfg =
     (case cfg of None \<Rightarrow> 1
      | Some c \<Rightarrow> (if bq_throttleRateLimit (cf_bandwidthQuota c) \<le> 0 then 1
                  else bq_throttleRateLimit (cf_bandwidthQuota c)))"

definition quota_state_for :: "int \<Rightarrow> int \<Rightarrow> int \<Rightarrow> quota_state" where
  "quota_state_for used allowance pct =
     (if allowance \<le> 0 then Q_normal
      else if allowance \<le> used then Q_stopped
      else if quot (wrap64 (allowance * pct)) 100 \<le> used then Q_throttled
      else Q_normal)"

section \<open>The sweep\<close>

record bandwidth_usage =
  bu_userID :: string
  bu_bytesIn :: int
  bu_bytesOut :: int

definition usage_total :: "bandwidth_usage \<Rightarrow> int" where
  "usage_total u = wrap64 (bu_bytesIn u + bu_bytesOut u)"

text \<open>The control frame \<open>broadcastQuotaEnforcement\<close> sends to every connected edge.\<close>

record quota_frame =
  qf_userID :: string
  qf_action :: string
  qf_rateLimit :: int

record quota_world =
  w_registry :: registry
  w_quotas :: "quota_tracker option"
  w_frames :: "quota_frame list"
  w_alerts :: "(quota_state \<times> string) list"

definition broadcast_quota_enforcement :: "string \<Rightarrow> string \<Rightarrow> int \<Rightarrow> quota_world \<Rightarrow> quota_world" where
  "broadcast_quota_enforcement uid action rate w =
     w\<lparr>w_frames := w_frames w @ [\<lparr>qf_userID = uid, qf_action = action, qf_rateLimit = rate\<rparr>]\<rparr>"

text \<open>Alert an administrator unless the stage was already reported.\<close>

definition alert_once :: "string \<Rightarrow> quota_state \<Rightarrow> quota_world \<Rightarrow> quota_world" where
  "alert_once uid stage w =
     (case w_quotas w of None \<Rightarrow> w
      | Some t \<Rightarrow>
          (case mark_alerted uid stage t of
             (fresh, t') \<Rightarrow>
               (if fresh then w\<lparr>w_quotas := Some t', w_alerts := w_alerts w @ [(stage, uid)]\<rparr>
                else w\<lparr>w_quotas := Some t'\<rparr>)))"

definition kick_user_leases :: "time \<Rightarrow> string \<Rightarrow> registry \<Rightarrow> registry" where
  "kick_user_leases now uid r =
     fold (\<lambda>sub s. snd (kick_lease now sub s)) (lease_subdomains_for_user uid r) r"

definition apply_quota_transition ::
  "server_config option \<Rightarrow> time \<Rightarrow> string \<Rightarrow> quota_state \<Rightarrow> quota_world \<Rightarrow> quota_world" where
  "apply_quota_transition cfg now uid to w =
     (case to of
        Q_throttled \<Rightarrow>
          (let rate = quota_throttle_rate_limit cfg
           in alert_once uid Q_throttled
                (broadcast_quota_enforcement uid ''throttle'' rate
                   (w\<lparr>w_registry := snd (set_quota_rate_limit_for_user uid rate (w_registry w))\<rparr>)))
      | Q_stopped \<Rightarrow>
          alert_once uid Q_stopped
            (broadcast_quota_enforcement uid ''stop'' 0
               (w\<lparr>w_registry := kick_user_leases now uid (w_registry w)\<rparr>))
      | Q_normal \<Rightarrow>
          broadcast_quota_enforcement uid ''release'' 0
            (w\<lparr>w_registry := snd (clear_quota_rate_limit_for_user uid (w_registry w))\<rparr>)
      | Q_none \<Rightarrow> w)"

definition clear_all_quota_limits :: "registry \<Rightarrow> registry" where
  "clear_all_quota_limits r =
     fold (\<lambda>l s. snd (clear_quota_rate_limit_for_user (l_userID l) s)) (list_leases r) r"

definition release_all_quota_enforcement :: "quota_world \<Rightarrow> quota_world" where
  "release_all_quota_enforcement w =
     broadcast_quota_enforcement [] ''release'' 0 (w\<lparr>w_registry := clear_all_quota_limits (w_registry w)\<rparr>)"

definition usage_by_user :: "bandwidth_usage list \<Rightarrow> (string, bandwidth_usage) table" where
  "usage_by_user us = fold (\<lambda>u m. put (bu_userID u) u m) us []"

definition usage_of :: "bandwidth_usage list \<Rightarrow> string \<Rightarrow> bandwidth_usage" where
  "usage_of us uid =
     (case get (usage_by_user us) uid of Some u \<Rightarrow> u
      | None \<Rightarrow> \<lparr>bu_userID = [], bu_bytesIn = 0, bu_bytesOut = 0\<rparr>)"

definition sweep_user ::
  "server_config option \<Rightarrow> bandwidth_usage list \<Rightarrow> time \<Rightarrow> user \<Rightarrow> quota_world \<Rightarrow> quota_world" where
  "sweep_user cfg us now u w =
     (let allowance = resolve_bandwidth_quota cfg (Some u)
      in if allowance \<le> 0 then w
         else case w_quotas w of None \<Rightarrow> w
         | Some t \<Rightarrow>
            (let used = usage_of us (u_id u);
                 state = quota_state_for (usage_total used) allowance (quota_throttle_percent cfg);
                 (previous, t') = record_standing (u_id u)
                   \<lparr>qs_state = state, qs_bytesTotal = usage_total used, qs_bytesOut = bu_bytesOut used,
                    qs_allowance = allowance, qs_alerted = Q_none\<rparr> t;
                 w' = w\<lparr>w_quotas := Some t'\<rparr>
             in if state = previous then w' else apply_quota_transition cfg now (u_id u) state w'))"

text \<open>What the sweep reads; no database at all is \<open>None\<close>.\<close>

record quota_db =
  db_usage_since :: "time \<Rightarrow> bandwidth_usage list option"
  db_users :: "user list option"

definition sweep_bandwidth_quotas ::
  "server_config option \<Rightarrow> quota_db option \<Rightarrow> time \<Rightarrow> quota_world \<Rightarrow> quota_world" where
  "sweep_bandwidth_quotas cfg db now w =
     (case (db, w_quotas w) of
        (Some d, Some t) \<Rightarrow>
          (let start = quota_period_start cfg now;
               (rolled, t') = begin_period start t;
               w0 = w\<lparr>w_quotas := Some t'\<rparr>;
               w1 = (if rolled then release_all_quota_enforcement w0 else w0)
           in case db_usage_since d start of None \<Rightarrow> w1
              | Some us \<Rightarrow>
             (case db_users d of None \<Rightarrow> w1
              | Some users \<Rightarrow> fold (sweep_user cfg us now) users w1))
      | _ \<Rightarrow> w)"

section \<open>The gate and the portal\<close>

text \<open>The standing a registration is refused with, or nothing to let it through.\<close>

definition quota_registration_refusal :: "quota_tracker option \<Rightarrow> string \<Rightarrow> quota_user_standing option" where
  "quota_registration_refusal t uid =
     (if uid = [] then None
      else case quota_standing t uid of None \<Rightarrow> None
      | Some st \<Rightarrow> if qs_state st \<noteq> Q_stopped then None else Some st)"

definition quota_rate_limit_for :: "server_config option \<Rightarrow> quota_tracker option \<Rightarrow> string \<Rightarrow> int option" where
  "quota_rate_limit_for cfg t uid =
     (if uid = [] then None
      else case quota_standing t uid of None \<Rightarrow> None
      | Some st \<Rightarrow> if qs_state st \<noteq> Q_throttled then None else Some (quota_throttle_rate_limit cfg))"

definition apply_quota_to_new_leases ::
  "server_config option \<Rightarrow> quota_tracker option \<Rightarrow> string \<Rightarrow> registry \<Rightarrow> registry" where
  "apply_quota_to_new_leases cfg t uid r =
     (case quota_rate_limit_for cfg t uid of None \<Rightarrow> r
      | Some rate \<Rightarrow> snd (set_quota_rate_limit_for_user uid rate r))"

record quota_standing_view =
  qv_state :: quota_state
  qv_allowanceBytes :: int
  qv_usedBytes :: int
  qv_usedOutBytes :: int
  qv_throttleAtBytes :: int
  qv_periodStart :: "time option"
  qv_measured :: bool

definition quota_standing_for ::
  "server_config option \<Rightarrow> quota_tracker option \<Rightarrow> user option \<Rightarrow> quota_standing_view" where
  "quota_standing_for cfg t user =
     (let allowance = resolve_bandwidth_quota cfg user;
          (start, standings) = quota_snapshot t;
          view = \<lparr>qv_state = Q_normal, qv_allowanceBytes = allowance, qv_usedBytes = 0, qv_usedOutBytes = 0,
                  qv_throttleAtBytes = (if 0 < allowance
                    then quot (wrap64 (allowance * quota_throttle_percent cfg)) 100 else 0),
                  qv_periodStart = start, qv_measured = False\<rparr>
      in case user of None \<Rightarrow> view
         | Some u \<Rightarrow>
             (case get standings (u_id u) of None \<Rightarrow> view
              | Some st \<Rightarrow> view\<lparr>qv_state := qs_state st, qv_usedBytes := qs_bytesTotal st,
                               qv_usedOutBytes := qs_bytesOut st, qv_measured := True\<rparr>))"

text \<open>The edge half: the \<open>quota_enforcement\<close> frame applied to the edge's own registry.\<close>

definition apply_quota_frame :: "time \<Rightarrow> quota_frame \<Rightarrow> registry \<Rightarrow> registry" where
  "apply_quota_frame now f r =
     (if qf_action f = ''throttle''
      then snd (set_quota_rate_limit_for_user (qf_userID f) (qf_rateLimit f) r)
      else if qf_action f = ''stop'' then kick_user_leases now (qf_userID f) r
      else if qf_action f = ''release''
      then (if qf_userID f = [] then clear_all_quota_limits r
            else snd (clear_quota_rate_limit_for_user (qf_userID f) r))
      else r)"

end
