(* ===== verification/Registry_Views.thy ===== *)
theory Registry_Views
  imports Registry_Teardown "HOL-Library.List_Lexorder" "HOL-Library.Char_ord" "HOL-Library.Multiset"
begin

text \<open>
  What the registry reports about itself: the byte watermarks that make each byte count once,
  the sorted snapshot of \<open>ListLeases\<close>, the offline alert of the heartbeat, the throttle the
  quota sweep sets and lifts, and the names offered when the wanted one is taken.
\<close>

section \<open>Byte watermarks\<close>

lemma take_deltas_value:
  "distinct ps \<Longrightarrow> \<forall>p \<in> set ps. p < length (r_heap r) \<Longrightarrow>
   take_deltas ps r =
     (concat (map (\<lambda>p. lease_delta (deref r p)) ps), modify_all advance_watermark ps r)"
proof (induction ps arbitrary: r)
  case (Cons p ps)
  have later: "map (\<lambda>q. lease_delta (deref (modify advance_watermark p r) q)) ps = map (\<lambda>q. lease_delta (deref r q)) ps"
    using Cons.prems by (intro map_cong refl) (auto simp: deref_modify)
  from Cons show ?case by (simp add: Let_def modify_all_def later del: map_eq_conv)
qed (simp add: modify_all_def)

lemma take_byte_deltas_value:
  assumes "registry_wf r"
  shows "take_byte_deltas r =
    (concat (map (\<lambda>p. lease_delta (deref r p)) (map snd (r_leases r))),
     modify_all advance_watermark (map snd (r_leases r)) r)"
  unfolding take_byte_deltas_def by (rule take_deltas_value [OF wf_routes_distinct [OF assms]])

lemma lease_delta_advanced [simp]: "lease_delta (advance_watermark l) = []"
  by (simp add: lease_delta_def advance_watermark_def signed_diff_def)

text \<open>After a report: every routed lease is at its watermark.\<close>

lemma take_byte_deltas_settles:
  assumes "registry_wf r" "p \<in> set (map snd (r_leases r))"
  shows "deref (snd (take_byte_deltas r)) p = advance_watermark (deref r p)"
  using deref_modify_all [OF wf_routes_distinct(2,1) [OF assms(1)], of advance_watermark p] assms(2)
  by (simp add: take_byte_deltas_value [OF assms(1)])

lemma take_byte_deltas_frame:
  assumes "registry_wf r"
  shows "registry_wf (snd (take_byte_deltas r))" "r_leases (snd (take_byte_deltas r)) = r_leases r"
    "length (r_heap (snd (take_byte_deltas r))) = length (r_heap r)"
  by (simp_all add: take_byte_deltas_value [OF assms] assms modify_all_wf keeps_identity_intros)

definition count_bytes_in :: "u64 \<Rightarrow> lease \<Rightarrow> lease" where
  "count_bytes_in n l = l\<lparr>l_bytesIn := l_bytesIn l + n\<rparr>"

lemma count_bytes_identity [simp]: "keeps_identity (count_bytes_in n)"
  by (simp add: keeps_identity_def count_bytes_in_def)

lemma sint_small: "uint n < 2 ^ 63 \<Longrightarrow> sint (n :: u64) = uint n"
proof -
  assume "uint n < 2 ^ 63"
  then have "signed_take_bit 63 (uint n) = uint n"
    by (intro signed_take_bit_int_eq_self) (simp_all add: order_trans [OF _ uint_ge_0])
  then show ?thesis by (simp add: sint_uint)
qed

lemma lease_delta_counted:
  assumes "0 < uint n" "uint n < 2 ^ 63"
  shows "lease_delta (count_bytes_in n (advance_watermark l)) =
    [\<lparr>d_userID = l_userID l, d_subdomainPrefix = l_subdomainPrefix l, d_fullHost = l_fullHost l,
      d_bytesIn = uint n, d_bytesOut = 0, d_connectedAt = l_createdAt l\<rparr>]"
  using assms sint_small [OF assms(2)]
  by (simp add: lease_delta_def count_bytes_in_def advance_watermark_def signed_diff_def)

lemma concat_map_single:
  assumes "distinct xs" "x \<in> set xs" "\<And>y. y \<in> set xs \<Longrightarrow> y \<noteq> x \<Longrightarrow> f y = []"
  shows "concat (map f xs) = f x"
  using assms
proof (induction xs)
  case (Cons y ys)
  show ?case
  proof (cases "y = x")
    case True
    then have "\<forall>z \<in> set ys. f z = []" using Cons.prems by auto
    then have "concat (map f ys) = []" by simp
    with True show ?thesis by simp
  qed (use Cons in simp)
qed simp

section \<open>The order of the snapshot\<close>

text \<open>Go's bytewise comparison is the library's lexicographic order.\<close>

lemma string_le_iff: "string_le s t \<longleftrightarrow> s \<le> t"
  by (induction s t rule: string_le.induct) (auto simp: Cons_le_Cons less_char_def)

lemma insert_by_host_insort: "insert_by_host l ms = insort_key l_fullHost l ms"
  by (induction ms) (simp_all add: string_le_iff)

lemma sort_by_host_sort: "sort_by_host ls = sort_key l_fullHost ls"
  by (simp add: sort_by_host_def sort_key_def insert_by_host_insort [abs_def])

section \<open>Heartbeats\<close>

text \<open>One outage as the control plane sees it: heartbeats that report the tunnel down, with
  any amount of traffic on any lease in between.\<close>

datatype outage_event = Down_at time | Traffic nat u64 u64

fun outage_step :: "string \<Rightarrow> outage_event \<Rightarrow> registry \<Rightarrow> offline_action \<times> registry" where
  "outage_step tok (Down_at now) r =
     (let (res, r') = note_heartbeat tok ''down'' now r in (snd res, r'))"
| "outage_step tok (Traffic p m n) r =
     (Alert_none, modify (\<lambda>l. l\<lparr>l_bytesIn := l_bytesIn l + m, l_bytesOut := l_bytesOut l + n\<rparr>) p r)"

fun alerts_sent :: "string \<Rightarrow> outage_event list \<Rightarrow> registry \<Rightarrow> nat" where
  "alerts_sent tok [] r = 0"
| "alerts_sent tok (e # es) r =
     (let (a, r') = outage_step tok e r
      in (if a = Alert_send then 1 else 0) + alerts_sent tok es r')"

text \<open>Nothing left to send: every lease is down and none has its alert pending.\<close>

definition alert_done :: "string \<Rightarrow> registry \<Rightarrow> bool" where
  "alert_done tok r \<longleftrightarrow>
     (\<forall>p \<in> set (session_pointers r tok). l_status (deref r p) = ''down'' \<and> \<not> l_offlineAlertPending (deref r p))"

text \<open>An alert is waiting since \<open>t\<close>: all leases are down and the first has it pending.\<close>

definition alert_waiting :: "string \<Rightarrow> time \<Rightarrow> registry \<Rightarrow> bool" where
  "alert_waiting tok t r \<longleftrightarrow>
     (\<exists>p ps. get (r_sessions r) tok = Some (p # ps) \<and> (\<forall>q \<in> set (p # ps). l_status (deref r q) = ''down'') \<and>
        l_offlineAlertPending (deref r p) \<and> l_offlineAlertSince (deref r p) = t)"

definition session_up :: "string \<Rightarrow> registry \<Rightarrow> bool" where
  "session_up tok r \<longleftrightarrow> (\<exists>p \<in> set (session_pointers r tok). l_status (deref r p) \<noteq> ''down'')"

lemma note_heartbeat_session:
  assumes "get (r_sessions r) tok = Some (p # ps)" "status = ''down''"
  shows "note_heartbeat tok status now r =
    (let qs = p # ps;
         r1 = modify_all (\<lambda>l. (note_bytes l)\<lparr>l_status := ''down''\<rparr>) qs r;
         r2 = (if list_ex (\<lambda>q. l_status (deref r q) \<noteq> ''down'') qs
               then modify_all (\<lambda>l. l\<lparr>l_offlineAlertPending := True, l_offlineAlertSince := now\<rparr>) qs r1
               else r1)
     in if \<not> l_offlineAlertPending (deref r2 p) then ((True, Alert_none), r2)
        else if list_ex (\<lambda>q. carried_bytes (deref r q)) qs \<and> now - l_offlineAlertSince (deref r2 p) < minute
        then ((True, Alert_held), r2)
        else ((True, Alert_send), modify_all (\<lambda>l. l\<lparr>l_offlineAlertPending := False\<rparr>) qs r2))"
  using assms by (simp add: note_heartbeat_def Let_def max_offline_alert_hold_def)

text \<open>Two facts about one down heartbeat: an alert that goes out settles the outage, and a
  settled outage stays settled and silent.\<close>

lemma note_heartbeat_down:
  assumes "registry_wf r" "note_heartbeat tok ''down'' now r = ((known, a), r')"
  shows "registry_wf r'" "a = Alert_send \<Longrightarrow> alert_done tok r'"
    "alert_done tok r \<Longrightarrow> alert_done tok r' \<and> a = Alert_none"
    "session_up tok r \<Longrightarrow> a = Alert_send \<or> alert_waiting tok now r'"
    "alert_waiting tok t r \<Longrightarrow> minute \<le> now - t \<Longrightarrow> a = Alert_send"
proof -
  have *: "registry_wf r' \<and> (a = Alert_send \<longrightarrow> alert_done tok r') \<and>
    (alert_done tok r \<longrightarrow> alert_done tok r' \<and> a = Alert_none) \<and>
    (session_up tok r \<longrightarrow> a = Alert_send \<or> alert_waiting tok now r') \<and>
    (alert_waiting tok t r \<longrightarrow> minute \<le> now - t \<longrightarrow> a = Alert_send)"
  proof (cases "get (r_sessions r) tok")
    case None
    with assms show ?thesis
      by (simp add: note_heartbeat_def alert_waiting_def session_up_def session_pointers_def)
  next
    case (Some qs)
    show ?thesis
    proof (cases qs)
      case Nil
      with Some assms show ?thesis
        by (simp add: note_heartbeat_def alert_waiting_def session_up_def session_pointers_def)
    next
      case (Cons p ps)
      let ?qs = "p # ps"
      define r1 where "r1 = modify_all (\<lambda>l. (note_bytes l)\<lparr>l_status := ''down''\<rparr>) ?qs r"
      define r2 where "r2 = (if list_ex (\<lambda>q. l_status (deref r q) \<noteq> ''down'') ?qs
        then modify_all (\<lambda>l. l\<lparr>l_offlineAlertPending := True, l_offlineAlertSince := now\<rparr>) ?qs r1 else r1)"
      define r3 where "r3 = modify_all (\<lambda>l. l\<lparr>l_offlineAlertPending := False\<rparr>) ?qs r2"
      note sess = Some [unfolded Cons]
      have qs: "distinct ?qs" "\<forall>q \<in> set ?qs. q < length (r_heap r)"
        using wf_session [OF assms(1) sess] by blast+
      have step: "((known, a), r') =
        (if \<not> l_offlineAlertPending (deref r2 p) then ((True, Alert_none), r2)
         else if list_ex (\<lambda>q. carried_bytes (deref r q)) ?qs \<and> now - l_offlineAlertSince (deref r2 p) < minute
         then ((True, Alert_held), r2) else ((True, Alert_send), r3))"
        using assms(2) unfolding note_heartbeat_session [OF sess refl] Let_def r1_def r2_def r3_def by simp
      have len: "length (r_heap r1) = length (r_heap r)" "length (r_heap r2) = length (r_heap r)"
        by (simp_all add: r1_def r2_def)
      have d1: "deref r1 q = (note_bytes (deref r q))\<lparr>l_status := ''down''\<rparr>" if "q \<in> set ?qs" for q
        unfolding r1_def deref_modify_all [OF qs(2,1)] using that by simp
      have d2: "l_status (deref r2 q) = ''down''" if "q \<in> set ?qs" for q
        using deref_modify_all [of ?qs r1 "\<lambda>l. l\<lparr>l_offlineAlertPending := True, l_offlineAlertSince := now\<rparr>" q]
          that qs d1 [OF that] len(1) by (simp add: r2_def)
      have d3: "deref r3 q = (deref r2 q)\<lparr>l_offlineAlertPending := False\<rparr>" if "q \<in> set ?qs" for q
        using deref_modify_all [of ?qs r2 "\<lambda>l. l\<lparr>l_offlineAlertPending := False\<rparr>" q] that qs len(2)
        by (simp add: r3_def)
      have frame: "session_pointers s tok = ?qs" if "r_sessions s = r_sessions r" for s
        using that sess by (simp add: session_pointers_def)
      have sessions: "r_sessions r2 = r_sessions r" "r_sessions r3 = r_sessions r"
        by (simp_all add: r1_def r2_def r3_def)
      have wf: "registry_wf r2" "registry_wf r3"
        using assms(1) by (simp_all add: r1_def r2_def r3_def modify_all_wf keeps_identity_intros)
      have sent: "alert_done tok r3"
        unfolding alert_done_def frame [OF sessions(2)] using d2 d3 by simp
      have settled: "\<not> l_offlineAlertPending (deref r2 p) \<and> alert_done tok r2" if quiet: "alert_done tok r"
      proof -
        have old: "l_status (deref r q) = ''down'' \<and> \<not> l_offlineAlertPending (deref r q)" if "q \<in> set ?qs" for q
          using quiet that unfolding alert_done_def frame [OF refl] by blast
        then have "r2 = r1" by (auto simp: r2_def list_ex_iff)
        then have "\<not> l_offlineAlertPending (deref r2 q)" if "q \<in> set ?qs" for q
          using d1 [OF that] old [OF that] by (simp add: note_bytes_def)
        then show ?thesis unfolding alert_done_def frame [OF sessions(1)] using d2 by simp
      qed
      have woken: "l_offlineAlertPending (deref r2 p) \<and> alert_waiting tok now r2" if up: "session_up tok r"
      proof -
        have changed: "list_ex (\<lambda>q. l_status (deref r q) \<noteq> ''down'') ?qs"
          using up unfolding session_up_def frame [OF refl] list_ex_iff by blast
        have first: "deref r2 p = (deref r1 p)\<lparr>l_offlineAlertPending := True, l_offlineAlertSince := now\<rparr>"
          using deref_modify_all [of ?qs r1 "\<lambda>l. l\<lparr>l_offlineAlertPending := True, l_offlineAlertSince := now\<rparr>" p]
            qs len(1) changed by (simp add: r2_def)
        have "l_offlineAlertPending (deref r2 p)" "l_offlineAlertSince (deref r2 p) = now"
          by (simp_all add: first)
        then show ?thesis unfolding alert_waiting_def using d2 sess sessions(1) by metis
      qed
      have overdue: "l_offlineAlertPending (deref r2 p) \<and> minute \<le> now - l_offlineAlertSince (deref r2 p)"
        if waiting: "alert_waiting tok t r" and late: "minute \<le> now - t"
      proof -
        have old: "l_status (deref r q) = ''down''" if "q \<in> set ?qs" for q
          using waiting that sess unfolding alert_waiting_def by auto
        then have "r2 = r1" by (auto simp: r2_def list_ex_iff)
        then have "deref r2 p = (note_bytes (deref r p))\<lparr>l_status := ''down''\<rparr>" using d1 [of p] by simp
        then show ?thesis using waiting late sess unfolding alert_waiting_def by (auto simp: note_bytes_def)
      qed
      have outcome: "r' = r2 \<and> (a = Alert_none \<and> \<not> l_offlineAlertPending (deref r2 p)
          \<or> a = Alert_held \<and> l_offlineAlertPending (deref r2 p) \<and> now - l_offlineAlertSince (deref r2 p) < minute) \<or> r' = r3 \<and> a = Alert_send
            \<and> l_offlineAlertPending (deref r2 p)"
        using step by (auto split: if_splits)
      show ?thesis using outcome wf sent settled woken overdue
        by (elim disjE conjE) (auto simp: linorder_not_less)
    qed
  qed
  show "registry_wf r'" "a = Alert_send \<Longrightarrow> alert_done tok r'"
    "alert_done tok r \<Longrightarrow> alert_done tok r' \<and> a = Alert_none"
    "session_up tok r \<Longrightarrow> a = Alert_send \<or> alert_waiting tok now r'"
    "alert_waiting tok t r \<Longrightarrow> minute \<le> now - t \<Longrightarrow> a = Alert_send"
    using * by blast+
qed

lemma traffic_keeps:
  "registry_wf (modify (\<lambda>l. l\<lparr>l_bytesIn := l_bytesIn l + m, l_bytesOut := l_bytesOut l + n\<rparr>) p r) \<longleftrightarrow> registry_wf r"
  "alert_done tok (modify (\<lambda>l. l\<lparr>l_bytesIn := l_bytesIn l + m, l_bytesOut := l_bytesOut l + n\<rparr>) p r) \<longleftrightarrow> alert_done tok r"
  "alert_waiting tok t (modify (\<lambda>l. l\<lparr>l_bytesIn := l_bytesIn l + m, l_bytesOut := l_bytesOut l + n\<rparr>) p r) \<longleftrightarrow> alert_waiting tok t r"
proof -
  let ?f = "\<lambda>l. l\<lparr>l_bytesIn := l_bytesIn l + m, l_bytesOut := l_bytesOut l + n\<rparr>"
  have "keeps_identity ?f" by (simp add: keeps_identity_def)
  then show "registry_wf (modify ?f p r) \<longleftrightarrow> registry_wf r" by (rule modify_wf)
  have since: "l_offlineAlertSince (deref (modify ?f p r) q) = l_offlineAlertSince (deref r q)" for q
    by (cases "p < length (r_heap r)"; cases "q = p")
      (simp_all add: deref_def modify_def list_update_beyond)
  have "l_status (deref (modify ?f p r) q) = l_status (deref r q) \<and>
      l_offlineAlertPending (deref (modify ?f p r) q) = l_offlineAlertPending (deref r q)" for q
    by (cases "p < length (r_heap r)"; cases "q = p")
      (simp_all add: deref_def modify_def list_update_beyond)
  then show "alert_done tok (modify ?f p r) \<longleftrightarrow> alert_done tok r"
    "alert_waiting tok t (modify ?f p r) \<longleftrightarrow> alert_waiting tok t r"
    by (simp_all add: alert_done_def alert_waiting_def session_pointers_def since)
qed

lemma alerts_sent_settled:
  "registry_wf r \<Longrightarrow> alert_done tok r \<Longrightarrow> alerts_sent tok es r = 0"
proof (induction es arbitrary: r)
  case (Cons e es)
  show ?case
  proof (cases e)
    case (Down_at now)
    obtain known a r' where step: "note_heartbeat tok ''down'' now r = ((known, a), r')"
      by (metis prod.collapse)
    from note_heartbeat_down [OF Cons.prems(1) step] Cons.prems(2) Cons.IH [of r'] show ?thesis
      by (simp add: Down_at step)
  qed (use Cons in \<open>simp add: traffic_keeps\<close>)
qed simp

section \<open>Updates through the host table\<close>

lemma update_routed_where:
  assumes "registry_wf r" "get (r_leases r) h = Some p"
  shows "deref (modify_all f (routed_where P r) r) p = (if P (deref r p) then f (deref r p) else deref r p)"
proof -
  have "p \<in> set (routed_where P r) \<longleftrightarrow> P (deref r p)"
    using in_routed_where [OF assms(1)] assms(2) by blast
  then show ?thesis
    using deref_modify_all [OF routed_where_props(2,1) [OF assms(1)], of f P p] by simp
qed

section \<open>Suggested names\<close>

lemma suffix_suggestions_props:
  "length acc < 3 \<Longrightarrow> list_all (\<lambda>c. check_subdomain r c ds = Available) acc \<Longrightarrow>
   length (suffix_suggestions r ds base ss acc) \<le> 3 \<and>
   list_all (\<lambda>c. check_subdomain r c ds = Available) (suffix_suggestions r ds base ss acc)"
  by (induction ss arbitrary: acc) (simp_all add: Let_def)

lemma numbered_suggestions_props:
  "length acc \<le> 3 \<Longrightarrow> list_all (\<lambda>c. check_subdomain r c ds = Available) acc \<Longrightarrow>
   length (numbered_suggestions r ds base clock is acc) \<le> 3 \<and>
   list_all (\<lambda>c. check_subdomain r c ds = Available) (numbered_suggestions r ds base clock is acc)"
  by (induction "is" arbitrary: acc) (simp_all add: Let_def)

section \<open>Properties\<close>

text \<open>Each byte is reported once: after a report a second one is empty, and when \<open>n\<close> bytes
  then come in on a routed tunnel the next report names that tunnel with exactly \<open>n\<close>, even
  when its 64-bit counter wrapped on the way.\<close>

theorem byte_deltas_exactly_once:
  assumes "registry_wf r" "get (r_leases r) h = Some p" "0 < uint n" "uint n < 2 ^ 63"
  shows "fst (take_byte_deltas (snd (take_byte_deltas r))) = [] \<and>
    fst (take_byte_deltas (modify (count_bytes_in n) p (snd (take_byte_deltas r)))) =
      [\<lparr>d_userID = l_userID (deref r p), d_subdomainPrefix = l_subdomainPrefix (deref r p), d_fullHost = h,
        d_bytesIn = uint n, d_bytesOut = 0, d_connectedAt = l_createdAt (deref r p)\<rparr>]"
proof
  let ?r = "snd (take_byte_deltas r)" and ?ps = "map snd (r_leases r)"
  note frame = take_byte_deltas_frame [OF assms(1)] and settled = take_byte_deltas_settles [OF assms(1)]
  show "fst (take_byte_deltas ?r) = []"
    unfolding take_byte_deltas_value [OF frame(1)] frame(2) fst_conv concat_eq_Nil_conv
    using settled by auto
  have p: "p \<in> set ?ps" "p < length (r_heap ?r)"
    using get_SomeD [OF assms(2)] wf_route [OF assms(1,2)] frame(3) by force+
  have wf: "registry_wf (modify (count_bytes_in n) p ?r)"
    by (simp add: modify_wf [OF count_bytes_identity] frame(1))
  have now: "deref (modify (count_bytes_in n) p ?r) q =
      (if q = p then count_bytes_in n (advance_watermark (deref r p)) else deref ?r q)" for q
    by (simp add: deref_modify [OF p(2)] settled [OF p(1)])
  have "concat (map (\<lambda>q. lease_delta (deref (modify (count_bytes_in n) p ?r) q)) ?ps) =
      lease_delta (deref (modify (count_bytes_in n) p ?r) p)"
    by (rule concat_map_single [OF wf_routes_distinct(1) [OF assms(1)] p(1)]) (simp add: now settled)
  also have "\<dots> = [\<lparr>d_userID = l_userID (deref r p), d_subdomainPrefix = l_subdomainPrefix (deref r p),
      d_fullHost = l_fullHost (deref r p), d_bytesIn = uint n, d_bytesOut = 0,
      d_connectedAt = l_createdAt (deref r p)\<rparr>]"
    by (simp add: now lease_delta_counted [OF assms(3,4)])
  finally show "fst (take_byte_deltas (modify (count_bytes_in n) p ?r)) = [\<lparr>d_userID = l_userID (deref r p),
      d_subdomainPrefix = l_subdomainPrefix (deref r p), d_fullHost = h, d_bytesIn = uint n, d_bytesOut = 0,
      d_connectedAt = l_createdAt (deref r p)\<rparr>]"
    using wf_route [OF assms(1,2)] by (simp add: take_byte_deltas_value [OF wf] frame(2))
qed

theorem byte_deltas_exactly_once_witness:
  "map d_bytesIn (fst (take_byte_deltas (modify (count_bytes_in 7) 0 (snd (take_byte_deltas
     (modify (count_bytes_in (- 3)) 0 ex_registry)))))) = [7]"
proof -
  have wf: "registry_wf (modify (count_bytes_in (- 3)) 0 ex_registry)"
    by (simp add: modify_wf [OF count_bytes_identity])
  have "get (r_leases (modify (count_bytes_in (- 3)) 0 ex_registry)) ''demo.ex.org'' = Some 0"
    by (simp add: ex_registry_value get_def)
  from byte_deltas_exactly_once [OF wf this, of 7] show ?thesis by simp
qed

text \<open>The snapshot is the sorted list of the routed tunnels: of all arrangements of the
  lease snapshots, the one whose hosts strictly increase in Go's string order. So whichever
  order \<open>sort.Slice\<close> leaves equal elements in does not matter.\<close>

theorem list_leases_sorted:
  assumes "registry_wf r"
  shows "mset ls = mset (map (\<lambda>(h, p). snapshot_lease (deref r p)) (r_leases r)) \<and>
      sorted_wrt (\<lambda>l m. l_fullHost l < l_fullHost m) ls
    \<longleftrightarrow> ls = list_leases r"
proof -
  let ?xs = "map (\<lambda>(h, p). snapshot_lease (deref r p)) (r_leases r)"
  have tab: "is_table (r_leases r)" using assms by (simp add: registry_wf_def)
  have hosts: "map l_fullHost ?xs = map fst (r_leases r)"
    using tab wf_route [OF assms] by (auto simp: get_in_set snapshot_lease_def)
  then have dist: "distinct (map l_fullHost ?xs)" using tab by (simp only: is_table_def)
  have strict: "sorted_wrt (\<lambda>l m. l_fullHost l < l_fullHost m) ys \<longleftrightarrow> sorted (map l_fullHost ys)"
    if "mset ys = mset ?xs" for ys
  proof -
    have "mset (map l_fullHost ys) = mset (map l_fullHost ?xs)" using that by (metis mset_map)
    then have "distinct (map l_fullHost ys)" using dist mset_eq_imp_distinct_iff by blast
    then show ?thesis by (metis sorted_wrt_map strict_sorted_iff)
  qed
  have same: "list_leases r = sort_key l_fullHost ?xs"
    by (simp add: list_leases_def sort_by_host_sort)
  show ?thesis
  proof
    assume ls: "mset ls = mset ?xs \<and> sorted_wrt (\<lambda>l m. l_fullHost l < l_fullHost m) ls"
    have "inj_on l_fullHost (set ?xs)" using dist unfolding distinct_map [of l_fullHost ?xs] by blast
    then show "ls = list_leases r"
      unfolding same using ls strict [of ls] properties_for_sort_key [of ls ?xs l_fullHost]
      by (metis mset_eq_setD sort_key_inj_key_eq)
  next
    assume "ls = list_leases r"
    then show "mset ls = mset ?xs \<and> sorted_wrt (\<lambda>l m. l_fullHost l < l_fullHost m) ls"
      unfolding same using strict [of "sort_key l_fullHost ?xs"] by simp
  qed
qed

theorem list_leases_sorted_witness: "map l_fullHost (list_leases ex_registry) = [''demo.ex.org'']"
proof -
  have "[snapshot_lease (deref ex_registry 0)] = list_leases ex_registry"
    using list_leases_sorted [OF ex_registry_wf(1), of "[snapshot_lease (deref ex_registry 0)]"]
    by (simp add: ex_registry_value)
  from this [symmetric] show ?thesis by (simp add: snapshot_lease_def ex_registry_value)
qed

text \<open>One outage, one alert: however many heartbeats report a session down, and whatever
  traffic its tunnels carry in between, at most one offline alert goes out.\<close>

theorem outage_alerts_once:
  assumes "registry_wf r"
  shows "alerts_sent tok es r \<le> 1"
  using assms
proof (induction es arbitrary: r)
  case (Cons e es)
  show ?case
  proof (cases e)
    case (Down_at now)
    obtain known a r' where step: "note_heartbeat tok ''down'' now r = ((known, a), r')"
      by (metis prod.collapse)
    note down = note_heartbeat_down [OF Cons.prems step]
    from down(2) Cons.IH [OF down(1)] alerts_sent_settled [OF down(1)] show ?thesis
      by (simp add: Down_at step)
  qed (use Cons in \<open>simp add: traffic_keeps\<close>)
qed simp

text \<open>The witness: an outage whose alert is held while bytes still flow and sent a minute
  later, once.\<close>

theorem outage_alerts_once_witness:
  "alerts_sent ''t1'' [Traffic 0 1 0, Down_at 0, Traffic 0 5 0, Down_at (2 * minute), Down_at (3 * minute)]
     ex_registry \<le> 1"
  by (rule outage_alerts_once [OF ex_registry_wf(1)])

text \<open>An outage is reported: once a session that was up reports down, a later down
  heartbeat, at least a minute on, finds the alert sent, exactly once, however much traffic
  was carried meanwhile.\<close>

theorem outage_alert_is_sent:
  assumes "registry_wf r" "session_up tok r" "minute \<le> t1 - t0"
    and "list_all (\<lambda>e. \<exists>p m n. e = Traffic p m n) es"
  shows "alerts_sent tok (Down_at t0 # es @ [Down_at t1]) r = 1"
proof -
  obtain known a r1 where step: "note_heartbeat tok ''down'' t0 r = ((known, a), r1)"
    by (metis prod.collapse)
  note first = note_heartbeat_down [OF assms(1) step]
  have waiting: "alerts_sent tok (es @ [Down_at t1]) s = 1" if "registry_wf s" "alert_waiting tok t0 s" for s
    using that assms(4)
  proof (induction es arbitrary: s)
    case Nil
    obtain known' a' s' where last: "note_heartbeat tok ''down'' t1 s = ((known', a'), s')"
      by (metis prod.collapse)
    from note_heartbeat_down(5) [OF Nil(1) last Nil(2) assms(3)] show ?case by (simp add: last)
  next
    case (Cons e es)
    from Cons.prems(3) obtain p m n where e: "e = Traffic p m n" by auto
    let ?s = "modify (\<lambda>l. l\<lparr>l_bytesIn := l_bytesIn l + m, l_bytesOut := l_bytesOut l + n\<rparr>) p s"
    have "alerts_sent tok (es @ [Down_at t1]) ?s = 1"
      by (rule Cons.IH) (use Cons.prems in \<open>simp_all add: traffic_keeps\<close>)
    then show ?case by (simp add: e)
  qed
  show ?thesis
  proof (cases "a = Alert_send")
    case True
    with alerts_sent_settled [OF first(1) first(2)] show ?thesis by (simp add: step)
  next
    case False
    with first(4) [OF assms(2)] waiting [OF first(1)] show ?thesis by (simp add: step)
  qed
qed

theorem outage_alert_is_sent_witness:
  "alerts_sent ''t1'' [Down_at 0, Traffic 0 5 0, Down_at (2 * minute)] ex_registry = 1"
proof -
  have "l_status (deref ex_registry 0) \<noteq> ''down''"
    by (simp add: ex_registry_def new_registry_def eval_register)
  then have "session_up ''t1'' ex_registry"
    by (simp add: session_up_def session_pointers_def ex_registry_value get_def)
  from outage_alert_is_sent [OF ex_registry_wf(1) this, of "2 * minute" 0 "[Traffic 0 5 0]"] show ?thesis
    by (simp add: minute_def second_def)
qed

text \<open>What lifting a quota throttle gives back: after the sweep throttled a user's tunnels
  and lifted the throttle again, a tunnel has its own limit back, unless its own limit was
  the zero that stands for the default, in which case it stays throttled. No other user's
  tunnel is touched.\<close>

theorem quota_throttle_lifts:
  assumes "registry_wf r" "get_lease r h = Some l" "l_rateLimit l = l_baseRateLimit l"
  shows "get_lease (snd (clear_quota_rate_limit_for_user uid (snd (set_quota_rate_limit_for_user uid limit r)))) h =
    Some (if l_userID l = uid \<and> l_baseRateLimit l = 0 \<and> 0 < limit then l\<lparr>l_rateLimit := limit\<rparr> else l)"
proof -
  obtain p where p: "get (r_leases r) h = Some p" "deref r p = l"
    using assms(2) by (auto simp: get_lease_def)
  let ?r = "snd (set_quota_rate_limit_for_user uid limit r)"
  have routes: "r_leases ?r = r_leases r" by (simp add: set_quota_rate_limit_for_user_def Let_def)
  have wf: "registry_wf ?r"
    using assms(1) by (simp add: set_quota_rate_limit_for_user_def Let_def modify_all_wf keeps_identity_intros)
  have set: "deref ?r p = (if l_userID l = uid then l\<lparr>l_rateLimit := limit\<rparr> else l)"
    using update_routed_where [OF assms(1) p(1), of _ "\<lambda>l. l_userID l = uid"]
    by (simp add: set_quota_rate_limit_for_user_def Let_def p(2))
  have "deref (snd (clear_quota_rate_limit_for_user uid ?r)) p =
      (if restorable uid (deref ?r p) then (deref ?r p)\<lparr>l_rateLimit := l_baseRateLimit (deref ?r p)\<rparr> else deref ?r p)"
    using update_routed_where [OF wf, of h p] p(1)
    by (simp add: clear_quota_rate_limit_for_user_def Let_def routes)
  moreover have "r_leases (snd (clear_quota_rate_limit_for_user uid ?r)) = r_leases r"
    by (simp add: clear_quota_rate_limit_for_user_def Let_def routes)
  moreover have "l\<lparr>l_rateLimit := l_baseRateLimit l\<rparr> = l" using assms(3) by (cases l) simp
  ultimately show ?thesis by (auto simp: get_lease_def p set restorable_def)
qed

text \<open>The witness is a tunnel on the default limit: the throttle of 64 stays on it.\<close>

theorem quota_throttle_lifts_witness:
  "map_option l_rateLimit (get_lease (snd (clear_quota_rate_limit_for_user ''alice''
     (snd (set_quota_rate_limit_for_user ''alice'' 64 ex_registry)))) ''demo.ex.org'') = Some 64"
proof -
  have l: "get_lease ex_registry ''demo.ex.org'' = Some (deref ex_registry 0)"
    by (simp add: get_lease_def ex_registry_value get_def)
  have rates: "l_rateLimit (deref ex_registry 0) = 0" "l_baseRateLimit (deref ex_registry 0) = 0"
    by (simp_all add: ex_registry_def new_registry_def eval_register)
  from quota_throttle_lifts [OF ex_registry_wf(1) l, of "''alice''" 64] show ?thesis
    by (simp add: rates ex_registry_value)
qed

text \<open>Suggestions are usable: at most three names are offered, and each of them passes the
  very availability check that turned the wanted name down.\<close>

theorem suggestions_available:
  "length (generate_suggestions r sub ds clock) \<le> 3 \<and>
   list_all (\<lambda>c. check_subdomain r c ds = Available) (generate_suggestions r sub ds clock)"
proof -
  let ?acc = "suffix_suggestions r ds (suggestion_base sub) suggestion_suffixes []"
  have "length ?acc \<le> 3 \<and> list_all (\<lambda>c. check_subdomain r c ds = Available) ?acc"
    by (rule suffix_suggestions_props) simp_all
  then show ?thesis unfolding generate_suggestions_def Let_def
    by (intro numbered_suggestions_props) blast+
qed

text \<open>For a wanted name of more than 63 letters the three suggestions are one and the same
  name: the suffixes are all cut off again.\<close>

theorem long_name_suggestions_repeat:
  "generate_suggestions new_registry (replicate 64 (CHR ''a'')) [''ex.org''] clock =
     replicate 3 (replicate 63 (CHR ''a''))"
proof -
  let ?c = "replicate 63 (CHR ''a'')"
  have base: "suggestion_base (replicate 64 (CHR ''a'')) = replicate 64 (CHR ''a'')"
    by (simp add: suggestion_base_def trim_space_def is_space_def to_lower_def lower_char_def
        is_label_char_def is_alnum_def is_digit_def numeral_eq_Suc)
  have cand: "suggestion_candidate (replicate 64 (CHR ''a'')) s = ?c" if "s \<in> set suggestion_suffixes" for s
    using that by (simp add: suggestion_candidate_def has_suffix_def numeral_eq_Suc)
  have avail: "check_subdomain new_registry ?c [''ex.org''] = Available"
    by (simp add: check_subdomain_def check_subdomain_for_user_def trim_space_def is_space_def to_lower_def
        lower_char_def reserved_subdomains_def subdomain_regex_def is_label_char_def is_alnum_def is_digit_def
        get_lease_def new_registry_def numeral_eq_Suc)
  define c where "c = ?c"
  have full: "numbered_suggestions new_registry ds base clock js [c, c, c] = [c, c, c]" for ds base js
    by (cases js) simp_all
  have step: "suggestion_candidate (replicate 64 (CHR ''a'')) s = c" if "s \<in> set suggestion_suffixes" for s
    unfolding c_def by (rule cand [OF that])
  have ok: "check_subdomain new_registry c [''ex.org''] = Available" unfolding c_def by (rule avail)
  have "suffix_suggestions new_registry [''ex.org''] (replicate 64 (CHR ''a'')) suggestion_suffixes [] = [c, c, c]"
    using step by (simp add: suggestion_suffixes_def ok)
  then have "generate_suggestions new_registry (replicate 64 (CHR ''a'')) [''ex.org''] clock = [c, c, c]"
    by (simp only: generate_suggestions_def Let_def base full)
  then show ?thesis unfolding c_def [symmetric] by (simp add: numeral_3_eq_3)
qed

text \<open>A prefix with an upper-case letter is accepted, because it is checked in lower case,
  but its route is stored as written: the lower-case host is not routed.\<close>

theorem mixed_case_prefix_not_routed:
  "is_valid_subdomain ''Demo'' \<and>
   fst (register (ex_env ''t1'' [Some 10001]) (ex_request ''alice'' ''Demo'' [(8080, [])]) new_registry)
     = Inr (''t1'', [''R:127.0.0.1:10001:localhost:8080'']) \<and>
   get_lease (snd (register (ex_env ''t1'' [Some 10001]) (ex_request ''alice'' ''Demo'' [(8080, [])]) new_registry))
     ''demo.ex.org'' = None"
  by (simp add: new_registry_def eval_register)

end
