(* ===== verification/Quota_Facts.thy ===== *)
theory Quota_Facts
  imports Quota Registry_Views
begin

text \<open>
  What the quota guarantees: where its two stages begin, that a sweep leaves every bounded user
  standing where their usage puts them and acts on transitions only, that each stage is
  reported once per period, and that reconnecting does not shed a throttle. Also what it does
  not do: exempting a stopped user does not let them back in.
\<close>

section \<open>The tracker\<close>

lemma mark_alerted_standings:
  assumes "mark_alerted uid stage t = (fresh, t')"
  shows "qt_periodStart t' = qt_periodStart t"
    "get (qt_standings t') k =
      (if fresh \<and> k = uid then map_option (\<lambda>st. st\<lparr>qs_alerted := stage\<rparr>) (get (qt_standings t) k)
       else get (qt_standings t) k)"
    "fresh \<longleftrightarrow> (\<exists>st. get (qt_standings t) uid = Some st \<and>
       \<not> (qs_alerted st = stage \<or> (qs_alerted st = Q_stopped \<and> stage = Q_throttled)))"
  using assms by (auto simp: mark_alerted_def table_simps split: option.splits if_splits)

text \<open>The state a user stands in, and the period the tracker is on.\<close>

definition state_of :: "quota_world \<Rightarrow> string \<Rightarrow> quota_state option" where
  "state_of w k = map_option qs_state (quota_standing (w_quotas w) k)"

definition period_of :: "quota_world \<Rightarrow> time option option" where
  "period_of w = map_option qt_periodStart (w_quotas w)"

lemma period_of_None: "period_of w = None \<longleftrightarrow> w_quotas w = None"
  by (simp add: period_of_def)

lemma alert_once_frame [simp]:
  "w_registry (alert_once uid stage w) = w_registry w" "w_frames (alert_once uid stage w) = w_frames w"
  by (simp_all add: alert_once_def split: option.split prod.split)

lemma alert_once_state [simp]:
  "state_of (alert_once uid stage w) k = state_of w k"
  by (auto simp: state_of_def alert_once_def quota_standing_def option.map_comp comp_def mark_alerted_standings(2)
      split: option.split prod.split)

lemma alert_once_other [simp]:
  "k \<noteq> uid \<Longrightarrow> quota_standing (w_quotas (alert_once uid stage w)) k = quota_standing (w_quotas w) k"
  by (auto simp: alert_once_def quota_standing_def mark_alerted_standings(2) split: option.split prod.split)

lemma alert_once_period [simp]:
  "period_of (alert_once uid stage w) = period_of w"
  by (auto simp: period_of_def alert_once_def mark_alerted_standings(1) split: option.split prod.split)

lemma broadcast_frame [simp]:
  "w_registry (broadcast_quota_enforcement uid a n w) = w_registry w"
  "w_quotas (broadcast_quota_enforcement uid a n w) = w_quotas w"
  "w_alerts (broadcast_quota_enforcement uid a n w) = w_alerts w"
  "state_of (broadcast_quota_enforcement uid a n w) k = state_of w k"
  "period_of (broadcast_quota_enforcement uid a n w) = period_of w"
  by (simp_all add: broadcast_quota_enforcement_def state_of_def period_of_def)

lemma registry_update_frame [simp]:
  "state_of (w\<lparr>w_registry := r\<rparr>) k = state_of w k" "period_of (w\<lparr>w_registry := r\<rparr>) = period_of w"
  by (simp_all add: state_of_def period_of_def)

lemma transition_standing [simp]:
  "state_of (apply_quota_transition cfg now uid to w) k = state_of w k"
  "k \<noteq> uid \<Longrightarrow> quota_standing (w_quotas (apply_quota_transition cfg now uid to w)) k = quota_standing (w_quotas w) k"
  "period_of (apply_quota_transition cfg now uid to w) = period_of w"
  by (simp_all add: apply_quota_transition_def Let_def split: quota_state.split)

section \<open>One user of the sweep\<close>

definition swept_state :: "server_config option \<Rightarrow> bandwidth_usage list \<Rightarrow> user \<Rightarrow> quota_state" where
  "swept_state cfg us u =
     quota_state_for (usage_total (usage_of us (u_id u))) (resolve_bandwidth_quota cfg (Some u)) (quota_throttle_percent cfg)"

lemma swept_state_some [simp]: "swept_state cfg us u \<noteq> Q_none"
  by (simp add: swept_state_def quota_state_for_def)

definition bounded_user :: "server_config option \<Rightarrow> user \<Rightarrow> bool" where
  "bounded_user cfg u \<longleftrightarrow> 0 < resolve_bandwidth_quota cfg (Some u)"

text \<open>The tracker after recording the user's standing, and the state it replaced.\<close>

definition recorded :: "server_config option \<Rightarrow> bandwidth_usage list \<Rightarrow> user \<Rightarrow> quota_tracker \<Rightarrow> quota_state \<times> quota_tracker" where
  "recorded cfg us u t = record_standing (u_id u)
     \<lparr>qs_state = swept_state cfg us u, qs_bytesTotal = usage_total (usage_of us (u_id u)),
      qs_bytesOut = bu_bytesOut (usage_of us (u_id u)),
      qs_allowance = resolve_bandwidth_quota cfg (Some u), qs_alerted = Q_none\<rparr> t"

lemma sweep_user_cases:
  "sweep_user cfg us now u w =
     (if \<not> bounded_user cfg u then w
      else case w_quotas w of None \<Rightarrow> w
      | Some t \<Rightarrow>
         (if swept_state cfg us u = fst (recorded cfg us u t) then w\<lparr>w_quotas := Some (snd (recorded cfg us u t))\<rparr>
          else apply_quota_transition cfg now (u_id u) (swept_state cfg us u)
                 (w\<lparr>w_quotas := Some (snd (recorded cfg us u t))\<rparr>)))"
  by (auto simp: sweep_user_def Let_def bounded_user_def recorded_def swept_state_def
      split: option.split prod.split)

lemma recorded_standings:
  "qt_periodStart (snd (recorded cfg us u t)) = qt_periodStart t"
  "k \<noteq> u_id u \<Longrightarrow> get (qt_standings (snd (recorded cfg us u t))) k = get (qt_standings t) k"
  "\<exists>st. get (qt_standings (snd (recorded cfg us u t))) (u_id u) = Some st \<and> qs_state st = swept_state cfg us u \<and>
     qs_alerted st = (case get (qt_standings t) (u_id u) of None \<Rightarrow> Q_none | Some o' \<Rightarrow> qs_alerted o')"
  by (auto simp: recorded_def record_standing_def Let_def table_simps split: option.split)

lemma recorded_previous:
  "get (qt_standings t) (u_id u) = Some st \<Longrightarrow> qs_state st \<noteq> Q_none \<Longrightarrow> fst (recorded cfg us u t) = qs_state st"
  by (simp add: recorded_def record_standing_def Let_def)

lemma sweep_user_other:
  "k \<noteq> u_id u \<Longrightarrow> quota_standing (w_quotas (sweep_user cfg us now u w)) k = quota_standing (w_quotas w) k"
  by (auto simp: sweep_user_cases quota_standing_def recorded_standings
      transition_standing(2) [unfolded quota_standing_def] split: option.split)

lemma state_of_other:
  "k \<noteq> u_id u \<Longrightarrow> state_of (sweep_user cfg us now u w) k = state_of w k"
  by (simp add: state_of_def sweep_user_other)

lemma recorded_state:
  "state_of (w\<lparr>w_quotas := Some (snd (recorded cfg us u t))\<rparr>) (u_id u) = Some (swept_state cfg us u)"
  using recorded_standings(3) [of cfg us u t] by (auto simp: state_of_def quota_standing_def)

lemma sweep_user_self:
  assumes "bounded_user cfg u" "w_quotas w \<noteq> None"
  shows "state_of (sweep_user cfg us now u w) (u_id u) = Some (swept_state cfg us u)"
proof -
  obtain t where "w_quotas w = Some t" using assms(2) by blast
  then show ?thesis using assms(1) recorded_state by (simp add: sweep_user_cases)
qed

lemma sweep_user_tracker [simp]: "period_of (sweep_user cfg us now u w) = period_of w"
proof (cases "w_quotas w")
  case (Some t)
  have "period_of (w\<lparr>w_quotas := Some (snd (recorded cfg us u t))\<rparr>) = period_of w"
    by (simp add: period_of_def recorded_standings Some)
  then show ?thesis by (simp add: sweep_user_cases Some)
qed (simp add: sweep_user_cases)

lemma sweep_user_has_tracker [simp]: "w_quotas (sweep_user cfg us now u w) = None \<longleftrightarrow> w_quotas w = None"
  using period_of_None sweep_user_tracker by metis

lemma sweep_users_tracker [simp]: "period_of (fold (sweep_user cfg us now) users w) = period_of w"
  by (induction users arbitrary: w) simp_all

lemma sweep_users_other:
  "k \<notin> u_id ` set users \<Longrightarrow>
   quota_standing (w_quotas (fold (sweep_user cfg us now) users w)) k = quota_standing (w_quotas w) k"
  by (induction users arbitrary: w) (simp_all add: sweep_user_other)

lemma sweep_users_self:
  "distinct (map u_id users) \<Longrightarrow> u \<in> set users \<Longrightarrow> bounded_user cfg u \<Longrightarrow> w_quotas w \<noteq> None \<Longrightarrow>
   state_of (fold (sweep_user cfg us now) users w) (u_id u) = Some (swept_state cfg us u)"
proof (induction users arbitrary: w)
  case (Cons v users)
  show ?case
  proof (cases "u = v")
    case True
    then have "u_id u \<notin> u_id ` set users" using Cons.prems(1) by auto
    then have "state_of (fold (sweep_user cfg us now) (v # users) w) (u_id u) = state_of (sweep_user cfg us now v w) (u_id u)"
      by (simp add: state_of_def sweep_users_other)
    then show ?thesis using sweep_user_self [OF Cons.prems(3,4)] True by simp
  next
    case False
    then show ?thesis using Cons.IH [of "sweep_user cfg us now v w"] Cons.prems by simp
  qed
qed simp

text \<open>The record the sweep leaves, the latch of its alerts apart.\<close>

lemma transition_total [simp]:
  "map_option qs_bytesTotal (quota_standing (w_quotas (apply_quota_transition cfg now uid to w)) k) =
   map_option qs_bytesTotal (quota_standing (w_quotas w) k)"
proof -
  have "map_option qs_bytesTotal (quota_standing (w_quotas (alert_once uid stage v)) k) =
      map_option qs_bytesTotal (quota_standing (w_quotas v) k)" for stage v
    by (auto simp: alert_once_def mark_alerted_def quota_standing_def table_simps split: option.split prod.split)
  then show ?thesis by (simp add: apply_quota_transition_def Let_def split: quota_state.split)
qed

lemma sweep_user_standing:
  assumes "bounded_user cfg u" "w_quotas w \<noteq> None"
  shows "\<exists>st. quota_standing (w_quotas (sweep_user cfg us now u w)) (u_id u) = Some st \<and>
     qs_state st = swept_state cfg us u \<and> qs_bytesTotal st = usage_total (usage_of us (u_id u))"
proof -
  obtain t where t: "w_quotas w = Some t" using assms(2) by blast
  have "map_option qs_bytesTotal (quota_standing (Some (snd (recorded cfg us u t))) (u_id u)) =
      Some (usage_total (usage_of us (u_id u)))"
    by (simp add: recorded_def record_standing_def Let_def quota_standing_def table_simps)
  then have "map_option qs_bytesTotal (quota_standing (w_quotas (sweep_user cfg us now u w)) (u_id u)) =
      Some (usage_total (usage_of us (u_id u)))"
    using assms(1) by (simp only: sweep_user_cases t) (simp add: transition_total del: map_option_eq_Some)
  with sweep_user_self [OF assms, of us now] show ?thesis by (auto simp: state_of_def)
qed

lemma sweep_users_standing:
  "distinct (map u_id users) \<Longrightarrow> u \<in> set users \<Longrightarrow> bounded_user cfg u \<Longrightarrow> w_quotas w \<noteq> None \<Longrightarrow>
   \<exists>st. quota_standing (w_quotas (fold (sweep_user cfg us now) users w)) (u_id u) = Some st \<and>
     qs_state st = swept_state cfg us u \<and> qs_bytesTotal st = usage_total (usage_of us (u_id u))"
proof (induction users arbitrary: w)
  case (Cons v users)
  show ?case
  proof (cases "u = v")
    case True
    then have "u_id u \<notin> u_id ` set users" using Cons.prems(1) by auto
    then show ?thesis using sweep_user_standing [OF Cons.prems(3,4)] True by (simp add: sweep_users_other)
  next
    case False
    then show ?thesis using Cons.IH [of "sweep_user cfg us now v w"] Cons.prems by simp
  qed
qed simp

text \<open>An unbounded user's standing is never touched.\<close>

lemma sweep_users_unbounded:
  "distinct (map u_id users) \<Longrightarrow> u \<in> set users \<Longrightarrow> \<not> bounded_user cfg u \<Longrightarrow>
   quota_standing (w_quotas (fold (sweep_user cfg us now) users w)) (u_id u) = quota_standing (w_quotas w) (u_id u)"
proof (induction users arbitrary: w)
  case (Cons v users)
  show ?case
  proof (cases "u = v")
    case True
    then have "u_id u \<notin> u_id ` set users" using Cons.prems(1) by auto
    moreover have "sweep_user cfg us now v w = w" using Cons.prems(3) True by (simp add: sweep_user_cases [of cfg us now v])
    ultimately show ?thesis by (simp add: sweep_users_other)
  next
    case False
    then have u: "u \<in> set users" using Cons.prems(2) by simp
    then have "u_id u \<in> u_id ` set users" by blast
    then have "u_id u \<noteq> u_id v" using Cons.prems(1) by auto
    with u Cons show ?thesis by (simp add: sweep_user_other)
  qed
qed simp

text \<open>A sweep that finds every bounded user where it left them acts on nothing.\<close>

definition settled :: "server_config option \<Rightarrow> bandwidth_usage list \<Rightarrow> quota_world \<Rightarrow> user \<Rightarrow> bool" where
  "settled cfg us w u \<longleftrightarrow> bounded_user cfg u \<longrightarrow>
     state_of w (u_id u) = Some (swept_state cfg us u)"

lemma sweep_user_settled:
  assumes "settled cfg us w u"
  shows "w_registry (sweep_user cfg us now u w) = w_registry w" "w_frames (sweep_user cfg us now u w) = w_frames w"
    "w_alerts (sweep_user cfg us now u w) = w_alerts w"
    "settled cfg us w v \<Longrightarrow> settled cfg us (sweep_user cfg us now u w) v"
proof -
  have "fst (recorded cfg us u t) = swept_state cfg us u" if "bounded_user cfg u" "w_quotas w = Some t" for t
  proof -
    have "map_option qs_state (get (qt_standings t) (u_id u)) = Some (swept_state cfg us u)"
      using assms that by (simp add: settled_def state_of_def quota_standing_def)
    then obtain st where "get (qt_standings t) (u_id u) = Some st" "qs_state st = swept_state cfg us u" by auto
    then show ?thesis using recorded_previous [of t u st cfg us] by simp
  qed
  then show "w_registry (sweep_user cfg us now u w) = w_registry w" "w_frames (sweep_user cfg us now u w) = w_frames w"
    "w_alerts (sweep_user cfg us now u w) = w_alerts w"
    by (auto simp: sweep_user_cases split: option.split)
  assume v: "settled cfg us w v"
  show "settled cfg us (sweep_user cfg us now u w) v"
  proof (cases "u_id v = u_id u")
    case False
    then show ?thesis using v by (simp add: settled_def state_of_other)
  next
    case True
    show ?thesis
    proof (cases "bounded_user cfg u \<and> w_quotas w \<noteq> None")
      case bounded: True
      have "state_of w (u_id v) = Some (swept_state cfg us u)"
        using assms bounded True by (simp add: settled_def)
      then show ?thesis
        using v sweep_user_self [of cfg u w us now] bounded by (simp add: settled_def True)
    next
      case False
      then have "sweep_user cfg us now u w = w" by (auto simp: sweep_user_cases)
      then show ?thesis using v by simp
    qed
  qed
qed

lemma sweep_users_settled:
  "\<forall>u \<in> set users. settled cfg us w u \<Longrightarrow>
   w_registry (fold (sweep_user cfg us now) users w) = w_registry w \<and>
   w_frames (fold (sweep_user cfg us now) users w) = w_frames w \<and>
   w_alerts (fold (sweep_user cfg us now) users w) = w_alerts w"
  by (induction users arbitrary: w) (simp_all add: sweep_user_settled)

section \<open>The alert latch\<close>

text \<open>No alert twice, and every alert sent is still latched in the tracker.\<close>

definition alerts_latched :: "quota_world \<Rightarrow> bool" where
  "alerts_latched w \<longleftrightarrow> distinct (w_alerts w) \<and>
     (\<forall>(stage, uid) \<in> set (w_alerts w). stage \<in> {Q_throttled, Q_stopped} \<and>
        (\<exists>st. quota_standing (w_quotas w) uid = Some st \<and> (qs_alerted st = Q_stopped \<or> qs_alerted st = stage)))"

lemma alerts_latched_cong:
  assumes "alerts_latched w" "w_alerts w' = w_alerts w"
    and "\<And>uid st. quota_standing (w_quotas w) uid = Some st \<Longrightarrow>
      \<exists>st'. quota_standing (w_quotas w') uid = Some st' \<and> (qs_alerted st \<noteq> Q_none \<longrightarrow> qs_alerted st' = qs_alerted st)"
  shows "alerts_latched w'"
  using assms(1) unfolding alerts_latched_def assms(2)
  by (fastforce dest!: assms(3))

lemma alert_once_latched:
  assumes "alerts_latched w" "stage \<in> {Q_throttled, Q_stopped}"
  shows "alerts_latched (alert_once uid stage w)"
proof (cases "w_quotas w")
  case (Some t)
  obtain fresh t' where m: "mark_alerted uid stage t = (fresh, t')" by (metis prod.collapse)
  note st = mark_alerted_standings [OF m]
  show ?thesis
  proof (cases fresh)
    case False
    have "quota_standing (Some t') k = quota_standing (Some t) k" for k
      using st(2) False by (simp add: quota_standing_def)
    then show ?thesis using assms(1) False by (simp add: alert_once_def Some m alerts_latched_def)
  next
    case True
    then obtain o' where o': "get (qt_standings t) uid = Some o'"
      "\<not> (qs_alerted o' = stage \<or> (qs_alerted o' = Q_stopped \<and> stage = Q_throttled))"
      using st(3) by blast
    have new: "quota_standing (Some t') k =
        (if k = uid then Some (o'\<lparr>qs_alerted := stage\<rparr>) else quota_standing (Some t) k)" for k
      using st(2) True o'(1) by (simp add: quota_standing_def)
    have old: "quota_standing (w_quotas w) uid = Some o'" by (simp add: quota_standing_def Some o'(1))
    have latched: "s \<in> {Q_throttled, Q_stopped} \<and>
        (\<exists>st. quota_standing (w_quotas w) k = Some st \<and> (qs_alerted st = Q_stopped \<or> qs_alerted st = s))"
      if "(s, k) \<in> set (w_alerts w)" for s k
      using assms(1) that unfolding alerts_latched_def by blast
    have fresh: "(stage, uid) \<notin> set (w_alerts w)"
      using latched [of stage uid] o'(2) assms(2) old by auto
    have stopped: "stage = Q_stopped" if "(s, uid) \<in> set (w_alerts w)" for s
      using latched [OF that] o'(2) assms(2) old by auto
    let ?w = "alert_once uid stage w"
    have w: "w_alerts ?w = w_alerts w @ [(stage, uid)]" "w_quotas ?w = Some t'"
      by (simp_all add: alert_once_def Some m True)
    show ?thesis
      unfolding alerts_latched_def w
    proof (intro conjI ballI)
      show "distinct (w_alerts w @ [(stage, uid)])"
        using fresh assms(1) by (simp add: alerts_latched_def)
      fix e assume e: "e \<in> set (w_alerts w @ [(stage, uid)])"
      obtain s k where sk: "e = (s, k)" by (cases e)
      have "s \<in> {Q_throttled, Q_stopped} \<and>
          (\<exists>st. quota_standing (Some t') k = Some st \<and> (qs_alerted st = Q_stopped \<or> qs_alerted st = s))"
      proof (cases "(s, k) \<in> set (w_alerts w)")
        case True
        show ?thesis
        proof (cases "k = uid")
          case same: True
          then show ?thesis using latched [OF True] stopped True new [of uid] by auto
        next
          case False
          then show ?thesis using latched [OF True] new [of k] by (simp add: Some)
        qed
      next
        case False
        then have "s = stage" "k = uid" using e sk by auto
        then show ?thesis using assms(2) new [of uid] by simp
      qed
      then show "case e of (stage, uid) \<Rightarrow> stage \<in> {Q_throttled, Q_stopped} \<and>
          (\<exists>st. quota_standing (Some t') uid = Some st \<and> (qs_alerted st = Q_stopped \<or> qs_alerted st = stage))"
        by (simp add: sk)
    qed
  qed
qed (simp add: alert_once_def assms)

lemma transition_latched:
  assumes "alerts_latched w"
  shows "alerts_latched (apply_quota_transition cfg now uid to w)"
proof -
  have "alerts_latched w'" if "w_quotas w' = w_quotas w" "w_alerts w' = w_alerts w" for w'
    using that assms by (simp add: alerts_latched_def)
  then show ?thesis
    by (simp add: apply_quota_transition_def Let_def alert_once_latched split: quota_state.split)
qed

lemma sweep_user_latched:
  assumes "alerts_latched w"
  shows "alerts_latched (sweep_user cfg us now u w)"
proof (cases "w_quotas w")
  case (Some t)
  have "alerts_latched (w\<lparr>w_quotas := Some (snd (recorded cfg us u t))\<rparr>)"
  proof (rule alerts_latched_cong [OF assms])
    fix uid st assume st: "quota_standing (w_quotas w) uid = Some st"
    show "\<exists>st'. quota_standing (w_quotas (w\<lparr>w_quotas := Some (snd (recorded cfg us u t))\<rparr>)) uid = Some st' \<and>
        (qs_alerted st \<noteq> Q_none \<longrightarrow> qs_alerted st' = qs_alerted st)"
      using st recorded_standings(2) [of uid u cfg us t] recorded_standings(3) [of cfg us u t]
      by (cases "uid = u_id u") (auto simp: quota_standing_def Some)
  qed simp
  then show ?thesis using assms transition_latched by (simp add: sweep_user_cases Some)
qed (simp add: sweep_user_cases assms)

lemma sweep_users_latched: "alerts_latched w \<Longrightarrow> alerts_latched (fold (sweep_user cfg us now) users w)"
  by (induction users arbitrary: w) (simp_all add: sweep_user_latched)

text \<open>A sweep within the period the tracker is already on keeps its standings.\<close>

lemma sweep_same_period:
  assumes "period_of w = Some (Some (quota_period_start cfg now))"
  shows "sweep_bandwidth_quotas cfg (Some d) now w =
    (case (db_usage_since d (quota_period_start cfg now), db_users d) of
       (Some us, Some users) \<Rightarrow> fold (sweep_user cfg us now) users w | _ \<Rightarrow> w)"
proof -
  obtain t where t: "w_quotas w = Some t" "qt_periodStart t = Some (quota_period_start cfg now)"
    using assms by (auto simp: period_of_def)
  have same: "w\<lparr>w_quotas := Some t\<rparr> = w" using t(1) by (cases w) simp
  have "sweep_bandwidth_quotas cfg (Some d) now w =
      (case (db_usage_since d (quota_period_start cfg now), db_users d) of
         (Some us, Some users) \<Rightarrow> fold (sweep_user cfg us now) users (w\<lparr>w_quotas := Some t\<rparr>)
       | _ \<Rightarrow> w\<lparr>w_quotas := Some t\<rparr>)"
    using t by (simp add: sweep_bandwidth_quotas_def begin_period_def Let_def split: option.split)
  then show ?thesis unfolding same .
qed

lemma sweep_same_period_keeps:
  assumes "period_of w = Some (Some (quota_period_start cfg now))"
  shows "period_of (sweep_bandwidth_quotas cfg db now w) = period_of w"
    and "alerts_latched w \<Longrightarrow> alerts_latched (sweep_bandwidth_quotas cfg db now w)"
  by (cases db; simp add: sweep_same_period [OF assms] sweep_users_latched
      sweep_bandwidth_quotas_def [of cfg None] split: option.split)+

text \<open>Whatever the tracker was on, a sweep that could read the database puts it on the
  current period with every bounded user recorded.\<close>

lemma sweep_any_period:
  assumes "w_quotas w \<noteq> None" "db_usage_since d (quota_period_start cfg now) = Some us" "db_users d = Some users"
  shows "\<exists>w1. sweep_bandwidth_quotas cfg (Some d) now w = fold (sweep_user cfg us now) users w1 \<and>
    period_of w1 = Some (Some (quota_period_start cfg now))"
proof -
  obtain t where t: "w_quotas w = Some t" using assms(1) by blast
  obtain rolled t' where b: "begin_period (quota_period_start cfg now) t = (rolled, t')" by (metis prod.collapse)
  have start: "qt_periodStart t' = Some (quota_period_start cfg now)"
    using b by (auto simp: begin_period_def split: if_splits)
  let ?w0 = "w\<lparr>w_quotas := Some t'\<rparr>"
  let ?w1 = "if rolled then release_all_quota_enforcement ?w0 else ?w0"
  have "sweep_bandwidth_quotas cfg (Some d) now w = fold (sweep_user cfg us now) users ?w1"
    by (simp add: sweep_bandwidth_quotas_def t b assms(2,3) Let_def)
  moreover have "period_of ?w1 = Some (Some (quota_period_start cfg now))"
    by (simp add: release_all_quota_enforcement_def, simp add: period_of_def start)
  ultimately show ?thesis by blast
qed

section \<open>Properties\<close>

text \<open>The two stages of the quota, for an allowance whose product with the percentage fits
  in 64 bits: a user is stopped from exactly the allowance on, throttled from the percentage of
  it (rounded down) on, and the throttle always comes strictly before the stop.\<close>

theorem quota_stages:
  assumes "0 < allowance" "0 < pct" "pct < 100" "allowance * pct < 2 ^ 63"
  shows "quota_state_for used allowance pct =
      (if allowance \<le> used then Q_stopped
       else if allowance * pct div 100 \<le> used then Q_throttled else Q_normal)
    \<and> allowance * pct div 100 < allowance"
proof -
  have "0 \<le> allowance * pct" using assms by simp
  then have "wrap64 (allowance * pct) = allowance * pct" using assms(4) by (intro wrap64_small) simp_all
  moreover have "allowance * pct div 100 < allowance"
  proof -
    have "allowance * pct < allowance * 100" using assms by (simp add: mult_strict_left_mono)
    then show ?thesis by linarith
  qed
  ultimately show ?thesis
    using assms \<open>0 \<le> allowance * pct\<close> by (simp add: quota_state_for_def quot_nonneg)
qed

theorem quota_stages_witness: "quota_state_for 799 1000 80 = Q_normal \<and> quota_state_for 800 1000 80 = Q_throttled"
  using quota_stages [of 1000 80 799] quota_stages [of 1000 80 800] by simp

text \<open>What a user moved in the period, from the rows of the statement that sums them: one for
  each user (\<open>GROUP BY\<close>), none for who moved nothing.\<close>

definition moved_by :: "bandwidth_usage list \<Rightarrow> string \<Rightarrow> int" where
  "moved_by us uid =
     sum_list (map (\<lambda>r. bu_bytesIn r + bu_bytesOut r) (filter (\<lambda>r. bu_userID r = uid) us))"

lemma usage_by_user_fold:
  "distinct (map bu_userID us) \<Longrightarrow>
   get (fold (\<lambda>u m. put (bu_userID u) u m) us m) k =
     (case filter (\<lambda>r. bu_userID r = k) us of [] \<Rightarrow> get m k | r # _ \<Rightarrow> Some r)"
proof (induction us arbitrary: m)
  case (Cons v us)
  have "filter (\<lambda>r. bu_userID r = bu_userID v) us = []"
    using Cons.prems by (auto simp: filter_empty_conv image_iff)
  then show ?case using Cons by (cases "bu_userID v = k") (auto simp: table_simps split: list.split)
qed simp

lemma one_row_of_a_user:
  "distinct (map bu_userID us) \<Longrightarrow>
   filter (\<lambda>r. bu_userID r = k) us = [] \<or> (\<exists>r. filter (\<lambda>r. bu_userID r = k) us = [r])"
proof (induction us)
  case (Cons v us)
  have "filter (\<lambda>r. bu_userID r = bu_userID v) us = []"
    using Cons.prems by (auto simp: filter_empty_conv image_iff)
  then show ?case using Cons by (cases "bu_userID v = k") auto
qed simp

lemma usage_total_moved:
  assumes "distinct (map bu_userID us)" "0 \<le> moved_by us uid" "moved_by us uid < 2 ^ 63"
  shows "usage_total (usage_of us uid) = moved_by us uid"
proof -
  have g: "get (usage_by_user us) uid = (case filter (\<lambda>r. bu_userID r = uid) us of [] \<Rightarrow> None | r # _ \<Rightarrow> Some r)"
    unfolding usage_by_user_def using usage_by_user_fold [OF assms(1), of "[]" uid]
    by (simp add: table_simps split: list.splits)
  show ?thesis
    using one_row_of_a_user [OF assms(1), of uid] assms(2,3)
    by (auto simp: usage_total_def usage_of_def g moved_by_def wrap64_small)
qed

lemma throttle_percent_range: "0 < quota_throttle_percent cfg" "quota_throttle_percent cfg < 100"
  by (simp_all add: quota_throttle_percent_def Let_def split: option.split)

text \<open>C39: After a sweep that could read users and usage, a user with an allowance is refused
  new tunnels exactly from the allowance on, held to the throttle exactly from the throttle
  percentage of it (rounded down) up to the allowance, and neither below; the measured amount is
  what the rows of the period say. Amounts are 64-bit: what the user moved, and the allowance
  times the percentage, are supposed to fit. Beyond that the product wraps, see
  \<open>huge_allowance_throttles_at_once\<close> below.\<close>

theorem sweep_enforces_quota:
  assumes "w_quotas w \<noteq> None" "db_usage_since d (quota_period_start cfg now) = Some us" "db_users d = Some users"
    and "distinct (map u_id users)" "u \<in> set users" "u_id u \<noteq> []" "distinct (map bu_userID us)"
    and "0 \<le> moved_by us (u_id u)" "moved_by us (u_id u) < 2 ^ 63"
    and "0 < resolve_bandwidth_quota cfg (Some u)"
    and "resolve_bandwidth_quota cfg (Some u) * quota_throttle_percent cfg < 2 ^ 63"
  shows "let q = w_quotas (sweep_bandwidth_quotas cfg (Some d) now w);
             moved = moved_by us (u_id u); allowance = resolve_bandwidth_quota cfg (Some u);
             threshold = allowance * quota_throttle_percent cfg div 100
         in (quota_registration_refusal q (u_id u) \<noteq> None \<longleftrightarrow> allowance \<le> moved) \<and>
            (quota_rate_limit_for cfg q (u_id u) \<noteq> None \<longleftrightarrow> threshold \<le> moved \<and> moved < allowance) \<and>
            threshold < allowance \<and>
            map_option qs_bytesTotal (quota_standing q (u_id u)) = Some moved"
proof -
  let ?q = "w_quotas (sweep_bandwidth_quotas cfg (Some d) now w)"
  let ?moved = "moved_by us (u_id u)" and ?allowance = "resolve_bandwidth_quota cfg (Some u)"
  have bounded: "bounded_user cfg u" using assms(10) by (simp add: bounded_user_def)
  have moved: "usage_total (usage_of us (u_id u)) = ?moved" by (rule usage_total_moved [OF assms(7-9)])
  obtain w1 where w1: "sweep_bandwidth_quotas cfg (Some d) now w = fold (sweep_user cfg us now) users w1"
    "period_of w1 = Some (Some (quota_period_start cfg now))"
    using sweep_any_period [OF assms(1-3)] by blast
  have tracked: "w_quotas w1 \<noteq> None" using w1(2) period_of_None by (metis option.distinct(1))
  obtain st where st: "quota_standing ?q (u_id u) = Some st"
    "qs_state st = swept_state cfg us u" "qs_bytesTotal st = usage_total (usage_of us (u_id u))"
    using sweep_users_standing [OF assms(4,5) bounded tracked, of us now] unfolding w1(1) by blast
  have stages: "swept_state cfg us u =
      (if ?allowance \<le> ?moved then Q_stopped
       else if ?allowance * quota_throttle_percent cfg div 100 \<le> ?moved then Q_throttled else Q_normal)"
    "?allowance * quota_throttle_percent cfg div 100 < ?allowance"
    unfolding swept_state_def moved
    using quota_stages [OF assms(10) throttle_percent_range assms(11), of ?moved] by simp_all
  show ?thesis
    using st assms(6) stages
    by (auto simp: Let_def quota_registration_refusal_def quota_rate_limit_for_def moved)
qed

definition ex_db :: "int \<Rightarrow> quota_db" where
  "ex_db n = \<lparr>db_usage_since = (\<lambda>t. Some [\<lparr>bu_userID = ''alice'', bu_bytesIn = n, bu_bytesOut = 0\<rparr>]),
     db_users = Some [ex_user ''alice'' ''developer'']\<rparr>"

definition ex_world :: quota_world where
  "ex_world = \<lparr>w_registry = ex_registry, w_quotas = Some new_quota_tracker, w_frames = [], w_alerts = []\<rparr>"

lemma ex_bounded: "bounded_user (Some ex_config) (ex_user ''alice'' ''developer'')"
  "resolve_bandwidth_quota (Some ex_config) (Some (ex_user ''alice'' ''developer'')) = 1000"
  by (simp_all add: bounded_user_def resolve_bandwidth_quota_def ex_user_def ex_config_def role_lookup_def get_def)

theorem sweep_enforces_quota_witness:
  "quota_registration_refusal (w_quotas (sweep_bandwidth_quotas (Some ex_config) (Some (ex_db 1000)) 0 ex_world)) ''alice'' \<noteq> None \<and>
   quota_registration_refusal (w_quotas (sweep_bandwidth_quotas (Some ex_config) (Some (ex_db 999)) 0 ex_world)) ''alice'' = None"
proof -
  let ?u = "ex_user ''alice'' ''developer''"
  have "u_id ?u = ''alice''" "quota_throttle_percent (Some ex_config) < 100"
    by (simp_all add: ex_user_def throttle_percent_range)
  then show ?thesis
    using sweep_enforces_quota [of ex_world "ex_db 1000" "Some ex_config" 0 _ "[?u]" ?u]
      sweep_enforces_quota [of ex_world "ex_db 999" "Some ex_config" 0 _ "[?u]" ?u] ex_bounded
    by (simp add: ex_world_def ex_db_def moved_by_def Let_def)
qed

text \<open>A sweep acts on transitions only: run again within the same period on the same
  figures, it sends no frame, raises no alert and touches no tunnel. So an edge that was
  disconnected when a user was throttled or stopped is not told again, although the comment on
  \<open>broadcastQuotaEnforcement\<close> says the next sweep sends the frame again.\<close>

theorem sweep_does_not_resend:
  assumes "w_quotas w \<noteq> None" "db_usage_since d (quota_period_start cfg now) = Some us" "db_users d = Some users"
    and "distinct (map u_id users)" and "quota_period_start cfg later = quota_period_start cfg now"
  shows "let w1 = sweep_bandwidth_quotas cfg (Some d) now w; w2 = sweep_bandwidth_quotas cfg (Some d) later w1
    in w_frames w2 = w_frames w1 \<and> w_alerts w2 = w_alerts w1 \<and> w_registry w2 = w_registry w1"
proof -
  define w1 where "w1 = sweep_bandwidth_quotas cfg (Some d) now w"
  obtain w0 where w0: "w1 = fold (sweep_user cfg us now) users w0"
    "period_of w0 = Some (Some (quota_period_start cfg now))"
    using sweep_any_period [OF assms(1-3)] unfolding w1_def by blast
  have tr: "w_quotas w0 \<noteq> None" using w0(2) period_of_None by (metis option.distinct(1))
  have "period_of w1 = Some (Some (quota_period_start cfg later))" using w0 assms(5) by simp
  then have again: "sweep_bandwidth_quotas cfg (Some d) later w1 = fold (sweep_user cfg us later) users w1"
    by (simp add: sweep_same_period assms(2,3,5))
  have "\<forall>u \<in> set users. settled cfg us w1 u"
    using sweep_users_self [OF assms(4) _ _ tr] unfolding settled_def w0(1) by blast
  from sweep_users_settled [OF this, of later] show ?thesis
    unfolding w1_def [symmetric] Let_def again by blast
qed

theorem sweep_does_not_resend_witness:
  "w_frames (sweep_bandwidth_quotas (Some ex_config) (Some (ex_db 900)) 0
     (sweep_bandwidth_quotas (Some ex_config) (Some (ex_db 900)) 0 ex_world))
   = w_frames (sweep_bandwidth_quotas (Some ex_config) (Some (ex_db 900)) 0 ex_world)"
  using sweep_does_not_resend [of ex_world "ex_db 900" "Some ex_config" 0 _ "[ex_user ''alice'' ''developer'']" 0]
  by (simp add: ex_world_def ex_db_def Let_def)

text \<open>Each stage is reported to the administrators at most once per user and period, however
  many sweeps run in it and however usage and allowances move in between.\<close>

theorem quota_alerts_once:
  assumes "period_of w = Some (Some start)" "w_alerts w = []"
    and "\<forall>(db, now) \<in> set sweeps. quota_period_start cfg now = start"
  shows "distinct (w_alerts (fold (\<lambda>(db, now). sweep_bandwidth_quotas cfg db now) sweeps w))"
proof -
  have "alerts_latched w" using assms(2) by (simp add: alerts_latched_def)
  with assms(1,3) have "alerts_latched (fold (\<lambda>(db, now). sweep_bandwidth_quotas cfg db now) sweeps w)"
  proof (induction sweeps arbitrary: w)
    case (Cons s sweeps)
    obtain db now where s: "s = (db, now)" by (cases s)
    with Cons.prems have "period_of w = Some (Some (quota_period_start cfg now))" by simp
    note keeps = sweep_same_period_keeps [OF this, of db]
    have "alerts_latched (fold (\<lambda>(db, now). sweep_bandwidth_quotas cfg db now) sweeps
        (sweep_bandwidth_quotas cfg db now w))"
      by (rule Cons.IH) (use Cons.prems keeps in \<open>simp_all\<close>)
    then show ?case by (simp add: s)
  qed simp
  then show ?thesis by (simp add: alerts_latched_def)
qed

theorem quota_alerts_once_witness:
  "distinct (w_alerts (fold (\<lambda>(db, now). sweep_bandwidth_quotas (Some ex_config) db now)
     [(Some (ex_db 900), 0), (Some (ex_db 100), 0), (Some (ex_db 900), 0), (Some (ex_db 1000), 0)]
     (ex_world\<lparr>w_quotas := Some \<lparr>qt_periodStart = Some (quota_period_start (Some ex_config) 0), qt_standings = []\<rparr>\<rparr>)))"
  by (rule quota_alerts_once) (simp_all add: period_of_def ex_world_def)

text \<open>Exempting a user (an allowance of zero) does not lift what an earlier sweep imposed:
  within the period the standing stays as it was, so a stopped user stays refused.\<close>

theorem exemption_lifts_nothing:
  assumes "period_of w = Some (Some (quota_period_start cfg now))"
    and "db_users d = Some users" "distinct (map u_id users)" "u \<in> set users"
    and "resolve_bandwidth_quota cfg (Some u) = 0"
  shows "quota_registration_refusal (w_quotas (sweep_bandwidth_quotas cfg (Some d) now w)) (u_id u)
       = quota_registration_refusal (w_quotas w) (u_id u)"
proof -
  have "\<not> bounded_user cfg u" using assms(5) by (simp add: bounded_user_def)
  from sweep_users_unbounded [OF assms(3,4) this, where now = now and w = w]
  have "quota_standing (w_quotas (sweep_bandwidth_quotas cfg (Some d) now w)) (u_id u) = quota_standing (w_quotas w) (u_id u)"
    by (simp add: sweep_same_period [OF assms(1)] assms(2) split: option.split)
  then show ?thesis by (simp add: quota_registration_refusal_def)
qed

theorem exemption_lifts_nothing_witness:
  "\<exists>w. quota_registration_refusal (w_quotas w) ''alice'' \<noteq> None \<and>
     quota_registration_refusal (w_quotas (sweep_bandwidth_quotas (Some ex_config)
       (Some \<lparr>db_usage_since = (\<lambda>t. Some []),
              db_users = Some [(ex_user ''alice'' ''developer'')\<lparr>u_bandwidthQuotaBytes := Some 0\<rparr>]\<rparr>) 0 w)) ''alice'' \<noteq> None"
proof -
  let ?u = "(ex_user ''alice'' ''developer'')\<lparr>u_bandwidthQuotaBytes := Some 0\<rparr>"
  let ?st = "\<lparr>qs_state = Q_stopped, qs_bytesTotal = 1000, qs_bytesOut = 0, qs_allowance = 1000, qs_alerted = Q_stopped\<rparr>"
  let ?w = "ex_world\<lparr>w_quotas := Some \<lparr>qt_periodStart = Some (quota_period_start (Some ex_config) 0),
     qt_standings = [(''alice'', ?st)]\<rparr>\<rparr>"
  have id: "u_id ?u = ''alice''" by (simp add: ex_user_def)
  have start: "period_of ?w = Some (Some (quota_period_start (Some ex_config) 0))" by (simp add: period_of_def)
  have before: "quota_registration_refusal (w_quotas ?w) ''alice'' \<noteq> None"
    by (simp add: quota_registration_refusal_def quota_standing_def get_def)
  have "resolve_bandwidth_quota (Some ex_config) (Some ?u) = 0" by (simp add: resolve_bandwidth_quota_def)
  from exemption_lifts_nothing [OF start _ _ _ this, of "\<lparr>db_usage_since = (\<lambda>t. Some []), db_users = Some [?u]\<rparr>" "[?u]"]
  have "quota_registration_refusal (w_quotas (sweep_bandwidth_quotas (Some ex_config)
      (Some \<lparr>db_usage_since = (\<lambda>t. Some []), db_users = Some [?u]\<rparr>) 0 ?w)) ''alice''
    = quota_registration_refusal (w_quotas ?w) ''alice''"
    unfolding id by simp
  with before show ?thesis by (intro exI [of _ ?w]) simp
qed

text \<open>Reconnecting does not shed a throttle: after a registration's \<open>applyQuotaToNewLeases\<close>
  every routed tunnel of a throttled user is held to the throttle, and nobody else's is
  touched.\<close>

theorem new_leases_inherit_throttle:
  assumes "registry_wf r" "get_lease r h = Some l" "quota_rate_limit_for cfg t uid = Some rate"
  shows "get_lease (apply_quota_to_new_leases cfg t uid r) h =
    Some (if l_userID l = uid then l\<lparr>l_rateLimit := quota_throttle_rate_limit cfg\<rparr> else l)"
proof -
  obtain p where p: "get (r_leases r) h = Some p" "deref r p = l"
    using assms(2) by (auto simp: get_lease_def)
  have rate: "rate = quota_throttle_rate_limit cfg"
    using assms(3) by (auto simp: quota_rate_limit_for_def split: if_splits option.splits)
  show ?thesis
    using update_routed_where [OF assms(1) p(1), of "\<lambda>l. l\<lparr>l_rateLimit := rate\<rparr>" "\<lambda>l. l_userID l = uid"] rate
    by (simp add: apply_quota_to_new_leases_def assms(3) set_quota_rate_limit_for_user_def Let_def get_lease_def p)
qed

theorem new_leases_inherit_throttle_witness:
  "\<exists>t. map_option l_rateLimit (get_lease (apply_quota_to_new_leases (Some ex_config) t ''alice'' ex_registry) ''demo.ex.org'') = Some 1"
proof -
  let ?t = "Some \<lparr>qt_periodStart = None, qt_standings = [(''alice'', \<lparr>qs_state = Q_throttled, qs_bytesTotal = 0,
     qs_bytesOut = 0, qs_allowance = 0, qs_alerted = Q_none\<rparr>)]\<rparr>"
  have l: "get_lease ex_registry ''demo.ex.org'' = Some (deref ex_registry 0)"
    by (simp add: get_lease_def ex_registry_value get_def)
  have rate: "quota_throttle_rate_limit (Some ex_config) = 1" by (simp add: quota_throttle_rate_limit_def ex_config_def)
  have "quota_rate_limit_for (Some ex_config) ?t ''alice'' = Some 1"
    by (simp add: quota_rate_limit_for_def quota_standing_def get_def rate)
  from new_leases_inherit_throttle [OF ex_registry_wf(1) l this] show ?thesis
    by (intro exI [of _ ?t]) (simp add: rate ex_registry_value)
qed

text \<open>The multiplication by the percentage can wrap: a user with an allowance of \<open>2 ^ 62\<close>
  bytes who has moved nothing is throttled.\<close>

theorem huge_allowance_throttles_at_once: "quota_state_for 0 (2 ^ 62) 80 = Q_throttled"
  by (simp add: quota_state_for_def wrap64_def quot_def)

text \<open>Stopping a user does not end a tunnel on a custom domain: its prefix is empty, and no
  host begins with a dot, so \<open>KickLease\<close> finds nothing.\<close>

theorem stop_misses_custom_domain:
  "map_option l_userID (get_lease (kick_user_leases now ''carol'' ex_custom_domain) ''demo.acme.com'') = Some ''carol''"
proof -
  have vals: "r_leases ex_custom_domain = [(''demo.acme.com'', 0)]" "l_userID (deref ex_custom_domain 0) = ''carol''"
    "l_subdomainPrefix (deref ex_custom_domain 0) = []"
    by (simp_all add: ex_custom_domain_def new_registry_def eval_register)
  have "lease_subdomains_for_user ''carol'' ex_custom_domain = [[]]"
    by (simp add: lease_subdomains_for_user_def routed_where_def vals)
  moreover have "kick_lease now [] ex_custom_domain = (False, ex_custom_domain)"
    by (simp add: kick_lease_def vals has_prefix_def)
  ultimately show ?thesis by (simp add: kick_user_leases_def get_lease_def vals get_def)
qed

end
