(* ===== verification/Session_Keys.thy ===== *)
theory Session_Keys
  imports Prelude
begin

text \<open>
  Visitor session cookies (\<open>visitor_session_secret.go\<close> and the signing half of \<open>proxy.go\<close>): the
  key set central owns, the ring each gateway holds, and the cookie that is minted with one key
  and verified against all. The message authentication code is a parameter: a function from a
  key and a payload to the signature's hex text.
\<close>

section \<open>The stored key set\<close>

record session_secret =
  ss_id :: string
  ss_key :: string

record stored_secrets =
  sto_currentID :: string
  sto_secrets :: "session_secret list"

definition no_secrets :: stored_secrets where
  "no_secrets = \<lparr>sto_currentID = [], sto_secrets = []\<rparr>"

definition visitor_session_secret_bytes :: nat where "visitor_session_secret_bytes = 32"
definition max_accepted_secrets :: nat where "max_accepted_secrets = 4"
definition node_local_session_key_id :: string where "node_local_session_key_id = ''node-local''"
definition visitor_session_cookie_lifetime :: duration where "visitor_session_cookie_lifetime = 24 * hour"

text \<open>\<open>hex.DecodeString\<close>.\<close>

definition hex_val :: "char \<Rightarrow> nat option" where
  "hex_val c = (let n = of_char c :: nat in
     if 48 \<le> n \<and> n \<le> 57 then Some (n - 48)
     else if 97 \<le> n \<and> n \<le> 102 then Some (n - 87)
     else if 65 \<le> n \<and> n \<le> 70 then Some (n - 55)
     else None)"

fun hex_decode :: "string \<Rightarrow> nat list option" where
  "hex_decode [] = Some []"
| "hex_decode [c] = None"
| "hex_decode (c # d # s) =
     (case (hex_val c, hex_val d, hex_decode s) of
        (Some a, Some b, Some bs) \<Rightarrow> Some ((16 * a + b) # bs)
      | _ \<Rightarrow> None)"

definition secret_well_formed :: "session_secret \<Rightarrow> bool" where
  "secret_well_formed s \<longleftrightarrow> ss_id s \<noteq> [] \<and>
     (case hex_decode (ss_key s) of None \<Rightarrow> False | Some k \<Rightarrow> length k = visitor_session_secret_bytes)"

definition stored_valid :: "stored_secrets \<Rightarrow> bool" where
  "stored_valid s \<longleftrightarrow>
     \<not> (sto_currentID s = [] \<or> sto_secrets s = [] \<or> max_accepted_secrets < length (sto_secrets s)) \<and>
     list_all secret_well_formed (sto_secrets s) \<and>
     list_ex (\<lambda>x. ss_id x = sto_currentID s) (sto_secrets s)"

section \<open>The ring a gateway holds\<close>

text \<open>A key of no bytes is the zero value: no key.\<close>

record session_key =
  sk_id :: string
  sk_key :: "nat list"

definition no_key :: session_key where "no_key = \<lparr>sk_id = [], sk_key = []\<rparr>"

record keyring =
  kr_keys :: "session_key list"
  kr_current :: session_key
  kr_bootstrap :: session_key

text \<open>\<open>NewProxyHandler\<close>: the random bytes are absent when the source failed.\<close>

definition new_keyring :: "nat list option \<Rightarrow> keyring" where
  "new_keyring boot =
     (case boot of
        None \<Rightarrow> \<lparr>kr_keys = [], kr_current = no_key, kr_bootstrap = no_key\<rparr>
      | Some b \<Rightarrow>
          (let k = \<lparr>sk_id = node_local_session_key_id, sk_key = b\<rparr>
           in \<lparr>kr_keys = [k], kr_current = k, kr_bootstrap = k\<rparr>))"

datatype keyring_error =
    No_keys_supplied | Too_many_keys nat | No_current_named | Key_without_id
  | Reserved_id | Not_hex string | Wrong_length string nat | Current_not_supplied string

definition decode_secret :: "session_secret \<Rightarrow> keyring_error + session_key" where
  "decode_secret s =
     (if ss_id s = [] then Inl Key_without_id
      else if ss_id s = node_local_session_key_id then Inl Reserved_id
      else case hex_decode (ss_key s) of
             None \<Rightarrow> Inl (Not_hex (ss_id s))
           | Some raw \<Rightarrow>
               (if length raw \<noteq> visitor_session_secret_bytes then Inl (Wrong_length (ss_id s) (length raw))
                else Inr \<lparr>sk_id = ss_id s, sk_key = raw\<rparr>))"

fun decode_secrets :: "session_secret list \<Rightarrow> keyring_error + session_key list" where
  "decode_secrets [] = Inr []"
| "decode_secrets (s # ss) =
     (case decode_secret s of Inl e \<Rightarrow> Inl e
      | Inr k \<Rightarrow> (case decode_secrets ss of Inl e \<Rightarrow> Inl e | Inr ks \<Rightarrow> Inr (k # ks)))"

text \<open>The loop overwrites \<open>current\<close> at every match: the last one counts.\<close>

definition last_with_id :: "string \<Rightarrow> session_key list \<Rightarrow> session_key" where
  "last_with_id i ks = (case filter (\<lambda>k. sk_id k = i) ks of [] \<Rightarrow> no_key | m \<Rightarrow> last m)"

definition set_visitor_session_secrets ::
  "session_secret list \<Rightarrow> string \<Rightarrow> keyring \<Rightarrow> keyring_error + keyring" where
  "set_visitor_session_secrets secrets currentID ring =
     (if secrets = [] then Inl No_keys_supplied
      else if max_accepted_secrets < length secrets then Inl (Too_many_keys (length secrets))
      else if currentID = [] then Inl No_current_named
      else case decode_secrets secrets of Inl e \<Rightarrow> Inl e
      | Inr keys \<Rightarrow>
          (let current = last_with_id currentID keys
           in if sk_key current = [] then Inl (Current_not_supplied currentID)
              else Inr (ring\<lparr>kr_keys := (if sk_key (kr_bootstrap ring) \<noteq> []
                                        then keys @ [kr_bootstrap ring] else keys),
                             kr_current := current\<rparr>)))"

definition visitor_session_generations :: "keyring \<Rightarrow> string \<times> string list" where
  "visitor_session_generations ring = (sk_id (kr_current ring), map sk_id (kr_keys ring))"

section \<open>The cookie\<close>

definition cookie_payload :: "string \<Rightarrow> string \<Rightarrow> string" where
  "cookie_payload subdomain expiry = subdomain @ '':'' @ expiry"

definition create_session_cookie ::
  "(nat list \<Rightarrow> string \<Rightarrow> string) \<Rightarrow> time \<Rightarrow> string \<Rightarrow> keyring \<Rightarrow> string option" where
  "create_session_cookie mac now subdomain ring =
     (if sk_key (kr_current ring) = [] then None
      else let payload = cookie_payload subdomain (itoa (unix (now + visitor_session_cookie_lifetime)))
           in Some (payload @ '':'' @ mac (sk_key (kr_current ring)) payload))"

definition verify_session_cookie ::
  "(nat list \<Rightarrow> string \<Rightarrow> string) \<Rightarrow> time \<Rightarrow> string \<Rightarrow> string \<Rightarrow> keyring \<Rightarrow> bool" where
  "verify_session_cookie mac now cookie subdomain ring =
     (case split_on (CHR '':'') cookie of
        [cookieSubdomain, expStr, signature] \<Rightarrow>
          (if cookieSubdomain \<noteq> subdomain then False
           else case parse_int expStr of
             None \<Rightarrow> False
           | Some expiration \<Rightarrow>
               (if expiration < unix now then False
                else list_ex (\<lambda>k. sk_key k \<noteq> [] \<and> signature = mac (sk_key k) (cookie_payload cookieSubdomain expStr))
                       (kr_keys ring)))
      | _ \<Rightarrow> False)"

section \<open>Central's copy\<close>

text \<open>
  The \<open>admin_settings\<close> row: absent, or a text that decodes to a key set, or one that does not.
\<close>

datatype secrets_row = No_row | Row "stored_secrets option"

datatype secrets_error = No_database | Read_failed | Mint_failed | Write_failed
  | Set_not_usable | Refused_own_set keyring_error

text \<open>
  \<open>loadOrCreateVisitorSessionSecrets\<close>: whether reading and writing the row succeeds and the
  freshly minted key (none without randomness) are inputs. The set is returned beside the
  error: a key that could not be written is still used.
\<close>

definition load_or_create_secrets ::
  "bool \<Rightarrow> bool \<Rightarrow> session_secret option \<Rightarrow> secrets_row \<Rightarrow> (stored_secrets \<times> secrets_error option) \<times> secrets_row" where
  "load_or_create_secrets read_ok write_ok fresh row =
     (if \<not> read_ok then ((no_secrets, Some Read_failed), row)
      else case (case row of Row (Some s) \<Rightarrow> if stored_valid s then Some s else None | _ \<Rightarrow> None) of
        Some s \<Rightarrow> ((s, None), row)
      | None \<Rightarrow>
     (case fresh of
        None \<Rightarrow> ((no_secrets, Some Mint_failed), row)
      | Some k \<Rightarrow>
          (let s = \<lparr>sto_currentID = ss_id k, sto_secrets = [k]\<rparr>
           in if write_ok then ((s, None), Row (Some s)) else ((s, Some Write_failed), row))))"

record key_central =
  kc_row :: secrets_row
  kc_stored :: stored_secrets
  kc_ring :: keyring

definition init_secrets ::
  "bool \<Rightarrow> bool \<Rightarrow> session_secret option \<Rightarrow> key_central \<Rightarrow> key_central" where
  "init_secrets read_ok write_ok fresh c =
     (let ((stored, err), row) = load_or_create_secrets read_ok write_ok fresh (kc_row c)
      in if sto_secrets stored = [] then c\<lparr>kc_row := row\<rparr>
         else let c1 = c\<lparr>kc_row := row, kc_stored := stored\<rparr>
              in case set_visitor_session_secrets (sto_secrets stored) (sto_currentID stored) (kc_ring c1) of
                   Inl e \<Rightarrow> c1 | Inr ring \<Rightarrow> c1\<lparr>kc_ring := ring\<rparr>)"

text \<open>
  \<open>applyAndPersistVisitorSessionSecrets\<close>: validated, applied to central's own ring, then
  written, and only then remembered as central's copy.
\<close>

definition apply_and_persist ::
  "bool \<Rightarrow> stored_secrets \<Rightarrow> key_central \<Rightarrow> secrets_error option \<times> key_central" where
  "apply_and_persist write_ok s c =
     (if \<not> stored_valid s then (Some Set_not_usable, c)
      else case set_visitor_session_secrets (sto_secrets s) (sto_currentID s) (kc_ring c) of
        Inl e \<Rightarrow> (Some (Refused_own_set e), c)
      | Inr ring \<Rightarrow>
          (let c1 = c\<lparr>kc_ring := ring\<rparr>
           in if \<not> write_ok then (Some Write_failed, c1)
              else (None, c1\<lparr>kc_row := Row (Some s), kc_stored := s\<rparr>)))"

text \<open>An edge receiving the frame: a refused set keeps the previous ring and is not
  acknowledged; an applied one is acknowledged from what the ring now holds.\<close>

definition apply_secrets_frame ::
  "stored_secrets \<Rightarrow> keyring \<Rightarrow> (string \<times> string list) option \<times> keyring" where
  "apply_secrets_frame s ring =
     (case set_visitor_session_secrets (sto_secrets s) (sto_currentID s) ring of
        Inl e \<Rightarrow> (None, ring)
      | Inr ring' \<Rightarrow> (Some (visitor_session_generations ring'), ring'))"

section \<open>Facts\<close>

lemma decode_secret_id: "decode_secret s = Inr k \<Longrightarrow> sk_id k = ss_id s \<and> length (sk_key k) = 32"
  by (auto simp: decode_secret_def visitor_session_secret_bytes_def split: if_splits option.splits)

lemma decode_secrets_map:
  "decode_secrets ss = Inr ks \<Longrightarrow> map Inr ks = map decode_secret ss"
  by (induction ss arbitrary: ks) (auto split: sum.splits)

lemma decode_secrets_ids:
  assumes "decode_secrets ss = Inr ks"
  shows "map sk_id ks = map ss_id ss"
  using assms by (induction ss arbitrary: ks) (auto split: sum.splits dest: decode_secret_id)

lemma decode_secrets_lengths: "decode_secrets ss = Inr ks \<Longrightarrow> k \<in> set ks \<Longrightarrow> length (sk_key k) = 32"
  by (induction ss arbitrary: ks) (auto split: sum.splits dest: decode_secret_id)

lemma last_with_id_in:
  "last_with_id i ks \<noteq> no_key \<Longrightarrow> last_with_id i ks \<in> set ks \<and> sk_id (last_with_id i ks) = i"
proof -
  assume "last_with_id i ks \<noteq> no_key"
  then have ne: "filter (\<lambda>k. sk_id k = i) ks \<noteq> []" by (auto simp: last_with_id_def)
  then have "last_with_id i ks = last (filter (\<lambda>k. sk_id k = i) ks)"
    by (simp add: last_with_id_def split: list.split)
  with last_in_set [OF ne] show ?thesis by auto
qed

text \<open>An accepted set: the ring mints with the named generation, accepts every supplied key and
  its own bootstrap key, and keeps the bootstrap.\<close>

lemma set_secrets_ring:
  assumes "set_visitor_session_secrets secrets i ring = Inr ring'"
  shows "\<exists>keys. decode_secrets secrets = Inr keys \<and> kr_current ring' = last_with_id i keys \<and>
      kr_current ring' \<in> set keys \<and> sk_id (kr_current ring') = i \<and> sk_key (kr_current ring') \<noteq> [] \<and>
      set keys \<subseteq> set (kr_keys ring') \<and> kr_bootstrap ring' = kr_bootstrap ring \<and>
      kr_keys ring' = (if sk_key (kr_bootstrap ring) \<noteq> []
                       then keys @ [kr_bootstrap ring] else keys)"
proof -
  from assms obtain keys where keys: "decode_secrets secrets = Inr keys" "sk_key (last_with_id i keys) \<noteq> []"
    "ring' = ring\<lparr>kr_keys := (if sk_key (kr_bootstrap ring) \<noteq> []
                                        then keys @ [kr_bootstrap ring] else keys),
                  kr_current := last_with_id i keys\<rparr>"
    by (auto simp: set_visitor_session_secrets_def Let_def split: if_splits sum.splits)
  have "last_with_id i keys \<noteq> no_key" using keys(2) by (auto simp: no_key_def)
  from last_with_id_in [OF this] keys show ?thesis by auto
qed

lemma set_secrets_accepts:
  assumes "stored_valid s" "\<forall>x \<in> set (sto_secrets s). ss_id x \<noteq> node_local_session_key_id"
  shows "\<exists>ring'. set_visitor_session_secrets (sto_secrets s) (sto_currentID s) ring = Inr ring'"
proof -
  have dec: "\<exists>k. decode_secret x = Inr k" if "x \<in> set (sto_secrets s)" for x
    using assms that by (auto simp: stored_valid_def list_all_iff secret_well_formed_def decode_secret_def
        split: option.splits)
  have "\<exists>ks. decode_secrets xs = Inr ks" if "set xs \<subseteq> set (sto_secrets s)" for xs
    using that dec by (induction xs) (fastforce split: sum.splits)+
  then obtain keys where keys: "decode_secrets (sto_secrets s) = Inr keys" by blast
  obtain x where x: "x \<in> set (sto_secrets s)" "ss_id x = sto_currentID s"
    using assms(1) by (auto simp: stored_valid_def list_ex_iff)
  have "sto_currentID s \<in> set (map sk_id keys)"
    using x by (simp add: decode_secrets_ids [OF keys]) force
  then have ne: "filter (\<lambda>k. sk_id k = sto_currentID s) keys \<noteq> []" by (auto simp: filter_empty_conv)
  then have "last_with_id (sto_currentID s) keys = last (filter (\<lambda>k. sk_id k = sto_currentID s) keys)"
    by (simp add: last_with_id_def split: list.split)
  with last_in_set [OF ne] have "last_with_id (sto_currentID s) keys \<in> set keys" by auto
  then have "sk_key (last_with_id (sto_currentID s) keys) \<noteq> []"
    using decode_secrets_lengths [OF keys] by fastforce
  then show ?thesis
    using assms(1) keys by (simp add: set_visitor_session_secrets_def stored_valid_def Let_def)
qed

end
