(* ===== verification/Session_Rotation.thy ===== *)
theory Session_Rotation
  imports Session_Keys "HOL-Library.List_Lexorder" "HOL-Library.Char_ord"
begin

text \<open>
  Rotating the session-signing key without ending a session
  (\<open>visitor_session_rotation.go\<close>): the bookkeeping row, the acknowledgements, the three phases
  distribute, commit and retire, and the schedule with its backoff. What the engine reads from
  outside (the clock, the random source, whether a database write succeeds, who is connected
  and what they acknowledged) is an input record.
\<close>

section \<open>Constants and records\<close>

definition rotation_interval :: duration where "rotation_interval = 24 * hour"
definition rotation_retry_floor :: duration where "rotation_retry_floor = 5 * minute"
definition rotation_unacked_backoff :: duration where "rotation_unacked_backoff = 15 * minute"
definition retirement_lag :: duration where
  "retirement_lag = visitor_session_cookie_lifetime + rotation_interval"

record session_ack =
  ak_currentID :: string
  ak_accepted :: "string list"
  ak_at :: time

definition ack_holds :: "string \<Rightarrow> session_ack \<Rightarrow> bool" where
  "ack_holds g a \<longleftrightarrow> g \<in> set (ak_accepted a)"

definition note_ack ::
  "string \<Rightarrow> string \<Rightarrow> string list \<Rightarrow> time \<Rightarrow> (string, session_ack) table \<Rightarrow> (string, session_ack) table" where
  "note_ack node current accepted now acks =
     (if trim_space node = [] then acks
      else put (trim_space node)
             \<lparr>ak_currentID = trim_space current, ak_accepted = accepted, ak_at = now\<rparr> acks)"

datatype trigger = Manual | Periodic
datatype rotation_result = Committed | Aborted

datatype abort_reason =
    Already_running | Not_control_plane | No_keys_to_rotate
  | Set_full "string list" "(string \<times> time) option"
  | Not_minted | Not_established secrets_error
  | Not_confirmed nat nat string string
  | Switch_not_recorded string secrets_error

record rotation_outcome =
  ro_at :: time
  ro_trigger :: trigger
  ro_actor :: string
  ro_outcome :: "rotation_result option"
  ro_generation :: string
  ro_previous :: string
  ro_acknowledged :: "string list"
  ro_unacknowledged :: "(string \<times> string) list"
  ro_reason :: "abort_reason option"
  ro_retryAt :: "time option"

definition committed :: "rotation_outcome \<Rightarrow> bool" where
  "committed o' \<longleftrightarrow> ro_outcome o' = Some Committed"

text \<open>The bookkeeping row. The zero value is also what an unreadable row is read as.\<close>

record rotation_state =
  rn_next :: "time option"
  rn_retirements :: "(string, time) table"
  rn_last :: "rotation_outcome option"
  rn_aborts :: nat

definition zero_state :: rotation_state where
  "zero_state = \<lparr>rn_next = None, rn_retirements = [], rn_last = None, rn_aborts = 0\<rparr>"

datatype audit_action = Audit_rotated | Audit_aborted | Audit_retired

text \<open>The control plane: its keys, the row, what it sent to which node, and the audit log.\<close>

record rotor =
  rt_keys :: key_central
  rt_state :: rotation_state
  rt_sent :: "(string \<times> stored_secrets) list"
  rt_audit :: "(audit_action \<times> string \<times> string) list"

definition load_state :: "bool \<Rightarrow> rotor \<Rightarrow> rotation_state" where
  "load_state read_ok c = (if read_ok then rt_state c else zero_state)"

definition save_state :: "bool \<Rightarrow> rotation_state \<Rightarrow> rotor \<Rightarrow> rotor" where
  "save_state write_ok s c = (if write_ok then c\<lparr>rt_state := s\<rparr> else c)"

definition init_rotation :: "bool \<Rightarrow> bool \<Rightarrow> time \<Rightarrow> rotor \<Rightarrow> rotor" where
  "init_rotation read_ok write_ok now c =
     (let s = load_state read_ok c
      in if rn_next s \<noteq> None then c
         else save_state write_ok (s\<lparr>rn_next := Some (now + rotation_interval)\<rparr>) c)"

definition audit_actor_for :: "trigger \<Rightarrow> string \<Rightarrow> string" where
  "audit_actor_for trig actor =
     (if trig = Manual \<and> trim_space actor \<noteq> [] then actor else ''system:scheduler'')"

definition audit :: "audit_action \<Rightarrow> string \<Rightarrow> string \<Rightarrow> rotor \<Rightarrow> rotor" where
  "audit act actor gen c = c\<lparr>rt_audit := rt_audit c @ [(act, actor, gen)]\<rparr>"

section \<open>Pushing the set and collecting acknowledgements\<close>

text \<open>A push goes out unless there is nothing to send or the write to that node fails.\<close>

definition push_failure :: "(string \<Rightarrow> string option) \<Rightarrow> rotor \<Rightarrow> string \<Rightarrow> string option" where
  "push_failure fails c node =
     (if sto_secrets (kc_stored (rt_keys c)) = [] then Some ''this node holds no visitor session keys to send''
      else fails node)"

definition push_to :: "(string \<Rightarrow> string option) \<Rightarrow> string list \<Rightarrow> rotor \<Rightarrow> rotor" where
  "push_to fails nodes c =
     c\<lparr>rt_sent := rt_sent c @
        map (\<lambda>n. (n, kc_stored (rt_keys c))) (filter (\<lambda>n. push_failure fails c n = None) nodes)\<rparr>"

text \<open>
  One iteration of the wait sees who is connected and the latest acknowledgements. The list of
  observations ends at the deadline or when the context is cancelled.
\<close>

type_synonym observation = "string list \<times> (string, session_ack) table"

definition ack_counts :: "time \<Rightarrow> (session_ack \<Rightarrow> bool) \<Rightarrow> observation \<Rightarrow> string \<Rightarrow> bool" where
  "ack_counts since want obs n =
     (case get (snd obs) n of None \<Rightarrow> False | Some a \<Rightarrow> since < ak_at a \<and> want a)"

fun await_loop ::
  "time \<Rightarrow> (session_ack \<Rightarrow> bool) \<Rightarrow> observation list \<Rightarrow> string list \<Rightarrow> string list \<Rightarrow> string list \<times> string list" where
  "await_loop since want [] acked pending = (acked, pending)"
| "await_loop since want (obs # rest) acked pending =
     (let connected = filter (\<lambda>n. n \<in> set (fst obs)) pending;
          acked' = acked @ filter (ack_counts since want obs) connected;
          pending' = filter (\<lambda>n. \<not> ack_counts since want obs n) connected
      in if pending' = [] then (acked', pending') else await_loop since want rest acked' pending')"

definition await_acks ::
  "time \<Rightarrow> (session_ack \<Rightarrow> bool) \<Rightarrow> observation list \<Rightarrow> string list \<Rightarrow> (string \<Rightarrow> string option)
   \<Rightarrow> string list \<times> (string \<times> string) list" where
  "await_acks since want polls nodes failures =
     (if nodes = [] then ([], [])
      else let (acked, pending) = await_loop since want polls [] nodes
           in (sort acked,
               map (\<lambda>n. (n, case failures n of Some why \<Rightarrow> why
                             | None \<Rightarrow> ''it did not answer before the rotation's deadline'')) (sort pending)))"

section \<open>Retirement\<close>

definition prune_uncommitted :: "(string, time) table \<Rightarrow> stored_secrets \<Rightarrow> stored_secrets" where
  "prune_uncommitted retirements s =
     s\<lparr>sto_secrets := filter (\<lambda>x. ss_id x = sto_currentID s \<or> get retirements (ss_id x) \<noteq> None) (sto_secrets s)\<rparr>"

fun earliest_from :: "(string \<times> time) option \<Rightarrow> (string, time) table \<Rightarrow> (string \<times> time) option" where
  "earliest_from best [] = best"
| "earliest_from best ((i, t) # m) =
     (case best of
        None \<Rightarrow> earliest_from (Some (i, t)) m
      | Some (j, u) \<Rightarrow> if t < u then earliest_from (Some (i, t)) m else earliest_from best m)"

definition earliest_retirement :: "(string, time) table \<Rightarrow> (string \<times> time) option" where
  "earliest_retirement m = earliest_from None m"

record sweep_env =
  sw_now :: time
  sw_read :: bool
  sw_persist :: bool
  sw_save :: bool
  sw_connected :: "string list"
  sw_fails :: "string \<Rightarrow> string option"

definition due_generations :: "time \<Rightarrow> string \<Rightarrow> (string, time) table \<Rightarrow> string list" where
  "due_generations now current m = map fst (filter (\<lambda>(i, t). i \<noteq> current \<and> \<not> now < t) m)"

definition forget_all :: "string list \<Rightarrow> (string, time) table \<Rightarrow> (string, time) table" where
  "forget_all ids m = fold del ids m"

definition retire_generations :: "sweep_env \<Rightarrow> rotor \<Rightarrow> rotor" where
  "retire_generations env c =
     (let s = load_state (sw_read env) c; stored = kc_stored (rt_keys c)
      in if rn_retirements s = [] then c
         else if sto_secrets stored = [] then c
         else
           (let due = due_generations (sw_now env) (sto_currentID stored) (rn_retirements s);
                kept = filter (\<lambda>x. ss_id x \<notin> set due) (sto_secrets stored);
                s' = s\<lparr>rn_retirements := forget_all due (rn_retirements s)\<rparr>
            in if due = [] then c
               else if length kept = length (sto_secrets stored) then save_state (sw_save env) s' c
               else
                 (case apply_and_persist (sw_persist env) (stored\<lparr>sto_secrets := kept\<rparr>) (rt_keys c) of
                    (Some e, k) \<Rightarrow> c\<lparr>rt_keys := k\<rparr>
                  | (None, k) \<Rightarrow>
                      audit Audit_retired ''system:scheduler'' (join '', '' (sort due))
                        (push_to (sw_fails env) (sw_connected env)
                          (save_state (sw_save env) s' (c\<lparr>rt_keys := k\<rparr>))))))"

section \<open>One rotation\<close>

record rotate_env =
  re_now :: time
  re_lock :: bool
  re_db :: bool
  re_read :: bool
  re_fresh :: "session_secret option"
  re_persist :: bool
  re_pushedAt :: time
  re_connected :: "string list"
  re_fails :: "string \<Rightarrow> string option"
  re_polls :: "observation list"
  re_abort_read :: bool
  re_abort_save :: bool

record commit_env =
  ce_persist :: bool
  ce_save :: bool
  ce_fails :: "string \<Rightarrow> string option"
  ce_abort_read :: bool
  ce_abort_save :: bool

definition unacked_retry_delay :: "nat \<Rightarrow> duration" where
  "unacked_retry_delay n =
     (let d = ((\<lambda>d. if rotation_interval \<le> d then d else 2 * d) ^^ n) rotation_unacked_backoff
      in if rotation_interval < d then rotation_interval else d)"

definition start_outcome :: "time \<Rightarrow> trigger \<Rightarrow> string \<Rightarrow> rotation_outcome" where
  "start_outcome now trig actor =
     \<lparr>ro_at = now, ro_trigger = trig, ro_actor = actor, ro_outcome = None, ro_generation = [],
      ro_previous = [], ro_acknowledged = [], ro_unacknowledged = [], ro_reason = None, ro_retryAt = None\<rparr>"

definition abort_rotation ::
  "bool \<Rightarrow> bool \<Rightarrow> bool \<Rightarrow> rotation_outcome \<Rightarrow> abort_reason \<Rightarrow> rotor \<Rightarrow> rotation_outcome \<times> rotor" where
  "abort_rotation db read_ok write_ok o' why c =
     (let o1 = o'\<lparr>ro_outcome := Some Aborted, ro_reason := Some why\<rparr>
      in (o1, if db
              then audit Audit_aborted (audit_actor_for (ro_trigger o1) (ro_actor o1)) (ro_generation o1)
                     (save_state write_ok ((load_state read_ok c)\<lparr>rn_last := Some o1\<rparr>) c)
              else c))"

text \<open>
  Phase one, up to the acknowledgements. What it hands on: the outcome so far, the bookkeeping
  as loaded, the pruned set, the distributed set, the fresh key and the nodes it targeted.
\<close>

record prepared =
  pr_outcome :: rotation_outcome
  pr_state :: rotation_state
  pr_stored :: stored_secrets
  pr_distributed :: stored_secrets
  pr_fresh :: session_secret
  pr_targets :: "string list"

definition rotate_prepare ::
  "rotate_env \<Rightarrow> trigger \<Rightarrow> string \<Rightarrow> rotor \<Rightarrow> (rotation_outcome \<times> rotor) + (prepared \<times> rotor)" where
  "rotate_prepare env trig actor c =
     (let o0 = start_outcome (re_now env) trig actor;
          stop = (\<lambda>o' why c. Inl (abort_rotation (re_db env) (re_abort_read env) (re_abort_save env) o' why c))
      in if \<not> re_lock env then stop o0 Already_running c
         else if \<not> re_db env then stop o0 Not_control_plane c
         else
           (let s = load_state (re_read env) c;
                stored = prune_uncommitted (rn_retirements s) (kc_stored (rt_keys c))
            in if sto_secrets stored = [] \<or> sto_currentID stored = [] then stop o0 No_keys_to_rotate c
               else
                 (let o1 = o0\<lparr>ro_previous := sto_currentID stored\<rparr>;
                      full = earliest_retirement (rn_retirements s)
                  in if max_accepted_secrets < length (sto_secrets stored) + 1
                     then stop (o1\<lparr>ro_retryAt := map_option snd full\<rparr>) (Set_full (map ss_id (sto_secrets stored)) full) c
                     else case re_fresh env of
                       None \<Rightarrow> stop o1 Not_minted c
                     | Some fresh \<Rightarrow>
                         (let o2 = o1\<lparr>ro_generation := ss_id fresh\<rparr>;
                              distributed = \<lparr>sto_currentID = sto_currentID stored, sto_secrets = sto_secrets stored @ [fresh]\<rparr>
                          in case apply_and_persist (re_persist env) distributed (rt_keys c) of
                               (Some e, k) \<Rightarrow> stop o2 (Not_established e) (c\<lparr>rt_keys := k\<rparr>)
                             | (None, k) \<Rightarrow>
                                 (let c1 = c\<lparr>rt_keys := k\<rparr>;
                                      c2 = push_to (re_fails env) (re_connected env) c1;
                                      (acked, missing) = await_acks (re_pushedAt env) (ack_holds (ss_id fresh))
                                        (re_polls env) (re_connected env) (push_failure (re_fails env) c1);
                                      o3 = o2\<lparr>ro_acknowledged := acked, ro_unacknowledged := missing\<rparr>
                                  in if missing \<noteq> []
                                     then stop (o3\<lparr>ro_retryAt := Some (re_now env + unacked_retry_delay (rn_aborts s))\<rparr>)
                                            (Not_confirmed (length missing) (length (re_connected env)) (ss_id fresh)
                                               (sto_currentID stored)) c2
                                     else Inr (\<lparr>pr_outcome = o3, pr_state = s, pr_stored = stored,
                                                pr_distributed = distributed, pr_fresh = fresh,
                                                pr_targets = re_connected env\<rparr>, c2))))))"

text \<open>Phase two. Whether the nodes confirm the switch is only logged.\<close>

definition rotate_finish :: "commit_env \<Rightarrow> prepared \<Rightarrow> rotor \<Rightarrow> rotation_outcome \<times> rotor" where
  "rotate_finish env p c =
     (let gen = ss_id (pr_fresh p);
          committed_set = \<lparr>sto_currentID = gen, sto_secrets = sto_secrets (pr_distributed p)\<rparr>
      in case apply_and_persist (ce_persist env) committed_set (rt_keys c) of
           (Some e, k) \<Rightarrow>
             abort_rotation True (ce_abort_read env) (ce_abort_save env) (pr_outcome p) (Switch_not_recorded gen e)
               (c\<lparr>rt_keys := k\<rparr>)
         | (None, k) \<Rightarrow>
             (let c1 = push_to (ce_fails env) (pr_targets p) (c\<lparr>rt_keys := k\<rparr>);
                  o1 = (pr_outcome p)\<lparr>ro_outcome := Some Committed\<rparr>;
                  s = pr_state p;
                  s1 = s\<lparr>rn_retirements := put (sto_currentID (pr_stored p)) (ro_at o1 + retirement_lag) (rn_retirements s),
                         rn_last := Some o1\<rparr>
              in (o1, audit Audit_rotated (audit_actor_for (ro_trigger o1) (ro_actor o1)) gen
                        (save_state (ce_save env) s1 c1))))"

definition rotate_secret ::
  "rotate_env \<Rightarrow> commit_env \<Rightarrow> trigger \<Rightarrow> string \<Rightarrow> rotor \<Rightarrow> rotation_outcome \<times> rotor" where
  "rotate_secret env cenv trig actor c =
     (case rotate_prepare env trig actor c of
        Inl res \<Rightarrow> res
      | Inr (p, c1) \<Rightarrow> rotate_finish cenv p c1)"

section \<open>The schedule\<close>

definition retry_instant :: "time \<Rightarrow> time option \<Rightarrow> time option" where
  "retry_instant now cause =
     (case cause of None \<Rightarrow> None
      | Some t \<Rightarrow>
          (if t < now + rotation_retry_floor then Some (now + rotation_retry_floor)
           else if now + rotation_interval < t then Some (now + rotation_interval)
           else Some t))"

definition reschedule_after :: "bool \<Rightarrow> bool \<Rightarrow> rotation_outcome \<Rightarrow> time \<Rightarrow> rotor \<Rightarrow> rotor" where
  "reschedule_after read_ok write_ok o' now c =
     (let s = load_state read_ok c
      in if committed o'
         then (if rn_aborts s = 0 then c else save_state write_ok (s\<lparr>rn_aborts := 0\<rparr>) c)
         else
           (let s1 = s\<lparr>rn_aborts := rn_aborts s + 1\<rparr>;
                s2 = (case (retry_instant now (ro_retryAt o'), rn_next s1) of
                        (Some t, Some n) \<Rightarrow> if t < n then s1\<lparr>rn_next := Some t\<rparr> else s1
                      | _ \<Rightarrow> s1)
            in save_state write_ok s2 c))"

record tick_env =
  te_sweep :: sweep_env
  te_read :: bool
  te_save :: bool
  te_rotate :: rotate_env
  te_commit :: commit_env
  te_after_read :: bool
  te_after_save :: bool

definition sweep_rotation :: "tick_env \<Rightarrow> time \<Rightarrow> rotor \<Rightarrow> rotor" where
  "sweep_rotation env now c0 =
     (let c = retire_generations (te_sweep env) c0;
          s = load_state (te_read env) c
      in case rn_next s of
           None \<Rightarrow> save_state (te_save env) (s\<lparr>rn_next := Some (now + rotation_interval)\<rparr>) c
         | Some due \<Rightarrow>
             (if now < due then c
              else if \<not> te_save env then c
              else
                (let c1 = save_state True (s\<lparr>rn_next := Some (now + rotation_interval)\<rparr>) c;
                     (o', c2) = rotate_secret (te_rotate env) (te_commit env) Periodic ''system:scheduler'' c1
                 in reschedule_after (te_after_read env) (te_after_save env) o' now c2)))"

end
