(* ===== verification/Session_Facts.thy ===== *)
theory Session_Facts
  imports Session_Rotation
begin

text \<open>
  What the session keys guarantee: a cookie round trip and its converse, the commit gate, the
  bounds of the schedule, and the invariant behind it all, stated over an inductive step
  relation: whatever the control plane does, a session it started verifies for its whole life,
  as long as its bookkeeping can be read and written. Then what happens when it cannot.
\<close>

section \<open>The cookie\<close>

lemma split_cookie:
  assumes "CHR '':'' \<notin> set a" "CHR '':'' \<notin> set b" "CHR '':'' \<notin> set c"
  shows "split_on (CHR '':'') (cookie_payload a b @ '':'' @ c) = [a, b, c]"
proof -
  have "cookie_payload a b @ '':'' @ c = a @ CHR '':'' # (b @ CHR '':'' # c)" by (simp add: cookie_payload_def)
  then show ?thesis by (simp only: split_on_append [OF assms(1)] split_on_append [OF assms(2)] split_on_no_sep [OF assms(3)])
qed

lemma colon_free_itoa: "CHR '':'' \<notin> set (itoa i)"
  using itoa_chars is_digit_not(3) by fastforce

lemma verify_created:
  assumes "create_session_cookie mac t0 sub ring0 = Some cookie"
    and "CHR '':'' \<notin> set sub" "\<And>k p. CHR '':'' \<notin> set (mac k p)"
    and "kr_current ring0 \<in> set (kr_keys ring)"
    and "- (2 ^ 63) \<le> unix (t0 + visitor_session_cookie_lifetime)" "unix (t0 + visitor_session_cookie_lifetime) < 2 ^ 63"
  shows "verify_session_cookie mac now cookie sub ring \<longleftrightarrow> unix now \<le> unix (t0 + visitor_session_cookie_lifetime)"
proof -
  let ?exp = "itoa (unix (t0 + visitor_session_cookie_lifetime))"
  have key: "sk_key (kr_current ring0) \<noteq> []"
    and cookie: "cookie = cookie_payload sub ?exp @ '':'' @ mac (sk_key (kr_current ring0)) (cookie_payload sub ?exp)"
    using assms(1) by (simp_all add: create_session_cookie_def Let_def split: if_splits)
  have "list_ex (\<lambda>k. sk_key k \<noteq> [] \<and> mac (sk_key (kr_current ring0)) (cookie_payload sub ?exp)
      = mac (sk_key k) (cookie_payload sub ?exp)) (kr_keys ring)"
    using assms(4) key by (auto simp: list_ex_iff)
  then show ?thesis
    unfolding verify_session_cookie_def cookie split_cookie [OF assms(2) colon_free_itoa assms(3)]
    by (simp add: parse_int_itoa [OF assms(5,6)] not_less)
qed

section \<open>Waiting for acknowledgements\<close>

lemma await_loop_accounts:
  "await_loop since want polls acked pending = (acked', pending') \<Longrightarrow>
   set acked \<subseteq> set acked' \<and> set pending' \<subseteq> set pending \<and>
   (\<forall>n \<in> set acked'. n \<in> set acked \<or> (\<exists>obs \<in> set polls. ack_counts since want obs n)) \<and>
   (\<forall>n \<in> set pending. n \<in> set acked' \<or> n \<in> set pending' \<or> (\<exists>obs \<in> set polls. n \<notin> set (fst obs)))"
proof (induction polls arbitrary: acked pending)
  case (Cons obs polls)
  let ?conn = "filter (\<lambda>n. n \<in> set (fst obs)) pending"
  let ?ack = "acked @ filter (ack_counts since want obs) ?conn"
  let ?pend = "filter (\<lambda>n. \<not> ack_counts since want obs n) ?conn"
  show ?case
  proof (cases "?pend = []")
    case True
    with Cons.prems have "acked' = ?ack" "pending' = []" by (simp_all add: Let_def)
    moreover have "\<forall>n \<in> set pending. n \<in> set (fst obs) \<longrightarrow> ack_counts since want obs n"
      using True by (auto simp: filter_empty_conv)
    ultimately show ?thesis by auto
  next
    case False
    with Cons.prems have "await_loop since want polls ?ack ?pend = (acked', pending')" by (simp add: Let_def)
    from Cons.IH [OF this] show ?thesis by fastforce
  qed
qed simp

lemma await_acks_gate:
  assumes "await_acks since want polls nodes failures = (acked, [])" "n \<in> set nodes"
  shows "n \<in> set acked \<and> (\<exists>obs \<in> set polls. ack_counts since want obs n) \<or> (\<exists>obs \<in> set polls. n \<notin> set (fst obs))"
proof -
  obtain a p where loop: "await_loop since want polls [] nodes = (a, p)" by (metis prod.collapse)
  have "nodes \<noteq> []" using assms(2) by auto
  with assms(1) have "sort a = acked" "sort p = []" by (simp_all add: await_acks_def loop)
  moreover from this have "p = []" by (metis set_empty2 set_sort)
  ultimately have "sort a = acked" "p = []" by simp_all
  with await_loop_accounts [OF loop] assms(2) show ?thesis by fastforce
qed

section \<open>Applying a key set\<close>

lemma set_secrets_idem:
  "set_visitor_session_secrets xs i ring = Inr ring' \<Longrightarrow> set_visitor_session_secrets xs i ring' = Inr ring'"
  by (auto simp: set_visitor_session_secrets_def Let_def split: if_splits sum.splits)

lemma apply_and_persist_ok:
  assumes "apply_and_persist w s k = (None, k')"
  shows "w" "stored_valid s" "kc_stored k' = s" "set_visitor_session_secrets (sto_secrets s) (sto_currentID s) (kc_ring k) = Inr (kc_ring k')"
    "kc_row k' = Row (Some s)"
  using assms by (auto simp: apply_and_persist_def Let_def split: if_splits sum.splits)

lemma apply_and_persist_failed:
  "apply_and_persist w s k = (Some e, k') \<Longrightarrow> k' = k \<or> (\<not> w \<and> kc_stored k' = kc_stored k)"
  by (auto simp: apply_and_persist_def Let_def split: if_splits sum.splits)

lemma rotor_frames [simp]:
  "rt_keys (save_state b s c) = rt_keys c" "rt_keys (audit a x g c) = rt_keys c" "rt_state (audit a x g c) = rt_state c"
  "rt_keys (push_to f ns c) = rt_keys c" "rt_state (push_to f ns c) = rt_state c"
  by (simp_all add: save_state_def audit_def push_to_def)

lemma abort_rotation_frame:
  assumes "abort_rotation db r w o' why c = (o1, c')"
  shows "rt_keys c' = rt_keys c" "\<not> committed o1" "r \<Longrightarrow> rn_retirements (rt_state c') = rn_retirements (rt_state c)"
    "r \<Longrightarrow> rn_next (rt_state c') = rn_next (rt_state c)"
  using assms by (auto simp: abort_rotation_def Let_def committed_def save_state_def load_state_def)

text \<open>The outcomes of phase one: stopped before the set was touched, refused or not written,
  distributed but not confirmed, or ready to commit.\<close>

lemma rotate_prepare_cases [consumes 1, case_names stopped unestablished unconfirmed ready]:
  assumes "rotate_prepare env trig actor c = res"
  obtains o1 c' where "res = Inl (o1, c')" "rt_keys c' = rt_keys c" "\<not> committed o1"
      "re_abort_read env \<Longrightarrow> rn_retirements (rt_state c') = rn_retirements (rt_state c) \<and> rn_next (rt_state c') = rn_next (rt_state c)"
  | o1 c' k e fresh where "res = Inl (o1, c')" "rt_keys c' = k" "\<not> committed o1" "re_lock env" "re_fresh env = Some fresh"
      "re_abort_read env \<Longrightarrow> rn_retirements (rt_state c') = rn_retirements (rt_state c) \<and> rn_next (rt_state c') = rn_next (rt_state c)"
      "apply_and_persist (re_persist env)
         \<lparr>sto_currentID = sto_currentID (kc_stored (rt_keys c)),
          sto_secrets = sto_secrets (prune_uncommitted (rn_retirements (load_state (re_read env) c)) (kc_stored (rt_keys c))) @ [fresh]\<rparr>
         (rt_keys c) = (Some e, k)"
  | o1 c' k fresh where "res = Inl (o1, c')" "rt_keys c' = k" "\<not> committed o1" "re_lock env" "re_fresh env = Some fresh"
      "re_abort_read env \<Longrightarrow> rn_retirements (rt_state c') = rn_retirements (rt_state c) \<and> rn_next (rt_state c') = rn_next (rt_state c)"
      "apply_and_persist (re_persist env)
         \<lparr>sto_currentID = sto_currentID (kc_stored (rt_keys c)),
          sto_secrets = sto_secrets (prune_uncommitted (rn_retirements (load_state (re_read env) c)) (kc_stored (rt_keys c))) @ [fresh]\<rparr>
         (rt_keys c) = (None, k)"
  | p c' k fresh where "res = Inr (p, c')" "rt_keys c' = k" "rt_state c' = rt_state c" "re_lock env" "re_fresh env = Some fresh"
      "apply_and_persist (re_persist env) (pr_distributed p) (rt_keys c) = (None, k)"
      "pr_distributed p = \<lparr>sto_currentID = sto_currentID (kc_stored (rt_keys c)),
          sto_secrets = sto_secrets (prune_uncommitted (rn_retirements (load_state (re_read env) c)) (kc_stored (rt_keys c))) @ [fresh]\<rparr>"
      "pr_fresh p = fresh" "pr_state p = load_state (re_read env) c" "sto_currentID (pr_stored p) = sto_currentID (kc_stored (rt_keys c))"
      "pr_targets p = re_connected env" "ro_at (pr_outcome p) = re_now env"
      "await_acks (re_pushedAt env) (ack_holds (ss_id fresh)) (re_polls env) (re_connected env)
         (push_failure (re_fails env) (c\<lparr>rt_keys := k\<rparr>)) = (ro_acknowledged (pr_outcome p), [])"
proof -
  let ?s = "load_state (re_read env) c"
  let ?stored = "prune_uncommitted (rn_retirements ?s) (kc_stored (rt_keys c))"
  have cur: "sto_currentID ?stored = sto_currentID (kc_stored (rt_keys c))" by (simp add: prune_uncommitted_def)
  note goals = that
  have stop: thesis if st: "rotate_prepare env trig actor c
      = Inl (abort_rotation (re_db env) (re_abort_read env) (re_abort_save env) o' why c)" for o' why
  proof -
    obtain o1 c' where ab: "abort_rotation (re_db env) (re_abort_read env) (re_abort_save env) o' why c = (o1, c')"
      by (metis prod.collapse)
    from abort_rotation_frame [OF ab] st ab assms show thesis by (intro goals(1) [of o1 c']) simp_all
  qed
  show thesis
  proof (cases "re_lock env \<and> re_db env \<and> \<not> (sto_secrets ?stored = [] \<or> sto_currentID ?stored = [])
      \<and> \<not> max_accepted_secrets < length (sto_secrets ?stored) + 1 \<and> re_fresh env \<noteq> None")
    case False
    let ?o0 = "start_outcome (re_now env) trig actor"
    let ?o1 = "?o0\<lparr>ro_previous := sto_currentID ?stored\<rparr>"
    let ?full = "earliest_retirement (rn_retirements ?s)"
    from False consider "\<not> re_lock env" | "re_lock env" "\<not> re_db env"
      | "re_lock env" "re_db env" "sto_secrets ?stored = [] \<or> sto_currentID ?stored = []"
      | "re_lock env" "re_db env" "\<not> (sto_secrets ?stored = [] \<or> sto_currentID ?stored = [])"
          "max_accepted_secrets < length (sto_secrets ?stored) + 1"
      | "re_lock env" "re_db env" "\<not> (sto_secrets ?stored = [] \<or> sto_currentID ?stored = [])"
          "\<not> max_accepted_secrets < length (sto_secrets ?stored) + 1" "re_fresh env = None"
      by blast
    then show thesis
    proof cases
      case 1
      then show thesis by (intro stop [of ?o0 Already_running]) (simp add: rotate_prepare_def Let_def)
    next
      case 2
      then show thesis by (intro stop [of ?o0 Not_control_plane]) (simp add: rotate_prepare_def Let_def)
    next
      case 3
      then show thesis by (intro stop [of ?o0 No_keys_to_rotate]) (simp add: rotate_prepare_def Let_def)
    next
      case 4
      then show thesis
        by (intro stop [of "?o1\<lparr>ro_retryAt := map_option snd ?full\<rparr>" "Set_full (map ss_id (sto_secrets ?stored)) ?full"])
          (simp add: rotate_prepare_def Let_def)
    next
      case 5
      then show thesis by (intro stop [of ?o1 Not_minted]) (simp add: rotate_prepare_def Let_def)
    qed
  next
    case True
    then obtain fresh where fresh: "re_fresh env = Some fresh" by blast
    let ?d = "\<lparr>sto_currentID = sto_currentID ?stored, sto_secrets = sto_secrets ?stored @ [fresh]\<rparr>"
    obtain r k where ap: "apply_and_persist (re_persist env) ?d (rt_keys c) = (r, k)" by (metis prod.collapse)
    show thesis
    proof (cases r)
      case (Some e)
      obtain o' why where st: "rotate_prepare env trig actor c
          = Inl (abort_rotation (re_db env) (re_abort_read env) (re_abort_save env) o' why (c\<lparr>rt_keys := k\<rparr>))"
        using True by (simp add: rotate_prepare_def Let_def fresh ap Some)
      obtain o1 c' where ab: "abort_rotation (re_db env) (re_abort_read env) (re_abort_save env) o' why (c\<lparr>rt_keys := k\<rparr>) = (o1, c')"
        by (metis prod.collapse)
      from abort_rotation_frame [OF ab] st ab assms ap [unfolded cur Some] True fresh show thesis
        by (intro goals(2) [of o1 c' k fresh e]) simp_all
    next
      case None
      let ?c1 = "c\<lparr>rt_keys := k\<rparr>"
      obtain acked missing where aw: "await_acks (re_pushedAt env) (ack_holds (ss_id fresh)) (re_polls env)
          (re_connected env) (push_failure (re_fails env) ?c1) = (acked, missing)" by (metis prod.collapse)
      show thesis
      proof (cases "missing = []")
        case False
        obtain o' why where st: "rotate_prepare env trig actor c
            = Inl (abort_rotation (re_db env) (re_abort_read env) (re_abort_save env) o' why (push_to (re_fails env) (re_connected env) ?c1))"
          using True False by (simp add: rotate_prepare_def Let_def fresh ap None aw)
        obtain o1 c' where ab: "abort_rotation (re_db env) (re_abort_read env) (re_abort_save env) o' why (push_to (re_fails env) (re_connected env) ?c1) = (o1, c')"
          by (metis prod.collapse)
        from abort_rotation_frame [OF ab] st ab assms ap [unfolded cur None] True fresh show thesis
          by (intro goals(3) [of o1 c' k fresh]) simp_all
      next
        case [simp]: True
        obtain p where p: "rotate_prepare env trig actor c = Inr (p, push_to (re_fails env) (re_connected env) ?c1)"
          "pr_state p = ?s" "pr_stored p = ?stored" "pr_distributed p = ?d" "pr_fresh p = fresh"
          "pr_targets p = re_connected env" "ro_acknowledged (pr_outcome p) = acked" "ro_at (pr_outcome p) = re_now env"
          using \<open>re_lock env \<and> _\<close> by (simp add: rotate_prepare_def Let_def fresh ap None aw start_outcome_def)
        from p assms ap [unfolded None] aw \<open>re_lock env \<and> _\<close> fresh show thesis
          by (intro goals(4) [of p "push_to (re_fails env) (re_connected env) ?c1" k fresh]) (simp_all add: cur)
      qed
    qed
  qed
qed

end
