(* ===== verification/Session_Survival.thy ===== *)
theory Session_Survival
  imports Session_Facts
begin

text \<open>
  The step relation of the control plane's signing keys: cookies are minted at any moment, also
  while a rotation waits for acknowledgements, and the engine's operations run one at a time
  under the rotation lock. The invariant says that every session still alive verifies.
\<close>

section \<open>The steps\<close>

record key_world =
  kw_rotor :: rotor
  kw_minted :: "(session_key \<times> time) list"
  kw_pending :: "prepared option"
  kw_clock :: time

abbreviation ring_of :: "key_world \<Rightarrow> keyring" where "ring_of w \<equiv> kc_ring (rt_keys (kw_rotor w))"
abbreviation stored_of :: "key_world \<Rightarrow> stored_secrets" where "stored_of w \<equiv> kc_stored (rt_keys (kw_rotor w))"
abbreviation retirements_of :: "key_world \<Rightarrow> (string, time) table" where
  "retirements_of w \<equiv> rn_retirements (rt_state (kw_rotor w))"

text \<open>A freshly minted generation: well-formed, under an id never used before.\<close>

definition fresh_secret :: "key_world \<Rightarrow> session_secret \<Rightarrow> bool" where
  "fresh_secret w s \<longleftrightarrow> secret_well_formed s \<and> ss_id s \<noteq> node_local_session_key_id \<and>
     ss_id s \<notin> set (map ss_id (sto_secrets (stored_of w))) \<and> get (retirements_of w) (ss_id s) = None"

text \<open>A rotation whose reads and writes of the database succeed.\<close>

definition reliable_rotation :: "key_world \<Rightarrow> rotate_env \<Rightarrow> bool" where
  "reliable_rotation w env \<longleftrightarrow> re_read env \<and> re_persist env \<and> re_abort_read env \<and>
     (\<forall>s. re_fresh env = Some s \<longrightarrow> fresh_secret w s)"

text \<open>A restart: the process comes up with a ring of its own and a new bootstrap key, or none where the
  random source fails, and reads the rows back. A rotation that was waiting is forgotten.\<close>

definition restarted :: "nat list option \<Rightarrow> session_secret option \<Rightarrow> rotor \<Rightarrow> rotor" where
  "restarted boot fresh c =
     c\<lparr>rt_keys := init_secrets True True fresh
          \<lparr>kc_row = kc_row (rt_keys c), kc_stored = no_secrets, kc_ring = new_keyring boot\<rparr>,
       rt_sent := []\<rparr>"

inductive key_step :: "key_world \<Rightarrow> key_world \<Rightarrow> bool" where
  mint: "kw_clock w \<le> t \<Longrightarrow> sk_key (kr_current (ring_of w)) \<noteq> [] \<Longrightarrow>
    key_step w (w\<lparr>kw_minted := (kr_current (ring_of w), t) # kw_minted w, kw_clock := t\<rparr>)"
| wait: "kw_clock w \<le> t \<Longrightarrow> key_step w (w\<lparr>kw_clock := t\<rparr>)"
| retire: "kw_pending w = None \<Longrightarrow> kw_clock w \<le> sw_now env \<Longrightarrow> sw_read env \<Longrightarrow> sw_persist env \<Longrightarrow>
    key_step w (w\<lparr>kw_rotor := retire_generations env (kw_rotor w), kw_clock := sw_now env\<rparr>)"
| abort: "kw_clock w \<le> re_now env \<Longrightarrow> reliable_rotation w env \<Longrightarrow> (kw_pending w = None \<longleftrightarrow> re_lock env) \<Longrightarrow>
    rotate_prepare env trig actor (kw_rotor w) = Inl (o', c) \<Longrightarrow>
    key_step w (w\<lparr>kw_rotor := c, kw_clock := re_now env\<rparr>)"
| prepare: "kw_clock w \<le> re_now env \<Longrightarrow> reliable_rotation w env \<Longrightarrow> (kw_pending w = None \<longleftrightarrow> re_lock env) \<Longrightarrow>
    rotate_prepare env trig actor (kw_rotor w) = Inr (p, c) \<Longrightarrow>
    key_step w (w\<lparr>kw_rotor := c, kw_pending := Some p, kw_clock := re_now env\<rparr>)"
| finish: "kw_pending w = Some p \<Longrightarrow> kw_clock w \<le> t \<Longrightarrow> t + second \<le> ro_at (pr_outcome p) + rotation_interval \<Longrightarrow>
    ce_persist env \<Longrightarrow> ce_save env \<Longrightarrow>
    key_step w (w\<lparr>kw_rotor := snd (rotate_finish env p (kw_rotor w)), kw_pending := None, kw_clock := t\<rparr>)"
| anchor: "kw_clock w \<le> now \<Longrightarrow> key_step w (w\<lparr>kw_rotor := init_rotation True True now (kw_rotor w), kw_clock := now\<rparr>)"
| advance: "kw_clock w \<le> now \<Longrightarrow>
    key_step w (w\<lparr>kw_rotor := save_state True ((rt_state (kw_rotor w))\<lparr>rn_next := Some (now + rotation_interval)\<rparr>) (kw_rotor w),
                  kw_clock := now\<rparr>)"
| reschedule: "kw_clock w \<le> now \<Longrightarrow>
    key_step w (w\<lparr>kw_rotor := reschedule_after True True o' now (kw_rotor w), kw_clock := now\<rparr>)"
| restart: "kw_clock w \<le> now \<Longrightarrow>
    key_step w (w\<lparr>kw_rotor := restarted boot fresh (kw_rotor w), kw_pending := None, kw_clock := now\<rparr>)"

inductive_cases key_stepE: "key_step w w'"

text \<open>A control plane on its first start, with the random source and the database working.\<close>

definition first_start :: "nat list \<Rightarrow> session_secret \<Rightarrow> time \<Rightarrow> key_world" where
  "first_start boot fresh now =
     \<lparr>kw_rotor = \<lparr>rt_keys = init_secrets True True (Some fresh)
          \<lparr>kc_row = No_row, kc_stored = no_secrets, kc_ring = new_keyring (Some boot)\<rparr>,
        rt_state = zero_state, rt_sent = [], rt_audit = []\<rparr>,
      kw_minted = [], kw_pending = None, kw_clock = now\<rparr>"

inductive key_reachable :: "nat list \<Rightarrow> key_world \<Rightarrow> bool" for boot where
  start: "secret_well_formed fresh \<Longrightarrow> ss_id fresh \<noteq> node_local_session_key_id \<Longrightarrow>
    key_reachable boot (first_start boot fresh now)"
| step: "key_reachable boot w \<Longrightarrow> key_step w w' \<Longrightarrow> key_reachable boot w'"

section \<open>The invariant\<close>

text \<open>The last second in which a cookie minted at \<open>t\<close> is accepted has not passed.\<close>

definition session_alive :: "time \<Rightarrow> time \<Rightarrow> bool" where
  "session_alive now t \<longleftrightarrow> unix now \<le> unix (t + visitor_session_cookie_lifetime)"

text \<open>The key belongs to a generation that is minting or that retires only after the session has
  ended. The node's own key never qualifies: it would not outlive a restart, and nothing is
  signed with it once the stored set is loaded.\<close>

definition key_held :: "stored_secrets \<Rightarrow> (string, time) table \<Rightarrow> session_key \<Rightarrow> time \<Rightarrow> bool" where
  "key_held s m k t \<longleftrightarrow>
     (\<exists>x \<in> set (sto_secrets s). decode_secret x = Inr k \<and>
        (ss_id x = sto_currentID s \<or>
         (\<exists>at. get m (ss_id x) = Some at \<and> t + visitor_session_cookie_lifetime + second \<le> at)))"

definition keys_consistent :: "stored_secrets \<Rightarrow> keyring \<Rightarrow> bool" where
  "keys_consistent s ring \<longleftrightarrow> stored_valid s \<and>
     (\<forall>x \<in> set (sto_secrets s). ss_id x \<noteq> node_local_session_key_id) \<and>
     set_visitor_session_secrets (sto_secrets s) (sto_currentID s) ring = Inr ring"

definition minted_held :: "stored_secrets \<Rightarrow> (string, time) table \<Rightarrow> key_world \<Rightarrow> bool" where
  "minted_held s m w \<longleftrightarrow>
     (\<forall>(k, t) \<in> set (kw_minted w). t \<le> kw_clock w \<and> (session_alive (kw_clock w) t \<longrightarrow> key_held s m k t))"

definition pending_matches :: "key_world \<Rightarrow> bool" where
  "pending_matches w \<longleftrightarrow>
     (\<forall>p. kw_pending w = Some p \<longrightarrow> stored_of w = pr_distributed p \<and>
        rn_retirements (pr_state p) = retirements_of w \<and> sto_currentID (pr_stored p) = sto_currentID (stored_of w) \<and>
        pr_fresh p \<in> set (sto_secrets (pr_distributed p)))"

definition key_invariant :: "key_world \<Rightarrow> bool" where
  "key_invariant w \<longleftrightarrow> keys_consistent (stored_of w) (ring_of w) \<and> is_table (retirements_of w) \<and>
     minted_held (stored_of w) (retirements_of w) w \<and> pending_matches w \<and>
     kc_row (rt_keys (kw_rotor w)) = Row (Some (stored_of w))"

lemma second_pos: "0 < second" by simp

lemma alive_earlier: "session_alive now t \<Longrightarrow> now' \<le> now \<Longrightarrow> session_alive now' t"
  unfolding session_alive_def using unix_mono order_trans by blast

lemma alive_before_retirement:
  assumes "session_alive now t" "t + visitor_session_cookie_lifetime + second \<le> at"
  shows "now < at"
proof (rule ccontr)
  assume "\<not> now < at"
  then have "unix (t + visitor_session_cookie_lifetime + second) \<le> unix now"
    using assms(2) by (intro unix_mono) simp
  moreover have "unix (t + visitor_session_cookie_lifetime + second) = unix (t + visitor_session_cookie_lifetime) + 1"
    unfolding unix_def using second_pos by (simp only: div_add_self2 less_irrefl)
  ultimately show False using assms(1) by (simp add: session_alive_def)
qed

lemma minted_held_mono:
  assumes "minted_held s m w" "kw_minted w' = kw_minted w" "kw_clock w \<le> kw_clock w'"
    and "\<And>k t. session_alive (kw_clock w') t \<Longrightarrow> t \<le> kw_clock w \<Longrightarrow> key_held s m k t \<Longrightarrow> key_held s' m' k t"
  shows "minted_held s' m' w'"
  unfolding minted_held_def assms(2)
proof (intro ballI)
  fix e assume e: "e \<in> set (kw_minted w)"
  obtain k t where kt: "e = (k, t)" by (cases e)
  have old: "t \<le> kw_clock w \<and> (session_alive (kw_clock w) t \<longrightarrow> key_held s m k t)"
    using assms(1) e kt unfolding minted_held_def by blast
  then show "case e of (k, t) \<Rightarrow> t \<le> kw_clock w' \<and> (session_alive (kw_clock w') t \<longrightarrow> key_held s' m' k t)"
    using assms(3,4) alive_earlier [of "kw_clock w'" t "kw_clock w"] kt by auto
qed

lemma key_held_accepted:
  assumes "keys_consistent s ring" "key_held s m k t"
  shows "k \<in> set (kr_keys ring) \<and> sk_key k \<noteq> []"
proof -
  have set: "set_visitor_session_secrets (sto_secrets s) (sto_currentID s) ring = Inr ring"
    using assms(1) by (simp add: keys_consistent_def)
  obtain keys where keys: "decode_secrets (sto_secrets s) = Inr keys"
    "kr_keys ring = (if sk_key (kr_bootstrap ring) \<noteq> [] then keys @ [kr_bootstrap ring] else keys)"
    using set_secrets_ring [OF set] by (auto split: if_splits)
  obtain x where x: "x \<in> set (sto_secrets s)" "decode_secret x = Inr k"
    using assms(2) by (auto simp: key_held_def)
  then have "Inr k \<in> set (map decode_secret (sto_secrets s))" by (metis imageI image_set)
  then have "k \<in> set keys" unfolding decode_secrets_map [OF keys(1), symmetric] by auto
  moreover have "sk_key k \<noteq> []" using decode_secrets_lengths [OF keys(1)] \<open>k \<in> set keys\<close> by fastforce
  ultimately show ?thesis using keys(2) by auto
qed

text \<open>The ring mints with the generation the stored set names.\<close>

lemma current_held:
  assumes "keys_consistent s ring"
  shows "key_held s m (kr_current ring) t"
proof -
  have set: "set_visitor_session_secrets (sto_secrets s) (sto_currentID s) ring = Inr ring"
    using assms(1) by (simp add: keys_consistent_def)
  obtain keys where keys: "decode_secrets (sto_secrets s) = Inr keys" "kr_current ring \<in> set keys"
    "sk_id (kr_current ring) = sto_currentID s"
    using set_secrets_ring [OF set] by auto
  have "Inr (kr_current ring) \<in> set (map decode_secret (sto_secrets s))"
    unfolding decode_secrets_map [OF keys(1), symmetric] using keys(2) by simp
  then obtain x where x: "x \<in> set (sto_secrets s)" "decode_secret x = Inr (kr_current ring)" by (metis imageE image_set)
  with decode_secret_id [OF x(2)] keys(3) show ?thesis by (auto simp: key_held_def)
qed

lemma applied_consistent:
  assumes "apply_and_persist w s k = (None, k')" "\<forall>x \<in> set (sto_secrets s). ss_id x \<noteq> node_local_session_key_id"
  shows "keys_consistent s (kc_ring k')" "kc_stored k' = s" "kc_row k' = Row (Some s)"
  using apply_and_persist_ok [OF assms(1)] assms(2) set_secrets_idem
  by (auto simp: keys_consistent_def)

section \<open>Every step keeps it\<close>

lemma key_invariant_intro:
  assumes "key_invariant w" "kw_minted w' = kw_minted w" "kw_clock w \<le> kw_clock w'"
    and "keys_consistent (stored_of w') (ring_of w')" "is_table (retirements_of w')" "pending_matches w'"
    and "kc_row (rt_keys (kw_rotor w')) = Row (Some (stored_of w'))"
    and "\<And>k t. session_alive (kw_clock w') t \<Longrightarrow> t \<le> kw_clock w \<Longrightarrow>
      key_held (stored_of w) (retirements_of w) k t \<Longrightarrow>
      key_held (stored_of w') (retirements_of w') k t"
  shows "key_invariant w'"
  using assms minted_held_mono [of "stored_of w" "retirements_of w" w w' "stored_of w'" "retirements_of w'"]
  by (simp add: key_invariant_def)

text \<open>A step that leaves keys and retirements alone.\<close>

lemma key_invariant_frame:
  assumes "key_invariant w" "kw_minted w' = kw_minted w" "kw_clock w \<le> kw_clock w'" "kw_pending w' = kw_pending w"
    and "rt_keys (kw_rotor w') = rt_keys (kw_rotor w)" "retirements_of w' = retirements_of w"
  shows "key_invariant w'"
  by (rule key_invariant_intro [OF assms(1-3)])
    (use assms in \<open>simp_all add: key_invariant_def pending_matches_def\<close>)

lemma prune_held:
  "key_held s m k t \<Longrightarrow>
   key_held \<lparr>sto_currentID = sto_currentID s, sto_secrets = sto_secrets (prune_uncommitted m s) @ [x]\<rparr> m k t"
  unfolding key_held_def prune_uncommitted_def by fastforce

text \<open>Phase one, however it ends.\<close>

lemma rotate_prepare_keeps:
  assumes "key_invariant w" "kw_clock w \<le> re_now env" "reliable_rotation w env" "kw_pending w = None \<longleftrightarrow> re_lock env"
    and "rotate_prepare env trig actor (kw_rotor w) = res"
  shows "res = Inl (o', c) \<Longrightarrow> key_invariant (w\<lparr>kw_rotor := c, kw_clock := re_now env\<rparr>)"
    and "res = Inr (p, c) \<Longrightarrow> key_invariant (w\<lparr>kw_rotor := c, kw_pending := Some p, kw_clock := re_now env\<rparr>)"
proof -
  have ok: "re_read env" "re_persist env" "re_abort_read env" using assms(3) by (auto simp: reliable_rotation_def)
  have load: "load_state (re_read env) (kw_rotor w) = rt_state (kw_rotor w)" by (simp add: load_state_def ok)
  let ?d = "\<lambda>fresh. \<lparr>sto_currentID = sto_currentID (stored_of w),
     sto_secrets = sto_secrets (prune_uncommitted (retirements_of w) (stored_of w)) @ [fresh]\<rparr>"
  have ids: "\<forall>x \<in> set (sto_secrets (?d fresh)). ss_id x \<noteq> node_local_session_key_id" if "re_fresh env = Some fresh" for fresh
    using assms(1,3) that
    by (auto simp: key_invariant_def keys_consistent_def reliable_rotation_def fresh_secret_def prune_uncommitted_def)
  have distributed: "key_invariant (w\<lparr>kw_rotor := c, kw_pending := q, kw_clock := re_now env\<rparr>)"
    if "re_fresh env = Some fresh" "rt_keys c = k" "rn_retirements (rt_state c) = retirements_of w"
      "apply_and_persist (re_persist env) (?d fresh) (rt_keys (kw_rotor w)) = (None, k)"
      "pending_matches (w\<lparr>kw_rotor := c, kw_pending := q, kw_clock := re_now env\<rparr>)" for fresh k q
  proof -
    note ap = applied_consistent [OF that(4) ids [OF that(1)]]
    let ?w = "w\<lparr>kw_rotor := c, kw_pending := q, kw_clock := re_now env\<rparr>"
    have eqs: "stored_of ?w = ?d fresh" "ring_of ?w = kc_ring k" "retirements_of ?w = retirements_of w"
      using that(2,3) ap(2) by simp_all
    show ?thesis
    proof (rule key_invariant_intro [OF assms(1)])
      show "keys_consistent (stored_of ?w) (ring_of ?w)" unfolding eqs by (rule ap(1))
      show "is_table (retirements_of ?w)" unfolding eqs using assms(1) by (simp add: key_invariant_def)
      show "pending_matches ?w" by (rule that(5))
      fix k' t assume "key_held (stored_of w) (retirements_of w) k' t"
      from prune_held [OF this, of fresh]
      show "key_held (stored_of ?w) (retirements_of ?w) k' t"
        unfolding eqs .
    qed (use that(2) ap(2,3) in \<open>simp_all add: assms(2)\<close>)
  qed
  have stay: "w\<lparr>kw_rotor := c, kw_clock := re_now env\<rparr> = w\<lparr>kw_rotor := c, kw_pending := kw_pending w, kw_clock := re_now env\<rparr>"
    by simp
  show "key_invariant (w\<lparr>kw_rotor := c, kw_clock := re_now env\<rparr>)" if "res = Inl (o', c)"
    using assms(5)
  proof (cases rule: rotate_prepare_cases)
    case (stopped o1 c')
    then show ?thesis using that ok(3) by (intro key_invariant_frame [OF assms(1)]) (simp_all add: assms(2))
  next
    case (unestablished o1 c' k e fresh)
    then have "rt_keys c = rt_keys (kw_rotor w)" using that ok(2) apply_and_persist_failed by fastforce
    then show ?thesis using unestablished that ok(3)
      by (intro key_invariant_frame [OF assms(1)]) (simp_all add: assms(2))
  next
    case (unconfirmed o1 c' k fresh)
    then have "kw_pending w = None" using assms(4) by simp
    then show ?thesis unfolding stay
      by (intro distributed [of fresh k]) (use unconfirmed that ok(3) in \<open>simp_all add: load pending_matches_def\<close>)
  qed (use that in simp)
  show "key_invariant (w\<lparr>kw_rotor := c, kw_pending := Some p, kw_clock := re_now env\<rparr>)" if "res = Inr (p, c)"
    using assms(5)
  proof (cases rule: rotate_prepare_cases)
    case (ready q c' k fresh)
    then have eqs: "q = p" "c' = c" using that by simp_all
    have ap: "apply_and_persist (re_persist env) (?d fresh) (rt_keys (kw_rotor w)) = (None, k)"
      using ready by (simp add: load)
    show ?thesis
      by (rule distributed [of fresh k])
        (use ready eqs ap apply_and_persist_ok(3) [OF ap] in \<open>simp_all add: load pending_matches_def\<close>)
  qed (use that in simp_all)
qed

lemma rotate_finish_keeps:
  assumes "key_invariant w" "kw_pending w = Some p" "kw_clock w \<le> t" "t + second \<le> ro_at (pr_outcome p) + rotation_interval"
    and "ce_persist env" "ce_save env"
  shows "key_invariant (w\<lparr>kw_rotor := snd (rotate_finish env p (kw_rotor w)), kw_pending := None, kw_clock := t\<rparr>)"
proof -
  have p: "stored_of w = pr_distributed p" "rn_retirements (pr_state p) = retirements_of w"
    "sto_currentID (pr_stored p) = sto_currentID (stored_of w)" "pr_fresh p \<in> set (sto_secrets (pr_distributed p))"
    using assms(1,2) by (simp_all add: key_invariant_def pending_matches_def)
  let ?s = "\<lparr>sto_currentID = ss_id (pr_fresh p), sto_secrets = sto_secrets (pr_distributed p)\<rparr>"
  have valid: "stored_valid (stored_of w)" and ids: "\<forall>x \<in> set (sto_secrets ?s). ss_id x \<noteq> node_local_session_key_id"
    using assms(1) p(1) by (simp_all add: key_invariant_def keys_consistent_def)
  have "ss_id (pr_fresh p) \<noteq> []"
    using valid p(1,4) by (auto simp: stored_valid_def list_all_iff secret_well_formed_def)
  then have vs: "stored_valid ?s" using valid p(1,4) by (auto simp: stored_valid_def list_ex_iff)
  obtain ring where "set_visitor_session_secrets (sto_secrets ?s) (sto_currentID ?s) (ring_of w) = Inr ring"
    using set_secrets_accepts [OF vs ids] by blast
  then obtain k where ap: "apply_and_persist (ce_persist env) ?s (rt_keys (kw_rotor w)) = (None, k)"
    using vs assms(5) by (simp add: apply_and_persist_def Let_def)
  let ?c = "snd (rotate_finish env p (kw_rotor w))"
  let ?at = "ro_at (pr_outcome p) + retirement_lag"
  have c: "rt_keys ?c = k" "rn_retirements (rt_state ?c) = put (sto_currentID (stored_of w)) ?at (retirements_of w)"
    using assms(6) p(2,3) by (simp_all add: rotate_finish_def ap Let_def save_state_def)
  note cons = applied_consistent [OF ap ids]
  show ?thesis
  proof (rule key_invariant_intro [OF assms(1)])
    fix k' t' assume "t' \<le> kw_clock w" "key_held (stored_of w) (retirements_of w) k' t'"
    moreover have "t' + visitor_session_cookie_lifetime + second \<le> ?at"
      using calculation(1) assms(3,4) by (simp add: retirement_lag_def)
    ultimately show "key_held (stored_of (w\<lparr>kw_rotor := ?c, kw_pending := None, kw_clock := t\<rparr>))
        (retirements_of (w\<lparr>kw_rotor := ?c, kw_pending := None, kw_clock := t\<rparr>))
        k' t'"
      using p(1) by (auto simp: key_held_def c cons table_simps)
  qed (use assms(1,3) c cons in \<open>simp_all add: key_invariant_def pending_matches_def\<close>)
qed

lemma get_forget_all: "get (forget_all ids m) i = (if i \<in> set ids then None else get m i)"
  by (induction ids arbitrary: m) (simp_all add: forget_all_def table_simps)

lemma is_table_forget_all: "is_table m \<Longrightarrow> is_table (forget_all ids m)"
  by (induction ids arbitrary: m) (simp_all add: forget_all_def)

lemma not_due:
  assumes "is_table m" "i = current \<or> (\<exists>at. get m i = Some at \<and> now < at)"
  shows "i \<notin> set (due_generations now current m)"
  using assms by (auto simp: due_generations_def get_in_set)

lemma retire_keeps:
  assumes "key_invariant w" "kw_pending w = None" "kw_clock w \<le> sw_now env" "sw_read env" "sw_persist env"
  shows "key_invariant (w\<lparr>kw_rotor := retire_generations env (kw_rotor w), kw_clock := sw_now env\<rparr>)"
proof -
  let ?m = "retirements_of w" and ?s = "stored_of w" and ?c = "retire_generations env (kw_rotor w)"
  let ?due = "due_generations (sw_now env) (sto_currentID ?s) ?m"
  let ?kept = "filter (\<lambda>x. ss_id x \<notin> set ?due) (sto_secrets ?s)"
  let ?s' = "(rt_state (kw_rotor w))\<lparr>rn_retirements := forget_all ?due ?m\<rparr>"
  have tab: "is_table ?m" and cons: "keys_consistent ?s (ring_of w)" using assms(1) by (simp_all add: key_invariant_def)
  have load: "load_state (sw_read env) (kw_rotor w) = rt_state (kw_rotor w)" by (simp add: load_state_def assms(4))
  have alive: "ss_id x \<notin> set ?due"
    if "session_alive (sw_now env) t" "ss_id x = sto_currentID ?s \<or>
      (\<exists>at. get ?m (ss_id x) = Some at \<and> t + visitor_session_cookie_lifetime + second \<le> at)" for x t
    by (rule not_due [OF tab]) (use that alive_before_retirement in blast)
  have held: "key_held (?s\<lparr>sto_secrets := xs\<rparr>) m' k t"
    if conds: "session_alive (sw_now env) t" "key_held ?s ?m k t"
      "\<And>i. i \<notin> set ?due \<Longrightarrow> get m' i = get ?m i" "set ?kept \<subseteq> set xs" for xs m' k t
  proof -
    obtain x where x: "x \<in> set (sto_secrets ?s)" "decode_secret x = Inr k" "ss_id x = sto_currentID ?s \<or>
        (\<exists>at. get ?m (ss_id x) = Some at \<and> t + visitor_session_cookie_lifetime + second \<le> at)"
      using conds(2) by (auto simp: key_held_def)
    note due = alive [OF conds(1) x(3)]
    have "x \<in> set xs" using due x(1) conds(4) by auto
    then show ?thesis using x due conds(3) by (auto simp: key_held_def)
  qed
  consider "?c = kw_rotor w" | "?c = save_state (sw_save env) ?s' (kw_rotor w)" "length ?kept = length (sto_secrets ?s)"
    | k where "apply_and_persist True (?s\<lparr>sto_secrets := ?kept\<rparr>) (rt_keys (kw_rotor w)) = (None, k)" "rt_keys ?c = k"
        "rt_state ?c = (if sw_save env then ?s' else rt_state (kw_rotor w))"
  proof -
  note goals = that
  show thesis
  proof (cases "rn_retirements (rt_state (kw_rotor w)) = [] \<or> sto_secrets ?s = [] \<or> ?due = []")
    case True
    then have "?c = kw_rotor w" by (auto simp: retire_generations_def load Let_def)
    then show thesis by (rule goals(1))
  next
    case False
    show thesis
    proof (cases "length ?kept = length (sto_secrets ?s)")
      case True
      with False have "?c = save_state (sw_save env) ?s' (kw_rotor w)" by (auto simp: retire_generations_def load Let_def)
      with True show thesis by (intro goals(2))
    next
      case len: False
      obtain r k where ap: "apply_and_persist True (?s\<lparr>sto_secrets := ?kept\<rparr>) (rt_keys (kw_rotor w)) = (r, k)"
        by (metis prod.collapse)
      show thesis
      proof (cases r)
        case None
        have "rt_keys ?c = k" "rt_state ?c = (if sw_save env then ?s' else rt_state (kw_rotor w))"
          using False len assms(5) by (auto simp: retire_generations_def load Let_def ap None save_state_def)
        with ap None show thesis by (intro goals(3)) simp_all
      next
        case (Some e)
        then have "k = rt_keys (kw_rotor w)" using apply_and_persist_failed ap by fastforce
        then have "?c = kw_rotor w" using False len assms(5) by (auto simp: retire_generations_def load Let_def ap Some)
        then show thesis by (rule goals(1))
      qed
    qed
  qed
  qed
  then show ?thesis
  proof cases
    case 1
    then show ?thesis by (intro key_invariant_frame [OF assms(1)]) (simp_all add: assms(3))
  next
    case 2
    let ?w = "w\<lparr>kw_rotor := ?c, kw_clock := sw_now env\<rparr>"
    have eqs: "stored_of ?w = ?s\<lparr>sto_secrets := sto_secrets ?s\<rparr>" "ring_of ?w = ring_of w"
      by (simp_all add: 2(1))
    have m: "retirements_of ?w = (if sw_save env then forget_all ?due ?m else ?m)"
      by (simp add: 2(1) save_state_def)
    show ?thesis
    proof (rule key_invariant_intro [OF assms(1)])
      fix k t assume "session_alive (kw_clock ?w) t" "key_held ?s ?m k t"
      then have alive': "session_alive (sw_now env) t" "key_held ?s ?m k t" by simp_all
      show "key_held (stored_of ?w) (retirements_of ?w) k t"
        unfolding eqs m by (rule held [OF alive']) (auto simp: get_forget_all)
    next
      show "is_table (retirements_of ?w)" unfolding m using tab is_table_forget_all by simp
      show "keys_consistent (stored_of ?w) (ring_of ?w)" using cons by (simp add: 2(1))
      show "pending_matches ?w" using assms(2) by (simp add: pending_matches_def)
    qed (use assms(1,3) 2(1) in \<open>simp_all add: key_invariant_def\<close>)
  next
    case (3 k)
    have "\<forall>x \<in> set (sto_secrets (?s\<lparr>sto_secrets := ?kept\<rparr>)). ss_id x \<noteq> node_local_session_key_id"
      using cons by (simp add: keys_consistent_def)
    note ap = applied_consistent [OF 3(1) this]
    let ?w = "w\<lparr>kw_rotor := ?c, kw_clock := sw_now env\<rparr>"
    have eqs: "stored_of ?w = ?s\<lparr>sto_secrets := ?kept\<rparr>" "ring_of ?w = kc_ring k"
      using 3(2) ap(2) by simp_all
    have m: "retirements_of ?w = (if sw_save env then forget_all ?due ?m else ?m)"
      by (simp add: 3(3))
    show ?thesis
    proof (rule key_invariant_intro [OF assms(1)])
      fix k' t assume "session_alive (kw_clock ?w) t" "key_held ?s ?m k' t"
      then have alive': "session_alive (sw_now env) t" "key_held ?s ?m k' t" by simp_all
      show "key_held (stored_of ?w) (retirements_of ?w) k' t"
        unfolding eqs m by (rule held [OF alive']) (auto simp: get_forget_all)
    next
      show "is_table (retirements_of ?w)" unfolding m using tab is_table_forget_all by simp
      show "keys_consistent (stored_of ?w) (ring_of ?w)" unfolding eqs by (rule ap(1))
      show "pending_matches ?w" using assms(2) by (simp add: pending_matches_def)
    qed (use 3(2) ap(2,3) in \<open>simp_all add: assms(3)\<close>)
  qed
qed

end
