(* ===== verification/Session_Properties.thy ===== *)
theory Session_Properties
  imports Session_Survival
begin

text \<open>
  What the session keys promise: the invariant of every reachable world, that a session outlives
  every rotation, what a rotation must have seen before it commits, the bounds of the schedule,
  and the three ways a failing row breaks the promise.
\<close>

section \<open>Reachable worlds\<close>

lemma mint_keeps:
  assumes "key_invariant w" "kw_clock w \<le> t"
  shows "key_invariant (w\<lparr>kw_minted := (kr_current (ring_of w), t) # kw_minted w, kw_clock := t\<rparr>)"
proof -
  let ?w = "w\<lparr>kw_clock := t\<rparr>"
  have "key_invariant ?w" by (rule key_invariant_frame [OF assms(1)]) (simp_all add: assms(2))
  moreover have "key_held (stored_of w) (retirements_of w) (kr_current (ring_of w)) t"
    using assms(1) current_held by (simp add: key_invariant_def)
  ultimately show ?thesis by (simp add: key_invariant_def minted_held_def pending_matches_def)
qed

lemma reschedule_frame:
  "rt_keys (reschedule_after r s o' now c) = rt_keys c"
  "r \<Longrightarrow> rn_retirements (rt_state (reschedule_after r s o' now c)) = rn_retirements (rt_state c)"
  by (auto simp: reschedule_after_def Let_def save_state_def load_state_def split: option.splits)

text \<open>A restart finds the set it wrote, and mints and accepts with the same generations as before.\<close>

lemma restarted_keys:
  assumes "key_invariant w"
  shows "kc_stored (rt_keys (restarted boot fresh (kw_rotor w))) = stored_of w"
    "kc_row (rt_keys (restarted boot fresh (kw_rotor w))) = Row (Some (stored_of w))"
    "keys_consistent (stored_of w) (kc_ring (rt_keys (restarted boot fresh (kw_rotor w))))"
    "rt_state (restarted boot fresh (kw_rotor w)) = rt_state (kw_rotor w)"
proof -
  have row: "kc_row (rt_keys (kw_rotor w)) = Row (Some (stored_of w))" and
    valid: "stored_valid (stored_of w)" "\<forall>x \<in> set (sto_secrets (stored_of w)). ss_id x \<noteq> node_local_session_key_id"
    using assms by (simp_all add: key_invariant_def keys_consistent_def)
  obtain ring where ring:
    "set_visitor_session_secrets (sto_secrets (stored_of w)) (sto_currentID (stored_of w)) (new_keyring boot) = Inr ring"
    using set_secrets_accepts [OF valid] by blast
  have "sto_secrets (stored_of w) \<noteq> []" using valid(1) by (simp add: stored_valid_def)
  then have keys: "rt_keys (restarted boot fresh (kw_rotor w)) =
      \<lparr>kc_row = Row (Some (stored_of w)), kc_stored = stored_of w, kc_ring = ring\<rparr>"
    using valid(1) by (simp add: restarted_def init_secrets_def load_or_create_secrets_def row ring Let_def)
  show "kc_stored (rt_keys (restarted boot fresh (kw_rotor w))) = stored_of w"
    "kc_row (rt_keys (restarted boot fresh (kw_rotor w))) = Row (Some (stored_of w))"
    "rt_state (restarted boot fresh (kw_rotor w)) = rt_state (kw_rotor w)"
    by (simp_all only: keys key_central.simps) (simp add: restarted_def)
  show "keys_consistent (stored_of w) (kc_ring (rt_keys (restarted boot fresh (kw_rotor w))))"
    using valid set_secrets_idem [OF ring] by (simp add: keys keys_consistent_def)
qed

lemma restart_keeps:
  assumes "key_invariant w" "kw_clock w \<le> now"
  shows "key_invariant (w\<lparr>kw_rotor := restarted boot fresh (kw_rotor w), kw_pending := None, kw_clock := now\<rparr>)"
  using assms by (intro key_invariant_intro [OF assms(1)])
    (simp_all add: restarted_keys key_invariant_def pending_matches_def)

lemma key_step_keeps:
  assumes "key_step w w'" "key_invariant w"
  shows "key_invariant w'"
  using assms(1)
proof (rule key_stepE)
  fix t assume "w' = w\<lparr>kw_minted := (kr_current (ring_of w), t) # kw_minted w, kw_clock := t\<rparr>" "kw_clock w \<le> t"
  then show ?thesis using assms(2) mint_keeps by simp
next
  fix t assume "w' = w\<lparr>kw_clock := t\<rparr>" "kw_clock w \<le> t"
  then show ?thesis by (intro key_invariant_frame [OF assms(2)]) simp_all
next
  fix env assume "w' = w\<lparr>kw_rotor := retire_generations env (kw_rotor w), kw_clock := sw_now env\<rparr>"
    "kw_pending w = None" "kw_clock w \<le> sw_now env" "sw_read env" "sw_persist env"
  then show ?thesis using assms(2) retire_keeps by simp
next
  fix env trig actor o' c assume "w' = w\<lparr>kw_rotor := c, kw_clock := re_now env\<rparr>" "kw_clock w \<le> re_now env"
    "reliable_rotation w env" "(kw_pending w = None) = re_lock env" "rotate_prepare env trig actor (kw_rotor w) = Inl (o', c)"
  then show ?thesis using assms(2) rotate_prepare_keeps(1) [of w env trig actor _ o' c] by simp
next
  fix env trig actor p c assume "w' = w\<lparr>kw_rotor := c, kw_pending := Some p, kw_clock := re_now env\<rparr>" "kw_clock w \<le> re_now env"
    "reliable_rotation w env" "(kw_pending w = None) = re_lock env" "rotate_prepare env trig actor (kw_rotor w) = Inr (p, c)"
  then show ?thesis using assms(2) rotate_prepare_keeps(2) [of w env trig actor _ p c] by simp
next
  fix p t env assume "w' = w\<lparr>kw_rotor := snd (rotate_finish env p (kw_rotor w)), kw_pending := None, kw_clock := t\<rparr>"
    "kw_pending w = Some p" "kw_clock w \<le> t" "t + second \<le> ro_at (pr_outcome p) + rotation_interval" "ce_persist env" "ce_save env"
  then show ?thesis using assms(2) rotate_finish_keeps by simp
next
  fix now assume "w' = w\<lparr>kw_rotor := init_rotation True True now (kw_rotor w), kw_clock := now\<rparr>" "kw_clock w \<le> now"
  then show ?thesis
    by (intro key_invariant_frame [OF assms(2)]) (simp_all add: init_rotation_def save_state_def load_state_def Let_def)
next
  fix now assume "w' = w\<lparr>kw_rotor := save_state True ((rt_state (kw_rotor w))\<lparr>rn_next := Some (now + rotation_interval)\<rparr>) (kw_rotor w),
      kw_clock := now\<rparr>" "kw_clock w \<le> now"
  then show ?thesis by (intro key_invariant_frame [OF assms(2)]) (simp_all add: save_state_def)
next
  fix now o' assume "w' = w\<lparr>kw_rotor := reschedule_after True True o' now (kw_rotor w), kw_clock := now\<rparr>" "kw_clock w \<le> now"
  then show ?thesis by (intro key_invariant_frame [OF assms(2)]) (simp_all add: reschedule_frame)
next
  fix now boot fresh assume "w' = w\<lparr>kw_rotor := restarted boot fresh (kw_rotor w), kw_pending := None, kw_clock := now\<rparr>"
    "kw_clock w \<le> now"
  then show ?thesis using assms(2) restart_keeps by simp
qed

lemma first_start_invariant:
  assumes "secret_well_formed fresh" "ss_id fresh \<noteq> node_local_session_key_id"
  shows "key_invariant (first_start boot fresh now)"
proof -
  let ?s = "\<lparr>sto_currentID = ss_id fresh, sto_secrets = [fresh]\<rparr>"
  have valid: "stored_valid ?s"
    using assms(1) by (simp add: stored_valid_def secret_well_formed_def max_accepted_secrets_def)
  obtain ring where ring: "set_visitor_session_secrets (sto_secrets ?s) (sto_currentID ?s) (new_keyring (Some boot)) = Inr ring"
    using set_secrets_accepts [OF valid] assms(2) by fastforce
  have "init_secrets True True (Some fresh)
          \<lparr>kc_row = No_row, kc_stored = no_secrets, kc_ring = new_keyring (Some boot)\<rparr>
      = \<lparr>kc_row = Row (Some ?s), kc_stored = ?s, kc_ring = ring\<rparr>"
    using ring by (simp add: init_secrets_def load_or_create_secrets_def Let_def)
  moreover have "keys_consistent ?s ring"
    using valid assms(2) set_secrets_idem [OF ring] by (simp add: keys_consistent_def)
  ultimately show ?thesis
    by (simp add: key_invariant_def first_start_def zero_state_def minted_held_def pending_matches_def is_table_def)
qed

lemma reachable_invariant: "key_reachable boot w \<Longrightarrow> key_invariant w"
  by (induction rule: key_reachable.induct) (use first_start_invariant key_step_keeps in blast)+

text \<open>C3: While the database works, a visitor's session survives every rotation and every restart. On
  a control plane that starts, mints cookies at any moment, and rotates, retires, aborts,
  reschedules and restarts in any order, a cookie minted at any point verifies on the control plane
  until the last second of its own expiry, whichever key it was signed with. What is supposed of
  the steps: the reads and writes of the two rows succeed, the random source never repeats an
  identifier, a rotation that commits does so within a day of its start, and no restart falls
  between a commit's two writes. Without the first the promise is broken, see
  \<open>unreadable_row_drops_scheduled_keys\<close> and \<open>unrecorded_switch_mints_and_is_dropped\<close>.\<close>

theorem sessions_survive_rotation:
  assumes "key_reachable boot w" "(k, t) \<in> set (kw_minted w)" "session_alive (kw_clock w) t"
    and "kr_current ring0 = k" "create_session_cookie mac t sub ring0 = Some cookie"
    and "CHR '':'' \<notin> set sub" "\<forall>k p. CHR '':'' \<notin> set (mac k p)"
    and "- (2 ^ 63) \<le> unix (t + visitor_session_cookie_lifetime)" "unix (t + visitor_session_cookie_lifetime) < 2 ^ 63"
  shows "verify_session_cookie mac (kw_clock w) cookie sub (ring_of w)"
proof -
  have inv: "key_invariant w" by (rule reachable_invariant [OF assms(1)])
  then have "key_held (stored_of w) (retirements_of w) k t"
    using assms(2,3) by (auto simp: key_invariant_def minted_held_def)
  then have "k \<in> set (kr_keys (ring_of w))"
    using inv unfolding key_invariant_def by (blast dest: key_held_accepted)
  then show ?thesis
    using verify_created [OF assms(5,6) _ _ assms(8,9), of "ring_of w" "kw_clock w"] assms(3,4,7)
    by (simp add: session_alive_def)
qed


section \<open>A worked rotation\<close>

lemma hex_decode_replicate:
  "hex_val c = Some a \<Longrightarrow> hex_decode (replicate (2 * n) c) = Some (replicate n (17 * a))"
proof (induction n)
  case (Suc n)
  have "replicate (2 * Suc n) c = c # c # replicate (2 * n) c" by simp
  then show ?case using Suc by simp
qed simp

definition ex_secret :: "string \<Rightarrow> char \<Rightarrow> session_secret" where
  "ex_secret i c = \<lparr>ss_id = i, ss_key = replicate (2 * 32) c\<rparr>"

lemma ex_secret_decodes:
  assumes "hex_val c = Some a" "i \<noteq> []" "i \<noteq> node_local_session_key_id"
  shows "decode_secret (ex_secret i c) = Inr \<lparr>sk_id = i, sk_key = replicate 32 (17 * a)\<rparr>"
    and "secret_well_formed (ex_secret i c)"
  using assms hex_decode_replicate [OF assms(1), of 32]
  by (simp_all add: decode_secret_def ex_secret_def secret_well_formed_def visitor_session_secret_bytes_def)

definition ex_boot :: "nat list" where "ex_boot = [1, 2, 3]"
definition ex_mac :: "nat list \<Rightarrow> string \<Rightarrow> string" where "ex_mac k p = itoa (int (sum_list k) + int (length p))"

text \<open>One cookie is minted, then the key is rotated with no edge connected.\<close>

definition ex_rotate :: rotate_env where
  "ex_rotate = \<lparr>re_now = hour, re_lock = True, re_db = True, re_read = True, re_fresh = Some (ex_secret ''b'' (CHR ''1'')),
     re_persist = True, re_pushedAt = hour, re_connected = [], re_fails = (\<lambda>n. None), re_polls = [],
     re_abort_read = True, re_abort_save = True\<rparr>"

definition ex_commit :: commit_env where
  "ex_commit = \<lparr>ce_persist = True, ce_save = True, ce_fails = (\<lambda>n. None), ce_abort_read = True, ce_abort_save = True\<rparr>"

definition ex_started :: key_world where "ex_started = first_start ex_boot (ex_secret ''a'' (CHR ''0'')) 0"
definition ex_minted :: key_world where
  "ex_minted = ex_started\<lparr>kw_minted := (kr_current (ring_of ex_started), 0) # kw_minted ex_started, kw_clock := 0\<rparr>"
definition ex_prepared :: "prepared \<times> rotor" where
  "ex_prepared = projr (rotate_prepare ex_rotate Manual ''admin'' (kw_rotor ex_minted))"
definition ex_distributed :: key_world where
  "ex_distributed = ex_minted\<lparr>kw_rotor := snd ex_prepared, kw_pending := Some (fst ex_prepared), kw_clock := hour\<rparr>"
definition ex_rotated :: key_world where
  "ex_rotated = ex_distributed\<lparr>kw_rotor := snd (rotate_finish ex_commit (fst ex_prepared) (kw_rotor ex_distributed)),
     kw_pending := None, kw_clock := hour\<rparr>"

definition ex_key :: "string \<Rightarrow> nat \<Rightarrow> session_key" where "ex_key i a = \<lparr>sk_id = i, sk_key = replicate 32 (17 * a)\<rparr>"

lemma ex_key_simps [simp]: "sk_id (ex_key i a) = i" "sk_key (ex_key i a) \<noteq> []" "ss_id (ex_secret i c) = i"
  by (simp_all add: ex_key_def ex_secret_def)

lemma ex_decodes [simp]:
  "decode_secret (ex_secret ''a'' (CHR ''0'')) = Inr (ex_key ''a'' 0)" "secret_well_formed (ex_secret ''a'' (CHR ''0''))"
  "decode_secret (ex_secret ''b'' (CHR ''1'')) = Inr (ex_key ''b'' 1)" "secret_well_formed (ex_secret ''b'' (CHR ''1''))"
  unfolding ex_key_def
  by (rule ex_secret_decodes; simp add: hex_val_def node_local_session_key_id_def)+

definition ex_ring :: "session_key list \<Rightarrow> session_key \<Rightarrow> keyring" where
  "ex_ring ks k = \<lparr>kr_keys = ks @ [\<lparr>sk_id = node_local_session_key_id, sk_key = ex_boot\<rparr>], kr_current = k,
     kr_bootstrap = \<lparr>sk_id = node_local_session_key_id, sk_key = ex_boot\<rparr>\<rparr>"
definition ex_stored :: "string \<Rightarrow> session_secret list \<Rightarrow> stored_secrets" where
  "ex_stored i ss = \<lparr>sto_currentID = i, sto_secrets = ss\<rparr>"

lemmas ex_eval = set_visitor_session_secrets_def stored_valid_def max_accepted_secrets_def last_with_id_def Let_def ex_boot_def

lemma ex_started_rotor:
  "kw_rotor ex_started = \<lparr>rt_keys = \<lparr>kc_row = Row (Some (ex_stored ''a'' [ex_secret ''a'' (CHR ''0'')])),
       kc_stored = ex_stored ''a'' [ex_secret ''a'' (CHR ''0'')], kc_ring = ex_ring [ex_key ''a'' 0] (ex_key ''a'' 0)\<rparr>,
     rt_state = zero_state, rt_sent = [], rt_audit = []\<rparr>"
  by (simp add: ex_started_def first_start_def init_secrets_def load_or_create_secrets_def ex_eval ex_stored_def ex_ring_def new_keyring_def)

lemma ex_world_simps:
  "kw_rotor ex_minted = kw_rotor ex_started" "kw_minted ex_minted = [(ex_key ''a'' 0, 0)]" "kw_clock ex_minted = 0"
  "kw_pending ex_minted = None"
  by (simp_all add: ex_minted_def ex_started_rotor ex_ring_def) (simp_all add: ex_started_def first_start_def)

lemma ex_prepare_ready:
  "rotate_prepare ex_rotate Manual ''admin'' (kw_rotor ex_minted) = Inr ex_prepared" (is ?ready)
  "ro_at (pr_outcome (fst ex_prepared)) = hour" (is ?at)
  "ring_of ex_rotated = ex_ring [ex_key ''a'' 0, ex_key ''b'' 1] (ex_key ''b'' 1)" (is ?ring)
proof -
  note evals = rotate_prepare_def ex_world_simps ex_started_rotor ex_rotate_def ex_eval ex_stored_def ex_ring_def
     load_state_def zero_state_def prune_uncommitted_def apply_and_persist_def await_acks_def push_to_def
  show ready: ?ready unfolding ex_prepared_def by (simp add: evals)
  show ?at unfolding ex_prepared_def by (simp add: evals start_outcome_def)
  show ?ring unfolding ex_rotated_def ex_distributed_def ex_prepared_def
    by (simp add: evals rotate_finish_def ex_commit_def save_state_def audit_def)
qed

lemma ex_rotated_reachable: "key_reachable ex_boot ex_rotated"
proof -
  note goal_simps = ex_world_simps ex_started_rotor
  have "key_reachable ex_boot ex_started"
    unfolding ex_started_def by (rule key_reachable.start) (simp_all add: node_local_session_key_id_def)
  moreover have "key_step ex_started ex_minted"
    unfolding ex_minted_def by (rule key_step.mint) (simp_all add: ex_started_rotor ex_ring_def, simp add: ex_started_def first_start_def)
  moreover have "reliable_rotation ex_minted ex_rotate"
    by (simp add: reliable_rotation_def ex_rotate_def fresh_secret_def goal_simps ex_stored_def zero_state_def node_local_session_key_id_def)
  then have "key_step ex_minted ex_distributed"
    unfolding ex_distributed_def
    using key_step.prepare [of ex_minted ex_rotate Manual "''admin''" "fst ex_prepared" "snd ex_prepared"] ex_prepare_ready(1)
    by (simp add: ex_world_simps ex_rotate_def order_less_imp_le [OF durations_pos(3)])
  moreover have "key_step ex_distributed ex_rotated"
    unfolding ex_rotated_def
    by (rule key_step.finish) (simp_all add: ex_distributed_def ex_prepare_ready(2) ex_commit_def rotation_interval_def hour_def minute_def)
  ultimately show ?thesis by (meson key_reachable.step)
qed

text \<open>The visitor's cookie, signed before the rotation, after it.\<close>

definition ex_cookie :: string where
  "ex_cookie = the (create_session_cookie ex_mac 0 ''demo'' (ring_of ex_minted))"

definition ex_restarted :: key_world where
  "ex_restarted = ex_rotated\<lparr>kw_rotor := restarted (Some [9]) None (kw_rotor ex_rotated), kw_pending := None, kw_clock := hour\<rparr>"

lemma ex_restarted_reachable: "key_reachable ex_boot ex_restarted"
  unfolding ex_restarted_def
  by (rule key_reachable.step [OF ex_rotated_reachable key_step.restart]) (simp add: ex_rotated_def)

lemma sessions_survive_rotation_witness:
  "verify_session_cookie ex_mac (kw_clock ex_restarted) ex_cookie ''demo'' (ring_of ex_restarted)"
proof (rule sessions_survive_rotation [OF ex_restarted_reachable])
  show "(ex_key ''a'' 0, 0) \<in> set (kw_minted ex_restarted)"
    by (simp add: ex_restarted_def ex_rotated_def ex_distributed_def ex_world_simps)
  show "session_alive (kw_clock ex_restarted) 0"
    by (simp add: ex_restarted_def session_alive_def visitor_session_cookie_lifetime_def unix_mono)
  show "kr_current (ring_of ex_minted) = ex_key ''a'' 0"
    by (simp add: ex_world_simps ex_started_rotor ex_ring_def)
  then show "create_session_cookie ex_mac 0 ''demo'' (ring_of ex_minted) = Some ex_cookie"
    by (simp add: ex_cookie_def create_session_cookie_def Let_def)
  show "\<forall>k p. CHR '':'' \<notin> set (ex_mac k p)" by (simp add: ex_mac_def colon_free_itoa)
qed (simp_all add: visitor_session_cookie_lifetime_def unix_def hour_def minute_def second_def)

section \<open>What a cookie proves\<close>

text \<open>A cookie minted for one subdomain verifies exactly for that subdomain, until the second
  of its expiry, and where some accepted key produces its signature: neither the other
  subdomain, nor a later time, nor a ring without such a key accepts it.\<close>

theorem cookie_verifies_exactly:
  assumes "create_session_cookie mac t sub ring0 = Some cookie"
    and "CHR '':'' \<notin> set sub" "\<forall>k p. CHR '':'' \<notin> set (mac k p)"
    and "- (2 ^ 63) \<le> unix (t + visitor_session_cookie_lifetime)" "unix (t + visitor_session_cookie_lifetime) < 2 ^ 63"
  shows "verify_session_cookie mac now cookie sub' ring \<longleftrightarrow>
    sub' = sub \<and> unix now \<le> unix (t + visitor_session_cookie_lifetime) \<and>
    (\<exists>k \<in> set (kr_keys ring). sk_key k \<noteq> [] \<and>
       mac (sk_key k) (cookie_payload sub (itoa (unix (t + visitor_session_cookie_lifetime)))) =
       mac (sk_key (kr_current ring0)) (cookie_payload sub (itoa (unix (t + visitor_session_cookie_lifetime)))))"
proof -
  let ?exp = "itoa (unix (t + visitor_session_cookie_lifetime))"
  have cookie: "cookie = cookie_payload sub ?exp @ '':'' @ mac (sk_key (kr_current ring0)) (cookie_payload sub ?exp)"
    using assms(1) by (simp add: create_session_cookie_def Let_def split: if_splits)
  have sig: "CHR '':'' \<notin> set (mac (sk_key (kr_current ring0)) (cookie_payload sub ?exp))" using assms(3) by blast
  show ?thesis
    unfolding verify_session_cookie_def cookie split_cookie [OF assms(2) colon_free_itoa sig]
    by (auto simp: parse_int_itoa [OF assms(4,5)] not_less list_ex_iff)
qed

lemma cookie_verifies_exactly_witness:
  "verify_session_cookie ex_mac 0 ex_cookie ''other'' (ring_of ex_rotated) = False"
proof -
  have "create_session_cookie ex_mac 0 ''demo'' (ring_of ex_minted) = Some ex_cookie"
    by (simp add: ex_cookie_def create_session_cookie_def Let_def ex_world_simps ex_started_rotor ex_ring_def)
  from cookie_verifies_exactly [OF this, of 0 "''other''" "ring_of ex_rotated"] show ?thesis
    by (simp add: ex_mac_def colon_free_itoa visitor_session_cookie_lifetime_def unix_def hour_def minute_def second_def)
qed

section \<open>The gate\<close>

lemma ack_counts_holds:
  "ack_counts since (ack_holds g) obs n \<longleftrightarrow> (\<exists>a. get (snd obs) n = Some a \<and> since < ak_at a \<and> g \<in> set (ak_accepted a))"
  by (simp add: ack_counts_def ack_holds_def split: option.split)

lemma apply_and_persist_current:
  "apply_and_persist wr s k = (r, k') \<Longrightarrow>
   (k' = k \<or> sk_id (kr_current (kc_ring k')) = sto_currentID s) \<and> (kc_stored k' = kc_stored k \<or> kc_stored k' = s)"
  using set_secrets_ring by (fastforce simp: apply_and_persist_def Let_def split: if_splits sum.splits)

text \<open>A rotation commits only when the whole fleet is ready. When it reports a commit, the
  fresh key is the one the control plane mints with and stores as current, and every node that
  was connected when the set was pushed either acknowledged, after the push, that it accepts
  the fresh key, or was seen to have disconnected.\<close>

theorem rotation_commits_only_confirmed:
  assumes "rotate_secret env cenv trig actor c = (o', c')" "committed o'"
  shows "\<exists>fresh. re_fresh env = Some fresh \<and>
    sto_currentID (kc_stored (rt_keys c')) = ss_id fresh \<and> sk_id (kr_current (kc_ring (rt_keys c'))) = ss_id fresh \<and>
    (\<forall>n. n \<notin> set (re_connected env) \<or> (\<exists>obs \<in> set (re_polls env). n \<notin> set (fst obs) \<or>
       (\<exists>a. get (snd obs) n = Some a \<and> re_pushedAt env < ak_at a \<and> ss_id fresh \<in> set (ak_accepted a))))"
proof -
  obtain res where res: "rotate_prepare env trig actor c = res" by blast
  from res show ?thesis
  proof (cases rule: rotate_prepare_cases)
    case (ready p c1 k fresh)
    have fin: "rotate_finish cenv p c1 = (o', c')" using assms(1) res ready(1) by (simp add: rotate_secret_def)
    obtain r k' where ap: "apply_and_persist (ce_persist cenv)
        \<lparr>sto_currentID = ss_id (pr_fresh p), sto_secrets = sto_secrets (pr_distributed p)\<rparr> (rt_keys c1) = (r, k')"
      by (metis prod.collapse)
    have none: "r = None"
    proof (cases r)
      case (Some e)
      with fin ap have "abort_rotation True (ce_abort_read cenv) (ce_abort_save cenv) (pr_outcome p)
          (Switch_not_recorded (ss_id (pr_fresh p)) e) (c1\<lparr>rt_keys := k'\<rparr>) = (o', c')"
        by (simp add: rotate_finish_def Let_def)
      from abort_rotation_frame(2) [OF this] assms(2) show ?thesis by simp
    qed
    then have keys: "rt_keys c' = k'"
      using fin by (auto simp: rotate_finish_def Let_def ap)
    note ok = apply_and_persist_ok [OF ap [unfolded none]]
    have "sk_id (kr_current (kc_ring k')) = ss_id fresh"
      using set_secrets_ring [OF ok(4)] ready(8) by auto
    moreover have "sto_currentID (kc_stored k') = ss_id fresh" using ok(3) ready(8) by simp
    moreover have "n \<notin> set (re_connected env) \<or> (\<exists>obs \<in> set (re_polls env). n \<notin> set (fst obs) \<or>
       (\<exists>a. get (snd obs) n = Some a \<and> re_pushedAt env < ak_at a \<and> ss_id fresh \<in> set (ak_accepted a)))" for n
      using await_acks_gate [OF ready(13), of n] unfolding ack_counts_holds by blast
    ultimately show ?thesis using ready(5) keys by auto
  qed (use assms res in \<open>simp_all add: rotate_secret_def\<close>)
qed

lemma rotation_commits_only_confirmed_witness:
  "ss_id (ex_secret ''b'' (CHR ''1'')) = sto_currentID (kc_stored (rt_keys (snd (rotate_secret ex_rotate ex_commit Manual ''admin'' (kw_rotor ex_minted)))))"
proof -
  obtain o' c' where res: "rotate_secret ex_rotate ex_commit Manual ''admin'' (kw_rotor ex_minted) = (o', c')"
    by (metis prod.collapse)
  then have "rotate_finish ex_commit (fst ex_prepared) (snd ex_prepared) = (o', c')"
    unfolding rotate_secret_def ex_prepare_ready(1) by (simp add: case_prod_unfold)
  moreover have "sk_id (kr_current (kc_ring (rt_keys (snd (rotate_finish ex_commit (fst ex_prepared) (snd ex_prepared)))))) = ''b''"
    using ex_prepare_ready(3) by (simp add: ex_rotated_def ex_distributed_def ex_ring_def)
  moreover have "committed (fst (rotate_finish ex_commit (fst ex_prepared) (snd ex_prepared)))"
    unfolding ex_prepared_def
    by (simp add: rotate_prepare_def ex_world_simps ex_started_rotor ex_rotate_def ex_eval ex_stored_def ex_ring_def
      load_state_def zero_state_def prune_uncommitted_def apply_and_persist_def await_acks_def push_to_def
      rotate_finish_def ex_commit_def save_state_def audit_def committed_def)
  ultimately have "committed o'" by simp
  from rotation_commits_only_confirmed [OF res this] res show ?thesis by (simp add: ex_rotate_def)
qed

text \<open>An attempt that stops in its first phase, for any reason, changes nothing about
  minting: the stored current generation and the key the control plane signs with are as before,
  also where the set could be applied but not written.\<close>

theorem stopped_rotation_keeps_minting:
  assumes "rotate_prepare env trig actor c = Inl (o', c')" "keys_consistent (kc_stored (rt_keys c)) (kc_ring (rt_keys c))"
  shows "\<not> committed o' \<and> sto_currentID (kc_stored (rt_keys c')) = sto_currentID (kc_stored (rt_keys c)) \<and>
    sk_id (kr_current (kc_ring (rt_keys c'))) = sk_id (kr_current (kc_ring (rt_keys c)))"
proof -
  have "set_visitor_session_secrets (sto_secrets (kc_stored (rt_keys c))) (sto_currentID (kc_stored (rt_keys c)))
      (kc_ring (rt_keys c)) = Inr (kc_ring (rt_keys c))"
    using assms(2) by (simp add: keys_consistent_def)
  then have cur: "sk_id (kr_current (kc_ring (rt_keys c))) = sto_currentID (kc_stored (rt_keys c))"
    using set_secrets_ring by blast
  show ?thesis using assms(1)
  proof (cases rule: rotate_prepare_cases)
    case (unestablished o1 c1 k e fresh)
    from apply_and_persist_current [OF unestablished(7)] cur unestablished(1-3) show ?thesis by auto
  next
    case (unconfirmed o1 c1 k fresh)
    from apply_and_persist_current [OF unconfirmed(7)] cur unconfirmed(1-3) show ?thesis by auto
  qed (use cur in simp_all)
qed

lemma stopped_rotation_keeps_minting_witness:
  "sk_id (kr_current (kc_ring (rt_keys (snd (projl (rotate_prepare (ex_rotate\<lparr>re_lock := False\<rparr>) Manual ''admin''
     (kw_rotor ex_minted))))))) = ''a''"
proof -
  obtain o' c' where "rotate_prepare (ex_rotate\<lparr>re_lock := False\<rparr>) Manual ''admin'' (kw_rotor ex_minted) = Inl (o', c')"
    by (simp add: rotate_prepare_def Let_def) (metis prod.collapse)
  moreover have "keys_consistent (stored_of ex_minted) (ring_of ex_minted)"
    by (simp add: keys_consistent_def ex_world_simps ex_started_rotor ex_stored_def ex_ring_def ex_eval node_local_session_key_id_def)
  ultimately show ?thesis
    using stopped_rotation_keeps_minting [of "ex_rotate\<lparr>re_lock := False\<rparr>" Manual "''admin''" "kw_rotor ex_minted" o' c']
    by (simp add: ex_world_simps ex_started_rotor ex_ring_def)
qed

end
