(* ===== verification/Session_Schedule.thy ===== *)
theory Session_Schedule
  imports Session_Properties
begin

text \<open>
  The rotation schedule and what happens when the bookkeeping row fails: the backoff and its
  bounds, one attempt per due instant, and the ways an unreadable row, an unrecorded switch and
  a concurrent manual rotation break what the comments promise.
\<close>

section \<open>The schedule\<close>

lemma backoff_step:
  "((\<lambda>d. if rotation_interval \<le> d then d else 2 * d) ^^ n) rotation_unacked_backoff
   = rotation_unacked_backoff * 2 ^ min n 7"
proof (induction n)
  case (Suc n)
  have "n < 7 \<or> min (Suc n) 7 = 7 \<and> min n 7 = 7" by auto
  then show ?case
  proof
    assume "n < 7"
    then have "n \<in> {0, 1, 2, 3, 4, 5, 6}" by auto
    then show ?thesis using Suc
      by (auto simp: rotation_interval_def rotation_unacked_backoff_def hour_def minute_def second_def)
  next
    assume "min (Suc n) 7 = 7 \<and> min n 7 = 7"
    then show ?thesis using Suc
      by (simp add: rotation_interval_def rotation_unacked_backoff_def hour_def minute_def second_def)
  qed
qed simp

text \<open>The delay after unacknowledged attempts doubles from a quarter of an hour with every
  abort in a row and saturates at the normal interval; no count of aborts makes it shorter than
  the first delay or longer than a day.\<close>

theorem unacked_backoff_doubles:
  "unacked_retry_delay n = min rotation_interval (rotation_unacked_backoff * 2 ^ n)"
proof (cases "n < 7")
  case True
  then have "min n 7 = n" by simp
  then show ?thesis by (simp add: unacked_retry_delay_def Let_def backoff_step)
next
  case False
  then have n: "min n 7 = 7" by simp
  have "rotation_unacked_backoff * 2 ^ 7 \<le> rotation_unacked_backoff * 2 ^ n"
    using False by (intro mult_left_mono power_increasing) (simp_all add: rotation_unacked_backoff_def minute_def second_def)
  moreover have "rotation_interval < rotation_unacked_backoff * 2 ^ 7"
    by (simp add: rotation_interval_def rotation_unacked_backoff_def hour_def minute_def second_def)
  ultimately show ?thesis unfolding unacked_retry_delay_def Let_def backoff_step n by simp
qed

lemma retry_instant_window:
  assumes "retry_instant now cause = Some t"
  shows "now + rotation_retry_floor \<le> t \<and> t \<le> now + rotation_interval"
  using assms
  by (auto simp: retry_instant_def rotation_retry_floor_def rotation_interval_def hour_def minute_def second_def
      split: option.splits if_splits)

text \<open>The rotation itself does not move the due instant, as long as the row can be read.\<close>

lemma rotate_secret_next:
  assumes "rotate_secret env cenv trig actor c = (o', c')" "re_read env" "re_abort_read env" "ce_abort_read cenv"
  shows "rn_next (rt_state c') = rn_next (rt_state c)"
proof -
  obtain res where res: "rotate_prepare env trig actor c = res" by blast
  from res show ?thesis
  proof (cases rule: rotate_prepare_cases)
    case (ready p c1 k fresh)
    have fin: "rotate_finish cenv p c1 = (o', c')" using assms(1) res ready(1) by (simp add: rotate_secret_def)
    have same: "rn_next (pr_state p) = rn_next (rt_state c)" "rt_state c1 = rt_state c"
      using ready(3,9) assms(2) by (simp_all add: load_state_def)
    obtain r k' where ap: "apply_and_persist (ce_persist cenv)
        \<lparr>sto_currentID = ss_id (pr_fresh p), sto_secrets = sto_secrets (pr_distributed p)\<rparr> (rt_keys c1) = (r, k')"
      by (metis prod.collapse)
    show ?thesis
    proof (cases r)
      case (Some e)
      with fin ap have "abort_rotation True (ce_abort_read cenv) (ce_abort_save cenv) (pr_outcome p)
          (Switch_not_recorded (ss_id (pr_fresh p)) e) (c1\<lparr>rt_keys := k'\<rparr>) = (o', c')"
        by (simp add: rotate_finish_def Let_def)
      from abort_rotation_frame(4) [OF this assms(4)] same show ?thesis by simp
    next
      case None
      then show ?thesis using fin ap same
        by (auto simp: rotate_finish_def Let_def save_state_def push_to_def audit_def split: if_splits)
    qed
  qed (use assms res in \<open>auto simp: rotate_secret_def\<close>)
qed

lemma retire_frame_next:
  assumes "sw_read env"
  shows "rn_next (rt_state (retire_generations env c)) = rn_next (rt_state c)"
  using assms
  by (auto simp: retire_generations_def Let_def load_state_def save_state_def push_to_def audit_def
      split: option.splits prod.splits)

text \<open>The sweep fires once per due instant. Once it has found a rotation due, and could
  advance the row, the next due instant lies between five minutes and one interval after now,
  whatever the attempt did, so no later tick before that finds it due again.\<close>

theorem sweep_does_not_refire:
  assumes "rn_next (rt_state c) = Some due" "due \<le> now" "te_save env"
    and "sw_read (te_sweep env)" "te_read env" "re_read (te_rotate env)" "re_abort_read (te_rotate env)"
    and "ce_abort_read (te_commit env)" "te_after_read env"
  shows "\<exists>next. rn_next (rt_state (sweep_rotation env now c)) = Some next \<and>
    now + rotation_retry_floor \<le> next \<and> next \<le> now + rotation_interval"
proof -
  let ?c = "retire_generations (te_sweep env) c"
  let ?c1 = "save_state True ((rt_state ?c)\<lparr>rn_next := Some (now + rotation_interval)\<rparr>) ?c"
  obtain o' c2 where rot: "rotate_secret (te_rotate env) (te_commit env) Periodic ''system:scheduler'' ?c1 = (o', c2)"
    by (metis prod.collapse)
  have next_c: "rn_next (rt_state ?c) = Some due" using retire_frame_next [OF assms(4)] assms(1) by simp
  have "rn_next (rt_state c2) = Some (now + rotation_interval)"
    using rotate_secret_next [OF rot assms(6-8)] by (simp add: save_state_def)
  moreover have "now + rotation_retry_floor \<le> now + rotation_interval"
    by (simp add: rotation_retry_floor_def rotation_interval_def hour_def minute_def second_def)
  moreover have "sweep_rotation env now c = reschedule_after (te_after_read env) (te_after_save env) o' now c2"
    using assms(2,3,5) next_c rot by (simp add: sweep_rotation_def Let_def load_state_def not_less)
  ultimately show ?thesis
    using assms(9) retry_instant_window [of now "ro_retryAt o'"]
    by (auto simp: reschedule_after_def Let_def load_state_def save_state_def split: option.splits)
qed

definition ex_tick :: tick_env where
  "ex_tick = \<lparr>te_sweep = \<lparr>sw_now = hour, sw_read = True, sw_persist = True, sw_save = True, sw_connected = [], sw_fails = (\<lambda>n. None)\<rparr>,
     te_read = True, te_save = True, te_rotate = ex_rotate\<lparr>re_lock := False\<rparr>, te_commit = ex_commit,
     te_after_read = True, te_after_save = True\<rparr>"

lemma sweep_does_not_refire_witness:
  "\<exists>next. rn_next (rt_state (sweep_rotation ex_tick hour (save_state True (zero_state\<lparr>rn_next := Some 0\<rparr>) (kw_rotor ex_minted)))) = Some next \<and>
     hour + rotation_retry_floor \<le> next \<and> next \<le> hour + rotation_interval"
  by (rule sweep_does_not_refire [of _ 0])
    (simp_all add: save_state_def ex_tick_def ex_rotate_def ex_commit_def order_less_imp_le [OF durations_pos(3)])

section \<open>When the row fails\<close>

text \<open>A rotation that cannot read its row forgets every scheduled generation. It then keeps
  the current generation, the fresh one and the node's own key only, so a cookie signed with the
  previous generation stops verifying however recently that one stopped minting.\<close>

theorem unreadable_row_drops_scheduled_keys:
  assumes "rotate_prepare env trig actor c = Inr (p, c')" "\<not> re_read env" "k \<in> set (kr_keys (kc_ring (rt_keys c')))"
  shows "sk_id k \<in> {sto_currentID (kc_stored (rt_keys c)), ss_id (pr_fresh p), sk_id (kr_bootstrap (kc_ring (rt_keys c)))}"
  using assms(1)
proof (cases rule: rotate_prepare_cases)
  case (ready p' c1 k1 fresh)
  from ready(1) have eqs: "p' = p" "c1 = c'" by simp_all
  note ok = apply_and_persist_ok [OF ready(6)]
  obtain keys where keys: "decode_secrets (sto_secrets (pr_distributed p')) = Inr keys"
    "kr_keys (kc_ring k1) = (if sk_key (kr_bootstrap (kc_ring (rt_keys c))) \<noteq> [] then keys @ [kr_bootstrap (kc_ring (rt_keys c))] else keys)"
    using set_secrets_ring [OF ok(4)] by auto
  have "k \<in> set keys \<or> k = kr_bootstrap (kc_ring (rt_keys c))"
    using assms(3) keys(2) ready(2) eqs by (auto split: if_splits)
  moreover have "sk_id k \<in> ss_id ` set (sto_secrets (pr_distributed p'))" if "k \<in> set keys"
    using that decode_secrets_ids [OF keys(1)] by (metis image_eqI image_set)
  ultimately show ?thesis
    using ready(7,8) assms(2) eqs by (auto simp: prune_uncommitted_def load_state_def zero_state_def)
qed simp_all

definition ex_unreadable :: rotate_env where
  "ex_unreadable = ex_rotate\<lparr>re_now := 2 * hour, re_read := False, re_fresh := Some (ex_secret ''c'' (CHR ''2''))\<rparr>"

lemma ex_third_decodes [simp]:
  "decode_secret (ex_secret ''c'' (CHR ''2'')) = Inr (ex_key ''c'' 2)" "secret_well_formed (ex_secret ''c'' (CHR ''2''))"
  unfolding ex_key_def by (rule ex_secret_decodes; simp add: hex_val_def node_local_session_key_id_def)+

lemmas rotation_evals = rotate_prepare_def ex_world_simps ex_started_rotor ex_rotate_def ex_eval ex_stored_def
  ex_ring_def load_state_def zero_state_def prune_uncommitted_def apply_and_persist_def await_acks_def push_to_def
  rotate_finish_def ex_commit_def save_state_def audit_def abort_rotation_def committed_def table_simps

lemma ex_rotated_keys:
  "kc_stored (rt_keys (kw_rotor ex_rotated)) = ex_stored ''b'' [ex_secret ''a'' (CHR ''0''), ex_secret ''b'' (CHR ''1'')]"
  "kc_ring (rt_keys (kw_rotor ex_rotated)) = ex_ring [ex_key ''a'' 0, ex_key ''b'' 1] (ex_key ''b'' 1)"
  unfolding ex_rotated_def ex_distributed_def ex_prepared_def by (simp_all add: rotation_evals)

lemma unreadable_row_drops_scheduled_keys_witness:
  "ex_key ''a'' 0 \<in> set (kr_keys (ring_of ex_rotated)) \<and>
   ex_key ''a'' 0 \<notin> set (kr_keys (kc_ring (rt_keys (snd (projr (rotate_prepare ex_unreadable Manual ''admin'' (kw_rotor ex_rotated)))))))"
proof
  show "ex_key ''a'' 0 \<in> set (kr_keys (ring_of ex_rotated))" by (simp add: ex_rotated_keys ex_ring_def)
  let ?r = "projr (rotate_prepare ex_unreadable Manual ''admin'' (kw_rotor ex_rotated))"
  have r: "rotate_prepare ex_unreadable Manual ''admin'' (kw_rotor ex_rotated) = Inr (fst ?r, snd ?r)"
    "ss_id (pr_fresh (fst ?r)) = ''c''"
    by (simp_all add: ex_unreadable_def ex_rotated_keys rotation_evals)
  show "ex_key ''a'' 0 \<notin> set (kr_keys (kc_ring (rt_keys (snd ?r))))"
  proof
    assume "ex_key ''a'' 0 \<in> set (kr_keys (kc_ring (rt_keys (snd ?r))))"
    from unreadable_row_drops_scheduled_keys [OF r(1) _ this] r(2) show False
      by (simp add: ex_unreadable_def ex_rotated_keys ex_stored_def ex_ring_def node_local_session_key_id_def)
  qed
qed

text \<open>A switch that could not be written has happened all the same. The rotation reports that
  it aborted and the stored set is unchanged, but the control plane's own ring already mints
  with the fresh generation; the next rotation drops that generation as one nothing was signed
  with, and the cookies minted in between stop verifying.\<close>

theorem unrecorded_switch_mints_and_is_dropped:
  assumes "rotate_finish env p c = (o', c')" "\<not> ce_persist env" "ce_abort_read env"
    and "stored_valid (pr_distributed p)" "pr_fresh p \<in> set (sto_secrets (pr_distributed p))"
    and "\<forall>x \<in> set (sto_secrets (pr_distributed p)). ss_id x \<noteq> node_local_session_key_id"
    and "rotate_prepare env2 trig actor c' = Inr (p2, c2)" "re_read env2"
    and "get (rn_retirements (rt_state c)) (ss_id (pr_fresh p)) = None" "sto_currentID (kc_stored (rt_keys c)) \<noteq> ss_id (pr_fresh p)"
    and "ss_id (pr_fresh p2) \<noteq> ss_id (pr_fresh p)" "sk_id (kr_bootstrap (kc_ring (rt_keys c))) \<noteq> ss_id (pr_fresh p)"
  shows "\<not> committed o' \<and> kc_stored (rt_keys c') = kc_stored (rt_keys c) \<and>
    sk_id (kr_current (kc_ring (rt_keys c'))) = ss_id (pr_fresh p) \<and>
    kr_current (kc_ring (rt_keys c')) \<notin> set (kr_keys (kc_ring (rt_keys c2)))"
proof -
  let ?s = "\<lparr>sto_currentID = ss_id (pr_fresh p), sto_secrets = sto_secrets (pr_distributed p)\<rparr>"
  have "ss_id (pr_fresh p) \<noteq> []" using assms(4,5) by (auto simp: stored_valid_def list_all_iff secret_well_formed_def)
  then have valid: "stored_valid ?s" using assms(4,5) by (auto simp: stored_valid_def list_ex_iff)
  obtain ring where ring: "set_visitor_session_secrets (sto_secrets ?s) (sto_currentID ?s) (kc_ring (rt_keys c)) = Inr ring"
    using set_secrets_accepts [OF valid] assms(6) by fastforce
  have ap: "apply_and_persist (ce_persist env) ?s (rt_keys c) = (Some Write_failed, (rt_keys c)\<lparr>kc_ring := ring\<rparr>)"
    using valid ring assms(2) by (simp add: apply_and_persist_def Let_def)
  then have fin: "abort_rotation True (ce_abort_read env) (ce_abort_save env) (pr_outcome p)
      (Switch_not_recorded (ss_id (pr_fresh p)) Write_failed) (c\<lparr>rt_keys := (rt_keys c)\<lparr>kc_ring := ring\<rparr>\<rparr>) = (o', c')"
    using assms(1) by (simp add: rotate_finish_def Let_def)
  note frame = abort_rotation_frame [OF fin]
  have keys': "kc_ring (rt_keys c') = ring" "kc_stored (rt_keys c') = kc_stored (rt_keys c)"
    "rn_retirements (rt_state c') = rn_retirements (rt_state c)"
    using frame(1,3) assms(3) by simp_all
  have minting: "sk_id (kr_current ring) = ss_id (pr_fresh p)" "kr_bootstrap ring = kr_bootstrap (kc_ring (rt_keys c))"
    using set_secrets_ring [OF ring] by auto
  from assms(7) have "kr_current ring \<notin> set (kr_keys (kc_ring (rt_keys c2)))"
  proof (cases rule: rotate_prepare_cases)
    case (ready p' c1 k1 fresh)
    from ready(1) have eqs: "p' = p2" "c1 = c2" by simp_all
    note ok = apply_and_persist_ok [OF ready(6)]
    obtain ks where ks: "decode_secrets (sto_secrets (pr_distributed p2)) = Inr ks"
      "kr_keys (kc_ring k1) = (if sk_key (kr_bootstrap ring) \<noteq> [] then ks @ [kr_bootstrap ring] else ks)"
      using set_secrets_ring [OF ok(4)] keys'(1) eqs by auto
    have "ss_id (pr_fresh p) \<notin> ss_id ` set (sto_secrets (pr_distributed p2))"
      using ready(7,8) eqs assms(8-11) keys'(2,3) by (auto simp: prune_uncommitted_def load_state_def)
    then have "kr_current ring \<notin> set ks"
      using minting(1) decode_secrets_ids [OF ks(1)] by (metis image_eqI image_set)
    moreover have "kr_current ring \<noteq> kr_bootstrap ring" using minting assms(12) by auto
    ultimately show ?thesis using ks(2) ready(2) eqs by simp
  qed simp_all
  then show ?thesis using frame(2) keys' minting(1) by simp
qed

definition ex_unwritten :: commit_env where "ex_unwritten = ex_commit\<lparr>ce_persist := False\<rparr>"
definition ex_again :: rotate_env where
  "ex_again = ex_rotate\<lparr>re_now := 2 * hour, re_fresh := Some (ex_secret ''c'' (CHR ''2''))\<rparr>"
definition ex_switched :: rotor where
  "ex_switched = snd (rotate_finish ex_unwritten (fst ex_prepared) (snd ex_prepared))"

lemma unrecorded_switch_mints_and_is_dropped_witness:
  "kr_current (kc_ring (rt_keys ex_switched))
   \<notin> set (kr_keys (kc_ring (rt_keys (snd (projr (rotate_prepare ex_again Manual ''admin'' ex_switched))))))"
proof -
  let ?p = "fst ex_prepared" and ?c = "snd ex_prepared"
  let ?r = "projr (rotate_prepare ex_again Manual ''admin'' ex_switched)"
  have pc: "pr_distributed ?p = ex_stored ''a'' [ex_secret ''a'' (CHR ''0''), ex_secret ''b'' (CHR ''1'')]"
    "pr_fresh ?p = ex_secret ''b'' (CHR ''1'')" "rn_retirements (rt_state ?c) = []" "sto_currentID (kc_stored (rt_keys ?c)) = ''a''"
    "sk_id (kr_bootstrap (kc_ring (rt_keys ?c))) = node_local_session_key_id"
    unfolding ex_prepared_def by (simp_all add: rotation_evals)
  have r: "rotate_prepare ex_again Manual ''admin'' ex_switched = Inr (fst ?r, snd ?r)" "ss_id (pr_fresh (fst ?r)) = ''c''"
    unfolding ex_switched_def ex_prepared_def by (simp_all add: ex_again_def ex_unwritten_def rotation_evals)
  obtain o' where fin: "rotate_finish ex_unwritten ?p ?c = (o', ex_switched)"
    unfolding ex_switched_def by (metis prod.collapse)
  show ?thesis
    using unrecorded_switch_mints_and_is_dropped [OF fin _ _ _ _ _ r(1)] r(2)
    by (simp add: pc ex_unwritten_def ex_commit_def ex_again_def ex_rotate_def ex_stored_def stored_valid_def
        max_accepted_secrets_def node_local_session_key_id_def table_simps)
qed

text \<open>A committed rotation writes back the due instant it read when it began. Whatever the
  sweep has written to the row while the rotation waited for acknowledgements is undone, so a
  due instant the sweep had already advanced is due again.\<close>

theorem commit_rewinds_schedule:
  assumes "rotate_prepare env trig actor c0 = Inr (p, c1)" "re_read env"
    and "rotate_finish cenv p c2 = (o', c3)" "committed o'" "ce_save cenv"
  shows "rn_next (rt_state c3) = rn_next (rt_state c0) \<and> rn_aborts (rt_state c3) = rn_aborts (rt_state c0)"
proof -
  have p: "pr_state p = rt_state c0" using assms(1)
  proof (cases rule: rotate_prepare_cases)
    case (ready p' c1 k fresh)
    then show ?thesis using assms(2) by (simp add: load_state_def)
  qed simp_all
  obtain r k' where ap: "apply_and_persist (ce_persist cenv)
      \<lparr>sto_currentID = ss_id (pr_fresh p), sto_secrets = sto_secrets (pr_distributed p)\<rparr> (rt_keys c2) = (r, k')"
    by (metis prod.collapse)
  show ?thesis
  proof (cases r)
    case (Some e)
    with assms(3) ap have "abort_rotation True (ce_abort_read cenv) (ce_abort_save cenv) (pr_outcome p)
        (Switch_not_recorded (ss_id (pr_fresh p)) e) (c2\<lparr>rt_keys := k'\<rparr>) = (o', c3)"
      by (simp add: rotate_finish_def Let_def)
    from abort_rotation_frame(2) [OF this] assms(4) show ?thesis by simp
  next
    case None
    then show ?thesis using assms(3,5) ap p
      by (auto simp: rotate_finish_def Let_def save_state_def push_to_def audit_def)
  qed
qed

lemma commit_rewinds_schedule_witness:
  "rn_next (rt_state (snd (rotate_finish ex_commit (fst ex_prepared)
     (save_state True (zero_state\<lparr>rn_next := Some (24 * hour)\<rparr>) (snd ex_prepared))))) = None"
proof -
  let ?c2 = "save_state True (zero_state\<lparr>rn_next := Some (24 * hour)\<rparr>) (snd ex_prepared)"
  obtain o' c3 where fin: "rotate_finish ex_commit (fst ex_prepared) ?c2 = (o', c3)" by (metis prod.collapse)
  have "committed (fst (rotate_finish ex_commit (fst ex_prepared) ?c2))"
    unfolding ex_prepared_def by (simp add: rotation_evals)
  then have "committed o'" using fin by simp
  moreover have "rotate_prepare ex_rotate Manual ''admin'' (kw_rotor ex_minted) = Inr (fst ex_prepared, snd ex_prepared)"
    using ex_prepare_ready(1) by simp
  ultimately have "rn_next (rt_state c3) = rn_next (rt_state (kw_rotor ex_minted))"
    using commit_rewinds_schedule [of ex_rotate Manual "''admin''" "kw_rotor ex_minted" "fst ex_prepared" "snd ex_prepared", OF _ _ fin]
    by (simp add: ex_rotate_def ex_commit_def)
  then show ?thesis using fin by (simp add: ex_world_simps ex_started_rotor zero_state_def)
qed

end
