(* ===== verification/Net_Addr.thy ===== *)
theory Net_Addr
  imports Prelude
begin

text \<open>
  Addresses and prefixes, as the gateway's trust rules read them with two packages of the
  standard library that do not accept the same texts: \<open>net/netip\<close> (\<open>ParseAddr\<close>,
  \<open>ParsePrefix\<close>) and \<open>net\<close> (\<open>ParseIP\<close>, \<open>ParseCIDR\<close>, \<open>IPNet.Contains\<close>). An IPv4 address is
  a 32-bit word, an IPv6 address a 128-bit word with its zone.
\<close>

unbundle bit_operations_syntax

section \<open>Addresses\<close>

datatype ip_addr = V4 "32 word" | V6 "128 word" string

text \<open>\<open>parseIPv4Fields\<close>: four decimal octets without leading zeros.\<close>

definition parse_octet :: "string \<Rightarrow> nat option" where
  "parse_octet s =
     (if s = [] \<or> \<not> list_all is_digit s then None
      else if 1 < length s \<and> hd s = CHR ''0'' then None
      else if 255 < digits_val s then None
      else Some (digits_val s))"

definition parse_v4_fields :: "string \<Rightarrow> (nat \<times> nat \<times> nat \<times> nat) option" where
  "parse_v4_fields s =
     (case those (map parse_octet (split_on (CHR ''.'') s)) of
        Some [a, b, c, d] \<Rightarrow> Some (a, b, c, d)
      | _ \<Rightarrow> None)"

definition hex_char :: "char \<Rightarrow> nat option" where
  "hex_char c = (let n = of_char c :: nat in
     if 48 \<le> n \<and> n \<le> 57 then Some (n - 48)
     else if 97 \<le> n \<and> n \<le> 102 then Some (n - 87)
     else if 65 \<le> n \<and> n \<le> 70 then Some (n - 55)
     else None)"

definition is_hex :: "char \<Rightarrow> bool" where "is_hex c \<longleftrightarrow> hex_char c \<noteq> None"

definition hex_num :: "string \<Rightarrow> nat" where
  "hex_num s = foldl (\<lambda>a c. 16 * a + the (hex_char c)) 0 s"

text \<open>
  The loop of \<open>parseIPv6\<close>: at most \<open>n\<close> more groups of 16 bits, the groups so far, the place
  of the ellipsis, and the text still to read.
\<close>

fun v6_loop :: "nat \<Rightarrow> nat list \<Rightarrow> nat option \<Rightarrow> string \<Rightarrow> (nat list \<times> nat option \<times> string) option" where
  "v6_loop 0 gs e s = Some (gs, e, s)"
| "v6_loop (Suc n) gs e s =
     (let h = takeWhile is_hex s; rest = dropWhile is_hex s in
      if h = [] \<or> 4 < length h then None
      else if rest \<noteq> [] \<and> hd rest = CHR ''.'' then
        (if e = None \<and> length gs \<noteq> 6 then None
         else if 6 < length gs then None
         else case parse_v4_fields s of
                None \<Rightarrow> None
              | Some (a, b, c, d) \<Rightarrow> Some (gs @ [256 * a + b, 256 * c + d], e, []))
      else let gs' = gs @ [hex_num h] in
        if rest = [] then Some (gs', e, [])
        else if hd rest \<noteq> CHR '':'' \<or> length rest = 1 then None
        else let s2 = tl rest in
          if hd s2 = CHR '':'' then
            (if e \<noteq> None then None
             else if tl s2 = [] then Some (gs', Some (length gs'), [])
             else v6_loop n gs' (Some (length gs')) (tl s2))
          else v6_loop n gs' e s2)"

definition groups_word :: "nat list \<Rightarrow> 128 word" where
  "groups_word gs = word_of_nat (foldl (\<lambda>a g. 65536 * a + g) 0 gs)"

definition parse_v6 :: "string \<Rightarrow> ip_addr option" where
  "parse_v6 text0 =
     (let s0 = takeWhile (\<lambda>c. c \<noteq> CHR ''%'') text0; z = dropWhile (\<lambda>c. c \<noteq> CHR ''%'') text0; zone = drop 1 z in
      if z \<noteq> [] \<and> zone = [] then None
      else
        (let lead = has_prefix s0 ''::''; s = (if lead then drop 2 s0 else s0) in
         if lead \<and> s = [] then Some (V6 0 zone)
         else case v6_loop 8 [] (if lead then Some 0 else None) s of
                None \<Rightarrow> None
              | Some (gs, e, rest) \<Rightarrow>
                  (if rest \<noteq> [] then None
                   else if length gs < 8 then
                     (case e of None \<Rightarrow> None
                      | Some p \<Rightarrow> Some (V6 (groups_word (take p gs @ replicate (8 - length gs) 0 @ drop p gs)) zone))
                   else if e \<noteq> None then None
                   else Some (V6 (groups_word gs) zone))))"

text \<open>\<open>netip.ParseAddr\<close>: the first of the three characters decides.\<close>

definition parse_addr :: "string \<Rightarrow> ip_addr option" where
  "parse_addr s =
     (case find (\<lambda>c. c = CHR ''.'' \<or> c = CHR '':'' \<or> c = CHR ''%'') s of
        None \<Rightarrow> None
      | Some c \<Rightarrow>
          (if c = CHR ''.'' then
             (case parse_v4_fields s of None \<Rightarrow> None
              | Some (a, b, c, d) \<Rightarrow> Some (V4 (word_of_nat (((a * 256 + b) * 256 + c) * 256 + d))))
           else if c = CHR '':'' then parse_v6 s
           else None))"

fun addr_bits :: "ip_addr \<Rightarrow> nat" where
  "addr_bits (V4 _) = 32"
| "addr_bits (V6 _ _) = 128"

fun has_zone :: "ip_addr \<Rightarrow> bool" where
  "has_zone (V4 _) = False"
| "has_zone (V6 _ z) = (z \<noteq> [])"

text \<open>\<open>net.ParseIP\<close> and \<open>IP.To4\<close>: an address of package \<open>net\<close> has one form for IPv4, whether it
  was written as such or mapped into IPv6.\<close>

datatype host_addr = H4 "32 word" | H6 "128 word"

definition is_mapped :: "128 word \<Rightarrow> bool" where "is_mapped w \<longleftrightarrow> drop_bit 32 w = 0xFFFF"

fun host_of :: "ip_addr \<Rightarrow> host_addr" where
  "host_of (V4 w) = H4 w"
| "host_of (V6 w z) = (if is_mapped w then H4 (ucast w) else H6 w)"

definition parse_ip :: "string \<Rightarrow> host_addr option" where
  "parse_ip s = (case parse_addr s of None \<Rightarrow> None | Some a \<Rightarrow> if has_zone a then None else Some (host_of a))"

section \<open>Prefixes of package netip\<close>

datatype addr_prefix = Prefix4 "32 word" nat | Prefix6 "128 word" nat

fun prefix_bits :: "addr_prefix \<Rightarrow> nat" where
  "prefix_bits (Prefix4 _ n) = n"
| "prefix_bits (Prefix6 _ n) = n"

definition clear_low :: "nat \<Rightarrow> 'a :: len word \<Rightarrow> 'a word" where
  "clear_low n w = push_bit n (drop_bit n w)"

fun masked :: "addr_prefix \<Rightarrow> addr_prefix" where
  "masked (Prefix4 w n) = Prefix4 (clear_low (32 - n) w) n"
| "masked (Prefix6 w n) = Prefix6 (clear_low (128 - n) w) n"

fun is_single_ip :: "addr_prefix \<Rightarrow> bool" where
  "is_single_ip (Prefix4 _ n) = (n = 32)"
| "is_single_ip (Prefix6 _ n) = (n = 128)"

text \<open>\<open>Prefix.Contains\<close> of another prefix's base address: never across the families.\<close>

fun prefix_contains :: "addr_prefix \<Rightarrow> addr_prefix \<Rightarrow> bool" where
  "prefix_contains (Prefix4 p n) (Prefix4 a _) = (drop_bit (32 - n) p = drop_bit (32 - n) a)"
| "prefix_contains (Prefix6 p n) (Prefix6 a _) = (drop_bit (128 - n) p = drop_bit (128 - n) a)"
| "prefix_contains _ _ = False"

definition split_last_slash :: "string \<Rightarrow> (string \<times> string) option" where
  "split_last_slash s =
     (case rev (split_on (CHR ''/'') s) of
        b # a # rest \<Rightarrow> Some (join ''/'' (rev (a # rest)), b)
      | _ \<Rightarrow> None)"

text \<open>\<open>netip.ParsePrefix\<close> refuses a length written with a sign or a leading zero.\<close>

definition parse_bits :: "string \<Rightarrow> nat option" where
  "parse_bits s =
     (if s = [] \<or> \<not> list_all is_digit s then None
      else if 1 < length s \<and> hd s = CHR ''0'' then None
      else Some (digits_val s))"

definition parse_prefix :: "string \<Rightarrow> addr_prefix option" where
  "parse_prefix s =
     (case split_last_slash s of
        None \<Rightarrow> None
      | Some (a, b) \<Rightarrow>
          (case (parse_addr a, parse_bits b) of
             (Some (V4 w), Some n) \<Rightarrow> if n \<le> 32 then Some (Prefix4 w n) else None
           | (Some (V6 w z), Some n) \<Rightarrow> if z = [] \<and> n \<le> 128 then Some (Prefix6 w n) else None
           | _ \<Rightarrow> None))"

section \<open>Networks of package net\<close>

datatype ip_net = Net4 "32 word" nat | Net6 "128 word" nat

text \<open>\<open>dtoi\<close> reads any run of digits below the library's bound, leading zeros included.\<close>

definition dtoi_all :: "string \<Rightarrow> nat option" where
  "dtoi_all s = (if s = [] \<or> \<not> list_all is_digit s \<or> 0xFFFFFF \<le> digits_val s then None else Some (digits_val s))"

text \<open>\<open>networkNumberAndMask\<close>: a network whose base is a mapped IPv4 address is an IPv4 network.\<close>

definition net_of_v6 :: "128 word \<Rightarrow> nat \<Rightarrow> ip_net" where
  "net_of_v6 w n =
     (let base = clear_low (128 - n) w
      in if is_mapped base then Net4 (ucast base) (n - 96) else Net6 base n)"

definition split_first_slash :: "string \<Rightarrow> (string \<times> string) option" where
  "split_first_slash s =
     (case split_on (CHR ''/'') s of
        a # b # rest \<Rightarrow> Some (a, join ''/'' (b # rest))
      | _ \<Rightarrow> None)"

definition parse_cidr :: "string \<Rightarrow> ip_net option" where
  "parse_cidr s =
     (case split_first_slash s of
        None \<Rightarrow> None
      | Some (a, b) \<Rightarrow>
          (case (parse_addr a, dtoi_all b) of
             (Some (V4 w), Some n) \<Rightarrow> if n \<le> 32 then Some (Net4 (clear_low (32 - n) w) n) else None
           | (Some (V6 w z), Some n) \<Rightarrow> if z = [] \<and> n \<le> 128 then Some (net_of_v6 w n) else None
           | _ \<Rightarrow> None))"

fun net_contains :: "ip_net \<Rightarrow> host_addr \<Rightarrow> bool" where
  "net_contains (Net4 b n) (H4 a) = (drop_bit (32 - n) a = drop_bit (32 - n) b)"
| "net_contains (Net6 b n) (H6 a) = (drop_bit (128 - n) a = drop_bit (128 - n) b)"
| "net_contains _ _ = False"

section \<open>Facts\<close>

lemmas v6_step = v6_loop.simps(2) [of "pred_numeral v" for v, folded numeral_eq_Suc]

lemma replicate_step: "replicate (numeral v) x = x # replicate (pred_numeral v) x"
  by (simp add: numeral_eq_Suc)

lemmas net_evals = v6_step replicate_step Let_def parse_addr_def parse_v4_fields_def parse_octet_def parse_v6_def is_hex_def hex_char_def hex_num_def
  groups_word_def parse_ip_def is_mapped_def clear_low_def split_last_slash_def parse_bits_def parse_prefix_def
  dtoi_all_def net_of_v6_def split_first_slash_def parse_cidr_def is_digit_def digits_val_def digit_val_def has_prefix_def

lemma drop_clear_low [simp]: "drop_bit n (clear_low n w) = drop_bit n (w :: 'a :: len word)"
  unfolding clear_low_def
  by (rule bit_eqI) (auto simp: bit_drop_bit_eq bit_push_bit_iff dest: bit_imp_le_length)

lemma drop_bit_le:
  fixes v w :: "'a :: len word"
  assumes "drop_bit m v = drop_bit m w" "m \<le> n"
  shows "drop_bit n v = drop_bit n w"
proof -
  have "drop_bit n x = drop_bit (n - m) (drop_bit m x)" for x :: "'a word"
    using assms(2) by (simp add: drop_bit_drop_bit)
  then show ?thesis using assms(1) by metis
qed

lemma split_slash_same:
  assumes "split_first_slash s = Some (a, b)" "list_all is_digit b"
  shows "split_last_slash s = Some (a, b)"
proof -
  obtain x r where sp: "split_on (CHR ''/'') s = a # x # r" "b = join ''/'' (x # r)"
    using assms(1) by (auto simp: split_first_slash_def split: list.splits)
  have "r = []"
  proof (rule ccontr)
    assume "r \<noteq> []"
    then have "CHR ''/'' \<in> set b" using sp(2) by (cases r) auto
    then show False using assms(2) by (auto simp: list_all_iff is_digit_def)
  qed
  with sp show ?thesis by (simp add: split_last_slash_def)
qed

end
