(* ===== verification/Client_IP.thy ===== *)
theory Client_IP
  imports Net_Addr
begin

text \<open>
  Whose forwarding headers the gateway believes: the width rule of a trust set
  (\<open>pkg/nettrust/width.go\<close>), the trusted matchers and the client address
  (\<open>pkg/server/client_ip.go\<close>).
\<close>

section \<open>The width rule\<close>

definition private_blocks :: "addr_prefix list" where
  "private_blocks =
     [Prefix4 0x0A000000 8, Prefix4 0xAC100000 12, Prefix4 0xC0A80000 16, Prefix4 0x64400000 10,
      Prefix4 0xA9FE0000 16, Prefix4 0x7F000000 8,
      Prefix6 0xFC000000000000000000000000000000 7, Prefix6 0xFE800000000000000000000000000000 10,
      Prefix6 1 128]"

text \<open>\<open>TooWide\<close>: the length of the offending range, or nothing.\<close>

definition too_wide :: "string \<Rightarrow> nat option" where
  "too_wide entry0 =
     (let entry = trim_space entry0
      in if entry = [] then None
         else if parse_addr entry \<noteq> None then None
         else case parse_prefix entry of
           None \<Rightarrow> None
         | Some p0 \<Rightarrow>
             (let p = masked p0
              in if is_single_ip p then None
                 else if list_ex (\<lambda>b. prefix_bits b \<le> prefix_bits p \<and> prefix_contains b p) private_blocks then None
                 else Some (prefix_bits p)))"

definition trusted_proxy_width_error :: "string list \<Rightarrow> (string \<times> nat) option" where
  "trusted_proxy_width_error entries =
     (case filter (\<lambda>e. too_wide (trim_space e) \<noteq> None) entries of
        [] \<Rightarrow> None
      | e # _ \<Rightarrow> Some (trim_space e, the (too_wide (trim_space e))))"

section \<open>The matchers\<close>

definition default_trusted_proxies :: "string list" where
  "default_trusted_proxies = [''127.0.0.1/32'', ''::1/128'']"

definition with_host_bits :: "string \<Rightarrow> string" where
  "with_host_bits entry =
     (if CHR ''/'' \<in> set entry then entry
      else case parse_ip entry of
        None \<Rightarrow> entry
      | Some (H4 _) \<Rightarrow> entry @ ''/32''
      | Some (H6 _) \<Rightarrow> entry @ ''/128'')"

definition parse_trusted_proxy :: "string \<Rightarrow> ip_net option" where
  "parse_trusted_proxy entry0 =
     (let entry = trim_space entry0
      in if entry = [] then None
         else if too_wide entry \<noteq> None then None
         else parse_cidr (with_host_bits entry))"

definition parse_trusted_proxies :: "string list \<Rightarrow> ip_net list" where
  "parse_trusted_proxies entries =
     List.map_filter parse_trusted_proxy (if entries = [] then default_trusted_proxies else entries)"

definition is_trusted_proxy :: "string \<Rightarrow> ip_net list \<Rightarrow> bool" where
  "is_trusted_proxy ip trusted =
     (case parse_ip (trim_space ip) of
        None \<Rightarrow> False
      | Some a \<Rightarrow> list_ex (\<lambda>n. net_contains n a) trusted)"

section \<open>The client address\<close>

type_synonym headers = "(string, string list) table"

definition header_get :: "headers \<Rightarrow> string \<Rightarrow> string" where
  "header_get h k = (case get h k of Some (v # _) \<Rightarrow> v | _ \<Rightarrow> [])"

text \<open>\<open>net.SplitHostPort\<close>.\<close>

definition split_host_port :: "string \<Rightarrow> (string \<times> string) option" where
  "split_host_port hp =
     (if CHR '':'' \<notin> set hp then None
      else
        (let port = rev (takeWhile (\<lambda>c. c \<noteq> CHR '':'') (rev hp));
             i = length hp - length port - 1
         in if hd hp = CHR ''['' then
              (let e = length (takeWhile (\<lambda>c. c \<noteq> CHR '']'') hp)
               in if e = length hp \<or> e + 1 \<noteq> i then None
                  else if CHR ''['' \<in> set (drop 1 hp) \<or> CHR '']'' \<in> set (drop (e + 1) hp) then None
                  else Some (drop 1 (take e hp), port))
            else
              (if CHR '':'' \<in> set (take i hp) \<or> CHR ''['' \<in> set hp \<or> CHR '']'' \<in> set hp then None
               else Some (take i hp, port))))"

definition peer_address :: "string \<Rightarrow> string" where
  "peer_address remote =
     (case split_host_port remote of
        None \<Rightarrow> remote
      | Some (host, _) \<Rightarrow> if host = [] then remote else host)"

text \<open>The walk from the right: the nearest hop that is not itself trusted.\<close>

definition nearest_untrusted :: "ip_net list \<Rightarrow> string list \<Rightarrow> string option" where
  "nearest_untrusted trusted parts =
     find (\<lambda>c. c \<noteq> [] \<and> \<not> is_trusted_proxy c trusted) (map trim_space (rev parts))"

definition client_ip_from :: "ip_net list \<Rightarrow> string \<Rightarrow> headers \<Rightarrow> string" where
  "client_ip_from trusted remote h =
     (let peer = peer_address remote;
          realIP = trim_space (header_get h ''X-Real-Ip'');
          xff = header_get h ''X-Forwarded-For''
      in if \<not> is_trusted_proxy peer trusted then peer
         else if realIP \<noteq> [] then realIP
         else if xff = [] then peer
         else case nearest_untrusted trusted (split_on (CHR '','') xff) of
                Some c \<Rightarrow> c | None \<Rightarrow> peer)"

text \<open>\<open>trustsNonLoopbackProxies\<close>.\<close>

fun net_base_loopback :: "ip_net \<Rightarrow> bool" where
  "net_base_loopback (Net4 b _) = (drop_bit 24 b = 127)"
| "net_base_loopback (Net6 b _) = (b = 1)"

definition trusts_non_loopback_proxies :: "ip_net list \<Rightarrow> bool" where
  "trusts_non_loopback_proxies trusted \<longleftrightarrow> list_ex (\<lambda>n. \<not> net_base_loopback n) trusted"

section \<open>What a trust set can reach\<close>

text \<open>An address no host on the internet can occupy.\<close>

fun private_address :: "host_addr \<Rightarrow> bool" where
  "private_address (H4 a) = list_ex (\<lambda>b. prefix_contains b (Prefix4 a 32)) private_blocks"
| "private_address (H6 a) = list_ex (\<lambda>b. prefix_contains b (Prefix6 a 128)) private_blocks"

text \<open>A length written with a leading zero, which the two packages read differently.\<close>

definition padded_length :: "string \<Rightarrow> bool" where
  "padded_length entry \<longleftrightarrow>
     (case split_first_slash (trim_space entry) of
        None \<Rightarrow> False
      | Some (_, b) \<Rightarrow> 1 < length b \<and> hd b = CHR ''0'')"

end
