(* ===== verification/Ban_Guard.thy ===== *)
theory Ban_Guard
  imports Client_IP Complex_Main
begin

text \<open>
  The gateway's first line of defence: the violation count of each address and its cleaner
  (\<open>server_ratelimit.go\<close>), the blacklist cache (\<open>pkg/server/blacklist.go\<close>) over the stored bans
  (\<open>pkg/db/blacklist.go\<close>), and the gate of \<open>ServeHTTP\<close> that puts them together. The token bucket
  is a library's: whether it allows a request is an input. A float64 factor is a rational.
\<close>

section \<open>Violations\<close>

definition violation_window :: duration where "violation_window = hour"

record violations_entry =
  vi_count :: nat
  vi_lastSeen :: time

definition record_violation ::
  "time \<Rightarrow> string \<Rightarrow> (string, violations_entry) table \<Rightarrow> nat \<times> (string, violations_entry) table" where
  "record_violation now ip vs =
     (let e0 = (case get vs ip of
                  None \<Rightarrow> 0
                | Some e \<Rightarrow> if violation_window < now - vi_lastSeen e then 0 else vi_count e)
      in (e0 + 1, put ip \<lparr>vi_count = e0 + 1, vi_lastSeen = now\<rparr> vs))"

definition clean_violations :: "time \<Rightarrow> (string, violations_entry) table \<Rightarrow> (string, violations_entry) table" where
  "clean_violations now vs = filter (\<lambda>(ip, e). \<not> violation_window < now - vi_lastSeen e) vs"

text \<open>The limiters kept per address, by the time each was last asked for.\<close>

definition touch_limiter :: "time \<Rightarrow> string \<Rightarrow> (string, time) table \<Rightarrow> (string, time) table" where
  "touch_limiter now ip ls = put ip now ls"

definition clean_limiters :: "time \<Rightarrow> (string, time) table \<Rightarrow> (string, time) table" where
  "clean_limiters now ls = filter (\<lambda>(ip, seen). \<not> violation_window < now - seen) ls"

section \<open>The stored bans\<close>

record ban_row =
  br_reason :: string
  br_bannedBy :: string
  br_bannedAt :: time
  br_expiresAt :: "time option"
  br_banCount :: nat

type_synonym ban_rows = "(string, ban_row) table"

text \<open>\<open>INSERT OR IGNORE\<close>: an address that has a row keeps it.\<close>

definition add_blacklist_ip :: "time \<Rightarrow> string \<Rightarrow> string \<Rightarrow> ban_rows \<Rightarrow> ban_rows" where
  "add_blacklist_ip now ip reason rows =
     (if get rows ip \<noteq> None then rows
      else put ip \<lparr>br_reason = reason, br_bannedBy = [], br_bannedAt = now, br_expiresAt = None, br_banCount = 0\<rparr> rows)"

definition ban_count :: "ban_rows \<Rightarrow> string \<Rightarrow> nat" where
  "ban_count rows ip = (case get rows ip of None \<Rightarrow> 0 | Some r \<Rightarrow> br_banCount r)"

definition cap_duration :: "duration \<Rightarrow> duration \<Rightarrow> duration" where
  "cap_duration d maxDuration = (if 0 < maxDuration \<and> maxDuration < d then maxDuration else d)"

fun escalate_loop :: "rat \<Rightarrow> duration \<Rightarrow> nat \<Rightarrow> rat \<Rightarrow> duration + rat" where
  "escalate_loop factor maxDuration 0 d = Inr d"
| "escalate_loop factor maxDuration (Suc n) d =
     (let d' = d * factor
      in if 0 < maxDuration \<and> of_int maxDuration \<le> d' then Inl maxDuration
         else escalate_loop factor maxDuration n d')"

definition escalated_ban_duration :: "duration \<Rightarrow> rat \<Rightarrow> duration \<Rightarrow> nat \<Rightarrow> duration" where
  "escalated_ban_duration base factor maxDuration banCount =
     (let n = (if banCount < 1 then 1 else banCount)
      in if factor \<le> 1 then cap_duration base maxDuration
         else case escalate_loop factor maxDuration (n - 1) (of_int base) of
                Inl m \<Rightarrow> m
              | Inr d \<Rightarrow> cap_duration (if 0 \<le> d then \<lfloor>d\<rfloor> else \<lceil>d\<rceil>) maxDuration)"

definition add_auto_ban ::
  "time \<Rightarrow> string \<Rightarrow> string \<Rightarrow> duration \<Rightarrow> rat \<Rightarrow> duration \<Rightarrow> ban_rows \<Rightarrow> ban_row \<times> ban_rows" where
  "add_auto_ban now ip reason duration factor maxDuration rows =
     (let n = ban_count rows ip + 1;
          r = \<lparr>br_reason = reason, br_bannedBy = ''system'', br_bannedAt = now,
               br_expiresAt = (if 0 < duration then Some (now + escalated_ban_duration duration factor maxDuration n) else None),
               br_banCount = n\<rparr>
      in (r, put ip r rows))"

definition remove_blacklist_ip :: "string \<Rightarrow> ban_rows \<Rightarrow> ban_rows" where
  "remove_blacklist_ip ip rows = del ip rows"

definition row_in_force :: "time \<Rightarrow> ban_row \<Rightarrow> bool" where
  "row_in_force now r = (case br_expiresAt r of None \<Rightarrow> True | Some e \<Rightarrow> now < e)"

definition is_blacklisted_row :: "time \<Rightarrow> string \<Rightarrow> ban_rows \<Rightarrow> bool" where
  "is_blacklisted_row now ip rows = (case get rows ip of None \<Rightarrow> False | Some r \<Rightarrow> row_in_force now r)"

definition list_blacklisted_ips :: "time \<Rightarrow> ban_rows \<Rightarrow> (string \<times> time option) list" where
  "list_blacklisted_ips now rows =
     map (\<lambda>(ip, r). (ip, br_expiresAt r)) (filter (\<lambda>(ip, r). row_in_force now r) rows)"

definition prune_blacklist :: "time \<Rightarrow> duration \<Rightarrow> ban_rows \<Rightarrow> ban_rows" where
  "prune_blacklist now retention rows =
     (if retention \<le> 0 then rows
      else filter (\<lambda>(ip, r). \<not> (case br_expiresAt r of None \<Rightarrow> False | Some e \<Rightarrow> e \<le> now - retention)) rows)"

section \<open>The cache the requests are checked against\<close>

datatype ban = Never_expires | Until time

definition cache_ban :: "string \<Rightarrow> time option \<Rightarrow> (string, ban) table \<Rightarrow> (string, ban) table" where
  "cache_ban ip expiresAt cache =
     put ip (case expiresAt of None \<Rightarrow> Never_expires | Some e \<Rightarrow> Until e) cache"

definition is_blacklisted :: "time \<Rightarrow> string \<Rightarrow> (string, ban) table \<Rightarrow> bool \<times> (string, ban) table" where
  "is_blacklisted now ip cache =
     (case get cache ip of
        None \<Rightarrow> (False, cache)
      | Some Never_expires \<Rightarrow> (True, cache)
      | Some (Until e) \<Rightarrow> if now < e then (True, cache) else (False, del ip cache))"

record auto_ban_config =
  ab_duration :: duration
  ab_increment :: bool
  ab_factor :: rat
  ab_maxDuration :: duration
  ab_ignore :: "string list"

definition auto_ban_exempt :: "auto_ban_config \<Rightarrow> string \<Rightarrow> bool" where
  "auto_ban_exempt cfg ip =
     (case parse_ip ip of
        None \<Rightarrow> False
      | Some a \<Rightarrow> list_ex (\<lambda>entry. case parse_cidr entry of None \<Rightarrow> False | Some n \<Rightarrow> net_contains n a) (ab_ignore cfg))"

definition escalation_factor :: "auto_ban_config \<Rightarrow> rat" where
  "escalation_factor cfg = (if \<not> ab_increment cfg \<or> ab_factor cfg \<le> 1 then 1 else ab_factor cfg)"

record guard =
  gd_violations :: "(string, violations_entry) table"
  gd_limiters :: "(string, time) table"
  gd_cache :: "(string, ban) table"
  gd_rows :: ban_rows
  gd_sent :: "(string \<times> string \<times> time option) list"

text \<open>
  \<open>applyAutoBan\<close>. There is a database or not, and the writing of the ban succeeds or not; the
  address is banned in memory either way.
\<close>

definition apply_auto_ban ::
  "auto_ban_config \<Rightarrow> bool \<Rightarrow> bool \<Rightarrow> time \<Rightarrow> string \<Rightarrow> string \<Rightarrow> guard \<Rightarrow> (time option \<times> bool) \<times> guard" where
  "apply_auto_ban cfg db write_ok now ip reason g =
     (if auto_ban_exempt cfg ip then ((None, False), g)
      else
        (let (expiresAt, rows) =
               (if db then
                  (if write_ok then
                     (let (r, rows) = add_auto_ban now ip reason (ab_duration cfg) (escalation_factor cfg)
                                        (ab_maxDuration cfg) (gd_rows g)
                      in (br_expiresAt r, rows))
                   else (None, gd_rows g))
                else if 0 < ab_duration cfg then (Some (now + ab_duration cfg), gd_rows g)
                else (None, gd_rows g))
         in ((expiresAt, True), g\<lparr>gd_rows := rows, gd_cache := cache_ban ip expiresAt (gd_cache g)\<rparr>)))"

section \<open>The gate of every request\<close>

datatype gate_outcome = Forbidden | Drain_request | Too_many_requests | Passed

definition ban_threshold :: nat where "ban_threshold = 50"

definition broadcast_blacklist_update :: "string \<Rightarrow> string \<Rightarrow> time option \<Rightarrow> guard \<Rightarrow> guard" where
  "broadcast_blacklist_update act ip expiresAt g = g\<lparr>gd_sent := gd_sent g @ [(act, ip, expiresAt)]\<rparr>"

record gate_request =
  gq_ip :: string
  gq_path :: string
  gq_method :: string
  gq_now :: time
  gq_allow :: bool
  gq_write_ok :: bool

record gate_config =
  gc_ipBlacklist :: "string list"
  gc_disableApiRateLimit :: bool
  gc_autoBan :: auto_ban_config
  gc_db :: bool

definition serve_gate :: "gate_config \<Rightarrow> gate_request \<Rightarrow> guard \<Rightarrow> gate_outcome \<times> guard" where
  "serve_gate cfg q g0 =
     (let ip = gq_ip q; now = gq_now q
      in if ip \<in> set (gc_ipBlacklist cfg) then (Forbidden, g0)
         else
           (let (blocked, cache) = is_blacklisted now ip (gd_cache g0);
                g = g0\<lparr>gd_cache := cache\<rparr>
            in if blocked then (Forbidden, g)
               else if gq_path q = ''/api/local/drain'' \<and> (gq_method q = ''POST'' \<or> gq_method q = ''GET'')
                 then (Drain_request, g)
               else if has_prefix (gq_path q) ''/api/'' \<and> \<not> gc_disableApiRateLimit cfg then
                 (let g1 = g\<lparr>gd_limiters := touch_limiter now ip (gd_limiters g)\<rparr>
                  in if gq_allow q then (Passed, g1)
                     else
                       (let (n, vs) = record_violation now ip (gd_violations g1);
                            g2 = g1\<lparr>gd_violations := vs\<rparr>
                        in if n < ban_threshold then (Too_many_requests, g2)
                           else
                             (let ((expiresAt, banned), g3) = apply_auto_ban (gc_autoBan cfg) (gc_db cfg) (gq_write_ok q) now ip
                                    ''Auto-banned by Rate Limiter for DDOS'' g2
                              in if banned then (Forbidden, broadcast_blacklist_update ''add'' ip expiresAt g3)
                                 else (Too_many_requests, g3))))
               else (Passed, g)))"

section \<open>The other writers of the blacklist\<close>

text \<open>The admin's ban and its removal, the restart that reloads the cache from the rows in
  force, and the frame an edge receives.\<close>

definition admin_ban :: "time \<Rightarrow> string \<Rightarrow> string \<Rightarrow> guard \<Rightarrow> guard" where
  "admin_ban now ip reason g =
     (if ip = [] then g
      else broadcast_blacklist_update ''add'' ip None
             (g\<lparr>gd_rows := add_blacklist_ip now ip reason (gd_rows g), gd_cache := cache_ban ip None (gd_cache g)\<rparr>))"

definition admin_unban :: "string \<Rightarrow> guard \<Rightarrow> guard" where
  "admin_unban ip g =
     (if ip = [] then g
      else broadcast_blacklist_update ''remove'' ip None
             (g\<lparr>gd_rows := remove_blacklist_ip ip (gd_rows g), gd_cache := del ip (gd_cache g)\<rparr>))"

definition load_blacklist :: "time \<Rightarrow> ban_rows \<Rightarrow> (string, ban) table" where
  "load_blacklist now rows = fold (\<lambda>(ip, e). cache_ban ip e) (list_blacklisted_ips now rows) []"

definition restart_guard :: "time \<Rightarrow> guard \<Rightarrow> guard" where
  "restart_guard now g =
     g\<lparr>gd_violations := [], gd_limiters := [], gd_cache := load_blacklist now (gd_rows g), gd_sent := []\<rparr>"

definition apply_blacklist_frame ::
  "string \<times> string \<times> time option \<Rightarrow> (string, ban) table \<Rightarrow> (string, ban) table" where
  "apply_blacklist_frame frame cache =
     (case frame of (act, ip, expiresAt) \<Rightarrow>
        if act = ''add'' then cache_ban ip expiresAt cache
        else if act = ''remove'' then del ip cache
        else cache)"

end
