(* ===== verification/Client_IP_Facts.thy ===== *)
theory Client_IP_Facts
  imports Client_IP
begin

text \<open>
  How far a trust set reaches, and what a caller can make the gateway believe: the width rule
  holds for every entry the two address packages read alike, and fails for the two spellings
  they read differently; what stands to the left of an untrusted hop changes nothing.
\<close>

section \<open>Texts\<close>

lemma dropWhile_hd: "dropWhile P s = [] \<or> \<not> P (hd (dropWhile P s))"
  using hd_dropWhile by blast

lemma trim_space_idem [simp]: "trim_space (trim_space s) = trim_space s"
proof -
  define u where "u = dropWhile is_space s"
  define t where "t = rev (dropWhile is_space (rev u))"
  have t: "trim_space s = t" by (simp add: trim_space_def u_def t_def)
  have "u = t @ rev (takeWhile is_space (rev u))"
    unfolding t_def by (metis rev_append rev_rev_ident takeWhile_dropWhile_id)
  moreover have "u = [] \<or> \<not> is_space (hd u)" unfolding u_def by (rule dropWhile_hd)
  ultimately have "t = [] \<or> \<not> is_space (hd t)" by (metis hd_append2 append_is_Nil_conv)
  then have "dropWhile is_space t = t" by (cases t) auto
  moreover have "dropWhile is_space (rev t) = rev t" by (simp add: t_def)
  ultimately show ?thesis unfolding t by (simp add: trim_space_def)
qed

lemma split_on_concat: "split_on c (a @ c # b) = split_on c a @ split_on c b"
  by (induction a) (auto split: list.split)

lemma split_on_covers: "x \<in> set s \<Longrightarrow> x \<noteq> c \<Longrightarrow> \<exists>p \<in> set (split_on c s). x \<in> set p"
proof (induction s)
  case (Cons y ys)
  then show ?case by (cases "split_on c ys") auto
qed simp

lemma those_all: "those (map f xs) \<noteq> None \<Longrightarrow> x \<in> set xs \<Longrightarrow> f x \<noteq> None"
  by (induction xs) (auto split: option.splits)

lemma v4_fields_chars:
  assumes "parse_v4_fields s = Some q" "c \<in> set s"
  shows "is_digit c \<or> c = CHR ''.''"
proof (rule disjCI)
  assume "c \<noteq> CHR ''.''"
  then obtain p where p: "p \<in> set (split_on (CHR ''.'') s)" "c \<in> set p"
    using split_on_covers [OF assms(2)] by blast
  have "those (map parse_octet (split_on (CHR ''.'') s)) \<noteq> None"
    using assms(1) unfolding parse_v4_fields_def by (metis option.case(1) option.distinct(1))
  then have "parse_octet p \<noteq> None" using p(1) by (rule those_all)
  then show "is_digit c" using p(2) by (auto simp: parse_octet_def list_all_iff split: if_splits)
qed

definition address_char :: "char \<Rightarrow> bool" where
  "address_char c \<longleftrightarrow> is_hex c \<or> c = CHR '':'' \<or> c = CHR ''.''"

lemma digit_address_char: "is_digit c \<Longrightarrow> address_char c"
  by (simp add: address_char_def is_hex_def hex_char_def is_digit_def Let_def)

lemma not_address_char: "\<not> address_char (CHR ''/'')" "\<not> address_char (CHR ''%'')"
  by (simp_all add: address_char_def is_hex_def hex_char_def)

lemma v6_loop_chars:
  "v6_loop n gs e s = Some (gs', e', []) \<Longrightarrow> c \<in> set s \<Longrightarrow> address_char c"
proof (induction n arbitrary: gs e s)
  case (Suc n)
  let ?rest = "dropWhile is_hex s"
  have hex: "address_char c" if "c \<in> set (takeWhile is_hex s)"
    using that by (auto dest: set_takeWhileD simp: address_char_def)
  have split: "c \<in> set (takeWhile is_hex s) \<or> c \<in> set ?rest"
    using Suc.prems(2) by (metis Un_iff set_append takeWhile_dropWhile_id)
  show ?case
  proof (cases "?rest \<noteq> [] \<and> hd ?rest = CHR ''.''")
    case True
    then obtain q where "parse_v4_fields s = Some q"
      using Suc.prems(1) by (auto simp: Let_def split: if_splits option.splits)
    from v4_fields_chars [OF this Suc.prems(2)] show ?thesis
      using digit_address_char by (auto simp: address_char_def)
  next
    case dot: False
    show ?thesis
    proof (cases "?rest = []")
      case True
      then show ?thesis using split hex by (metis empty_iff list.set(1))
    next
      case False
      then obtain x where x: "?rest = CHR '':'' # x" "x \<noteq> []"
        using Suc.prems(1) dot by (cases ?rest) (auto simp: Let_def split: if_splits)
      have "c = CHR '':'' \<or> c \<in> set x" if "c \<in> set ?rest" using that x(1) by simp
      moreover have "address_char c" if "c \<in> set x"
      proof (cases "hd x = CHR '':''")
        case True
        then obtain y where y: "x = CHR '':'' # y" using x(2) by (cases x) auto
        then have "y = [] \<or> (\<exists>gs1 e1. v6_loop n gs1 e1 y = Some (gs', e', []))"
          using Suc.prems(1) dot x by (auto simp: Let_def split: if_splits)
        then show ?thesis using Suc.IH that y by (auto simp: address_char_def)
      next
        case False
        then have "\<exists>gs1 e1. v6_loop n gs1 e1 x = Some (gs', e', [])"
          using Suc.prems(1) dot x by (auto simp: Let_def split: if_splits)
        then show ?thesis using Suc.IH that by blast
      qed
      ultimately show ?thesis using split hex by (auto simp: address_char_def)
    qed
  qed
qed simp

text \<open>In a text that parses, only a zone can hold another character.\<close>

lemma parse_v6_chars:
  assumes "parse_v6 s = Some x" "c \<in> set (takeWhile (\<lambda>c. c \<noteq> CHR ''%'') s)"
  shows "address_char c"
proof -
  let ?body = "takeWhile (\<lambda>c. c \<noteq> CHR ''%'') s"
  let ?s = "if has_prefix ?body ''::'' then drop 2 ?body else ?body"
  have "?s = [] \<or> (\<exists>e0 gs e. v6_loop 8 [] e0 ?s = Some (gs, e, []))"
    using assms(1) by (auto simp: parse_v6_def Let_def split: if_splits option.splits) blast+
  then have "\<forall>c \<in> set ?s. address_char c" using v6_loop_chars by fastforce
  moreover have "set ?body \<subseteq> {CHR '':''} \<union> set ?s"
    unfolding has_prefix_iff by (auto split: if_splits)
  ultimately show ?thesis using assms(2) by (auto simp: address_char_def)
qed

lemma parse_v6_zone:
  assumes "parse_v6 s = Some x" "CHR ''%'' \<in> set s"
  shows "has_zone x"
proof -
  have "dropWhile (\<lambda>c. c \<noteq> CHR ''%'') s \<noteq> []" using assms(2) by auto
  then show ?thesis using assms(1) by (auto simp: parse_v6_def Let_def split: if_splits option.splits)
qed

lemma parse_addr_slash:
  assumes "parse_addr s \<noteq> None" "CHR ''/'' \<in> set s" "split_first_slash s = Some (a, b)"
  shows "parse_addr a = None \<or> (\<exists>x. parse_addr a = Some x \<and> has_zone x)"
proof -
  have v4: "CHR ''/'' \<notin> set s" if "parse_v4_fields s = Some q" for q
    using v4_fields_chars [OF that] by (fastforce simp: is_digit_def)
  obtain x where x: "parse_v6 s = Some x"
    using assms(1,2) v4 by (auto simp: parse_addr_def split: option.splits if_splits)
  have "CHR ''/'' \<notin> set (takeWhile (\<lambda>c. c \<noteq> CHR ''%'') s)"
    using parse_v6_chars [OF x] not_address_char by blast
  moreover obtain r where s: "s = a @ CHR ''/'' # r" "CHR ''/'' \<notin> set a"
  proof -
    obtain y ys where sp: "split_on (CHR ''/'') s = a # y # ys"
      using assms(3) by (auto simp: split_first_slash_def split: list.splits)
    note goal = that
    have "join [CHR ''/''] (a # y # ys) = s" unfolding sp [symmetric] by (rule join_split_on)
    moreover have "CHR ''/'' \<notin> set a" using split_on_pieces [of a "CHR ''/''" s] sp by simp
    ultimately show thesis by (intro goal [of "join ''/'' (y # ys)"]) simp_all
  qed
  ultimately have pct: "CHR ''%'' \<in> set a"
    by (auto simp: takeWhile_append split: if_splits)
  have "\<not> (\<exists>q. parse_v4_fields a = Some q)"
    using v4_fields_chars [of a _ "CHR ''%''"] pct by (auto simp: is_digit_def)
  then show ?thesis using parse_v6_zone [of a] pct
    by (auto simp: parse_addr_def split: option.splits if_splits)
qed

section \<open>The width rule\<close>

text \<open>A matcher no wider than the rule allows: one host, or private space only.\<close>

definition narrow :: "ip_net \<Rightarrow> bool" where
  "narrow n \<longleftrightarrow> (\<forall>a b. net_contains n a \<and> net_contains n b \<longrightarrow> a = b \<or> private_address a)"

lemma narrow_net4:
  assumes "\<And>x y. drop_bit (32 - n) x = drop_bit (32 - n) v \<Longrightarrow> drop_bit (32 - n) y = drop_bit (32 - n) v \<Longrightarrow>
    x = y \<or> private_address (H4 x)"
  shows "narrow (Net4 v n)"
  unfolding narrow_def
proof (intro allI impI)
  fix a b assume "net_contains (Net4 v n) a \<and> net_contains (Net4 v n) b"
  then show "a = b \<or> private_address a" using assms by (cases a; cases b) (simp_all del: private_address.simps)
qed

lemma narrow_net6:
  assumes "\<And>x y. drop_bit (128 - n) x = drop_bit (128 - n) v \<Longrightarrow> drop_bit (128 - n) y = drop_bit (128 - n) v \<Longrightarrow>
    x = y \<or> private_address (H6 x)"
  shows "narrow (Net6 v n)"
  unfolding narrow_def
proof (intro allI impI)
  fix a b assume "net_contains (Net6 v n) a \<and> net_contains (Net6 v n) b"
  then show "a = b \<or> private_address a" using assms by (cases a; cases b) (simp_all del: private_address.simps)
qed

lemma narrow_single [simp]: "narrow (Net4 w 32)" "narrow (Net6 v 128)"
  by (rule narrow_net4 narrow_net6; simp)+

lemma contains_transfers:
  "list_ex (\<lambda>b. prefix_bits b \<le> n \<and> prefix_contains b (Prefix4 v n)) private_blocks \<Longrightarrow> narrow (Net4 v n)"
  "list_ex (\<lambda>b. prefix_bits b \<le> n \<and> prefix_contains b (Prefix6 u n)) private_blocks \<Longrightarrow> narrow (Net6 u n)"
proof -
  assume "list_ex (\<lambda>b. prefix_bits b \<le> n \<and> prefix_contains b (Prefix4 v n)) private_blocks"
  then obtain p m where b: "Prefix4 p m \<in> set private_blocks" "m \<le> n" "drop_bit (32 - m) p = drop_bit (32 - m) v"
    by (auto simp: list_ex_iff elim: prefix_contains.elims)
  have "private_address (H4 x)" if "drop_bit (32 - n) x = drop_bit (32 - n) v" for x
  proof -
    have "drop_bit (32 - m) x = drop_bit (32 - m) v" by (rule drop_bit_le [OF that]) (use b(2) in simp)
    with b show ?thesis by (auto simp: list_ex_iff intro!: bexI [of _ "Prefix4 p m"])
  qed
  then show "narrow (Net4 v n)" by (intro narrow_net4) blast
next
  assume "list_ex (\<lambda>b. prefix_bits b \<le> n \<and> prefix_contains b (Prefix6 u n)) private_blocks"
  then obtain p m where b: "Prefix6 p m \<in> set private_blocks" "m \<le> n" "drop_bit (128 - m) p = drop_bit (128 - m) u"
    by (auto simp: list_ex_iff elim: prefix_contains.elims)
  have "private_address (H6 x)" if "drop_bit (128 - n) x = drop_bit (128 - n) u" for x
  proof -
    have "drop_bit (128 - m) x = drop_bit (128 - m) u" by (rule drop_bit_le [OF that]) (use b(2) in simp)
    with b show ?thesis by (auto simp: list_ex_iff intro!: bexI [of _ "Prefix6 p m"])
  qed
  then show "narrow (Net6 u n)" by (intro narrow_net6) blast
qed

text \<open>No mapped IPv4 address lies in one of the IPv6 blocks, the loopback host excepted.\<close>

lemma mapped_not_private:
  assumes "is_mapped u" "list_ex (\<lambda>b. prefix_bits b \<le> n \<and> prefix_contains b (Prefix6 u n)) private_blocks"
  shows "128 \<le> n"
proof (rule ccontr)
  assume n: "\<not> 128 \<le> n"
  have "drop_bit k u = drop_bit (k - 32) 0xFFFF" if "32 \<le> k" for k
    using assms(1) that unfolding is_mapped_def by (metis drop_bit_drop_bit le_add_diff_inverse2)
  from this [of 121] this [of 118] show False
    using assms(2) n by (simp add: private_blocks_def)
qed

lemma narrow_v6:
  assumes "is_single_ip (Prefix6 w k) \<or>
      list_ex (\<lambda>b. prefix_bits b \<le> k \<and> prefix_contains b (Prefix6 (clear_low (128 - k) w) k)) private_blocks" "k \<le> 128"
  shows "narrow (net_of_v6 w k)"
proof (cases "k = 128")
  case True
  then show ?thesis by (simp add: net_of_v6_def Let_def)
next
  case False
  then have priv: "list_ex (\<lambda>b. prefix_bits b \<le> k \<and> prefix_contains b (Prefix6 (clear_low (128 - k) w) k)) private_blocks"
    using assms(1) by simp
  have "\<not> is_mapped (clear_low (128 - k) w)" using mapped_not_private [OF _ priv] False assms(2) by linarith
  then show ?thesis using contains_transfers(2) [OF priv] by (simp add: net_of_v6_def Let_def)
qed

text \<open>An entry with an explicit length, read alike by both packages.\<close>

lemma narrow_prefix_entry:
  assumes "too_wide e = None" "parse_cidr e = Some n" "\<not> padded_length e" "trim_space e = e"
  shows "narrow n"
proof -
  obtain a b where sp: "split_first_slash e = Some (a, b)"
    using assms(2) by (auto simp: parse_cidr_def split: option.splits)
  obtain x k where ak: "parse_addr a = Some x" "dtoi_all b = Some k" "\<not> has_zone x"
    using assms(2) sp by (auto simp: parse_cidr_def split: option.splits ip_addr.splits if_splits)
  have b: "list_all is_digit b" "b \<noteq> []" "digits_val b = k" using ak(2) by (auto simp: dtoi_all_def split: if_splits)
  then have bits: "parse_bits b = Some k" using assms(3,4) sp by (auto simp: parse_bits_def padded_length_def)
  have slash: "CHR ''/'' \<in> set e"
    using sp split_on_no_sep by (fastforce simp: split_first_slash_def)
  have "parse_addr e = None" using parse_addr_slash [OF _ slash sp] ak by (metis option.distinct(1) option.inject)
  moreover have "e \<noteq> []" using slash by auto
  ultimately have wide: "\<And>p. parse_prefix e = Some p \<Longrightarrow> is_single_ip (masked p) \<or>
      list_ex (\<lambda>b. prefix_bits b \<le> prefix_bits (masked p) \<and> prefix_contains b (masked p)) private_blocks"
    using assms(1,4) by (auto simp: too_wide_def Let_def split: if_splits)
  show ?thesis
  proof (cases x)
    case (V4 w)
    then have k: "k \<le> 32" "n = Net4 (clear_low (32 - k) w) k"
      using assms(2) sp ak by (auto simp: parse_cidr_def split: if_splits)
    with V4 have "parse_prefix e = Some (Prefix4 w k)"
      using split_slash_same [OF sp b(1)] ak bits by (simp add: parse_prefix_def)
    from wide [OF this] show ?thesis unfolding k(2) using contains_transfers(1) by auto
  next
    case (V6 w z)
    then have k: "k \<le> 128" "n = net_of_v6 w k" "z = []"
      using assms(2) sp ak by (auto simp: parse_cidr_def split: if_splits)
    with V6 have "parse_prefix e = Some (Prefix6 w k)"
      using split_slash_same [OF sp b(1)] ak bits by (simp add: parse_prefix_def)
    from wide [OF this] show ?thesis unfolding k(2) using narrow_v6 k(1) by auto
  qed
qed

text \<open>A bare address, completed with the length of one host. A mapped IPv4 address is completed
  with the IPv4 length and then read as an IPv6 range.\<close>

definition bare_mapped :: "string \<Rightarrow> bool" where
  "bare_mapped entry \<longleftrightarrow> CHR ''/'' \<notin> set (trim_space entry) \<and>
     (case parse_addr (trim_space entry) of Some (V6 w z) \<Rightarrow> z = [] \<and> is_mapped w | _ \<Rightarrow> False)"

lemma split_first_slash_append:
  assumes "CHR ''/'' \<notin> set e" "list_all is_digit b"
  shows "split_first_slash (e @ CHR ''/'' # b) = Some (e, b)"
proof -
  have "CHR ''/'' \<notin> set b" using assms(2) by (auto simp: list_all_iff is_digit_def)
  then show ?thesis by (simp add: split_first_slash_def split_on_append [OF assms(1)] split_on_no_sep)
qed

lemma narrow_bare_entry:
  assumes "CHR ''/'' \<notin> set e" "parse_cidr (with_host_bits e) = Some n" "\<not> bare_mapped e" "trim_space e = e"
  shows "narrow n"
proof -
  have lens: "dtoi_all ''32'' = Some 32" "dtoi_all ''128'' = Some 128" "list_all is_digit ''32''" "list_all is_digit ''128''"
    by (simp_all add: dtoi_all_def is_digit_def digits_val_def digit_val_def)
  show ?thesis
  proof (cases "parse_ip e")
    case None
    then show ?thesis using assms(1,2) by (simp add: with_host_bits_def parse_cidr_def split_first_slash_def split_on_no_sep)
  next
    case (Some h)
    then obtain x where x: "parse_addr e = Some x" "\<not> has_zone x" "h = host_of x"
      by (auto simp: parse_ip_def split: option.splits if_splits)
    show ?thesis
    proof (cases x)
      case (V4 w)
      then have "with_host_bits e = e @ CHR ''/'' # ''32''" using assms(1) Some x by (simp add: with_host_bits_def)
      then have "n = Net4 (clear_low 0 w) 32"
        using assms(2) x V4 lens by (simp add: parse_cidr_def split_first_slash_append [OF assms(1)])
      then show ?thesis by simp
    next
      case (V6 w z)
      then have z: "z = []" "\<not> is_mapped w" using x assms(1,3,4) by (auto simp: bare_mapped_def)
      then have "with_host_bits e = e @ CHR ''/'' # ''128''" using assms(1) Some x V6 by (simp add: with_host_bits_def)
      then have "n = net_of_v6 w 128"
        using assms(2) x V6 z lens by (simp add: parse_cidr_def split_first_slash_append [OF assms(1)])
      then show ?thesis using narrow_v6 [of w 128] by simp
    qed
  qed
qed

text \<open>No matcher the gateway builds from its trusted proxies covers more than one host of
  globally routable space: two different addresses inside one matcher are both addresses no
  internet host can occupy. Exempt are the two spellings the address packages read differently,
  a length with a leading zero and a bare IPv4-mapped address.\<close>

theorem trusted_matchers_narrow:
  assumes "n \<in> set (parse_trusted_proxies entries)" "\<forall>e \<in> set entries. \<not> padded_length e \<and> \<not> bare_mapped e"
    and "net_contains n a" "net_contains n b" "a \<noteq> b"
  shows "private_address a"
proof -
  obtain e where e: "e \<in> set entries \<or> e \<in> set default_trusted_proxies" "parse_trusted_proxy e = Some n"
    using assms(1) unfolding parse_trusted_proxies_def map_filter_def by (cases "entries = []") fastforce+
  have "\<not> padded_length x" "\<not> bare_mapped x" if "x \<in> set default_trusted_proxies" for x
    using that by (auto simp: default_trusted_proxies_def padded_length_def bare_mapped_def split_first_slash_def
        trim_space_def is_space_def)
  with e(1) assms(2) have ok: "\<not> padded_length e" "\<not> bare_mapped e" by auto
  let ?e = "trim_space e"
  have cidr: "too_wide ?e = None" "parse_cidr (with_host_bits ?e) = Some n"
    using e(2) by (auto simp: parse_trusted_proxy_def Let_def split: if_splits)
  have "narrow n"
  proof (cases "CHR ''/'' \<in> set ?e")
    case True
    then show ?thesis using narrow_prefix_entry [of ?e n] cidr ok by (simp add: with_host_bits_def padded_length_def)
  next
    case False
    then show ?thesis using narrow_bare_entry [of ?e n] cidr ok by (simp add: bare_mapped_def)
  qed
  then show ?thesis using assms(3-5) unfolding narrow_def by blast
qed

lemmas trust_evals = net_evals parse_trusted_proxies_def map_filter_def parse_trusted_proxy_def with_host_bits_def
  too_wide_def trim_space_def is_space_def private_blocks_def padded_length_def bare_mapped_def

lemma trusted_matchers_narrow_witness:
  "Net4 0x0A000000 8 \<in> set (parse_trusted_proxies [''10.0.0.0/8'']) \<and> private_address (H4 0x0A010203)"
proof -
  have "Net4 0x0A000000 8 \<in> set (parse_trusted_proxies [''10.0.0.0/8''])" by (simp add: trust_evals)
  with trusted_matchers_narrow [OF this, of "H4 0x0A010203" "H4 0x0A000001"] show ?thesis
    by (simp add: trust_evals)
qed

text \<open>The width rule can be passed with a spelling. A range of all addresses whose length is
  written with two zeros is not refused at startup, and the gateway then believes the forwarding
  headers of every IPv4 caller.\<close>

theorem padded_length_trusts_everyone:
  "trusted_proxy_width_error [''0.0.0.0/00''] = None \<and>
   (\<forall>a. list_ex (\<lambda>n. net_contains n (H4 a)) (parse_trusted_proxies [''0.0.0.0/00'']))"
proof -
  have "parse_trusted_proxies [''0.0.0.0/00''] = [Net4 0 0]" by (simp add: trust_evals)
  moreover have "drop_bit 32 (a :: 32 word) = 0" for a
    by (rule bit_eqI) (simp add: bit_drop_bit_eq)
  ultimately show ?thesis by (simp add: trusted_proxy_width_error_def trust_evals)
qed

text \<open>A trusted proxy written as a bare IPv4-mapped address is not trusted at all: its matcher
  is an IPv6 range of 96 free bits, which the proxy's own address does not lie in and a foreign
  IPv6 address does.\<close>

theorem bare_mapped_trusts_others:
  "parse_trusted_proxies [''::ffff:203.0.113.7''] = [Net6 0 32] \<and>
   \<not> is_trusted_proxy ''203.0.113.7'' [Net6 0 32] \<and> \<not> is_trusted_proxy ''::ffff:203.0.113.7'' [Net6 0 32] \<and>
   is_trusted_proxy ''::203.0.113.8'' [Net6 0 32]"
  by (simp add: is_trusted_proxy_def trust_evals)

section \<open>The client address\<close>

lemma nearest_untrusted_append:
  assumes "nearest_untrusted trusted ys \<noteq> None"
  shows "nearest_untrusted trusted (xs @ ys) = nearest_untrusted trusted ys"
proof -
  have "find P (us @ vs) = find P us" if "find P us \<noteq> None" for P and us vs :: "string list"
    using that by (induction us) (auto split: if_splits)
  then show ?thesis using assms by (simp add: nearest_untrusted_def)
qed

text \<open>What a caller puts in front of the forwarding chain changes nothing. Two requests over
  the same connection with the same \<open>X-Real-IP\<close>, one of which has anything at all prepended to
  the other's chain, resolve to the same client address, whenever some hop of the real chain is
  not a trusted proxy.\<close>

theorem forged_prefix_ignored:
  assumes "header_get h1 ''X-Forwarded-For'' = forged @ '','' @ chain" "header_get h2 ''X-Forwarded-For'' = chain"
    and "header_get h1 ''X-Real-Ip'' = header_get h2 ''X-Real-Ip''"
    and "nearest_untrusted trusted (split_on (CHR '','') chain) \<noteq> None"
  shows "client_ip_from trusted remote h1 = client_ip_from trusted remote h2"
proof -
  have "chain \<noteq> []" using assms(4) by (auto simp: nearest_untrusted_def trim_space_def)
  moreover have "split_on (CHR '','') (forged @ '','' @ chain) = split_on (CHR '','') forged @ split_on (CHR '','') chain"
    using split_on_concat [of "CHR '',''" forged chain] by simp
  ultimately show ?thesis
    using assms(1-3) nearest_untrusted_append [OF assms(4)] by (simp add: client_ip_from_def Let_def)
qed

lemma forged_prefix_ignored_witness:
  "client_ip_from [Net4 0x7F000001 32] ''127.0.0.1:9'' [(''X-Forwarded-For'', [''1.1.1.1, 8.8.8.8''])] = ''8.8.8.8''"
proof -
  have "nearest_untrusted [Net4 0x7F000001 32] (split_on (CHR '','') '' 8.8.8.8'') = Some ''8.8.8.8''"
    by (simp add: nearest_untrusted_def is_trusted_proxy_def trust_evals)
  moreover from this have "client_ip_from [Net4 0x7F000001 32] ''127.0.0.1:9'' [(''X-Forwarded-For'', [''1.1.1.1, 8.8.8.8''])]
      = client_ip_from [Net4 0x7F000001 32] ''127.0.0.1:9'' [(''X-Forwarded-For'', ['' 8.8.8.8''])]"
    by (intro forged_prefix_ignored [where forged = "''1.1.1.1''" and chain = "'' 8.8.8.8''"])
      (simp_all add: header_get_def get_def)
  ultimately show ?thesis
    by (simp add: client_ip_from_def header_get_def get_def is_trusted_proxy_def peer_address_def split_host_port_def trust_evals)
qed

end
