(* ===== verification/Ban_Facts.thy ===== *)
theory Ban_Facts
  imports Ban_Guard Client_IP_Facts
begin

text \<open>
  What the gate promises: the cleaner never changes a count, how a count grows, how long a ban
  lasts and how it escalates, and the two places where a ban's life is not what it should be.
\<close>

section \<open>The cleaner\<close>

datatype guard_event = Violation time string | Clean time

fun event_time :: "guard_event \<Rightarrow> time" where
  "event_time (Violation t _) = t"
| "event_time (Clean t) = t"

fun is_violation :: "guard_event \<Rightarrow> bool" where
  "is_violation (Violation _ _) = True"
| "is_violation (Clean _) = False"

text \<open>The counts a sequence of events answers with.\<close>

fun violation_counts :: "guard_event list \<Rightarrow> (string, violations_entry) table \<Rightarrow> nat list" where
  "violation_counts [] vs = []"
| "violation_counts (Violation t ip # es) vs =
     (let (n, vs') = record_violation t ip vs in n # violation_counts es vs')"
| "violation_counts (Clean t # es) vs = violation_counts es (clean_violations t vs)"

text \<open>Two tables that differ only in entries that count for nothing from now on.\<close>

definition same_live :: "time \<Rightarrow> (string, violations_entry) table \<Rightarrow> (string, violations_entry) table \<Rightarrow> bool" where
  "same_live now vs us \<longleftrightarrow> is_table vs \<and> is_table us \<and>
     (\<forall>ip. get vs ip = get us ip \<or>
        (get vs ip = None \<and> (\<exists>e. get us ip = Some e \<and> violation_window < now - vi_lastSeen e)))"

lemma same_live_later: "same_live now vs us \<Longrightarrow> now \<le> now' \<Longrightarrow> same_live now' vs us"
  unfolding same_live_def by (smt (verit))

lemma same_live_clean:
  assumes "same_live now vs us" "now \<le> t"
  shows "same_live t (clean_violations t vs) us"
  unfolding same_live_def
proof (intro conjI allI)
  have tab: "is_table vs" "is_table us" using assms(1) by (simp_all add: same_live_def)
  then show "is_table (clean_violations t vs)" "is_table us" by (simp_all add: clean_violations_def)
  fix ip
  have g: "get (clean_violations t vs) ip = (case get vs ip of None \<Rightarrow> None
      | Some e \<Rightarrow> if \<not> violation_window < t - vi_lastSeen e then Some e else None)"
    unfolding clean_violations_def by (rule get_filter [OF tab(1)])
  have "get vs ip = get us ip \<or> (get vs ip = None \<and> (\<exists>e. get us ip = Some e \<and> violation_window < t - vi_lastSeen e))"
    using same_live_later [OF assms] by (auto simp: same_live_def)
  then show "get (clean_violations t vs) ip = get us ip \<or>
      (get (clean_violations t vs) ip = None \<and> (\<exists>e. get us ip = Some e \<and> violation_window < t - vi_lastSeen e))"
    unfolding g by (auto split: option.split)
qed

lemma same_live_record:
  assumes "same_live now vs us" "now \<le> t" "record_violation t ip vs = (n, vs')" "record_violation t ip us = (m, us')"
  shows "n = m \<and> same_live t vs' us'"
proof -
  have live: "same_live t vs us" by (rule same_live_later [OF assms(1,2)])
  then have "get vs ip = get us ip \<or> (get vs ip = None \<and> (\<exists>e. get us ip = Some e \<and> violation_window < t - vi_lastSeen e))"
    by (simp add: same_live_def)
  then have "n = m" using assms(3,4) by (auto simp: record_violation_def Let_def)
  moreover have "vs' = put ip \<lparr>vi_count = n, vi_lastSeen = t\<rparr> vs" "us' = put ip \<lparr>vi_count = m, vi_lastSeen = t\<rparr> us"
    using assms(3,4) by (auto simp: record_violation_def Let_def)
  then have "same_live t vs' us'"
    using live \<open>n = m\<close> unfolding same_live_def by (simp add: table_simps)
  ultimately show ?thesis ..
qed

lemma cleaner_simulation:
  "sorted (now # map event_time es) \<Longrightarrow> same_live now vs us \<Longrightarrow>
   violation_counts es vs = violation_counts (filter is_violation es) us"
proof (induction es arbitrary: now vs us)
  case (Cons e es)
  show ?case
  proof (cases e)
    case (Violation t ip)
    obtain n vs' m us' where r: "record_violation t ip vs = (n, vs')" "record_violation t ip us = (m, us')"
      by (metis prod.collapse)
    from same_live_record [OF Cons.prems(2) _ r] Cons.prems(1) Violation have "n = m \<and> same_live t vs' us'" by simp
    with Cons.IH [of t vs' us'] Cons.prems(1) r Violation show ?thesis by simp
  next
    case (Clean t)
    then have "same_live t (clean_violations t vs) us" using same_live_clean Cons.prems by simp
    with Cons.IH [of t] Cons.prems(1) Clean show ?thesis by simp
  qed
qed simp

text \<open>The cleaner is invisible. However often and whenever it runs between refused requests,
  each of them is answered with the count it would have had without it, so no ban depends on
  when the cleaner last ran.\<close>

theorem cleaner_is_invisible:
  assumes "sorted (map event_time es)"
  shows "violation_counts es [] = violation_counts (filter is_violation es) []"
proof (cases es)
  case (Cons e es')
  have "same_live (event_time e) [] []" by (simp add: same_live_def)
  from cleaner_simulation [OF _ this, of es] assms Cons show ?thesis by simp
qed simp

lemma cleaner_is_invisible_witness:
  "violation_counts [Violation 0 ''a'', Clean 1, Violation (2 * hour) ''a'', Clean (4 * hour), Violation (5 * hour) ''a''] []
   = violation_counts [Violation 0 ''a'', Violation (2 * hour) ''a'', Violation (5 * hour) ''a''] []"
  using cleaner_is_invisible [of "[Violation 0 ''a'', Clean 1, Violation (2 * hour) ''a'', Clean (4 * hour), Violation (5 * hour) ''a'']"]
  by (simp add: hour_def minute_def second_def)

section \<open>What the threshold measures\<close>

lemma counts_from:
  assumes "0 \<le> d" "d \<le> violation_window"
  shows "get vs ip = Some e \<Longrightarrow> vi_lastSeen e = t - d \<Longrightarrow>
    violation_counts (map (\<lambda>i. Violation (t + int i * d) ip) [0..<k]) vs = map (\<lambda>i. vi_count e + 1 + i) [0..<k]"
proof (induction k arbitrary: vs e t)
  case (Suc k)
  obtain n vs' where r: "record_violation t ip vs = (n, vs')" by (metis prod.collapse)
  have n: "n = vi_count e + 1" "get vs' ip = Some \<lparr>vi_count = n, vi_lastSeen = t\<rparr>"
    using r Suc.prems assms(2) by (auto simp: record_violation_def Let_def table_simps)
  have "violation_counts (map (\<lambda>i. Violation (t + d + int i * d) ip) [0..<k]) vs' = map (\<lambda>i. n + 1 + i) [0..<k]"
    using Suc.IH [OF n(2), of "t + d"] by simp
  moreover have "map (\<lambda>i. Violation (t + int i * d) ip) [0..<Suc k]
      = Violation t ip # map (\<lambda>i. Violation (t + d + int i * d) ip) [0..<k]"
    unfolding upt_conv_Cons [OF zero_less_Suc] map_Suc_upt [symmetric] by (simp add: algebra_simps)
  moreover have "map (\<lambda>i. vi_count e + 1 + i) [0..<Suc k] = n # map (\<lambda>i. n + 1 + i) [0..<k]"
    unfolding upt_conv_Cons [OF zero_less_Suc] map_Suc_upt [symmetric] using n(1) by simp
  ultimately show ?case using r by simp
qed simp

text \<open>The threshold does not measure a window. Refused requests spaced evenly, each within an
  hour of the one before, are counted one by one without end: the fiftieth is answered with
  fifty although two days lie between it and the first.\<close>

theorem slow_violations_accumulate:
  assumes "0 \<le> d" "d \<le> violation_window"
  shows "violation_counts (map (\<lambda>i. Violation (t + int i * d) ip) [0..<k]) [] = map Suc [0..<k]"
proof (cases k)
  case (Suc k')
  obtain n vs' where r: "record_violation t ip [] = (n, vs')" by (metis prod.collapse)
  then have n: "n = 1" "get vs' ip = Some \<lparr>vi_count = 1, vi_lastSeen = t\<rparr>"
    by (auto simp: record_violation_def Let_def table_simps)
  have "violation_counts (map (\<lambda>i. Violation (t + d + int i * d) ip) [0..<k']) vs' = map (\<lambda>i. 2 + i) [0..<k']"
    using counts_from [OF assms n(2), of "t + d"] by simp
  moreover have "map (\<lambda>i. Violation (t + int i * d) ip) [0..<Suc k']
      = Violation t ip # map (\<lambda>i. Violation (t + d + int i * d) ip) [0..<k']"
    unfolding upt_conv_Cons [OF zero_less_Suc] map_Suc_upt [symmetric] by (simp add: algebra_simps)
  moreover have "map Suc [0..<Suc k'] = 1 # map (\<lambda>i. 2 + i) [0..<k']"
    unfolding upt_conv_Cons [OF zero_less_Suc] map_Suc_upt [symmetric] by simp
  ultimately show ?thesis using r n(1) Suc by simp
qed simp

lemma slow_violations_accumulate_witness:
  "last (violation_counts (map (\<lambda>i. Violation (0 + int i * hour) ''a'') [0..<50]) []) = ban_threshold"
proof -
  have "violation_counts (map (\<lambda>i. Violation (0 + int i * hour) ''a'') [0..<50]) [] = map Suc [0..<50]"
    by (rule slow_violations_accumulate) (simp_all add: violation_window_def order_less_imp_le [OF durations_pos(3)])
  then show ?thesis by (simp only: last_map upt_eq_Nil_conv) (simp add: ban_threshold_def last_map)
qed

section \<open>Escalation\<close>

lemma escalate_loop_power:
  assumes "1 < f" "0 < d" "0 < m"
  shows "(case escalate_loop f m n d of Inl x \<Rightarrow> x | Inr y \<Rightarrow> cap_duration \<lfloor>y\<rfloor> m) = min m \<lfloor>d * f ^ n\<rfloor> \<and>
    (\<forall>y. escalate_loop f m n d = Inr y \<longrightarrow> 0 \<le> y)"
  using assms(2)
proof (induction n arbitrary: d)
  case 0
  then show ?case by (simp add: cap_duration_def min_def assms(3))
next
  case (Suc n)
  have pos: "0 < d * f" using Suc.prems assms(1) by simp
  show ?case
  proof (cases "of_int m \<le> d * f")
    case True
    have "d * f * 1 \<le> d * f * f ^ n" using pos assms(1) by (intro mult_left_mono one_le_power) simp_all
    then have "of_int m \<le> d * f ^ Suc n" using True by (simp add: mult.assoc)
    then have "m \<le> \<lfloor>d * f ^ Suc n\<rfloor>" by (simp add: le_floor_iff)
    then show ?thesis using True assms(3) by (simp add: Let_def)
  next
    case False
    then show ?thesis using Suc.IH [OF pos] by (simp add: Let_def mult.assoc)
  qed
qed

text \<open>The ban of a repeat offender, computed by a loop that stops at the cap, is the base
  multiplied by the factor once for every earlier ban, cut off at the cap. So the first ban is
  the configured one, no ban exceeds the cap, and no number of offences overflows.\<close>

theorem escalation_closed_form:
  assumes "0 < base" "0 < cap" "0 < n"
  shows "escalated_ban_duration base factor cap n = min cap \<lfloor>of_int base * (max 1 factor) ^ (n - 1)\<rfloor>"
proof (cases "factor \<le> 1")
  case True
  then show ?thesis using assms by (simp add: escalated_ban_duration_def cap_duration_def max_def min_def)
next
  case False
  note loop = escalate_loop_power [of factor "of_int base" cap "n - 1"]
  have "escalated_ban_duration base factor cap n =
      (case escalate_loop factor cap (n - 1) (of_int base) of Inl x \<Rightarrow> x | Inr y \<Rightarrow> cap_duration \<lfloor>y\<rfloor> cap)"
    using False assms loop by (auto simp: escalated_ban_duration_def Let_def split: sum.split)
  also have "\<dots> = min cap \<lfloor>of_int base * factor ^ (n - 1)\<rfloor>" using loop False assms by simp
  finally show ?thesis using False by (simp add: max_def)
qed

lemma escalation_closed_form_witness:
  "escalated_ban_duration (24 * hour) 2 (168 * hour) 3 = 96 * hour"
  using escalation_closed_form [of "24 * hour" "168 * hour" 3 2] by (simp add: hour_def minute_def second_def)

section \<open>The life of a ban\<close>

lemma get_cache_ban [table_simps]:
  "get (cache_ban ip e c) i = (if i = ip then Some (case e of None \<Rightarrow> Never_expires | Some t \<Rightarrow> Until t) else get c i)"
  by (simp add: cache_ban_def table_simps)

lemma is_blacklisted_iff:
  "fst (is_blacklisted now ip c) \<longleftrightarrow>
   (case get c ip of None \<Rightarrow> False | Some Never_expires \<Rightarrow> True | Some (Until e) \<Rightarrow> now < e)"
  by (simp add: is_blacklisted_def split: option.split ban.split)

text \<open>An automatic ban that is written down, or that needs no database, with a positive
  duration holds exactly until its expiry, on the gateway and on every edge that received the
  broadcast, and every request from the address until then is refused at the gate.\<close>

theorem auto_ban_lifts_on_time:
  assumes "apply_auto_ban cfg db True now ip reason g = ((e, True), g')" "0 < ab_duration cfg"
  shows "\<exists>t. e = Some t \<and> (\<forall>q. gq_ip q = ip \<longrightarrow> gq_now q < t \<longrightarrow> fst (serve_gate gc q g') = Forbidden) \<and>
    (\<forall>later. fst (is_blacklisted later ip (gd_cache g')) \<longleftrightarrow> later < t) \<and>
    (\<forall>later edge. fst (is_blacklisted later ip (apply_blacklist_frame (''add'', ip, e) edge)) \<longleftrightarrow> later < t)"
proof -
  obtain t where t: "e = Some t" "gd_cache g' = cache_ban ip (Some t) (gd_cache g)"
    using assms by (auto simp: apply_auto_ban_def add_auto_ban_def Let_def split: if_splits)
  have "fst (is_blacklisted later ip (gd_cache g')) \<longleftrightarrow> later < t" for later
    by (simp add: t(2) is_blacklisted_iff table_simps)
  moreover have "fst (serve_gate gc q g') = Forbidden" if "gq_ip q = ip" "gq_now q < t" for q
    using that by (simp add: serve_gate_def t(2) is_blacklisted_def table_simps Let_def)
  ultimately show ?thesis using t(1) by (simp add: apply_blacklist_frame_def is_blacklisted_iff table_simps)
qed

definition ex_auto_ban :: auto_ban_config where
  "ex_auto_ban = \<lparr>ab_duration = 24 * hour, ab_increment = True, ab_factor = 2, ab_maxDuration = 168 * hour,
     ab_ignore = [''127.0.0.1/32'', ''::1/128'']\<rparr>"

definition ex_guard :: guard where
  "ex_guard = \<lparr>gd_violations = [], gd_limiters = [], gd_cache = [], gd_rows = [], gd_sent = []\<rparr>"

lemma ex_not_exempt: "\<not> auto_ban_exempt ex_auto_ban ''203.0.113.9''"
  by (simp add: auto_ban_exempt_def ex_auto_ban_def trust_evals)

lemma auto_ban_lifts_on_time_witness:
  "fst (is_blacklisted (23 * hour) ''203.0.113.9'' (gd_cache (snd (apply_auto_ban ex_auto_ban True True 0 ''203.0.113.9'' ''r'' ex_guard))))
   \<and> \<not> fst (is_blacklisted (24 * hour) ''203.0.113.9'' (gd_cache (snd (apply_auto_ban ex_auto_ban True True 0 ''203.0.113.9'' ''r'' ex_guard))))"
proof -
  obtain g' where r: "apply_auto_ban ex_auto_ban True True 0 ''203.0.113.9'' ''r'' ex_guard = ((Some (24 * hour), True), g')"
    using ex_not_exempt
    by (simp add: apply_auto_ban_def add_auto_ban_def Let_def ex_auto_ban_def ex_guard_def ban_count_def escalated_ban_duration_def
        escalation_factor_def cap_duration_def hour_def minute_def second_def)
  have d: "0 < ab_duration ex_auto_ban" by (simp add: ex_auto_ban_def)
  from auto_ban_lifts_on_time [OF r d] show ?thesis by (simp add: r)
qed

text \<open>An automatic ban whose row could not be written never lifts. The address is banned in
  memory without an expiry, whatever duration is configured, and the edges are told so.\<close>

theorem failed_write_bans_forever:
  assumes "\<not> auto_ban_exempt cfg ip"
  shows "fst (apply_auto_ban cfg True False now ip reason g) = (None, True) \<and>
    (\<forall>later. fst (is_blacklisted later ip (gd_cache (snd (apply_auto_ban cfg True False now ip reason g))))) \<and>
    (\<forall>later edge. fst (is_blacklisted later ip (apply_blacklist_frame (''add'', ip, None) edge)))"
  using assms by (simp add: apply_auto_ban_def is_blacklisted_iff table_simps apply_blacklist_frame_def)

lemma failed_write_bans_forever_witness:
  "fst (is_blacklisted (100000 * hour) ''203.0.113.9'' (gd_cache (snd (apply_auto_ban ex_auto_ban True False 0 ''203.0.113.9'' ''r'' ex_guard))))"
  using failed_write_bans_forever [OF ex_not_exempt] by blast

lemma load_blacklist_absent:
  assumes "is_table rows" "\<not> is_blacklisted_row now ip rows"
  shows "get (load_blacklist now rows) ip = None"
proof -
  have "ip \<notin> fst ` set (list_blacklisted_ips now rows)"
    using assms get_in_set [OF assms(1)]
    by (force simp: list_blacklisted_ips_def is_blacklisted_row_def)
  moreover have "ip \<notin> fst ` set xs \<Longrightarrow> get (fold (\<lambda>(ip, e). cache_ban ip e) xs c) ip = get c ip" for xs c
    by (induction xs arbitrary: c) (auto simp: table_simps)
  ultimately show ?thesis by (simp add: load_blacklist_def)
qed

text \<open>A manual ban of an address that was banned automatically before does not survive a
  restart. The address already has a row, so the ban is not written; it holds in memory for as
  long as the process lives, and a restart after the old expiry lets the address in again.\<close>

theorem manual_ban_is_lost:
  assumes "is_table (gd_rows g)" "get (gd_rows g) ip = Some r" "br_expiresAt r = Some e" "e \<le> later" "ip \<noteq> []"
  shows "(\<forall>t. fst (is_blacklisted t ip (gd_cache (admin_ban now ip reason g)))) \<and>
    \<not> fst (is_blacklisted later ip (gd_cache (restart_guard later (admin_ban now ip reason g))))"
proof -
  have rows: "gd_rows (admin_ban now ip reason g) = gd_rows g"
    using assms(2,5) by (simp add: admin_ban_def broadcast_blacklist_update_def add_blacklist_ip_def)
  have "get (load_blacklist later (gd_rows g)) ip = None"
    by (rule load_blacklist_absent [OF assms(1)]) (simp add: is_blacklisted_row_def assms(2-4) row_in_force_def not_less)
  then show ?thesis
    using assms(5) rows by (simp add: is_blacklisted_iff restart_guard_def)
      (simp add: admin_ban_def broadcast_blacklist_update_def is_blacklisted_iff table_simps)
qed

definition ex_banned :: guard where
  "ex_banned = snd (apply_auto_ban ex_auto_ban True True 0 ''203.0.113.9'' ''r'' ex_guard)"

lemma manual_ban_is_lost_witness:
  "\<not> fst (is_blacklisted (48 * hour) ''203.0.113.9''
      (gd_cache (restart_guard (48 * hour) (admin_ban hour ''203.0.113.9'' ''abuse'' ex_banned))))"
proof -
  define r where "r = \<lparr>br_reason = ''r'', br_bannedBy = ''system'', br_bannedAt = 0, br_expiresAt = Some (24 * hour), br_banCount = 1\<rparr>"
  have "gd_rows ex_banned = put ''203.0.113.9'' r []"
    using ex_not_exempt
    by (simp add: ex_banned_def r_def apply_auto_ban_def add_auto_ban_def Let_def ex_auto_ban_def ex_guard_def ban_count_def
        escalated_ban_duration_def escalation_factor_def cap_duration_def hour_def minute_def second_def)
  with manual_ban_is_lost [of ex_banned "''203.0.113.9''" r "24 * hour" "48 * hour" hour "''abuse''"] show ?thesis
    by (simp add: table_simps r_def)
qed

section \<open>The store of bans\<close>

text \<open>What the gate relies on in a store of bans: a ban written down raises the address's count
  by one, leaves the other addresses alone, and expires by the escalated duration of that count.\<close>

locale ban_store =
  fixes prior :: "'s \<Rightarrow> string \<Rightarrow> nat"
    and write_ban :: "time \<Rightarrow> string \<Rightarrow> duration \<Rightarrow> rat \<Rightarrow> duration \<Rightarrow> 's \<Rightarrow> time option \<times> 's"
  assumes prior_write: "prior (snd (write_ban now ip d f m s)) i = (if i = ip then prior s ip + 1 else prior s i)"
    and write_expiry: "0 < d \<Longrightarrow>
      fst (write_ban now ip d f m s) = Some (now + escalated_ban_duration d f m (prior s ip + 1))"
begin

text \<open>The bans of one address, one after the other.\<close>

fun repeat_bans :: "time list \<Rightarrow> string \<Rightarrow> duration \<Rightarrow> rat \<Rightarrow> duration \<Rightarrow> 's \<Rightarrow> time option list" where
  "repeat_bans [] ip d f m s = []"
| "repeat_bans (t # ts) ip d f m s =
     (let (e, s') = write_ban t ip d f m s in e # repeat_bans ts ip d f m s')"

lemma repeat_bans_escalate:
  "0 < d \<Longrightarrow> repeat_bans ts ip d f m s =
   map (\<lambda>i. Some (ts ! i + escalated_ban_duration d f m (prior s ip + 1 + i))) [0..<length ts]"
proof (induction ts arbitrary: s)
  case (Cons t ts)
  obtain e s' where w: "write_ban t ip d f m s = (e, s')" by (metis prod.collapse)
  have "prior s' ip = prior s ip + 1" using prior_write [of t ip d f m s ip] w by simp
  then have "repeat_bans ts ip d f m s' =
      map (\<lambda>i. Some (ts ! i + escalated_ban_duration d f m (prior s ip + 2 + i))) [0..<length ts]"
    using Cons.IH [OF Cons.prems, of s'] by simp
  moreover have "e = Some (t + escalated_ban_duration d f m (prior s ip + 1))"
    using write_expiry [OF Cons.prems, of t ip f m s] w by simp
  ultimately show ?case
    by (simp add: w upt_conv_Cons map_Suc_upt [symmetric] del: upt_Suc)
qed simp

end

definition write_auto_ban :: "time \<Rightarrow> string \<Rightarrow> duration \<Rightarrow> rat \<Rightarrow> duration \<Rightarrow> ban_rows \<Rightarrow> time option \<times> ban_rows" where
  "write_auto_ban now ip d f m rows =
     (let (r, rows') = add_auto_ban now ip [] d f m rows in (br_expiresAt r, rows'))"

interpretation rows: ban_store ban_count write_auto_ban
  by unfold_locales (simp_all add: write_auto_ban_def add_auto_ban_def ban_count_def Let_def table_simps)

text \<open>An address that keeps coming back is held longer every time: the bans written for it one
  after the other expire by the escalated durations of one, two, three offences, whatever
  happened to other addresses, and the count starts from the bans already on record.\<close>

theorem repeat_offender_escalates:
  assumes "0 < d"
  shows "rows.repeat_bans ts ip d f m rows =
    map (\<lambda>i. Some (ts ! i + escalated_ban_duration d f m (ban_count rows ip + 1 + i))) [0..<length ts]"
  by (rule rows.repeat_bans_escalate [OF assms])

lemma repeat_offender_escalates_witness:
  "rows.repeat_bans [0, 100 * hour] ''a'' (24 * hour) 2 (168 * hour) [] = [Some (24 * hour), Some (148 * hour)]"
  using repeat_offender_escalates [of "24 * hour" "[0, 100 * hour]" "''a''" 2 "168 * hour" "[]"]
  by (simp add: ban_count_def escalated_ban_duration_def cap_duration_def hour_def minute_def second_def upt_rec)

end
