(* ===== verification/Access_Gate.thy ===== *)
theory Access_Gate
  imports Client_IP Session_Keys Registry
begin

text \<open>
  Who may see a tunnel: client certificates (\<open>mtls.go\<close>), passcodes, the IP whitelist and the
  session cookie, as \<open>checkAccessControls\<close> of \<open>proxy.go\<close> combines them. The password hash, the
  digest and the cookie's code are parameters, and so are the rows of the access list.
\<close>

section \<open>Client certificates\<close>

definition upper_char :: "char \<Rightarrow> char" where
  "upper_char c = (let n = of_char c :: nat in if 97 \<le> n \<and> n \<le> 122 then char_of (n - 32) else c)"

definition to_upper :: "string \<Rightarrow> string" where "to_upper s = map upper_char s"

definition extract_cn :: "string \<Rightarrow> string" where
  "extract_cn dn =
     (case index_of (to_upper dn) ''CN='' of
        None \<Rightarrow> if CHR ''='' \<notin> set dn then trim_space dn else []
      | Some i \<Rightarrow> trim_space (takeWhile (\<lambda>c. c \<noteq> CHR '','' \<and> c \<noteq> CHR ''/'') (drop (i + 3) dn)))"

text \<open>What the TLS connection itself shows: no client certificate, one that the authority did
  not sign, or a verified one with its common name.\<close>

datatype tls_peer = No_peer | Unverified_peer | Peer string

definition verify_client_certificate :: "tls_peer \<Rightarrow> headers \<Rightarrow> string option" where
  "verify_client_certificate tls h =
     (case tls of
        Unverified_peer \<Rightarrow> None
      | Peer cn \<Rightarrow> Some cn
      | No_peer \<Rightarrow>
          (let clientVerify = header_get h ''X-Ssl-Client-Verify''; clientDN = header_get h ''X-Ssl-Client-S-Dn''
           in if to_upper clientVerify = ''SUCCESS'' \<and> clientDN \<noteq> [] \<and> extract_cn clientDN \<noteq> []
              then Some (extract_cn clientDN) else None))"

section \<open>Passcodes\<close>

record passcode_lib =
  pl_isBcrypt :: "string \<Rightarrow> bool"
  pl_compare :: "string \<Rightarrow> string \<Rightarrow> bool"
  pl_sha256Hex :: "string \<Rightarrow> string"
  pl_generate :: "string \<Rightarrow> string option"

definition hash_passcode :: "passcode_lib \<Rightarrow> string \<Rightarrow> string" where
  "hash_passcode lib p =
     (if p = [] then [] else if 72 < length p then []
      else case pl_generate lib p of None \<Rightarrow> [] | Some h \<Rightarrow> h)"

definition passcode_needs_upgrade :: "passcode_lib \<Rightarrow> string \<Rightarrow> bool" where
  "passcode_needs_upgrade lib stored \<longleftrightarrow> stored \<noteq> [] \<and> \<not> pl_isBcrypt lib stored"

definition verify_passcode :: "passcode_lib \<Rightarrow> string \<Rightarrow> string \<Rightarrow> bool" where
  "verify_passcode lib raw hashed =
     (if hashed = [] \<or> raw = [] then False
      else if pl_isBcrypt lib hashed then pl_compare lib hashed raw
      else if pl_sha256Hex lib raw = hashed then True
      else raw = hashed)"

section \<open>Where a visitor is sent afterwards\<close>

fun escapes_valid :: "string \<Rightarrow> bool" where
  "escapes_valid [] = True"
| "escapes_valid (c # s) =
     (if c = CHR ''%'' then (case s of a # b # r \<Rightarrow> is_hex a \<and> is_hex b \<and> escapes_valid r | _ \<Rightarrow> False)
      else escapes_valid s)"

definition is_control :: "char \<Rightarrow> bool" where
  "is_control c \<longleftrightarrow> (of_char c :: nat) < 32 \<or> (of_char c :: nat) = 127"

text \<open>
  \<open>url.Parse\<close> on a text that begins with a single slash. Such a text names no scheme (a scheme
  begins with a letter) and no host (a host follows two slashes), so only the syntax is left: no
  control byte before the fragment, and well-formed escapes in the path and in the fragment.
\<close>

definition rooted_url_parses :: "string \<Rightarrow> bool" where
  "rooted_url_parses uri =
     (let body = takeWhile (\<lambda>c. c \<noteq> CHR ''#'') uri; frag = drop (length body + 1) uri;
          path = takeWhile (\<lambda>c. c \<noteq> CHR ''?'') body
      in list_all (\<lambda>c. \<not> is_control c) body \<and> escapes_valid path \<and> escapes_valid frag)"

definition backslash :: char where "backslash = char_of (92 :: nat)"

definition safe_redirect_path :: "string \<Rightarrow> string" where
  "safe_redirect_path uri =
     (if uri = [] \<or> \<not> has_prefix uri ''/'' \<or> has_prefix uri ''//'' \<or> has_prefix uri [CHR ''/'', backslash] then ''/''
      else if \<not> rooted_url_parses uri then ''/''
      else uri)"

section \<open>The whitelist\<close>

definition whitelist_entry_matches :: "host_addr \<Rightarrow> string \<Rightarrow> bool" where
  "whitelist_entry_matches v raw =
     (let entry = trim_space raw
      in entry \<noteq> [] \<and>
         ((case parse_cidr entry of None \<Rightarrow> False | Some n \<Rightarrow> net_contains n v) \<or> parse_ip entry = Some v))"

definition check_ip_in_whitelist :: "string \<Rightarrow> string \<Rightarrow> bool" where
  "check_ip_in_whitelist visitorIP whitelist =
     (case parse_ip visitorIP of
        None \<Rightarrow> False
      | Some v \<Rightarrow> list_ex (whitelist_entry_matches v) (split_on (CHR '','') whitelist))"

section \<open>The access check\<close>

record access_env =
  ae_caCert :: bool
  ae_forceClientCert :: bool
  ae_acl :: "(string \<Rightarrow> string \<Rightarrow> string \<Rightarrow> time option option) option"
  ae_reserved :: "string \<Rightarrow> string \<Rightarrow> bool"
  ae_trusted :: "ip_net list"
  ae_ring :: keyring
  ae_mac :: "nat list \<Rightarrow> string \<Rightarrow> string"
  ae_lib :: passcode_lib

record access_request =
  aq_method :: string
  aq_path :: string
  aq_requestURI :: string
  aq_passcode :: string
  aq_redirect :: string
  aq_cookie :: "string option"
  aq_now :: time
  aq_remote :: string
  aq_headers :: headers
  aq_tls :: tls_peer

datatype access_outcome =
    Admitted
  | Blocked_ip string
  | Passcode_page string string
  | Session_started string string

text \<open>\<open>strings.SplitN(host, ".", 2)\<close>.\<close>

definition host_label :: "string \<Rightarrow> string" where "host_label host = takeWhile (\<lambda>c. c \<noteq> CHR ''.'') host"

definition host_domain :: "string \<Rightarrow> string option" where
  "host_domain host =
     (case dropWhile (\<lambda>c. c \<noteq> CHR ''.'') host of [] \<Rightarrow> None | _ # d \<Rightarrow> Some d)"

definition certificate_admits :: "access_env \<Rightarrow> access_request \<Rightarrow> lease \<Rightarrow> string \<Rightarrow> bool" where
  "certificate_admits env q l host =
     (ae_caCert env \<and>
      (case verify_client_certificate (aq_tls q) (aq_headers q) of
         None \<Rightarrow> False
       | Some cn \<Rightarrow>
           cn = ''user:'' @ l_userID l \<or>
           (case (ae_acl env, host_domain host) of
              (Some acl, Some domain) \<Rightarrow>
                (case acl (l_subdomainPrefix l) domain cn of
                   None \<Rightarrow> False
                 | Some None \<Rightarrow> True
                 | Some (Some e) \<Rightarrow> aq_now q < e)
            | _ \<Rightarrow> False)))"

definition is_verify_request :: "access_request \<Rightarrow> bool" where
  "is_verify_request q \<longleftrightarrow> aq_method q = ''POST'' \<and> aq_path q = ''/lfr-tunnel-verify''"

text \<open>The passcode form. Beside the answer, the new hash written over a legacy one, if any.\<close>

definition verify_form ::
  "access_env \<Rightarrow> access_request \<Rightarrow> lease \<Rightarrow> string \<Rightarrow> access_outcome \<times> (string \<times> string \<times> string) option" where
  "verify_form env q l host =
     (let redirectURI = safe_redirect_path (aq_redirect q);
          (required, _, _) = access_controls l
      in if required \<noteq> [] \<and> verify_passcode (ae_lib env) (aq_passcode q) required
         then
           (let upgrade =
                  (case (ae_acl env, host_domain host) of
                     (Some _, Some domain) \<Rightarrow>
                       (let h = hash_passcode (ae_lib env) (aq_passcode q)
                        in if ae_reserved env (l_subdomainPrefix l) domain \<and> passcode_needs_upgrade (ae_lib env) required \<and> h \<noteq> []
                           then Some (l_subdomainPrefix l, domain, h) else None)
                   | _ \<Rightarrow> None)
            in case create_session_cookie (ae_mac env) (aq_now q) (host_label host) (ae_ring env) of
                 None \<Rightarrow> (Passcode_page (safe_redirect_path redirectURI)
                           ''This gateway is still starting up. Please try again in a moment.'', upgrade)
               | Some cookie \<Rightarrow> (Session_started cookie redirectURI, upgrade))
         else (Passcode_page (safe_redirect_path redirectURI) ''Incorrect passcode. Please try again.'', None))"

definition evaluate_rules :: "access_env \<Rightarrow> access_request \<Rightarrow> lease \<Rightarrow> string \<Rightarrow> access_outcome" where
  "evaluate_rules env q l host =
     (let (passcode, whitelist, mode0) = access_controls l;
          mode = to_lower mode0;
          visitorIP = client_ip_from (ae_trusted env) (aq_remote q) (aq_headers q);
          ask = Passcode_page (safe_redirect_path (aq_requestURI q)) []
      in if ae_forceClientCert env \<and> ae_caCert env then Blocked_ip visitorIP
         else if mode = ''public'' then Admitted
         else
           (let hasPasscode = (passcode \<noteq> [] \<and> mode \<noteq> ''whitelist'');
                hasIPWhitelist = (whitelist \<noteq> [] \<and> mode \<noteq> ''passcode'')
            in if \<not> hasPasscode \<and> \<not> hasIPWhitelist then Admitted
               else
                 (let ipAllowed = (hasIPWhitelist \<and> check_ip_in_whitelist visitorIP whitelist);
                      passcodeAllowed = (hasPasscode \<and>
                        (case aq_cookie q of
                           None \<Rightarrow> False
                         | Some c \<Rightarrow> verify_session_cookie (ae_mac env) (aq_now q) c (host_label host) (ae_ring env)))
                  in if mode = ''and'' then
                       (if hasIPWhitelist \<and> \<not> ipAllowed then Blocked_ip visitorIP
                        else if hasPasscode \<and> \<not> passcodeAllowed then ask
                        else Admitted)
                     else if hasIPWhitelist \<and> ipAllowed then Admitted
                     else if hasPasscode \<and> passcodeAllowed then Admitted
                     else if hasPasscode then ask
                     else if hasIPWhitelist \<and> \<not> ipAllowed then Blocked_ip visitorIP
                     else Admitted)))"

definition check_access_controls ::
  "access_env \<Rightarrow> access_request \<Rightarrow> lease \<Rightarrow> string \<Rightarrow> access_outcome \<times> (string \<times> string \<times> string) option" where
  "check_access_controls env q l host =
     (if certificate_admits env q l host then (Admitted, None)
      else if is_verify_request q then verify_form env q l host
      else (evaluate_rules env q l host, None))"

section \<open>Saving the rules\<close>

text \<open>\<open>UpdateReservationAccessControl\<close> and its handler (\<open>api_service_reservation.go\<close>, \<open>api.go\<close>).\<close>

definition passcode_mask :: string where "passcode_mask = ''********''"

definition missing_access_control_value :: "string \<Rightarrow> string \<Rightarrow> string \<Rightarrow> string" where
  "missing_access_control_value mode passcode whitelist =
     (let hasPasscode = passcode \<noteq> []; hasWhitelist = whitelist \<noteq> []
      in if mode = ''and'' then
           (if \<not> hasPasscode \<and> \<not> hasWhitelist then ''a passcode and an IP whitelist; neither is set''
            else if \<not> hasPasscode then ''a passcode; only the IP whitelist is set''
            else if \<not> hasWhitelist then ''an IP whitelist; only the passcode is set''
            else [])
         else if mode = ''passcode'' then (if \<not> hasPasscode then ''a passcode; none is set'' else [])
         else if mode = ''whitelist'' then (if \<not> hasWhitelist then ''an IP whitelist; none is set'' else [])
         else [])"

datatype save_error = Bad_mode | Save_not_found | Save_forbidden | Save_invalid string | Save_failed

record saved_rules =
  sv_userID :: string
  sv_passcode :: string
  sv_whitelistIPs :: string
  sv_accessMode :: string

definition update_access_control ::
  "passcode_lib \<Rightarrow> bool \<Rightarrow> string \<Rightarrow> string \<Rightarrow> string \<Rightarrow> string \<Rightarrow> string \<Rightarrow> saved_rules option \<Rightarrow> save_error + saved_rules" where
  "update_access_control lib write_ok userID role accessMode passcode whitelistIPs row =
     (case row of
        None \<Rightarrow> Inl Save_not_found
      | Some res \<Rightarrow>
          (if sv_userID res \<noteq> userID \<and> role \<noteq> ''admin'' \<and> role \<noteq> ''owner'' then Inl Save_forbidden
           else
             (let res' = res\<lparr>sv_passcode := (if passcode = passcode_mask then sv_passcode res
                                              else if passcode = [] then [] else hash_passcode lib passcode),
                             sv_whitelistIPs := whitelistIPs,
                             sv_accessMode := (if accessMode \<noteq> [] then accessMode else ''or'')\<rparr>;
                  missing = missing_access_control_value (sv_accessMode res') (sv_passcode res') (sv_whitelistIPs res')
              in if missing \<noteq> [] then Inl (Save_invalid missing)
                 else if \<not> write_ok then Inl Save_failed
                 else Inr res')))"

definition handle_update_access_control ::
  "passcode_lib \<Rightarrow> bool \<Rightarrow> string \<Rightarrow> string \<Rightarrow> string \<Rightarrow> string \<Rightarrow> string \<Rightarrow> saved_rules option \<Rightarrow> save_error + saved_rules" where
  "handle_update_access_control lib write_ok userID role accessMode passcode whitelistIPs row =
     (let mode = trim_space (to_lower accessMode)
      in if mode \<notin> {[], ''and'', ''or'', ''public'', ''passcode'', ''whitelist''} then Inl Bad_mode
         else update_access_control lib write_ok userID role mode passcode whitelistIPs row)"

text \<open>What the handler does with rules it has saved: the live leases of that name take them, here
  and, by the broadcast, on every edge.\<close>

definition push_saved_rules :: "string \<Rightarrow> saved_rules \<Rightarrow> registry \<Rightarrow> registry" where
  "push_saved_rules sub res r =
     snd (set_access_controls_for_subdomain sub (sv_passcode res) (sv_whitelistIPs res) (sv_accessMode res) r)"

end
