(* ===== verification/Access_Facts.thy ===== *)
theory Access_Facts
  imports Access_Gate Session_Properties Client_IP_Facts Registry_Views
begin

text \<open>
  What the access check guarantees: its decision as a policy over the factors a mode requires,
  the round trip of the passcode form and the cookie, redirects that stay on the host, and three
  ways around the gate.
\<close>

section \<open>The policy\<close>

datatype factor = Passcode_factor | Whitelist_factor

definition required_factors :: "string \<Rightarrow> string \<Rightarrow> string \<Rightarrow> factor set" where
  "required_factors mode passcode whitelist =
     (if mode = ''public'' then {}
      else (if passcode \<noteq> [] \<and> mode \<noteq> ''whitelist'' then {Passcode_factor} else {}) \<union>
           (if whitelist \<noteq> [] \<and> mode \<noteq> ''passcode'' then {Whitelist_factor} else {}))"

text \<open>Every required factor for the mode \<open>and\<close>, one of them for any other mode.\<close>

definition policy_admits :: "string \<Rightarrow> factor set \<Rightarrow> factor set \<Rightarrow> bool" where
  "policy_admits mode required shown \<longleftrightarrow>
     (if mode = ''and'' then required \<subseteq> shown else required = {} \<or> required \<inter> shown \<noteq> {})"

definition shown_factors :: "access_env \<Rightarrow> access_request \<Rightarrow> lease \<Rightarrow> string \<Rightarrow> factor set" where
  "shown_factors env q l host =
     (if check_ip_in_whitelist (client_ip_from (ae_trusted env) (aq_remote q) (aq_headers q)) (l_whitelistIPs l)
      then {Whitelist_factor} else {}) \<union>
     (case aq_cookie q of
        None \<Rightarrow> {}
      | Some c \<Rightarrow> if verify_session_cookie (ae_mac env) (aq_now q) c (host_label host) (ae_ring env)
                  then {Passcode_factor} else {})"

lemma mode_of_lease: "to_lower (snd (snd (access_controls l))) = (if l_accessMode l = [] then ''or'' else to_lower (l_accessMode l))"
  by (simp add: access_controls_def to_lower_def lower_char_def)

definition lease_mode :: "lease \<Rightarrow> string" where
  "lease_mode l = to_lower (snd (snd (access_controls l)))"

lemma evaluate_rules_admits:
  "evaluate_rules env q l host = Admitted \<longleftrightarrow>
   \<not> (ae_forceClientCert env \<and> ae_caCert env) \<and>
   policy_admits (lease_mode l) (required_factors (lease_mode l) (l_passcode l) (l_whitelistIPs l))
     (shown_factors env q l host)"
proof -
  define mode where "mode = lease_mode l"
  have ac: "access_controls l = (l_passcode l, l_whitelistIPs l, snd (snd (access_controls l)))"
    by (simp add: access_controls_def)
  define ip where "ip = check_ip_in_whitelist (client_ip_from (ae_trusted env) (aq_remote q) (aq_headers q)) (l_whitelistIPs l)"
  define pass where "pass = (case aq_cookie q of None \<Rightarrow> False
      | Some c \<Rightarrow> verify_session_cookie (ae_mac env) (aq_now q) c (host_label host) (ae_ring env))"
  have shown: "shown_factors env q l host = (if ip then {Whitelist_factor} else {}) \<union> (if pass then {Passcode_factor} else {})"
    by (auto simp: shown_factors_def ip_def pass_def split: option.split)
  have eval: "evaluate_rules env q l host =
     (if ae_forceClientCert env \<and> ae_caCert env
      then Blocked_ip (client_ip_from (ae_trusted env) (aq_remote q) (aq_headers q))
      else if mode = ''public'' then Admitted
      else if \<not> (l_passcode l \<noteq> [] \<and> mode \<noteq> ''whitelist'') \<and> \<not> (l_whitelistIPs l \<noteq> [] \<and> mode \<noteq> ''passcode'') then Admitted
      else if mode = ''and'' then
        (if (l_whitelistIPs l \<noteq> [] \<and> mode \<noteq> ''passcode'') \<and> \<not> ip
         then Blocked_ip (client_ip_from (ae_trusted env) (aq_remote q) (aq_headers q))
         else if (l_passcode l \<noteq> [] \<and> mode \<noteq> ''whitelist'') \<and> \<not> pass
         then Passcode_page (safe_redirect_path (aq_requestURI q)) [] else Admitted)
      else if (l_whitelistIPs l \<noteq> [] \<and> mode \<noteq> ''passcode'') \<and> ip then Admitted
      else if (l_passcode l \<noteq> [] \<and> mode \<noteq> ''whitelist'') \<and> pass then Admitted
      else if l_passcode l \<noteq> [] \<and> mode \<noteq> ''whitelist'' then Passcode_page (safe_redirect_path (aq_requestURI q)) []
      else Blocked_ip (client_ip_from (ae_trusted env) (aq_remote q) (aq_headers q)))"
    unfolding evaluate_rules_def
    by (subst ac) (simp add: Let_def mode_def lease_mode_def ip_def pass_def)
  show ?thesis
    unfolding eval shown mode_def [symmetric] policy_admits_def required_factors_def by auto
qed

text \<open>C4: The access check decides by policy. A visitor is admitted to a tunnel exactly if a
  client certificate admits it, or if the request is not the passcode form, certificates are not
  enforced, and the factors the visitor shows satisfy the mode: all required ones for \<open>and\<close>, one
  of them otherwise, where the mode and the values that are set say which are required.\<close>

theorem access_policy_exact:
  "fst (check_access_controls env q l host) = Admitted \<longleftrightarrow>
   (certificate_admits env q l host \<or>
    (is_verify_request q = False \<and> (ae_forceClientCert env \<and> ae_caCert env) = False \<and>
     policy_admits (lease_mode l) (required_factors (lease_mode l) (l_passcode l) (l_whitelistIPs l))
       (shown_factors env q l host)))"
proof -
  have "fst (verify_form env q l host) \<noteq> Admitted"
    by (simp add: verify_form_def Let_def case_prod_unfold split: option.split)
  then show ?thesis by (simp add: check_access_controls_def evaluate_rules_admits)
qed

section \<open>Redirects\<close>

lemma safe_redirect_idem [simp]: "safe_redirect_path (safe_redirect_path uri) = safe_redirect_path uri"
  by (simp add: safe_redirect_path_def has_prefix_def rooted_url_parses_def is_control_def backslash_def)

definition stays_on_host :: "string \<Rightarrow> bool" where
  "stays_on_host r \<longleftrightarrow> (\<exists>rest. r = CHR ''/'' # rest \<and> (rest = [] \<or> (hd rest \<noteq> CHR ''/'' \<and> hd rest \<noteq> backslash))) \<and>
     list_all (\<lambda>c. \<not> is_control c) (takeWhile (\<lambda>c. c \<noteq> CHR ''#'') r)"

lemma safe_redirect_stays: "stays_on_host (safe_redirect_path uri)"
proof (cases "safe_redirect_path uri = ''/''")
  case True
  then show ?thesis by (simp add: stays_on_host_def is_control_def)
next
  case False
  then have uri: "safe_redirect_path uri = uri" "has_prefix uri ''/''" "\<not> has_prefix uri ''//''"
    "\<not> has_prefix uri [CHR ''/'', backslash]" "rooted_url_parses uri"
    by (auto simp: safe_redirect_path_def split: if_splits)
  then obtain rest where rest: "uri = CHR ''/'' # rest" by (auto simp: has_prefix_iff)
  with uri(3,4) have "rest = [] \<or> (hd rest \<noteq> CHR ''/'' \<and> hd rest \<noteq> backslash)"
    by (cases rest) (auto simp: has_prefix_def)
  then show ?thesis using uri(1,5) rest by (auto simp: stays_on_host_def rooted_url_parses_def Let_def)
qed

text \<open>The gate never sends a visitor elsewhere. Every redirect target it answers with, in the
  redirect after a correct passcode and in the form it shows again, is a path on the same host:
  one slash not followed by another slash or a backslash, with no control byte before the
  fragment, whatever the caller supplied.\<close>

theorem redirects_stay_on_host:
  "(case fst (check_access_controls env q l host) of
      Passcode_page r e \<Rightarrow> stays_on_host r
    | Session_started c r \<Rightarrow> stays_on_host r
    | _ \<Rightarrow> True)"
proof (cases "fst (check_access_controls env q l host)")
  case (Passcode_page r e)
  then obtain uri where "r = safe_redirect_path uri"
    by (auto simp: check_access_controls_def verify_form_def evaluate_rules_def Let_def case_prod_unfold
        split: if_splits option.splits)
  then show ?thesis using Passcode_page safe_redirect_stays by simp
next
  case (Session_started c r)
  then obtain uri where "r = safe_redirect_path uri"
    by (auto simp: check_access_controls_def verify_form_def evaluate_rules_def Let_def case_prod_unfold
        split: if_splits option.splits)
  then show ?thesis using Session_started safe_redirect_stays by simp
qed simp_all

section \<open>The passcode session\<close>

text \<open>A visitor who entered the correct passcode is let in for a day: the cookie the form
  answers with opens every later request until its expiry, on any gateway that accepts the
  minting key, whatever the address. Nothing but the first label of the host enters the cookie,
  so it opens just as well any other tunnel with the same first label, of whichever owner and
  under whichever domain, that a passcode alone can open.\<close>

theorem passcode_session_opens_label:
  assumes "fst (verify_form env1 q1 l1 host1) = Session_started cookie r"
    and "host_label host2 = host_label host1" "ae_mac env2 = ae_mac env1"
    and "kr_current (ae_ring env1) \<in> set (kr_keys (ae_ring env2))"
    and "aq_cookie q2 = Some cookie" "unix (aq_now q2) \<le> unix (aq_now q1 + visitor_session_cookie_lifetime)"
    and "\<not> is_verify_request q2" "\<not> (ae_forceClientCert env2 \<and> ae_caCert env2)"
    and "l_passcode l2 \<noteq> []" "lease_mode l2 \<noteq> ''and''" "lease_mode l2 \<noteq> ''whitelist''"
    and "CHR '':'' \<notin> set host1" "\<forall>k p. CHR '':'' \<notin> set (ae_mac env1 k p)"
    and "- (2 ^ 63) \<le> unix (aq_now q1 + visitor_session_cookie_lifetime)"
    and "unix (aq_now q1 + visitor_session_cookie_lifetime) < 2 ^ 63"
  shows "fst (check_access_controls env2 q2 l2 host2) = Admitted"
proof -
  have created: "create_session_cookie (ae_mac env1) (aq_now q1) (host_label host1) (ae_ring env1) = Some cookie"
    using assms(1) by (auto simp: verify_form_def Let_def case_prod_unfold split: if_splits option.splits)
  have label: "CHR '':'' \<notin> set (host_label host1)"
    using assms(12) by (auto simp: host_label_def dest: set_takeWhileD)
  have "verify_session_cookie (ae_mac env2) (aq_now q2) cookie (host_label host2) (ae_ring env2)"
    unfolding assms(2,3) using verify_created [OF created label _ assms(4,14,15)] assms(6,13) by blast
  then have "Passcode_factor \<in> shown_factors env2 q2 l2 host2" using assms(5) by (simp add: shown_factors_def)
  then have "policy_admits (lease_mode l2) (required_factors (lease_mode l2) (l_passcode l2) (l_whitelistIPs l2))
      (shown_factors env2 q2 l2 host2)"
    using assms(9-11) by (auto simp: policy_admits_def required_factors_def)
  then have "evaluate_rules env2 q2 l2 host2 = Admitted" using assms(8) by (simp add: evaluate_rules_admits)
  then show ?thesis using assms(7) by (simp add: check_access_controls_def)
qed

definition ex_lib :: passcode_lib where
  "ex_lib = \<lparr>pl_isBcrypt = (\<lambda>h. False), pl_compare = (\<lambda>h p. False), pl_sha256Hex = (\<lambda>p. []), pl_generate = (\<lambda>p. Some (CHR ''$'' # p))\<rparr>"

definition ex_lease :: "string \<Rightarrow> string \<Rightarrow> lease" where
  "ex_lease user passcode =
     \<lparr>l_userID = user, l_subdomainPrefix = ''bank'', l_fullHost = [], l_sessionToken = [], l_localPort = 0, l_targetPort = 0,
      l_rateLimit = 0, l_baseRateLimit = 0, l_clientIP = [], l_basicAuth = [], l_passcode = passcode,
      l_whitelistIPs = [], l_accessMode = [], l_addedHeaders = [], l_status = [], l_bytesIn = 0, l_bytesOut = 0,
      l_lastBytesIn = 0, l_lastBytesOut = 0, l_lastHeartbeatBytes = 0, l_offlineAlertPending = False,
      l_offlineAlertSince = 0, l_createdAt = 0, l_nodeID = [], l_visitorIPs = [], l_launchFlags = [], l_launchOverrides = []\<rparr>"

definition ex_access :: access_env where
  "ex_access = \<lparr>ae_caCert = True, ae_forceClientCert = False, ae_acl = None, ae_reserved = (\<lambda>s d. False), ae_trusted = [],
     ae_ring = ex_ring [ex_key ''a'' 0] (ex_key ''a'' 0), ae_mac = ex_mac, ae_lib = ex_lib\<rparr>"

definition ex_form :: access_request where
  "ex_form = \<lparr>aq_method = ''POST'', aq_path = ''/lfr-tunnel-verify'', aq_requestURI = ''/lfr-tunnel-verify'', aq_passcode = ''mine'',
     aq_redirect = ''/'', aq_cookie = None, aq_now = 0, aq_remote = ''198.51.100.1:5'', aq_headers = [], aq_tls = No_peer\<rparr>"

definition ex_visit :: "string option \<Rightarrow> headers \<Rightarrow> access_request" where
  "ex_visit cookie h = ex_form\<lparr>aq_method := ''GET'', aq_path := ''/'', aq_requestURI := ''/'', aq_passcode := [],
     aq_redirect := [], aq_cookie := cookie, aq_headers := h\<rparr>"

lemma passcode_session_opens_label_witness:
  "(case fst (verify_form ex_access ex_form (ex_lease ''mallory'' ''mine'') ''bank.evil.com'') of
      Session_started cookie r \<Rightarrow>
        fst (check_access_controls ex_access (ex_visit (Some cookie) []) (ex_lease ''alice'' ''secret'') ''bank.lfr-demo.se'') = Admitted
    | _ \<Rightarrow> False)"
proof -
  obtain cookie r where form: "fst (verify_form ex_access ex_form (ex_lease ''mallory'' ''mine'') ''bank.evil.com'') = Session_started cookie r"
    by (simp add: verify_form_def ex_access_def ex_form_def ex_lease_def access_controls_def verify_passcode_def ex_lib_def
        create_session_cookie_def ex_ring_def Let_def case_prod_unfold)
  have "fst (check_access_controls ex_access (ex_visit (Some cookie) []) (ex_lease ''alice'' ''secret'') ''bank.lfr-demo.se'') = Admitted"
    by (rule passcode_session_opens_label [OF form])
      (simp_all add: ex_access_def ex_form_def ex_visit_def ex_lease_def host_label_def is_verify_request_def ex_ring_def lease_mode_def
        access_controls_def to_lower_def lower_char_def ex_mac_def colon_free_itoa visitor_session_cookie_lifetime_def unix_def
        hour_def minute_def second_def)
  then show ?thesis by (simp add: form)
qed

section \<open>Ways around the gate\<close>

lemma index_of_hit: "has_prefix s p \<Longrightarrow> index_of s p = Some 0"
  by (cases s) (auto simp: has_prefix_def)

lemma extract_cn_of_user:
  assumes "CHR '','' \<notin> set cn" "CHR ''/'' \<notin> set cn"
  shows "extract_cn (''CN='' @ cn) = trim_space cn"
proof -
  have "index_of (to_upper (''CN='' @ cn)) ''CN='' = Some 0"
    by (rule index_of_hit) (simp add: to_upper_def upper_char_def has_prefix_def)
  moreover have "takeWhile (\<lambda>c. c \<noteq> CHR '','' \<and> c \<noteq> CHR ''/'') cn = cn" using assms by (auto simp: takeWhile_eq_all_conv)
  ultimately show ?thesis by (simp add: extract_cn_def del: takeWhile_eq_all_conv)
qed

text \<open>A certificate can be claimed in a header. On a gateway with a certificate authority, a
  request that shows no client certificate but carries two headers saying that one was verified
  for the tunnel's owner is admitted, from any address, past the passcode, the whitelist and the
  enforcement of certificates; whether the sender is a trusted proxy is not asked.\<close>

theorem certificate_headers_admit_anyone:
  assumes "ae_caCert env" "aq_tls q = No_peer"
    and "header_get (aq_headers q) ''X-Ssl-Client-Verify'' = ''SUCCESS''"
    and "header_get (aq_headers q) ''X-Ssl-Client-S-Dn'' = ''CN=user:'' @ l_userID l"
    and "CHR '','' \<notin> set (l_userID l)" "CHR ''/'' \<notin> set (l_userID l)"
    and "trim_space (''user:'' @ l_userID l) = ''user:'' @ l_userID l"
  shows "fst (check_access_controls env q l host) = Admitted"
proof -
  have "extract_cn (''CN='' @ (''user:'' @ l_userID l)) = ''user:'' @ l_userID l"
    using extract_cn_of_user [of "''user:'' @ l_userID l"] assms(5-7) by simp
  then have "verify_client_certificate (aq_tls q) (aq_headers q) = Some (''user:'' @ l_userID l)"
    using assms(2-4) by (simp add: verify_client_certificate_def to_upper_def upper_char_def)
  then show ?thesis using assms(1) by (simp add: check_access_controls_def certificate_admits_def)
qed

lemma certificate_headers_admit_anyone_witness:
  "fst (check_access_controls ex_access
     (ex_visit None [(''X-Ssl-Client-Verify'', [''SUCCESS'']), (''X-Ssl-Client-S-Dn'', [''CN=user:alice''])])
     (ex_lease ''alice'' ''secret'') ''bank.lfr-demo.se'') = Admitted"
  by (rule certificate_headers_admit_anyone)
    (simp_all add: ex_access_def ex_visit_def ex_form_def ex_lease_def header_get_def get_def trim_space_def is_space_def)

text \<open>Saved rules keep the promise of their mode. When the rules of a reservation are saved
  with the mode \<open>and\<close>, \<open>passcode\<close> or \<open>whitelist\<close>, the tunnel then requires every factor the
  mode names; the saving is refused otherwise, also where the mask stands for a passcode that is
  not set.\<close>

theorem saved_mode_is_enforced:
  assumes "handle_update_access_control lib ok userID role mode passcode whitelist row = Inr res"
  shows "sv_accessMode res \<in> {''and'', ''or'', ''public'', ''passcode'', ''whitelist''} \<and>
    (if sv_accessMode res = ''and'' then {Passcode_factor, Whitelist_factor}
     else if sv_accessMode res = ''passcode'' then {Passcode_factor}
     else if sv_accessMode res = ''whitelist'' then {Whitelist_factor} else {})
    \<subseteq> required_factors (sv_accessMode res) (sv_passcode res) (sv_whitelistIPs res)"
proof -
  have mode: "trim_space (to_lower mode) \<in> {[], ''and'', ''or'', ''public'', ''passcode'', ''whitelist''}"
    and saved: "update_access_control lib ok userID role (trim_space (to_lower mode)) passcode whitelist row = Inr res"
    using assms by (auto simp: handle_update_access_control_def Let_def split: if_splits)
  from saved have none: "missing_access_control_value (sv_accessMode res) (sv_passcode res) (sv_whitelistIPs res) = []"
    and kept: "sv_accessMode res = (if trim_space (to_lower mode) \<noteq> [] then trim_space (to_lower mode) else ''or'')"
    by (auto simp: update_access_control_def Let_def split: option.splits if_splits)
  show ?thesis using mode none unfolding kept
    by (auto simp: missing_access_control_value_def required_factors_def Let_def split: if_splits)
qed

lemma saved_mode_is_enforced_witness:
  "(case handle_update_access_control ex_lib True ''alice'' ''user'' ''passcode'' ''secret'' []
          (Some \<lparr>sv_userID = ''alice'', sv_passcode = [], sv_whitelistIPs = [], sv_accessMode = []\<rparr>) of
      Inl e \<Rightarrow> False
    | Inr res \<Rightarrow> Passcode_factor \<in> required_factors (sv_accessMode res) (sv_passcode res) (sv_whitelistIPs res))"
proof -
  obtain res where res: "handle_update_access_control ex_lib True ''alice'' ''user'' ''passcode'' ''secret'' []
      (Some \<lparr>sv_userID = ''alice'', sv_passcode = [], sv_whitelistIPs = [], sv_accessMode = []\<rparr>) = Inr res"
    "sv_accessMode res = ''passcode''"
    by (simp add: handle_update_access_control_def update_access_control_def to_lower_def lower_char_def trim_space_def is_space_def
        passcode_mask_def hash_passcode_def ex_lib_def missing_access_control_value_def Let_def)
  from saved_mode_is_enforced [OF res(1)] res show ?thesis by simp
qed

text \<open>A passcode too long for the hash protects nothing. The mode \<open>or\<close> saves it without an
  error as no passcode at all, and the tunnel, with no whitelist, then requires no factor.\<close>

theorem long_passcode_opens_tunnel:
  assumes "72 < length passcode" "sv_userID row = userID" "trim_space (to_lower mode) \<in> {[], ''or''}"
  shows "(case handle_update_access_control lib True userID role mode passcode [] (Some row) of
      Inl e \<Rightarrow> False
    | Inr res \<Rightarrow> sv_passcode res = [] \<and>
        required_factors (sv_accessMode res) (sv_passcode res) (sv_whitelistIPs res) = {})"
  using assms
  by (auto simp: handle_update_access_control_def update_access_control_def passcode_mask_def hash_passcode_def
      missing_access_control_value_def required_factors_def Let_def)

lemma long_passcode_opens_tunnel_witness:
  "(case handle_update_access_control ex_lib True ''alice'' ''user'' ''or'' (replicate 80 (CHR ''x'')) []
          (Some \<lparr>sv_userID = ''alice'', sv_passcode = [], sv_whitelistIPs = [], sv_accessMode = []\<rparr>) of
      Inl e \<Rightarrow> False
    | Inr res \<Rightarrow> sv_passcode res = [] \<and> required_factors (sv_accessMode res) (sv_passcode res) (sv_whitelistIPs res) = {})"
  by (rule long_passcode_opens_tunnel) (simp_all add: to_lower_def lower_char_def trim_space_def is_space_def)

text \<open>Rules are saved for one name under one domain and applied to the name under every domain.
  When the owner of a reservation saves its rules, every live tunnel of the same prefix takes
  them, whoever it belongs to and whatever its host: its own passcode and whitelist are gone.\<close>

theorem saved_rules_reach_namesakes:
  assumes "registry_wf r" "get (r_leases r) host = Some p" "l_subdomainPrefix (deref r p) = sub"
  shows "get (r_leases (push_saved_rules sub res r)) host = Some p \<and>
    access_controls (deref (push_saved_rules sub res r) p) =
      (sv_passcode res, sv_whitelistIPs res, if sv_accessMode res = [] then ''or'' else sv_accessMode res) \<and>
    l_userID (deref (push_saved_rules sub res r) p) = l_userID (deref r p)"
  using update_routed_where [OF assms(1,2), of _ "\<lambda>l. l_subdomainPrefix l = sub"] assms(2,3)
  by (simp add: push_saved_rules_def set_access_controls_for_subdomain_def Let_def access_controls_def set_access_controls_def)

lemma saved_rules_reach_namesakes_witness:
  "access_controls (deref (push_saved_rules ''demo''
      \<lparr>sv_userID = ''mallory'', sv_passcode = [], sv_whitelistIPs = [], sv_accessMode = ''public''\<rparr> ex_registry) 0) = ([], [], ''public'')"
proof -
  have "l_subdomainPrefix (deref ex_registry 0) = ''demo''"
    by (simp add: ex_registry_def new_registry_def eval_register)
  then show ?thesis
    using saved_rules_reach_namesakes [OF ex_registry_wf(1), of "''demo.ex.org''" 0 "''demo''"
        "\<lparr>sv_userID = ''mallory'', sv_passcode = [], sv_whitelistIPs = [], sv_accessMode = ''public''\<rparr>"]
    by (simp add: ex_registry_value get_def)
qed

end
