(* ===== verification/Waf.thy ===== *)
theory Waf
  imports Access_Gate
begin

text \<open>
  The web application firewall of \<open>pkg/server/waf.go\<close>: the four signature patterns, the cheap
  tests that decide whether a pattern is tried at all, and the scan of one request.

  The patterns are regular expressions of Go's \<open>regexp\<close> package over ASCII text, all of them
  case-insensitive. The package reports whether a pattern matches anywhere; the model computes
  every place a match can end, which answers the same question.
\<close>

section \<open>Regular expressions\<close>

datatype char_set = White_space | Any_but_newline

datatype rx =
    Ch char                 \<comment> \<open>one letter, in either case\<close>
  | Many char_set           \<comment> \<open>\<open>\s*\<close>, \<open>.*\<close>\<close>
  | Some_of char_set        \<comment> \<open>\<open>\s+\<close>\<close>
  | Boundary                \<comment> \<open>\<open>\b\<close>\<close>
  | At_end                  \<comment> \<open>\<open>$\<close> without the multi-line flag\<close>
  | Seq rx rx
  | Alt rx rx

fun in_char_set :: "char_set \<Rightarrow> char \<Rightarrow> bool" where
  "in_char_set White_space c = ((of_char c :: nat) \<in> {9, 10, 12, 13, 32})"
| "in_char_set Any_but_newline c = ((of_char c :: nat) \<noteq> 10)"

definition is_word_char :: "char \<Rightarrow> bool" where
  "is_word_char c \<longleftrightarrow> is_alnum (lower_char c) \<or> c = CHR ''_''"

text \<open>A place in a text: the character before it, and the text after it.\<close>

type_synonym cursor = "char option \<times> string"

fun at_boundary :: "cursor \<Rightarrow> bool" where
  "at_boundary (b, s) =
     ((case b of None \<Rightarrow> False | Some c \<Rightarrow> is_word_char c) \<noteq> (case s of [] \<Rightarrow> False | c # _ \<Rightarrow> is_word_char c))"

text \<open>What it means for a pattern to match from one place to another.\<close>

inductive rx_matches :: "rx \<Rightarrow> cursor \<Rightarrow> cursor \<Rightarrow> bool" where
  m_ch: "lower_char x = lower_char c \<Longrightarrow> rx_matches (Ch c) (b, x # s) (Some x, s)"
| m_many_none: "rx_matches (Many cs) p p"
| m_many_more: "in_char_set cs x \<Longrightarrow> rx_matches (Many cs) (Some x, s) q \<Longrightarrow> rx_matches (Many cs) (b, x # s) q"
| m_some: "in_char_set cs x \<Longrightarrow> rx_matches (Many cs) (Some x, s) q \<Longrightarrow> rx_matches (Some_of cs) (b, x # s) q"
| m_boundary: "at_boundary p \<Longrightarrow> rx_matches Boundary p p"
| m_end: "rx_matches At_end (b, []) (b, [])"
| m_seq: "rx_matches r p q \<Longrightarrow> rx_matches r' q t \<Longrightarrow> rx_matches (Seq r r') p t"
| m_alt1: "rx_matches r p q \<Longrightarrow> rx_matches (Alt r r') p q"
| m_alt2: "rx_matches r' p q \<Longrightarrow> rx_matches (Alt r r') p q"

text \<open>Every place a match from here can end.\<close>

fun many_ends :: "char_set \<Rightarrow> char option \<Rightarrow> string \<Rightarrow> cursor list" where
  "many_ends cs b [] = [(b, [])]"
| "many_ends cs b (x # s) = (b, x # s) # (if in_char_set cs x then many_ends cs (Some x) s else [])"

fun rx_run :: "rx \<Rightarrow> cursor \<Rightarrow> cursor list" where
  "rx_run (Ch c) (b, s) = (case s of [] \<Rightarrow> [] | x # s' \<Rightarrow> if lower_char x = lower_char c then [(Some x, s')] else [])"
| "rx_run (Many cs) (b, s) = many_ends cs b s"
| "rx_run (Some_of cs) (b, s) =
     (case s of [] \<Rightarrow> [] | x # s' \<Rightarrow> if in_char_set cs x then many_ends cs (Some x) s' else [])"
| "rx_run Boundary p = (if at_boundary p then [p] else [])"
| "rx_run At_end (b, s) = (if s = [] then [(b, s)] else [])"
| "rx_run (Seq r r') p = concat (map (rx_run r') (rx_run r p))"
| "rx_run (Alt r r') p = rx_run r p @ rx_run r' p"

text \<open>\<open>MatchString\<close>: a match may begin anywhere.\<close>

fun search_from :: "rx \<Rightarrow> char option \<Rightarrow> string \<Rightarrow> bool" where
  "search_from r b [] = (rx_run r (b, []) \<noteq> [])"
| "search_from r b (x # s) = (rx_run r (b, x # s) \<noteq> [] \<or> search_from r (Some x) s)"

definition match_string :: "rx \<Rightarrow> string \<Rightarrow> bool" where
  "match_string r s = search_from r None s"

section \<open>The patterns\<close>

text \<open>A word is the sequence of its letters.\<close>

fun rx_word :: "char \<Rightarrow> string \<Rightarrow> rx" where
  "rx_word c [] = Ch c"
| "rx_word c (d # s) = Seq (Ch c) (rx_word d s)"

definition lit :: "string \<Rightarrow> rx" where "lit s = rx_word (hd s) (tl s)"

fun seqs :: "rx \<Rightarrow> rx list \<Rightarrow> rx" where
  "seqs r [] = r"
| "seqs r (q # qs) = Seq r (seqs q qs)"

fun alts :: "rx \<Rightarrow> rx list \<Rightarrow> rx" where
  "alts r [] = r"
| "alts r (q # qs) = Alt r (alts q qs)"

definition quote :: char where "quote = CHR 0x27"

definition sql_pattern :: rx where
  "sql_pattern =
     alts (seqs (lit ''union'') [Some_of White_space, lit ''select''])
       [seqs (lit ''select'') [Some_of White_space, Many Any_but_newline, lit ''from''],
        seqs (lit ''insert'') [Some_of White_space, lit ''into''],
        seqs (lit ''update'') [Some_of White_space, Many Any_but_newline, lit ''set''],
        seqs (lit ''delete'') [Some_of White_space, lit ''from''],
        seqs (Ch quote) [Many White_space, lit ''or'', Many White_space, lit ''1'', Many White_space,
                         lit ''='', Many White_space, lit ''1''],
        seqs (lit ''--'') [Many White_space, At_end]]"

definition xss_pattern :: rx where
  "xss_pattern =
     alts (lit ''<script'')
       [lit ''javascript:'',
        seqs (lit ''onload'') [Many White_space, lit ''=''],
        seqs Boundary [lit ''onerror'', Many White_space, lit ''=''],
        lit ''<iframe'',
        lit ''<svg'',
        seqs (lit ''<img'') [Some_of White_space, lit ''src'', Many White_space, lit ''='',
                             Many Any_but_newline, lit ''onerror'']]"

definition path_traversal_pattern :: rx where
  "path_traversal_pattern =
     alts (lit ''../'')
       [Seq (lit ''..'') (Ch backslash),
        seqs (lit ''etc'') [Alt (Ch (CHR ''/'')) (Ch backslash), lit ''passwd''],
        seqs (lit ''windows'') [Alt (Ch backslash) (Ch (CHR ''/'')), lit ''win.ini''],
        lit ''boot.ini'']"

definition cmd_injection_pattern :: rx where
  "cmd_injection_pattern =
     seqs (alts (lit '';'') [lit ''&&'', lit ''||''])
       [Many White_space,
        alts (lit ''whoami'') [lit ''id'', lit ''uname'', lit ''cat'', lit ''ls'', lit ''ping'', lit ''curl'', lit ''wget''],
        Boundary]"

section \<open>The cheap tests\<close>

definition has_sql_potential :: "string \<Rightarrow> bool" where
  "has_sql_potential s \<longleftrightarrow> contains s '' '' \<or> contains s [quote] \<or> contains s ''--''"

definition has_xss_potential :: "string \<Rightarrow> bool" where
  "has_xss_potential s \<longleftrightarrow> contains s ''<'' \<or> contains s '':'' \<or> contains s ''=''"

definition has_path_traversal_potential :: "string \<Rightarrow> bool" where
  "has_path_traversal_potential s \<longleftrightarrow> contains s ''..'' \<or> contains s ''passwd'' \<or> contains s ''ini''"

definition has_cmd_potential :: "string \<Rightarrow> bool" where
  "has_cmd_potential s \<longleftrightarrow> contains s '';'' \<or> contains s ''&'' \<or> contains s ''|''"

definition path_hit :: "string \<Rightarrow> bool" where
  "path_hit s \<longleftrightarrow> has_path_traversal_potential s \<and> match_string path_traversal_pattern s"

definition sql_hit :: "string \<Rightarrow> bool" where
  "sql_hit s \<longleftrightarrow> has_sql_potential s \<and> match_string sql_pattern s"

definition xss_hit :: "string \<Rightarrow> bool" where
  "xss_hit s \<longleftrightarrow> has_xss_potential s \<and> match_string xss_pattern s"

definition cmd_hit :: "string \<Rightarrow> bool" where
  "cmd_hit s \<longleftrightarrow> has_cmd_potential s \<and> match_string cmd_injection_pattern s"

section \<open>Reading a query (package net/url)\<close>

text \<open>\<open>url.QueryUnescape\<close>.\<close>

fun query_unescape :: "string \<Rightarrow> string option" where
  "query_unescape [] = Some []"
| "query_unescape (c # s) =
     (if c = CHR ''%'' then
        (case s of
           a # b # r \<Rightarrow> (if is_hex a \<and> is_hex b
                        then map_option ((#) (char_of (16 * the (hex_char a) + the (hex_char b)))) (query_unescape r) else None)
         | _ \<Rightarrow> None)
      else map_option ((#) (if c = CHR ''+'' then CHR '' '' else c)) (query_unescape s))"

text \<open>
  \<open>URL.Query\<close>: pieces between ampersands, those with a semicolon, none at all, or a malformed
  escape left out; the values of one key are collected in order.
\<close>

definition query_piece :: "string \<Rightarrow> (string \<times> string) option" where
  "query_piece p =
     (if CHR '';'' \<in> set p \<or> p = [] then None
      else
        (let k = takeWhile (\<lambda>c. c \<noteq> CHR ''='') p; v = drop (length k + 1) p
         in case (query_unescape k, query_unescape v) of (Some k', Some v') \<Rightarrow> Some (k', v') | _ \<Rightarrow> None))"

definition add_value :: "string \<times> string \<Rightarrow> (string, string list) table \<Rightarrow> (string, string list) table" where
  "add_value kv m =
     (case get m (fst kv) of None \<Rightarrow> put (fst kv) [snd kv] m | Some vs \<Rightarrow> put (fst kv) (vs @ [snd kv]) m)"

definition parse_query :: "string \<Rightarrow> (string, string list) table" where
  "parse_query raw = fold add_value (List.map_filter query_piece (split_on (CHR ''&'') raw)) []"

section \<open>Scanning a request\<close>

text \<open>
  The parts of a request the scan reads. The body is absent when there is none; whether reading
  it fails is an input. The cookies are as the standard library reads them.
\<close>

record waf_request =
  wr_method :: string
  wr_path :: string
  wr_rawQuery :: string
  wr_headers :: headers
  wr_cookies :: "(string \<times> string) list"
  wr_body :: "string option"
  wr_readFails :: bool

type_synonym finding = "string \<times> string"

definition sqli :: "string \<Rightarrow> finding" where
  "sqli place = (''SQL Injection'', ''SQL Injection payload detected in '' @ place)"

definition xss :: "string \<Rightarrow> finding" where
  "xss place = (''Cross-Site Scripting'', ''Cross-Site Scripting payload detected in '' @ place)"

definition cmdi :: "string \<Rightarrow> finding" where
  "cmdi place = (''Command Injection'', ''Command Injection payload detected in '' @ place)"

text \<open>The first test that hits decides.\<close>

fun first_hit :: "(bool \<times> finding) list \<Rightarrow> finding option" where
  "first_hit [] = None"
| "first_hit ((b, f) # ts) = (if b then Some f else first_hit ts)"

definition scan_path :: "string \<Rightarrow> finding option" where
  "scan_path path =
     first_hit
       [(path_hit path, (''Path Traversal'', ''Path Traversal / Local File Inclusion detected in URL path'')),
        (sql_hit path, sqli ''URL path''),
        (xss_hit path, xss ''URL path'')]"

definition scan_parameter :: "string \<Rightarrow> string \<Rightarrow> finding option" where
  "scan_parameter key val =
     (let u = (case query_unescape val of None \<Rightarrow> val | Some u \<Rightarrow> u)
      in first_hit
           [(path_hit u, (''Path Traversal'', ''Path Traversal detected in query parameter: '' @ key)),
            (sql_hit u, sqli (''query parameter: '' @ key)),
            (xss_hit u, xss (''query parameter: '' @ key)),
            (cmd_hit u, cmdi (''query parameter: '' @ key))])"

definition scan_user_agent :: "string \<Rightarrow> finding option" where
  "scan_user_agent ua =
     first_hit
       [(sql_hit ua, sqli ''User-Agent header''),
        (xss_hit ua, xss ''User-Agent header''),
        (cmd_hit ua, cmdi ''User-Agent header'')]"

definition scan_cookie :: "string \<times> string \<Rightarrow> finding option" where
  "scan_cookie c =
     first_hit
       [(sql_hit (snd c), sqli (''Cookie: '' @ fst c)),
        (xss_hit (snd c), xss (''Cookie: '' @ fst c))]"

definition scan_body :: "string \<Rightarrow> finding option" where
  "scan_body b =
     first_hit
       [(path_hit b, (''Path Traversal'', ''Path Traversal detected in request body'')),
        (sql_hit b, sqli ''request body''),
        (xss_hit b, xss ''request body''),
        (cmd_hit b, cmdi ''request body'')]"

fun first_found :: "('a \<Rightarrow> finding option) \<Rightarrow> 'a list \<Rightarrow> finding option" where
  "first_found f [] = None"
| "first_found f (x # xs) = (case f x of None \<Rightarrow> first_found f xs | Some y \<Rightarrow> Some y)"

fun or_else :: "'a option \<Rightarrow> 'a option \<Rightarrow> 'a option" where
  "or_else None y = y"
| "or_else (Some x) y = Some x"

definition body_limit :: nat where "body_limit = 8192"

definition is_write_method :: "string \<Rightarrow> bool" where
  "is_write_method m \<longleftrightarrow> m = ''POST'' \<or> m = ''PUT'' \<or> m = ''PATCH''"

definition is_text_type :: "string \<Rightarrow> bool" where
  "is_text_type t \<longleftrightarrow>
     has_prefix t ''application/x-www-form-urlencoded'' \<or> has_prefix t ''application/json'' \<or>
     has_prefix t ''application/xml'' \<or> has_prefix t ''text/''"

text \<open>The body is read up to the limit; what was read is put back as the body.\<close>

definition scan_request_body :: "waf_request \<Rightarrow> finding option \<times> waf_request" where
  "scan_request_body q =
     (let t = header_get (wr_headers q) ''Content-Type''
      in case wr_body q of
           None \<Rightarrow> (None, q)
         | Some body \<Rightarrow>
             (if is_write_method (wr_method q) \<and> is_text_type t \<and> \<not> wr_readFails q
              then
                (let bytes = take body_limit body;
                     str = (if has_prefix t ''application/x-www-form-urlencoded''
                            then (case query_unescape bytes of None \<Rightarrow> bytes | Some u \<Rightarrow> u) else bytes)
                 in (scan_body str, q\<lparr>wr_body := Some bytes\<rparr>))
              else (None, q)))"

definition is_malicious_request :: "waf_request \<Rightarrow> finding option \<times> waf_request" where
  "is_malicious_request q =
     (case or_else (scan_path (wr_path q))
            (or_else (first_found (\<lambda>(k, vs). first_found (scan_parameter k) vs) (parse_query (wr_rawQuery q)))
            (or_else (scan_user_agent (header_get (wr_headers q) ''User-Agent''))
                     (first_found scan_cookie (wr_cookies q))))
      of Some f \<Rightarrow> (Some f, q) | None \<Rightarrow> scan_request_body q)"

end
