(* ===== verification/Forwarding.thy ===== *)
theory Forwarding
  imports Client_IP Registry
begin

text \<open>
  What a gateway writes onto a request before passing it on: the forwarding chain
  (\<open>pkg/proxyutil/forwarded.go\<close>), the two \<open>Rewrite\<close> functions of \<open>pkg/server/proxy.go\<close>, the
  hand-over to another gateway with its loop prevention, and the bytes counted for a message.

  A header of a request is a list of values under a canonical name. \<open>net/http\<close> never stores an
  empty list of values for a name, so an empty list stands for the nil value that turns the
  forwarding chain off.
\<close>

section \<open>Headers (package net/http)\<close>

definition is_token_char :: "char \<Rightarrow> bool" where
  "is_token_char c \<longleftrightarrow> is_alnum (lower_char c) \<or> c \<in> set ''!#$%&*+-.^_`|~'' \<or> c = CHR 0x27"

definition upper_letter :: "char \<Rightarrow> char" where
  "upper_letter c = (let n = of_char c :: nat in if 97 \<le> n \<and> n \<le> 122 then char_of (n - 32) else c)"

fun canonical_from :: "bool \<Rightarrow> string \<Rightarrow> string" where
  "canonical_from up [] = []"
| "canonical_from up (c # s) = (if up then upper_letter c else lower_char c) # canonical_from (c = CHR ''-'') s"

definition canonical_header :: "string \<Rightarrow> string" where
  "canonical_header k = (if list_all is_token_char k then canonical_from True k else k)"

definition header_set :: "string \<Rightarrow> string \<Rightarrow> headers \<Rightarrow> headers" where
  "header_set k v h = put (canonical_header k) [v] h"

definition header_del :: "string \<Rightarrow> headers \<Rightarrow> headers" where
  "header_del k h = del (canonical_header k) h"

definition header_values :: "headers \<Rightarrow> string \<Rightarrow> string list" where
  "header_values h k = (case get h k of None \<Rightarrow> [] | Some vs \<Rightarrow> vs)"

section \<open>What ReverseProxy does before a Rewrite\<close>

definition has_token :: "string list \<Rightarrow> string \<Rightarrow> bool" where
  "has_token vs t \<longleftrightarrow> list_ex (\<lambda>v. list_ex (\<lambda>p. equal_fold (trim_space p) t) (split_on (CHR '','') v)) vs"

definition hop_headers :: "string list" where
  "hop_headers = [''Connection'', ''Proxy-Connection'', ''Keep-Alive'', ''Proxy-Authenticate'',
     ''Proxy-Authorization'', ''Te'', ''Trailer'', ''Transfer-Encoding'', ''Upgrade'']"

definition connection_listed :: "headers \<Rightarrow> string list" where
  "connection_listed h =
     filter (\<lambda>p. p \<noteq> []) (map trim_space (concat (map (split_on (CHR '','')) (header_values h ''Connection''))))"

definition forwarded_headers :: "string list" where
  "forwarded_headers = [''Forwarded'', ''X-Forwarded-For'', ''X-Forwarded-Host'', ''X-Forwarded-Proto'']"

definition outbound_start :: "headers \<Rightarrow> headers" where
  "outbound_start h =
     (let upgrade = (if has_token (header_values h ''Connection'') ''Upgrade'' then header_get h ''Upgrade'' else []);
          h1 = fold header_del (connection_listed h) h;
          h2 = fold header_del hop_headers h1;
          h3 = (if has_token (header_values h ''Te'') ''trailers'' then header_set ''Te'' ''trailers'' h2 else h2);
          h4 = (if upgrade \<noteq> [] then header_set ''Upgrade'' upgrade (header_set ''Connection'' ''Upgrade'' h3) else h3)
      in fold header_del forwarded_headers h4)"

section \<open>The forwarding chain (package proxyutil)\<close>

definition restore_inbound_forwarded :: "headers \<Rightarrow> headers \<Rightarrow> headers" where
  "restore_inbound_forwarded inbound out =
     fold (\<lambda>k o'. case get inbound k of None \<Rightarrow> o' | Some vs \<Rightarrow> put k vs o') forwarded_headers out"

definition peer_ip :: "string \<Rightarrow> string option" where
  "peer_ip remote = map_option fst (split_host_port remote)"

definition prior_x_forwarded_for :: "headers \<Rightarrow> string list \<times> bool" where
  "prior_x_forwarded_for out =
     (case get out ''X-Forwarded-For'' of None \<Rightarrow> ([], False) | Some vs \<Rightarrow> (vs, vs = []))"

definition last_x_forwarded_for_entry :: "string list \<Rightarrow> string" where
  "last_x_forwarded_for_entry prior =
     (if prior = [] then [] else trim_space (last (split_on (CHR '','') (last prior))))"

definition append_x_forwarded_for :: "headers \<Rightarrow> string list \<Rightarrow> string \<Rightarrow> headers" where
  "append_x_forwarded_for out prior v =
     header_set ''X-Forwarded-For'' (if prior \<noteq> [] then join '', '' prior @ '', '' @ v else v) out"

definition append_peer_to_x_forwarded_for :: "string \<Rightarrow> headers \<Rightarrow> headers" where
  "append_peer_to_x_forwarded_for remote out =
     (case peer_ip remote of
        None \<Rightarrow> out
      | Some peer \<Rightarrow>
          (let (prior, suppressed) = prior_x_forwarded_for out
           in if suppressed then out else append_x_forwarded_for out prior peer))"

definition ensure_visitor_in_x_forwarded_for :: "string \<Rightarrow> string \<Rightarrow> headers \<Rightarrow> headers" where
  "ensure_visitor_in_x_forwarded_for remote visitor0 out =
     (let visitor = trim_space visitor0
      in if visitor = [] then out
         else
           (let (prior, suppressed) = prior_x_forwarded_for out
            in if suppressed then out
               else if peer_ip remote = Some visitor then out
               else if last_x_forwarded_for_entry prior = visitor then out
               else append_x_forwarded_for out prior visitor))"

section \<open>Requests\<close>

record http_request =
  hq_method :: string
  hq_proto :: string
  hq_host :: string
  hq_path :: string
  hq_requestURI :: string
  hq_headers :: headers
  hq_remote :: string
  hq_tls :: bool

text \<open>A request as it leaves: the address it is sent to, and what is sent.\<close>

record outbound =
  ob_scheme :: string
  ob_address :: string
  ob_path :: string
  ob_host :: string
  ob_headers :: headers

section \<open>Passing a request into a tunnel\<close>

text \<open>\<open>strings.ReplaceAll\<close> of a text that is not empty.\<close>

function (sequential) replace_all :: "string \<Rightarrow> string \<Rightarrow> string \<Rightarrow> string" where
  "replace_all [] old new = []"
| "replace_all (c # s) old new =
     (if old \<noteq> [] \<and> has_prefix (c # s) old then new @ replace_all (drop (length old) (c # s)) old new
      else c # replace_all s old new)"
  by pat_completeness auto
termination
  by (relation "measure (\<lambda>(s, _, _). length s)") (auto simp: Suc_diff_le)

definition interpolate_header_value :: "string \<Rightarrow> string \<Rightarrow> string \<Rightarrow> string \<Rightarrow> string" where
  "interpolate_header_value val clientIP host proto =
     replace_all (replace_all (replace_all (replace_all val ''$client_ip'' clientIP) ''$remote_addr'' clientIP)
       ''$host'' host) ''$proto'' proto"

definition visited_proto :: "bool \<Rightarrow> headers \<Rightarrow> string" where
  "visited_proto tls h =
     (if tls \<or> to_lower (header_get h ''X-Forwarded-Proto'') = ''https'' then ''https'' else ''http'')"

definition set_interpolated ::
  "string \<Rightarrow> string \<Rightarrow> string \<Rightarrow> (string, string) table \<Rightarrow> headers \<Rightarrow> headers" where
  "set_interpolated clientIP host proto kvs h =
     fold (\<lambda>(k, v). header_set k (interpolate_header_value v clientIP host proto)) kvs h"

text \<open>The \<open>Rewrite\<close> of the tunnel's proxy: what is sent, and the lease with its visitor noted.\<close>

definition lease_rewrite ::
  "ip_net list \<Rightarrow> (string, string) table \<Rightarrow> time \<Rightarrow> http_request \<Rightarrow> lease \<Rightarrow> outbound \<times> lease" where
  "lease_rewrite trusted proxyHeaders now q l =
     (let out = restore_inbound_forwarded (hq_headers q) (outbound_start (hq_headers q));
          clientIP = client_ip_from trusted (hq_remote q) (hq_headers q);
          l' = l\<lparr>l_visitorIPs := put clientIP now (l_visitorIPs l)\<rparr>;
          proto = visited_proto (hq_tls q) out;
          h1 = (if proxyHeaders \<noteq> [] then set_interpolated clientIP (hq_host q) proto proxyHeaders out
                else
                  (let o1 = header_set ''X-Real-IP'' clientIP out;
                       o2 = header_del ''X-Forwarded-For'' o1;
                       o3 = ensure_visitor_in_x_forwarded_for (hq_remote q) clientIP o2
                   in header_set ''X-Forwarded-Proto'' proto (header_set ''X-Forwarded-Host'' (hq_host q) o3)));
          h2 = set_interpolated clientIP (hq_host q) proto (l_addedHeaders l) h1
      in (\<lparr>ob_scheme = ''http'', ob_address = ''127.0.0.1:'' @ itoa (l_localPort l), ob_path = hq_path q,
           ob_host = hq_host q, ob_headers = append_peer_to_x_forwarded_for (hq_remote q) h2\<rparr>, l'))"

section \<open>Passing a request to another gateway\<close>

definition hop_header :: string where "hop_header = ''X-Lfr-Cross-Node-Hop''"
definition visited_header :: string where "visited_header = ''X-Lfr-Cross-Node-Visited''"

definition hops_of :: "headers \<Rightarrow> int" where
  "hops_of h = (case parse_int (header_get h hop_header) of None \<Rightarrow> 0 | Some n \<Rightarrow> n)"

definition was_visited :: "string \<Rightarrow> string \<Rightarrow> bool" where
  "was_visited visited node \<longleftrightarrow> visited \<noteq> [] \<and> list_ex (\<lambda>v. trim_space v = node) (split_on (CHR '','') visited)"

definition single_joining_slash :: "string \<Rightarrow> string \<Rightarrow> string" where
  "single_joining_slash a b =
     (if has_suffix a ''/'' \<and> has_prefix b ''/'' then a @ drop 1 b
      else if \<not> has_suffix a ''/'' \<and> \<not> has_prefix b ''/'' then a @ ''/'' @ b
      else a @ b)"

type_synonym resolver = "string \<Rightarrow> (string \<times> string) option"

text \<open>
  The checks of \<open>tryCrossNodeProxy\<close>: the address to go to and the node there, when the request is
  handed over. The answer of \<open>url.Parse\<close> (scheme, host, path) is an input.
\<close>

definition with_scheme :: "string \<Rightarrow> string" where
  "with_scheme u = (if has_prefix u ''http://'' \<or> has_prefix u ''https://'' then u else ''http://'' @ u)"

definition cross_node_target ::
  "(string \<Rightarrow> (string \<times> string \<times> string) option) \<Rightarrow> resolver option \<Rightarrow> string \<Rightarrow> headers \<Rightarrow> string
   \<Rightarrow> ((string \<times> string \<times> string) \<times> string) option" where
  "cross_node_target parseURL resolve node h host =
     (case resolve of
        None \<Rightarrow> None
      | Some route \<Rightarrow>
          (if header_get h hop_header \<noteq> [] \<and> 2 \<le> hops_of h then None
           else if was_visited (header_get h visited_header) node then None
           else case route host of
             None \<Rightarrow> None
           | Some (url, target) \<Rightarrow>
               (if url = [] then None
                else if target = node then None
                else if was_visited (header_get h visited_header) target then None
                else map_option (\<lambda>u. (u, target)) (parseURL (with_scheme url)))))"

text \<open>The \<open>Rewrite\<close> of the hand-over.\<close>

definition cross_node_headers :: "ip_net list \<Rightarrow> string \<Rightarrow> string \<Rightarrow> http_request \<Rightarrow> headers" where
  "cross_node_headers trusted node host q =
     (let inbound = hq_headers q;
          clientIP = client_ip_from trusted (hq_remote q) inbound;
          visited = header_get inbound visited_header;
          o1 = ensure_visitor_in_x_forwarded_for (hq_remote q) clientIP
                 (restore_inbound_forwarded inbound (outbound_start inbound));
          o2 = (if header_get o1 ''X-Real-Ip'' = [] then header_set ''X-Real-IP'' clientIP o1 else o1);
          o3 = (if header_get o2 ''X-Forwarded-Host'' = [] then header_set ''X-Forwarded-Host'' host o2 else o2);
          o4 = (if header_get o3 ''X-Forwarded-Proto'' = []
                then header_set ''X-Forwarded-Proto'' (visited_proto (hq_tls q) inbound) o3 else o3);
          o5 = header_set ''X-LFR-Cross-Node-Hop'' (itoa (hops_of inbound + 1)) o4;
          o6 = header_set ''X-LFR-Cross-Node-Visited'' (if visited = [] then node else visited @ '','' @ node) o5
      in append_peer_to_x_forwarded_for (hq_remote q) o6)"

definition try_cross_node_proxy ::
  "ip_net list \<Rightarrow> (string \<Rightarrow> (string \<times> string \<times> string) option) \<Rightarrow> resolver option \<Rightarrow> registry \<Rightarrow> http_request
   \<Rightarrow> string \<Rightarrow> (outbound \<times> string) option" where
  "try_cross_node_proxy trusted parseURL resolve r q host =
     (let node = local_node_id r
      in case cross_node_target parseURL resolve node (hq_headers q) host of
           None \<Rightarrow> None
         | Some ((scheme, address, path), target) \<Rightarrow>
             Some (\<lparr>ob_scheme = scheme, ob_address = address,
                    ob_path = (if path \<noteq> [] \<and> path \<noteq> ''/'' then single_joining_slash path (hq_path q) else hq_path q),
                    ob_host = host, ob_headers = cross_node_headers trusted node host q\<rparr>, target))"

section \<open>Bytes on the wire\<close>

definition header_wire_bytes :: "headers \<Rightarrow> nat" where
  "header_wire_bytes h =
     sum_list (map (\<lambda>(k, vs). sum_list (map (\<lambda>v. length k + 2 + length v + 2) vs)) h)"

definition request_wire_header_bytes :: "string \<Rightarrow> string \<Rightarrow> string \<Rightarrow> string \<Rightarrow> string \<Rightarrow> headers \<Rightarrow> nat" where
  "request_wire_header_bytes method requestURI proto host urlHost h =
     (let n = length method + 1 + 1 + length proto + 2 + length requestURI;
          host' = (if host = [] then urlHost else host);
          n' = (if host' \<noteq> [] then n + (4 + 2 + length host' + 2) else n)
      in n' + header_wire_bytes h + 2)"

definition response_wire_header_bytes :: "string \<Rightarrow> string \<Rightarrow> headers \<Rightarrow> nat" where
  "response_wire_header_bytes proto status h = length proto + 1 + length status + 2 + header_wire_bytes h + 2"

text \<open>
  \<open>RoundTrip\<close> and the readers it installs: the two counters of the lease after one exchange. A
  reply of 101 is the connection itself, whose two directions are counted as they are used.
\<close>

datatype exchange =
    Failed "nat list"                          \<comment> \<open>the request body's reads\<close>
  | Replied "nat list" nat "nat list"          \<comment> \<open>request body, reply headers, reply body\<close>
  | Upgraded "nat list" nat "nat list" "nat list"  \<comment> \<open>and the bytes to and from the backend\<close>

definition count_in :: "nat \<Rightarrow> lease \<Rightarrow> lease" where
  "count_in n l = l\<lparr>l_bytesIn := l_bytesIn l + of_nat n\<rparr>"

definition count_out :: "nat \<Rightarrow> lease \<Rightarrow> lease" where
  "count_out n l = l\<lparr>l_bytesOut := l_bytesOut l + of_nat n\<rparr>"

definition round_trip :: "nat \<Rightarrow> exchange \<Rightarrow> lease \<Rightarrow> lease" where
  "round_trip requestHeaders x l =
     (let l1 = count_in requestHeaders l
      in case x of
           Failed sent \<Rightarrow> fold count_in sent l1
         | Replied sent replyHeaders received \<Rightarrow>
             fold count_out received (count_out replyHeaders (fold count_in sent l1))
         | Upgraded sent replyHeaders toBackend fromBackend \<Rightarrow>
             fold count_out fromBackend (fold count_in toBackend (count_out replyHeaders (fold count_in sent l1))))"

end
