(* ===== verification/Gateway.thy ===== *)
theory Gateway
  imports Waf Forwarding
begin

text \<open>
  The gateway's answer to one visitor request: \<open>ProxyHandler.ServeHTTP\<close> of
  \<open>pkg/server/proxy.go\<close>, which runs the firewall, finds the tunnel, checks access, credentials and
  rate, and passes the request on, here or to another gateway.

  The token bucket of a rate limiter is third-party: whether it allows the request is an input.
\<close>

section \<open>Base64 (package encoding/base64)\<close>

definition b64_alphabet :: string where
  "b64_alphabet = ''ABCDEFGHIJKLMNOPQRSTUVWXYZabcdefghijklmnopqrstuvwxyz0123456789+/''"

definition b64_char :: "nat \<Rightarrow> char" where "b64_char n = b64_alphabet ! n"

definition b64_val :: "char \<Rightarrow> nat option" where
  "b64_val c =
     (let n = of_char c :: nat
      in if 65 \<le> n \<and> n \<le> 90 then Some (n - 65)
         else if 97 \<le> n \<and> n \<le> 122 then Some (n - 71)
         else if 48 \<le> n \<and> n \<le> 57 then Some (n + 4)
         else if n = 43 then Some 62
         else if n = 47 then Some 63
         else None)"

definition b64_bytes :: "nat \<Rightarrow> nat \<Rightarrow> nat \<Rightarrow> nat \<Rightarrow> nat list" where
  "b64_bytes a b c d =
     (let n = a * 262144 + b * 4096 + c * 64 + d in [n div 65536, n div 256 mod 256, n mod 256])"

text \<open>Groups of four; padding only ends the text. Line breaks are skipped.\<close>

fun b64_groups :: "string \<Rightarrow> string option" where
  "b64_groups [] = Some []"
| "b64_groups (w # x # y # z # s) =
     (case (b64_val w, b64_val x, b64_val y, b64_val z) of
        (Some a, Some b, Some c, Some d) \<Rightarrow> map_option (\<lambda>t. map char_of (b64_bytes a b c d) @ t) (b64_groups s)
      | (Some a, Some b, Some c, None) \<Rightarrow>
          (if z = CHR ''='' \<and> s = [] then Some (map char_of (take 2 (b64_bytes a b c 0))) else None)
      | (Some a, Some b, None, None) \<Rightarrow>
          (if y = CHR ''='' \<and> z = CHR ''='' \<and> s = [] then Some (map char_of (take 1 (b64_bytes a b 0 0))) else None)
      | _ \<Rightarrow> None)"
| "b64_groups _ = None"

definition b64_decode :: "string \<Rightarrow> string option" where
  "b64_decode s = b64_groups (filter (\<lambda>c. c \<noteq> CHR 0x0D \<and> c \<noteq> CHR 0x0A) s)"

section \<open>Basic authentication\<close>

definition basic_auth_ok :: "string \<Rightarrow> headers \<Rightarrow> bool" where
  "basic_auth_ok required h =
     (let authHeader = header_get h ''Authorization''
      in if authHeader = [] \<or> \<not> has_prefix authHeader ''Basic '' then False
         else b64_decode (trim_prefix authHeader ''Basic '') = Some required)"

section \<open>Rate limiters\<close>

text \<open>A limiter's rate and burst; its tokens are the library's.\<close>

type_synonym limiters = "(string, int \<times> int) table"

definition get_rate_limiter :: "string \<Rightarrow> int \<Rightarrow> limiters \<Rightarrow> (int \<times> int) option \<times> limiters" where
  "get_rate_limiter host limit ls =
     (if limit \<le> 0 then (None, ls)
      else case get ls host of
             Some (rate, burst) \<Rightarrow>
               (if rate \<noteq> limit then (Some (limit, limit * 2), put host (limit, limit * 2) ls)
                else (Some (rate, burst), ls))
           | None \<Rightarrow> (Some (limit, limit * 2), put host (limit, limit * 2) ls))"

definition remove_rate_limiter :: "string \<Rightarrow> limiters \<Rightarrow> limiters" where
  "remove_rate_limiter host ls = del host ls"

section \<open>Origins and page addresses\<close>

definition is_origin_allowed :: "string list \<Rightarrow> string \<Rightarrow> bool" where
  "is_origin_allowed domains origin \<longleftrightarrow>
     list_ex (\<lambda>d. has_suffix origin (''.'' @ d) \<or> origin = ''http://'' @ d \<or> origin = ''https://'' @ d) domains"

definition request_scheme :: "bool \<Rightarrow> headers \<Rightarrow> string" where
  "request_scheme tls h =
     (if \<not> tls \<and> header_get h ''X-Forwarded-Proto'' \<noteq> ''https'' then ''http'' else ''https'')"

definition request_origin :: "bool \<Rightarrow> headers \<Rightarrow> string \<Rightarrow> string" where
  "request_origin tls h host = request_scheme tls h @ ''://'' @ host"

definition get_portal_base_url :: "string list \<Rightarrow> bool \<Rightarrow> headers \<Rightarrow> string \<Rightarrow> string" where
  "get_portal_base_url domains tls h host =
     (let scheme = request_scheme tls h
      in case List.find (\<lambda>d. host = d \<or> has_suffix host (''.'' @ d)) domains of
           Some d \<Rightarrow> scheme @ ''://tunnel.'' @ d
         | None \<Rightarrow> (case domains of d # _ \<Rightarrow> scheme @ ''://tunnel.'' @ d | [] \<Rightarrow> scheme @ ''://localhost''))"

section \<open>Pages\<close>

definition escape_char :: "char \<Rightarrow> string" where
  "escape_char c =
     (if c = CHR ''<'' then ''&lt;'' else if c = CHR ''>'' then ''&gt;'' else if c = CHR ''&'' then ''&amp;''
      else if c = CHR 0x27 then ''&#39;'' else if c = CHR 0x22 then ''&#34;'' else [c])"

definition escape_string :: "string \<Rightarrow> string" where
  "escape_string s = concat (map escape_char s)"

text \<open>A replacer tries its pairs in order at each place and never looks at what it has written.\<close>

function (sequential) replacer :: "(string \<times> string) list \<Rightarrow> string \<Rightarrow> string" where
  "replacer pairs [] = []"
| "replacer pairs (c # s) =
     (case List.find (\<lambda>(old, _). old \<noteq> [] \<and> has_prefix (c # s) old) pairs of
        Some (old, new) \<Rightarrow> (if old = [] then [] else new @ replacer pairs (drop (length old) (c # s)))
      | None \<Rightarrow> c # replacer pairs s)"
  by pat_completeness auto
termination
  by (relation "measure (\<lambda>(_, s). length s)") (auto simp: Suc_diff_le)

definition render_page :: "string \<Rightarrow> (string, string) table \<Rightarrow> string" where
  "render_page tmpl vals = replacer (map (\<lambda>(k, v). (k, escape_string v)) vals) tmpl"

section \<open>One request\<close>

record visit = http_request +
  vi_rawQuery :: string
  vi_cookies :: "(string \<times> string) list"
  vi_body :: "string option"
  vi_readFails :: bool
  vi_passcode :: string
  vi_redirect :: string
  vi_sessionCookie :: "string option"
  vi_peer :: tls_peer
  vi_allow :: bool
  vi_now :: time

definition waf_view :: "visit \<Rightarrow> waf_request" where
  "waf_view v = \<lparr>wr_method = hq_method v, wr_path = hq_path v, wr_rawQuery = vi_rawQuery v, wr_headers = hq_headers v,
     wr_cookies = vi_cookies v, wr_body = vi_body v, wr_readFails = vi_readFails v\<rparr>"

definition access_view :: "visit \<Rightarrow> access_request" where
  "access_view v = \<lparr>aq_method = hq_method v, aq_path = hq_path v, aq_requestURI = hq_requestURI v,
     aq_passcode = vi_passcode v, aq_redirect = vi_redirect v, aq_cookie = vi_sessionCookie v, aq_now = vi_now v,
     aq_remote = hq_remote v, aq_headers = hq_headers v, aq_tls = vi_peer v\<rparr>"

record gateway =
  gw_enableWAF :: bool
  gw_domains :: "string list"
  gw_proxyHeaders :: "(string, string) table"
  gw_access :: access_env
  gw_resolver :: "resolver option"
  gw_parseURL :: "string \<Rightarrow> (string \<times> string \<times> string) option"

datatype answer =
    Blocked finding string
  | Handed_over outbound string "string option"
  | Offline nat "nat option"
  | Preflight string
  | Access_answer access_outcome "(string \<times> string \<times> string) option"
  | Unauthorized
  | Too_many_requests
  | Proxied outbound "string option"

definition retry_after_seconds :: nat where "retry_after_seconds = 5"

definition serve_no_tunnel :: "time \<Rightarrow> registry \<Rightarrow> string \<Rightarrow> answer" where
  "serve_no_tunnel now r host =
     (if recently_released now host r then Offline 503 (Some retry_after_seconds) else Offline 404 None)"

definition request_host :: "http_request \<Rightarrow> string" where
  "request_host q = (case split_host_port (hq_host q) of None \<Rightarrow> hq_host q | Some (h, _) \<Rightarrow> h)"

text \<open>From the tunnel that was found to the answer.\<close>

definition serve_tunnel ::
  "gateway \<Rightarrow> visit \<Rightarrow> string option \<Rightarrow> string \<Rightarrow> nat \<Rightarrow> limiters \<Rightarrow> registry \<Rightarrow> answer \<times> limiters \<times> registry" where
  "serve_tunnel g v body host p ls r =
     (let l = deref r p; origin = header_get (hq_headers v) ''Origin''
      in if hq_method v = ''OPTIONS'' \<and> origin \<noteq> [] \<and> is_origin_allowed (gw_domains g) origin
         then (Preflight origin, ls, r)
         else
           (case check_access_controls (gw_access g) (access_view v) l host of
              (Admitted, _) \<Rightarrow>
                (if l_basicAuth l \<noteq> [] \<and> \<not> basic_auth_ok (l_basicAuth l) (hq_headers v) then (Unauthorized, ls, r)
                 else
                   (let (limiter, ls') = (if 0 < l_rateLimit l then get_rate_limiter host (l_rateLimit l) ls else (None, ls))
                    in if limiter \<noteq> None \<and> \<not> vi_allow v then (Too_many_requests, ls', r)
                       else
                         (let (out, l') = lease_rewrite (ae_trusted (gw_access g)) (gw_proxyHeaders g) (vi_now v)
                                            (http_request.truncate v) l
                          in (Proxied out body, ls', modify (\<lambda>_. l') p r))))
            | (other, upgrade) \<Rightarrow> (Access_answer other upgrade, ls, r)))"

definition serve_http :: "gateway \<Rightarrow> visit \<Rightarrow> limiters \<Rightarrow> registry \<Rightarrow> answer \<times> limiters \<times> registry" where
  "serve_http g v ls r =
     (let q = http_request.truncate v; host = request_host q;
          (hit, w) = (if gw_enableWAF g then is_malicious_request (waf_view v) else (None, waf_view v))
      in case hit of
           Some f \<Rightarrow> (Blocked f (client_ip_from (ae_trusted (gw_access g)) (hq_remote v) (hq_headers v)), ls, r)
         | None \<Rightarrow>
             (case get (r_leases r) host of
                Some p \<Rightarrow> serve_tunnel g v (wr_body w) host p ls r
              | None \<Rightarrow>
                  (case try_cross_node_proxy (ae_trusted (gw_access g)) (gw_parseURL g) (gw_resolver g) r q host of
                     Some (out, target) \<Rightarrow> (Handed_over out target (wr_body w), ls, r)
                   | None \<Rightarrow> (serve_no_tunnel (vi_now v) r host, ls, r))))"

end
