(* ===== verification/Waf_Facts.thy ===== *)
theory Waf_Facts
  imports Waf
begin

text \<open>
  What the firewall finds and what it lets by: the matcher agrees with the meaning of the
  patterns, two of the four cheap tests lose nothing, the other two can be avoided by the form of
  the text, and a scanned body reaches the tunnel cut at the scan's limit.
\<close>

section \<open>The matcher\<close>

lemma many_ends_matches: "q \<in> set (many_ends cs b s) \<longleftrightarrow> rx_matches (Many cs) (b, s) q"
proof (induction cs b s rule: many_ends.induct)
  case (1 cs b)
  show ?case by (auto intro: rx_matches.intros elim: rx_matches.cases)
next
  case (2 cs b x s)
  have "rx_matches (Many cs) (b, x # s) q \<longleftrightarrow>
      q = (b, x # s) \<or> in_char_set cs x \<and> rx_matches (Many cs) (Some x, s) q"
    by (auto intro: rx_matches.intros elim: rx_matches.cases)
  with 2 show ?case by auto
qed

inductive_simps matches_simps:
  "rx_matches (Ch c) p q" "rx_matches (Some_of cs) p q" "rx_matches Boundary p q" "rx_matches At_end p q"
  "rx_matches (Seq r r') p q" "rx_matches (Alt r r') p q"

lemma rx_run_matches: "q \<in> set (rx_run r p) \<longleftrightarrow> rx_matches r p q"
proof (induction r p arbitrary: q rule: rx_run.induct)
  case (1 c b s)
  show ?case by (cases s) (auto simp: matches_simps)
next
  case (2 cs b s)
  show ?case by (simp add: many_ends_matches)
next
  case (3 cs b s)
  show ?case by (cases s) (auto simp: matches_simps many_ends_matches)
next
  case (4 p)
  show ?case by (auto simp: matches_simps)
next
  case (5 b s)
  show ?case by (auto simp: matches_simps)
next
  case (6 r r' p)
  then show ?case by (auto simp: matches_simps)
next
  case (7 r r' p)
  then show ?case by (auto simp: matches_simps)
qed

text \<open>The character before a suffix of a text.\<close>

definition before :: "char option \<Rightarrow> string \<Rightarrow> char option" where
  "before b u = (if u = [] then b else Some (last u))"

lemma rx_run_nonempty: "rx_run r p \<noteq> [] \<longleftrightarrow> (\<exists>q. rx_matches r p q)"
  by (cases "rx_run r p") (auto simp: rx_run_matches [symmetric])

lemma search_from_iff:
  "search_from r b s \<longleftrightarrow> (\<exists>u v q. s = u @ v \<and> rx_matches r (before b u, v) q)"
proof (induction r b s rule: search_from.induct)
  case (1 r b)
  show ?case using rx_run_nonempty [of r "(b, [])"] by (auto simp: before_def)
next
  case (2 r b x s)
  have run: "rx_run r (b, x # s) \<noteq> [] \<longleftrightarrow> (\<exists>q. rx_matches r (before b [], x # s) q)"
    by (simp add: before_def rx_run_nonempty)
  show ?case
  proof
    assume "search_from r b (x # s)"
    then consider "rx_run r (b, x # s) \<noteq> []" | "search_from r (Some x) s" by auto
    then show "\<exists>u v q. x # s = u @ v \<and> rx_matches r (before b u, v) q"
    proof cases
      case 1
      then show ?thesis using run by (metis append_Nil)
    next
      case 2
      then obtain u v q where "s = u @ v" "rx_matches r (before (Some x) u, v) q" using "2.IH" by blast
      then have "x # s = (x # u) @ v" "rx_matches r (before b (x # u), v) q" by (auto simp: before_def)
      then show ?thesis by blast
    qed
  next
    assume "\<exists>u v q. x # s = u @ v \<and> rx_matches r (before b u, v) q"
    then obtain u v q where uv: "x # s = u @ v" and q: "rx_matches r (before b u, v) q" by blast
    show "search_from r b (x # s)"
    proof (cases u)
      case Nil
      then have "rx_run r (b, x # s) \<noteq> []" using uv q unfolding run by (metis append_Nil)
      then show ?thesis by simp
    next
      case (Cons y u')
      then have "s = u' @ v" "rx_matches r (before (Some x) u', v) q" using uv q by (auto simp: before_def)
      then have "search_from r (Some x) s" unfolding "2.IH" by blast
      then show ?thesis by simp
    qed
  qed
qed

section \<open>Cheap tests that lose nothing\<close>

text \<open>A pattern that cannot match without one of these characters.\<close>

fun needs :: "char set \<Rightarrow> rx \<Rightarrow> bool" where
  "needs C (Ch c) \<longleftrightarrow> c \<in> C"
| "needs C (Seq r r') \<longleftrightarrow> needs C r \<or> needs C r'"
| "needs C (Alt r r') \<longleftrightarrow> needs C r \<and> needs C r'"
| "needs C _ \<longleftrightarrow> False"

text \<open>A character without a second case.\<close>

definition caseless :: "char \<Rightarrow> bool" where
  "caseless c \<longleftrightarrow> \<not> is_alnum (lower_char c) \<or> is_digit c"

lemma lower_caseless:
  assumes "lower_char x = lower_char c" "caseless c"
  shows "x = c"
  using assms by (auto simp: caseless_def lower_char_def Let_def is_alnum_def is_digit_def of_char_of split: if_splits)

lemma matches_suffix: "rx_matches r p q \<Longrightarrow> set (snd q) \<subseteq> set (snd p)"
  by (induction rule: rx_matches.induct) auto

lemma matches_needs:
  "rx_matches r p q \<Longrightarrow> needs C r \<Longrightarrow> \<forall>c \<in> C. caseless c \<Longrightarrow> \<exists>c \<in> C. c \<in> set (snd p)"
proof (induction rule: rx_matches.induct)
  case (m_ch x c b s)
  then have c: "c \<in> C" "caseless c" by auto
  then have "x = c" using lower_caseless m_ch.hyps by blast
  with c show ?case by (intro bexI [of _ c]) simp_all
next
  case (m_seq r p q r' t)
  from m_seq.prems consider "needs C r" | "needs C r'" by auto
  then show ?case
  proof cases
    case 1
    with m_seq show ?thesis by blast
  next
    case 2
    with m_seq matches_suffix [OF m_seq.hyps(1)] show ?thesis by blast
  qed
qed simp_all

lemma match_string_needs:
  assumes "match_string r s" "needs C r" "\<forall>c \<in> C. caseless c"
  shows "\<exists>c \<in> C. c \<in> set s"
proof -
  obtain u v q where "s = u @ v" "rx_matches r (before None u, v) q"
    using assms(1) unfolding match_string_def search_from_iff by blast
  with matches_needs [OF this(2) assms(2,3)] show ?thesis by auto
qed

lemmas pattern_defs = lit_def sql_pattern_def xss_pattern_def path_traversal_pattern_def cmd_injection_pattern_def

lemma caseless_signs: "caseless (CHR ''<'')" "caseless (CHR '':'')" "caseless (CHR ''='')"
  "caseless (CHR '';'')" "caseless (CHR ''&'')" "caseless (CHR ''|'')"
  by (simp_all add: caseless_def lower_char_def is_alnum_def is_digit_def)

lemma xss_needs: "needs {CHR ''<'', CHR '':'', CHR ''=''} xss_pattern"
  by (simp add: pattern_defs)

lemma cmd_needs: "needs {CHR '';'', CHR ''&'', CHR ''|''} cmd_injection_pattern"
  by (simp add: pattern_defs)

lemma xss_potential: "match_string xss_pattern s \<Longrightarrow> has_xss_potential s"
  using match_string_needs [OF _ xss_needs] caseless_signs by (fastforce simp: has_xss_potential_def)

lemma cmd_potential: "match_string cmd_injection_pattern s \<Longrightarrow> has_cmd_potential s"
  using match_string_needs [OF _ cmd_needs] caseless_signs by (fastforce simp: has_cmd_potential_def)

section \<open>Rewriting the characters of a text\<close>

text \<open>A change of characters that a pattern cannot see.\<close>

fun blind :: "(char \<Rightarrow> char) \<Rightarrow> rx \<Rightarrow> bool" where
  "blind f (Ch c) \<longleftrightarrow> (\<forall>x. lower_char (f x) = lower_char c \<longleftrightarrow> lower_char x = lower_char c)"
| "blind f (Many cs) \<longleftrightarrow> (\<forall>x. in_char_set cs (f x) \<longleftrightarrow> in_char_set cs x)"
| "blind f (Some_of cs) \<longleftrightarrow> (\<forall>x. in_char_set cs (f x) \<longleftrightarrow> in_char_set cs x)"
| "blind f Boundary \<longleftrightarrow> (\<forall>x. is_word_char (f x) \<longleftrightarrow> is_word_char x)"
| "blind f At_end \<longleftrightarrow> True"
| "blind f (Seq r r') \<longleftrightarrow> blind f r \<and> blind f r'"
| "blind f (Alt r r') \<longleftrightarrow> blind f r \<and> blind f r'"

definition map_cursor :: "(char \<Rightarrow> char) \<Rightarrow> cursor \<Rightarrow> cursor" where
  "map_cursor f p = (map_option f (fst p), map f (snd p))"

lemma many_ends_blind:
  "(\<forall>x. in_char_set cs (f x) \<longleftrightarrow> in_char_set cs x) \<Longrightarrow>
   many_ends cs (map_option f b) (map f s) = map (map_cursor f) (many_ends cs b s)"
  by (induction cs b s rule: many_ends.induct) (auto simp: map_cursor_def)

lemma rx_run_blind: "blind f r \<Longrightarrow> rx_run r (map_cursor f p) = map (map_cursor f) (rx_run r p)"
proof (induction r p rule: rx_run.induct)
  case (2 cs b s)
  then show ?case using many_ends_blind [of cs f b s] by (simp add: map_cursor_def)
next
  case (3 cs b s)
  then show ?case using many_ends_blind [of cs f "Some _"] by (cases s) (auto simp: map_cursor_def)
next
  case (4 p)
  then show ?case by (cases p) (auto simp: map_cursor_def split: option.splits list.splits)
next
  case (6 r r' p)
  then show ?case by (simp add: map_concat comp_def cong: map_cong)
qed (auto simp: map_cursor_def split: list.splits)

lemma search_from_blind: "blind f r \<Longrightarrow> search_from r (map_option f b) (map f s) = search_from r b s"
proof (induction r b s rule: search_from.induct)
  case (1 r b)
  then show ?case using rx_run_blind [of f r "(b, [])"] by (simp add: map_cursor_def)
next
  case (2 r b x s)
  then show ?case using rx_run_blind [of f r "(b, x # s)"] by (simp add: map_cursor_def)
qed

lemma match_string_blind: "blind f r \<Longrightarrow> match_string r (map f s) = match_string r s"
  using search_from_blind [of f r None s] by (simp add: match_string_def)

section \<open>Texts that avoid a cheap test\<close>

text \<open>Every blank written as a tabulator.\<close>

definition tab_blank :: "char \<Rightarrow> char" where
  "tab_blank c = (if c = CHR '' '' then CHR 0x09 else c)"

text \<open>The letters of a pattern.\<close>

fun rx_chars :: "rx \<Rightarrow> char list" where
  "rx_chars (Ch c) = [c]"
| "rx_chars (Seq r r') = rx_chars r @ rx_chars r'"
| "rx_chars (Alt r r') = rx_chars r @ rx_chars r'"
| "rx_chars _ = []"

lemma tab_blank_blind: "list_all (\<lambda>c. lower_char c \<noteq> CHR '' '' \<and> lower_char c \<noteq> CHR 0x09) (rx_chars r) \<Longrightarrow> blind tab_blank r"
proof (induction r)
  case (Ch c)
  have "lower_char (CHR '' '') = CHR '' ''" "lower_char (CHR 0x09) = CHR 0x09" by (simp_all add: lower_char_def)
  with Ch show ?case by (auto simp: tab_blank_def)
next
  case (Many cs)
  then show ?case by (cases cs) (simp_all add: tab_blank_def)
next
  case (Some_of cs)
  then show ?case by (cases cs) (simp_all add: tab_blank_def)
next
  case Boundary
  then show ?case by (simp add: tab_blank_def is_word_char_def lower_char_def is_alnum_def is_digit_def)
qed simp_all

lemma sql_blind: "blind tab_blank sql_pattern"
  by (rule tab_blank_blind) (simp add: pattern_defs quote_def lower_char_def)

text \<open>A change of characters that makes none of a text's characters from another.\<close>

lemma contains_map:
  assumes "contains (map f s) p" "\<And>x. f x \<in> set p \<Longrightarrow> f x = x"
  shows "contains s p"
proof -
  from assms(1) obtain u v where "map f s = u @ p @ v" by (auto simp: contains_iff)
  then obtain a b c where s: "s = a @ b @ c" and b: "map f b = p"
    by (metis map_eq_append_conv)
  have "f x = x" if "x \<in> set b" for x using assms(2) [of x] that b by auto
  then have "b = p" using b map_idI by metis
  with s show ?thesis by (auto simp: contains_iff)
qed

lemma contains_chars: "contains s p \<Longrightarrow> set p \<subseteq> set s"
  by (auto simp: contains_iff)

lemma contains_map_tab:
  assumes "quote \<notin> set s" "\<not> contains s ''--''"
  shows "\<not> has_sql_potential (map tab_blank s)"
proof -
  have "\<not> contains (map tab_blank s) ''--''"
  proof
    assume "contains (map tab_blank s) ''--''"
    then have "contains s ''--''" by (rule contains_map) (simp add: tab_blank_def split: if_splits)
    with assms(2) show False ..
  qed
  moreover have "CHR '' '' \<notin> set (map tab_blank s)" "quote \<notin> set (map tab_blank s)"
    using assms(1) by (auto simp: tab_blank_def quote_def split: if_splits)
  ultimately show ?thesis by (simp add: has_sql_potential_def)
qed

lemma lower_upper [simp]: "lower_char (upper_char c) = lower_char c"
  by (auto simp: lower_char_def upper_char_def Let_def of_char_of)

lemma upper_blind_ch [simp]: "blind upper_char (Ch c)"
  by simp

lemma path_blind: "blind upper_char path_traversal_pattern"
  by (simp add: pattern_defs)

lemma of_upper_char:
  "(of_char (upper_char c) :: nat) = (if 97 \<le> (of_char c :: nat) \<and> (of_char c :: nat) \<le> 122 then of_char c - 32 else of_char c)"
proof -
  have "(of_char c - 32 :: nat) mod 256 = of_char c - 32" if "(of_char c :: nat) \<le> 122" using that by simp
  then show ?thesis by (auto simp: upper_char_def Let_def of_char_of)
qed

lemma upper_no_lower: "c \<in> set (to_upper s) \<Longrightarrow> \<not> (97 \<le> (of_char c :: nat) \<and> (of_char c :: nat) \<le> 122)"
  by (auto simp: to_upper_def of_upper_char split: if_split_asm)

lemma contains_upper_dots: "contains (to_upper s) ''..'' \<Longrightarrow> contains s ''..''"
proof (rule contains_map [of upper_char])
  fix x
  assume "upper_char x \<in> set ''..''"
  then have "(of_char (upper_char x) :: nat) = 46" by simp
  then have "\<not> (97 \<le> (of_char x :: nat) \<and> (of_char x :: nat) \<le> 122)" unfolding of_upper_char by (simp split: if_splits)
  then show "upper_char x = x" by (auto simp: upper_char_def Let_def)
qed (simp add: to_upper_def)

lemma upper_no_path_potential:
  assumes "\<not> contains s ''..''"
  shows "\<not> has_path_traversal_potential (to_upper s)"
proof -
  have "CHR ''s'' \<notin> set (to_upper s)" "CHR ''n'' \<notin> set (to_upper s)"
    using upper_no_lower [of "CHR ''s''" s] upper_no_lower [of "CHR ''n''" s] by auto
  then have "\<not> contains (to_upper s) ''passwd''" "\<not> contains (to_upper s) ''ini''"
    using contains_chars [of "to_upper s"] by force+
  with assms contains_upper_dots show ?thesis by (auto simp: has_path_traversal_potential_def)
qed

text \<open>The matcher answers exactly whether the pattern matches from some place of the text.\<close>

theorem match_string_exact:
  "match_string r s \<longleftrightarrow> (\<exists>u v q. s = u @ v \<and> rx_matches r (before None u, v) q)"
  unfolding match_string_def by (rule search_from_iff)

text \<open>The cheap tests for scripts and for commands never hide a match of their pattern.\<close>

theorem cheap_tests_lossless:
  "xss_hit s = match_string xss_pattern s \<and> cmd_hit s = match_string cmd_injection_pattern s"
  using xss_potential cmd_potential by (auto simp: xss_hit_def cmd_hit_def)

text \<open>The other two cheap tests are avoided by the form of a text. With every blank written as a
  tabulator a text matches the SQL pattern exactly as before and is never reported (unless it
  holds a quote or two dashes); written in capitals a text matches the path pattern exactly as
  before and is never reported (unless it holds two dots).
\<close>

theorem cheap_tests_evaded:
  assumes "quote \<notin> set s" "\<not> contains s ''--''" "\<not> contains t ''..''"
  shows "match_string sql_pattern (map tab_blank s) = match_string sql_pattern s \<and>
         \<not> sql_hit (map tab_blank s) \<and>
         match_string path_traversal_pattern (to_upper t) = match_string path_traversal_pattern t \<and>
         \<not> path_hit (to_upper t)"
  using match_string_blind [OF sql_blind] match_string_blind [OF path_blind]
    contains_map_tab [OF assms(1,2)] upper_no_path_potential [OF assms(3)]
  by (simp add: sql_hit_def path_hit_def to_upper_def)

lemma matches_examples:
  "match_string sql_pattern ''union select''" "match_string path_traversal_pattern ''/etc/passwd''"
  by (simp_all add: match_string_def pattern_defs lower_char_def quote_def)

theorem cheap_tests_evaded_witness:
  "\<not> sql_hit (map tab_blank ''union select'') \<and> match_string sql_pattern (map tab_blank ''union select'') \<and>
   \<not> path_hit (to_upper ''/etc/passwd'') \<and> match_string path_traversal_pattern (to_upper ''/etc/passwd'')"
  using cheap_tests_evaded [of "''union select''" "''/etc/passwd''"] matches_examples
  by (simp add: quote_def contains_def has_prefix_def)

section \<open>The body\<close>

definition body_scanned :: "waf_request \<Rightarrow> bool" where
  "body_scanned q \<longleftrightarrow> is_write_method (wr_method q) \<and>
     is_text_type (header_get (wr_headers q) ''Content-Type'') \<and> \<not> wr_readFails q"

text \<open>A request that passes the firewall goes on with its body cut at 8192 bytes when the body
  was scanned, and unchanged otherwise.
\<close>

theorem passed_body_is_cut:
  assumes "is_malicious_request q = (None, q')"
  shows "q' = q\<lparr>wr_body := (if body_scanned q then map_option (take body_limit) (wr_body q) else wr_body q)\<rparr>"
  using assms
  by (auto simp: is_malicious_request_def scan_request_body_def body_scanned_def Let_def split: option.splits if_splits)

definition ex_upload :: "string \<Rightarrow> waf_request" where
  "ex_upload body = \<lparr>wr_method = ''POST'', wr_path = ''/'', wr_rawQuery = [],
     wr_headers = [(''Content-Type'', [''text/plain''])], wr_cookies = [], wr_body = Some body, wr_readFails = False\<rparr>"

lemma plain_body_passes: "scan_body (replicate n (CHR ''a'')) = None"
proof -
  have "\<not> contains (replicate n (CHR ''a'')) ''..''" "\<not> contains (replicate n (CHR ''a'')) ''passwd''"
    "\<not> contains (replicate n (CHR ''a'')) ''ini''" "\<not> contains (replicate n (CHR ''a'')) ''--''"
    using contains_chars [of "replicate n (CHR ''a'')"] by (force split: if_splits)+
  then show ?thesis
    by (simp add: scan_body_def path_hit_def sql_hit_def xss_hit_def cmd_hit_def quote_def
      has_path_traversal_potential_def has_sql_potential_def has_xss_potential_def has_cmd_potential_def)
qed

lemma ex_upload_passes:
  "is_malicious_request (ex_upload (replicate 10000 (CHR ''a''))) = (None, ex_upload (replicate 8192 (CHR ''a'')))"
proof -
  have "scan_path ''/'' = None" "scan_user_agent [] = None"
    by (simp_all add: quote_def scan_path_def scan_user_agent_def path_hit_def sql_hit_def xss_hit_def cmd_hit_def contains_def
      has_prefix_def has_path_traversal_potential_def has_sql_potential_def has_xss_potential_def has_cmd_potential_def)
  then show ?thesis
    by (simp add: is_malicious_request_def ex_upload_def parse_query_def query_piece_def map_filter_def header_get_def quote_def
      get_def scan_request_body_def is_write_method_def is_text_type_def has_prefix_def body_limit_def plain_body_passes)
qed

theorem passed_body_is_cut_witness:
  "is_malicious_request (ex_upload (replicate 10000 (CHR ''a''))) = (None, ex_upload (replicate 8192 (CHR ''a''))) \<and>
   wr_body (ex_upload (replicate 8192 (CHR ''a''))) = Some (replicate 8192 (CHR ''a''))"
  using passed_body_is_cut [OF ex_upload_passes] ex_upload_passes
  by (simp add: ex_upload_def)

end
