(* ===== verification/Forwarding_Facts.thy ===== *)
theory Forwarding_Facts
  imports Forwarding Client_IP_Facts
begin

text \<open>
  The forwarding chain a tunnel's backend sees, the end of every hand-over between gateways, and
  the measure of a message against its text.
\<close>

section \<open>Reading back a header\<close>

named_theorems header_simps \<open>reading a header after a step of a rewrite\<close>

lemma canonical_names [header_simps]:
  "canonical_header ''X-Forwarded-For'' = ''X-Forwarded-For''"
  "canonical_header ''X-Forwarded-Host'' = ''X-Forwarded-Host''"
  "canonical_header ''X-Forwarded-Proto'' = ''X-Forwarded-Proto''"
  "canonical_header ''X-Real-IP'' = ''X-Real-Ip''"
  "canonical_header ''X-LFR-Cross-Node-Hop'' = ''X-Lfr-Cross-Node-Hop''"
  "canonical_header ''X-LFR-Cross-Node-Visited'' = ''X-Lfr-Cross-Node-Visited''"
  by (simp_all add: canonical_header_def is_token_char_def is_alnum_def is_digit_def lower_char_def upper_letter_def char_of_def bit_0)

lemma get_header_set [header_simps]:
  "get (header_set k v h) k' = (if k' = canonical_header k then Some [v] else get h k')"
  by (simp add: header_set_def table_simps)

lemma get_header_del [header_simps]:
  "get (header_del k h) k' = (if k' = canonical_header k then None else get h k')"
  by (simp add: header_del_def table_simps)

lemma get_append_chain [header_simps]:
  "get (append_x_forwarded_for out prior v) k =
     (if k = ''X-Forwarded-For'' then Some [if prior \<noteq> [] then join '', '' prior @ '', '' @ v else v] else get out k)"
  by (simp add: append_x_forwarded_for_def header_simps)

lemma get_append_peer [header_simps]:
  "k \<noteq> ''X-Forwarded-For'' \<Longrightarrow> get (append_peer_to_x_forwarded_for remote out) k = get out k"
  by (simp add: append_peer_to_x_forwarded_for_def header_simps split: option.splits prod.splits)

lemma get_ensure_visitor [header_simps]:
  "k \<noteq> ''X-Forwarded-For'' \<Longrightarrow> get (ensure_visitor_in_x_forwarded_for remote v out) k = get out k"
  by (simp add: ensure_visitor_in_x_forwarded_for_def Let_def header_simps split: prod.splits)

lemma get_set_interpolated:
  "\<forall>(k', v) \<in> set kvs. canonical_header k' \<noteq> k \<Longrightarrow> get (set_interpolated c host proto kvs h) k = get h k"
  unfolding set_interpolated_def
  by (induction kvs arbitrary: h) (auto simp: header_simps)

lemma get_fold_del: "k \<notin> canonical_header ` set ks \<Longrightarrow> get (fold header_del ks h) k = get h k"
  by (induction ks arbitrary: h) (auto simp: header_simps)

lemma get_fold_del_in: "k \<in> canonical_header ` set ks \<Longrightarrow> get (fold header_del ks h) k = None"
proof (induction ks arbitrary: h)
  case (Cons x ks)
  then show ?case
    by (cases "k \<in> canonical_header ` set ks") (auto simp: get_fold_del header_simps)
qed simp

lemma restored_chain:
  "get (restore_inbound_forwarded inbound (outbound_start inbound)) ''X-Forwarded-For'' = get inbound ''X-Forwarded-For''"
proof -
  have "get (outbound_start inbound) ''X-Forwarded-For'' = None"
    unfolding outbound_start_def Let_def
    by (rule get_fold_del_in) (auto simp: forwarded_headers_def canonical_names intro!: image_eqI [where x = "''X-Forwarded-For''"])
  then show ?thesis
    by (auto simp: restore_inbound_forwarded_def forwarded_headers_def table_simps split: option.splits)
qed

section \<open>The chain a backend sees\<close>

definition leaves_chain :: "(string, string) table \<Rightarrow> bool" where
  "leaves_chain kvs \<longleftrightarrow> (\<forall>(k, v) \<in> set kvs. canonical_header k \<noteq> ''X-Forwarded-For'')"

lemma append_peer_chain:
  assumes "peer_ip remote = Some p" "get out ''X-Forwarded-For'' \<noteq> Some []"
  shows "header_values (append_peer_to_x_forwarded_for remote out) ''X-Forwarded-For'' =
    [case get out ''X-Forwarded-For'' of None \<Rightarrow> p | Some vs \<Rightarrow> join '', '' vs @ '', '' @ p]"
  using assms
  by (auto simp: append_peer_to_x_forwarded_for_def prior_x_forwarded_for_def header_values_def header_simps split: option.splits)

text \<open>With the standard headers the chain a backend sees is rebuilt from the connection: the
  resolved visitor, unless that is the peer, and then the peer. Nothing the caller sent is in it
  beyond what the trusted-proxy rule believed.\<close>

theorem lease_chain_exact:
  assumes "peer_ip (hq_remote q) = Some p" "leaves_chain (l_addedHeaders l)"
  shows "header_values (ob_headers (fst (lease_rewrite trusted [] now q l))) ''X-Forwarded-For'' =
    (let v = trim_space (client_ip_from trusted (hq_remote q) (hq_headers q))
     in [if v = [] \<or> v = p then p else v @ '', '' @ p])"
proof -
  let ?c = "client_ip_from trusted (hq_remote q) (hq_headers q)"
  have chain: "get (ensure_visitor_in_x_forwarded_for (hq_remote q) ?c (header_del ''X-Forwarded-For'' h)) ''X-Forwarded-For'' =
      (if trim_space ?c = [] \<or> trim_space ?c = p then None else Some [trim_space ?c])" for h
    using assms(1)
    by (auto simp: ensure_visitor_in_x_forwarded_for_def prior_x_forwarded_for_def last_x_forwarded_for_entry_def
      Let_def header_simps)
  show ?thesis
    unfolding lease_rewrite_def Let_def
    using assms chain
    by (auto simp: append_peer_chain get_set_interpolated leaves_chain_def header_simps)
qed

definition ex_visit_request :: "string \<Rightarrow> headers \<Rightarrow> http_request" where
  "ex_visit_request remote h = \<lparr>hq_method = ''GET'', hq_proto = ''HTTP/1.1'', hq_host = ''demo.ex.org'', hq_path = ''/'',
     hq_requestURI = ''/'', hq_headers = h, hq_remote = remote, hq_tls = True\<rparr>"

definition ex_target :: lease where
  "ex_target = new_lease \<lparr>rq_userID = ''ada'', rq_prefix = ''demo'', rq_ports = [], rq_domains = [], rq_rateLimit = 0,
     rq_clientIP = [], rq_basicAuth = [], rq_addedHeaders = []\<rparr> ''t1'' 0 ''control'' 9000 80 ''demo.ex.org''"

lemma ex_target_headers [simp]: "l_addedHeaders ex_target = []"
  by (simp add: ex_target_def new_lease_def)

lemma ex_peer: "peer_ip ''203.0.113.9:4000'' = Some ''203.0.113.9''"
  by (simp add: peer_ip_def split_host_port_def Let_def)

theorem lease_chain_exact_witness:
  "header_values (ob_headers (fst (lease_rewrite [] [] 0
      (ex_visit_request ''203.0.113.9:4000'' [(''X-Forwarded-For'', [''10.0.0.1''])]) ex_target))) ''X-Forwarded-For'' =
    [''203.0.113.9'']"
proof -
  let ?q = "ex_visit_request ''203.0.113.9:4000'' [(''X-Forwarded-For'', [''10.0.0.1''])]"
  have c: "client_ip_from [] (hq_remote ?q) (hq_headers ?q) = ''203.0.113.9''"
    by (simp add: ex_visit_request_def client_ip_from_def is_trusted_proxy_def peer_address_def split_host_port_def
      Let_def split: option.splits)
  have "peer_ip (hq_remote ?q) = Some ''203.0.113.9''" by (simp add: ex_visit_request_def ex_peer)
  from lease_chain_exact [OF this, of ex_target "[]" 0] c show ?thesis
    by (simp add: leaves_chain_def trim_space_def is_space_def)
qed

text \<open>Where an operator configures headers of their own, the chain the caller sent is kept and
  only the peer is added to it: any caller chooses what the backend reads as the first hops.\<close>

theorem custom_headers_keep_sent_chain:
  assumes "proxyHeaders \<noteq> []" "leaves_chain proxyHeaders" "leaves_chain (l_addedHeaders l)"
    and "peer_ip (hq_remote q) = Some p" "get (hq_headers q) ''X-Forwarded-For'' = Some [sent]"
  shows "header_values (ob_headers (fst (lease_rewrite trusted proxyHeaders now q l))) ''X-Forwarded-For'' =
    [sent @ '', '' @ p]"
  using assms restored_chain [of "hq_headers q"]
  unfolding lease_rewrite_def Let_def
  by (auto simp: append_peer_chain get_set_interpolated leaves_chain_def)

theorem custom_headers_keep_sent_chain_witness:
  "header_values (ob_headers (fst (lease_rewrite [] [(''X-Env'', ''demo'')] 0
      (ex_visit_request ''203.0.113.9:4000'' [(''X-Forwarded-For'', [''10.0.0.1''])]) ex_target))) ''X-Forwarded-For'' =
    [''10.0.0.1, 203.0.113.9'']"
proof -
  have env: "canonical_header ''X-Env'' = ''X-Env''"
    by (simp add: canonical_header_def is_token_char_def is_alnum_def is_digit_def lower_char_def upper_letter_def char_of_def bit_0)
  show ?thesis
    by (subst custom_headers_keep_sent_chain [where p = "''203.0.113.9''" and sent = "''10.0.0.1''"])
      (simp_all add: leaves_chain_def env ex_visit_request_def ex_peer get_def)
qed

section \<open>Hand-overs between gateways end\<close>

text \<open>
  A request handed over by one gateway after another: the gateways that did so, in order. Where an
  address leads is left open, so the statement does not depend on any route table being right.
\<close>

inductive handed_over ::
  "(string \<Rightarrow> (string \<times> string \<times> string) option) \<Rightarrow> (string \<Rightarrow> resolver) \<Rightarrow> string
   \<Rightarrow> headers \<Rightarrow> string list \<Rightarrow> bool" for parseURL resolve host where
  stop: "handed_over parseURL resolve host h []"
| step: "cross_node_target parseURL (Some (resolve n)) n h host = Some t \<Longrightarrow> hq_headers q = h \<Longrightarrow>
     handed_over parseURL resolve host (cross_node_headers trusted n host q) ns \<Longrightarrow>
     handed_over parseURL resolve host h (n # ns)"

lemma target_checks:
  assumes "cross_node_target parseURL (Some r) n h host = Some t"
  shows "hops_of h < 2" "\<not> was_visited (header_get h visited_header) n"
  using assms by (auto simp: cross_node_target_def hops_of_def parse_int_def Let_def split: if_splits option.splits)

lemma hops_lower: "- (2 ^ 63) \<le> hops_of h"
  by (auto simp: hops_of_def parse_int_def Let_def split: option.splits if_splits)

lemma get_hop_next:
  "get (cross_node_headers trusted n host q) hop_header = Some [itoa (hops_of (hq_headers q) + 1)]"
  unfolding cross_node_headers_def Let_def by (simp add: hop_header_def header_simps)

lemma get_visited_next:
  "get (cross_node_headers trusted n host q) visited_header =
     Some [let v = header_get (hq_headers q) visited_header in if v = [] then n else v @ '','' @ n]"
  unfolding cross_node_headers_def Let_def by (simp add: visited_header_def header_simps)

lemma hops_next:
  assumes "hops_of (hq_headers q) < 2"
  shows "hops_of (cross_node_headers trusted n host q) = hops_of (hq_headers q) + 1"
proof -
  have "parse_int (itoa (hops_of (hq_headers q) + 1)) = Some (hops_of (hq_headers q) + 1)"
    using assms hops_lower [of "hq_headers q"] by (intro parse_int_itoa) auto
  then show ?thesis
    by (subst hops_of_def) (simp add: header_get_def get_hop_next)
qed

lemma visited_next:
  "header_get (cross_node_headers trusted n host q) visited_header =
     (let v = header_get (hq_headers q) visited_header in if v = [] then n else v @ '','' @ n)"
  by (subst (1) header_get_def) (simp add: get_visited_next)

text \<open>A name that can be found again in the list of visited gateways.\<close>

definition plain_name :: "string \<Rightarrow> bool" where
  "plain_name n \<longleftrightarrow> n \<noteq> [] \<and> CHR '','' \<notin> set n \<and> trim_space n = n"

lemma was_visited_next:
  assumes "plain_name n"
  shows "was_visited (if v = [] then n else v @ '','' @ n) m \<longleftrightarrow> was_visited v m \<or> m = n"
  using assms by (auto simp: was_visited_def plain_name_def split_on_concat split_on_no_sep)

text \<open>C36: Hand-overs end. Whatever the routes of the gateways say and wherever their addresses
  lead, a request is handed over at most as often as its hop count leaves room for (twice, for a
  request that carries none), and no gateway hands it over twice, whatever count it carries.\<close>

theorem hand_overs_end:
  assumes "handed_over parseURL resolve host h ns" "\<forall>n \<in> set ns. plain_name n"
  shows "int (length ns) \<le> max 0 (2 - hops_of h) \<and> distinct ns \<and>
         (\<forall>n \<in> set ns. \<not> was_visited (header_get h visited_header) n)"
  using assms
proof (induction rule: handed_over.induct)
  case (stop h)
  then show ?case by simp
next
  case (step n h t q trusted ns)
  note checks = target_checks [OF step.hyps(1)]
  have hops: "hops_of (cross_node_headers trusted n host q) = hops_of h + 1"
    using hops_next [of q] checks(1) step.hyps(2) by simp
  have visited: "was_visited (header_get (cross_node_headers trusted n host q) visited_header) m \<longleftrightarrow>
      was_visited (header_get h visited_header) m \<or> m = n" for m
    using was_visited_next [of n] step.prems step.hyps(2) by (simp add: visited_next Let_def)
  from step.IH step.prems hops visited checks show ?case by auto
qed

definition ex_parse :: "string \<Rightarrow> (string \<times> string \<times> string) option" where
  "ex_parse u = Some (''http'', u, [])"

definition ex_routes :: "string \<Rightarrow> resolver" where
  "ex_routes n host = Some (''http://next'', if n = ''a'' then ''b'' else if n = ''b'' then ''c'' else ''d'')"

lemma plain_examples: "plain_name ''a''" "plain_name ''b''" "plain_name ''c''"
  by (simp_all add: plain_name_def trim_space_def is_space_def)

lemma ex_step:
  assumes "hops_of h < 2" "\<not> was_visited (header_get h visited_header) n" "n \<in> {''a'', ''b'', ''c''}"
    and "\<not> was_visited (header_get h visited_header) (snd (the (ex_routes n host)))"
  shows "cross_node_target ex_parse (Some (ex_routes n)) n h host = Some ((''http'', ''http://next'', []), snd (the (ex_routes n host)))"
  using assms by (auto simp: cross_node_target_def ex_routes_def ex_parse_def with_scheme_def has_prefix_def)

lemma ex_hand_over:
  assumes "hops_of h < 2" "\<not> was_visited (header_get h visited_header) n" "n \<in> {''a'', ''b'', ''c''}"
    and "\<not> was_visited (header_get h visited_header) (snd (the (ex_routes n host)))"
    and "handed_over ex_parse ex_routes host (cross_node_headers [] n host (ex_visit_request [] h)) ns"
  shows "handed_over ex_parse ex_routes host h (n # ns)"
  by (rule handed_over.step [where q = "ex_visit_request [] h" and trusted = "[]"], rule ex_step [OF assms(1-4)])
    (use assms(5) in \<open>simp_all add: ex_visit_request_def\<close>)

theorem hand_overs_end_witness: "int (length [''a'', ''b'']) \<le> max 0 (2 - hops_of []) \<and> distinct [''a'', ''b'']"
proof -
  have e: "hq_headers (ex_visit_request [] h) = h" for h by (simp add: ex_visit_request_def)
  have h0: "hops_of [] = 0" "header_get [] visited_header = []"
    by (simp_all add: hops_of_def header_get_def parse_int_def has_prefix_def)
  let ?h1 = "cross_node_headers [] ''a'' ''demo.ex.org'' (ex_visit_request [] [])"
  have h1: "hops_of ?h1 = 1" "header_get ?h1 visited_header = ''a''"
    using h0 hops_next [of "ex_visit_request [] []"] by (simp_all add: e visited_next)
  have "handed_over ex_parse ex_routes ''demo.ex.org'' ?h1 [''b'']"
    using h1 by - (rule ex_hand_over, simp_all add: was_visited_def ex_routes_def trim_space_def is_space_def handed_over.stop)
  then have "handed_over ex_parse ex_routes ''demo.ex.org'' [] [''a'', ''b'']"
    using h0 by - (rule ex_hand_over, simp_all add: was_visited_def)
  from hand_overs_end [OF this] plain_examples show ?thesis by simp
qed

text \<open>The hop count is the caller's to choose: one below zero buys further hand-overs.\<close>

lemma forged_hop_count_lengthens:
  "handed_over ex_parse ex_routes ''demo.ex.org'' [(hop_header, [''-1''])] [''a'', ''b'', ''c'']"
proof -
  have e: "hq_headers (ex_visit_request [] h) = h" for h by (simp add: ex_visit_request_def)
  let ?h0 = "[(hop_header, [''-1''])]"
  have h0: "hops_of ?h0 = -1" "header_get ?h0 visited_header = []"
    by (simp_all add: hops_of_def header_get_def get_def parse_int_def has_prefix_def is_digit_def digits_val_def
      digit_val_def hop_header_def visited_header_def)
  let ?h1 = "cross_node_headers [] ''a'' ''demo.ex.org'' (ex_visit_request [] ?h0)"
  have h1: "hops_of ?h1 = 0" "header_get ?h1 visited_header = ''a''"
    using h0 hops_next [of "ex_visit_request [] ?h0"] by (simp_all add: e visited_next)
  let ?h2 = "cross_node_headers [] ''b'' ''demo.ex.org'' (ex_visit_request [] ?h1)"
  have h2: "hops_of ?h2 = 1" "header_get ?h2 visited_header = ''a,b''"
    using h1 hops_next [of "ex_visit_request [] ?h1"] by (simp_all add: e visited_next)
  have "handed_over ex_parse ex_routes ''demo.ex.org'' ?h2 [''c'']"
    using h2 by - (rule ex_hand_over, simp_all add: was_visited_def ex_routes_def trim_space_def is_space_def handed_over.stop)
  then have "handed_over ex_parse ex_routes ''demo.ex.org'' ?h1 [''b'', ''c'']"
    using h1 by - (rule ex_hand_over, simp_all add: was_visited_def ex_routes_def trim_space_def is_space_def)
  then show ?thesis using h0 by - (rule ex_hand_over, simp_all add: was_visited_def)
qed

section \<open>Bytes on the wire\<close>

text \<open>The text of a message up to its body.\<close>

definition crlf :: string where "crlf = [CHR 0x0D, CHR 0x0A]"

definition header_text :: "headers \<Rightarrow> string" where
  "header_text h = concat (map (\<lambda>(k, vs). concat (map (\<lambda>v. k @ '': '' @ v @ crlf) vs)) h)"

definition request_text :: "string \<Rightarrow> string \<Rightarrow> string \<Rightarrow> string \<Rightarrow> headers \<Rightarrow> string" where
  "request_text method requestURI proto host h =
     method @ '' '' @ requestURI @ '' '' @ proto @ crlf @ ''Host: '' @ host @ crlf @ header_text h @ crlf"

lemma header_text_length: "length (header_text h) = header_wire_bytes h"
  unfolding header_text_def header_wire_bytes_def
  by (induction h) (auto simp: length_concat crlf_def comp_def)

text \<open>The bytes counted for a request are the length of its text up to the body, and an
  exchange moves the counters of the lease by exactly the bytes of both messages, modulo
  \<open>2 ^ 64\<close>.\<close>

theorem wire_bytes_exact:
  assumes "host \<noteq> []"
  shows "request_wire_header_bytes method requestURI proto host urlHost h =
           length (request_text method requestURI proto host h) \<and>
         l_bytesIn (round_trip n (Replied sent m received) l) = l_bytesIn l + of_nat (n + sum_list sent) \<and>
         l_bytesOut (round_trip n (Replied sent m received) l) = l_bytesOut l + of_nat (m + sum_list received)"
proof -
  have counts: "l_bytesIn (fold count_in ns x) = l_bytesIn x + of_nat (sum_list ns)"
    "l_bytesOut (fold count_in ns x) = l_bytesOut x"
    "l_bytesOut (fold count_out ns x) = l_bytesOut x + of_nat (sum_list ns)"
    "l_bytesIn (fold count_out ns x) = l_bytesIn x" for ns x
    by (induction ns arbitrary: x) (simp_all add: count_in_def count_out_def)
  show ?thesis
    using assms
    by (simp add: request_wire_header_bytes_def request_text_def Let_def header_text_length crlf_def round_trip_def
      counts count_in_def count_out_def)
qed

theorem wire_bytes_exact_witness:
  "request_wire_header_bytes ''GET'' ''/'' ''HTTP/1.1'' ''demo.ex.org'' [] [(''Accept'', [''*''])] =
     length (request_text ''GET'' ''/'' ''HTTP/1.1'' ''demo.ex.org'' [(''Accept'', [''*''])])"
  using wire_bytes_exact [of "''demo.ex.org''" "''GET''" "''/''" "''HTTP/1.1''" "[]" "[(''Accept'', [''*''])]"] by simp

end
