(* ===== verification/Gateway_Facts.thy ===== *)
theory Gateway_Facts
  imports Gateway Waf_Facts Forwarding_Facts Access_Facts Registry_Teardown
begin

text \<open>
  What the gateway's pipeline guarantees: a request reaches a tunnel only past every gate, the
  credentials of a tunnel are compared as they were written, pages carry nothing of a visitor's
  that a browser would read as markup, and a host just torn down is answered as coming back.
\<close>

section \<open>Base64\<close>

text \<open>The encoder a browser applies to credentials.\<close>

fun b64_encode_nats :: "nat list \<Rightarrow> string" where
  "b64_encode_nats [] = []"
| "b64_encode_nats [x] = [b64_char (x div 4), b64_char (x mod 4 * 16), CHR ''='', CHR ''='']"
| "b64_encode_nats [x, y] =
     [b64_char (x div 4), b64_char (x mod 4 * 16 + y div 16), b64_char (y mod 16 * 4), CHR ''='']"
| "b64_encode_nats (x # y # z # s) =
     [b64_char (x div 4), b64_char (x mod 4 * 16 + y div 16), b64_char (y mod 16 * 4 + z div 64), b64_char (z mod 64)]
       @ b64_encode_nats s"

definition b64_encode :: "string \<Rightarrow> string" where
  "b64_encode s = b64_encode_nats (map of_char s)"

lemma b64_char_all: "list_all (\<lambda>n. b64_val (b64_char n) = Some n \<and> b64_char n \<noteq> CHR 0x0D \<and> b64_char n \<noteq> CHR 0x0A) [0..<64]"
  by (simp add: b64_val_def b64_char_def b64_alphabet_def upt_rec)

lemma b64_char [simp]:
  assumes "n < 64"
  shows "b64_val (b64_char n) = Some n" "b64_char n \<noteq> CHR 0x0D" "b64_char n \<noteq> CHR 0x0A"
  using b64_char_all assms by (simp_all add: list_all_iff)

lemma b64_val_pad [simp]: "b64_val (CHR ''='') = None"
  by (simp add: b64_val_def)

lemma b64_recombine:
  "(x :: nat) = 4 * a + b \<Longrightarrow> y = 16 * c + d \<Longrightarrow> z = 64 * e + f \<Longrightarrow>
   a * 262144 + (b * 16 + c) * 4096 + (d * 4 + e) * 64 + f = (y * 256 + z) + x * 65536"
  by simp

lemma b64_bytes_three:
  assumes "x < 256" "y < 256" "z < 256"
  shows "b64_bytes (x div 4) (x mod 4 * 16 + y div 16) (y mod 16 * 4 + z div 64) (z mod 64) = [x, y, z]"
proof -
  have n: "x div 4 * 262144 + (x mod 4 * 16 + y div 16) * 4096 + (y mod 16 * 4 + z div 64) * 64 + z mod 64
      = (y * 256 + z) + x * 65536"
    by (rule b64_recombine) simp_all
  have "y * 256 + z < 65536" using assms by linarith
  then have "((y * 256 + z) + x * 65536) div 65536 = x" by simp
  moreover have e: "(y * 256 + z) + x * 65536 = z + (x * 256 + y) * 256" by simp
  then have "((y * 256 + z) + x * 65536) div 256 mod 256 = y" "((y * 256 + z) + x * 65536) mod 256 = z"
    using assms unfolding e by (simp_all only: div_mult_self1 mod_mult_self1) simp_all
  ultimately show ?thesis unfolding b64_bytes_def Let_def n by simp
qed

lemma b64_bytes_one: "x < 256 \<Longrightarrow> take 1 (b64_bytes (x div 4) (x mod 4 * 16) 0 0) = [x]"
  using b64_bytes_three [of x 0 0] by simp

lemma b64_bytes_two:
  "x < 256 \<Longrightarrow> y < 256 \<Longrightarrow> take 2 (b64_bytes (x div 4) (x mod 4 * 16 + y div 16) (y mod 16 * 4) 0) = [x, y]"
  using b64_bytes_three [of x y 0] by simp

lemma b64_groups_encode:
  "list_all (\<lambda>n. n < 256) ns \<Longrightarrow> b64_groups (b64_encode_nats ns) = Some (map char_of ns)"
proof (induction ns rule: b64_encode_nats.induct)
  case (2 x)
  have "x div 4 < 64" "x mod 4 * 16 < 64" using 2 by auto
  with 2 b64_bytes_one [of x] show ?case by simp
next
  case (3 x y)
  have "x div 4 < 64" "x mod 4 * 16 + y div 16 < 64" "y mod 16 * 4 < 64" using 3 by auto
  with 3 b64_bytes_two [of x y] show ?case by simp
next
  case (4 x y z s)
  have "x div 4 < 64" "x mod 4 * 16 + y div 16 < 64" "y mod 16 * 4 + z div 64 < 64" "z mod 64 < 64" using 4 by auto
  with 4 b64_bytes_three [of x y z] show ?case by simp
qed simp

lemma b64_encode_no_breaks:
  "list_all (\<lambda>n. n < 256) ns \<Longrightarrow> filter (\<lambda>c. c \<noteq> CHR 0x0D \<and> c \<noteq> CHR 0x0A) (b64_encode_nats ns) = b64_encode_nats ns"
proof (induction ns rule: b64_encode_nats.induct)
  case (2 x)
  have "x div 4 < 64" "x mod 4 * 16 < 64" using 2 by auto
  then show ?case by simp
next
  case (3 x y)
  have "x div 4 < 64" "x mod 4 * 16 + y div 16 < 64" "y mod 16 * 4 < 64" using 3 by auto
  then show ?case by simp
next
  case (4 x y z s)
  have "x div 4 < 64" "x mod 4 * 16 + y div 16 < 64" "y mod 16 * 4 + z div 64 < 64" "z mod 64 < 64" using 4 by auto
  with 4 show ?case by simp
qed simp

lemma b64_roundtrip: "b64_decode (b64_encode s) = Some s"
proof -
  have "list_all (\<lambda>n. n < 256) (map (of_char :: char \<Rightarrow> nat) s)" by (induction s) simp_all
  then show ?thesis
    using b64_groups_encode [of "map of_char s"] b64_encode_no_breaks [of "map of_char s"]
    by (simp add: b64_decode_def b64_encode_def comp_def)
qed

text \<open>Credentials sent as a browser sends them pass exactly when they are the tunnel's.\<close>

theorem basic_auth_exact:
  "basic_auth_ok required [(''Authorization'', [''Basic '' @ b64_encode sent])] \<longleftrightarrow> sent = required"
  by (auto simp: basic_auth_ok_def header_get_def get_def trim_prefix_def has_prefix_def b64_roundtrip)

section \<open>Pages\<close>

definition markup :: "char set" where
  "markup = {CHR ''<'', CHR ''>'', CHR 0x27, CHR 0x22}"

lemma escape_string_safe: "c \<in> set (escape_string s) \<Longrightarrow> c \<notin> markup"
  by (auto simp: escape_string_def escape_char_def markup_def split: if_splits)

lemma count_list_drop: "count_list (drop n s) c \<le> count_list s c"
  by (metis append_take_drop_id count_list_append le_add2)

lemma replacer_markup:
  assumes "\<forall>(old, new) \<in> set pairs. c \<notin> set new"
  shows "count_list (replacer pairs s) c \<le> count_list s c"
  using assms
proof (induction pairs s rule: replacer.induct)
  case (2 pairs x s)
  show ?case
  proof (cases "List.find (\<lambda>(old, _). old \<noteq> [] \<and> has_prefix (x # s) old) pairs")
    case None
    with 2 show ?thesis by auto
  next
    case (Some on)
    obtain old new where on: "on = (old, new)" by (cases on)
    with Some have "old \<noteq> []" "(old, new) \<in> set pairs" by (auto simp: find_Some_iff) (metis nth_mem)
    with 2 have "count_list (replacer pairs (drop (length old) (x # s))) c \<le> count_list (drop (length old) (x # s)) c"
      "c \<notin> set new" using Some on by auto
    then show ?thesis using Some on \<open>old \<noteq> []\<close> count_list_drop [of "length old" "x # s" c] by simp
  qed
qed simp

text \<open>Whatever values a page is rendered with, it holds no more of the characters that open
  markup or end an attribute than its template does.\<close>

theorem render_page_adds_no_markup:
  "\<forall>c. c \<in> markup \<longrightarrow> count_list (render_page tmpl vals) c \<le> count_list tmpl c"
  unfolding render_page_def
  by (intro allI impI replacer_markup) (auto dest: escape_string_safe)

theorem render_page_adds_no_markup_witness:
  "count_list (render_page ''<b>{{.Host}}</b>'' [(''{{.Host}}'', ''<script>'')]) (CHR ''<'') \<le> count_list ''<b>{{.Host}}</b>'' (CHR ''<'')"
  using render_page_adds_no_markup [of "''<b>{{.Host}}</b>''" "[(''{{.Host}}'', ''<script>'')]"] by (simp only: markup_def insert_iff simp_thms)

section \<open>The gates\<close>

text \<open>C2: A request is passed into a tunnel only when the firewall found nothing, the host is routed
  to that tunnel, the access rules admit the visitor, the tunnel's credentials were sent and its
  rate allows it; it goes to the tunnel's own port on the loopback interface, and nothing of the
  registry changes but the visitors noted on that tunnel.\<close>

theorem proxied_only_past_every_gate:
  assumes "serve_http g v ls r = (Proxied out body, ls', r')"
  shows "\<exists>p l. get (r_leases r) (request_host (http_request.truncate v)) = Some p \<and> l = deref r p \<and>
      (gw_enableWAF g \<longrightarrow> fst (is_malicious_request (waf_view v)) = None) \<and>
      fst (check_access_controls (gw_access g) (access_view v) l (request_host (http_request.truncate v))) = Admitted \<and>
      (l_basicAuth l = [] \<or> basic_auth_ok (l_basicAuth l) (hq_headers v)) \<and>
      (l_rateLimit l \<le> 0 \<or> vi_allow v) \<and>
      ob_address out = ''127.0.0.1:'' @ itoa (l_localPort l) \<and>
      r' = modify (\<lambda>l. l\<lparr>l_visitorIPs := put (client_ip_from (ae_trusted (gw_access g)) (hq_remote v) (hq_headers v))
             (vi_now v) (l_visitorIPs l)\<rparr>) p r"
proof -
  let ?q = "http_request.truncate v"
  obtain hit w where hit: "(if gw_enableWAF g then is_malicious_request (waf_view v) else (None, waf_view v)) = (hit, w)"
    by (cases "if gw_enableWAF g then is_malicious_request (waf_view v) else (None, waf_view v)") auto
  obtain p where p: "hit = None" "get (r_leases r) (request_host ?q) = Some p"
    and s: "serve_tunnel g v (wr_body w) (request_host ?q) p ls r = (Proxied out body, ls', r')"
    using assms unfolding serve_http_def Let_def hit
    by (auto simp: serve_no_tunnel_def split: option.splits if_splits)
  let ?l = "deref r p"
  have "fst (check_access_controls (gw_access g) (access_view v) ?l (request_host ?q)) = Admitted"
    "?l = deref r p \<and> (l_basicAuth ?l = [] \<or> basic_auth_ok (l_basicAuth ?l) (hq_headers v)) \<and> (l_rateLimit ?l \<le> 0 \<or> vi_allow v) \<and>
      (\<exists>l'. lease_rewrite (ae_trusted (gw_access g)) (gw_proxyHeaders g) (vi_now v) ?q ?l = (out, l') \<and> r' = modify (\<lambda>_. l') p r)"
    using s unfolding serve_tunnel_def Let_def
    by (auto simp: get_rate_limiter_def split: if_splits prod.splits access_outcome.splits option.splits)
  then show ?thesis
    using p hit
    by (auto simp: lease_rewrite_def Let_def modify_def http_request.truncate_def split: if_splits)
qed

section \<open>A host that was torn down\<close>

text \<open>When a session is cleaned, a visitor of one of its hosts is told to come back in five
  seconds, for exactly the five minutes that follow, and after that that there is nothing here.\<close>

theorem cleaned_host_is_answered_as_returning:
  assumes "registry_wf r" "routes_owned r" "is_table (r_released r)" "get (r_sessions r) tok = Some ps"
    and "get_lease r (request_host (http_request.truncate v)) = Some l" "l_sessionToken l = tok"
    and "now \<le> vi_now v" "gw_enableWAF g = False" "gw_resolver g = None"
  shows "fst (serve_http g v ls (clean_lease now tok r)) =
    (if vi_now v - now < 5 * minute then Offline 503 (Some 5) else Offline 404 None)"
proof -
  let ?h = "request_host (http_request.truncate v)"
  have "get (r_leases (clean_lease now tok r)) ?h = None"
    using clean_lease_routes_aux [OF assms(1,2), of now tok ?h] assms(5,6)
    by (auto simp: get_lease_def split: option.splits)
  moreover have "recently_released (vi_now v) ?h (clean_lease now tok r) \<longleftrightarrow> vi_now v - now < 5 * minute"
    using clean_lease_recently [OF assms(1-4,7), of ?h] assms(5,6) by (simp add: released_host_ttl_def)
  ultimately show ?thesis
    using assms(8,9)
    by (simp add: serve_http_def Let_def try_cross_node_proxy_def cross_node_target_def serve_no_tunnel_def
      retry_after_seconds_def)
qed

definition ex_gateway :: gateway where
  "ex_gateway = \<lparr>gw_enableWAF = False, gw_domains = [''ex.org''], gw_proxyHeaders = [], gw_access = ex_access,
     gw_resolver = None, gw_parseURL = ex_parse\<rparr>"

definition ex_visitor :: "string \<Rightarrow> time \<Rightarrow> visit" where
  "ex_visitor host now = \<lparr>hq_method = ''GET'', hq_proto = ''HTTP/1.1'', hq_host = host, hq_path = ''/'',
     hq_requestURI = ''/'', hq_headers = [], hq_remote = ''203.0.113.9:4000'', hq_tls = True, vi_rawQuery = [],
     vi_cookies = [], vi_body = None, vi_readFails = False, vi_passcode = [], vi_redirect = [], vi_sessionCookie = None,
     vi_peer = No_peer, vi_allow = True, vi_now = now\<rparr>"

lemma ex_visitor_host: "CHR '':'' \<notin> set host \<Longrightarrow> request_host (http_request.truncate (ex_visitor host now)) = host"
  by (simp add: request_host_def split_host_port_def http_request.truncate_def ex_visitor_def)

theorem proxied_only_past_every_gate_witness:
  "(case serve_http ex_gateway (ex_visitor ''demo.ex.org'' 7) [] ex_registry of
      (Proxied out body, ls', r') \<Rightarrow> ob_address out = ''127.0.0.1:10001''
    | _ \<Rightarrow> False)"
proof -
  let ?v = "ex_visitor ''demo.ex.org'' 7"
  have host: "request_host (http_request.truncate ?v) = ''demo.ex.org''" by (simp add: ex_visitor_host)
  have lease: "get (r_leases ex_registry) ''demo.ex.org'' = Some 0" by (simp add: ex_registry_value get_def)
  have fields: "l_basicAuth (deref ex_registry 0) = []" "l_rateLimit (deref ex_registry 0) = 0"
    "l_passcode (deref ex_registry 0) = []" "l_whitelistIPs (deref ex_registry 0) = []" "l_accessMode (deref ex_registry 0) = []"
    by (simp_all add: ex_registry_def new_registry_def eval_register)
  have admitted: "check_access_controls ex_access (access_view ?v) (deref ex_registry 0) ''demo.ex.org'' = (Admitted, None)"
    by (simp add: check_access_controls_def certificate_admits_def verify_client_certificate_def access_view_def
      ex_visitor_def is_verify_request_def evaluate_rules_def access_controls_def fields ex_access_def Let_def
      header_get_def to_upper_def)
  have v: "hq_method ?v = ''GET''" by (simp add: ex_visitor_def)
  have g: "gw_enableWAF ex_gateway = False" "gw_access ex_gateway = ex_access" by (simp_all add: ex_gateway_def)
  obtain out body ls' r' where s: "serve_http ex_gateway ?v [] ex_registry = (Proxied out body, ls', r')"
    by (simp add: serve_http_def serve_tunnel_def host lease g v admitted fields Let_def case_prod_unfold)
  from proxied_only_past_every_gate [OF s]
  have "ob_address out = ''127.0.0.1:'' @ itoa (l_localPort (deref ex_registry 0))"
    unfolding host using lease by auto
  then show ?thesis by (simp add: s ex_registry_value itoa_def itoa_nat.simps digit_def)
qed

theorem cleaned_host_is_answered_as_returning_witness:
  "fst (serve_http ex_gateway (ex_visitor ''demo.ex.org'' minute) [] (clean_lease 0 ''t1'' ex_registry)) = Offline 503 (Some 5) \<and>
   fst (serve_http ex_gateway (ex_visitor ''demo.ex.org'' (5 * minute)) [] (clean_lease 0 ''t1'' ex_registry)) = Offline 404 None"
proof -
  have table: "is_table (r_released ex_registry)"
    by (simp add: ex_registry_def new_registry_def eval_register is_table_def)
  have sess: "get (r_sessions ex_registry) ''t1'' = Some [0]" by (simp add: ex_registry_value get_def)
  have lease: "get_lease ex_registry (request_host (http_request.truncate (ex_visitor ''demo.ex.org'' t))) = Some (deref ex_registry 0)" for t
    by (simp add: ex_visitor_host get_lease_def ex_registry_value get_def)
  have g: "gw_enableWAF ex_gateway = False" "gw_resolver ex_gateway = None" by (simp_all add: ex_gateway_def)
  have now: "vi_now (ex_visitor h t) = t" for h t by (simp add: ex_visitor_def)
  note at = cleaned_host_is_answered_as_returning [OF ex_registry_wf table sess lease ex_registry_value(6) _ g, where now = 0, unfolded now]
  show ?thesis using at [of minute] at [of "5 * minute"] by (simp add: minute_def second_def)
qed

end
