(* ===== verification/Tokens.thy ===== *)
theory Tokens
  imports Accounts
begin

text \<open>
  Personal access tokens: the rows and queries of \<open>pkg/db/pat.go\<close>, the check of a presented
  token (\<open>server_auth.go\<close>), and the handlers that create, revoke, extend and make permanent
  (\<open>api_service_user.go\<close>, \<open>api_service_permanence.go\<close>, \<open>server.go\<close>), with the sweep that warns of an
  expiry (\<open>token_expiry.go\<close>).

  The digest of a token is a parameter. Whether a query of the database fails is an input of the
  operation that makes it.
\<close>

section \<open>Rows\<close>

record pat =
  pt_id :: int
  pt_userID :: string
  pt_tokenHash :: string
  pt_tokenPrefix :: string
  pt_name :: string
  pt_expiresAt :: "time option"
  pt_revokedAt :: "time option"
  pt_lastUsedAt :: "time option"
  pt_createdAt :: time
  pt_permanenceState :: string
  pt_warned :: bool

text \<open>The table, oldest row first; an identifier is never handed out twice.\<close>

record token_store =
  ts_pats :: "pat list"
  ts_nextID :: int

definition permanence_pending :: string where "permanence_pending = ''pending''"
definition permanence_granted :: string where "permanence_granted = ''granted''"
definition permanence_denied :: string where "permanence_denied = ''denied''"

definition get_pat_by_hash :: "string \<Rightarrow> token_store \<Rightarrow> pat option" where
  "get_pat_by_hash h s = List.find (\<lambda>p. pt_tokenHash p = h) (ts_pats s)"

definition get_pat_by_id :: "int \<Rightarrow> token_store \<Rightarrow> pat option" where
  "get_pat_by_id i s = List.find (\<lambda>p. pt_id p = i) (ts_pats s)"

definition list_pats :: "string \<Rightarrow> token_store \<Rightarrow> pat list" where
  "list_pats uid s = rev (sort_key pt_createdAt (filter (\<lambda>p. pt_userID p = uid) (ts_pats s)))"

text \<open>\<open>INSERT\<close>: refused where the digest is taken, which is unique in the table.\<close>

definition create_pat :: "pat \<Rightarrow> token_store \<Rightarrow> token_store option" where
  "create_pat p s =
     (if get_pat_by_hash (pt_tokenHash p) s \<noteq> None then None
      else Some \<lparr>ts_pats = ts_pats s @ [p\<lparr>pt_id := ts_nextID s, pt_warned := False\<rparr>], ts_nextID = ts_nextID s + 1\<rparr>)"

text \<open>\<open>UPDATE \<dots> WHERE id = ?\<close> on rows that satisfy a test: the table, and whether any row did.\<close>

definition update_where :: "(pat \<Rightarrow> bool) \<Rightarrow> (pat \<Rightarrow> pat) \<Rightarrow> token_store \<Rightarrow> bool \<times> token_store" where
  "update_where P f s =
     (list_ex P (ts_pats s), s\<lparr>ts_pats := map (\<lambda>p. if P p then f p else p) (ts_pats s)\<rparr>)"

definition revoke_pat :: "time \<Rightarrow> int \<Rightarrow> token_store \<Rightarrow> bool \<times> token_store" where
  "revoke_pat now i = update_where (\<lambda>p. pt_id p = i) (\<lambda>p. p\<lparr>pt_revokedAt := Some now\<rparr>)"

definition update_pat_used :: "time \<Rightarrow> int \<Rightarrow> token_store \<Rightarrow> bool \<times> token_store" where
  "update_pat_used now i = update_where (\<lambda>p. pt_id p = i) (\<lambda>p. p\<lparr>pt_lastUsedAt := Some now\<rparr>)"

definition update_pat_expiry :: "int \<Rightarrow> time option \<Rightarrow> token_store \<Rightarrow> bool \<times> token_store" where
  "update_pat_expiry i e = update_where (\<lambda>p. pt_id p = i) (\<lambda>p. p\<lparr>pt_expiresAt := e, pt_warned := False\<rparr>)"

definition transition_pat_permanence_state :: "int \<Rightarrow> string \<Rightarrow> string \<Rightarrow> token_store \<Rightarrow> bool \<times> token_store" where
  "transition_pat_permanence_state i old new =
     update_where (\<lambda>p. pt_id p = i \<and> pt_permanenceState p = old) (\<lambda>p. p\<lparr>pt_permanenceState := new\<rparr>)"

definition set_pat_permanence_state :: "int \<Rightarrow> string \<Rightarrow> token_store \<Rightarrow> bool \<times> token_store" where
  "set_pat_permanence_state i st = update_where (\<lambda>p. pt_id p = i) (\<lambda>p. p\<lparr>pt_permanenceState := st\<rparr>)"

definition mark_pat_expiry_warned :: "int \<Rightarrow> token_store \<Rightarrow> bool \<times> token_store" where
  "mark_pat_expiry_warned i = update_where (\<lambda>p. pt_id p = i) (\<lambda>p. p\<lparr>pt_warned := True\<rparr>)"

definition list_pat_permanence_requests :: "token_store \<Rightarrow> pat list" where
  "list_pat_permanence_requests s =
     sort_key pt_createdAt (filter (\<lambda>p. pt_permanenceState p = permanence_pending \<and> pt_revokedAt p = None) (ts_pats s))"

definition prunable :: "time \<Rightarrow> pat \<Rightarrow> bool" where
  "prunable cutoff p \<longleftrightarrow>
     (case pt_revokedAt p of None \<Rightarrow> False | Some t \<Rightarrow> t < cutoff) \<or>
     (case pt_expiresAt p of None \<Rightarrow> False | Some t \<Rightarrow> t < cutoff)"

definition prune_expired_or_revoked_pats :: "time \<Rightarrow> int \<Rightarrow> token_store \<Rightarrow> token_store" where
  "prune_expired_or_revoked_pats now retentionDays s =
     (if retentionDays < 0 then s
      else s\<lparr>ts_pats := filter (\<lambda>p. \<not> prunable (add_days now (- retentionDays)) p) (ts_pats s)\<rparr>)"

definition list_pats_due_expiry_warning :: "time \<Rightarrow> time \<Rightarrow> token_store \<Rightarrow> pat list" where
  "list_pats_due_expiry_warning now before s =
     filter (\<lambda>p. pt_revokedAt p = None \<and> \<not> pt_warned p \<and>
       (case pt_expiresAt p of None \<Rightarrow> False | Some t \<Rightarrow> now < t \<and> t \<le> before)) (ts_pats s)"

section \<open>Checking a token\<close>

datatype query_outcome = Answered | Query_failed | Row_damaged

datatype verdict =
    Token_valid user pat
  | Token_refused
  | Token_store_unavailable

text \<open>\<open>users\<close> is the look-up of a user by identifier; \<open>None\<close> also stands for a failed read.\<close>

definition check_pat ::
  "(string \<Rightarrow> string) \<Rightarrow> query_outcome \<Rightarrow> (string \<Rightarrow> user option) \<Rightarrow> time \<Rightarrow> string \<Rightarrow> token_store \<Rightarrow> verdict" where
  "check_pat digest outcome users now token s =
     (if token = [] then Token_refused
      else case outcome of
        Query_failed \<Rightarrow> Token_store_unavailable
      | Row_damaged \<Rightarrow> Token_refused
      | Answered \<Rightarrow>
          (case get_pat_by_hash (digest token) s of
             None \<Rightarrow> Token_refused
           | Some p \<Rightarrow>
               (if pt_revokedAt p \<noteq> None then Token_refused
                else if (case pt_expiresAt p of None \<Rightarrow> False | Some e \<Rightarrow> \<not> now < e) then Token_refused
                else case users (pt_userID p) of
                  None \<Rightarrow> Token_refused
                | Some u \<Rightarrow> if u_status u \<noteq> ''approved'' then Token_refused else Token_valid u p)))"

definition authenticate_token ::
  "(string \<Rightarrow> string) \<Rightarrow> query_outcome \<Rightarrow> (string \<Rightarrow> user option) \<Rightarrow> time \<Rightarrow> string \<Rightarrow> token_store \<Rightarrow> verdict \<times> token_store" where
  "authenticate_token digest outcome users now token s =
     (case check_pat digest outcome users now token s of
        Token_valid u p \<Rightarrow> (Token_valid u p, snd (update_pat_used now (pt_id p) s))
      | v \<Rightarrow> (v, s))"

section \<open>Administrators\<close>

text \<open>
  \<open>requireAdmin\<close>: the session of the portal first (the address it stands for, its user's role,
  the configured owner), a token second. The answer is the actor's address and role.
\<close>

definition session_role :: "string \<Rightarrow> (string \<Rightarrow> user option) \<Rightarrow> string \<Rightarrow> string" where
  "session_role owner by_email email =
     (if owner \<noteq> [] \<and> equal_fold email owner then ''owner''
      else case by_email email of None \<Rightarrow> [] | Some u \<Rightarrow> u_role u)"

definition bearer_or_query :: "string \<Rightarrow> string \<Rightarrow> string" where
  "bearer_or_query authorization query =
     (if has_prefix (to_lower authorization) ''bearer '' then drop 7 authorization else query)"

definition require_admin ::
  "string \<Rightarrow> (string \<Rightarrow> user option) \<Rightarrow> string option \<Rightarrow> (string \<Rightarrow> verdict) \<Rightarrow> string \<Rightarrow> string \<Rightarrow> (string \<times> string) option" where
  "require_admin owner by_email session check authorization query =
     (case session of
        Some email \<Rightarrow>
          (let role = session_role owner by_email email
           in if role = ''admin'' \<or> role = ''owner'' then Some (email, role)
              else (let token = bearer_or_query authorization query
                    in if has_prefix token ''lfr_pat_'' then
                         (case check token of
                            Token_valid u p \<Rightarrow> (if u_role u = ''admin'' \<or> u_role u = ''owner'' then Some (u_email u, u_role u) else None)
                          | _ \<Rightarrow> None)
                       else None))
      | None \<Rightarrow>
          (let token = bearer_or_query authorization query
           in if has_prefix token ''lfr_pat_'' then
                (case check token of
                   Token_valid u p \<Rightarrow> (if u_role u = ''admin'' \<or> u_role u = ''owner'' then Some (u_email u, u_role u) else None)
                 | _ \<Rightarrow> None)
              else None))"

definition is_owner :: "string \<Rightarrow> (string \<Rightarrow> user option) \<Rightarrow> string \<Rightarrow> bool" where
  "is_owner owner by_email actor \<longleftrightarrow>
     owner \<noteq> [] \<and> equal_fold actor owner \<or>
     (case by_email actor of None \<Rightarrow> False | Some u \<Rightarrow> u_role u = ''owner'')"

section \<open>Creating, revoking, extending\<close>

datatype token_error =
    Invalid_request | Not_found | Internal_error | Conflict | Already_expired | Permanence_refused

definition permanence_state_for :: "bool \<Rightarrow> string" where
  "permanence_state_for requested = (if requested then permanence_pending else [])"

text \<open>A name on ASCII text: trimmed, at most a hundred characters, none of them a control.\<close>

definition validate_token_name :: "string \<Rightarrow> string option" where
  "validate_token_name raw =
     (let name = trim_space raw
      in if name = [] \<or> 100 < length name \<or> list_ex (\<lambda>c. (of_char c :: nat) < 32 \<or> (of_char c :: nat) = 127) name
         then None else Some name)"

text \<open>
  \<open>generateSecureToken\<close>: the lower-case hexadecimal digits of random bytes. The bytes are an
  input, absent when the source of randomness fails.
\<close>

definition hex_digit :: "nat \<Rightarrow> char" where
  "hex_digit n = (if n < 10 then digit n else char_of (87 + n))"

definition hex_encode :: "nat list \<Rightarrow> string" where
  "hex_encode bs = concat (map (\<lambda>b. [hex_digit (b div 16 mod 16), hex_digit (b mod 16)]) bs)"

definition generate_secure_token :: "nat list option \<Rightarrow> string option" where
  "generate_secure_token = map_option hex_encode"

definition handle_create_token ::
  "(string \<Rightarrow> string) \<Rightarrow> string \<Rightarrow> nat list option \<Rightarrow> time \<Rightarrow> user \<Rightarrow> string \<Rightarrow> int \<Rightarrow> token_store
   \<Rightarrow> (token_error + string) \<times> token_store" where
  "handle_create_token digest policy random now u rawName days s =
     (case validate_token_name rawName of
        None \<Rightarrow> (Inl Invalid_request, s)
      | Some name \<Rightarrow>
          (case resolve_pat_expiry policy days now of
             Inl _ \<Rightarrow> (Inl Permanence_refused, s)
           | Inr (e, requested) \<Rightarrow>
               (case generate_secure_token random of
                  None \<Rightarrow> (Inl Internal_error, s)
                | Some r \<Rightarrow>
                    (case create_pat \<lparr>pt_id = 0, pt_userID = u_id u, pt_tokenHash = digest r, pt_tokenPrefix = take 12 r,
                        pt_name = name, pt_expiresAt = e, pt_revokedAt = None, pt_lastUsedAt = None,
                        pt_createdAt = now, pt_permanenceState = permanence_state_for requested, pt_warned = False\<rparr> s of
                       None \<Rightarrow> (Inl Internal_error, s)
                     | Some s' \<Rightarrow> (Inr r, s')))))"

text \<open>The token minted when a registration is approved: marked as a credential, and without expiry.\<close>

definition mint_claim_token ::
  "(string \<Rightarrow> string) \<Rightarrow> nat list option \<Rightarrow> time \<Rightarrow> string \<Rightarrow> token_store \<Rightarrow> (string \<times> token_store) option" where
  "mint_claim_token digest random now uid s =
     (case random of
        None \<Rightarrow> None
      | Some bytes \<Rightarrow>
          (let pat = ''lfr_pat_'' @ hex_encode bytes
           in map_option (Pair pat)
                (create_pat \<lparr>pt_id = 0, pt_userID = uid, pt_tokenHash = digest pat, pt_tokenPrefix = take 12 pat,
                   pt_name = ''Default CLI Token'', pt_expiresAt = None, pt_revokedAt = None, pt_lastUsedAt = None,
                   pt_createdAt = now, pt_permanenceState = [], pt_warned = False\<rparr> s)))"

text \<open>The holder's revocation of a token of their own; an administrator may revoke any.\<close>

definition handle_delete_token :: "time \<Rightarrow> user \<Rightarrow> int \<Rightarrow> token_store \<Rightarrow> (token_error + unit) \<times> token_store" where
  "handle_delete_token now u i s =
     (if u_role u = ''admin'' \<or> u_role u = ''owner'' \<or> list_ex (\<lambda>p. pt_id p = i) (list_pats (u_id u) s)
      then (case revoke_pat now i s of (ok, s') \<Rightarrow> if ok then (Inr (), s') else (Inl Internal_error, s'))
      else (Inl Not_found, s))"

text \<open>An administrator's revocation, which succeeds where there is nothing to revoke.\<close>

definition admin_delete_token :: "time \<Rightarrow> int \<Rightarrow> token_store \<Rightarrow> token_store" where
  "admin_delete_token now i s = snd (revoke_pat now i s)"

definition owned_token :: "user \<Rightarrow> string \<Rightarrow> token_store \<Rightarrow> token_error + pat" where
  "owned_token u tokenID s =
     (case parse_int tokenID of
        None \<Rightarrow> Inl Invalid_request
      | Some i \<Rightarrow>
          (case get_pat_by_id i s of
             None \<Rightarrow> Inl Not_found
           | Some p \<Rightarrow> (if pt_userID p \<noteq> u_id u then Inl Not_found else if pt_revokedAt p \<noteq> None then Inl Not_found else Inr p)))"

definition request_token_permanence ::
  "string \<Rightarrow> time \<Rightarrow> user \<Rightarrow> string \<Rightarrow> token_store \<Rightarrow> (token_error + pat) \<times> token_store" where
  "request_token_permanence policy now u tokenID s =
     (if \<not> policy_requires_approval policy then (Inl Permanence_refused, s)
      else case owned_token u tokenID s of
        Inl e \<Rightarrow> (Inl e, s)
      | Inr p \<Rightarrow>
          (case pt_expiresAt p of
             None \<Rightarrow> (Inr p, s)
           | Some e \<Rightarrow>
               (if e < now then (Inl Already_expired, s)
                else if pt_permanenceState p = permanence_pending then (Inr p, s)
                else (Inr (p\<lparr>pt_permanenceState := permanence_pending\<rparr>),
                      snd (set_pat_permanence_state (pt_id p) permanence_pending s)))))"

text \<open>
  The decision of an administrator. The state is moved by compare-and-set, so of two decisions one
  wins; the write that lifts the expiry can fail (\<open>write_ok\<close>), and then the request is pending again.
\<close>

definition admin_decide_token_permanence ::
  "string \<Rightarrow> bool \<Rightarrow> time \<Rightarrow> string \<Rightarrow> bool \<Rightarrow> token_store \<Rightarrow> (token_error + pat) \<times> token_store" where
  "admin_decide_token_permanence policy write_ok now idStr grant s =
     (case parse_int idStr of
        None \<Rightarrow> (Inl Invalid_request, s)
      | Some i \<Rightarrow>
          (if grant \<and> \<not> permanence_grant_allowed policy then (Inl Permanence_refused, s)
           else case get_pat_by_id i s of
             None \<Rightarrow> (Inl Not_found, s)
           | Some p \<Rightarrow>
               (if pt_permanenceState p \<noteq> permanence_pending then (Inl Conflict, s)
                else if pt_revokedAt p \<noteq> None then (Inl Conflict, s)
                else if grant \<and> (case pt_expiresAt p of None \<Rightarrow> False | Some e \<Rightarrow> e < now) then (Inl Already_expired, s)
                else
                  (let state = (if grant then permanence_granted else permanence_denied)
                   in case transition_pat_permanence_state (pt_id p) permanence_pending state s of
                        (False, s1) \<Rightarrow> (Inl Conflict, s1)
                      | (True, s1) \<Rightarrow>
                          (if \<not> grant then (Inr (p\<lparr>pt_permanenceState := state\<rparr>), s1)
                           else if write_ok then
                             (Inr (p\<lparr>pt_expiresAt := None, pt_permanenceState := state\<rparr>), snd (update_pat_expiry (pt_id p) None s1))
                           else (Inl Internal_error, snd (set_pat_permanence_state (pt_id p) permanence_pending s1)))))))"

definition resolve_permanence_after_admin_grant :: "int \<Rightarrow> token_store \<Rightarrow> pat option \<times> token_store" where
  "resolve_permanence_after_admin_grant i s =
     (case get_pat_by_id i s of
        None \<Rightarrow> (None, s)
      | Some p \<Rightarrow>
          (if pt_expiresAt p \<noteq> None then (None, s)
           else if pt_permanenceState p = permanence_pending then
             (case transition_pat_permanence_state i permanence_pending permanence_granted s of
                (False, _) \<Rightarrow> (None, s)
              | (True, s1) \<Rightarrow> (Some (p\<lparr>pt_permanenceState := permanence_granted\<rparr>), s1))
           else if pt_permanenceState p = permanence_denied then
             (Some (p\<lparr>pt_permanenceState := permanence_granted\<rparr>), snd (set_pat_permanence_state i permanence_granted s))
           else (None, s)))"

definition admin_extend_token :: "string \<Rightarrow> time \<Rightarrow> int \<Rightarrow> int \<Rightarrow> token_store \<Rightarrow> (token_error + pat option) \<times> token_store" where
  "admin_extend_token policy now i days s =
     (case resolve_admin_granted_expiry policy days now of
        Inl _ \<Rightarrow> (Inl Permanence_refused, s)
      | Inr e \<Rightarrow>
          (case update_pat_expiry i e s of
             (False, _) \<Rightarrow> (Inl Not_found, s)
           | (True, s1) \<Rightarrow> (case resolve_permanence_after_admin_grant i s1 of (told, s2) \<Rightarrow> (Inr told, s2))))"

section \<open>The expiry warning\<close>

definition token_expiry_warning_days :: "int \<Rightarrow> int" where
  "token_expiry_warning_days configured = (if configured \<le> 0 then 7 else configured)"

text \<open>
  One token of the sweep: the holder must be approved and the mail must be accepted (\<open>sent\<close>); the
  row is marked only while its expiry is still the one the mail told. \<open>between\<close> is whatever else
  happened to the table while the mail went out.
\<close>

definition warn_of_expiry ::
  "(string \<Rightarrow> user option) \<Rightarrow> (pat \<Rightarrow> bool) \<Rightarrow> (token_store \<Rightarrow> token_store) \<Rightarrow> pat \<Rightarrow> (pat list \<times> token_store) \<Rightarrow> pat list \<times> token_store" where
  "warn_of_expiry users sent between p st =
     (case users (pt_userID p) of
        None \<Rightarrow> st
      | Some u \<Rightarrow>
          (if u_status u \<noteq> ''approved'' \<or> \<not> sent p then st
           else
             (let s1 = between (snd st)
              in case get_pat_by_id (pt_id p) s1 of
                   None \<Rightarrow> (fst st @ [p], s1)
                 | Some c \<Rightarrow>
                     (if pt_expiresAt c = None \<or> pt_expiresAt c \<noteq> pt_expiresAt p then (fst st @ [p], s1)
                      else (fst st @ [p], snd (mark_pat_expiry_warned (pt_id p) s1))))))"

definition check_expiring_tokens ::
  "(string \<Rightarrow> user option) \<Rightarrow> (pat \<Rightarrow> bool) \<Rightarrow> (token_store \<Rightarrow> token_store) \<Rightarrow> int \<Rightarrow> time \<Rightarrow> token_store \<Rightarrow> pat list \<times> token_store" where
  "check_expiring_tokens users sent between warningDays now s =
     fold (warn_of_expiry users sent between)
       (list_pats_due_expiry_warning now (add_days now (token_expiry_warning_days warningDays)) s) ([], s)"

section \<open>Histories\<close>

text \<open>Every operation the server makes on the table, and a history of them.\<close>

datatype token_op =
    Use query_outcome time string
  | Create_token string "nat list option" time user string int
  | Mint "nat list option" time string
  | Revoke time user int
  | Admin_revoke time int
  | Request string time user string
  | Decide string bool time string bool
  | Extend string time int int
  | Prune time int
  | Warn "pat \<Rightarrow> bool" int time

fun token_step :: "(string \<Rightarrow> string) \<Rightarrow> (string \<Rightarrow> user option) \<Rightarrow> token_op \<Rightarrow> token_store \<Rightarrow> token_store" where
  "token_step digest users (Use outcome now token) s = snd (authenticate_token digest outcome users now token s)"
| "token_step digest users (Create_token policy random now u name days) s =
     snd (handle_create_token digest policy random now u name days s)"
| "token_step digest users (Mint random now uid) s =
     (case mint_claim_token digest random now uid s of None \<Rightarrow> s | Some (_, s') \<Rightarrow> s')"
| "token_step digest users (Revoke now u i) s = snd (handle_delete_token now u i s)"
| "token_step digest users (Admin_revoke now i) s = admin_delete_token now i s"
| "token_step digest users (Request policy now u i) s = snd (request_token_permanence policy now u i s)"
| "token_step digest users (Decide policy ok now i grant) s = snd (admin_decide_token_permanence policy ok now i grant s)"
| "token_step digest users (Extend policy now i days) s = snd (admin_extend_token policy now i days s)"
| "token_step digest users (Prune now days) s = prune_expired_or_revoked_pats now days s"
| "token_step digest users (Warn sent days now) s = snd (check_expiring_tokens users sent (\<lambda>s. s) days now s)"

definition token_run :: "(string \<Rightarrow> string) \<Rightarrow> (string \<Rightarrow> user option) \<Rightarrow> token_op list \<Rightarrow> token_store \<Rightarrow> token_store" where
  "token_run digest users ops s = fold (token_step digest users) ops s"

end
