(* ===== verification/Tokens_Facts.thy ===== *)
theory Tokens_Facts
  imports Tokens
begin

text \<open>
  What the token table promises: which tokens authenticate, that a revoked one never does again,
  that pruning is invisible, where a token without expiry can come from, and that a request for
  permanence is decided once and an expiry told once.
\<close>

section \<open>Rows under updates\<close>

text \<open>
  Every operation but the two that insert maps a part of the table row by row. \<open>row_step permanent\<close>
  is what such a map keeps: identity, digest and holder, a revocation, and, unless permanence may be
  granted, an expiry.
\<close>

definition row_step :: "bool \<Rightarrow> pat \<Rightarrow> pat \<Rightarrow> bool" where
  "row_step permanent p q \<longleftrightarrow>
     pt_id q = pt_id p \<and> pt_tokenHash q = pt_tokenHash p \<and> pt_userID q = pt_userID p \<and>
     (pt_revokedAt p \<noteq> None \<longrightarrow> pt_revokedAt q \<noteq> None) \<and>
     (\<not> permanent \<longrightarrow> pt_expiresAt p \<noteq> None \<longrightarrow> pt_expiresAt q \<noteq> None)"

lemma row_step_refl [simp, intro]: "row_step b p p"
  by (simp add: row_step_def)

lemma row_step_trans: "row_step b p q \<Longrightarrow> row_step b q r \<Longrightarrow> row_step b p r"
  by (auto simp: row_step_def)

definition edited :: "bool \<Rightarrow> token_store \<Rightarrow> token_store \<Rightarrow> bool" where
  "edited b s s' \<longleftrightarrow> (\<exists>g P. ts_pats s' = map g (filter P (ts_pats s)) \<and> (\<forall>p. row_step b p (g p))) \<and>
     ts_nextID s' = ts_nextID s"

lemma edited_refl [simp, intro]: "edited b s s"
  unfolding edited_def by (rule conjI, rule exI [of _ id], rule exI [of _ "\<lambda>_. True"]) simp_all

lemma edited_trans:
  assumes "edited b s t" "edited b t u"
  shows "edited b s u"
proof -
  obtain g P h Q where t: "ts_pats t = map g (filter P (ts_pats s))" and g: "\<forall>p. row_step b p (g p)"
    and u: "ts_pats u = map h (filter Q (ts_pats t))" and h: "\<forall>p. row_step b p (h p)"
    using assms by (auto simp: edited_def)
  have "ts_pats u = map (h \<circ> g) (filter (\<lambda>p. P p \<and> Q (g p)) (ts_pats s))"
    by (simp add: t u filter_map comp_def)
  moreover have "\<forall>p. row_step b p ((h \<circ> g) p)" using g h row_step_trans by fastforce
  ultimately show ?thesis using assms by (auto simp: edited_def)
qed

lemma edited_update:
  assumes "\<And>p. row_step b p (f p)"
  shows "edited b s (snd (update_where P f s))"
  unfolding edited_def update_where_def
  by (rule conjI, rule exI [of _ "\<lambda>p. if P p then f p else p"], rule exI [of _ "\<lambda>_. True"]) (auto simp: assms)

lemma edited_filter: "edited b s (s\<lparr>ts_pats := filter P (ts_pats s)\<rparr>)"
  unfolding edited_def by (rule conjI, rule exI [of _ id], rule exI [of _ P]) simp_all

lemma edited_updates [simp, intro]:
  "edited b s (snd (revoke_pat now i s))"
  "edited b s (snd (update_pat_used now i s))"
  "b \<or> e \<noteq> None \<Longrightarrow> edited b s (snd (update_pat_expiry i e s))"
  "edited b s (snd (transition_pat_permanence_state i old new s))"
  "edited b s (snd (set_pat_permanence_state i st s))"
  "edited b s (snd (mark_pat_expiry_warned i s))"
  by (auto simp: revoke_pat_def update_pat_used_def update_pat_expiry_def transition_pat_permanence_state_def
      set_pat_permanence_state_def mark_pat_expiry_warned_def row_step_def intro!: edited_update)

lemma edited_results:
  "revoke_pat now i s = (r, s') \<Longrightarrow> edited b s s'"
  "transition_pat_permanence_state i old new s = (r, s') \<Longrightarrow> edited b s s'"
  "update_pat_expiry i e s = (r, s') \<Longrightarrow> b \<or> e \<noteq> None \<Longrightarrow> edited b s s'"
  using edited_updates(1) [of b s now i] edited_updates(3) [of b e s i] edited_updates(4) [of b s i old new]
  by simp_all

lemma edited_prune [simp, intro]: "edited b s (prune_expired_or_revoked_pats now d s)"
  by (simp add: prune_expired_or_revoked_pats_def edited_filter)

lemma edited_authenticate [simp, intro]: "edited b s (snd (authenticate_token digest out users now token s))"
  by (auto simp: authenticate_token_def split: verdict.splits)

lemma edited_revoke [simp, intro]: "edited b s (snd (handle_delete_token now u i s))"
  by (auto simp: handle_delete_token_def split: prod.splits bool.splits dest: edited_results(1) [where b = b])

lemma edited_request [simp, intro]: "edited b s (snd (request_token_permanence policy now u i s))"
  by (auto simp: request_token_permanence_def split: sum.splits option.splits)

lemma edited_decide:
  "edited (policy_available policy) s (snd (admin_decide_token_permanence policy ok now i grant s))"
proof (cases "policy_available policy")
  case True
  have *: "edited True s (snd (update_pat_expiry j None s1))" "edited True s (snd (set_pat_permanence_state j st s1))"
    if "transition_pat_permanence_state k old new s = (r, s1)" for j k old new r s1 st
    using edited_trans [OF edited_results(2) [OF that]] by simp_all
  show ?thesis unfolding True
    by (auto simp: admin_decide_token_permanence_def permanence_grant_allowed_def Let_def * edited_results(2)
        split: option.splits prod.splits bool.splits)
next
  case False
  then show ?thesis
    by (auto simp: admin_decide_token_permanence_def permanence_grant_allowed_def Let_def edited_results(2)
        split: option.splits prod.splits bool.splits)
qed

lemma edited_resolve: "edited b s (snd (resolve_permanence_after_admin_grant i s))"
  by (auto simp: resolve_permanence_after_admin_grant_def split: option.splits prod.splits bool.splits
      dest: edited_results(2) [where b = b])

lemma edited_extend: "edited (policy_available policy) s (snd (admin_extend_token policy now i days s))"
proof -
  have "edited (policy_available policy) s s2"
    if "resolve_admin_granted_expiry policy days now = Inr e" "update_pat_expiry i e s = (r, s1)"
      "resolve_permanence_after_admin_grant i s1 = (told, s2)" for e r s1 told s2
  proof -
    have "edited (policy_available policy) s s1" using that(1)
      by (auto intro!: edited_results(3) [OF that(2)]
          simp: resolve_admin_granted_expiry_def permanence_grant_allowed_def split: if_splits)
    then show ?thesis using edited_trans edited_resolve [of "policy_available policy" s1 i] that(3) by fastforce
  qed
  then show ?thesis by (auto simp: admin_extend_token_def split: sum.splits prod.splits bool.splits)
qed

lemma edited_warn: "edited b s (snd st) \<Longrightarrow> edited b s (snd (warn_of_expiry users sent (\<lambda>s. s) p st))"
  by (auto simp: warn_of_expiry_def Let_def intro: edited_trans split: option.splits)

lemma edited_sweep [simp, intro]: "edited b s (snd (check_expiring_tokens users sent (\<lambda>s. s) d now s))"
proof -
  have "edited b s (snd (fold (warn_of_expiry users sent (\<lambda>s. s)) ps st))" if "edited b s (snd st)" for ps st
    using that by (induction ps arbitrary: st) (simp_all add: edited_warn)
  then show ?thesis by (simp add: check_expiring_tokens_def)
qed

section \<open>The table stays well formed\<close>

text \<open>Identifiers and digests are unique, and the next identifier is fresh.\<close>

definition store_ok :: "token_store \<Rightarrow> bool" where
  "store_ok s \<longleftrightarrow> distinct (map pt_id (ts_pats s)) \<and> distinct (map pt_tokenHash (ts_pats s)) \<and>
     (\<forall>p\<in>set (ts_pats s). pt_id p < ts_nextID s)"

lemma edited_row:
  assumes "edited b s s'" "q \<in> set (ts_pats s')"
  obtains p where "p \<in> set (ts_pats s)" "row_step b p q"
  using assms by (auto simp: edited_def)

lemma edited_columns:
  assumes "edited b s s'"
  obtains P where "map pt_id (ts_pats s') = map pt_id (filter P (ts_pats s))"
    "map pt_tokenHash (ts_pats s') = map pt_tokenHash (filter P (ts_pats s))"
  using assms by (auto simp: edited_def row_step_def comp_def)

lemma edited_ok: "edited b s s' \<Longrightarrow> store_ok s \<Longrightarrow> store_ok s'"
  by (rule edited_columns [of b s s'], assumption)
    (fastforce simp: store_ok_def distinct_map_filter row_step_def edited_def elim: edited_row)

lemma get_pat_by_hash_None: "get_pat_by_hash h s = None \<longleftrightarrow> h \<notin> pt_tokenHash ` set (ts_pats s)"
  by (auto simp: get_pat_by_hash_def find_None_iff)

lemma find_snoc: "List.find P (xs @ [x]) = (case List.find P xs of None \<Rightarrow> if P x then Some x else None | Some y \<Rightarrow> Some y)"
  by (induction xs) simp_all

lemma create_pat_cases:
  assumes "create_pat p s = Some s'"
  shows "ts_pats s' = ts_pats s @ [p\<lparr>pt_id := ts_nextID s, pt_warned := False\<rparr>]" "ts_nextID s' = ts_nextID s + 1"
    "pt_tokenHash p \<notin> pt_tokenHash ` set (ts_pats s)"
  using assms by (auto simp: create_pat_def get_pat_by_hash_None split: if_splits)

lemma create_pat_ok: "create_pat p s = Some s' \<Longrightarrow> store_ok s \<Longrightarrow> store_ok s'"
  using create_pat_cases [of p s s'] by (fastforce simp: store_ok_def)

text \<open>One operation either edits rows or appends one.\<close>

fun grants_permanence :: "token_op \<Rightarrow> bool" where
  "grants_permanence (Create_token policy random now u name days) = policy_available policy"
| "grants_permanence (Mint random now uid) = True"
| "grants_permanence (Decide policy ok now i grant) = policy_available policy"
| "grants_permanence (Extend policy now i days) = policy_available policy"
| "grants_permanence _ = False"

fun fresh_digest :: "(string \<Rightarrow> string) \<Rightarrow> token_op \<Rightarrow> string option" where
  "fresh_digest digest (Create_token policy random now u name days) = map_option (\<lambda>bs. digest (hex_encode bs)) random"
| "fresh_digest digest (Mint random now uid) = map_option (\<lambda>bs. digest (''lfr_pat_'' @ hex_encode bs)) random"
| "fresh_digest digest _ = None"

lemma grants_available: "policy_grants_immediately p \<Longrightarrow> policy_available p"
  by (simp add: policy_grants_immediately_def policy_available_def)

lemma handle_create_token_cases:
  assumes "handle_create_token digest policy random now u name days s = (res, s')"
  obtains (kept) "s' = s" "\<exists>e. res = Inl e"
  | (created) bs p where "random = Some bs" "res = Inr (hex_encode bs)" "create_pat p s = Some s'"
      "pt_tokenHash p = digest (hex_encode bs)" "pt_userID p = u_id u" "pt_revokedAt p = None"
      "\<exists>r. resolve_pat_expiry policy days now = Inr (pt_expiresAt p, r)"
  using assms by (auto simp: handle_create_token_def generate_secure_token_def split: option.splits sum.splits)

lemma resolve_pat_expiry_never: "resolve_pat_expiry policy days now = Inr (None, r) \<Longrightarrow> policy_available policy"
  by (auto simp: resolve_pat_expiry_def grants_available split: if_splits)

lemma token_step_cases:
  obtains (edit) "edited (grants_permanence op) s (token_step digest users op s)"
  | (insert) p where "create_pat p s = Some (token_step digest users op s)" "fresh_digest digest op = Some (pt_tokenHash p)"
      "\<not> grants_permanence op \<Longrightarrow> pt_expiresAt p \<noteq> None"
proof (cases op)
  case (Create_token policy random now u name days)
  obtain res s' where eq: "handle_create_token digest policy random now u name days s = (res, s')" by fastforce
  from eq show ?thesis
  proof (cases rule: handle_create_token_cases)
    case kept
    then show ?thesis using eq Create_token by (intro edit) simp
  next
    case (created bs p)
    have "pt_expiresAt p \<noteq> None" if "\<not> grants_permanence op"
      using that created(7) Create_token resolve_pat_expiry_never by fastforce
    then show ?thesis using created eq Create_token by (intro insert [of p]) simp_all
  qed
next
  case (Mint random now uid)
  show ?thesis
  proof (cases "mint_claim_token digest random now uid s")
    case None
    then show ?thesis using Mint by (intro edit) simp
  next
    case (Some r)
    then obtain p where "create_pat p s = Some (snd r)" "fresh_digest digest op = Some (pt_tokenHash p)"
      using Mint by (fastforce simp: mint_claim_token_def Let_def split: option.splits)
    then show ?thesis using Some Mint by (intro insert [of p]) (auto split: prod.splits)
  qed
qed (auto intro!: edit edited_decide edited_extend simp: admin_delete_token_def)

text \<open>Whatever the server does to the token table, over any history and any mixture of holders and
  administrators, identifiers stay unique and fresh and no two tokens share a digest: a credential
  names one row, so a token has one holder, one expiry and one revocation.\<close>

theorem token_table_well_formed:
  assumes "store_ok s"
  shows "store_ok (token_run digest users ops s)"
  using assms
proof (induction ops arbitrary: s)
  case Nil
  then show ?case by (simp add: token_run_def)
next
  case (Cons op ops)
  have "store_ok (token_step digest users op s)"
    by (cases rule: token_step_cases [of op s digest users]) (use Cons.prems edited_ok create_pat_ok in blast)+
  then show ?case using Cons.IH by (simp add: token_run_def)
qed

definition ex_store :: token_store where
  "ex_store = \<lparr>ts_pats = [\<lparr>pt_id = 1, pt_userID = ''u1'', pt_tokenHash = ''h1'', pt_tokenPrefix = [], pt_name = ''ci'',
       pt_expiresAt = Some (9 * 24 * hour), pt_revokedAt = None, pt_lastUsedAt = None, pt_createdAt = 0,
       pt_permanenceState = permanence_pending, pt_warned = False\<rparr>,
     \<lparr>pt_id = 2, pt_userID = ''u1'', pt_tokenHash = ''h2'', pt_tokenPrefix = [], pt_name = ''old'',
       pt_expiresAt = Some (9 * 24 * hour), pt_revokedAt = Some 5, pt_lastUsedAt = None, pt_createdAt = 0,
       pt_permanenceState = [], pt_warned = False\<rparr>], ts_nextID = 3\<rparr>"

definition ex_digest :: "string \<Rightarrow> string" where
  "ex_digest token = CHR ''h'' # token"

definition ex_users :: "string \<Rightarrow> user option" where
  "ex_users i = (if i = ''u1'' then Some (ex_user ''u1'' ''user'') else None)"

lemma ex_store_ok: "store_ok ex_store"
  by (simp add: store_ok_def ex_store_def)

theorem token_table_well_formed_witness:
  "store_ok (token_run ex_digest ex_users
     [Create_token ''disabled'' (Some [1, 2]) 7 (ex_user ''u1'' ''user'') ''ci'' 3, Admin_revoke 8 1, Prune 9 0] ex_store)"
  by (rule token_table_well_formed [OF ex_store_ok])

section \<open>Who is authenticated\<close>

lemma get_pat_by_hash_iff:
  "store_ok s \<Longrightarrow> get_pat_by_hash h s = Some p \<longleftrightarrow> p \<in> set (ts_pats s) \<and> pt_tokenHash p = h"
proof (cases s)
  case (fields rows n)
  have "distinct (map pt_tokenHash rows) \<Longrightarrow>
      List.find (\<lambda>p. pt_tokenHash p = h) rows = Some p \<longleftrightarrow> p \<in> set rows \<and> pt_tokenHash p = h" for rows
    by (induction rows) (auto simp: image_iff)
  then show "store_ok s \<Longrightarrow> ?thesis" by (simp add: fields store_ok_def get_pat_by_hash_def)
qed

lemma check_pat_valid:
  "check_pat digest out users now token s = Token_valid u p \<longleftrightarrow>
     token \<noteq> [] \<and> out = Answered \<and> get_pat_by_hash (digest token) s = Some p \<and> pt_revokedAt p = None \<and>
     (case pt_expiresAt p of None \<Rightarrow> True | Some e \<Rightarrow> now < e) \<and>
     users (pt_userID p) = Some u \<and> u_status u = ''approved''"
  by (auto simp: check_pat_def split: query_outcome.splits option.splits if_splits)

text \<open>C11: A presented token is accepted exactly when it is not empty, the table was read, it has a row with
  its digest, the row is neither revoked nor expired, and its holder exists and is approved; the
  caller is told to try again later exactly when the read failed.\<close>

theorem token_check_exact:
  assumes "store_ok s"
  shows "(check_pat digest out users now token s = Token_valid u p \<longleftrightarrow>
      token \<noteq> [] \<and> out = Answered \<and> p \<in> set (ts_pats s) \<and> pt_tokenHash p = digest token \<and>
      pt_revokedAt p = None \<and> (case pt_expiresAt p of None \<Rightarrow> True | Some e \<Rightarrow> now < e) \<and>
      users (pt_userID p) = Some u \<and> u_status u = ''approved'') \<and>
    (check_pat digest out users now token s = Token_store_unavailable \<longleftrightarrow> token \<noteq> [] \<and> out = Query_failed)"
proof
  show "check_pat digest out users now token s = Token_valid u p \<longleftrightarrow>
      token \<noteq> [] \<and> out = Answered \<and> p \<in> set (ts_pats s) \<and> pt_tokenHash p = digest token \<and>
      pt_revokedAt p = None \<and> (case pt_expiresAt p of None \<Rightarrow> True | Some e \<Rightarrow> now < e) \<and>
      users (pt_userID p) = Some u \<and> u_status u = ''approved''"
    by (auto simp: check_pat_valid get_pat_by_hash_iff [OF assms])
  show "check_pat digest out users now token s = Token_store_unavailable \<longleftrightarrow> token \<noteq> [] \<and> out = Query_failed"
    by (auto simp: check_pat_def split: query_outcome.splits option.splits)
qed

theorem token_check_exact_witness:
  "check_pat ex_digest Answered ex_users 7 ''1'' ex_store = Token_valid (ex_user ''u1'' ''user'') (hd (ts_pats ex_store)) \<and>
   check_pat ex_digest Query_failed ex_users 7 ''1'' ex_store = Token_store_unavailable"
  using token_check_exact [OF ex_store_ok, of ex_digest Answered ex_users 7 "''1''" "ex_user ''u1'' ''user''"
      "hd (ts_pats ex_store)"] token_check_exact [OF ex_store_ok, of ex_digest Query_failed ex_users 7 "''1''"]
  by (simp add: ex_store_def ex_digest_def ex_users_def ex_user_def hour_def minute_def second_def)

section \<open>Revocation\<close>

definition dead :: "string \<Rightarrow> token_store \<Rightarrow> bool" where
  "dead h s \<longleftrightarrow> (\<forall>q\<in>set (ts_pats s). pt_tokenHash q = h \<longrightarrow> pt_revokedAt q \<noteq> None)"

lemma dead_step:
  assumes "dead h s" "fresh_digest digest op \<noteq> Some h"
  shows "dead h (token_step digest users op s)"
proof (cases rule: token_step_cases [of op s digest users])
  case edit
  then show ?thesis using assms(1) unfolding dead_def
    by (metis edited_row row_step_def)
next
  case (insert p)
  then show ?thesis using assms create_pat_cases [OF insert(1)] by (auto simp: dead_def)
qed

lemma dead_run:
  assumes "dead h s" "\<forall>op\<in>set ops. fresh_digest digest op \<noteq> Some h"
  shows "dead h (token_run digest users ops s)"
  using assms by (induction ops arbitrary: s) (simp_all add: token_run_def dead_step)

lemma dead_not_valid: "dead (digest token) s \<Longrightarrow> check_pat digest out users now token s \<noteq> Token_valid u p"
  by (auto simp: check_pat_valid dead_def get_pat_by_hash_def find_Some_iff)

text \<open>A revoked token never authenticates again: not after any history of uses, extensions, grants of
  permanence, sweeps and prunings, by anyone, at any time. The one escape is a random source that
  hands out the same token twice.\<close>

theorem revoked_token_stays_dead:
  assumes "store_ok s" "p \<in> set (ts_pats s)" "pt_revokedAt p \<noteq> None" "pt_tokenHash p = digest token"
    and "\<forall>op\<in>set ops. fresh_digest digest op \<noteq> Some (digest token)"
  shows "check_pat digest out users now token (token_run digest users ops s) \<noteq> Token_valid u q"
proof -
  have "dead (digest token) s"
    using get_pat_by_hash_iff [OF assms(1)] assms(2-4) by (metis dead_def option.inject)
  then show ?thesis using dead_run assms(5) dead_not_valid by metis
qed

theorem revoked_token_stays_dead_witness:
  "check_pat ex_digest Answered ex_users 9 ''2''
     (token_run ex_digest ex_users [Extend ''allowed'' 7 2 90, Prune 8 30, Use Answered 8 ''2''] ex_store)
   \<noteq> Token_valid (ex_user ''u1'' ''user'') (hd (tl (ts_pats ex_store)))"
  by (rule revoked_token_stays_dead [OF ex_store_ok, of "hd (tl (ts_pats ex_store))"])
    (simp_all add: ex_store_def ex_digest_def)

text \<open>What a revocation writes.\<close>

lemma revoke_pat_row:
  assumes "store_ok s" "p \<in> set (ts_pats s)"
  shows "fst (revoke_pat now (pt_id p) s)" "dead (pt_tokenHash p) (snd (revoke_pat now (pt_id p) s))"
proof -
  show "fst (revoke_pat now (pt_id p) s)"
    using assms(2) by (auto simp: revoke_pat_def update_where_def list_ex_iff)
  have "q = p" if "q \<in> set (ts_pats s)" "pt_tokenHash q = pt_tokenHash p" for q
    using assms that get_pat_by_hash_iff [OF assms(1), of "pt_tokenHash p"] by (metis option.inject)
  then show "dead (pt_tokenHash p) (snd (revoke_pat now (pt_id p) s))"
    by (auto simp: revoke_pat_def update_where_def dead_def)
qed

lemma revoke_pat_others:
  assumes "store_ok s" "p \<in> set (ts_pats s)" "h \<noteq> pt_tokenHash p"
  shows "get_pat_by_hash h (snd (revoke_pat now (pt_id p) s)) = get_pat_by_hash h s"
proof -
  have id: "q = p" if "q \<in> set (ts_pats s)" "pt_id q = pt_id p" for q
    using assms(1,2) that by (meson store_ok_def distinct_map inj_onD)
  have "List.find (\<lambda>q. pt_tokenHash q = h) (map (\<lambda>q. if pt_id q = i then q\<lparr>pt_revokedAt := Some now\<rparr> else q) rows) =
      List.find (\<lambda>q. pt_tokenHash q = h) rows"
    if "\<forall>q\<in>set rows. pt_id q = i \<longrightarrow> pt_tokenHash q \<noteq> h" for rows i
    using that by (induction rows) auto
  then show ?thesis
    using id assms(3) by (fastforce simp: get_pat_by_hash_def revoke_pat_def update_where_def)
qed

text \<open>C38: The request to revoke a token succeeds exactly for its holder and for administrators. Once it
  has, the token authenticates no one: not after any later history of uses, extensions, grants of
  permanence, sweeps and prunings, by anyone, at any time, so long as none of them draws the very
  same token again. A refused request changes nothing, and no request ends another token.\<close>

theorem revocation_is_final:
  assumes "store_ok s" "p \<in> set (ts_pats s)" "pt_tokenHash p = digest token"
    and "\<forall>op\<in>set ops. fresh_digest digest op \<noteq> Some (digest token)"
  shows "let (answer, s') = handle_delete_token now u (pt_id p) s
    in (answer = Inr () \<longleftrightarrow> u_role u = ''admin'' \<or> u_role u = ''owner'' \<or> pt_userID p = u_id u) \<and>
       (answer = Inr () \<longrightarrow> check_pat digest out users' later token (token_run digest users ops s') \<noteq> Token_valid v q) \<and>
       (answer \<noteq> Inr () \<longrightarrow> s' = s) \<and>
       (digest other \<noteq> digest token \<longrightarrow>
          check_pat digest out users' later other s' = check_pat digest out users' later other s)"
proof -
  let ?may = "u_role u = ''admin'' \<or> u_role u = ''owner'' \<or> pt_userID p = u_id u"
  have "q = p" if "q \<in> set (ts_pats s)" "pt_id q = pt_id p" for q
    using assms(1,2) that by (meson store_ok_def distinct_map inj_onD)
  then have own: "list_ex (\<lambda>q. pt_id q = pt_id p) (list_pats (u_id u) s) \<longleftrightarrow> pt_userID p = u_id u"
    using assms(2) by (auto simp: list_ex_iff list_pats_def)
  have run: "handle_delete_token now u (pt_id p) s =
      (if ?may then (Inr (), snd (revoke_pat now (pt_id p) s)) else (Inl Not_found, s))"
    using revoke_pat_row(1) [OF assms(1,2), of now] by (auto simp: handle_delete_token_def own split: prod.split)
  have "dead (digest token) (token_run digest users ops (snd (revoke_pat now (pt_id p) s)))"
    using revoke_pat_row(2) [OF assms(1,2), of now] dead_run assms(3,4) by simp
  moreover have "check_pat digest out users' later other (snd (revoke_pat now (pt_id p) s)) =
      check_pat digest out users' later other s" if "digest other \<noteq> digest token"
    unfolding check_pat_def revoke_pat_others [OF assms(1,2) that [folded assms(3)]] ..
  ultimately show ?thesis by (auto simp: run dead_not_valid)
qed

theorem revocation_is_final_witness:
  "check_pat ex_digest Answered ex_users 7 ''1''
     (token_run ex_digest ex_users [Extend ''allowed'' 7 1 90, Prune 8 30, Use Answered 8 ''1'']
       (snd (handle_delete_token 6 (ex_user ''u1'' ''user'') 1 ex_store)))
   \<noteq> Token_valid (ex_user ''u1'' ''user'') (hd (ts_pats ex_store))"
proof -
  let ?p = "hd (ts_pats ex_store)" and ?u = "ex_user ''u1'' ''user''"
  have row: "?p \<in> set (ts_pats ex_store)" "pt_tokenHash ?p = ex_digest ''1''" "pt_id ?p = 1" "pt_userID ?p = u_id ?u"
    by (simp_all add: ex_store_def ex_digest_def ex_user_def)
  have fresh: "\<forall>op\<in>set [Extend ''allowed'' 7 1 90, Prune 8 30, Use Answered 8 ''1'']. fresh_digest ex_digest op \<noteq> Some (ex_digest ''1'')"
    by simp
  show ?thesis
    using revocation_is_final [OF ex_store_ok row(1,2) fresh, of 6 ?u Answered ex_users 7 ex_users ?u ?p]
    unfolding row(3) row(4) split_def Let_def by blast
qed

section \<open>Pruning\<close>

text \<open>Pruning is invisible to every later check: whatever the retention, a token is answered after the
  sweep of old rows exactly as it would have been answered without it.\<close>

theorem pruning_is_invisible:
  assumes "store_ok s" "swept \<le> now"
  shows "check_pat digest out users now token (prune_expired_or_revoked_pats swept retention s) =
    check_pat digest out users now token s"
proof (cases "retention < 0")
  case True
  then show ?thesis by (simp add: prune_expired_or_revoked_pats_def)
next
  case False
  let ?cut = "add_days swept (- retention)" and ?t = "prune_expired_or_revoked_pats swept retention s"
  have "0 \<le> retention * (24 * hour)" using False less_imp_le [OF hour_positive] by (intro mult_nonneg_nonneg) (simp_all only: not_less)
  then have cut: "?cut \<le> now" using assms(2)
    by (simp only: add_days_def mult_minus_left)
  have ok: "store_ok ?t" using edited_ok [OF edited_prune assms(1)] .
  have rows: "ts_pats ?t = filter (\<lambda>p. \<not> prunable ?cut p) (ts_pats s)"
    using False by (simp add: prune_expired_or_revoked_pats_def)
  have some: "get_pat_by_hash h ?t = Some p \<longleftrightarrow> get_pat_by_hash h s = Some p \<and> \<not> prunable ?cut p" for h p
    using get_pat_by_hash_iff [OF ok] get_pat_by_hash_iff [OF assms(1)] by (auto simp: rows)
  have gone: "get_pat_by_hash h ?t = None \<longleftrightarrow>
      (case get_pat_by_hash h s of None \<Rightarrow> True | Some p \<Rightarrow> prunable ?cut p)" for h
    using some by (metis not_Some_eq option.case_eq_if option.distinct(1) option.sel)
  have refused: "pt_revokedAt p \<noteq> None \<or> (\<exists>e. pt_expiresAt p = Some e \<and> \<not> now < e)" if "prunable ?cut p" for p
    using that cut by (auto simp: prunable_def split: option.splits)
  show ?thesis
  proof (cases "get_pat_by_hash (digest token) ?t")
    case new: None
    show ?thesis
    proof (cases "get_pat_by_hash (digest token) s")
      case old: (Some p)
      then have "prunable ?cut p" using gone new by simp
      then show ?thesis using refused [of p] new old
        by (auto simp: check_pat_def split: query_outcome.splits)
    qed (simp add: check_pat_def new split: query_outcome.splits)
  next
    case (Some p)
    have "get_pat_by_hash (digest token) s = Some p" using some Some by blast
    then show ?thesis by (cases out) (simp_all add: check_pat_def Some)
  qed
qed

theorem pruning_is_invisible_witness:
  "check_pat ex_digest Answered ex_users 9 ''1'' (prune_expired_or_revoked_pats 8 0 ex_store) =
    check_pat ex_digest Answered ex_users 9 ''1'' ex_store"
  by (rule pruning_is_invisible [OF ex_store_ok]) simp

section \<open>Permanence\<close>

lemma permanent_step:
  assumes "\<not> grants_permanence op" "q \<in> set (ts_pats (token_step digest users op s))" "pt_expiresAt q = None"
  obtains p where "p \<in> set (ts_pats s)" "row_step False p q" "pt_expiresAt p = None"
proof (cases rule: token_step_cases [of op s digest users])
  case edit
  then obtain p where "p \<in> set (ts_pats s)" "row_step False p q"
    using assms(1) edited_row [OF edit assms(2)] by (metis)
  then show ?thesis using that [of p] assms(3) by (simp add: row_step_def)
next
  case (insert p)
  then have "q \<in> set (ts_pats s)" using assms create_pat_cases(1) [OF insert(1)] by auto
  then show ?thesis using that [of q] assms(3) by simp
qed

text \<open>Where the operator's policy is \<open>disabled\<close> in every creation, extension and decision, no history
  makes a token without expiry: each such token was one, with the same holder, before it. Only the
  approval of a registration is left out.\<close>

theorem permanent_tokens_need_policy:
  assumes "\<forall>op\<in>set ops. \<not> grants_permanence op"
    and "q \<in> set (ts_pats (token_run digest users ops s))" "pt_expiresAt q = None"
  shows "\<exists>p\<in>set (ts_pats s). pt_id p = pt_id q \<and> pt_userID p = pt_userID q \<and> pt_expiresAt p = None"
  using assms
proof (induction ops arbitrary: s)
  case Nil
  then show ?case by (auto simp: token_run_def)
next
  case (Cons op ops)
  then obtain r where r: "r \<in> set (ts_pats (token_step digest users op s))" "pt_id r = pt_id q"
    "pt_userID r = pt_userID q" "pt_expiresAt r = None"
    by (auto simp: token_run_def)
  obtain p where "p \<in> set (ts_pats s)" "row_step False p r" "pt_expiresAt p = None"
    using permanent_step [OF _ r(1,4)] Cons.prems(1) by auto
  then show ?case using r by (auto simp: row_step_def)
qed

theorem permanent_tokens_need_policy_witness:
  "\<exists>p\<in>set (ts_pats (ex_store\<lparr>ts_pats := [hd (ts_pats ex_store)\<lparr>pt_expiresAt := None\<rparr>]\<rparr>)).
     pt_id p = 1 \<and> pt_userID p = ''u1'' \<and> pt_expiresAt p = None"
  using permanent_tokens_need_policy [of "[Create_token ''disabled'' (Some [1]) 7 (ex_user ''u1'' ''user'') ''ci'' 0, Prune 8 0]"
      "hd (ts_pats ex_store)\<lparr>pt_expiresAt := None\<rparr>" ex_digest ex_users
      "ex_store\<lparr>ts_pats := [hd (ts_pats ex_store)\<lparr>pt_expiresAt := None\<rparr>]\<rparr>"]
  by (simp add: token_run_def ex_store_def policy_available_def policy_resolve_def trim_space_def is_space_def
      to_lower_def lower_char_def handle_create_token_def validate_token_name_def resolve_pat_expiry_def
      policy_grants_immediately_def policy_requires_approval_def prune_expired_or_revoked_pats_def prunable_def)

text \<open>Approving a registration mints a token without expiry whatever the policy: the token authenticates
  its holder at every later time.\<close>

theorem approval_mints_permanent_token:
  assumes "mint_claim_token digest (Some bs) now uid s = Some (pat, s')" "users uid = Some u" "u_status u = ''approved''"
  shows "\<exists>p. pt_expiresAt p = None \<and> check_pat digest Answered users later pat s' = Token_valid u p"
proof -
  obtain r where pat: "pat = ''lfr_pat_'' @ hex_encode bs" and r: "create_pat r s = Some s'"
    and fields: "pt_tokenHash r = digest pat" "pt_expiresAt r = None" "pt_revokedAt r = None" "pt_userID r = uid"
    using assms(1) by (auto simp: mint_claim_token_def Let_def)
  let ?p = "r\<lparr>pt_id := ts_nextID s, pt_warned := False\<rparr>"
  have "get_pat_by_hash (digest pat) s' = Some ?p"
    using create_pat_cases [OF r] fields get_pat_by_hash_None [of "digest pat" s]
    by (simp add: get_pat_by_hash_def find_snoc)
  then show ?thesis using assms(2,3) fields pat by (intro exI [of _ ?p]) (simp add: check_pat_valid)
qed

theorem approval_mints_permanent_token_witness:
  "\<exists>p. pt_expiresAt p = None \<and> check_pat ex_digest Answered ex_users (900 * 24 * hour) ''lfr_pat_01''
     (snd (the (mint_claim_token ex_digest (Some [1]) 7 ''u1'' ex_store))) = Token_valid (ex_user ''u1'' ''user'') p"
proof -
  have "mint_claim_token ex_digest (Some [1]) 7 ''u1'' ex_store =
      Some (''lfr_pat_01'', snd (the (mint_claim_token ex_digest (Some [1]) 7 ''u1'' ex_store)))"
    by (simp add: mint_claim_token_def hex_encode_def hex_digit_def digit_def create_pat_def get_pat_by_hash_def
        ex_store_def ex_digest_def char_of_def bit_0 Let_def)
  then show ?thesis by (rule approval_mints_permanent_token) (simp_all add: ex_users_def ex_user_def)
qed

lemma find_map_id:
  assumes "\<And>p. pt_id (f p) = pt_id p"
  shows "List.find (\<lambda>p. pt_id p = i) (map f xs) = map_option f (List.find (\<lambda>p. pt_id p = i) xs)"
  by (induction xs) (simp_all add: assms)

lemma get_pat_by_id_update:
  assumes "\<And>p. pt_id (f p) = pt_id p"
  shows "get_pat_by_id i (snd (update_where P f s)) = map_option (\<lambda>p. if P p then f p else p) (get_pat_by_id i s)"
  unfolding get_pat_by_id_def update_where_def by (simp add: find_map_id assms)

lemma get_pat_by_id_SomeD: "get_pat_by_id i s = Some p \<Longrightarrow> pt_id p = i \<and> p \<in> set (ts_pats s)"
  by (auto simp: get_pat_by_id_def find_Some_iff)

lemma get_after_transition:
  assumes "transition_pat_permanence_state i old new s = (r, s1)" "get_pat_by_id i s = Some p" "pt_permanenceState p = old"
  shows "get_pat_by_id i s1 = Some (p\<lparr>pt_permanenceState := new\<rparr>)"
  using assms get_pat_by_id_SomeD [OF assms(2)]
    get_pat_by_id_update [of "\<lambda>p. p\<lparr>pt_permanenceState := new\<rparr>" i "\<lambda>p. pt_id p = i \<and> pt_permanenceState p = old" s]
  by (simp add: transition_pat_permanence_state_def)

lemma get_after_expiry:
  "get_pat_by_id i (snd (update_pat_expiry j e s)) =
     map_option (\<lambda>p. if pt_id p = j then p\<lparr>pt_expiresAt := e, pt_warned := False\<rparr> else p) (get_pat_by_id i s)"
  unfolding update_pat_expiry_def by (rule get_pat_by_id_update) simp

lemmas permanence_states = permanence_pending_def permanence_granted_def permanence_denied_def

lemma decided_row:
  assumes "admin_decide_token_permanence policy ok now idStr grant s = (Inr p, s')"
  obtains i c where "parse_int idStr = Some i" "get_pat_by_id i s' = Some c" "pt_permanenceState c \<noteq> permanence_pending"
    "pt_permanenceState p = (if grant then permanence_granted else permanence_denied)"
    "pt_expiresAt c = pt_expiresAt p" "grant \<Longrightarrow> policy_available policy \<and> pt_expiresAt p = None"
proof -
  obtain i q s1 where i: "parse_int idStr = Some i" and q: "get_pat_by_id i s = Some q"
    and pending: "pt_permanenceState q = permanence_pending" and allowed: "grant \<longrightarrow> policy_available policy"
    and t: "transition_pat_permanence_state (pt_id q) permanence_pending (if grant then permanence_granted else permanence_denied) s
        = (True, s1)"
    and res: "p = q\<lparr>pt_expiresAt := if grant then None else pt_expiresAt q,
        pt_permanenceState := if grant then permanence_granted else permanence_denied\<rparr>"
      "s' = (if grant then snd (update_pat_expiry (pt_id q) None s1) else s1)"
    using assms by (auto simp: admin_decide_token_permanence_def permanence_grant_allowed_def Let_def
        split: option.splits if_splits prod.splits bool.splits)
  have id: "pt_id q = i" using get_pat_by_id_SomeD [OF q] by simp
  have s1: "get_pat_by_id i s1 = Some (q\<lparr>pt_permanenceState := if grant then permanence_granted else permanence_denied\<rparr>)"
    using get_after_transition [OF t [unfolded id] q pending] .
  show ?thesis
    using that [OF i] s1 res id allowed by (cases grant) (auto simp: get_after_expiry permanence_states)
qed

text \<open>A request for permanence is decided once: after a decision that was taken, every further decision
  on the token, by whomever, under whatever policy, is refused and changes nothing.\<close>

theorem permanence_decided_once:
  assumes "admin_decide_token_permanence policy ok now idStr grant s = (Inr p, s')"
  shows "\<exists>e. admin_decide_token_permanence policy' ok' now' idStr grant' s' = (Inl e, s') \<and>
    (e = Conflict \<or> e = Permanence_refused)"
  by (rule decided_row [OF assms]) (simp add: admin_decide_token_permanence_def)

theorem permanence_decided_once_witness:
  "\<exists>e. admin_decide_token_permanence ''allowed'' True 8 ''1'' True
      (snd (admin_decide_token_permanence ''approval'' True 7 ''1'' False ex_store)) =
    (Inl e, snd (admin_decide_token_permanence ''approval'' True 7 ''1'' False ex_store)) \<and>
    (e = Conflict \<or> e = Permanence_refused)"
  by (rule permanence_decided_once [of "''approval''" True 7 _ False ex_store "hd (ts_pats ex_store)\<lparr>pt_permanenceState := permanence_denied\<rparr>"])
    (simp add: admin_decide_token_permanence_def ex_store_def parse_int_def get_pat_by_id_def
      transition_pat_permanence_state_def update_where_def digits_val_def has_prefix_def is_digit_def digit_val_def Let_def)

section \<open>The warning of an expiry\<close>

definition unwarned :: "token_store \<Rightarrow> pat list" where
  "unwarned s = map (\<lambda>p. p\<lparr>pt_warned := False\<rparr>) (ts_pats s)"

lemma unwarned_mark: "unwarned (snd (mark_pat_expiry_warned i s)) = unwarned s"
  by (simp add: unwarned_def mark_pat_expiry_warned_def update_where_def)

definition told_marked :: "pat list \<times> token_store \<Rightarrow> bool" where
  "told_marked st \<longleftrightarrow> (\<forall>p\<in>set (fst st). \<forall>q\<in>set (ts_pats (snd st)). pt_id q = pt_id p \<longrightarrow> pt_warned q)"

lemma get_unwarned:
  assumes "unwarned s = unwarned t" "get_pat_by_id i s = Some p"
  obtains q where "get_pat_by_id i t = Some q" "p\<lparr>pt_warned := False\<rparr> = q\<lparr>pt_warned := False\<rparr>"
proof -
  have *: "List.find (\<lambda>p. pt_id p = i) (unwarned u) = map_option (\<lambda>p. p\<lparr>pt_warned := False\<rparr>) (get_pat_by_id i u)" for u
    unfolding unwarned_def get_pat_by_id_def by (rule find_map_id) simp
  show ?thesis using *[of s] *[of t] assms that by auto
qed

lemma warn_marks:
  assumes "told_marked st" "get_pat_by_id (pt_id p) s = Some p" "pt_expiresAt p \<noteq> None" "unwarned (snd st) = unwarned s"
  shows "told_marked (warn_of_expiry users sent (\<lambda>s. s) p st) \<and>
    unwarned (snd (warn_of_expiry users sent (\<lambda>s. s) p st)) = unwarned s"
proof -
  obtain c where c: "get_pat_by_id (pt_id p) (snd st) = Some c" "p\<lparr>pt_warned := False\<rparr> = c\<lparr>pt_warned := False\<rparr>"
    using get_unwarned [OF assms(4) [symmetric] assms(2)] by auto
  have "pt_expiresAt c = pt_expiresAt p" using arg_cong [OF c(2), of pt_expiresAt] by simp
  then have "warn_of_expiry users sent (\<lambda>s. s) p st = st \<or>
      warn_of_expiry users sent (\<lambda>s. s) p st = (fst st @ [p], snd (mark_pat_expiry_warned (pt_id p) (snd st)))"
    using c(1) assms(3) by (auto simp: warn_of_expiry_def Let_def split: option.splits)
  moreover have "told_marked (fst st @ [p], snd (mark_pat_expiry_warned (pt_id p) (snd st)))"
    using assms(1) by (auto simp: told_marked_def mark_pat_expiry_warned_def update_where_def)
  ultimately show ?thesis using assms(1,4) unwarned_mark by (metis snd_conv)
qed

lemma warn_fold:
  assumes "told_marked st" "\<forall>p\<in>set ps. get_pat_by_id (pt_id p) s = Some p \<and> pt_expiresAt p \<noteq> None"
    "unwarned (snd st) = unwarned s"
  shows "told_marked (fold (warn_of_expiry users sent (\<lambda>s. s)) ps st)"
  using assms
proof (induction ps arbitrary: st)
  case (Cons p ps)
  have "get_pat_by_id (pt_id p) s = Some p" "pt_expiresAt p \<noteq> None" using Cons.prems(2) by simp_all
  then show ?case using warn_marks [OF Cons.prems(1) _ _ Cons.prems(3)] Cons by simp
qed simp

lemma warned_of: "set (fst (check_expiring_tokens users sent between d now s)) \<subseteq>
    set (list_pats_due_expiry_warning now (add_days now (token_expiry_warning_days d)) s)"
proof -
  have "set (fst (fold (warn_of_expiry users sent between) ps st)) \<subseteq> set (fst st) \<union> set ps" for ps st
  proof (induction ps arbitrary: st)
    case (Cons p ps)
    have "set (fst (warn_of_expiry users sent between p st)) \<subseteq> insert p (set (fst st))"
      by (auto simp: warn_of_expiry_def Let_def split: option.splits)
    then show ?case using Cons.IH [of "warn_of_expiry users sent between p st"] by auto
  qed simp
  from this [of _ "([], s)"] show ?thesis by (simp add: check_expiring_tokens_def)
qed

lemma get_pat_by_id_row: "store_ok s \<Longrightarrow> p \<in> set (ts_pats s) \<Longrightarrow> get_pat_by_id (pt_id p) s = Some p"
proof (cases s)
  case (fields rows n)
  have "distinct (map pt_id rows) \<Longrightarrow> p \<in> set rows \<Longrightarrow> List.find (\<lambda>q. pt_id q = pt_id p) rows = Some p" for rows
    by (induction rows) (auto simp: image_iff)
  then show "store_ok s \<Longrightarrow> p \<in> set (ts_pats s) \<Longrightarrow> ?thesis" by (simp add: fields store_ok_def get_pat_by_id_def)
qed

text \<open>A holder is warned of an expiry once: whatever the mail system and the clock do, a second sweep
  tells no token the first has told, as long as nobody extends it between the two.\<close>

theorem expiry_warning_not_repeated:
  assumes "store_ok s" "check_expiring_tokens users sent (\<lambda>s. s) d now s = (told, s1)"
    "check_expiring_tokens users' sent' between' d' now' s1 = (told', s2)"
  shows "pt_id ` set told \<inter> pt_id ` set told' = {}"
proof -
  let ?due = "list_pats_due_expiry_warning now (add_days now (token_expiry_warning_days d)) s"
  have "\<forall>p\<in>set ?due. get_pat_by_id (pt_id p) s = Some p \<and> pt_expiresAt p \<noteq> None"
    using get_pat_by_id_row [OF assms(1)] by (auto simp: list_pats_due_expiry_warning_def split: option.splits)
  then have "told_marked (fold (warn_of_expiry users sent (\<lambda>s. s)) ?due ([], s))"
    by (intro warn_fold) (simp_all add: told_marked_def)
  then have marked: "told_marked (told, s1)" using assms(2) by (simp add: check_expiring_tokens_def)
  have "q \<in> set (ts_pats s1) \<and> \<not> pt_warned q" if "q \<in> set told'" for q
    using that warned_of [of users' sent' between' d' now' s1] assms(3)
    by (auto simp: list_pats_due_expiry_warning_def)
  then show ?thesis using marked by (fastforce simp: told_marked_def)
qed

theorem expiry_warning_not_repeated_witness:
  "pt_id ` set (fst (check_expiring_tokens ex_users (\<lambda>_. True) (\<lambda>s. s) 10 7 ex_store)) \<inter>
   pt_id ` set (fst (check_expiring_tokens ex_users (\<lambda>_. True) (\<lambda>s. s) 10 8
     (snd (check_expiring_tokens ex_users (\<lambda>_. True) (\<lambda>s. s) 10 7 ex_store)))) = {}"
  by (rule expiry_warning_not_repeated [OF ex_store_ok]) (rule surjective_pairing)+

section \<open>A token made in the portal\<close>

lemma hex_encode_no_l: "CHR ''l'' \<notin> set (hex_encode bs)"
proof -
  have "hex_digit (n mod 16) \<noteq> CHR ''l''" for n
  proof -
    have "n mod 16 < 16" by simp
    then have "n mod 16 \<in> set [0..<16]" by simp
    then show ?thesis by (auto simp: upt_rec hex_digit_def digit_def char_of_def bit_0)
  qed
  then show ?thesis by (auto simp: hex_encode_def dest: sym)
qed

text \<open>A token made in the portal authenticates its holder, yet never passes the administrators' gate,
  whatever the holder's role: the gate looks only at tokens of a mark the portal does not give.\<close>

theorem portal_token_is_no_admin_credential:
  assumes "handle_create_token digest policy random now u name days s = (Inr raw, s')" "store_ok s" "raw \<noteq> []"
    "0 < days" "users (u_id u) = Some u" "u_status u = ''approved''"
  shows "(\<exists>p. check_pat digest Answered users now raw s' = Token_valid u p) \<and>
    require_admin owner by_email None check (''Bearer '' @ raw) query' = None"
proof
  obtain bs p where raw: "raw = hex_encode bs" and p: "create_pat p s = Some s'" "pt_tokenHash p = digest raw"
    "pt_userID p = u_id u" "pt_revokedAt p = None" and e: "\<exists>r. resolve_pat_expiry policy days now = Inr (pt_expiresAt p, r)"
    using handle_create_token_cases [OF assms(1)] by (metis Inl_Inr_False Inr_inject)
  let ?q = "p\<lparr>pt_id := ts_nextID s, pt_warned := False\<rparr>"
  have "pt_expiresAt p = Some (add_days now days)" using e assms(4) by (simp add: resolve_pat_expiry_def)
  moreover have "get_pat_by_hash (digest raw) s' = Some ?q"
    using create_pat_cases [OF p(1)] p(2) by (simp add: get_pat_by_hash_iff [OF create_pat_ok [OF p(1) assms(2)]])
  ultimately show "\<exists>p. check_pat digest Answered users now raw s' = Token_valid u p"
    using p assms add_days_later by (intro exI [of _ ?q]) (simp add: check_pat_valid)
  have "\<not> has_prefix raw ''lfr_pat_''"
    using hex_encode_no_l [of bs] by (auto simp: has_prefix_iff raw)
  moreover have "has_prefix (to_lower (''Bearer '' @ raw)) ''bearer ''" "drop 7 (''Bearer '' @ raw) = raw"
    by (simp_all add: to_lower_def lower_char_def has_prefix_def char_of_def bit_0)
  ultimately show "require_admin owner by_email None check (''Bearer '' @ raw) query' = None"
    by (simp add: require_admin_def bearer_or_query_def)
qed

theorem portal_token_is_no_admin_credential_witness:
  "\<exists>p. check_pat ex_digest Answered (\<lambda>_. Some (ex_user ''u9'' ''owner'')) 7 ''01''
     (snd (handle_create_token ex_digest ''disabled'' (Some [1]) 7 (ex_user ''u9'' ''owner'') ''ci'' 3 ex_store))
     = Token_valid (ex_user ''u9'' ''owner'') p"
proof -
  have "handle_create_token ex_digest ''disabled'' (Some [1]) 7 (ex_user ''u9'' ''owner'') ''ci'' 3 ex_store =
     (Inr ''01'', snd (handle_create_token ex_digest ''disabled'' (Some [1]) 7 (ex_user ''u9'' ''owner'') ''ci'' 3 ex_store))"
    by (simp add: handle_create_token_def validate_token_name_def trim_space_def is_space_def resolve_pat_expiry_def
        generate_secure_token_def hex_encode_def hex_digit_def digit_def create_pat_def get_pat_by_hash_def
        ex_store_def ex_digest_def char_of_def bit_0)
  from portal_token_is_no_admin_credential [OF this ex_store_ok, of "\<lambda>_. Some (ex_user ''u9'' ''owner'')"]
  show ?thesis by (simp add: ex_user_def)
qed

end
