(* ===== verification/Reservations.thy ===== *)
theory Reservations
  imports Accounts Registry
begin

text \<open>
  Reserved names: the rows and queries of \<open>pkg/db/subdomain.go\<close>, the standing of a row and the policy
  both registration paths apply (\<open>registration_policy.go\<close>), the custom-domain branch of
  \<open>handleRegister\<close> (\<open>server.go\<close>), the portal's own operations (\<open>api_service_reservation.go\<close>,
  \<open>api.go\<close>) and the sweep that warns of an expiry (\<open>server_edge.go\<close>).

  Which queries of the database fail is an input. The clock is read once per operation.
\<close>

section \<open>Rows\<close>

record reservation =
  rv_id :: int
  rv_userID :: string
  rv_subdomain :: string
  rv_domain :: string
  rv_expiresAt :: "time option"
  rv_extensionRequested :: bool
  rv_passcode :: string
  rv_whitelistIPs :: string
  rv_accessMode :: string
  rv_warned :: int
  rv_createdAt :: time

text \<open>The table, oldest row first. A custom domain is a row with an empty subdomain.\<close>

record name_store =
  ns_rows :: "reservation list"
  ns_nextID :: int

definition row_name :: "reservation \<Rightarrow> string \<times> string" where
  "row_name v = (rv_subdomain v, rv_domain v)"

text \<open>A row read back has a mode: an empty one reads as \<open>or\<close>.\<close>

definition scan_row :: "reservation \<Rightarrow> reservation" where
  "scan_row v = (if rv_accessMode v = [] then v\<lparr>rv_accessMode := ''or''\<rparr> else v)"

definition get_by_name :: "string \<times> string \<Rightarrow> name_store \<Rightarrow> reservation option" where
  "get_by_name n s = map_option scan_row (List.find (\<lambda>v. row_name v = n) (ns_rows s))"

definition get_by_id :: "int \<Rightarrow> name_store \<Rightarrow> reservation option" where
  "get_by_id i s = map_option scan_row (List.find (\<lambda>v. rv_id v = i) (ns_rows s))"

definition list_by_user :: "string \<Rightarrow> name_store \<Rightarrow> reservation list" where
  "list_by_user uid s =
     map scan_row (rev (sort_key rv_createdAt (filter (\<lambda>v. rv_userID v = uid) (ns_rows s))))"

text \<open>\<open>INSERT\<close>: the pair of subdomain and domain is unique in the table.\<close>

definition create_row :: "reservation \<Rightarrow> name_store \<Rightarrow> name_store option" where
  "create_row v s =
     (if List.find (\<lambda>w. row_name w = row_name v) (ns_rows s) \<noteq> None then None
      else Some \<lparr>ns_rows = ns_rows s @ [v\<lparr>rv_id := ns_nextID s\<rparr>], ns_nextID = ns_nextID s + 1\<rparr>)"

text \<open>\<open>UPDATE \<dots> WHERE id = ?\<close>: holder, name and age of the row are not written.\<close>

definition update_row :: "reservation \<Rightarrow> name_store \<Rightarrow> name_store" where
  "update_row v s = s\<lparr>ns_rows := map (\<lambda>w. if rv_id w = rv_id v then
       w\<lparr>rv_expiresAt := rv_expiresAt v, rv_extensionRequested := rv_extensionRequested v,
         rv_passcode := rv_passcode v, rv_whitelistIPs := rv_whitelistIPs v, rv_accessMode := rv_accessMode v,
         rv_warned := rv_warned v\<rparr> else w) (ns_rows s)\<rparr>"

definition delete_row :: "int \<Rightarrow> name_store \<Rightarrow> name_store" where
  "delete_row i s = s\<lparr>ns_rows := filter (\<lambda>v. rv_id v \<noteq> i) (ns_rows s)\<rparr>"

text \<open>Which of the queries an operation makes fail.\<close>

record db_faults =
  df_read :: "string \<Rightarrow> bool"
  df_reread :: "string \<Rightarrow> bool"
  df_list :: bool
  df_delete :: "int \<Rightarrow> bool"
  df_create :: "string \<Rightarrow> bool"
  df_update :: "int \<Rightarrow> bool"

definition no_faults :: db_faults where
  "no_faults = \<lparr>df_read = (\<lambda>_. False), df_reread = (\<lambda>_. False), df_list = False, df_delete = (\<lambda>_. False),
     df_create = (\<lambda>_. False), df_update = (\<lambda>_. False)\<rparr>"

definition try_delete :: "db_faults \<Rightarrow> int \<Rightarrow> name_store \<Rightarrow> name_store" where
  "try_delete f i s = (if df_delete f i then s else delete_row i s)"

section \<open>Standing\<close>

datatype standing = Live | Quarantined | Lapsed

definition reservation_standing_of :: "time \<Rightarrow> int \<Rightarrow> reservation \<Rightarrow> standing" where
  "reservation_standing_of now quarantineDays v =
     (case rv_expiresAt v of
        None \<Rightarrow> Live
      | Some e \<Rightarrow> (if \<not> e < now then Live else if now < add_days e quarantineDays then Quarantined else Lapsed))"

text \<open>A row counts against a quota while it has not expired; the two kinds are counted apart.\<close>

definition counts_against :: "time \<Rightarrow> resource_kind \<Rightarrow> reservation \<Rightarrow> bool" where
  "counts_against now kind v \<longleftrightarrow>
     (rv_subdomain v = [] \<longleftrightarrow> kind = Kind_custom_domain) \<and>
     (case rv_expiresAt v of None \<Rightarrow> True | Some e \<Rightarrow> now < e)"

definition active_count :: "time \<Rightarrow> resource_kind \<Rightarrow> string \<Rightarrow> name_store \<Rightarrow> int" where
  "active_count now kind uid s = int (length (filter (counts_against now kind) (list_by_user uid s)))"

definition reservation_resource_kind :: "reservation \<Rightarrow> resource_kind" where
  "reservation_resource_kind v = (if rv_subdomain v = [] then Kind_custom_domain else Kind_subdomain)"

definition fresh_row :: "string \<Rightarrow> string \<Rightarrow> string \<Rightarrow> time option \<Rightarrow> time \<Rightarrow> reservation" where
  "fresh_row uid sub d e now = \<lparr>rv_id = 0, rv_userID = uid, rv_subdomain = sub, rv_domain = d, rv_expiresAt = e,
     rv_extensionRequested = False, rv_passcode = [], rv_whitelistIPs = [], rv_accessMode = [], rv_warned = 0,
     rv_createdAt = now\<rparr>"

section \<open>The policy of a registration\<close>

datatype refusal =
    Must_be_reserved | Name_quarantined | Reserved_by_other | Quota_reached

text \<open>\<open>resolveSubdomainReservations\<close>: the domains to reserve, or why not; lapsed rows go on the way.
  A read that fails is taken for a row that is not there.\<close>

fun resolve_subdomain_reservations ::
  "server_config \<Rightarrow> db_faults \<Rightarrow> time \<Rightarrow> string \<Rightarrow> string list \<Rightarrow> string \<Rightarrow> user option \<Rightarrow> name_store
   \<Rightarrow> (refusal + string list) \<times> name_store" where
  "resolve_subdomain_reservations cfg f now sub [] uid userRec s = (Inr [], s)"
| "resolve_subdomain_reservations cfg f now sub (d # ds) uid userRec s =
     (let go = (\<lambda>reserve s'.
        (case resolve_subdomain_reservations cfg f now sub ds uid userRec s' of
           (Inl e, s'') \<Rightarrow> (Inl e, s'')
         | (Inr xs, s'') \<Rightarrow> (Inr (if reserve then d # xs else xs), s'')))
      in case (if df_read f d then None else get_by_name (sub, d) s) of
           None \<Rightarrow> (if \<not> can_user_auto_reserve cfg userRec then (Inl Must_be_reserved, s) else go True s)
         | Some v \<Rightarrow>
             (case reservation_standing_of now (cf_subdomainQuarantineDays cfg) v of
                Quarantined \<Rightarrow> (if rv_userID v \<noteq> uid then (Inl Name_quarantined, s) else go True s)
              | Lapsed \<Rightarrow> go True (try_delete f (rv_id v) s)
              | Live \<Rightarrow> (if rv_userID v \<noteq> uid then (Inl Reserved_by_other, s) else go False s)))"

text \<open>One name is made over: whatever row holds it goes, a new one is inserted.\<close>

definition reserve_name :: "db_faults \<Rightarrow> reservation \<Rightarrow> name_store \<Rightarrow> name_store" where
  "reserve_name f v s =
     (let s1 = (case (if df_reread f (rv_domain v) then None else get_by_name (row_name v) s) of
                  None \<Rightarrow> s | Some w \<Rightarrow> try_delete f (rv_id w) s)
      in if df_create f (rv_domain v) then s1
         else case create_row v s1 of None \<Rightarrow> s1 | Some s2 \<Rightarrow> s2)"

definition create_subdomain_reservations ::
  "server_config \<Rightarrow> db_faults \<Rightarrow> time \<Rightarrow> string \<Rightarrow> string list \<Rightarrow> user \<Rightarrow> user option \<Rightarrow> name_store
   \<Rightarrow> refusal option \<times> name_store" where
  "create_subdomain_reservations cfg f now sub ds user userRec s =
     (if ds = [] then (None, s)
      else
        (let limit = (case userRec of None \<Rightarrow> cf_defaultMaxReservations cfg | Some u \<Rightarrow> get_user_max_reservations cfg u);
             active = (if df_list f then 0 else active_count now Kind_subdomain (u_id user) s)
         in if 0 \<le> limit \<and> limit < active + int (length ds) then (Some Quota_reached, s)
            else (None, fold (\<lambda>d. reserve_name f
              (fresh_row (u_id user) sub d (reservation_expiry (Some cfg) Kind_subdomain user now) now)) ds s)))"

definition apply_subdomain_reservation_policy ::
  "server_config \<Rightarrow> db_faults \<Rightarrow> time \<Rightarrow> string \<Rightarrow> string list \<Rightarrow> user \<Rightarrow> user option \<Rightarrow> name_store
   \<Rightarrow> refusal option \<times> name_store" where
  "apply_subdomain_reservation_policy cfg f now sub ds user userRec s =
     (case resolve_subdomain_reservations cfg f now sub ds (u_id user) userRec s of
        (Inl e, s') \<Rightarrow> (Some e, s')
      | (Inr xs, s') \<Rightarrow> create_subdomain_reservations cfg f now sub xs user userRec s')"

text \<open>The branch of \<open>handleRegister\<close> for a custom domain, from the row to its creation.\<close>

definition create_custom_reservation ::
  "server_config \<Rightarrow> db_faults \<Rightarrow> time \<Rightarrow> string \<Rightarrow> user \<Rightarrow> user option \<Rightarrow> name_store \<Rightarrow> refusal option \<times> name_store" where
  "create_custom_reservation cfg f now d user userRec s =
     (let limit = (case userRec of None \<Rightarrow> cf_defaultMaxCustomDomains cfg | Some u \<Rightarrow> get_user_max_custom_domains cfg u);
          active = (if df_list f then 0 else active_count now Kind_custom_domain (u_id user) s)
      in if 0 \<le> limit \<and> limit < active + 1 then (Some Quota_reached, s)
         else (None, reserve_name f
           (fresh_row (u_id user) [] d (reservation_expiry (Some cfg) Kind_custom_domain user now) now) s))"

definition reserve_custom_domain ::
  "server_config \<Rightarrow> db_faults \<Rightarrow> time \<Rightarrow> string \<Rightarrow> user \<Rightarrow> user option \<Rightarrow> name_store \<Rightarrow> refusal option \<times> name_store" where
  "reserve_custom_domain cfg f now d user userRec s =
     (case (if df_read f d then None else get_by_name ([], d) s) of
        Some v \<Rightarrow>
          (case reservation_standing_of now (cf_subdomainQuarantineDays cfg) v of
             Quarantined \<Rightarrow> (if rv_userID v \<noteq> u_id user then (Some Name_quarantined, s)
                            else create_custom_reservation cfg f now d user userRec s)
           | Lapsed \<Rightarrow> create_custom_reservation cfg f now d user userRec (try_delete f (rv_id v) s)
           | Live \<Rightarrow> (if rv_userID v \<noteq> u_id user then (Some Reserved_by_other, s) else (None, s)))
      | None \<Rightarrow>
          (if can_user_auto_reserve cfg userRec then create_custom_reservation cfg f now d user userRec s
           else (Some Must_be_reserved, s)))"

text \<open>What the leases of a registration must enforce, by domain, after the passcode and the whitelist
  it carries have been written to the holder's rows.\<close>

definition override_rules :: "string \<Rightarrow> string \<Rightarrow> reservation \<Rightarrow> reservation" where
  "override_rules passcode whitelist v =
     v\<lparr>rv_passcode := (if passcode \<noteq> [] then passcode else rv_passcode v),
       rv_whitelistIPs := (if whitelist \<noteq> [] then whitelist else rv_whitelistIPs v)\<rparr>"

fun resolve_access_controls ::
  "db_faults \<Rightarrow> string \<Rightarrow> string list \<Rightarrow> string \<Rightarrow> string \<Rightarrow> string \<Rightarrow> name_store
   \<Rightarrow> (string, string \<times> string \<times> string) table \<times> name_store" where
  "resolve_access_controls f sub [] uid passcode whitelist s = ([], s)"
| "resolve_access_controls f sub (d # ds) uid passcode whitelist s =
     (case (if df_read f d then None else get_by_name (sub, d) s) of
        None \<Rightarrow> resolve_access_controls f sub ds uid passcode whitelist s
      | Some v \<Rightarrow>
          (if rv_userID v \<noteq> uid then resolve_access_controls f sub ds uid passcode whitelist s
           else
             (let v' = override_rules passcode whitelist v;
                  s' = (if (passcode \<noteq> [] \<or> whitelist \<noteq> []) \<and> \<not> df_update f (rv_id v) then update_row v' s else s)
              in case resolve_access_controls f sub ds uid passcode whitelist s' of
                   (tab, s'') \<Rightarrow> (put d (rv_passcode v', rv_whitelistIPs v', rv_accessMode v') tab, s''))))"

section \<open>The portal\<close>

datatype portal_error =
    Portal_invalid | Portal_internal | Portal_quota | Portal_conflict | Portal_not_found | Portal_forbidden
  | Portal_permanence

text \<open>The portal's own resolution of the two quotas.\<close>

definition portal_max_reservations :: "server_config \<Rightarrow> user \<Rightarrow> int" where
  "portal_max_reservations cfg u =
     (case role_lookup cfg (u_role u) rs_maxReservations of Some n \<Rightarrow> n
      | None \<Rightarrow>
        (if u_role u = ''admin'' \<and> cf_adminMaxReservations cfg \<noteq> None then the (cf_adminMaxReservations cfg)
         else if u_role u = ''owner'' \<and> cf_ownerMaxReservations cfg \<noteq> None then the (cf_ownerMaxReservations cfg)
         else cf_defaultMaxReservations cfg))"

definition portal_max_custom_domains :: "server_config \<Rightarrow> user \<Rightarrow> int" where
  "portal_max_custom_domains cfg u =
     (case role_lookup cfg (u_role u) rs_maxCustomDomains of Some n \<Rightarrow> n
      | None \<Rightarrow>
        (if u_role u = ''admin'' \<and> cf_adminMaxCustomDomains cfg \<noteq> None then the (cf_adminMaxCustomDomains cfg)
         else if u_role u = ''owner'' \<and> cf_ownerMaxCustomDomains cfg \<noteq> None then the (cf_ownerMaxCustomDomains cfg)
         else cf_defaultMaxCustomDomains cfg))"

definition insert_fresh ::
  "server_config \<Rightarrow> db_faults \<Rightarrow> time \<Rightarrow> user \<Rightarrow> resource_kind \<Rightarrow> string \<Rightarrow> string \<Rightarrow> name_store
   \<Rightarrow> (portal_error + reservation) \<times> name_store" where
  "insert_fresh cfg f now user kind sub d s =
     (let v = fresh_row (u_id user) sub d (reservation_expiry (Some cfg) kind user now) now
      in case (if df_create f d then None else create_row v s) of
           None \<Rightarrow> (Inl Portal_internal, s)
         | Some s' \<Rightarrow> (Inr (v\<lparr>rv_id := ns_nextID s\<rparr>), s'))"

definition create_reservation ::
  "server_config \<Rightarrow> db_faults \<Rightarrow> time \<Rightarrow> user \<Rightarrow> string \<Rightarrow> string \<Rightarrow> name_store
   \<Rightarrow> (portal_error + reservation) \<times> name_store" where
  "create_reservation cfg f now user sub0 d0 s =
     (let sub = to_lower (trim_space sub0); d = to_lower (trim_space d0); limit = portal_max_reservations cfg user
      in if sub = [] \<or> d = [] \<or> \<not> is_valid_subdomain sub \<or> \<not> list_ex (\<lambda>x. equal_fold x d) (cf_domains cfg)
         then (Inl Portal_invalid, s)
         else if df_list f then (Inl Portal_internal, s)
         else if 0 \<le> limit \<and> limit \<le> active_count now Kind_subdomain (u_id user) s then (Inl Portal_quota, s)
         else case (if df_read f d then None else get_by_name (sub, d) s) of
           None \<Rightarrow> insert_fresh cfg f now user Kind_subdomain sub d s
         | Some v \<Rightarrow>
             (case reservation_standing_of now (cf_subdomainQuarantineDays cfg) v of
                Live \<Rightarrow> (Inl Portal_conflict, s)
              | Quarantined \<Rightarrow> (if rv_userID v \<noteq> u_id user then (Inl Portal_conflict, s)
                               else insert_fresh cfg f now user Kind_subdomain sub d (try_delete f (rv_id v) s))
              | Lapsed \<Rightarrow> insert_fresh cfg f now user Kind_subdomain sub d (try_delete f (rv_id v) s)))"

text \<open>The shape of a fully qualified name: labels of letters, digits and inner hyphens, the last of
  letters only.\<close>

definition is_valid_custom_domain :: "string \<Rightarrow> bool" where
  "is_valid_custom_domain d0 =
     (let d = to_lower d0; labels = split_on (CHR ''.'') d
      in 3 \<le> length d \<and> length d \<le> 253 \<and> 2 \<le> length labels \<and> list_all subdomain_regex (butlast labels) \<and>
         2 \<le> length (last labels) \<and> list_all (\<lambda>c. is_alnum c \<and> \<not> is_digit c) (last labels))"

definition is_under_served_root_domain :: "string \<Rightarrow> string list \<Rightarrow> bool" where
  "is_under_served_root_domain host0 roots =
     (let host = to_lower (trim_space host0)
      in list_ex (\<lambda>d0. let d = to_lower (trim_space d0) in d \<noteq> [] \<and> (host = d \<or> has_suffix host (''.'' @ d))) roots)"

definition trim_suffix :: "string \<Rightarrow> string \<Rightarrow> string" where
  "trim_suffix s p = (if has_suffix s p then take (length s - length p) s else s)"

definition finish_custom_domain ::
  "server_config \<Rightarrow> db_faults \<Rightarrow> time \<Rightarrow> user \<Rightarrow> string \<Rightarrow> name_store \<Rightarrow> (portal_error + reservation) \<times> name_store" where
  "finish_custom_domain cfg f now user d s =
     (let limit = portal_max_custom_domains cfg user
      in if df_list f then (Inl Portal_internal, s)
         else if 0 \<le> limit \<and> limit \<le> active_count now Kind_custom_domain (u_id user) s then (Inl Portal_quota, s)
         else insert_fresh cfg f now user Kind_custom_domain [] d s)"

definition create_custom_domain ::
  "server_config \<Rightarrow> db_faults \<Rightarrow> time \<Rightarrow> user \<Rightarrow> string \<Rightarrow> name_store \<Rightarrow> (portal_error + reservation) \<times> name_store" where
  "create_custom_domain cfg f now user d0 s =
     (let d = trim_suffix (to_lower (trim_space d0)) ''.''
      in if d = [] \<or> \<not> is_valid_custom_domain d \<or> is_under_served_root_domain d (cf_domains cfg)
         then (Inl Portal_invalid, s)
         else case (if df_read f d then None else get_by_name ([], d) s) of
           None \<Rightarrow> finish_custom_domain cfg f now user d s
         | Some v \<Rightarrow>
             (case reservation_standing_of now (cf_subdomainQuarantineDays cfg) v of
                Live \<Rightarrow> ((if rv_userID v = u_id user then Inr v else Inl Portal_conflict), s)
              | Quarantined \<Rightarrow>
                  (if rv_userID v \<noteq> u_id user then (Inl Portal_conflict, s)
                   else if df_delete f (rv_id v) then (Inl Portal_internal, s)
                   else finish_custom_domain cfg f now user d (delete_row (rv_id v) s))
              | Lapsed \<Rightarrow>
                  (if df_delete f (rv_id v) then (Inl Portal_internal, s)
                   else finish_custom_domain cfg f now user d (delete_row (rv_id v) s))))"

definition may_manage :: "user \<Rightarrow> reservation \<Rightarrow> bool" where
  "may_manage user v \<longleftrightarrow> rv_userID v = u_id user \<or> u_role user = ''admin'' \<or> u_role user = ''owner''"

definition delete_reservation ::
  "db_faults \<Rightarrow> user \<Rightarrow> string \<Rightarrow> name_store \<Rightarrow> (portal_error + reservation) \<times> name_store" where
  "delete_reservation f user idStr s =
     (case parse_int idStr of
        None \<Rightarrow> (Inl Portal_invalid, s)
      | Some i \<Rightarrow>
          (case get_by_id i s of
             None \<Rightarrow> (Inl Portal_not_found, s)
           | Some v \<Rightarrow>
               (if \<not> may_manage user v then (Inl Portal_forbidden, s)
                else if df_delete f i then (Inl Portal_internal, s)
                else (Inr v, delete_row i s))))"

definition store_row ::
  "db_faults \<Rightarrow> reservation \<Rightarrow> name_store \<Rightarrow> (portal_error + reservation) \<times> name_store" where
  "store_row f v s = (if df_update f (rv_id v) then (Inl Portal_internal, s) else (Inr v, update_row v s))"

definition request_extension ::
  "db_faults \<Rightarrow> user \<Rightarrow> string \<Rightarrow> name_store \<Rightarrow> (portal_error + reservation) \<times> name_store" where
  "request_extension f user idStr s =
     (case parse_int idStr of
        None \<Rightarrow> (Inl Portal_invalid, s)
      | Some i \<Rightarrow>
          (case get_by_id i s of
             None \<Rightarrow> (Inl Portal_not_found, s)
           | Some v \<Rightarrow>
               (if \<not> may_manage user v then (Inl Portal_forbidden, s)
                else if rv_expiresAt v = None then (Inl Portal_invalid, s)
                else store_row f (v\<lparr>rv_extensionRequested := True\<rparr>) s)))"

definition promote_reservation ::
  "server_config \<Rightarrow> db_faults \<Rightarrow> time \<Rightarrow> user \<Rightarrow> string \<Rightarrow> string \<Rightarrow> name_store
   \<Rightarrow> (portal_error + reservation) \<times> name_store" where
  "promote_reservation cfg f now user sub d s =
     (let limit = portal_max_reservations cfg user
      in if df_list f then (Inl Portal_internal, s)
         else if 0 \<le> limit \<and> limit \<le> active_count now Kind_subdomain (u_id user) s then (Inl Portal_quota, s)
         else case (if df_read f d then None else get_by_name (sub, d) s) of
           None \<Rightarrow> insert_fresh cfg f now user Kind_subdomain sub d s
         | Some v \<Rightarrow>
             (if (case rv_expiresAt v of None \<Rightarrow> True | Some e \<Rightarrow> now < e)
              then ((if rv_userID v \<noteq> u_id user then Inl Portal_conflict else Inr v), s)
              else insert_fresh cfg f now user Kind_subdomain sub d (try_delete f (rv_id v) s)))"

text \<open>The handler takes the domain from the live lease that carries the prefix.\<close>

definition handle_promote_reservation ::
  "server_config \<Rightarrow> db_faults \<Rightarrow> time \<Rightarrow> user \<Rightarrow> string \<Rightarrow> lease list \<Rightarrow> name_store
   \<Rightarrow> (portal_error + reservation) \<times> name_store" where
  "handle_promote_reservation cfg f now user sub0 leases s =
     (let sub = to_lower (trim_space sub0)
      in if sub = [] then (Inl Portal_invalid, s)
         else case List.find (\<lambda>l. l_userID l = u_id user \<and> equal_fold (l_subdomainPrefix l) sub) leases of
           None \<Rightarrow> (Inl Portal_invalid, s)
         | Some l \<Rightarrow>
             (let d = (if CHR ''.'' \<in> set (l_fullHost l) then tl (dropWhile (\<lambda>c. c \<noteq> CHR ''.'') (l_fullHost l))
                       else if cf_domains cfg \<noteq> [] then hd (cf_domains cfg) else [])
              in if d = [] then (Inl Portal_invalid, s) else promote_reservation cfg f now user sub d s))"

definition admin_approve_extension ::
  "server_config \<Rightarrow> db_faults \<Rightarrow> time \<Rightarrow> string \<Rightarrow> int \<Rightarrow> bool \<Rightarrow> name_store
   \<Rightarrow> (portal_error + reservation) \<times> name_store" where
  "admin_approve_extension cfg f now idStr days permanent s =
     (case parse_int idStr of
        None \<Rightarrow> (Inl Portal_invalid, s)
      | Some i \<Rightarrow>
          (case get_by_id i s of
             None \<Rightarrow> (Inl Portal_not_found, s)
           | Some v \<Rightarrow>
               (if permanent \<and> \<not> permanence_grant_allowed (policy_for_kind (Some cfg) (reservation_resource_kind v))
                then (Inl Portal_permanence, s)
                else
                  (let base = (case rv_expiresAt v of None \<Rightarrow> now | Some e \<Rightarrow> if now < e then e else now)
                   in store_row f (v\<lparr>rv_extensionRequested := False,
                        rv_expiresAt := (if permanent then None else Some (add_days base days)), rv_warned := 0\<rparr>) s))))"

definition admin_demote_reservation ::
  "server_config \<Rightarrow> db_faults \<Rightarrow> (string \<Rightarrow> user option) \<Rightarrow> time \<Rightarrow> string \<Rightarrow> name_store
   \<Rightarrow> (portal_error + reservation) \<times> name_store" where
  "admin_demote_reservation cfg f users now idStr s =
     (case parse_int idStr of
        None \<Rightarrow> (Inl Portal_invalid, s)
      | Some i \<Rightarrow>
          (case get_by_id i s of
             None \<Rightarrow> (Inl Portal_not_found, s)
           | Some v \<Rightarrow>
               (case users (rv_userID v) of
                  None \<Rightarrow> (Inl Portal_internal, s)
                | Some u \<Rightarrow>
                    store_row f (v\<lparr>rv_expiresAt := reservation_expiry (Some cfg) (reservation_resource_kind v) u now,
                      rv_extensionRequested := False, rv_warned := 0\<rparr>) s)))"

section \<open>The sweep\<close>

text \<open>Stage one warns of an expiry within two days, stage two tells that it has come.\<close>

definition get_expiring :: "time \<Rightarrow> time \<Rightarrow> name_store \<Rightarrow> reservation list" where
  "get_expiring now before s =
     map scan_row (filter (\<lambda>v. case rv_expiresAt v of None \<Rightarrow> False
        | Some e \<Rightarrow> (e \<le> before \<and> now < e \<and> rv_warned v = 0) \<or> (e \<le> now \<and> rv_warned v < 2)) (ns_rows s))"

datatype expiry_mail = Expiring_soon string string time | Has_expired string string time

definition expiry_mail_of :: "server_config \<Rightarrow> time \<Rightarrow> reservation \<Rightarrow> (expiry_mail \<times> int) option" where
  "expiry_mail_of cfg now v =
     (case rv_expiresAt v of
        None \<Rightarrow> None
      | Some e \<Rightarrow> (if e < now
          then Some (Has_expired (rv_subdomain v) (rv_domain v) (add_days e (cf_subdomainQuarantineDays cfg)), 2)
          else Some (Expiring_soon (rv_subdomain v) (rv_domain v) e, 1)))"

text \<open>\<open>sent\<close> is whether the mail system accepts a mail; the holder must be on record.\<close>

definition warn_row ::
  "server_config \<Rightarrow> db_faults \<Rightarrow> (string \<Rightarrow> user option) \<Rightarrow> (int \<Rightarrow> bool) \<Rightarrow> time \<Rightarrow> reservation
   \<Rightarrow> (int \<times> expiry_mail) list \<times> name_store \<Rightarrow> (int \<times> expiry_mail) list \<times> name_store" where
  "warn_row cfg f users sent now v st =
     (case users (rv_userID v) of
        None \<Rightarrow> st
      | Some u \<Rightarrow>
          (case expiry_mail_of cfg now v of
             None \<Rightarrow> st
           | Some (mail, stage) \<Rightarrow>
               (if \<not> sent (rv_id v) then st
                else (fst st @ [(rv_id v, mail)],
                      if df_update f (rv_id v) then snd st else update_row (v\<lparr>rv_warned := stage\<rparr>) (snd st)))))"

definition check_expiring_reservations ::
  "server_config \<Rightarrow> db_faults \<Rightarrow> (string \<Rightarrow> user option) \<Rightarrow> (int \<Rightarrow> bool) \<Rightarrow> time \<Rightarrow> name_store
   \<Rightarrow> (int \<times> expiry_mail) list \<times> name_store" where
  "check_expiring_reservations cfg f users sent now s =
     fold (warn_row cfg f users sent now) (get_expiring now (now + 48 * hour) s) ([], s)"

section \<open>Random names\<close>

record edge_lease =
  el_nodeID :: string
  el_subdomain :: string
  el_userID :: string
  el_fullHost :: string
  el_localPort :: int
  el_clientIP :: string
  el_clientVersion :: string
  el_clientOS :: string
  el_rateLimit :: int
  el_bytesIn :: u64
  el_bytesOut :: u64
  el_createdAt :: time

type_synonym edge_leases = "(string, edge_lease list) table"

definition holds_name :: "string \<Rightarrow> string list \<Rightarrow> edge_lease \<Rightarrow> bool" where
  "holds_name sub ds el \<longleftrightarrow>
     (if el_fullHost el = [] then equal_fold (el_subdomain el) sub
      else list_ex (\<lambda>d. equal_fold (el_fullHost el) (sub @ ''.'' @ d)) ds)"

definition subdomain_held_in_memory :: "registry \<Rightarrow> edge_leases \<Rightarrow> string \<Rightarrow> string list \<Rightarrow> bool" where
  "subdomain_held_in_memory r els sub ds \<longleftrightarrow>
     check_subdomain r sub ds \<noteq> Available \<or> list_ex (\<lambda>(_, ls). list_ex (holds_name sub ds) ls) els"

definition subdomain_reserved :: "db_faults \<Rightarrow> name_store \<Rightarrow> string \<Rightarrow> string list \<Rightarrow> bool" where
  "subdomain_reserved f s sub ds \<longleftrightarrow> list_ex (\<lambda>d. \<not> df_read f d \<and> get_by_name (sub, d) s \<noteq> None) ds"

definition random_subdomain_attempts :: nat where "random_subdomain_attempts = 10"

text \<open>The generator's successive names are an input.\<close>

definition grant_random_subdomain ::
  "db_faults \<Rightarrow> registry \<Rightarrow> edge_leases \<Rightarrow> string list \<Rightarrow> string list \<Rightarrow> name_store \<Rightarrow> string option" where
  "grant_random_subdomain f r els names ds s =
     List.find (\<lambda>c. \<not> subdomain_held_in_memory r els c ds \<and> \<not> subdomain_reserved f s c ds)
       (take random_subdomain_attempts names)"

section \<open>What a user can do to the table\<close>

datatype name_op =
    Register_names string "string list" "user option"
  | Register_custom string "user option"
  | Carry_rules string "string list" string string
  | Portal_create string string
  | Portal_custom string
  | Portal_delete string
  | Portal_extend string
  | Portal_promote string "lease list"

fun name_step :: "server_config \<Rightarrow> db_faults \<Rightarrow> time \<Rightarrow> user \<Rightarrow> name_op \<Rightarrow> name_store \<Rightarrow> name_store" where
  "name_step cfg f now u (Register_names sub ds userRec) s =
     snd (apply_subdomain_reservation_policy cfg f now sub ds u userRec s)"
| "name_step cfg f now u (Register_custom d userRec) s = snd (reserve_custom_domain cfg f now d u userRec s)"
| "name_step cfg f now u (Carry_rules sub ds passcode whitelist) s =
     snd (resolve_access_controls f sub ds (u_id u) passcode whitelist s)"
| "name_step cfg f now u (Portal_create sub d) s = snd (create_reservation cfg f now u sub d s)"
| "name_step cfg f now u (Portal_custom d) s = snd (create_custom_domain cfg f now u d s)"
| "name_step cfg f now u (Portal_delete i) s = snd (delete_reservation f u i s)"
| "name_step cfg f now u (Portal_extend i) s = snd (request_extension f u i s)"
| "name_step cfg f now u (Portal_promote sub leases) s = snd (handle_promote_reservation cfg f now u sub leases s)"

end
