(* ===== verification/Reservations_Facts.thy ===== *)
theory Reservations_Facts
  imports Reservations
begin

text \<open>
  The table of reserved names as an interface, what every operation keeps of it, who can take a name
  from whom, the quota, and the two ways a name changes hands that the policy does not intend.
\<close>

section \<open>A table of names\<close>

text \<open>
  What the operations rely on: a name is found or not, its row can be removed by its identifier, and
  a row can be inserted exactly where its name is free.
\<close>

locale name_table =
  fixes ok :: "'s \<Rightarrow> bool" and find_name :: "'n \<Rightarrow> 's \<Rightarrow> 'r option" and name_of :: "'r \<Rightarrow> 'n"
    and ident :: "'r \<Rightarrow> int" and add :: "'r \<Rightarrow> 's \<Rightarrow> 's option" and remove :: "int \<Rightarrow> 's \<Rightarrow> 's"
    and stored :: "'s \<Rightarrow> 'r \<Rightarrow> 'r"
  assumes found_name: "ok s \<Longrightarrow> find_name n s = Some r \<Longrightarrow> name_of r = n"
    and find_remove: "ok s \<Longrightarrow> find_name n s = Some r \<Longrightarrow>
      find_name m (remove (ident r) s) = (if m = n then None else find_name m s)"
    and ok_remove: "ok s \<Longrightarrow> ok (remove i s)"
    and add_free: "ok s \<Longrightarrow> find_name (name_of r) s = None \<Longrightarrow>
      \<exists>s'. add r s = Some s' \<and> ok s' \<and>
        (\<forall>m. find_name m s' = (if m = name_of r then Some (stored s r) else find_name m s))"
    and add_taken: "find_name (name_of r) s \<noteq> None \<Longrightarrow> add r s = None"
begin

text \<open>Removing whatever holds a name and inserting there always succeeds and touches no other name.\<close>

lemma replace_row:
  assumes "ok s"
  obtains s0 s' where "add r (case find_name (name_of r) s of None \<Rightarrow> s | Some w \<Rightarrow> remove (ident w) s) = Some s'"
    "ok s'" "\<And>m. find_name m s' = (if m = name_of r then Some (stored s0 r) else find_name m s)"
proof (cases "find_name (name_of r) s")
  case None
  then show ?thesis using add_free [OF assms None] that [of _ s] by auto
next
  case (Some w)
  let ?s = "remove (ident w) s"
  have "find_name m ?s = (if m = name_of r then None else find_name m s)" for m
    using find_remove [OF assms Some] .
  then show ?thesis using add_free [OF ok_remove [OF assms], of r "ident w"] Some that [of _ ?s] by auto
qed

lemma add_other:
  assumes "ok s" "add r s = Some s'" "m \<noteq> name_of r"
  shows "find_name m s' = find_name m s"
  using assms add_free add_taken by (metis option.distinct(1) option.inject)

lemma add_ok:
  assumes "ok s" "add r s = Some s'"
  shows "ok s'" "find_name (name_of r) s' = Some (stored s r)"
  using assms add_free add_taken by (metis option.distinct(1) option.inject)+

end

definition names_ok :: "name_store \<Rightarrow> bool" where
  "names_ok s \<longleftrightarrow> distinct (map rv_id (ns_rows s)) \<and> distinct (map row_name (ns_rows s)) \<and>
     (\<forall>v\<in>set (ns_rows s). rv_id v < ns_nextID s)"

lemma scan_row_fields [simp]:
  "rv_id (scan_row v) = rv_id v" "rv_userID (scan_row v) = rv_userID v" "rv_subdomain (scan_row v) = rv_subdomain v"
  "rv_domain (scan_row v) = rv_domain v" "rv_expiresAt (scan_row v) = rv_expiresAt v"
  "rv_warned (scan_row v) = rv_warned v" "row_name (scan_row v) = row_name v"
  by (simp_all add: scan_row_def row_name_def)

lemma get_by_name_iff:
  "names_ok s \<Longrightarrow> get_by_name n s = Some w \<longleftrightarrow> (\<exists>v\<in>set (ns_rows s). row_name v = n \<and> w = scan_row v)"
  by (auto simp: get_by_name_def names_ok_def find_unique)

lemma get_by_name_None: "get_by_name n s = None \<longleftrightarrow> n \<notin> row_name ` set (ns_rows s)"
  by (auto simp: get_by_name_def find_None_iff)


lemma get_by_name_eqI:
  assumes "names_ok s" "names_ok s'"
    "\<And>v. row_name v = m \<Longrightarrow> v \<in> set (ns_rows s') \<longleftrightarrow> v \<in> set (ns_rows s)"
  shows "get_by_name m s' = get_by_name m s"
  using assms get_by_name_iff [of s m] get_by_name_iff [of s' m]
  by (metis not_None_eq)

lemma names_ok_delete [simp]: "names_ok s \<Longrightarrow> names_ok (delete_row i s)"
  by (auto simp: names_ok_def delete_row_def distinct_map_filter)

lemma same_row: "names_ok s \<Longrightarrow> v \<in> set (ns_rows s) \<Longrightarrow> w \<in> set (ns_rows s) \<Longrightarrow> rv_id v = rv_id w \<Longrightarrow> v = w"
  by (auto simp: names_ok_def distinct_map dest: inj_onD)

lemma get_by_name_delete:
  assumes "names_ok s" "get_by_name n s = Some w"
  shows "get_by_name m (delete_row (rv_id w) s) = (if m = n then None else get_by_name m s)"
proof (cases "m = n")
  case True
  obtain v where v: "v \<in> set (ns_rows s)" "row_name v = n" "w = scan_row v"
    using assms by (auto simp: get_by_name_iff)
  have "rv_id u = rv_id w" if "u \<in> set (ns_rows s)" "row_name u = n" for u
    using that v assms(1) by (auto simp: names_ok_def distinct_map dest: inj_onD)
  then show ?thesis using True by (auto simp: get_by_name_None delete_row_def)
next
  case False
  obtain v where v: "v \<in> set (ns_rows s)" "row_name v = n" "w = scan_row v"
    using assms by (auto simp: get_by_name_iff)
  have "rv_id u \<noteq> rv_id w" if "u \<in> set (ns_rows s)" "row_name u = m" for u
    using same_row [OF assms(1) that(1) v(1)] that(2) v False by auto
  then have "get_by_name m (delete_row (rv_id w) s) = get_by_name m s"
    by (intro get_by_name_eqI [OF assms(1) names_ok_delete [OF assms(1)]]) (auto simp: delete_row_def)
  with False show ?thesis by simp
qed

lemma create_row_free:
  assumes "names_ok s" "get_by_name (row_name v) s = None"
  shows "\<exists>s'. create_row v s = Some s' \<and> names_ok s' \<and>
    (\<forall>m. get_by_name m s' = (if m = row_name v then Some (scan_row (v\<lparr>rv_id := ns_nextID s\<rparr>)) else get_by_name m s))"
proof -
  let ?v = "v\<lparr>rv_id := ns_nextID s\<rparr>" and ?s = "\<lparr>ns_rows = ns_rows s @ [v\<lparr>rv_id := ns_nextID s\<rparr>], ns_nextID = ns_nextID s + 1\<rparr>"
  have nm: "row_name ?v = row_name v" by (simp add: row_name_def)
  have "create_row v s = Some ?s" using assms(2) by (simp add: create_row_def get_by_name_def)
  moreover have ok: "names_ok ?s" using assms nm by (fastforce simp: names_ok_def get_by_name_None)
  moreover have "get_by_name m ?s = (if m = row_name v then Some (scan_row ?v) else get_by_name m s)" for m
    using nm ok assms(1) by (auto simp: get_by_name_iff [OF ok] intro!: get_by_name_eqI)
  ultimately show ?thesis by blast
qed

interpretation names: name_table names_ok get_by_name row_name rv_id create_row delete_row
  "\<lambda>s v. scan_row (v\<lparr>rv_id := ns_nextID s\<rparr>)"
proof
  show "row_name r = n" if "names_ok s" "get_by_name n s = Some r" for s n r
    using that by (auto simp: get_by_name_iff)
  show "get_by_name m (delete_row (rv_id r) s) = (if m = n then None else get_by_name m s)"
    if "names_ok s" "get_by_name n s = Some r" for s n r m
    using get_by_name_delete [OF that] .
  show "names_ok (delete_row i s)" if "names_ok s" for s i using that by simp
  show "\<exists>s'. create_row r s = Some s' \<and> names_ok s' \<and>
      (\<forall>m. get_by_name m s' = (if m = row_name r then Some (scan_row (r\<lparr>rv_id := ns_nextID s\<rparr>)) else get_by_name m s))"
    if "names_ok s" "get_by_name (row_name r) s = None" for s r using create_row_free [OF that] .
  show "create_row r s = None" if "get_by_name (row_name r) s \<noteq> None" for s r
    using that by (auto simp: create_row_def get_by_name_def)
qed

section \<open>What the policy does to a name\<close>

lemma names_ok_try_delete [simp]: "names_ok s \<Longrightarrow> names_ok (try_delete f i s)"
  by (simp add: try_delete_def)

lemma try_delete_other:
  "names_ok s \<Longrightarrow> get_by_name n s = Some w \<Longrightarrow> m \<noteq> n \<Longrightarrow> get_by_name m (try_delete f (rv_id w) s) = get_by_name m s"
  by (simp add: try_delete_def get_by_name_delete)

lemma reserve_name_shape:
  "\<exists>s1. (s1 = s \<or> (\<exists>w. get_by_name (row_name v) s = Some w \<and> s1 = try_delete f (rv_id w) s)) \<and>
     (reserve_name f v s = s1 \<or> create_row v s1 = Some (reserve_name f v s))"
proof -
  obtain s1 where s1: "s1 = (case (if df_reread f (rv_domain v) then None else get_by_name (row_name v) s) of
      None \<Rightarrow> s | Some w \<Rightarrow> try_delete f (rv_id w) s)" by blast
  have "reserve_name f v s = s1 \<or> create_row v s1 = Some (reserve_name f v s)"
    unfolding reserve_name_def Let_def s1 [symmetric] by (cases "create_row v s1") auto
  moreover have "s1 = s \<or> (\<exists>w. get_by_name (row_name v) s = Some w \<and> s1 = try_delete f (rv_id w) s)"
    using s1 by (auto split: option.splits if_splits)
  ultimately show ?thesis by blast
qed

lemma reserve_name_keeps:
  assumes "names_ok s"
  shows "names_ok (reserve_name f v s)" "m \<noteq> row_name v \<Longrightarrow> get_by_name m (reserve_name f v s) = get_by_name m s"
proof -
  obtain s1 where s1: "s1 = s \<or> (\<exists>w. get_by_name (row_name v) s = Some w \<and> s1 = try_delete f (rv_id w) s)"
    and eq: "reserve_name f v s = s1 \<or> create_row v s1 = Some (reserve_name f v s)"
    using reserve_name_shape [of s v f] by blast
  have ok: "names_ok s1" using s1 assms by auto
  have other: "get_by_name m s1 = get_by_name m s" if "m \<noteq> row_name v" for m
    using s1 that try_delete_other [OF assms] by blast
  show "names_ok (reserve_name f v s)" using eq ok names.add_ok(1) [OF ok] by auto
  show "get_by_name m (reserve_name f v s) = get_by_name m s" if "m \<noteq> row_name v"
    using eq other [OF that] names.add_other [OF ok _ that] by auto
qed

lemma reserve_name_takes:
  assumes "names_ok s" "\<not> df_reread f (rv_domain v)" "\<And>i. \<not> df_delete f i" "\<not> df_create f (rv_domain v)"
  shows "\<exists>i. get_by_name (row_name v) (reserve_name f v s) = Some (scan_row (v\<lparr>rv_id := i\<rparr>))"
proof (rule names.replace_row [OF assms(1), of v])
  fix s0 s'
  assume c: "create_row v (case get_by_name (row_name v) s of None \<Rightarrow> s | Some w \<Rightarrow> delete_row (rv_id w) s) = Some s'"
    and n: "\<And>m. get_by_name m s' = (if m = row_name v then Some (scan_row (v\<lparr>rv_id := ns_nextID s0\<rparr>)) else get_by_name m s)"
  have "reserve_name f v s = s'"
    using c assms(2-4) by (cases "get_by_name (row_name v) s") (simp_all add: reserve_name_def try_delete_def)
  then show ?thesis using n by auto
qed

lemma reserve_names_keep:
  assumes "names_ok s" "\<And>d. row_name (g d) = (sub, d)"
  shows "names_ok (fold (\<lambda>d. reserve_name f (g d)) ds s)"
    "n \<notin> Pair sub ` set ds \<Longrightarrow> get_by_name n (fold (\<lambda>d. reserve_name f (g d)) ds s) = get_by_name n s"
  using assms(1)
  by (induction ds arbitrary: s) (auto simp: assms(2) reserve_name_keeps)



lemma fresh_row_fields:
  "rv_domain (fresh_row uid sub d e now) = d" "rv_userID (fresh_row uid sub d e now) = uid"
  "rv_expiresAt (fresh_row uid sub d e now) = e"
  by (simp_all add: fresh_row_def)

lemma row_name_fresh [simp]: "row_name (fresh_row uid sub d e now) = (sub, d)"
  by (simp add: row_name_def fresh_row_def)

lemma create_reservations_keep:
  assumes "names_ok s"
  shows "names_ok (snd (create_subdomain_reservations cfg f now sub ds user userRec s))"
    "n \<notin> Pair sub ` set ds \<Longrightarrow>
      get_by_name n (snd (create_subdomain_reservations cfg f now sub ds user userRec s)) = get_by_name n s"
  using reserve_names_keep [OF assms, of "\<lambda>d. fresh_row (u_id user) sub d (reservation_expiry (Some cfg) Kind_subdomain user now) now"]
  by (auto simp: create_subdomain_reservations_def Let_def assms)


section \<open>What the other operations do to a name\<close>

lemma update_row_keeps:
  assumes "names_ok s"
  shows "names_ok (update_row v s)"
    "get_by_name n s = Some w \<Longrightarrow> rv_id v = rv_id w \<Longrightarrow> m \<noteq> n \<Longrightarrow> get_by_name m (update_row v s) = get_by_name m s"
proof -
  define g where "g = (\<lambda>w :: reservation. if rv_id w = rv_id v then
      w\<lparr>rv_expiresAt := rv_expiresAt v, rv_extensionRequested := rv_extensionRequested v, rv_passcode := rv_passcode v,
        rv_whitelistIPs := rv_whitelistIPs v, rv_accessMode := rv_accessMode v, rv_warned := rv_warned v\<rparr> else w)"
  have rows: "ns_rows (update_row v s) = map g (ns_rows s)" "ns_nextID (update_row v s) = ns_nextID s"
    by (simp_all add: update_row_def g_def)
  have g: "rv_id (g x) = rv_id x" "row_name (g x) = row_name x" for x by (simp_all add: g_def row_name_def)
  show ok: "names_ok (update_row v s)"
    using assms by (simp add: names_ok_def rows g comp_def)
  assume w: "get_by_name n s = Some w" "rv_id v = rv_id w" "m \<noteq> n"
  obtain u where u: "u \<in> set (ns_rows s)" "row_name u = n" "rv_id u = rv_id v"
    using w assms by (auto simp: get_by_name_iff)
  have other: "g x = x" if "x \<in> set (ns_rows s)" "row_name x = m" for x
    using same_row [OF assms that(1) u(1)] that(2) u(2,3) w(3) by (auto simp: g_def)
  show "get_by_name m (update_row v s) = get_by_name m s"
  proof (rule get_by_name_eqI [OF assms ok])
    show "x \<in> set (ns_rows (update_row v s)) \<longleftrightarrow> x \<in> set (ns_rows s)" if "row_name x = m" for x
      using other g(2) that by (metis (no_types, lifting) imageE image_eqI list.set_map rows(1))
  qed
qed

text \<open>A row that is not the user's own is kept by every operation on the user's own rows.\<close>

definition keeps :: "string \<times> string \<Rightarrow> name_store \<Rightarrow> name_store \<Rightarrow> bool" where
  "keeps n s s' \<longleftrightarrow> names_ok s' \<and> get_by_name n s' = get_by_name n s"

lemma keeps_refl [simp]: "names_ok s \<Longrightarrow> keeps n s s" by (simp add: keeps_def)



lemma insert_fresh_ok: "names_ok s \<Longrightarrow> names_ok (snd (insert_fresh cfg f now user kind sub d s))"
  using names.add_ok(1) by (auto simp: insert_fresh_def Let_def split: option.split)












lemma standing_Live: "reservation_standing_of now q w = Live \<longleftrightarrow> (\<forall>e. rv_expiresAt w = Some e \<longrightarrow> \<not> e < now)"
  by (auto simp: reservation_standing_of_def split: option.splits)


section \<open>One operation of another user\<close>


definition ex_names :: name_store where
  "ex_names = \<lparr>ns_rows = [(fresh_row ''u1'' ''demo'' ''x.org'' (Some (5 * 24 * hour)) 0)\<lparr>rv_id := 1\<rparr>,
     (fresh_row ''u1'' [] ''acme.com'' None 0)\<lparr>rv_id := 2\<rparr>], ns_nextID = 3\<rparr>"

definition ex_name_config :: server_config where
  "ex_name_config = \<lparr>cf_domains = [''x.org''], cf_tunnelDomains = [], cf_roleSettings = [], cf_defaultMaxReservations = 2,
     cf_adminMaxReservations = None, cf_ownerMaxReservations = None, cf_defaultMaxCustomDomains = 1,
     cf_adminMaxCustomDomains = None, cf_ownerMaxCustomDomains = None, cf_defaultMaxActiveTunnels = 0,
     cf_adminMaxActiveTunnels = None, cf_ownerMaxActiveTunnels = None, cf_maxTunnelRateLimit = 0,
     cf_allowClientAutoReservation = True, cf_subdomainQuarantineDays = 7,
     cf_bandwidthQuota = \<lparr>bq_defaultBytes = 0, bq_throttlePercent = 0, bq_throttleRateLimit = 0, bq_periodDays = 30\<rparr>,
     cf_neverExpiresTokens = [], cf_neverExpiresSubdomains = [], cf_neverExpiresCustomDomains = []\<rparr>"

lemma ex_names_ok: "names_ok ex_names"
  by (simp add: names_ok_def ex_names_def fresh_row_def row_name_def)

lemma ex_names_demo: "get_by_name (''demo'', ''x.org'') ex_names =
    Some (scan_row ((fresh_row ''u1'' ''demo'' ''x.org'' (Some (5 * 24 * hour)) 0)\<lparr>rv_id := 1\<rparr>))"
  by (simp add: get_by_name_def ex_names_def row_name_def fresh_row_def)

lemma no_faults_simps [simp]:
  "df_read no_faults d = False" "df_reread no_faults d = False" "df_list no_faults = False"
  "df_delete no_faults i = False" "df_create no_faults d = False" "df_update no_faults i = False"
  by (simp_all add: no_faults_def)

section \<open>The table stays well formed\<close>

lemma resolve_ok: "names_ok s \<Longrightarrow> names_ok (snd (resolve_subdomain_reservations cfg f now sub ds uid userRec s))"
proof (induction ds arbitrary: s)
  case (Cons d ds)
  have "names_ok (snd (case resolve_subdomain_reservations cfg f now sub ds uid userRec s1 of
      (Inl e, s'') \<Rightarrow> (Inl e, s'') | (Inr xs, s'') \<Rightarrow> (Inr (g xs), s'')))" if "names_ok s1" for s1 and g :: "string list \<Rightarrow> string list"
    using Cons.IH [OF that] by (auto split: prod.splits sum.splits)
  then show ?case using Cons.prems by (auto simp: Let_def split: option.split standing.split)
qed simp

lemma apply_policy_ok: "names_ok s \<Longrightarrow> names_ok (snd (apply_subdomain_reservation_policy cfg f now sub ds user userRec s))"
  using resolve_ok [of s cfg f now sub ds "u_id user" userRec] create_reservations_keep(1)
  by (auto simp: apply_subdomain_reservation_policy_def split: prod.splits sum.splits)

lemma resolve_access_ok: "names_ok s \<Longrightarrow> names_ok (snd (resolve_access_controls f sub ds uid passcode whitelist s))"
  by (induction ds arbitrary: s) (auto simp: Let_def case_prod_beta update_row_keeps(1) split: option.split)

lemma create_custom_reservation_ok: "names_ok s \<Longrightarrow> names_ok (snd (create_custom_reservation cfg f now d user userRec s))"
  by (simp add: create_custom_reservation_def Let_def reserve_name_keeps(1))

lemma finish_custom_domain_ok: "names_ok s \<Longrightarrow> names_ok (snd (finish_custom_domain cfg f now user d s))"
  by (simp add: finish_custom_domain_def Let_def insert_fresh_ok)

lemmas portal_ok = create_custom_reservation_ok finish_custom_domain_ok insert_fresh_ok update_row_keeps(1)

lemma promote_ok: "names_ok s \<Longrightarrow> names_ok (snd (promote_reservation cfg f now user sub d s))"
  by (auto simp: promote_reservation_def Let_def portal_ok split: option.split)

lemma name_step_ok:
  assumes "names_ok s"
  shows "names_ok (name_step cfg f now u op s)"
proof (cases op)
  case (Register_custom d userRec)
  then show ?thesis using assms
    by (auto simp: reserve_custom_domain_def portal_ok split: option.split standing.split)
next
  case (Portal_create sub d)
  then show ?thesis using assms
    by (auto simp: create_reservation_def Let_def portal_ok split: option.split standing.split)
next
  case (Portal_custom d)
  then show ?thesis using assms
    by (auto simp: create_custom_domain_def Let_def portal_ok split: option.split standing.split)
next
  case (Portal_promote sub leases)
  then show ?thesis using assms
    by (auto simp: handle_promote_reservation_def Let_def promote_ok split: option.split)
qed (use assms in \<open>auto simp: apply_policy_ok resolve_access_ok delete_reservation_def request_extension_def
    store_row_def portal_ok split: option.split\<close>)

text \<open>Whatever users, administrators and the sweep do to the table of reserved names, with any queries
  failing on the way, no two rows ever hold one name and identifiers stay unique and fresh, so every
  look-up by name or by identifier means one row.\<close>

theorem name_table_well_formed:
  assumes "names_ok s"
  shows "names_ok (name_step cfg f now u op s) \<and>
    names_ok (snd (admin_approve_extension cfg f now i days permanent s)) \<and>
    names_ok (snd (admin_demote_reservation cfg f users now i s)) \<and>
    names_ok (snd (check_expiring_reservations cfg f users sent now s))"
proof (intro conjI)
  show "names_ok (name_step cfg f now u op s)" by (rule name_step_ok [OF assms])
  show "names_ok (snd (admin_approve_extension cfg f now i days permanent s))"
    using assms by (auto simp: admin_approve_extension_def store_row_def Let_def portal_ok split: option.split)
  show "names_ok (snd (admin_demote_reservation cfg f users now i s))"
    using assms by (auto simp: admin_demote_reservation_def store_row_def portal_ok split: option.split)
  have "names_ok (snd (warn_row cfg f users sent now v st))" if "names_ok (snd st)" for v st
    using that by (auto simp: warn_row_def portal_ok split: option.split)
  then have "names_ok (snd (fold (warn_row cfg f users sent now) vs st))" if "names_ok (snd st)" for vs st
    using that by (induction vs arbitrary: st) simp_all
  then show "names_ok (snd (check_expiring_reservations cfg f users sent now s))"
    using assms by (simp add: check_expiring_reservations_def)
qed

theorem name_table_well_formed_witness:
  "names_ok (name_step ex_name_config no_faults 7 (ex_user ''u2'' ''user'') (Portal_create ''beta'' ''x.org'') ex_names)"
  using name_table_well_formed [OF ex_names_ok] by blast

section \<open>Who can take a name\<close>






section \<open>What a registration holds\<close>

lemma reservation_expiry_later: "reservation_expiry cfg kind u now = Some e \<Longrightarrow> now < e"
  by (auto simp: reservation_expiry_def resolve_expiry_under_policy_def Let_def default_subdomain_expiry_days_def
      intro!: add_days_later split: if_splits)

definition holds :: "time \<Rightarrow> string \<Rightarrow> string \<times> string \<Rightarrow> name_store \<Rightarrow> bool" where
  "holds now uid n s \<longleftrightarrow>
     (\<exists>w. get_by_name n s = Some w \<and> rv_userID w = uid \<and> (\<forall>e. rv_expiresAt w = Some e \<longrightarrow> \<not> e < now))"

lemma reserve_names_hold:
  assumes "names_ok s" "d \<in> set ds \<or> holds now (u_id user) (sub, d) s"
  shows "holds now (u_id user) (sub, d) (fold (\<lambda>d. reserve_name no_faults
    (fresh_row (u_id user) sub d (reservation_expiry (Some cfg) kind user now) now)) ds s)"
  using assms
proof (induction ds arbitrary: s)
  case (Cons x ds)
  let ?v = "fresh_row (u_id user) sub x (reservation_expiry (Some cfg) kind user now) now"
  have "holds now (u_id user) (sub, d) (reserve_name no_faults ?v s)" if "d = x"
  proof -
    obtain i where i: "get_by_name (sub, x) (reserve_name no_faults ?v s) = Some (scan_row (?v\<lparr>rv_id := i\<rparr>))"
      using reserve_name_takes [OF Cons.prems(1), of no_faults ?v] by auto
    have "\<not> e < now" if "reservation_expiry (Some cfg) kind user now = Some e" for e
      using reservation_expiry_later [OF that] by simp
    with i show ?thesis using that by (simp add: holds_def fresh_row_def)
  qed
  moreover have "holds now (u_id user) (sub, d) (reserve_name no_faults ?v s)" if "d \<noteq> x" "holds now (u_id user) (sub, d) s"
    using that reserve_name_keeps(2) [OF Cons.prems(1), of "(sub, d)" ?v no_faults] by (simp add: holds_def)
  ultimately show ?case
    using Cons.IH [OF reserve_name_keeps(1) [OF Cons.prems(1)]] Cons.prems(2) by auto
qed simp

lemma resolve_other:
  assumes "resolve_subdomain_reservations cfg f now sub ds uid userRec s = (r, s')" "names_ok s" "d \<notin> set ds"
  shows "get_by_name (sub, d) s' = get_by_name (sub, d) s"
  using assms
proof (induction ds arbitrary: s r)
  case (Cons x ds)
  have del: "get_by_name (sub, d) (try_delete f (rv_id v) s) = get_by_name (sub, d) s" if "get_by_name (sub, x) s = Some v" for v
    using try_delete_other [OF Cons.prems(2) that] Cons.prems(3) by simp
  show ?case using Cons.prems Cons.IH [OF _ names_ok_try_delete] Cons.IH del
    by (fastforce simp: Let_def split: option.splits standing.splits if_splits prod.splits sum.splits)
qed simp

lemma resolve_held:
  assumes "resolve_subdomain_reservations cfg no_faults now sub ds uid userRec s = (Inr xs, s')" "names_ok s" "d \<in> set ds"
  shows "d \<in> set xs \<or> holds now uid (sub, d) s'"
  using assms
proof (induction ds arbitrary: s xs)
  case (Cons x ds)
  let ?q = "cf_subdomainQuarantineDays cfg"
  show ?case
  proof (cases "d \<in> set ds")
    case True
    then show ?thesis using Cons.prems(1,2) Cons.IH
      by (fastforce simp: Let_def try_delete_def split: option.splits standing.splits if_splits prod.splits sum.splits)
  next
    case False
    then have dx: "d = x" using Cons.prems(3) by simp
    show ?thesis
    proof (cases "\<exists>w. get_by_name (sub, d) s = Some w \<and> reservation_standing_of now ?q w = Live")
      case True
      then obtain w where w: "get_by_name (sub, d) s = Some w" "reservation_standing_of now ?q w = Live" by blast
      then have uid: "rv_userID w = uid"
        and tl: "\<exists>r. resolve_subdomain_reservations cfg no_faults now sub ds uid userRec s = (r, s')"
        using Cons.prems(1) dx by (auto simp: Let_def split: if_splits prod.splits sum.splits)
      have "holds now uid (sub, d) s" using w uid by (auto simp: holds_def standing_Live)
      moreover have "get_by_name (sub, d) s' = get_by_name (sub, d) s"
        using tl False Cons.prems(2) resolve_other by blast
      ultimately show ?thesis by (simp add: holds_def)
    next
      case False
      then show ?thesis using Cons.prems(1) dx
        by (auto simp: Let_def split: option.splits standing.splits if_splits prod.splits sum.splits)
    qed
  qed
qed simp

lemma apply_policy_cases:
  assumes "apply_subdomain_reservation_policy cfg f now sub ds user userRec s = (None, s')"
  obtains xs s1 where "resolve_subdomain_reservations cfg f now sub ds (u_id user) userRec s = (Inr xs, s1)"
    "create_subdomain_reservations cfg f now sub xs user userRec s1 = (None, s')"
  using assms by (auto simp: apply_subdomain_reservation_policy_def split: prod.splits sum.splits)

lemma create_reservations_None:
  assumes "create_subdomain_reservations cfg f now sub xs user userRec s = (None, s')"
  shows "s' = fold (\<lambda>d. reserve_name f
      (fresh_row (u_id user) sub d (reservation_expiry (Some cfg) Kind_subdomain user now) now)) xs s"
  using assms by (auto simp: create_subdomain_reservations_def Let_def split: if_splits)

text \<open>A registration the policy lets through holds its name: with a database that answers, the user has a
  live reservation of the name on every domain of the request.\<close>

theorem registered_names_are_held:
  assumes "names_ok s" "apply_subdomain_reservation_policy cfg no_faults now sub ds user userRec s = (None, s')" "d \<in> set ds"
  shows "\<exists>w. get_by_name (sub, d) s' = Some w \<and> rv_userID w = u_id user \<and>
    reservation_standing_of now (cf_subdomainQuarantineDays cfg) w = Live"
proof (rule apply_policy_cases [OF assms(2)])
  fix xs s1
  assume r: "resolve_subdomain_reservations cfg no_faults now sub ds (u_id user) userRec s = (Inr xs, s1)"
    and c: "create_subdomain_reservations cfg no_faults now sub xs user userRec s1 = (None, s')"
  have ok: "names_ok s1" using resolve_ok [OF assms(1)] r by (metis snd_conv)
  have "d \<in> set xs \<or> holds now (u_id user) (sub, d) s1" using resolve_held [OF r assms(1,3)] .
  then have "holds now (u_id user) (sub, d) s'"
    unfolding create_reservations_None [OF c] by (rule reserve_names_hold [OF ok])
  then show ?thesis by (simp add: holds_def standing_Live)
qed

theorem registered_names_are_held_witness:
  "\<exists>w. get_by_name (''beta'', ''x.org'') (snd (apply_subdomain_reservation_policy ex_name_config no_faults 7 ''beta'' [''x.org'']
      (ex_user ''u2'' ''user'') None ex_names)) = Some w \<and> rv_userID w = ''u2'' \<and>
    reservation_standing_of 7 7 w = Live"
proof -
  have "fst (apply_subdomain_reservation_policy ex_name_config no_faults 7 ''beta'' [''x.org''] (ex_user ''u2'' ''user'') None ex_names) = None"
    by (simp add: apply_subdomain_reservation_policy_def get_by_name_def ex_names_def row_name_def fresh_row_def
        can_user_auto_reserve_def ex_name_config_def create_subdomain_reservations_def active_count_def list_by_user_def ex_user_def)
  then have "apply_subdomain_reservation_policy ex_name_config no_faults 7 ''beta'' [''x.org''] (ex_user ''u2'' ''user'') None ex_names =
      (None, snd (apply_subdomain_reservation_policy ex_name_config no_faults 7 ''beta'' [''x.org''] (ex_user ''u2'' ''user'') None ex_names))"
    by (metis prod.collapse)
  from registered_names_are_held [OF ex_names_ok this, of "''x.org''"] show ?thesis by (simp add: ex_user_def ex_name_config_def)
qed

section \<open>The quota\<close>

lemma counts_against_scan [simp]: "counts_against now kind (scan_row v) = counts_against now kind v"
  by (simp add: counts_against_def)

lemma active_count_rows:
  "active_count now kind uid s = int (length (filter (\<lambda>v. rv_userID v = uid \<and> counts_against now kind v) (ns_rows s)))"
  by (simp add: active_count_def list_by_user_def filter_map comp_def rev_filter [symmetric] filter_sort conj_commute)

lemma active_count_delete: "active_count now kind uid (delete_row i s) \<le> active_count now kind uid s"
proof -
  have "length (filter P (filter Q xs)) \<le> length (filter P xs)" for P Q and xs :: "reservation list"
    by (induction xs) auto
  then show ?thesis by (simp add: active_count_rows delete_row_def)
qed

lemma active_count_try_delete: "active_count now kind uid (try_delete f i s) \<le> active_count now kind uid s"
  by (simp add: try_delete_def active_count_delete)

lemma active_count_create: "create_row v s = Some s' \<Longrightarrow> active_count now kind uid s' \<le> active_count now kind uid s + 1"
  by (auto simp: create_row_def active_count_rows split: if_splits)

lemma active_count_reserve: "active_count now kind uid (reserve_name f v s) \<le> active_count now kind uid s + 1"
proof -
  obtain s1 where "s1 = s \<or> (\<exists>w. get_by_name (row_name v) s = Some w \<and> s1 = try_delete f (rv_id w) s)"
    "reserve_name f v s = s1 \<or> create_row v s1 = Some (reserve_name f v s)"
    using reserve_name_shape [of s v f] by blast
  moreover from this(1) have "active_count now kind uid s1 \<le> active_count now kind uid s"
    using active_count_try_delete by auto
  ultimately show ?thesis using active_count_create [of v s1] by (metis add_increasing2 add_mono order_refl order_trans zero_le_one)
qed

lemma active_count_resolve:
  "active_count now kind uid (snd (resolve_subdomain_reservations cfg f t sub ds u userRec s)) \<le> active_count now kind uid s"
proof (induction ds arbitrary: s)
  case (Cons d ds)
  have "active_count now kind uid (snd (case resolve_subdomain_reservations cfg f t sub ds u userRec s1 of
      (Inl e, s'') \<Rightarrow> (Inl e, s'') | (Inr xs, s'') \<Rightarrow> (Inr (g xs), s''))) \<le> active_count now kind uid s"
    if "active_count now kind uid s1 \<le> active_count now kind uid s" for s1 and g :: "string list \<Rightarrow> string list"
    using Cons.IH [of s1] that by (auto split: prod.splits sum.splits)
  then show ?case using active_count_try_delete by (auto simp: Let_def split: option.split standing.split)
qed simp

text \<open>Registering never takes a user over their reservation quota: where the listing of their rows
  answers, the count of their unexpired names afterwards is at most the limit or what it was before.\<close>

theorem registration_respects_quota:
  assumes "\<not> df_list f" "0 \<le> limit"
    and "limit = (case userRec of None \<Rightarrow> cf_defaultMaxReservations cfg | Some u \<Rightarrow> get_user_max_reservations cfg u)"
  shows "active_count now Kind_subdomain (u_id user) (snd (apply_subdomain_reservation_policy cfg f now sub ds user userRec s))
    \<le> max limit (active_count now Kind_subdomain (u_id user) s)"
proof -
  let ?c = "active_count now Kind_subdomain (u_id user)"
  obtain res s1 where r: "resolve_subdomain_reservations cfg f now sub ds (u_id user) userRec s = (res, s1)" by fastforce
  have s1: "?c s1 \<le> ?c s" using active_count_resolve [of now Kind_subdomain "u_id user" cfg f now sub ds "u_id user" userRec s] r by simp
  have fold: "?c (fold (\<lambda>d. reserve_name f (g d)) xs t) \<le> ?c t + int (length xs)" for g xs t
  proof (induction xs arbitrary: t)
    case (Cons x xs)
    show ?case using Cons.IH [of "reserve_name f (g x) t"] active_count_reserve [of now Kind_subdomain "u_id user" f "g x" t] by simp
  qed simp
  have "?c (snd (create_subdomain_reservations cfg f now sub xs user userRec s1)) \<le> max limit (?c s1)" for xs
    using order_trans [OF fold [of _ xs s1]] assms
    by (auto simp: create_subdomain_reservations_def Let_def le_max_iff_disj)
  then have "?c (snd (create_subdomain_reservations cfg f now sub xs user userRec s1)) \<le> max limit (?c s)" for xs
    using s1 by (meson max.mono order_refl order_trans)
  moreover have "?c s1 \<le> max limit (?c s)" using s1 by simp
  ultimately show ?thesis using r by (cases res) (simp_all add: apply_subdomain_reservation_policy_def)
qed

theorem registration_respects_quota_witness:
  "active_count 7 Kind_subdomain (u_id (ex_user ''u2'' ''user''))
     (snd (apply_subdomain_reservation_policy ex_name_config no_faults 7 ''beta'' [''x.org'', ''y.org''] (ex_user ''u2'' ''user'') None ex_names))
   \<le> max 2 (active_count 7 Kind_subdomain (u_id (ex_user ''u2'' ''user'')) ex_names)"
  by (rule registration_respects_quota) (simp_all add: ex_name_config_def)

section \<open>What the policy lets through\<close>

text \<open>
  The decision on the names of a registration, told by the rows alone: another user's row withholds its name until the
  quarantine after its expiry is over, and what the user does not hold already has to fit the quota.
\<close>

definition row_seen :: "db_faults \<Rightarrow> string \<times> string \<Rightarrow> name_store \<Rightarrow> reservation option" where
  "row_seen f n s = (if df_read f (snd n) then None else get_by_name n s)"

definition withholds :: "time \<Rightarrow> int \<Rightarrow> string \<Rightarrow> reservation \<Rightarrow> bool" where
  "withholds now quarantine uid v \<longleftrightarrow>
     rv_userID v \<noteq> uid \<and> (case rv_expiresAt v of None \<Rightarrow> True | Some e \<Rightarrow> now \<le> e \<or> now < add_days e quarantine)"

definition held_already :: "time \<Rightarrow> string \<Rightarrow> reservation option \<Rightarrow> bool" where
  "held_already now uid r \<longleftrightarrow>
     (case r of None \<Rightarrow> False
      | Some v \<Rightarrow> rv_userID v = uid \<and> (case rv_expiresAt v of None \<Rightarrow> True | Some e \<Rightarrow> now \<le> e))"

definition names_allowed :: "server_config \<Rightarrow> resource_kind \<Rightarrow> user option \<Rightarrow> int" where
  "names_allowed cfg kind userRec =
     (if kind = Kind_custom_domain
      then (case userRec of None \<Rightarrow> cf_defaultMaxCustomDomains cfg | Some u \<Rightarrow> get_user_max_custom_domains cfg u)
      else (case userRec of None \<Rightarrow> cf_defaultMaxReservations cfg | Some u \<Rightarrow> get_user_max_reservations cfg u))"

definition names_granted ::
  "server_config \<Rightarrow> db_faults \<Rightarrow> time \<Rightarrow> resource_kind \<Rightarrow> string \<Rightarrow> string list \<Rightarrow> string \<Rightarrow> user option \<Rightarrow> name_store \<Rightarrow> bool" where
  "names_granted cfg f now kind sub ds uid userRec s \<longleftrightarrow>
     (\<forall>d\<in>set ds. case row_seen f (sub, d) s of None \<Rightarrow> can_user_auto_reserve cfg userRec
        | Some v \<Rightarrow> \<not> withholds now (cf_subdomainQuarantineDays cfg) uid v) \<and>
     (let new = filter (\<lambda>d. \<not> held_already now uid (row_seen f (sub, d) s)) ds; limit = names_allowed cfg kind userRec
      in new = [] \<or> df_list f \<or> limit < 0 \<or> active_count now kind uid s + int (length new) \<le> limit)"

lemma standing_not_withheld:
  "reservation_standing_of now q v = Lapsed \<Longrightarrow> \<not> withholds now q uid v \<and> \<not> held_already now uid (Some v)"
  "rv_userID v = uid \<Longrightarrow> \<not> withholds now q uid v"
  "rv_userID v = uid \<Longrightarrow> held_already now uid (Some v) \<longleftrightarrow> reservation_standing_of now q v = Live"
  by (auto simp: reservation_standing_of_def withholds_def held_already_def not_le split: option.splits if_splits)

lemma lapsed_not_counted: "reservation_standing_of now q v = Lapsed \<Longrightarrow> \<not> counts_against now kind v"
  by (auto simp: reservation_standing_of_def counts_against_def split: option.splits if_splits)

lemma active_count_lapsed:
  assumes "names_ok s" "get_by_name n s = Some v" "reservation_standing_of now q v = Lapsed"
  shows "active_count now kind uid (try_delete f (rv_id v) s) = active_count now kind uid s"
proof -
  obtain w where w: "w \<in> set (ns_rows s)" "v = scan_row w"
    using assms(2) by (auto simp: get_by_name_def dest: find_SomeD)
  have "\<not> counts_against now kind x" if "x \<in> set (ns_rows s)" "rv_id x = rv_id v" for x
    using same_row [OF assms(1) that(1) w(1)] that(2) w(2) lapsed_not_counted [OF assms(3), of kind] by simp
  then have "filter (\<lambda>x. rv_userID x = uid \<and> counts_against now kind x) (filter (\<lambda>x. rv_id x \<noteq> rv_id v) (ns_rows s)) =
      filter (\<lambda>x. rv_userID x = uid \<and> counts_against now kind x) (ns_rows s)"
    by (auto simp: filter_filter intro!: filter_cong)
  then show ?thesis by (simp add: try_delete_def active_count_rows delete_row_def)
qed

lemma row_seen_deleted:
  assumes "names_ok s" "get_by_name (sub, d) s = Some v"
  shows "row_seen f (sub, x) (try_delete f (rv_id v) s) = row_seen f (sub, x) s \<or>
    x = d \<and> row_seen f (sub, x) (try_delete f (rv_id v) s) = None"
  using try_delete_other [OF assms, of "(sub, x)" f] names_ok_delete
  by (cases "x = d") (auto simp: row_seen_def try_delete_def get_by_name_delete [OF assms])

lemma resolve_granted:
  assumes "resolve_subdomain_reservations cfg f now sub ds uid userRec s = (Inr xs, s1)" "names_ok s"
  shows "(\<forall>d\<in>set ds. case row_seen f (sub, d) s of None \<Rightarrow> can_user_auto_reserve cfg userRec
        | Some v \<Rightarrow> \<not> withholds now (cf_subdomainQuarantineDays cfg) uid v) \<and>
     xs = filter (\<lambda>d. \<not> held_already now uid (row_seen f (sub, d) s)) ds \<and>
     active_count now kind u s1 = active_count now kind u s"
  using assms
proof (induction ds arbitrary: xs s)
  case (Cons d ds)
  let ?q = "cf_subdomainQuarantineDays cfg"
  let ?ok = "\<lambda>s d. case row_seen f (sub, d) s of None \<Rightarrow> can_user_auto_reserve cfg userRec | Some v \<Rightarrow> \<not> withholds now ?q uid v"
  show ?case
  proof (cases "row_seen f (sub, d) s")
    case None
    then have "df_read f d \<or> \<not> df_read f d \<and> get_by_name (sub, d) s = None" by (simp add: row_seen_def split: if_splits)
    moreover have "\<not> held_already now uid None" by (simp add: held_already_def)
    ultimately show ?thesis
      using Cons.prems Cons.IH [where s = s] None by (auto simp: Let_def split: if_splits prod.splits sum.splits)
  next
    case (Some v)
    then have v: "\<not> df_read f d" "get_by_name (sub, d) s = Some v" by (auto simp: row_seen_def split: if_splits)
    show ?thesis
    proof (cases "reservation_standing_of now ?q v")
      case Lapsed
      let ?s = "try_delete f (rv_id v) s"
      obtain ys where ys: "resolve_subdomain_reservations cfg f now sub ds uid userRec ?s = (Inr ys, s1)" "xs = d # ys"
        using Cons.prems(1) v Lapsed by (auto simp: Let_def split: prod.splits sum.splits)
      note ih = Cons.IH [OF ys(1) names_ok_try_delete [OF Cons.prems(2)]]
      note seen = row_seen_deleted [OF Cons.prems(2) v(2), of f]
      note lapsed = standing_not_withheld(1) [OF Lapsed, of uid]
      have "?ok s x" if "x \<in> set ds" for x
        using ih that seen [of x] Some lapsed by (auto split: option.splits)
      moreover have "held_already now uid (row_seen f (sub, x) ?s) = held_already now uid (row_seen f (sub, x) s)" for x
        using seen [of x] Some lapsed by (auto simp: held_already_def)
      ultimately show ?thesis
        using ih ys(2) Some lapsed active_count_lapsed [OF Cons.prems(2) v(2) Lapsed, of kind u f] by auto
    qed (use Cons.prems Cons.IH [where s = s] Some v standing_not_withheld(2) [where v = v and uid = uid and now = now and q = ?q] standing_not_withheld(3) [where v = v and uid = uid and now = now and q = ?q] in
        \<open>auto simp: Let_def split: if_splits prod.splits sum.splits\<close>)
  qed
qed simp

lemma policy_granted:
  assumes "apply_subdomain_reservation_policy cfg f now sub ds user userRec s = (None, s')" "names_ok s"
  shows "names_granted cfg f now Kind_subdomain sub ds (u_id user) userRec s"
proof (rule apply_policy_cases [OF assms(1)])
  fix xs s1
  assume r: "resolve_subdomain_reservations cfg f now sub ds (u_id user) userRec s = (Inr xs, s1)"
    and c: "create_subdomain_reservations cfg f now sub xs user userRec s1 = (None, s')"
  note g = resolve_granted [OF r assms(2), of Kind_subdomain "u_id user"]
  show ?thesis
    using g c by (auto simp: names_granted_def names_allowed_def create_subdomain_reservations_def Let_def split: if_splits)
qed

lemma custom_granted:
  assumes "reserve_custom_domain cfg f now d user userRec s = (None, s')" "names_ok s"
  shows "names_granted cfg f now Kind_custom_domain [] [d] (u_id user) userRec s"
proof (cases "row_seen f ([], d) s")
  case None
  then show ?thesis
    using assms(1) by (auto simp: names_granted_def names_allowed_def held_already_def row_seen_def reserve_custom_domain_def create_custom_reservation_def
        Let_def split: if_splits)
next
  case (Some v)
  then have v: "\<not> df_read f d" "get_by_name ([], d) s = Some v" by (auto simp: row_seen_def split: if_splits)
  let ?q = "cf_subdomainQuarantineDays cfg"
  show ?thesis
  proof (cases "reservation_standing_of now ?q v")
    case Lapsed
    then show ?thesis
      using assms(1) v Some standing_not_withheld(1) [where v = v and uid = "u_id user" and now = now and q = ?q] active_count_lapsed [OF assms(2) v(2), of now ?q Kind_custom_domain "u_id user" f]
      by (auto simp: names_granted_def names_allowed_def reserve_custom_domain_def create_custom_reservation_def Let_def split: if_splits)
  qed (use assms(1) v Some standing_not_withheld(2) [where v = v and uid = "u_id user" and now = now and q = ?q]
      standing_not_withheld(3) [where v = v and uid = "u_id user" and now = now and q = ?q] in
      \<open>auto simp: names_granted_def names_allowed_def reserve_custom_domain_def create_custom_reservation_def Let_def split: if_splits\<close>)
qed

section \<open>How a name changes hands\<close>

text \<open>A read that fails gives a name away: where clients may reserve as they connect, one failed look-up
  of a name, with every later query answering, ends with the row of whoever holds it deleted, live or
  not, and the name reserved for the user who asked.\<close>

theorem failed_read_gives_name_away:
  assumes "names_ok s" "df_read f d" "\<not> df_reread f d" "\<And>i. \<not> df_delete f i" "\<not> df_create f d"
    and "can_user_auto_reserve cfg userRec"
    and "limit = (case userRec of None \<Rightarrow> cf_defaultMaxReservations cfg | Some u \<Rightarrow> get_user_max_reservations cfg u)"
    and "limit < 0 \<or> \<not> df_list f \<and> active_count now Kind_subdomain (u_id user) s < limit"
  shows "\<exists>w. fst (apply_subdomain_reservation_policy cfg f now sub [d] user userRec s) = None \<and>
    get_by_name (sub, d) (snd (apply_subdomain_reservation_policy cfg f now sub [d] user userRec s)) = Some w \<and>
    rv_userID w = u_id user"
proof -
  let ?v = "fresh_row (u_id user) sub d (reservation_expiry (Some cfg) Kind_subdomain user now) now"
  have "resolve_subdomain_reservations cfg f now sub [d] (u_id user) userRec s = (Inr [d], s)"
    using assms(2,6) by simp
  then have "apply_subdomain_reservation_policy cfg f now sub [d] user userRec s = (None, reserve_name f ?v s)"
    using assms(7,8) by (auto simp: apply_subdomain_reservation_policy_def create_subdomain_reservations_def Let_def)
  moreover obtain i where "get_by_name (sub, d) (reserve_name f ?v s) = Some (scan_row (?v\<lparr>rv_id := i\<rparr>))"
    using reserve_name_takes [OF assms(1), of f ?v] assms(3-5)
    by (fastforce simp: fresh_row_fields)
  ultimately show ?thesis by (simp add: fresh_row_def)
qed

theorem failed_read_gives_name_away_witness:
  "\<exists>w. fst (apply_subdomain_reservation_policy ex_name_config (no_faults\<lparr>df_read := \<lambda>_. True\<rparr>) 7 ''demo'' [''x.org'']
      (ex_user ''u2'' ''user'') None ex_names) = None \<and>
    get_by_name (''demo'', ''x.org'') (snd (apply_subdomain_reservation_policy ex_name_config (no_faults\<lparr>df_read := \<lambda>_. True\<rparr>) 7 ''demo''
      [''x.org''] (ex_user ''u2'' ''user'') None ex_names)) = Some w \<and> rv_userID w = u_id (ex_user ''u2'' ''user'')"
  by (rule failed_read_gives_name_away [OF ex_names_ok, where limit = 2])
    (simp_all add: can_user_auto_reserve_def ex_name_config_def active_count_rows ex_names_def fresh_row_def ex_user_def)

text \<open>Promoting a live tunnel ignores the quarantine: it gives the user a name whose row is another
  user's and quarantined, for which the portal's own form answers that it is taken.\<close>

theorem promotion_ignores_quarantine:
  assumes "names_ok s" "get_by_name (sub, d) s = Some w" "rv_userID w \<noteq> u_id user"
    and "reservation_standing_of now (cf_subdomainQuarantineDays cfg) w = Quarantined"
    and "sub \<noteq> []" "to_lower (trim_space sub) = sub" "to_lower (trim_space d) = d" "is_valid_subdomain sub"
    and "d \<in> set (cf_domains cfg)" "portal_max_reservations cfg user < 0"
    and "l \<in> set leases" "l_userID l = u_id user" "l_subdomainPrefix l = sub" "l_fullHost l = sub @ ''.'' @ d"
    and "\<And>l'. l' \<in> set leases \<Longrightarrow> l_userID l' = u_id user \<Longrightarrow> equal_fold (l_subdomainPrefix l') sub \<Longrightarrow> l' = l"
    and "CHR ''.'' \<notin> set sub" "d \<noteq> []"
  shows "fst (create_reservation cfg no_faults now user sub d s) = Inl Portal_conflict \<and>
    (\<exists>v. get_by_name (sub, d) (snd (handle_promote_reservation cfg no_faults now user sub leases s)) = Some v \<and>
      rv_userID v = u_id user)"
proof
  show "fst (create_reservation cfg no_faults now user sub d s) = Inl Portal_conflict"
    using assms by (force simp: create_reservation_def Let_def list_ex_iff equal_fold_def)
  let ?v = "fresh_row (u_id user) sub d (reservation_expiry (Some cfg) Kind_subdomain user now) now"
  have gone: "get_by_name (sub, d) (delete_row (rv_id w) s) = None"
    using get_by_name_delete [OF assms(1,2)] by simp
  then obtain s' where s': "create_row ?v (delete_row (rv_id w) s) = Some s'"
    "get_by_name (sub, d) s' = Some (scan_row (?v\<lparr>rv_id := ns_nextID (delete_row (rv_id w) s)\<rparr>))"
    using create_row_free [of "delete_row (rv_id w) s" ?v] assms(1) by auto
  have expired: "\<not> (case rv_expiresAt w of None \<Rightarrow> True | Some e \<Rightarrow> now < e)"
    using assms(4) by (auto simp: reservation_standing_of_def split: option.splits if_splits)
  have "promote_reservation cfg no_faults now user sub d s = (Inr (?v\<lparr>rv_id := ns_nextID (delete_row (rv_id w) s)\<rparr>), s')"
    using assms(2,10) expired s'(1) by (simp add: promote_reservation_def insert_fresh_def try_delete_def Let_def)
  moreover have "List.find (\<lambda>l. l_userID l = u_id user \<and> equal_fold (l_subdomainPrefix l) sub) leases = Some l"
  proof (cases "List.find (\<lambda>l. l_userID l = u_id user \<and> equal_fold (l_subdomainPrefix l) sub) leases")
    case None
    then show ?thesis using assms(11-13) by (auto simp: find_None_iff equal_fold_def)
  next
    case (Some x)
    then have "x \<in> set leases" "l_userID x = u_id user" "equal_fold (l_subdomainPrefix x) sub"
      by (auto simp: find_Some_iff)
    then show ?thesis using assms(15) Some by simp
  qed
  moreover have "tl (dropWhile (\<lambda>c. c \<noteq> CHR ''.'') (l_fullHost l)) = d" "CHR ''.'' \<in> set (l_fullHost l)"
    using assms(14,16) by (auto simp: dropWhile_append)
  ultimately show "\<exists>v. get_by_name (sub, d) (snd (handle_promote_reservation cfg no_faults now user sub leases s)) = Some v \<and>
      rv_userID v = u_id user"
    using assms(5,6,17) s'(2) by (simp add: handle_promote_reservation_def fresh_row_def)
qed

definition ex_tunnel :: lease where
  "ex_tunnel = (new_lease \<lparr>rq_userID = ''u2'', rq_prefix = ''demo'', rq_ports = [], rq_domains = [],
     rq_rateLimit = 0, rq_clientIP = [], rq_basicAuth = [], rq_addedHeaders = []\<rparr> ''s'' 0 [] 1 2 ''demo.x.org'')"

theorem promotion_ignores_quarantine_witness:
  "fst (create_reservation (ex_name_config\<lparr>cf_defaultMaxReservations := -1\<rparr>) no_faults (6 * 24 * hour) (ex_user ''u2'' ''user'')
     ''demo'' ''x.org'' ex_names) = Inl Portal_conflict"
  by (rule conjunct1 [OF promotion_ignores_quarantine [OF ex_names_ok ex_names_demo, where l = ex_tunnel and leases = "[ex_tunnel]"]])
    (simp_all add: fresh_row_def ex_user_def ex_name_config_def ex_tunnel_def new_lease_def reservation_standing_of_def
      add_days_def hour_def minute_def second_def to_lower_def lower_char_def trim_space_def is_space_def
      is_valid_subdomain_def reserved_subdomains_def subdomain_regex_def is_alnum_def is_digit_def is_label_char_def
      portal_max_reservations_def role_lookup_def)

lemma portal_max_role:
  "u_role u = u_role v \<Longrightarrow> portal_max_reservations cfg u = portal_max_reservations cfg v"
  "u_role u = u_role v \<Longrightarrow> portal_max_custom_domains cfg u = portal_max_custom_domains cfg v"
  by (simp_all only: portal_max_reservations_def portal_max_custom_domains_def)

text \<open>The portal does not know a user's own limit: an administrator's override of the number of names a
  user may hold is what bounds a registration, and nothing the portal looks at.\<close>

theorem portal_limit_ignores_override:
  "portal_max_reservations cfg (u\<lparr>u_maxReservations := n\<rparr>) = portal_max_reservations cfg u \<and>
   get_user_max_reservations cfg (u\<lparr>u_maxReservations := Some m\<rparr>) = m \<and>
   portal_max_custom_domains cfg (u\<lparr>u_maxCustomDomains := n\<rparr>) = portal_max_custom_domains cfg u \<and>
   get_user_max_custom_domains cfg (u\<lparr>u_maxCustomDomains := Some m\<rparr>) = m"
  by (simp add: portal_max_role(1) [of "u\<lparr>u_maxReservations := n\<rparr>" u] portal_max_role(2) [of "u\<lparr>u_maxCustomDomains := n\<rparr>" u]
      get_user_max_reservations_def get_user_max_custom_domains_def)

section \<open>Random names\<close>

lemma domain_taken_any: "domain_taken r sub [] ds \<longleftrightarrow> (\<exists>d\<in>set ds. get_lease r (sub @ ''.'' @ d) \<noteq> None)"
  by (induction ds) (auto split: option.splits)

text \<open>A random name that is granted collides with nothing: no tunnel of any user, here or on any edge,
  answers to it under any of the domains, none of them has a row for it, and it is a name the
  registry accepts as it stands or in lower case. With a database that answers it comes from the first
  ten candidates.\<close>

theorem random_name_is_free:
  assumes "grant_random_subdomain no_faults r els names ds s = Some c" "d \<in> set ds" "to_lower (trim_space c) = c"
  shows "c \<in> set (take 10 names) \<and> is_valid_subdomain c \<and> get_lease r (c @ ''.'' @ d) = None \<and>
    get_by_name (c, d) s = None \<and>
    (\<forall>(uid, ls)\<in>set els. \<forall>el\<in>set ls. \<not> equal_fold (el_fullHost el) (c @ ''.'' @ d))"
proof -
  have c: "c \<in> set (take 10 names)" "\<not> subdomain_held_in_memory r els c ds" "\<not> subdomain_reserved no_faults s c ds"
    using find_SomeD [OF assms(1) [unfolded grant_random_subdomain_def random_subdomain_attempts_def]] by simp_all
  have a: "check_subdomain r c ds = Available" and e: "\<forall>(uid, ls)\<in>set els. \<forall>el\<in>set ls. \<not> holds_name c ds el"
    using c(2) by (auto simp: subdomain_held_in_memory_def list_ex_iff)
  have "to_lower c = c" using assms(3) by (metis to_lower_idem)
  then have "is_valid_subdomain c" "\<not> domain_taken r c [] ds" "c \<noteq> []"
    using a assms(3) by (auto simp: check_subdomain_def check_subdomain_for_user_def is_valid_subdomain_def Let_def
        trim_space_lower split: if_splits)
  moreover have "\<forall>(uid, ls)\<in>set els. \<forall>el\<in>set ls. \<not> equal_fold (el_fullHost el) (c @ ''.'' @ d)"
    using e assms(2) by (fastforce simp: holds_name_def list_ex_iff equal_fold_def to_lower_def split: if_splits)
  ultimately show ?thesis using c(1,3) assms(2)
    by (auto simp: domain_taken_any subdomain_reserved_def list_ex_iff)
qed

theorem random_name_is_free_witness:
  "get_by_name (''acme'', ''x.org'') ex_names = None"
proof -
  have "grant_random_subdomain no_faults new_registry [] [''demo'', ''acme''] [''x.org''] ex_names = Some ''acme''"
    by (simp add: grant_random_subdomain_def random_subdomain_attempts_def subdomain_held_in_memory_def check_subdomain_def
        check_subdomain_for_user_def trim_space_def is_space_def to_lower_def lower_char_def reserved_subdomains_def
        subdomain_regex_def is_alnum_def is_digit_def is_label_char_def get_lease_def new_registry_def
        subdomain_reserved_def get_by_name_def ex_names_def row_name_def fresh_row_def Let_def)
  from random_name_is_free [OF this, of "''x.org''"] show ?thesis
    by (simp add: to_lower_def lower_char_def trim_space_def is_space_def)
qed

end
