(* ===== verification/Consent.thy ===== *)
theory Consent
  imports Accounts
begin

text \<open>
  The two refusals that come with a period of grace: the policy a user has not accepted
  (\<open>policy_consent.go\<close>) and a client older than the minimum (\<open>min_version.go\<close>), the phases both go
  through (\<open>grace.go\<close>), the rows they rest on (\<open>pkg/db/acknowledgement.go\<close>), the comparison of versions
  (\<open>pkg/config/version.go\<close>) and the sweep that mails a warning (\<open>policy_consent_sweep.go\<close>).

  Whether a query fails and whether a mail is accepted are inputs.
\<close>

section \<open>Versions\<close>

text \<open>\<open>Sscanf(p, "%d", &n)\<close> into a zero: an optional sign and digits are read from the front; what does
  not fit 64 bits leaves the zero.\<close>

definition int64_min :: int where "int64_min = - 9223372036854775808"
definition int64_max :: int where "int64_max = 9223372036854775807"

definition sscanf_int :: "string \<Rightarrow> int" where
  "sscanf_int s0 =
     (let s = dropWhile (\<lambda>c. c = CHR '' '') s0;
          signed = (s \<noteq> [] \<and> (hd s = CHR ''-'' \<or> hd s = CHR ''+''));
          ds = takeWhile is_digit (if signed then tl s else s);
          n = (if signed \<and> hd s = CHR ''-'' then - int (digits_val ds) else int (digits_val ds))
      in if ds = [] \<or> n < int64_min \<or> int64_max < n then 0 else n)"

definition version_parts :: "string \<Rightarrow> int list" where
  "version_parts v = map sscanf_int (split_on (CHR ''.'') (trim_prefix v ''v''))"

fun compare_parts :: "int list \<Rightarrow> int list \<Rightarrow> int" where
  "compare_parts [] [] = 0"
| "compare_parts (m # ms) [] = (if m < 0 then -1 else if 0 < m then 1 else compare_parts ms [])"
| "compare_parts [] (n # ns) = (if 0 < n then -1 else if n < 0 then 1 else compare_parts [] ns)"
| "compare_parts (m # ms) (n # ns) = (if m < n then -1 else if n < m then 1 else compare_parts ms ns)"

definition compare_versions :: "string \<Rightarrow> string \<Rightarrow> int" where
  "compare_versions v w = compare_parts (version_parts v) (version_parts w)"

section \<open>Grace\<close>

datatype phase = No_phase | Grace | Warning | Expired

text \<open>A length of days as a 64-bit number of nanoseconds.\<close>

definition days_as_duration :: "int \<Rightarrow> duration" where
  "days_as_duration n = wrap64 (n * (24 * hour))"

text \<open>A user never seen (\<open>None\<close>) is in grace with no deadline.\<close>

definition grace_phase :: "time option \<Rightarrow> time \<Rightarrow> int \<Rightarrow> int \<Rightarrow> phase \<times> time option" where
  "grace_phase firstSeen now graceDays warningDays =
     (case firstSeen of
        None \<Rightarrow> (Grace, None)
      | Some t \<Rightarrow>
          (let deadline = t + days_as_duration graceDays
           in if deadline \<le> now then (Expired, Some deadline)
              else if deadline - days_as_duration warningDays \<le> now then (Warning, Some deadline)
              else (Grace, Some deadline)))"

definition clamp_warning_days :: "int \<Rightarrow> int \<Rightarrow> int \<Rightarrow> int" where
  "clamp_warning_days graceDays configured fallback =
     (if configured \<le> 0 then (if graceDays < fallback then graceDays else fallback)
      else if graceDays < configured then graceDays else configured)"

definition format_grace_remaining :: "int \<Rightarrow> string" where
  "format_grace_remaining secs =
     (if secs \<le> 0 then ''no time''
      else
        (let hours_total = secs div 3600; days = hours_total div 24; hours = hours_total mod 24; minutes = secs div 60
         in if 0 < days then
              (if 0 < hours then itoa days @ ''d '' @ itoa hours @ ''h'' else itoa days @ ''d'')
            else if 0 < hours then itoa hours @ ''h '' @ itoa (minutes mod 60) @ ''m''
            else itoa minutes @ ''m''))"

section \<open>What users have seen and accepted\<close>

record acknowledgement =
  ak_userID :: string
  ak_documentID :: string
  ak_version :: string
  ak_acceptedAt :: time

text \<open>One notice per user, document and version: when it was first seen, when a warning was mailed.\<close>

type_synonym notice_key = "string \<times> string \<times> string"

record notice =
  no_firstSeen :: time
  no_warningSent :: "time option"

record ack_store =
  as_acks :: "acknowledgement list"
  as_notices :: "(notice_key, notice) table"

definition record_acknowledgement :: "acknowledgement \<Rightarrow> ack_store \<Rightarrow> ack_store" where
  "record_acknowledgement a s = s\<lparr>as_acks := as_acks s @ [a]\<rparr>"

definition has_acknowledged :: "notice_key \<Rightarrow> ack_store \<Rightarrow> bool" where
  "has_acknowledged k s \<longleftrightarrow> list_ex (\<lambda>a. (ak_userID a, ak_documentID a, ak_version a) = k) (as_acks s)"

definition list_acknowledgements :: "string \<Rightarrow> ack_store \<Rightarrow> acknowledgement list" where
  "list_acknowledgements uid s = rev (sort_key ak_acceptedAt (filter (\<lambda>a. ak_userID a = uid) (as_acks s)))"

definition get_first_seen :: "notice_key \<Rightarrow> ack_store \<Rightarrow> time option" where
  "get_first_seen k s = map_option no_firstSeen (get (as_notices s) k)"

definition record_first_seen :: "notice_key \<Rightarrow> time \<Rightarrow> ack_store \<Rightarrow> time option \<times> ack_store" where
  "record_first_seen k now s =
     (let s' = (if get (as_notices s) k = None
                then s\<lparr>as_notices := put k \<lparr>no_firstSeen = now, no_warningSent = None\<rparr> (as_notices s)\<rparr> else s)
      in (get_first_seen k s', s'))"

definition mark_warning_notified :: "notice_key \<Rightarrow> time \<Rightarrow> ack_store \<Rightarrow> bool \<times> ack_store" where
  "mark_warning_notified k now s =
     (case get (as_notices s) k of
        Some n \<Rightarrow> (if no_warningSent n = None
                   then (True, s\<lparr>as_notices := put k (n\<lparr>no_warningSent := Some now\<rparr>) (as_notices s)\<rparr>) else (False, s))
      | None \<Rightarrow> (False, s))"

definition clear_warning_notified :: "notice_key \<Rightarrow> ack_store \<Rightarrow> ack_store" where
  "clear_warning_notified k s =
     (case get (as_notices s) k of
        Some n \<Rightarrow> s\<lparr>as_notices := put k (n\<lparr>no_warningSent := None\<rparr>) (as_notices s)\<rparr> | None \<Rightarrow> s)"

definition list_pending_warnings :: "string \<Rightarrow> string \<Rightarrow> time \<Rightarrow> ack_store \<Rightarrow> string list" where
  "list_pending_warnings doc version cutoff s =
     map (fst \<circ> fst) (filter (\<lambda>((_, d, v), n). d = doc \<and> v = version \<and> no_warningSent n = None \<and> no_firstSeen n \<le> cutoff)
       (as_notices s))"

section \<open>The two states\<close>

record notice_config =
  nc_policyVersion :: string
  nc_consentGraceDays :: int
  nc_consentWarningDays :: int
  nc_stopsActiveTunnels :: bool
  nc_minClientVersion :: string
  nc_minVersionGraceDays :: int
  nc_minVersionWarningDays :: int
  nc_portalURL :: string

record grace_state =
  gs_required :: bool
  gs_phase :: phase
  gs_deadline :: "time option"
  gs_secondsRemaining :: int
  gs_acceptedAt :: "time option"

definition quiet :: grace_state where
  "quiet = \<lparr>gs_required = False, gs_phase = No_phase, gs_deadline = None, gs_secondsRemaining = 0, gs_acceptedAt = None\<rparr>"

definition blocking :: "grace_state \<Rightarrow> bool" where
  "blocking g \<longleftrightarrow> gs_required g \<and> gs_phase g = Expired"

definition policy_document_id :: string where "policy_document_id = ''privacy_policy''"
definition min_version_document_id :: string where "min_version_document_id = ''min_client_version''"

definition consent_grace_days :: "notice_config \<Rightarrow> int" where
  "consent_grace_days cfg = (if nc_consentGraceDays cfg \<le> 0 then 14 else nc_consentGraceDays cfg)"

definition consent_warning_days :: "notice_config \<Rightarrow> int" where
  "consent_warning_days cfg = clamp_warning_days (consent_grace_days cfg) (nc_consentWarningDays cfg) 5"

definition min_version_grace_days :: "notice_config \<Rightarrow> int" where
  "min_version_grace_days cfg = (if nc_minVersionGraceDays cfg \<le> 0 then 14 else nc_minVersionGraceDays cfg)"

definition min_version_warning_days :: "notice_config \<Rightarrow> int" where
  "min_version_warning_days cfg = clamp_warning_days (min_version_grace_days cfg) (nc_minVersionWarningDays cfg) 5"

text \<open>The state of a document somebody has seen first at \<open>firstSeen\<close>.\<close>

definition required_state :: "time option \<Rightarrow> time \<Rightarrow> int \<Rightarrow> int \<Rightarrow> grace_state" where
  "required_state firstSeen now graceDays warningDays =
     (case grace_phase firstSeen now graceDays warningDays of
        (ph, deadline) \<Rightarrow> \<lparr>gs_required = True, gs_phase = ph, gs_deadline = deadline,
          gs_secondsRemaining = (case deadline of None \<Rightarrow> 0 | Some d \<Rightarrow> if 0 < d - now then (d - now) div second else 0),
          gs_acceptedAt = None\<rparr>)"

text \<open>Which of the reads fail: the history of acceptances, the notice.\<close>

record ack_faults =
  af_history :: bool
  af_notice :: bool

definition see_notice :: "bool \<Rightarrow> notice_key \<Rightarrow> time \<Rightarrow> ack_store \<Rightarrow> time option \<times> ack_store" where
  "see_notice record k now s = (if record then record_first_seen k now s else (get_first_seen k s, s))"

definition policy_consent_state ::
  "notice_config \<Rightarrow> ack_faults \<Rightarrow> time \<Rightarrow> user option \<Rightarrow> bool \<Rightarrow> ack_store \<Rightarrow> grace_state \<times> ack_store" where
  "policy_consent_state cfg f now userRec record s =
     (case userRec of
        None \<Rightarrow> (quiet, s)
      | Some u \<Rightarrow>
          (let k = (u_id u, policy_document_id, nc_policyVersion cfg)
           in if nc_policyVersion cfg = [] \<or> af_history f then (quiet, s)
              else if has_acknowledged k s then
                (quiet\<lparr>gs_acceptedAt := map_option ak_acceptedAt
                   (List.find (\<lambda>a. ak_documentID a = policy_document_id \<and> ak_version a = nc_policyVersion cfg)
                     (list_acknowledgements (u_id u) s))\<rparr>, s)
              else if af_notice f then (quiet, s)
              else (case see_notice record k now s of
                (firstSeen, s') \<Rightarrow> (required_state firstSeen now (consent_grace_days cfg) (consent_warning_days cfg), s'))))"

definition min_version_state ::
  "notice_config \<Rightarrow> ack_faults \<Rightarrow> time \<Rightarrow> user option \<Rightarrow> string \<Rightarrow> bool \<Rightarrow> ack_store \<Rightarrow> grace_state \<times> ack_store" where
  "min_version_state cfg f now userRec clientVersion record s =
     (case userRec of
        None \<Rightarrow> (quiet, s)
      | Some u \<Rightarrow>
          (let floor_version = nc_minClientVersion cfg
           in if floor_version = [] \<or> clientVersion = [] \<or> clientVersion = ''dev'' \<or>
                0 \<le> compare_versions clientVersion floor_version \<or> af_notice f
              then (quiet, s)
              else (case see_notice record (u_id u, min_version_document_id, floor_version) now s of
                (firstSeen, s') \<Rightarrow>
                  (required_state firstSeen now (min_version_grace_days cfg) (min_version_warning_days cfg), s'))))"

definition record_policy_consent :: "notice_config \<Rightarrow> time \<Rightarrow> user \<Rightarrow> ack_store \<Rightarrow> ack_store" where
  "record_policy_consent cfg now u =
     record_acknowledgement \<lparr>ak_userID = u_id u, ak_documentID = policy_document_id, ak_version = nc_policyVersion cfg,
       ak_acceptedAt = now\<rparr>"

section \<open>The gate of the portal\<close>

text \<open>Paths a user whose acceptance is overdue can still reach: to read the policy, accept it, leave.\<close>

definition open_paths :: "string list" where
  "open_paths = [''/api/me'', ''/api/me/policy-consent'', ''/api/me/policy-consent/remind-later'', ''/api/auth/logout'',
     ''/api/version'', ''/api/i18n'', ''/api/complete-setup'', ''/api/register'', ''/api/deregister'', ''/api/tunnel-status'']"

definition enforce_policy_consent_gate ::
  "notice_config \<Rightarrow> ack_faults \<Rightarrow> time \<Rightarrow> user option \<Rightarrow> string \<Rightarrow> ack_store \<Rightarrow> bool" where
  "enforce_policy_consent_gate cfg f now session path s \<longleftrightarrow>
     nc_policyVersion cfg \<noteq> [] \<and> has_prefix path ''/api/'' \<and> path \<notin> set open_paths \<and>
     \<not> (has_prefix path ''/api/auth/'' \<and> path \<noteq> ''/api/auth/login'') \<and> \<not> has_prefix path ''/api/internal/'' \<and>
     session \<noteq> None \<and> blocking (fst (policy_consent_state cfg f now session False s))"

section \<open>The sweep of warnings\<close>

text \<open>One user: claimed before the mail goes out, released when the mail is not accepted.\<close>

definition warn_user ::
  "notice_config \<Rightarrow> (string \<Rightarrow> user option) \<Rightarrow> (string \<Rightarrow> bool) \<Rightarrow> time \<Rightarrow> string \<Rightarrow> string list \<times> ack_store
   \<Rightarrow> string list \<times> ack_store" where
  "warn_user cfg users sent now uid st =
     (let k = (uid, policy_document_id, nc_policyVersion cfg)
      in case users uid of
           None \<Rightarrow> st
         | Some u \<Rightarrow>
             (if \<not> gs_required (fst (policy_consent_state cfg \<lparr>af_history = False, af_notice = False\<rparr> now (Some u) False (snd st)))
              then st
              else (case mark_warning_notified k now (snd st) of
                (False, s') \<Rightarrow> (fst st, s')
              | (True, s') \<Rightarrow> (if sent uid then (fst st @ [uid], s') else (fst st, clear_warning_notified k s')))))"

definition warn_users_entering_consent_window ::
  "notice_config \<Rightarrow> (string \<Rightarrow> user option) \<Rightarrow> (string \<Rightarrow> bool) \<Rightarrow> time \<Rightarrow> ack_store \<Rightarrow> string list \<times> ack_store" where
  "warn_users_entering_consent_window cfg users sent now s =
     fold (warn_user cfg users sent now)
       (list_pending_warnings policy_document_id (nc_policyVersion cfg)
         (now - days_as_duration (consent_grace_days cfg - consent_warning_days cfg)) s) ([], s)"

end
