(* ===== verification/Consent_Facts.thy ===== *)
theory Consent_Facts
  imports Consent
begin

text \<open>
  Versions are totally preordered component by component; a period of grace runs from the first
  sight of a document, whatever is seen later, and is the only way into a refusal; an acceptance
  ends it; a warning is mailed once.
\<close>

section \<open>Versions\<close>

definition part_of :: "int list \<Rightarrow> nat \<Rightarrow> int" where
  "part_of ps i = (if i < length ps then ps ! i else 0)"

lemma part_of_simps [simp]:
  "part_of [] = (\<lambda>i. 0)" "part_of (p # ps) 0 = p" "part_of (p # ps) (Suc i) = part_of ps i"
  by (simp_all add: part_of_def fun_eq_iff)

text \<open>\<open>first_less ms ns\<close>: at the first component in which they differ, the first is smaller.\<close>

definition first_less :: "(nat \<Rightarrow> int) \<Rightarrow> (nat \<Rightarrow> int) \<Rightarrow> bool" where
  "first_less f g \<longleftrightarrow> (\<exists>i. f i < g i \<and> (\<forall>j<i. f j = g j))"

lemma first_less_Suc:
  "first_less f g \<longleftrightarrow> f 0 < g 0 \<or> (f 0 = g 0 \<and> first_less (\<lambda>i. f (Suc i)) (\<lambda>i. g (Suc i)))"
proof
  assume "first_less f g"
  then obtain i where i: "f i < g i" "\<forall>j<i. f j = g j" by (auto simp: first_less_def)
  show "f 0 < g 0 \<or> (f 0 = g 0 \<and> first_less (\<lambda>i. f (Suc i)) (\<lambda>i. g (Suc i)))"
  proof (cases i)
    case (Suc k)
    then have "\<forall>j<k. f (Suc j) = g (Suc j)" "f (Suc k) < g (Suc k)" "f 0 = g 0" using i by auto
    then show ?thesis by (auto simp: first_less_def)
  qed (use i in auto)
next
  assume "f 0 < g 0 \<or> (f 0 = g 0 \<and> first_less (\<lambda>i. f (Suc i)) (\<lambda>i. g (Suc i)))"
  then show "first_less f g"
  proof
    assume "f 0 = g 0 \<and> first_less (\<lambda>i. f (Suc i)) (\<lambda>i. g (Suc i))"
    then obtain k where "f 0 = g 0" "f (Suc k) < g (Suc k)" "\<forall>j<k. f (Suc j) = g (Suc j)" by (auto simp: first_less_def)
    then have "\<forall>j<Suc k. f j = g j" by (metis less_Suc_eq_0_disj)
    then show ?thesis using \<open>f (Suc k) < g (Suc k)\<close> by (auto simp: first_less_def)
  qed (auto simp: first_less_def)
qed

lemma first_less_irrefl [simp]: "\<not> first_less f f" by (simp add: first_less_def)

lemma compare_parts_exact:
  "(compare_parts ms ns = -1 \<longleftrightarrow> first_less (part_of ms) (part_of ns)) \<and>
   (compare_parts ms ns = 1 \<longleftrightarrow> first_less (part_of ns) (part_of ms)) \<and>
   (compare_parts ms ns = 0 \<longleftrightarrow> part_of ms = part_of ns)"
proof (induction ms ns rule: compare_parts.induct)
  case 1
  then show ?case by simp
next
  case (2 m ms)
  have "part_of (m # ms) = (\<lambda>i. 0) \<longleftrightarrow> m = 0 \<and> part_of ms = (\<lambda>i. 0)"
    by (metis (no_types, lifting) ext not0_implies_Suc part_of_simps(2,3))
  then show ?case using 2 by (subst (1 2) first_less_Suc) auto
next
  case (3 n ns)
  have "(\<lambda>i. 0) = part_of (n # ns) \<longleftrightarrow> n = 0 \<and> (\<lambda>i. 0) = part_of ns"
    by (metis (no_types, lifting) ext not0_implies_Suc part_of_simps(2,3))
  then show ?case using 3 by (subst (1 2) first_less_Suc) auto
next
  case (4 m ms n ns)
  have "part_of (m # ms) = part_of (n # ns) \<longleftrightarrow> m = n \<and> part_of ms = part_of ns"
    by (metis (no_types, lifting) ext not0_implies_Suc part_of_simps)
  then show ?case using 4 by (subst (1 2) first_less_Suc) auto
qed

text \<open>Versions are compared as numbers, component by component, a missing component being zero: the
  first difference decides, so the answer is one of three and the order is the lexicographic one.\<close>

theorem version_order_exact:
  "(compare_versions v w = -1 \<longleftrightarrow> first_less (part_of (version_parts v)) (part_of (version_parts w))) \<and>
   (compare_versions v w = 1 \<longleftrightarrow> first_less (part_of (version_parts w)) (part_of (version_parts v))) \<and>
   (compare_versions v w = 0 \<longleftrightarrow> part_of (version_parts v) = part_of (version_parts w))"
  unfolding compare_versions_def by (rule compare_parts_exact)

section \<open>Grace\<close>

lemma days_small: "0 \<le> n \<Longrightarrow> n \<le> 100000 \<Longrightarrow> days_as_duration n = n * (24 * hour)"
  unfolding days_as_duration_def by (rule wrap64_small) (auto simp: hour_def minute_def second_def)

lemma grace_phase_expired:
  "fst (grace_phase first now graceDays warningDays) = Expired \<longleftrightarrow>
     (\<exists>t. first = Some t \<and> t + days_as_duration graceDays \<le> now)"
  by (auto simp: grace_phase_def Let_def split: option.splits)

lemma blocking_required:
  "blocking (required_state first now graceDays warningDays) \<longleftrightarrow> (\<exists>t. first = Some t \<and> t + days_as_duration graceDays \<le> now)"
  using grace_phase_expired [of first now graceDays warningDays]
  by (auto simp: blocking_def required_state_def split: prod.splits)

lemma clamp_range: "0 < graceDays \<Longrightarrow> 0 < fallback \<Longrightarrow>
    0 < clamp_warning_days graceDays configured fallback \<and> clamp_warning_days graceDays configured fallback \<le> graceDays"
  by (auto simp: clamp_warning_days_def)

lemma record_first_seen_keeps:
  "get_first_seen k s = Some t \<Longrightarrow> get_first_seen k (snd (record_first_seen k' now s)) = Some t"
  by (auto simp: record_first_seen_def get_first_seen_def get_put Let_def)

lemma record_first_seen_result: "fst (record_first_seen k now s) = Some (case get_first_seen k s of None \<Rightarrow> now | Some t \<Rightarrow> t)"
  by (auto simp: record_first_seen_def get_first_seen_def get_put Let_def split: option.splits)

lemma mark_clear_keep_first_seen [simp]:
  "get_first_seen k (snd (mark_warning_notified k' now s)) = get_first_seen k s"
  "get_first_seen k (clear_warning_notified k' s) = get_first_seen k s"
  by (auto simp: mark_warning_notified_def clear_warning_notified_def get_first_seen_def get_put split: option.splits)

text \<open>What happens to the rows between two sights of a document.\<close>

datatype ack_op =
    Sight_policy time "user option" bool
  | Sight_version time "user option" string bool
  | Accept time user
  | Warn_mail "string \<Rightarrow> bool" time

fun ack_step :: "notice_config \<Rightarrow> ack_faults \<Rightarrow> (string \<Rightarrow> user option) \<Rightarrow> ack_op \<Rightarrow> ack_store \<Rightarrow> ack_store" where
  "ack_step cfg f users (Sight_policy now u record) s = snd (policy_consent_state cfg f now u record s)"
| "ack_step cfg f users (Sight_version now u version record) s = snd (min_version_state cfg f now u version record s)"
| "ack_step cfg f users (Accept now u) s = record_policy_consent cfg now u s"
| "ack_step cfg f users (Warn_mail sent now) s = snd (warn_users_entering_consent_window cfg users sent now s)"

definition no_ack_faults :: ack_faults where
  "no_ack_faults = \<lparr>af_history = False, af_notice = False\<rparr>"

lemma see_notice_keeps: "get_first_seen k s = Some t \<Longrightarrow> get_first_seen k (snd (see_notice record k' now s)) = Some t"
  by (simp add: see_notice_def record_first_seen_keeps)

lemma policy_state_store:
  "snd (policy_consent_state cfg f now u record s) = s \<or>
   (\<exists>k. snd (policy_consent_state cfg f now u record s) = snd (see_notice record k now s))"
  by (auto simp: policy_consent_state_def Let_def split: option.split prod.split) (metis snd_conv)

lemma min_version_store:
  "snd (min_version_state cfg f now u v record s) = s \<or>
   (\<exists>k. snd (min_version_state cfg f now u v record s) = snd (see_notice record k now s))"
  by (auto simp: min_version_state_def Let_def split: option.split prod.split) (metis snd_conv)

lemma warn_user_keeps: "get_first_seen k (snd (warn_user cfg users sent now uid st)) = get_first_seen k (snd st)"
  by (auto simp: warn_user_def Let_def split: option.split prod.split bool.split)
    (metis mark_clear_keep_first_seen snd_conv)+

lemma ack_step_keeps_first_seen:
  assumes "get_first_seen k s = Some t"
  shows "get_first_seen k (ack_step cfg f users op s) = Some t"
proof (cases op)
  case (Sight_policy now u rec)
  then show ?thesis using policy_state_store [of cfg f now u rec s] see_notice_keeps [OF assms] assms by auto
next
  case (Sight_version now u v rec)
  then show ?thesis using min_version_store [of cfg f now u v rec s] see_notice_keeps [OF assms] assms by auto
next
  case (Accept now u)
  then show ?thesis using assms by (simp add: record_policy_consent_def record_acknowledgement_def get_first_seen_def)
next
  case (Warn_mail sent now)
  have "get_first_seen k (snd (fold (warn_user cfg users sent now) us st)) = get_first_seen k (snd st)" for us st
    by (induction us arbitrary: st) (simp_all add: warn_user_keeps)
  then show ?thesis using Warn_mail assms by (simp add: warn_users_entering_consent_window_def)
qed

text \<open>A user is refused for a policy exactly from the end of its grace: the period counts from the first
  time the user was seen with that version, and nothing that is seen, mailed, or accepted for other
  versions or users afterwards moves it; until then, and once the user has accepted, nothing is
  refused.\<close>

theorem consent_refuses_from_deadline:
  assumes "get_first_seen (u_id u, policy_document_id, nc_policyVersion cfg) s = Some t" "nc_policyVersion cfg \<noteq> []"
    and "s' = fold (ack_step cfg no_ack_faults users) ops s" "nc_consentGraceDays cfg \<le> 100000"
  shows "blocking (fst (policy_consent_state cfg no_ack_faults now (Some u) record s')) \<longleftrightarrow>
    \<not> has_acknowledged (u_id u, policy_document_id, nc_policyVersion cfg) s' \<and>
    t + consent_grace_days cfg * (24 * hour) \<le> now"
proof -
  let ?k = "(u_id u, policy_document_id, nc_policyVersion cfg)"
  have seen: "get_first_seen ?k s' = Some t"
    unfolding assms(3) using assms(1) by (induction ops arbitrary: s) (simp_all add: ack_step_keeps_first_seen)
  then have "fst (see_notice record ?k now s') = Some t"
    by (simp add: see_notice_def record_first_seen_result)
  moreover have "days_as_duration (consent_grace_days cfg) = consent_grace_days cfg * (24 * hour)"
    using assms(4) by (intro days_small) (simp_all add: consent_grace_days_def)
  ultimately show ?thesis using assms(2)
    by (auto simp: policy_consent_state_def no_ack_faults_def blocking_required quiet_def Let_def split: prod.split)
      (simp_all add: blocking_def)
qed

definition ex_notices :: notice_config where
  "ex_notices = \<lparr>nc_policyVersion = ''2'', nc_consentGraceDays = 10, nc_consentWarningDays = 0, nc_stopsActiveTunnels = False,
     nc_minClientVersion = [], nc_minVersionGraceDays = 0, nc_minVersionWarningDays = 0, nc_portalURL = []\<rparr>"

theorem consent_refuses_from_deadline_witness:
  "blocking (fst (policy_consent_state ex_notices no_ack_faults (10 * 24 * hour + 5) (Some (ex_user ''u1'' ''user'')) True
     (fold (ack_step ex_notices no_ack_faults (\<lambda>_. None)) [Accept 9 (ex_user ''u2'' ''user'')]
       \<lparr>as_acks = [], as_notices = [((''u1'', policy_document_id, ''2''), \<lparr>no_firstSeen = 5, no_warningSent = None\<rparr>)]\<rparr>)))"
proof -
  let ?s = "\<lparr>as_acks = [], as_notices = [((''u1'', policy_document_id, ''2''), \<lparr>no_firstSeen = 5, no_warningSent = None\<rparr>)]\<rparr>"
  have "get_first_seen (u_id (ex_user ''u1'' ''user''), policy_document_id, nc_policyVersion ex_notices) ?s = Some 5"
    by (simp add: get_first_seen_def get_def ex_user_def ex_notices_def)
  from consent_refuses_from_deadline [OF this _ refl, where now = "10 * 24 * hour + 5" and users = "\<lambda>_. None"
      and ops = "[Accept 9 (ex_user ''u2'' ''user'')]"]
  show ?thesis
    by (simp add: ex_notices_def consent_grace_days_def has_acknowledged_def record_policy_consent_def
        record_acknowledgement_def ex_user_def)
qed

text \<open>A refusal always has a way out: the gate of the portal never stands before the page that accepts
  the policy, and a user whose acceptance is recorded is refused no more, whatever reads fail and
  whatever the clock says.\<close>

theorem overdue_user_can_accept:
  "\<not> enforce_policy_consent_gate cfg f now session ''/api/me/policy-consent'' s \<and>
   \<not> blocking (fst (policy_consent_state cfg f' now' (Some u) recorded (record_policy_consent cfg t u s)))"
  by (simp add: enforce_policy_consent_gate_def open_paths_def policy_consent_state_def has_acknowledged_def
      record_policy_consent_def record_acknowledgement_def blocking_def quiet_def Let_def)

end
