(* ===== verification/Registration.thy ===== *)
theory Registration
  imports Reservations Tokens Consent Quota Access_Gate
begin

text \<open>
  Registering a tunnel at the control plane: the ranking of the domains a host may be issued on
  (\<open>tunnelDomains\<close>, \<open>getActiveDomainsForRequest\<close>, \<open>topRankedDomain\<close>), the handler \<open>handleRegister\<close>
  with every gate it passes, in its order, and \<open>handleDeregister\<close> (\<open>server.go\<close>). The parts it calls are
  the theories this one imports; the state is the product of theirs.

  The request body that does not decode, the recording of latency probes and of the country, the
  audit entry and the telemetry have no part in the answer or in the states kept here.
\<close>

section \<open>State and inputs\<close>

text \<open>What the gateway asks of its DNS hook, of the other gateways and of the vanity hook.\<close>

datatype event =
    Publish_dns string string
  | Withdraw_dns string string
  | Route_add string string string
  | Route_remove string string
  | Vanity_add string string

record control =
  ct_cfg :: server_config
  ct_notices :: notice_config
  ct_centralURL :: string
  ct_registry :: registry
  ct_edgeLeases :: edge_leases
  ct_tokens :: token_store
  ct_acks :: ack_store
  ct_names :: name_store
  ct_quota :: "quota_tracker option"
  ct_users :: "(string, user) table"
  ct_pendingShutdownAt :: int
  ct_roundRobin :: nat
  ct_events :: "event list"

text \<open>
  How domains are ranked: the rule and the default domain of the configuration, the settings of the
  database (\<open>None\<close> for a read that fails), the first eight bytes of a SHA-256 as a number, a shuffle.
\<close>

record allocation =
  al_rule :: string
  al_defaultDomain :: string
  al_setting :: "string \<Rightarrow> string option"
  al_hash :: "string \<Rightarrow> nat"
  al_shuffle :: "string list \<Rightarrow> string list"

text \<open>
  What one registration obtains from outside: the clock, the host and address of the request, the digest
  of a token, which queries fail, the names the generator proposes, the registry's own inputs, and what
  \<open>net/url\<close> reads as the host name of a URL.
\<close>

record register_inputs =
  ri_now :: time
  ri_host :: string
  ri_clientIP :: string
  ri_digest :: "string \<Rightarrow> string"
  ri_tokenQuery :: query_outcome
  ri_userFails :: bool
  ri_userWriteFails :: bool
  ri_ackFaults :: ack_faults
  ri_faults :: db_faults
  ri_names :: "string list"
  ri_env :: register_env
  ri_alloc :: allocation
  ri_urlHost :: "string \<Rightarrow> string option"

record register_message =
  rm_prefix :: string
  rm_customDomain :: string
  rm_ports :: "port_mapping list"
  rm_authToken :: string
  rm_rateLimit :: int
  rm_basicAuth :: string
  rm_addedHeaders :: "(string, string) table"
  rm_clientVersion :: string
  rm_clientOS :: string
  rm_passcode :: string
  rm_whitelistIPs :: string
  rm_launchFlags :: "string list"
  rm_launchOverrides :: "(string, string) table"

section \<open>Domains\<close>

definition tunnel_domains :: "server_config \<Rightarrow> string list" where
  "tunnel_domains cfg = (if cf_tunnelDomains cfg \<noteq> [] then cf_tunnelDomains cfg else cf_domains cfg)"

definition validate_tunnel_domains :: "server_config \<Rightarrow> server_config" where
  "validate_tunnel_domains cfg =
     (let served = map (\<lambda>d. to_lower (trim_space d)) (cf_domains cfg)
      in cfg\<lparr>cf_tunnelDomains := filter (\<lambda>d. d \<noteq> [] \<and> d \<in> set served)
           (map (\<lambda>d. to_lower (trim_space d)) (cf_tunnelDomains cfg))\<rparr>)"

definition is_custom_domain :: "server_config \<Rightarrow> string \<Rightarrow> bool" where
  "is_custom_domain cfg host \<longleftrightarrow> \<not> list_ex (\<lambda>d. host = d \<or> has_suffix host (''.'' @ d)) (cf_domains cfg)"

definition setting_or :: "allocation \<Rightarrow> string \<Rightarrow> string \<Rightarrow> string" where
  "setting_or al key fallback =
     (case al_setting al key of None \<Rightarrow> fallback | Some v \<Rightarrow> if v \<noteq> [] then v else fallback)"

definition preferred_choice :: "user option \<Rightarrow> string list \<Rightarrow> string option" where
  "preferred_choice userRec eligible =
     (case userRec of None \<Rightarrow> None
      | Some u \<Rightarrow> if u_preferredDomain u = [] then None else List.find (\<lambda>d. d = u_preferredDomain u) eligible)"

definition contextual_choice :: "allocation \<Rightarrow> string \<Rightarrow> string list \<Rightarrow> string option" where
  "contextual_choice al host eligible =
     (case List.find (\<lambda>d. contains host (to_lower d) \<or> host = to_lower d) eligible of
        Some d \<Rightarrow> Some d
      | None \<Rightarrow>
          (let def = setting_or al ''default_domain'' (al_defaultDomain al)
           in if def = [] then None else List.find (\<lambda>d. d = def) eligible))"

definition ordered_from :: "nat \<Rightarrow> string list \<Rightarrow> string list" where
  "ordered_from start xs = map (\<lambda>i. xs ! ((start + i) mod length xs)) [0..<length xs]"

text \<open>The leases of a domain: a host counts for the first eligible domain it ends in.\<close>

definition domain_count :: "registry \<Rightarrow> string list \<Rightarrow> string \<Rightarrow> nat" where
  "domain_count r eligible d =
     length (filter (\<lambda>h. List.find (\<lambda>e. has_suffix h (''.'' @ e)) eligible = Some d) (map fst (r_leases r)))"

text \<open>The rules that rank the whole list; the counter of the rounds moves whenever it is read.\<close>

definition ranked_domains ::
  "allocation \<Rightarrow> string \<Rightarrow> string list \<Rightarrow> string \<Rightarrow> registry \<Rightarrow> nat \<Rightarrow> string list \<times> nat" where
  "ranked_domains al rule eligible key r counter =
     (if rule = ''hashing'' \<and> eligible \<noteq> [] then (ordered_from (al_hash al key mod length eligible) eligible, counter)
      else if rule = ''least-connections'' \<and> eligible \<noteq> [] then (sort_key (domain_count r eligible) eligible, counter)
      else if rule = ''round-robin'' then
        (if eligible \<noteq> [] then ordered_from ((counter + 1) mod length eligible) eligible else [''localhost''], counter + 1)
      else if rule = ''random'' \<and> eligible \<noteq> [] then (al_shuffle al eligible, counter)
      else if rule = ''preference'' \<and> eligible \<noteq> [] then (eligible, counter)
      else ([''localhost''], counter))"

definition request_host_name :: "string \<Rightarrow> string" where
  "request_host_name host = to_lower (case split_host_port host of None \<Rightarrow> host | Some (h, _) \<Rightarrow> h)"

definition get_active_domains_for_request ::
  "server_config \<Rightarrow> allocation \<Rightarrow> string \<Rightarrow> string \<Rightarrow> user option \<Rightarrow> registry \<Rightarrow> nat \<Rightarrow> string list \<times> nat" where
  "get_active_domains_for_request cfg al host clientIP userRec r counter =
     (let eligible = tunnel_domains cfg;
          rule0 = setting_or al ''domain_allocation_rule'' (al_rule al);
          rule = (if rule0 = [] then ''contextual'' else rule0);
          key = (case userRec of None \<Rightarrow> clientIP | Some u \<Rightarrow> u_id u);
          preferred = (if rule = ''user-preference'' then preferred_choice userRec eligible else None)
      in case preferred of
           Some d \<Rightarrow> ([d], counter)
         | None \<Rightarrow>
             (if rule = ''user-preference'' \<or> rule = ''contextual'' then
                (case contextual_choice al (request_host_name host) eligible of
                   Some d \<Rightarrow> ([d], counter)
                 | None \<Rightarrow> ranked_domains al ''preference'' eligible key r counter)
              else ranked_domains al rule eligible key r counter))"

definition top_ranked_domain :: "string list \<Rightarrow> string list" where
  "top_ranked_domain candidates = take 1 candidates"

section \<open>Names of gateways\<close>

definition host_from_url :: "(string \<Rightarrow> string option) \<Rightarrow> string \<Rightarrow> string" where
  "host_from_url parse raw0 =
     (let raw = trim_space raw0
      in if raw = [] then []
         else case parse (if contains raw ''//'' then raw else ''//'' @ raw) of None \<Rightarrow> [] | Some h \<Rightarrow> h)"

definition dns_target_for_central :: "(string \<Rightarrow> string option) \<Rightarrow> control \<Rightarrow> string" where
  "dns_target_for_central parse ct =
     (let h = host_from_url parse (ct_centralURL ct)
      in if h \<noteq> [] then h
         else case cf_domains (ct_cfg ct) of [] \<Rightarrow> [] | d # _ \<Rightarrow> ''tunnel.'' @ d)"

definition central_url :: "control \<Rightarrow> string" where
  "central_url ct =
     (if ct_centralURL ct = [] then (case cf_domains (ct_cfg ct) of [] \<Rightarrow> [] | d # _ \<Rightarrow> ''https://tunnel.'' @ d)
      else ct_centralURL ct)"

text \<open>\<open>publishTunnelDNS\<close> and \<open>withdrawTunnelDNS\<close>: custom domains are left alone.\<close>

definition publish_tunnel_dns :: "string \<Rightarrow> string \<Rightarrow> control \<Rightarrow> control" where
  "publish_tunnel_dns host target ct =
     (if is_custom_domain (ct_cfg ct) host then ct else ct\<lparr>ct_events := ct_events ct @ [Publish_dns host target]\<rparr>)"

definition withdraw_tunnel_dns :: "string \<Rightarrow> string \<Rightarrow> control \<Rightarrow> control" where
  "withdraw_tunnel_dns host target ct =
     (if is_custom_domain (ct_cfg ct) host then ct else ct\<lparr>ct_events := ct_events ct @ [Withdraw_dns host target]\<rparr>)"

text \<open>One lease of a fresh session is announced.\<close>

definition announce_lease :: "(string \<Rightarrow> string option) \<Rightarrow> lease \<Rightarrow> control \<Rightarrow> control" where
  "announce_lease parse l ct =
     (if is_custom_domain (ct_cfg ct) (l_fullHost l)
      then ct\<lparr>ct_events := ct_events ct @ [Vanity_add (l_fullHost l) (l_userID l)]\<rparr>
      else (publish_tunnel_dns (l_fullHost l) (dns_target_for_central parse ct) ct)
             \<lparr>ct_events := ct_events (publish_tunnel_dns (l_fullHost l) (dns_target_for_central parse ct) ct) @
                [Route_add (l_fullHost l) (central_url ct) ''control'']\<rparr>)"

section \<open>The handler\<close>

record registered =
  rg_token :: string
  rg_prefix :: string
  rg_remotes :: "string list"
  rg_domains :: "string list"
  rg_consent :: grace_state
  rg_version :: grace_state
  rg_access :: "(string \<times> string \<times> string) option"

datatype register_reply =
    Reply_draining
  | Reply_unauthorized
  | Reply_unavailable
  | Reply_consent grace_state
  | Reply_version grace_state
  | Reply_invalid_domain
  | Reply_domain_taken
  | Reply_name refusal
  | Reply_no_random
  | Reply_taken
  | Reply_limit int
  | Reply_quota quota_user_standing
  | Reply_failed register_error
  | Reply_registered registered

definition is_draining :: "time \<Rightarrow> control \<Rightarrow> bool" where
  "is_draining now ct \<longleftrightarrow> 0 < ct_pendingShutdownAt ct \<and> unix now < ct_pendingShutdownAt ct"

text \<open>The record read again from the database after the token was accepted.\<close>

definition reread_user :: "register_inputs \<Rightarrow> control \<Rightarrow> string \<Rightarrow> user option" where
  "reread_user ri ct uid = (if ri_userFails ri then None else get (ct_users ct) uid)"

text \<open>The prefix and the domains the tunnel is to have, or the refusal.\<close>

definition choose_name ::
  "register_inputs \<Rightarrow> register_message \<Rightarrow> user \<Rightarrow> user option \<Rightarrow> string list \<Rightarrow> control
   \<Rightarrow> (register_reply + string \<times> string list) \<times> name_store" where
  "choose_name ri m user userRec active ct =
     (if rm_customDomain m \<noteq> [] then
        (if get_lease (ct_registry ct) (rm_customDomain m) \<noteq> None then (Inl Reply_domain_taken, ct_names ct)
         else case reserve_custom_domain (ct_cfg ct) (ri_faults ri) (ri_now ri) (rm_customDomain m) user userRec (ct_names ct) of
                (Some e, s) \<Rightarrow> (Inl (Reply_name e), s)
              | (None, s) \<Rightarrow> (Inr ([], [rm_customDomain m]), s))
      else if rm_prefix m = [] \<or> rm_prefix m = ''random'' then
        (case grant_random_subdomain (ri_faults ri) (ct_registry ct) (ct_edgeLeases ct) (ri_names ri) active (ct_names ct) of
           None \<Rightarrow> (Inl Reply_no_random, ct_names ct)
         | Some c \<Rightarrow> (Inr (c, active), ct_names ct))
      else
        (case List.find (\<lambda>d. check_subdomain_for_user (ct_registry ct) (rm_prefix m) [d] (u_id user) = Available) active of
           None \<Rightarrow> (Inl Reply_taken, ct_names ct)
         | Some d \<Rightarrow>
             (case apply_subdomain_reservation_policy (ct_cfg ct) (ri_faults ri) (ri_now ri) (rm_prefix m) [d]
                     user userRec (ct_names ct) of
                (Some e, s) \<Rightarrow> (Inl (Reply_name e), s)
              | (None, s) \<Rightarrow> (Inr (rm_prefix m, [d]), s))))"

text \<open>The prefixes of a user's tunnels in the registry, without repetition.\<close>

definition user_prefixes :: "registry \<Rightarrow> string \<Rightarrow> string list" where
  "user_prefixes r uid = remdups (map l_subdomainPrefix (filter (\<lambda>l. l_userID l = uid) (list_leases r)))"

definition over_tunnel_limit :: "int \<Rightarrow> nat \<Rightarrow> bool \<Rightarrow> bool" where
  "over_tunnel_limit limit count reconnecting \<longleftrightarrow> 0 < limit \<and> limit \<le> int count \<and> \<not> reconnecting"

definition save_client_report :: "register_inputs \<Rightarrow> register_message \<Rightarrow> user option \<Rightarrow> control \<Rightarrow> control" where
  "save_client_report ri m userRec ct =
     (case userRec of None \<Rightarrow> ct
      | Some u \<Rightarrow>
          (case record_client_version_and_os (rm_clientVersion m) (rm_clientOS m) u of
             (u', changed) \<Rightarrow>
               if changed \<and> \<not> ri_userWriteFails ri then ct\<lparr>ct_users := put (u_id u) u' (ct_users ct)\<rparr> else ct))"

text \<open>The request handed to the registry.\<close>

definition registry_request ::
  "register_inputs \<Rightarrow> register_message \<Rightarrow> user \<Rightarrow> string \<Rightarrow> string list \<Rightarrow> int \<Rightarrow> register_request" where
  "registry_request ri m user pre domains limit =
     \<lparr>rq_userID = u_id user, rq_prefix = pre, rq_ports = rm_ports m, rq_domains = domains, rq_rateLimit = limit,
      rq_clientIP = ri_clientIP ri, rq_basicAuth = rm_basicAuth m, rq_addedHeaders = rm_addedHeaders m\<rparr>"

definition mask_passcode :: "string \<Rightarrow> string" where
  "mask_passcode stored = (if stored = [] then [] else passcode_mask)"

definition reservation_access_controls :: "db_faults \<Rightarrow> name_store \<Rightarrow> string \<Rightarrow> string list \<Rightarrow> (string \<times> string \<times> string) option" where
  "reservation_access_controls f s sub domains =
     (case domains of [] \<Rightarrow> None
      | d # _ \<Rightarrow> (if df_reread f d then None
          else map_option (\<lambda>v. (mask_passcode (rv_passcode v), rv_whitelistIPs v, rv_accessMode v)) (get_by_name (sub, d) s)))"

text \<open>After the name is settled: rules, limits, the registry, and what follows a success.\<close>

definition establish ::
  "register_inputs \<Rightarrow> register_message \<Rightarrow> user \<Rightarrow> user option \<Rightarrow> grace_state \<times> grace_state \<Rightarrow> string \<Rightarrow> string list \<Rightarrow> control
   \<Rightarrow> register_reply \<times> control" where
  "establish ri m user userRec notices pre domains ct0 =
     (let rules = resolve_access_controls (ri_faults ri) pre domains (u_id user) (rm_passcode m) (rm_whitelistIPs m) (ct_names ct0);
          ct = save_client_report ri m userRec (ct0\<lparr>ct_names := snd rules\<rparr>);
          limit = max_active_tunnels_for (ct_cfg ct) (Some user) userRec;
          held = user_prefixes (ct_registry ct) (u_id user)
      in if over_tunnel_limit limit (length held) (pre \<in> set held) then (Reply_limit limit, ct)
         else case quota_registration_refusal (ct_quota ct) (u_id user) of
           Some st \<Rightarrow> (Reply_quota st, ct)
         | None \<Rightarrow>
             (case register (ri_env ri) (registry_request ri m user pre domains
                     (effective_tunnel_rate_limit (ct_cfg ct) (rm_rateLimit m) userRec)) (ct_registry ct) of
                (Inl e, r) \<Rightarrow> (Reply_failed e, ct\<lparr>ct_registry := r\<rparr>)
              | (Inr (tok, remotes), r) \<Rightarrow>
                  (let r1 = set_launch_context_for_session tok (rm_launchFlags m) (rm_launchOverrides m) r;
                       r2 = apply_quota_to_new_leases (Some (ct_cfg ct)) (ct_quota ct) (u_id user) r1;
                       r3 = apply_access_controls_to_leases pre domains (fst rules) r2
                   in (Reply_registered \<lparr>rg_token = tok, rg_prefix = pre, rg_remotes = remotes, rg_domains = domains,
                         rg_consent = fst notices, rg_version = snd notices,
                         rg_access = reservation_access_controls (ri_faults ri) (ct_names ct) pre domains\<rparr>,
                       fold (announce_lease (ri_urlHost ri)) (get_session_leases r3 tok) (ct\<lparr>ct_registry := r3\<rparr>)))))"

definition admit_user ::
  "register_inputs \<Rightarrow> register_message \<Rightarrow> user \<Rightarrow> control \<Rightarrow> register_reply \<times> control" where
  "admit_user ri m user ct =
     (let userRec = reread_user ri ct (u_id user)
      in case policy_consent_state (ct_notices ct) (ri_ackFaults ri) (ri_now ri) userRec True (ct_acks ct) of
        (consent, acks) \<Rightarrow>
      if blocking consent then (Reply_consent consent, ct\<lparr>ct_acks := acks\<rparr>)
      else case min_version_state (ct_notices ct) (ri_ackFaults ri) (ri_now ri) userRec (rm_clientVersion m) True acks of
        (version, acks') \<Rightarrow>
      if blocking version then (Reply_version version, ct\<lparr>ct_acks := acks'\<rparr>)
      else case get_active_domains_for_request (ct_cfg ct) (ri_alloc ri) (ri_host ri) (ri_clientIP ri) userRec
                  (ct_registry ct) (ct_roundRobin ct) of
        (ranked, counter) \<Rightarrow>
      (let ct1 = ct\<lparr>ct_acks := acks', ct_roundRobin := counter\<rparr>
       in if rm_customDomain m \<noteq> [] \<and> \<not> is_valid_custom_domain (rm_customDomain m) then (Reply_invalid_domain, ct1)
          else case choose_name ri m user userRec (top_ranked_domain ranked) ct1 of
            (Inl e, s) \<Rightarrow> (e, ct1\<lparr>ct_names := s\<rparr>)
          | (Inr (pre, domains), s) \<Rightarrow>
              establish ri m user userRec (consent, version) pre domains (ct1\<lparr>ct_names := s\<rparr>)))"

definition handle_register :: "register_inputs \<Rightarrow> register_message \<Rightarrow> control \<Rightarrow> register_reply \<times> control" where
  "handle_register ri m ct =
     (if is_draining (ri_now ri) ct then (Reply_draining, ct)
      else case authenticate_token (ri_digest ri) (ri_tokenQuery ri) (get (ct_users ct)) (ri_now ri) (rm_authToken m) (ct_tokens ct) of
        (Token_refused, s) \<Rightarrow> (Reply_unauthorized, ct\<lparr>ct_tokens := s\<rparr>)
      | (Token_store_unavailable, s) \<Rightarrow> (Reply_unavailable, ct\<lparr>ct_tokens := s\<rparr>)
      | (Token_valid user p, s) \<Rightarrow> admit_user ri m user (ct\<lparr>ct_tokens := s\<rparr>))"

section \<open>Leaving\<close>

text \<open>A session ends at the control plane: every lease of it gives its name up, then the registry drops it.\<close>

definition end_session :: "(string \<Rightarrow> string option) \<Rightarrow> time \<Rightarrow> string \<Rightarrow> control \<Rightarrow> control" where
  "end_session parse now tok ct =
     (fold (\<lambda>l. withdraw_tunnel_dns (l_fullHost l) (dns_target_for_central parse ct))
        (get_session_leases (ct_registry ct) tok) ct)\<lparr>ct_registry := clean_lease now tok (ct_registry ct)\<rparr>"

text \<open>The caller needs nothing but the token of the session; without one the request is malformed.\<close>

definition handle_deregister :: "(string \<Rightarrow> string option) \<Rightarrow> time \<Rightarrow> string \<Rightarrow> control \<Rightarrow> bool \<times> control" where
  "handle_deregister parse now tok ct = (if tok = [] then (False, ct) else (True, end_session parse now tok ct))"

end
