(* ===== verification/Registration_Facts.thy ===== *)
theory Registration_Facts
  imports Registration Registry_Register Reservations_Facts Access_Facts
begin

text \<open>
  What the registration handler guarantees as a whole: a tunnel is established only past every gate and is
  routed, nobody else's tunnel is touched, the limit of tunnels is kept, domains are handed out among
  those served and in turn; and two hosts the rules do not reach.
\<close>

section \<open>Tunnels keep their face\<close>

text \<open>What routing sees of a lease: everything but its rules, rate, headers, status and counters.\<close>

definition lease_face :: "lease \<Rightarrow> string \<times> string \<times> string \<times> string \<times> int" where
  "lease_face l = (l_userID l, l_subdomainPrefix l, l_fullHost l, l_sessionToken l, l_localPort l)"

definition keeps_face :: "(lease \<Rightarrow> lease) \<Rightarrow> bool" where
  "keeps_face f \<longleftrightarrow> (\<forall>l. lease_face (f l) = lease_face l)"

lemma keeps_face_intros [simp]:
  "keeps_face (set_access_controls pc wl am)"
  "keeps_face (\<lambda>l. l\<lparr>l_rateLimit := n\<rparr>)"
  "keeps_face (\<lambda>l. l\<lparr>l_launchFlags := fl, l_launchOverrides := ov\<rparr>)"
  by (simp_all add: keeps_face_def lease_face_def set_access_controls_def)

definition same_tunnels :: "registry \<Rightarrow> registry \<Rightarrow> bool" where
  "same_tunnels r r' \<longleftrightarrow>
     r_leases r' = r_leases r \<and> r_sessions r' = r_sessions r \<and> length (r_heap r') = length (r_heap r) \<and>
     (\<forall>p. lease_face (deref r' p) = lease_face (deref r p))"

lemma same_tunnels_refl [simp]: "same_tunnels r r" by (simp add: same_tunnels_def)

lemma same_tunnels_trans: "same_tunnels r s \<Longrightarrow> same_tunnels s t \<Longrightarrow> same_tunnels r t"
  by (simp add: same_tunnels_def)

lemma modify_same_tunnels: "keeps_face f \<Longrightarrow> same_tunnels r (modify f p r)"
  by (cases "p < length (r_heap r)")
    (auto simp: same_tunnels_def keeps_face_def deref_def modify_def nth_list_update list_update_beyond)

lemma modify_all_same_tunnels: "keeps_face f \<Longrightarrow> same_tunnels r (modify_all f ps r)"
proof (induction ps arbitrary: r)
  case Nil
  then show ?case by (simp add: modify_all_def)
next
  case (Cons p ps)
  have "modify_all f (p # ps) r = modify_all f ps (modify f p r)" by (simp add: modify_all_def)
  with Cons.IH [OF Cons.prems] modify_same_tunnels [OF Cons.prems] show ?case by (metis same_tunnels_trans)
qed

lemma launch_same_tunnels: "same_tunnels r (set_launch_context_for_session tok fl ov r)"
  unfolding set_launch_context_for_session_def by (rule modify_all_same_tunnels) simp

lemma quota_same_tunnels: "same_tunnels r (apply_quota_to_new_leases cfg t uid r)"
  by (auto simp: apply_quota_to_new_leases_def set_quota_rate_limit_for_user_def Let_def
      intro!: modify_all_same_tunnels split: option.split)

lemma access_same_tunnels: "same_tunnels r (apply_access_controls_to_leases sub ds acs r)"
proof (induction ds arbitrary: r)
  case (Cons d ds)
  have "same_tunnels r (snd (set_access_controls_for_host h pc wl am r))" for h pc wl am
    by (auto simp: set_access_controls_for_host_def intro!: modify_same_tunnels split: option.split)
  then have "same_tunnels r (apply_access_controls_to_leases sub ds acs (snd (set_access_controls_for_host h pc wl am r)))"
    for h pc wl am using Cons.IH by (blast intro: same_tunnels_trans)
  with Cons.IH show ?case by (auto split: option.split prod.split)
qed simp

text \<open>The steps after the registry's own \<open>Register\<close>, in one.\<close>

definition finish_leases ::
  "control \<Rightarrow> string \<Rightarrow> register_message \<Rightarrow> string \<Rightarrow> string \<Rightarrow> string list \<Rightarrow> (string, string \<times> string \<times> string) table
   \<Rightarrow> registry \<Rightarrow> registry" where
  "finish_leases ct uid m tok pre domains rules r =
     apply_access_controls_to_leases pre domains rules
       (apply_quota_to_new_leases (Some (ct_cfg ct)) (ct_quota ct) uid
         (set_launch_context_for_session tok (rm_launchFlags m) (rm_launchOverrides m) r))"

lemma finish_same_tunnels: "same_tunnels r (finish_leases ct uid m tok pre domains rules r)"
  unfolding finish_leases_def
  by (blast intro: same_tunnels_trans launch_same_tunnels quota_same_tunnels access_same_tunnels)

lemma same_tunnels_lease:
  "same_tunnels r r' \<Longrightarrow> map_option lease_face (get_lease r' h) = map_option lease_face (get_lease r h)"
  by (simp add: same_tunnels_def get_lease_def option.map_comp comp_def)

section \<open>The handler, by outcome\<close>

lemma announce_frame [simp]:
  "ct_registry (announce_lease parse l ct) = ct_registry ct" "ct_cfg (announce_lease parse l ct) = ct_cfg ct"
  by (simp_all add: announce_lease_def publish_tunnel_dns_def)

lemma announce_all_frame [simp]: "ct_registry (fold (announce_lease parse) ls ct) = ct_registry ct"
  by (induction ls arbitrary: ct) simp_all

lemma save_report_frame [simp]:
  "ct_registry (save_client_report ri m userRec ct) = ct_registry ct"
  "ct_cfg (save_client_report ri m userRec ct) = ct_cfg ct"
  "ct_quota (save_client_report ri m userRec ct) = ct_quota ct"
  "ct_names (save_client_report ri m userRec ct) = ct_names ct"
  by (simp_all add: save_client_report_def split: option.split prod.split)

text \<open>Either the registry was not asked, or what became of it is what \<open>register\<close> and the steps after it do.\<close>

lemma establish_cases:
  assumes "establish ri m user userRec notices pre domains ct = (reply, ct')"
  obtains
    (refused) "ct_registry ct' = ct_registry ct" "\<And>g. reply \<noteq> Reply_registered g" "\<And>e. reply \<noteq> Reply_failed e"
  | (failed) e r where "reply = Reply_failed e"
      "register (ri_env ri) (registry_request ri m user pre domains
         (effective_tunnel_rate_limit (ct_cfg ct) (rm_rateLimit m) userRec)) (ct_registry ct) = (Inl e, r)"
      "ct_registry ct' = r"
      "\<not> over_tunnel_limit (max_active_tunnels_for (ct_cfg ct) (Some user) userRec)
          (length (user_prefixes (ct_registry ct) (u_id user))) (pre \<in> set (user_prefixes (ct_registry ct) (u_id user)))"
  | (done_) g tok remotes r rules where "reply = Reply_registered g" "rg_token g = tok" "rg_prefix g = pre" "rg_domains g = domains"
      "register (ri_env ri) (registry_request ri m user pre domains
         (effective_tunnel_rate_limit (ct_cfg ct) (rm_rateLimit m) userRec)) (ct_registry ct) = (Inr (tok, remotes), r)"
      "ct_registry ct' = finish_leases ct (u_id user) m tok pre domains rules r"
      "\<not> over_tunnel_limit (max_active_tunnels_for (ct_cfg ct) (Some user) userRec)
          (length (user_prefixes (ct_registry ct) (u_id user))) (pre \<in> set (user_prefixes (ct_registry ct) (u_id user)))"
      "quota_registration_refusal (ct_quota ct) (u_id user) = None"
proof -
  obtain rules names where rn: "resolve_access_controls (ri_faults ri) pre domains (u_id user) (rm_passcode m)
      (rm_whitelistIPs m) (ct_names ct) = (rules, names)"
    by (cases "resolve_access_controls (ri_faults ri) pre domains (u_id user) (rm_passcode m) (rm_whitelistIPs m) (ct_names ct)")
  let ?over = "over_tunnel_limit (max_active_tunnels_for (ct_cfg ct) (Some user) userRec)
          (length (user_prefixes (ct_registry ct) (u_id user))) (pre \<in> set (user_prefixes (ct_registry ct) (u_id user)))"
  note e = assms [unfolded establish_def, simplified rn Let_def fst_conv snd_conv]
  show thesis
  proof (cases ?over)
    case True
    show thesis by (rule refused) (use e True in auto)
  next
    case within: False
    show thesis
    proof (cases "quota_registration_refusal (ct_quota ct) (u_id user)")
      case (Some st)
      show thesis by (rule refused) (use e within Some in auto)
    next
      case None
      obtain res r where reg: "register (ri_env ri) (registry_request ri m user pre domains
         (effective_tunnel_rate_limit (ct_cfg ct) (rm_rateLimit m) userRec)) (ct_registry ct) = (res, r)"
        by (cases "register (ri_env ri) (registry_request ri m user pre domains
         (effective_tunnel_rate_limit (ct_cfg ct) (rm_rateLimit m) userRec)) (ct_registry ct)")
      show thesis
      proof (cases res)
        case (Inl x)
        show thesis by (rule failed [of x r]) (use e within None reg Inl in auto)
      next
        case (Inr y)
        obtain tok remotes where y: "y = (tok, remotes)" by (cases y)
        show thesis
        proof (cases reply)
          case (Reply_registered g)
          show thesis
            by (rule done_ [of g tok remotes r rules])
              (use e within None reg Inr y Reply_registered in \<open>auto simp: finish_leases_def\<close>)
        qed (use e within None reg Inr y in auto)
      qed
    qed
  qed
qed

text \<open>The handler itself: whoever was not asked to leave earlier reaches \<open>establish\<close> with a name.\<close>

lemma admit_cases:
  assumes "admit_user ri m user ct = (reply, ct')"
  obtains
    (refused) "ct_registry ct' = ct_registry ct" "\<And>g. reply \<noteq> Reply_registered g" "\<And>e. reply \<noteq> Reply_failed e"
  | (named) consent version pre domains ct2 where
      "establish ri m user (reread_user ri ct (u_id user)) (consent, version) pre domains ct2 = (reply, ct')"
      "\<not> blocking (fst (policy_consent_state (ct_notices ct) (ri_ackFaults ri) (ri_now ri)
          (reread_user ri ct (u_id user)) True (ct_acks ct)))"
      "\<not> blocking (fst (min_version_state (ct_notices ct) (ri_ackFaults ri) (ri_now ri)
          (reread_user ri ct (u_id user)) (rm_clientVersion m) True
          (snd (policy_consent_state (ct_notices ct) (ri_ackFaults ri) (ri_now ri)
            (reread_user ri ct (u_id user)) True (ct_acks ct)))))"
      "rm_customDomain m \<noteq> [] \<longrightarrow> is_valid_custom_domain (rm_customDomain m)"
      "ct_registry ct2 = ct_registry ct" "ct_cfg ct2 = ct_cfg ct" "ct_quota ct2 = ct_quota ct"
      "\<exists>active ct1. ct_registry ct1 = ct_registry ct \<and> ct_cfg ct1 = ct_cfg ct \<and> ct_names ct1 = ct_names ct \<and>
        ct_edgeLeases ct1 = ct_edgeLeases ct \<and>
        active = top_ranked_domain (fst (get_active_domains_for_request (ct_cfg ct) (ri_alloc ri) (ri_host ri) (ri_clientIP ri)
          (reread_user ri ct (u_id user)) (ct_registry ct) (ct_roundRobin ct))) \<and>
        choose_name ri m user (reread_user ri ct (u_id user)) active ct1 = (Inr (pre, domains), ct_names ct2)"
proof -
  let ?u = "reread_user ri ct (u_id user)"
  obtain consent acks where c: "policy_consent_state (ct_notices ct) (ri_ackFaults ri) (ri_now ri) ?u True (ct_acks ct) = (consent, acks)"
    by (cases "policy_consent_state (ct_notices ct) (ri_ackFaults ri) (ri_now ri) ?u True (ct_acks ct)")
  obtain version acks' where v: "min_version_state (ct_notices ct) (ri_ackFaults ri) (ri_now ri) ?u (rm_clientVersion m) True acks = (version, acks')"
    by (cases "min_version_state (ct_notices ct) (ri_ackFaults ri) (ri_now ri) ?u (rm_clientVersion m) True acks")
  obtain ranked counter where d: "get_active_domains_for_request (ct_cfg ct) (ri_alloc ri) (ri_host ri) (ri_clientIP ri) ?u
      (ct_registry ct) (ct_roundRobin ct) = (ranked, counter)"
    by (cases "get_active_domains_for_request (ct_cfg ct) (ri_alloc ri) (ri_host ri) (ri_clientIP ri) ?u (ct_registry ct) (ct_roundRobin ct)")
  let ?ct1 = "ct\<lparr>ct_acks := acks', ct_roundRobin := counter\<rparr>"
  note a = assms [unfolded admit_user_def Let_def c v d prod.case]
  show thesis
  proof (cases "blocking consent \<or> blocking version \<or> (rm_customDomain m \<noteq> [] \<and> \<not> is_valid_custom_domain (rm_customDomain m))")
    case True
    show thesis by (rule refused) (use a v True in \<open>auto split: if_splits\<close>)
  next
    case False
    obtain res s where n: "choose_name ri m user ?u (top_ranked_domain ranked) ?ct1 = (res, s)"
      by (cases "choose_name ri m user ?u (top_ranked_domain ranked) ?ct1")
    note b = a [simplified False v n, simplified]
    show thesis
    proof (cases res)
      case (Inl e)
      have "ct_registry ct' = ct_registry ct" "reply = e" using a False v n Inl by (auto split: if_splits)
      moreover have "e \<noteq> Reply_registered g \<and> e \<noteq> Reply_failed x" for g x
        using n Inl by (auto simp: choose_name_def split: if_splits prod.splits option.splits)
      ultimately show thesis using refused by blast
    next
      case (Inr y)
      obtain pre domains where y: "y = (pre, domains)" by (cases y)
      show thesis
      proof (rule named [of consent version pre domains "?ct1\<lparr>ct_names := s\<rparr>"])
        show "establish ri m user ?u (consent, version) pre domains (?ct1\<lparr>ct_names := s\<rparr>) = (reply, ct')"
          using a False v n Inr y by (auto split: if_splits)
      qed (use False c v d n Inr y in \<open>auto intro!: exI [of _ ?ct1]\<close>)
    qed
  qed
qed

lemma handle_cases:
  assumes "handle_register ri m ct = (reply, ct')"
  obtains
    (refused) "ct_registry ct' = ct_registry ct" "\<And>g. reply \<noteq> Reply_registered g" "\<And>e. reply \<noteq> Reply_failed e"
  | (admitted) user p s where "\<not> is_draining (ri_now ri) ct"
      "check_pat (ri_digest ri) (ri_tokenQuery ri) (get (ct_users ct)) (ri_now ri) (rm_authToken m) (ct_tokens ct) = Token_valid user p"
      "admit_user ri m user (ct\<lparr>ct_tokens := s\<rparr>) = (reply, ct')"
proof -
  let ?v = "check_pat (ri_digest ri) (ri_tokenQuery ri) (get (ct_users ct)) (ri_now ri) (rm_authToken m) (ct_tokens ct)"
  show thesis
  proof (cases "is_draining (ri_now ri) ct \<or> (\<forall>user p. ?v \<noteq> Token_valid user p)")
    case True
    show thesis
      by (rule refused) (use assms True in \<open>auto simp: handle_register_def authenticate_token_def split: if_splits verdict.splits\<close>)
  next
    case False
    then obtain user p where "?v = Token_valid user p" "\<not> is_draining (ri_now ri) ct" by blast
    with assms show thesis
      by (intro admitted [of user p "snd (update_pat_used (ri_now ri) (pt_id p) (ct_tokens ct))"])
        (simp_all add: handle_register_def authenticate_token_def)
  qed
qed

section \<open>The leases a registration makes\<close>

lemma add_leases_heap: "add_leases ls r = (ps, r') \<Longrightarrow> r_heap r' = r_heap r @ ls"
  by (induction ls arbitrary: r ps r') (auto simp: add_lease_def Let_def split: prod.splits)

text \<open>All leases of a request are made by \<open>new_lease\<close>.\<close>

definition made_for :: "register_request \<Rightarrow> string \<Rightarrow> lease \<Rightarrow> bool" where
  "made_for rq tok l \<longleftrightarrow> (\<exists>now node port target h. l = new_lease rq tok now node port target h)"

lemma allocate_heap:
  "allocate rq tok now ips answers r = (res, r') \<Longrightarrow> \<exists>ls. r_heap r' = r_heap r @ ls \<and> (\<forall>l \<in> set ls. made_for rq tok l)"
proof (induction rq tok now ips answers r arbitrary: res r' rule: allocate.induct)
  case (1 rq tok now answers r)
  then show ?case by auto
next
  case (2 rq tok now ip ips answers r)
  show ?case
  proof (cases "\<exists>port answers'. answers = Some port # answers'")
    case False
    then have "r' = r" using "2.prems" by (auto split: list.splits option.splits)
    then show ?thesis by simp
  next
    case True
    then obtain port answers' where sup: "answers = Some port # answers'" by blast
    let ?ls = "map (new_lease rq tok now (local_node_id r) port (pm_localPort (snd ip)))
                 (mapping_hosts (rq_prefix rq) (rq_domains rq) ip)"
    obtain ps1 r1 where a: "add_leases ?ls r = (ps1, r1)" by (cases "add_leases ?ls r")
    let ?s = "r1\<lparr>r_usedPorts := put port True (r_usedPorts r1)\<rparr>"
    obtain res2 where b: "allocate rq tok now ips answers' ?s = (res2, r')"
      using "2.prems" sup a by (auto split: prod.splits)
    from "2.IH" [OF sup refl refl a [symmetric] refl b] obtain ls where
      ls: "r_heap r' = r_heap r1 @ ls" "\<forall>l \<in> set ls. made_for rq tok l" by auto
    moreover have "\<forall>l \<in> set ?ls. made_for rq tok l" unfolding made_for_def by (simp, blast)
    ultimately show ?thesis using add_leases_heap [OF a] by auto
  qed
qed

text \<open>Whatever \<open>register\<close> answers: a route is one that was there, or leads to a lease made for the request.\<close>

lemma register_routes:
  assumes "register env rq r = (res, r')" "registry_wf r" "get (r_leases r') h = Some p"
  shows "(get (r_leases r) h = Some p \<and> deref r' p = deref r p) \<or> (\<exists>tok. made_for rq tok (deref r' p))"
proof -
  have claimed: "(get (r_leases r) h = Some p \<and> deref s p = deref r p)"
    if "claim_hosts (rq_userID rq) (request_hosts rq) r = (c, s)" "get (r_leases s) h = Some p" for c s
    using claim_hosts_routes [OF that(1), of h] claim_hosts_frame [OF that(1)] that(2) by (auto simp: deref_def)
  have alloc: "(get (r_leases r) h = Some p \<and> deref s2 p = deref r p) \<or> (\<exists>tok. made_for rq tok (deref s2 p))"
    if c: "claim_hosts (rq_userID rq) (request_hosts rq) r = (None, s1)"
      and a: "allocate rq tok now (enumerate 0 (rq_ports rq)) answers s1 = (x, s2)"
      and g: "get (r_leases s2) h = Some p" for s1 s2 tok now answers x
  proof -
    obtain ls where ls: "r_heap s2 = r_heap s1 @ ls" "\<forall>l \<in> set ls. made_for rq tok l" using allocate_heap [OF a] by blast
    show ?thesis
    proof (cases "get (r_leases s2) h = get (r_leases s1) h")
      case True
      with g c have "get (r_leases r) h = Some p \<and> deref s1 p = deref r p" using claimed by simp
      moreover from this have "p < length (r_heap s1)" using assms(2) claim_hosts_frame [OF c] by (auto dest: wf_route)
      ultimately show ?thesis using ls(1) by (simp add: deref_def nth_append)
    next
      case False
      with register_allocation(1) [OF a] g have "length (r_heap s1) \<le> p" "p < length (r_heap s2)"
        unfolding grown_def by (metis option.inject)+
      then have "deref s2 p \<in> set ls" using ls(1) by (auto simp: deref_def nth_append)
      with ls(2) show ?thesis by blast
    qed
  qed
  from assms(1) show ?thesis
  proof (cases rule: register_cases)
    case (checked e)
    with assms(3) show ?thesis by simp
  next
    case (conflict h')
    with assms(3) claimed show ?thesis by blast
  next
    case no_token
    with assms(3) claimed show ?thesis by blast
  next
    case (no_port tok r1)
    with assms(3) alloc show ?thesis by blast
  next
    case (refused tok r1 ps rs r2 r3)
    then have "get (r_leases r2) h = Some p"
      using assms(3) by (auto simp: roll_back_routes split: if_splits)
    moreover have "deref r' p = deref r2 p" using refused(5,6) by (simp add: deref_def)
    ultimately show ?thesis using alloc [OF refused(2,4)] by simp
  next
    case (ok tok r1 ps rs r2)
    then have "get (r_leases r2) h = Some p" "deref r' p = deref r2 p" using assms(3) by (simp_all add: deref_def)
    then show ?thesis using alloc [OF ok(2,4)] by simp
  qed
qed

lemma made_for_props:
  "made_for rq tok l \<Longrightarrow> l_userID l = rq_userID rq \<and> l_subdomainPrefix l = rq_prefix rq \<and> l_sessionToken l = tok \<and>
     l_passcode l = [] \<and> l_whitelistIPs l = [] \<and> l_accessMode l = []"
  by (auto simp: made_for_def new_lease_def)

section \<open>How many tunnels a user has\<close>

lemma set_sort_by_host [simp]: "set (sort_by_host ls) = set ls"
proof -
  have ins: "set (insert_by_host l ms) = insert l (set ms)" for l ms by (induction ms) auto
  show ?thesis by (induction ls) (auto simp: sort_by_host_def ins)
qed

lemma snapshot_face [simp]:
  "l_userID (snapshot_lease l) = l_userID l" "l_subdomainPrefix (snapshot_lease l) = l_subdomainPrefix l"
  by (simp_all add: snapshot_lease_def)

lemma set_user_prefixes:
  "set (user_prefixes r uid) =
    {x. \<exists>p \<in> set (map snd (r_leases r)). l_userID (deref r p) = uid \<and> x = l_subdomainPrefix (deref r p)}"
proof -
  have "set (list_leases r) = (\<lambda>p. snapshot_lease (deref r p)) ` set (map snd (r_leases r))"
    by (force simp: list_leases_def)
  moreover define S where "S = set (map snd (r_leases r))"
  ultimately have "set (list_leases r) = (\<lambda>p. snapshot_lease (deref r p)) ` S" by simp
  then have "set (user_prefixes r uid) = l_subdomainPrefix ` {l \<in> (\<lambda>p. snapshot_lease (deref r p)) ` S. l_userID l = uid}"
    by (simp only: user_prefixes_def set_remdups set_map set_filter)
  also have "\<dots> = {x. \<exists>p \<in> S. l_userID (deref r p) = uid \<and> x = l_subdomainPrefix (deref r p)}"
  proof (intro set_eqI iffI)
    fix x assume "x \<in> {x. \<exists>p \<in> S. l_userID (deref r p) = uid \<and> x = l_subdomainPrefix (deref r p)}"
    then obtain p where "p \<in> S" "l_userID (snapshot_lease (deref r p)) = uid" "x = l_subdomainPrefix (snapshot_lease (deref r p))"
      by auto
    then show "x \<in> l_subdomainPrefix ` {l \<in> (\<lambda>p. snapshot_lease (deref r p)) ` S. l_userID l = uid}" by blast
  qed auto
  finally show ?thesis unfolding S_def .
qed

lemma in_user_prefixes:
  assumes "is_table (r_leases r)"
  shows "x \<in> set (user_prefixes r uid) \<longleftrightarrow>
    (\<exists>h p. get (r_leases r) h = Some p \<and> l_userID (deref r p) = uid \<and> l_subdomainPrefix (deref r p) = x)"
proof -
  have "p \<in> set (map snd (r_leases r)) \<longleftrightarrow> (\<exists>h. get (r_leases r) h = Some p)" for p
    using get_in_set [OF assms] by force
  then show ?thesis unfolding set_user_prefixes by blast
qed

lemma same_tunnels_prefixes:
  assumes "same_tunnels r r'"
  shows "set (user_prefixes r' uid) = set (user_prefixes r uid)"
proof -
  have "l_userID (deref r' p) = l_userID (deref r p) \<and> l_subdomainPrefix (deref r' p) = l_subdomainPrefix (deref r p)" for p
    using assms by (simp add: same_tunnels_def lease_face_def)
  then show ?thesis using assms by (simp add: set_user_prefixes same_tunnels_def)
qed

lemma distinct_user_prefixes [simp]: "distinct (user_prefixes r uid)" by (simp add: user_prefixes_def)

lemma register_table:
  assumes "register env rq r = (res, r')" "is_table (r_leases r)"
  shows "is_table (r_leases r')"
proof -
  have c: "is_table (r_leases s)" if "claim_hosts (rq_userID rq) (request_hosts rq) r = (c, s)" for c s
    using claim_hosts_table [OF that] assms(2) by simp
  have a: "is_table (r_leases s2)" if "claim_hosts (rq_userID rq) (request_hosts rq) r = (None, s1)"
    "allocate rq tok now (enumerate 0 (rq_ports rq)) answers s1 = (x, s2)" for s1 s2 tok now answers x
    using register_allocation(1) [OF that(2)] c [OF that(1)] by (simp add: grown_def)
  from assms(1) show ?thesis
    by (cases rule: register_cases) (use assms(2) c a in \<open>auto intro!: roll_back_table\<close>)
qed

lemma register_prefixes:
  assumes "register env rq r = (res, r')" "registry_wf r"
  shows "set (user_prefixes r' (rq_userID rq)) \<subseteq> insert (rq_prefix rq) (set (user_prefixes r (rq_userID rq)))"
proof
  fix x assume x: "x \<in> set (user_prefixes r' (rq_userID rq))"
  have tab: "is_table (r_leases r)" using assms(2) by (simp add: registry_wf_def)
  from x obtain h p where p: "get (r_leases r') h = Some p" "l_userID (deref r' p) = rq_userID rq"
    "l_subdomainPrefix (deref r' p) = x"
    using in_user_prefixes [OF register_table [OF assms(1) tab]] by blast
  from register_routes [OF assms p(1)] show "x \<in> insert (rq_prefix rq) (set (user_prefixes r (rq_userID rq)))"
  proof
    assume "get (r_leases r) h = Some p \<and> deref r' p = deref r p"
    then have "x \<in> set (user_prefixes r (rq_userID rq))" using p(2,3) by (auto simp: in_user_prefixes [OF tab])
    then show ?thesis by simp
  next
    assume "\<exists>tok. made_for rq tok (deref r' p)"
    then show ?thesis using p(3) made_for_props by auto
  qed
qed

section \<open>Routes of a success\<close>

definition message_hosts :: "register_message \<Rightarrow> string \<Rightarrow> string list \<Rightarrow> string list" where
  "message_hosts m pre domains = concat (map (mapping_hosts pre domains) (enumerate 0 (rm_ports m)))"

lemma request_hosts_message [simp]:
  "request_hosts (registry_request ri m user pre domains limit) = message_hosts m pre domains"
  by (simp add: request_hosts_def registry_request_def message_hosts_def)

lemma registry_request_fields [simp]:
  "rq_userID (registry_request ri m user pre domains limit) = u_id user"
  "rq_prefix (registry_request ri m user pre domains limit) = pre"
  by (simp_all add: registry_request_def)

lemma register_new_route:
  assumes "register env rq r = (Inr (tok, remotes), r')" "h \<in> set (request_hosts rq)"
  obtains p where "get (r_leases r') h = Some p" "made_for rq tok (deref r' p)"
proof -
  from assms(1) show thesis
  proof (cases rule: register_cases)
    case (ok tok' r1 ps rs r2)
    from register_allocation(3) [OF ok(4) refl assms(2)] obtain p where
      p: "get (r_leases r2) h = Some p" "length (r_heap r1) \<le> p" "p < length (r_heap r2)" by blast
    obtain ls where ls: "r_heap r2 = r_heap r1 @ ls" "\<forall>l \<in> set ls. made_for rq tok' l"
      using allocate_heap [OF ok(4)] by blast
    have "deref r2 p \<in> set ls" using p(2,3) ls(1) by (auto simp: deref_def nth_append)
    moreover have "tok' = tok" using ok(6) by simp
    ultimately show thesis using that [of p] p(1) ls(2) ok(5) by (simp add: deref_def)
  qed simp_all
qed

text \<open>The rules of the leases: only those of the hosts without a suffix are written.\<close>

definition lease_rules :: "lease \<Rightarrow> string \<times> string \<times> string" where
  "lease_rules l = (l_passcode l, l_whitelistIPs l, l_accessMode l)"

lemma modify_all_rules:
  assumes "\<And>l. lease_rules (f l) = lease_rules l"
  shows "lease_rules (deref (modify_all f ps r) q) = lease_rules (deref r q)"
proof -
  have "lease_rules (deref (modify f p s) q) = lease_rules (deref s q)" for p s
    by (cases "p < length (r_heap s)")
      (auto simp: assms deref_def modify_def nth_list_update list_update_beyond)
  then show ?thesis by (induction ps arbitrary: r) (simp_all add: modify_all_def)
qed

lemma launch_quota_rules:
  "lease_rules (deref (set_launch_context_for_session tok fl ov r) q) = lease_rules (deref r q)"
  "lease_rules (deref (apply_quota_to_new_leases cfg t uid r) q) = lease_rules (deref r q)"
proof -
  have "lease_rules (l\<lparr>l_launchFlags := fl, l_launchOverrides := ov\<rparr>) = lease_rules l"
    "lease_rules (l\<lparr>l_rateLimit := n\<rparr>) = lease_rules l" for l n
    by (simp_all add: lease_rules_def)
  then show "lease_rules (deref (set_launch_context_for_session tok fl ov r) q) = lease_rules (deref r q)"
    "lease_rules (deref (apply_quota_to_new_leases cfg t uid r) q) = lease_rules (deref r q)"
    by (simp_all add: set_launch_context_for_session_def apply_quota_to_new_leases_def set_quota_rate_limit_for_user_def
        Let_def modify_all_rules split: option.split)
qed

lemma access_elsewhere:
  assumes "\<forall>d \<in> set ds. get (r_leases r) (full_host sub d) \<noteq> Some p"
  shows "deref (apply_access_controls_to_leases sub ds acs r) p = deref r p"
  using assms
proof (induction ds arbitrary: r)
  case (Cons d ds)
  have "r_leases (snd (set_access_controls_for_host h pc wl am r)) = r_leases r" for h pc wl am
    by (simp add: set_access_controls_for_host_def split: option.split)
  moreover have "deref (snd (set_access_controls_for_host (full_host sub d) pc wl am r)) p = deref r p" for pc wl am
    using Cons.prems
    by (auto simp: set_access_controls_for_host_def modify_def deref_def nth_list_update_neq split: option.split)
  ultimately show ?case using Cons by (simp split: option.split prod.split)
qed simp

lemma finish_elsewhere:
  assumes "\<forall>d \<in> set domains. get (r_leases r) (full_host pre d) \<noteq> Some p"
  shows "lease_rules (deref (finish_leases ct uid m tok pre domains rules r) p) = lease_rules (deref r p)"
proof -
  have "r_leases (apply_quota_to_new_leases cfg t uid (set_launch_context_for_session tok fl ov r)) = r_leases r" for cfg t fl ov
    using quota_same_tunnels launch_same_tunnels by (metis same_tunnels_def)
  then show ?thesis using assms by (simp add: finish_leases_def access_elsewhere launch_quota_rules)
qed

section \<open>The name of a tunnel\<close>

text \<open>
  What was asked of the name, whichever way it was chosen: a custom domain that nobody's tunnel has, a drawn name that no
  tunnel and no row has, or the name of the request, available at the gateway; and what the policy of reservations asks.
\<close>

definition name_gate :: "register_inputs \<Rightarrow> register_message \<Rightarrow> user \<Rightarrow> user option \<Rightarrow> control \<Rightarrow> string \<Rightarrow> string list \<Rightarrow> bool" where
  "name_gate ri m user userRec ct pre domains \<longleftrightarrow>
     (if rm_customDomain m \<noteq> [] then
        pre = [] \<and> domains = [rm_customDomain m] \<and> is_valid_custom_domain (rm_customDomain m) \<and>
        get_lease (ct_registry ct) (rm_customDomain m) = None \<and>
        names_granted (ct_cfg ct) (ri_faults ri) (ri_now ri) Kind_custom_domain [] domains (u_id user) userRec (ct_names ct)
      else if rm_prefix m = [] \<or> rm_prefix m = ''random'' then
        pre \<in> set (take 10 (ri_names ri)) \<and> \<not> subdomain_held_in_memory (ct_registry ct) (ct_edgeLeases ct) pre domains \<and>
        (\<forall>d\<in>set domains. row_seen (ri_faults ri) (pre, d) (ct_names ct) = None)
      else
        pre = rm_prefix m \<and> (\<exists>d. domains = [d]) \<and>
        check_subdomain_for_user (ct_registry ct) pre domains (u_id user) = Available \<and>
        names_granted (ct_cfg ct) (ri_faults ri) (ri_now ri) Kind_subdomain pre domains (u_id user) userRec (ct_names ct))"

lemma choose_name_gate:
  assumes "choose_name ri m user userRec active ct = (Inr (pre, domains), s)" "names_ok (ct_names ct)"
    "rm_customDomain m \<noteq> [] \<longrightarrow> is_valid_custom_domain (rm_customDomain m)"
  shows "name_gate ri m user userRec ct pre domains"
proof (cases "rm_customDomain m = []")
  case False
  then show ?thesis
    using assms(1,3) custom_granted [OF _ assms(2)]
    by (auto simp: choose_name_def name_gate_def split: if_splits option.splits prod.splits)
next
  case custom: True
  show ?thesis
  proof (cases "rm_prefix m = [] \<or> rm_prefix m = ''random''")
    case True
    then obtain c where "grant_random_subdomain (ri_faults ri) (ct_registry ct) (ct_edgeLeases ct) (ri_names ri) active (ct_names ct) = Some c"
        "pre = c" "domains = active"
      using assms(1) custom by (auto simp: choose_name_def split: option.splits)
    then show ?thesis
      using True custom find_SomeD [of _ "take 10 (ri_names ri)" c]
      by (auto simp: name_gate_def grant_random_subdomain_def random_subdomain_attempts_def subdomain_reserved_def row_seen_def list_ex_iff)
  next
    case False
    then show ?thesis
      using assms(1) custom policy_granted [OF _ assms(2)]
      by (auto simp: choose_name_def name_gate_def split: option.splits prod.splits dest!: find_SomeD)
  qed
qed

lemma name_gate_cong:
  "ct_registry c = ct_registry ct \<Longrightarrow> ct_cfg c = ct_cfg ct \<Longrightarrow> ct_names c = ct_names ct \<Longrightarrow> ct_edgeLeases c = ct_edgeLeases ct \<Longrightarrow>
   name_gate ri m user userRec c = name_gate ri m user userRec ct"
  by (simp add: name_gate_def fun_eq_iff)

text \<open>A registration that succeeds found no host of its request with anybody else.\<close>

lemma registered_hosts_free:
  assumes "register env rq r = (Inr y, r')" "h \<in> set (request_hosts rq)" "get_lease r h = Some l"
  shows "l_userID l = rq_userID rq"
proof -
  obtain r1 where c: "claim_hosts (rq_userID rq) (request_hosts rq) r = (None, r1)"
    using assms(1) by (cases rule: register_cases) auto
  from claim_hosts_free [OF this assms(2)] claim_hosts_routes [OF c, of h] assms(3) show ?thesis
    by (auto simp: get_lease_def)
qed

section \<open>Properties\<close>

text \<open>C1: A tunnel is established only past every gate. The gateway was not draining, the token belongs to an approved user,
  neither the policy nor the minimum version stood in the way, the user was not stopped for bandwidth and not over the limit
  of tunnels. The name passed its own gate, as far as the rows could be read: no row of another user withholds it, live or in
  the quarantine after its expiry, a name without a row is one the user may reserve unasked, and what is reserved anew
  fits the quota; a custom domain is well-formed and nobody's tunnel; a drawn name is no tunnel's and no row's. No host of
  the request was routed to anybody else, and each of them is routed to a tunnel of that user and of the session answered
  with.\<close>

theorem registered_past_every_gate:
  assumes "handle_register ri m ct = (Reply_registered g, ct')" "names_ok (ct_names ct)"
  shows "\<exists>user p. check_pat (ri_digest ri) (ri_tokenQuery ri) (get (ct_users ct)) (ri_now ri) (rm_authToken m) (ct_tokens ct)
        = Token_valid user p \<and>
      \<not> is_draining (ri_now ri) ct \<and> quota_registration_refusal (ct_quota ct) (u_id user) = None \<and>
      (let u = reread_user ri ct (u_id user);
           consent = policy_consent_state (ct_notices ct) (ri_ackFaults ri) (ri_now ri) u True (ct_acks ct)
       in \<not> blocking (fst consent) \<and>
          \<not> blocking (fst (min_version_state (ct_notices ct) (ri_ackFaults ri) (ri_now ri) u (rm_clientVersion m) True (snd consent))) \<and>
          name_gate ri m user u ct (rg_prefix g) (rg_domains g) \<and>
          \<not> over_tunnel_limit (max_active_tunnels_for (ct_cfg ct) (Some user) u)
              (length (user_prefixes (ct_registry ct) (u_id user))) (rg_prefix g \<in> set (user_prefixes (ct_registry ct) (u_id user)))) \<and>
      (\<forall>h \<in> set (message_hosts m (rg_prefix g) (rg_domains g)).
         (\<forall>l. get_lease (ct_registry ct) h = Some l \<longrightarrow> l_userID l = u_id user) \<and>
         (\<exists>l. get_lease (ct_registry ct') h = Some l \<and> l_userID l = u_id user \<and> l_sessionToken l = rg_token g))"
  using assms(1)
proof (cases rule: handle_cases)
  case (admitted user p s)
  let ?ct = "ct\<lparr>ct_tokens := s\<rparr>"
  have same: "reread_user ri ?ct = reread_user ri ct" by (simp add: reread_user_def fun_eq_iff)
  from admitted(3) show ?thesis
  proof (cases rule: admit_cases)
    case (named consent version pre domains ct2)
    obtain active ct1 where n: "ct_registry ct1 = ct_registry ct" "ct_cfg ct1 = ct_cfg ct" "ct_names ct1 = ct_names ct"
        "ct_edgeLeases ct1 = ct_edgeLeases ct"
        "choose_name ri m user (reread_user ri ct (u_id user)) active ct1 = (Inr (pre, domains), ct_names ct2)"
      using named(8) by (auto simp: same)
    have gate: "name_gate ri m user (reread_user ri ct (u_id user)) ct pre domains"
      using choose_name_gate [OF n(5) _ named(4)] assms(2) n(3) unfolding name_gate_cong [OF n(1-4)] by simp
    from named(1) show ?thesis
    proof (cases rule: establish_cases)
      case (done_ g' tok remotes r rules)
      have g: "g' = g" using done_(1) by simp
      let ?r' = "ct_registry ct'"
      let ?rq = "registry_request ri m user pre domains
          (effective_tunnel_rate_limit (ct_cfg ct2) (rm_rateLimit m) (reread_user ri ?ct (u_id user)))"
      have st: "same_tunnels r ?r'" unfolding done_(6) by (rule finish_same_tunnels)
      have "\<exists>l. get_lease ?r' h = Some l \<and> l_userID l = u_id user \<and> l_sessionToken l = rg_token g"
        if "h \<in> set (message_hosts m pre domains)" for h
      proof -
        have "h \<in> set (request_hosts ?rq)" using that by simp
        from register_new_route [OF done_(5) this] obtain q where
          q: "get (r_leases r) h = Some q" "made_for ?rq tok (deref r q)" by blast
        have "map_option lease_face (get_lease ?r' h) = Some (lease_face (deref r q))"
          using same_tunnels_lease [OF st] q(1) by (simp add: get_lease_def)
        then show ?thesis using made_for_props [OF q(2)] done_(2) g by (auto simp: lease_face_def)
      qed
      moreover have "l_userID l = u_id user" if "h \<in> set (message_hosts m pre domains)" "get_lease (ct_registry ct) h = Some l" for h l
        using registered_hosts_free [OF done_(5), of h l] that named(5) by simp
      ultimately show ?thesis
        using admitted(1,2) named(2,3,5-7) done_ g same gate by (auto simp: Let_def)
    qed (blast | simp)+
  qed blast
qed blast


lemma tunnels_within_limit:
  assumes "\<not> over_tunnel_limit limit (length held) (pre \<in> set held)" "set after \<subseteq> insert pre (set held)"
    "distinct held" "distinct after" "0 < limit"
  shows "set after \<subseteq> set held \<or> int (length held) < limit \<and> int (length after) \<le> limit"
proof -
  have "length after \<le> card (insert pre (set held))"
    using card_mono [OF _ assms(2)] distinct_card [OF assms(4)] by (metis List.finite_set finite_insert)
  also have "\<dots> \<le> (if pre \<in> set held then length held else Suc (length held))"
    using distinct_card [OF assms(3)] by (simp add: insert_absorb card_insert_if)
  finally show ?thesis using assms(1,2,5) by (auto simp: over_tunnel_limit_def split: if_splits)
qed

text \<open>C37: The limit of tunnels at the control plane. The names of a user's tunnels in its registry, all tunnels of custom
  domains counting as one name and tunnels held by edges not at all, are no others after a registration than before it,
  whatever it is answered; unless there were fewer names than the limit, and then there are no more than the limit.
  So a user at the limit, or beyond it after it was lowered, gains no name.\<close>

theorem tunnel_limit_kept:
  assumes "handle_register ri m ct = (reply, ct')" "registry_wf (ct_registry ct)"
    "check_pat (ri_digest ri) (ri_tokenQuery ri) (get (ct_users ct)) (ri_now ri) (rm_authToken m) (ct_tokens ct) = Token_valid user p"
    "limit = max_active_tunnels_for (ct_cfg ct) (Some user) (reread_user ri ct (u_id user))" "0 < limit"
    "before = user_prefixes (ct_registry ct) (u_id user)" "after = user_prefixes (ct_registry ct') (u_id user)"
  shows "set after \<subseteq> set before \<or> int (length before) < limit \<and> int (length after) \<le> limit"
proof -
  note bound = tunnels_within_limit [OF _ _ distinct_user_prefixes distinct_user_prefixes assms(5)]
  from assms(1) show ?thesis unfolding assms(6,7)
  proof (cases rule: handle_cases)
    case (admitted user' p' s)
    have u: "user' = user" using admitted(2) assms(3) by simp
    let ?ct = "ct\<lparr>ct_tokens := s\<rparr>" and ?held = "user_prefixes (ct_registry ct) (u_id user)"
    have same: "reread_user ri ?ct = reread_user ri ct" by (simp add: reread_user_def fun_eq_iff)
    from admitted(3) show "set (user_prefixes (ct_registry ct') (u_id user)) \<subseteq> set ?held \<or>
        int (length ?held) < limit \<and> int (length (user_prefixes (ct_registry ct') (u_id user))) \<le> limit" unfolding u
    proof (cases rule: admit_cases)
      case (named consent version pre domains ct2)
      have step: "set (user_prefixes r (u_id user)) \<subseteq> insert pre (set ?held)"
        if "register (ri_env ri) (registry_request ri m user pre domains n) (ct_registry ct2) = (res, r)" for n res r
        using register_prefixes [OF that] named(5) assms(2) by simp
      from named(1) show ?thesis
      proof (cases rule: establish_cases)
        case (failed e r)
        then show ?thesis using bound [of _ _ pre r] step [OF failed(2)] named(5,6) assms(4) same by simp
      next
        case (done_ g tok remotes r rules)
        have "same_tunnels r (ct_registry ct')" unfolding done_(6) by (rule finish_same_tunnels)
        then show ?thesis using bound [of _ _ pre "ct_registry ct'"] step [OF done_(5)] same_tunnels_prefixes done_(7)
            named(5,6) assms(4) same by simp
      qed (use named(5) in simp)
    qed simp
  qed simp
qed

section \<open>A small control plane for the witnesses\<close>

definition ex_pat :: pat where
  "ex_pat = \<lparr>pt_id = 1, pt_userID = ''bob'', pt_tokenHash = ''tok'', pt_tokenPrefix = [], pt_name = [], pt_expiresAt = None,
     pt_revokedAt = None, pt_lastUsedAt = None, pt_createdAt = 0, pt_permanenceState = [], pt_warned = False\<rparr>"

definition ex_control :: "registry \<Rightarrow> control" where
  "ex_control r = \<lparr>ct_cfg = ex_config,
     ct_notices = \<lparr>nc_policyVersion = [], nc_consentGraceDays = 0, nc_consentWarningDays = 0, nc_stopsActiveTunnels = False,
       nc_minClientVersion = [], nc_minVersionGraceDays = 0, nc_minVersionWarningDays = 0, nc_portalURL = []\<rparr>,
     ct_centralURL = [], ct_registry = r, ct_edgeLeases = [], ct_tokens = \<lparr>ts_pats = [ex_pat], ts_nextID = 2\<rparr>,
     ct_acks = \<lparr>as_acks = [], as_notices = []\<rparr>, ct_names = \<lparr>ns_rows = [], ns_nextID = 1\<rparr>, ct_quota = None,
     ct_users = [(''bob'', ex_user ''bob'' ''developer'')], ct_pendingShutdownAt = 0, ct_roundRobin = 0, ct_events = []\<rparr>"

definition ex_inputs :: register_inputs where
  "ex_inputs = \<lparr>ri_now = 5, ri_host = ''tunnel.ex.org'', ri_clientIP = ''10.0.0.2'', ri_digest = (\<lambda>s. s),
     ri_tokenQuery = Answered, ri_userFails = False, ri_userWriteFails = False,
     ri_ackFaults = \<lparr>af_history = False, af_notice = False\<rparr>, ri_faults = no_faults, ri_names = [],
     ri_env = ex_env ''t2'' [Some 10002, Some 10003],
     ri_alloc = \<lparr>al_rule = ''preference'', al_defaultDomain = [], al_setting = (\<lambda>_. None), al_hash = length, al_shuffle = rev\<rparr>,
     ri_urlHost = (\<lambda>_. None)\<rparr>"

definition ex_message :: "string \<Rightarrow> (int \<times> string) list \<Rightarrow> register_message" where
  "ex_message pre ports = \<lparr>rm_prefix = pre, rm_customDomain = [],
     rm_ports = map (\<lambda>(p, s). \<lparr>pm_localPort = p, pm_nameSuffix = s\<rparr>) ports, rm_authToken = ''tok'', rm_rateLimit = 0,
     rm_basicAuth = [], rm_addedHeaders = [], rm_clientVersion = [], rm_clientOS = [], rm_passcode = ''secret'',
     rm_whitelistIPs = [], rm_launchFlags = [], rm_launchOverrides = []\<rparr>"

lemma ex_check [simp]:
  "check_pat (ri_digest ex_inputs) (ri_tokenQuery ex_inputs) (get (ct_users (ex_control r))) (ri_now ex_inputs)
     (rm_authToken (ex_message pre ports)) (ct_tokens (ex_control r)) = Token_valid (ex_user ''bob'' ''developer'') ex_pat"
  by (simp add: check_pat_def ex_inputs_def ex_control_def ex_message_def get_pat_by_hash_def ex_pat_def get_def ex_user_def)

lemma ex_control_fields [simp]:
  "ct_cfg (ex_control r) = ex_config" "ct_registry (ex_control r) = r" "ct_quota (ex_control r) = None"
  "ct_names (ex_control r) = \<lparr>ns_rows = [], ns_nextID = 1\<rparr>"
  by (simp_all add: ex_control_def)

lemma ex_empty [simp]:
  "user_prefixes new_registry u = []" "get_lease new_registry h = None" "token_fresh env new_registry"
  by (simp_all add: user_prefixes_def list_leases_def new_registry_def sort_by_host_def get_lease_def token_fresh_def)

lemma ex_reread [simp]: "reread_user ex_inputs (ct\<lparr>ct_tokens := s\<rparr>) u = get (ct_users ct) u"
  by (simp add: reread_user_def ex_inputs_def)

definition ex_held :: name_store where
  "ex_held = \<lparr>ns_rows = [(fresh_row ''bob'' ''shop'' ''ex.org'' (Some (7 * (24 * hour) + 5)) 5)\<lparr>rv_id := 1\<rparr>], ns_nextID = 2\<rparr>"

definition ex_named :: control where
  "ex_named = (ex_control new_registry)\<lparr>ct_tokens := snd (update_pat_used 5 1 (ct_tokens (ex_control new_registry))), ct_names := ex_held\<rparr>"

lemma ex_active: "get_active_domains_for_request ex_config (ri_alloc ex_inputs) (ri_host ex_inputs) (ri_clientIP ex_inputs) u r c = ([''ex.org''], c)"
  by (simp add: get_active_domains_for_request_def ex_inputs_def setting_or_def ranked_domains_def tunnel_domains_def ex_config_def)

lemma ex_policy: "policy_for_kind (Some ex_config) k = ''disabled''"
  by (cases k) (simp_all add: policy_for_kind_def ex_config_def policy_resolve_def trim_space_def)

lemma ex_expiry: "reservation_expiry (Some ex_config) Kind_subdomain u 5 = Some (7 * (24 * hour) + 5)"
  by (simp add: reservation_expiry_def ex_policy resolve_expiry_under_policy_def expiry_inputs_for_def role_lookup_def ex_config_def get_def
     default_subdomain_expiry_days_def add_days_def Let_def policy_available_def policy_grants_immediately_def policy_resolve_def trim_space_def is_space_def)

lemma ex_available: "check_subdomain_for_user new_registry ''shop'' [d] u = Available"
  by (simp add: check_subdomain_for_user_def get_lease_def new_registry_def eval_register trim_space_def is_space_def)

lemma ex_choose:
  "choose_name ex_inputs (ex_message ''shop'' ports) (ex_user ''bob'' ''developer'') (Some (ex_user ''bob'' ''developer'')) [''ex.org''] ct
    = (Inr (''shop'', [''ex.org'']), ex_held)"
  if "ct_registry ct = new_registry" "ct_cfg ct = ex_config" "ct_names ct = \<lparr>ns_rows = [], ns_nextID = 1\<rparr>"
proof -
  have auto: "can_user_auto_reserve ex_config (Some (ex_user ''bob'' ''developer''))"
    by (simp add: can_user_auto_reserve_def ex_config_def role_lookup_def get_def)
  have max: "get_user_max_reservations ex_config (ex_user ''bob'' ''developer'') = 2"
    by (simp add: get_user_max_reservations_def ex_config_def role_lookup_def get_def ex_user_def)
  have id: "u_id (ex_user ''bob'' ''developer'') = ''bob''" by (simp add: ex_user_def)
  have f: "ri_faults ex_inputs = no_faults" "ri_now ex_inputs = 5" by (simp_all add: ex_inputs_def)
  have nf: "df_read no_faults d = False" "df_list no_faults = False" "df_reread no_faults d = False" "df_create no_faults d = False" for d
    by (simp_all add: no_faults_def)
  show ?thesis using that
    by (simp add: choose_name_def ex_message_def ex_available apply_subdomain_reservation_policy_def auto max id f nf
      get_by_name_def create_subdomain_reservations_def active_count_def list_by_user_def reserve_name_def ex_expiry create_row_def ex_held_def fresh_row_def)
qed

lemma ex_admit: "admit_user ex_inputs (ex_message ''shop'' ports) (ex_user ''bob'' ''developer'')
    ((ex_control new_registry)\<lparr>ct_tokens := s\<rparr>) =
   establish ex_inputs (ex_message ''shop'' ports) (ex_user ''bob'' ''developer'') (Some (ex_user ''bob'' ''developer'')) (quiet, quiet)
     ''shop'' [''ex.org''] ((ex_control new_registry)\<lparr>ct_tokens := s, ct_names := ex_held\<rparr>)"
proof -
  have u: "get (ct_users (ex_control new_registry)) (u_id (ex_user ''bob'' ''developer'')) = Some (ex_user ''bob'' ''developer'')"
    by (simp add: ex_control_def ex_user_def get_def)
  have c: "policy_consent_state (ct_notices (ex_control new_registry)) f n (Some v) b a = (quiet, a)"
    "min_version_state (ct_notices (ex_control new_registry)) f n (Some v) w b a = (quiet, a)" for f n v w b a
    by (simp_all add: policy_consent_state_def min_version_state_def ex_control_def)
  have q: "\<not> blocking quiet" by (simp add: blocking_def quiet_def)
  have f: "ct_cfg (ex_control new_registry) = ex_config" "ct_registry (ex_control new_registry) = new_registry"
    "ct_names (ex_control new_registry) = \<lparr>ns_rows = [], ns_nextID = 1\<rparr>" "rm_customDomain (ex_message ''shop'' ports) = []"
    by (simp_all add: ex_control_def ex_message_def)
  show ?thesis by (simp add: admit_user_def u c q f ex_active top_ranked_domain_def ex_choose Let_def)
qed

lemma ex_registered:
  "\<exists>g ct'. handle_register ex_inputs (ex_message ''shop'' [(8080, []), (3000, ''api'')]) (ex_control new_registry) = (Reply_registered g, ct') \<and>
     rg_prefix g = ''shop'' \<and> rg_domains g = [''ex.org''] \<and> rg_token g = ''t2''"
proof -
  let ?m = "ex_message ''shop'' [(8080, []), (3000, ''api'')]"
  let ?u = "ex_user ''bob'' ''developer''"
  let ?ct = "(ex_control new_registry)\<lparr>ct_tokens := snd (update_pat_used 5 1 (ct_tokens (ex_control new_registry))), ct_names := ex_held\<rparr>"
  have drain: "\<not> is_draining n (ex_control r)" for n r by (simp add: is_draining_def ex_control_def)
  have 1: "handle_register ex_inputs ?m (ex_control new_registry) =
      establish ex_inputs ?m ?u (Some ?u) (quiet, quiet) ''shop'' [''ex.org''] ?ct"
  proof -
    have "ri_now ex_inputs = 5" "pt_id ex_pat = 1" by (simp_all add: ex_inputs_def ex_pat_def)
    then show ?thesis unfolding handle_register_def authenticate_token_def ex_check by (simp add: drain ex_admit)
  qed
  let ?n = "effective_tunnel_rate_limit ex_config (rm_rateLimit ?m) (Some ?u)"
  have "fst (register (ri_env ex_inputs) (registry_request ex_inputs ?m ?u ''shop'' [''ex.org''] ?n) new_registry)
     = Inr (''t2'', [''R:127.0.0.1:10002:localhost:8080'', ''R:127.0.0.1:10003:localhost:3000''])"
    by (simp add: registry_request_def ex_inputs_def ex_message_def new_registry_def eval_register ex_user_def)
  then obtain r where reg: "register (ri_env ex_inputs) (registry_request ex_inputs ?m ?u ''shop'' [''ex.org''] ?n) new_registry
     = (Inr (''t2'', [''R:127.0.0.1:10002:localhost:8080'', ''R:127.0.0.1:10003:localhost:3000'']), r)"
    by (metis prod.collapse)
  have frames: "ct_cfg (ex_control s) = ex_config" "ct_registry (ex_control s) = s" "ct_quota (ex_control s) = None" for s
    by (simp_all add: ex_control_def)
  have held: "user_prefixes new_registry u = []" for u
    by (simp add: user_prefixes_def list_leases_def new_registry_def sort_by_host_def)
  have lim: "max_active_tunnels_for ex_config (Some ?u) (Some ?u) = 3"
    by (simp add: max_active_tunnels_for_def ex_config_def ex_user_def)
  show ?thesis unfolding 1 establish_def Let_def
    by (simp add: frames reg held lim over_tunnel_limit_def quota_registration_refusal_def quota_standing_def)
qed

lemma ex_hosts: "message_hosts (ex_message ''shop'' [(8080, []), (3000, ''api'')]) ''shop'' [''ex.org''] = [''shop.ex.org'', ''shop-api.ex.org'']"
  by (simp add: message_hosts_def ex_message_def eval_register)

theorem registered_past_every_gate_witness:
  "\<exists>l. get_lease (ct_registry (snd (handle_register ex_inputs (ex_message ''shop'' [(8080, []), (3000, ''api'')]) (ex_control new_registry))))
      ''shop-api.ex.org'' = Some l \<and> l_userID l = ''bob'' \<and> l_sessionToken l = ''t2''"
proof -
  obtain g ct' where h: "handle_register ex_inputs (ex_message ''shop'' [(8080, []), (3000, ''api'')]) (ex_control new_registry)
      = (Reply_registered g, ct')" and g: "rg_prefix g = ''shop''" "rg_domains g = [''ex.org'']" "rg_token g = ''t2''"
    using ex_registered by blast
  have "u_id (ex_user ''bob'' ''developer'') = ''bob''" by (simp add: ex_user_def)
  moreover have "names_ok (ct_names (ex_control new_registry))" by (simp add: names_ok_def)
  ultimately show ?thesis using registered_past_every_gate [OF h] g by (auto simp: ex_hosts h)
qed


theorem tunnel_limit_kept_witness:
  "int (length (user_prefixes (ct_registry (snd (handle_register ex_inputs (ex_message ''shop'' [(8080, []), (3000, ''api'')])
      (ex_control new_registry)))) ''bob'')) \<le> 3"
proof -
  let ?m = "ex_message ''shop'' [(8080, []), (3000, ''api'')]"
  let ?u = "ex_user ''bob'' ''developer''"
  obtain reply ct' where h: "handle_register ex_inputs ?m (ex_control new_registry) = (reply, ct')"
    by (cases "handle_register ex_inputs ?m (ex_control new_registry)")
  have r: "ct_registry (ex_control new_registry) = new_registry" "u_id ?u = ''bob''" by (simp_all add: ex_control_def ex_user_def)
  have lim: "3 = max_active_tunnels_for (ct_cfg (ex_control new_registry)) (Some ?u)
      (reread_user ex_inputs (ex_control new_registry) (u_id ?u))"
    by (simp add: max_active_tunnels_for_def reread_user_def ex_control_def ex_inputs_def ex_config_def ex_user_def get_def)
  have "registry_wf (ct_registry (ex_control new_registry))" "(0::int) < 3" by (simp_all add: r)
  from tunnel_limit_kept [OF h this(1) ex_check lim this(2) refl refl] show ?thesis by (auto simp: h r)
qed

section \<open>Where the rules do not reach\<close>

lemma ruleless_lease_is_open:
  assumes "lease_rules l = ([], [], [])" "\<not> ae_forceClientCert env" "\<not> is_verify_request q"
  shows "fst (check_access_controls env q l host) = Admitted"
proof -
  have "access_controls l = ([], [], ''or'')" using assms(1) by (simp add: access_controls_def lease_rules_def)
  then have "evaluate_rules env q l host = Admitted"
    using assms(2) by (simp add: evaluate_rules_def Let_def to_lower_def lower_char_def)
  then show ?thesis using assms(3) by (simp add: check_access_controls_def)
qed

text \<open>The access rules of a reservation protect only the host without a suffix: after a successful registration
  every further host of the same request, one per extra port, is routed with no passcode and no whitelist
  at all, so the gate admits any visitor to it.\<close>

theorem extra_hosts_have_no_rules:
  assumes "handle_register ri m ct = (Reply_registered g, ct')" "registry_wf (ct_registry ct)"
    "token_fresh (ri_env ri) (ct_registry ct)" "h \<in> set (message_hosts m (rg_prefix g) (rg_domains g))"
    "h \<notin> full_host (rg_prefix g) ` set (rg_domains g)" "\<not> ae_forceClientCert env" "\<not> is_verify_request q"
  shows "\<exists>l. get_lease (ct_registry ct') h = Some l \<and> fst (check_access_controls env q l host) = Admitted"
  using assms(1)
proof (cases rule: handle_cases)
  case (admitted user p s)
  from admitted(3) show ?thesis
  proof (cases rule: admit_cases)
    case (named consent version pre domains ct2)
    from named(1) show ?thesis
    proof (cases rule: establish_cases)
      case (done_ g' tok remotes r rules)
      let ?r' = "ct_registry ct'"
      let ?rq = "registry_request ri m user pre domains
            (effective_tunnel_rate_limit (ct_cfg ct2) (rm_rateLimit m) (reread_user ri (ct\<lparr>ct_tokens := s\<rparr>) (u_id user)))"
      have g: "rg_prefix g = pre" "rg_domains g = domains" using done_(1,3,4) by simp_all
      have "h \<in> set (request_hosts ?rq)" using assms(4) g by simp
      from register_new_route [OF done_(5) this] obtain k where
        k: "get (r_leases r) h = Some k" "made_for ?rq tok (deref r k)" by blast
      have wf: "registry_wf r" using register_wf_aux [OF done_(5)] assms(2,3) named(5) by simp
      have st: "same_tunnels r ?r'" unfolding done_(6) by (rule finish_same_tunnels)
      have "get (r_leases r) (full_host pre d) \<noteq> Some k" if "d \<in> set domains" for d
      proof
        assume "get (r_leases r) (full_host pre d) = Some k"
        from wf_route [OF wf this] wf_route [OF wf k(1)] have "full_host pre d = h" by simp
        then show False using that assms(5) g by blast
      qed
      then have "lease_rules (deref ?r' k) = lease_rules (deref r k)"
        unfolding done_(6) by (intro finish_elsewhere) blast
      then have open_: "lease_rules (deref ?r' k) = ([], [], [])"
        using made_for_props [OF k(2)] by (simp add: lease_rules_def)
      have "get_lease ?r' h = Some (deref ?r' k)" using st k(1) by (simp add: same_tunnels_def get_lease_def)
      then show ?thesis using ruleless_lease_is_open [OF open_ assms(6,7)] by simp
    qed (blast | simp)+
  qed blast
qed blast

text \<open>In the witness the request itself carries a passcode.\<close>

theorem extra_hosts_have_no_rules_witness:
  "\<exists>l. get_lease (ct_registry (snd (handle_register ex_inputs (ex_message ''shop'' [(8080, []), (3000, ''api'')]) (ex_control new_registry))))
      ''shop-api.ex.org'' = Some l \<and> fst (check_access_controls ex_access (ex_visit None []) l ''shop-api.ex.org'') = Admitted"
proof -
  obtain g ct' where h: "handle_register ex_inputs (ex_message ''shop'' [(8080, []), (3000, ''api'')]) (ex_control new_registry)
      = (Reply_registered g, ct')" and g: "rg_prefix g = ''shop''" "rg_domains g = [''ex.org'']"
    using ex_registered by blast
  have r: "ct_registry (ex_control new_registry) = new_registry" by (simp add: ex_control_def)
  have "\<exists>l. get_lease (ct_registry ct') ''shop-api.ex.org'' = Some l \<and>
      fst (check_access_controls ex_access (ex_visit None []) l ''shop-api.ex.org'') = Admitted"
    by (rule extra_hosts_have_no_rules [OF h])
      (simp_all add: r g ex_hosts full_host_def ex_access_def is_verify_request_def ex_visit_def get_def)
  then show ?thesis by (simp add: h)
qed

section \<open>Names and hosts\<close>

text \<open>A reserved name does not protect its host: another user's live reservation of \<open>sub\<close> under a domain the
  gateway serves does not stop a registration that asks for \<open>sub.domain\<close> as a custom domain. The name is
  settled on that very host, the reservation stays on record, and the host is among those to be routed.\<close>

theorem custom_domain_takes_reserved_host:
  assumes "names_ok (ct_names ct)" "get_by_name (sub, d) (ct_names ct) = Some v" "rv_userID v \<noteq> u_id user" "sub \<noteq> []"
    "reservation_standing_of (ri_now ri) (cf_subdomainQuarantineDays (ct_cfg ct)) v = Live" "d \<in> set (cf_domains (ct_cfg ct))"
    "rm_customDomain m = sub @ ''.'' @ d" "get_lease (ct_registry ct) (sub @ ''.'' @ d) = None"
    "get_by_name ([], sub @ ''.'' @ d) (ct_names ct) = None" "ri_faults ri = no_faults"
    "can_user_auto_reserve (ct_cfg ct) userRec"
    "create_custom_reservation (ct_cfg ct) no_faults (ri_now ri) (sub @ ''.'' @ d) user userRec (ct_names ct) = (None, s)"
    "rm_ports m = port # ports" "pm_nameSuffix port = []"
  shows "choose_name ri m user userRec active ct = (Inr ([], [sub @ ''.'' @ d]), s) \<and>
    get_by_name (sub, d) s = Some v \<and> sub @ ''.'' @ d \<in> set (message_hosts m [] [sub @ ''.'' @ d])"
proof -
  let ?v = "fresh_row (u_id user) [] (sub @ ''.'' @ d) (reservation_expiry (Some (ct_cfg ct)) Kind_custom_domain user (ri_now ri)) (ri_now ri)"
  have row: "row_name ?v = ([], sub @ ''.'' @ d)" by (simp add: row_name_def fresh_row_def)
  have "choose_name ri m user userRec active ct = (Inr ([], [sub @ ''.'' @ d]), s)"
    using assms(7-12) by (simp add: choose_name_def reserve_custom_domain_def no_faults_def)
  moreover have "get_by_name (sub, d) s = Some v"
  proof -
    obtain s' where s': "create_row ?v (ct_names ct) = Some s'"
      "\<forall>n. get_by_name n s' = (if n = row_name ?v then Some (scan_row (?v\<lparr>rv_id := ns_nextID (ct_names ct)\<rparr>)) else get_by_name n (ct_names ct))"
      using create_row_free [OF assms(1), of ?v] assms(9) row by auto
    have "s = reserve_name no_faults ?v (ct_names ct)"
      using assms(12) by (simp add: create_custom_reservation_def Let_def split: if_splits)
    then have "s = s'" using s'(1) assms(9) row by (simp add: reserve_name_def no_faults_def)
    then show ?thesis using s'(2) row assms(2,4) by simp
  qed
  moreover have "sub @ ''.'' @ d \<in> set (message_hosts m [] [sub @ ''.'' @ d])"
    using assms(13,14) by (simp add: message_hosts_def mapping_hosts_def host_suffix_def mapping_subdomain_def full_host_def)
  ultimately show ?thesis by simp
qed

text \<open>Alice holds \<open>demo\<close> on \<open>ex.org\<close>; bob asks for the custom domain \<open>demo.ex.org\<close>.\<close>

definition ex_alices :: name_store where
  "ex_alices = \<lparr>ns_rows = [(fresh_row ''alice'' ''demo'' ''ex.org'' None 0)\<lparr>rv_id := 1, rv_accessMode := ''or''\<rparr>], ns_nextID = 2\<rparr>"

theorem custom_domain_takes_reserved_host_witness:
  "fst (choose_name ex_inputs ((ex_message [] [(8080, [])])\<lparr>rm_customDomain := ''demo.ex.org''\<rparr>) (ex_user ''bob'' ''developer'') None []
     ((ex_control new_registry)\<lparr>ct_names := ex_alices\<rparr>)) = Inr ([], [''demo.ex.org''])"
proof -
  let ?u = "ex_user ''bob'' ''developer''"
  let ?ct = "(ex_control new_registry)\<lparr>ct_names := ex_alices\<rparr>"
  let ?m = "(ex_message [] [(8080, [])])\<lparr>rm_customDomain := ''demo.ex.org''\<rparr>"
  let ?v = "(fresh_row ''alice'' ''demo'' ''ex.org'' None 0)\<lparr>rv_id := 1, rv_accessMode := ''or''\<rparr>"
  have rows: "row_name ?v = (''demo'', ''ex.org'')" by (simp add: row_name_def fresh_row_def)
  have ok: "names_ok ex_alices" by (simp add: names_ok_def ex_alices_def row_name_def)
  have v: "get_by_name (''demo'', ''ex.org'') ex_alices = Some ?v"
    by (simp add: get_by_name_def ex_alices_def rows scan_row_def)
  have none: "get_by_name ([], ''demo'' @ ''.'' @ ''ex.org'') ex_alices = None"
    by (simp add: get_by_name_def ex_alices_def rows)
  obtain s where s: "create_custom_reservation ex_config no_faults 5 (''demo'' @ ''.'' @ ''ex.org'') ?u None ex_alices = (None, s)"
    by (simp add: create_custom_reservation_def Let_def ex_config_def active_count_def list_by_user_def ex_alices_def ex_user_def fresh_row_def)
  have bob: "u_id ?u = ''bob''" "rv_userID ?v = ''alice''" "cf_domains ex_config = [''ex.org'']"
    by (simp_all add: ex_user_def fresh_row_def ex_config_def)
  have auto: "can_user_auto_reserve ex_config None" by (simp add: can_user_auto_reserve_def ex_config_def)
  have live: "reservation_standing_of n k ?v = Live" for n k by (simp add: reservation_standing_of_def fresh_row_def)
  have frames: "ct_cfg ?ct = ex_config" "ct_names ?ct = ex_alices" "ct_registry ?ct = new_registry" "ri_now ex_inputs = 5"
    "ri_faults ex_inputs = no_faults" by (simp_all add: ex_control_def ex_inputs_def)
  have "choose_name ex_inputs ?m ?u None [] ?ct = (Inr ([], [''demo'' @ ''.'' @ ''ex.org'']), s) \<and>
      get_by_name (''demo'', ''ex.org'') s = Some ?v \<and> ''demo'' @ ''.'' @ ''ex.org'' \<in> set (message_hosts ?m [] [''demo'' @ ''.'' @ ''ex.org''])"
    by (rule custom_domain_takes_reserved_host [where port = "\<lparr>pm_localPort = 8080, pm_nameSuffix = []\<rparr>" and ports = "[]"])
      (use v none s in \<open>simp_all add: frames ok bob auto live ex_message_def\<close>)
  then show ?thesis by simp
qed

end
