(* ===== verification/Allocation_Facts.thy ===== *)
theory Allocation_Facts
  imports Registration "HOL-Library.Multiset"
begin

text \<open>
  Which domain a tunnel is issued on: one the gateway may issue on, whatever the rule, and under the
  round-robin rule each of them once in every round.
\<close>

lemma find_member: "List.find P xs = Some d \<Longrightarrow> d \<in> set xs"
  by (auto simp: find_Some_iff)

lemma ordered_from_set:
  assumes "xs \<noteq> []" "start < length xs"
  shows "ordered_from start xs \<noteq> [] \<and> hd (ordered_from start xs) = xs ! start"
proof -
  have "[0..<length xs] = 0 # [1..<length xs]" using assms(1) by (simp add: upt_conv_Cons)
  then show ?thesis using assms(2) by (simp add: ordered_from_def)
qed

definition allocation_rules :: "string list" where
  "allocation_rules = [[], ''user-preference'', ''contextual'', ''hashing'', ''least-connections'', ''round-robin'',
     ''random'', ''preference'']"

lemma ranked_head:
  assumes "rule \<in> set [''hashing'', ''least-connections'', ''round-robin'', ''random'', ''preference'']" "eligible \<noteq> []"
    "\<forall>xs. mset (al_shuffle al xs) = mset xs"
  shows "\<exists>d \<in> set eligible. top_ranked_domain (fst (ranked_domains al rule eligible key r c)) = [d]"
proof -
  have top: "\<exists>d \<in> set eligible. top_ranked_domain xs = [d]" if "xs \<noteq> []" "set xs \<subseteq> set eligible" for xs
    using that by (cases xs) (simp_all add: top_ranked_domain_def)
  have ordered: "\<exists>d \<in> set eligible. top_ranked_domain (ordered_from (n mod length eligible) eligible) = [d]" for n
    using assms(2) by (intro top) (auto simp: ordered_from_def)
  have shuffled: "al_shuffle al eligible \<noteq> []" "set (al_shuffle al eligible) = set eligible"
    using assms(2,3) by (metis mset_zero_iff, metis set_mset_mset)
  have sorted: "sort_key f eligible \<noteq> []" "set (sort_key f eligible) = set eligible" for f :: "string \<Rightarrow> nat"
    using assms(2) by (auto simp flip: set_empty)
  consider "rule = ''hashing''" | "rule = ''least-connections''" | "rule = ''round-robin''" | "rule = ''random''" | "rule = ''preference''"
    using assms(1) unfolding list.set insert_iff empty_iff by argo
  then show ?thesis
  proof cases
    case 1
    then show ?thesis using assms(2) ordered by (simp add: ranked_domains_def)
  next
    case 2
    then show ?thesis using assms(2) top [OF sorted(1)] sorted(2) by (simp add: ranked_domains_def)
  next
    case 3
    then show ?thesis using assms(2) ordered [of "Suc c"] by (simp add: ranked_domains_def)
  next
    case 4
    then show ?thesis using assms(2) top [OF shuffled(1)] shuffled(2) by (simp add: ranked_domains_def)
  next
    case 5
    then show ?thesis using assms(2) top [of eligible] by (simp add: ranked_domains_def)
  qed
qed

text \<open>A tunnel is only ever issued on a domain of the gateway: under every rule the configuration knows, a gateway
  with domains to issue on settles on exactly one of them, and on \<open>localhost\<close> only when it has none; a rule
  it does not know issues on \<open>localhost\<close> although there are domains.\<close>

theorem issued_domain_is_served:
  assumes "\<forall>xs. mset (al_shuffle al xs) = mset xs"
  shows "if tunnel_domains cfg \<noteq> [] \<and> setting_or al ''domain_allocation_rule'' (al_rule al) \<in> set allocation_rules
    then \<exists>d \<in> set (tunnel_domains cfg).
      top_ranked_domain (fst (get_active_domains_for_request cfg al host clientIP u r c)) = [d]
    else top_ranked_domain (fst (get_active_domains_for_request cfg al host clientIP u r c)) = [''localhost'']"
proof -
  let ?e = "tunnel_domains cfg"
  let ?rule0 = "setting_or al ''domain_allocation_rule'' (al_rule al)"
  let ?top = "top_ranked_domain (fst (get_active_domains_for_request cfg al host clientIP u r c))"
  have one: "top_ranked_domain [d] = [d]" for d by (simp add: top_ranked_domain_def)
  have pref: "d \<in> set ?e" if "preferred_choice u ?e = Some d" for d
    using that by (auto simp: preferred_choice_def dest: find_member split: option.splits if_splits)
  have ctx: "d \<in> set ?e" if "contextual_choice al h ?e = Some d" for d h
    using that by (auto simp: contextual_choice_def Let_def dest: find_member split: option.splits if_splits)
  note h = ranked_head [OF _ _ assms, of _ ?e]
  show ?thesis
  proof (cases "?e \<noteq> [] \<and> ?rule0 \<in> set allocation_rules")
    case True
    then have "\<exists>d \<in> set ?e. ?top = [d]"
      using h one pref ctx
      by (auto simp: get_active_domains_for_request_def allocation_rules_def Let_def split: option.split)
    with True show ?thesis by simp
  next
    case False
    have none: "preferred_choice u [] = None" "contextual_choice al n [] = None" for n
      by (auto simp: preferred_choice_def contextual_choice_def Let_def split: option.split)
    have "?top = [''localhost'']"
    proof (cases "?e = []")
      case True
      then show ?thesis
        by (auto simp: get_active_domains_for_request_def none ranked_domains_def one Let_def split: option.split)
    next
      case unknown: False
      with False have "?rule0 \<notin> set allocation_rules" by simp
      then show ?thesis
        by (auto simp: get_active_domains_for_request_def allocation_rules_def ranked_domains_def one Let_def split: option.split)
    qed
    then show ?thesis using False by argo
  qed
qed

definition ex_allocation :: "string \<Rightarrow> allocation" where
  "ex_allocation rule = \<lparr>al_rule = rule, al_defaultDomain = [], al_setting = (\<lambda>_. None), al_hash = length, al_shuffle = rev\<rparr>"

definition ex_domains :: server_config where
  "ex_domains = ex_config\<lparr>cf_domains := [''ex.org'', ''x.net'']\<rparr>"

theorem issued_domain_is_served_witness:
  "top_ranked_domain (fst (get_active_domains_for_request ex_domains (ex_allocation ''hash'') [] [] None new_registry 0)) = [''localhost'']"
  using issued_domain_is_served [of "ex_allocation ''hash''" ex_domains "[]" "[]" None new_registry 0]
  by (simp add: ex_allocation_def ex_domains_def tunnel_domains_def setting_or_def allocation_rules_def ex_config_def)

section \<open>Rounds\<close>

lemma ordered_from_rotate: "ordered_from start xs = rotate start xs"
  by (rule nth_equalityI) (simp_all add: ordered_from_def nth_rotate)

lemma mset_rotate: "mset (rotate n xs) = mset xs"
proof -
  have "mset (rotate1 ys) = mset ys" for ys :: "'a list" by (cases ys) simp_all
  then show ?thesis by (induction n) simp_all
qed

text \<open>Round robin is fair: as many consecutive tunnels as there are domains are issued on each domain once,
  wherever the counter stands, and the counter advances by one for each.\<close>

theorem round_robin_is_fair:
  assumes "setting_or al ''domain_allocation_rule'' (al_rule al) = ''round-robin''" "tunnel_domains cfg \<noteq> []"
  shows "mset (concat (map (\<lambda>k. top_ranked_domain (fst (get_active_domains_for_request cfg al host clientIP u r (c + k))))
      [0..<length (tunnel_domains cfg)])) = mset (tunnel_domains cfg) \<and>
    snd (get_active_domains_for_request cfg al host clientIP u r c) = c + 1"
proof -
  let ?e = "tunnel_domains cfg"
  have step: "get_active_domains_for_request cfg al host clientIP u r n = (ordered_from (Suc n mod length ?e) ?e, n + 1)" for n
    using assms by (simp add: get_active_domains_for_request_def ranked_domains_def Let_def)
  have top: "top_ranked_domain (ordered_from (Suc n mod length ?e) ?e) = [?e ! (Suc n mod length ?e)]" for n
    using ordered_from_set [OF assms(2), of "Suc n mod length ?e"] assms(2)
    by (cases "ordered_from (Suc n mod length ?e) ?e") (simp_all add: top_ranked_domain_def)
  have "concat (map (\<lambda>k. top_ranked_domain (fst (get_active_domains_for_request cfg al host clientIP u r (c + k)))) [0..<length ?e])
      = map (\<lambda>k. ?e ! ((Suc c + k) mod length ?e)) [0..<length ?e]"
    by (simp add: step top)
  also have "\<dots> = rotate (Suc c) ?e" by (simp only: ordered_from_rotate [symmetric] ordered_from_def)
  finally show ?thesis using step by (simp only: mset_rotate) simp
qed

theorem round_robin_is_fair_witness:
  "mset (concat (map (\<lambda>k. top_ranked_domain (fst (get_active_domains_for_request ex_domains (ex_allocation ''round-robin'') [] [] None
      new_registry (7 + k)))) [0..<2])) = {#''ex.org'', ''x.net''#}"
proof -
  have td: "tunnel_domains ex_domains = [''ex.org'', ''x.net'']"
    by (simp add: ex_domains_def tunnel_domains_def ex_config_def)
  then have "length (tunnel_domains ex_domains) = 2" "tunnel_domains ex_domains \<noteq> []" by simp_all
  moreover have "setting_or (ex_allocation ''round-robin'') ''domain_allocation_rule'' (al_rule (ex_allocation ''round-robin'')) = ''round-robin''"
    by (simp add: ex_allocation_def setting_or_def)
  ultimately show ?thesis using round_robin_is_fair [THEN conjunct1] td by (metis mset.simps)
qed

end
