(* ===== verification/Edge_Control.thy ===== *)
theory Edge_Control
  imports Registration
begin

text \<open>
  Tunnels held by other gateways: what authenticates an edge node (\<open>authorisedEdgeNode\<close>,
  \<open>AcceptedTokenHashes\<close>), registration through an edge, both halves of it (\<open>handleEdgeRegisterProxy\<close> on the
  edge, \<open>handleEdgeRegister\<close> at the control plane), the end of an edge session and the notice it sends
  (\<open>OnLeaseCleanup\<close>, \<open>notifyControlPlaneDeregister\<close>, \<open>handleEdgeDeregister\<close>), the routes pushed to edges
  and the resolution of a host held elsewhere (\<open>resolveRemoteRouteForHost\<close>, \<open>isServedDomain\<close>);
  \<open>server.go\<close>, \<open>server_edge.go\<close>, \<open>edge_control_ws.go\<close>, \<open>pkg/config/config.go\<close>.

  Go iterates over the map of edge leases in any order; the model's order is that of the table.
\<close>

section \<open>Nodes\<close>

record edge_node =
  en_id :: string
  en_tokenHash :: string
  en_additionalHashes :: "string list"
  en_url :: string

definition accepted_token_hashes :: "edge_node \<Rightarrow> string list" where
  "accepted_token_hashes n =
     (if en_tokenHash n \<noteq> [] then [en_tokenHash n] else []) @ filter (\<lambda>h. h \<noteq> []) (en_additionalHashes n)"

definition authorised_edge_node :: "(string \<Rightarrow> string) \<Rightarrow> edge_node list \<Rightarrow> string \<Rightarrow> edge_node option" where
  "authorised_edge_node digest nodes token =
     (if token = [] then None else List.find (\<lambda>n. digest token \<in> set (accepted_token_hashes n)) nodes)"

definition find_edge_node_url :: "edge_node list \<Rightarrow> string \<Rightarrow> string" where
  "find_edge_node_url nodes i = (case List.find (\<lambda>n. en_id n = i) nodes of None \<Rightarrow> [] | Some n \<Rightarrow> en_url n)"

definition dns_target_for_edge :: "(string \<Rightarrow> string option) \<Rightarrow> edge_node list \<Rightarrow> string \<Rightarrow> string" where
  "dns_target_for_edge parse nodes i =
     (case List.find (\<lambda>n. en_id n = i) nodes of None \<Rightarrow> [] | Some n \<Rightarrow> host_from_url parse (en_url n))"

section \<open>The control plane's half\<close>

record edge_grant =
  eg_userID :: string
  eg_prefix :: string
  eg_rateLimit :: int
  eg_quotaRate :: "int option"
  eg_access :: "(string, string \<times> string \<times> string) table"
  eg_consent :: grace_state
  eg_version :: grace_state

datatype edge_reply =
    Node_refused
  | Edge_refused register_reply
  | Edge_granted edge_grant

definition user_edge_leases :: "control \<Rightarrow> string \<Rightarrow> edge_lease list" where
  "user_edge_leases ct uid = (case get (ct_edgeLeases ct) uid of None \<Rightarrow> [] | Some ls \<Rightarrow> ls)"

definition edge_name ::
  "register_inputs \<Rightarrow> register_message \<Rightarrow> string list \<Rightarrow> user \<Rightarrow> user option \<Rightarrow> control
   \<Rightarrow> (register_reply + string) \<times> name_store" where
  "edge_name ri m domains user userRec ct =
     (if rm_prefix m = [] \<or> rm_prefix m = ''random'' then
        (case grant_random_subdomain (ri_faults ri) (ct_registry ct) (ct_edgeLeases ct) (ri_names ri) domains (ct_names ct) of
           None \<Rightarrow> (Inl Reply_no_random, ct_names ct)
         | Some c \<Rightarrow> (Inr c, ct_names ct))
      else
        (case apply_subdomain_reservation_policy (ct_cfg ct) (ri_faults ri) (ri_now ri) (rm_prefix m) domains
                user userRec (ct_names ct) of
           (Some e, s) \<Rightarrow> (Inl (Reply_name e), s)
         | (None, s) \<Rightarrow> (Inr (rm_prefix m), s)))"

definition edge_full_host :: "string \<Rightarrow> string list \<Rightarrow> string" where
  "edge_full_host sub domains = (case domains of [] \<Rightarrow> sub | d # _ \<Rightarrow> sub @ ''.'' @ d)"

definition new_edge_lease ::
  "register_inputs \<Rightarrow> register_message \<Rightarrow> string list \<Rightarrow> string \<Rightarrow> string \<Rightarrow> string \<Rightarrow> int \<Rightarrow> edge_lease" where
  "new_edge_lease ri m domains nodeID uid sub limit =
     \<lparr>el_nodeID = nodeID, el_subdomain = sub, el_userID = uid, el_fullHost = edge_full_host sub domains,
      el_localPort = (case rm_ports m of [] \<Rightarrow> 0 | p # _ \<Rightarrow> pm_localPort p), el_clientIP = ri_clientIP ri,
      el_clientVersion = rm_clientVersion m, el_clientOS = rm_clientOS m, el_rateLimit = limit,
      el_bytesIn = 0, el_bytesOut = 0, el_createdAt = ri_now ri\<rparr>"

text \<open>The new lease replaces the one this user holds for this name on this node.\<close>

definition enter_edge_lease :: "edge_lease \<Rightarrow> control \<Rightarrow> control" where
  "enter_edge_lease el ct =
     ct\<lparr>ct_edgeLeases := put (el_userID el)
          (filter (\<lambda>l. el_subdomain l \<noteq> el_subdomain el \<or> el_nodeID l \<noteq> el_nodeID el) (user_edge_leases ct (el_userID el)) @ [el])
          (ct_edgeLeases ct)\<rparr>"

definition edge_target_url :: "(string \<Rightarrow> string option) \<Rightarrow> edge_node list \<Rightarrow> string \<Rightarrow> string" where
  "edge_target_url parse nodes i =
     (if find_edge_node_url nodes i = [] then ''http://'' @ dns_target_for_edge parse nodes i else find_edge_node_url nodes i)"

definition announce_edge_lease :: "(string \<Rightarrow> string option) \<Rightarrow> edge_node list \<Rightarrow> edge_lease \<Rightarrow> control \<Rightarrow> control" where
  "announce_edge_lease parse nodes el ct =
     (let ct1 = publish_tunnel_dns (el_fullHost el) (dns_target_for_edge parse nodes (el_nodeID el)) ct
      in ct1\<lparr>ct_events := ct_events ct1 @ [Route_add (el_fullHost el) (edge_target_url parse nodes (el_nodeID el)) (el_nodeID el)]\<rparr>)"

text \<open>After the name is settled: rules, quota, limit, and the lease on record.\<close>

definition grant_edge ::
  "edge_node list \<Rightarrow> register_inputs \<Rightarrow> register_message \<Rightarrow> string list \<Rightarrow> string \<Rightarrow> user \<Rightarrow> user option
   \<Rightarrow> grace_state \<times> grace_state \<Rightarrow> string \<Rightarrow> control \<Rightarrow> edge_reply \<times> control" where
  "grant_edge nodes ri m domains nodeID user userRec notices sub ct0 =
     (let rules = resolve_access_controls (ri_faults ri) sub domains (u_id user) (rm_passcode m) (rm_whitelistIPs m) (ct_names ct0);
          ct = save_client_report ri m userRec (ct0\<lparr>ct_names := snd rules\<rparr>);
          rate = effective_tunnel_rate_limit (ct_cfg ct) (rm_rateLimit m) userRec;
          limit = max_active_tunnels_for (ct_cfg ct) (Some user) userRec;
          held = user_prefixes (ct_registry ct) (u_id user);
          elsewhere = user_edge_leases ct (u_id user);
          reconnecting = (sub \<in> set held \<or> list_ex (\<lambda>l. el_subdomain l = sub) elsewhere)
      in case quota_registration_refusal (ct_quota ct) (u_id user) of
           Some st \<Rightarrow> (Edge_refused (Reply_quota st), ct)
         | None \<Rightarrow>
             (if over_tunnel_limit limit (length elsewhere + length held) reconnecting then (Edge_refused (Reply_limit limit), ct)
              else
                (let el = new_edge_lease ri m domains nodeID (u_id user) sub rate
                 in (Edge_granted \<lparr>eg_userID = u_id user, eg_prefix = sub, eg_rateLimit = rate,
                       eg_quotaRate = quota_rate_limit_for (Some (ct_cfg ct)) (ct_quota ct) (u_id user),
                       eg_access = fst rules, eg_consent = fst notices, eg_version = snd notices\<rparr>,
                     announce_edge_lease (ri_urlHost ri) nodes el (enter_edge_lease el ct)))))"

definition admit_edge_user ::
  "edge_node list \<Rightarrow> register_inputs \<Rightarrow> register_message \<Rightarrow> string list \<Rightarrow> string \<Rightarrow> user \<Rightarrow> control \<Rightarrow> edge_reply \<times> control" where
  "admit_edge_user nodes ri m domains nodeID user ct =
     (let userRec = reread_user ri ct (u_id user)
      in case policy_consent_state (ct_notices ct) (ri_ackFaults ri) (ri_now ri) userRec True (ct_acks ct) of
        (consent, acks) \<Rightarrow>
      if blocking consent then (Edge_refused (Reply_consent consent), ct\<lparr>ct_acks := acks\<rparr>)
      else case min_version_state (ct_notices ct) (ri_ackFaults ri) (ri_now ri) userRec (rm_clientVersion m) True acks of
        (version, acks') \<Rightarrow>
      if blocking version then (Edge_refused (Reply_version version), ct\<lparr>ct_acks := acks'\<rparr>)
      else
        (let ct1 = ct\<lparr>ct_acks := acks'\<rparr>
         in case edge_name ri m domains user userRec ct1 of
              (Inl e, s) \<Rightarrow> (Edge_refused e, ct1\<lparr>ct_names := s\<rparr>)
            | (Inr sub, s) \<Rightarrow> grant_edge nodes ri m domains nodeID user userRec (consent, version) sub (ct1\<lparr>ct_names := s\<rparr>)))"

definition handle_edge_register ::
  "edge_node list \<Rightarrow> register_inputs \<Rightarrow> string \<Rightarrow> register_message \<Rightarrow> string list \<Rightarrow> control \<Rightarrow> edge_reply \<times> control" where
  "handle_edge_register nodes ri edgeToken m domains ct =
     (case authorised_edge_node (ri_digest ri) nodes edgeToken of
        None \<Rightarrow> (Node_refused, ct)
      | Some node \<Rightarrow>
          (case authenticate_token (ri_digest ri) (ri_tokenQuery ri) (get (ct_users ct)) (ri_now ri) (rm_authToken m) (ct_tokens ct) of
             (Token_refused, s) \<Rightarrow> (Edge_refused Reply_unauthorized, ct\<lparr>ct_tokens := s\<rparr>)
           | (Token_store_unavailable, s) \<Rightarrow> (Edge_refused Reply_unavailable, ct\<lparr>ct_tokens := s\<rparr>)
           | (Token_valid user p, s) \<Rightarrow> admit_edge_user nodes ri m domains (en_id node) user (ct\<lparr>ct_tokens := s\<rparr>)))"

definition partition_edge_leases_for_deregister ::
  "edge_lease list \<Rightarrow> string \<Rightarrow> string \<Rightarrow> edge_lease list \<times> edge_lease list" where
  "partition_edge_leases_for_deregister leases sub nodeID =
     partition (\<lambda>l. el_subdomain l \<noteq> sub \<or> el_nodeID l \<noteq> nodeID) leases"

definition release_edge_host :: "(string \<Rightarrow> string option) \<Rightarrow> edge_node list \<Rightarrow> edge_lease \<Rightarrow> control \<Rightarrow> control" where
  "release_edge_host parse nodes l ct =
     (let ct1 = withdraw_tunnel_dns (el_fullHost l) (dns_target_for_edge parse nodes (el_nodeID l)) ct
      in ct1\<lparr>ct_events := ct_events ct1 @ [Route_remove (el_fullHost l) (el_nodeID l)]\<rparr>)"

definition handle_edge_deregister ::
  "(string \<Rightarrow> string) \<Rightarrow> (string \<Rightarrow> string option) \<Rightarrow> edge_node list \<Rightarrow> string \<Rightarrow> string \<Rightarrow> string \<Rightarrow> control \<Rightarrow> bool \<times> control" where
  "handle_edge_deregister digest parse nodes edgeToken uid sub ct =
     (case authorised_edge_node digest nodes edgeToken of
        None \<Rightarrow> (False, ct)
      | Some node \<Rightarrow>
          (case get (ct_edgeLeases ct) uid of
             None \<Rightarrow> (True, ct)
           | Some leases \<Rightarrow>
               (case partition_edge_leases_for_deregister leases sub (en_id node) of
                  (kept, dropped) \<Rightarrow>
                    (True, fold (release_edge_host parse nodes) dropped
                       (ct\<lparr>ct_edgeLeases := (if kept = [] then del uid (ct_edgeLeases ct) else put uid kept (ct_edgeLeases ct))\<rparr>)))))"

section \<open>The edge's half\<close>

record edge =
  ed_cfg :: server_config
  ed_token :: string
  ed_controlURL :: string
  ed_registry :: registry
  ed_roundRobin :: nat
  ed_pendingShutdownAt :: int
  ed_routes :: "(string, string) table"

datatype proxy_reply =
    Proxy_draining
  | Proxy_unreachable
  | Proxy_refused edge_reply
  | Proxy_failed register_error
  | Proxy_registered registered

text \<open>
  One registration through an edge. \<open>rie\<close> and \<open>ric\<close> are the inputs of the two sides, \<open>reached\<close> whether the
  control plane could be asked; the edge has no database, so its settings read as absent.
\<close>

definition handle_edge_register_proxy ::
  "edge_node list \<Rightarrow> register_inputs \<Rightarrow> register_inputs \<Rightarrow> bool \<Rightarrow> register_message \<Rightarrow> edge \<times> control
   \<Rightarrow> proxy_reply \<times> edge \<times> control" where
  "handle_edge_register_proxy nodes rie ric reached m st =
     (case st of (ed, ct) \<Rightarrow>
      if 0 < ed_pendingShutdownAt ed \<and> unix (ri_now rie) < ed_pendingShutdownAt ed then (Proxy_draining, ed, ct)
      else case get_active_domains_for_request (ed_cfg ed) ((ri_alloc rie)\<lparr>al_setting := (\<lambda>_. None)\<rparr>) (ri_host rie) (ri_clientIP rie)
                  None (ed_registry ed) (ed_roundRobin ed) of
        (ranked, counter) \<Rightarrow>
      (let domains = top_ranked_domain ranked; ed1 = ed\<lparr>ed_roundRobin := counter\<rparr>
       in if \<not> reached then (Proxy_unreachable, ed1, ct)
          else case handle_edge_register nodes (ric\<lparr>ri_clientIP := ri_clientIP rie\<rparr>) (ed_token ed) m domains ct of
            (Edge_granted g, ct') \<Rightarrow>
              (case register (ri_env rie)
                      \<lparr>rq_userID = eg_userID g, rq_prefix = eg_prefix g, rq_ports = rm_ports m, rq_domains = domains,
                       rq_rateLimit = eg_rateLimit g, rq_clientIP = ri_clientIP rie, rq_basicAuth = rm_basicAuth m,
                       rq_addedHeaders = rm_addedHeaders m\<rparr> (ed_registry ed) of
                 (Inl e, r) \<Rightarrow> (Proxy_failed e, ed1\<lparr>ed_registry := r\<rparr>, ct')
               | (Inr (tok, remotes), r) \<Rightarrow>
                   (let r1 = set_launch_context_for_session tok (rm_launchFlags m) (rm_launchOverrides m) r;
                        r2 = apply_access_controls_to_leases (eg_prefix g) domains (eg_access g) r1;
                        r3 = (case eg_quotaRate g of
                                None \<Rightarrow> r2
                              | Some n \<Rightarrow> if 0 < n then snd (set_quota_rate_limit_for_user (eg_userID g) n r2) else r2)
                    in (Proxy_registered \<lparr>rg_token = tok, rg_prefix = eg_prefix g, rg_remotes = remotes, rg_domains = domains,
                          rg_consent = eg_consent g, rg_version = eg_version g,
                          rg_access = (case domains of [] \<Rightarrow> None | d # _ \<Rightarrow>
                            map_option (\<lambda>(pc, wl, am). (mask_passcode pc, wl, am)) (get (eg_access g) d))\<rparr>,
                        ed1\<lparr>ed_registry := r3\<rparr>, ct')))
          | (refusal, ct') \<Rightarrow> (Proxy_refused refusal, ed1, ct')))"

text \<open>A session of the edge ends: the registry drops it, and each of its leases is reported to the control plane.\<close>

definition notify_deregister ::
  "(string \<Rightarrow> string) \<Rightarrow> (string \<Rightarrow> string option) \<Rightarrow> edge_node list \<Rightarrow> string \<Rightarrow> lease \<Rightarrow> control \<Rightarrow> control" where
  "notify_deregister digest parse nodes edgeToken l ct =
     snd (handle_edge_deregister digest parse nodes edgeToken (l_userID l) (l_subdomainPrefix l) ct)"

definition end_edge_session ::
  "(string \<Rightarrow> string) \<Rightarrow> (string \<Rightarrow> string option) \<Rightarrow> edge_node list \<Rightarrow> time \<Rightarrow> string \<Rightarrow> edge \<times> control \<Rightarrow> edge \<times> control" where
  "end_edge_session digest parse nodes now tok st =
     (case st of (ed, ct) \<Rightarrow>
        (ed\<lparr>ed_registry := clean_lease now tok (ed_registry ed)\<rparr>,
         fold (notify_deregister digest parse nodes (ed_token ed)) (get_session_leases (ed_registry ed) tok) ct))"

section \<open>Hosts held elsewhere\<close>

definition apply_route_event :: "event \<Rightarrow> edge \<Rightarrow> edge" where
  "apply_route_event e ed =
     (case e of
        Route_add host url node \<Rightarrow> ed\<lparr>ed_routes := put host url (ed_routes ed)\<rparr>
      | Route_remove host node \<Rightarrow> ed\<lparr>ed_routes := del host (ed_routes ed)\<rparr>
      | _ \<Rightarrow> ed)"

definition is_served_domain :: "server_config \<Rightarrow> string \<Rightarrow> bool" where
  "is_served_domain cfg host0 =
     (let lower = to_lower host0; host = (case split_host_port lower of None \<Rightarrow> lower | Some (h, _) \<Rightarrow> h)
      in list_ex (\<lambda>d0. let d = to_lower (trim_space d0) in d \<noteq> [] \<and> (host = d \<or> has_suffix host (''.'' @ d)))
           (cf_domains cfg @ cf_tunnelDomains cfg))"

text \<open>On an edge: a URL and who is behind it, or nothing.\<close>

definition resolve_remote_on_edge :: "edge \<Rightarrow> string \<Rightarrow> (string \<times> string) option" where
  "resolve_remote_on_edge ed host =
     (if \<not> is_served_domain (ed_cfg ed) host then None
      else case get (ed_routes ed) host of
        Some url \<Rightarrow> if url \<noteq> [] then Some (url, ''remote-edge'') else Some (ed_controlURL ed, ''control'')
      | None \<Rightarrow> Some (ed_controlURL ed, ''control''))"

definition all_edge_leases :: "control \<Rightarrow> edge_lease list" where
  "all_edge_leases ct = concat (map snd (ct_edgeLeases ct))"

text \<open>At the control plane; \<open>address\<close> is the network address a node last connected from.\<close>

definition resolve_remote_at_control ::
  "(string \<Rightarrow> string option) \<Rightarrow> edge_node list \<Rightarrow> (string \<Rightarrow> string) \<Rightarrow> control \<Rightarrow> string \<Rightarrow> (string \<times> string) option" where
  "resolve_remote_at_control parse nodes address ct host =
     (case List.find (\<lambda>el. equal_fold (el_fullHost el) host) (all_edge_leases ct) of
        None \<Rightarrow> None
      | Some el \<Rightarrow>
          (let i = el_nodeID el; url = find_edge_node_url nodes i; target = dns_target_for_edge parse nodes i
           in if url \<noteq> [] then Some (url, i)
              else if address i \<noteq> [] then Some (''http://'' @ address i, i)
              else if target \<noteq> [] then Some (''http://'' @ target, i)
              else None))"

end
