(* ===== verification/Edge_Facts.thy ===== *)
theory Edge_Facts
  imports Edge_Control Registration_Facts
begin

text \<open>
  What the two halves of an edge registration guarantee together: who is granted a lease, the shape of the
  table of edge leases, and what a deregistration removes.
\<close>

section \<open>Frames\<close>

lemma save_report_edge [simp]: "ct_edgeLeases (save_client_report ri m u ct) = ct_edgeLeases ct"
  by (simp add: save_client_report_def split: option.split prod.split)

lemma announce_edge_frame [simp]:
  "ct_edgeLeases (announce_edge_lease parse nodes el ct) = ct_edgeLeases ct"
  "ct_registry (announce_edge_lease parse nodes el ct) = ct_registry ct"
  by (simp_all add: announce_edge_lease_def publish_tunnel_dns_def Let_def)

lemma release_frame [simp]:
  "ct_edgeLeases (release_edge_host parse nodes l ct) = ct_edgeLeases ct"
  "ct_registry (release_edge_host parse nodes l ct) = ct_registry ct"
  by (simp_all add: release_edge_host_def withdraw_tunnel_dns_def Let_def)

lemma release_all_frame [simp]:
  "ct_edgeLeases (fold (release_edge_host parse nodes) ls ct) = ct_edgeLeases ct"
  "ct_registry (fold (release_edge_host parse nodes) ls ct) = ct_registry ct"
  by (induction ls arbitrary: ct) simp_all

section \<open>A grant, by outcome\<close>

lemma grant_cases:
  assumes "grant_edge nodes ri m domains nodeID user userRec notices sub ct = (reply, ct')"
  obtains
    (refused) "ct_edgeLeases ct' = ct_edgeLeases ct" "\<And>g. reply \<noteq> Edge_granted g"
  | (granted) g el where "reply = Edge_granted g" "eg_userID g = u_id user" "eg_prefix g = sub"
      "el = new_edge_lease ri m domains nodeID (u_id user) sub (eg_rateLimit g)"
      "ct_edgeLeases ct' = ct_edgeLeases (enter_edge_lease el ct)"
      "quota_registration_refusal (ct_quota ct) (u_id user) = None"
      "\<not> over_tunnel_limit (max_active_tunnels_for (ct_cfg ct) (Some user) userRec)
          (length (user_edge_leases ct (u_id user)) + length (user_prefixes (ct_registry ct) (u_id user)))
          (sub \<in> set (user_prefixes (ct_registry ct) (u_id user)) \<or>
           list_ex (\<lambda>l. el_subdomain l = sub) (user_edge_leases ct (u_id user)))"
proof -
  obtain rules names where rn: "resolve_access_controls (ri_faults ri) sub domains (u_id user) (rm_passcode m)
      (rm_whitelistIPs m) (ct_names ct) = (rules, names)"
    by (cases "resolve_access_controls (ri_faults ri) sub domains (u_id user) (rm_passcode m) (rm_whitelistIPs m) (ct_names ct)")
  have ue: "user_edge_leases (save_client_report ri m userRec (ct\<lparr>ct_names := names\<rparr>)) u = user_edge_leases ct u" for u
    by (simp add: user_edge_leases_def)
  have en: "ct_edgeLeases (enter_edge_lease el (save_client_report ri m userRec (ct\<lparr>ct_names := names\<rparr>)))
      = ct_edgeLeases (enter_edge_lease el ct)" for el
    by (simp add: enter_edge_lease_def user_edge_leases_def)
  note e = assms [unfolded grant_edge_def rn Let_def fst_conv snd_conv ue]
  let ?over = "over_tunnel_limit (max_active_tunnels_for (ct_cfg ct) (Some user) userRec)
          (length (user_edge_leases ct (u_id user)) + length (user_prefixes (ct_registry ct) (u_id user)))
          (sub \<in> set (user_prefixes (ct_registry ct) (u_id user)) \<or>
           list_ex (\<lambda>l. el_subdomain l = sub) (user_edge_leases ct (u_id user)))"
  show thesis
  proof (cases "quota_registration_refusal (ct_quota ct) (u_id user)")
    case (Some st)
    show thesis by (rule refused) (use e Some in auto)
  next
    case None
    show thesis
    proof (cases ?over)
      case True
      show thesis by (rule refused) (use e None True in auto)
    next
      case False
      let ?rate = "effective_tunnel_rate_limit (ct_cfg ct) (rm_rateLimit m) userRec"
      let ?g = "\<lparr>eg_userID = u_id user, eg_prefix = sub, eg_rateLimit = ?rate,
         eg_quotaRate = quota_rate_limit_for (Some (ct_cfg ct)) (ct_quota ct) (u_id user),
         eg_access = rules, eg_consent = fst notices, eg_version = snd notices\<rparr>"
      show thesis
        by (rule granted [of ?g "new_edge_lease ri m domains nodeID (u_id user) sub ?rate"])
          (use e None False en in auto)
    qed
  qed
qed

text \<open>The name of a tunnel behind an edge: the one of the request, as the policy of reservations grants it, or one drawn.\<close>

definition edge_name_gate :: "register_inputs \<Rightarrow> register_message \<Rightarrow> string list \<Rightarrow> user \<Rightarrow> user option \<Rightarrow> control \<Rightarrow> string \<Rightarrow> bool" where
  "edge_name_gate ri m domains user userRec ct sub \<longleftrightarrow>
     (if rm_prefix m = [] \<or> rm_prefix m = ''random'' then
        sub \<in> set (take 10 (ri_names ri)) \<and> \<not> subdomain_held_in_memory (ct_registry ct) (ct_edgeLeases ct) sub domains \<and>
        (\<forall>d\<in>set domains. row_seen (ri_faults ri) (sub, d) (ct_names ct) = None)
      else
        sub = rm_prefix m \<and>
        names_granted (ct_cfg ct) (ri_faults ri) (ri_now ri) Kind_subdomain sub domains (u_id user) userRec (ct_names ct))"

lemma edge_name_granted:
  assumes "edge_name ri m domains user userRec ct = (Inr sub, s)" "names_ok (ct_names ct)"
  shows "edge_name_gate ri m domains user userRec ct sub"
proof (cases "rm_prefix m = [] \<or> rm_prefix m = ''random''")
  case True
  then have "grant_random_subdomain (ri_faults ri) (ct_registry ct) (ct_edgeLeases ct) (ri_names ri) domains (ct_names ct) = Some sub"
    using assms(1) by (auto simp: edge_name_def split: option.splits)
  then show ?thesis
    using True find_SomeD [of _ "take 10 (ri_names ri)" sub]
    by (auto simp: edge_name_gate_def grant_random_subdomain_def random_subdomain_attempts_def subdomain_reserved_def row_seen_def list_ex_iff)
next
  case False
  then show ?thesis
    using assms(1) policy_granted [OF _ assms(2)] by (auto simp: edge_name_def edge_name_gate_def split: option.splits prod.splits)
qed

lemma edge_register_cases:
  assumes "handle_edge_register nodes ri edgeToken m domains ct = (reply, ct')"
  obtains
    (refused) "ct_edgeLeases ct' = ct_edgeLeases ct" "\<And>g. reply \<noteq> Edge_granted g"
  | (granted) node user p g el where "reply = Edge_granted g"
      "authorised_edge_node (ri_digest ri) nodes edgeToken = Some node"
      "check_pat (ri_digest ri) (ri_tokenQuery ri) (get (ct_users ct)) (ri_now ri) (rm_authToken m) (ct_tokens ct) = Token_valid user p"
      "\<not> blocking (fst (policy_consent_state (ct_notices ct) (ri_ackFaults ri) (ri_now ri)
          (reread_user ri ct (u_id user)) True (ct_acks ct)))"
      "\<not> blocking (fst (min_version_state (ct_notices ct) (ri_ackFaults ri) (ri_now ri)
          (reread_user ri ct (u_id user)) (rm_clientVersion m) True
          (snd (policy_consent_state (ct_notices ct) (ri_ackFaults ri) (ri_now ri)
            (reread_user ri ct (u_id user)) True (ct_acks ct)))))"
      "eg_userID g = u_id user" "el = new_edge_lease ri m domains (en_id node) (u_id user) (eg_prefix g) (eg_rateLimit g)"
      "ct_edgeLeases ct' = ct_edgeLeases (enter_edge_lease el ct)"
      "quota_registration_refusal (ct_quota ct) (u_id user) = None"
      "\<not> over_tunnel_limit (max_active_tunnels_for (ct_cfg ct) (Some user) (reread_user ri ct (u_id user)))
          (length (user_edge_leases ct (u_id user)) + length (user_prefixes (ct_registry ct) (u_id user)))
          (eg_prefix g \<in> set (user_prefixes (ct_registry ct) (u_id user)) \<or>
           list_ex (\<lambda>l. el_subdomain l = eg_prefix g) (user_edge_leases ct (u_id user)))"
      "names_ok (ct_names ct) \<Longrightarrow> edge_name_gate ri m domains user (reread_user ri ct (u_id user)) ct (eg_prefix g)"
proof (cases "authorised_edge_node (ri_digest ri) nodes edgeToken")
  case None
  show thesis by (rule refused) (use assms None in \<open>auto simp: handle_edge_register_def\<close>)
next
  case (Some node)
  let ?v = "check_pat (ri_digest ri) (ri_tokenQuery ri) (get (ct_users ct)) (ri_now ri) (rm_authToken m) (ct_tokens ct)"
  show thesis
  proof (cases "\<exists>user p. ?v = Token_valid user p")
    case False
    show thesis
      by (rule refused)
        (use assms Some False in \<open>auto simp: handle_edge_register_def authenticate_token_def split: verdict.splits\<close>)
  next
    case True
    then obtain user p where v: "?v = Token_valid user p" by blast
    define ct0 where "ct0 = ct\<lparr>ct_tokens := snd (update_pat_used (ri_now ri) (pt_id p) (ct_tokens ct))\<rparr>"
    have f: "reread_user ri ct0 = reread_user ri ct" "ct_notices ct0 = ct_notices ct" "ct_acks ct0 = ct_acks ct"
      "ct_edgeLeases ct0 = ct_edgeLeases ct" "ct_quota ct0 = ct_quota ct" "ct_cfg ct0 = ct_cfg ct" "ct_registry ct0 = ct_registry ct"
      "ct_names ct0 = ct_names ct"
      by (simp_all add: ct0_def reread_user_def fun_eq_iff)
    have a: "admit_edge_user nodes ri m domains (en_id node) user ct0 = (reply, ct')"
      using assms Some v by (simp add: handle_edge_register_def authenticate_token_def ct0_def)
    let ?u = "reread_user ri ct (u_id user)"
    obtain consent acks where c: "policy_consent_state (ct_notices ct) (ri_ackFaults ri) (ri_now ri) ?u True (ct_acks ct) = (consent, acks)"
      by (cases "policy_consent_state (ct_notices ct) (ri_ackFaults ri) (ri_now ri) ?u True (ct_acks ct)")
    obtain version acks' where w: "min_version_state (ct_notices ct) (ri_ackFaults ri) (ri_now ri) ?u (rm_clientVersion m) True acks = (version, acks')"
      by (cases "min_version_state (ct_notices ct) (ri_ackFaults ri) (ri_now ri) ?u (rm_clientVersion m) True acks")
    note a' = a [unfolded admit_edge_user_def Let_def f c w prod.case]
    let ?ct1 = "ct0\<lparr>ct_acks := acks'\<rparr>"
    obtain res s where n: "edge_name ri m domains user ?u ?ct1 = (res, s)" by (cases "edge_name ri m domains user ?u ?ct1")
    show thesis
    proof (cases "blocking consent \<or> blocking version \<or> (\<exists>e. res = Inl e)")
      case True
      show thesis by (rule refused) (use a' w n True f in \<open>auto split: if_splits\<close>)
    next
      case False
      then obtain sub where r: "res = Inr sub" by (cases res) auto
      let ?ct2 = "?ct1\<lparr>ct_names := s\<rparr>"
      have g: "grant_edge nodes ri m domains (en_id node) user ?u (consent, version) sub ?ct2 = (reply, ct')"
        using a' w n r False by auto
      have ue: "user_edge_leases ?ct2 i = user_edge_leases ct i"
        "ct_edgeLeases (enter_edge_lease el ?ct2) = ct_edgeLeases (enter_edge_lease el ct)" for i el
        by (simp_all add: user_edge_leases_def enter_edge_lease_def f)
      have gate: "names_ok (ct_names ct) \<Longrightarrow> edge_name_gate ri m domains user ?u ct sub"
        using edge_name_granted [OF n [unfolded r]] f by (auto simp: edge_name_gate_def)
      from g show thesis
      proof (cases rule: grant_cases)
        case ref: refused
        show thesis by (rule refused) (use ref f in auto)
      next
        case gr: (granted g' el)
        show thesis
          by (rule granted [of g' node user p el]) (use gr Some v c w False f ue gate in auto)
      qed
    qed
  qed
qed

section \<open>The table of edge leases\<close>

definition edge_table_ok :: "edge_leases \<Rightarrow> bool" where
  "edge_table_ok els \<longleftrightarrow> is_table els \<and>
     (\<forall>uid ls. get els uid = Some ls \<longrightarrow>
        (\<forall>l \<in> set ls. el_userID l = uid) \<and> distinct (map (\<lambda>l. (el_subdomain l, el_nodeID l)) ls))"

lemma enter_leases:
  "ct_edgeLeases ct' = ct_edgeLeases (enter_edge_lease el ct) \<Longrightarrow> user_edge_leases ct' u =
     (if u = el_userID el
      then filter (\<lambda>l. el_subdomain l \<noteq> el_subdomain el \<or> el_nodeID l \<noteq> el_nodeID el) (user_edge_leases ct u) @ [el]
      else user_edge_leases ct u)"
  by (simp add: user_edge_leases_def enter_edge_lease_def get_put)

lemma enter_keeps_ok:
  assumes "edge_table_ok (ct_edgeLeases ct)"
  shows "edge_table_ok (ct_edgeLeases (enter_edge_lease el ct))"
proof -
  let ?old = "user_edge_leases ct (el_userID el)"
  have old: "\<forall>l \<in> set ?old. el_userID l = el_userID el" "distinct (map (\<lambda>l. (el_subdomain l, el_nodeID l)) ?old)"
    using assms by (cases "get (ct_edgeLeases ct) (el_userID el)"; simp add: edge_table_ok_def user_edge_leases_def)+
  then have "distinct (map (\<lambda>l. (el_subdomain l, el_nodeID l))
      (filter (\<lambda>l. el_subdomain l \<noteq> el_subdomain el \<or> el_nodeID l \<noteq> el_nodeID el) ?old @ [el]))"
    by (auto simp: distinct_map_filter)
  then show ?thesis using assms old(1) by (auto simp: edge_table_ok_def enter_edge_lease_def get_put)
qed

lemma deregister_leases:
  assumes "authorised_edge_node digest nodes edgeToken = Some node"
  shows "user_edge_leases (snd (handle_edge_deregister digest parse nodes edgeToken uid sub ct)) u =
    (if u = uid then filter (\<lambda>l. el_subdomain l \<noteq> sub \<or> el_nodeID l \<noteq> en_id node) (user_edge_leases ct u)
     else user_edge_leases ct u)"
  using assms
  by (auto simp: handle_edge_deregister_def user_edge_leases_def partition_edge_leases_for_deregister_def get_put get_del
      split: option.split)

lemma deregister_keeps_ok:
  assumes "edge_table_ok (ct_edgeLeases ct)"
  shows "edge_table_ok (ct_edgeLeases (snd (handle_edge_deregister digest parse nodes edgeToken uid sub ct)))"
proof -
  have "edge_table_ok (put uid (filter P ls) (ct_edgeLeases ct))" if "get (ct_edgeLeases ct) uid = Some ls" for P ls
    using assms that by (auto simp: edge_table_ok_def get_put distinct_map_filter)
  moreover have "edge_table_ok (del uid (ct_edgeLeases ct))" using assms by (auto simp: edge_table_ok_def get_del)
  ultimately show ?thesis
    using assms by (auto simp: handle_edge_deregister_def partition_edge_leases_for_deregister_def split: option.split)
qed

section \<open>Properties\<close>

text \<open>What edges and the control plane do to the table.\<close>

datatype edge_op =
    Edge_registers register_inputs string register_message "string list"
  | Edge_deregisters "string \<Rightarrow> string" "string \<Rightarrow> string option" string string string

fun edge_step :: "edge_node list \<Rightarrow> edge_op \<Rightarrow> control \<Rightarrow> control" where
  "edge_step nodes (Edge_registers ri edgeToken m domains) ct = snd (handle_edge_register nodes ri edgeToken m domains ct)"
| "edge_step nodes (Edge_deregisters digest parse edgeToken uid sub) ct =
     snd (handle_edge_deregister digest parse nodes edgeToken uid sub ct)"

lemma edge_step_ok: "edge_table_ok (ct_edgeLeases ct) \<Longrightarrow> edge_table_ok (ct_edgeLeases (edge_step nodes op ct))"
proof (cases op)
  case (Edge_registers ri edgeToken m domains)
  assume ok: "edge_table_ok (ct_edgeLeases ct)"
  obtain reply ct' where h: "handle_edge_register nodes ri edgeToken m domains ct = (reply, ct')"
    by (cases "handle_edge_register nodes ri edgeToken m domains ct")
  then show ?thesis
    by (cases rule: edge_register_cases) (simp_all add: Edge_registers h ok enter_keeps_ok)
qed (simp add: deregister_keeps_ok)

text \<open>The table of edge leases stays well-formed whatever nodes send: users are entered once, every lease is
  entered under its own user, and a user has at most one lease for a name on a node.\<close>

theorem edge_table_well_formed:
  assumes "edge_table_ok (ct_edgeLeases ct)"
  shows "edge_table_ok (ct_edgeLeases (fold (edge_step nodes) ops ct))"
  using assms by (induction ops arbitrary: ct) (simp_all add: edge_step_ok)

text \<open>C12: The control plane records a lease for an edge only past every gate: the node's token is an accepted one, the
  user's token is valid, neither policy nor minimum version stands in the way, the user is not stopped for bandwidth
  and not over the limit counting tunnels everywhere. The name passed its own gate, as far as the rows could be read: under
  no domain of the edge a row of another user withholds it, live or in quarantine, a name without a row is one the user may
  reserve unasked, and what is reserved anew fits the quota; a drawn name is no tunnel's and no row's. Then the user
  has exactly this one lease for the name on that node.\<close>

theorem edge_granted_past_every_gate:
  assumes "handle_edge_register nodes ri edgeToken m domains ct = (Edge_granted g, ct')" "names_ok (ct_names ct)"
  shows "\<exists>node user p. edgeToken \<noteq> [] \<and> node \<in> set nodes \<and> ri_digest ri edgeToken \<in> set (accepted_token_hashes node) \<and>
      check_pat (ri_digest ri) (ri_tokenQuery ri) (get (ct_users ct)) (ri_now ri) (rm_authToken m) (ct_tokens ct) = Token_valid user p \<and>
      quota_registration_refusal (ct_quota ct) (u_id user) = None \<and>
      (let u = reread_user ri ct (u_id user);
           consent = policy_consent_state (ct_notices ct) (ri_ackFaults ri) (ri_now ri) u True (ct_acks ct);
           held = user_prefixes (ct_registry ct) (u_id user); elsewhere = user_edge_leases ct (u_id user)
       in \<not> blocking (fst consent) \<and>
          \<not> blocking (fst (min_version_state (ct_notices ct) (ri_ackFaults ri) (ri_now ri) u (rm_clientVersion m) True (snd consent))) \<and>
          edge_name_gate ri m domains user u ct (eg_prefix g) \<and>
          \<not> over_tunnel_limit (max_active_tunnels_for (ct_cfg ct) (Some user) u) (length elsewhere + length held)
              (eg_prefix g \<in> set held \<or> list_ex (\<lambda>l. el_subdomain l = eg_prefix g) elsewhere)) \<and>
      filter (\<lambda>l. el_subdomain l = eg_prefix g \<and> el_nodeID l = en_id node) (user_edge_leases ct' (u_id user)) =
        [new_edge_lease ri m domains (en_id node) (u_id user) (eg_prefix g) (eg_rateLimit g)]"
  using assms(1)
proof (cases rule: edge_register_cases)
  case (granted node user p g' el)
  have g: "g' = g" using granted(1) by simp
  have node: "edgeToken \<noteq> []" "node \<in> set nodes" "ri_digest ri edgeToken \<in> set (accepted_token_hashes node)"
    using granted(2) by (auto simp: authorised_edge_node_def find_Some_iff split: if_splits)
  have el: "el_subdomain el = eg_prefix g" "el_nodeID el = en_id node" "el_userID el = u_id user"
    by (simp_all add: granted(7) g new_edge_lease_def)
  have "user_edge_leases ct' (u_id user) =
      filter (\<lambda>l. el_subdomain l \<noteq> eg_prefix g \<or> el_nodeID l \<noteq> en_id node) (user_edge_leases ct (u_id user)) @ [el]"
    using enter_leases [OF granted(8)] el by simp
  then have "filter (\<lambda>l. el_subdomain l = eg_prefix g \<and> el_nodeID l = en_id node) (user_edge_leases ct' (u_id user)) = [el]"
    using el by simp
  then show ?thesis
    using node granted g assms(2) by (intro exI [of _ node] exI [of _ user] exI [of _ p]) (simp add: Let_def)
qed blast

text \<open>A deregistration removes exactly the leases of that user for that name on the calling node: what the user has
  meanwhile on another gateway, and every other user's, stays.\<close>

theorem deregister_drops_only_its_own:
  assumes "authorised_edge_node digest nodes edgeToken = Some node"
  shows "user_edge_leases (snd (handle_edge_deregister digest parse nodes edgeToken uid sub ct)) u =
    filter (\<lambda>l. \<not> (u = uid \<and> el_subdomain l = sub \<and> el_nodeID l = en_id node)) (user_edge_leases ct u)"
  using deregister_leases [OF assms] by (auto intro: filter_cong)

section \<open>A small fleet for the witnesses\<close>

definition ex_nodes :: "edge_node list" where
  "ex_nodes = [\<lparr>en_id = ''eu'', en_tokenHash = ''k1'', en_additionalHashes = [''k2''], en_url = ''https://eu.ex.org''\<rparr>]"

lemma ex_node [simp]: "authorised_edge_node (\<lambda>s. s) ex_nodes ''k2'' =
    Some \<lparr>en_id = ''eu'', en_tokenHash = ''k1'', en_additionalHashes = [''k2''], en_url = ''https://eu.ex.org''\<rparr>"
  by (simp add: authorised_edge_node_def ex_nodes_def accepted_token_hashes_def)

lemma ex_held_fields: "u_id (ex_user i ro) = i" "ri_digest ex_inputs = (\<lambda>s. s)" "ri_faults ex_inputs = no_faults"
    "ri_now ex_inputs = 5" "pt_id ex_pat = 1"
  by (simp_all add: ex_user_def ex_inputs_def ex_pat_def)

lemma ex_edge_name:
  "edge_name ex_inputs (ex_message ''shop'' ports) [''ex.org''] (ex_user ''bob'' ''developer'') (Some (ex_user ''bob'' ''developer'')) ct
    = (Inr ''shop'', ex_held)"
  if "ct_cfg ct = ex_config" "ct_names ct = \<lparr>ns_rows = [], ns_nextID = 1\<rparr>"
proof -
  let ?ct = "ex_control new_registry"
  have "choose_name ex_inputs (ex_message ''shop'' ports) (ex_user ''bob'' ''developer'') (Some (ex_user ''bob'' ''developer'')) [''ex.org''] ?ct
    = (Inr (''shop'', [''ex.org'']), ex_held)" by (rule ex_choose) simp_all
  then have "apply_subdomain_reservation_policy ex_config (ri_faults ex_inputs) (ri_now ex_inputs) ''shop'' [''ex.org'']
      (ex_user ''bob'' ''developer'') (Some (ex_user ''bob'' ''developer'')) \<lparr>ns_rows = [], ns_nextID = 1\<rparr> = (None, ex_held)"
    by (auto simp: choose_name_def ex_message_def ex_available split: prod.splits option.splits)
  then show ?thesis using that by (simp add: edge_name_def ex_message_def)
qed

lemma ex_granted:
  assumes "user_prefixes r ''bob'' = []"
  shows "\<exists>g ct'. handle_edge_register ex_nodes ex_inputs ''k2'' (ex_message ''shop'' ports) [''ex.org''] (ex_control r) = (Edge_granted g, ct') \<and>
     eg_userID g = ''bob'' \<and> eg_prefix g = ''shop''"
proof -
  let ?u = "ex_user ''bob'' ''developer''"
  let ?ct = "(ex_control r)\<lparr>ct_tokens := snd (update_pat_used 5 1 (ct_tokens (ex_control r)))\<rparr>"
  have 1: "handle_edge_register ex_nodes ex_inputs ''k2'' (ex_message ''shop'' ports) [''ex.org''] (ex_control r) =
      admit_edge_user ex_nodes ex_inputs (ex_message ''shop'' ports) [''ex.org''] ''eu'' ?u ?ct"
    using ex_held_fields(4,5) unfolding handle_edge_register_def authenticate_token_def ex_check
    by (simp add: ex_held_fields(2))
  have u: "get (ct_users (ex_control r)) ''bob'' = Some ?u" by (simp add: ex_control_def get_def)
  have c: "policy_consent_state (ct_notices (ex_control r)) f n (Some v) b a = (quiet, a)"
    "min_version_state (ct_notices (ex_control r)) f n (Some v) w b a = (quiet, a)" for f n v w b a
    by (simp_all add: policy_consent_state_def min_version_state_def ex_control_def)
  have q: "\<not> blocking quiet" by (simp add: blocking_def quiet_def)
  have lim: "max_active_tunnels_for ex_config (Some ?u) (Some ?u) = 3"
    by (simp add: max_active_tunnels_for_def ex_config_def ex_user_def)
  have ue: "user_edge_leases c v = []" if "ct_edgeLeases c = []" for c v
    using that by (simp add: user_edge_leases_def get_def)
  have el: "ct_edgeLeases (ex_control r) = []" by (simp add: ex_control_def)
  show ?thesis unfolding 1
    by (simp add: admit_edge_user_def u c q ex_edge_name Let_def ex_held_fields(1) grant_edge_def lim assms
        quota_registration_refusal_def quota_standing_def over_tunnel_limit_def ue el)
qed

theorem edge_table_well_formed_witness:
  "edge_table_ok (ct_edgeLeases (edge_step ex_nodes (Edge_registers ex_inputs ''k2'' (ex_message ''shop'' []) [''ex.org'']) (ex_control new_registry)))"
proof -
  have "edge_table_ok (ct_edgeLeases (ex_control new_registry))" by (simp add: edge_table_ok_def ex_control_def get_def is_table_def)
  from edge_table_well_formed [OF this, of ex_nodes "[Edge_registers ex_inputs ''k2'' (ex_message ''shop'' []) [''ex.org'']]"]
  show ?thesis by simp
qed

theorem edge_granted_past_every_gate_witness:
  "\<exists>l. user_edge_leases (snd (handle_edge_register ex_nodes ex_inputs ''k2'' (ex_message ''shop'' []) [''ex.org''] (ex_control new_registry))) ''bob''
     = [l] \<and> el_fullHost l = ''shop.ex.org'' \<and> el_nodeID l = ''eu''"
proof -
  obtain g ct' where h: "handle_edge_register ex_nodes ex_inputs ''k2'' (ex_message ''shop'' []) [''ex.org''] (ex_control new_registry)
      = (Edge_granted g, ct')" and g: "eg_userID g = ''bob''" "eg_prefix g = ''shop''"
    using ex_granted [of new_registry] ex_empty(1) by blast
  from h show ?thesis
  proof (cases rule: edge_register_cases)
    case (granted node user p g' el)
    have "user = ex_user ''bob'' ''developer''" using granted(3) by simp
    have node: "en_id node = ''eu''" using granted(2) ex_held_fields(2) by auto
    have ex_names: "names_ok (ct_names (ex_control new_registry))" by (simp add: names_ok_def)
    have empty: "user_edge_leases (ex_control new_registry) u = []" for u by (simp add: user_edge_leases_def ex_control_def get_def)
    have bob: "u_id user = ''bob''" using granted(1,6) g(1) by simp
    have "filter (\<lambda>l. el_subdomain l = eg_prefix g \<and> el_nodeID l = en_id node) (user_edge_leases ct' (u_id user)) =
        [new_edge_lease ex_inputs (ex_message ''shop'' []) [''ex.org''] (en_id node) (u_id user) (eg_prefix g) (eg_rateLimit g)]"
      using edge_granted_past_every_gate [OF h] ex_names granted(2,3) node by (auto simp: ex_nodes_def Let_def)
    moreover have "user_edge_leases ct' ''bob'' = [el]"
      using enter_leases [OF granted(8)] granted(7) bob empty by (simp add: new_edge_lease_def)
    ultimately show ?thesis using granted(1,7) node bob g by (simp add: h new_edge_lease_def edge_full_host_def)
  qed blast
qed

theorem deregister_drops_only_its_own_witness:
  "user_edge_leases (snd (handle_edge_deregister (\<lambda>s. s) (\<lambda>_. None) ex_nodes ''k2'' ''bob'' ''shop'' (ex_control new_registry))) ''alice'' = []"
  using deregister_drops_only_its_own [OF ex_node, of "\<lambda>_. None" "''bob''" "''shop''" "ex_control new_registry" "''alice''"]
  by (simp add: user_edge_leases_def ex_control_def get_def)

end
