(* ===== verification/Edge_Divergence.thy ===== *)
theory Edge_Divergence
  imports Edge_Facts Registry_Teardown
begin

text \<open>
  Where the pictures of two gateways come apart: the end of a superseded session on an edge makes the control
  plane forget the tunnel that replaced it; a registration through an edge does not look at what is live; the
  hosts of extra ports are known to the edge alone; a refusal at the edge leaves its lease on record.
\<close>

section \<open>The end of a session at an edge\<close>

lemma same_lease_face: "same_lease l m \<Longrightarrow> lease_face l = lease_face m"
  by (cases l; cases m; simp add: same_lease_def lease_face_def)

lemma notify_leases:
  assumes "authorised_edge_node digest nodes edgeToken = Some node"
  shows "user_edge_leases (notify_deregister digest parse nodes edgeToken l ct) u =
    (if u = l_userID l
     then filter (\<lambda>e. el_subdomain e \<noteq> l_subdomainPrefix l \<or> el_nodeID e \<noteq> en_id node) (user_edge_leases ct u)
     else user_edge_leases ct u)"
  by (simp add: notify_deregister_def deregister_leases [OF assms])

lemma notify_all_leases:
  assumes "authorised_edge_node digest nodes edgeToken = Some node"
  shows "set (user_edge_leases (fold (notify_deregister digest parse nodes edgeToken) ls ct) u) =
    {e \<in> set (user_edge_leases ct u). \<not> (\<exists>l \<in> set ls. l_userID l = u \<and> l_subdomainPrefix l = el_subdomain e \<and> el_nodeID e = en_id node)}"
proof (induction ls arbitrary: ct)
  case (Cons l ls)
  then show ?case using notify_leases [OF assms, of parse l ct u] by auto
qed simp

lemma notify_all_ok:
  "edge_table_ok (ct_edgeLeases ct) \<Longrightarrow> edge_table_ok (ct_edgeLeases (fold (notify_deregister digest parse nodes edgeToken) ls ct))"
  by (induction ls arbitrary: ct) (simp_all add: notify_deregister_def deregister_keeps_ok)

lemma all_edge_leases_by_user:
  assumes "edge_table_ok (ct_edgeLeases ct)"
  shows "el \<in> set (all_edge_leases ct) \<longleftrightarrow> el \<in> set (user_edge_leases ct (el_userID el))"
proof -
  have tab: "is_table (ct_edgeLeases ct)" using assms by (simp add: edge_table_ok_def)
  have "el \<in> set (all_edge_leases ct) \<longleftrightarrow> (\<exists>uid ls. get (ct_edgeLeases ct) uid = Some ls \<and> el \<in> set ls)"
    using get_in_set [OF tab] by (force simp: all_edge_leases_def)
  also have "\<dots> \<longleftrightarrow> el \<in> set (user_edge_leases ct (el_userID el))"
    (is "?l \<longleftrightarrow> ?r")
  proof
    assume ?l
    then show ?r using assms by (auto simp: edge_table_ok_def user_edge_leases_def)
  next
    assume ?r
    then show ?l by (cases "get (ct_edgeLeases ct) (el_userID el)") (auto simp: user_edge_leases_def)
  qed
  finally show ?thesis .
qed

text \<open>The end of a superseded session makes the control plane forget a live tunnel. When a user has registered the
  same name again on the same edge, the end of the earlier session is reported by name and node alone: the edge
  goes on serving the host from the new session, and the control plane, which knew the host from this lease, no
  longer resolves it.\<close>

theorem superseded_session_forgets_route:
  assumes "authorised_edge_node digest nodes (ed_token ed) = Some node" "edge_table_ok (ct_edgeLeases ct)"
    "registry_wf (ed_registry ed)" "routes_owned (ed_registry ed)"
    "old \<in> set (get_session_leases (ed_registry ed) tok)" "get_lease (ed_registry ed) host = Some new"
    "l_userID new = l_userID old" "l_subdomainPrefix new = l_subdomainPrefix old" "l_sessionToken new \<noteq> tok"
    "\<forall>el \<in> set (all_edge_leases ct). equal_fold (el_fullHost el) host \<longrightarrow>
       el_userID el = l_userID old \<and> el_subdomain el = l_subdomainPrefix old \<and> el_nodeID el = en_id node"
    "(ed', ct') = end_edge_session digest parse nodes now tok (ed, ct)"
  shows "map_option lease_face (get_lease (ed_registry ed') host) = Some (lease_face new) \<and>
    resolve_remote_at_control parse nodes address ct' host = None"
proof
  have ed': "ed_registry ed' = clean_lease now tok (ed_registry ed)"
    and ct': "ct' = fold (notify_deregister digest parse nodes (ed_token ed)) (get_session_leases (ed_registry ed) tok) ct"
    using assms(11) by (simp_all add: end_edge_session_def)
  obtain p where p: "get (r_leases (ed_registry ed)) host = Some p" "deref (ed_registry ed) p = new"
    using assms(6) by (auto simp: get_lease_def)
  have "get (r_leases (ed_registry ed')) host = Some p"
    using clean_lease_routes_aux [OF assms(3,4), of now tok host] p assms(9) by (simp add: ed')
  moreover have "same_lease (deref (ed_registry ed') p) new" using clean_lease_deref p(2) ed' by metis
  ultimately show "map_option lease_face (get_lease (ed_registry ed') host) = Some (lease_face new)"
    by (simp add: get_lease_def same_lease_face)
  have ok: "edge_table_ok (ct_edgeLeases ct')" unfolding ct' by (rule notify_all_ok [OF assms(2)])
  have "\<not> equal_fold (el_fullHost el) host" if el: "el \<in> set (all_edge_leases ct')" for el
  proof
    assume h: "equal_fold (el_fullHost el) host"
    have "el \<in> set (user_edge_leases ct' (el_userID el))" using el all_edge_leases_by_user [OF ok] by simp
    then have e: "el \<in> set (user_edge_leases ct (el_userID el))"
      "\<not> (\<exists>l \<in> set (get_session_leases (ed_registry ed) tok). l_userID l = el_userID el \<and>
           l_subdomainPrefix l = el_subdomain el \<and> el_nodeID el = en_id node)"
      unfolding ct' notify_all_leases [OF assms(1)] by auto
    from e(1) h assms(10) have "el_userID el = l_userID old \<and> el_subdomain el = l_subdomainPrefix old \<and> el_nodeID el = en_id node"
      using all_edge_leases_by_user [OF assms(2)] by blast
    with e(2) assms(5) show False by auto
  qed
  then have "List.find (\<lambda>el. equal_fold (el_fullHost el) host) (all_edge_leases ct') = None"
    by (simp add: find_None_iff)
  then show "resolve_remote_at_control parse nodes address ct' host = None" by (simp add: resolve_remote_at_control_def)
qed

section \<open>What a registration through an edge does not look at\<close>

lemma edge_name_ignores:
  assumes "rm_prefix m \<noteq> []" "rm_prefix m \<noteq> ''random''"
  shows "edge_name ri m domains user u (ct\<lparr>ct_registry := r\<rparr>) = edge_name ri m domains user u ct"
  using assms by (simp add: edge_name_def)

lemma grant_ignores:
  assumes "user_prefixes r (u_id user) = user_prefixes (ct_registry ct) (u_id user)"
  shows "fst (grant_edge nodes ri m domains nodeID user u notices sub (ct\<lparr>ct_registry := r\<rparr>)) =
    fst (grant_edge nodes ri m domains nodeID user u notices sub ct)"
  using assms by (simp add: grant_edge_def Let_def user_edge_leases_def split: option.split)

text \<open>A registration of a given name through an edge is answered without a look at what is live: whatever tunnels
  the control plane serves, somebody else's under the very same host included, the answer is the same as long as
  the user's own tunnels are.\<close>

theorem edge_ignores_live_tunnels:
  assumes "rm_prefix m \<noteq> []" "rm_prefix m \<noteq> ''random''"
    "\<forall>user p. check_pat (ri_digest ri) (ri_tokenQuery ri) (get (ct_users ct)) (ri_now ri) (rm_authToken m) (ct_tokens ct) = Token_valid user p
       \<longrightarrow> user_prefixes r (u_id user) = user_prefixes (ct_registry ct) (u_id user)"
  shows "fst (handle_edge_register nodes ri edgeToken m domains (ct\<lparr>ct_registry := r\<rparr>)) =
    fst (handle_edge_register nodes ri edgeToken m domains ct)"
proof -
  have admit: "fst (admit_edge_user nodes ri m domains i user (c\<lparr>ct_registry := r\<rparr>)) = fst (admit_edge_user nodes ri m domains i user c)"
    if "user_prefixes r (u_id user) = user_prefixes (ct_registry c) (u_id user)" for i user c
  proof -
    have ru: "reread_user ri (c\<lparr>ct_registry := r\<rparr>) = reread_user ri c" by (simp add: reread_user_def fun_eq_iff)
    have sw: "c\<lparr>ct_registry := r, ct_acks := a\<rparr> = c\<lparr>ct_acks := a\<rparr>\<lparr>ct_registry := r\<rparr>"
      for a by simp
    have g: "fst (grant_edge nodes ri m domains i user u notices sub (c\<lparr>ct_acks := a, ct_registry := r, ct_names := s\<rparr>)) =
        fst (grant_edge nodes ri m domains i user u notices sub (c\<lparr>ct_acks := a, ct_names := s\<rparr>))" for u notices sub a s
    proof -
      have eq: "c\<lparr>ct_acks := a, ct_registry := r, ct_names := s\<rparr> = c\<lparr>ct_acks := a, ct_names := s\<rparr>\<lparr>ct_registry := r\<rparr>" by simp
      show ?thesis unfolding eq by (rule grant_ignores) (use that in simp)
    qed
    show ?thesis
      using g by (simp add: admit_edge_user_def ru sw edge_name_ignores [OF assms(1,2)] Let_def split: prod.split sum.split)
  qed
  show ?thesis
  proof (cases "authorised_edge_node (ri_digest ri) nodes edgeToken")
    case (Some node)
    let ?v = "check_pat (ri_digest ri) (ri_tokenQuery ri) (get (ct_users ct)) (ri_now ri) (rm_authToken m) (ct_tokens ct)"
    show ?thesis
    proof (cases ?v)
      case (Token_valid user p)
      have sw: "ct\<lparr>ct_registry := r, ct_tokens := s\<rparr> = ct\<lparr>ct_tokens := s\<rparr>\<lparr>ct_registry := r\<rparr>" for s by simp
      have "fst (admit_edge_user nodes ri m domains (en_id node) user (ct\<lparr>ct_tokens := s\<rparr>\<lparr>ct_registry := r\<rparr>)) =
          fst (admit_edge_user nodes ri m domains (en_id node) user (ct\<lparr>ct_tokens := s\<rparr>))" for s
        by (rule admit) (use assms(3) Token_valid in simp)
      then show ?thesis using Some Token_valid by (simp add: handle_edge_register_def authenticate_token_def sw)
    qed (simp_all add: handle_edge_register_def authenticate_token_def Some)
  qed (simp add: handle_edge_register_def)
qed

section \<open>Hosts only the edge knows\<close>

lemma proxy_registered:
  assumes "handle_edge_register_proxy nodes rie ric reached m (ed, ct) = (Proxy_registered g, ed', ct')"
  obtains grant domains r rq where
    "handle_edge_register nodes (ric\<lparr>ri_clientIP := ri_clientIP rie\<rparr>) (ed_token ed) m domains ct = (Edge_granted grant, ct')"
    "rg_prefix g = eg_prefix grant" "rg_domains g = domains"
    "rq = \<lparr>rq_userID = eg_userID grant, rq_prefix = eg_prefix grant, rq_ports = rm_ports m, rq_domains = domains,
       rq_rateLimit = eg_rateLimit grant, rq_clientIP = ri_clientIP rie, rq_basicAuth = rm_basicAuth m,
       rq_addedHeaders = rm_addedHeaders m\<rparr>"
    "\<exists>remotes. register (ri_env rie) rq (ed_registry ed) = (Inr (rg_token g, remotes), r)"
    "same_tunnels r (ed_registry ed')"
proof -
  obtain ranked counter where d: "get_active_domains_for_request (ed_cfg ed) ((ri_alloc rie)\<lparr>al_setting := (\<lambda>_. None)\<rparr>) (ri_host rie)
      (ri_clientIP rie) None (ed_registry ed) (ed_roundRobin ed) = (ranked, counter)"
    by (cases "get_active_domains_for_request (ed_cfg ed) ((ri_alloc rie)\<lparr>al_setting := (\<lambda>_. None)\<rparr>) (ri_host rie)
      (ri_clientIP rie) None (ed_registry ed) (ed_roundRobin ed)")
  let ?ds = "top_ranked_domain ranked"
  obtain reply c where h: "handle_edge_register nodes (ric\<lparr>ri_clientIP := ri_clientIP rie\<rparr>) (ed_token ed) m ?ds ct = (reply, c)"
    by (cases "handle_edge_register nodes (ric\<lparr>ri_clientIP := ri_clientIP rie\<rparr>) (ed_token ed) m ?ds ct")
  note a = assms [unfolded handle_edge_register_proxy_def prod.case d Let_def h]
  obtain grant where grant: "reply = Edge_granted grant" using a by (cases reply) (auto split: if_splits)
  let ?rq = "\<lparr>rq_userID = eg_userID grant, rq_prefix = eg_prefix grant, rq_ports = rm_ports m, rq_domains = ?ds,
       rq_rateLimit = eg_rateLimit grant, rq_clientIP = ri_clientIP rie, rq_basicAuth = rm_basicAuth m,
       rq_addedHeaders = rm_addedHeaders m\<rparr>"
  obtain res r where reg: "register (ri_env rie) ?rq (ed_registry ed) = (res, r)" by (cases "register (ri_env rie) ?rq (ed_registry ed)")
  note b = a [unfolded grant edge_reply.case reg]
  obtain tok remotes where res: "res = Inr (tok, remotes)" using b by (cases res) (auto split: if_splits)
  let ?r2 = "apply_access_controls_to_leases (eg_prefix grant) ?ds (eg_access grant)
      (set_launch_context_for_session tok (rm_launchFlags m) (rm_launchOverrides m) r)"
  have st2: "same_tunnels r ?r2" by (blast intro: same_tunnels_trans launch_same_tunnels access_same_tunnels)
  have "same_tunnels s (snd (set_quota_rate_limit_for_user u n s))" for s u n
    by (simp add: set_quota_rate_limit_for_user_def Let_def modify_all_same_tunnels)
  then have st3: "same_tunnels r (case eg_quotaRate grant of None \<Rightarrow> ?r2
      | Some n \<Rightarrow> if 0 < n then snd (set_quota_rate_limit_for_user (eg_userID grant) n ?r2) else ?r2)"
    using st2 by (auto split: option.split intro: same_tunnels_trans)
  show thesis
  proof (rule that [of ?ds grant ?rq r])
    show "handle_edge_register nodes (ric\<lparr>ri_clientIP := ri_clientIP rie\<rparr>) (ed_token ed) m ?ds ct = (Edge_granted grant, ct')"
      using b res h grant by (auto split: if_splits)
    show "same_tunnels r (ed_registry ed')" using b res st3 by (auto split: if_splits)
    show "\<exists>remotes. register (ri_env rie) ?rq (ed_registry ed) = (Inr (rg_token g, remotes), r)"
      using b res reg by (auto split: if_splits)
  qed (use b res in \<open>auto split: if_splits\<close>)
qed

text \<open>The hosts of extra ports are known to the edge alone: of a tunnel registered through an edge every host is
  routed there, but the control plane records the one host without a suffix, so it resolves none of the others and
  a visitor it is asked for them is told that there is no such tunnel.\<close>

theorem extra_edge_hosts_unresolved:
  assumes "handle_edge_register_proxy nodes rie ric reached m (ed, ct) = (Proxy_registered g, ed', ct')"
    "h \<in> set (message_hosts m (rg_prefix g) (rg_domains g))"
    "\<not> equal_fold (edge_full_host (rg_prefix g) (rg_domains g)) h"
    "edge_table_ok (ct_edgeLeases ct)" "\<forall>el \<in> set (all_edge_leases ct). \<not> equal_fold (el_fullHost el) h"
  shows "(\<exists>l. get_lease (ed_registry ed') h = Some l \<and> l_sessionToken l = rg_token g) \<and>
    resolve_remote_at_control parse nodes address ct' h = None"
proof (rule proxy_registered [OF assms(1)])
  fix grant domains r rq
  assume h: "handle_edge_register nodes (ric\<lparr>ri_clientIP := ri_clientIP rie\<rparr>) (ed_token ed) m domains ct = (Edge_granted grant, ct')"
    and g: "rg_prefix g = eg_prefix grant" "rg_domains g = domains"
    and rq: "rq = \<lparr>rq_userID = eg_userID grant, rq_prefix = eg_prefix grant, rq_ports = rm_ports m, rq_domains = domains,
       rq_rateLimit = eg_rateLimit grant, rq_clientIP = ri_clientIP rie, rq_basicAuth = rm_basicAuth m,
       rq_addedHeaders = rm_addedHeaders m\<rparr>"
    and reg: "\<exists>remotes. register (ri_env rie) rq (ed_registry ed) = (Inr (rg_token g, remotes), r)"
    and st: "same_tunnels r (ed_registry ed')"
  obtain remotes where reg': "register (ri_env rie) rq (ed_registry ed) = (Inr (rg_token g, remotes), r)" using reg by blast
  have "h \<in> set (request_hosts rq)" using assms(2) g by (simp add: rq request_hosts_def message_hosts_def)
  from register_new_route [OF reg' this] obtain k where k: "get (r_leases r) h = Some k" "made_for rq (rg_token g) (deref r k)" by blast
  have "map_option lease_face (get_lease (ed_registry ed') h) = Some (lease_face (deref r k))"
    using same_tunnels_lease [OF st] k(1) by (simp add: get_lease_def)
  then have "\<exists>l. get_lease (ed_registry ed') h = Some l \<and> l_sessionToken l = rg_token g"
    using made_for_props [OF k(2)] by (auto simp: lease_face_def)
  moreover have "resolve_remote_at_control parse nodes address ct' h = None"
    using h
  proof (cases rule: edge_register_cases)
    case (granted node user p g' el)
    have ok: "edge_table_ok (ct_edgeLeases ct')" using granted(8) enter_keeps_ok [OF assms(4)] by simp
    have host: "el_fullHost el = edge_full_host (rg_prefix g) (rg_domains g)"
      using granted(1,7) g by (simp add: new_edge_lease_def)
    have "\<not> equal_fold (el_fullHost e) h" if "e \<in> set (all_edge_leases ct')" for e
    proof -
      have "e \<in> set (user_edge_leases ct' (el_userID e))" using that all_edge_leases_by_user [OF ok] by simp
      then have "e = el \<or> e \<in> set (user_edge_leases ct (el_userID e))"
        using enter_leases [OF granted(8), of "el_userID e"] by (auto split: if_splits)
      then show ?thesis using host assms(3,5) all_edge_leases_by_user [OF assms(4)] by auto
    qed
    then have "List.find (\<lambda>el. equal_fold (el_fullHost el) h) (all_edge_leases ct') = None" by (simp add: find_None_iff)
    then show ?thesis by (simp add: resolve_remote_at_control_def)
  qed blast
  ultimately show ?thesis by blast
qed

section \<open>Witnesses\<close>

definition ex_edge :: "registry \<Rightarrow> edge" where
  "ex_edge r = \<lparr>ed_cfg = ex_config, ed_token = ''k2'', ed_controlURL = ''https://tunnel.ex.org'', ed_registry = r, ed_roundRobin = 0,
     ed_pendingShutdownAt = 0, ed_routes = []\<rparr>"

text \<open>Alice registers \<open>demo\<close> on the edge a second time, with her first session not yet swept.\<close>

definition ex_again :: registry where
  "ex_again = snd (register (ex_env ''t2'' [Some 10002]) (ex_request ''alice'' ''demo'' [(8080, [])]) ex_registry)"

lemma ex_again_value:
  "r_leases ex_again = [(''demo.ex.org'', 1)]" "r_sessions ex_again = [(''t1'', [0]), (''t2'', [1])]"
  "l_userID (deref ex_again 0) = ''alice''" "l_userID (deref ex_again 1) = ''alice''"
  "l_subdomainPrefix (deref ex_again 0) = ''demo''" "l_subdomainPrefix (deref ex_again 1) = ''demo''"
  "l_sessionToken (deref ex_again 1) = ''t2''"
  by (simp_all add: ex_again_def ex_registry_def new_registry_def eval_register)

lemma ex_again_wf: "registry_wf ex_again" "routes_owned ex_again"
proof -
  obtain res where r: "register (ex_env ''t2'' [Some 10002]) (ex_request ''alice'' ''demo'' [(8080, [])]) ex_registry = (res, ex_again)"
    by (metis ex_again_def prod.collapse)
  have f: "token_fresh (ex_env ''t2'' [Some 10002]) ex_registry" by simp
  show "registry_wf ex_again" by (rule register_wf_aux [OF r ex_registry_wf(1) f])
  have "fst (register (ex_env ''t2'' [Some 10002]) (ex_request ''alice'' ''demo'' [(8080, [])]) ex_registry) \<noteq> Inl Port_failed"
    by (simp add: ex_registry_def new_registry_def eval_register)
  then have "res \<noteq> Inl Port_failed" using r by simp
  with register_owned_aux [OF r ex_registry_wf f] show "routes_owned ex_again" by blast
qed

definition ex_known :: control where
  "ex_known = (ex_control new_registry)\<lparr>ct_edgeLeases := [(''alice'',
     [new_edge_lease ex_inputs (ex_message ''demo'' []) [''ex.org''] ''eu'' ''alice'' ''demo'' 0])]\<rparr>"

theorem superseded_session_forgets_route_witness:
  "map_option lease_face (get_lease (ed_registry (fst (end_edge_session (\<lambda>s. s) (\<lambda>_. None) ex_nodes 60 ''t1'' (ex_edge ex_again, ex_known))))
     ''demo.ex.org'') = Some (lease_face (deref ex_again 1)) \<and>
   resolve_remote_at_control (\<lambda>_. None) ex_nodes (\<lambda>_. []) (snd (end_edge_session (\<lambda>s. s) (\<lambda>_. None) ex_nodes 60 ''t1'' (ex_edge ex_again, ex_known)))
     ''demo.ex.org'' = None"
proof (rule superseded_session_forgets_route [where old = "deref ex_again 0" and new = "deref ex_again 1"])
  show "edge_table_ok (ct_edgeLeases ex_known)"
    by (simp add: ex_known_def edge_table_ok_def is_table_def get_def new_edge_lease_def)
  show "\<forall>el \<in> set (all_edge_leases ex_known). equal_fold (el_fullHost el) ''demo.ex.org'' \<longrightarrow>
      el_userID el = l_userID (deref ex_again 0) \<and> el_subdomain el = l_subdomainPrefix (deref ex_again 0) \<and>
      el_nodeID el = en_id \<lparr>en_id = ''eu'', en_tokenHash = ''k1'', en_additionalHashes = [''k2''], en_url = ''https://eu.ex.org''\<rparr>"
    by (simp add: all_edge_leases_def ex_known_def new_edge_lease_def ex_again_value)
qed (simp_all add: ex_edge_def ex_again_wf ex_again_value get_lease_def get_session_leases_def session_pointers_def get_def
    del: One_nat_def)

text \<open>Alice's tunnel \<open>shop\<close> is live at the control plane; bob is granted the name through the edge.\<close>

definition ex_live :: registry where
  "ex_live = snd (register (ex_env ''t1'' [Some 10001]) (ex_request ''alice'' ''shop'' [(8080, [])]) new_registry)"

theorem edge_ignores_live_tunnels_witness:
  "(\<exists>l. get_lease ex_live ''shop.ex.org'' = Some l \<and> l_userID l = ''alice'') \<and>
   (\<exists>g. fst (handle_edge_register ex_nodes ex_inputs ''k2'' (ex_message ''shop'' []) [''ex.org''] (ex_control ex_live)) = Edge_granted g)"
proof
  show "\<exists>l. get_lease ex_live ''shop.ex.org'' = Some l \<and> l_userID l = ''alice''"
    by (simp add: ex_live_def new_registry_def eval_register)
  have p: "user_prefixes ex_live ''bob'' = []"
    by (simp add: user_prefixes_def list_leases_def ex_live_def new_registry_def eval_register sort_by_host_def snapshot_lease_def)
  have c: "ex_control ex_live = (ex_control new_registry)\<lparr>ct_registry := ex_live\<rparr>" by (simp add: ex_control_def)
  have "fst (handle_edge_register ex_nodes ex_inputs ''k2'' (ex_message ''shop'' []) [''ex.org''] ((ex_control new_registry)\<lparr>ct_registry := ex_live\<rparr>))
      = fst (handle_edge_register ex_nodes ex_inputs ''k2'' (ex_message ''shop'' []) [''ex.org''] (ex_control new_registry))"
  proof (rule edge_ignores_live_tunnels)
    show "rm_prefix (ex_message ''shop'' []) \<noteq> []" "rm_prefix (ex_message ''shop'' []) \<noteq> ''random''" by (simp_all add: ex_message_def)
  qed (simp add: p ex_held_fields(1))
  moreover obtain g where "fst (handle_edge_register ex_nodes ex_inputs ''k2'' (ex_message ''shop'' []) [''ex.org''] (ex_control new_registry)) = Edge_granted g"
    using ex_granted [OF ex_empty(1)] by (metis fst_conv)
  ultimately show "\<exists>g. fst (handle_edge_register ex_nodes ex_inputs ''k2'' (ex_message ''shop'' []) [''ex.org''] (ex_control ex_live)) = Edge_granted g"
    unfolding c by simp
qed

lemma ex_proxied:
  "\<exists>g ed' ct'. handle_edge_register_proxy ex_nodes ex_inputs ex_inputs True (ex_message ''shop'' [(8080, []), (3000, ''api'')])
      (ex_edge new_registry, ex_control new_registry) = (Proxy_registered g, ed', ct') \<and> rg_prefix g = ''shop'' \<and> rg_domains g = [''ex.org'']"
proof -
  let ?m = "ex_message ''shop'' [(8080, []), (3000, ''api'')]"
  obtain g ct' where h: "handle_edge_register ex_nodes ex_inputs ''k2'' ?m [''ex.org''] (ex_control new_registry) = (Edge_granted g, ct')"
    and g: "eg_userID g = ''bob''" "eg_prefix g = ''shop''" using ex_granted [OF ex_empty(1)] by blast
  have i: "(ri_alloc ex_inputs)\<lparr>al_setting := (\<lambda>_. None)\<rparr> = ri_alloc ex_inputs" "ex_inputs\<lparr>ri_clientIP := ri_clientIP ex_inputs\<rparr> = ex_inputs"
    by (simp_all add: ex_inputs_def)
  let ?rq = "\<lparr>rq_userID = ''bob'', rq_prefix = ''shop'', rq_ports = rm_ports ?m, rq_domains = [''ex.org''],
       rq_rateLimit = eg_rateLimit g, rq_clientIP = ri_clientIP ex_inputs, rq_basicAuth = rm_basicAuth ?m,
       rq_addedHeaders = rm_addedHeaders ?m\<rparr>"
  have "fst (register (ri_env ex_inputs) ?rq new_registry) =
      Inr (''t2'', [''R:127.0.0.1:10002:localhost:8080'', ''R:127.0.0.1:10003:localhost:3000''])"
    by (simp add: ex_inputs_def ex_message_def new_registry_def eval_register)
  then obtain r where r: "register (ri_env ex_inputs) ?rq new_registry =
      (Inr (''t2'', [''R:127.0.0.1:10002:localhost:8080'', ''R:127.0.0.1:10003:localhost:3000'']), r)" by (metis prod.collapse)
  show ?thesis
    by (simp add: handle_edge_register_proxy_def ex_edge_def i ex_active top_ranked_domain_def h g r Let_def)
qed

theorem extra_edge_hosts_unresolved_witness:
  "\<exists>ed' ct'. snd (handle_edge_register_proxy ex_nodes ex_inputs ex_inputs True (ex_message ''shop'' [(8080, []), (3000, ''api'')])
      (ex_edge new_registry, ex_control new_registry)) = (ed', ct') \<and> get_lease (ed_registry ed') ''shop-api.ex.org'' \<noteq> None \<and>
    resolve_remote_at_control (\<lambda>_. None) ex_nodes (\<lambda>_. []) ct' ''shop-api.ex.org'' = None"
proof -
  obtain g ed' ct' where h: "handle_edge_register_proxy ex_nodes ex_inputs ex_inputs True (ex_message ''shop'' [(8080, []), (3000, ''api'')])
      (ex_edge new_registry, ex_control new_registry) = (Proxy_registered g, ed', ct')"
    and g: "rg_prefix g = ''shop''" "rg_domains g = [''ex.org'']" using ex_proxied by blast
  have e: "ct_edgeLeases (ex_control new_registry) = []" by (simp add: ex_control_def)
  have "(\<exists>l. get_lease (ed_registry ed') ''shop-api.ex.org'' = Some l \<and> l_sessionToken l = rg_token g) \<and>
      resolve_remote_at_control (\<lambda>_. None) ex_nodes (\<lambda>_. []) ct' ''shop-api.ex.org'' = None"
    by (rule extra_edge_hosts_unresolved [OF h])
      (simp_all add: g ex_hosts edge_full_host_def equal_fold_def to_lower_def lower_char_def edge_table_ok_def all_edge_leases_def e get_def is_table_def)
  then show ?thesis by (auto simp: h)
qed

end
