(* ===== verification/Dns_Hook.thy ===== *)
theory Dns_Hook
  imports Prelude
begin

text \<open>
  The publisher of tunnel names (\<open>pkg/server/dns_hook.go\<close>): a hook script is asked to point a name at the
  gateway that serves it and, some time after the tunnel has gone, to remove the record. Requests return at
  once; the hook runs later, one invocation at a time for each name.

  Every schedule is a list of events: a request, the start of something waiting (a queued publication that gets
  the lock of its name, or a withdrawal whose grace period is over and that gets the lock), the end of an
  invocation, with its success. The record of the provider changes when an invocation ends well. A publisher
  without a hook does nothing and is not modelled.
\<close>

section \<open>State\<close>

datatype task =
    Publish_queued string string nat      \<comment> \<open>name, target, generation of the request\<close>
  | Publish_running string string nat
  | Withdraw_waiting string string nat
  | Withdraw_running string nat
  | Task_done string

fun task_name :: "task \<Rightarrow> string" where
  "task_name (Publish_queued f t g) = f"
| "task_name (Publish_running f t g) = f"
| "task_name (Withdraw_waiting f t g) = f"
| "task_name (Withdraw_running f g) = f"
| "task_name (Task_done f) = f"

fun is_running :: "task \<Rightarrow> bool" where
  "is_running (Publish_running f t g) = True"
| "is_running (Withdraw_running f g) = True"
| "is_running _ = False"

fun is_over :: "task \<Rightarrow> bool" where
  "is_over (Task_done f) = True"
| "is_over _ = False"

text \<open>The maps of \<open>dnsPublisher\<close>, the goroutines and timers it has started, and the provider's records.\<close>

record dns_publisher =
  dp_published :: "(string, string) table"
  dp_gen :: "(string, nat) table"
  dp_desired :: "(string, string) table"
  dp_tasks :: "task list"
  dp_records :: "(string, string) table"

definition new_dns_publisher :: "(string, string) table \<Rightarrow> dns_publisher" where
  "new_dns_publisher records =
     \<lparr>dp_published = [], dp_gen = [], dp_desired = [], dp_tasks = [], dp_records = records\<rparr>"

text \<open>A missing entry of \<open>gen\<close> reads as zero.\<close>

definition gen_of :: "dns_publisher \<Rightarrow> string \<Rightarrow> nat" where
  "gen_of p f = (case get (dp_gen p) f of None \<Rightarrow> 0 | Some g \<Rightarrow> g)"

definition default_dns_withdraw_grace :: duration where "default_dns_withdraw_grace = 90 * second"

definition dns_grace :: "duration \<Rightarrow> duration" where
  "dns_grace configured = (if configured \<le> 0 then default_dns_withdraw_grace else configured)"

section \<open>Requests\<close>

definition publish :: "string \<Rightarrow> string \<Rightarrow> dns_publisher \<Rightarrow> dns_publisher" where
  "publish f target p =
     (if f = [] \<or> target = [] \<or> get (dp_desired p) f = Some target then p
      else
        (let g = gen_of p f + 1
         in p\<lparr>dp_gen := put f g (dp_gen p), dp_desired := put f target (dp_desired p),
              dp_tasks := dp_tasks p @ [Publish_queued f target g]\<rparr>))"

definition withdraw :: "string \<Rightarrow> string \<Rightarrow> dns_publisher \<Rightarrow> dns_publisher" where
  "withdraw f target p =
     (if f = [] \<or> (get (dp_published p) f = None \<and> get (dp_desired p) f = None) then p
      else
        (let g = gen_of p f + 1
         in p\<lparr>dp_gen := put f g (dp_gen p), dp_tasks := dp_tasks p @ [Withdraw_waiting f target g]\<rparr>))"

section \<open>The hook\<close>

definition set_task :: "nat \<Rightarrow> task \<Rightarrow> dns_publisher \<Rightarrow> dns_publisher" where
  "set_task i t p = p\<lparr>dp_tasks := (dp_tasks p)[i := t]\<rparr>"

text \<open>The lock of a name is held while an invocation for it runs.\<close>

definition name_locked :: "dns_publisher \<Rightarrow> string \<Rightarrow> bool" where
  "name_locked p f \<longleftrightarrow> list_ex (\<lambda>t. is_running t \<and> task_name t = f) (dp_tasks p)"

text \<open>A waiting task gets the lock: it goes ahead, or abandons itself as stale.\<close>

definition start_task :: "nat \<Rightarrow> dns_publisher \<Rightarrow> dns_publisher" where
  "start_task i p =
     (if i < length (dp_tasks p) \<and> \<not> name_locked p (task_name (dp_tasks p ! i)) then
        (case dp_tasks p ! i of
           Publish_queued f target g \<Rightarrow>
             set_task i (if gen_of p f \<noteq> g then Task_done f else Publish_running f target g) p
         | Withdraw_waiting f target g \<Rightarrow>
             set_task i
               (if gen_of p f \<noteq> g then Task_done f
                else case get (dp_published p) f of
                  Some current \<Rightarrow> (if target \<noteq> [] \<and> current \<noteq> target then Task_done f else Withdraw_running f g)
                | None \<Rightarrow> Withdraw_running f g) p
         | _ \<Rightarrow> p)
      else p)"

text \<open>What an invocation that ends leaves behind: whether the provider's record was changed is one question, whether the
  hook reported success another. A hook that is killed when its time is over may have changed the record and is taken
  for one that failed.\<close>

definition finish_publish :: "bool \<Rightarrow> bool \<Rightarrow> string \<Rightarrow> string \<Rightarrow> nat \<Rightarrow> dns_publisher \<Rightarrow> dns_publisher" where
  "finish_publish applied success f target g p =
     (let p' = (if applied then p\<lparr>dp_records := put f target (dp_records p)\<rparr> else p)
      in if success then
           (if gen_of p f = g then p'\<lparr>dp_published := put f target (dp_published p)\<rparr> else p')
         else (if get (dp_desired p) f = Some target then p'\<lparr>dp_desired := del f (dp_desired p)\<rparr> else p'))"

definition finish_withdraw :: "bool \<Rightarrow> bool \<Rightarrow> string \<Rightarrow> nat \<Rightarrow> dns_publisher \<Rightarrow> dns_publisher" where
  "finish_withdraw applied success f g p =
     (let p' = (if applied then p\<lparr>dp_records := del f (dp_records p)\<rparr> else p)
      in if success \<and> gen_of p f = g
         then p'\<lparr>dp_published := del f (dp_published p), dp_gen := del f (dp_gen p), dp_desired := del f (dp_desired p)\<rparr>
         else p')"

text \<open>An invocation ends.\<close>

definition end_task :: "nat \<Rightarrow> bool \<Rightarrow> bool \<Rightarrow> dns_publisher \<Rightarrow> dns_publisher" where
  "end_task i applied success p =
     (if i < length (dp_tasks p) then
        (case dp_tasks p ! i of
           Publish_running f target g \<Rightarrow> set_task i (Task_done f) (finish_publish applied success f target g p)
         | Withdraw_running f g \<Rightarrow> set_task i (Task_done f) (finish_withdraw applied success f g p)
         | _ \<Rightarrow> p)
      else p)"

abbreviation finish_task :: "nat \<Rightarrow> bool \<Rightarrow> dns_publisher \<Rightarrow> dns_publisher" where
  "finish_task i success \<equiv> end_task i success success"

section \<open>Schedules\<close>

datatype dns_event =
    Ask_publish string string
  | Ask_withdraw string string
  | Start nat
  | Finish nat bool
  | Killed nat

fun dns_step :: "dns_event \<Rightarrow> dns_publisher \<Rightarrow> dns_publisher" where
  "dns_step (Ask_publish f target) = publish f target"
| "dns_step (Ask_withdraw f target) = withdraw f target"
| "dns_step (Start i) = start_task i"
| "dns_step (Finish i success) = finish_task i success"
| "dns_step (Killed i) = end_task i True False"

definition dns_run :: "dns_event list \<Rightarrow> dns_publisher \<Rightarrow> dns_publisher" where
  "dns_run es p = fold dns_step es p"

end
