(* ===== verification/Dns_Facts.thy ===== *)
theory Dns_Facts
  imports Dns_Hook
begin

text \<open>
  What the publisher of names guarantees over every schedule, and the two schedules in which it withdraws the
  name of a live tunnel.
\<close>

section \<open>One step, seen from one name\<close>

lemma set_task_frame [simp]:
  "dp_published (set_task i t p) = dp_published p" "dp_gen (set_task i t p) = dp_gen p"
  "dp_desired (set_task i t p) = dp_desired p" "dp_records (set_task i t p) = dp_records p"
  "dp_tasks (set_task i t p) = (dp_tasks p)[i := t]" "gen_of (set_task i t p) = gen_of p"
  by (simp_all add: set_task_def gen_of_def fun_eq_iff)

lemma finish_parts_tasks [simp]:
  "dp_tasks (finish_publish a s f t g p) = dp_tasks p" "dp_tasks (finish_withdraw a s f g p) = dp_tasks p"
  by (simp_all add: finish_publish_def finish_withdraw_def Let_def)

text \<open>What can become of the tasks in a step, and what each kind of change does to the maps.\<close>

lemma start_cases:
  obtains
    (idle) "start_task i p = p" "i < length (dp_tasks p) \<Longrightarrow> \<not> name_locked p (task_name (dp_tasks p ! i)) \<Longrightarrow>
        is_running (dp_tasks p ! i) \<or> is_over (dp_tasks p ! i)"
  | (started) task task' where "i < length (dp_tasks p)" "dp_tasks p ! i = task" "\<not> name_locked p (task_name task)"
      "start_task i p = set_task i task' p" "task_name task' = task_name task" "\<not> is_running task" "\<not> is_over task"
      "(\<exists>f t g. task = Publish_queued f t g \<and> task' = (if gen_of p f \<noteq> g then Task_done f else Publish_running f t g)) \<or>
       (\<exists>f t g. task = Withdraw_waiting f t g \<and> (task' = Task_done f \<or>
          (task' = Withdraw_running f g \<and> gen_of p f = g \<and>
           (t \<noteq> [] \<longrightarrow> (case get (dp_published p) f of None \<Rightarrow> True | Some c \<Rightarrow> c = t)))))"
proof (cases "i < length (dp_tasks p) \<and> \<not> name_locked p (task_name (dp_tasks p ! i))")
  case False
  then have "start_task i p = p" unfolding start_task_def by (simp only: if_not_P simp_thms if_False)
  then show thesis using False by (intro idle) simp_all
next
  case True
  show thesis
  proof (cases "dp_tasks p ! i")
    case (Publish_queued f t g)
    then show thesis using True
      by (intro started [of "Publish_queued f t g" "if gen_of p f \<noteq> g then Task_done f else Publish_running f t g"])
        (simp_all add: start_task_def)
  next
    case (Withdraw_waiting f t g)
    define task' where "task' = (if gen_of p f \<noteq> g then Task_done f
        else case get (dp_published p) f of
          Some current \<Rightarrow> (if t \<noteq> [] \<and> current \<noteq> t then Task_done f else Withdraw_running f g)
        | None \<Rightarrow> Withdraw_running f g)"
    then show thesis using True Withdraw_waiting
      by (intro started [of "Withdraw_waiting f t g" task']) (auto simp: start_task_def split: option.splits)
  qed (use True idle in \<open>simp_all add: start_task_def\<close>)
qed

lemma finish_cases:
  obtains
    (idle) "end_task i a s p = p"
  | (published) f t g where "i < length (dp_tasks p)" "dp_tasks p ! i = Publish_running f t g"
      "end_task i a s p = set_task i (Task_done f) (finish_publish a s f t g p)"
  | (withdrawn) f g where "i < length (dp_tasks p)" "dp_tasks p ! i = Withdraw_running f g"
      "end_task i a s p = set_task i (Task_done f) (finish_withdraw a s f g p)"
proof (cases "i < length (dp_tasks p)")
  case True
  then show thesis by (cases "dp_tasks p ! i") (use idle published withdrawn in \<open>simp_all add: end_task_def\<close>)
qed (use idle in \<open>simp add: end_task_def\<close>)

section \<open>One invocation at a time\<close>

definition serial :: "dns_publisher \<Rightarrow> bool" where
  "serial p \<longleftrightarrow> (\<forall>i j. i < length (dp_tasks p) \<longrightarrow> j < length (dp_tasks p) \<longrightarrow>
     is_running (dp_tasks p ! i) \<longrightarrow> is_running (dp_tasks p ! j) \<longrightarrow>
     task_name (dp_tasks p ! i) = task_name (dp_tasks p ! j) \<longrightarrow> i = j)"

lemma not_locked:
  "\<not> name_locked p f \<Longrightarrow> j < length (dp_tasks p) \<Longrightarrow> is_running (dp_tasks p ! j) \<Longrightarrow> task_name (dp_tasks p ! j) \<noteq> f"
  by (auto simp: name_locked_def list_ex_iff)

lemma serial_append: "serial p \<Longrightarrow> dp_tasks q = dp_tasks p \<or> (\<exists>t. \<not> is_running t \<and> dp_tasks q = dp_tasks p @ [t]) \<Longrightarrow> serial q"
  by (auto simp: serial_def nth_append less_Suc_eq split: if_splits)

lemma serial_set:
  assumes "serial p" "dp_tasks q = (dp_tasks p)[i := t]" "is_running t \<Longrightarrow> \<not> name_locked p (task_name t)"
  shows "serial q"
  unfolding serial_def
proof (intro allI impI)
  fix j k
  assume h: "j < length (dp_tasks q)" "k < length (dp_tasks q)" "is_running (dp_tasks q ! j)" "is_running (dp_tasks q ! k)"
    "task_name (dp_tasks q ! j) = task_name (dp_tasks q ! k)"
  have old: "is_running (dp_tasks p ! x) \<Longrightarrow> x \<noteq> i \<Longrightarrow> x < length (dp_tasks p) \<Longrightarrow> is_running t \<Longrightarrow> task_name (dp_tasks p ! x) \<noteq> task_name t" for x
    using not_locked [OF assms(3)] by blast
  show "j = k"
  proof (cases "j = i \<or> k = i")
    case True
    then show ?thesis using h old [of j] old [of k] by (auto simp: assms(2) nth_list_update split: if_splits)
  next
    case False
    then show ?thesis using h assms(1) by (simp add: assms(2) serial_def)
  qed
qed

lemma serial_end:
  assumes s: "serial p"
  shows "serial (end_task i a ok p)"
proof (cases rule: finish_cases [of i a ok p])
  case (published f t g)
  show ?thesis unfolding published(3) by (rule serial_set [OF s, of _ i "Task_done f"]) simp_all
next
  case (withdrawn f g)
  show ?thesis unfolding withdrawn(3) by (rule serial_set [OF s, of _ i "Task_done f"]) simp_all
qed (simp add: s)

lemma serial_step: "serial p \<Longrightarrow> serial (dns_step e p)"
proof (cases e)
  case (Ask_publish f t)
  assume "serial p"
  then show ?thesis by (rule serial_append) (simp add: Ask_publish publish_def Let_def)
next
  case (Ask_withdraw f t)
  assume "serial p"
  then show ?thesis by (rule serial_append) (simp add: Ask_withdraw withdraw_def Let_def)
next
  case (Start i)
  assume s: "serial p"
  show ?thesis
  proof (cases rule: start_cases [of i p])
    case (started task task')
    show ?thesis unfolding Start dns_step.simps started(4)
      by (rule serial_set [OF s, of _ i task']) (use started(3,5) in simp_all)
  qed (simp add: Start s)
next
  case (Finish i ok)
  assume "serial p"
  then show ?thesis by (simp add: Finish serial_end)
next
  case (Killed i)
  assume "serial p"
  then show ?thesis by (simp add: Killed serial_end)
qed

lemma serial_run: "serial p \<Longrightarrow> serial (dns_run es p)"
  unfolding dns_run_def by (induction es arbitrary: p) (simp_all add: serial_step)

lemma new_is_serial: "serial (dns_run es (new_dns_publisher records))"
  by (rule serial_run) (simp add: serial_def new_dns_publisher_def)

text \<open>The hook never runs twice at once for one name, whatever is asked and however the waiting requests are
  scheduled.\<close>

theorem hook_runs_one_at_a_time:
  "length (filter (\<lambda>t. is_running t \<and> task_name t = f) (dp_tasks (dns_run es (new_dns_publisher records)))) \<le> 1"
proof -
  note s = new_is_serial [of es records]
  let ?ts = "dp_tasks (dns_run es (new_dns_publisher records))"
  have "card {i. i < length ?ts \<and> (is_running (?ts ! i) \<and> task_name (?ts ! i) = f)} \<le> Suc 0"
    by (subst card_le_Suc0_iff_eq) (use s in \<open>simp_all add: serial_def\<close>)
  then show ?thesis by (simp add: length_filter_conv_card)
qed

section \<open>Records of others\<close>

definition untouched :: "string \<Rightarrow> string option \<Rightarrow> dns_publisher \<Rightarrow> bool" where
  "untouched f v p \<longleftrightarrow> get (dp_published p) f = None \<and> get (dp_desired p) f = None \<and> get (dp_records p) f = v \<and>
     (\<forall>t \<in> set (dp_tasks p). task_name t \<noteq> f)"

lemma in_set_update: "x \<in> set (xs[i := y]) \<Longrightarrow> x = y \<or> x \<in> set xs"
  using set_update_subset_insert by fastforce

lemma untouched_end:
  assumes "untouched f v p"
  shows "untouched f v (end_task i a s p)"
proof (cases rule: finish_cases [of i a s p])
  case (published f' t g)
  then have "f' \<noteq> f" using assms nth_mem by (fastforce simp: untouched_def)
  then show ?thesis using assms
    by (auto simp: published(3) untouched_def finish_publish_def Let_def get_put get_del dest: in_set_update)
next
  case (withdrawn f' g)
  then have "f' \<noteq> f" using assms nth_mem by (fastforce simp: untouched_def)
  then show ?thesis using assms
    by (auto simp: withdrawn(3) untouched_def finish_withdraw_def Let_def get_put get_del dest: in_set_update)
qed (use assms in simp)

lemma untouched_step:
  assumes "untouched f v p" "\<And>t. e \<noteq> Ask_publish f t"
  shows "untouched f v (dns_step e p)"
proof (cases e)
  case (Ask_publish f' t)
  then have "f' \<noteq> f" using assms(2) by blast
  then show ?thesis using assms(1) by (auto simp: Ask_publish publish_def untouched_def Let_def get_put)
next
  case (Ask_withdraw f' t)
  show ?thesis using assms(1) by (auto simp: Ask_withdraw withdraw_def untouched_def Let_def)
next
  case (Start i)
  show ?thesis
  proof (cases rule: start_cases [of i p])
    case (started task task')
    then have "task_name task' \<noteq> f" using assms(1) nth_mem by (fastforce simp: untouched_def)
    then show ?thesis using assms(1) by (auto simp: Start started(4) untouched_def dest: in_set_update)
  qed (use assms(1) in \<open>simp add: Start\<close>)
next
  case (Finish i s)
  then show ?thesis using assms(1) by (simp add: untouched_end)
next
  case (Killed i)
  then show ?thesis using assms(1) by (simp add: untouched_end)
qed

text \<open>A record this process has not published is left alone: a name never asked to be published keeps the record it
  had, whatever withdrawals are asked for it and whatever happens to other names.\<close>

theorem foreign_records_untouched:
  assumes "\<forall>t. Ask_publish f t \<notin> set es"
  shows "get (dp_records (dns_run es (new_dns_publisher records))) f = get records f"
proof -
  have "untouched f v (dns_run es p)" if "untouched f v p" "\<forall>t. Ask_publish f t \<notin> set es" for v p
    using that unfolding dns_run_def
  proof (induction es arbitrary: p)
    case (Cons e es)
    then show ?case using untouched_step [of f v p e] by auto
  qed simp
  moreover have "untouched f (get records f) (new_dns_publisher records)"
    by (simp add: untouched_def new_dns_publisher_def get_def)
  ultimately have "untouched f (get records f) (dns_run es (new_dns_publisher records))" using assms by blast
  then show ?thesis by (simp add: untouched_def)
qed

theorem foreign_records_untouched_witness:
  "get (dp_records (dns_run [Ask_withdraw ''static.ex.org'' [], Start 0, Finish 0 True]
     (new_dns_publisher [(''static.ex.org'', ''203.0.113.7'')]))) ''static.ex.org'' = Some ''203.0.113.7''"
  using foreign_records_untouched [of "''static.ex.org''" "[Ask_withdraw ''static.ex.org'' [], Start 0, Finish 0 True]"]
  by (simp add: get_def)

section \<open>Publications settle\<close>

text \<open>The targets asked for a name; a request without a target is ignored.\<close>

fun asked :: "string \<Rightarrow> dns_event list \<Rightarrow> string list" where
  "asked f [] = []"
| "asked f (Ask_publish f' t # es) = (if f' = f \<and> t \<noteq> [] then t # asked f es else asked f es)"
| "asked f (e # es) = asked f es"

definition last_asked :: "string \<Rightarrow> dns_event list \<Rightarrow> string option" where
  "last_asked f es = (if asked f es = [] then None else Some (last (asked f es)))"

lemma asked_append: "asked f (es @ ds) = asked f es @ asked f ds"
  by (induction f es rule: asked.induct) simp_all

lemma last_asked_snoc:
  "last_asked f (es @ [Ask_publish f' t]) = (if f' = f \<and> t \<noteq> [] then Some t else last_asked f es)"
  "last_asked f (es @ [Ask_withdraw f' t]) = last_asked f es"
  "last_asked f (es @ [Start i]) = last_asked f es"
  "last_asked f (es @ [Finish i s]) = last_asked f es" "last_asked f (es @ [Killed i]) = last_asked f es"
  by (simp_all add: last_asked_def asked_append)

text \<open>No request of a name is lost: the target meant is in the queue, being written, or written.\<close>

definition sound_task :: "string \<Rightarrow> dns_publisher \<Rightarrow> task \<Rightarrow> bool" where
  "sound_task f p x \<longleftrightarrow> task_name x = f \<longrightarrow> x = Task_done f \<or>
     (\<exists>t g. (x = Publish_queued f t g \<or> x = Publish_running f t g) \<and> g \<le> gen_of p f \<and>
       (g = gen_of p f \<longrightarrow> get (dp_desired p) f = Some t))"

definition in_hand :: "string \<Rightarrow> string \<Rightarrow> dns_publisher \<Rightarrow> bool" where
  "in_hand f t p \<longleftrightarrow> Publish_queued f t (gen_of p f) \<in> set (dp_tasks p) \<or> Publish_running f t (gen_of p f) \<in> set (dp_tasks p) \<or>
     (get (dp_records p) f = Some t \<and> (\<forall>x \<in> set (dp_tasks p). task_name x = f \<longrightarrow> \<not> is_running x))"

definition tracked :: "string \<Rightarrow> string option \<Rightarrow> dns_publisher \<Rightarrow> bool" where
  "tracked f d p \<longleftrightarrow> get (dp_desired p) f = d \<and> (\<forall>x \<in> set (dp_tasks p). sound_task f p x) \<and>
     (\<forall>t. d = Some t \<longrightarrow> in_hand f t p)"

lemma kept_in_update: "x \<in> set xs \<Longrightarrow> x \<noteq> xs ! i \<Longrightarrow> x \<in> set (xs[i := y])"
  by (metis in_set_conv_nth length_list_update nth_list_update_neq)

lemma gen_of_put: "gen_of (p\<lparr>dp_gen := put f g (dp_gen p)\<rparr>) f' = (if f' = f then g else gen_of p f')"
  by (simp add: gen_of_def get_put)

lemma tracked_publish: "tracked f d p \<Longrightarrow> f \<noteq> [] \<Longrightarrow> tracked f (if f' = f \<and> t \<noteq> [] then Some t else d) (publish f' t p)"
  by (cases "f' = f") (fastforce simp: tracked_def sound_task_def in_hand_def publish_def Let_def gen_of_def get_put)+

lemma tracked_withdraw: "tracked f d p \<Longrightarrow> f' \<noteq> f \<Longrightarrow> tracked f d (withdraw f' t p)"
  by (fastforce simp: tracked_def sound_task_def in_hand_def withdraw_def Let_def gen_of_def get_put)

lemma tracked_start:
  assumes "tracked f d p"
  shows "tracked f d (start_task i p)"
proof (cases rule: start_cases [of i p])
  case (started x x')
  have x: "x \<in> set (dp_tasks p)" using started(1,2) by auto
  have s: "sound_task f p x" using assms x by (simp add: tracked_def)
  have s': "sound_task f p x'"
  proof (cases "task_name x = f")
    case True
    then show ?thesis using s started(8) unfolding sound_task_def by (auto split: if_splits)
  qed (simp add: sound_task_def started(5))
  have "in_hand f t (start_task i p)" if t: "d = Some t" for t
  proof -
    have h: "in_hand f t p" and des: "get (dp_desired p) f = Some t" using assms t by (simp_all add: tracked_def)
    show ?thesis
    proof (cases "x = Publish_queued f t (gen_of p f)")
      case True
      then have "x' = Publish_running f t (gen_of p f)" using started(8) by auto
      then have "Publish_running f t (gen_of p f) \<in> set ((dp_tasks p)[i := x'])" using started(1) by (simp add: set_update_memI)
      then show ?thesis by (simp add: in_hand_def started(4))
    next
      case False
      have r: "x \<noteq> Publish_running f t (gen_of p f)" using started(6) by auto
      have q: "\<not> is_running x'" if "task_name x' = f" "task_name x = f \<Longrightarrow> x' = Task_done f"
        using that started(5) by simp
      have stale: "x' = Task_done f" if "task_name x = f"
        using that s started(6,7,8) False des by (auto simp: sound_task_def split: if_splits)
      show ?thesis using h kept_in_update [of _ "dp_tasks p" i x'] started(2) False r stale started(5)
        by (fastforce simp: in_hand_def started(4) dest: in_set_update)
    qed
  qed
  moreover have "sound_task f (start_task i p) y" if "y \<in> set (dp_tasks (start_task i p))" for y
  proof -
    have "sound_task f (start_task i p) y = sound_task f p y" by (simp add: sound_task_def started(4))
    then show ?thesis using that in_set_update [of y "dp_tasks p" i x'] s' assms by (auto simp: started(4) tracked_def)
  qed
  moreover have "get (dp_desired (start_task i p)) f = d" using assms by (simp add: tracked_def started(4))
  ultimately show ?thesis unfolding tracked_def by blast
qed (use assms in simp)

lemma tracked_finish:
  assumes "tracked f d p" "serial p"
  shows "tracked f d (finish_task i True p)"
proof (cases rule: finish_cases [of i True True p])
  case (published f' t' g)
  let ?q = "finish_task i True p"
  have frame: "get (dp_desired ?q) f = get (dp_desired p) f" "gen_of ?q f = gen_of p f"
      "dp_tasks ?q = (dp_tasks p)[i := Task_done f']" "f' \<noteq> f \<Longrightarrow> get (dp_records ?q) f = get (dp_records p) f"
      "f' = f \<Longrightarrow> get (dp_records ?q) f = Some t'"
    by (simp_all add: published(3) finish_publish_def Let_def gen_of_def get_put)
  have sound: "\<forall>x \<in> set (dp_tasks ?q). sound_task f ?q x"
    using assms(1) unfolding frame(3) by (auto simp: tracked_def sound_task_def frame(1,2) dest!: in_set_update)
  have "in_hand f t ?q" if t: "d = Some t" for t
  proof -
    have h: "in_hand f t p" using assms(1) t by (simp add: tracked_def)
    show ?thesis
    proof (cases "f' = f")
      case False
      then show ?thesis using h kept_in_update [of _ "dp_tasks p" i "Task_done f'"] published(2)
        by (fastforce simp: in_hand_def frame dest: in_set_update)
    next
      case True
      have alone: "x = Publish_running f t' g" if x: "x \<in> set (dp_tasks p)" "task_name x = f" "is_running x" for x
      proof -
        obtain j where j: "j < length (dp_tasks p)" "dp_tasks p ! j = x" using x(1) by (auto simp: in_set_conv_nth)
        have "j = i" using assms(2) j published(1,2) x(2,3) True by (simp add: serial_def)
        then show ?thesis using j(2) published(2) True by simp
      qed
      have here: "Publish_running f t' g \<in> set (dp_tasks p)" using published(1,2) True nth_mem by fastforce
      have over: "\<not> is_running x" if x: "x \<in> set (dp_tasks ?q)" "task_name x = f" for x
      proof -
        obtain j where j: "j < length (dp_tasks p)" "dp_tasks ?q ! j = x"
          using x(1) unfolding frame(3) in_set_conv_nth length_list_update by blast
        show ?thesis
        proof (cases "j = i")
          case False
          then have "dp_tasks p ! j = x" using j by (simp add: frame(3))
          then show ?thesis using assms(2) j(1) False published(1,2) x(2) True by (auto simp: serial_def)
        qed (use j published(1) in \<open>auto simp: frame(3)\<close>)
      qed
      from h consider "Publish_queued f t (gen_of p f) \<in> set (dp_tasks p)" | "Publish_running f t (gen_of p f) \<in> set (dp_tasks p)"
        using here by (force simp: in_hand_def)
      then show ?thesis
      proof cases
        case 1
        then have "Publish_queued f t (gen_of p f) \<in> set (dp_tasks ?q)"
          using kept_in_update [of _ "dp_tasks p" i] published(2) by (simp add: frame(3))
        then show ?thesis by (simp add: in_hand_def frame(2))
      next
        case 2
        then have "t' = t" using alone by fastforce
        then show ?thesis using over frame(5) [OF True] by (simp add: in_hand_def)
      qed
    qed
  qed
  then show ?thesis using assms(1) sound by (simp add: tracked_def frame(1))
next
  case (withdrawn f' g)
  have "sound_task f p (Withdraw_running f' g)" using assms(1) withdrawn(1,2) nth_mem by (fastforce simp: tracked_def)
  then have f: "f' \<noteq> f" by (auto simp: sound_task_def)
  let ?q = "finish_task i True p"
  have frame: "get (dp_desired ?q) f = get (dp_desired p) f" "gen_of ?q f = gen_of p f"
      "dp_tasks ?q = (dp_tasks p)[i := Task_done f']" "get (dp_records ?q) f = get (dp_records p) f"
    using f by (simp_all add: withdrawn(3) finish_withdraw_def Let_def gen_of_def get_del)
  have "in_hand f t p \<Longrightarrow> in_hand f t ?q" for t
    using kept_in_update [of _ "dp_tasks p" i "Task_done f'"] withdrawn(2)
    by (fastforce simp: in_hand_def frame dest: in_set_update)
  then show ?thesis using assms(1) f
    by (auto simp: tracked_def sound_task_def frame dest!: in_set_update)
qed (use assms in simp)

lemma tracked_run:
  assumes "f \<noteq> []" "\<forall>t. Ask_withdraw f t \<notin> set es" "\<forall>i. Finish i False \<notin> set es \<and> Killed i \<notin> set es"
  shows "tracked f (last_asked f es) (dns_run es (new_dns_publisher records))"
  using assms
proof (induction es rule: rev_induct)
  case Nil
  then show ?case by (simp add: dns_run_def tracked_def new_dns_publisher_def last_asked_def get_def)
next
  case (snoc e es)
  let ?p = "dns_run es (new_dns_publisher records)"
  have p: "tracked f (last_asked f es) ?p" using snoc by simp
  have "tracked f (last_asked f (es @ [e])) (dns_step e ?p)"
  proof (cases e)
    case (Ask_withdraw f' t)
    then show ?thesis using tracked_withdraw [OF p] snoc.prems(2) by (auto simp: last_asked_snoc)
  next
    case (Finish i s)
    then have "s" using snoc.prems(3) by (cases s) auto
    then show ?thesis using tracked_finish [OF p new_is_serial] by (simp add: Finish last_asked_snoc)
  next
    case (Killed i)
    then show ?thesis using snoc.prems(3) by auto
  qed (use tracked_publish [OF p snoc.prems(1)] tracked_start [OF p] in \<open>simp_all add: last_asked_snoc\<close>)
  then show ?case by (simp add: dns_run_def)
qed

definition settled :: "string \<Rightarrow> dns_publisher \<Rightarrow> bool" where
  "settled f p \<longleftrightarrow> list_all (\<lambda>t. task_name t = f \<longrightarrow> is_over t) (dp_tasks p)"

text \<open>C29: Requests to move a name, as long as none of the events withdraws that name and no invocation of the hook
  fails or is killed, are not lost or reordered: however the invocations interleave, once the work on the name is over
  its record is the target that was asked for last, and the next request for that target calls nobody. Both
  suppositions are needed: a withdrawal can take the record of the move asked for last, as \<open>reconnect_is_withdrawn\<close>
  and \<open>late_withdrawal_overtakes_publish\<close> show below, and a move
  whose invocation fails is tried again only when it is asked for again.\<close>

theorem publications_settle:
  assumes "f \<noteq> []" "\<forall>t. Ask_withdraw f t \<notin> set es" "\<forall>i. Finish i False \<notin> set es \<and> Killed i \<notin> set es"
    and "settled f (dns_run es (new_dns_publisher records))" "last_asked f es = Some target"
  shows "get (dp_records (dns_run es (new_dns_publisher records))) f = Some target \<and>
         publish f target (dns_run es (new_dns_publisher records)) = dns_run es (new_dns_publisher records)"
proof -
  have "tracked f (Some target) (dns_run es (new_dns_publisher records))" using tracked_run [OF assms(1,2,3), of records] assms(5) by simp
  then show ?thesis using assms(4) by (fastforce simp: tracked_def in_hand_def settled_def list_all_iff publish_def)
qed

definition moving_twice :: "dns_event list" where
  "moving_twice = [Ask_publish ''t.ex.org'' ''e1'', Start 0, Ask_publish ''t.ex.org'' ''e2'', Finish 0 True,
     Ask_publish ''t.ex.org'' ''e3'', Start 2, Start 1, Finish 2 True, Start 1]"

theorem publications_settle_witness:
  "get (dp_records (dns_run moving_twice (new_dns_publisher []))) ''t.ex.org'' = Some ''e3''"
proof -
  have "settled ''t.ex.org'' (dns_run moving_twice (new_dns_publisher []))" by code_simp
  moreover have "last_asked ''t.ex.org'' moving_twice = Some ''e3''" by code_simp
  ultimately show ?thesis
    by (intro publications_settle [of "''t.ex.org''" moving_twice, THEN conjunct1]) (simp_all add: moving_twice_def)
qed

section \<open>The backlog drains\<close>

fun work :: "task \<Rightarrow> nat" where
  "work (Publish_queued f t g) = 2"
| "work (Withdraw_waiting f t g) = 2"
| "work (Task_done f) = 0"
| "work _ = 1"

definition backlog :: "dns_publisher \<Rightarrow> nat" where
  "backlog p = sum_list (map work (dp_tasks p))"

lemma backlog_update:
  "i < length xs \<Longrightarrow> work y < work (xs ! i) \<Longrightarrow> sum_list (map work (xs[i := y])) < sum_list (map work xs)"
proof (induction xs arbitrary: i)
  case (Cons x xs)
  then show ?case by (cases i) simp_all
qed simp

lemma has_work: "0 < sum_list (map work xs) \<Longrightarrow> \<exists>x \<in> set xs. 0 < work x"
  by (induction xs) auto

lemma waiting_work: "\<not> is_running x \<Longrightarrow> \<not> is_over x \<Longrightarrow> work x = 2"
  by (cases x) simp_all

lemma some_step_makes_progress:
  assumes "0 < backlog p"
  obtains i where "backlog (start_task i p) < backlog p" | i where "backlog (finish_task i True p) < backlog p"
proof -
  note goal = that
  obtain x where x: "x \<in> set (dp_tasks p)" "0 < work x"
    using assms has_work by (auto simp: backlog_def)
  then obtain i where i: "i < length (dp_tasks p)" "dp_tasks p ! i = x" by (auto simp: in_set_conv_nth)
  have running: thesis if j: "j < length (dp_tasks p)" "is_running (dp_tasks p ! j)" for j
  proof (rule goal(2))
    show "backlog (finish_task j True p) < backlog p"
      using j backlog_update [OF j(1), of "Task_done (task_name (dp_tasks p ! j))"]
      by (cases "dp_tasks p ! j") (simp_all add: end_task_def backlog_def)
  qed
  show thesis
  proof (cases "name_locked p (task_name x)")
    case True
    then show thesis using running by (auto simp: name_locked_def list_ex_iff in_set_conv_nth)
  next
    case False
    show thesis
    proof (cases "is_running x")
      case False
      then have w: "x \<noteq> Task_done g" "work x = 2" for g using x(2) waiting_work [of x] by (cases x; simp)+
      show thesis
      proof (rule goal(1) [of i], cases rule: start_cases [of i p])
        case idle
        then show "backlog (start_task i p) < backlog p"
          using i x(2) \<open>\<not> name_locked p (task_name x)\<close> False by (cases x) simp_all
      next
        case (started y y')
        have "work y' < 2" using started(8) by auto
        then show "backlog (start_task i p) < backlog p"
          using backlog_update [OF i(1), of y'] w i(2) by (simp add: started(4) backlog_def)
      qed
    qed (use running i in simp)
  qed
qed

text \<open>The work of the publisher always ends: whatever has been asked, some order of starts and successful
  invocations, at most two for every request still open, leaves nothing waiting and nothing running.\<close>

theorem hook_backlog_drains:
  "\<exists>es. length es \<le> backlog p \<and> list_all (\<lambda>e. case e of Start _ \<Rightarrow> True | Finish _ ok \<Rightarrow> ok | _ \<Rightarrow> False) es \<and>
     list_all is_over (dp_tasks (dns_run es p))"
proof (induction "backlog p" arbitrary: p rule: less_induct)
  case less
  show ?case
  proof (cases "backlog p = 0")
    case True
    have "work x = 0 \<Longrightarrow> is_over x" for x by (cases x) simp_all
    then show ?thesis using True by (intro exI [of _ "[]"]) (simp add: backlog_def dns_run_def list_all_iff)
  next
    case False
    have step: ?thesis if "backlog (dns_step e p) < backlog p" "case e of Start _ \<Rightarrow> True | Finish _ ok \<Rightarrow> ok | _ \<Rightarrow> False" for e
    proof -
      from less.hyps [OF that(1)] obtain es where es: "length es \<le> backlog (dns_step e p) \<and>
          list_all (\<lambda>e. case e of Start _ \<Rightarrow> True | Finish _ ok \<Rightarrow> ok | _ \<Rightarrow> False) es \<and>
          list_all is_over (dp_tasks (dns_run es (dns_step e p)))" ..
      show ?thesis by (rule exI [of _ "e # es"]) (use that es in \<open>simp add: dns_run_def\<close>)
    qed
    from False have "0 < backlog p" by simp
    then show ?thesis
    proof (cases rule: some_step_makes_progress)
      case (1 i)
      then show ?thesis using step [of "Start i"] by simp
    next
      case (2 i)
      then show ?thesis using step [of "Finish i True"] by simp
    qed
  qed
qed

section \<open>Moves and reconnections\<close>

text \<open>A name at rest: published, meant to be there, nothing open.\<close>

definition at_rest :: "string \<Rightarrow> string \<Rightarrow> dns_publisher \<Rightarrow> bool" where
  "at_rest f t p \<longleftrightarrow> get (dp_published p) f = Some t \<and> get (dp_desired p) f = Some t \<and> get (dp_records p) f = Some t \<and>
     (\<forall>x \<in> set (dp_tasks p). task_name x = f \<longrightarrow> is_over x)"

lemma unlocked_when_over: "\<forall>x \<in> set (dp_tasks p). task_name x = f \<longrightarrow> is_over x \<Longrightarrow> \<not> name_locked p f"
  unfolding name_locked_def list_ex_iff by (metis is_over.elims(2) is_running.simps(5))

text \<open>A gateway that gives up a name after another gateway has confirmed it deletes nothing: its withdrawal, when
  its grace is over, abandons itself and the record stays where the move put it.\<close>

theorem confirmed_move_survives_late_withdrawal:
  assumes "at_rest f new p" "f \<noteq> []" "old \<noteq> []" "old \<noteq> new"
  shows "at_rest f new (dns_run [Ask_withdraw f old, Start (length (dp_tasks p)), Finish (length (dp_tasks p)) True] p)"
  using assms unlocked_when_over [of p f]
  by (simp add: dns_run_def withdraw_def Let_def start_task_def end_task_def at_rest_def name_locked_def gen_of_def get_put
      set_task_def ball_Un)

definition resting_name :: "string \<Rightarrow> dns_publisher" where
  "resting_name t = dns_run [Ask_publish ''t.ex.org'' t, Start 0, Finish 0 True] (new_dns_publisher [])"

lemma resting_name_rests: "at_rest ''t.ex.org'' ''e2'' (resting_name ''e2'') \<and> length (dp_tasks (resting_name ''e2'')) = 1"
  unfolding at_rest_def resting_name_def by code_simp

theorem confirmed_move_survives_late_withdrawal_witness:
  "at_rest ''t.ex.org'' ''e2'' (dns_run [Ask_withdraw ''t.ex.org'' ''e1'', Start 1, Finish 1 True] (resting_name ''e2''))"
  using confirmed_move_survives_late_withdrawal [of "''t.ex.org''" "''e2''" "resting_name ''e2''" "''e1''"] resting_name_rests
  by (simp del: One_nat_def)

text \<open>A client that drops and reconnects to the same gateway within the grace period loses its name: the
  request to publish it again is taken for a repetition and does not make the withdrawal that is waiting stale, so
  the record of the live tunnel is deleted when the grace ends.\<close>

theorem reconnect_is_withdrawn:
  assumes "at_rest f t p" "f \<noteq> []" "t \<noteq> []"
  shows "get (dp_records (dns_run [Ask_withdraw f t, Ask_publish f t, Start (length (dp_tasks p)),
           Finish (length (dp_tasks p)) True] p)) f = None"
  using assms unlocked_when_over [of p f]
  by (simp add: dns_run_def withdraw_def publish_def Let_def start_task_def end_task_def finish_withdraw_def at_rest_def
      name_locked_def gen_of_def get_put get_del set_task_def)

theorem reconnect_is_withdrawn_witness:
  "get (dp_records (dns_run [Ask_withdraw ''t.ex.org'' ''e2'', Ask_publish ''t.ex.org'' ''e2'', Start 1, Finish 1 True]
     (resting_name ''e2''))) ''t.ex.org'' = None"
  using reconnect_is_withdrawn [of "''t.ex.org''" "''e2''" "resting_name ''e2''"] resting_name_rests
  by (simp del: One_nat_def)

text \<open>In a move whose new target is not yet confirmed when the old gateway gives the name up, the withdrawal of
  the old gateway wins: it makes the publication that is queued stale, and deletes the record when its grace is over.\<close>

theorem late_withdrawal_overtakes_publish:
  assumes "at_rest f old p" "f \<noteq> []" "old \<noteq> []" "new \<noteq> []" "old \<noteq> new" "n = length (dp_tasks p)"
  shows "get (dp_records (dns_run [Ask_publish f new, Ask_withdraw f old, Start n, Start (n + 1), Finish (n + 1) True] p)) f = None"
  using assms unlocked_when_over [of p f]
  by (simp add: dns_run_def withdraw_def publish_def Let_def start_task_def end_task_def finish_withdraw_def at_rest_def
      name_locked_def gen_of_def get_put get_del set_task_def nth_append)

theorem late_withdrawal_overtakes_publish_witness:
  "get (dp_records (dns_run [Ask_publish ''t.ex.org'' ''e3'', Ask_withdraw ''t.ex.org'' ''e2'', Start 1, Start 2, Finish 2 True]
     (resting_name ''e2''))) ''t.ex.org'' = None"
  using late_withdrawal_overtakes_publish [of "''t.ex.org''" "''e2''" "resting_name ''e2''" "''e3''" 1] resting_name_rests
  by (simp del: One_nat_def)

text \<open>A withdrawal that is killed after it has deleted the record is taken for one that failed: the publisher goes on
  counting the name as published, so the request to publish it again calls nobody, and the name stays gone.\<close>

theorem killed_withdrawal_keeps_name_away:
  assumes "at_rest f t p" "f \<noteq> []" "t \<noteq> []"
  shows "get (dp_records (dns_run [Ask_withdraw f t, Start (length (dp_tasks p)), Killed (length (dp_tasks p)),
           Ask_publish f t] p)) f = None"
  using assms unlocked_when_over [of p f]
  by (simp add: dns_run_def withdraw_def publish_def Let_def start_task_def end_task_def finish_withdraw_def at_rest_def
      name_locked_def gen_of_def get_put get_del set_task_def)

theorem killed_withdrawal_keeps_name_away_witness:
  "get (dp_records (dns_run [Ask_withdraw ''t.ex.org'' ''e2'', Start 1, Killed 1, Ask_publish ''t.ex.org'' ''e2'']
     (resting_name ''e2''))) ''t.ex.org'' = None"
  using killed_withdrawal_keeps_name_away [of "''t.ex.org''" "''e2''" "resting_name ''e2''"] resting_name_rests
  by (simp del: One_nat_def)

end
