(* ===== verification/Portal_Sessions.thy ===== *)
theory Portal_Sessions
  imports Prelude
begin

text \<open>
  Sessions of the portal: the rows of \<open>pkg/db/portal_session.go\<close>, the cache in front of them
  (\<open>pkg/server/portal_session_store.go\<close>), and their life, which slides on use up to a cap
  (\<open>pkg/server/session_cookie.go\<close>).

  A row is keyed by a digest of the cookie's value. SQLite compares the stored text of an expiry with the
  text of the current second, so a row is alive up to the end of the second it expires in. Whether a
  statement fails is an input.
\<close>

section \<open>Rows\<close>

text \<open>\<open>ps_createdAt\<close> is \<open>None\<close> for the zero time of a session stored before it was recorded.\<close>

record portal_session =
  ps_email :: string
  ps_expiresAt :: time
  ps_clientIP :: string
  ps_previousLoginAt :: "time option"
  ps_killedPrevious :: bool
  ps_viewAsRole :: string
  ps_sameSite :: string
  ps_createdAt :: "time option"

type_synonym session_rows = "(string, portal_session) table"

definition upsert_portal_session :: "time \<Rightarrow> string \<Rightarrow> portal_session \<Rightarrow> session_rows \<Rightarrow> session_rows" where
  "upsert_portal_session now key d rows =
     (let fresh = d\<lparr>ps_createdAt := Some (case ps_createdAt d of None \<Rightarrow> now | Some c \<Rightarrow> c)\<rparr>
      in case get rows key of
           None \<Rightarrow> put key fresh rows
         | Some old \<Rightarrow>
             put key (d\<lparr>ps_createdAt := ps_createdAt old,
                        ps_sameSite := (if ps_sameSite d = [] then ps_sameSite old else ps_sameSite d)\<rparr>) rows)"

definition row_alive :: "time \<Rightarrow> portal_session \<Rightarrow> bool" where
  "row_alive now d \<longleftrightarrow> unix now \<le> unix (ps_expiresAt d)"

definition get_portal_session :: "time \<Rightarrow> string \<Rightarrow> session_rows \<Rightarrow> portal_session option" where
  "get_portal_session now key rows =
     (case get rows key of None \<Rightarrow> None | Some d \<Rightarrow> if row_alive now d then Some d else None)"

definition delete_portal_session_row :: "string \<Rightarrow> session_rows \<Rightarrow> session_rows" where
  "delete_portal_session_row key rows = del key rows"

definition delete_portal_sessions_for_email :: "string \<Rightarrow> session_rows \<Rightarrow> nat \<times> session_rows" where
  "delete_portal_sessions_for_email email rows =
     (length (filter (\<lambda>(k, d). ps_email d = email) rows), filter (\<lambda>(k, d). ps_email d \<noteq> email) rows)"

definition count_active_portal_sessions :: "time \<Rightarrow> session_rows \<Rightarrow> nat" where
  "count_active_portal_sessions now rows = length (filter (\<lambda>(k, d). row_alive now d) rows)"

definition prune_portal_sessions :: "time \<Rightarrow> session_rows \<Rightarrow> session_rows" where
  "prune_portal_sessions now rows = filter (\<lambda>(k, d). row_alive now d) rows"

section \<open>The store\<close>

record session_store =
  st_cache :: "(string, portal_session) table"
  st_rows :: session_rows

record session_faults =
  sf_read :: bool
  sf_write :: bool
  sf_delete :: bool
  sf_kill :: bool

definition no_session_faults :: session_faults where
  "no_session_faults = \<lparr>sf_read = False, sf_write = False, sf_delete = False, sf_kill = False\<rparr>"

definition drop_session_row :: "(string \<Rightarrow> string) \<Rightarrow> session_faults \<Rightarrow> string \<Rightarrow> session_store \<Rightarrow> session_store" where
  "drop_session_row digest f token s =
     (if sf_delete f then s else s\<lparr>st_rows := delete_portal_session_row (digest token) (st_rows s)\<rparr>)"

definition load_portal_session ::
  "(string \<Rightarrow> string) \<Rightarrow> session_faults \<Rightarrow> time \<Rightarrow> string \<Rightarrow> session_store \<Rightarrow> portal_session option \<times> session_store" where
  "load_portal_session digest f now token s =
     (if token = [] then (None, s)
      else case get (st_cache s) token of
        Some d \<Rightarrow>
          (if now < ps_expiresAt d then (Some d, s)
           else (None, drop_session_row digest f token (s\<lparr>st_cache := del token (st_cache s)\<rparr>)))
      | None \<Rightarrow>
          (if sf_read f then (None, s)
           else case get_portal_session now (digest token) (st_rows s) of
             None \<Rightarrow> (None, s)
           | Some d \<Rightarrow> (Some d, s\<lparr>st_cache := put token d (st_cache s)\<rparr>)))"

definition store_portal_session ::
  "(string \<Rightarrow> string) \<Rightarrow> session_faults \<Rightarrow> time \<Rightarrow> string \<Rightarrow> portal_session \<Rightarrow> session_store \<Rightarrow> session_store" where
  "store_portal_session digest f now token d s =
     (if token = [] then s
      else (let s1 = s\<lparr>st_cache := put token d (st_cache s)\<rparr>
            in if sf_write f then s1
               else s1\<lparr>st_rows := upsert_portal_session now (digest token) d (st_rows s1)\<rparr>))"

definition delete_portal_session ::
  "(string \<Rightarrow> string) \<Rightarrow> session_faults \<Rightarrow> string \<Rightarrow> session_store \<Rightarrow> session_store" where
  "delete_portal_session digest f token s =
     (if token = [] then s else drop_session_row digest f token (s\<lparr>st_cache := del token (st_cache s)\<rparr>))"

text \<open>Whether anything was ended is told to the session that takes over.\<close>

definition kill_portal_sessions_for :: "session_faults \<Rightarrow> string \<Rightarrow> session_store \<Rightarrow> bool \<times> session_store" where
  "kill_portal_sessions_for f email s =
     (let cached = filter (\<lambda>(k, d). ps_email d = email) (st_cache s);
          s1 = s\<lparr>st_cache := filter (\<lambda>(k, d). ps_email d \<noteq> email) (st_cache s)\<rparr>
      in if sf_kill f then (cached \<noteq> [], s1)
         else case delete_portal_sessions_for_email email (st_rows s1) of
           (n, rows) \<Rightarrow> (cached \<noteq> [] \<or> 0 < n, s1\<lparr>st_rows := rows\<rparr>))"

text \<open>A restart loses the cache, the cleanup routine drops rows that are over.\<close>

definition restart_store :: "session_store \<Rightarrow> session_store" where
  "restart_store s = s\<lparr>st_cache := []\<rparr>"

definition prune_store :: "time \<Rightarrow> session_store \<Rightarrow> session_store" where
  "prune_store now s = s\<lparr>st_rows := prune_portal_sessions now (st_rows s)\<rparr>"

section \<open>The cookie and its life\<close>

record session_config =
  sc_duration :: duration
  sc_maxLifetime :: duration

definition session_deadline :: "session_config \<Rightarrow> portal_session \<Rightarrow> time" where
  "session_deadline cfg d =
     (case ps_createdAt d of
        None \<Rightarrow> ps_expiresAt d
      | Some c \<Rightarrow>
          (if sc_maxLifetime cfg \<le> 0 then ps_expiresAt d
           else if c + sc_maxLifetime cfg < ps_expiresAt d then c + sc_maxLifetime cfg
           else ps_expiresAt d))"

definition same_site_known :: "string \<Rightarrow> bool" where
  "same_site_known stored \<longleftrightarrow> stored \<in> {''Strict'', ''Lax'', ''None''}"

definition cookie_secure :: "bool \<Rightarrow> string \<Rightarrow> bool" where
  "cookie_secure tls forwardedProto \<longleftrightarrow> tls \<or> forwardedProto = ''https''"

record session_cookie =
  co_value :: string
  co_expires :: time
  co_secure :: bool
  co_sameSite :: string

definition new_session_cookie :: "bool \<Rightarrow> string \<Rightarrow> string \<Rightarrow> string \<Rightarrow> time \<Rightarrow> session_cookie" where
  "new_session_cookie tls forwardedProto token mode expires =
     \<lparr>co_value = token, co_expires = expires, co_secure = cookie_secure tls forwardedProto, co_sameSite = mode\<rparr>"

definition clear_session_cookie :: "bool \<Rightarrow> string \<Rightarrow> session_cookie" where
  "clear_session_cookie tls forwardedProto =
     \<lparr>co_value = [], co_expires = 0, co_secure = cookie_secure tls forwardedProto, co_sameSite = ''Lax''\<rparr>"

definition refresh_window :: int where "refresh_window = 4"

text \<open>Whether a session is extended, and to when. Go divides toward zero.\<close>

definition slide_to :: "session_config \<Rightarrow> time \<Rightarrow> portal_session \<Rightarrow> time option" where
  "slide_to cfg now d =
     (if \<not> same_site_known (ps_sameSite d) then None
      else if sc_duration cfg - quot (sc_duration cfg) refresh_window < ps_expiresAt d - now then None
      else
        (let extended = session_deadline cfg (d\<lparr>ps_expiresAt := now + sc_duration cfg\<rparr>)
         in if extended \<le> ps_expiresAt d then None else Some extended))"

text \<open>A request that a timer made does not extend; \<open>cookie\<close> is the value sent, empty for none.\<close>

definition slide_portal_session ::
  "(string \<Rightarrow> string) \<Rightarrow> session_faults \<Rightarrow> session_config \<Rightarrow> time \<Rightarrow> bool \<Rightarrow> string \<Rightarrow> bool \<Rightarrow> string \<Rightarrow> session_store
   \<Rightarrow> session_cookie option \<times> session_store" where
  "slide_portal_session digest f cfg now tls forwardedProto background cookie s =
     (if background \<or> cookie = [] then (None, s)
      else case load_portal_session digest f now cookie s of
        (None, s1) \<Rightarrow> (None, s1)
      | (Some d, s1) \<Rightarrow>
          (case slide_to cfg now d of
             None \<Rightarrow> (None, s1)
           | Some e \<Rightarrow> (Some (new_session_cookie tls forwardedProto cookie (ps_sameSite d) e),
                        store_portal_session digest f now cookie (d\<lparr>ps_expiresAt := e\<rparr>) s1)))"

section \<open>Histories\<close>

datatype session_op =
    Load time string
  | Store time string portal_session
  | Logout string
  | Takeover string
  | Slide time bool string
  | Prune_rows time
  | Restart

fun session_step :: "(string \<Rightarrow> string) \<Rightarrow> session_config \<Rightarrow> session_op \<Rightarrow> session_store \<Rightarrow> session_store" where
  "session_step digest cfg (Load now token) s = snd (load_portal_session digest no_session_faults now token s)"
| "session_step digest cfg (Store now token d) s = store_portal_session digest no_session_faults now token d s"
| "session_step digest cfg (Logout token) s = delete_portal_session digest no_session_faults token s"
| "session_step digest cfg (Takeover email) s = snd (kill_portal_sessions_for no_session_faults email s)"
| "session_step digest cfg (Slide now background token) s =
     snd (slide_portal_session digest no_session_faults cfg now True [] background token s)"
| "session_step digest cfg (Prune_rows now) s = prune_store now s"
| "session_step digest cfg Restart s = restart_store s"

definition session_run :: "(string \<Rightarrow> string) \<Rightarrow> session_config \<Rightarrow> session_op list \<Rightarrow> session_store \<Rightarrow> session_store" where
  "session_run digest cfg ops s = fold (session_step digest cfg) ops s"

end
