(* ===== verification/Portal_Sessions_Facts.thy ===== *)
theory Portal_Sessions_Facts
  imports Portal_Sessions
begin

text \<open>
  A session is what was last stored under its cookie, until a logout, a takeover or its expiry, and a restart
  of the gateway changes nothing about it; its life is bounded by the cap; and what a failed statement leaves.
\<close>

section \<open>Who is signed in\<close>

text \<open>All of a session but what a refresh of the row may keep from the older row.\<close>

definition session_face :: "portal_session \<Rightarrow> portal_session" where
  "session_face d = d\<lparr>ps_createdAt := None, ps_sameSite := []\<rparr>"

lemma session_face_keeps [simp]:
  "session_face (d\<lparr>ps_createdAt := c\<rparr>) = session_face d" "session_face (d\<lparr>ps_sameSite := m\<rparr>) = session_face d"
  "session_face (d\<lparr>ps_createdAt := c, ps_sameSite := m\<rparr>) = session_face d"
  by (simp_all add: session_face_def)

lemma session_face_fields [simp]:
  "ps_expiresAt (session_face d) = ps_expiresAt d" "ps_email (session_face d) = ps_email d"
  "row_alive now (session_face d) = row_alive now d"
  by (simp_all add: session_face_def row_alive_def)

text \<open>The specification: no cache, no rows, no restarts.\<close>

fun signed_in_step :: "session_op \<Rightarrow> (string \<Rightarrow> portal_session option) \<Rightarrow> string \<Rightarrow> portal_session option" where
  "signed_in_step (Store now token d) a = (if token = [] then a else a(token \<mapsto> d))"
| "signed_in_step (Logout token) a = (if token = [] then a else a(token := None))"
| "signed_in_step (Takeover email) a =
     (\<lambda>t. case a t of None \<Rightarrow> None | Some d \<Rightarrow> if ps_email d = email then None else Some d)"
| "signed_in_step _ a = a"

definition signed_in :: "session_op list \<Rightarrow> string \<Rightarrow> portal_session option" where
  "signed_in ops = fold signed_in_step ops (\<lambda>_. None)"

fun op_times :: "session_op list \<Rightarrow> time list" where
  "op_times [] = []"
| "op_times (Load t _ # ops) = t # op_times ops"
| "op_times (Store t _ _ # ops) = t # op_times ops"
| "op_times (Slide t _ _ # ops) = t # op_times ops"
| "op_times (Prune_rows t # ops) = t # op_times ops"
| "op_times (_ # ops) = op_times ops"

fun is_slide :: "session_op \<Rightarrow> bool" where
  "is_slide (Slide t b c) = True"
| "is_slide _ = False"

text \<open>Keeping the sessions of a condition that reads only the face commutes with taking faces.\<close>

definition keep :: "(portal_session \<Rightarrow> bool) \<Rightarrow> portal_session option \<Rightarrow> portal_session option" where
  "keep P x = (case x of None \<Rightarrow> None | Some d \<Rightarrow> if P d then Some d else None)"

lemma keep_Some [simp]: "keep P x = Some d \<longleftrightarrow> x = Some d \<and> P d"
  by (auto simp: keep_def split: option.splits if_splits)

lemma keep_None [simp]: "keep P None = None"
  by (simp add: keep_def)

lemma map_keep: "(\<And>d. P (session_face d) = P d) \<Longrightarrow> map_option session_face (keep P x) = keep P (map_option session_face x)"
  by (simp add: keep_def split: option.split)

definition cache_face :: "session_store \<Rightarrow> string \<Rightarrow> portal_session option" where
  "cache_face s t = map_option session_face (get (st_cache s) t)"

definition row_face :: "(string \<Rightarrow> string) \<Rightarrow> session_store \<Rightarrow> string \<Rightarrow> portal_session option" where
  "row_face digest s t = map_option session_face (get (st_rows s) (digest t))"

definition spec_face :: "(string \<Rightarrow> portal_session option) \<Rightarrow> string \<Rightarrow> portal_session option" where
  "spec_face a t = map_option session_face (a t)"

text \<open>The two layers against the specification, at a time: nothing is in them that is not signed in, and a
  session that is not over has its row.\<close>

definition layers ::
  "time \<Rightarrow> (string \<Rightarrow> portal_session option) \<Rightarrow> (string \<Rightarrow> portal_session option) \<Rightarrow> (string \<Rightarrow> portal_session option) \<Rightarrow> bool" where
  "layers now c r a \<longleftrightarrow> c [] = None \<and> a [] = None \<and> (\<forall>t x. c t = Some x \<longrightarrow> a t = Some x) \<and>
     (\<forall>t x. t \<noteq> [] \<longrightarrow> r t = Some x \<longrightarrow> a t = Some x) \<and> (\<forall>t x. a t = Some x \<longrightarrow> now < ps_expiresAt x \<longrightarrow> r t = Some x)"

definition agrees :: "time \<Rightarrow> (string \<Rightarrow> string) \<Rightarrow> session_store \<Rightarrow> (string \<Rightarrow> portal_session option) \<Rightarrow> bool" where
  "agrees now digest s a \<longleftrightarrow> is_table (st_cache s) \<and> is_table (st_rows s) \<and>
     layers now (cache_face s) (row_face digest s) (spec_face a)"

lemma agreesI:
  "is_table (st_cache s) \<Longrightarrow> is_table (st_rows s) \<Longrightarrow> cache_face s = c \<Longrightarrow> row_face digest s = r \<Longrightarrow> spec_face a = b \<Longrightarrow>
   layers now c r b \<Longrightarrow> agrees now digest s a"
  by (simp add: agrees_def)

lemma agreesD:
  assumes "agrees now digest s a"
  shows "is_table (st_cache s)" "is_table (st_rows s)" "layers now (cache_face s) (row_face digest s) (spec_face a)"
  using assms by (simp_all add: agrees_def)

lemma layersI:
  assumes "c [] = None" "a [] = None" "\<And>t x. c t = Some x \<Longrightarrow> a t = Some x"
    "\<And>t x. t \<noteq> [] \<Longrightarrow> r t = Some x \<Longrightarrow> a t = Some x"
    "\<And>t x. a t = Some x \<Longrightarrow> now < ps_expiresAt x \<Longrightarrow> r t = Some x"
  shows "layers now c r a"
  using assms unfolding layers_def by blast

lemma layersD:
  assumes "layers now c r a"
  shows "c [] = None" "a [] = None" "\<And>t x. c t = Some x \<Longrightarrow> a t = Some x"
    "\<And>t x. t \<noteq> [] \<Longrightarrow> r t = Some x \<Longrightarrow> a t = Some x"
    "\<And>t x. a t = Some x \<Longrightarrow> now < ps_expiresAt x \<Longrightarrow> r t = Some x"
  using assms unfolding layers_def by blast+

lemma layers_later: "layers now c r a \<Longrightarrow> now \<le> later \<Longrightarrow> layers later c r a"
  by (rule layersI) (auto dest: layersD)

lemma agrees_later: "agrees now digest s a \<Longrightarrow> now \<le> later \<Longrightarrow> agrees later digest s a"
  unfolding agrees_def using layers_later by blast

lemma layers_store: "layers now c r a \<Longrightarrow> t \<noteq> [] \<Longrightarrow> layers now (c(t \<mapsto> x)) (r(t \<mapsto> x)) (a(t \<mapsto> x))"
  by (rule layersI) (auto dest: layersD split: if_splits)

lemma layers_cached: "layers now c r a \<Longrightarrow> t \<noteq> [] \<Longrightarrow> r t = Some x \<Longrightarrow> layers now (c(t \<mapsto> x)) r a"
  by (rule layersI) (auto dest: layersD split: if_splits)

lemma layers_drop: "layers now c r a \<Longrightarrow> layers now (c(t := None)) (r(t := None)) (a(t := None))"
  by (rule layersI) (auto dest: layersD split: if_splits)

lemma layers_expired:
  assumes "layers now c r a" "c t = Some x" "\<not> now < ps_expiresAt x"
  shows "layers now (c(t := None)) (r(t := None)) a"
proof -
  have over: "t' \<noteq> t" if "a t' = Some y" "now < ps_expiresAt y" for t' y
    using that assms(3) layersD(3) [OF assms(1,2)] by auto
  show ?thesis
    by (rule layersI) (auto simp: layersD(1,2) [OF assms(1)] split: if_splits dest: layersD(3-) [OF assms(1)] over)
qed

lemma layers_keep: "layers now c r a \<Longrightarrow> layers now (\<lambda>t. keep P (c t)) (\<lambda>t. keep P (r t)) (\<lambda>t. keep P (a t))"
  by (rule layersI) (auto dest: layersD)

lemma layers_prune:
  "layers now c r a \<Longrightarrow> (\<And>d. now < ps_expiresAt d \<Longrightarrow> P d) \<Longrightarrow> layers now c (\<lambda>t. keep P (r t)) a"
  by (rule layersI) (auto dest: layersD)

lemma layers_restart: "layers now c r a \<Longrightarrow> layers now (\<lambda>_. None) r a"
  by (rule layersI) (auto dest: layersD)

section \<open>The operations on the layers\<close>

lemma get_upsert:
  "k' \<noteq> k \<Longrightarrow> get (upsert_portal_session now k d rows) k' = get rows k'"
  "map_option session_face (get (upsert_portal_session now k d rows) k) = Some (session_face d)"
  by (cases "get rows k"; simp add: upsert_portal_session_def Let_def get_put)+

lemma is_table_upsert [simp]: "is_table rows \<Longrightarrow> is_table (upsert_portal_session now k d rows)"
  by (simp add: upsert_portal_session_def Let_def split: option.split)

lemma row_face_upsert:
  assumes "inj digest"
  shows "row_face digest (s\<lparr>st_rows := upsert_portal_session now (digest t) d (st_rows s)\<rparr>) = (row_face digest s)(t \<mapsto> session_face d)"
proof
  fix t'
  show "row_face digest (s\<lparr>st_rows := upsert_portal_session now (digest t) d (st_rows s)\<rparr>) t' = ((row_face digest s)(t \<mapsto> session_face d)) t'"
  proof (cases "t' = t")
    case True
    then show ?thesis by (simp add: row_face_def get_upsert(2))
  next
    case False
    then have "digest t' \<noteq> digest t" using assms by (simp add: inj_eq)
    then show ?thesis using False by (simp add: row_face_def get_upsert(1))
  qed
qed

lemma faces_frame [simp]:
  "cache_face (s\<lparr>st_rows := r\<rparr>) = cache_face s" "row_face digest (s\<lparr>st_cache := c\<rparr>) = row_face digest s"
  by (simp_all add: cache_face_def row_face_def fun_eq_iff)

lemma cache_face_put [simp]: "cache_face (s\<lparr>st_cache := put t d (st_cache s)\<rparr>) = (cache_face s)(t \<mapsto> session_face d)"
  by (simp add: cache_face_def fun_eq_iff get_put)

lemma cache_face_del [simp]: "cache_face (s\<lparr>st_cache := del t (st_cache s)\<rparr>) = (cache_face s)(t := None)"
  by (simp add: cache_face_def fun_eq_iff get_del)

lemma row_face_del: "inj digest \<Longrightarrow> row_face digest (s\<lparr>st_rows := del (digest t) (st_rows s)\<rparr>) = (row_face digest s)(t := None)"
  by (simp add: row_face_def fun_eq_iff get_del inj_eq)

lemma face_filter:
  assumes "is_table m" "\<And>d. P (session_face d) = P d"
  shows "map_option session_face (get (filter (\<lambda>(k, d). P d) m) k) = keep P (map_option session_face (get m k))"
  using get_filter [OF assms(1), of "\<lambda>k d. P d" k] assms(2) by (simp add: keep_def split: option.split)

lemma drop_row_faces:
  assumes "inj digest"
  shows "st_cache (drop_session_row digest no_session_faults t s) = st_cache s"
    "is_table (st_rows s) \<Longrightarrow> is_table (st_rows (drop_session_row digest no_session_faults t s))"
    "cache_face (drop_session_row digest no_session_faults t s) = cache_face s"
    "row_face digest (drop_session_row digest no_session_faults t s) = (row_face digest s)(t := None)"
  using assms by (simp_all add: drop_session_row_def no_session_faults_def delete_portal_session_row_def row_face_del)

lemma load_agrees:
  assumes "agrees now digest s a" "inj digest"
  shows "agrees now digest (snd (load_portal_session digest no_session_faults now token s)) a"
proof (cases "token = []")
  case False
  note h = agreesD [OF assms(1)]
  show ?thesis
  proof (cases "get (st_cache s) token")
    case (Some d)
    show ?thesis
    proof (cases "now < ps_expiresAt d")
      case True
      then show ?thesis using assms(1) False Some by (simp add: load_portal_session_def)
    next
      case old: False
      have "layers now ((cache_face s)(token := None)) ((row_face digest s)(token := None)) (spec_face a)"
        by (rule layers_expired [OF h(3), of _ "session_face d"]) (simp_all add: cache_face_def Some old)
      then show ?thesis using False Some old h(1,2)
        by (simp add: load_portal_session_def agrees_def drop_row_faces [OF assms(2)])
    qed
  next
    case None
    show ?thesis
    proof (cases "get_portal_session now (digest token) (st_rows s)")
      case (Some d)
      then have "row_face digest s token = Some (session_face d)"
        by (auto simp: get_portal_session_def row_face_def split: option.splits if_splits)
      note layers_cached [OF h(3) False this]
      then show ?thesis using False None Some h(1,2)
        by (simp add: load_portal_session_def no_session_faults_def agrees_def)
    qed (use assms(1) False None in \<open>simp add: load_portal_session_def no_session_faults_def\<close>)
  qed
qed (use assms in \<open>simp add: load_portal_session_def\<close>)

lemma spec_face_steps:
  "token \<noteq> [] \<Longrightarrow> spec_face (signed_in_step (Store now token d) a) = (spec_face a)(token \<mapsto> session_face d)"
  "token \<noteq> [] \<Longrightarrow> spec_face (signed_in_step (Logout token) a) = (spec_face a)(token := None)"
  "spec_face (signed_in_step (Takeover email) a) = (\<lambda>t. keep (\<lambda>d. ps_email d \<noteq> email) (spec_face a t))"
  by (auto simp: spec_face_def fun_eq_iff keep_def split: option.split)

lemma store_agrees:
  assumes "agrees now digest s a" "inj digest"
  shows "agrees now digest (store_portal_session digest no_session_faults now token d s) (signed_in_step (Store now token d) a)"
proof (cases "token = []")
  case False
  let ?s1 = "s\<lparr>st_cache := put token d (st_cache s)\<rparr>"
  have eq: "store_portal_session digest no_session_faults now token d s =
      ?s1\<lparr>st_rows := upsert_portal_session now (digest token) d (st_rows ?s1)\<rparr>"
    using False by (simp add: store_portal_session_def no_session_faults_def Let_def)
  note h = agreesD [OF assms(1)]
  show ?thesis unfolding eq
    by (rule agreesI [OF _ _ _ row_face_upsert [OF assms(2)] spec_face_steps(1) [OF False]])
      (use h False layers_store [OF h(3) False] in simp_all)
qed (use assms in \<open>simp add: store_portal_session_def\<close>)

lemma logout_agrees:
  assumes "agrees now digest s a" "inj digest"
  shows "agrees now digest (delete_portal_session digest no_session_faults token s) (signed_in_step (Logout token) a)"
proof (cases "token = []")
  case False
  note h = agreesD [OF assms(1)]
  then show ?thesis using False
    by (simp add: delete_portal_session_def agrees_def drop_row_faces [OF assms(2)] spec_face_steps layers_drop
        del: signed_in_step.simps)
qed (use assms in \<open>simp add: delete_portal_session_def\<close>)

lemma takeover_agrees:
  assumes "agrees now digest s a"
  shows "agrees now digest (snd (kill_portal_sessions_for no_session_faults email s)) (signed_in_step (Takeover email) a)"
proof -
  note h = agreesD [OF assms]
  have face: "map_option session_face (get (filter (\<lambda>(k, d). ps_email d \<noteq> email) m) k) =
      keep (\<lambda>d. ps_email d \<noteq> email) (map_option session_face (get m k))" if "is_table m" for m :: "(string, portal_session) table" and k
    by (rule face_filter [OF that]) simp
  show ?thesis
    by (rule agreesI [OF _ _ _ _ spec_face_steps(3) layers_keep [OF h(3), of "\<lambda>d. ps_email d \<noteq> email"]])
      (use h in \<open>simp_all add: kill_portal_sessions_for_def delete_portal_sessions_for_email_def no_session_faults_def Let_def
         cache_face_def row_face_def face fun_eq_iff\<close>)
qed

lemma prune_agrees:
  assumes "agrees now digest s a"
  shows "agrees now digest (prune_store now s) a"
proof -
  note h = agreesD [OF assms]
  have live: "row_alive now d" if "now < ps_expiresAt d" for d
    using that unix_mono by (simp add: row_alive_def)
  have "row_face digest (prune_store now s) = (\<lambda>t. keep (row_alive now) (row_face digest s t))"
    by (rule ext) (simp add: row_face_def prune_store_def prune_portal_sessions_def face_filter [OF h(2)])
  moreover have "cache_face (prune_store now s) = cache_face s" by (simp add: prune_store_def)
  ultimately show ?thesis using h layers_prune [OF h(3) live] by (simp add: agrees_def prune_store_def prune_portal_sessions_def)
qed

lemma restart_agrees:
  assumes "agrees now digest s a"
  shows "agrees now digest (restart_store s) a"
proof -
  have "cache_face (restart_store s) = (\<lambda>_. None)" "row_face digest (restart_store s) = row_face digest s"
    by (simp_all add: cache_face_def restart_store_def fun_eq_iff)
  with layers_restart [OF agreesD(3) [OF assms]] agreesD(2) [OF assms] show ?thesis
    by (simp add: agrees_def) (simp add: restart_store_def)
qed

lemma run_agrees:
  assumes "inj digest" "agrees start digest s a" "sorted (start # op_times ops @ [now])" "list_all (\<lambda>op. \<not> is_slide op) ops"
  shows "agrees now digest (session_run digest cfg ops s) (fold signed_in_step ops a)"
  using assms(2-4) unfolding session_run_def
proof (induction ops arbitrary: s a start)
  case Nil
  then show ?case by (simp add: agrees_later)
next
  case (Cons op ops)
  show ?case
  proof (cases op)
    case (Load t token)
    then show ?thesis using Cons.IH [of t] load_agrees [OF agrees_later [OF Cons.prems(1)] assms(1)] Cons.prems by simp
  next
    case (Store t token d)
    then show ?thesis using Cons.IH [of t] store_agrees [OF agrees_later [OF Cons.prems(1)] assms(1)] Cons.prems
      by (simp del: signed_in_step.simps)
  next
    case (Logout token)
    then show ?thesis using Cons.IH [of start] logout_agrees [OF Cons.prems(1) assms(1)] Cons.prems
      by (simp del: signed_in_step.simps)
  next
    case (Takeover email)
    then show ?thesis using Cons.IH [of start] takeover_agrees [OF Cons.prems(1)] Cons.prems
      by (simp del: signed_in_step.simps)
  next
    case (Prune_rows t)
    then show ?thesis using Cons.IH [of t] prune_agrees [OF agrees_later [OF Cons.prems(1)]] Cons.prems by simp
  next
    case Restart
    then show ?thesis using Cons.IH [of start] restart_agrees [OF Cons.prems(1)] Cons.prems by simp
  qed (use Cons.prems in simp)
qed

section \<open>Properties\<close>

definition empty_store :: session_store where
  "empty_store = \<lparr>st_cache = [], st_rows = []\<rparr>"

lemma empty_agrees: "agrees now digest empty_store (\<lambda>_. None)"
  by (simp add: agrees_def empty_store_def layers_def cache_face_def row_face_def spec_face_def)

lemma load_sound:
  assumes "agrees now digest s a" "fst (load_portal_session digest no_session_faults now token s) = Some d"
  shows "spec_face a token = Some (session_face d) \<and> unix now \<le> unix (ps_expiresAt d)"
proof -
  from assms(2) have t: "token \<noteq> []" by (auto simp: load_portal_session_def)
  note h = agreesD(3) [OF assms(1)]
  show ?thesis
  proof (cases "get (st_cache s) token")
    case (Some d')
    with assms(2) t have "d' = d" "now < ps_expiresAt d" by (auto simp: load_portal_session_def split: if_splits)
    with Some layersD(3) [OF h, of token "session_face d"] show ?thesis
      by (simp add: cache_face_def unix_mono)
  next
    case None
    with assms(2) t have "get_portal_session now (digest token) (st_rows s) = Some d"
      by (auto simp: load_portal_session_def no_session_faults_def split: option.splits)
    then have "get (st_rows s) (digest token) = Some d" "row_alive now d"
      by (auto simp: get_portal_session_def split: option.splits if_splits)
    with layersD(4) [OF h t, of "session_face d"] show ?thesis by (simp add: row_face_def row_alive_def)
  qed
qed

lemma load_complete:
  assumes "agrees now digest s a" "spec_face a token = Some x" "now < ps_expiresAt x"
  shows "\<exists>d. fst (load_portal_session digest no_session_faults now token s) = Some d \<and> session_face d = x"
proof -
  note h = agreesD(3) [OF assms(1)]
  have t: "token \<noteq> []" using layersD(2) [OF h] assms(2) by auto
  have "row_face digest s token = Some x" by (rule layersD(5) [OF h assms(2,3)])
  then obtain r where r: "get (st_rows s) (digest token) = Some r" "session_face r = x"
    by (auto simp: row_face_def)
  then have fresh: "now < ps_expiresAt r" using assms(3) by auto
  show ?thesis
  proof (cases "get (st_cache s) token")
    case None
    then show ?thesis using r t fresh
      by (simp add: load_portal_session_def no_session_faults_def get_portal_session_def row_alive_def unix_mono)
  next
    case (Some d)
    with layersD(3) [OF h, of token "session_face d"] assms(2) have "session_face d = x" by (simp add: cache_face_def)
    with Some t assms(3) show ?thesis by (auto simp: load_portal_session_def)
  qed
qed

text \<open>C30: The store of sessions (a cache that a restart empties, rows that a cleanup drops, rows keyed by a
  digest) is the plain map from cookies to sessions it stands for. After any history of sign-ins, look-ups,
  logouts, takeovers, cleanups and restarts, in the order of their times, a look-up that answers gives the
  session last stored under the cookie and not since ended, within the second of its expiry; and a session
  stored, not ended and not expired is always found.\<close>

theorem restarts_sign_nobody_out:
  assumes "inj digest" "sorted (op_times ops @ [now])" "list_all (\<lambda>op. \<not> is_slide op) ops"
  shows "(\<forall>d. fst (load_portal_session digest no_session_faults now token (session_run digest cfg ops empty_store)) = Some d \<longrightarrow>
            map_option session_face (signed_in ops token) = Some (session_face d) \<and> unix now \<le> unix (ps_expiresAt d)) \<and>
         (\<forall>d. signed_in ops token = Some d \<longrightarrow> now < ps_expiresAt d \<longrightarrow>
            (\<exists>d'. fst (load_portal_session digest no_session_faults now token (session_run digest cfg ops empty_store)) = Some d' \<and>
                  session_face d' = session_face d))"
proof -
  have start: "sorted (hd (op_times ops @ [now]) # op_times ops @ [now])"
    using assms(2) by (cases "op_times ops @ [now]") auto
  have "agrees now digest (session_run digest cfg ops empty_store) (signed_in ops)"
    unfolding signed_in_def by (rule run_agrees [OF assms(1) empty_agrees start assms(3)])
  from load_sound [OF this] load_complete [OF this] show ?thesis
    by (auto simp: spec_face_def)
qed

text \<open>A sign-in, a look-up, a restart ten hours later and a look-up again.\<close>

definition ada :: portal_session where
  "ada = \<lparr>ps_email = ''ada@example.com'', ps_expiresAt = 24 * hour, ps_clientIP = ''1.2.3.4'', ps_previousLoginAt = None,
     ps_killedPrevious = False, ps_viewAsRole = [], ps_sameSite = ''Lax'', ps_createdAt = Some 0\<rparr>"

definition ada_day :: "session_op list" where
  "ada_day = [Store 0 ''cookie'' ada, Load hour ''cookie'', Restart, Prune_rows (10 * hour)]"

theorem restarts_sign_nobody_out_witness:
  "\<exists>d. fst (load_portal_session (\<lambda>t. ''h'' @ t) no_session_faults (11 * hour) ''cookie''
     (session_run (\<lambda>t. ''h'' @ t) \<lparr>sc_duration = 24 * hour, sc_maxLifetime = 0\<rparr> ada_day empty_store)) = Some d \<and>
   session_face d = session_face ada"
proof -
  have "inj (\<lambda>t. ''h'' @ t)" by (simp add: inj_def)
  moreover have "sorted (op_times ada_day @ [11 * hour])" by (simp add: ada_day_def hour_def minute_def second_def)
  moreover have "list_all (\<lambda>op. \<not> is_slide op) ada_day" by (simp add: ada_day_def)
  moreover have "signed_in ada_day ''cookie'' = Some ada" by (simp add: signed_in_def ada_day_def)
  moreover have "11 * hour < ps_expiresAt ada" by (simp add: ada_def hour_def minute_def second_def)
  ultimately show ?thesis
    using restarts_sign_nobody_out [of "\<lambda>t. ''h'' @ t" ada_day "11 * hour" "''cookie''"
        "\<lparr>sc_duration = 24 * hour, sc_maxLifetime = 0\<rparr>"] by blast
qed

section \<open>The life of a session\<close>

text \<open>What bounds a life: the longer of the cap and of the extension a sign-in is born with.\<close>

definition life_bound :: "session_config \<Rightarrow> duration" where
  "life_bound cfg = max (sc_maxLifetime cfg) (sc_duration cfg)"

definition within :: "session_config \<Rightarrow> portal_session \<Rightarrow> bool" where
  "within cfg d \<longleftrightarrow> (\<exists>c. ps_createdAt d = Some c \<and> ps_expiresAt d \<le> c + life_bound cfg)"

text \<open>Sign-ins make up a new token, so that no row has its digest, and start the life they have.\<close>

definition fresh_sign_in :: "(string \<Rightarrow> string) \<Rightarrow> session_config \<Rightarrow> session_op \<Rightarrow> session_store \<Rightarrow> bool" where
  "fresh_sign_in digest cfg op s = (case op of
     Store now token d \<Rightarrow>
       get (st_rows s) (digest token) = None \<and> ps_createdAt d = Some now \<and> ps_expiresAt d = now + sc_duration cfg
   | _ \<Rightarrow> True)"

fun fresh_sign_ins :: "(string \<Rightarrow> string) \<Rightarrow> session_config \<Rightarrow> session_op list \<Rightarrow> session_store \<Rightarrow> bool" where
  "fresh_sign_ins digest cfg [] s = True"
| "fresh_sign_ins digest cfg (op # ops) s =
     (fresh_sign_in digest cfg op s \<and> fresh_sign_ins digest cfg ops (session_step digest cfg op s))"

definition bounded_store :: "(string \<Rightarrow> string) \<Rightarrow> session_config \<Rightarrow> session_store \<Rightarrow> bool" where
  "bounded_store digest cfg s \<longleftrightarrow> is_table (st_cache s) \<and> is_table (st_rows s) \<and>
     (\<forall>t d. get (st_cache s) t = Some d \<longrightarrow> within cfg d) \<and> (\<forall>k d. get (st_rows s) k = Some d \<longrightarrow> within cfg d) \<and>
     (\<forall>t d r. get (st_cache s) t = Some d \<longrightarrow> get (st_rows s) (digest t) = Some r \<longrightarrow> ps_createdAt d = ps_createdAt r)"

lemma boundedI:
  assumes "is_table (st_cache s)" "is_table (st_rows s)" "\<And>t d. get (st_cache s) t = Some d \<Longrightarrow> within cfg d"
    "\<And>k d. get (st_rows s) k = Some d \<Longrightarrow> within cfg d"
    "\<And>t d r. get (st_cache s) t = Some d \<Longrightarrow> get (st_rows s) (digest t) = Some r \<Longrightarrow> ps_createdAt d = ps_createdAt r"
  shows "bounded_store digest cfg s"
  using assms unfolding bounded_store_def by blast

lemma boundedD:
  assumes "bounded_store digest cfg s"
  shows "is_table (st_cache s)" "is_table (st_rows s)" "\<And>t d. get (st_cache s) t = Some d \<Longrightarrow> within cfg d"
    "\<And>k d. get (st_rows s) k = Some d \<Longrightarrow> within cfg d"
    "\<And>t d r. get (st_cache s) t = Some d \<Longrightarrow> get (st_rows s) (digest t) = Some r \<Longrightarrow> ps_createdAt d = ps_createdAt r"
  using assms unfolding bounded_store_def by blast+

text \<open>Losing rows or cached sessions, and copying a row to the cache, keep the bound.\<close>

lemma bounded_fewer:
  assumes "bounded_store digest cfg s" "is_table (st_cache s')" "is_table (st_rows s')"
    "\<And>t d. get (st_cache s') t = Some d \<Longrightarrow> get (st_cache s) t = Some d"
    "\<And>k d. get (st_rows s') k = Some d \<Longrightarrow> get (st_rows s) k = Some d"
  shows "bounded_store digest cfg s'"
  by (rule boundedI [OF assms(2,3)]) (blast dest: assms(4,5) boundedD(3-5) [OF assms(1)])+

lemma get_filterD: "is_table m \<Longrightarrow> get (filter (\<lambda>(k, v). P k v) m) k = Some v \<Longrightarrow> get m k = Some v"
  by (simp add: get_filter split: option.splits if_splits)

lemma load_bounded:
  assumes "bounded_store digest cfg s"
  shows "bounded_store digest cfg (snd (load_portal_session digest f now token s))"
    "fst (load_portal_session digest f now token s) = Some d \<Longrightarrow>
       get (st_cache (snd (load_portal_session digest f now token s))) token = Some d"
proof -
  note h = boundedD [OF assms]
  have drop: "bounded_store digest cfg (drop_session_row digest f token (s\<lparr>st_cache := del token (st_cache s)\<rparr>))"
    by (rule bounded_fewer [OF assms])
      (use h(1,2) in \<open>auto simp: drop_session_row_def delete_portal_session_row_def get_del split: if_splits\<close>)
  have copy: "bounded_store digest cfg (s\<lparr>st_cache := put token d (st_cache s)\<rparr>)" if "get (st_rows s) (digest token) = Some d" for d
    by (rule boundedI) (use that h in \<open>auto simp: get_put split: if_splits\<close>)
  show "bounded_store digest cfg (snd (load_portal_session digest f now token s))"
    using drop copy assms
    by (auto simp: load_portal_session_def get_portal_session_def split: option.split)
  show "get (st_cache (snd (load_portal_session digest f now token s))) token = Some d"
    if "fst (load_portal_session digest f now token s) = Some d"
    using that by (auto simp: load_portal_session_def get_put split: option.splits if_splits)
qed

lemma upsert_row:
  assumes "ps_createdAt d = Some c" "\<And>r. get rows k = Some r \<Longrightarrow> ps_createdAt r = Some c"
  shows "\<exists>r. get (upsert_portal_session now k d rows) k = Some r \<and> ps_createdAt r = Some c \<and> ps_expiresAt r = ps_expiresAt d"
  using assms by (cases "get rows k") (simp_all add: upsert_portal_session_def Let_def get_put)

lemma store_bounded:
  assumes "bounded_store digest cfg s" "inj digest" "within cfg d" "\<And>r. get (st_rows s) (digest token) = Some r \<Longrightarrow> ps_createdAt r = ps_createdAt d"
  shows "bounded_store digest cfg (store_portal_session digest no_session_faults now token d s)"
proof (cases "token = []")
  case False
  note h = boundedD [OF assms(1)]
  obtain c where c: "ps_createdAt d = Some c" "ps_expiresAt d \<le> c + life_bound cfg" using assms(3) by (auto simp: within_def)
  let ?rows = "upsert_portal_session now (digest token) d (st_rows s)"
  obtain r where r: "get ?rows (digest token) = Some r" "ps_createdAt r = Some c" "ps_expiresAt r = ps_expiresAt d"
    using upsert_row [OF c(1), of "st_rows s" "digest token" now] assms(4) c(1) by auto
  have eq: "store_portal_session digest no_session_faults now token d s = s\<lparr>st_cache := put token d (st_cache s), st_rows := ?rows\<rparr>"
    using False by (simp add: store_portal_session_def no_session_faults_def Let_def)
  have rows: "within cfg x" if "get ?rows k = Some x" for k x
    using that r c(2) h(4) [of k x] get_upsert(1) [of k "digest token" now d "st_rows s"]
    by (cases "k = digest token") (auto simp: within_def)
  have sync: "ps_createdAt x = ps_createdAt y" if "get (put token d (st_cache s)) t = Some x" "get ?rows (digest t) = Some y" for t x y
  proof (cases "t = token")
    case False
    then have "digest t \<noteq> digest token" using assms(2) by (simp add: inj_eq)
    with False that show ?thesis using h(5) by (simp add: get_put get_upsert(1))
  qed (use that r c(1) in \<open>simp add: get_put\<close>)
  show ?thesis unfolding eq
    by (rule boundedI) (use h(1-3) assms(3) rows sync in \<open>auto simp: get_put split: if_splits\<close>)
qed (use assms(1) in \<open>simp add: store_portal_session_def\<close>)

lemma slide_within:
  assumes "0 < sc_maxLifetime cfg" "within cfg d" "slide_to cfg now d = Some e"
  shows "within cfg (d\<lparr>ps_expiresAt := e\<rparr>)"
  using assms by (auto simp: slide_to_def session_deadline_def within_def life_bound_def Let_def max_def split: if_splits)

lemma slide_bounded:
  assumes "bounded_store digest cfg s" "inj digest" "0 < sc_maxLifetime cfg"
  shows "bounded_store digest cfg (snd (slide_portal_session digest no_session_faults cfg now tls proto background token s))"
proof -
  obtain x s1 where l: "load_portal_session digest no_session_faults now token s = (x, s1)" by fastforce
  have s1: "bounded_store digest cfg s1" using load_bounded(1) [OF assms(1), of no_session_faults now token] l by simp
  have "bounded_store digest cfg (store_portal_session digest no_session_faults now token (d\<lparr>ps_expiresAt := e\<rparr>) s1)"
    if "x = Some d" "slide_to cfg now d = Some e" for d e
  proof (rule store_bounded [OF s1 assms(2)])
    have c: "get (st_cache s1) token = Some d" using load_bounded(2) [OF assms(1), of no_session_faults now token d] l that(1) by simp
    from boundedD(3) [OF s1 c] show "within cfg (d\<lparr>ps_expiresAt := e\<rparr>)" by (rule slide_within [OF assms(3) _ that(2)])
    show "ps_createdAt r = ps_createdAt (d\<lparr>ps_expiresAt := e\<rparr>)" if "get (st_rows s1) (digest token) = Some r" for r
      using boundedD(5) [OF s1 c that] by simp
  qed
  then show ?thesis using assms(1) s1 by (simp add: slide_portal_session_def l split: option.split)
qed

lemma step_bounded:
  assumes "bounded_store digest cfg s" "inj digest" "0 < sc_maxLifetime cfg" "fresh_sign_in digest cfg op s"
  shows "bounded_store digest cfg (session_step digest cfg op s)"
proof (cases op)
  case (Store now token d)
  with assms(4) have "within cfg d" "get (st_rows s) (digest token) = None"
    by (auto simp: fresh_sign_in_def within_def life_bound_def)
  then show ?thesis using Store by (auto intro: store_bounded [OF assms(1,2)])
next
  case (Logout token)
  have "bounded_store digest cfg (delete_portal_session digest no_session_faults token s)"
    by (rule bounded_fewer [OF assms(1)])
      (use boundedD(1,2) [OF assms(1)] in \<open>auto simp: delete_portal_session_def drop_session_row_def delete_portal_session_row_def
         get_del split: if_splits\<close>)
  with Logout show ?thesis by simp
next
  case (Takeover email)
  have "bounded_store digest cfg (snd (kill_portal_sessions_for no_session_faults email s))"
    by (rule bounded_fewer [OF assms(1)])
      (use boundedD(1,2) [OF assms(1)] in \<open>auto simp: kill_portal_sessions_for_def delete_portal_sessions_for_email_def
         no_session_faults_def Let_def dest: get_filterD\<close>)
  with Takeover show ?thesis by simp
next
  case (Prune_rows now)
  have "bounded_store digest cfg (prune_store now s)"
    by (rule bounded_fewer [OF assms(1)])
      (use boundedD(1,2) [OF assms(1)] in \<open>auto simp: prune_store_def prune_portal_sessions_def dest: get_filterD\<close>)
  with Prune_rows show ?thesis by simp
next
  case Restart
  have "bounded_store digest cfg (restart_store s)"
    by (rule bounded_fewer [OF assms(1)]) (use boundedD(2) [OF assms(1)] in \<open>auto simp: restart_store_def\<close>)
  with Restart show ?thesis by simp
qed (simp_all add: load_bounded(1) [OF assms(1)] slide_bounded [OF assms(1-3)])

lemma run_bounded:
  assumes "bounded_store digest cfg s" "inj digest" "0 < sc_maxLifetime cfg" "fresh_sign_ins digest cfg ops s"
  shows "bounded_store digest cfg (session_run digest cfg ops s)"
  using assms(1,4) unfolding session_run_def
  by (induction ops arbitrary: s) (simp_all add: step_bounded assms(2,3))

lemma empty_bounded: "bounded_store digest cfg empty_store"
  by (simp add: bounded_store_def empty_store_def)

text \<open>C31: With a cap configured, no sequence of requests makes a session outlive the longer of the cap and one
  session duration, counted from its sign-in: however often it is used and extended, by whatever mix of
  look-ups, restarts and takeovers, a look-up that still answers is before that deadline (to the second).\<close>

theorem session_lifetime_bounded:
  assumes "inj digest" "0 < sc_maxLifetime cfg" "fresh_sign_ins digest cfg ops empty_store"
    and "fst (load_portal_session digest no_session_faults now token (session_run digest cfg ops empty_store)) = Some d"
  shows "\<exists>c. ps_createdAt d = Some c \<and> ps_expiresAt d \<le> c + max (sc_maxLifetime cfg) (sc_duration cfg) \<and>
    unix now \<le> unix (c + max (sc_maxLifetime cfg) (sc_duration cfg))"
proof -
  note b = run_bounded [OF empty_bounded assms(1,2,3)]
  from load_bounded(2) [OF b assms(4)] load_bounded(1) [OF b] have "within cfg d" by (blast dest: boundedD(3))
  then obtain c where c: "ps_createdAt d = Some c" "ps_expiresAt d \<le> c + life_bound cfg" by (auto simp: within_def)
  have "unix now \<le> unix (ps_expiresAt d)"
    using assms(4) by (auto simp: load_portal_session_def get_portal_session_def row_alive_def unix_mono split: option.splits if_splits)
  also have "\<dots> \<le> unix (c + life_bound cfg)" by (rule unix_mono [OF c(2)])
  finally show ?thesis using c by (simp add: life_bound_def)
qed

text \<open>Signed in at midnight for a day, with a cap of two: extended in use at 20 and at 40 hours, to the cap.\<close>

definition busy_days :: "session_op list" where
  "busy_days = [Store 0 ''cookie'' ada, Slide (20 * hour) False ''cookie'', Restart, Slide (40 * hour) False ''cookie'']"

theorem session_lifetime_bounded_witness:
  "\<exists>d c. fst (load_portal_session (\<lambda>t. ''h'' @ t) no_session_faults (47 * hour) ''cookie''
       (session_run (\<lambda>t. ''h'' @ t) \<lparr>sc_duration = 24 * hour, sc_maxLifetime = 48 * hour\<rparr> busy_days empty_store)) = Some d \<and>
     ps_createdAt d = Some c \<and> ps_expiresAt d \<le> c + 48 * hour"
proof -
  let ?cfg = "\<lparr>sc_duration = 24 * hour, sc_maxLifetime = 48 * hour\<rparr>"
  let ?load = "fst (load_portal_session (\<lambda>t. ''h'' @ t) no_session_faults (47 * hour) ''cookie''
       (session_run (\<lambda>t. ''h'' @ t) ?cfg busy_days empty_store))"
  have "inj (\<lambda>t. ''h'' @ t)" by (simp add: inj_def)
  moreover have "0 < sc_maxLifetime ?cfg" by simp
  moreover have "fresh_sign_ins (\<lambda>t. ''h'' @ t) ?cfg busy_days empty_store" by code_simp
  moreover obtain d where d: "?load = Some d"
  proof -
    have "?load \<noteq> None" by code_simp
    then show ?thesis using that by auto
  qed
  ultimately obtain c where "ps_createdAt d = Some c" "ps_expiresAt d \<le> c + max (sc_maxLifetime ?cfg) (sc_duration ?cfg)"
    using session_lifetime_bounded by blast
  then show ?thesis using d by (auto simp: hour_def minute_def second_def)
qed

text \<open>A session is born with a whole session duration whatever the cap is, and the look-up never asks for
  the cap: with a cap below the duration, the session still answers after the cap is over, up to its idle expiry,
  though its cookie was told to end at the cap.\<close>

theorem cap_below_duration_not_enforced:
  assumes "token \<noteq> []" "0 < sc_maxLifetime cfg" "sc_maxLifetime cfg < sc_duration cfg"
    and "ps_createdAt d = Some born" "ps_expiresAt d = born + sc_duration cfg"
    and "born + sc_maxLifetime cfg \<le> now" "now < born + sc_duration cfg"
  shows "fst (load_portal_session digest f now token (store_portal_session digest f' born token d s)) = Some d \<and>
    session_deadline cfg d \<le> now"
  using assms by (simp add: load_portal_session_def store_portal_session_def session_deadline_def Let_def get_put)

theorem cap_below_duration_not_enforced_witness:
  "fst (load_portal_session (\<lambda>t. t) no_session_faults (20 * hour) ''cookie''
     (store_portal_session (\<lambda>t. t) no_session_faults 0 ''cookie'' ada empty_store)) = Some ada \<and>
   session_deadline \<lparr>sc_duration = 24 * hour, sc_maxLifetime = 12 * hour\<rparr> ada \<le> 20 * hour"
  by (rule cap_below_duration_not_enforced [of _ "\<lparr>sc_duration = 24 * hour, sc_maxLifetime = 12 * hour\<rparr>"])
    (simp_all add: ada_def hour_def minute_def second_def)

text \<open>A logout signs the browser out exactly when the statement that deletes the row went through; when it
  failed, the cookie is good again at the next look-up, which takes the session back from the database.\<close>

theorem failed_logout_keeps_session:
  assumes "token \<noteq> []"
  shows "fst (load_portal_session digest no_session_faults now token (delete_portal_session digest f token s)) =
    (if sf_delete f then get_portal_session now (digest token) (st_rows s) else None)"
  using assms
  by (simp add: delete_portal_session_def drop_session_row_def load_portal_session_def no_session_faults_def get_portal_session_def
      delete_portal_session_row_def get_del split: option.split)

theorem failed_logout_keeps_session_witness:
  "fst (load_portal_session (\<lambda>t. t) no_session_faults hour ''cookie''
     (delete_portal_session (\<lambda>t. t) (no_session_faults\<lparr>sf_delete := True\<rparr>) ''cookie''
       (store_portal_session (\<lambda>t. t) no_session_faults 0 ''cookie'' ada empty_store))) = Some ada"
  by (subst failed_logout_keeps_session) (simp, code_simp)

end
