(* ===== verification/Portal_Users.thy ===== *)
theory Portal_Users
  imports Accounts
begin

text \<open>
  The two tables that sign-in reads and writes: users (\<open>pkg/db/user.go\<close>, \<open>pkg/db/user_status.go\<close>) and the
  links mailed to them (\<open>pkg/db/magiclink.go\<close>). A statement that fails, or a row that violates a constraint,
  leaves its table as it was.
\<close>

section \<open>Users\<close>

text \<open>
  A user of the earlier components with what sign-in keeps. The three token columns can be \<open>NULL\<close>, here
  \<open>None\<close>; read, \<open>NULL\<close> is the empty string. Columns the modelled handlers neither read nor decide (time zone,
  onboarding progress) are left out.
\<close>

record account = user +
  ac_firstName :: string
  ac_lastName :: string
  ac_preferredName :: string
  ac_verificationToken :: "string option"
  ac_approvalToken :: "string option"
  ac_claimToken :: "string option"
  ac_authMethod :: string
  ac_notificationPrefs :: string
  ac_createdAt :: time
  ac_lastLoginAt :: "time option"
  ac_lastLoginIP :: string
  ac_totpSecret :: string
  ac_totpEnabled :: bool
  ac_policyConsentAt :: "time option"
  ac_diagnosticsConsentAt :: "time option"

type_synonym accounts = "account list"

definition column :: "string option \<Rightarrow> string" where
  "column c = (case c of None \<Rightarrow> [] | Some s \<Rightarrow> s)"

definition status_unverified :: string where "status_unverified = ''unverified''"
definition status_pending :: string where "status_pending = ''pending''"
definition status_approved :: string where "status_approved = ''approved''"
definition status_rejected :: string where "status_rejected = ''rejected''"
definition status_revoked :: string where "status_revoked = ''revoked''"

definition user_statuses :: "string list" where
  "user_statuses = [status_unverified, status_pending, status_approved, status_rejected, status_revoked]"

definition is_valid_user_status :: "string \<Rightarrow> bool" where
  "is_valid_user_status s \<longleftrightarrow> list_ex (\<lambda>known. s = known) user_statuses"

definition get_user :: "string \<Rightarrow> accounts \<Rightarrow> account option" where
  "get_user i rows = find (\<lambda>a. u_id a = i) rows"

definition get_user_by_email :: "string \<Rightarrow> accounts \<Rightarrow> account option" where
  "get_user_by_email e rows = find (\<lambda>a. u_email a = e) rows"

definition get_user_by_verification_token :: "string \<Rightarrow> accounts \<Rightarrow> account option" where
  "get_user_by_verification_token t rows = find (\<lambda>a. ac_verificationToken a = Some t) rows"

text \<open>An insert writes the tokens as they are, an update writes \<open>NULL\<close> for an empty one.\<close>

definition inserted :: "account \<Rightarrow> account" where
  "inserted a = a\<lparr>ac_verificationToken := Some (column (ac_verificationToken a)), ac_approvalToken := Some (column (ac_approvalToken a)),
     ac_claimToken := Some (column (ac_claimToken a)),
     ac_authMethod := (if ac_authMethod a = [] then ''Magic Link'' else ac_authMethod a),
     u_themePreference := (if u_themePreference a = [] then ''system'' else u_themePreference a),
     ac_notificationPrefs := (if ac_notificationPrefs a = [] then ''{}'' else ac_notificationPrefs a),
     u_languagePreference := (if u_languagePreference a = [] then ''en'' else u_languagePreference a),
     ac_lastLoginAt := None, ac_lastLoginIP := [], u_subdomainStyle := (if u_subdomainStyle a = [] then ''liferay'' else u_subdomainStyle a)\<rparr>"

definition create_user :: "account \<Rightarrow> accounts \<Rightarrow> accounts option" where
  "create_user a rows =
     (if list_ex (\<lambda>b. u_id b = u_id a \<or> u_email b = u_email a) rows then None else Some (rows @ [inserted a]))"

definition null_if_empty :: "string option \<Rightarrow> string option" where
  "null_if_empty c = (if column c = [] then None else c)"

text \<open>Creation time is not among the columns an update writes. The answer is \<open>None\<close> when there is no such row or
  the address belongs to another.\<close>

definition updated :: "account \<Rightarrow> account \<Rightarrow> account" where
  "updated a old = a\<lparr>ac_verificationToken := null_if_empty (ac_verificationToken a), ac_approvalToken := null_if_empty (ac_approvalToken a),
     ac_claimToken := null_if_empty (ac_claimToken a), ac_createdAt := ac_createdAt old\<rparr>"

definition update_user :: "account \<Rightarrow> accounts \<Rightarrow> accounts option" where
  "update_user a rows =
     (if get_user (u_id a) rows = None \<or> list_ex (\<lambda>b. u_email b = u_email a \<and> u_id b \<noteq> u_id a) rows then None
      else Some (map (\<lambda>b. if u_id b = u_id a then updated a b else b) rows))"

definition delete_user :: "string \<Rightarrow> accounts \<Rightarrow> accounts" where
  "delete_user i rows = filter (\<lambda>a. u_id a \<noteq> i) rows"

definition count_admins :: "accounts \<Rightarrow> nat" where
  "count_admins rows = length (filter (\<lambda>a. u_role a = ''admin'' \<and> u_status a = status_approved) rows)"

section \<open>Links\<close>

record magic_link =
  ml_id :: nat
  ml_email :: string
  ml_hash :: string
  ml_clientIP :: string
  ml_expiresAt :: time
  ml_usedAt :: "time option"

record link_store =
  lk_rows :: "magic_link list"
  lk_nextID :: nat

text \<open>The hash is unique; identifiers are never given twice.\<close>

definition create_magic_link :: "string \<Rightarrow> string \<Rightarrow> string \<Rightarrow> time \<Rightarrow> link_store \<Rightarrow> link_store" where
  "create_magic_link email hash ip expires s =
     (if list_ex (\<lambda>l. ml_hash l = hash) (lk_rows s) then s
      else \<lparr>lk_rows = lk_rows s @ [\<lparr>ml_id = lk_nextID s, ml_email = email, ml_hash = hash, ml_clientIP = ip,
              ml_expiresAt = expires, ml_usedAt = None\<rparr>], lk_nextID = Suc (lk_nextID s)\<rparr>)"

definition get_magic_link :: "string \<Rightarrow> link_store \<Rightarrow> magic_link option" where
  "get_magic_link hash s = find (\<lambda>l. ml_hash l = hash) (lk_rows s)"

text \<open>\<open>CURRENT_TIMESTAMP\<close> is a whole second; an expiry compares as text, which is later in its own second.\<close>

definition prune_expired_magic_links :: "time \<Rightarrow> link_store \<Rightarrow> link_store" where
  "prune_expired_magic_links now s = s\<lparr>lk_rows := filter (\<lambda>l. \<not> unix (ml_expiresAt l) < unix now) (lk_rows s)\<rparr>"

definition mark_magic_link_used :: "time \<Rightarrow> nat \<Rightarrow> link_store \<Rightarrow> link_store" where
  "mark_magic_link_used now i s = s\<lparr>lk_rows := map (\<lambda>l. if ml_id l = i then l\<lparr>ml_usedAt := Some now\<rparr> else l) (lk_rows s)\<rparr>"

text \<open>\<open>keep\<close> is the link exempted, absent for the identifier \<open>-1\<close> that no link has.\<close>

definition invalidate_other_magic_links :: "time \<Rightarrow> string \<Rightarrow> nat option \<Rightarrow> link_store \<Rightarrow> link_store" where
  "invalidate_other_magic_links now email keep s =
     s\<lparr>lk_rows := map (\<lambda>l. if ml_email l = email \<and> keep \<noteq> Some (ml_id l) \<and> ml_usedAt l = None
                          then l\<lparr>ml_expiresAt := unix now * second\<rparr> else l) (lk_rows s)\<rparr>"

end
