(* ===== verification/Totp.thy ===== *)
theory Totp
  imports Prelude
begin

text \<open>
  The second factor (\<open>pkg/server/totp.go\<close>): secrets as base32 text, one-time codes of six digits for steps of
  thirty seconds, and the check of a code within one step of drift.

  HMAC-SHA1 is a parameter. \<open>encoding/base32\<close> is modelled as far as the file uses it: the standard alphabet,
  encoding without padding, decoding with it. Text is ASCII.
\<close>

unbundle bit_operations_syntax

type_synonym byte = "8 word"

section \<open>Base 32\<close>

definition alphabet32 :: string where
  "alphabet32 = ''ABCDEFGHIJKLMNOPQRSTUVWXYZ234567''"

definition digit32 :: "byte \<Rightarrow> char" where
  "digit32 q = alphabet32 ! unat q"

text \<open>Eight groups of five bits of five bytes, fewer at the end; a group is cut to five bits.\<close>

definition low5 :: "byte \<Rightarrow> byte" where "low5 b = b AND 31"

fun groups32 :: "byte list \<Rightarrow> byte list" where
  "groups32 (a # b # c # d # e # rest) =
     [drop_bit 3 a, low5 (push_bit 2 a) OR low5 (drop_bit 6 b), low5 (drop_bit 1 b), low5 (push_bit 4 b) OR low5 (drop_bit 4 c),
      low5 (push_bit 1 c) OR drop_bit 7 d, low5 (drop_bit 2 d), low5 (push_bit 3 d) OR drop_bit 5 e, low5 e] @ groups32 rest"
| "groups32 [a, b, c, d] =
     [drop_bit 3 a, low5 (push_bit 2 a) OR low5 (drop_bit 6 b), low5 (drop_bit 1 b), low5 (push_bit 4 b) OR low5 (drop_bit 4 c),
      low5 (push_bit 1 c) OR drop_bit 7 d, low5 (drop_bit 2 d), low5 (push_bit 3 d)]"
| "groups32 [a, b, c] =
     [drop_bit 3 a, low5 (push_bit 2 a) OR low5 (drop_bit 6 b), low5 (drop_bit 1 b), low5 (push_bit 4 b) OR low5 (drop_bit 4 c),
      low5 (push_bit 1 c)]"
| "groups32 [a, b] =
     [drop_bit 3 a, low5 (push_bit 2 a) OR low5 (drop_bit 6 b), low5 (drop_bit 1 b), low5 (push_bit 4 b)]"
| "groups32 [a] = [drop_bit 3 a, low5 (push_bit 2 a)]"
| "groups32 [] = []"

text \<open>\<open>GenerateTOTPSecret\<close> on the bytes drawn.\<close>

definition totp_secret :: "byte list \<Rightarrow> string" where
  "totp_secret key = map digit32 (groups32 key)"

definition value32 :: "char \<Rightarrow> byte option" where
  "value32 c = (let n = of_char c :: nat
     in if 65 \<le> n \<and> n \<le> 90 then Some (of_nat (n - 65)) else if 50 \<le> n \<and> n \<le> 55 then Some (of_nat (n - 24)) else None)"

text \<open>One group of eight characters: the values read, whether padding ended the text, and what is left.\<close>

fun read_quantum :: "string \<Rightarrow> byte list \<Rightarrow> (byte list \<times> bool \<times> string) option" where
  "read_quantum src q =
     (if 8 \<le> length q then Some (q, False, src)
      else case src of
        [] \<Rightarrow> None
      | c # rest \<Rightarrow>
          (if c = CHR ''='' \<and> 2 \<le> length q \<and> length rest < 8 then
             (if length rest + length q < 7 then None
              else if \<not> list_all (\<lambda>x. x = CHR ''='') (take (7 - length q) rest) then None
              else if length q = 3 \<or> length q = 6 then None
              else Some (q, True, rest))
           else case value32 c of None \<Rightarrow> None | Some v \<Rightarrow> read_quantum rest (q @ [v])))"

declare read_quantum.simps [simp del]

fun pack32 :: "byte list \<Rightarrow> byte list" where
  "pack32 [p, q, r, s, t, u, v, w] =
     [push_bit 3 p OR drop_bit 2 q, push_bit 6 q OR push_bit 1 r OR drop_bit 4 s, push_bit 4 s OR drop_bit 1 t,
      push_bit 7 t OR push_bit 2 u OR drop_bit 3 v, push_bit 5 v OR w]"
| "pack32 [p, q, r, s, t, u, v] =
     [push_bit 3 p OR drop_bit 2 q, push_bit 6 q OR push_bit 1 r OR drop_bit 4 s, push_bit 4 s OR drop_bit 1 t,
      push_bit 7 t OR push_bit 2 u OR drop_bit 3 v]"
| "pack32 [p, q, r, s, t] =
     [push_bit 3 p OR drop_bit 2 q, push_bit 6 q OR push_bit 1 r OR drop_bit 4 s, push_bit 4 s OR drop_bit 1 t]"
| "pack32 [p, q, r, s] = [push_bit 3 p OR drop_bit 2 q, push_bit 6 q OR push_bit 1 r OR drop_bit 4 s]"
| "pack32 [p, q] = [push_bit 3 p OR drop_bit 2 q]"
| "pack32 _ = []"

lemma read_quantum_shorter:
  "read_quantum src q = Some (q', ended, rest) \<Longrightarrow> length q < 8 \<Longrightarrow> length rest < length src"
proof (induction src arbitrary: q)
  case (Cons c cs)
  show ?case
  proof (cases "length q = 7")
    case True
    with Cons.prems show ?thesis
      by (subst (asm) read_quantum.simps) (auto simp: read_quantum.simps split: if_splits option.splits)
  next
    case False
    with Cons.prems have l: "length (q @ [v]) < 8" for v by simp
    from Cons.prems show ?thesis
      by (subst (asm) read_quantum.simps) (auto split: if_splits option.splits dest: Cons.IH [OF _ l])
  qed
qed (simp add: read_quantum.simps)

function decode32 :: "string \<Rightarrow> byte list option" where
  "decode32 src =
     (if src = [] then Some []
      else case read_quantum src [] of
        None \<Rightarrow> None
      | Some (q, ended, rest) \<Rightarrow> if ended then Some (pack32 q) else map_option ((@) (pack32 q)) (decode32 rest))"
  by pat_completeness auto
termination
  by (relation "measure length") (auto dest: read_quantum_shorter)

declare decode32.simps [simp del]

section \<open>Codes\<close>

text \<open>\<open>strings.ToUpper\<close> on ASCII text.\<close>

definition upper_char :: "char \<Rightarrow> char" where
  "upper_char c = (let n = of_char c :: nat in if 97 \<le> n \<and> n \<le> 122 then char_of (n - 32) else c)"

text \<open>\<open>binary.BigEndian.PutUint64\<close>, \<open>binary.BigEndian.Uint32\<close> and \<open>%06d\<close>.\<close>

definition big_endian8 :: "64 word \<Rightarrow> byte list" where
  "big_endian8 n = map (\<lambda>k. ucast (drop_bit (8 * k) n)) (rev [0..<8])"

definition big_endian_word :: "byte list \<Rightarrow> 32 word" where
  "big_endian_word bs = foldl (\<lambda>a b. push_bit 8 a OR ucast b) 0 bs"

definition six_digits :: "nat \<Rightarrow> string" where
  "six_digits n = (let s = itoa_nat n in replicate (6 - length s) (CHR ''0'') @ s)"

definition calculate_totp :: "(byte list \<Rightarrow> byte list \<Rightarrow> byte list) \<Rightarrow> byte list \<Rightarrow> 64 word \<Rightarrow> string" where
  "calculate_totp hmac key counter =
     (let sum = hmac key (big_endian8 counter);
          offset = unat (last sum AND 15);
          code = big_endian_word (take 4 (drop offset sum)) AND 0x7fffffff
      in six_digits (unat code mod 1000000))"

definition totp_step :: "time \<Rightarrow> int" where
  "totp_step now = quot (unix now) 30"

definition totp_key :: "string \<Rightarrow> byte list option" where
  "totp_key secret =
     (let trimmed = map upper_char (trim_space secret);
          missing = length trimmed mod 8;
          padded = (if 0 < missing then trimmed @ replicate (8 - missing) (CHR ''='') else trimmed)
      in if trimmed = [] then None
         else decode32 (filter (\<lambda>c. c \<noteq> CHR 0x0A \<and> c \<noteq> CHR 0x0D) padded))"

definition validate_totp :: "(byte list \<Rightarrow> byte list \<Rightarrow> byte list) \<Rightarrow> time \<Rightarrow> string \<Rightarrow> string \<Rightarrow> bool" where
  "validate_totp hmac now secret code =
     (case totp_key secret of
        None \<Rightarrow> False
      | Some key \<Rightarrow>
          (let sent = trim_space code
           in length sent = 6 \<and>
              list_ex (\<lambda>d. calculate_totp hmac key (word_of_int (totp_step now + d)) = sent) [- 1, 0, 1]))"

end
