(* ===== verification/Sign_In.thy ===== *)
theory Sign_In
  imports Portal_Sessions Portal_Users Totp Tokens Ban_Guard
begin

text \<open>
  The ways into the portal: a mailed link (\<open>handleAdminMagicLink\<close>, \<open>handleAdminVerify\<close> of \<open>server.go\<close>), the second
  factor (\<open>api_service_mfa.go\<close>), single sign-on from the verified claims on (\<open>sso.go\<close>), and what a session then is
  worth: the current user (\<open>api.go\<close>) and the preview of another role (\<open>view_as.go\<close>).

  With a database, as deployed. The digest of a token, the tokens drawn, the clock, the outcome of each
  statement and the claims of the identity provider are inputs.
\<close>

section \<open>State\<close>

record portal_config =
  pc_owner :: string
  pc_ownerName :: string
  pc_allowedEmailDomains :: "string list"
  pc_disableEmailLogin :: bool
  pc_disableNewRegistrations :: bool
  pc_enforcePolicyConsent :: bool
  pc_magicLinkExpiry :: duration
  pc_inviteLinkExpiry :: duration
  pc_verificationLinkExpiry :: duration
  pc_session :: session_config

record pre_auth =
  pa_email :: string
  pa_clientIP :: string
  pa_expiresAt :: time

record portal =
  po_users :: accounts
  po_links :: link_store
  po_sessions :: session_store
  po_preAuth :: "(string, pre_auth) table"
  po_maintenance :: bool
  po_tokens :: token_store
  po_guard :: guard

record portal_faults =
  pf_readLink :: bool
  pf_markLink :: bool
  pf_invalidate :: bool
  pf_createLink :: bool
  pf_readUser :: bool
  pf_createUser :: bool
  pf_writeUser :: bool
  pf_writeLogin :: bool
  pf_createToken :: bool
  pf_writeBan :: bool
  pf_sessions :: session_faults

definition no_portal_faults :: portal_faults where
  "no_portal_faults = \<lparr>pf_readLink = False, pf_markLink = False, pf_invalidate = False, pf_createLink = False, pf_readUser = False,
     pf_createUser = False, pf_writeUser = False, pf_writeLogin = False, pf_createToken = False,
     pf_writeBan = False, pf_sessions = no_session_faults\<rparr>"

datatype user_lookup = Found account | Missing | Unreadable

definition look_up_user :: "portal_faults \<Rightarrow> string \<Rightarrow> portal \<Rightarrow> user_lookup" where
  "look_up_user f email st =
     (if pf_readUser f then Unreadable
      else case get_user_by_email email (po_users st) of None \<Rightarrow> Missing | Some a \<Rightarrow> Found a)"

definition save_user :: "bool \<Rightarrow> account \<Rightarrow> portal \<Rightarrow> portal option" where
  "save_user fails a st =
     (if fails then None else map_option (\<lambda>rows. st\<lparr>po_users := rows\<rparr>) (update_user a (po_users st)))"

definition save_user_or_not :: "bool \<Rightarrow> account \<Rightarrow> portal \<Rightarrow> portal" where
  "save_user_or_not fails a st = (case save_user fails a st of None \<Rightarrow> st | Some st' \<Rightarrow> st')"

definition insert_user :: "bool \<Rightarrow> account \<Rightarrow> portal \<Rightarrow> portal option" where
  "insert_user fails a st =
     (if fails then None else map_option (\<lambda>rows. st\<lparr>po_users := rows\<rparr>) (create_user a (po_users st)))"

definition is_configured_owner :: "portal_config \<Rightarrow> string \<Rightarrow> bool" where
  "is_configured_owner cfg email \<longleftrightarrow> pc_owner cfg \<noteq> [] \<and> equal_fold email (pc_owner cfg)"

definition domain_allowed :: "portal_config \<Rightarrow> string \<Rightarrow> bool" where
  "domain_allowed cfg email \<longleftrightarrow> list_ex (\<lambda>d. has_suffix email (CHR ''@'' # d)) (pc_allowedEmailDomains cfg)"

text \<open>A user as the handlers build one: what they do not name is empty.\<close>

definition new_account :: "string \<Rightarrow> string \<Rightarrow> string \<Rightarrow> string \<Rightarrow> time \<Rightarrow> account" where
  "new_account i email role status now =
     \<lparr>u_id = i, u_email = email, u_role = role, u_status = status, u_preferredDomain = [], u_languagePreference = [],
      u_themePreference = [], u_lastClientVersion = [], u_lastClientOS = [], u_subdomainStyle = [], u_rateLimit = 0,
      u_maxReservations = None, u_maxCustomDomains = None, u_maxTunnels = None, u_bandwidthQuotaBytes = None,
      ac_firstName = [], ac_lastName = [], ac_preferredName = [], ac_verificationToken = None, ac_approvalToken = None,
      ac_claimToken = None, ac_authMethod = [], ac_notificationPrefs = [], ac_createdAt = now, ac_lastLoginAt = None,
      ac_lastLoginIP = [], ac_totpSecret = [], ac_totpEnabled = False, ac_policyConsentAt = None, ac_diagnosticsConsentAt = None\<rparr>"

section \<open>Asking for a link\<close>

text \<open>The answer to the caller is the same in every case but the first; the token is mailed, not answered.\<close>

datatype link_outcome = Email_login_disabled | Nothing_mailed | Link_mailed string

definition handle_magic_link ::
  "portal_config \<Rightarrow> (string \<Rightarrow> string) \<Rightarrow> portal_faults \<Rightarrow> time \<Rightarrow> string \<Rightarrow> string \<Rightarrow> string \<Rightarrow> portal \<Rightarrow> link_outcome \<times> portal" where
  "handle_magic_link cfg digest f now ip token raw st =
     (let email = to_lower (trim_space raw);
          owner = (pc_owner cfg \<noteq> [] \<and> email = pc_owner cfg)
      in if pc_disableEmailLogin cfg then (Email_login_disabled, st)
         else if pc_allowedEmailDomains cfg \<noteq> [] \<and> \<not> owner \<and> \<not> domain_allowed cfg email then (Nothing_mailed, st)
         else if \<not> owner \<and> (case look_up_user f email st of Found a \<Rightarrow> u_status a \<noteq> status_approved | _ \<Rightarrow> True)
           then (Nothing_mailed, st)
         else (let l1 = (if pf_invalidate f then po_links st else invalidate_other_magic_links now email None (po_links st));
                   l2 = (if pf_createLink f then l1
                         else create_magic_link email (digest token) ip (now + pc_magicLinkExpiry cfg) l1)
               in (Link_mailed token, st\<lparr>po_links := l2\<rparr>)))"

section \<open>Opening a session\<close>

text \<open>What every way in ends with: the sessions of the account end, the new one begins. The token is empty when
  none could be drawn.\<close>

definition open_session ::
  "portal_config \<Rightarrow> (string \<Rightarrow> string) \<Rightarrow> session_faults \<Rightarrow> time \<Rightarrow> bool \<Rightarrow> string \<Rightarrow> string \<Rightarrow> string \<Rightarrow> time option \<Rightarrow> string \<Rightarrow> portal
   \<Rightarrow> session_cookie \<times> portal" where
  "open_session cfg digest f now tls proto ip email previous token st =
     (case kill_portal_sessions_for f email (po_sessions st) of
        (killed, s1) \<Rightarrow>
          (let d = \<lparr>ps_email = email, ps_expiresAt = now + sc_duration (pc_session cfg), ps_clientIP = ip,
                    ps_previousLoginAt = previous, ps_killedPrevious = killed, ps_viewAsRole = [], ps_sameSite = ''Lax'',
                    ps_createdAt = Some now\<rparr>
           in (new_session_cookie tls proto token ''Lax'' (session_deadline (pc_session cfg) d),
               st\<lparr>po_sessions := store_portal_session digest f now token d s1\<rparr>)))"

section \<open>Following a link\<close>

datatype verify_outcome =
    Link_unknown_or_used
  | Link_expired
  | Under_maintenance
  | No_token_drawn
  | Second_factor_required string
  | Signed_in session_cookie

definition owner_account :: "portal_config \<Rightarrow> string \<Rightarrow> time \<Rightarrow> account" where
  "owner_account cfg email now =
     inserted ((new_account (pc_owner cfg) email ''owner'' status_approved now)\<lparr>ac_firstName := pc_ownerName cfg\<rparr>)"

text \<open>The user of a link: found, or made up for the configured owner. A failed read counts as absence.\<close>

definition link_user :: "portal_config \<Rightarrow> portal_faults \<Rightarrow> time \<Rightarrow> string \<Rightarrow> portal \<Rightarrow> account option \<times> portal" where
  "link_user cfg f now email st =
     (case look_up_user f email st of
        Found a \<Rightarrow> (Some a, st)
      | _ \<Rightarrow>
          (if is_configured_owner cfg email
           then (Some (owner_account cfg email now),
                 case insert_user (pf_createUser f) (owner_account cfg email now) st of None \<Rightarrow> st | Some st' \<Rightarrow> st')
           else (None, st)))"

definition record_language :: "portal_faults \<Rightarrow> string \<Rightarrow> account option \<times> portal \<Rightarrow> account option \<times> portal" where
  "record_language f lang p =
     (case p of
        (Some a, st) \<Rightarrow>
          (if lang \<noteq> [] \<and> lang \<noteq> u_languagePreference a
           then (Some (a\<lparr>u_languagePreference := lang\<rparr>), save_user_or_not (pf_writeUser f) (a\<lparr>u_languagePreference := lang\<rparr>) st)
           else (Some a, st))
      | (None, st) \<Rightarrow> (None, st))"

definition record_login :: "portal_faults \<Rightarrow> time \<Rightarrow> string \<Rightarrow> account \<Rightarrow> portal \<Rightarrow> portal" where
  "record_login f now ip a st =
     save_user_or_not (pf_writeLogin f) (a\<lparr>ac_lastLoginAt := Some now, ac_lastLoginIP := ip\<rparr>) st"

definition may_enter_maintenance :: "portal_config \<Rightarrow> string \<Rightarrow> account option \<Rightarrow> bool" where
  "may_enter_maintenance cfg email user \<longleftrightarrow>
     (case user of None \<Rightarrow> False | Some a \<Rightarrow> u_role a = ''admin'' \<or> u_role a = ''owner'') \<or> is_configured_owner cfg email"

definition pre_auth_life :: duration where "pre_auth_life = 5 * minute"

definition handle_verify ::
  "portal_config \<Rightarrow> (string \<Rightarrow> string) \<Rightarrow> portal_faults \<Rightarrow> time \<Rightarrow> bool \<Rightarrow> string \<Rightarrow> string \<Rightarrow> string \<Rightarrow> string \<Rightarrow> string option \<Rightarrow> string \<Rightarrow> portal
   \<Rightarrow> verify_outcome \<times> portal" where
  "handle_verify cfg digest f now tls proto ip lang sessionToken tempToken token st =
     (case (if pf_readLink f then None else get_magic_link (digest token) (po_links st)) of
        None \<Rightarrow> (Link_unknown_or_used, st)
      | Some l \<Rightarrow>
          (if ml_usedAt l \<noteq> None then (Link_unknown_or_used, st)
           else if ml_expiresAt l < now then (Link_expired, st)
           else
             (let email = ml_email l;
                  l1 = (if pf_markLink f then po_links st else mark_magic_link_used now (ml_id l) (po_links st));
                  l2 = (if pf_invalidate f then l1 else invalidate_other_magic_links now email (Some (ml_id l)) l1)
              in case record_language f lang (link_user cfg f now email (st\<lparr>po_links := l2\<rparr>)) of
                (user, st2) \<Rightarrow>
                  (if po_maintenance st2 \<and> \<not> may_enter_maintenance cfg email user then (Under_maintenance, st2)
                   else if (case user of None \<Rightarrow> False | Some a \<Rightarrow> ac_totpEnabled a) then
                     (case tempToken of
                        None \<Rightarrow> (No_token_drawn, st2)
                      | Some t \<Rightarrow> (Second_factor_required t, st2\<lparr>po_preAuth := put t \<lparr>pa_email = email, pa_clientIP = ip,
                          pa_expiresAt = now + pre_auth_life\<rparr> (po_preAuth st2)\<rparr>))
                   else
                     (let st3 = (case user of None \<Rightarrow> st2 | Some a \<Rightarrow> record_login f now ip a st2)
                      in case open_session cfg digest (pf_sessions f) now tls proto ip email
                             (case user of None \<Rightarrow> None | Some a \<Rightarrow> ac_lastLoginAt a) sessionToken st3 of
                        (cookie, st4) \<Rightarrow> (Signed_in cookie, st4))))))"

section \<open>The second factor\<close>

datatype mfa_outcome = Mfa_unauthorized | Mfa_error | Mfa_signed_in session_cookie

definition mfa_verify ::
  "portal_config \<Rightarrow> (byte list \<Rightarrow> byte list \<Rightarrow> byte list) \<Rightarrow> (string \<Rightarrow> string) \<Rightarrow> portal_faults \<Rightarrow> time \<Rightarrow> bool \<Rightarrow> string \<Rightarrow> string \<Rightarrow> string option
   \<Rightarrow> string \<Rightarrow> string \<Rightarrow> portal \<Rightarrow> mfa_outcome \<times> portal" where
  "mfa_verify cfg hmac digest f now tls proto ip sessionToken tempToken code st =
     (case get (po_preAuth st) tempToken of
        None \<Rightarrow> (Mfa_unauthorized, st)
      | Some p \<Rightarrow>
          (let st1 = st\<lparr>po_preAuth := del tempToken (po_preAuth st)\<rparr>
           in if pa_expiresAt p < now then (Mfa_unauthorized, st1)
              else case look_up_user f (pa_email p) st1 of
                Found a \<Rightarrow>
                  (if \<not> validate_totp hmac now (ac_totpSecret a) code
                   then (Mfa_unauthorized, st1\<lparr>po_preAuth := put tempToken (p\<lparr>pa_expiresAt := now + pre_auth_life\<rparr>) (po_preAuth st1)\<rparr>)
                   else case sessionToken of
                     None \<Rightarrow> (Mfa_error, st1)
                   | Some t \<Rightarrow>
                       (case open_session cfg digest (pf_sessions f) now tls proto ip (u_email a) (ac_lastLoginAt a) t
                               (record_login f now ip a st1) of
                          (cookie, st2) \<Rightarrow> (Mfa_signed_in cookie, st2)))
              | _ \<Rightarrow> (Mfa_unauthorized, st1)))"

text \<open>Turning it on and off, for the user a session stands for; the answer says whether it was done.\<close>

definition mfa_enable :: "(byte list \<Rightarrow> byte list \<Rightarrow> byte list) \<Rightarrow> portal_faults \<Rightarrow> time \<Rightarrow> account \<Rightarrow> string \<Rightarrow> string \<Rightarrow> portal \<Rightarrow> bool \<times> portal" where
  "mfa_enable hmac f now a secret code st =
     (if \<not> validate_totp hmac now secret code then (False, st)
      else case save_user (pf_writeUser f) (a\<lparr>ac_totpSecret := secret, ac_totpEnabled := True\<rparr>) st of
        None \<Rightarrow> (False, st) | Some st' \<Rightarrow> (True, st'))"

definition mfa_disable :: "(byte list \<Rightarrow> byte list \<Rightarrow> byte list) \<Rightarrow> portal_faults \<Rightarrow> time \<Rightarrow> account \<Rightarrow> string \<Rightarrow> portal \<Rightarrow> bool \<times> portal" where
  "mfa_disable hmac f now a code st =
     (if \<not> validate_totp hmac now (ac_totpSecret a) code then (False, st)
      else case save_user (pf_writeUser f) (a\<lparr>ac_totpSecret := [], ac_totpEnabled := False\<rparr>) st of
        None \<Rightarrow> (False, st) | Some st' \<Rightarrow> (True, st'))"

section \<open>Single sign-on\<close>

datatype sso_outcome =
    Sso_email_required | Sso_domain_refused | Sso_closed | Sso_declined | Sso_failed | Sso_signed_in session_cookie

text \<open>A user who is not approved is approved by signing in, unless the registration was rejected.\<close>

definition approve_on_sso :: "portal_faults \<Rightarrow> time \<Rightarrow> account \<Rightarrow> portal \<Rightarrow> sso_outcome + portal" where
  "approve_on_sso f now a st =
     (if u_status a = status_rejected then Inl Sso_declined
      else case save_user (pf_writeUser f) (a\<lparr>u_status := status_approved, ac_approvalToken := None, ac_lastLoginAt := Some now\<rparr>) st of
        None \<Rightarrow> Inl Sso_failed | Some st' \<Rightarrow> Inr st')"

definition sso_user :: "portal_config \<Rightarrow> portal_faults \<Rightarrow> time \<Rightarrow> string \<Rightarrow> string \<Rightarrow> string \<Rightarrow> string \<Rightarrow> portal \<Rightarrow> sso_outcome + portal" where
  "sso_user cfg f now provider email given family st =
     (case look_up_user f email st of
        Unreadable \<Rightarrow> Inl Sso_failed
      | Missing \<Rightarrow>
          (if pc_disableNewRegistrations cfg \<and> \<not> equal_fold email (pc_owner cfg) then Inl Sso_closed
           else (let role = (if equal_fold email (pc_owner cfg) then ''owner'' else ''user'');
                     a = (new_account email email role status_approved now)\<lparr>ac_firstName := given, ac_lastName := family,
                           ac_authMethod := ''sso - '' @ provider\<rparr>
                 in case insert_user (pf_createUser f) a st of None \<Rightarrow> Inl Sso_failed | Some st' \<Rightarrow> Inr st'))
      | Found a \<Rightarrow> if u_status a \<noteq> status_approved then approve_on_sso f now a st else Inr st)"

definition handle_sso_claims ::
  "portal_config \<Rightarrow> (string \<Rightarrow> string) \<Rightarrow> portal_faults \<Rightarrow> time \<Rightarrow> bool \<Rightarrow> string \<Rightarrow> string \<Rightarrow> string option \<Rightarrow> string \<Rightarrow> string \<Rightarrow> string \<Rightarrow> string \<Rightarrow> portal
   \<Rightarrow> sso_outcome \<times> portal" where
  "handle_sso_claims cfg digest f now tls proto ip sessionToken provider raw given family st =
     (let email = to_lower (trim_space raw)
      in if email = [] then (Sso_email_required, st)
         else if pc_allowedEmailDomains cfg \<noteq> [] \<and> \<not> domain_allowed cfg email then (Sso_domain_refused, st)
         else case sso_user cfg f now provider email given family st of
           Inl e \<Rightarrow> (e, st)
         | Inr st1 \<Rightarrow>
             (case sessionToken of
                None \<Rightarrow> (Sso_failed, st1)
              | Some t \<Rightarrow>
                  (case open_session cfg digest (pf_sessions f) now tls proto ip email None t st1 of
                     (cookie, st2) \<Rightarrow> (Sso_signed_in cookie, st2))))"

section \<open>What a session is worth\<close>

definition handle_logout :: "(string \<Rightarrow> string) \<Rightarrow> portal_faults \<Rightarrow> string \<Rightarrow> portal \<Rightarrow> portal" where
  "handle_logout digest f cookie st =
     st\<lparr>po_sessions := delete_portal_session digest (pf_sessions f) cookie (po_sessions st)\<rparr>"

text \<open>The user of a cookie, as they are; the configured owner is one without a row too.\<close>

definition get_current_user_raw ::
  "portal_config \<Rightarrow> (string \<Rightarrow> string) \<Rightarrow> portal_faults \<Rightarrow> time \<Rightarrow> string \<Rightarrow> portal \<Rightarrow> account option \<times> portal" where
  "get_current_user_raw cfg digest f now cookie st =
     (case load_portal_session digest (pf_sessions f) now cookie (po_sessions st) of
        (None, s) \<Rightarrow> (None, st\<lparr>po_sessions := s\<rparr>)
      | (Some d, s) \<Rightarrow>
          ((case look_up_user f (ps_email d) st of
              Found a \<Rightarrow> Some a
            | _ \<Rightarrow> (if is_configured_owner cfg (ps_email d)
                    then Some ((new_account (pc_owner cfg) (ps_email d) ''owner'' [] 0)\<lparr>ac_firstName := pc_ownerName cfg\<rparr>)
                    else None)),
           st\<lparr>po_sessions := s\<rparr>))"

definition view_as_role :: "string \<Rightarrow> bool" where
  "view_as_role role \<longleftrightarrow> role \<in> {''admin'', ''user''}"

definition session_view_as_role :: "(string \<Rightarrow> string) \<Rightarrow> portal_faults \<Rightarrow> time \<Rightarrow> string \<Rightarrow> portal \<Rightarrow> string" where
  "session_view_as_role digest f now cookie st =
     (case fst (load_portal_session digest (pf_sessions f) now cookie (po_sessions st)) of None \<Rightarrow> [] | Some d \<Rightarrow> ps_viewAsRole d)"

text \<open>The user a handler sees: the owner who previews a role is shown as one of that role.\<close>

definition get_current_user ::
  "portal_config \<Rightarrow> (string \<Rightarrow> string) \<Rightarrow> portal_faults \<Rightarrow> time \<Rightarrow> string \<Rightarrow> portal \<Rightarrow> account option \<times> portal" where
  "get_current_user cfg digest f now cookie st =
     (case get_current_user_raw cfg digest f now cookie st of
        (None, st1) \<Rightarrow> (None, st1)
      | (Some a, st1) \<Rightarrow>
          (let role = session_view_as_role digest f now cookie st1
           in (if role = [] \<or> \<not> equal_fold (u_role a) ''owner'' \<or> \<not> view_as_role role then Some a else Some (a\<lparr>u_role := role\<rparr>), st1)))"

definition is_mutating_method :: "string \<Rightarrow> bool" where
  "is_mutating_method verb \<longleftrightarrow> verb \<notin> {''GET'', ''HEAD'', ''OPTIONS''}"

definition view_as_exempt_path :: "string \<Rightarrow> bool" where
  "view_as_exempt_path path \<longleftrightarrow> path \<in> {''/api/me/view-as'', ''/api/auth/logout''}"

definition refused_as_read_only :: "(string \<Rightarrow> string) \<Rightarrow> portal_faults \<Rightarrow> time \<Rightarrow> string \<Rightarrow> string \<Rightarrow> string \<Rightarrow> portal \<Rightarrow> bool" where
  "refused_as_read_only digest f now verb path cookie st \<longleftrightarrow>
     has_prefix path ''/api/'' \<and> is_mutating_method verb \<and> \<not> view_as_exempt_path path \<and>
     session_view_as_role digest f now cookie st \<noteq> []"

datatype view_as_outcome = Not_authenticated | Not_the_owner | Unsupported_role | Session_not_found | Viewing_as string

definition handle_view_as ::
  "portal_config \<Rightarrow> (string \<Rightarrow> string) \<Rightarrow> portal_faults \<Rightarrow> time \<Rightarrow> string \<Rightarrow> string \<Rightarrow> portal \<Rightarrow> view_as_outcome \<times> portal" where
  "handle_view_as cfg digest f now raw cookie st =
     (case get_current_user_raw cfg digest f now cookie st of
        (None, st1) \<Rightarrow> (Not_authenticated, st1)
      | (Some a, st1) \<Rightarrow>
          (if \<not> equal_fold (u_role a) ''owner'' then (Not_the_owner, st1)
           else (let role = to_lower (trim_space raw)
                 in if role \<noteq> [] \<and> \<not> view_as_role role then (Unsupported_role, st1)
                    else case load_portal_session digest (pf_sessions f) now cookie (po_sessions st1) of
                      (None, s) \<Rightarrow> (Session_not_found, st1\<lparr>po_sessions := s\<rparr>)
                    | (Some d, s) \<Rightarrow>
                        (Viewing_as role,
                         st1\<lparr>po_sessions := store_portal_session digest (pf_sessions f) now cookie (d\<lparr>ps_viewAsRole := role\<rparr>) s\<rparr>))))"

end
