(* ===== verification/Onboarding.thy ===== *)
theory Onboarding
  imports Sign_In
begin

text \<open>
  How an account comes to be and changes its standing: registration, its completion and its verification, the
  decision by the mailed links, the claim of the first token, the invitation, and an administrator's change
  (\<open>server.go\<close>, \<open>register_reject.go\<close>); the links by which a receiver reports or declines (\<open>magiclink.go\<close>); deletion
  (\<open>api.go\<close>). Mail, audit entries and pages are left out; a token that goes out in a mail is in the outcome.
\<close>

section \<open>Registration\<close>

definition two_part_domain_refused :: "portal_config \<Rightarrow> string \<Rightarrow> bool" where
  "two_part_domain_refused cfg email \<longleftrightarrow>
     pc_allowedEmailDomains cfg \<noteq> [] \<and>
     (let parts = split_on (CHR ''@'') email
      in length parts = 2 \<and> \<not> list_ex (\<lambda>d. parts ! 1 = d) (pc_allowedEmailDomains cfg))"

record profile =
  pr_firstName :: string
  pr_lastName :: string
  pr_preferredName :: string

datatype register_outcome =
    Registration_disabled | Address_invalid | Address_refused | Already_known | Not_saved | Verification_mailed string string

text \<open>The answer to a known address is that of a success. The tokens are absent when none could be drawn; a failed
  read counts as absence.\<close>

definition handle_register_request ::
  "portal_config \<Rightarrow> portal_faults \<Rightarrow> time \<Rightarrow> string option \<Rightarrow> string option \<Rightarrow> string \<Rightarrow> profile \<Rightarrow> portal \<Rightarrow> register_outcome \<times> portal" where
  "handle_register_request cfg f now approval verification raw p st =
     (if pc_disableEmailLogin cfg \<or> pc_disableNewRegistrations cfg then (Registration_disabled, st)
      else
        (let email = to_lower (trim_space raw)
         in if email = [] \<or> CHR ''@'' \<notin> set email then (Address_invalid, st)
            else if two_part_domain_refused cfg email then (Address_refused, st)
            else if \<not> pf_readUser f \<and> get_user email (po_users st) \<noteq> None then (Already_known, st)
            else case (approval, verification) of
              (Some a, Some v) \<Rightarrow>
                (let u = (new_account email email ''user'' status_unverified now)\<lparr>ac_firstName := pr_firstName p,
                       ac_lastName := pr_lastName p, ac_preferredName := pr_preferredName p, ac_approvalToken := Some a,
                       ac_verificationToken := Some v, ac_authMethod := ''registration''\<rparr>
                 in case insert_user (pf_createUser f) u st of
                      None \<Rightarrow> (Not_saved, st)
                    | Some st' \<Rightarrow> (Verification_mailed v email, st'))
            | _ \<Rightarrow> (Not_saved, st)))"

text \<open>The two ways to confirm the address lead to the same standing; the approval link goes to the administrator.\<close>

datatype confirm_outcome = Consent_required | Token_invalid | Link_too_old | Not_updated | Decision_mailed string string

definition unverified_by_token :: "portal_config \<Rightarrow> portal_faults \<Rightarrow> time \<Rightarrow> string \<Rightarrow> portal \<Rightarrow> confirm_outcome + account" where
  "unverified_by_token cfg f now token st =
     (case (if pf_readUser f then None else get_user_by_verification_token token (po_users st)) of
        None \<Rightarrow> Inl Token_invalid
      | Some a \<Rightarrow>
          (if u_status a \<noteq> status_unverified then Inl Token_invalid
           else if ac_createdAt a + pc_verificationLinkExpiry cfg < now then Inl Link_too_old
           else Inr a))"

definition make_pending :: "portal_faults \<Rightarrow> account \<Rightarrow> portal \<Rightarrow> confirm_outcome \<times> portal" where
  "make_pending f a st =
     (case save_user (pf_writeUser f) (a\<lparr>u_status := status_pending, ac_verificationToken := None\<rparr>) st of
        None \<Rightarrow> (Not_updated, st)
      | Some st' \<Rightarrow> (Decision_mailed (column (ac_approvalToken a)) (u_email a), st'))"

definition handle_complete_setup ::
  "portal_config \<Rightarrow> portal_faults \<Rightarrow> time \<Rightarrow> string \<Rightarrow> profile \<Rightarrow> bool \<Rightarrow> bool \<Rightarrow> portal \<Rightarrow> confirm_outcome \<times> portal" where
  "handle_complete_setup cfg f now token p consent diagnostics st =
     (if pc_enforcePolicyConsent cfg \<and> \<not> consent then (Consent_required, st)
      else case unverified_by_token cfg f now token st of
        Inl e \<Rightarrow> (e, st)
      | Inr a \<Rightarrow>
          make_pending f
            (a\<lparr>ac_firstName := pr_firstName p, ac_lastName := pr_lastName p,
               ac_preferredName := (if pr_preferredName p = [] then pr_firstName p else pr_preferredName p),
               ac_policyConsentAt := (if consent then Some now else ac_policyConsentAt a),
               ac_diagnosticsConsentAt := (if diagnostics then Some now else ac_diagnosticsConsentAt a)\<rparr>) st)"

definition handle_verify_email :: "portal_config \<Rightarrow> portal_faults \<Rightarrow> time \<Rightarrow> string \<Rightarrow> portal \<Rightarrow> confirm_outcome \<times> portal" where
  "handle_verify_email cfg f now token st =
     (if token = [] then (Token_invalid, st)
      else case unverified_by_token cfg f now token st of Inl e \<Rightarrow> (e, st) | Inr a \<Rightarrow> make_pending f a st)"

section \<open>The decision\<close>

text \<open>A link is good for a pending account with exactly this token. Fetching it only shows what would happen.\<close>

datatype decision_outcome =
    Decision_incomplete | Request_not_found | Already_processed | Confirmation_shown | Decision_failed | Approved_with string | Rejected_now

definition decision_for :: "portal_faults \<Rightarrow> string \<Rightarrow> string \<Rightarrow> portal \<Rightarrow> decision_outcome + account" where
  "decision_for f email token st =
     (if email = [] \<or> token = [] then Inl Decision_incomplete
      else case (if pf_readUser f then None else get_user email (po_users st)) of
        None \<Rightarrow> Inl Request_not_found
      | Some a \<Rightarrow>
          (if u_status a \<noteq> status_pending \<or> column (ac_approvalToken a) \<noteq> token then Inl Already_processed else Inr a))"

text \<open>A token is minted for the account and kept, behind the claim token, in the account until it is claimed. It stays
  when the account then cannot be updated.\<close>

definition handle_approve ::
  "(string \<Rightarrow> string) \<Rightarrow> portal_faults \<Rightarrow> time \<Rightarrow> bool \<Rightarrow> string \<Rightarrow> string \<Rightarrow> string option \<Rightarrow> nat list option \<Rightarrow> portal
   \<Rightarrow> decision_outcome \<times> portal" where
  "handle_approve digest f now posted email token claim random st =
     (case decision_for f email token st of
        Inl e \<Rightarrow> (e, st)
      | Inr a \<Rightarrow>
          (if \<not> posted then (Confirmation_shown, st)
           else case claim of
             None \<Rightarrow> (Decision_failed, st)
           | Some c \<Rightarrow>
               (case (if pf_createToken f then None else mint_claim_token digest random now (u_id a) (po_tokens st)) of
                  None \<Rightarrow> (Decision_failed, st)
                | Some (pat, tokens) \<Rightarrow>
                    (let st1 = st\<lparr>po_tokens := tokens\<rparr>
                     in case save_user (pf_writeUser f) (a\<lparr>u_status := status_approved, ac_approvalToken := None,
                               ac_claimToken := Some (c @ '':'' @ pat)\<rparr>) st1 of
                          None \<Rightarrow> (Decision_failed, st1)
                        | Some st2 \<Rightarrow> (Approved_with c, st2)))))"

definition handle_reject ::
  "portal_faults \<Rightarrow> bool \<Rightarrow> string \<Rightarrow> string \<Rightarrow> portal \<Rightarrow> decision_outcome \<times> portal" where
  "handle_reject f posted email token st =
     (case decision_for f email token st of
        Inl e \<Rightarrow> (e, st)
      | Inr a \<Rightarrow>
          (if \<not> posted then (Confirmation_shown, st)
           else case save_user (pf_writeUser f) (a\<lparr>u_status := status_rejected, ac_approvalToken := None\<rparr>) st of
             None \<Rightarrow> (Decision_failed, st)
           | Some st' \<Rightarrow> (Rejected_now, st')))"

text \<open>The token is handed out once: the column is emptied first.\<close>

definition claimed_by :: "string \<Rightarrow> account \<Rightarrow> bool" where
  "claimed_by token a \<longleftrightarrow> column (ac_claimToken a) \<noteq> [] \<and> has_prefix (column (ac_claimToken a)) (token @ '':'')"

definition handle_claim :: "portal_faults \<Rightarrow> string \<Rightarrow> portal \<Rightarrow> string option \<times> portal" where
  "handle_claim f token st =
     (if token = [] \<or> pf_readUser f then (None, st)
      else case find (claimed_by token) (po_users st) of
        None \<Rightarrow> (None, st)
      | Some a \<Rightarrow>
          (case save_user (pf_writeUser f) (a\<lparr>ac_claimToken := None\<rparr>) st of
             None \<Rightarrow> (None, st)
           | Some st' \<Rightarrow> (Some (trim_prefix (column (ac_claimToken a)) (token @ '':'')), st')))"

section \<open>Invitation and change by an administrator\<close>

datatype invite_outcome = Invite_address_invalid | Invite_refused | Invite_conflict | Invite_failed | Invited string string

definition handle_invite ::
  "portal_config \<Rightarrow> (string \<Rightarrow> string) \<Rightarrow> portal_faults \<Rightarrow> time \<Rightarrow> string \<Rightarrow> string option \<Rightarrow> string \<Rightarrow> string \<Rightarrow> string \<Rightarrow> string \<Rightarrow> portal
   \<Rightarrow> invite_outcome \<times> portal" where
  "handle_invite cfg digest f now ip token raw given family lang st =
     (let email = to_lower (trim_space raw)
      in if email = [] \<or> CHR ''@'' \<notin> set email then (Invite_address_invalid, st)
         else if two_part_domain_refused cfg email then (Invite_refused, st)
         else if (case look_up_user f email st of Found a \<Rightarrow> True | _ \<Rightarrow> False) then (Invite_conflict, st)
         else
           (let u = (new_account email email ''user'' status_approved now)\<lparr>ac_firstName := given, ac_lastName := family,
                  ac_preferredName := given, u_themePreference := ''system'', u_languagePreference := lang, ac_authMethod := ''invite''\<rparr>
            in case insert_user (pf_createUser f) u st of
              None \<Rightarrow> (Invite_failed, st)
            | Some st1 \<Rightarrow>
                (case token of
                   None \<Rightarrow> (Invite_failed, st1)
                 | Some t \<Rightarrow>
                     (Invited t email,
                      if pf_createLink f then st1
                      else st1\<lparr>po_links := create_magic_link email (digest t) ip (now + pc_inviteLinkExpiry cfg) (po_links st1)\<rparr>))))"

record patch_request =
  pq_role :: "string option"
  pq_status :: "string option"
  pq_resetMFA :: "bool option"
  pq_rateLimit :: "int option"
  pq_maxReservations :: "int option"
  pq_maxCustomDomains :: "int option"
  pq_maxTunnels :: "int option"
  pq_bandwidthQuotaBytes :: "int option"
  pq_preferredDomain :: "string option"

datatype patch_outcome =
    Patch_no_user | Patch_unreadable | Patch_forbidden | Only_owner_sets_roles | Admins_uncounted | Last_admin_kept
  | Status_unknown | Limit_negative | Patch_not_saved | Patched account

definition account_by_email :: "portal \<Rightarrow> string \<Rightarrow> user option" where
  "account_by_email st email = map_option user.truncate (get_user_by_email email (po_users st))"

text \<open>Whom an actor may change: the owner anybody but an owner, an administrator only ordinary users.\<close>

definition may_patch :: "portal_config \<Rightarrow> string \<Rightarrow> account \<Rightarrow> portal \<Rightarrow> bool" where
  "may_patch cfg actor a st \<longleftrightarrow>
     (if \<not> is_owner (pc_owner cfg) (account_by_email st) actor
      then \<not> (equal_fold (u_email a) (pc_owner cfg) \<or> u_role a = ''owner'' \<or> u_role a = ''admin'' \<or> equal_fold (u_email a) actor)
      else \<not> (equal_fold (u_email a) (pc_owner cfg) \<or> u_role a = ''owner''))"

definition or_else :: "'a option \<Rightarrow> 'a \<Rightarrow> 'a" where
  "or_else x d = (case x of None \<Rightarrow> d | Some v \<Rightarrow> v)"

definition patched :: "patch_request \<Rightarrow> account \<Rightarrow> account" where
  "patched q a =
     (let reset = (pq_resetMFA q = Some True)
      in a\<lparr>u_role := or_else (pq_role q) (u_role a), u_status := or_else (pq_status q) (u_status a),
           ac_totpSecret := (if reset then [] else ac_totpSecret a), ac_totpEnabled := (if reset then False else ac_totpEnabled a),
           u_rateLimit := or_else (pq_rateLimit q) (u_rateLimit a),
           u_maxReservations := (if pq_maxReservations q = None then u_maxReservations a else pq_maxReservations q),
           u_maxCustomDomains := (if pq_maxCustomDomains q = None then u_maxCustomDomains a else pq_maxCustomDomains q),
           u_maxTunnels := (if pq_maxTunnels q = None then u_maxTunnels a else pq_maxTunnels q),
           u_bandwidthQuotaBytes := (if pq_bandwidthQuotaBytes q = None then u_bandwidthQuotaBytes a else pq_bandwidthQuotaBytes q),
           u_preferredDomain := or_else (pq_preferredDomain q) (u_preferredDomain a)\<rparr>)"

definition handle_patch ::
  "portal_config \<Rightarrow> portal_faults \<Rightarrow> bool \<Rightarrow> string \<Rightarrow> string \<Rightarrow> string \<Rightarrow> patch_request \<Rightarrow> portal \<Rightarrow> patch_outcome \<times> portal" where
  "handle_patch cfg f count_fails actor actorRole email q st =
     (case look_up_user f email st of
        Missing \<Rightarrow> (Patch_no_user, st)
      | Unreadable \<Rightarrow> (Patch_unreadable, st)
      | Found a \<Rightarrow>
          (if \<not> may_patch cfg actor a st then (Patch_forbidden, st)
           else if pq_role q \<noteq> None \<and> actorRole \<noteq> ''owner'' then (Only_owner_sets_roles, st)
           else if pq_role q = Some ''user'' \<and> u_role a = ''admin'' \<and> count_fails then (Admins_uncounted, st)
           else if pq_role q = Some ''user'' \<and> u_role a = ''admin'' \<and> count_admins (po_users st) \<le> 1 then (Last_admin_kept, st)
           else if (case pq_status q of None \<Rightarrow> False | Some s \<Rightarrow> \<not> is_valid_user_status s) then (Status_unknown, st)
           else if (case pq_rateLimit q of None \<Rightarrow> False | Some n \<Rightarrow> n < 0) \<or>
                   (case pq_bandwidthQuotaBytes q of None \<Rightarrow> False | Some n \<Rightarrow> n < 0) then (Limit_negative, st)
           else case save_user (pf_writeUser f) (patched q a) st of
             None \<Rightarrow> (Patch_not_saved, st)
           | Some st' \<Rightarrow> (Patched (patched q a), st')))"

section \<open>Reports, declines and deletion\<close>

text \<open>Deleting a row takes the tokens of the user with it.\<close>

definition drop_user :: "string \<Rightarrow> portal \<Rightarrow> portal" where
  "drop_user i st = st\<lparr>po_users := delete_user i (po_users st),
     po_tokens := (po_tokens st)\<lparr>ts_pats := filter (\<lambda>p. pt_userID p \<noteq> i) (ts_pats (po_tokens st))\<rparr>\<rparr>"

definition unused_link :: "(string \<Rightarrow> string) \<Rightarrow> portal_faults \<Rightarrow> string \<Rightarrow> portal \<Rightarrow> magic_link option" where
  "unused_link digest f token st =
     (case (if token = [] \<or> pf_readLink f then None else get_magic_link (digest token) (po_links st)) of
        None \<Rightarrow> None
      | Some l \<Rightarrow> if ml_usedAt l \<noteq> None then None else Some l)"

definition use_link :: "portal_faults \<Rightarrow> time \<Rightarrow> magic_link \<Rightarrow> portal \<Rightarrow> portal" where
  "use_link f now l st = (if pf_markLink f then st else st\<lparr>po_links := mark_magic_link_used now (ml_id l) (po_links st)\<rparr>)"

text \<open>The address that asked for a reported link is banned, here only.\<close>

definition handle_report :: "(string \<Rightarrow> string) \<Rightarrow> portal_faults \<Rightarrow> time \<Rightarrow> string \<Rightarrow> portal \<Rightarrow> bool \<times> portal" where
  "handle_report digest f now token st =
     (case unused_link digest f token st of
        None \<Rightarrow> (False, st)
      | Some l \<Rightarrow>
          (let st1 = use_link f now l st; g = po_guard st1
           in (True, st1\<lparr>po_guard := g\<lparr>
                gd_rows := (if pf_writeBan f then gd_rows g
                            else add_blacklist_ip now (ml_clientIP l) ''Reported via Magic Link email'' (gd_rows g)),
                gd_cache := cache_ban (ml_clientIP l) None (gd_cache g)\<rparr>\<rparr>)))"

definition handle_decline :: "(string \<Rightarrow> string) \<Rightarrow> portal_faults \<Rightarrow> time \<Rightarrow> string \<Rightarrow> portal \<Rightarrow> bool \<times> portal" where
  "handle_decline digest f now token st =
     (case unused_link digest f token st of
        None \<Rightarrow> (False, st)
      | Some l \<Rightarrow>
          (let st1 = use_link f now l st
           in (True, case look_up_user f (ml_email l) st1 of
                       Found a \<Rightarrow> if pf_writeUser f then st1 else drop_user (u_id a) st1
                     | _ \<Rightarrow> st1)))"

definition handle_report_registration :: "portal_faults \<Rightarrow> string \<Rightarrow> portal \<Rightarrow> bool \<times> portal" where
  "handle_report_registration f token st =
     (case (if token = [] \<or> pf_readUser f then None else get_user_by_verification_token token (po_users st)) of
        None \<Rightarrow> (False, st)
      | Some a \<Rightarrow> (True, if pf_writeUser f then st else drop_user (u_id a) st))"

text \<open>Deletion by the user or by an administrator; the configured owner is kept. The tokens are revoked first, and stay
  so when the row cannot be deleted.\<close>

definition revoke_all :: "time \<Rightarrow> string \<Rightarrow> token_store \<Rightarrow> token_store" where
  "revoke_all now i s = fold (\<lambda>p s'. snd (revoke_pat now (pt_id p) s')) (list_pats i s) s"

definition handle_delete_user :: "portal_config \<Rightarrow> portal_faults \<Rightarrow> time \<Rightarrow> string \<Rightarrow> portal \<Rightarrow> bool \<times> portal" where
  "handle_delete_user cfg f now email st =
     (case look_up_user f email st of
        Found a \<Rightarrow>
          (if is_configured_owner cfg (u_email a) then (False, st)
           else (let st1 = st\<lparr>po_tokens := revoke_all now (u_id a) (po_tokens st)\<rparr>
                 in if pf_writeUser f then (False, st1) else (True, drop_user (u_id a) st1)))
      | _ \<Rightarrow> (False, st))"

definition handle_self_delete ::
  "portal_config \<Rightarrow> (string \<Rightarrow> string) \<Rightarrow> portal_faults \<Rightarrow> time \<Rightarrow> string \<Rightarrow> string \<Rightarrow> portal \<Rightarrow> bool \<times> portal" where
  "handle_self_delete cfg digest f now cookie confirm st =
     (case get_current_user cfg digest f now cookie st of
        (None, st1) \<Rightarrow> (False, st1)
      | (Some a, st1) \<Rightarrow>
          (if is_configured_owner cfg (u_email a) \<or> \<not> equal_fold confirm (u_email a) then (False, st1)
           else handle_delete_user cfg f now (u_email a) st1))"

end
