(* ===== verification/Portal_Machine.thy ===== *)
theory Portal_Machine
  imports Onboarding
begin

text \<open>
  The portal as one machine over the operations of \<open>Sign_In\<close> and \<open>Onboarding\<close>, with the log of what proves
  somebody's identity: links mailed, links and codes presented, assertions of the identity provider. Every
  operation carries its clock, the tokens drawn for it and which of its statements fail.
\<close>

datatype portal_op =
    Ask_link portal_faults time string string string
  | Follow_link portal_faults time string string string "string option" string
  | Give_code portal_faults time string "string option" string string
  | Enable_factor portal_faults time string string string
  | Disable_factor portal_faults time string string
  | Sso portal_faults time string "string option" string string string string
  | Log_out portal_faults string
  | Look portal_faults time string
  | Extend portal_faults time bool string
  | View_as portal_faults time string string
  | Register portal_faults time "string option" "string option" string profile
  | Complete_setup portal_faults time string profile bool bool
  | Verify_email portal_faults time string
  | Approve portal_faults time bool string string "string option" "nat list option"
  | Reject portal_faults bool string string
  | Claim portal_faults string
  | Invite portal_faults time string "string option" string string string string
  | Patch portal_faults bool string string string patch_request
  | Report portal_faults time string
  | Decline portal_faults time string
  | Report_registration portal_faults string
  | Delete_user portal_faults time string
  | Self_delete portal_faults time string string
  | Drop_old_links time
  | Drop_old_sessions time
  | Gateway_restart time
  | Maintenance bool

text \<open>A link mailed; a link, then a code, then an assertion that opened a session, with the account's address and the
  session's token.\<close>

datatype portal_event =
    Mailed string string
  | Second_asked string string string
  | Opened_by_link string string string
  | Opened_by_code string string string
  | Opened_by_sso string string

definition link_email :: "(string \<Rightarrow> string) \<Rightarrow> string \<Rightarrow> portal \<Rightarrow> string" where
  "link_email digest token st = (case get_magic_link (digest token) (po_links st) of None \<Rightarrow> [] | Some l \<Rightarrow> ml_email l)"

definition normal_address :: "string \<Rightarrow> string" where
  "normal_address raw = to_lower (trim_space raw)"

definition asked_events :: "string \<Rightarrow> link_outcome \<Rightarrow> portal_event list" where
  "asked_events email out = (case out of Link_mailed t \<Rightarrow> [Mailed t email] | _ \<Rightarrow> [])"

definition followed_events :: "string \<Rightarrow> string \<Rightarrow> string \<Rightarrow> verify_outcome \<Rightarrow> portal_event list" where
  "followed_events token email session out =
     (case out of Second_factor_required temp \<Rightarrow> [Second_asked token email temp]
      | Signed_in c \<Rightarrow> [Opened_by_link token email session] | _ \<Rightarrow> [])"

definition code_events :: "string \<Rightarrow> portal \<Rightarrow> string option \<Rightarrow> mfa_outcome \<Rightarrow> portal_event list" where
  "code_events temp st session out =
     (case (out, get (po_preAuth st) temp, session) of
        (Mfa_signed_in c, Some p, Some t) \<Rightarrow> [Opened_by_code temp (pa_email p) t] | _ \<Rightarrow> [])"

definition sso_events :: "string \<Rightarrow> string option \<Rightarrow> sso_outcome \<Rightarrow> portal_event list" where
  "sso_events email session out =
     (case (out, session) of (Sso_signed_in c, Some t) \<Rightarrow> [Opened_by_sso email t] | _ \<Rightarrow> [])"

definition invite_events :: "invite_outcome \<Rightarrow> portal_event list" where
  "invite_events out = (case out of Invited t email \<Rightarrow> [Mailed t email] | _ \<Rightarrow> [])"

definition for_current ::
  "portal_config \<Rightarrow> (string \<Rightarrow> string) \<Rightarrow> portal_faults \<Rightarrow> time \<Rightarrow> string \<Rightarrow> (account \<Rightarrow> portal \<Rightarrow> bool \<times> portal) \<Rightarrow> portal \<Rightarrow> portal" where
  "for_current cfg digest f now cookie h st =
     (case get_current_user cfg digest f now cookie st of (None, st1) \<Rightarrow> st1 | (Some a, st1) \<Rightarrow> snd (h a st1))"

definition restart_portal :: "time \<Rightarrow> portal \<Rightarrow> portal" where
  "restart_portal now st =
     st\<lparr>po_sessions := restart_store (po_sessions st), po_preAuth := [], po_maintenance := False,
        po_guard := restart_guard now (po_guard st)\<rparr>"

fun portal_step ::
  "portal_config \<Rightarrow> (byte list \<Rightarrow> byte list \<Rightarrow> byte list) \<Rightarrow> (string \<Rightarrow> string) \<Rightarrow> portal_op \<Rightarrow> portal \<Rightarrow> portal_event list \<times> portal" where
  "portal_step cfg hmac digest (Ask_link f now ip token raw) st =
     (case handle_magic_link cfg digest f now ip token raw st of (out, st') \<Rightarrow> (asked_events (normal_address raw) out, st'))"
| "portal_step cfg hmac digest (Follow_link f now ip lang session temp token) st =
     (case handle_verify cfg digest f now True [] ip lang session temp token st of
        (out, st') \<Rightarrow> (followed_events token (link_email digest token st) session out, st'))"
| "portal_step cfg hmac digest (Give_code f now ip session temp code) st =
     (case mfa_verify cfg hmac digest f now True [] ip session temp code st of (out, st') \<Rightarrow> (code_events temp st session out, st'))"
| "portal_step cfg hmac digest (Enable_factor f now cookie secret code) st =
     ([], for_current cfg digest f now cookie (\<lambda>a. mfa_enable hmac f now a secret code) st)"
| "portal_step cfg hmac digest (Disable_factor f now cookie code) st =
     ([], for_current cfg digest f now cookie (\<lambda>a. mfa_disable hmac f now a code) st)"
| "portal_step cfg hmac digest (Sso f now ip session provider raw given family) st =
     (case handle_sso_claims cfg digest f now True [] ip session provider raw given family st of
        (out, st') \<Rightarrow> (sso_events (normal_address raw) session out, st'))"
| "portal_step cfg hmac digest (Log_out f cookie) st = ([], handle_logout digest f cookie st)"
| "portal_step cfg hmac digest (Look f now cookie) st = ([], snd (get_current_user cfg digest f now cookie st))"
| "portal_step cfg hmac digest (Extend f now background cookie) st =
     ([], st\<lparr>po_sessions := snd (slide_portal_session digest (pf_sessions f) (pc_session cfg) now True [] background cookie (po_sessions st))\<rparr>)"
| "portal_step cfg hmac digest (View_as f now role cookie) st = ([], snd (handle_view_as cfg digest f now role cookie st))"
| "portal_step cfg hmac digest (Register f now approval verification raw p) st =
     ([], snd (handle_register_request cfg f now approval verification raw p st))"
| "portal_step cfg hmac digest (Complete_setup f now token p consent diagnostics) st =
     ([], snd (handle_complete_setup cfg f now token p consent diagnostics st))"
| "portal_step cfg hmac digest (Verify_email f now token) st = ([], snd (handle_verify_email cfg f now token st))"
| "portal_step cfg hmac digest (Approve f now posted email token claim random) st =
     ([], snd (handle_approve digest f now posted email token claim random st))"
| "portal_step cfg hmac digest (Reject f posted email token) st = ([], snd (handle_reject f posted email token st))"
| "portal_step cfg hmac digest (Claim f token) st = ([], snd (handle_claim f token st))"
| "portal_step cfg hmac digest (Invite f now ip token raw given family lang) st =
     (case handle_invite cfg digest f now ip token raw given family lang st of (out, st') \<Rightarrow> (invite_events out, st'))"
| "portal_step cfg hmac digest (Patch f count_fails actor actorRole email q) st =
     ([], snd (handle_patch cfg f count_fails actor actorRole email q st))"
| "portal_step cfg hmac digest (Report f now token) st = ([], snd (handle_report digest f now token st))"
| "portal_step cfg hmac digest (Decline f now token) st = ([], snd (handle_decline digest f now token st))"
| "portal_step cfg hmac digest (Report_registration f token) st = ([], snd (handle_report_registration f token st))"
| "portal_step cfg hmac digest (Delete_user f now email) st = ([], snd (handle_delete_user cfg f now email st))"
| "portal_step cfg hmac digest (Self_delete f now cookie confirm) st = ([], snd (handle_self_delete cfg digest f now cookie confirm st))"
| "portal_step cfg hmac digest (Drop_old_links now) st = ([], st\<lparr>po_links := prune_expired_magic_links now (po_links st)\<rparr>)"
| "portal_step cfg hmac digest (Drop_old_sessions now) st = ([], st\<lparr>po_sessions := prune_store now (po_sessions st)\<rparr>)"
| "portal_step cfg hmac digest (Gateway_restart now) st = ([], restart_portal now st)"
| "portal_step cfg hmac digest (Maintenance b) st = ([], st\<lparr>po_maintenance := b\<rparr>)"

text \<open>The log and the state after a history.\<close>

fun portal_run ::
  "portal_config \<Rightarrow> (byte list \<Rightarrow> byte list \<Rightarrow> byte list) \<Rightarrow> (string \<Rightarrow> string) \<Rightarrow> portal_op list \<Rightarrow> portal_event list \<times> portal \<Rightarrow> portal_event list \<times> portal" where
  "portal_run cfg hmac digest [] s = s"
| "portal_run cfg hmac digest (op # ops) (trail, st) =
     (case portal_step cfg hmac digest op st of (evs, st') \<Rightarrow> portal_run cfg hmac digest ops (trail @ evs, st'))"

text \<open>A gateway with users, where nobody has signed in yet.\<close>

definition portal_start :: "accounts \<Rightarrow> token_store \<Rightarrow> guard \<Rightarrow> portal" where
  "portal_start users tokens g =
     \<lparr>po_users = users, po_links = \<lparr>lk_rows = [], lk_nextID = 1\<rparr>, po_sessions = \<lparr>st_cache = [], st_rows = []\<rparr>, po_preAuth = [],
      po_maintenance = False, po_tokens = tokens, po_guard = g\<rparr>"

end
