(* ===== verification/Totp_Facts.thy ===== *)
theory Totp_Facts
  imports Totp
begin

text \<open>
  What the second factor accepts: the code of the secret it handed out, at a device whose clock is at most
  thirty seconds off, and no code of a time a minute or more away.
\<close>

section \<open>Base 32 round trip\<close>

lemma less32_cases: "q < 32 \<Longrightarrow> unat (q :: byte) \<in> set [0..<32]"
  by (simp add: word_less_nat_alt)

lemma value32_digit32 [simp]:
  assumes "q < 32"
  shows "value32 (digit32 q) = Some q"
proof -
  have all: "list_all (\<lambda>n. value32 (alphabet32 ! n) = Some (of_nat n)) [0..<32]" by code_simp
  have "value32 (alphabet32 ! unat q) = Some (of_nat (unat q))"
    using all less32_cases [OF assms] unfolding list_all_iff by blast
  then show ?thesis by (simp add: digit32_def)
qed

lemma digit32_plain:
  assumes "q < 32"
  shows "digit32 q \<noteq> CHR ''=''" "\<not> is_space (digit32 q)" "upper_char (digit32 q) = digit32 q" "digit32 q \<noteq> CHR 0x0A" "digit32 q \<noteq> CHR 0x0D"
proof -
  have all: "list_all (\<lambda>n. let c = alphabet32 ! n in c \<noteq> CHR ''='' \<and> \<not> is_space c \<and> upper_char c = c \<and> c \<noteq> CHR 0x0A \<and> c \<noteq> CHR 0x0D) [0..<32]"
    by code_simp
  have "let c = alphabet32 ! unat q in c \<noteq> CHR ''='' \<and> \<not> is_space c \<and> upper_char c = c \<and> c \<noteq> CHR 0x0A \<and> c \<noteq> CHR 0x0D"
    using all less32_cases [OF assms] unfolding list_all_iff by blast
  then show "digit32 q \<noteq> CHR ''=''" "\<not> is_space (digit32 q)" "upper_char (digit32 q) = digit32 q" "digit32 q \<noteq> CHR 0x0A" "digit32 q \<noteq> CHR 0x0D"
    by (simp_all add: digit32_def Let_def)
qed

lemma five_bits: "take_bit 5 b = b \<longleftrightarrow> (b :: byte) < 32"
proof
  assume b: "take_bit 5 b = b"
  have "unat (take_bit 5 b) = take_bit 5 (unat b)" by (rule unsigned_take_bit_eq)
  also have "\<dots> < 32" by (simp add: take_bit_nat_def)
  finally have "unat (take_bit 5 b) < 32" .
  with b show "b < 32" by (simp add: word_less_nat_alt)
next
  assume "b < 32"
  then have "take_bit 5 (unat b) = unat b" by (simp add: word_less_nat_alt take_bit_eq_mod)
  then show "take_bit 5 b = b" by (metis unsigned_take_bit_eq word_unat_eq_iff)
qed

lemma low5_take: "low5 b = take_bit 5 b"
proof -
  have "(31 :: byte) = mask 5" by (simp add: mask_eq_decr_exp)
  then show ?thesis by (simp add: low5_def take_bit_eq_mask)
qed

lemma low5_small [simp]: "low5 b < 32"
  by (simp add: five_bits [symmetric] low5_take)

lemma drop_bit3_small [simp]: "drop_bit 3 (b :: byte) < 32"
  by (simp add: five_bits [symmetric] bit_eq_iff bit_simps) (use bit_imp_le_length in fastforce)

lemma or_small: "p < 32 \<Longrightarrow> q < 32 \<Longrightarrow> p OR q < (32 :: byte)"
  by (simp add: five_bits [symmetric])

lemma drop_bit_more_small [simp]: "drop_bit 4 (b :: byte) < 32" "drop_bit 5 (b :: byte) < 32" "drop_bit 7 (b :: byte) < 32"
  by (simp add: five_bits [symmetric] bit_eq_iff bit_simps; use bit_imp_le_length in fastforce)+

lemma groups32_small: "list_all (\<lambda>q. q < 32) (groups32 key)"
  by (induction key rule: groups32.induct) (simp_all add: or_small)

text \<open>Packing gives the five bytes back.\<close>

lemma high_bit: "8 \<le> n \<Longrightarrow> \<not> bit (b :: byte) n"
  by (auto dest: bit_imp_le_length)

lemma byte_eqI:
  assumes "\<And>n. n \<in> {0, 1, 2, 3, 4, 5, 6, 7} \<Longrightarrow> bit p n = bit q n"
  shows "p = (q :: byte)"
proof (rule bit_word_eqI)
  fix n :: nat assume "n < LENGTH(8)"
  then have "n = 0 \<or> n = 1 \<or> n = 2 \<or> n = 3 \<or> n = 4 \<or> n = 5 \<or> n = 6 \<or> n = 7" by (simp, presburger)
  then have "n \<in> {0, 1, 2, 3, 4, 5, 6, 7}" by simp
  then show "bit p n = bit q n" by (rule assms)
qed

lemmas bits32 = bit_or_iff Bit_Operations.bit_push_bit_iff bit_drop_bit_eq bit_take_bit_iff low5_take o_apply

lemma pack1: "push_bit 3 (drop_bit 3 a) OR drop_bit 2 (low5 (push_bit 2 a) OR low5 (drop_bit 6 b)) = (a :: byte)"
  by (rule byte_eqI, simp only: bits32, elim insertE emptyE) (simp_all add: high_bit possible_bit_word)

lemma pack2:
  "push_bit 6 (low5 (push_bit 2 a) OR low5 (drop_bit 6 b)) OR push_bit 1 (low5 (drop_bit 1 b)) OR
   drop_bit 4 (low5 (push_bit 4 b) OR low5 (drop_bit 4 c)) = (b :: byte)"
  by (rule byte_eqI, simp only: bits32, elim insertE emptyE) (simp_all add: high_bit possible_bit_word eval_nat_numeral)

lemma pack3:
  "push_bit 4 (low5 (push_bit 4 b) OR low5 (drop_bit 4 c)) OR drop_bit 1 (low5 (push_bit 1 c) OR drop_bit 7 d) = (c :: byte)"
  by (rule byte_eqI, simp only: bits32, elim insertE emptyE) (simp_all add: high_bit possible_bit_word eval_nat_numeral)

lemma pack4:
  "push_bit 7 (low5 (push_bit 1 c) OR drop_bit 7 d) OR push_bit 2 (low5 (drop_bit 2 d)) OR
   drop_bit 3 (low5 (push_bit 3 d) OR drop_bit 5 e) = (d :: byte)"
  by (rule byte_eqI, simp only: bits32, elim insertE emptyE) (simp_all add: high_bit possible_bit_word eval_nat_numeral)

lemma pack5: "push_bit 5 (low5 (push_bit 3 d) OR drop_bit 5 e) OR low5 e = (e :: byte)"
  by (rule byte_eqI, simp only: bits32, elim insertE emptyE) (simp_all add: high_bit possible_bit_word eval_nat_numeral)

lemma pack_groups:
  "pack32 [drop_bit 3 a, low5 (push_bit 2 a) OR low5 (drop_bit 6 b), low5 (drop_bit 1 b), low5 (push_bit 4 b) OR low5 (drop_bit 4 c),
      low5 (push_bit 1 c) OR drop_bit 7 d, low5 (drop_bit 2 d), low5 (push_bit 3 d) OR drop_bit 5 e, low5 e] = [a, b, c, d, e]"
  by (simp only: pack32.simps pack1 pack2 pack3 pack4 pack5)

text \<open>A reader of eight good characters stops after them.\<close>

lemma read_digits:
  "length q + length qs = 8 \<Longrightarrow> list_all (\<lambda>q. q < 32) qs \<Longrightarrow> read_quantum (map digit32 qs @ rest) q = Some (q @ qs, False, rest)"
proof (induction qs arbitrary: q)
  case (Cons v qs)
  then have "read_quantum (map digit32 qs @ rest) (q @ [v]) = Some ((q @ [v]) @ qs, False, rest)" by (intro Cons.IH) simp_all
  with Cons.prems show ?case by (subst read_quantum.simps) (simp add: digit32_plain(1))
qed (simp add: read_quantum.simps)

lemma decode_step:
  assumes "length qs = 8" "list_all (\<lambda>q. q < 32) qs"
  shows "decode32 (map digit32 qs @ rest) = map_option ((@) (pack32 qs)) (decode32 rest)"
proof -
  have "map digit32 qs @ rest \<noteq> []" "qs \<noteq> []" using assms(1) by auto
  then show ?thesis using assms by (subst decode32.simps) (simp add: read_digits)
qed

lemma decode_secret: "length key mod 5 = 0 \<Longrightarrow> decode32 (totp_secret key) = Some key"
proof (induction key rule: groups32.induct)
  case (1 a b c d e rest)
  let ?q = "[drop_bit 3 a, low5 (push_bit 2 a) OR low5 (drop_bit 6 b), low5 (drop_bit 1 b), low5 (push_bit 4 b) OR low5 (drop_bit 4 c),
      low5 (push_bit 1 c) OR drop_bit 7 d, low5 (drop_bit 2 d), low5 (push_bit 3 d) OR drop_bit 5 e, low5 e]"
  have "totp_secret (a # b # c # d # e # rest) = map digit32 ?q @ totp_secret rest" by (simp add: totp_secret_def)
  moreover have "decode32 (map digit32 ?q @ totp_secret rest) = map_option ((@) (pack32 ?q)) (decode32 (totp_secret rest))"
    by (rule decode_step) (simp_all add: or_small)
  moreover have "decode32 (totp_secret rest) = Some rest" using 1 by simp
  ultimately show ?case by (simp only: pack_groups) simp
qed (simp_all add: totp_secret_def decode32.simps)

section \<open>Keys and codes as text\<close>

lemma dropWhile_none: "list_all (\<lambda>c. \<not> P c) s \<Longrightarrow> dropWhile P s = s"
  by (cases s) simp_all

lemma trim_space_plain: "list_all (\<lambda>c. \<not> is_space c) s \<Longrightarrow> trim_space s = s"
  by (simp add: trim_space_def dropWhile_none list.pred_set)

lemma length_groups32: "length key mod 5 = 0 \<Longrightarrow> 5 * length (groups32 key) = 8 * length key"
  by (induction key rule: groups32.induct) simp_all

lemma totp_secret_plain: "list_all (\<lambda>c. \<not> is_space c) (totp_secret key)" "map upper_char (totp_secret key) = totp_secret key"
  "filter (\<lambda>c. c \<noteq> CHR 0x0A \<and> c \<noteq> CHR 0x0D) (totp_secret key) = totp_secret key"
  using groups32_small [of key]
  by (auto simp: totp_secret_def list_all_iff digit32_plain filter_id_conv)

lemma totp_key_of_secret:
  assumes "map upper_char (trim_space typed) = totp_secret key" "length key = 20"
  shows "totp_key typed = Some key"
proof -
  have "5 * length (groups32 key) = 160" using length_groups32 [of key] assms(2) by simp
  then have l: "length (totp_secret key) = 32" by (simp add: totp_secret_def)
  then have "totp_secret key \<noteq> []" by auto
  moreover have "decode32 (totp_secret key) = Some key" by (rule decode_secret) (simp add: assms(2))
  ultimately show ?thesis using l by (simp add: totp_key_def assms(1) Let_def totp_secret_plain(3))
qed

lemma length_itoa_nat: "0 < k \<Longrightarrow> n < 10 ^ k \<Longrightarrow> length (itoa_nat n) \<le> k"
proof (induction n arbitrary: k rule: itoa_nat.induct)
  case (1 n)
  show ?case
  proof (cases "n < 10")
    case True
    then show ?thesis using 1(2) by (subst itoa_nat.simps) simp
  next
    case False
    then have k: "1 < k" using 1(2,3) by (cases k) (auto simp: not_less dest: less_le_trans)
    then have "10 ^ k = (10 :: nat) ^ Suc (k - 1)" by simp
    then have "10 ^ k = 10 ^ (k - 1) * (10 :: nat)" by (simp only: power_Suc mult.commute)
    then have "n div 10 < 10 ^ (k - 1)" using 1(3) by (simp only: less_mult_imp_div_less)
    then have "length (itoa_nat (n div 10)) \<le> k - 1" using 1(1) False k by simp
    then show ?thesis using False k by (subst itoa_nat.simps) simp
  qed
qed

lemma six_digits_plain:
  assumes "n < 1000000"
  shows "length (six_digits n) = 6" "trim_space (six_digits n) = six_digits n"
proof -
  have "length (itoa_nat n) \<le> 6" using length_itoa_nat [of 6 n] assms by simp
  then show "length (six_digits n) = 6" by (simp add: six_digits_def Let_def)
  have "\<not> is_space c" if "is_digit c" for c using that by (auto simp: is_digit_def is_space_def)
  moreover have "\<not> is_space (CHR ''0'')" by code_simp
  ultimately have "list_all (\<lambda>c. \<not> is_space c) (six_digits n)"
    using itoa_nat_digits [of n] by (auto simp: six_digits_def list_all_iff Let_def)
  then show "trim_space (six_digits n) = six_digits n" by (rule trim_space_plain)
qed

lemma calculate_totp_plain:
  "length (calculate_totp hmac key counter) = 6" "trim_space (calculate_totp hmac key counter) = calculate_totp hmac key counter"
  by (simp_all add: calculate_totp_def Let_def six_digits_plain)

lemma validate_totp_exact:
  assumes "map upper_char (trim_space typed) = totp_secret key" "length key = 20"
  shows "validate_totp hmac now typed code \<longleftrightarrow>
    (\<exists>d\<in>{- 1, 0, 1}. calculate_totp hmac key (word_of_int (totp_step now + d)) = trim_space code)"
  by (auto simp: validate_totp_def totp_key_of_secret [OF assms] Let_def) (metis calculate_totp_plain(1))+

section \<open>Properties\<close>

lemma quot_mult: "quot (30 * k) 30 = k"
  by (simp add: quot_def abs_mult sgn_mult mult_sgn_abs)

lemma steps_near:
  fixes a b :: int
  assumes "\<bar>a - b\<bar> \<le> 30"
  shows "a div 30 - b div 30 \<in> {- 1, 0, 1}"
proof -
  have "a div 30 \<le> (b + 1 * 30) div 30" "b div 30 \<le> (a + 1 * 30) div 30" using assms by (intro zdiv_mono1; simp)+
  then have "a div 30 \<le> b div 30 + 1" "b div 30 \<le> a div 30 + 1" by (simp_all only: div_mult_self1)
  then have "a div 30 - b div 30 = - 1 \<or> a div 30 - b div 30 = 0 \<or> a div 30 - b div 30 = 1" by linarith
  then show ?thesis by simp
qed

text \<open>A secret that the gateway hands out, typed back in any case and with spaces around it, accepts the code a
  device shows whose clock is at most thirty seconds off; and it accepts no other text than the code (spaces
  aside) that is shown less than a minute away.\<close>

theorem second_factor_window:
  assumes "length key = 20" "map upper_char (trim_space typed) = totp_secret key" "0 \<le> unix now"
  shows "(\<forall>t. 0 \<le> unix t \<longrightarrow> \<bar>unix t - unix now\<bar> \<le> 30 \<longrightarrow>
            validate_totp hmac now typed (calculate_totp hmac key (word_of_int (totp_step t)))) \<and>
         (\<forall>code. validate_totp hmac now typed code \<longrightarrow>
            (\<exists>t. \<bar>unix t - unix now\<bar> < 60 \<and> trim_space code = calculate_totp hmac key (word_of_int (totp_step t))))"
proof (intro conjI allI impI)
  fix t assume t: "0 \<le> unix t" "\<bar>unix t - unix now\<bar> \<le> 30"
  have "totp_step t = unix t div 30" "totp_step now = unix now div 30"
    using t(1) assms(3) by (simp_all add: totp_step_def quot_nonneg)
  then have "totp_step t - totp_step now \<in> {- 1, 0, 1}" using steps_near [OF t(2)] by simp
  then show "validate_totp hmac now typed (calculate_totp hmac key (word_of_int (totp_step t)))"
    unfolding validate_totp_exact [OF assms(2,1)]
    by (intro bexI [of _ "totp_step t - totp_step now"]) (simp_all add: calculate_totp_plain(2))
next
  fix code assume "validate_totp hmac now typed code"
  then obtain d where d: "d \<in> {- 1, 0, 1}" "calculate_totp hmac key (word_of_int (totp_step now + d)) = trim_space code"
    unfolding validate_totp_exact [OF assms(2,1)] by blast
  let ?t = "30 * (totp_step now + d) * second"
  have "unix ?t = 30 * (totp_step now + d)" by (simp add: unix_def second_def)
  moreover have "totp_step now = unix now div 30" using assms(3) by (simp add: totp_step_def quot_nonneg)
  moreover have "30 * (unix now div 30) \<le> unix now" "unix now < 30 * (unix now div 30) + 30" by simp_all
  moreover have "d = - 1 \<or> d = 0 \<or> d = 1" using d(1) by simp
  ultimately have "\<bar>unix ?t - unix now\<bar> < 60" by auto
  moreover have "totp_step ?t = totp_step now + d" using \<open>unix ?t = 30 * (totp_step now + d)\<close> by (simp only: totp_step_def quot_mult)
  ultimately
  show "\<exists>t. \<bar>unix t - unix now\<bar> < 60 \<and> trim_space code = calculate_totp hmac key (word_of_int (totp_step t))"
    using d(2) by auto
qed

text \<open>A code shown at second 20 is accepted at second 45, with the secret typed in lower case after a space.\<close>

definition sample_key :: "byte list" where
  "sample_key = map of_nat [1..<21]"

definition sample_hmac :: "byte list \<Rightarrow> byte list \<Rightarrow> byte list" where
  "sample_hmac key msg = take 20 (msg @ map (\<lambda>b. b XOR 90) key)"

theorem second_factor_window_witness:
  "validate_totp sample_hmac (45 * second) ('' '' @ map lower_char (totp_secret sample_key))
     (calculate_totp sample_hmac sample_key (word_of_int (totp_step (20 * second))))"
proof -
  have "length sample_key = 20" by code_simp
  moreover have "map upper_char (trim_space ('' '' @ map lower_char (totp_secret sample_key))) = totp_secret sample_key" by code_simp
  moreover have "unix (45 * second) = 45" "unix (20 * second) = 20" by (simp_all add: unix_def second_def)
  ultimately show ?thesis
    using second_factor_window [of sample_key "'' '' @ map lower_char (totp_secret sample_key)" "45 * second" sample_hmac] by simp
qed

end
