(* ===== verification/Portal_Users_Facts.thy ===== *)
theory Portal_Users_Facts
  imports Portal_Machine Totp_Facts
begin

text \<open>
  The table of users under its statements: one row per identifier and per address, and what each statement does to
  the look-up of an address. An identifier is the address, up to the case in which the owner is configured.
\<close>

lemma no_faults [simp]:
  "pf_readLink no_portal_faults = False" "pf_markLink no_portal_faults = False" "pf_invalidate no_portal_faults = False"
  "pf_createLink no_portal_faults = False" "pf_readUser no_portal_faults = False" "pf_createUser no_portal_faults = False"
  "pf_writeUser no_portal_faults = False" "pf_writeLogin no_portal_faults = False" "pf_createToken no_portal_faults = False"
  "pf_writeBan no_portal_faults = False" "pf_sessions no_portal_faults = no_session_faults"
  by (simp_all add: no_portal_faults_def)

section \<open>The table\<close>

definition users_ok :: "accounts \<Rightarrow> bool" where
  "users_ok rows \<longleftrightarrow> distinct (map u_id rows) \<and> distinct (map u_email rows) \<and> (\<forall>a\<in>set rows. equal_fold (u_id a) (u_email a))"

lemma equal_fold_sym: "equal_fold s t \<Longrightarrow> equal_fold t s"
  by (simp add: equal_fold_def)

lemma equal_fold_trans: "equal_fold s t \<Longrightarrow> equal_fold t u \<Longrightarrow> equal_fold s u"
  by (simp add: equal_fold_def)

lemma by_email_iff:
  assumes "users_ok rows"
  shows "get_user_by_email e rows = Some a \<longleftrightarrow> a \<in> set rows \<and> u_email a = e"
proof
  assume "get_user_by_email e rows = Some a"
  then show "a \<in> set rows \<and> u_email a = e" unfolding get_user_by_email_def by (rule find_SomeD)
next
  assume "a \<in> set rows \<and> u_email a = e"
  then show "get_user_by_email e rows = Some a"
    using find_unique [of u_email rows e a] assms by (auto simp: get_user_by_email_def users_ok_def)
qed

lemma by_email_None: "get_user_by_email e rows = None \<longleftrightarrow> (\<forall>a\<in>set rows. u_email a \<noteq> e)"
  by (auto simp: get_user_by_email_def find_None_iff)

lemma by_id_iff:
  assumes "users_ok rows"
  shows "get_user i rows = Some a \<longleftrightarrow> a \<in> set rows \<and> u_id a = i"
proof
  assume "get_user i rows = Some a"
  then show "a \<in> set rows \<and> u_id a = i" unfolding get_user_def by (rule find_SomeD)
next
  assume "a \<in> set rows \<and> u_id a = i"
  then show "get_user i rows = Some a" using find_unique [of u_id rows i a] assms by (auto simp: get_user_def users_ok_def)
qed

lemma by_email_eqI:
  assumes "users_ok rows" "users_ok rows'" "\<And>a. u_email a = e \<Longrightarrow> a \<in> set rows' \<longleftrightarrow> a \<in> set rows"
  shows "get_user_by_email e rows' = get_user_by_email e rows"
proof (cases "get_user_by_email e rows")
  case None
  then have "\<forall>a\<in>set rows'. u_email a \<noteq> e" using assms(3) unfolding by_email_None by blast
  then have "get_user_by_email e rows' = None" by (simp add: by_email_None)
  then show ?thesis using None by simp
next
  case (Some a)
  then have "a \<in> set rows'" "u_email a = e" using by_email_iff [OF assms(1)] assms(3) by auto
  then show ?thesis using by_email_iff [OF assms(2)] Some by simp
qed

lemma updated_fields [simp]:
  "u_id (updated a b) = u_id a" "u_email (updated a b) = u_email a" "u_status (updated a b) = u_status a" "u_role (updated a b) = u_role a"
  by (simp_all add: updated_def)

lemma inserted_fields [simp]:
  "u_id (inserted a) = u_id a" "u_email (inserted a) = u_email a" "u_status (inserted a) = u_status a" "u_role (inserted a) = u_role a"
  by (simp_all add: inserted_def)

section \<open>Its statements\<close>

lemma update_keeps_ok:
  assumes "users_ok rows" "update_user a rows = Some rows'" "equal_fold (u_id a) (u_email a)"
  shows "users_ok rows'"
proof -
  let ?g = "\<lambda>b. if u_id b = u_id a then updated a b else b"
  have rows': "rows' = map ?g rows" and unique: "\<forall>b\<in>set rows. u_email b = u_email a \<longrightarrow> u_id b = u_id a"
    using assms(2) by (auto simp: update_user_def list_ex_iff split: if_splits)
  have ids: "u_id (?g b) = u_id b" for b by simp
  have d: "distinct rows" "inj_on u_id (set rows)" "inj_on u_email (set rows)"
    using assms(1) by (auto simp: users_ok_def distinct_map)
  have "inj_on (\<lambda>b. u_email (?g b)) (set rows)"
  proof (rule inj_onI)
    fix b c assume b: "b \<in> set rows" and c: "c \<in> set rows" and eq: "u_email (?g b) = u_email (?g c)"
    have "u_id b = u_id c"
      using eq unique b c inj_onD [OF d(3), of b c] by (auto split: if_splits)
    then show "b = c" using d(2) b c by (auto dest: inj_onD)
  qed
  moreover have "map u_id rows' = map u_id rows" unfolding rows' by simp
  moreover have "map u_email rows' = map (\<lambda>b. u_email (?g b)) rows" unfolding rows' by simp
  moreover have "\<forall>c\<in>set rows'. equal_fold (u_id c) (u_email c)" using assms(1,3) unfolding rows' users_ok_def by auto
  ultimately show ?thesis using assms(1) d(1) by (simp add: users_ok_def distinct_map)
qed

text \<open>A row written back under its own address changes the look-up of that address only.\<close>

lemma update_known:
  assumes "users_ok rows" "update_user a rows = Some rows'" "b \<in> set rows" "u_id a = u_id b" "u_email a = u_email b"
  shows "users_ok rows'" "get_user_by_email e rows' = (if e = u_email b then Some (updated a b) else get_user_by_email e rows)"
proof -
  let ?g = "\<lambda>b. if u_id b = u_id a then updated a b else b"
  have rows': "rows' = map ?g rows" using assms(2) by (auto simp: update_user_def split: if_splits)
  have "equal_fold (u_id a) (u_email a)" using assms(1,3-5) by (auto simp: users_ok_def)
  then show ok: "users_ok rows'" by (rule update_keeps_ok [OF assms(1,2)])
  have same: "c = b" if "c \<in> set rows" "u_id c = u_id b" for c
    using that assms(1,3) by (auto simp: users_ok_def distinct_map dest: inj_onD)
  show "get_user_by_email e rows' = (if e = u_email b then Some (updated a b) else get_user_by_email e rows)"
  proof (cases "e = u_email b")
    case True
    have "updated a b \<in> set rows'" unfolding rows' using assms(3,4) by force
    then show ?thesis using by_email_iff [OF ok] assms(5) True by simp
  next
    case False
    have "get_user_by_email e rows' = get_user_by_email e rows"
    proof (rule by_email_eqI [OF assms(1) ok])
      fix c :: account assume e: "u_email c = e"
      show "c \<in> set rows' \<longleftrightarrow> c \<in> set rows"
      proof
        assume "c \<in> set rows'"
        then obtain d where d: "d \<in> set rows" "c = ?g d" by (auto simp: rows')
        have "u_id d \<noteq> u_id a" using d(2) e False assms(5) by (auto split: if_splits)
        then show "c \<in> set rows" using d by simp
      next
        assume c: "c \<in> set rows"
        have "u_id c \<noteq> u_id a" using same [OF c] assms(4) e False by auto
        then have "?g c = c" by simp
        then show "c \<in> set rows'" unfolding rows' using c by force
      qed
    qed
    with False show ?thesis by simp
  qed
qed

text \<open>A row written under whatever address leaves every address alone that is not its identifier's.\<close>

lemma update_foreign:
  assumes "users_ok rows" "update_user a rows = Some rows'" "equal_fold (u_id a) (u_email a)" "\<not> equal_fold e (u_id a)"
  shows "get_user_by_email e rows' = get_user_by_email e rows"
proof (rule by_email_eqI [OF assms(1) update_keeps_ok [OF assms(1-3)]])
  let ?g = "\<lambda>b. if u_id b = u_id a then updated a b else b"
  have rows': "rows' = map ?g rows" using assms(2) by (auto simp: update_user_def split: if_splits)
  fix c :: account assume e: "u_email c = e"
  show "c \<in> set rows' \<longleftrightarrow> c \<in> set rows"
  proof
    assume "c \<in> set rows'"
    then obtain d where d: "d \<in> set rows" "c = ?g d" by (auto simp: rows')
    have "u_id d \<noteq> u_id a" using d(2) e assms(3,4) by (auto split: if_splits simp: equal_fold_def)
    then show "c \<in> set rows" using d by simp
  next
    assume c: "c \<in> set rows"
    then have "equal_fold (u_id c) e" using assms(1) e by (auto simp: users_ok_def)
    then have "u_id c \<noteq> u_id a" using assms(4) by (auto simp: equal_fold_def)
    then have "?g c = c" by simp
    then show "c \<in> set rows'" unfolding rows' using c by force
  qed
qed

lemma create_known:
  assumes "users_ok rows" "create_user a rows = Some rows'" "equal_fold (u_id a) (u_email a)"
  shows "users_ok rows'" "get_user_by_email (u_email a) rows = None"
    "get_user_by_email e rows' = (if e = u_email a then Some (inserted a) else get_user_by_email e rows)"
proof -
  have rows': "rows' = rows @ [inserted a]" and fresh: "\<forall>b\<in>set rows. u_id b \<noteq> u_id a \<and> u_email b \<noteq> u_email a"
    using assms(2) by (auto simp: create_user_def list_ex_iff split: if_splits)
  show ok: "users_ok rows'" using assms(1,3) fresh unfolding users_ok_def rows' by auto
  show "get_user_by_email (u_email a) rows = None" using fresh by (auto simp: by_email_None)
  show "get_user_by_email e rows' = (if e = u_email a then Some (inserted a) else get_user_by_email e rows)"
  proof (cases "e = u_email a")
    case True
    then show ?thesis using by_email_iff [OF ok] by (simp add: rows')
  next
    case False
    then have "get_user_by_email e rows' = get_user_by_email e rows"
      by (intro by_email_eqI [OF assms(1) ok]) (auto simp: rows')
    with False show ?thesis by simp
  qed
qed

lemma delete_known:
  assumes "users_ok rows" "b \<in> set rows"
  shows "users_ok (delete_user (u_id b) rows)"
    "get_user_by_email e (delete_user (u_id b) rows) = (if e = u_email b then None else get_user_by_email e rows)"
proof -
  show ok: "users_ok (delete_user (u_id b) rows)"
    using assms(1) by (auto simp: users_ok_def delete_user_def distinct_map inj_on_def)
  have same: "u_id c = u_id b \<longleftrightarrow> u_email c = u_email b" if "c \<in> set rows" for c
    using that assms by (auto simp: users_ok_def distinct_map dest: inj_onD)
  show "get_user_by_email e (delete_user (u_id b) rows) = (if e = u_email b then None else get_user_by_email e rows)"
  proof (cases "e = u_email b")
    case True
    then show ?thesis using same by (auto simp: by_email_None delete_user_def)
  next
    case False
    then have "get_user_by_email e (delete_user (u_id b) rows) = get_user_by_email e rows"
      using same by (intro by_email_eqI [OF assms(1) ok]) (auto simp: delete_user_def)
    with False show ?thesis by simp
  qed
qed

end
