(* ===== verification/Portal_Standing.thy ===== *)
theory Portal_Standing
  imports Portal_Users_Facts
begin

text \<open>
  The standing of an account as a state machine, and that the portal implements it: which operation can take which
  account from which status to which, with the guard it has to pass. The configured owner's address is apart: its
  row may be made up and written back by a sign-in.
\<close>

section \<open>The specification\<close>

inductive standing_step :: "portal_config \<Rightarrow> portal_op \<Rightarrow> string \<Rightarrow> account option \<Rightarrow> account option \<Rightarrow> bool" for cfg where
  absent: "standing_step cfg op e None None"
| stays: "u_status b = u_status a \<Longrightarrow> standing_step cfg op e (Some a) (Some b)"
| registers: "e = normal_address raw \<Longrightarrow> \<not> two_part_domain_refused cfg e \<Longrightarrow> u_status b = status_unverified \<Longrightarrow>
    standing_step cfg (Register f now ap v raw p) e None (Some b)"
| completes: "u_status a = status_unverified \<Longrightarrow> ac_verificationToken a = Some token \<Longrightarrow>
    now \<le> ac_createdAt a + pc_verificationLinkExpiry cfg \<Longrightarrow> u_status b = status_pending \<Longrightarrow>
    standing_step cfg (Complete_setup f now token p consent diagnostics) e (Some a) (Some b)"
| verifies: "u_status a = status_unverified \<Longrightarrow> ac_verificationToken a = Some token \<Longrightarrow> token \<noteq> [] \<Longrightarrow>
    now \<le> ac_createdAt a + pc_verificationLinkExpiry cfg \<Longrightarrow> u_status b = status_pending \<Longrightarrow>
    standing_step cfg (Verify_email f now token) e (Some a) (Some b)"
| approves: "u_status a = status_pending \<Longrightarrow> ac_approvalToken a = Some token \<Longrightarrow> token \<noteq> [] \<Longrightarrow> u_status b = status_approved \<Longrightarrow>
    standing_step cfg (Approve f now True i token claim random) e (Some a) (Some b)"
| rejects: "u_status a = status_pending \<Longrightarrow> ac_approvalToken a = Some token \<Longrightarrow> token \<noteq> [] \<Longrightarrow> u_status b = status_rejected \<Longrightarrow>
    standing_step cfg (Reject f True i token) e (Some a) (Some b)"
| provisions: "e = normal_address raw \<Longrightarrow> \<not> pc_disableNewRegistrations cfg \<Longrightarrow> u_status b = status_approved \<Longrightarrow>
    standing_step cfg (Sso f now ip session provider raw given family) e None (Some b)"
| vouches: "e = normal_address raw \<Longrightarrow> u_status a \<noteq> status_rejected \<Longrightarrow> u_status b = status_approved \<Longrightarrow>
    standing_step cfg (Sso f now ip session provider raw given family) e (Some a) (Some b)"
| invites: "e = normal_address raw \<Longrightarrow> \<not> two_part_domain_refused cfg e \<Longrightarrow> u_status b = status_approved \<Longrightarrow>
    standing_step cfg (Invite f now ip token raw given family lang) e None (Some b)"
| changes: "pq_status q = Some s \<Longrightarrow> is_valid_user_status s \<Longrightarrow> u_status b = s \<Longrightarrow>
    standing_step cfg (Patch f count_fails actor actorRole e q) e (Some a) (Some b)"
| declines: "standing_step cfg (Decline f now token) e (Some a) None"
| reports: "ac_verificationToken a = Some token \<Longrightarrow> token \<noteq> [] \<Longrightarrow> standing_step cfg (Report_registration f token) e (Some a) None"
| deletes: "standing_step cfg (Delete_user f now e) e (Some a) None"
| leaves: "standing_step cfg (Self_delete f now cookie confirm) e (Some a) None"

inductive_cases standing_step_elim: "standing_step cfg op e x y"

definition moves :: "portal_config \<Rightarrow> portal_op \<Rightarrow> portal \<Rightarrow> portal \<Rightarrow> bool" where
  "moves cfg op st st' \<longleftrightarrow> users_ok (po_users st') \<and>
     (\<forall>e. \<not> is_configured_owner cfg e \<longrightarrow>
        standing_step cfg op e (get_user_by_email e (po_users st)) (get_user_by_email e (po_users st')))"

lemma standing_same: "standing_step cfg op e x x"
  by (cases x) (auto intro: standing_step.intros)

section \<open>Statements that leave the standing alone\<close>

definition keeps :: "portal_config \<Rightarrow> portal \<Rightarrow> portal \<Rightarrow> bool" where
  "keeps cfg st st' \<longleftrightarrow> users_ok (po_users st') \<and>
     (\<forall>e. \<not> is_configured_owner cfg e \<longrightarrow>
        map_option u_status (get_user_by_email e (po_users st')) = map_option u_status (get_user_by_email e (po_users st)))"

lemma keeps_moves: "keeps cfg st st' \<Longrightarrow> moves cfg op st st'"
  unfolding keeps_def moves_def
  by (auto split: option.splits intro!: standing_step.intros simp: map_option_case)
     (metis option.exhaust standing_step.absent standing_step.stays option.distinct(1) option.inject option.simps(5))

lemma keeps_same: "users_ok (po_users st) \<Longrightarrow> po_users st' = po_users st \<Longrightarrow> keeps cfg st st'"
  by (simp add: keeps_def)

lemma keeps_standing_trans: "keeps cfg st st1 \<Longrightarrow> keeps cfg st1 st2 \<Longrightarrow> keeps cfg st st2"
  by (simp add: keeps_def)

lemma keeps_ok: "keeps cfg st st' \<Longrightarrow> users_ok (po_users st')"
  by (simp add: keeps_def)

lemma moves_keeps: "moves cfg op st st1 \<Longrightarrow> po_users st2 = po_users st1 \<Longrightarrow> moves cfg op st st2"
  by (simp add: moves_def)

text \<open>A user in a handler's hands: a row as it stands, or the configured owner.\<close>

definition grounded :: "portal_config \<Rightarrow> account \<Rightarrow> portal \<Rightarrow> bool" where
  "grounded cfg a st \<longleftrightarrow>
     (\<exists>b\<in>set (po_users st). u_id b = u_id a \<and> u_email b = u_email a \<and> u_status b = u_status a) \<or>
     (u_id a = pc_owner cfg \<and> is_configured_owner cfg (u_email a))"

lemma save_user_rows: "save_user fails a st = Some st' \<longleftrightarrow> \<not> fails \<and> (\<exists>rows. update_user a (po_users st) = Some rows \<and> st' = st\<lparr>po_users := rows\<rparr>)"
  by (auto simp: save_user_def)

lemma insert_user_rows: "insert_user fails a st = Some st' \<longleftrightarrow> \<not> fails \<and> (\<exists>rows. create_user a (po_users st) = Some rows \<and> st' = st\<lparr>po_users := rows\<rparr>)"
  by (auto simp: insert_user_def)

lemma keeps_save:
  assumes "users_ok (po_users st)" "grounded cfg a st" "save_user fails a' st = Some st'"
    and "u_id a' = u_id a" "u_email a' = u_email a" "u_status a' = u_status a"
  shows "keeps cfg st st'" "grounded cfg a' st'"
proof -
  obtain rows where u: "update_user a' (po_users st) = Some rows" and st': "st' = st\<lparr>po_users := rows\<rparr>"
    using assms(3) by (auto simp: save_user_rows)
  have "keeps cfg st st' \<and> grounded cfg a' st'"
  proof (cases "\<exists>b\<in>set (po_users st). u_id b = u_id a \<and> u_email b = u_email a \<and> u_status b = u_status a")
    case True
    then obtain b where b: "b \<in> set (po_users st)" "u_id b = u_id a" "u_email b = u_email a" "u_status b = u_status a" by blast
    note k = update_known [OF assms(1) u b(1)]
    have ok: "users_ok rows" using k(1) b assms(4,5) by simp
    have e: "get_user_by_email e rows = (if e = u_email b then Some (updated a' b) else get_user_by_email e (po_users st))" for e
      using k(2) b assms(4,5) by simp
    have old: "get_user_by_email (u_email b) (po_users st) = Some b" using by_email_iff [OF assms(1)] b(1) by simp
    have "updated a' b \<in> set rows" using by_email_iff [OF ok] e [of "u_email b"] by simp
    then have "grounded cfg a' st'" unfolding grounded_def st' by (intro disjI1 bexI [of _ "updated a' b"]) simp_all
    then show ?thesis using ok old b assms(6) by (auto simp: keeps_def st' e)
  next
    case False
    then have own: "u_id a' = pc_owner cfg" "is_configured_owner cfg (u_email a')" using assms(2,4,5) by (auto simp: grounded_def)
    then have fold: "equal_fold (u_id a') (u_email a')" by (auto simp: is_configured_owner_def equal_fold_def)
    have "get_user_by_email e rows = get_user_by_email e (po_users st)" if "\<not> is_configured_owner cfg e" for e
      using update_foreign [OF assms(1) u fold, of e] that own by (auto simp: is_configured_owner_def)
    then show ?thesis using update_keeps_ok [OF assms(1) u fold] own by (auto simp: keeps_def grounded_def st')
  qed
  then show "keeps cfg st st'" "grounded cfg a' st'" by simp_all
qed

lemma keeps_save_or_not:
  assumes "users_ok (po_users st)" "grounded cfg a st" "u_id a' = u_id a" "u_email a' = u_email a" "u_status a' = u_status a"
  shows "keeps cfg st (save_user_or_not fails a' st)" "grounded cfg a' (save_user_or_not fails a' st)"
  using keeps_save [OF assms(1,2) _ assms(3-5), of fails] keeps_same [OF assms(1) refl] assms(2-5)
  by (auto simp: save_user_or_not_def grounded_def split: option.split)


section \<open>Statements that change it\<close>

lemma moves_save:
  assumes "users_ok (po_users st)" "b \<in> set (po_users st)" "save_user fails a st = Some st'" "u_id a = u_id b" "u_email a = u_email b"
    and "standing_step cfg op (u_email b) (Some b) (Some (updated a b))"
  shows "moves cfg op st st'"
proof -
  obtain rows where u: "update_user a (po_users st) = Some rows" and st': "st' = st\<lparr>po_users := rows\<rparr>"
    using assms(3) by (auto simp: save_user_rows)
  note k = update_known [OF assms(1) u assms(2,4,5)]
  have "get_user_by_email (u_email b) (po_users st) = Some b" using by_email_iff [OF assms(1)] assms(2) by simp
  then show ?thesis using k assms(6) by (simp add: moves_def st' standing_same)
qed

lemma moves_insert:
  assumes "users_ok (po_users st)" "insert_user fails a st = Some st'" "equal_fold (u_id a) (u_email a)"
    and "\<not> is_configured_owner cfg (u_email a) \<Longrightarrow> standing_step cfg op (u_email a) None (Some (inserted a))"
  shows "moves cfg op st st'"
proof -
  obtain rows where u: "create_user a (po_users st) = Some rows" and st': "st' = st\<lparr>po_users := rows\<rparr>"
    using assms(2) by (auto simp: insert_user_rows)
  note k = create_known [OF assms(1) u assms(3)]
  show ?thesis using k assms(4) by (simp add: moves_def st' standing_same)
qed

lemma moves_drop:
  assumes "users_ok (po_users st)" "b \<in> set (po_users st)" "standing_step cfg op (u_email b) (Some b) None"
  shows "moves cfg op st (drop_user (u_id b) st)"
proof -
  have "get_user_by_email (u_email b) (po_users st) = Some b" using by_email_iff [OF assms(1)] assms(2) by simp
  then show ?thesis using delete_known [OF assms(1,2)] assms(3) by (simp add: moves_def drop_user_def standing_same)
qed

lemma moves_refl: "users_ok (po_users st) \<Longrightarrow> po_users st' = po_users st \<Longrightarrow> moves cfg op st st'"
  by (rule keeps_moves [OF keeps_same])

lemma moves_links [simp]: "moves cfg op st (st1\<lparr>po_links := x\<rparr>) = moves cfg op st st1"
  by (simp add: moves_def)

text \<open>What starts from a state with the same users does what it does from there.\<close>

lemma moves_from: "moves cfg op st1 st' \<Longrightarrow> po_users st1 = po_users st \<Longrightarrow> moves cfg op st st'"
  by (simp add: moves_def)

section \<open>Sign-in\<close>

lemma open_session_users [simp]: "po_users (snd (open_session cfg digest f now tls proto ip email previous token st)) = po_users st"
  by (simp add: open_session_def Let_def split: prod.split)

lemma current_raw_users [simp]: "po_users (snd (get_current_user_raw cfg digest f now cookie st)) = po_users st"
  by (simp add: get_current_user_raw_def split: prod.split option.split)

lemma current_users [simp]: "po_users (snd (get_current_user cfg digest f now cookie st)) = po_users st"
  using current_raw_users [of cfg digest f now cookie st]
  by (auto simp: get_current_user_def Let_def simp del: current_raw_users split: prod.split option.split)

lemma view_as_users [simp]: "po_users (snd (handle_view_as cfg digest f now raw cookie st)) = po_users st"
  using current_raw_users [of cfg digest f now cookie st]
  by (auto simp: handle_view_as_def Let_def simp del: current_raw_users split: prod.split option.split)

lemma look_up_Found: "look_up_user f email st = Found a \<longleftrightarrow> \<not> pf_readUser f \<and> get_user_by_email email (po_users st) = Some a"
  by (auto simp: look_up_user_def split: option.split)

lemma look_up_Missing: "look_up_user f email st = Missing \<longleftrightarrow> \<not> pf_readUser f \<and> get_user_by_email email (po_users st) = None"
  by (auto simp: look_up_user_def split: option.split)

lemma found_grounded:
  assumes "users_ok (po_users st)" "look_up_user f email st = Found a"
  shows "a \<in> set (po_users st)" "u_email a = email" "grounded cfg a st"
  using assms by_email_iff [OF assms(1)] by (auto simp: look_up_Found grounded_def)

lemma grounded_same: "grounded cfg a st \<Longrightarrow> po_users st' = po_users st \<Longrightarrow> grounded cfg a st'"
  by (simp add: grounded_def)

lemma grounded_role: "grounded cfg a st \<Longrightarrow> grounded cfg (a\<lparr>u_role := r\<rparr>) st"
  by (simp add: grounded_def)

lemma link_user_keeps:
  assumes "users_ok (po_users st)" "link_user cfg f now email st = (user, st')"
  shows "keeps cfg st st'" "user = Some a \<Longrightarrow> grounded cfg a st'"
proof -
  have "keeps cfg st st' \<and> (\<forall>a. user = Some a \<longrightarrow> grounded cfg a st')"
  proof (cases "\<exists>a. look_up_user f email st = Found a")
    case True
    then show ?thesis using assms found_grounded [OF assms(1)] keeps_same [OF assms(1) refl] by (auto simp: link_user_def)
  next
    case False
    then have u: "(user, st') = (if is_configured_owner cfg email
           then (Some (owner_account cfg email now),
                 case insert_user (pf_createUser f) (owner_account cfg email now) st of None \<Rightarrow> st | Some st1 \<Rightarrow> st1)
           else (None, st))"
      using assms(2) by (cases "look_up_user f email st") (auto simp: link_user_def)
    show ?thesis
    proof (cases "is_configured_owner cfg email")
      case own: True
      let ?a = "owner_account cfg email now"
      have a: "u_id ?a = pc_owner cfg" "u_email ?a = email" by (simp_all add: owner_account_def new_account_def)
      have fold: "equal_fold (u_id ?a) (u_email ?a)" using own a by (auto simp: is_configured_owner_def equal_fold_def)
      have "keeps cfg st st1" if ins: "insert_user (pf_createUser f) ?a st = Some st1" for st1
      proof -
        obtain rows where c: "create_user ?a (po_users st) = Some rows" "st1 = st\<lparr>po_users := rows\<rparr>"
          using ins unfolding insert_user_rows by blast
        note k = create_known [OF assms(1) c(1) fold]
        show ?thesis using k own a c(2) by (auto simp: keeps_def)
      qed
      then have "keeps cfg st st'" using u own keeps_same [OF assms(1) refl] by (auto split: option.splits)
      moreover have "user = Some ?a" using u own by simp
      ultimately show ?thesis using a own by (simp add: grounded_def)
    qed (use u keeps_same [OF assms(1) refl] in simp)
  qed
  then show "keeps cfg st st'" "user = Some a \<Longrightarrow> grounded cfg a st'" by simp_all
qed


lemma record_language_keeps:
  assumes "users_ok (po_users st)" "record_language f lang (user, st) = (user', st')" "\<And>a. user = Some a \<Longrightarrow> grounded cfg a st"
  shows "keeps cfg st st'" "user' = Some a \<Longrightarrow> grounded cfg a st'"
proof -
  have "keeps cfg st st' \<and> (\<forall>a. user' = Some a \<longrightarrow> grounded cfg a st')"
  proof (cases user)
    case (Some a)
    have g: "grounded cfg a st" by (rule assms(3) [OF Some])
    show ?thesis
      using assms(2) Some g keeps_same [OF assms(1) refl]
        keeps_save_or_not [OF assms(1) g, of "a\<lparr>u_languagePreference := lang\<rparr>" "pf_writeUser f"]
      by (auto simp: record_language_def split: if_splits)
  qed (use assms keeps_same [OF assms(1) refl] in \<open>auto simp: record_language_def\<close>)
  then show "keeps cfg st st'" "user' = Some a \<Longrightarrow> grounded cfg a st'" by simp_all
qed

lemma record_login_keeps:
  assumes "users_ok (po_users st)" "grounded cfg a st"
  shows "keeps cfg st (record_login f now ip a st)"
  unfolding record_login_def by (rule keeps_save_or_not(1) [OF assms]) simp_all

lemma opened_keeps: "keeps cfg st st1 \<Longrightarrow> keeps cfg st (snd (open_session cfg' digest f now tls proto ip email previous token st1))"
  by (simp add: keeps_def)

lemma verify_keeps:
  assumes "users_ok (po_users st)"
  shows "keeps cfg st (snd (handle_verify cfg digest f now tls proto ip lang session temp token st))"
proof (cases "if pf_readLink f then None else get_magic_link (digest token) (po_links st)")
  case (Some l)
  let ?l1 = "if pf_markLink f then po_links st else mark_magic_link_used now (ml_id l) (po_links st)"
  let ?l2 = "if pf_invalidate f then ?l1 else invalidate_other_magic_links now (ml_email l) (Some (ml_id l)) ?l1"
  let ?st = "st\<lparr>po_links := ?l2\<rparr>"
  obtain user1 st1 where u1: "link_user cfg f now (ml_email l) ?st = (user1, st1)" by fastforce
  obtain user2 st2 where u2: "record_language f lang (user1, st1) = (user2, st2)" by fastforce
  have ok: "users_ok (po_users ?st)" using assms by simp
  note k1 = link_user_keeps [OF ok u1]
  have k2: "keeps cfg st1 st2" "\<And>a. user2 = Some a \<Longrightarrow> grounded cfg a st2"
    using record_language_keeps [OF keeps_ok [OF k1(1)] u2] k1(2) by blast+
  have k: "keeps cfg st st2" using keeps_standing_trans [OF k1(1) k2(1)] by (simp add: keeps_def)
  have login: "keeps cfg st (record_login f now ip a st2)" if "user2 = Some a" for a
    by (rule keeps_standing_trans [OF k record_login_keeps [OF keeps_ok [OF k] k2(2) [OF that]]])
  have "keeps cfg st (st2\<lparr>po_preAuth := x\<rparr>)" for x using k by (simp add: keeps_def)
  then show ?thesis
    using Some k login opened_keeps [OF k] opened_keeps [OF login] keeps_same [OF assms refl]
    by (auto simp: handle_verify_def Let_def u1 u2 split: option.split prod.split)
       (metis snd_conv)+
qed (use keeps_same [OF assms refl] in \<open>simp add: handle_verify_def\<close>)


lemma mfa_verify_keeps:
  assumes "users_ok (po_users st)"
  shows "keeps cfg st (snd (mfa_verify cfg hmac digest f now tls proto ip session temp code st))"
proof -
  let ?st1 = "st\<lparr>po_preAuth := del temp (po_preAuth st)\<rparr>"
  have same: "keeps cfg st (st\<lparr>po_preAuth := x\<rparr>)" for x by (rule keeps_same [OF assms]) simp
  have login: "keeps cfg st (record_login f now ip a ?st1)" if "look_up_user f e ?st1 = Found a" for a e
  proof -
    have ok: "users_ok (po_users ?st1)" using assms by simp
    show ?thesis using record_login_keeps [OF ok found_grounded(3) [OF ok that]] by (simp add: keeps_def)
  qed
  show ?thesis
    using same login opened_keeps [OF login] keeps_same [OF assms refl]
    by (auto simp: mfa_verify_def Let_def split: option.split user_lookup.split prod.split) (metis snd_conv)+
qed

lemma current_raw_grounded:
  assumes "users_ok (po_users st)" "get_current_user_raw cfg digest f now cookie st = (Some a, st1)"
  shows "grounded cfg a st1"
proof -
  have same: "po_users st1 = po_users st" using current_raw_users [of cfg digest f now cookie st] assms(2) by simp
  obtain d s where l: "load_portal_session digest (pf_sessions f) now cookie (po_sessions st) = (Some d, s)"
    using assms(2) by (auto simp: get_current_user_raw_def split: prod.splits option.splits)
  have "grounded cfg a st"
  proof (cases "look_up_user f (ps_email d) st")
    case (Found b)
    then have "a = b" using assms(2) l by (auto simp: get_current_user_raw_def)
    then show ?thesis using found_grounded(3) [OF assms(1) Found] by simp
  qed (use assms(2) l in \<open>auto simp: get_current_user_raw_def new_account_def grounded_def split: if_splits\<close>)
  then show ?thesis by (rule grounded_same) (rule same)
qed

lemma current_grounded:
  assumes "users_ok (po_users st)" "get_current_user cfg digest f now cookie st = (Some a, st1)"
  shows "grounded cfg a st1"
proof -
  obtain b where "get_current_user_raw cfg digest f now cookie st = (Some b, st1)" "a = b \<or> (\<exists>r. a = b\<lparr>u_role := r\<rparr>)"
    using assms(2) by (auto simp: get_current_user_def Let_def split: prod.splits option.splits if_splits)
  then show ?thesis using current_raw_grounded [OF assms(1)] grounded_role by blast
qed

lemma for_current_keeps:
  assumes "users_ok (po_users st)"
    and "\<And>a st1. users_ok (po_users st1) \<Longrightarrow> grounded cfg a st1 \<Longrightarrow> keeps cfg st1 (snd (h a st1))"
  shows "keeps cfg st (for_current cfg digest f now cookie h st)"
proof -
  obtain x st1 where c: "get_current_user cfg digest f now cookie st = (x, st1)" by fastforce
  have same: "po_users st1 = po_users st" using current_users [of cfg digest f now cookie st] c by simp
  then have ok: "users_ok (po_users st1)" using assms(1) by simp
  have k: "keeps cfg st st1" by (rule keeps_same [OF assms(1) same])
  show ?thesis
  proof (cases x)
    case (Some a)
    have "keeps cfg st1 (snd (h a st1))" by (rule assms(2) [OF ok current_grounded [OF assms(1)]]) (use c Some in simp)
    then show ?thesis using keeps_standing_trans [OF k] c Some by (simp add: for_current_def)
  qed (use k c in \<open>simp add: for_current_def\<close>)
qed

lemma mfa_enable_keeps:
  assumes "users_ok (po_users st)" "grounded cfg a st"
  shows "keeps cfg st (snd (mfa_enable hmac f now a secret code st))" "keeps cfg st (snd (mfa_disable hmac f now a code st))"
  using keeps_save(1) [OF assms, of _ "a\<lparr>ac_totpSecret := secret, ac_totpEnabled := True\<rparr>"]
    keeps_save(1) [OF assms, of _ "a\<lparr>ac_totpSecret := [], ac_totpEnabled := False\<rparr>"] keeps_same [OF assms(1) refl]
  by (auto simp: mfa_enable_def mfa_disable_def split: option.split)

section \<open>Single sign-on\<close>

lemma normal_address_def': "to_lower (trim_space raw) = normal_address raw"
  by (simp add: normal_address_def)

lemma sso_user_moves:
  assumes "users_ok (po_users st)" "sso_user cfg f now provider (normal_address raw) given family st = Inr st'" "normal_address raw \<noteq> []"
  shows "moves cfg (Sso f now ip session provider raw given family) st st'"
proof (cases "look_up_user f (normal_address raw) st")
  case (Found a)
  note g = found_grounded [OF assms(1) Found]
  show ?thesis
  proof (cases "u_status a = status_approved")
    case False
    then have nr: "u_status a \<noteq> status_rejected" and sv:
      "save_user (pf_writeUser f) (a\<lparr>u_status := status_approved, ac_approvalToken := None, ac_lastLoginAt := Some now\<rparr>) st = Some st'"
      using assms(2) Found by (auto simp: sso_user_def approve_on_sso_def split: if_splits option.splits)
    show ?thesis by (rule moves_save [OF assms(1) g(1) sv]) (use nr g(2) in \<open>auto intro: standing_step.vouches\<close>)
  qed (use assms Found in \<open>auto simp: sso_user_def intro: moves_refl\<close>)
next
  case Missing
  let ?e = "normal_address raw"
  let ?a = "(new_account ?e ?e (if equal_fold ?e (pc_owner cfg) then ''owner'' else ''user'') status_approved now)
    \<lparr>ac_firstName := given, ac_lastName := family, ac_authMethod := ''sso - '' @ provider\<rparr>"
  have ins: "insert_user (pf_createUser f) ?a st = Some st'" and reg: "\<not> pc_disableNewRegistrations cfg \<or> equal_fold ?e (pc_owner cfg)"
    using assms(2) Missing by (auto simp: sso_user_def Let_def split: if_splits option.splits)
  have a: "u_id ?a = ?e" "u_email ?a = ?e" "u_status ?a = status_approved" by (simp_all add: new_account_def)
  have own: "equal_fold ?e (pc_owner cfg) \<Longrightarrow> is_configured_owner cfg ?e"
    using assms(3) by (auto simp: is_configured_owner_def equal_fold_def to_lower_def)
  show ?thesis
    by (rule moves_insert [OF assms(1) ins]) (use a reg own in \<open>auto intro!: standing_step.provisions\<close>)
qed (use assms(2) in \<open>simp add: sso_user_def\<close>)


lemma sso_moves:
  assumes "users_ok (po_users st)"
  shows "moves cfg (Sso f now ip session provider raw given family) st
    (snd (handle_sso_claims cfg digest f now tls proto ip session provider raw given family st))"
proof -
  let ?op = "Sso f now ip session provider raw given family"
  have none: "moves cfg ?op st st" by (rule moves_refl [OF assms refl])
  have opened: "moves cfg ?op st (snd (open_session cfg digest s now tls proto ip e previous t st1))" if "moves cfg ?op st st1" for s e previous t st1
    by (rule moves_keeps [OF that]) simp
  have user: "moves cfg ?op st st1" if "sso_user cfg f now provider (normal_address raw) given family st = Inr st1" "normal_address raw \<noteq> []" for st1
    by (rule sso_user_moves [OF assms that])
  show ?thesis
    using none user opened [OF user]
    by (auto simp: handle_sso_claims_def Let_def normal_address_def' split: option.split sum.split prod.split) (metis snd_conv)+
qed

section \<open>Onboarding\<close>

lemma column_token: "column c = token \<Longrightarrow> token \<noteq> [] \<Longrightarrow> c = Some token"
  by (simp add: column_def split: option.splits)

lemma register_moves:
  assumes "users_ok (po_users st)"
  shows "moves cfg (Register f now ap v raw p) st (snd (handle_register_request cfg f now ap v raw p st))"
proof -
  have ins: "moves cfg (Register f now ap v raw p) st st'"
    if "insert_user fl a st = Some st'" "u_id a = normal_address raw" "u_email a = normal_address raw" "u_status a = status_unverified"
      "\<not> two_part_domain_refused cfg (normal_address raw)" for fl a st'
    by (rule moves_insert [OF assms that(1)]) (use that in \<open>auto intro: standing_step.registers\<close>)
  show ?thesis using moves_refl [OF assms refl] ins
    by (auto simp: handle_register_request_def Let_def normal_address_def' new_account_def split: option.split)
qed

lemma unverified_found:
  assumes "users_ok (po_users st)" "unverified_by_token cfg f now token st = Inr a"
  shows "a \<in> set (po_users st)" "u_status a = status_unverified" "ac_verificationToken a = Some token"
    "now \<le> ac_createdAt a + pc_verificationLinkExpiry cfg"
  using assms(2) find_SomeD [of "\<lambda>a. ac_verificationToken a = Some token" "po_users st" a]
  by (auto simp: unverified_by_token_def get_user_by_verification_token_def split: if_splits option.splits)

lemma pending_moves:
  assumes "users_ok (po_users st)" "a \<in> set (po_users st)" "u_id b = u_id a" "u_email b = u_email a"
    and "\<And>c. u_status c = status_pending \<Longrightarrow> standing_step cfg op (u_email a) (Some a) (Some c)"
  shows "moves cfg op st (snd (make_pending f b st))"
proof -
  have "moves cfg op st st'"
    if sv: "save_user (pf_writeUser f) (b\<lparr>u_status := status_pending, ac_verificationToken := None\<rparr>) st = Some st'" for st'
    by (rule moves_save [OF assms(1,2) sv]) (use assms(3-5) in simp_all)
  then show ?thesis using moves_refl [OF assms(1) refl] by (simp add: make_pending_def split: option.split)
qed

lemma setup_moves:
  assumes "users_ok (po_users st)"
  shows "moves cfg (Complete_setup f now token p consent diagnostics) st (snd (handle_complete_setup cfg f now token p consent diagnostics st))"
proof -
  have "moves cfg (Complete_setup f now token p consent diagnostics) st (snd (make_pending f b st))"
    if a: "unverified_by_token cfg f now token st = Inr a" and b: "u_id b = u_id a" "u_email b = u_email a" for a b
    using unverified_found [OF assms a] by (intro pending_moves [OF assms _ b]) (auto intro: standing_step.completes)
  then show ?thesis using moves_refl [OF assms refl] by (simp add: handle_complete_setup_def split: sum.split)
qed

lemma verify_email_moves:
  assumes "users_ok (po_users st)"
  shows "moves cfg (Verify_email f now token) st (snd (handle_verify_email cfg f now token st))"
proof -
  have "moves cfg (Verify_email f now token) st (snd (make_pending f a st))"
    if a: "unverified_by_token cfg f now token st = Inr a" "token \<noteq> []" for a
    using unverified_found [OF assms a(1)] a(2) by (intro pending_moves [OF assms _ refl refl]) (auto intro: standing_step.verifies)
  then show ?thesis using moves_refl [OF assms refl] by (simp add: handle_verify_email_def split: sum.split)
qed

lemma decision_found:
  assumes "users_ok (po_users st)" "decision_for f i token st = Inr a"
  shows "a \<in> set (po_users st)" "u_status a = status_pending" "ac_approvalToken a = Some token" "token \<noteq> []" "u_id a = i"
  using assms(2) by_id_iff [OF assms(1), of i a] column_token [of "ac_approvalToken a" token]
  by (auto simp: decision_for_def split: if_splits option.splits)

lemma approve_moves:
  assumes "users_ok (po_users st)"
  shows "moves cfg (Approve f now posted i token claim random) st (snd (handle_approve digest f now posted i token claim random st))"
proof -
  let ?op = "Approve f now posted i token claim random"
  have none: "moves cfg ?op st (st\<lparr>po_tokens := x\<rparr>)" for x by (rule moves_refl [OF assms]) simp
  have "moves cfg ?op st st'"
    if a: "decision_for f i token st = Inr a" "posted" and sv: "save_user fl (a\<lparr>u_status := status_approved, ac_approvalToken := None,
                ac_claimToken := c\<rparr>) (st\<lparr>po_tokens := x\<rparr>) = Some st'" for a fl c x st'
  proof (rule moves_from [OF moves_save [OF _ _ sv]])
    note d = decision_found [OF assms a(1)]
    show "users_ok (po_users (st\<lparr>po_tokens := x\<rparr>))" "a \<in> set (po_users (st\<lparr>po_tokens := x\<rparr>))" using assms d by simp_all
    show "standing_step cfg ?op (u_email a) (Some a) (Some (updated (a\<lparr>u_status := status_approved, ac_approvalToken := None,
                ac_claimToken := c\<rparr>) a))"
      using d a(2) by (auto intro: standing_step.approves)
  qed simp_all
  then show ?thesis using none moves_refl [OF assms refl]
    by (auto simp: handle_approve_def Let_def split: sum.split option.split prod.split)
qed

lemma reject_moves:
  assumes "users_ok (po_users st)"
  shows "moves cfg (Reject f posted i token) st (snd (handle_reject f posted i token st))"
proof -
  have "moves cfg (Reject f posted i token) st st'"
    if a: "decision_for f i token st = Inr a" "posted" and sv: "save_user fl (a\<lparr>u_status := status_rejected, ac_approvalToken := None\<rparr>) st = Some st'" for a fl st'
    using decision_found [OF assms a(1)] a(2) by (intro moves_save [OF assms _ sv]) (auto intro: standing_step.rejects)
  then show ?thesis using moves_refl [OF assms refl]
    by (auto simp: handle_reject_def split: sum.split option.split)
qed


lemma claim_keeps:
  assumes "users_ok (po_users st)"
  shows "keeps cfg st (snd (handle_claim f token st))"
proof -
  have "keeps cfg st st'" if a: "find (claimed_by token) (po_users st) = Some a" and sv: "save_user fl (a\<lparr>ac_claimToken := None\<rparr>) st = Some st'" for a fl st'
    by (rule keeps_save(1) [where a = a, OF assms _ sv]) (use find_SomeD [OF a] in \<open>auto simp: grounded_def\<close>)
  then show ?thesis using keeps_same [OF assms refl] by (auto simp: handle_claim_def split: option.split)
qed

lemma invite_moves:
  assumes "users_ok (po_users st)"
  shows "moves cfg (Invite f now ip token raw given family lang) st (snd (handle_invite cfg digest f now ip token raw given family lang st))"
proof -
  let ?op = "Invite f now ip token raw given family lang"
  have ins: "\<not> two_part_domain_refused cfg (normal_address raw) \<Longrightarrow> moves cfg ?op st st'"
    if "insert_user fl a st = Some st'" "u_id a = normal_address raw \<and> u_email a = normal_address raw \<and> u_status a = status_approved" for fl a st'
    by (rule moves_insert [OF assms that(1)]) (use that in \<open>auto intro: standing_step.invites\<close>)
  show ?thesis using moves_refl [OF assms refl]
    by (auto simp: handle_invite_def Let_def normal_address_def' new_account_def split: option.split user_lookup.split
        dest!: ins)
qed

lemma patch_moves:
  assumes "users_ok (po_users st)"
  shows "moves cfg (Patch f count_fails actor actorRole email q) st (snd (handle_patch cfg f count_fails actor actorRole email q st))"
proof -
  let ?op = "Patch f count_fails actor actorRole email q"
  have p: "u_id (patched q a) = u_id a" "u_email (patched q a) = u_email a" "u_status (patched q a) = or_else (pq_status q) (u_status a)" for a
    by (simp_all add: patched_def Let_def)
  have "moves cfg ?op st st'"
    if a: "look_up_user f email st = Found a" and v: "\<not> (case pq_status q of None \<Rightarrow> False | Some s \<Rightarrow> \<not> is_valid_user_status s)"
      and sv: "save_user fl (patched q a) st = Some st'" for a fl st'
    by (rule moves_save [OF assms found_grounded(1) [OF assms a] sv])
      (use found_grounded(2) [OF assms a] v p in \<open>auto simp: or_else_def split: option.splits intro: standing_step.stays standing_step.changes\<close>)
  then show ?thesis using moves_refl [OF assms refl]
    by (auto simp: handle_patch_def split: user_lookup.split option.split)
qed

lemma report_keeps: "users_ok (po_users st) \<Longrightarrow> keeps cfg st (snd (handle_report digest f now token st))"
  by (rule keeps_same) (simp_all add: handle_report_def use_link_def Let_def split: option.split)

lemma decline_moves:
  assumes "users_ok (po_users st)"
  shows "moves cfg (Decline f now token) st (snd (handle_decline digest f now token st))"
proof -
  have used: "po_users (use_link f now l st) = po_users st" for l by (simp add: use_link_def)
  have "moves cfg (Decline f now token) st (drop_user (u_id a) (use_link f now l st))"
    if a: "look_up_user f e (use_link f now l st) = Found a" for a e l
    using found_grounded(1) [OF _ a] assms used
    by (intro moves_from [OF moves_drop]) (auto intro: standing_step.declines)
  then show ?thesis using moves_refl [OF assms used]
      moves_refl [OF assms refl]
    by (auto simp: handle_decline_def Let_def split: option.split user_lookup.split)
qed

lemma report_registration_moves:
  assumes "users_ok (po_users st)"
  shows "moves cfg (Report_registration f token) st (snd (handle_report_registration f token st))"
proof -
  have "moves cfg (Report_registration f token) st (drop_user (u_id a) st)"
    if a: "get_user_by_verification_token token (po_users st) = Some a" "token \<noteq> []" for a
    by (rule moves_drop [OF assms])
      (use find_SomeD [of "\<lambda>a. ac_verificationToken a = Some token" "po_users st" a] a in
        \<open>auto simp: get_user_by_verification_token_def intro: standing_step.reports\<close>)
  then show ?thesis using moves_refl [OF assms refl] by (auto simp: handle_report_registration_def split: option.split)
qed

lemma delete_moves:
  assumes "users_ok (po_users st)" "\<And>a b. standing_step cfg op email (Some a) None"
  shows "moves cfg op st (snd (handle_delete_user cfg f now email st))"
proof -
  have "moves cfg op st (drop_user (u_id a) (st\<lparr>po_tokens := x\<rparr>))" if a: "look_up_user f email st = Found a" for a x
    using found_grounded(1,2) [OF assms(1) a] assms by (intro moves_from [OF moves_drop]) auto
  moreover have "moves cfg op st (st\<lparr>po_tokens := x\<rparr>)" for x by (rule moves_refl [OF assms(1)]) simp
  ultimately show ?thesis using moves_refl [OF assms(1) refl]
    by (auto simp: handle_delete_user_def Let_def split: user_lookup.split)
qed

lemma self_delete_moves:
  assumes "users_ok (po_users st)"
  shows "moves cfg (Self_delete f now cookie confirm) st (snd (handle_self_delete cfg digest f now cookie confirm st))"
proof -
  obtain x st1 where c: "get_current_user cfg digest f now cookie st = (x, st1)" by fastforce
  have same: "po_users st1 = po_users st" using current_users [of cfg digest f now cookie st] c by simp
  then have ok: "users_ok (po_users st1)" using assms by simp
  have "moves cfg (Self_delete f now cookie confirm) st (snd (handle_delete_user cfg f now e st1))" for e
    by (rule moves_from [OF delete_moves [OF ok] same]) (rule standing_step.leaves)
  then show ?thesis using c moves_refl [OF assms same] by (auto simp: handle_self_delete_def split: option.split)
qed

section \<open>Every operation\<close>

lemma snd_logged [simp]: "snd (case p of (out, st') \<Rightarrow> (g out, st')) = snd p"
  by (simp split: prod.split)

lemma step_moves:
  assumes "users_ok (po_users st)"
  shows "moves cfg op st (snd (portal_step cfg hmac digest op st))"
proof (cases op)
  case (Ask_link f now ip token raw)
  then show ?thesis using assms
    by (auto simp: handle_magic_link_def Let_def intro!: moves_refl split: if_splits user_lookup.splits)
next
  case (Follow_link f now ip lang session temp token)
  then show ?thesis using keeps_moves [OF verify_keeps [OF assms, of cfg digest f now True "[]" ip lang session temp token], of op]
    by simp
next
  case (Give_code f now ip session temp code)
  then show ?thesis using keeps_moves [OF mfa_verify_keeps [OF assms, of cfg hmac digest f now True "[]" ip session temp code], of op]
    by simp
next
  case (Sso f now ip session provider raw given family)
  then show ?thesis using sso_moves [OF assms, of cfg f now ip session provider raw given family digest True "[]"]
    by simp
next
  case (Invite f now ip token raw given family lang)
  then show ?thesis using invite_moves [OF assms, of cfg f now ip token raw given family lang digest] by simp
next
  case (Delete_user f now email)
  then show ?thesis using delete_moves [OF assms standing_step.deletes] by simp
qed (use assms in \<open>simp_all add: keeps_moves for_current_keeps mfa_enable_keeps register_moves setup_moves verify_email_moves
      approve_moves reject_moves claim_keeps patch_moves report_keeps decline_moves report_registration_moves self_delete_moves
      moves_refl handle_logout_def restart_portal_def\<close>)


lemma run_invariant:
  assumes "\<And>op st. op \<in> set ops \<Longrightarrow> P st \<Longrightarrow> P (snd (portal_step cfg hmac digest op st))" "P st"
  shows "P (snd (portal_run cfg hmac digest ops (trail, st)))"
  using assms
proof (induction ops arbitrary: trail st)
  case (Cons op ops)
  obtain evs st' where s: "portal_step cfg hmac digest op st = (evs, st')" by fastforce
  have "P st'" using Cons.prems(1) [of op st] Cons.prems(2) s by simp
  then show ?case using Cons.IH [of st'] Cons.prems(1) s by simp
qed simp

definition standing :: "string \<Rightarrow> portal \<Rightarrow> string option" where
  "standing e st = map_option u_status (get_user_by_email e (po_users st))"

lemma statuses_differ [simp]:
  "status_unverified \<noteq> status_pending" "status_unverified \<noteq> status_approved" "status_unverified \<noteq> status_rejected" "status_unverified \<noteq> status_revoked"
  "status_pending \<noteq> status_unverified" "status_pending \<noteq> status_approved" "status_pending \<noteq> status_rejected" "status_pending \<noteq> status_revoked"
  "status_approved \<noteq> status_unverified" "status_approved \<noteq> status_pending" "status_approved \<noteq> status_rejected" "status_approved \<noteq> status_revoked"
  "status_rejected \<noteq> status_unverified" "status_rejected \<noteq> status_pending" "status_rejected \<noteq> status_approved" "status_rejected \<noteq> status_revoked"
  "status_revoked \<noteq> status_unverified" "status_revoked \<noteq> status_pending" "status_revoked \<noteq> status_approved" "status_revoked \<noteq> status_rejected"
  by (simp_all add: status_unverified_def status_pending_def status_approved_def status_rejected_def status_revoked_def)

section \<open>Properties\<close>

text \<open>C10: The life of an account refines the state machine of its standing. Whatever operation runs, on whatever
  input and with whatever statements failing, identifiers and addresses stay unique, and every account (the
  configured owner's apart) either keeps its status or takes the transition of that operation past its guard: a
  verification token in time, the approval token of a pending account, the provider's assertion unless rejected.\<close>

theorem portal_refines_standing:
  assumes "users_ok (po_users st)" "portal_step cfg hmac digest op st = (evs, st')"
  shows "users_ok (po_users st') \<and>
    (\<forall>e. \<not> is_configured_owner cfg e \<longrightarrow>
       standing_step cfg op e (get_user_by_email e (po_users st)) (get_user_by_email e (po_users st')))"
  using step_moves [OF assms(1), of cfg op hmac digest] assms(2) by (simp add: moves_def)

text \<open>Requests of administrators come through one gate (\<open>handleAdminEndpoints\<close>), which names the actor and the
  role for the handler. \<open>gated\<close> says of a history that every invitation and every change in it did: by the session
  of a cookie or by a token, as both stand at that moment.\<close>

definition let_through ::
  "portal_config \<Rightarrow> (string \<Rightarrow> string) \<Rightarrow> string \<Rightarrow> string \<Rightarrow> portal \<Rightarrow> bool" where
  "let_through cfg digest actor role st \<longleftrightarrow>
     (\<exists>g now cookie out authorization query.
        require_admin (pc_owner cfg) (account_by_email st)
          (map_option ps_email (fst (load_portal_session digest g now cookie (po_sessions st))))
          (\<lambda>t. check_pat digest out (\<lambda>i. map_option user.truncate (get_user i (po_users st))) now t (po_tokens st))
          authorization query = Some (actor, role))"

fun admitted :: "portal_config \<Rightarrow> (string \<Rightarrow> string) \<Rightarrow> portal_op \<Rightarrow> portal \<Rightarrow> bool" where
  "admitted cfg digest (Invite f now ip token raw given family lang) st = (\<exists>actor role. let_through cfg digest actor role st)"
| "admitted cfg digest (Patch f count_fails actor actorRole email q) st = let_through cfg digest actor actorRole st"
| "admitted cfg digest _ st = True"

fun gated ::
  "portal_config \<Rightarrow> (byte list \<Rightarrow> byte list \<Rightarrow> byte list) \<Rightarrow> (string \<Rightarrow> string) \<Rightarrow> portal_op list \<Rightarrow> portal \<Rightarrow> bool" where
  "gated cfg hmac digest [] st = True"
| "gated cfg hmac digest (op # ops) st =
     (admitted cfg digest op st \<and> gated cfg hmac digest ops (snd (portal_step cfg hmac digest op st)))"

text \<open>Who may administer at a moment: the configured owner, and whoever has an account with that role.\<close>

definition admin_caller :: "portal_config \<Rightarrow> string \<Rightarrow> portal \<Rightarrow> bool" where
  "admin_caller cfg actor st \<longleftrightarrow> is_configured_owner cfg actor \<or>
     (\<exists>a\<in>set (po_users st). u_email a = actor \<and> (u_role a = ''admin'' \<or> u_role a = ''owner''))"

lemma let_through_admin:
  assumes "let_through cfg digest actor role st"
  shows "admin_caller cfg actor st"
proof -
  obtain g now cookie out authorization query where gate:
    "require_admin (pc_owner cfg) (account_by_email st)
       (map_option ps_email (fst (load_portal_session digest g now cookie (po_sessions st))))
       (\<lambda>t. check_pat digest out (\<lambda>i. map_option user.truncate (get_user i (po_users st))) now t (po_tokens st))
       authorization query = Some (actor, role)"
    using assms unfolding let_through_def by blast
  have mail: "admin_caller cfg e st" if "session_role (pc_owner cfg) (account_by_email st) e \<in> {''admin'', ''owner''}" for e
  proof (cases "is_configured_owner cfg e")
    case False
    have "\<exists>u. account_by_email st e = Some u \<and> (u_role u = ''admin'' \<or> u_role u = ''owner'')"
    proof (cases "account_by_email st e")
      case None
      then show ?thesis using that False by (simp add: session_role_def is_configured_owner_def split: if_splits)
    next
      case (Some u)
      then have "u_role u = ''admin'' \<or> u_role u = ''owner''"
        using that False by (simp add: session_role_def is_configured_owner_def split: if_splits)
      with Some show ?thesis by blast
    qed
    then obtain u where u: "account_by_email st e = Some u" "u_role u = ''admin'' \<or> u_role u = ''owner''" by blast
    then obtain a where a: "get_user_by_email e (po_users st) = Some a" "u = user.truncate a"
      by (auto simp: account_by_email_def)
    then have "a \<in> set (po_users st)" "u_email a = e"
      using find_SomeD unfolding get_user_by_email_def by fastforce+
    then show ?thesis using u(2) a(2) unfolding admin_caller_def by (auto simp: user.defs)
  qed (simp add: admin_caller_def)
  have pat: "admin_caller cfg (u_email u) st"
    if "check_pat digest out (\<lambda>i. map_option user.truncate (get_user i (po_users st))) now t (po_tokens st) = Token_valid u p"
      "u_role u = ''admin'' \<or> u_role u = ''owner''" for t u p
  proof -
    have "map_option user.truncate (get_user (pt_userID p) (po_users st)) = Some u"
      using that(1) by (simp add: check_pat_def split: if_splits query_outcome.splits option.splits)
    then obtain a where a: "get_user (pt_userID p) (po_users st) = Some a" "u = user.truncate a" by auto
    then have "a \<in> set (po_users st)" using find_SomeD unfolding get_user_def by fastforce
    then show ?thesis using that(2) a(2) unfolding admin_caller_def by (auto simp: user.defs)
  qed
  show ?thesis
    using gate mail pat
    by (auto simp: require_admin_def Let_def split: option.splits if_splits verdict.splits)
qed

text \<open>What makes somebody approved, at the moment it happens: the posted link of their own pending registration, the
  provider's assertion for them unless they stand rejected, an invitation of a new address, or a change of their
  status; the last two by an administrator or the owner.\<close>

fun decides :: "portal_config \<Rightarrow> string \<Rightarrow> portal_op \<Rightarrow> portal \<Rightarrow> bool" where
  "decides cfg e (Approve f now posted i token claim random) st =
     (posted \<and> token \<noteq> [] \<and> (case get_user_by_email e (po_users st) of None \<Rightarrow> False
        | Some a \<Rightarrow> u_status a = status_pending \<and> ac_approvalToken a = Some token))"
| "decides cfg e (Sso f now ip session provider raw given family) st =
     (normal_address raw = e \<and> standing e st \<noteq> Some status_rejected)"
| "decides cfg e (Invite f now ip token raw given family lang) st =
     (normal_address raw = e \<and> standing e st = None \<and> (\<exists>actor. admin_caller cfg actor st))"
| "decides cfg e (Patch f count_fails actor actorRole email q) st =
     (email = e \<and> pq_status q = Some status_approved \<and> admin_caller cfg actor st)"
| "decides cfg e _ st = False"

text \<open>The operations that can end a rejection.\<close>

fun may_lift_rejection :: "string \<Rightarrow> portal_op \<Rightarrow> bool" where
  "may_lift_rejection e (Patch f count_fails actor actorRole email q) = (email = e \<and> pq_status q \<noteq> None)"
| "may_lift_rejection e (Decline f now token) = True"
| "may_lift_rejection e (Report_registration f token) = True"
| "may_lift_rejection e (Delete_user f now email) = (email = e)"
| "may_lift_rejection e (Self_delete f now cookie confirm) = True"
| "may_lift_rejection e _ = False"

lemma step_decides:
  assumes "standing_step cfg op e (get_user_by_email e (po_users st)) y" "standing e st \<noteq> Some status_approved"
    and "map_option u_status y = Some status_approved" "admitted cfg digest op st"
  shows "decides cfg e op st"
  using assms(1)
proof (cases rule: standing_step.cases)
  case (invites raw b f now ip token given family lang)
  then obtain actor role where "let_through cfg digest actor role st" using assms(4) by auto
  then have "\<exists>actor. admin_caller cfg actor st" using let_through_admin by blast
  then show ?thesis using invites by (simp add: standing_def)
next
  case (changes q s b f count_fails actor actorRole a)
  then show ?thesis using assms(3,4) let_through_admin by (auto simp: standing_def)
qed (use assms(2,3) in \<open>auto simp: standing_def\<close>)

lemma step_keeps_rejection:
  assumes "standing_step cfg op e x y" "map_option u_status x = Some status_rejected" "\<not> may_lift_rejection e op"
  shows "map_option u_status y = Some status_rejected"
  using assms by (cases rule: standing_step.cases) auto

text \<open>C9: Nobody but the configured owner becomes approved without a decision about them. In any history after which an
  address is approved that was not before (unknown, pending, revoked or other), whatever statements fail, there is a
  moment at which the posted link of its own pending registration, the provider's assertion for it, an invitation of it,
  or a change of its status to approved is handled; the inviter or changer is then the configured owner or has the role of
  an administrator or owner. Supposed is that invitations and changes reach their handlers through the gate of the
  administrators' endpoints only. The configured owner needs no decision: signing in creates that account approved.\<close>

theorem approved_only_by_decision:
  assumes "users_ok (po_users st)" "\<not> is_configured_owner cfg e" "standing e st \<noteq> Some status_approved"
    and "gated cfg hmac digest ops st"
    and "standing e (snd (portal_run cfg hmac digest ops (trail, st))) = Some status_approved"
  shows "\<exists>earlier op later. ops = earlier @ op # later \<and>
    decides cfg e op (snd (portal_run cfg hmac digest earlier (trail, st)))"
  using assms(1,3-5)
proof (induction ops arbitrary: trail st)
  case (Cons op ops)
  obtain evs st1 where s: "portal_step cfg hmac digest op st = (evs, st1)" by fastforce
  have m: "moves cfg op st st1" using step_moves [OF Cons.prems(1), of cfg op hmac digest] s by simp
  show ?case
  proof (cases "standing e st1 = Some status_approved")
    case True
    have "decides cfg e op st"
      using m assms(2) True Cons.prems(2,3) unfolding moves_def
      by (intro step_decides [where digest = digest and y = "get_user_by_email e (po_users st1)"]) (simp_all add: standing_def)
    then show ?thesis by (intro exI [of _ "[]"] exI [of _ op] exI [of _ ops]) simp
  next
    case False
    obtain earlier op' later where d: "ops = earlier @ op' # later"
      "decides cfg e op' (snd (portal_run cfg hmac digest earlier (trail @ evs, st1)))"
      using Cons.IH [of st1 "trail @ evs"] m False Cons.prems(3,4) s unfolding moves_def by auto
    then show ?thesis using s by (intro exI [of _ "op # earlier"] exI [of _ op'] exI [of _ later]) simp
  qed
qed simp

text \<open>A rejected registration stays rejected through any history in which no administrator changes its status and
  no link of its own mailbox or account is used to delete it: registering again, confirming, replaying an approval
  link, single sign-on and invitations all leave it rejected.\<close>

theorem rejected_stays_rejected:
  assumes "users_ok (po_users st)" "\<not> is_configured_owner cfg e" "standing e st = Some status_rejected"
    and "list_all (\<lambda>op. \<not> may_lift_rejection e op) ops"
  shows "standing e (snd (portal_run cfg hmac digest ops (trail, st))) = Some status_rejected"
proof -
  let ?P = "\<lambda>st. users_ok (po_users st) \<and> standing e st = Some status_rejected"
  have "?P (snd (portal_run cfg hmac digest ops (trail, st)))"
  proof (rule run_invariant [of ops ?P])
    fix op st assume op: "op \<in> set ops" and st: "?P st"
    have "\<not> may_lift_rejection e op" using assms(4) op by (simp add: list_all_iff)
    then show "?P (snd (portal_step cfg hmac digest op st))"
      using st step_moves [of st cfg op hmac digest] assms(2) step_keeps_rejection unfolding moves_def standing_def by blast
  qed (use assms in simp)
  then show ?thesis by simp
qed


section \<open>A small gateway\<close>

definition small_config :: portal_config where
  "small_config = \<lparr>pc_owner = ''boss@acme.com'', pc_ownerName = ''Boss'', pc_allowedEmailDomains = [''acme.com''], pc_disableEmailLogin = False,
     pc_disableNewRegistrations = False, pc_enforcePolicyConsent = False, pc_magicLinkExpiry = 15 * minute, pc_inviteLinkExpiry = 168 * hour,
     pc_verificationLinkExpiry = 24 * hour, pc_session = \<lparr>sc_duration = 24 * hour, sc_maxLifetime = 0\<rparr>\<rparr>"

definition small_user :: "string \<Rightarrow> string \<Rightarrow> account" where
  "small_user e status = (new_account e e ''user'' status 0)\<lparr>ac_approvalToken := Some ''decide'', ac_verificationToken := None\<rparr>"

definition small_portal :: "string \<Rightarrow> portal" where
  "small_portal status = portal_start [small_user ''eve@acme.com'' status, small_user ''bob@acme.com'' status_approved]
     \<lparr>ts_pats = [], ts_nextID = 1\<rparr> \<lparr>gd_violations = [], gd_limiters = [], gd_cache = [], gd_rows = [], gd_sent = []\<rparr>"

definition no_profile :: profile where
  "no_profile = \<lparr>pr_firstName = [], pr_lastName = [], pr_preferredName = []\<rparr>"

lemma small_ok: "users_ok (po_users (small_portal status))" "\<not> is_configured_owner small_config ''eve@acme.com''"
  by (simp add: small_portal_def portal_start_def users_ok_def small_user_def new_account_def) code_simp

definition approve_eve :: portal_op where
  "approve_eve = Approve no_portal_faults hour True ''eve@acme.com'' ''decide'' (Some ''claim'') (Some [1, 2, 3])"

theorem portal_refines_standing_witness:
  "standing ''eve@acme.com'' (snd (portal_step small_config sample_hmac (\<lambda>s. s) approve_eve (small_portal status_pending))) = Some status_approved \<and>
   standing_step small_config approve_eve ''eve@acme.com'' (get_user_by_email ''eve@acme.com'' (po_users (small_portal status_pending)))
     (get_user_by_email ''eve@acme.com'' (po_users (snd (portal_step small_config sample_hmac (\<lambda>s. s) approve_eve (small_portal status_pending)))))"
proof
  show "standing ''eve@acme.com'' (snd (portal_step small_config sample_hmac (\<lambda>s. s) approve_eve (small_portal status_pending))) = Some status_approved"
    by code_simp
  show "standing_step small_config approve_eve ''eve@acme.com'' (get_user_by_email ''eve@acme.com'' (po_users (small_portal status_pending)))
     (get_user_by_email ''eve@acme.com'' (po_users (snd (portal_step small_config sample_hmac (\<lambda>s. s) approve_eve (small_portal status_pending)))))"
    using portal_refines_standing [OF small_ok(1) [of status_pending] surjective_pairing] small_ok(2) by blast
qed

theorem approved_only_by_decision_witness:
  "\<exists>earlier op later. [approve_eve] = earlier @ op # later \<and>
     decides small_config ''eve@acme.com'' op
       (snd (portal_run small_config sample_hmac (\<lambda>s. s) earlier ([], small_portal status_pending)))"
proof (rule approved_only_by_decision [OF small_ok(1) small_ok(2)])
  show "standing ''eve@acme.com'' (small_portal status_pending) \<noteq> Some status_approved" by code_simp
  show "gated small_config sample_hmac (\<lambda>s. s) [approve_eve] (small_portal status_pending)" by (simp add: approve_eve_def)
  show "standing ''eve@acme.com'' (snd (portal_run small_config sample_hmac (\<lambda>s. s) [approve_eve] ([], small_portal status_pending))) = Some status_approved"
    by code_simp
qed

text \<open>Eve, rejected, registers again, replays the approval link and signs in through the provider.\<close>

definition stubborn_eve :: "portal_op list" where
  "stubborn_eve = [Register no_portal_faults hour (Some ''a'') (Some ''v'') ''eve@acme.com'' no_profile, approve_eve,
     Sso no_portal_faults (2 * hour) ''1.2.3.4'' (Some ''cookie'') ''idp'' ''eve@acme.com'' ''Eve'' ''E'']"

theorem rejected_stays_rejected_witness:
  "standing ''eve@acme.com'' (snd (portal_run small_config sample_hmac (\<lambda>s. s) stubborn_eve ([], small_portal status_rejected))) = Some status_rejected"
proof (rule rejected_stays_rejected [OF small_ok(1) small_ok(2)])
  show "standing ''eve@acme.com'' (small_portal status_rejected) = Some status_rejected" by code_simp
  show "list_all (\<lambda>op. \<not> may_lift_rejection ''eve@acme.com'' op) stubborn_eve" by (simp add: stubborn_eve_def approve_eve_def)
qed

section \<open>How a rejection is lifted all the same\<close>

text \<open>Whoever still holds an unused link to the mailbox, expired or not, can lift a rejection or a revocation: declining
  deletes the account, and the identity provider's next assertion makes a new one, approved and signed in, which
  the same assertion was refused for (when rejected) while the row was there.\<close>

theorem declined_link_lifts_rejection:
  assumes "users_ok (po_users st)" "get_user_by_email e (po_users st) = Some a" "\<not> is_configured_owner cfg (u_email a)"
    and "get_magic_link (digest token) (po_links st) = Some l" "ml_usedAt l = None" "ml_email l = e" "token \<noteq> []"
    and "e = normal_address raw" "e \<noteq> []" "domain_allowed cfg e" "\<not> pc_disableNewRegistrations cfg" "u_id a = e"
  shows "standing e (snd (portal_step cfg hmac digest (Decline no_portal_faults now token) st)) = None \<and>
    standing e (snd (portal_run cfg hmac digest [Decline no_portal_faults now token,
       Sso no_portal_faults later ip (Some session) provider raw given family] (trail, st))) = Some status_approved"
proof -
  have e: "a \<in> set (po_users st)" "u_email a = e" using assms(1,2) by_email_iff by blast+
  have d: "handle_decline digest no_portal_faults now token st = (True, drop_user (u_id a) (use_link no_portal_faults now l st))"
    using assms(2,4-7) by (simp add: handle_decline_def unused_link_def look_up_user_def use_link_def)
  let ?st1 = "drop_user (u_id a) (use_link no_portal_faults now l st)"
  have users: "po_users (use_link no_portal_faults now l st) = po_users st" by (simp add: use_link_def)
  have gone: "users_ok (po_users ?st1)" "get_user_by_email e (po_users ?st1) = None"
    using delete_known [OF assms(1) e(1)] e(2) users by (simp_all add: drop_user_def)
  let ?b = "(new_account e e (if equal_fold e (pc_owner cfg) then ''owner'' else ''user'') status_approved later)
    \<lparr>ac_firstName := given, ac_lastName := family, ac_authMethod := ''sso - '' @ provider\<rparr>"
  have fresh: "\<not> list_ex (\<lambda>b. u_id b = u_id ?b \<or> u_email b = u_email ?b) (po_users ?st1)"
    using gone(2) assms(12) by (auto simp: list_ex_iff new_account_def by_email_None drop_user_def delete_user_def)
  then have created: "create_user ?b (po_users ?st1) = Some (po_users ?st1 @ [inserted ?b])" by (simp add: create_user_def)
  have b: "u_email ?b = e" "u_id ?b = e" "u_status ?b = status_approved" by (simp_all add: new_account_def)
  have "get_user_by_email e (po_users ?st1 @ [inserted ?b]) = Some (inserted ?b)"
    using create_known(3) [OF gone(1) created, of e] b by simp
  moreover have "look_up_user no_portal_faults e ?st1 = Missing" by (simp add: look_up_Missing gone(2))
  then have "sso_user cfg no_portal_faults later provider e given family ?st1 = Inr (?st1\<lparr>po_users := po_users ?st1 @ [inserted ?b]\<rparr>)"
    using assms(11) created by (simp add: sso_user_def insert_user_def Let_def)
  then have "po_users (snd (handle_sso_claims cfg digest no_portal_faults later True [] ip (Some session) provider raw given family ?st1)) =
      po_users ?st1 @ [inserted ?b]"
    using assms(8-10) by (simp add: handle_sso_claims_def Let_def normal_address_def' split: prod.split)
  ultimately show ?thesis using d gone(2) b by (simp add: standing_def split: prod.split)
qed

text \<open>Eve was approved for a day, asked for two links, used one and was rejected; the other has expired long since.\<close>

definition eve_with_link :: portal where
  "eve_with_link = (small_portal status_rejected)\<lparr>po_links :=
     create_magic_link ''eve@acme.com'' ''unused'' ''1.2.3.4'' (15 * minute) \<lparr>lk_rows = [], lk_nextID = 1\<rparr>\<rparr>"

theorem declined_link_lifts_rejection_witness:
  "standing ''eve@acme.com'' eve_with_link = Some status_rejected \<and>
   standing ''eve@acme.com'' (snd (portal_run small_config sample_hmac (\<lambda>s. s) [Decline no_portal_faults (48 * hour) ''unused'',
     Sso no_portal_faults (49 * hour) ''1.2.3.4'' (Some ''cookie'') ''idp'' ''Eve@acme.com'' ''Eve'' ''E''] ([], eve_with_link))) = Some status_approved"
proof
  show "standing ''eve@acme.com'' eve_with_link = Some status_rejected" by code_simp
  have ok: "users_ok (po_users eve_with_link)" using small_ok(1) [of status_rejected] by (simp add: eve_with_link_def)
  let ?a = "small_user ''eve@acme.com'' status_rejected"
  let ?l = "\<lparr>ml_id = 1, ml_email = ''eve@acme.com'', ml_hash = ''unused'', ml_clientIP = ''1.2.3.4'', ml_expiresAt = 15 * minute, ml_usedAt = None\<rparr>"
  have a: "get_user_by_email ''eve@acme.com'' (po_users eve_with_link) = Some ?a" by code_simp
  have l: "get_magic_link ''unused'' (po_links eve_with_link) = Some ?l" by code_simp
  show "standing ''eve@acme.com'' (snd (portal_run small_config sample_hmac (\<lambda>s. s) [Decline no_portal_faults (48 * hour) ''unused'',
     Sso no_portal_faults (49 * hour) ''1.2.3.4'' (Some ''cookie'') ''idp'' ''Eve@acme.com'' ''Eve'' ''E''] ([], eve_with_link))) = Some status_approved"
  proof (rule conjunct2 [OF declined_link_lifts_rejection [OF ok a]])
    show "ml_usedAt ?l = None" "ml_email ?l = ''eve@acme.com''" by code_simp+
    show "\<not> is_configured_owner small_config (u_email ?a)" "domain_allowed small_config ''eve@acme.com''"
      "\<not> pc_disableNewRegistrations small_config" "''eve@acme.com'' = normal_address ''Eve@acme.com''" "u_id ?a = ''eve@acme.com''"
      by code_simp+
  qed (use l in simp_all)
qed

end
