(* ===== verification/Portal_Identity.thy ===== *)
theory Portal_Identity
  imports Portal_Standing
begin

text \<open>
  Where a session comes from: in every reachable state of the portal, whatever statements failed, a cookie that is good
  for an address was opened with a link mailed to that address (and a code, where a second factor was asked for) or
  on the identity provider's word; and a link opens once.
\<close>

section \<open>Tables as sets of entries\<close>

lemma put_entries: "x \<in> set (put k v m) \<Longrightarrow> x = (k, v) \<or> x \<in> set m"
  unfolding put_def by (induction m) (auto split: if_splits)

lemma del_entries: "x \<in> set (del k m) \<Longrightarrow> x \<in> set m"
  unfolding del_def by (auto simp: AList.delete_eq)

lemma upsert_entries: "(k', d') \<in> set (upsert_portal_session now k d rows) \<Longrightarrow> (k' = k \<and> ps_email d' = ps_email d) \<or> (k', d') \<in> set rows"
  by (auto simp: upsert_portal_session_def Let_def dest!: put_entries split: option.splits)

section \<open>Sessions and what vouches for them\<close>

text \<open>\<open>E\<close> relates the value of a cookie to the address it was opened for.\<close>

definition sessions_in :: "(string \<Rightarrow> string) \<Rightarrow> (string \<Rightarrow> string \<Rightarrow> bool) \<Rightarrow> session_store \<Rightarrow> bool" where
  "sessions_in digest E s \<longleftrightarrow> (\<forall>(t, d)\<in>set (st_cache s). E t (ps_email d)) \<and>
     (\<forall>(k, d)\<in>set (st_rows s). \<exists>t. digest t = k \<and> E t (ps_email d))"

lemma sessions_mono: "sessions_in digest E s \<Longrightarrow> (\<And>t e. E t e \<Longrightarrow> E' t e) \<Longrightarrow> sessions_in digest E' s"
  unfolding sessions_in_def by fastforce

lemma sessions_fewer:
  "sessions_in digest E s \<Longrightarrow> set (st_cache s') \<subseteq> set (st_cache s) \<Longrightarrow> set (st_rows s') \<subseteq> set (st_rows s) \<Longrightarrow> sessions_in digest E s'"
  unfolding sessions_in_def by blast

lemma sessions_load:
  assumes "sessions_in digest E s" "inj digest"
  shows "sessions_in digest E (snd (load_portal_session digest f now token s))"
    "fst (load_portal_session digest f now token s) = Some d \<Longrightarrow> E token (ps_email d)"
proof -
  have cached: "E token (ps_email d)" if "get (st_cache s) token = Some d" for d
    using get_SomeD [OF that] assms(1) unfolding sessions_in_def by blast
  have kept: "E token (ps_email d)" if "get_portal_session now (digest token) (st_rows s) = Some d" for d
  proof -
    have "(digest token, d) \<in> set (st_rows s)"
      using that by (auto simp: get_portal_session_def dest: get_SomeD split: option.splits if_splits)
    then obtain t where "digest t = digest token" "E t (ps_email d)" using assms(1) unfolding sessions_in_def by blast
    then show ?thesis using assms(2) by (auto dest: injD)
  qed
  have drop: "sessions_in digest E (drop_session_row digest f token (s\<lparr>st_cache := del token (st_cache s)\<rparr>))"
    by (rule sessions_fewer [OF assms(1)])
      (auto simp: drop_session_row_def delete_portal_session_row_def dest: del_entries split: if_splits)
  have copy: "sessions_in digest E (s\<lparr>st_cache := put token d (st_cache s)\<rparr>)" if "E token (ps_email d)" for d
    using assms(1) that unfolding sessions_in_def by (auto dest!: put_entries)
  show "sessions_in digest E (snd (load_portal_session digest f now token s))"
    using assms(1) drop copy kept by (simp add: load_portal_session_def split: option.split)
  show "E token (ps_email d)" if "fst (load_portal_session digest f now token s) = Some d"
    using that cached kept by (auto simp: load_portal_session_def split: option.splits if_splits)
qed

lemma sessions_store:
  assumes "sessions_in digest E s" "E token (ps_email d)"
  shows "sessions_in digest E (store_portal_session digest f now token d s)"
  using assms unfolding sessions_in_def store_portal_session_def Let_def
  by (auto dest!: put_entries upsert_entries)

lemma sessions_delete: "sessions_in digest E s \<Longrightarrow> sessions_in digest E (delete_portal_session digest f token s)"
  by (erule sessions_fewer)
    (auto simp: delete_portal_session_def drop_session_row_def delete_portal_session_row_def dest: del_entries split: if_splits)

lemma sessions_kill: "sessions_in digest E s \<Longrightarrow> sessions_in digest E (snd (kill_portal_sessions_for f email s))"
  by (erule sessions_fewer)
    (auto simp: kill_portal_sessions_for_def delete_portal_sessions_for_email_def Let_def split: if_splits)

lemma sessions_prune: "sessions_in digest E s \<Longrightarrow> sessions_in digest E (prune_store now s)"
  by (erule sessions_fewer) (auto simp: prune_store_def prune_portal_sessions_def)

lemma sessions_restart: "sessions_in digest E s \<Longrightarrow> sessions_in digest E (restart_store s)"
  by (erule sessions_fewer) (auto simp: restart_store_def)

lemma sessions_slide:
  assumes "sessions_in digest E s" "inj digest"
  shows "sessions_in digest E (snd (slide_portal_session digest f cfg now tls proto background token s))"
proof -
  obtain x s1 where l: "load_portal_session digest f now token s = (x, s1)" by fastforce
  have s1: "sessions_in digest E s1" "\<And>d. x = Some d \<Longrightarrow> E token (ps_email d)"
    using sessions_load [OF assms, of f now token] l by simp_all
  have "sessions_in digest E (store_portal_session digest f now token (d\<lparr>ps_expiresAt := e\<rparr>) s1)" if "x = Some d" for d e
    by (rule sessions_store [OF s1(1)]) (use s1(2) [OF that] in simp)
  then show ?thesis using assms(1) s1(1) by (simp add: slide_portal_session_def l split: option.split)
qed

lemma sessions_open:
  assumes "sessions_in digest E (po_sessions st)" "E token email"
  shows "sessions_in digest E (po_sessions (snd (open_session cfg digest f now tls proto ip email previous token st)))"
  using sessions_store [OF sessions_kill [OF assms(1)], of token] assms(2)
  by (auto simp: open_session_def Let_def split: prod.split) (metis snd_conv portal_session.select_convs(1))

lemma current_raw_sessions:
  assumes "sessions_in digest E (po_sessions st)" "inj digest"
  shows "sessions_in digest E (po_sessions (snd (get_current_user_raw cfg digest f now cookie st)))"
  using sessions_load(1) [OF assms, of "pf_sessions f" now cookie]
  by (auto simp: get_current_user_raw_def split: prod.split option.split)

lemma current_sessions:
  assumes "sessions_in digest E (po_sessions st)" "inj digest"
  shows "sessions_in digest E (po_sessions (snd (get_current_user cfg digest f now cookie st)))"
  using current_raw_sessions [OF assms, of cfg f now cookie]
  by (auto simp: get_current_user_def Let_def split: prod.split option.split)

lemma view_as_sessions:
  assumes "sessions_in digest E (po_sessions st)" "inj digest"
  shows "sessions_in digest E (po_sessions (snd (handle_view_as cfg digest f now raw cookie st)))"
proof -
  obtain a st1 where c: "get_current_user_raw cfg digest f now cookie st = (a, st1)" by fastforce
  have s1: "sessions_in digest E (po_sessions st1)" using current_raw_sessions [OF assms, of cfg f now cookie] c by simp
  obtain x s where l: "load_portal_session digest (pf_sessions f) now cookie (po_sessions st1) = (x, s)" by fastforce
  have s: "sessions_in digest E s" "\<And>d. x = Some d \<Longrightarrow> E cookie (ps_email d)"
    using sessions_load [OF s1 assms(2), of "pf_sessions f" now cookie] l by simp_all
  have "sessions_in digest E (store_portal_session digest (pf_sessions f) now cookie (d\<lparr>ps_viewAsRole := r\<rparr>) s)" if "x = Some d" for d r
    by (rule sessions_store [OF s(1)]) (use s(2) [OF that] in simp)
  then show ?thesis using s1 s(1) by (auto simp: handle_view_as_def c l Let_def split: option.split)
qed


section \<open>Operations that touch no identity\<close>

definition same_identity :: "portal \<Rightarrow> portal \<Rightarrow> bool" where
  "same_identity st st' \<longleftrightarrow> po_links st' = po_links st \<and> po_sessions st' = po_sessions st \<and> po_preAuth st' = po_preAuth st"

lemma same_identity_refl [simp]: "same_identity st st"
  by (simp add: same_identity_def)

lemma same_identity_trans: "same_identity st st1 \<Longrightarrow> same_identity st1 st2 \<Longrightarrow> same_identity st st2"
  by (simp add: same_identity_def)

lemma save_identity: "save_user fl a st = Some st' \<Longrightarrow> same_identity st st'"
  by (auto simp: save_user_rows same_identity_def)

lemma insert_identity: "insert_user fl a st = Some st' \<Longrightarrow> same_identity st st'"
  by (auto simp: insert_user_rows same_identity_def)

lemma save_or_not_identity [simp]: "same_identity st (save_user_or_not fl a st)"
  by (auto simp: save_user_or_not_def dest: save_identity split: option.split)

lemma drop_identity [simp]: "same_identity st (drop_user i st)"
  by (simp add: drop_user_def same_identity_def)

lemma tokens_identity [simp]: "same_identity st (st\<lparr>po_tokens := x\<rparr>)"
  by (simp add: same_identity_def)

lemma login_identity [simp]: "same_identity st (record_login f now ip a st)"
  by (simp add: record_login_def)

lemma link_user_identity: "link_user cfg f now email st = (user, st') \<Longrightarrow> same_identity st st'"
  by (auto simp: link_user_def dest: insert_identity split: user_lookup.splits if_splits option.splits)

lemma language_identity: "record_language f lang (user, st) = (user', st') \<Longrightarrow> same_identity st st'"
  by (auto simp: record_language_def split: option.splits if_splits)

lemma pending_identity [simp]: "same_identity st (snd (make_pending f a st))"
  by (auto simp: make_pending_def dest: save_identity split: option.split)

lemma onboarding_identity:
  "same_identity st (snd (handle_register_request cfg f now ap v raw p st))"
  "same_identity st (snd (handle_complete_setup cfg f now token p consent diagnostics st))"
  "same_identity st (snd (handle_verify_email cfg f now token st))"
  "same_identity st (snd (handle_reject f posted i token st))"
  "same_identity st (snd (handle_claim f token st))"
  "same_identity st (snd (handle_patch cfg f count_fails actor actorRole email q st))"
  "same_identity st (snd (handle_report_registration f token st))"
  by (auto simp: handle_register_request_def handle_complete_setup_def handle_verify_email_def handle_reject_def handle_claim_def
      handle_patch_def handle_report_registration_def Let_def dest: insert_identity save_identity
      split: option.split sum.split user_lookup.split)

lemma approve_identity: "same_identity st (snd (handle_approve digest f now posted i token claim random st))"
  by (auto simp: handle_approve_def Let_def dest!: save_identity split: option.split sum.split prod.split)
     (simp_all add: same_identity_def)

lemma delete_identity: "same_identity st (snd (handle_delete_user cfg f now email st))"
  by (auto simp: handle_delete_user_def Let_def drop_user_def same_identity_def split: user_lookup.split)

lemma sso_user_identity: "sso_user cfg f now provider email given family st = Inr st' \<Longrightarrow> same_identity st st'"
  by (auto simp: sso_user_def approve_on_sso_def Let_def dest: insert_identity save_identity split: user_lookup.splits if_splits option.splits)

lemma factor_identity:
  "same_identity st (snd (mfa_enable hmac f now a secret code st))" "same_identity st (snd (mfa_disable hmac f now a code st))"
  by (auto simp: mfa_enable_def mfa_disable_def dest: save_identity split: option.split)

lemma current_identity:
  "po_links (snd (get_current_user cfg digest f now cookie st)) = po_links st"
  "po_preAuth (snd (get_current_user cfg digest f now cookie st)) = po_preAuth st"
  "po_links (snd (handle_view_as cfg digest f now raw cookie st)) = po_links st"
  "po_preAuth (snd (handle_view_as cfg digest f now raw cookie st)) = po_preAuth st"
  by (auto simp: get_current_user_def get_current_user_raw_def handle_view_as_def Let_def split: prod.split option.split)

lemma open_identity [simp]:
  "po_links (snd (open_session cfg digest f now tls proto ip email previous token st)) = po_links st"
  "po_preAuth (snd (open_session cfg digest f now tls proto ip email previous token st)) = po_preAuth st"
  by (simp_all add: open_session_def Let_def split: prod.split)

section \<open>Links and what vouches for them\<close>

definition links_in :: "(string \<Rightarrow> string) \<Rightarrow> (string \<Rightarrow> string \<Rightarrow> bool) \<Rightarrow> link_store \<Rightarrow> bool" where
  "links_in digest M s \<longleftrightarrow> (\<forall>l\<in>set (lk_rows s). \<exists>t. digest t = ml_hash l \<and> M t (ml_email l))"

lemma links_mono: "links_in digest M s \<Longrightarrow> (\<And>t e. M t e \<Longrightarrow> M' t e) \<Longrightarrow> links_in digest M' s"
  unfolding links_in_def by blast

lemma links_create: "links_in digest M s \<Longrightarrow> M token email \<Longrightarrow> links_in digest M (create_magic_link email (digest token) ip expires s)"
  by (auto simp: links_in_def create_magic_link_def)

lemma links_kept:
  "links_in digest M s \<Longrightarrow> links_in digest M (mark_magic_link_used now i s)"
  "links_in digest M s \<Longrightarrow> links_in digest M (invalidate_other_magic_links now email keep s)"
  "links_in digest M s \<Longrightarrow> links_in digest M (prune_expired_magic_links now s)"
  by (auto simp: links_in_def mark_magic_link_used_def invalidate_other_magic_links_def prune_expired_magic_links_def)

lemma links_found:
  assumes "links_in digest M s" "inj digest" "get_magic_link (digest token) s = Some l"
  shows "M token (ml_email l)"
proof -
  have "l \<in> set (lk_rows s)" "ml_hash l = digest token"
    using find_SomeD [of "\<lambda>l. ml_hash l = digest token" "lk_rows s" l] assms(3) by (auto simp: get_magic_link_def)
  then obtain t where "digest t = digest token" "M t (ml_email l)" using assms(1) unfolding links_in_def by metis
  then show ?thesis using assms(2) by (auto dest: injD)
qed


section \<open>The invariant\<close>

definition opened_for :: "portal_event list \<Rightarrow> string \<Rightarrow> string \<Rightarrow> bool" where
  "opened_for trail t e \<longleftrightarrow> (\<exists>token. Opened_by_link token e t \<in> set trail) \<or> (\<exists>temp. Opened_by_code temp e t \<in> set trail) \<or>
     Opened_by_sso e t \<in> set trail"

definition mailed_to :: "portal_event list \<Rightarrow> string \<Rightarrow> string \<Rightarrow> bool" where
  "mailed_to trail t e \<longleftrightarrow> Mailed t e \<in> set trail"

definition asked_for :: "portal_event list \<Rightarrow> (string, pre_auth) table \<Rightarrow> bool" where
  "asked_for trail pre \<longleftrightarrow> (\<forall>(temp, p)\<in>set pre. \<exists>token. Second_asked token (pa_email p) temp \<in> set trail)"

text \<open>An event rests on an earlier one.\<close>

fun rests :: "portal_event list \<Rightarrow> portal_event \<Rightarrow> bool" where
  "rests trail (Opened_by_link token e t) = (Mailed token e \<in> set trail)"
| "rests trail (Second_asked token e temp) = (Mailed token e \<in> set trail)"
| "rests trail (Opened_by_code temp e t) = (\<exists>token. Second_asked token e temp \<in> set trail)"
| "rests trail _ = True"

definition identity_ok :: "(string \<Rightarrow> string) \<Rightarrow> portal_event list \<Rightarrow> portal \<Rightarrow> bool" where
  "identity_ok digest trail st \<longleftrightarrow> links_in digest (mailed_to trail) (po_links st) \<and> asked_for trail (po_preAuth st) \<and>
     sessions_in digest (opened_for trail) (po_sessions st) \<and> (\<forall>ev\<in>set trail. rests trail ev)"

lemma rests_later: "rests trail ev \<Longrightarrow> rests (trail @ evs) ev"
  by (cases ev) auto

lemma opened_later: "opened_for trail t e \<Longrightarrow> opened_for (trail @ evs) t e"
  by (auto simp: opened_for_def)

lemma mailed_later: "mailed_to trail t e \<Longrightarrow> mailed_to (trail @ evs) t e"
  by (simp add: mailed_to_def)

lemma identity_later:
  assumes "identity_ok digest trail st" "\<And>ev. ev \<in> set evs \<Longrightarrow> rests (trail @ evs) ev"
  shows "identity_ok digest (trail @ evs) st"
proof -
  have "links_in digest (mailed_to (trail @ evs)) (po_links st)"
    by (rule links_mono [of digest "mailed_to trail"]) (use assms(1) mailed_later in \<open>simp_all add: identity_ok_def\<close>)
  moreover have "sessions_in digest (opened_for (trail @ evs)) (po_sessions st)"
    by (rule sessions_mono [of digest "opened_for trail"]) (use assms(1) opened_later in \<open>simp_all add: identity_ok_def\<close>)
  moreover have "asked_for (trail @ evs) (po_preAuth st)" using assms(1) unfolding identity_ok_def asked_for_def by fastforce
  ultimately show ?thesis using assms rests_later unfolding identity_ok_def by auto
qed

lemma identity_same: "identity_ok digest trail st \<Longrightarrow> same_identity st st' \<Longrightarrow> identity_ok digest trail st'"
  by (simp add: identity_ok_def same_identity_def)

lemma identity_sessions:
  "identity_ok digest trail st \<Longrightarrow> po_links st' = po_links st \<Longrightarrow> po_preAuth st' = po_preAuth st \<Longrightarrow>
   sessions_in digest (opened_for trail) (po_sessions st') \<Longrightarrow> identity_ok digest trail st'"
  by (simp add: identity_ok_def)

lemma identity_links:
  "identity_ok digest trail st \<Longrightarrow> po_sessions st' = po_sessions st \<Longrightarrow> po_preAuth st' = po_preAuth st \<Longrightarrow>
   links_in digest (mailed_to trail) (po_links st') \<Longrightarrow> identity_ok digest trail st'"
  by (simp add: identity_ok_def)

lemma identity_opened:
  assumes "identity_ok digest trail st" "opened_for trail token email"
  shows "identity_ok digest trail (snd (open_session cfg digest f now tls proto ip email previous token st))"
  by (rule identity_sessions [OF assms(1)])
    (use sessions_open [of digest "opened_for trail" st] assms in \<open>simp_all add: identity_ok_def\<close>)

section \<open>It holds\<close>

lemma ask_identity:
  assumes "identity_ok digest trail st" "handle_magic_link cfg digest f now ip token raw st = (out, st')"
  shows "identity_ok digest (trail @ asked_events (normal_address raw) out) st'"
proof (cases "out = Link_mailed token")
  case True
  have later: "identity_ok digest (trail @ asked_events (normal_address raw) out) st"
    by (rule identity_later [OF assms(1)]) (simp add: True asked_events_def)
  then show ?thesis
  proof (rule identity_links)
    let ?M = "mailed_to (trail @ asked_events (normal_address raw) out)"
    have "?M token (normal_address raw)" by (simp add: True asked_events_def mailed_to_def)
    then have c: "links_in digest ?M x \<Longrightarrow> links_in digest ?M (create_magic_link (normal_address raw) (digest token) i y x)" for x i y
      by (intro links_create)
    show "links_in digest (mailed_to (trail @ asked_events (normal_address raw) out)) (po_links st')"
      using assms(2) True later c links_kept(2)
      by (auto simp: handle_magic_link_def normal_address_def' Let_def identity_ok_def split: if_splits user_lookup.splits)
  qed (use assms(2) in \<open>auto simp: handle_magic_link_def Let_def split: if_splits user_lookup.splits\<close>)
next
  case False
  then have "asked_events (normal_address raw) out = []" "st' = st"
    using assms(2) by (auto simp: handle_magic_link_def asked_events_def Let_def split: if_splits user_lookup.splits)
  with assms(1) show ?thesis by simp
qed

lemma invite_identity:
  assumes "identity_ok digest trail st" "handle_invite cfg digest f now ip token raw given family lang st = (out, st')"
  shows "identity_ok digest (trail @ invite_events out) st'"
proof (cases "\<exists>t e. out = Invited t e")
  case True
  then obtain t e where o: "out = Invited t e" by blast
  then obtain st1 where st1: "same_identity st st1" "st' = st1 \<or> (\<exists>x. st' = st1\<lparr>po_links := create_magic_link e (digest t) ip x (po_links st1)\<rparr>)"
    using assms(2) by (auto simp: handle_invite_def Let_def split: if_splits user_lookup.splits option.splits dest!: insert_identity)
  have later: "identity_ok digest (trail @ invite_events out) st1"
    by (rule identity_same [OF identity_later [OF assms(1)] st1(1)]) (simp add: o invite_events_def)
  have "mailed_to (trail @ invite_events out) t e" by (simp add: o invite_events_def mailed_to_def)
  then have "links_in digest (mailed_to (trail @ invite_events out)) (create_magic_link e (digest t) ip x (po_links st1))" for x
    using later by (intro links_create) (simp_all add: identity_ok_def)
  then show ?thesis using st1(2) later by (auto intro: identity_links)
next
  case False
  then have "invite_events out = []" "same_identity st st'"
    using assms(2) by (auto simp: handle_invite_def invite_events_def Let_def split: if_splits user_lookup.splits option.splits dest: insert_identity)
  with assms(1) show ?thesis using identity_same by simp
qed


lemma verify_identity:
  assumes "identity_ok digest trail st" "inj digest" "handle_verify cfg digest f now tls proto ip lang session temp token st = (out, st')"
  shows "identity_ok digest (trail @ followed_events token (link_email digest token st) session out) st'"
proof (cases "if pf_readLink f then None else get_magic_link (digest token) (po_links st)")
  case (Some l)
  then have l: "get_magic_link (digest token) (po_links st) = Some l" by (simp split: if_splits)
  have e: "link_email digest token st = ml_email l" by (simp add: link_email_def l)
  have mailed: "Mailed token (ml_email l) \<in> set trail"
    using links_found [of digest "mailed_to trail", OF _ assms(2) l] assms(1) by (auto simp: identity_ok_def mailed_to_def)
  let ?l1 = "if pf_markLink f then po_links st else mark_magic_link_used now (ml_id l) (po_links st)"
  let ?l2 = "if pf_invalidate f then ?l1 else invalidate_other_magic_links now (ml_email l) (Some (ml_id l)) ?l1"
  have base: "identity_ok digest trail (st\<lparr>po_links := ?l2\<rparr>)"
    by (rule identity_links [OF assms(1)]) (use assms(1) in \<open>simp_all add: identity_ok_def links_kept\<close>)
  obtain user1 st1 where u1: "link_user cfg f now (ml_email l) (st\<lparr>po_links := ?l2\<rparr>) = (user1, st1)" by fastforce
  obtain user2 st2 where u2: "record_language f lang (user1, st1) = (user2, st2)" by fastforce
  have st2: "identity_ok digest trail st2"
    by (rule identity_same [OF identity_same [OF base link_user_identity [OF u1]] language_identity [OF u2]])
  show ?thesis
  proof (cases out)
    case (Second_factor_required t)
    then have st': "st' = st2\<lparr>po_preAuth := put t \<lparr>pa_email = ml_email l, pa_clientIP = ip, pa_expiresAt = now + pre_auth_life\<rparr> (po_preAuth st2)\<rparr>"
      using assms(3) Some by (auto simp: handle_verify_def Let_def u1 u2 split: if_splits option.splits prod.splits)
    let ?trail = "trail @ [Second_asked token (ml_email l) t]"
    have later: "identity_ok digest ?trail st2" by (rule identity_later [OF st2]) (simp add: mailed)
    then have "asked_for ?trail (po_preAuth st')" unfolding st' identity_ok_def asked_for_def
      by (auto dest!: put_entries)
    then show ?thesis using later by (simp add: Second_factor_required e followed_events_def st' identity_ok_def)
  next
    case (Signed_in c)
    then obtain st3 previous where st3: "same_identity st2 st3"
      and st': "st' = snd (open_session cfg digest (pf_sessions f) now tls proto ip (ml_email l) previous session st3)"
      using assms(3) Some by (auto simp: handle_verify_def Let_def u1 u2 split: if_splits option.splits prod.splits)
         (metis same_identity_refl login_identity snd_conv)+
    let ?trail = "trail @ [Opened_by_link token (ml_email l) session]"
    have "identity_ok digest ?trail st3" by (rule identity_same [OF identity_later [OF st2] st3]) (simp add: mailed)
    then have "identity_ok digest ?trail st'" unfolding st' by (rule identity_opened) (auto simp: opened_for_def)
    then show ?thesis by (simp add: Signed_in e followed_events_def)
  qed (use assms(1,3) Some st2 in \<open>auto simp: handle_verify_def followed_events_def Let_def u1 u2 split: if_splits option.splits prod.splits\<close>)
qed (use assms in \<open>auto simp: handle_verify_def followed_events_def\<close>)

lemma code_identity:
  assumes "identity_ok digest trail st" "mfa_verify cfg hmac digest f now tls proto ip session temp code st = (out, st')"
  shows "identity_ok digest (trail @ code_events temp st session out) st'"
proof (cases "get (po_preAuth st) temp")
  case None
  then show ?thesis using assms by (auto simp: mfa_verify_def code_events_def)
next
  case (Some p)
  let ?st1 = "st\<lparr>po_preAuth := del temp (po_preAuth st)\<rparr>"
  have asked: "\<exists>token. Second_asked token (pa_email p) temp \<in> set trail"
    using assms(1) get_SomeD [OF Some] unfolding identity_ok_def asked_for_def by fastforce
  have st1: "identity_ok digest trail ?st1"
    using assms(1) unfolding identity_ok_def asked_for_def by (auto dest!: del_entries)
  show ?thesis
  proof (cases out)
    case (Mfa_signed_in c)
    then obtain a t where a: "look_up_user f (pa_email p) ?st1 = Found a" and t: "session = Some t"
      and st': "st' = snd (open_session cfg digest (pf_sessions f) now tls proto ip (u_email a) (ac_lastLoginAt a) t (record_login f now ip a ?st1))"
      using assms(2) Some by (auto simp: mfa_verify_def Let_def split: if_splits option.splits user_lookup.splits prod.splits)
    have "u_email a = pa_email p"
      using a find_SomeD [of "\<lambda>a. u_email a = pa_email p"] by (auto simp: look_up_Found get_user_by_email_def)
    let ?trail = "trail @ [Opened_by_code temp (pa_email p) t]"
    have "identity_ok digest ?trail (record_login f now ip a ?st1)"
      by (rule identity_same [OF identity_later [OF st1] login_identity]) (use asked in auto)
    then have "identity_ok digest ?trail st'" unfolding st' by (rule identity_opened) (auto simp: opened_for_def \<open>u_email a = pa_email p\<close>)
    then show ?thesis by (simp add: Mfa_signed_in code_events_def Some t)
  next
    case Mfa_unauthorized
    have again: "identity_ok digest trail (?st1\<lparr>po_preAuth := put temp (p\<lparr>pa_expiresAt := x\<rparr>) (po_preAuth ?st1)\<rparr>)" for x
      using st1 asked unfolding identity_ok_def asked_for_def by (auto dest!: put_entries)
    show ?thesis using assms(2) Some st1 again Mfa_unauthorized
      by (auto simp: mfa_verify_def code_events_def Let_def split: if_splits option.splits user_lookup.splits prod.splits)
  next
    case Mfa_error
    then show ?thesis using assms(2) Some st1
      by (auto simp: mfa_verify_def code_events_def Let_def split: if_splits option.splits user_lookup.splits prod.splits)
  qed
qed

lemma sso_identity:
  assumes "identity_ok digest trail st" "handle_sso_claims cfg digest f now tls proto ip session provider raw given family st = (out, st')"
  shows "identity_ok digest (trail @ sso_events (normal_address raw) session out) st'"
proof (cases "\<exists>c. out = Sso_signed_in c")
  case True
  then obtain c t st1 where c: "out = Sso_signed_in c" "session = Some t"
    and st1: "sso_user cfg f now provider (normal_address raw) given family st = Inr st1"
    and st': "st' = snd (open_session cfg digest (pf_sessions f) now tls proto ip (normal_address raw) None t st1)"
    using assms(2) by (auto simp: handle_sso_claims_def Let_def normal_address_def' sso_user_def approve_on_sso_def
        split: if_splits option.splits sum.splits prod.splits user_lookup.splits)
  let ?trail = "trail @ [Opened_by_sso (normal_address raw) t]"
  have "identity_ok digest ?trail st1" by (rule identity_same [OF identity_later [OF assms(1)] sso_user_identity [OF st1]]) simp
  then have "identity_ok digest ?trail st'" unfolding st' by (rule identity_opened) (simp add: opened_for_def)
  then show ?thesis by (simp add: c sso_events_def)
next
  case False
  then have "same_identity st st'" using assms(2)
    by (auto simp: handle_sso_claims_def Let_def dest: sso_user_identity split: if_splits option.splits sum.splits prod.splits)
  moreover have "sso_events (normal_address raw) session out = []" using False by (cases out) (simp_all add: sso_events_def split: option.split)
  ultimately show ?thesis using assms(1) identity_same by simp
qed


lemma for_current_identity:
  assumes "identity_ok digest trail st" "inj digest" "\<And>a st1. same_identity st1 (snd (h a st1))"
  shows "identity_ok digest trail (for_current cfg digest f now cookie h st)"
proof -
  obtain x st1 where c: "get_current_user cfg digest f now cookie st = (x, st1)" by fastforce
  have "identity_ok digest trail st1"
    by (rule identity_sessions [OF assms(1)])
      (use current_identity(1,2) [of cfg digest f now cookie st] current_sessions [of digest "opened_for trail" st cfg f now cookie] assms(1,2) c
        in \<open>simp_all add: identity_ok_def\<close>)
  then show ?thesis using assms(3) identity_same by (auto simp: for_current_def c split: option.split)
qed

lemma look_identity:
  assumes "identity_ok digest trail st" "inj digest"
  shows "identity_ok digest trail (snd (get_current_user cfg digest f now cookie st))"
    "identity_ok digest trail (snd (handle_view_as cfg digest f now raw cookie st))"
    "identity_ok digest trail (snd (handle_self_delete cfg digest f now cookie confirm st))"
proof -
  show u: "identity_ok digest trail (snd (get_current_user cfg digest f now cookie st))"
    by (rule identity_sessions [OF assms(1)])
      (use current_sessions [of digest "opened_for trail" st] assms in \<open>simp_all add: identity_ok_def current_identity\<close>)
  show "identity_ok digest trail (snd (handle_view_as cfg digest f now raw cookie st))"
    by (rule identity_sessions [OF assms(1)])
      (use view_as_sessions [of digest "opened_for trail" st] assms in \<open>simp_all add: identity_ok_def current_identity\<close>)
  obtain x st1 where c: "get_current_user cfg digest f now cookie st = (x, st1)" by fastforce
  show "identity_ok digest trail (snd (handle_self_delete cfg digest f now cookie confirm st))"
    using u c identity_same [OF _ delete_identity] by (auto simp: handle_self_delete_def split: option.split)
qed

lemma report_identity:
  assumes "identity_ok digest trail st"
  shows "identity_ok digest trail (snd (handle_report digest f now token st))" "identity_ok digest trail (snd (handle_decline digest f now token st))"
proof -
  have used: "identity_ok digest trail (use_link f now l st)" for l
    by (rule identity_links [OF assms]) (use assms in \<open>simp_all add: use_link_def identity_ok_def links_kept\<close>)
  show "identity_ok digest trail (snd (handle_report digest f now token st))"
    using assms identity_same [OF used] by (auto simp: handle_report_def Let_def same_identity_def split: option.split)
  show "identity_ok digest trail (snd (handle_decline digest f now token st))"
    using assms used identity_same [OF used drop_identity] by (auto simp: handle_decline_def Let_def split: option.split user_lookup.split)
qed

lemma step_identity:
  assumes "identity_ok digest trail st" "inj digest" "portal_step cfg hmac digest op st = (evs, st')"
  shows "identity_ok digest (trail @ evs) st'"
proof (cases op)
  case (Ask_link f now ip token raw)
  then show ?thesis using assms(3) ask_identity [OF assms(1)] by (auto split: prod.splits)
next
  case (Follow_link f now ip lang session temp token)
  then show ?thesis using assms(3) verify_identity [OF assms(1,2)] by (auto split: prod.splits)
next
  case (Give_code f now ip session temp code)
  then show ?thesis using assms(3) code_identity [OF assms(1)] by (auto split: prod.splits)
next
  case (Sso f now ip session provider raw given family)
  then show ?thesis using assms(3) sso_identity [OF assms(1)] by (auto split: prod.splits)
next
  case (Invite f now ip token raw given family lang)
  then show ?thesis using assms(3) invite_identity [OF assms(1)] by (auto split: prod.splits)
next
  case (Extend f now background cookie)
  then show ?thesis using assms(3) identity_sessions [OF assms(1)] sessions_slide [OF _ assms(2)] assms(1)
    by (auto simp: identity_ok_def)
next
  case (Log_out f cookie)
  then show ?thesis using assms(3) identity_sessions [OF assms(1)] sessions_delete assms(1)
    by (auto simp: identity_ok_def handle_logout_def)
next
  case (Drop_old_links now)
  then show ?thesis using assms(3) assms(1) links_kept(3) by (auto simp: identity_ok_def)
next
  case (Drop_old_sessions now)
  then show ?thesis using assms(3) assms(1) sessions_prune by (auto simp: identity_ok_def)
next
  case (Gateway_restart now)
  then show ?thesis using assms(3) assms(1) sessions_restart by (auto simp: identity_ok_def restart_portal_def asked_for_def)
next
  case (Maintenance b)
  then show ?thesis using assms(3) identity_same [OF assms(1)] by (auto simp: same_identity_def)
qed (use assms(3) identity_same [OF assms(1)] onboarding_identity approve_identity delete_identity factor_identity for_current_identity [OF assms(1,2)]
      look_identity [OF assms(1,2)] report_identity [OF assms(1)] in auto)


lemma run_identity:
  assumes "inj digest" "identity_ok digest trail st" "portal_run cfg hmac digest ops (trail, st) = (trail', st')"
  shows "identity_ok digest trail' st'"
  using assms(2,3)
proof (induction ops arbitrary: trail st)
  case (Cons op ops)
  obtain evs st1 where s: "portal_step cfg hmac digest op st = (evs, st1)" by fastforce
  show ?case by (rule Cons.IH [OF step_identity [OF Cons.prems(1) assms(1) s]]) (use Cons.prems(2) s in simp)
qed simp

lemma start_identity: "identity_ok digest [] (portal_start users tokens g)"
  by (simp add: identity_ok_def portal_start_def links_in_def asked_for_def sessions_in_def)

section \<open>Properties\<close>

text \<open>C7: A session proves the mailbox, or the identity provider's word. In every history of the portal, from a start
  where nobody is signed in, whatever statements fail on the way: if a cookie is good for an address, then it was
  opened with a link that had been mailed to that very address, or with a code asked for after such a link, or by
  an assertion of the identity provider about that address.\<close>

theorem session_proves_mailbox:
  assumes "inj digest" "portal_run cfg hmac digest ops ([], portal_start users tokens g) = (trail, st)"
    and "fst (load_portal_session digest f now cookie (po_sessions st)) = Some d"
  shows "(\<exists>token. Mailed token (ps_email d) \<in> set trail \<and>
            (Opened_by_link token (ps_email d) cookie \<in> set trail \<or>
             (\<exists>temp. Second_asked token (ps_email d) temp \<in> set trail \<and> Opened_by_code temp (ps_email d) cookie \<in> set trail))) \<or>
         Opened_by_sso (ps_email d) cookie \<in> set trail"
proof -
  have ok: "identity_ok digest trail st" by (rule run_identity [OF assms(1) start_identity assms(2)])
  then have rests: "rests trail ev" if "ev \<in> set trail" for ev using that by (simp add: identity_ok_def)
  have "opened_for trail cookie (ps_email d)"
    using sessions_load(2) [of digest "opened_for trail" "po_sessions st", OF _ assms(1,3)] ok by (simp add: identity_ok_def)
  moreover have "Mailed t e \<in> set trail" if "Opened_by_link t e s \<in> set trail \<or> Second_asked t e s \<in> set trail" for t e s
    using that rests by fastforce
  moreover have "\<exists>t. Second_asked t e temp \<in> set trail" if "Opened_by_code temp e s \<in> set trail" for temp e s
    using rests [OF that] by simp
  ultimately show ?thesis unfolding opened_for_def by blast
qed

section \<open>A link opens once\<close>

fun opening_token :: "portal_event \<Rightarrow> string option" where
  "opening_token (Opened_by_link token e t) = Some token"
| "opening_token (Second_asked token e temp) = Some token"
| "opening_token _ = None"

fun mailed_token :: "portal_event \<Rightarrow> string option" where
  "mailed_token (Mailed token e) = Some token"
| "mailed_token _ = None"

definition openings :: "string \<Rightarrow> portal_event list \<Rightarrow> nat" where
  "openings token trail = length (filter (\<lambda>ev. opening_token ev = Some token) trail)"

definition mailed_tokens :: "portal_event list \<Rightarrow> string list" where
  "mailed_tokens trail = List.map_filter mailed_token trail"

fun marks :: "portal_op \<Rightarrow> bool" where
  "marks (Follow_link f now ip lang session temp token) = (\<not> pf_markLink f)"
| "marks _ = True"

text \<open>How often a link was presented while the statement that marks it failed.\<close>

fun presents :: "portal_op \<Rightarrow> string option" where
  "presents (Follow_link f now ip lang session temp token) = Some token"
| "presents _ = None"

definition unmarked :: "string \<Rightarrow> portal_op list \<Rightarrow> nat" where
  "unmarked token ops = length (filter (\<lambda>op. presents op = Some token \<and> \<not> marks op) ops)"

lemma openings_append [simp]: "openings token (trail @ evs) = openings token trail + openings token evs"
  by (simp add: openings_def)

lemma mailed_append [simp]: "mailed_tokens (trail @ evs) = mailed_tokens trail @ mailed_tokens evs"
  by (simp add: mailed_tokens_def List.map_filter_def)

lemma mailed_in: "token \<in> set (mailed_tokens trail) \<longleftrightarrow> (\<exists>e. Mailed token e \<in> set trail)"
  unfolding mailed_tokens_def List.map_filter_def
  by (auto simp: image_iff elim!: mailed_token.elims)

text \<open>No hash twice, and the link of a token that has opened more than its failed markings allow is used.\<close>

definition used_up :: "(string \<Rightarrow> string) \<Rightarrow> (string \<Rightarrow> nat) \<Rightarrow> portal_event list \<Rightarrow> link_store \<Rightarrow> bool" where
  "used_up digest m trail s \<longleftrightarrow> distinct (map ml_hash (lk_rows s)) \<and>
     (\<forall>token. openings token trail \<le> m token + 1 \<and>
        (m token < openings token trail \<longrightarrow> (\<forall>l\<in>set (lk_rows s). ml_hash l = digest token \<longrightarrow> ml_usedAt l \<noteq> None)))"

lemma used_up_kept:
  "used_up digest m trail s \<Longrightarrow> used_up digest m trail (mark_magic_link_used now i s)"
  "used_up digest m trail s \<Longrightarrow> used_up digest m trail (invalidate_other_magic_links now email keep s)"
  "used_up digest m trail s \<Longrightarrow> used_up digest m trail (prune_expired_magic_links now s)"
proof -
  assume u: "used_up digest m trail s"
  have h: "map ml_hash (lk_rows (mark_magic_link_used now i s)) = map ml_hash (lk_rows s)"
    "map ml_hash (lk_rows (invalidate_other_magic_links now email keep s)) = map ml_hash (lk_rows s)"
    by (simp_all add: mark_magic_link_used_def invalidate_other_magic_links_def)
  show "used_up digest m trail (mark_magic_link_used now i s)" "used_up digest m trail (invalidate_other_magic_links now email keep s)"
    using u unfolding used_up_def h
    by (auto simp: mark_magic_link_used_def invalidate_other_magic_links_def simp del: not_None_eq)
  show "used_up digest m trail (prune_expired_magic_links now s)"
    using u by (auto simp: used_up_def prune_expired_magic_links_def distinct_map inj_on_def)
qed

lemma used_up_create:
  assumes "used_up digest m trail s" "openings token trail = 0" "inj digest"
  shows "used_up digest m trail (create_magic_link email (digest token) ip expires s)"
  using assms(1,2) by (auto simp: used_up_def create_magic_link_def list_ex_iff inj_eq [OF assms(3)])

lemma used_up_more:
  assumes "used_up digest m trail s" "\<And>token. m token \<le> m' token"
  shows "used_up digest m' trail s"
  using assms unfolding used_up_def by (meson add_le_mono1 le_less_trans order_trans)

lemma used_up_unmarked:
  assumes "used_up digest m trail s" "\<And>t. openings t evs \<le> (if t = token then 1 else 0)"
    and "m' = (\<lambda>t. m t + (if t = token then 1 else 0))"
  shows "used_up digest m' (trail @ evs) s"
  unfolding used_up_def
proof (intro conjI allI)
  show "distinct (map ml_hash (lk_rows s))" using assms(1) by (simp add: used_up_def)
  fix t
  have o: "openings t (trail @ evs) \<le> openings t trail + (if t = token then 1 else 0)" using assms(2) [of t] by simp
  have old: "openings t trail \<le> m t + 1"
    "m t < openings t trail \<longrightarrow> (\<forall>l\<in>set (lk_rows s). ml_hash l = digest t \<longrightarrow> ml_usedAt l \<noteq> None)"
    using assms(1) unfolding used_up_def by blast+
  show "openings t (trail @ evs) \<le> m' t + 1" using o old(1) by (simp add: assms(3))
  show "m' t < openings t (trail @ evs) \<longrightarrow> (\<forall>l\<in>set (lk_rows s). ml_hash l = digest t \<longrightarrow> ml_usedAt l \<noteq> None)"
  proof
    assume "m' t < openings t (trail @ evs)"
    then have "m t < openings t trail" using o by (simp add: assms(3))
    then show "\<forall>l\<in>set (lk_rows s). ml_hash l = digest t \<longrightarrow> ml_usedAt l \<noteq> None" using old(2) by blast
  qed
qed

lemma used_up_quiet:
  assumes "used_up digest m trail s" "\<And>token. openings token evs = 0"
  shows "used_up digest m (trail @ evs) s"
  using assms by (simp add: used_up_def)


lemma opened_was_mailed:
  assumes "identity_ok digest trail st" "token \<notin> set (mailed_tokens trail)"
  shows "openings token trail = 0"
proof -
  have "opening_token ev \<noteq> Some token" if "ev \<in> set trail" for ev
  proof -
    have "rests trail ev" using assms(1) that by (simp add: identity_ok_def)
    then show ?thesis using assms(2) by (cases ev) (auto simp: mailed_in)
  qed
  then show ?thesis by (auto simp: openings_def filter_empty_conv)
qed

lemma used_up_mark:
  assumes "used_up digest m trail s" "get_magic_link (digest token) s = Some l" "ml_usedAt l = None"
    and "\<And>t. openings t evs \<le> (if t = token then 1 else 0)" "inj digest"
  shows "used_up digest m (trail @ evs) (mark_magic_link_used now (ml_id l) s)"
proof -
  have l: "l \<in> set (lk_rows s)" "ml_hash l = digest token"
    using find_SomeD [of "\<lambda>l. ml_hash l = digest token" "lk_rows s" l] assms(2) by (auto simp: get_magic_link_def)
  have none: "openings token trail \<le> m token"
    using assms(1,3) l unfolding used_up_def by (metis not_less)
  have d: "distinct (map ml_hash (lk_rows s))" using assms(1) by (simp add: used_up_def)
  have "distinct (map ml_hash (lk_rows (mark_magic_link_used now (ml_id l) s)))"
    using used_up_kept(1) [OF assms(1)] by (simp add: used_up_def)
  moreover have "openings t (trail @ evs) \<le> m t + 1" for t
  proof (cases "t = token")
    case True
    then show ?thesis using assms(4) [of t] none by simp
  next
    case False
    then have "openings t evs = 0" using assms(4) [of t] by simp
    then show ?thesis using assms(1) by (simp add: used_up_def)
  qed
  moreover have "ml_usedAt x \<noteq> None"
    if o: "m t < openings t (trail @ evs)" and x: "x \<in> set (lk_rows (mark_magic_link_used now (ml_id l) s))" "ml_hash x = digest t" for t x
  proof (cases "t = token")
    case True
    obtain y where y: "y \<in> set (lk_rows s)" "x = (if ml_id y = ml_id l then y\<lparr>ml_usedAt := Some now\<rparr> else y)"
      using x(1) by (auto simp: mark_magic_link_used_def)
    have "ml_hash y = ml_hash l" using y(2) x(2) l(2) True by (auto split: if_splits)
    then have "y = l" using d y(1) l(1) by (auto simp: distinct_map dest: inj_onD)
    then show ?thesis using y(2) by simp
  next
    case False
    then have "m t < openings t trail" using o assms(4) [of t] by simp
    moreover have "used_up digest m trail (mark_magic_link_used now (ml_id l) s)" by (rule used_up_kept(1) [OF assms(1)])
    ultimately show ?thesis using x unfolding used_up_def by blast
  qed
  ultimately show ?thesis unfolding used_up_def by blast
qed

lemma verify_links:
  "po_links (snd (handle_verify cfg digest f now tls proto ip lang session temp token st)) =
    (case (if pf_readLink f then None else get_magic_link (digest token) (po_links st)) of
       None \<Rightarrow> po_links st
     | Some l \<Rightarrow>
         (if ml_usedAt l \<noteq> None \<or> ml_expiresAt l < now then po_links st
          else let l1 = (if pf_markLink f then po_links st else mark_magic_link_used now (ml_id l) (po_links st))
               in if pf_invalidate f then l1 else invalidate_other_magic_links now (ml_email l) (Some (ml_id l)) l1))"
proof (cases "if pf_readLink f then None else get_magic_link (digest token) (po_links st)")
  case (Some l)
  let ?l1 = "if pf_markLink f then po_links st else mark_magic_link_used now (ml_id l) (po_links st)"
  let ?l2 = "if pf_invalidate f then ?l1 else invalidate_other_magic_links now (ml_email l) (Some (ml_id l)) ?l1"
  obtain user1 st1 where u1: "link_user cfg f now (ml_email l) (st\<lparr>po_links := ?l2\<rparr>) = (user1, st1)" by fastforce
  obtain user2 st2 where u2: "record_language f lang (user1, st1) = (user2, st2)" by fastforce
  have "same_identity (st\<lparr>po_links := ?l2\<rparr>) st2"
    by (rule same_identity_trans [OF link_user_identity [OF u1] language_identity [OF u2]])
  then have "po_links st2 = ?l2" by (simp add: same_identity_def)
  moreover have "po_links (record_login f now ip a st2) = po_links st2" for a
    using login_identity [of st2 f now ip a] by (simp add: same_identity_def)
  moreover have "po_links (snd (open_session cfg digest g now tls proto ip e previous t st3)) = po_links st3" for g e previous t st3 by simp
  ultimately show ?thesis using Some
    by (auto simp: handle_verify_def Let_def u1 u2 split: option.split prod.split)
qed (auto simp: handle_verify_def)


lemma verify_silent:
  assumes "handle_verify cfg digest f now tls proto ip lang session temp token st = (out, st')"
    and "(if pf_readLink f then None else get_magic_link (digest token) (po_links st)) = None \<or>
      (\<exists>l. get_magic_link (digest token) (po_links st) = Some l \<and> (ml_usedAt l \<noteq> None \<or> ml_expiresAt l < now))"
  shows "followed_events token e session out = []"
  using assms by (auto simp: handle_verify_def followed_events_def split: if_splits option.splits)

lemma openings_followed: "openings t (followed_events token e session out) \<le> (if t = token then 1 else 0)"
  by (cases out) (auto simp: openings_def followed_events_def)

lemma openings_code [simp]: "openings t (code_events temp st session out) = 0"
  by (auto simp: openings_def code_events_def split: mfa_outcome.split option.split)

lemma openings_sso [simp]: "openings t (sso_events e session out) = 0"
  by (auto simp: openings_def sso_events_def split: sso_outcome.split option.split)

lemma code_links [simp]: "po_links (snd (mfa_verify cfg hmac digest f now tls proto ip session temp code st)) = po_links st"
proof -
  have "po_links (record_login f now ip a st1) = po_links st1" for a st1
    using login_identity [of st1 f now ip a] by (simp add: same_identity_def)
  moreover have "po_links (snd (open_session cfg digest g now tls proto ip e previous t st3)) = po_links st3" for g e previous t st3 by simp
  ultimately show ?thesis
    by (auto simp: mfa_verify_def Let_def simp del: open_identity split: option.split user_lookup.split prod.split)
qed

lemma sso_links [simp]: "po_links (snd (handle_sso_claims cfg digest f now tls proto ip session provider raw given family st)) = po_links st"
proof -
  have "po_links st1 = po_links st" if "sso_user cfg f now provider e given family st = Inr st1" for e st1
    using sso_user_identity [OF that] by (simp add: same_identity_def)
  moreover have "po_links (snd (open_session cfg digest g now tls proto ip e previous t st3)) = po_links st3" for g e previous t st3 by simp
  ultimately show ?thesis
    by (auto simp: handle_sso_claims_def Let_def simp del: open_identity split: option.split sum.split prod.split)
qed

lemma plain_links [simp]:
  "po_links (snd (handle_register_request cfg f now ap v raw p st)) = po_links st"
  "po_links (snd (handle_complete_setup cfg f now token p consent diagnostics st)) = po_links st"
  "po_links (snd (handle_verify_email cfg f now token st)) = po_links st"
  "po_links (snd (handle_reject f posted i token st)) = po_links st"
  "po_links (snd (handle_claim f token st)) = po_links st"
  "po_links (snd (handle_patch cfg f count_fails actor actorRole email q st)) = po_links st"
  "po_links (snd (handle_report_registration f token st)) = po_links st"
  "po_links (snd (handle_approve digest f now posted i token claim random st)) = po_links st"
  "po_links (snd (handle_delete_user cfg f now email st)) = po_links st"
  by (simp_all add: onboarding_identity [unfolded same_identity_def] approve_identity [unfolded same_identity_def]
      delete_identity [unfolded same_identity_def])

lemma for_current_links:
  assumes "\<And>a st1. same_identity st1 (snd (h a st1))"
  shows "po_links (for_current cfg digest f now cookie h st) = po_links st"
proof -
  obtain x st1 where c: "get_current_user cfg digest f now cookie st = (x, st1)" by fastforce
  then have "po_links st1 = po_links st" using current_identity(1) [of cfg digest f now cookie st] by simp
  then show ?thesis using assms by (auto simp: for_current_def c same_identity_def split: option.split)
qed

lemma no_openings: "openings t [] = 0" "openings t (asked_events e out) = 0" "openings t (invite_events out') = 0"
  by (auto simp: openings_def asked_events_def invite_events_def split: link_outcome.split invite_outcome.split)

lemma step_used_up_marking:
  assumes "identity_ok digest trail st" "used_up digest m trail (po_links st)" "inj digest" "marks op"
    and "portal_step cfg hmac digest op st = (evs, st')" "distinct (mailed_tokens (trail @ evs))"
  shows "used_up digest m (trail @ evs) (po_links st')"
proof -
  have quiet: "used_up digest m (trail @ evs) s" if "\<And>token. openings token evs = 0" "used_up digest m trail s" for s
    by (rule used_up_quiet [OF that(2,1)])
  have same: "used_up digest m (trail @ evs) (po_links st')" if "evs = []" "po_links st' = po_links st" using that assms(2) by simp
  have fresh: "used_up digest m (trail @ evs) (create_magic_link e (digest token) ip x s)"
    if "\<And>t. openings t evs = 0" "mailed_tokens evs = [token]" "used_up digest m trail s" for e token ip x s
  proof -
    have "openings token trail = 0" by (rule opened_was_mailed [OF assms(1)]) (use assms(6) that(2) in simp)
    then show ?thesis by (intro quiet that(1) used_up_create that(3) assms(3))
  qed
  show ?thesis
  proof (cases op)
    case (Ask_link f now ip token raw)
    then obtain out where h: "handle_magic_link cfg digest f now ip token raw st = (out, st')" and evs: "evs = asked_events (normal_address raw) out"
      using assms(5) by (auto split: prod.splits)
    have zero: "openings t evs = 0" for t by (simp add: evs no_openings)
    show ?thesis
    proof (cases "out = Link_mailed token")
      case True
      then have m: "mailed_tokens evs = [token]" by (simp add: evs asked_events_def mailed_tokens_def List.map_filter_def)
      note c = fresh [OF zero m] and q = quiet [OF zero]
      show ?thesis using h True assms(2) c q used_up_kept(2)
        by (auto simp: handle_magic_link_def normal_address_def' Let_def split: if_splits user_lookup.splits)
    next
      case False
      then have "st' = st" using h by (auto simp: handle_magic_link_def Let_def split: if_splits user_lookup.splits)
      then show ?thesis using quiet [OF zero assms(2)] by simp
    qed
  next
    case (Invite f now ip token raw given family lang)
    then obtain out where h: "handle_invite cfg digest f now ip token raw given family lang st = (out, st')" and evs: "evs = invite_events out"
      using assms(5) by (auto split: prod.splits)
    have zero: "openings t evs = 0" for t by (simp add: evs no_openings)
    show ?thesis
    proof (cases "\<exists>t e. out = Invited t e")
      case True
      then obtain t e where o: "out = Invited t e" by blast
      then have m: "mailed_tokens evs = [t]" by (simp add: evs invite_events_def mailed_tokens_def List.map_filter_def)
      obtain st1 where st1: "same_identity st st1" "st' = st1 \<or> (\<exists>x. st' = st1\<lparr>po_links := create_magic_link e (digest t) ip x (po_links st1)\<rparr>)"
        using h o by (auto simp: handle_invite_def Let_def split: if_splits user_lookup.splits option.splits dest!: insert_identity)
      show ?thesis using st1 fresh [OF zero m assms(2)] quiet [OF zero assms(2)] by (auto simp: same_identity_def)
    next
      case False
      then have "same_identity st st'"
        using h by (auto simp: handle_invite_def Let_def split: if_splits user_lookup.splits option.splits dest: insert_identity)
      then show ?thesis using quiet [OF zero assms(2)] by (simp add: same_identity_def)
    qed
  next
    case (Follow_link f now ip lang session temp token)
    then obtain out where h: "handle_verify cfg digest f now True [] ip lang session temp token st = (out, st')"
      and evs: "evs = followed_events token (link_email digest token st) session out" and mark: "\<not> pf_markLink f"
      using assms(4,5) by (auto split: prod.splits)
    have l': "po_links st' = po_links (snd (handle_verify cfg digest f now True [] ip lang session temp token st))" by (simp add: h)
    show ?thesis
    proof (cases "\<exists>l. \<not> pf_readLink f \<and> get_magic_link (digest token) (po_links st) = Some l \<and> ml_usedAt l = None \<and> \<not> ml_expiresAt l < now")
      case True
      then obtain l where l: "\<not> pf_readLink f" "get_magic_link (digest token) (po_links st) = Some l" "ml_usedAt l = None" "\<not> ml_expiresAt l < now" by blast
      have u: "used_up digest m (trail @ evs) (mark_magic_link_used now (ml_id l) (po_links st))"
        by (rule used_up_mark [OF assms(2) l(2,3) _ assms(3)]) (simp add: evs openings_followed)
      show ?thesis unfolding l' verify_links using l mark u used_up_kept(2) [OF u] by (simp add: Let_def)
    next
      case False
      have "evs = []" unfolding evs by (rule verify_silent [OF h]) (use False in auto)
      moreover have "po_links st' = po_links st" unfolding l' verify_links using False by (auto split: option.split)
      ultimately show ?thesis by (rule same)
    qed
  next
    case (Give_code f now ip session temp code)
    then have zero: "openings t evs = 0" for t using assms(5) by (auto split: prod.splits)
    have "st' = snd (mfa_verify cfg hmac digest f now True [] ip session temp code st)" using Give_code assms(5) by (auto split: prod.splits)
    then have "po_links st' = po_links st" by simp
    then show ?thesis using quiet [OF zero assms(2)] by simp
  next
    case (Sso f now ip session provider raw given family)
    then have zero: "openings t evs = 0" for t using assms(5) by (auto split: prod.splits)
    have "st' = snd (handle_sso_claims cfg digest f now True [] ip session provider raw given family st)" using Sso assms(5) by (auto split: prod.splits)
    then have "po_links st' = po_links st" by simp
    then show ?thesis using quiet [OF zero assms(2)] by simp
  next
    case (Drop_old_links now)
    then show ?thesis using assms(2,5) used_up_kept(3) by auto
  next
    case (Report f now token)
    then show ?thesis using assms(2,5) used_up_kept(1)
      by (auto simp: handle_report_def use_link_def Let_def split: option.split)
  next
    case (Decline f now token)
    then show ?thesis using assms(2,5) used_up_kept(1)
      by (auto simp: handle_decline_def use_link_def drop_user_def Let_def split: option.split user_lookup.split)
  next
    case (Self_delete f now cookie confirm)
    then show ?thesis using assms(2,5) current_identity(1) [of cfg digest f now cookie st] delete_identity
      by (auto simp: handle_self_delete_def same_identity_def split: option.splits prod.splits if_splits)
  qed (use assms(2,5) in \<open>auto simp: for_current_links factor_identity current_identity handle_logout_def restart_portal_def\<close>)
qed

text \<open>A failed marking leaves the links as they were, or as the clean-up of the others leaves them.\<close>

lemma step_used_up:
  assumes "identity_ok digest trail st" "used_up digest m trail (po_links st)" "inj digest"
    and "portal_step cfg hmac digest op st = (evs, st')" "distinct (mailed_tokens (trail @ evs))"
  shows "used_up digest (\<lambda>t. m t + unmarked t [op]) (trail @ evs) (po_links st')"
proof (cases "marks op")
  case True
  from step_used_up_marking [OF assms(1-3) True assms(4,5)] show ?thesis by (rule used_up_more) simp
next
  case False
  then obtain f now ip lang session temp token where op: "op = Follow_link f now ip lang session temp token"
    "pf_markLink f" by (cases op) auto
  then obtain out where h: "handle_verify cfg digest f now True [] ip lang session temp token st = (out, st')"
    and evs: "evs = followed_events token (link_email digest token st) session out"
    using assms(4) by (auto split: prod.splits)
  have "used_up digest m trail (po_links (snd (handle_verify cfg digest f now True [] ip lang session temp token st)))"
    unfolding verify_links using assms(2) used_up_kept(2) op(2) by (auto simp: Let_def split: option.split)
  then have "used_up digest m trail (po_links st')" by (simp add: h)
  moreover have "(\<lambda>t. m t + unmarked t [op]) = (\<lambda>t. m t + (if t = token then 1 else 0))"
    using op by (auto simp: unmarked_def)
  ultimately show ?thesis by (intro used_up_unmarked [where token = token]) (auto simp: evs openings_followed)
qed

lemma run_extends: "portal_run cfg hmac digest ops (trail, st) = (trail', st') \<Longrightarrow> \<exists>more. trail' = trail @ more"
proof (induction ops arbitrary: trail st)
  case (Cons op ops)
  obtain evs st1 where "portal_step cfg hmac digest op st = (evs, st1)" by fastforce
  then show ?case using Cons.IH [of "trail @ evs" st1] Cons.prems by auto
qed simp

lemma run_used_up:
  assumes "inj digest" "identity_ok digest trail st" "used_up digest m trail (po_links st)"
    and "portal_run cfg hmac digest ops (trail, st) = (trail', st')" "distinct (mailed_tokens trail')"
  shows "used_up digest (\<lambda>t. m t + unmarked t ops) trail' (po_links st')"
  using assms(2-4)
proof (induction ops arbitrary: trail st m)
  case (Cons op ops)
  obtain evs st1 where s: "portal_step cfg hmac digest op st = (evs, st1)" by fastforce
  have r: "portal_run cfg hmac digest ops (trail @ evs, st1) = (trail', st')" using Cons.prems(3) s by simp
  then obtain more where "trail' = (trail @ evs) @ more" using run_extends by blast
  then have d: "distinct (mailed_tokens (trail @ evs))" using assms(5) by auto
  have "used_up digest (\<lambda>t. (m t + unmarked t [op]) + unmarked t ops) trail' (po_links st')"
    by (rule Cons.IH [OF step_identity [OF Cons.prems(1) assms(1) s] step_used_up [OF Cons.prems(1,2) assms(1) s d] r])
  then show ?case by (rule used_up_more) (simp add: unmarked_def)
qed (simp add: unmarked_def)

text \<open>C8: However often a mailed link is presented, one presentation at a time, it opens at most one session or
  asks for at most one second factor, and one more for each presentation at which the statement that marks the link
  failed, whose error the code ignores. This holds over every history: through restarts, cleanups, reports, other
  links for the same address and any other failing statements, provided that no two links are mailed with the same
  token. Two presentations handled at the same time are outside it: the link is read first and marked by a second,
  unconditional statement, so both can find it unused.\<close>

theorem magic_link_once:
  assumes "inj digest" "portal_run cfg hmac digest ops ([], portal_start users tokens g) = (trail, st)"
    and "distinct (mailed_tokens trail)"
  shows "openings token trail \<le> 1 + unmarked token ops"
proof -
  have "used_up digest (\<lambda>_. 0) [] (po_links (portal_start users tokens g))"
    by (simp add: used_up_def portal_start_def openings_def)
  from run_used_up [OF assms(1) start_identity this assms(2,3)] show ?thesis by (simp add: used_up_def)
qed

section \<open>Histories\<close>

text \<open>Bob, approved, asks for a link and follows it twice.\<close>

definition bob_signs_in :: "portal_op list" where
  "bob_signs_in = [Ask_link no_portal_faults hour ''1.2.3.4'' ''link1'' '' Bob@acme.com'',
     Follow_link no_portal_faults (hour + minute) ''1.2.3.4'' [] ''cookie1'' None ''link1'',
     Follow_link no_portal_faults (hour + 2 * minute) ''5.6.7.8'' [] ''cookie2'' None ''link1'']"

definition bob_before :: "accounts" where
  "bob_before = [small_user ''bob@acme.com'' status_approved]"

definition quiet_guard :: guard where
  "quiet_guard = \<lparr>gd_violations = [], gd_limiters = [], gd_cache = [], gd_rows = [], gd_sent = []\<rparr>"

definition bob_history :: "portal_event list \<times> portal" where
  "bob_history = portal_run small_config sample_hmac (\<lambda>s. ''h'' @ s) bob_signs_in ([], portal_start bob_before \<lparr>ts_pats = [], ts_nextID = 1\<rparr> quiet_guard)"

theorem session_proves_mailbox_witness:
  "\<exists>d. fst (load_portal_session (\<lambda>s. ''h'' @ s) no_session_faults (2 * hour) ''cookie1'' (po_sessions (snd bob_history))) = Some d \<and>
     ((\<exists>token. Mailed token (ps_email d) \<in> set (fst bob_history) \<and>
        (Opened_by_link token (ps_email d) ''cookie1'' \<in> set (fst bob_history) \<or>
         (\<exists>temp. Second_asked token (ps_email d) temp \<in> set (fst bob_history) \<and> Opened_by_code temp (ps_email d) ''cookie1'' \<in> set (fst bob_history)))) \<or>
      Opened_by_sso (ps_email d) ''cookie1'' \<in> set (fst bob_history))"
proof -
  have "inj (\<lambda>s. ''h'' @ s)" by (simp add: inj_def)
  moreover have "portal_run small_config sample_hmac (\<lambda>s. ''h'' @ s) bob_signs_in
      ([], portal_start bob_before \<lparr>ts_pats = [], ts_nextID = 1\<rparr> quiet_guard) = (fst bob_history, snd bob_history)"
    by (simp add: bob_history_def)
  moreover obtain d where "fst (load_portal_session (\<lambda>s. ''h'' @ s) no_session_faults (2 * hour) ''cookie1'' (po_sessions (snd bob_history))) = Some d"
  proof -
    have "fst (load_portal_session (\<lambda>s. ''h'' @ s) no_session_faults (2 * hour) ''cookie1'' (po_sessions (snd bob_history))) \<noteq> None"
      by code_simp
    then show ?thesis using that by auto
  qed
  ultimately show ?thesis using session_proves_mailbox by blast
qed

theorem magic_link_once_witness:
  "openings ''link1'' (fst bob_history) = 1 \<and> openings ''link1'' (fst bob_history) \<le> 1"
proof
  show "openings ''link1'' (fst bob_history) = 1" by code_simp
  have "openings ''link1'' (fst bob_history) \<le> 1 + unmarked ''link1'' bob_signs_in"
  proof (rule magic_link_once)
    show "inj (\<lambda>s. ''h'' @ s)" by (simp add: inj_def)
    show "portal_run small_config sample_hmac (\<lambda>s. ''h'' @ s) bob_signs_in
        ([], portal_start bob_before \<lparr>ts_pats = [], ts_nextID = 1\<rparr> quiet_guard) = (fst bob_history, snd bob_history)"
      by (simp add: bob_history_def)
    show "distinct (mailed_tokens (fst bob_history))" by code_simp
  qed
  moreover have "unmarked ''link1'' bob_signs_in = 0" by code_simp
  ultimately show "openings ''link1'' (fst bob_history) \<le> 1" by simp
qed

end
