(* ===== verification/Portal_Gate_Facts.thy ===== *)
theory Portal_Gate_Facts
  imports Portal_Identity Portal_Sessions_Facts
begin

text \<open>
  The decisions of sign-in exactly, what a sign-in leaves of the account's other sessions, the preview of a role, and
  the inputs on which the gates do not hold what they promise.
\<close>

section \<open>Signing in with a link\<close>

lemma link_user_ready:
  "fst (link_user cfg no_portal_faults now email st) =
    (case get_user_by_email email (po_users st) of
       Some a \<Rightarrow> Some a | None \<Rightarrow> if is_configured_owner cfg email then Some (owner_account cfg email now) else None)"
  by (simp add: link_user_def look_up_user_def split: option.split)

lemma record_language_user:
  "fst (record_language f lang (user, st)) = map_option (\<lambda>a. if lang \<noteq> [] then a\<lparr>u_languagePreference := lang\<rparr> else a) user"
  by (auto simp: record_language_def split: option.split)

lemma owner_account_fields [simp]:
  "ac_totpEnabled (owner_account cfg email now) = False" "u_role (owner_account cfg email now) = ''owner''"
  by (simp_all add: owner_account_def inserted_def new_account_def)

lemma verify_maintenance:
  "record_language f lang (link_user cfg f now email st) = (user, st') \<Longrightarrow> po_maintenance st' = po_maintenance st"
  by (auto simp: record_language_def link_user_def save_user_or_not_def save_user_def insert_user_def
      split: user_lookup.splits option.splits prod.splits if_splits)

definition opens_by_link :: "portal_config \<Rightarrow> (string \<Rightarrow> string) \<Rightarrow> time \<Rightarrow> string \<Rightarrow> portal \<Rightarrow> bool" where
  "opens_by_link cfg digest now token st \<longleftrightarrow>
     (\<exists>l. get_magic_link (digest token) (po_links st) = Some l \<and> ml_usedAt l = None \<and> now \<le> ml_expiresAt l \<and>
       (po_maintenance st \<longrightarrow> is_configured_owner cfg (ml_email l) \<or>
          (\<exists>a. get_user_by_email (ml_email l) (po_users st) = Some a \<and> (u_role a = ''admin'' \<or> u_role a = ''owner''))) \<and>
       \<not> (\<exists>a. get_user_by_email (ml_email l) (po_users st) = Some a \<and> ac_totpEnabled a))"

lemma verify_decision:
  "(\<exists>c. fst (handle_verify cfg digest no_portal_faults now tls proto ip lang session temp token st) = Signed_in c) \<longleftrightarrow>
   opens_by_link cfg digest now token st"
proof (cases "get_magic_link (digest token) (po_links st)")
  case None
  then show ?thesis by (simp add: handle_verify_def opens_by_link_def)
next
  case (Some l)
  let ?st = "st\<lparr>po_links := invalidate_other_magic_links now (ml_email l) (Some (ml_id l)) (mark_magic_link_used now (ml_id l) (po_links st))\<rparr>"
  obtain user1 st1 where u1: "link_user cfg no_portal_faults now (ml_email l) ?st = (user1, st1)" by fastforce
  obtain user2 st2 where u2: "record_language no_portal_faults lang (user1, st1) = (user2, st2)" by fastforce
  have user1: "user1 = (case get_user_by_email (ml_email l) (po_users st) of
       Some a \<Rightarrow> Some a | None \<Rightarrow> if is_configured_owner cfg (ml_email l) then Some (owner_account cfg (ml_email l) now) else None)"
    using link_user_ready [of cfg now "ml_email l" ?st] u1 by simp
  have user2: "user2 = map_option (\<lambda>a. if lang \<noteq> [] then a\<lparr>u_languagePreference := lang\<rparr> else a) user1"
    using record_language_user [of no_portal_faults lang user1 st1] u2 by simp
  have m: "po_maintenance st2 = po_maintenance st" using verify_maintenance [of no_portal_faults lang cfg now "ml_email l" ?st user2 st2] u1 u2 by simp
  have totp: "(case user2 of None \<Rightarrow> False | Some a \<Rightarrow> ac_totpEnabled a) \<longleftrightarrow>
      (\<exists>a. get_user_by_email (ml_email l) (po_users st) = Some a \<and> ac_totpEnabled a)"
    unfolding user2 user1 by (cases "get_user_by_email (ml_email l) (po_users st)") simp_all
  have role: "may_enter_maintenance cfg (ml_email l) user2 \<longleftrightarrow> is_configured_owner cfg (ml_email l) \<or>
      (\<exists>a. get_user_by_email (ml_email l) (po_users st) = Some a \<and> (u_role a = ''admin'' \<or> u_role a = ''owner''))"
    unfolding user2 user1 may_enter_maintenance_def by (cases "get_user_by_email (ml_email l) (po_users st)") auto
  show ?thesis
  proof (cases "ml_usedAt l = None \<and> \<not> ml_expiresAt l < now")
    case False
    then show ?thesis by (auto simp: handle_verify_def opens_by_link_def Some)
  next
    case True
    then have ready: "handle_verify cfg digest no_portal_faults now tls proto ip lang session temp token st =
        (if po_maintenance st \<and> \<not> may_enter_maintenance cfg (ml_email l) user2 then (Under_maintenance, st2)
         else if (case user2 of None \<Rightarrow> False | Some a \<Rightarrow> ac_totpEnabled a) then
           (case temp of
              None \<Rightarrow> (No_token_drawn, st2)
            | Some t \<Rightarrow> (Second_factor_required t, st2\<lparr>po_preAuth := put t \<lparr>pa_email = ml_email l, pa_clientIP = ip,
                pa_expiresAt = now + pre_auth_life\<rparr> (po_preAuth st2)\<rparr>))
         else
           (case open_session cfg digest no_session_faults now tls proto ip (ml_email l)
                (case user2 of None \<Rightarrow> None | Some a \<Rightarrow> ac_lastLoginAt a) session
                (case user2 of None \<Rightarrow> st2 | Some a \<Rightarrow> record_login no_portal_faults now ip a st2) of
              (cookie, st4) \<Rightarrow> (Signed_in cookie, st4)))"
      by (simp add: handle_verify_def Some u1 u2 m Let_def)
    have spec: "opens_by_link cfg digest now token st \<longleftrightarrow>
        (po_maintenance st \<longrightarrow> may_enter_maintenance cfg (ml_email l) user2) \<and>
        \<not> (case user2 of None \<Rightarrow> False | Some a \<Rightarrow> ac_totpEnabled a)"
      using True by (simp add: opens_by_link_def Some totp role)
    show ?thesis unfolding ready spec by (simp split: option.split prod.split)
  qed
qed

text \<open>What a session opened now is, and what it leaves of the others of the account.\<close>

lemma opened_session:
  assumes "inj digest" "token \<noteq> []" "0 < sc_duration (pc_session cfg)"
    and "open_session cfg digest no_session_faults now tls proto ip email previous token st = (cookie, st')"
  shows "\<exists>d. fst (load_portal_session digest no_session_faults now token (po_sessions st')) = Some d \<and> ps_email d = email"
    "t \<noteq> token \<Longrightarrow> fst (load_portal_session digest no_session_faults later t (po_sessions st')) = Some d \<Longrightarrow> ps_email d \<noteq> email"
proof -
  obtain killed s1 where k: "kill_portal_sessions_for no_session_faults email (po_sessions st) = (killed, s1)" by fastforce
  have s1: "st_cache s1 = filter (\<lambda>(k, d). ps_email d \<noteq> email) (st_cache (po_sessions st))"
    "st_rows s1 = filter (\<lambda>(k, d). ps_email d \<noteq> email) (st_rows (po_sessions st))"
    using k by (auto simp: kill_portal_sessions_for_def delete_portal_sessions_for_email_def no_session_faults_def Let_def)
  let ?d = "\<lparr>ps_email = email, ps_expiresAt = now + sc_duration (pc_session cfg), ps_clientIP = ip, ps_previousLoginAt = previous,
     ps_killedPrevious = killed, ps_viewAsRole = [], ps_sameSite = ''Lax'', ps_createdAt = Some now\<rparr>"
  have st': "po_sessions st' = s1\<lparr>st_cache := put token ?d (st_cache s1), st_rows := upsert_portal_session now (digest token) ?d (st_rows s1)\<rparr>"
    using assms(2,4) k by (auto simp: open_session_def store_portal_session_def no_session_faults_def Let_def)
  show "\<exists>d. fst (load_portal_session digest no_session_faults now token (po_sessions st')) = Some d \<and> ps_email d = email"
    using assms(2,3) by (simp add: load_portal_session_def st' get_put)
  assume t: "t \<noteq> token" and l: "fst (load_portal_session digest no_session_faults later t (po_sessions st')) = Some d"
  have dt: "digest t \<noteq> digest token" using t assms(1) by (simp add: inj_eq)
  have "get (st_cache s1) t = Some d \<or> get (st_rows s1) (digest t) = Some d"
    using l t get_upsert(1) [OF dt]
    by (auto simp: load_portal_session_def st' get_put get_portal_session_def no_session_faults_def split: option.splits if_splits)
  then show "ps_email d \<noteq> email" using s1 by (auto dest!: get_SomeD)
qed

text \<open>C35: While every statement on the database is answered, following a link signs in exactly when the link is known,
  unused and in time, the gateway is not in maintenance (administrators and the owner apart), and the account has no
  second factor; and the session it opens is then the only one of the account, now and later. The supposition is
  needed: \<open>failed_read_skips_second_factor\<close> shows a failed read of the account signing in past the second factor.\<close>

theorem magic_sign_in_exact:
  assumes "inj digest" "session \<noteq> []" "0 < sc_duration (pc_session cfg)"
    and "handle_verify cfg digest no_portal_faults now tls proto ip lang session temp token st = (out, st')"
  shows "((\<exists>c. out = Signed_in c) \<longleftrightarrow> opens_by_link cfg digest now token st) \<and>
    ((\<exists>c. out = Signed_in c) \<longrightarrow>
       (\<exists>d. fst (load_portal_session digest no_session_faults now session (po_sessions st')) = Some d \<and>
            ps_email d = link_email digest token st) \<and>
       (\<forall>t later d. t \<noteq> session \<longrightarrow> fst (load_portal_session digest no_session_faults later t (po_sessions st')) = Some d \<longrightarrow>
            ps_email d \<noteq> link_email digest token st))"
proof -
  have "\<exists>previous st3 c'. open_session cfg digest no_session_faults now tls proto ip (link_email digest token st) previous session st3 = (c', st')"
    if "out = Signed_in c" for c
    using assms(4) that by (auto simp: handle_verify_def link_email_def Let_def split: option.splits prod.splits if_splits)
  then show ?thesis
    using verify_decision [of cfg digest now tls proto ip lang session temp token st] opened_session [OF assms(1-3)] assms(4)
    by (auto; blast)
qed


text \<open>Bob has asked for a link, as in \<open>bob_signs_in\<close>, and follows it.\<close>

definition bob_asked :: portal where
  "bob_asked = snd (portal_run small_config sample_hmac (\<lambda>s. ''h'' @ s) (take 1 bob_signs_in)
     ([], portal_start bob_before \<lparr>ts_pats = [], ts_nextID = 1\<rparr> quiet_guard))"

definition bob_follows :: "verify_outcome \<times> portal" where
  "bob_follows = handle_verify small_config (\<lambda>s. ''h'' @ s) no_portal_faults (hour + minute) True [] ''1.2.3.4'' [] ''cookie1'' None ''link1'' bob_asked"

theorem magic_sign_in_exact_witness:
  "opens_by_link small_config (\<lambda>s. ''h'' @ s) (hour + minute) ''link1'' bob_asked \<and> (\<exists>c. fst bob_follows = Signed_in c) \<and>
   (\<exists>d. fst (load_portal_session (\<lambda>s. ''h'' @ s) no_session_faults (hour + minute) ''cookie1'' (po_sessions (snd bob_follows))) = Some d \<and>
      ps_email d = ''bob@acme.com'')"
proof -
  have "inj (\<lambda>s. ''h'' @ s)" by (simp add: inj_def)
  moreover have "0 < sc_duration (pc_session small_config)" by code_simp
  moreover have "handle_verify small_config (\<lambda>s. ''h'' @ s) no_portal_faults (hour + minute) True [] ''1.2.3.4'' [] ''cookie1'' None ''link1'' bob_asked =
      (fst bob_follows, snd bob_follows)" by (simp add: bob_follows_def)
  moreover have "case fst bob_follows of Signed_in c \<Rightarrow> True | _ \<Rightarrow> False" by code_simp
  then have "\<exists>c. fst bob_follows = Signed_in c" by (auto split: verify_outcome.splits)
  moreover have "link_email (\<lambda>s. ''h'' @ s) ''link1'' bob_asked = ''bob@acme.com''" by code_simp
  moreover have "''cookie1'' \<noteq> []" by simp
  ultimately show ?thesis
    using magic_sign_in_exact [of "\<lambda>s. ''h'' @ s" "''cookie1''" small_config "hour + minute" True "[]" "''1.2.3.4''" "[]" None "''link1''" bob_asked
        "fst bob_follows" "snd bob_follows"] by auto
qed

section \<open>Where the gates do not hold\<close>

text \<open>When the look-up of the user fails, following a link opens a session without asking for the second factor the
  account has, whatever the account is: the handler reads the failure as an account without a row, which has none.\<close>

theorem failed_read_skips_second_factor:
  assumes "get_magic_link (digest token) (po_links st) = Some l" "ml_usedAt l = None" "now \<le> ml_expiresAt l"
    and "pf_readUser f" "\<not> pf_readLink f" "\<not> po_maintenance st"
  shows "\<exists>c. fst (handle_verify cfg digest f now tls proto ip lang session temp token st) = Signed_in c"
proof -
  let ?st = "st\<lparr>po_links := (if pf_invalidate f then (if pf_markLink f then po_links st else mark_magic_link_used now (ml_id l) (po_links st))
    else invalidate_other_magic_links now (ml_email l) (Some (ml_id l)) (if pf_markLink f then po_links st else mark_magic_link_used now (ml_id l) (po_links st)))\<rparr>"
  obtain user1 st1 where u1: "link_user cfg f now (ml_email l) ?st = (user1, st1)" by fastforce
  obtain user2 st2 where u2: "record_language f lang (user1, st1) = (user2, st2)" by fastforce
  have "user1 = (if is_configured_owner cfg (ml_email l) then Some (owner_account cfg (ml_email l) now) else None)"
    using u1 assms(4) by (auto simp: link_user_def look_up_user_def split: if_splits)
  then have factor: "\<not> (case user2 of None \<Rightarrow> False | Some a \<Rightarrow> ac_totpEnabled a)"
    using record_language_user [of f lang user1 st1] u2 by (simp split: if_splits)
  have m: "\<not> po_maintenance st2" using verify_maintenance [of f lang cfg now "ml_email l" ?st user2 st2] u1 u2 assms(6) by simp
  show ?thesis using assms(1-3,5) factor m
    by (simp add: handle_verify_def u1 u2 Let_def split: prod.split)
qed

text \<open>Bob with a second factor: asked for it, and let in without it when his row cannot be read.\<close>

definition bob_with_factor :: portal where
  "bob_with_factor = bob_asked\<lparr>po_users := map (\<lambda>a. a\<lparr>ac_totpSecret := ''JBSWY3DP'', ac_totpEnabled := True\<rparr>) (po_users bob_asked)\<rparr>"

theorem failed_read_skips_second_factor_witness:
  "fst (handle_verify small_config (\<lambda>s. ''h'' @ s) no_portal_faults (hour + minute) True [] ''1.2.3.4'' [] ''cookie1'' (Some ''t'') ''link1'' bob_with_factor)
     = Second_factor_required ''t'' \<and>
   (\<exists>c. fst (handle_verify small_config (\<lambda>s. ''h'' @ s) (no_portal_faults\<lparr>pf_readUser := True\<rparr>) (hour + minute) True [] ''1.2.3.4'' [] ''cookie1''
      (Some ''t'') ''link1'' bob_with_factor) = Signed_in c)"
proof
  show "fst (handle_verify small_config (\<lambda>s. ''h'' @ s) no_portal_faults (hour + minute) True [] ''1.2.3.4'' [] ''cookie1'' (Some ''t'') ''link1'' bob_with_factor)
     = Second_factor_required ''t''" by code_simp
  let ?l = "\<lparr>ml_id = 1, ml_email = ''bob@acme.com'', ml_hash = ''hlink1'', ml_clientIP = ''1.2.3.4'', ml_expiresAt = hour + 15 * minute, ml_usedAt = None\<rparr>"
  show "\<exists>c. fst (handle_verify small_config (\<lambda>s. ''h'' @ s) (no_portal_faults\<lparr>pf_readUser := True\<rparr>) (hour + minute) True [] ''1.2.3.4'' [] ''cookie1''
      (Some ''t'') ''link1'' bob_with_factor) = Signed_in c"
  proof (rule failed_read_skips_second_factor)
    show "get_magic_link (''h'' @ ''link1'') (po_links bob_with_factor) = Some ?l" by code_simp
    show "ml_usedAt ?l = None" "hour + minute \<le> ml_expiresAt ?l" "\<not> po_maintenance bob_with_factor" by code_simp+
  qed simp_all
qed

text \<open>Revoking, rejecting or otherwise changing an account leaves its sessions as they are: the next request of an
  open session still finds the same account, with the new status, which nothing on that path looks at.\<close>

theorem revocation_keeps_portal:
  assumes "users_ok (po_users st)" "handle_patch cfg no_portal_faults count_fails actor actorRole email q st = (Patched b, st')"
    and "fst (load_portal_session digest no_session_faults now cookie (po_sessions st)) = Some d" "ps_email d = email"
  shows "\<exists>a. fst (get_current_user_raw cfg digest no_portal_faults now cookie st') = Some a \<and> u_email a = email \<and>
    (\<forall>s. pq_status q = Some s \<longrightarrow> u_status a = s) \<and> po_sessions st' = po_sessions st"
proof -
  obtain a where a: "get_user_by_email email (po_users st) = Some a" "b = patched q a" "save_user False b st = Some st'"
    using assms(2) by (auto simp: handle_patch_def look_up_user_def split: user_lookup.splits option.splits if_splits)
  have m: "a \<in> set (po_users st)" "u_email a = email" using a(1) by_email_iff [OF assms(1)] by simp_all
  have b: "u_id b = u_id a" "u_email b = u_email a" "u_status b = or_else (pq_status q) (u_status a)"
    by (simp_all add: a(2) patched_def Let_def)
  obtain rows where rows: "update_user b (po_users st) = Some rows" "st' = st\<lparr>po_users := rows\<rparr>"
    using a(3) by (auto simp: save_user_def)
  have found: "get_user_by_email email (po_users st') = Some (updated b a)"
    using update_known(2) [OF assms(1) rows(1) m(1) b(1,2), of email] m(2) rows(2) by simp
  obtain s where l: "load_portal_session digest no_session_faults now cookie (po_sessions st') = (Some d, s)"
    using assms(3) rows(2) by (cases "load_portal_session digest no_session_faults now cookie (po_sessions st')") simp
  have "fst (get_current_user_raw cfg digest no_portal_faults now cookie st') = Some (updated b a)"
    using l found assms(4) by (simp add: get_current_user_raw_def look_up_user_def)
  then show ?thesis using b m(2) rows(2) by (cases "pq_status q") (auto simp: or_else_def)
qed


definition revoke_request :: patch_request where
  "revoke_request = \<lparr>pq_role = None, pq_status = Some status_revoked, pq_resetMFA = None, pq_rateLimit = None, pq_maxReservations = None,
     pq_maxCustomDomains = None, pq_maxTunnels = None, pq_bandwidthQuotaBytes = None, pq_preferredDomain = None\<rparr>"

definition bob_revoked :: "patch_outcome \<times> portal" where
  "bob_revoked = handle_patch small_config no_portal_faults False ''boss@acme.com'' ''owner'' ''bob@acme.com'' revoke_request (snd bob_follows)"

theorem revocation_keeps_portal_witness:
  "\<exists>a. fst (get_current_user_raw small_config (\<lambda>s. ''h'' @ s) no_portal_faults (2 * hour) ''cookie1'' (snd bob_revoked)) = Some a \<and>
     u_email a = ''bob@acme.com'' \<and> u_status a = status_revoked"
proof -
  have ok: "users_ok (po_users (snd bob_follows))" by code_simp
  have "case fst bob_revoked of Patched b \<Rightarrow> True | _ \<Rightarrow> False" by code_simp
  then obtain b where "fst bob_revoked = Patched b" by (cases "fst bob_revoked") simp_all
  then have b: "bob_revoked = (Patched b, snd bob_revoked)" by (metis prod.collapse)
  have "case fst (load_portal_session (\<lambda>s. ''h'' @ s) no_session_faults (2 * hour) ''cookie1'' (po_sessions (snd bob_follows))) of
      None \<Rightarrow> False | Some d \<Rightarrow> ps_email d = ''bob@acme.com''" by code_simp
  then obtain d where d: "fst (load_portal_session (\<lambda>s. ''h'' @ s) no_session_faults (2 * hour) ''cookie1'' (po_sessions (snd bob_follows))) = Some d"
    "ps_email d = ''bob@acme.com''" by (auto split: option.splits)
  show ?thesis
    using revocation_keeps_portal [OF ok b [unfolded bob_revoked_def] d] by (auto simp: bob_revoked_def revoke_request_def)
qed

end
