(* ===== verification/Client_Election.thy ===== *)
theory Client_Election
  imports Prelude "HOL-Library.List_Lexorder" "HOL-Library.Char_ord"
begin

text \<open>
  How a client chooses its gateway (\<open>cmd/lfr-tunnel/main.go\<close>, \<open>pkg/regionvocab\<close>): the regions advertised, several
  names for one gateway among them, the gateways held out after a failure, the probe, the cached election and
  \<open>resolveServerURL\<close>. The command line, the answers of the network and the clock are inputs; \<open>net/url\<close> reads as
  scheme, host name and port of a URL.
\<close>

section \<open>Gateways\<close>

type_synonym regions = "(string, string) table"
type_synonym url_reader = "string \<Rightarrow> (string \<times> string \<times> string) option"

definition trim_right_slashes :: "string \<Rightarrow> string" where
  "trim_right_slashes s = rev (dropWhile (\<lambda>c. c = CHR ''/'') (rev s))"

definition gateway_host_key :: "url_reader \<Rightarrow> string \<Rightarrow> string" where
  "gateway_host_key read_url raw =
     (let trimmed = trim_space raw
      in if trimmed = [] then []
         else case read_url (trim_right_slashes trimmed) of
           None \<Rightarrow> to_lower trimmed
         | Some (scheme, hostname, port) \<Rightarrow>
             (if hostname = [] then to_lower trimmed
              else if port = [] \<or> (scheme = ''https'' \<and> port = ''443'') \<or> (scheme = ''http'' \<and> port = ''80'') then to_lower hostname
              else to_lower hostname @ '':'' @ port))"

text \<open>The name of a gateway that survives: the shorter, then the earlier one.\<close>

definition preferred :: "string \<Rightarrow> string \<Rightarrow> bool" where
  "preferred n best \<longleftrightarrow> length n < length best \<or> (length n = length best \<and> n < best)"

definition canonical :: "string list \<Rightarrow> string" where
  "canonical names = foldl (\<lambda>best n. if best = [] \<or> preferred n best then n else best) [] names"

definition best_names :: "url_reader \<Rightarrow> regions \<Rightarrow> (string, string) table" where
  "best_names read_url rs =
     foldl (\<lambda>best (name, url).
         let h = gateway_host_key read_url url
         in if h = [] then best
            else case get best h of
              None \<Rightarrow> put h name best
            | Some current \<Rightarrow> if preferred name current then put h name best else best) [] rs"

definition region_url :: "regions \<Rightarrow> string \<Rightarrow> string" where
  "region_url rs name = (case get rs name of None \<Rightarrow> [] | Some url \<Rightarrow> url)"

definition dedupe_regions_by_host :: "url_reader \<Rightarrow> regions \<Rightarrow> regions" where
  "dedupe_regions_by_host read_url rs =
     (if length rs < 2 then rs else map (\<lambda>(h, name). (name, region_url rs name)) (best_names read_url rs))"

definition candidate_hosts :: "url_reader \<Rightarrow> regions \<Rightarrow> string list" where
  "candidate_hosts read_url rs = sort (remdups (filter (\<lambda>h. h \<noteq> []) (map (\<lambda>(name, url). gateway_host_key read_url url) rs)))"

definition missing_region_names :: "url_reader \<Rightarrow> regions \<Rightarrow> regions \<Rightarrow> string list" where
  "missing_region_names read_url available unavailable =
     (let up = filter (\<lambda>h. h \<noteq> []) (map (\<lambda>(name, url). gateway_host_key read_url url) available)
      in sort (map fst (filter (\<lambda>(name, url). gateway_host_key read_url url \<noteq> [] \<and> gateway_host_key read_url url \<notin> set up)
           (dedupe_regions_by_host read_url unavailable))))"

section \<open>Gateways held out\<close>

text \<open>Until when a gateway is held out, by its host.\<close>

type_synonym cooldowns = "(string, time) table"

definition exclude_gateway :: "url_reader \<Rightarrow> time \<Rightarrow> string \<Rightarrow> duration \<Rightarrow> cooldowns \<Rightarrow> cooldowns" where
  "exclude_gateway read_url now url d c =
     (let h = gateway_host_key read_url url in if h = [] then c else put h (now + d) c)"

definition cooling_down :: "url_reader \<Rightarrow> time \<Rightarrow> string \<Rightarrow> cooldowns \<Rightarrow> bool" where
  "cooling_down read_url now url c \<longleftrightarrow>
     (let h = gateway_host_key read_url url
      in h \<noteq> [] \<and> (case get c h of None \<Rightarrow> False | Some deadline \<Rightarrow> 0 < deadline - now))"

definition clear_cooldown :: "url_reader \<Rightarrow> string \<Rightarrow> cooldowns \<Rightarrow> cooldowns" where
  "clear_cooldown read_url url c = (let h = gateway_host_key read_url url in if h = [] then c else del h c)"

text \<open>The regions left, and the entries that have run out dropped on the way.\<close>

definition filter_step :: "url_reader \<Rightarrow> time \<Rightarrow> regions \<times> cooldowns \<Rightarrow> string \<times> string \<Rightarrow> regions \<times> cooldowns" where
  "filter_step read_url now acc entry =
     (case (acc, entry) of
        ((out, c), (name, url)) \<Rightarrow>
          (let h = gateway_host_key read_url url
           in case get c h of
                None \<Rightarrow> (out @ [(name, url)], c)
              | Some deadline \<Rightarrow> if now < deadline then (out, c) else (out @ [(name, url)], del h c)))"

definition filter_cooling :: "url_reader \<Rightarrow> time \<Rightarrow> regions \<Rightarrow> cooldowns \<Rightarrow> regions \<times> cooldowns" where
  "filter_cooling read_url now rs c =
     (if rs = [] then (rs, c)
      else case foldl (filter_step read_url now) ([], c) rs of
        (out, c') \<Rightarrow> if out = [] then (rs, c') else (out, c'))"

section \<open>The probe\<close>

text \<open>The answer of \<open>/api/healthz\<close>: the status code, and the fields of the body when it parses.\<close>

record health_answer =
  ha_code :: nat
  ha_parsed :: bool
  ha_status :: string
  ha_controlPlane :: string

definition gateway_can_carry_session :: "health_answer \<Rightarrow> bool" where
  "gateway_can_carry_session a \<longleftrightarrow>
     ha_code a = 200 \<and> (\<not> ha_parsed a \<or> (ha_status a \<noteq> ''draining'' \<and> ha_controlPlane a \<noteq> ''disconnected''))"

text \<open>What a probe of a URL brings: an answer and how long it took, or nothing in time.\<close>

type_synonym probe = "string \<Rightarrow> (health_answer \<times> duration) option"

definition probe_round_trip :: "probe \<Rightarrow> string \<Rightarrow> duration option" where
  "probe_round_trip probe url =
     (case probe url of None \<Rightarrow> None | Some (a, rtt) \<Rightarrow> if gateway_can_carry_session a then Some rtt else None)"

definition probe_region_latencies :: "url_reader \<Rightarrow> probe \<Rightarrow> regions \<Rightarrow> (string, duration) table \<times> string list" where
  "probe_region_latencies read_url probe rs =
     (let ds = dedupe_regions_by_host read_url rs;
          rtts = List.map_filter (\<lambda>(name, url). map_option (Pair name) (probe_round_trip probe url)) ds
      in (rtts, sort (filter (\<lambda>name. get rtts name = None) (map fst ds))))"

definition fastest_region :: "(string, duration) table \<Rightarrow> string" where
  "fastest_region rtts =
     foldl (\<lambda>best (name, rtt).
         case (if best = [] then None else get rtts best) of
           None \<Rightarrow> name
         | Some current \<Rightarrow> if rtt < current \<or> (rtt = current \<and> name < best) then name else best) [] rtts"

definition probe_fastest_region :: "url_reader \<Rightarrow> probe \<Rightarrow> regions \<Rightarrow> string \<times> string list" where
  "probe_fastest_region read_url probe rs =
     (case probe_region_latencies read_url probe rs of (rtts, unreachable) \<Rightarrow> (fastest_region rtts, unreachable))"

section \<open>The cached election\<close>

record region_cache =
  rc_bestRegion :: string
  rc_serverURL :: string
  rc_timestamp :: time
  rc_provisional :: bool
  rc_candidates :: "string list"

definition region_cache_ttl :: duration where "region_cache_ttl = hour"

definition provisional_region_cache_ttl :: duration where "provisional_region_cache_ttl = 30 * minute"

definition load_region_cache :: "time \<Rightarrow> string list \<Rightarrow> region_cache option \<Rightarrow> region_cache option" where
  "load_region_cache now current file =
     (case file of
        None \<Rightarrow> None
      | Some cache \<Rightarrow>
          (if (if rc_provisional cache then provisional_region_cache_ttl else region_cache_ttl) < now - rc_timestamp cache then None
           else if rc_candidates cache \<noteq> [] \<and> rc_candidates cache \<noteq> current then None
           else Some cache))"

section \<open>Resolving\<close>

text \<open>How the gateway was chosen, as reported at the next registration.\<close>

datatype region_source =
    By_probe | By_cache | By_explicit_region | By_explicit_server | By_given | By_failover | By_failback

definition is_pinned :: "region_source \<Rightarrow> bool" where
  "is_pinned s \<longleftrightarrow> s = By_explicit_server"

record election =
  el_region :: string
  el_serverURL :: string
  el_regions :: regions
  el_unavailable :: regions
  el_cooldowns :: cooldowns
  el_cache :: "region_cache option"
  el_source :: region_source

text \<open>The network at one moment: the regions a gateway advertises when asked, the probes, whether the cache file can
  be written.\<close>

record network =
  nw_now :: time
  nw_fetch :: "string \<Rightarrow> (regions \<times> regions) option"
  nw_probe :: probe
  nw_fileWorks :: bool

definition fetch_remote_regions :: "network \<Rightarrow> election \<Rightarrow> election" where
  "fetch_remote_regions nw e =
     (case nw_fetch nw (el_serverURL e) of
        None \<Rightarrow> e
      | Some (regions, unavailable) \<Rightarrow> if regions = [] then e else e\<lparr>el_regions := regions, el_unavailable := unavailable\<rparr>)"

definition save_region_cache :: "network \<Rightarrow> string \<Rightarrow> string \<Rightarrow> bool \<Rightarrow> string list \<Rightarrow> election \<Rightarrow> election" where
  "save_region_cache nw best url provisional candidates e =
     (if nw_fileWorks nw
      then e\<lparr>el_cache := Some \<lparr>rc_bestRegion = best, rc_serverURL = url, rc_timestamp = nw_now nw, rc_provisional = provisional,
             rc_candidates = candidates\<rparr>\<rparr>
      else e)"

text \<open>The probe of all candidates, its winner taken and cached; nothing changes when none answers.\<close>

definition elect :: "url_reader \<Rightarrow> network \<Rightarrow> election \<Rightarrow> election" where
  "elect read_url nw e =
     (case probe_fastest_region read_url (nw_probe nw) (el_regions e) of
        (best, unreachable) \<Rightarrow>
          (if best = [] then e
           else save_region_cache nw best (region_url (el_regions e) best)
                  (unreachable \<noteq> [] \<or> missing_region_names read_url (el_regions e) (el_unavailable e) \<noteq> [])
                  (candidate_hosts read_url (el_regions e))
                  (e\<lparr>el_region := best, el_serverURL := region_url (el_regions e) best, el_source := By_probe\<rparr>)))"

text \<open>The regions as they are after the refresh and without the gateways held out.\<close>

definition refreshed :: "url_reader \<Rightarrow> network \<Rightarrow> election \<Rightarrow> election" where
  "refreshed read_url nw e =
     (let e1 = fetch_remote_regions nw e
      in case filter_cooling read_url (nw_now nw) (el_regions e1) (el_cooldowns e1) of
           (rs, c) \<Rightarrow> e1\<lparr>el_regions := rs, el_cooldowns := c\<rparr>)"

definition cached_choice :: "url_reader \<Rightarrow> network \<Rightarrow> bool \<Rightarrow> election \<Rightarrow> (string \<times> string) option" where
  "cached_choice read_url nw refresh e =
     (if refresh then None
      else case load_region_cache (nw_now nw) (candidate_hosts read_url (el_regions e)) (el_cache e) of
        None \<Rightarrow> None
      | Some cache \<Rightarrow> if rc_bestRegion cache = [] then None else map_option (Pair (rc_bestRegion cache)) (get (el_regions e) (rc_bestRegion cache)))"

definition resolve_server_url :: "url_reader \<Rightarrow> network \<Rightarrow> bool \<Rightarrow> bool \<Rightarrow> election \<Rightarrow> election" where
  "resolve_server_url read_url nw refresh explicit e0 =
     (let e = refreshed read_url nw (if refresh \<and> nw_fileWorks nw then e0\<lparr>el_cache := None\<rparr> else e0)
      in if el_region e = [] then
           (if explicit \<or> el_regions e = [] then e
            else case cached_choice read_url nw refresh e of
              Some (name, url) \<Rightarrow> e\<lparr>el_region := name, el_serverURL := url, el_source := By_cache\<rparr>
            | None \<Rightarrow> elect read_url nw e)
         else
           (case get (el_regions e) (trim_space (to_lower (el_region e))) of
              Some url \<Rightarrow> e\<lparr>el_serverURL := url, el_source := By_explicit_region\<rparr>
            | None \<Rightarrow> if el_regions e = [] then e else elect read_url nw e))"

end
