(* ===== verification/Client_Session.thy ===== *)
theory Client_Session
  imports Client_Election
begin

text \<open>
  The life of a running client (\<open>cmd/lfr-tunnel/main.go\<close>, \<open>reelection.go\<close>, \<open>pkg/client/interceptor.go\<close>,
  \<open>node_set.go\<close>, \<open>client.go\<close>, \<open>settings.go\<close>): the heartbeat and what its answers raise, the three watchers that may end
  a session to move it, and what the session loop does when a session has ended, from failback to failover to
  re-registration in place. Hooks, the state file, the terminal display and the log are left out.
\<close>

section \<open>State\<close>

record engine =
  en_selectedRegion :: string
  en_serverURL :: string
  en_centralURL :: string
  en_controlPlaneReachable :: "bool option"
  en_leaseLost :: bool
  en_isFailback :: bool
  en_failbackSuppressedUntil :: time
  en_shutdownWarnedAt :: int
  en_migrateOnShutdownAt :: int
  en_nodeSetFingerprint :: string
  en_nodeSetChanged :: bool

record move_target =
  mt_region :: string
  mt_url :: string
  mt_regions :: regions

record client =
  cl_election :: election
  cl_engine :: engine
  cl_primaryRegion :: string
  cl_primaryServerURL :: string
  cl_primaryRegions :: regions
  cl_lastFailbackAt :: "time option"
  cl_pendingMove :: "move_target option"
  cl_lastMoveAt :: "time option"

text \<open>Whether the client is pinned, the region it was started with, whether it was started to probe afresh, its token.\<close>

record launch =
  la_pinned :: bool
  la_requestedRegion :: string
  la_refresh :: bool
  la_token :: string

definition failover_cooldown :: duration where "failover_cooldown = 90 * second"
definition planned_shutdown_cooldown :: duration where "planned_shutdown_cooldown = hour"
definition failback_eviction_window :: duration where "failback_eviction_window = 20 * second"
definition failback_suppression :: duration where "failback_suppression = 45 * second"
definition reelection_min_interval :: duration where "reelection_min_interval = 10 * minute"
definition max_failover_attempts :: nat where "max_failover_attempts = 4"

section \<open>Registering\<close>

text \<open>What a gateway answers to a registration: success, a status code with a message, or nothing.\<close>

datatype register_answer = Accepted | Turned_down nat string | No_answer
datatype registration_result = Registered | Failed_terminally | Failed_for_now

definition gateway_token_refusal :: string where "gateway_token_refusal = ''unauthorized''"

definition attempt_registration :: "string \<Rightarrow> register_answer \<Rightarrow> registration_result" where
  "attempt_registration token answer =
     (if token = [] then Failed_terminally
      else case answer of
        Accepted \<Rightarrow> Registered
      | Turned_down code msg \<Rightarrow>
          (if code = 401 \<and> msg = gateway_token_refusal then Failed_terminally
           else if code = 403 then Failed_terminally else Failed_for_now)
      | No_answer \<Rightarrow> Failed_for_now)"

record world = network +
  nw_register :: "string \<Rightarrow> register_answer"

datatype reregistered = Reregistered | Refused_for_good | Exhausted

text \<open>Attempt \<open>k\<close> of those left sees the world \<open>ws k\<close>; a gateway that fails is held out of the next.\<close>

fun reregister_loop :: "url_reader \<Rightarrow> launch \<Rightarrow> (nat \<Rightarrow> world) \<Rightarrow> nat \<Rightarrow> nat \<Rightarrow> election \<Rightarrow> reregistered \<times> election" where
  "reregister_loop read_url la ws 0 k e = (Exhausted, e)"
| "reregister_loop read_url la ws (Suc left) k e =
     (let e1 = resolve_server_url read_url (network.truncate (ws k)) (la_refresh la) False (e\<lparr>el_region := []\<rparr>)
      in if el_serverURL e1 = [] then (Exhausted, e1)
         else (let e2 = e1\<lparr>el_source := By_failover\<rparr>
               in case attempt_registration (la_token la) (nw_register (ws k) (el_serverURL e2)) of
                    Registered \<Rightarrow> (Reregistered, e2)
                  | Failed_terminally \<Rightarrow> (Refused_for_good, e2)
                  | Failed_for_now \<Rightarrow>
                      reregister_loop read_url la ws left (Suc k)
                        (e2\<lparr>el_cooldowns := exclude_gateway read_url (nw_now (ws k)) (el_serverURL e2) failover_cooldown (el_cooldowns e2)\<rparr>)))"

definition reregister_across_regions :: "url_reader \<Rightarrow> launch \<Rightarrow> (nat \<Rightarrow> world) \<Rightarrow> election \<Rightarrow> reregistered \<times> election" where
  "reregister_across_regions read_url la ws e = reregister_loop read_url la ws max_failover_attempts 0 e"

text \<open>In place: the answers until one settles it or the client is stopped; whether it is registered again.\<close>

fun reregister_same_gateway :: "launch \<Rightarrow> register_answer list \<Rightarrow> bool" where
  "reregister_same_gateway la [] = False"
| "reregister_same_gateway la (a # as) =
     (case attempt_registration (la_token la) a of
        Registered \<Rightarrow> True | Failed_terminally \<Rightarrow> False | Failed_for_now \<Rightarrow> reregister_same_gateway la as)"

text \<open>The pauses between those attempts.\<close>

definition same_gateway_retry_backoff :: duration where "same_gateway_retry_backoff = second"
definition same_gateway_retry_cap :: duration where "same_gateway_retry_cap = 30 * second"

definition next_backoff :: "duration \<Rightarrow> duration" where
  "next_backoff b = (if b < same_gateway_retry_cap then min (2 * b) same_gateway_retry_cap else b)"

fun same_gateway_pause :: "nat \<Rightarrow> duration" where
  "same_gateway_pause 0 = same_gateway_retry_backoff"
| "same_gateway_pause (Suc n) = next_backoff (same_gateway_pause n)"

section \<open>The window to reattach\<close>

definition clamp_setting :: "int \<Rightarrow> int \<Rightarrow> int \<Rightarrow> int \<Rightarrow> int" where
  "clamp_setting dflt lo hi advertised =
     (if advertised \<le> 0 then dflt else if advertised < lo then lo else if hi < advertised then hi else advertised)"

definition clamp_reconnect_window :: "duration \<Rightarrow> duration" where
  "clamp_reconnect_window advertised = clamp_setting 60 20 180 (quot advertised second) * second"

text \<open>What a gateway advertises about the behaviour of its clients, and what they make of it: the reconnect window, the
  interval of the heartbeat, and the names of the values not used as sent.\<close>

record client_settings =
  cs_reconnectSeconds :: int
  cs_heartbeatSeconds :: int

definition advertised_reconnect :: "client_settings option \<Rightarrow> int \<Rightarrow> int" where
  "advertised_reconnect s legacy =
     (case s of None \<Rightarrow> legacy | Some c \<Rightarrow> if 0 < cs_reconnectSeconds c then cs_reconnectSeconds c else legacy)"

definition advertised_heartbeat :: "client_settings option \<Rightarrow> int" where
  "advertised_heartbeat s = (case s of None \<Rightarrow> 0 | Some c \<Rightarrow> if 0 < cs_heartbeatSeconds c then cs_heartbeatSeconds c else 0)"

definition resolve_settings :: "client_settings option \<Rightarrow> int \<Rightarrow> duration \<times> duration \<times> string list" where
  "resolve_settings s legacy =
     (let r = advertised_reconnect s legacy; h = advertised_heartbeat s
      in (clamp_setting 60 20 180 r * second, clamp_setting 5 2 60 h * second,
          (if 0 < h \<and> clamp_setting 5 2 60 h \<noteq> h then [''heartbeat_seconds''] else []) @
          (if 0 < r \<and> clamp_setting 60 20 180 r \<noteq> r then [''reconnect_seconds''] else [])))"

definition failover_handback_window :: duration where "failover_handback_window = 10 * second"

definition reconnect_window_for :: "duration \<Rightarrow> bool \<Rightarrow> duration" where
  "reconnect_window_for advertised failover_available =
     (if failover_available then failover_handback_window else clamp_reconnect_window advertised)"

definition chisel_backoff_min :: duration where "chisel_backoff_min = 100 * 1000000"
definition chisel_max_retry_interval :: duration where "chisel_max_retry_interval = 10 * second"

function retry_count_from :: "duration \<Rightarrow> duration \<Rightarrow> duration \<Rightarrow> nat \<Rightarrow> nat" where
  "retry_count_from window total_so_far step count =
     (if total_so_far < window \<and> 0 < step
      then retry_count_from window (total_so_far + step)
             (if step < chisel_max_retry_interval then min (2 * step) chisel_max_retry_interval else step) (Suc count)
      else count)"
  by pat_completeness auto
termination
  by (relation "measure (\<lambda>(window, t, s, c). nat (window - t))") auto

declare retry_count_from.simps [simp del]

definition retry_count_for_window :: "duration \<Rightarrow> nat" where
  "retry_count_for_window window = retry_count_from window 0 chisel_backoff_min 0"

end
