(* ===== verification/Client_Loop.thy ===== *)
theory Client_Loop
  imports Client_Session
begin

text \<open>
  The signals of a session and the loop that acts on them: the heartbeat's answers, the failback prober, the
  shutdown migrator, the watcher of the node set, and what follows the end of a session.
\<close>

section \<open>The heartbeat\<close>

text \<open>What one gateway answers to a heartbeat: its code, and of the body an announced shutdown, the fingerprint of its
  node set, and whether it holds no lease for the session.\<close>

record beat_answer =
  ba_code :: nat
  ba_shutdownAt :: "int option"
  ba_fingerprint :: string
  ba_noLease :: bool

definition same_gateway_host :: "url_reader \<Rightarrow> string \<Rightarrow> string \<Rightarrow> bool" where
  "same_gateway_host read_url a b \<longleftrightarrow>
     (if a = [] \<or> b = [] then False
      else case (read_url (trim_right_slashes a), read_url (trim_right_slashes b)) of
        (Some (s, h, p), Some (s', h', p')) \<Rightarrow> equal_fold h h'
      | _ \<Rightarrow> equal_fold a b)"

definition status_report_targets :: "url_reader \<Rightarrow> string \<Rightarrow> string \<Rightarrow> string list" where
  "status_report_targets read_url server central =
     server # (if central \<noteq> [] \<and> \<not> same_gateway_host read_url server central then [central] else [])"

definition note_shutdown_warning :: "int option \<Rightarrow> engine \<Rightarrow> engine" where
  "note_shutdown_warning w en =
     (case w of
        None \<Rightarrow> en
      | Some at \<Rightarrow>
          (if at = 0 then en
           else if en_shutdownWarnedAt en = at then en
           else en\<lparr>en_shutdownWarnedAt := at, en_migrateOnShutdownAt := at\<rparr>))"

definition note_node_set_fingerprint :: "string \<Rightarrow> engine \<Rightarrow> engine" where
  "note_node_set_fingerprint fp en =
     (if fp = [] then en
      else en\<lparr>en_nodeSetFingerprint := fp,
             en_nodeSetChanged := (en_nodeSetChanged en \<or> (en_nodeSetFingerprint en \<noteq> [] \<and> en_nodeSetFingerprint en \<noteq> fp))\<rparr>)"

definition reset_node_set :: "engine \<Rightarrow> engine" where
  "reset_node_set en = en\<lparr>en_nodeSetFingerprint := [], en_nodeSetChanged := False\<rparr>"

text \<open>An answer to a report sent to \<open>url\<close> by a session on \<open>server\<close>; it ends the session when the first part is true.\<close>

definition session_ending_code :: "nat \<Rightarrow> bool" where
  "session_ending_code code \<longleftrightarrow> code \<in> {404, 401, 410, 503}"

definition note_reachable :: "bool \<Rightarrow> bool \<Rightarrow> engine \<Rightarrow> engine" where
  "note_reachable is_control_plane ok en = (if is_control_plane then en\<lparr>en_controlPlaneReachable := Some ok\<rparr> else en)"

definition beat_one :: "url_reader \<Rightarrow> string \<Rightarrow> string \<Rightarrow> beat_answer option \<Rightarrow> engine \<Rightarrow> bool \<times> engine" where
  "beat_one read_url server url answer en =
     (let control = (if en_centralURL en = [] then server else en_centralURL en);
          is_control = same_gateway_host read_url url control
      in case answer of
           None \<Rightarrow> (False, note_reachable is_control False en)
         | Some a \<Rightarrow>
             (if session_ending_code (ba_code a) then
                (if same_gateway_host read_url url server then (True, en) else (False, note_reachable is_control False en))
              else
                (let en1 = (if url = server
                            then note_node_set_fingerprint (ba_fingerprint a) (note_shutdown_warning (ba_shutdownAt a) en) else en)
                 in if url = server \<and> ba_code a = 200 \<and> ba_noLease a then (True, en1\<lparr>en_leaseLost := True\<rparr>)
                    else (False, note_reachable is_control True en1))))"

fun beat_all :: "url_reader \<Rightarrow> string \<Rightarrow> (string \<Rightarrow> beat_answer option) \<Rightarrow> string list \<Rightarrow> engine \<Rightarrow> bool \<times> engine" where
  "beat_all read_url server answers [] en = (False, en)"
| "beat_all read_url server answers (url # urls) en =
     (case beat_one read_url server url (answers url) en of
        (True, en1) \<Rightarrow> (True, en1)
      | (False, en1) \<Rightarrow> beat_all read_url server answers urls en1)"

definition heartbeat :: "url_reader \<Rightarrow> string \<Rightarrow> (string \<Rightarrow> beat_answer option) \<Rightarrow> engine \<Rightarrow> bool \<times> engine" where
  "heartbeat read_url server answers en =
     beat_all read_url server answers (status_report_targets read_url server (en_centralURL en)) en"

section \<open>The watchers\<close>

text \<open>The prober of the primary: the session ends for it when the answer is true.\<close>

definition failback_tick :: "url_reader \<Rightarrow> time \<Rightarrow> probe \<Rightarrow> client \<Rightarrow> bool \<times> client" where
  "failback_tick read_url now probe cl =
     (if cl_primaryServerURL cl = [] \<or> cl_primaryRegion cl = [] then (False, cl)
      else if equal_fold (en_selectedRegion (cl_engine cl)) (cl_primaryRegion cl) then (False, cl)
      else if now < en_failbackSuppressedUntil (cl_engine cl) then (False, cl)
      else if cooling_down read_url now (cl_primaryServerURL cl) (el_cooldowns (cl_election cl)) then (False, cl)
      else if probe_round_trip probe (cl_primaryServerURL cl) = None then (False, cl)
      else (True, cl\<lparr>cl_engine := (cl_engine cl)\<lparr>en_isFailback := True\<rparr>\<rparr>))"

text \<open>A move is worth its interruption from both floors on; a duration is a whole number of nanoseconds.\<close>

definition reelection_min_gain :: duration where "reelection_min_gain = 40 * 1000000"

definition materially_closer :: "duration \<Rightarrow> duration \<Rightarrow> bool" where
  "materially_closer current candidate \<longleftrightarrow>
     (let gain = current - candidate in reelection_min_gain \<le> gain \<and> 3 * current \<le> 10 * gain)"

definition rtt_for_host :: "url_reader \<Rightarrow> (string, duration) table \<Rightarrow> regions \<Rightarrow> string \<Rightarrow> duration option" where
  "rtt_for_host read_url rtts rs host =
     (if host = [] then None
      else map_option snd (List.find (\<lambda>(region, rtt). gateway_host_key read_url (region_url rs region) = host) rtts))"

definition move_throttled :: "time \<Rightarrow> client \<Rightarrow> bool" where
  "move_throttled now cl \<longleftrightarrow>
     (case cl_lastMoveAt cl of None \<Rightarrow> False | Some at \<Rightarrow> 0 < reelection_min_interval - (now - at))"

definition choose_reelection_target ::
  "url_reader \<Rightarrow> launch \<Rightarrow> network \<Rightarrow> string \<Rightarrow> client \<Rightarrow> move_target option \<times> client" where
  "choose_reelection_target read_url la nw current cl =
     (if move_throttled (nw_now nw) cl then (None, cl)
      else case nw_fetch nw current of
        None \<Rightarrow> (None, cl)
      | Some (roster, _) \<Rightarrow>
          (if roster = [] then (None, cl)
           else case filter_cooling read_url (nw_now nw) roster (el_cooldowns (cl_election cl)) of
             (candidates, cools) \<Rightarrow>
               (let cl1 = cl\<lparr>cl_election := (cl_election cl)\<lparr>el_cooldowns := cools\<rparr>\<rparr>;
                    host = gateway_host_key read_url current
                in if la_requestedRegion la \<noteq> [] then
                     ((case get candidates (la_requestedRegion la) of
                         None \<Rightarrow> None
                       | Some url \<Rightarrow>
                           (if url = [] \<or> gateway_host_key read_url url = host then None
                            else Some \<lparr>mt_region = la_requestedRegion la, mt_url = url, mt_regions = roster\<rparr>)), cl1)
                   else
                     (case probe_region_latencies read_url (nw_probe nw) candidates of
                        (rtts, _) \<Rightarrow>
                          (let best = fastest_region rtts; url = region_url candidates best
                           in if best = [] \<or> gateway_host_key read_url url = host then (None, cl1)
                              else case rtt_for_host read_url rtts candidates host of
                                None \<Rightarrow> (None, cl1)
                              | Some rtt \<Rightarrow>
                                  (if materially_closer rtt (case get rtts best of None \<Rightarrow> 0 | Some r \<Rightarrow> r)
                                   then (Some \<lparr>mt_region = best, mt_url = url, mt_regions = roster\<rparr>, cl1) else (None, cl1)))))))"

text \<open>The watcher of a session on \<open>current\<close>: it reads the signal, and what it decides is left for the loop.\<close>

definition node_set_tick :: "url_reader \<Rightarrow> launch \<Rightarrow> network \<Rightarrow> string \<Rightarrow> client \<Rightarrow> bool \<times> client" where
  "node_set_tick read_url la nw current cl =
     (if la_pinned la \<or> el_regions (cl_election cl) = [] \<or> \<not> en_nodeSetChanged (cl_engine cl) then (False, cl)
      else case choose_reelection_target read_url la nw current (cl\<lparr>cl_engine := (cl_engine cl)\<lparr>en_nodeSetChanged := False\<rparr>\<rparr>) of
        (None, cl1) \<Rightarrow> (False, cl1)
      | (Some t, cl1) \<Rightarrow> (True, cl1\<lparr>cl_pendingMove := Some t, cl_lastMoveAt := Some (nw_now nw)\<rparr>))"


section \<open>The end of a session\<close>

text \<open>What the loop obtains from outside when a session has ended: the clock, a local fault of the client, the answers
  to a failback, to a decided move and to the attempts of a failover or in place.\<close>

record session_end =
  se_now :: time
  se_fault :: bool
  se_failback :: register_answer
  se_move :: register_answer
  se_worlds :: "nat \<Rightarrow> world"
  se_same :: "register_answer list"
  se_fileWorks :: bool

datatype stop_reason = Refused | No_region_left | Local_fault | Gave_up_in_place
datatype loop_outcome = Serving client | Stopped stop_reason client

definition with_election :: "(election \<Rightarrow> election) \<Rightarrow> client \<Rightarrow> client" where
  "with_election g cl = cl\<lparr>cl_election := g (cl_election cl)\<rparr>"

definition with_engine :: "(engine \<Rightarrow> engine) \<Rightarrow> client \<Rightarrow> client" where
  "with_engine g cl = cl\<lparr>cl_engine := g (cl_engine cl)\<rparr>"

definition exclude :: "url_reader \<Rightarrow> time \<Rightarrow> string \<Rightarrow> duration \<Rightarrow> client \<Rightarrow> client" where
  "exclude read_url now url d =
     with_election (\<lambda>e. e\<lparr>el_cooldowns := exclude_gateway read_url now url d (el_cooldowns e)\<rparr>)"

definition go_to :: "string \<Rightarrow> string \<Rightarrow> client \<Rightarrow> client" where
  "go_to region url = with_election (\<lambda>e. e\<lparr>el_region := region, el_serverURL := url\<rparr>)"

definition clear_region_cache_file :: "bool \<Rightarrow> client \<Rightarrow> client" where
  "clear_region_cache_file works = with_election (\<lambda>e. if works then e\<lparr>el_cache := None\<rparr> else e)"

text \<open>A registration that succeeded is committed, and the next session begins.\<close>

definition apply_session :: "url_reader \<Rightarrow> client \<Rightarrow> client" where
  "apply_session read_url cl =
     (let e = cl_election cl
      in with_engine (\<lambda>en. en\<lparr>en_selectedRegion := el_region e, en_serverURL := el_serverURL e,
             en_centralURL := region_url (el_regions e) ''central'', en_shutdownWarnedAt := 0, en_migrateOnShutdownAt := 0\<rparr>)
         (with_election (\<lambda>e. e\<lparr>el_cooldowns := clear_cooldown read_url (el_serverURL e) (el_cooldowns e)\<rparr>) cl))"

definition serve :: "url_reader \<Rightarrow> client \<Rightarrow> loop_outcome" where
  "serve read_url cl = Serving (with_engine reset_node_set (apply_session read_url cl))"

text \<open>Where the regions are asked for during a failover: the control plane, else any gateway but the one that failed.\<close>

definition region_discovery_url :: "url_reader \<Rightarrow> regions \<Rightarrow> regions \<Rightarrow> string \<Rightarrow> string" where
  "region_discovery_url read_url rs primary failed =
     (let other = (\<lambda>url. url \<noteq> [] \<and> gateway_host_key read_url url \<noteq> gateway_host_key read_url failed);
          central = List.map_filter (\<lambda>m. case get m ''central'' of None \<Rightarrow> None | Some url \<Rightarrow> if other url then Some url else None) [rs, primary]
      in if central \<noteq> [] then hd central
         else (case List.find other (map snd (rs @ primary)) of None \<Rightarrow> [] | Some url \<Rightarrow> url))"

definition exclude_failed_region :: "url_reader \<Rightarrow> time \<Rightarrow> string \<Rightarrow> bool \<Rightarrow> bool \<Rightarrow> client \<Rightarrow> client" where
  "exclude_failed_region read_url now failed keep planned cl =
     (if keep then cl
      else (let cl1 = exclude read_url now failed (if planned then planned_shutdown_cooldown else failover_cooldown) cl;
                url = region_discovery_url read_url (el_regions (cl_election cl1)) (cl_primaryRegions cl1) failed
            in if url = [] then cl1 else with_election (\<lambda>e. e\<lparr>el_serverURL := url\<rparr>) cl1))"

text \<open>An eviction shortly after a failback holds the primary out.\<close>

definition note_unstable_failback :: "url_reader \<Rightarrow> time \<Rightarrow> client \<Rightarrow> client" where
  "note_unstable_failback read_url now cl =
     (case cl_lastFailbackAt cl of
        None \<Rightarrow> cl
      | Some at \<Rightarrow>
          (if now - at < failback_eviction_window
           then exclude read_url now (el_serverURL (cl_election cl)) failback_suppression
                  (with_engine (\<lambda>en. en\<lparr>en_failbackSuppressedUntil := now + failback_suppression\<rparr>) (cl\<lparr>cl_lastFailbackAt := None\<rparr>))
           else cl))"

text \<open>A failback: success, or the client back where it was with the primary held out.\<close>

definition try_failback :: "url_reader \<Rightarrow> launch \<Rightarrow> session_end \<Rightarrow> client \<Rightarrow> loop_outcome + client" where
  "try_failback read_url la se cl =
     (let e = cl_election cl;
          cl1 = with_election (\<lambda>e. e\<lparr>el_region := cl_primaryRegion cl, el_serverURL := cl_primaryServerURL cl,
                  el_regions := cl_primaryRegions cl, el_source := By_failback\<rparr>) cl
      in if attempt_registration (la_token la) (se_failback se) = Registered
         then Inl (serve read_url (cl1\<lparr>cl_lastFailbackAt := Some (se_now se)\<rparr>))
         else Inr (go_to (el_region e) (el_serverURL e) (exclude read_url (se_now se) (cl_primaryServerURL cl) failover_cooldown cl1)))"

text \<open>A move decided by the watcher: the new gateway becomes the primary, or the client is put back.\<close>

definition try_move :: "url_reader \<Rightarrow> launch \<Rightarrow> session_end \<Rightarrow> move_target \<Rightarrow> client \<Rightarrow> loop_outcome + client" where
  "try_move read_url la se t cl =
     (let e = cl_election cl;
          cl1 = with_election (\<lambda>e. e\<lparr>el_region := mt_region t, el_serverURL := mt_url t,
                  el_regions := (if mt_regions t = [] then el_regions e else mt_regions t),
                  el_source := (if la_requestedRegion la \<noteq> [] \<and> mt_region t = la_requestedRegion la then By_failback else el_source e)\<rparr>) cl
      in if attempt_registration (la_token la) (se_move se) = Registered
         then Inl (serve read_url (clear_region_cache_file (se_fileWorks se)
                ((exclude read_url (se_now se) (el_serverURL e) failover_cooldown cl1)
                   \<lparr>cl_primaryRegion := mt_region t, cl_primaryServerURL := mt_url t, cl_primaryRegions := el_regions (cl_election cl1)\<rparr>)))
         else Inr (go_to (el_region e) (el_serverURL e) (exclude read_url (se_now se) (mt_url t) failover_cooldown cl1)))"

text \<open>The failover, or the session in place when nothing failed.\<close>

definition fail_over :: "url_reader \<Rightarrow> launch \<Rightarrow> session_end \<Rightarrow> bool \<Rightarrow> bool \<Rightarrow> client \<Rightarrow> loop_outcome" where
  "fail_over read_url la se keep planned cl =
     (let cl1 = exclude_failed_region read_url (se_now se) (el_serverURL (cl_election cl)) keep planned
                  (if keep then cl else clear_region_cache_file (se_fileWorks se) cl)
      in case reregister_across_regions read_url la (se_worlds se) (cl_election cl1) of
           (Reregistered, e) \<Rightarrow> serve read_url (cl1\<lparr>cl_election := e\<rparr>)
         | (Refused_for_good, e) \<Rightarrow> Stopped Refused (cl1\<lparr>cl_election := e\<rparr>)
         | (Exhausted, e) \<Rightarrow> Stopped No_region_left (cl1\<lparr>cl_election := e\<rparr>))"

definition reconnect_in_place :: "url_reader \<Rightarrow> launch \<Rightarrow> session_end \<Rightarrow> client \<Rightarrow> loop_outcome" where
  "reconnect_in_place read_url la se cl =
     (if se_fault se then Stopped Local_fault cl
      else (let cl1 = with_engine (\<lambda>en. en\<lparr>en_leaseLost := False\<rparr>) cl
            in if reregister_same_gateway la (se_same se) then serve read_url cl1 else Stopped Gave_up_in_place cl1))"

definition after_move :: "url_reader \<Rightarrow> launch \<Rightarrow> session_end \<Rightarrow> bool \<Rightarrow> bool \<Rightarrow> client \<Rightarrow> loop_outcome" where
  "after_move read_url la se keep planned cl =
     (if el_regions (cl_election cl) \<noteq> [] then fail_over read_url la se keep planned cl else reconnect_in_place read_url la se cl)"

definition take_pending :: "url_reader \<Rightarrow> launch \<Rightarrow> session_end \<Rightarrow> bool \<Rightarrow> bool \<Rightarrow> bool \<Rightarrow> client \<Rightarrow> loop_outcome" where
  "take_pending read_url la se lease_lost planned returned cl =
     (case cl_pendingMove cl of
        None \<Rightarrow> after_move read_url la se (returned \<or> lease_lost) planned cl
      | Some t \<Rightarrow>
          (case try_move read_url la se t (cl\<lparr>cl_pendingMove := None\<rparr>) of
             Inl out \<Rightarrow> out
           | Inr cl1 \<Rightarrow> after_move read_url la se True planned cl1))"

text \<open>The signals are taken whatever becomes of them.\<close>

definition session_over :: "url_reader \<Rightarrow> launch \<Rightarrow> session_end \<Rightarrow> client \<Rightarrow> loop_outcome" where
  "session_over read_url la se cl =
     (if la_pinned la then reconnect_in_place read_url la se cl
      else
        (let lease_lost = en_leaseLost (cl_engine cl);
             planned = (en_migrateOnShutdownAt (cl_engine cl) \<noteq> 0);
             back = en_isFailback (cl_engine cl);
             cl1 = note_unstable_failback read_url (se_now se)
                     (with_engine (\<lambda>en. en\<lparr>en_leaseLost := False, en_migrateOnShutdownAt := 0, en_isFailback := False\<rparr>) cl)
         in if back \<and> \<not> cooling_down read_url (se_now se) (cl_primaryServerURL cl1) (el_cooldowns (cl_election cl1))
            then (case try_failback read_url la se cl1 of
                    Inl out \<Rightarrow> out
                  | Inr cl2 \<Rightarrow> take_pending read_url la se lease_lost planned True cl2)
            else take_pending read_url la se lease_lost planned False cl1))"

section \<open>A running client\<close>

text \<open>The start: the gateway resolved, the first registration made there, and that gateway the primary.\<close>

definition start_client :: "url_reader \<Rightarrow> launch \<Rightarrow> network \<Rightarrow> election \<Rightarrow> register_answer \<Rightarrow> client option" where
  "start_client read_url la nw e0 answer =
     (let e = resolve_server_url read_url nw (la_refresh la) (la_pinned la)
                (e0\<lparr>el_source := (if la_pinned la then By_explicit_server else By_given)\<rparr>)
      in if el_serverURL e = [] \<or> attempt_registration (la_token la) answer \<noteq> Registered then None
         else Some \<lparr>cl_election = e,
                cl_engine = \<lparr>en_selectedRegion = el_region e, en_serverURL = el_serverURL e,
                  en_centralURL = region_url (el_regions e) ''central'', en_controlPlaneReachable = None, en_leaseLost = False,
                  en_isFailback = False, en_failbackSuppressedUntil = 0, en_shutdownWarnedAt = 0, en_migrateOnShutdownAt = 0,
                  en_nodeSetFingerprint = [], en_nodeSetChanged = False\<rparr>,
                cl_primaryRegion = el_region e, cl_primaryServerURL = el_serverURL e, cl_primaryRegions = el_regions e,
                cl_lastFailbackAt = None, cl_pendingMove = None, cl_lastMoveAt = None\<rparr>)"

text \<open>What may happen to it. A watcher may still decide for a session that has ended since; the gateway it was started
  for comes with it. Whether an event ends the session is for the loop to see; a session may also end by itself.\<close>

datatype client_event =
    Beat "string \<Rightarrow> beat_answer option"
  | Failback_tick time probe
  | Node_set_tick network string
  | Session_over session_end

definition client_step :: "url_reader \<Rightarrow> launch \<Rightarrow> client_event \<Rightarrow> client \<Rightarrow> loop_outcome" where
  "client_step read_url la ev cl =
     (case ev of
        Beat answers \<Rightarrow> Serving (with_engine (\<lambda>en. snd (heartbeat read_url (el_serverURL (cl_election cl)) answers en)) cl)
      | Failback_tick now probe \<Rightarrow> Serving (snd (failback_tick read_url now probe cl))
      | Node_set_tick nw current \<Rightarrow> Serving (snd (node_set_tick read_url la nw current cl))
      | Session_over se \<Rightarrow> session_over read_url la se cl)"

fun client_run :: "url_reader \<Rightarrow> launch \<Rightarrow> client_event list \<Rightarrow> client \<Rightarrow> loop_outcome" where
  "client_run read_url la [] cl = Serving cl"
| "client_run read_url la (ev # evs) cl =
     (case client_step read_url la ev cl of Serving cl1 \<Rightarrow> client_run read_url la evs cl1 | Stopped r cl1 \<Rightarrow> Stopped r cl1)"

end
