(* ===== verification/Client_Facts.thy ===== *)
theory Client_Facts
  imports Client_Loop
begin

text \<open>
  The election exactly: which name stands for a gateway, which gateways are candidates, which one is chosen; and that
  none of it depends on the order in which a map is iterated.
\<close>

section \<open>Names\<close>

lemma preferred_irrefl [simp]: "\<not> preferred n n"
  by (simp add: preferred_def)

lemma preferred_trans: "preferred a b \<Longrightarrow> preferred b c \<Longrightarrow> preferred a c"
  by (auto simp: preferred_def)

lemma preferred_linear: "preferred a b \<or> a = b \<or> preferred b a"
  by (auto simp: preferred_def)

text \<open>The name of a host among the regions: the preferred one of those that lead to it.\<close>

definition named :: "url_reader \<Rightarrow> regions \<Rightarrow> string \<Rightarrow> string \<Rightarrow> bool" where
  "named read_url rs h n \<longleftrightarrow>
     h \<noteq> [] \<and> (\<exists>url. (n, url) \<in> set rs \<and> gateway_host_key read_url url = h) \<and>
     (\<forall>n' url. (n', url) \<in> set rs \<and> gateway_host_key read_url url = h \<longrightarrow> n' = n \<or> preferred n n')"

lemma named_unique: "named read_url rs h n \<Longrightarrow> named read_url rs h n' \<Longrightarrow> n = n'"
  unfolding named_def by (metis preferred_irrefl preferred_trans)

lemma best_names_snoc:
  "best_names read_url (rs @ [(name, url)]) =
     (let best = best_names read_url rs; h = gateway_host_key read_url url
      in if h = [] then best
         else case get best h of
           None \<Rightarrow> put h name best
         | Some current \<Rightarrow> if preferred name current then put h name best else best)"
  by (simp add: best_names_def Let_def)

lemma best_names_spec:
  "(get (best_names read_url rs) h = None \<longleftrightarrow> h = [] \<or> (\<forall>n url. (n, url) \<in> set rs \<longrightarrow> gateway_host_key read_url url \<noteq> h)) \<and>
   (\<forall>n. get (best_names read_url rs) h = Some n \<longrightarrow> named read_url rs h n)"
proof (induction rs arbitrary: h rule: rev_induct)
  case Nil
  then show ?case by (simp add: best_names_def)
next
  case (snoc entry rs)
  obtain name url where entry: "entry = (name, url)" by fastforce
  let ?k = "gateway_host_key read_url url"
  note best = best_names_snoc [of read_url rs name url]
  show ?case
  proof (cases "h = ?k \<and> ?k \<noteq> []")
    case False
    then have "get (best_names read_url (rs @ [entry])) h = get (best_names read_url rs) h"
      by (auto simp: entry best Let_def get_put split: option.split)
    moreover have "named read_url rs h n \<Longrightarrow> named read_url (rs @ [entry]) h n" for n
      using False by (auto simp: named_def entry)
    ultimately show ?thesis using snoc.IH [of h] False by (auto simp: entry)
  next
    case True
    show ?thesis
    proof (cases "get (best_names read_url rs) h")
      case None
      then have "\<forall>n url. (n, url) \<in> set rs \<longrightarrow> gateway_host_key read_url url \<noteq> h" using snoc.IH [of h] True by auto
      then have "named read_url (rs @ [entry]) h name" using True by (auto simp: named_def entry)
      then show ?thesis using None True by (auto simp: entry best Let_def get_put)
    next
      case (Some current)
      then have c: "named read_url rs h current" using snoc.IH [of h] by blast
      have "named read_url (rs @ [entry]) h (if preferred name current then name else current)"
        using c True preferred_linear [of name current] preferred_trans [of name current] by (auto simp: named_def entry)
      moreover have "get (best_names read_url (rs @ [entry])) h = Some (if preferred name current then name else current)"
        using True Some by (auto simp: entry best Let_def get_put)
      ultimately show ?thesis using True by (auto simp: entry)
    qed
  qed
qed

lemma best_names_iff: "get (best_names read_url rs) h = Some n \<longleftrightarrow> named read_url rs h n"
proof
  show "get (best_names read_url rs) h = Some n \<Longrightarrow> named read_url rs h n" using best_names_spec by blast
  assume n: "named read_url rs h n"
  then obtain m where m: "get (best_names read_url rs) h = Some m"
    using best_names_spec [of read_url rs h] unfolding named_def by blast
  then show "get (best_names read_url rs) h = Some n"
    using named_unique [OF n] best_names_spec [of read_url rs h] by blast
qed

lemma best_names_table [simp]: "is_table (best_names read_url rs)"
proof (induction rs rule: rev_induct)
  case (snoc entry rs)
  then show ?case by (cases entry) (auto simp: best_names_snoc Let_def split: option.split)
qed (simp add: best_names_def)

lemma named_order: "set rs = set rs' \<Longrightarrow> named read_url rs h n = named read_url rs' h n"
  by (simp add: named_def)

text \<open>Regions as a gateway advertises them: a map, with names and URLs.\<close>

definition well_named :: "url_reader \<Rightarrow> regions \<Rightarrow> bool" where
  "well_named read_url rs \<longleftrightarrow> is_table rs \<and> (\<forall>(name, url)\<in>set rs. name \<noteq> [] \<and> gateway_host_key read_url url \<noteq> [])"

lemma well_named_filter: "well_named read_url rs \<Longrightarrow> well_named read_url (filter P rs)"
  by (auto simp: well_named_def)

lemma region_url_in: "is_table rs \<Longrightarrow> (n, url) \<in> set rs \<Longrightarrow> region_url rs n = url"
  by (simp add: region_url_def get_in_set)

lemma dedupe_iff:
  assumes "well_named read_url rs"
  shows "(n, url) \<in> set (dedupe_regions_by_host read_url rs) \<longleftrightarrow> (n, url) \<in> set rs \<and> named read_url rs (gateway_host_key read_url url) n"
proof (cases "length rs < 2")
  case True
  then consider "rs = []" | e where "rs = [e]" by (cases rs) auto
  then show ?thesis
  proof cases
    case 2
    then show ?thesis using assms by (auto simp: dedupe_regions_by_host_def named_def well_named_def)
  qed (simp add: dedupe_regions_by_host_def)
next
  case False
  have in_best: "(h, m) \<in> set (best_names read_url rs) \<longleftrightarrow> named read_url rs h m" for h m
    using get_in_set [OF best_names_table, of h m read_url rs] by (simp add: best_names_iff)
  have "(n, url) \<in> set (dedupe_regions_by_host read_url rs) \<longleftrightarrow> (\<exists>h. (h, n) \<in> set (best_names read_url rs) \<and> url = region_url rs n)"
    using False by (auto simp: dedupe_regions_by_host_def)
  also have "\<dots> \<longleftrightarrow> (\<exists>h. named read_url rs h n \<and> url = region_url rs n)" by (simp add: in_best)
  also have "\<dots> \<longleftrightarrow> (n, url) \<in> set rs \<and> named read_url rs (gateway_host_key read_url url) n"
    using assms region_url_in [of rs n] by (auto simp: named_def well_named_def)
  finally show ?thesis .
qed

lemma dedupe_distinct:
  assumes "well_named read_url rs"
  shows "distinct (map fst (dedupe_regions_by_host read_url rs))"
proof (cases "length rs < 2")
  case True
  then show ?thesis using assms by (simp add: dedupe_regions_by_host_def well_named_def is_table_def)
next
  case False
  have "inj_on snd (set (best_names read_url rs))"
  proof (rule inj_onI)
    fix x y assume x: "x \<in> set (best_names read_url rs)" and y: "y \<in> set (best_names read_url rs)" and eq: "snd x = snd y"
    have "named read_url rs (fst x) (snd x)" "named read_url rs (fst y) (snd y)"
      using x y get_in_set [OF best_names_table, of "fst x" "snd x"] get_in_set [OF best_names_table, of "fst y" "snd y"]
      by (simp_all add: best_names_iff)
    then show "x = y" using eq assms by (auto simp: named_def well_named_def is_table_def prod_eq_iff dest: eq_key_imp_eq_value)
  qed
  moreover have "distinct (best_names read_url rs)"
    using best_names_table [of read_url rs] by (auto simp: is_table_def distinct_map)
  ultimately show ?thesis using False by (simp add: dedupe_regions_by_host_def distinct_map comp_def case_prod_unfold)
qed


section \<open>The gateways held out\<close>

definition fresh :: "url_reader \<Rightarrow> time \<Rightarrow> cooldowns \<Rightarrow> string \<times> string \<Rightarrow> bool" where
  "fresh read_url now c entry \<longleftrightarrow> \<not> cooling_down read_url now (snd entry) c"

text \<open>The candidates of an election: the gateways not held out, or all of them when all are held out.\<close>

definition candidates :: "url_reader \<Rightarrow> time \<Rightarrow> cooldowns \<Rightarrow> regions \<Rightarrow> regions" where
  "candidates read_url now c rs = (let left = filter (fresh read_url now c) rs in if left = [] then rs else left)"

lemma cooling_down_cong: "get c (gateway_host_key read_url url) = get c' (gateway_host_key read_url url) \<Longrightarrow>
    cooling_down read_url now url c = cooling_down read_url now url c'"
  by (simp add: cooling_down_def)

text \<open>The cooldowns left agree with those before, except that some which have run out are gone.\<close>

definition pruned :: "time \<Rightarrow> cooldowns \<Rightarrow> cooldowns \<Rightarrow> bool" where
  "pruned now c c' \<longleftrightarrow> (\<forall>h. get c' h = get c h \<or> (get c' h = None \<and> (\<exists>d. get c h = Some d \<and> d \<le> now)))"

lemma pruned_refl [simp]: "pruned now c c"
  by (simp add: pruned_def)

lemma pruned_cooling: "pruned now c c' \<Longrightarrow> now \<le> now' \<Longrightarrow> cooling_down read_url now' url c' = cooling_down read_url now' url c"
  by (auto simp: cooling_down_def pruned_def Let_def split: option.splits)
     (metis (no_types, lifting) leD le_less_trans option.distinct(1) option.inject order.trans)+

lemma filter_step_out:
  assumes "gateway_host_key read_url (snd entry) \<noteq> []"
  shows "fst (filter_step read_url now (out, c) entry) = (if fresh read_url now c entry then out @ [entry] else out)"
  using assms by (cases entry) (auto simp: filter_step_def fresh_def cooling_down_def Let_def split: option.splits)

lemma filter_step_pruned: "pruned now c c' \<Longrightarrow> pruned now c (snd (filter_step read_url now (out, c') entry))"
  by (cases entry) (auto simp: filter_step_def pruned_def get_del Let_def split: option.splits, metis not_less)

lemma filter_steps:
  "pruned now c c0 \<Longrightarrow> (\<forall>entry\<in>set rs. gateway_host_key read_url (snd entry) \<noteq> []) \<Longrightarrow>
   fst (foldl (filter_step read_url now) (out, c0) rs) = out @ filter (fresh read_url now c) rs \<and>
   pruned now c (snd (foldl (filter_step read_url now) (out, c0) rs))"
proof (induction rs arbitrary: out c0)
  case (Cons entry rs)
  obtain out1 c1 where st: "filter_step read_url now (out, c0) entry = (out1, c1)" by fastforce
  have "fresh read_url now c0 entry = fresh read_url now c entry"
    using Cons.prems(1) by (simp add: fresh_def pruned_cooling)
  then have "out1 = (if fresh read_url now c entry then out @ [entry] else out)"
    using filter_step_out [of read_url entry now out c0] Cons.prems(2) by (simp add: st)
  moreover have "pruned now c c1" using filter_step_pruned [OF Cons.prems(1), of read_url out entry] by (simp add: st)
  ultimately show ?case using Cons.IH [of c1 out1] Cons.prems(2) by (simp add: st)
qed simp

lemma filter_cooling_exact:
  assumes "well_named read_url rs"
  shows "fst (filter_cooling read_url now rs c) = candidates read_url now c rs \<and> pruned now c (snd (filter_cooling read_url now rs c))"
proof (cases "rs = []")
  case False
  obtain out c1 where st: "foldl (filter_step read_url now) ([], c) rs = (out, c1)" by fastforce
  have "\<forall>entry\<in>set rs. gateway_host_key read_url (snd entry) \<noteq> []" using assms by (auto simp: well_named_def)
  from filter_steps [OF pruned_refl this, where now = now and c = c and out = "[]"] show ?thesis
    using False by (simp add: filter_cooling_def st candidates_def Let_def)
qed (simp add: filter_cooling_def candidates_def)

lemma well_named_candidates: "well_named read_url rs \<Longrightarrow> well_named read_url (candidates read_url now c rs)"
  by (simp add: candidates_def Let_def well_named_filter)

lemma candidates_subset: "set (candidates read_url now c rs) \<subseteq> set rs"
  by (auto simp: candidates_def Let_def)

section \<open>The fastest\<close>

lemma fastest_region_spec:
  assumes "is_table rtts" "\<forall>(n, r)\<in>set rtts. n \<noteq> []"
  shows "if rtts = [] then fastest_region rtts = []
         else \<exists>r. (fastest_region rtts, r) \<in> set rtts \<and> (\<forall>(n, r')\<in>set rtts. r < r' \<or> (r = r' \<and> fastest_region rtts \<le> n))"
proof -
  let ?step = "\<lambda>best (name, rtt).
         case (if best = [] then None else get rtts best) of
           None \<Rightarrow> name
         | Some current \<Rightarrow> if rtt < current \<or> (rtt = current \<and> name < best) then name else best"
  have "set xs \<subseteq> set rtts \<Longrightarrow> if xs = [] then foldl ?step [] xs = []
        else \<exists>r. (foldl ?step [] xs, r) \<in> set xs \<and> (\<forall>(n, r')\<in>set xs. r < r' \<or> (r = r' \<and> foldl ?step [] xs \<le> n))" for xs
  proof (induction xs rule: rev_induct)
    case (snoc x xs)
    obtain name rtt where x: "x = (name, rtt)" by fastforce
    show ?case
    proof (cases "xs = []")
      case False
      then obtain r where r: "(foldl ?step [] xs, r) \<in> set xs"
          "\<forall>(n, r')\<in>set xs. r < r' \<or> (r = r' \<and> foldl ?step [] xs \<le> n)"
        using snoc.IH snoc.prems by auto
      then have in_rtts: "(foldl ?step [] xs, r) \<in> set rtts" using snoc.prems by auto
      then have g: "(if foldl ?step [] xs = [] then None else get rtts (foldl ?step [] xs)) = Some r"
        using assms by (auto simp: get_in_set)
      let ?better = "rtt < r \<or> (rtt = r \<and> name < foldl ?step [] xs)"
      have out: "foldl ?step [] (xs @ [x]) = (if ?better then name else foldl ?step [] xs)"
        by (simp add: x g)
      show ?thesis
      proof (cases ?better)
        case True
        have "\<forall>(n, r')\<in>set (xs @ [x]). rtt < r' \<or> (rtt = r' \<and> name \<le> n)" using r(2) True by (fastforce simp: x)
        then show ?thesis using True unfolding out by (auto simp: x)
      next
        case False
        have "\<forall>(n, r')\<in>set (xs @ [x]). r < r' \<or> (r = r' \<and> foldl ?step [] xs \<le> n)" using r(2) False by (auto simp: x)
        then show ?thesis using r(1) False unfolding out by auto
      qed
    qed (simp add: x)
  qed simp
  from this [of rtts] show ?thesis by (simp add: fastest_region_def)
qed


section \<open>The probe\<close>

text \<open>The gateways that can be chosen among candidates: under their canonical name, answering fit to carry a session.\<close>

definition answering :: "url_reader \<Rightarrow> probe \<Rightarrow> regions \<Rightarrow> string \<Rightarrow> duration \<Rightarrow> bool" where
  "answering read_url probe rs n r \<longleftrightarrow>
     (\<exists>url. (n, url) \<in> set rs \<and> named read_url rs (gateway_host_key read_url url) n \<and> probe_round_trip probe url = Some r)"

text \<open>The choice: it answers, and no other answers faster, nor as fast under an earlier name.\<close>

definition best_gateway :: "url_reader \<Rightarrow> probe \<Rightarrow> regions \<Rightarrow> string \<Rightarrow> bool" where
  "best_gateway read_url probe rs n \<longleftrightarrow>
     (\<exists>r. answering read_url probe rs n r \<and> (\<forall>n' r'. answering read_url probe rs n' r' \<longrightarrow> r < r' \<or> (r = r' \<and> n \<le> n')))"

definition rtts_of :: "url_reader \<Rightarrow> probe \<Rightarrow> regions \<Rightarrow> (string, duration) table" where
  "rtts_of read_url probe rs = fst (probe_region_latencies read_url probe rs)"

lemma rtts_of_eq:
  "rtts_of read_url probe rs =
     List.map_filter (\<lambda>(name, url). map_option (Pair name) (probe_round_trip probe url)) (dedupe_regions_by_host read_url rs)"
  by (simp add: rtts_of_def probe_region_latencies_def Let_def)

lemma in_map_filter: "y \<in> set (List.map_filter f xs) \<longleftrightarrow> (\<exists>x\<in>set xs. f x = Some y)"
  by (induction xs) (auto simp: map_filter_simps split: option.splits)

lemma rtts_of_in: "well_named read_url rs \<Longrightarrow> (n, r) \<in> set (rtts_of read_url probe rs) \<longleftrightarrow> answering read_url probe rs n r"
  unfolding rtts_of_eq in_map_filter answering_def
  by (auto simp: dedupe_iff intro!: bexI [of _ "(n, _)"])

lemma distinct_map_filter_fst:
  "distinct (map fst xs) \<Longrightarrow> (\<And>x y. f x = Some y \<Longrightarrow> fst y = fst x) \<Longrightarrow> distinct (map fst (List.map_filter f xs))"
  by (induction xs) (auto simp: map_filter_simps in_map_filter split: option.splits, metis fst_conv image_eqI)

lemma rtts_of_table: "well_named read_url rs \<Longrightarrow> is_table (rtts_of read_url probe rs)"
  unfolding is_table_def rtts_of_eq by (rule distinct_map_filter_fst [OF dedupe_distinct]) auto

lemma rtts_of_get: "well_named read_url rs \<Longrightarrow> get (rtts_of read_url probe rs) n = Some r \<longleftrightarrow> answering read_url probe rs n r"
  using get_in_set [OF rtts_of_table] rtts_of_in by metis

lemma answering_named: "well_named read_url rs \<Longrightarrow> answering read_url probe rs n r \<Longrightarrow> n \<noteq> []"
  by (auto simp: answering_def well_named_def)

lemma best_gateway_unique: "best_gateway read_url probe rs n \<Longrightarrow> best_gateway read_url probe rs n' \<Longrightarrow> n = n'"
  unfolding best_gateway_def by (metis order.antisym order.asym)

lemma probe_fastest_region_fst: "fst (probe_fastest_region read_url probe rs) = fastest_region (rtts_of read_url probe rs)"
  by (simp add: probe_fastest_region_def rtts_of_def split: prod.split)

text \<open>The probe finds the best gateway, and finds none exactly when none answers.\<close>

lemma fastest_region_exact:
  assumes "well_named read_url rs"
  shows "if \<exists>n r. answering read_url probe rs n r then best_gateway read_url probe rs (fastest_region (rtts_of read_url probe rs))
         else fastest_region (rtts_of read_url probe rs) = []"
proof -
  let ?t = "rtts_of read_url probe rs"
  have names: "\<forall>(n, r)\<in>set ?t. n \<noteq> []" using answering_named [OF assms] rtts_of_in [OF assms] by blast
  note spec = fastest_region_spec [OF rtts_of_table [OF assms] names]
  show ?thesis
  proof (cases "?t = []")
    case True
    then have "\<not> (\<exists>n r. answering read_url probe rs n r)" using rtts_of_in [OF assms, of _ _ probe] by simp
    then show ?thesis using spec True by simp
  next
    case False
    then obtain r where r: "(fastest_region ?t, r) \<in> set ?t" "\<forall>(n, r')\<in>set ?t. r < r' \<or> (r = r' \<and> fastest_region ?t \<le> n)"
      using spec by auto
    then have "best_gateway read_url probe rs (fastest_region ?t)"
      unfolding best_gateway_def rtts_of_in [OF assms, symmetric] by blast
    moreover have "\<exists>n r. answering read_url probe rs n r" using r(1) rtts_of_in [OF assms] by blast
    ultimately show ?thesis by simp
  qed
qed

lemma best_gateway_in:
  "best_gateway read_url probe rs n \<Longrightarrow> \<exists>url r. (n, url) \<in> set rs \<and> named read_url rs (gateway_host_key read_url url) n \<and> probe_round_trip probe url = Some r"
  by (auto simp: best_gateway_def answering_def)

lemma best_gateway_answering: "best_gateway read_url probe rs n \<Longrightarrow> \<exists>n r. answering read_url probe rs n r"
  by (auto simp: best_gateway_def)

section \<open>The election\<close>

lemma save_region_cache_sel [simp]:
  "el_region (save_region_cache nw b u p cs e) = el_region e" "el_serverURL (save_region_cache nw b u p cs e) = el_serverURL e"
  "el_regions (save_region_cache nw b u p cs e) = el_regions e" "el_source (save_region_cache nw b u p cs e) = el_source e"
  "el_cooldowns (save_region_cache nw b u p cs e) = el_cooldowns e"
  "el_unavailable (save_region_cache nw b u p cs e) = el_unavailable e"
  by (simp_all add: save_region_cache_def)

lemma elect_exact:
  assumes w: "well_named read_url (el_regions e)"
  shows "\<not> (\<exists>n r. answering read_url (nw_probe nw) (el_regions e) n r) \<Longrightarrow> elect read_url nw e = e"
    and "best_gateway read_url (nw_probe nw) (el_regions e) n \<Longrightarrow>
         el_region (elect read_url nw e) = n \<and> el_serverURL (elect read_url nw e) = region_url (el_regions e) n \<and>
         el_source (elect read_url nw e) = By_probe"
proof -
  let ?p = "probe_fastest_region read_url (nw_probe nw) (el_regions e)"
  have p: "?p = (fastest_region (rtts_of read_url (nw_probe nw) (el_regions e)), snd ?p)"
    using probe_fastest_region_fst by (metis prod.collapse)
  note spec = fastest_region_exact [OF w, of "nw_probe nw"]
  show "\<not> (\<exists>n r. answering read_url (nw_probe nw) (el_regions e) n r) \<Longrightarrow> elect read_url nw e = e"
    using spec by (subst elect_def, subst p) simp
  assume b: "best_gateway read_url (nw_probe nw) (el_regions e) n"
  then have "fastest_region (rtts_of read_url (nw_probe nw) (el_regions e)) = n"
    using spec best_gateway_answering [OF b] best_gateway_unique by (metis (full_types))
  moreover have "n \<noteq> []" using best_gateway_in [OF b] w by (auto simp: well_named_def)
  ultimately show "el_region (elect read_url nw e) = n \<and> el_serverURL (elect read_url nw e) = region_url (el_regions e) n \<and>
         el_source (elect read_url nw e) = By_probe"
    by (subst (1 2 3) elect_def, subst (1 2 3) p) simp
qed

lemma refreshed_regions:
  assumes "well_named read_url (el_regions (fetch_remote_regions nw e))"
  shows "el_regions (refreshed read_url nw e) =
    candidates read_url (nw_now nw) (el_cooldowns (fetch_remote_regions nw e)) (el_regions (fetch_remote_regions nw e))"
  using filter_cooling_exact [OF assms, of "nw_now nw" "el_cooldowns (fetch_remote_regions nw e)"]
  by (simp add: refreshed_def Let_def case_prod_unfold)

lemma fetch_sel [simp]:
  "el_region (fetch_remote_regions nw e) = el_region e" "el_serverURL (fetch_remote_regions nw e) = el_serverURL e"
  "el_cooldowns (fetch_remote_regions nw e) = el_cooldowns e" "el_cache (fetch_remote_regions nw e) = el_cache e"
  "el_source (fetch_remote_regions nw e) = el_source e"
  by (simp_all add: fetch_remote_regions_def split: option.split prod.split)

lemma refreshed_sel [simp]:
  "el_region (refreshed read_url nw e) = el_region e" "el_serverURL (refreshed read_url nw e) = el_serverURL e"
  "el_cache (refreshed read_url nw e) = el_cache e" "el_source (refreshed read_url nw e) = el_source e"
  "el_unavailable (refreshed read_url nw e) = el_unavailable (fetch_remote_regions nw e)"
  by (simp_all add: refreshed_def Let_def split: prod.split)

lemma fetch_cache [simp]:
  "el_regions (fetch_remote_regions nw (e\<lparr>el_cache := c\<rparr>)) = el_regions (fetch_remote_regions nw e)"
  by (simp add: fetch_remote_regions_def split: option.split prod.split)


text \<open>C32: Which gateway an unpinned client without a usable cached choice elects, exactly. The candidates are the regions the
  gateway now advertises without those held out, or all of them when all are held out. Among them the election takes the
  one that answers its probe fit to carry a session, none faster, under the canonical name of its host; when none answers,
  the gateway stays the one it was.
\<close>
theorem election_exact:
  assumes "el_region e = []" "el_regions e \<noteq> []" "\<not> explicit"
    and "well_named read_url (el_regions (fetch_remote_regions nw e))"
    and "refresh \<or> load_region_cache (nw_now nw) (candidate_hosts read_url cs) (el_cache e) = None"
    and "cs = candidates read_url (nw_now nw) (el_cooldowns e) (el_regions (fetch_remote_regions nw e))"
  shows "if \<exists>n r. answering read_url (nw_probe nw) cs n r
         then best_gateway read_url (nw_probe nw) cs (el_region (resolve_server_url read_url nw refresh explicit e)) \<and>
              el_serverURL (resolve_server_url read_url nw refresh explicit e) =
                region_url cs (el_region (resolve_server_url read_url nw refresh explicit e))
         else el_region (resolve_server_url read_url nw refresh explicit e) = [] \<and>
              el_serverURL (resolve_server_url read_url nw refresh explicit e) = el_serverURL e"
proof -
  let ?e = "refreshed read_url nw (if refresh \<and> nw_fileWorks nw then e\<lparr>el_cache := None\<rparr> else e)"
  have regions: "el_regions ?e = cs" using refreshed_regions [of read_url nw e] refreshed_regions [of read_url nw "e\<lparr>el_cache := None\<rparr>"] assms(4,6)
    by simp
  have kept: "el_region ?e = []" "el_serverURL ?e = el_serverURL e" using assms(1) by simp_all
  have ne: "el_regions (fetch_remote_regions nw e) \<noteq> []"
    using assms(2) by (simp add: fetch_remote_regions_def split: option.split prod.split)
  then have cs: "cs \<noteq> []" using assms(6) by (simp add: candidates_def Let_def)
  have none: "cached_choice read_url nw refresh ?e = None"
    using assms(5) regions by (cases refresh) (simp_all add: cached_choice_def)
  have out: "resolve_server_url read_url nw refresh explicit e = elect read_url nw ?e"
    using assms(3) kept(1) regions cs none by (simp add: resolve_server_url_def Let_def)
  have w: "well_named read_url (el_regions ?e)" using well_named_candidates assms(4,6) regions by simp
  show ?thesis
  proof (cases "\<exists>n r. answering read_url (nw_probe nw) cs n r")
    case True
    then have b: "best_gateway read_url (nw_probe nw) (el_regions ?e) (fastest_region (rtts_of read_url (nw_probe nw) cs))"
      using fastest_region_exact [OF w, of "nw_probe nw"] regions by simp
    from elect_exact(2) [OF w b] show ?thesis using b True unfolding out regions by simp
  next
    case False
    then have "elect read_url nw ?e = ?e" using elect_exact(1) [OF w] regions by simp
    then show ?thesis using False kept unfolding out by simp
  qed
qed


section \<open>The order of a map\<close>

text \<open>Two elections that differ only in the order in which their maps were iterated.\<close>

definition same_but_order :: "election \<Rightarrow> election \<Rightarrow> bool" where
  "same_but_order e e' \<longleftrightarrow>
     el_region e = el_region e' \<and> el_serverURL e = el_serverURL e' \<and> el_cache e = el_cache e' \<and> el_source e = el_source e' \<and>
     set (el_regions e) = set (el_regions e') \<and> set (el_unavailable e) = set (el_unavailable e') \<and>
     get (el_cooldowns e) = get (el_cooldowns e')"

lemma answering_order: "set rs = set rs' \<Longrightarrow> answering read_url probe rs = answering read_url probe rs'"
  by (intro ext) (simp add: answering_def named_order [of rs rs'])

lemma best_gateway_order: "set rs = set rs' \<Longrightarrow> best_gateway read_url probe rs = best_gateway read_url probe rs'"
  by (intro ext) (simp add: best_gateway_def answering_order [of rs rs'])

lemma well_named_order: "set rs = set rs' \<Longrightarrow> length rs = length rs' \<Longrightarrow> well_named read_url rs \<Longrightarrow> well_named read_url rs'"
  unfolding well_named_def is_table_def by (metis card_distinct distinct_card length_map list.set_map)

lemma same_keys_get: "is_table m \<Longrightarrow> is_table m' \<Longrightarrow> set m = set m' \<Longrightarrow> get m = get m'"
  by (intro ext) (metis get_in_set not_Some_eq)

lemma region_url_order: "is_table rs \<Longrightarrow> is_table rs' \<Longrightarrow> set rs = set rs' \<Longrightarrow> region_url rs = region_url rs'"
  by (intro ext) (simp add: region_url_def same_keys_get [of rs rs'])

lemma fastest_region_order:
  assumes "well_named read_url rs" "well_named read_url rs'" "set rs = set rs'"
  shows "fastest_region (rtts_of read_url probe rs) = fastest_region (rtts_of read_url probe rs')"
  using fastest_region_exact [OF assms(1), of probe] fastest_region_exact [OF assms(2), of probe]
    answering_order [OF assms(3), of read_url probe] best_gateway_order [OF assms(3), of read_url probe] best_gateway_unique
  by (metis (full_types))

lemma dedupe_order:
  "well_named read_url rs \<Longrightarrow> well_named read_url rs' \<Longrightarrow> set rs = set rs' \<Longrightarrow>
   set (dedupe_regions_by_host read_url rs) = set (dedupe_regions_by_host read_url rs')"
  using named_order [of rs rs'] by (auto simp: dedupe_iff)

lemma sorted_names_eq:
  assumes "distinct (xs :: string list)" "distinct ys" "set xs = set ys" shows "sort xs = sort ys"
  using assms by (metis sorted_list_of_set_sort_remdups distinct_remdups_id)

lemma unreachable_order:
  assumes "well_named read_url rs" "well_named read_url rs'" "set rs = set rs'"
  shows "snd (probe_fastest_region read_url probe rs) = snd (probe_fastest_region read_url probe rs')"
proof -
  have eq: "snd (probe_fastest_region read_url probe rs) =
      sort (filter (\<lambda>name. get (rtts_of read_url probe rs) name = None) (map fst (dedupe_regions_by_host read_url rs)))" for rs
    by (simp add: probe_fastest_region_def rtts_of_def probe_region_latencies_def Let_def)
  have "set (rtts_of read_url probe rs) = set (rtts_of read_url probe rs')"
    using answering_order [OF assms(3), of read_url probe] rtts_of_in [OF assms(1)] rtts_of_in [OF assms(2)] by auto
  then have "get (rtts_of read_url probe rs) = get (rtts_of read_url probe rs')"
    using rtts_of_table assms same_keys_get by blast
  then show ?thesis
    unfolding eq using dedupe_order [OF assms] dedupe_distinct [OF assms(1)] dedupe_distinct [OF assms(2)]
    by (intro sorted_names_eq) simp_all
qed

lemma candidate_hosts_order: "set rs = set rs' \<Longrightarrow> candidate_hosts read_url rs = candidate_hosts read_url rs'"
  unfolding candidate_hosts_def by (rule sorted_names_eq) auto

lemma missing_region_names_order:
  assumes "set rs = set rs'" "well_named read_url us" "well_named read_url us'" "set us = set us'"
  shows "missing_region_names read_url rs us = missing_region_names read_url rs' us'"
  unfolding missing_region_names_def Let_def
  using assms(1) dedupe_order [OF assms(2-4)] dedupe_distinct [OF assms(2)] dedupe_distinct [OF assms(3)]
  by (intro sorted_names_eq) (auto simp: distinct_map_filter)

lemma elect_order:
  assumes "same_but_order e e'" "well_named read_url (el_regions e)" "well_named read_url (el_regions e')"
    "well_named read_url (el_unavailable e)" "well_named read_url (el_unavailable e')"
  shows "same_but_order (elect read_url nw e) (elect read_url nw e')"
proof -
  let ?rs = "el_regions e" and ?rs' = "el_regions e'"
  have regions: "set ?rs = set ?rs'" and un: "set (el_unavailable e) = set (el_unavailable e')"
    using assms(1) by (simp_all add: same_but_order_def)
  have p: "probe_fastest_region read_url (nw_probe nw) ?rs = probe_fastest_region read_url (nw_probe nw) ?rs'"
    using fastest_region_order [OF assms(2,3) regions] unreachable_order [OF assms(2,3) regions]
    by (metis probe_fastest_region_fst prod.collapse)
  note same = p region_url_order [OF _ _ regions] candidate_hosts_order [OF regions]
    missing_region_names_order [OF regions assms(4,5) un]
  have u: "region_url ?rs = region_url ?rs'" using assms(2,3) by (intro region_url_order regions) (auto simp: well_named_def)
  show ?thesis
    using assms(1) unfolding elect_def p u candidate_hosts_order [OF regions] missing_region_names_order [OF regions assms(4,5) un]
    by (simp add: same_but_order_def save_region_cache_def split: prod.split)
qed


definition lapsed :: "url_reader \<Rightarrow> time \<Rightarrow> regions \<Rightarrow> cooldowns \<Rightarrow> string \<Rightarrow> bool" where
  "lapsed read_url now rs c h \<longleftrightarrow> h \<in> gateway_host_key read_url ` snd ` set rs \<and> (\<exists>d. get c h = Some d \<and> d \<le> now)"

lemma filter_step_cooldown:
  "get (snd (filter_step read_url now (out, c) entry)) h = (if lapsed read_url now [entry] c h then None else get c h)"
  by (cases entry) (auto simp: filter_step_def get_del lapsed_def Let_def split: option.splits)

lemma lapsed_Cons: "lapsed read_url now (entry # rs) c h \<longleftrightarrow> lapsed read_url now [entry] c h \<or> lapsed read_url now rs c h"
  by (auto simp: lapsed_def)

lemma lapsed_after:
  "get c' h = (if lapsed read_url now [entry] c h then None else get c h) \<Longrightarrow>
   lapsed read_url now rs c' h \<longleftrightarrow> \<not> lapsed read_url now [entry] c h \<and> lapsed read_url now rs c h"
  by (auto simp: lapsed_def)

lemma filter_steps_cooldowns:
  "get (snd (foldl (filter_step read_url now) (out, c) rs)) h = (if lapsed read_url now rs c h then None else get c h)"
proof (induction rs arbitrary: out c)
  case (Cons entry rs)
  obtain out1 c1 where st: "filter_step read_url now (out, c) entry = (out1, c1)" by fastforce
  have "get c1 h = (if lapsed read_url now [entry] c h then None else get c h)"
    using filter_step_cooldown [of read_url now out c entry h] by (simp add: st)
  then show ?case using Cons.IH [of out1 c1] lapsed_Cons [of read_url now entry rs c h] lapsed_after [of c1 h]
    by (simp add: st)
qed (simp add: lapsed_def)

lemma filter_cooling_cooldowns:
  "get (snd (filter_cooling read_url now rs c)) h = (if lapsed read_url now rs c h then None else get c h)"
proof (cases "rs = []")
  case False
  then have "snd (filter_cooling read_url now rs c) = snd (foldl (filter_step read_url now) ([], c) rs)"
    by (simp add: filter_cooling_def case_prod_unfold)
  then show ?thesis by (simp only: filter_steps_cooldowns)
qed (simp add: filter_cooling_def lapsed_def)

lemma lapsed_order: "set rs = set rs' \<Longrightarrow> get c = get c' \<Longrightarrow> lapsed read_url now rs c = lapsed read_url now rs' c'"
  by (intro ext) (simp add: lapsed_def)

lemma candidates_order:
  assumes "set rs = set rs'" "get c = get c'"
  shows "set (candidates read_url now c rs) = set (candidates read_url now c' rs')"
proof -
  have "fresh read_url now c = fresh read_url now c'"
    by (intro ext) (simp add: fresh_def cooling_down_def assms(2))
  moreover have "filter P rs = [] \<longleftrightarrow> filter P rs' = []" for P using assms(1) by (simp add: filter_empty_conv)
  ultimately show ?thesis using assms(1) by (simp add: candidates_def Let_def)
qed

text \<open>What a gateway advertises to two readers of the same maps.\<close>

definition same_answers :: "url_reader \<Rightarrow> network \<Rightarrow> network \<Rightarrow> bool" where
  "same_answers read_url nw nw' \<longleftrightarrow>
     nw_now nw = nw_now nw' \<and> nw_probe nw = nw_probe nw' \<and> nw_fileWorks nw = nw_fileWorks nw' \<and>
     (\<forall>url. case (nw_fetch nw url, nw_fetch nw' url) of
        (None, None) \<Rightarrow> True
      | (Some (rs, us), Some (rs', us')) \<Rightarrow>
          set rs = set rs' \<and> set us = set us' \<and> well_named read_url rs \<and> well_named read_url rs' \<and>
          well_named read_url us \<and> well_named read_url us'
      | _ \<Rightarrow> False)"

definition well_named_election :: "url_reader \<Rightarrow> election \<Rightarrow> bool" where
  "well_named_election read_url e \<longleftrightarrow> well_named read_url (el_regions e) \<and> well_named read_url (el_unavailable e)"

lemma fetch_order:
  assumes "same_but_order e e'" "same_answers read_url nw nw'" "well_named_election read_url e" "well_named_election read_url e'"
  shows "same_but_order (fetch_remote_regions nw e) (fetch_remote_regions nw' e') \<and>
    well_named_election read_url (fetch_remote_regions nw e) \<and> well_named_election read_url (fetch_remote_regions nw' e')"
proof -
  have url: "el_serverURL e = el_serverURL e'" using assms(1) by (simp add: same_but_order_def)
  have "case (nw_fetch nw (el_serverURL e'), nw_fetch nw' (el_serverURL e')) of
        (None, None) \<Rightarrow> True
      | (Some (rs, us), Some (rs', us')) \<Rightarrow>
          set rs = set rs' \<and> set us = set us' \<and> well_named read_url rs \<and> well_named read_url rs' \<and>
          well_named read_url us \<and> well_named read_url us'
      | _ \<Rightarrow> False"
    using assms(2) unfolding same_answers_def by blast
  then consider (none) "nw_fetch nw (el_serverURL e') = None" "nw_fetch nw' (el_serverURL e') = None"
    | (some) rs us rs' us' where "nw_fetch nw (el_serverURL e') = Some (rs, us)" "nw_fetch nw' (el_serverURL e') = Some (rs', us')"
        "set rs = set rs'" "set us = set us'" "well_named read_url rs" "well_named read_url rs'" "well_named read_url us"
        "well_named read_url us'"
    by (auto split: option.splits)
  then show ?thesis
  proof cases
    case none
    then show ?thesis using assms(1,3,4) by (simp add: fetch_remote_regions_def url)
  next
    case some
    then have "rs = [] \<longleftrightarrow> rs' = []" by (metis set_empty)
    then show ?thesis
      using some assms(1,3,4) by (simp add: fetch_remote_regions_def url same_but_order_def well_named_election_def)
  qed
qed

lemma refreshed_order:
  assumes "same_but_order e e'" "same_answers read_url nw nw'" "well_named_election read_url e" "well_named_election read_url e'"
  shows "same_but_order (refreshed read_url nw e) (refreshed read_url nw' e') \<and>
    well_named_election read_url (refreshed read_url nw e) \<and> well_named_election read_url (refreshed read_url nw' e')"
proof -
  let ?e = "fetch_remote_regions nw e" and ?e' = "fetch_remote_regions nw' e'"
  have f: "same_but_order ?e ?e'" "well_named_election read_url ?e" "well_named_election read_url ?e'"
    using fetch_order [OF assms] by simp_all
  have now: "nw_now nw' = nw_now nw" using assms(2) by (simp add: same_answers_def)
  have w: "well_named read_url (el_regions ?e)" "well_named read_url (el_regions ?e')"
    using f(2,3) by (simp_all add: well_named_election_def)
  have cools: "get (el_cooldowns ?e) = get (el_cooldowns ?e')" and rs: "set (el_regions ?e) = set (el_regions ?e')"
    using f(1) by (simp_all add: same_but_order_def)
  have "set (el_regions (refreshed read_url nw e)) = set (el_regions (refreshed read_url nw' e'))"
    unfolding refreshed_regions [OF w(1)] refreshed_regions [OF w(2)] now by (rule candidates_order [OF rs cools])
  moreover have "get (el_cooldowns (refreshed read_url nw e)) = get (el_cooldowns (refreshed read_url nw' e'))"
    using lapsed_order [OF rs cools] cools
    by (intro ext) (simp add: refreshed_def Let_def case_prod_unfold filter_cooling_cooldowns now)
  ultimately show ?thesis
    using f w well_named_candidates [OF w(1)] well_named_candidates [OF w(2)]
    by (simp add: same_but_order_def well_named_election_def refreshed_regions [OF w(1)] refreshed_regions [OF w(2)])
qed

lemma elect_network:
  "nw_fileWorks nw' = nw_fileWorks nw \<Longrightarrow> nw_now nw' = nw_now nw \<Longrightarrow> nw_probe nw' = nw_probe nw \<Longrightarrow>
   elect read_url nw' e = elect read_url nw e"
  by (simp add: elect_def save_region_cache_def split: prod.split)

text \<open>What follows the refresh.\<close>

definition resolve_from :: "url_reader \<Rightarrow> network \<Rightarrow> bool \<Rightarrow> bool \<Rightarrow> election \<Rightarrow> election" where
  "resolve_from read_url nw refresh explicit e =
     (if el_region e = [] then
           (if explicit \<or> el_regions e = [] then e
            else case cached_choice read_url nw refresh e of
              Some (name, url) \<Rightarrow> e\<lparr>el_region := name, el_serverURL := url, el_source := By_cache\<rparr>
            | None \<Rightarrow> elect read_url nw e)
         else
           (case get (el_regions e) (trim_space (to_lower (el_region e))) of
              Some url \<Rightarrow> e\<lparr>el_serverURL := url, el_source := By_explicit_region\<rparr>
            | None \<Rightarrow> if el_regions e = [] then e else elect read_url nw e))"

lemma resolve_server_url_eq:
  "resolve_server_url read_url nw refresh explicit e =
   resolve_from read_url nw refresh explicit (refreshed read_url nw (if refresh \<and> nw_fileWorks nw then e\<lparr>el_cache := None\<rparr> else e))"
  by (simp only: resolve_server_url_def resolve_from_def Let_def)

lemma resolve_from_order:
  assumes r: "same_but_order x y" "well_named_election read_url x" "well_named_election read_url y"
    and io: "nw_fileWorks nw' = nw_fileWorks nw" "nw_now nw' = nw_now nw" "nw_probe nw' = nw_probe nw"
  shows "same_but_order (resolve_from read_url nw refresh explicit x) (resolve_from read_url nw' refresh explicit y)"
proof -
  have w: "well_named read_url (el_regions x)" "well_named read_url (el_regions y)"
    "well_named read_url (el_unavailable x)" "well_named read_url (el_unavailable y)"
    using r(2,3) by (simp_all add: well_named_election_def)
  have same: "set (el_regions x) = set (el_regions y)" "el_region x = el_region y" "el_cache x = el_cache y"
    using r(1) by (simp_all add: same_but_order_def)
  have same_get: "get (el_regions x) = get (el_regions y)"
    using w(1,2) by (intro same_keys_get same) (simp_all add: well_named_def)
  have empty: "el_regions x = [] \<longleftrightarrow> el_regions y = []" using same(1) by (metis set_empty)
  have choice: "cached_choice read_url nw refresh x = cached_choice read_url nw' refresh y"
    by (simp only: cached_choice_def same_get candidate_hosts_order [OF same(1)] io same(3))
  have elected: "same_but_order (elect read_url nw x) (elect read_url nw' y)"
    unfolding elect_network [OF io] by (rule elect_order [OF r(1) w])
  have moved: "same_but_order (x\<lparr>el_region := n, el_serverURL := u, el_source := s\<rparr>) (y\<lparr>el_region := n, el_serverURL := u, el_source := s\<rparr>)"
    "same_but_order (x\<lparr>el_serverURL := u, el_source := s\<rparr>) (y\<lparr>el_serverURL := u, el_source := s\<rparr>)" for n u s
    using r(1) by (simp_all add: same_but_order_def)
  show ?thesis
    unfolding resolve_from_def choice empty same(2) same_get
    using r(1) elected moved by (simp split: option.split prod.split)
qed

text \<open>An election is a function of the maps it reads, not of the order in which they are iterated: two clients with the
  same state whose gateway advertises the same regions, in any order, resolve to the same gateway, under the same name,
  for the same reason, and leave the same cache and the same gateways held out.
\<close>
theorem election_ignores_map_order:
  assumes "same_but_order e e'" "same_answers read_url nw nw'" "well_named_election read_url e" "well_named_election read_url e'"
  shows "same_but_order (resolve_server_url read_url nw refresh explicit e) (resolve_server_url read_url nw' refresh explicit e')"
proof -
  have io: "nw_fileWorks nw' = nw_fileWorks nw" "nw_now nw' = nw_now nw" "nw_probe nw' = nw_probe nw"
    using assms(2) by (simp_all add: same_answers_def)
  let ?x = "refreshed read_url nw (if refresh \<and> nw_fileWorks nw then e\<lparr>el_cache := None\<rparr> else e)"
  let ?y = "refreshed read_url nw' (if refresh \<and> nw_fileWorks nw' then e'\<lparr>el_cache := None\<rparr> else e')"
  have "same_but_order (if refresh \<and> nw_fileWorks nw then e\<lparr>el_cache := None\<rparr> else e)
      (if refresh \<and> nw_fileWorks nw' then e'\<lparr>el_cache := None\<rparr> else e')"
    using assms(1) io by (simp add: same_but_order_def)
  then have r: "same_but_order ?x ?y" "well_named_election read_url ?x" "well_named_election read_url ?y"
    using refreshed_order [of "if refresh \<and> nw_fileWorks nw then e\<lparr>el_cache := None\<rparr> else e"] assms(2-4)
    by (simp_all add: well_named_election_def)
  show ?thesis unfolding resolve_server_url_eq by (rule resolve_from_order [OF r io])
qed


section \<open>A concrete network\<close>

text \<open>URLs that are host names; a client that knows two regions, and a gateway that advertises three, two of them one host.\<close>

definition sample_reader :: url_reader where
  "sample_reader url = Some (''https'', url, [])"

definition sample_regions :: regions where
  "sample_regions = [(''central'', ''e''), (''us'', ''u''), (''eu'', ''e'')]"

definition sample_probe :: probe where
  "sample_probe url = Some (\<lparr>ha_code = 200, ha_parsed = False, ha_status = [], ha_controlPlane = []\<rparr>, if url = ''e'' then 30 else 20)"

definition sample_network :: "regions \<Rightarrow> network" where
  "sample_network rs = \<lparr>nw_now = 100, nw_fetch = (\<lambda>_. Some (rs, [])), nw_probe = sample_probe, nw_fileWorks = True\<rparr>"

definition sample_election :: "regions \<Rightarrow> cooldowns \<Rightarrow> election" where
  "sample_election rs c = \<lparr>el_region = [], el_serverURL = ''e'', el_regions = rs, el_unavailable = [], el_cooldowns = c,
     el_cache = None, el_source = By_given\<rparr>"

lemma sample_keys [simp]:
  "gateway_host_key sample_reader ''e'' = ''e''" "gateway_host_key sample_reader ''u'' = ''u''"
  by code_simp+

lemma sample_named: "well_named sample_reader sample_regions" "well_named sample_reader (rev sample_regions)" "well_named sample_reader []"
  by (simp_all add: well_named_def sample_regions_def is_table_def)

lemma election_exact_witness:
  "let nw = sample_network sample_regions; e = sample_election sample_regions [(''u'', 200)]
   in best_gateway sample_reader sample_probe (candidates sample_reader 100 [(''u'', 200)] sample_regions)
        (el_region (resolve_server_url sample_reader nw False False e)) \<and>
      el_region (resolve_server_url sample_reader nw False False e) = ''eu''"
proof -
  let ?nw = "sample_network sample_regions" and ?e = "sample_election sample_regions [(''u'', 200)]"
  let ?cs = "candidates sample_reader 100 [(''u'', 200)] sample_regions"
  have cs: "?cs = [(''central'', ''e''), (''eu'', ''e'')]" by code_simp
  have "answering sample_reader sample_probe ?cs ''eu'' 30"
    unfolding cs answering_def named_def
    by (rule exI [of _ "''e''"]) (auto simp: preferred_def probe_round_trip_def sample_probe_def gateway_can_carry_session_def)
  then have ex: "\<exists>n r. answering sample_reader (nw_probe ?nw) ?cs n r" by (auto simp: sample_network_def)
  have fetched: "el_regions (fetch_remote_regions ?nw ?e) = sample_regions" by code_simp
  have h: "el_region ?e = []" "el_regions ?e \<noteq> []" "el_cache ?e = None" "el_cooldowns ?e = [(''u'', 200)]" "nw_now ?nw = 100"
    "nw_probe ?nw = sample_probe" by (simp_all add: sample_election_def sample_regions_def sample_network_def)
  have w: "well_named sample_reader (el_regions (fetch_remote_regions ?nw ?e))" unfolding fetched by (rule sample_named)
  have none: "False \<or> load_region_cache (nw_now ?nw) (candidate_hosts sample_reader ?cs) (el_cache ?e) = None"
    unfolding h by (simp add: load_region_cache_def)
  have c: "?cs = candidates sample_reader (nw_now ?nw) (el_cooldowns ?e) (el_regions (fetch_remote_regions ?nw ?e))"
    unfolding h fetched ..
  have "best_gateway sample_reader (nw_probe ?nw) ?cs (el_region (resolve_server_url sample_reader ?nw False False ?e))"
    using election_exact [OF h(1,2) not_False_eq_True [THEN iffD2, OF TrueI] w none c, unfolded if_P [OF ex]] by (rule conjunct1)
  moreover have "el_region (resolve_server_url sample_reader ?nw False False ?e) = ''eu''" by code_simp
  ultimately show ?thesis unfolding Let_def h by blast
qed

lemma election_ignores_map_order_witness:
  "same_but_order
     (resolve_server_url sample_reader (sample_network sample_regions) False False (sample_election sample_regions []))
     (resolve_server_url sample_reader (sample_network (rev sample_regions)) False False (sample_election (rev sample_regions) []))"
proof (rule election_ignores_map_order)
  show "same_but_order (sample_election sample_regions []) (sample_election (rev sample_regions) [])"
    by (simp add: same_but_order_def sample_election_def)
  show "same_answers sample_reader (sample_network sample_regions) (sample_network (rev sample_regions))"
    using sample_named by (simp add: same_answers_def sample_network_def)
qed (simp_all add: well_named_election_def sample_election_def sample_named)

end
