(* ===== verification/Client_Moves.thy ===== *)
theory Client_Moves
  imports Client_Facts
begin

text \<open>
  What ends a session and what moves a client: the answers to its heartbeat, the gain a move needs and the time between two,
  a pinned client, the failover and the gateways it holds out, the pauses and the retries of a client that stays.
\<close>

section \<open>The heartbeat\<close>

lemma same_gateway_host_refl [simp]: "same_gateway_host read_url a a \<longleftrightarrow> a \<noteq> []"
  by (simp add: same_gateway_host_def split: option.split prod.split)

lemma same_gateway_host_sym: "same_gateway_host read_url a b = same_gateway_host read_url b a"
  by (auto simp: same_gateway_host_def equal_fold_def split: option.split prod.split)

text \<open>The answer of the gateway that serves the session ends it: it refuses the session, or holds no lease for it.\<close>

definition ends_session :: "beat_answer option \<Rightarrow> bool" where
  "ends_session answer \<longleftrightarrow>
     (case answer of None \<Rightarrow> False | Some a \<Rightarrow> session_ending_code (ba_code a) \<or> (ba_code a = 200 \<and> ba_noLease a))"

lemma beat_one_server: "server \<noteq> [] \<Longrightarrow> fst (beat_one read_url server server answer en) = ends_session answer"
  by (simp add: beat_one_def ends_session_def Let_def split: option.split)

lemma beat_one_other: "\<not> same_gateway_host read_url url server \<Longrightarrow> url \<noteq> server \<Longrightarrow> \<not> fst (beat_one read_url server url answer en)"
  by (simp add: beat_one_def Let_def split: option.split)

text \<open>A session ends for its heartbeat exactly when the gateway that serves it answers 401, 404, 410 or 503, or answers that
  it holds no lease for the session. No answer of the control plane ends it, and neither does silence.
\<close>
theorem heartbeat_ends_session_exact:
  assumes "server \<noteq> []"
  shows "fst (heartbeat read_url server answers en) = ends_session (answers server)"
proof -
  let ?central = "en_centralURL en"
  obtain out en1 where first: "beat_one read_url server server (answers server) en = (out, en1)" by fastforce
  then have out: "out = ends_session (answers server)" using beat_one_server [OF assms, of read_url "answers server" en] by simp
  show ?thesis
  proof (cases "out \<or> ?central = [] \<or> same_gateway_host read_url server ?central")
    case True
    then show ?thesis using out by (auto simp: heartbeat_def status_report_targets_def first split: bool.split)
  next
    case False
    then have "?central \<noteq> server" using assms by auto
    then have no: "\<not> fst (beat_one read_url server ?central (answers ?central) en1)"
      using False same_gateway_host_sym beat_one_other [of read_url ?central server] by blast
    obtain en2 where "beat_one read_url server ?central (answers ?central) en1 = (False, en2)" using no by (metis (full_types) prod.collapse)
    then show ?thesis using False out by (simp add: heartbeat_def status_report_targets_def first)
  qed
qed

section \<open>A move for its gain\<close>

lemma rtt_for_host_SomeD:
  assumes w: "well_named read_url rs" and found: "rtt_for_host read_url (rtts_of read_url probe rs) rs host = Some r"
  shows "\<exists>n url. (n, url) \<in> set rs \<and> gateway_host_key read_url url = host \<and> probe_round_trip probe url = Some r"
proof -
  obtain n where f: "List.find (\<lambda>(region, rtt). gateway_host_key read_url (region_url rs region) = host) (rtts_of read_url probe rs) = Some (n, r)"
    using found by (auto simp: rtt_for_host_def split: if_splits)
  have "(n, r) \<in> set (rtts_of read_url probe rs)" "gateway_host_key read_url (region_url rs n) = host"
    using find_SomeD [OF f] by auto
  then obtain url where "(n, url) \<in> set rs" "probe_round_trip probe url = Some r" "gateway_host_key read_url (region_url rs n) = host"
    using rtts_of_in [OF w] by (auto simp: answering_def)
  moreover have "region_url rs n = url" using w region_url_in calculation(1) by (auto simp: well_named_def)
  ultimately show ?thesis by blast
qed

text \<open>A move is worth making: the best gateway answers at least 40 milliseconds and at least three tenths faster.\<close>

definition worth_moving :: "url_reader \<Rightarrow> probe \<Rightarrow> regions \<Rightarrow> string \<Rightarrow> string \<Rightarrow> bool" where
  "worth_moving read_url probe rs current url \<longleftrightarrow>
     (\<exists>n here r r'. (n, here) \<in> set rs \<and> gateway_host_key read_url here = gateway_host_key read_url current \<and>
        probe_round_trip probe here = Some r \<and> probe_round_trip probe url = Some r' \<and> 40 * 1000000 \<le> r - r' \<and> 3 * r \<le> 10 * (r - r'))"


lemma choose_by_probe:
  assumes w: "well_named read_url cs" and best: "fastest_region (rtts_of read_url probe cs) \<noteq> []"
    and host: "rtt_for_host read_url (rtts_of read_url probe cs) cs host = Some r"
    and gain: "materially_closer r (case get (rtts_of read_url probe cs) (fastest_region (rtts_of read_url probe cs)) of None \<Rightarrow> 0 | Some x \<Rightarrow> x)"
    and hosted: "host = gateway_host_key read_url current"
  shows "let n = fastest_region (rtts_of read_url probe cs)
         in (n, region_url cs n) \<in> set cs \<and> best_gateway read_url probe cs n \<and> worth_moving read_url probe cs current (region_url cs n)"
proof -
  let ?n = "fastest_region (rtts_of read_url probe cs)"
  have b: "best_gateway read_url probe cs ?n" using fastest_region_exact [OF w, of probe] best by (auto split: if_splits)
  then obtain r' where r': "answering read_url probe cs ?n r'" by (auto simp: best_gateway_def)
  then obtain url where url: "(?n, url) \<in> set cs" "probe_round_trip probe url = Some r'" by (auto simp: answering_def)
  have u: "region_url cs ?n = url" using w url(1) region_url_in by (auto simp: well_named_def)
  have "get (rtts_of read_url probe cs) ?n = Some r'" using rtts_of_get [OF w] r' by simp
  then have g: "40 * 1000000 \<le> r - r' \<and> 3 * r \<le> 10 * (r - r')"
    using gain by (simp add: materially_closer_def Let_def reelection_min_gain_def)
  obtain n here where "(n, here) \<in> set cs" "gateway_host_key read_url here = host" "probe_round_trip probe here = Some r"
    using rtt_for_host_SomeD [OF w host] by blast
  then have "worth_moving read_url probe cs current url" using url(2) g hosted unfolding worth_moving_def by blast
  then show ?thesis using b url(1) u by (simp add: Let_def)
qed

lemma reelection_target_exact:
  assumes "choose_reelection_target read_url la nw current cl = (Some t, cl1)"
    and "\<forall>rs us. nw_fetch nw current = Some (rs, us) \<longrightarrow> well_named read_url rs"
    and "cs = candidates read_url (nw_now nw) (el_cooldowns (cl_election cl)) (mt_regions t)"
  shows "\<not> move_throttled (nw_now nw) cl \<and> (\<exists>us. nw_fetch nw current = Some (mt_regions t, us)) \<and>
    (mt_region t, mt_url t) \<in> set cs \<and> gateway_host_key read_url (mt_url t) \<noteq> gateway_host_key read_url current \<and>
    (if la_requestedRegion la \<noteq> [] then mt_region t = la_requestedRegion la
     else best_gateway read_url (nw_probe nw) cs (mt_region t) \<and> worth_moving read_url (nw_probe nw) cs current (mt_url t))"
proof -
  have open_gate: "\<not> move_throttled (nw_now nw) cl" using assms(1) by (auto simp: choose_reelection_target_def)
  obtain roster us where fetched: "nw_fetch nw current = Some (roster, us)" "roster \<noteq> []"
    using assms(1) open_gate by (auto simp: choose_reelection_target_def split: option.splits if_splits)
  have w: "well_named read_url roster" using assms(2) fetched(1) by blast
  obtain out cools where filtered: "filter_cooling read_url (nw_now nw) roster (el_cooldowns (cl_election cl)) = (out, cools)" by fastforce
  then have out: "out = candidates read_url (nw_now nw) (el_cooldowns (cl_election cl)) roster"
    using filter_cooling_exact [OF w, of "nw_now nw" "el_cooldowns (cl_election cl)"] by simp
  have wo: "well_named read_url out" unfolding out by (rule well_named_candidates [OF w])
  then have t: "is_table out" by (simp add: well_named_def)
  note unfolded = assms(1) [unfolded choose_reelection_target_def Let_def fetched filtered]
  show ?thesis
  proof (cases "la_requestedRegion la = []")
    case False
    have "fst (case get out (la_requestedRegion la) of
          None \<Rightarrow> None
        | Some url \<Rightarrow> if url = [] \<or> gateway_host_key read_url url = gateway_host_key read_url current then None
            else Some \<lparr>mt_region = la_requestedRegion la, mt_url = url, mt_regions = roster\<rparr>, cl1) = Some t"
      using unfolded open_gate fetched(2) False by (simp add: filtered)
    then obtain url where "get out (la_requestedRegion la) = Some url" "gateway_host_key read_url url \<noteq> gateway_host_key read_url current"
      "t = \<lparr>mt_region = la_requestedRegion la, mt_url = url, mt_regions = roster\<rparr>"
      by (auto split: option.splits if_splits)
    then show ?thesis using open_gate fetched(1) False out assms(3) get_SomeD [of out "la_requestedRegion la"] by simp
  next
    case True
    let ?rtts = "rtts_of read_url (nw_probe nw) out"
    obtain unreachable where lat: "probe_region_latencies read_url (nw_probe nw) out = (?rtts, unreachable)"
      unfolding rtts_of_def by (metis prod.collapse)
    obtain r where target: "fastest_region ?rtts \<noteq> []"
      "rtt_for_host read_url ?rtts out (gateway_host_key read_url current) = Some r"
      "materially_closer r (case get ?rtts (fastest_region ?rtts) of None \<Rightarrow> 0 | Some x \<Rightarrow> x)"
      "gateway_host_key read_url (region_url out (fastest_region ?rtts)) \<noteq> gateway_host_key read_url current"
      "t = \<lparr>mt_region = fastest_region ?rtts, mt_url = region_url out (fastest_region ?rtts), mt_regions = roster\<rparr>"
      using unfolded open_gate fetched(2) True
      by (auto simp: filtered lat split: option.splits if_splits)
    moreover from choose_by_probe [OF wo target(1-3) refl]
    have "(fastest_region ?rtts, region_url out (fastest_region ?rtts)) \<in> set out"
      "best_gateway read_url (nw_probe nw) out (fastest_region ?rtts)"
      "worth_moving read_url (nw_probe nw) out current (region_url out (fastest_region ?rtts))"
      by (simp_all only: Let_def)
    ultimately show ?thesis using open_gate fetched True out assms(3) by simp
  qed
qed

lemma target_in_candidates:
  assumes "choose_reelection_target read_url la nw current cl = (Some t, cl1)"
    and "\<forall>rs us. nw_fetch nw current = Some (rs, us) \<longrightarrow> well_named read_url rs"
    and "cs = candidates read_url (nw_now nw) (el_cooldowns (cl_election cl)) (mt_regions t)"
  shows "(mt_region t, mt_url t) \<in> set cs"
  using reelection_target_exact [OF assms] by blast

text \<open>C34: What the watcher of the node set proposes. A move is proposed only ten minutes after the last one, to a gateway the
  current one advertises now, on another host, not held out unless all are. With a region requested at the start it goes to
  that region and nowhere else; otherwise it goes to the best gateway, and only when that one answers at least 40
  milliseconds and at least three tenths faster than the gateway the client is on.
\<close>
theorem moves_only_for_gain:
  assumes "choose_reelection_target read_url la nw current cl = (Some t, cl1)"
    and "\<forall>rs us. nw_fetch nw current = Some (rs, us) \<longrightarrow> well_named read_url rs"
    and "cs = candidates read_url (nw_now nw) (el_cooldowns (cl_election cl)) (mt_regions t)"
  shows "\<not> move_throttled (nw_now nw) cl \<and> (\<exists>us. nw_fetch nw current = Some (mt_regions t, us)) \<and>
    (mt_region t, mt_url t) \<in> set cs \<and> gateway_host_key read_url (mt_url t) \<noteq> gateway_host_key read_url current \<and>
    (if la_requestedRegion la \<noteq> [] then mt_region t = la_requestedRegion la
     else best_gateway read_url (nw_probe nw) cs (mt_region t) \<and> worth_moving read_url (nw_probe nw) cs current (mt_url t))"
  by (rule reelection_target_exact [OF assms])

section \<open>The time between moves\<close>

lemma choose_keeps_last_move: "cl_lastMoveAt (snd (choose_reelection_target read_url la nw current cl)) = cl_lastMoveAt cl"
  by (simp add: choose_reelection_target_def Let_def split: option.split prod.split)

lemma choose_needs_open_gate: "fst (choose_reelection_target read_url la nw current cl) = Some t \<Longrightarrow> \<not> move_throttled (nw_now nw) cl"
  by (auto simp: choose_reelection_target_def)

lemma node_set_tick_last_move:
  "cl_lastMoveAt (snd (node_set_tick read_url la nw current cl)) =
     (if fst (node_set_tick read_url la nw current cl) then Some (nw_now nw) else cl_lastMoveAt cl)"
  using choose_keeps_last_move [of read_url la nw current "cl\<lparr>cl_engine := (cl_engine cl)\<lparr>en_nodeSetChanged := False\<rparr>\<rparr>"]
  by (auto simp: node_set_tick_def split: option.split prod.split)

lemma node_set_tick_gate:
  assumes "fst (node_set_tick read_url la nw current cl)" "cl_lastMoveAt cl = Some at"
  shows "reelection_min_interval \<le> nw_now nw - at"
proof -
  obtain t where "fst (choose_reelection_target read_url la nw current (cl\<lparr>cl_engine := (cl_engine cl)\<lparr>en_nodeSetChanged := False\<rparr>\<rparr>)) = Some t"
    using assms(1) by (auto simp: node_set_tick_def split: option.splits prod.splits if_splits)
  from choose_needs_open_gate [OF this] show ?thesis using assms(2) by (simp add: move_throttled_def)
qed


fun client_of :: "loop_outcome \<Rightarrow> client" where
  "client_of (Serving cl) = cl"
| "client_of (Stopped r cl) = cl"

named_theorems client_parts

lemma with_parts [client_parts]:
  "cl_lastMoveAt (with_election g cl) = cl_lastMoveAt cl" "cl_pendingMove (with_election g cl) = cl_pendingMove cl"
  "cl_election (with_election g cl) = g (cl_election cl)" "cl_engine (with_election g cl) = cl_engine cl"
  "cl_primaryServerURL (with_election g cl) = cl_primaryServerURL cl" "cl_primaryRegion (with_election g cl) = cl_primaryRegion cl"
  "cl_lastMoveAt (with_engine k cl) = cl_lastMoveAt cl" "cl_pendingMove (with_engine k cl) = cl_pendingMove cl"
  "cl_election (with_engine k cl) = cl_election cl" "cl_engine (with_engine k cl) = k (cl_engine cl)"
  "cl_primaryServerURL (with_engine k cl) = cl_primaryServerURL cl" "cl_primaryRegion (with_engine k cl) = cl_primaryRegion cl"
  by (simp_all add: with_election_def with_engine_def)

lemma exclude_parts [client_parts]:
  "cl_lastMoveAt (exclude read_url now url d cl) = cl_lastMoveAt cl" "cl_pendingMove (exclude read_url now url d cl) = cl_pendingMove cl"
  "cl_engine (exclude read_url now url d cl) = cl_engine cl"
  "cl_primaryServerURL (exclude read_url now url d cl) = cl_primaryServerURL cl"
  "cl_primaryRegion (exclude read_url now url d cl) = cl_primaryRegion cl"
  "cl_lastMoveAt (go_to region url cl) = cl_lastMoveAt cl" "cl_pendingMove (go_to region url cl) = cl_pendingMove cl"
  "cl_lastMoveAt (clear_region_cache_file works cl) = cl_lastMoveAt cl"
  "cl_pendingMove (clear_region_cache_file works cl) = cl_pendingMove cl"
  "cl_lastMoveAt (apply_session read_url cl) = cl_lastMoveAt cl" "cl_pendingMove (apply_session read_url cl) = cl_pendingMove cl"
  "cl_lastMoveAt (note_unstable_failback read_url now cl) = cl_lastMoveAt cl"
  "cl_pendingMove (note_unstable_failback read_url now cl) = cl_pendingMove cl"
  "cl_lastMoveAt (exclude_failed_region read_url now url keep planned cl) = cl_lastMoveAt cl"
  "cl_pendingMove (exclude_failed_region read_url now url keep planned cl) = cl_pendingMove cl"
  by (simp_all add: exclude_def go_to_def clear_region_cache_file_def apply_session_def note_unstable_failback_def
      exclude_failed_region_def Let_def client_parts split: option.split)

lemma serve_parts [client_parts]:
  "cl_lastMoveAt (client_of (serve read_url cl)) = cl_lastMoveAt cl" "cl_pendingMove (client_of (serve read_url cl)) = cl_pendingMove cl"
  by (simp_all add: serve_def client_parts)

lemma reconnect_parts [client_parts]:
  "cl_lastMoveAt (client_of (reconnect_in_place read_url la se cl)) = cl_lastMoveAt cl"
  "cl_pendingMove (client_of (reconnect_in_place read_url la se cl)) = cl_pendingMove cl"
  by (simp_all add: reconnect_in_place_def client_parts Let_def)

lemma fail_over_parts [client_parts]:
  "cl_lastMoveAt (client_of (fail_over read_url la se keep planned cl)) = cl_lastMoveAt cl"
  "cl_pendingMove (client_of (fail_over read_url la se keep planned cl)) = cl_pendingMove cl"
  by (simp_all add: fail_over_def client_parts Let_def split: prod.split reregistered.split)

lemma after_move_parts [client_parts]:
  "cl_lastMoveAt (client_of (after_move read_url la se keep planned cl)) = cl_lastMoveAt cl"
  "cl_pendingMove (client_of (after_move read_url la se keep planned cl)) = cl_pendingMove cl"
  by (simp_all add: after_move_def client_parts)

lemma try_move_parts:
  "case try_move read_url la se t cl of
     Inl out \<Rightarrow> cl_lastMoveAt (client_of out) = cl_lastMoveAt cl \<and> cl_pendingMove (client_of out) = cl_pendingMove cl
   | Inr cl1 \<Rightarrow> cl_lastMoveAt cl1 = cl_lastMoveAt cl \<and> cl_pendingMove cl1 = cl_pendingMove cl"
  by (simp add: try_move_def client_parts Let_def)

lemma try_failback_parts:
  "case try_failback read_url la se cl of
     Inl out \<Rightarrow> cl_lastMoveAt (client_of out) = cl_lastMoveAt cl \<and> cl_pendingMove (client_of out) = cl_pendingMove cl
   | Inr cl1 \<Rightarrow> cl_lastMoveAt cl1 = cl_lastMoveAt cl \<and> cl_pendingMove cl1 = cl_pendingMove cl"
  by (simp add: try_failback_def client_parts Let_def)

lemma take_pending_parts:
  "cl_lastMoveAt (client_of (take_pending read_url la se lost planned returned cl)) = cl_lastMoveAt cl \<and>
   cl_pendingMove (client_of (take_pending read_url la se lost planned returned cl)) = None"
proof (cases "cl_pendingMove cl")
  case (Some t)
  then show ?thesis using try_move_parts [where cl = "cl\<lparr>cl_pendingMove := None\<rparr>" and t = t and read_url = read_url and la = la and se = se]
    by (cases "try_move read_url la se t (cl\<lparr>cl_pendingMove := None\<rparr>)") (simp_all add: take_pending_def client_parts)
qed (simp add: take_pending_def client_parts)

lemma session_over_last_move: "cl_lastMoveAt (client_of (session_over read_url la se cl)) = cl_lastMoveAt cl"
proof (cases "la_pinned la")
  case False
  let ?cl = "note_unstable_failback read_url (se_now se)
     (with_engine (\<lambda>en. en\<lparr>en_leaseLost := False, en_migrateOnShutdownAt := 0, en_isFailback := False\<rparr>) cl)"
  show ?thesis using False try_failback_parts [where cl = ?cl and read_url = read_url and la = la and se = se]
    by (cases "try_failback read_url la se ?cl") (simp_all add: session_over_def Let_def client_parts take_pending_parts)
qed (simp add: session_over_def client_parts)

lemma failback_tick_last_move: "cl_lastMoveAt (snd (failback_tick read_url now probe cl)) = cl_lastMoveAt cl"
  by (simp add: failback_tick_def)

lemma client_step_last_move:
  "client_step read_url la ev cl = Serving cl1 \<Longrightarrow>
   cl_lastMoveAt cl1 = cl_lastMoveAt cl \<or> (\<exists>nw current. ev = Node_set_tick nw current \<and> cl_lastMoveAt cl1 = Some (nw_now nw))"
  using node_set_tick_last_move session_over_last_move failback_tick_last_move
  by (cases ev) (auto simp: client_step_def client_parts, metis client_of.simps(1))

lemma client_run_last_move:
  "client_run read_url la evs cl = Serving cl1 \<Longrightarrow>
   cl_lastMoveAt cl1 = cl_lastMoveAt cl \<or> (\<exists>nw current. Node_set_tick nw current \<in> set evs \<and> cl_lastMoveAt cl1 = Some (nw_now nw))"
proof (induction evs arbitrary: cl)
  case (Cons ev evs)
  then obtain cl2 where "client_step read_url la ev cl = Serving cl2" "client_run read_url la evs cl2 = Serving cl1"
    by (auto split: loop_outcome.splits)
  then show ?case using Cons.IH [of cl2] client_step_last_move [of read_url la ev cl cl2]
    by (metis list.set_intros(1) list.set_intros(2))
qed simp

text \<open>Two moves the client decides on its own are at least ten minutes apart, whatever happens between them: heartbeats,
  failbacks, failovers, sessions that end, other proposals. Only the order of the clock is assumed.
\<close>
theorem moves_are_spaced:
  assumes "fst (node_set_tick read_url la nw current cl)"
    and "client_run read_url la evs (snd (node_set_tick read_url la nw current cl)) = Serving cl1"
    and "\<And>nw' current'. Node_set_tick nw' current' \<in> set evs \<Longrightarrow> nw_now nw \<le> nw_now nw'"
    and "fst (node_set_tick read_url la nw1 current1 cl1)"
  shows "10 * 60 * 1000000000 \<le> nw_now nw1 - nw_now nw"
proof -
  have "cl_lastMoveAt (snd (node_set_tick read_url la nw current cl)) = Some (nw_now nw)"
    using node_set_tick_last_move [of read_url la nw current cl] assms(1) by simp
  then obtain at where at: "cl_lastMoveAt cl1 = Some at" "nw_now nw \<le> at"
    using client_run_last_move [OF assms(2)] assms(3) by auto
  from node_set_tick_gate [OF assms(4) at(1)] at(2) show ?thesis
    by (simp add: reelection_min_interval_def minute_def second_def)
qed


section \<open>A pinned client\<close>

lemma failback_tick_election: "cl_election (snd (failback_tick read_url now probe cl)) = cl_election cl"
  by (simp add: failback_tick_def)

lemma pinned_step:
  assumes "la_pinned la"
  shows "el_region (cl_election (client_of (client_step read_url la ev cl))) = el_region (cl_election cl) \<and>
    el_serverURL (cl_election (client_of (client_step read_url la ev cl))) = el_serverURL (cl_election cl)"
  using assms
  by (cases ev)
     (simp_all add: client_step_def client_parts failback_tick_election node_set_tick_def session_over_def reconnect_in_place_def
        serve_def apply_session_def Let_def)

text \<open>C33: A client started with a gateway of the user's choice stays on it: through heartbeats, announced shutdowns, node sets
  that change, failback probes and any number of sessions that end, the gateway it registers with is the one it was started
  with, until it stops.
\<close>
theorem pinned_client_never_moves:
  assumes "la_pinned la"
  shows "el_region (cl_election (client_of (client_run read_url la evs cl))) = el_region (cl_election cl) \<and>
    el_serverURL (cl_election (client_of (client_run read_url la evs cl))) = el_serverURL (cl_election cl)"
proof (induction evs arbitrary: cl)
  case (Cons ev evs)
  show ?case
    using pinned_step [OF assms, of read_url ev cl] Cons.IH by (cases "client_step read_url la ev cl") simp_all
qed simp

section \<open>A failover\<close>

text \<open>One attempt: where it goes, and what it leaves to the next.\<close>

definition attempt :: "url_reader \<Rightarrow> launch \<Rightarrow> world \<Rightarrow> election \<Rightarrow> election" where
  "attempt read_url la w e = resolve_server_url read_url (network.truncate w) (la_refresh la) False (e\<lparr>el_region := []\<rparr>)"

lemma reregister_loop_Suc:
  "reregister_loop read_url la ws (Suc left) k e =
     (let e1 = attempt read_url la (ws k) e
      in if el_serverURL e1 = [] then (Exhausted, e1)
         else (let e2 = e1\<lparr>el_source := By_failover\<rparr>
               in case attempt_registration (la_token la) (nw_register (ws k) (el_serverURL e2)) of
                    Registered \<Rightarrow> (Reregistered, e2)
                  | Failed_terminally \<Rightarrow> (Refused_for_good, e2)
                  | Failed_for_now \<Rightarrow>
                      reregister_loop read_url la ws left (Suc k)
                        (e2\<lparr>el_cooldowns := exclude_gateway read_url (nw_now (ws k)) (el_serverURL e2) failover_cooldown (el_cooldowns e2)\<rparr>)))"
  by (simp only: reregister_loop.simps attempt_def)

definition refused_for_good :: "launch \<Rightarrow> register_answer \<Rightarrow> bool" where
  "refused_for_good la answer \<longleftrightarrow>
     la_token la = [] \<or> (\<exists>msg. answer = Turned_down 403 msg) \<or> answer = Turned_down 401 gateway_token_refusal"

lemma attempt_registration_cases:
  "attempt_registration (la_token la) answer = Registered \<longleftrightarrow> la_token la \<noteq> [] \<and> answer = Accepted"
  "attempt_registration (la_token la) answer = Failed_terminally \<longleftrightarrow> refused_for_good la answer"
  by (auto simp: attempt_registration_def refused_for_good_def split: register_answer.split)

lemma reregister_loop_outcome:
  "reregister_loop read_url la ws left k e = (r, e1) \<Longrightarrow>
   (case r of
      Reregistered \<Rightarrow> \<exists>j\<ge>k. j < k + left \<and> la_token la \<noteq> [] \<and> nw_register (ws j) (el_serverURL e1) = Accepted
    | Refused_for_good \<Rightarrow> \<exists>j\<ge>k. j < k + left \<and> refused_for_good la (nw_register (ws j) (el_serverURL e1))
    | Exhausted \<Rightarrow> el_serverURL e1 = [] \<or> (\<forall>j\<ge>k. j < k + left \<longrightarrow> (\<exists>url. attempt_registration (la_token la) (nw_register (ws j) url) = Failed_for_now)))"
proof (induction left arbitrary: k e)
  case (Suc left)
  let ?e1 = "attempt read_url la (ws k) e"
  let ?a = "attempt_registration (la_token la) (nw_register (ws k) (el_serverURL ?e1))"
  note prem = Suc.prems [unfolded reregister_loop_Suc Let_def]
  consider (nowhere) "el_serverURL ?e1 = []" | (registered) "el_serverURL ?e1 \<noteq> []" "?a = Registered"
    | (refused) "el_serverURL ?e1 \<noteq> []" "?a = Failed_terminally" | (failed) "el_serverURL ?e1 \<noteq> []" "?a = Failed_for_now"
    by (cases ?a) auto
  then show ?case
  proof cases
    case nowhere
    then show ?thesis using prem by auto
  next
    case registered
    then have "r = Reregistered" "el_serverURL e1 = el_serverURL ?e1" using prem by auto
    then show ?thesis using registered by (auto simp: attempt_registration_cases)
  next
    case refused
    then have "r = Refused_for_good" "el_serverURL e1 = el_serverURL ?e1" using prem by auto
    then show ?thesis using refused by (auto simp: attempt_registration_cases)
  next
    case failed
    then have "reregister_loop read_url la ws left (Suc k)
        (?e1\<lparr>el_source := By_failover,
             el_cooldowns := exclude_gateway read_url (nw_now (ws k)) (el_serverURL ?e1) failover_cooldown (el_cooldowns ?e1)\<rparr>) = (r, e1)"
      using prem by simp
    note later = Suc.IH [OF this]
    show ?thesis
    proof (cases r)
      case Reregistered
      then obtain j where "Suc k \<le> j" "j < Suc k + left" "la_token la \<noteq> []" "nw_register (ws j) (el_serverURL e1) = Accepted"
        using later by auto
      then show ?thesis using Reregistered by (simp add: exI [of _ j])
    next
      case Refused_for_good
      then obtain j where "Suc k \<le> j" "j < Suc k + left" "refused_for_good la (nw_register (ws j) (el_serverURL e1))"
        using later by auto
      then show ?thesis using Refused_for_good by (simp add: exI [of _ j])
    next
      case Exhausted
      have "j = k \<or> Suc k \<le> j" if "k \<le> j" for j using that by linarith
      then show ?thesis using later failed(2) Exhausted by (auto dest: spec)
    qed
  qed
qed simp

text \<open>A failover is bounded and ends as its last answer says. It makes four attempts at most, each at the gateway an
  election gives it. It succeeds only with an accepted registration at the gateway the client is then on; it stops for
  good only when such a gateway refuses the client itself; and it gives up only after four failures or without a gateway to ask.
\<close>
theorem failover_outcome:
  assumes "reregister_across_regions read_url la ws e = (r, e1)"
  shows "case r of
      Reregistered \<Rightarrow> \<exists>j<4. la_token la \<noteq> [] \<and> nw_register (ws j) (el_serverURL e1) = Accepted
    | Refused_for_good \<Rightarrow> \<exists>j<4. refused_for_good la (nw_register (ws j) (el_serverURL e1))
    | Exhausted \<Rightarrow> el_serverURL e1 = [] \<or> (\<forall>j<4. \<exists>url. attempt_registration (la_token la) (nw_register (ws j) url) = Failed_for_now)"
  using reregister_loop_outcome [of read_url la ws max_failover_attempts 0 e r e1] assms
  by (cases r) (simp_all add: reregister_across_regions_def max_failover_attempts_def)


section \<open>A gateway held out\<close>

lemma cached_choice_in: "cached_choice read_url nw refresh e = Some (n, url) \<Longrightarrow> (n, url) \<in> set (el_regions e)"
  by (auto simp: cached_choice_def get_SomeD split: option.splits if_splits)

lemma elect_in:
  assumes "well_named read_url (el_regions e)"
  shows "el_serverURL (elect read_url nw e) = el_serverURL e \<or> (\<exists>n. (n, el_serverURL (elect read_url nw e)) \<in> set (el_regions e))"
proof (cases "\<exists>n r. answering read_url (nw_probe nw) (el_regions e) n r")
  case True
  then obtain n where b: "best_gateway read_url (nw_probe nw) (el_regions e) n"
    using fastest_region_exact [OF assms, of "nw_probe nw"] by auto
  then obtain url where "(n, url) \<in> set (el_regions e)" using best_gateway_in by blast
  then have "(n, region_url (el_regions e) n) \<in> set (el_regions e)" using assms by (simp add: region_url_in well_named_def)
  then show ?thesis using elect_exact(2) [OF assms b] by auto
qed (simp add: elect_exact(1) [OF assms])

text \<open>An election gives one of the candidates, or leaves the client where it was.\<close>

lemma resolve_in_candidates:
  assumes "el_region e = []" "well_named read_url (el_regions (fetch_remote_regions nw e))"
    and "cs = candidates read_url (nw_now nw) (el_cooldowns e) (el_regions (fetch_remote_regions nw e))"
  shows "el_serverURL (resolve_server_url read_url nw refresh explicit e) = el_serverURL e \<or>
    (\<exists>n. (n, el_serverURL (resolve_server_url read_url nw refresh explicit e)) \<in> set cs)"
proof -
  let ?e = "refreshed read_url nw (if refresh \<and> nw_fileWorks nw then e\<lparr>el_cache := None\<rparr> else e)"
  have regions: "el_regions ?e = cs"
    using refreshed_regions [of read_url nw e] refreshed_regions [of read_url nw "e\<lparr>el_cache := None\<rparr>"] assms(2,3) by simp
  have w: "well_named read_url (el_regions ?e)" unfolding regions assms(3) by (rule well_named_candidates [OF assms(2)])
  have kept: "el_region ?e = []" "el_serverURL ?e = el_serverURL e" using assms(1) by simp_all
  show ?thesis
  proof (cases "cached_choice read_url nw refresh ?e")
    case None
    then show ?thesis using elect_in [OF w, of nw] kept
      unfolding resolve_server_url_eq resolve_from_def regions by simp
  next
    case (Some choice)
    then have "(fst choice, snd choice) \<in> set cs" using cached_choice_in [of read_url nw refresh ?e "fst choice" "snd choice"] regions by simp
    then show ?thesis using Some kept unfolding resolve_server_url_eq resolve_from_def regions
      by (auto split: prod.splits)
  qed
qed

lemma candidates_fresh: "\<exists>entry\<in>set rs. fresh read_url now c entry \<Longrightarrow> entry \<in> set (candidates read_url now c rs) \<Longrightarrow> fresh read_url now c entry"
  by (auto simp: candidates_def Let_def filter_empty_conv split: if_splits)

lemma cooling_down_host:
  "gateway_host_key read_url a = gateway_host_key read_url b \<Longrightarrow> cooling_down read_url now a c = cooling_down read_url now b c"
  by (simp add: cooling_down_def)

lemma candidate_not_held:
  assumes "(n, url) \<in> set (candidates read_url now c rs)" "\<exists>other\<in>set rs. fresh read_url now c other" "cooling_down read_url now failed c"
  shows "gateway_host_key read_url url \<noteq> gateway_host_key read_url failed"
proof
  assume "gateway_host_key read_url url = gateway_host_key read_url failed"
  moreover have "\<not> cooling_down read_url now url c" using candidates_fresh [OF assms(2,1)] by (simp add: fresh_def)
  ultimately show False using assms(3) cooling_down_host by blast
qed

lemma held_out_not_elected:
  assumes "el_region e = []" "well_named read_url (el_regions (fetch_remote_regions nw e))"
    and "\<exists>entry\<in>set (el_regions (fetch_remote_regions nw e)). fresh read_url (nw_now nw) (el_cooldowns e) entry"
    and "cooling_down read_url (nw_now nw) failed (el_cooldowns e)"
    and "gateway_host_key read_url (el_serverURL e) \<noteq> gateway_host_key read_url failed"
  shows "gateway_host_key read_url (el_serverURL (resolve_server_url read_url nw refresh explicit e)) \<noteq> gateway_host_key read_url failed"
proof
  assume eq: "gateway_host_key read_url (el_serverURL (resolve_server_url read_url nw refresh explicit e)) = gateway_host_key read_url failed"
  let ?url = "el_serverURL (resolve_server_url read_url nw refresh explicit e)"
  have "\<not> (\<exists>n. (n, ?url) \<in> set (candidates read_url (nw_now nw) (el_cooldowns e) (el_regions (fetch_remote_regions nw e))))"
    using candidate_not_held [OF _ assms(3,4)] eq by blast
  then have "?url = el_serverURL e" using resolve_in_candidates [OF assms(1,2) refl, of refresh explicit] by blast
  then show False using assms(5) eq by simp
qed

lemma exclude_gateway_get:
  "get (exclude_gateway read_url now url d c) h =
     (if h = gateway_host_key read_url url \<and> h \<noteq> [] then Some (now + d) else get c h)"
  by (auto simp: exclude_gateway_def get_put Let_def)

lemma exclude_failed_region_cooldown:
  "gateway_host_key read_url failed \<noteq> [] \<Longrightarrow>
   get (el_cooldowns (cl_election (exclude_failed_region read_url now failed False planned cl))) (gateway_host_key read_url failed) =
     Some (now + (if planned then hour else 90 * second))"
  by (simp add: exclude_failed_region_def exclude_def client_parts exclude_gateway_get Let_def planned_shutdown_cooldown_def
      failover_cooldown_def)

text \<open>A gateway that announced its shutdown is left alone for an hour. While the client keeps that entry, its prober does
  not go back there, the watcher proposes no move there, and an election does not choose it, as long as the gateways
  advertised include one that is not held out; a client that is elsewhere is not brought back by an election that finds
  no gateway at all.
\<close>
theorem planned_shutdown_is_left:
  assumes h: "gateway_host_key read_url failed \<noteq> []"
    and entry: "get (el_cooldowns (cl_election cl1)) (gateway_host_key read_url failed) =
      get (el_cooldowns (cl_election (exclude_failed_region read_url now failed False True cl))) (gateway_host_key read_url failed)"
    and time: "nw_now nw < now + 3600 * 1000000000"
  shows "(gateway_host_key read_url (cl_primaryServerURL cl1) = gateway_host_key read_url failed \<longrightarrow>
        failback_tick read_url (nw_now nw) probe cl1 = (False, cl1)) \<and>
      (choose_reelection_target read_url la nw current cl1 = (Some t, cl2) \<and>
        (\<forall>rs us. nw_fetch nw current = Some (rs, us) \<longrightarrow> well_named read_url rs) \<and>
        (\<exists>other\<in>set (mt_regions t). fresh read_url (nw_now nw) (el_cooldowns (cl_election cl1)) other) \<longrightarrow>
        gateway_host_key read_url (mt_url t) \<noteq> gateway_host_key read_url failed) \<and>
      (el_region (cl_election cl1) = [] \<and>
        well_named read_url (el_regions (fetch_remote_regions nw (cl_election cl1))) \<and>
        (\<exists>other\<in>set (el_regions (fetch_remote_regions nw (cl_election cl1))).
           fresh read_url (nw_now nw) (el_cooldowns (cl_election cl1)) other) \<and>
        gateway_host_key read_url (el_serverURL (cl_election cl1)) \<noteq> gateway_host_key read_url failed \<longrightarrow>
        gateway_host_key read_url (el_serverURL (resolve_server_url read_url nw refresh explicit (cl_election cl1))) \<noteq>
          gateway_host_key read_url failed)"
proof -
  have "get (el_cooldowns (cl_election cl1)) (gateway_host_key read_url failed) = Some (now + hour)"
    using entry exclude_failed_region_cooldown [OF h, of now True cl] by simp
  then have cool: "cooling_down read_url (nw_now nw) failed (el_cooldowns (cl_election cl1))"
    using h time by (simp add: cooling_down_def Let_def hour_def minute_def second_def)
  have "failback_tick read_url (nw_now nw) probe cl1 = (False, cl1)"
    if "gateway_host_key read_url (cl_primaryServerURL cl1) = gateway_host_key read_url failed"
    using cool cooling_down_host [OF that] by (simp add: failback_tick_def)
  moreover have "gateway_host_key read_url (mt_url t) \<noteq> gateway_host_key read_url failed"
    if "choose_reelection_target read_url la nw current cl1 = (Some t, cl2)"
      "\<forall>rs us. nw_fetch nw current = Some (rs, us) \<longrightarrow> well_named read_url rs"
      "\<exists>other\<in>set (mt_regions t). fresh read_url (nw_now nw) (el_cooldowns (cl_election cl1)) other"
    using candidate_not_held [OF target_in_candidates [OF that(1,2) refl] that(3) cool] .
  moreover have "gateway_host_key read_url (el_serverURL (resolve_server_url read_url nw refresh explicit (cl_election cl1))) \<noteq>
      gateway_host_key read_url failed"
    if "el_region (cl_election cl1) = []" "well_named read_url (el_regions (fetch_remote_regions nw (cl_election cl1)))"
      "\<exists>other\<in>set (el_regions (fetch_remote_regions nw (cl_election cl1))).
         fresh read_url (nw_now nw) (el_cooldowns (cl_election cl1)) other"
      "gateway_host_key read_url (el_serverURL (cl_election cl1)) \<noteq> gateway_host_key read_url failed"
    by (rule held_out_not_elected [OF that(1-3) cool that(4)])
  ultimately show ?thesis by blast
qed


section \<open>Moves that come late, and failures that stay\<close>

lemma serve_election:
  "serve read_url cl = Serving cl1 \<Longrightarrow>
   cl_election cl1 = (cl_election cl)\<lparr>el_cooldowns := clear_cooldown read_url (el_serverURL (cl_election cl)) (el_cooldowns (cl_election cl))\<rparr> \<and>
   cl_primaryServerURL cl1 = cl_primaryServerURL cl \<and> cl_pendingMove cl1 = cl_pendingMove cl"
  by (auto simp: serve_def apply_session_def Let_def client_parts)

lemma clear_cooldown_get:
  "get (clear_cooldown read_url url c) h = (if h = gateway_host_key read_url url \<and> h \<noteq> [] then None else get c h)"
  by (auto simp: clear_cooldown_def get_del Let_def)

lemma election_of_exclude:
  "cl_election (exclude read_url now url d cl) = (cl_election cl)\<lparr>el_cooldowns := exclude_gateway read_url now url d (el_cooldowns (cl_election cl))\<rparr>"
  by (simp add: exclude_def client_parts)

lemma clear_file_election:
  "el_serverURL (cl_election (clear_region_cache_file works cl)) = el_serverURL (cl_election cl)"
  "el_cooldowns (cl_election (clear_region_cache_file works cl)) = el_cooldowns (cl_election cl)"
  "cl_primaryServerURL (clear_region_cache_file works cl) = cl_primaryServerURL cl"
  by (simp_all add: clear_region_cache_file_def client_parts)

lemma try_move_accepted:
  assumes "la_token la \<noteq> []" "se_move se = Accepted"
  shows "\<exists>cl1. try_move read_url la se t cl = Inl (Serving cl1) \<and>
    el_serverURL (cl_election cl1) = mt_url t \<and> cl_primaryServerURL cl1 = mt_url t \<and> cl_pendingMove cl1 = cl_pendingMove cl \<and>
    (\<forall>h. get (el_cooldowns (cl_election cl1)) h =
        (if h = gateway_host_key read_url (mt_url t) \<and> h \<noteq> [] then None
         else if h = gateway_host_key read_url (el_serverURL (cl_election cl)) \<and> h \<noteq> [] then Some (se_now se + failover_cooldown)
         else get (el_cooldowns (cl_election cl)) h))"
proof -
  let ?moved = "with_election (\<lambda>e. e\<lparr>el_region := mt_region t, el_serverURL := mt_url t,
      el_regions := (if mt_regions t = [] then el_regions (cl_election cl) else mt_regions t),
      el_source := (if la_requestedRegion la \<noteq> [] \<and> mt_region t = la_requestedRegion la then By_failback else el_source (cl_election cl))\<rparr>) cl"
  let ?to = "clear_region_cache_file (se_fileWorks se) ((exclude read_url (se_now se) (el_serverURL (cl_election cl)) failover_cooldown ?moved)
      \<lparr>cl_primaryRegion := mt_region t, cl_primaryServerURL := mt_url t, cl_primaryRegions := el_regions (cl_election ?moved)\<rparr>)"
  obtain cl1 where serving: "serve read_url ?to = Serving cl1" by (simp add: serve_def)
  have "try_move read_url la se t cl = Inl (Serving cl1)"
    using assms serving by (simp add: try_move_def attempt_registration_cases Let_def with_election_def)
  moreover have "el_serverURL (cl_election cl1) = mt_url t" "cl_primaryServerURL cl1 = mt_url t" "cl_pendingMove cl1 = cl_pendingMove cl"
    and cools: "el_cooldowns (cl_election cl1) = clear_cooldown read_url (mt_url t)
      (exclude_gateway read_url (se_now se) (el_serverURL (cl_election cl)) failover_cooldown (el_cooldowns (cl_election cl)))"
    using serve_election [OF serving] by (simp_all add: clear_file_election election_of_exclude client_parts)
  moreover have "\<forall>h. get (el_cooldowns (cl_election cl1)) h =
        (if h = gateway_host_key read_url (mt_url t) \<and> h \<noteq> [] then None
         else if h = gateway_host_key read_url (el_serverURL (cl_election cl)) \<and> h \<noteq> [] then Some (se_now se + failover_cooldown)
         else get (el_cooldowns (cl_election cl)) h)"
    by (intro allI) (simp only: cools clear_cooldown_get exclude_gateway_get)
  ultimately show ?thesis by blast
qed

lemma note_unstable_election:
  "el_serverURL (cl_election (note_unstable_failback read_url now cl)) = el_serverURL (cl_election cl)"
  "el_regions (cl_election (note_unstable_failback read_url now cl)) = el_regions (cl_election cl)"
  by (simp_all add: note_unstable_failback_def exclude_def client_parts split: option.split)

text \<open>A proposed move is taken at the next end of a session, whatever ended it and however long after: nothing takes a
  proposal back. A watcher that decides after its session has ended leaves it for a session it knows nothing of, and
  when that one ends, if only because its lease was lost, the client goes where the watcher said and holds out the gateway
  that was serving it.
\<close>
theorem pending_move_is_taken:
  assumes "cl_pendingMove cl = Some t" "\<not> la_pinned la" "\<not> en_isFailback (cl_engine cl)"
    and "la_token la \<noteq> []" "se_move se = Accepted"
  shows "\<exists>cl1. session_over read_url la se cl = Serving cl1 \<and> el_serverURL (cl_election cl1) = mt_url t \<and>
    cl_primaryServerURL cl1 = mt_url t \<and> cl_pendingMove cl1 = None \<and>
    (gateway_host_key read_url (el_serverURL (cl_election cl)) \<noteq> [] \<and>
     gateway_host_key read_url (el_serverURL (cl_election cl)) \<noteq> gateway_host_key read_url (mt_url t) \<longrightarrow>
     cooling_down read_url (se_now se) (el_serverURL (cl_election cl)) (el_cooldowns (cl_election cl1)))"
proof -
  let ?cl = "note_unstable_failback read_url (se_now se)
     (with_engine (\<lambda>en. en\<lparr>en_leaseLost := False, en_migrateOnShutdownAt := 0, en_isFailback := False\<rparr>) cl)"
  have over: "session_over read_url la se cl =
      take_pending read_url la se (en_leaseLost (cl_engine cl)) (en_migrateOnShutdownAt (cl_engine cl) \<noteq> 0) False ?cl"
    using assms(2,3) by (simp add: session_over_def Let_def)
  let ?cl' = "?cl\<lparr>cl_pendingMove := None\<rparr>"
  have at: "el_serverURL (cl_election ?cl') = el_serverURL (cl_election cl)" and none: "cl_pendingMove ?cl' = None"
    by (simp_all add: note_unstable_election client_parts)
  obtain cl1 where "try_move read_url la se t ?cl' = Inl (Serving cl1)"
    and cl1: "el_serverURL (cl_election cl1) = mt_url t" "cl_primaryServerURL cl1 = mt_url t" "cl_pendingMove cl1 = None"
      "\<forall>h. get (el_cooldowns (cl_election cl1)) h =
        (if h = gateway_host_key read_url (mt_url t) \<and> h \<noteq> [] then None
         else if h = gateway_host_key read_url (el_serverURL (cl_election cl)) \<and> h \<noteq> [] then Some (se_now se + failover_cooldown)
         else get (el_cooldowns (cl_election ?cl')) h)"
    using try_move_accepted [OF assms(4,5), of read_url t ?cl'] unfolding at none by blast
  then have "session_over read_url la se cl = Serving cl1"
    unfolding over take_pending_def using assms(1) by (simp add: client_parts)
  moreover have "cooling_down read_url (se_now se) (el_serverURL (cl_election cl)) (el_cooldowns (cl_election cl1))"
    if "gateway_host_key read_url (el_serverURL (cl_election cl)) \<noteq> []"
       "gateway_host_key read_url (el_serverURL (cl_election cl)) \<noteq> gateway_host_key read_url (mt_url t)"
    using that cl1(4) by (simp add: cooling_down_def Let_def failover_cooldown_def second_def)
  ultimately show ?thesis using cl1(1-3) by blast
qed

lemma resolve_from_regions: "el_regions (resolve_from read_url nw refresh explicit e) = el_regions e"
proof -
  have "el_regions (elect read_url nw e) = el_regions e" by (simp add: elect_def split: prod.split)
  then show ?thesis by (simp add: resolve_from_def split: option.split prod.split)
qed

text \<open>An election that cannot ask for the regions forgets those held out: nothing but an answer brings them back.\<close>

lemma failed_discovery_forgets:
  assumes "nw_fetch nw (el_serverURL e) = None" "well_named read_url (el_regions e)"
  shows "el_regions (resolve_server_url read_url nw refresh explicit e) = candidates read_url (nw_now nw) (el_cooldowns e) (el_regions e)"
proof -
  have f: "fetch_remote_regions nw e = e" using assms(1) by (simp add: fetch_remote_regions_def)
  let ?e = "refreshed read_url nw (if refresh \<and> nw_fileWorks nw then e\<lparr>el_cache := None\<rparr> else e)"
  have "el_regions ?e = candidates read_url (nw_now nw) (el_cooldowns e) (el_regions e)"
    using refreshed_regions [of read_url nw e] refreshed_regions [of read_url nw "e\<lparr>el_cache := None\<rparr>"] assms(2) f by simp
  then show ?thesis unfolding resolve_server_url_eq resolve_from_regions .
qed

text \<open>The prober compares names: a client on its primary gateway under another name of it ends its session to go there.\<close>

lemma failback_to_the_same_gateway:
  assumes "el_serverURL (cl_election cl) = cl_primaryServerURL cl" "cl_primaryServerURL cl \<noteq> []" "cl_primaryRegion cl \<noteq> []"
    and "\<not> equal_fold (en_selectedRegion (cl_engine cl)) (cl_primaryRegion cl)"
    and "en_failbackSuppressedUntil (cl_engine cl) \<le> now"
    and "\<not> cooling_down read_url now (cl_primaryServerURL cl) (el_cooldowns (cl_election cl))"
    and "probe_round_trip probe (cl_primaryServerURL cl) \<noteq> None"
  shows "fst (failback_tick read_url now probe cl)"
  using assms(2-) by (simp add: failback_tick_def)

section \<open>Pauses and retries\<close>

text \<open>The pauses of a client that registers again in place: a second, doubled at each attempt, thirty seconds from the
  sixth on and for ever; so it never stops retrying and never hammers the gateway.
\<close>
theorem same_gateway_pause_exact: "same_gateway_pause n = min (2 ^ n * 1000000000) (30 * 1000000000)"
proof (induction n)
  case (Suc n)
  show ?case
  proof (cases "2 ^ n < (30 :: int)")
    case True
    then have "same_gateway_pause n = 2 ^ n * 1000000000" using Suc by simp
    then show ?thesis using True by (simp add: next_backoff_def same_gateway_retry_cap_def second_def)
  next
    case False
    then have "same_gateway_pause n = 30 * 1000000000" using Suc by simp
    then show ?thesis using False by (simp add: next_backoff_def same_gateway_retry_cap_def second_def)
  qed
qed (simp add: same_gateway_retry_backoff_def second_def)

text \<open>The pause before retry \<open>k\<close> of the transport: a tenth of a second, doubled, ten seconds at most.\<close>

definition retry_step :: "nat \<Rightarrow> duration" where
  "retry_step k = min (2 ^ k * 100000000) (10 * 1000000000)"

lemma retry_step_Suc:
  "retry_step (Suc k) = (if retry_step k < chisel_max_retry_interval then min (2 * retry_step k) chisel_max_retry_interval else retry_step k)"
  by (auto simp: retry_step_def chisel_max_retry_interval_def second_def)

lemma retry_step_pos [simp]: "0 < retry_step k"
  by (simp add: retry_step_def)

lemma retry_count_from_spec:
  "total_so_far = (\<Sum>i<count. retry_step i) \<Longrightarrow> step = retry_step count \<Longrightarrow>
   (\<forall>k<count. (\<Sum>i<k. retry_step i) < window) \<Longrightarrow>
   window \<le> (\<Sum>i<retry_count_from window total_so_far step count. retry_step i) \<and>
   (\<forall>k<retry_count_from window total_so_far step count. (\<Sum>i<k. retry_step i) < window)"
proof (induction window total_so_far step count rule: retry_count_from.induct)
  case (1 window total_so_far step count)
  show ?case
  proof (cases "total_so_far < window")
    case True
    have cond: "total_so_far < window \<and> 0 < step" using True 1(3) by simp
    have step: "(if step < chisel_max_retry_interval then min (2 * step) chisel_max_retry_interval else step) = retry_step (Suc count)"
      unfolding retry_step_Suc 1(3) ..
    have sum: "total_so_far + step = (\<Sum>i<Suc count. retry_step i)" using 1(2,3) by simp
    have less: "\<forall>k<Suc count. (\<Sum>i<k. retry_step i) < window" using 1(2,4) True by (auto simp: less_Suc_eq)
    have next_count: "retry_count_from window total_so_far step count =
        retry_count_from window (total_so_far + step) (retry_step (Suc count)) (Suc count)"
      using cond step by (subst retry_count_from.simps) simp
    show ?thesis using 1(1) [OF cond, unfolded step, OF sum refl less] unfolding next_count .
  next
    case False
    then have "retry_count_from window total_so_far step count = count" by (subst retry_count_from.simps) simp
    then show ?thesis using False 1(2,4) by simp
  qed
qed

text \<open>The number of retries a client asks its transport for covers the window in which the gateway keeps its lease, and is
  the least that does: the pauses add up to the window, and those of any smaller number of retries do not.
\<close>
theorem retries_cover_window:
  "window \<le> (\<Sum>i<retry_count_for_window window. retry_step i) \<and>
   (\<forall>k<retry_count_for_window window. (\<Sum>i<k. retry_step i) < window)"
  using retry_count_from_spec [of 0 0 chisel_backoff_min window]
  by (simp add: retry_count_for_window_def retry_step_def chisel_backoff_min_def)

text \<open>What a gateway can talk its clients into. Whatever it advertises, in the block or in the field before it, a client
  tries to reattach for 20 to 180 seconds and reports every 2 to 60; a value in range is used as sent, and one that is not
  is named.
\<close>
theorem advertised_settings_are_bounded:
  "case resolve_settings s legacy of (reconnect, beat, named_values) \<Rightarrow>
     20 * second \<le> reconnect \<and> reconnect \<le> 180 * second \<and> 2 * second \<le> beat \<and> beat \<le> 60 * second \<and>
     (''reconnect_seconds'' \<notin> set named_values \<and> 0 < advertised_reconnect s legacy \<longrightarrow> reconnect = advertised_reconnect s legacy * second) \<and>
     (''heartbeat_seconds'' \<notin> set named_values \<and> 0 < advertised_heartbeat s \<longrightarrow> beat = advertised_heartbeat s * second)"
proof -
  have "20 \<le> clamp_setting 60 20 180 n \<and> clamp_setting 60 20 180 n \<le> 180" "2 \<le> clamp_setting 5 2 60 n \<and> clamp_setting 5 2 60 n \<le> 60" for n
    by (simp_all add: clamp_setting_def)
  then show ?thesis by (auto simp: resolve_settings_def Let_def second_def)
qed

text \<open>The window a session gets: the bounded one, or ten seconds for a client that has elsewhere to go.\<close>

lemma reconnect_window_bounds:
  "10 * second \<le> reconnect_window_for advertised available \<and> reconnect_window_for advertised available \<le> 180 * second"
proof -
  have "20 \<le> clamp_setting 60 20 180 n \<and> clamp_setting 60 20 180 n \<le> 180" for n by (simp add: clamp_setting_def)
  from this [of "quot advertised second"] show ?thesis
    by (auto simp: reconnect_window_for_def clamp_reconnect_window_def failover_handback_window_def second_def)
qed

section \<open>Concrete clients\<close>

text \<open>A client on \<open>eu\<close>, a hundred milliseconds away, in a network that also has \<open>us\<close>, twenty away.\<close>

definition far_probe :: probe where
  "far_probe url = Some (\<lparr>ha_code = 200, ha_parsed = False, ha_status = [], ha_controlPlane = []\<rparr>,
     if url = ''e'' then 100000000 else 20000000)"

definition far_network :: "time \<Rightarrow> network" where
  "far_network now = \<lparr>nw_now = now, nw_fetch = (\<lambda>_. Some (sample_regions, [])), nw_probe = far_probe, nw_fileWorks = True\<rparr>"

definition sample_engine :: engine where
  "sample_engine = \<lparr>en_selectedRegion = ''eu'', en_serverURL = ''e'', en_centralURL = ''e'', en_controlPlaneReachable = None,
     en_leaseLost = False, en_isFailback = False, en_failbackSuppressedUntil = 0, en_shutdownWarnedAt = 0,
     en_migrateOnShutdownAt = 0, en_nodeSetFingerprint = ''a'', en_nodeSetChanged = True\<rparr>"

definition sample_client :: client where
  "sample_client = \<lparr>cl_election = (sample_election sample_regions [])\<lparr>el_region := ''eu''\<rparr>, cl_engine = sample_engine,
     cl_primaryRegion = ''eu'', cl_primaryServerURL = ''e'', cl_primaryRegions = sample_regions,
     cl_lastFailbackAt = None, cl_pendingMove = None, cl_lastMoveAt = None\<rparr>"

definition sample_launch :: launch where
  "sample_launch = \<lparr>la_pinned = False, la_requestedRegion = [], la_refresh = False, la_token = ''t''\<rparr>"

definition sample_target :: move_target where
  "sample_target = \<lparr>mt_region = ''us'', mt_url = ''u'', mt_regions = sample_regions\<rparr>"

definition sample_end :: session_end where
  "sample_end = \<lparr>se_now = 200, se_fault = False, se_failback = No_answer, se_move = Accepted,
     se_worlds = (\<lambda>_. network.extend (far_network 200) \<lparr>nw_register = (\<lambda>_. No_answer)\<rparr>), se_same = [], se_fileWorks = True\<rparr>"

lemma heartbeat_ends_session_exact_witness:
  "\<not> fst (heartbeat sample_reader ''e'' (\<lambda>url. if url = ''c'' then Some \<lparr>ba_code = 401, ba_shutdownAt = None, ba_fingerprint = [], ba_noLease = True\<rparr> else None)
     (sample_engine\<lparr>en_centralURL := ''c''\<rparr>))"
  by (subst heartbeat_ends_session_exact) (simp_all add: ends_session_def)

lemma far_well_named: "\<forall>rs us. nw_fetch (far_network now) current = Some (rs, us) \<longrightarrow> well_named sample_reader rs"
  using sample_named by (simp add: far_network_def)

lemma moves_only_for_gain_witness:
  "choose_reelection_target sample_reader sample_launch (far_network 100) ''e'' sample_client = (Some sample_target, sample_client) \<and>
   worth_moving sample_reader far_probe (candidates sample_reader 100 [] sample_regions) ''e'' ''u''"
proof -
  let ?cs = "candidates sample_reader (nw_now (far_network 100)) (el_cooldowns (cl_election sample_client)) (mt_regions sample_target)"
  have chosen: "choose_reelection_target sample_reader sample_launch (far_network 100) ''e'' sample_client = (Some sample_target, sample_client)"
    by code_simp
  have eqs: "?cs = candidates sample_reader 100 [] sample_regions" "nw_probe (far_network 100) = far_probe" "mt_url sample_target = ''u''"
    "la_requestedRegion sample_launch = []"
    by (simp_all add: far_network_def sample_client_def sample_election_def sample_target_def sample_launch_def)
  have "worth_moving sample_reader (nw_probe (far_network 100)) ?cs ''e'' (mt_url sample_target)"
    using moves_only_for_gain [OF chosen far_well_named refl] eqs(4) by simp
  then show ?thesis using chosen unfolding eqs by simp
qed

lemma moves_are_spaced_witness:
  "\<not> fst (node_set_tick sample_reader sample_launch (far_network 500) ''u''
       (snd (node_set_tick sample_reader sample_launch (far_network 100) ''e'' sample_client)))"
proof
  assume again: "fst (node_set_tick sample_reader sample_launch (far_network 500) ''u''
       (snd (node_set_tick sample_reader sample_launch (far_network 100) ''e'' sample_client)))"
  have first: "fst (node_set_tick sample_reader sample_launch (far_network 100) ''e'' sample_client)" by code_simp
  have run: "client_run sample_reader sample_launch [] (snd (node_set_tick sample_reader sample_launch (far_network 100) ''e'' sample_client)) =
      Serving (snd (node_set_tick sample_reader sample_launch (far_network 100) ''e'' sample_client))" by simp
  have "10 * 60 * 1000000000 \<le> nw_now (far_network 500) - nw_now (far_network 100)"
    by (rule moves_are_spaced [OF first run _ again]) simp
  then show False by (simp add: far_network_def)
qed

lemma pinned_client_never_moves_witness:
  "el_serverURL (cl_election (client_of (client_run sample_reader (sample_launch\<lparr>la_pinned := True\<rparr>)
     [Node_set_tick (far_network 100) ''e'', Session_over sample_end] sample_client))) = el_serverURL (cl_election sample_client)"
  by (rule pinned_client_never_moves [THEN conjunct2]) simp

lemma failover_outcome_witness:
  "\<exists>j<4. la_token sample_launch \<noteq> [] \<and>
     nw_register (network.extend (far_network (int j)) \<lparr>nw_register = (\<lambda>_. Accepted)\<rparr>)
       (el_serverURL (snd (reregister_across_regions sample_reader sample_launch
          (\<lambda>j. network.extend (far_network (int j)) \<lparr>nw_register = (\<lambda>_. Accepted)\<rparr>) (cl_election sample_client)))) = Accepted"
proof -
  let ?ws = "\<lambda>j. network.extend (far_network (int j)) \<lparr>nw_register = (\<lambda>_. Accepted)\<rparr>"
  have "fst (reregister_across_regions sample_reader sample_launch ?ws (cl_election sample_client)) = Reregistered" by code_simp
  then have "reregister_across_regions sample_reader sample_launch ?ws (cl_election sample_client) =
      (Reregistered, snd (reregister_across_regions sample_reader sample_launch ?ws (cl_election sample_client)))"
    by (metis prod.collapse)
  from failover_outcome [OF this] show ?thesis by simp
qed

lemma planned_shutdown_is_left_witness:
  "let cl1 = exclude_failed_region sample_reader 50 ''e'' False True sample_client
   in failback_tick sample_reader 100 far_probe cl1 = (False, cl1) \<and> cooling_down sample_reader 100 ''e'' (el_cooldowns (cl_election cl1))"
proof -
  let ?cl = "exclude_failed_region sample_reader 50 ''e'' False True sample_client"
  have primary: "gateway_host_key sample_reader (cl_primaryServerURL ?cl) = gateway_host_key sample_reader ''e''" by code_simp
  have key: "gateway_host_key sample_reader ''e'' \<noteq> []" by simp
  have time: "nw_now (far_network 100) < 50 + 3600 * 1000000000" by (simp add: far_network_def)
  have "failback_tick sample_reader (nw_now (far_network 100)) far_probe ?cl = (False, ?cl)"
    using planned_shutdown_is_left [OF key refl time, where probe = far_probe] primary by blast
  moreover have "cooling_down sample_reader 100 ''e'' (el_cooldowns (cl_election ?cl))" by code_simp
  ultimately show ?thesis by (simp add: Let_def far_network_def)
qed

lemma pending_move_is_taken_witness:
  "\<exists>cl1. session_over sample_reader sample_launch sample_end (sample_client\<lparr>cl_pendingMove := Some sample_target\<rparr>) = Serving cl1 \<and>
     el_serverURL (cl_election cl1) = ''u''"
  using pending_move_is_taken [of "sample_client\<lparr>cl_pendingMove := Some sample_target\<rparr>" sample_target sample_launch sample_end sample_reader]
  by (auto simp: sample_client_def sample_engine_def sample_launch_def sample_end_def sample_target_def)

lemma advertised_settings_are_bounded_witness:
  "case resolve_settings (Some \<lparr>cs_reconnectSeconds = 5000, cs_heartbeatSeconds = 7\<rparr>) 0 of (reconnect, beat, named_values) \<Rightarrow>
     reconnect \<le> 180 * second \<and> beat = 7 * second"
  using advertised_settings_are_bounded [of "Some \<lparr>cs_reconnectSeconds = 5000, cs_heartbeatSeconds = 7\<rparr>" 0]
  by (simp add: resolve_settings_def advertised_heartbeat_def advertised_reconnect_def Let_def) (simp add: clamp_setting_def)

end
