(* ===== verification/Edge_Metrics.thy ===== *)
theory Edge_Metrics
  imports Edge_Control Registry_Lifecycle
begin

text \<open>
  What an edge reports of the bytes its tunnels carry, and what the control plane makes of it: the queue of deltas
  and its delivery in frames (\<open>edge_metrics.go\<close>), the rows and the figures of the edge leases, the watch for a node
  that holds a channel and reports nothing (\<open>edge_metrics_health.go\<close>), and a gateway that drains (\<open>drain.go\<close>).
\<close>

section \<open>The queue of an edge\<close>

record edge_delta =
  dl_userID :: string
  dl_subdomain :: string
  dl_fullHost :: string
  dl_bytesIn :: int
  dl_bytesOut :: int
  dl_connectedAt :: time
  dl_recordedAt :: "time option"

record reporter =
  rp_pending :: "edge_delta list"
  rp_dropped :: nat

definition edge_metrics_max_per_frame :: nat where "edge_metrics_max_per_frame = 100"
definition edge_metrics_max_pending :: nat where "edge_metrics_max_pending = 2000"

definition trim_pending :: "reporter \<Rightarrow> reporter" where
  "trim_pending r =
     (if length (rp_pending r) \<le> edge_metrics_max_pending then r
      else (let excess = length (rp_pending r) - edge_metrics_max_pending
            in r\<lparr>rp_pending := drop excess (rp_pending r), rp_dropped := rp_dropped r + excess\<rparr>))"

definition add_delta :: "time \<Rightarrow> edge_delta \<Rightarrow> reporter \<Rightarrow> reporter" where
  "add_delta now d0 r =
     (if dl_bytesIn d0 \<le> 0 \<and> dl_bytesOut d0 \<le> 0 then r
      else (let d = (if dl_recordedAt d0 = None then d0\<lparr>dl_recordedAt := Some now\<rparr> else d0)
            in trim_pending (r\<lparr>rp_pending := rp_pending r @ [d]\<rparr>)))"

definition edge_delta_of :: "time \<Rightarrow> byte_delta \<Rightarrow> edge_delta" where
  "edge_delta_of now d =
     \<lparr>dl_userID = d_userID d, dl_subdomain = d_subdomainPrefix d, dl_fullHost = d_fullHost d, dl_bytesIn = d_bytesIn d,
      dl_bytesOut = d_bytesOut d, dl_connectedAt = d_connectedAt d, dl_recordedAt = Some now\<rparr>"

text \<open>What the live leases have carried since the last call is taken off them and queued.\<close>

definition collect_deltas :: "time \<Rightarrow> registry \<times> reporter \<Rightarrow> registry \<times> reporter" where
  "collect_deltas now st =
     (case st of (reg, r) \<Rightarrow>
        (case take_byte_deltas reg of (ds, reg') \<Rightarrow> (reg', fold (\<lambda>d. add_delta now (edge_delta_of now d)) ds r)))"

definition requeue :: "edge_delta list \<Rightarrow> reporter \<Rightarrow> reporter" where
  "requeue unsent r = (if unsent = [] then r else trim_pending (r\<lparr>rp_pending := unsent @ rp_pending r\<rparr>))"

text \<open>One frame after another as long as the connection takes them; the frames sent, and what is left.\<close>

function send_chunks :: "bool list \<Rightarrow> edge_delta list \<Rightarrow> edge_delta list list \<times> edge_delta list" where
  "send_chunks oks batch =
     (if batch = [] then ([], [])
      else if oks \<noteq> [] \<and> hd oks then
        (case send_chunks (tl oks) (drop edge_metrics_max_per_frame batch) of
           (frames, unsent) \<Rightarrow> (take edge_metrics_max_per_frame batch # frames, unsent))
      else ([], batch))"
  by pat_completeness auto
termination
  by (relation "measure (\<lambda>(oks, batch). length batch)") (auto simp: edge_metrics_max_per_frame_def)

declare send_chunks.simps [simp del]

text \<open>A flush nobody interrupts; \<open>oks\<close> are the answers of the connection to the frames, an empty one when idle.\<close>

definition flush_deltas :: "bool list \<Rightarrow> reporter \<Rightarrow> edge_delta list list \<times> reporter" where
  "flush_deltas oks r =
     (let batch = rp_pending r; r1 = \<lparr>rp_pending = [], rp_dropped = 0\<rparr>
      in if batch = [] then ((if oks \<noteq> [] \<and> hd oks then [[]] else []), r1)
         else case send_chunks oks batch of (frames, unsent) \<Rightarrow> (frames, requeue unsent r1))"

text \<open>The last report of an edge that goes away; it needs a connection.\<close>

definition flush_edge_metrics :: "time \<Rightarrow> bool \<Rightarrow> bool list \<Rightarrow> registry \<times> reporter \<Rightarrow> edge_delta list list \<times> registry \<times> reporter" where
  "flush_edge_metrics now uplink oks st =
     (case collect_deltas now st of (reg, r) \<Rightarrow>
        (if uplink then (case flush_deltas oks r of (frames, r1) \<Rightarrow> (frames, reg, r1)) else ([], reg, r)))"

text \<open>Flushes run beside each other and beside additions: each takes the whole queue, then sends what it took. A flush
  is known by its place in \<open>rg_flights\<close>; a frame handed to the connection leaves it, a refused one ends it.\<close>

record reporting =
  rg_reporter :: reporter
  rg_flights :: "edge_delta list list"
  rg_sent :: "edge_delta list"

datatype report_event = Delta_added time edge_delta | Flush_begins | Frame_sent nat | Frame_refused nat

definition report_step :: "report_event \<Rightarrow> reporting \<Rightarrow> reporting" where
  "report_step ev g =
     (case ev of
        Delta_added now d \<Rightarrow> g\<lparr>rg_reporter := add_delta now d (rg_reporter g)\<rparr>
      | Flush_begins \<Rightarrow>
          g\<lparr>rg_reporter := \<lparr>rp_pending = [], rp_dropped = 0\<rparr>, rg_flights := rg_flights g @ [rp_pending (rg_reporter g)]\<rparr>
      | Frame_sent i \<Rightarrow>
          (if i < length (rg_flights g) then
             g\<lparr>rg_sent := rg_sent g @ take edge_metrics_max_per_frame (rg_flights g ! i),
               rg_flights := (rg_flights g)[i := drop edge_metrics_max_per_frame (rg_flights g ! i)]\<rparr>
           else g)
      | Frame_refused i \<Rightarrow>
          (if i < length (rg_flights g) then
             g\<lparr>rg_reporter := requeue (rg_flights g ! i) (rg_reporter g), rg_flights := (rg_flights g)[i := []]\<rparr>
           else g))"

section \<open>What arrives\<close>

record tunnel_metric =
  tm_userID :: string
  tm_subdomainPrefix :: string
  tm_fullHost :: string
  tm_bytesIn :: int
  tm_bytesOut :: int
  tm_connectedAt :: time
  tm_recordedAt :: time
  tm_nodeID :: string

definition metric_row :: "time \<Rightarrow> string \<Rightarrow> edge_delta \<Rightarrow> tunnel_metric" where
  "metric_row now nodeID d =
     \<lparr>tm_userID = dl_userID d, tm_subdomainPrefix = dl_subdomain d, tm_fullHost = dl_fullHost d, tm_bytesIn = dl_bytesIn d,
      tm_bytesOut = dl_bytesOut d, tm_connectedAt = dl_connectedAt d,
      tm_recordedAt = (case dl_recordedAt d of None \<Rightarrow> now | Some at \<Rightarrow> at), tm_nodeID = nodeID\<rparr>"

definition edge_metric_rows :: "time \<Rightarrow> string \<Rightarrow> edge_delta list \<Rightarrow> tunnel_metric list" where
  "edge_metric_rows now nodeID ds =
     (if nodeID = [] then []
      else map (metric_row now nodeID) (filter (\<lambda>d. \<not> (dl_bytesIn d \<le> 0 \<and> dl_bytesOut d \<le> 0)) ds))"

text \<open>The figures of the edge leases follow; \<open>uint64\<close> of a signed number wraps.\<close>

definition add_lease_bytes :: "string \<Rightarrow> edge_delta \<Rightarrow> edge_lease \<Rightarrow> edge_lease" where
  "add_lease_bytes nodeID d el =
     (if el_subdomain el = dl_subdomain d \<and> el_nodeID el = nodeID
      then el\<lparr>el_bytesIn := el_bytesIn el + word_of_int (dl_bytesIn d), el_bytesOut := el_bytesOut el + word_of_int (dl_bytesOut d)\<rparr>
      else el)"

definition apply_edge_lease_bytes :: "string \<Rightarrow> edge_delta list \<Rightarrow> edge_leases \<Rightarrow> edge_leases" where
  "apply_edge_lease_bytes nodeID ds leases =
     fold (\<lambda>d m. case get m (dl_userID d) of None \<Rightarrow> m | Some ls \<Rightarrow> put (dl_userID d) (map (add_lease_bytes nodeID d) ls) m) ds leases"

text \<open>The rows queued for the database, and the leases.\<close>

definition queue_edge_metrics ::
  "time \<Rightarrow> string \<Rightarrow> edge_delta list \<Rightarrow> tunnel_metric list \<times> edge_leases \<Rightarrow> tunnel_metric list \<times> edge_leases" where
  "queue_edge_metrics now nodeID ds st =
     (case st of (rows, leases) \<Rightarrow>
        (let new = (if ds = [] then [] else edge_metric_rows now nodeID ds)
         in if new = [] then (rows, leases) else (rows @ new, apply_edge_lease_bytes nodeID ds leases)))"

section \<open>A node that reports nothing\<close>

record delivery =
  dv_lastFrameAt :: "time option"
  dv_lastDataAt :: "time option"
  dv_frames :: nat
  dv_deltas :: nat
  dv_alerted :: bool

type_synonym tracker = "(string, delivery) table"

definition no_delivery :: delivery where
  "no_delivery = \<lparr>dv_lastFrameAt = None, dv_lastDataAt = None, dv_frames = 0, dv_deltas = 0, dv_alerted = False\<rparr>"

definition delivery_of :: "tracker \<Rightarrow> string \<Rightarrow> delivery" where
  "delivery_of t node = (case get t node of None \<Rightarrow> no_delivery | Some d \<Rightarrow> d)"

definition note_delivery :: "string \<Rightarrow> nat \<Rightarrow> time \<Rightarrow> tracker \<Rightarrow> tracker" where
  "note_delivery node n now t =
     (if node = [] then t
      else (let d = delivery_of t node;
                d1 = d\<lparr>dv_lastFrameAt := Some now, dv_frames := dv_frames d + 1, dv_alerted := False\<rparr>
            in put node (if 0 < n then d1\<lparr>dv_lastDataAt := Some now, dv_deltas := dv_deltas d + n\<rparr> else d1) t))"

definition forget_delivery :: "string \<Rightarrow> tracker \<Rightarrow> tracker" where
  "forget_delivery node t = del node t"

definition default_edge_metrics_interval :: duration where "default_edge_metrics_interval = 30 * second"
definition edge_metrics_stale_intervals :: int where "edge_metrics_stale_intervals = 3"

definition edge_metrics_interval :: "int \<Rightarrow> duration" where
  "edge_metrics_interval seconds = (if 0 < seconds then seconds * second else default_edge_metrics_interval)"

definition edge_metrics_stalled :: "time \<Rightarrow> delivery \<Rightarrow> bool \<Rightarrow> bool \<Rightarrow> duration \<Rightarrow> bool" where
  "edge_metrics_stalled now d connected ever interval \<longleftrightarrow>
     (if \<not> connected \<or> \<not> ever then False
      else case dv_lastFrameAt d of
        None \<Rightarrow> False
      | Some at \<Rightarrow> edge_metrics_stale_intervals * (if interval \<le> 0 then default_edge_metrics_interval else interval) < now - at)"

text \<open>What the portal says of it.\<close>

datatype delivery_health = Nothing_to_say | No_report_seen | Reporting_stopped duration | No_traffic_measured

definition describe_edge_metrics_health :: "time \<Rightarrow> delivery \<Rightarrow> bool \<Rightarrow> bool \<Rightarrow> duration \<Rightarrow> delivery_health" where
  "describe_edge_metrics_health now d connected ever interval =
     (if \<not> connected then Nothing_to_say
      else if \<not> ever then No_report_seen
      else if edge_metrics_stalled now d connected ever interval
      then Reporting_stopped (case dv_lastFrameAt d of None \<Rightarrow> 0 | Some at \<Rightarrow> now - at)
      else if dv_lastDataAt d = None then No_traffic_measured
      else Nothing_to_say)"

definition mark_delivery_alerted :: "string \<Rightarrow> tracker \<Rightarrow> bool \<times> tracker" where
  "mark_delivery_alerted node t =
     (case get t node of
        None \<Rightarrow> (False, t)
      | Some d \<Rightarrow> if dv_alerted d then (False, t) else (True, put node (d\<lparr>dv_alerted := True\<rparr>) t))"

text \<open>The sweep over the connected nodes: the nodes an alert is sent for.\<close>

definition sweep_node :: "time \<Rightarrow> duration \<Rightarrow> string \<Rightarrow> string list \<times> tracker \<Rightarrow> string list \<times> tracker" where
  "sweep_node now interval node acc =
     (case acc of (alerts, t) \<Rightarrow>
        (if \<not> edge_metrics_stalled now (delivery_of t node) True (get t node \<noteq> None) interval then (alerts, t)
         else case mark_delivery_alerted node t of
                (True, t1) \<Rightarrow> (alerts @ [node], t1)
              | (False, t1) \<Rightarrow> (alerts, t1)))"

definition sweep_edge_metrics_delivery :: "time \<Rightarrow> int \<Rightarrow> string list \<Rightarrow> tracker \<Rightarrow> string list \<times> tracker" where
  "sweep_edge_metrics_delivery now seconds connected t = fold (sweep_node now (edge_metrics_interval seconds)) connected ([], t)"

section \<open>Draining\<close>

record announcement =
  an_at :: int
  an_reason :: string

record local_request =
  lr_remoteAddr :: string
  lr_forwardedFor :: string
  lr_forwardedHost :: string
  lr_realIP :: string

definition is_local_request :: "local_request \<Rightarrow> bool" where
  "is_local_request r \<longleftrightarrow>
     (let host = (case split_host_port (lr_remoteAddr r) of None \<Rightarrow> lr_remoteAddr r | Some (h, _) \<Rightarrow> h)
      in host \<in> {''127.0.0.1'', ''::1'', ''localhost''} \<and> lr_forwardedFor r = [] \<and> lr_forwardedHost r = [] \<and> lr_realIP r = [])"

datatype drain_call = Drain_report | Drain_unreadable | Drain_for int string

record drain_status =
  ds_draining :: bool
  ds_secondsRemaining :: int
  ds_reason :: string
  ds_localLeases :: nat
  ds_portalSessions :: nat

definition announced :: "time \<Rightarrow> announcement \<Rightarrow> bool" where
  "announced now a \<longleftrightarrow> 0 < an_at a \<and> unix now < an_at a"

definition current_drain_status :: "time \<Rightarrow> announcement \<Rightarrow> registry option \<Rightarrow> nat option \<Rightarrow> drain_status" where
  "current_drain_status now a reg sessions =
     \<lparr>ds_draining = (0 < an_at a),
      ds_secondsRemaining = (if 0 < an_at a then max 0 (an_at a - unix now) else 0),
      ds_reason = an_reason a,
      ds_localLeases = (case reg of None \<Rightarrow> 0 | Some r \<Rightarrow> length (list_leases r)),
      ds_portalSessions = (case sessions of None \<Rightarrow> 0 | Some n \<Rightarrow> n)\<rparr>"

definition default_drain_reason :: string where
  "default_drain_reason = ''Gateway is restarting for a deployment''"

definition announce :: "time \<Rightarrow> int \<Rightarrow> string \<Rightarrow> announcement \<Rightarrow> announcement" where
  "announce now seconds reason a =
     (if seconds \<le> 0 then \<lparr>an_at = 0, an_reason = []\<rparr>
      else \<lparr>an_at = unix (now + wrap64 (seconds * second)), an_reason = (if reason = [] then default_drain_reason else reason)\<rparr>)"

datatype drain_reply = Drain_forbidden | Drain_bad_request | Drain_answer drain_status

text \<open>The reply, the announcement, and whether the queue of deltas is flushed.\<close>

definition handle_local_drain ::
  "time \<Rightarrow> local_request \<Rightarrow> drain_call \<Rightarrow> registry option \<Rightarrow> nat option \<Rightarrow> announcement \<Rightarrow> drain_reply \<times> announcement \<times> bool" where
  "handle_local_drain now req call reg sessions a =
     (if \<not> is_local_request req then (Drain_forbidden, a, False)
      else case call of
        Drain_report \<Rightarrow> (Drain_answer (current_drain_status now a reg sessions), a, False)
      | Drain_unreadable \<Rightarrow> (Drain_bad_request, a, False)
      | Drain_for seconds reason \<Rightarrow>
          (let a1 = announce now seconds reason a
           in (Drain_answer (current_drain_status now a1 reg sessions), a1, 0 < seconds)))"

end
