(* ===== verification/Edge_Metrics_Facts.thy ===== *)
theory Edge_Metrics_Facts
  imports Edge_Metrics Registry_Views "HOL-Library.Multiset"
begin

text \<open>
  No byte an edge has measured is counted twice, and none is lost without being counted as lost; a node that stops
  reporting is reported once; how long a gateway drains, and what it says of it.
\<close>

section \<open>The queue\<close>

text \<open>A delta as it enters the queue, if it does.\<close>

definition queued :: "time \<Rightarrow> edge_delta \<Rightarrow> edge_delta list" where
  "queued now d =
     (if dl_bytesIn d \<le> 0 \<and> dl_bytesOut d \<le> 0 then []
      else [if dl_recordedAt d = None then d\<lparr>dl_recordedAt := Some now\<rparr> else d])"

lemma trim_pending_split:
  "\<exists>lost. rp_pending r = lost @ rp_pending (trim_pending r) \<and> rp_dropped (trim_pending r) = rp_dropped r + length lost"
proof (cases "length (rp_pending r) \<le> edge_metrics_max_pending")
  case False
  let ?n = "length (rp_pending r) - edge_metrics_max_pending"
  have "rp_pending r = take ?n (rp_pending r) @ rp_pending (trim_pending r)"
    "rp_dropped (trim_pending r) = rp_dropped r + length (take ?n (rp_pending r))"
    using False by (simp_all add: trim_pending_def Let_def)
  then show ?thesis by blast
qed (simp add: trim_pending_def)

lemma trim_pending_bound: "length (rp_pending (trim_pending r)) \<le> edge_metrics_max_pending"
  by (simp add: trim_pending_def Let_def)

lemma trim_pending_short: "length (rp_pending r) \<le> edge_metrics_max_pending \<Longrightarrow> trim_pending r = r"
  by (simp add: trim_pending_def)

lemma add_delta_eq:
  "add_delta now d r = (if queued now d = [] then r else trim_pending (r\<lparr>rp_pending := rp_pending r @ queued now d\<rparr>))"
  by (simp add: add_delta_def queued_def Let_def)

lemma add_delta_split:
  "\<exists>lost. rp_pending r @ queued now d = lost @ rp_pending (add_delta now d r) \<and> rp_dropped (add_delta now d r) = rp_dropped r + length lost"
  using trim_pending_split [of "r\<lparr>rp_pending := rp_pending r @ queued now d\<rparr>"] by (simp add: add_delta_eq)

lemma requeue_split:
  "\<exists>lost. ds @ rp_pending r = lost @ rp_pending (requeue ds r) \<and> rp_dropped (requeue ds r) = rp_dropped r + length lost"
  using trim_pending_split [of "r\<lparr>rp_pending := ds @ rp_pending r\<rparr>"] by (simp add: requeue_def)

lemma add_delta_bound: "length (rp_pending r) \<le> edge_metrics_max_pending \<Longrightarrow> length (rp_pending (add_delta now d r)) \<le> edge_metrics_max_pending"
  using trim_pending_bound by (simp add: add_delta_eq)

lemma requeue_bound: "length (rp_pending r) \<le> edge_metrics_max_pending \<Longrightarrow> length (rp_pending (requeue ds r)) \<le> edge_metrics_max_pending"
  using trim_pending_bound by (simp add: requeue_def)

section \<open>Conservation\<close>

definition no_report :: reporting where
  "no_report = \<lparr>rg_reporter = \<lparr>rp_pending = [], rp_dropped = 0\<rparr>, rg_flights = [], rg_sent = []\<rparr>"

definition report_run :: "report_event list \<Rightarrow> reporting \<Rightarrow> reporting" where
  "report_run evs g = fold report_step evs g"

text \<open>The deltas offered by the leases, and how many of them the log says were discarded.\<close>

definition offered :: "report_event list \<Rightarrow> edge_delta list" where
  "offered evs = concat (map (\<lambda>ev. case ev of Delta_added now d \<Rightarrow> queued now d | _ \<Rightarrow> []) evs)"

fun logged_drops :: "report_event list \<Rightarrow> reporting \<Rightarrow> nat" where
  "logged_drops [] g = 0"
| "logged_drops (ev # evs) g = (if ev = Flush_begins then rp_dropped (rg_reporter g) else 0) + logged_drops evs (report_step ev g)"

definition held :: "reporting \<Rightarrow> edge_delta multiset" where
  "held g = mset (rg_sent g) + mset (rp_pending (rg_reporter g)) + sum_list (map mset (rg_flights g))"

lemma flights_update:
  "i < length fs \<Longrightarrow> sum_list (map mset fs) + mset xs = sum_list (map mset (fs[i := xs])) + mset (fs ! i)"
proof (induction fs arbitrary: i)
  case (Cons f fs)
  then show ?case by (cases i) (auto simp: ac_simps)
qed simp

text \<open>One step: what was held and what it offers is held after it, or was discarded and counted.\<close>

lemma report_step_conserves:
  "\<exists>lost. held g + mset (offered [ev]) = held (report_step ev g) + lost \<and>
     rp_dropped (rg_reporter (report_step ev g)) + (if ev = Flush_begins then rp_dropped (rg_reporter g) else 0) =
       rp_dropped (rg_reporter g) + size lost"
proof (cases ev)
  case (Delta_added now d)
  obtain lost where "rp_pending (rg_reporter g) @ queued now d = lost @ rp_pending (add_delta now d (rg_reporter g))"
    and dropped: "rp_dropped (add_delta now d (rg_reporter g)) = rp_dropped (rg_reporter g) + length lost"
    using add_delta_split by blast
  then have "mset (rp_pending (rg_reporter g)) + mset (queued now d) = mset lost + mset (rp_pending (add_delta now d (rg_reporter g)))"
    by (metis mset_append)
  then have "held g + mset (offered [ev]) = held (report_step ev g) + mset lost"
    by (simp add: Delta_added offered_def held_def report_step_def ac_simps)
  then show ?thesis using dropped by (intro exI [of _ "mset lost"]) (simp add: Delta_added report_step_def)
next
  case Flush_begins
  then show ?thesis by (simp add: offered_def held_def report_step_def)
next
  case (Frame_sent i)
  show ?thesis
  proof (cases "i < length (rg_flights g)")
    case True
    let ?f = "rg_flights g ! i" and ?k = edge_metrics_max_per_frame
    have "mset ?f = mset (take ?k ?f) + mset (drop ?k ?f)" by (metis append_take_drop_id mset_append)
    then have "sum_list (map mset (rg_flights g)) = sum_list (map mset ((rg_flights g)[i := drop ?k ?f])) + mset (take ?k ?f)"
      using flights_update [OF True, of "drop ?k ?f"] by (simp add: add.assoc [symmetric])
    then have "held g = held (report_step ev g)" using True by (simp add: Frame_sent held_def report_step_def)
    then show ?thesis by (simp add: Frame_sent offered_def report_step_def)
  qed (simp add: Frame_sent offered_def report_step_def)
next
  case (Frame_refused i)
  show ?thesis
  proof (cases "i < length (rg_flights g)")
    case True
    let ?f = "rg_flights g ! i"
    obtain lost where "?f @ rp_pending (rg_reporter g) = lost @ rp_pending (requeue ?f (rg_reporter g))"
      and dropped: "rp_dropped (requeue ?f (rg_reporter g)) = rp_dropped (rg_reporter g) + length lost"
      using requeue_split by blast
    then have "mset ?f + mset (rp_pending (rg_reporter g)) = mset lost + mset (rp_pending (requeue ?f (rg_reporter g)))"
      by (metis mset_append)
    moreover have "sum_list (map mset (rg_flights g)) = sum_list (map mset ((rg_flights g)[i := []])) + mset ?f"
      using flights_update [OF True, of "[]"] by simp
    ultimately have "held g = held (report_step ev g) + mset lost"
      using True by (simp add: Frame_refused held_def report_step_def ac_simps)
    then show ?thesis using dropped True
      by (intro exI [of _ "mset lost"]) (simp add: Frame_refused offered_def report_step_def)
  qed (simp add: Frame_refused offered_def report_step_def)
qed

lemma offered_Cons: "offered (ev # evs) = offered [ev] @ offered evs"
  by (simp add: offered_def)

lemma report_run_conserves:
  "\<exists>lost. held g + mset (offered evs) = held (report_run evs g) + lost \<and>
     rp_dropped (rg_reporter (report_run evs g)) + logged_drops evs g = rp_dropped (rg_reporter g) + size lost"
proof (induction evs arbitrary: g)
  case (Cons ev evs)
  obtain l1 where l1: "held g + mset (offered [ev]) = held (report_step ev g) + l1"
    "rp_dropped (rg_reporter (report_step ev g)) + (if ev = Flush_begins then rp_dropped (rg_reporter g) else 0) =
       rp_dropped (rg_reporter g) + size l1"
    using report_step_conserves by blast
  obtain l2 where l2: "held (report_step ev g) + mset (offered evs) = held (report_run evs (report_step ev g)) + l2"
    "rp_dropped (rg_reporter (report_run evs (report_step ev g))) + logged_drops evs (report_step ev g) =
       rp_dropped (rg_reporter (report_step ev g)) + size l2"
    using Cons.IH by blast
  have "held g + mset (offered (ev # evs)) = held (report_run (ev # evs) g) + (l1 + l2)"
    unfolding offered_Cons [of ev evs] using l1(1) l2(1) by (simp add: report_run_def) (metis add.assoc add.commute)
  moreover have "rp_dropped (rg_reporter (report_run (ev # evs) g)) + logged_drops (ev # evs) g = rp_dropped (rg_reporter g) + size (l1 + l2)"
    using l1(2) l2(2) by (simp add: report_run_def)
  ultimately show ?case by blast
qed (simp add: offered_def report_run_def)

lemma report_step_bound:
  "length (rp_pending (rg_reporter g)) \<le> edge_metrics_max_pending \<Longrightarrow>
   length (rp_pending (rg_reporter (report_step ev g))) \<le> edge_metrics_max_pending"
  by (cases ev) (simp_all add: report_step_def add_delta_bound requeue_bound)

lemma report_run_bound:
  "length (rp_pending (rg_reporter g)) \<le> edge_metrics_max_pending \<Longrightarrow>
   length (rp_pending (rg_reporter (report_run evs g))) \<le> edge_metrics_max_pending"
  by (induction evs arbitrary: g) (simp_all add: report_run_def report_step_bound)

text \<open>C17: The queue of an edge counts every delta once. However flushes, refused frames and new deltas interleave, each delta
  offered is in exactly one place: handed to the connection, in a flush that runs, waiting, or discarded; the discarded
  are exactly as many as the log has named and the counter still holds; and no more than 2000 ever wait.
\<close>
theorem edge_deltas_conserved:
  "\<exists>lost. mset (offered evs) = held (report_run evs no_report) + lost \<and>
     size lost = logged_drops evs no_report + rp_dropped (rg_reporter (report_run evs no_report)) \<and>
     length (rp_pending (rg_reporter (report_run evs no_report))) \<le> 2000"
  using report_run_conserves [of no_report evs] report_run_bound [of no_report evs]
  by (auto simp: no_report_def held_def edge_metrics_max_pending_def)


section \<open>One flush\<close>

lemma send_chunks_Nil: "send_chunks oks [] = ([], [])"
  by (subst send_chunks.simps) simp

lemma send_chunks_stop: "batch \<noteq> [] \<Longrightarrow> \<not> (oks \<noteq> [] \<and> hd oks) \<Longrightarrow> send_chunks oks batch = ([], batch)"
  by (subst send_chunks.simps) (simp only: if_False)

lemma send_chunks_go:
  "batch \<noteq> [] \<Longrightarrow> oks \<noteq> [] \<and> hd oks \<Longrightarrow>
   send_chunks oks batch =
     (take edge_metrics_max_per_frame batch # fst (send_chunks (tl oks) (drop edge_metrics_max_per_frame batch)),
      snd (send_chunks (tl oks) (drop edge_metrics_max_per_frame batch)))"
  by (subst send_chunks.simps) (simp only: if_False if_True case_prod_unfold simp_thms)

lemma send_chunks_exact:
  "concat (fst (send_chunks oks batch)) @ snd (send_chunks oks batch) = batch \<and>
   (\<forall>f\<in>set (fst (send_chunks oks batch)). f \<noteq> [] \<and> length f \<le> 100)"
proof (induction oks batch rule: send_chunks.induct)
  case (1 oks batch)
  consider (none) "batch = []" | (halt) "batch \<noteq> []" "\<not> (oks \<noteq> [] \<and> hd oks)" | (go) "batch \<noteq> []" "oks \<noteq> [] \<and> hd oks" by blast
  then show ?case
  proof cases
    case go
    let ?k = edge_metrics_max_per_frame and ?rest = "send_chunks (tl oks) (drop edge_metrics_max_per_frame batch)"
    have "concat (fst ?rest) @ snd ?rest = drop ?k batch" "\<forall>f\<in>set (fst ?rest). f \<noteq> [] \<and> length f \<le> 100"
      using 1 [OF go] by blast+
    moreover have "take ?k batch \<noteq> []" "length (take ?k batch) \<le> 100" using go(1) by (simp_all add: edge_metrics_max_per_frame_def)
    ultimately show ?thesis unfolding send_chunks_go [OF go] by simp
  next
    case none
    then show ?thesis by (simp add: send_chunks_Nil)
  next
    case halt
    show ?thesis unfolding send_chunks_stop [OF halt] by simp
  qed
qed

lemma send_chunks_all: "length batch \<le> length oks \<Longrightarrow> \<forall>ok\<in>set oks. ok \<Longrightarrow> snd (send_chunks oks batch) = []"
proof (induction oks arbitrary: batch)
  case (Cons ok oks)
  show ?case
  proof (cases "batch = []")
    case False
    have ok: "ok # oks \<noteq> [] \<and> hd (ok # oks)" using Cons.prems(2) by simp
    have "length (drop edge_metrics_max_per_frame batch) \<le> length oks"
      using Cons.prems(1) by (simp add: edge_metrics_max_per_frame_def)
    moreover have "\<forall>ok\<in>set oks. ok" using Cons.prems(2) by (meson list.set_intros(2))
    ultimately have "snd (send_chunks oks (drop edge_metrics_max_per_frame batch)) = []" by (rule Cons.IH)
    then show ?thesis unfolding send_chunks_go [OF False ok] by simp
  qed (simp add: send_chunks_Nil)
qed (simp add: send_chunks_Nil)

lemma flush_exact:
  assumes "length (rp_pending r) \<le> 2000" "flush_deltas oks r = (frames, r1)"
  shows "concat frames @ rp_pending r1 = rp_pending r \<and> (\<forall>f\<in>set frames. length f \<le> 100 \<and> (f = [] \<longrightarrow> rp_pending r = [])) \<and>
    (length (rp_pending r) \<le> length oks \<and> (\<forall>ok\<in>set oks. ok) \<longrightarrow> rp_pending r1 = [])"
proof (cases "rp_pending r = []")
  case True
  then show ?thesis using assms(2) by (auto simp: flush_deltas_def Let_def)
next
  case False
  obtain fs un where sent: "send_chunks oks (rp_pending r) = (fs, un)" by fastforce
  have chunks: "concat fs @ un = rp_pending r" "\<forall>f\<in>set fs. f \<noteq> [] \<and> length f \<le> 100"
    using send_chunks_exact [of oks "rp_pending r"] by (simp_all add: sent)
  have out: "frames = fs" "r1 = requeue un \<lparr>rp_pending = [], rp_dropped = 0\<rparr>"
    using assms(2) False by (simp_all add: flush_deltas_def Let_def sent)
  have "length un \<le> edge_metrics_max_pending"
    using chunks(1) assms(1) by (metis edge_metrics_max_pending_def le_add2 length_append order_trans)
  then have "rp_pending r1 = un" by (simp add: out(2) requeue_def trim_pending_def)
  then show ?thesis using chunks out(1) send_chunks_all [of "rp_pending r" oks] by (auto simp: sent)
qed

text \<open>A report keeps the order and fits the channel. The frames handed to the connection, in order, followed by what waits
  afterwards, are what waited before; no frame carries more than a hundred deltas, and only an idle queue sends an
  empty one; when the connection takes every frame nothing is left.
\<close>
theorem flush_keeps_order:
  assumes "length (rp_pending r) \<le> 2000" "flush_deltas oks r = (frames, r1)"
  shows "concat frames @ rp_pending r1 = rp_pending r \<and> (\<forall>f\<in>set frames. length f \<le> 100 \<and> (f = [] \<longrightarrow> rp_pending r = [])) \<and>
    (length (rp_pending r) \<le> length oks \<and> (\<forall>ok\<in>set oks. ok) \<longrightarrow> rp_pending r1 = [])"
  by (rule flush_exact [OF assms])

section \<open>From a lease to a row\<close>

definition measurable :: "edge_delta \<Rightarrow> bool" where
  "measurable d \<longleftrightarrow> \<not> (dl_bytesIn d \<le> 0 \<and> dl_bytesOut d \<le> 0)"

definition rows_of :: "time \<Rightarrow> string \<Rightarrow> edge_delta list list \<Rightarrow> tunnel_metric list \<times> edge_leases \<Rightarrow> tunnel_metric list \<times> edge_leases" where
  "rows_of now node frames st = fold (queue_edge_metrics now node) frames st"

lemma queue_edge_metrics_rows:
  "node \<noteq> [] \<Longrightarrow> \<forall>d\<in>set ds. measurable d \<Longrightarrow>
   fst (queue_edge_metrics now node ds st) = fst st @ map (metric_row now node) ds"
  by (cases st) (auto simp: queue_edge_metrics_def edge_metric_rows_def measurable_def Let_def filter_id_conv)

lemma rows_of_rows:
  "node \<noteq> [] \<Longrightarrow> \<forall>d\<in>set (concat frames). measurable d \<Longrightarrow>
   fst (rows_of now node frames st) = fst st @ map (metric_row now node) (concat frames)"
proof (induction frames arbitrary: st)
  case (Cons f frames)
  have "fst (rows_of now node (f # frames) st) = fst (queue_edge_metrics now node f st) @ map (metric_row now node) (concat frames)"
    using Cons.IH [of "queue_edge_metrics now node f st"] Cons.prems by (simp add: rows_of_def)
  then show ?case using queue_edge_metrics_rows [of node f now st] Cons.prems by simp
qed (simp add: rows_of_def)

lemma take_deltas_measurable: "\<forall>d\<in>set (fst (take_deltas ps r)). measurable (edge_delta_of now d)"
proof (induction ps arbitrary: r)
  case (Cons p ps)
  obtain ds r' where rest: "take_deltas ps (modify advance_watermark p r) = (ds, r')" by fastforce
  have "\<forall>d\<in>set (lease_delta (deref r p)). measurable (edge_delta_of now d)"
    by (auto simp: lease_delta_def measurable_def edge_delta_of_def Let_def)
  then show ?case using Cons.IH [of "modify advance_watermark p r"] by (auto simp: rest)
qed simp

lemma add_deltas_room:
  "\<forall>d\<in>set ds. measurable d \<and> dl_recordedAt d \<noteq> None \<Longrightarrow> length (rp_pending r) + length ds \<le> edge_metrics_max_pending \<Longrightarrow>
   rp_pending (fold (add_delta now) ds r) = rp_pending r @ ds"
proof (induction ds arbitrary: r)
  case (Cons d ds)
  have "add_delta now d r = r\<lparr>rp_pending := rp_pending r @ [d]\<rparr>"
    using Cons.prems by (auto simp: add_delta_eq queued_def measurable_def intro: trim_pending_short)
  then show ?case using Cons.IH [of "add_delta now d r"] Cons.prems by simp
qed simp

text \<open>From the lease to the row. When the connection holds, a report of an edge brings exactly the deltas that waited and
  those its live leases have carried since they were last read, in this order, as rows of this node at the control
  plane: no byte twice, none missing, none under another node.
\<close>
theorem report_reaches_the_rows:
  assumes collected: "collect_deltas now (reg, r) = (reg1, r1)" and flushed: "flush_deltas oks r1 = (frames, r2)"
    and waiting: "\<forall>d\<in>set (rp_pending r). measurable d"
    and room: "length (rp_pending r) + length (fst (take_byte_deltas reg)) \<le> 2000"
    and up: "\<forall>ok\<in>set oks. ok" "length (rp_pending r1) \<le> length oks" and node: "node \<noteq> []"
  shows "fst (rows_of at node frames st) =
      fst st @ map (metric_row at node) (rp_pending r @ map (edge_delta_of now) (fst (take_byte_deltas reg))) \<and>
    rp_pending r2 = []"
proof -
  obtain ds reg' where taken: "take_byte_deltas reg = (ds, reg')" by fastforce
  let ?ds = "map (edge_delta_of now) ds"
  have ds: "\<forall>d\<in>set ?ds. measurable d \<and> dl_recordedAt d \<noteq> None"
    using take_deltas_measurable [where ps = "map snd (r_leases reg)" and r = reg and now = now] taken
    by (auto simp: take_byte_deltas_def edge_delta_of_def)
  have r1: "r1 = fold (add_delta now) ?ds r"
    using collected by (simp add: collect_deltas_def taken fold_map comp_def)
  have pending: "rp_pending r1 = rp_pending r @ ?ds"
    unfolding r1 using add_deltas_room [OF ds] room by (simp add: taken edge_metrics_max_pending_def)
  then have "length (rp_pending r1) \<le> 2000" using room by (simp add: taken)
  from flush_exact [OF this flushed] have frames: "concat frames = rp_pending r @ ?ds" "rp_pending r2 = []"
    using up pending by auto
  have "\<forall>d\<in>set (concat frames). measurable d" unfolding frames(1) using waiting ds by auto
  then have "fst (rows_of at node frames st) = fst st @ map (metric_row at node) (concat frames)" by (rule rows_of_rows [OF node])
  then show ?thesis using frames taken by simp
qed

text \<open>A delta of Alice's lease and one of Bob's reach the control plane in one frame.\<close>

definition sample_delta :: "string \<Rightarrow> int \<Rightarrow> edge_delta" where
  "sample_delta user n =
     \<lparr>dl_userID = user, dl_subdomain = user, dl_fullHost = user, dl_bytesIn = n, dl_bytesOut = 0, dl_connectedAt = 0, dl_recordedAt = Some 1\<rparr>"

lemma flush_keeps_order_witness:
  "concat [[sample_delta ''a'' 1, sample_delta ''b'' 2]] @ [] = [sample_delta ''a'' 1, sample_delta ''b'' 2]"
proof -
  let ?r = "\<lparr>rp_pending = [sample_delta ''a'' 1, sample_delta ''b'' 2], rp_dropped = 0\<rparr>"
  have "flush_deltas [True] ?r = ([[sample_delta ''a'' 1, sample_delta ''b'' 2]], \<lparr>rp_pending = [], rp_dropped = 0\<rparr>)"
    by (simp add: flush_deltas_def send_chunks_go send_chunks_Nil edge_metrics_max_per_frame_def requeue_def)
  from flush_keeps_order [OF _ this] show ?thesis by simp
qed

lemma report_reaches_the_rows_witness:
  "\<exists>frames. fst (rows_of 5 ''eu'' frames ([], [])) = [metric_row 5 ''eu'' (sample_delta ''a'' 1)]"
proof -
  have "collect_deltas 4 (new_registry, \<lparr>rp_pending = [sample_delta ''a'' 1], rp_dropped = 0\<rparr>) =
      (new_registry, \<lparr>rp_pending = [sample_delta ''a'' 1], rp_dropped = 0\<rparr>)" "fst (take_byte_deltas new_registry) = []"
    by (simp_all add: collect_deltas_def take_byte_deltas_def new_registry_def)
  moreover have "flush_deltas [True] \<lparr>rp_pending = [sample_delta ''a'' 1], rp_dropped = 0\<rparr> =
      ([[sample_delta ''a'' 1]], \<lparr>rp_pending = [], rp_dropped = 0\<rparr>)"
    by (simp add: flush_deltas_def send_chunks_go send_chunks_Nil edge_metrics_max_per_frame_def requeue_def)
  ultimately show ?thesis
    using report_reaches_the_rows [of 4 new_registry "\<lparr>rp_pending = [sample_delta ''a'' 1], rp_dropped = 0\<rparr>" new_registry
        "\<lparr>rp_pending = [sample_delta ''a'' 1], rp_dropped = 0\<rparr>" "[True]" "[[sample_delta ''a'' 1]]"
        "\<lparr>rp_pending = [], rp_dropped = 0\<rparr>" "''eu''" 5 "([], [])"]
    by (auto simp: measurable_def sample_delta_def)
qed

section \<open>A node that stalls\<close>

text \<open>What the control plane sees: frames, nodes whose channel ended, and its sweeps with the interval then set and the nodes then connected.\<close>

datatype delivery_event = Frame_arrives string nat time | Node_gone string | Sweep time int "string list"

definition delivery_step :: "delivery_event \<Rightarrow> string list \<times> tracker \<Rightarrow> string list \<times> tracker" where
  "delivery_step ev st =
     (case st of (alerts, t) \<Rightarrow>
        (case ev of
           Frame_arrives node n now \<Rightarrow> (alerts, note_delivery node n now t)
         | Node_gone node \<Rightarrow> (alerts, forget_delivery node t)
         | Sweep now seconds connected \<Rightarrow>
             (case sweep_edge_metrics_delivery now seconds connected t of (fresh, t1) \<Rightarrow> (alerts @ fresh, t1))))"

definition delivery_run :: "delivery_event list \<Rightarrow> tracker \<Rightarrow> string list \<times> tracker" where
  "delivery_run evs t = fold delivery_step evs ([], t)"

lemma edge_metrics_interval_pos: "0 < edge_metrics_interval seconds"
  by (simp add: edge_metrics_interval_def default_edge_metrics_interval_def second_def)

lemma delivery_of_other: "node \<noteq> other \<Longrightarrow> delivery_of (put other d t) node = delivery_of t node"
  by (simp add: delivery_of_def table_simps)

text \<open>One sweep and one node: at most one alert, and only for a node that reported before.\<close>

lemma sweep_node_known:
  assumes "get t node = Some d" "dv_lastFrameAt d = Some at" "0 < interval"
  shows "\<exists>fresh. sweep_node now interval other (alerts, t) = (alerts @ fresh, snd (sweep_node now interval other (alerts, t))) \<and>
    count_list fresh node = (if other = node \<and> 3 * interval < now - at \<and> \<not> dv_alerted d then 1 else 0) \<and>
    get (snd (sweep_node now interval other (alerts, t))) node =
      Some (d\<lparr>dv_alerted := dv_alerted d \<or> other = node \<and> 3 * interval < now - at\<rparr>)"
proof (cases "other = node")
  case True
  then show ?thesis using assms
    by (auto simp: sweep_node_def delivery_of_def edge_metrics_stalled_def edge_metrics_stale_intervals_def mark_delivery_alerted_def table_simps)
next
  case False
  show ?thesis
  proof (cases "edge_metrics_stalled now (delivery_of t other) True (get t other \<noteq> None) interval")
    case stalled: True
    then obtain d' where "get t other = Some d'" by (cases "get t other") (simp_all add: edge_metrics_stalled_def)
    with stalled False assms(1) show ?thesis
      by (cases "dv_alerted d'") (simp_all add: sweep_node_def mark_delivery_alerted_def table_simps)
  qed (use False assms(1) in \<open>simp add: sweep_node_def\<close>)
qed

lemma sweep_nodes_known:
  assumes "get t node = Some d" "dv_lastFrameAt d = Some at" "0 < interval"
  shows "\<exists>fresh t1. fold (sweep_node now interval) connected (alerts, t) = (alerts @ fresh, t1) \<and>
    count_list fresh node = (if node \<in> set connected \<and> 3 * interval < now - at \<and> \<not> dv_alerted d then 1 else 0) \<and>
    get t1 node = Some (d\<lparr>dv_alerted := dv_alerted d \<or> node \<in> set connected \<and> 3 * interval < now - at\<rparr>)"
  using assms(1,2)
proof (induction connected arbitrary: t d alerts)
  case (Cons other connected)
  define d1 where "d1 = d\<lparr>dv_alerted := dv_alerted d \<or> other = node \<and> 3 * interval < now - at\<rparr>"
  obtain new1 t1 where one: "sweep_node now interval other (alerts, t) = (alerts @ new1, t1)"
    "count_list new1 node = (if other = node \<and> 3 * interval < now - at \<and> \<not> dv_alerted d then 1 else 0)" "get t1 node = Some d1"
    using sweep_node_known [OF Cons.prems assms(3), of now other alerts] unfolding d1_def by (metis prod.collapse snd_conv)
  have "dv_lastFrameAt d1 = Some at" by (simp add: d1_def Cons.prems(2))
  then obtain new2 t2 where rest: "fold (sweep_node now interval) connected (alerts @ new1, t1) = ((alerts @ new1) @ new2, t2)"
    "count_list new2 node = (if node \<in> set connected \<and> 3 * interval < now - at \<and> \<not> dv_alerted d1 then 1 else 0)"
    "get t2 node = Some (d1\<lparr>dv_alerted := dv_alerted d1 \<or> node \<in> set connected \<and> 3 * interval < now - at\<rparr>)"
    using Cons.IH [OF one(3)] by blast
  show ?case
    by (intro exI [of _ "new1 @ new2"] exI [of _ t2]) (use one rest in \<open>auto simp: d1_def\<close>)
qed (cases d; simp)

lemma sweep_node_unknown:
  assumes "get t node = None" "node \<notin> set alerts"
  shows "node \<notin> set (fst (sweep_node now interval other (alerts, t))) \<and> get (snd (sweep_node now interval other (alerts, t))) node = None"
  using assms by (auto simp: sweep_node_def mark_delivery_alerted_def edge_metrics_stalled_def table_simps split: option.splits)

lemma sweep_nodes_unknown:
  assumes "get t node = None" "node \<notin> set alerts"
  shows "node \<notin> set (fst (fold (sweep_node now interval) connected (alerts, t))) \<and>
    get (snd (fold (sweep_node now interval) connected (alerts, t))) node = None"
  using assms
proof (induction connected arbitrary: alerts t)
  case (Cons other connected)
  from sweep_node_unknown [OF Cons.prems, of now interval other] Cons.IH show ?case
    by (cases "sweep_node now interval other (alerts, t)") simp
qed simp

text \<open>The node is silent: no frame of it arrives and its channel does not end.\<close>

definition silent :: "string \<Rightarrow> delivery_event list \<Rightarrow> bool" where
  "silent node evs \<longleftrightarrow> (\<forall>ev\<in>set evs. case ev of Frame_arrives other _ _ \<Rightarrow> other \<noteq> node | Node_gone other \<Rightarrow> other \<noteq> node | Sweep _ _ _ \<Rightarrow> True)"

text \<open>A sweep finds the node connected and overdue.\<close>

definition found_overdue :: "string \<Rightarrow> time \<Rightarrow> delivery_event list \<Rightarrow> bool" where
  "found_overdue node at evs \<longleftrightarrow>
     (\<exists>ev\<in>set evs. case ev of Sweep now s connected \<Rightarrow> node \<in> set connected \<and> 3 * edge_metrics_interval s < now - at | _ \<Rightarrow> False)"

lemma silent_run:
  assumes "silent node evs" "get t node = Some d" "dv_lastFrameAt d = Some at"
  shows "count_list (fst (fold delivery_step evs (alerts, t))) node =
    count_list alerts node + (if found_overdue node at evs \<and> \<not> dv_alerted d then 1 else 0)"
  using assms
proof (induction evs arbitrary: alerts t d)
  case (Cons ev evs)
  have rest: "silent node evs" using Cons.prems(1) by (simp add: silent_def)
  show ?case
  proof (cases ev)
    case (Sweep now s connected)
    let ?hit = "node \<in> set connected \<and> 3 * edge_metrics_interval s < now - at"
    obtain fresh t1 where sw: "sweep_edge_metrics_delivery now s connected t = (fresh, t1)"
      "count_list fresh node = (if ?hit \<and> \<not> dv_alerted d then 1 else 0)" "get t1 node = Some (d\<lparr>dv_alerted := dv_alerted d \<or> ?hit\<rparr>)"
      using sweep_nodes_known [OF Cons.prems(2,3) edge_metrics_interval_pos, of now s connected "[]"]
      by (auto simp: sweep_edge_metrics_delivery_def)
    then obtain d1 where d1: "get t1 node = Some d1" "dv_lastFrameAt d1 = Some at" "dv_alerted d1 \<longleftrightarrow> dv_alerted d \<or> ?hit"
      using Cons.prems(3) by simp
    have "delivery_step ev (alerts, t) = (alerts @ fresh, t1)" by (simp add: Sweep delivery_step_def sw(1))
    moreover have "count_list (fst (fold delivery_step evs (alerts @ fresh, t1))) node =
        count_list (alerts @ fresh) node + (if found_overdue node at evs \<and> \<not> (dv_alerted d \<or> ?hit) then 1 else 0)"
      using Cons.IH [OF rest d1(1), of "alerts @ fresh"] d1(2,3) by simp
    moreover have "found_overdue node at (ev # evs) \<longleftrightarrow> ?hit \<or> found_overdue node at evs" by (simp add: Sweep found_overdue_def)
    ultimately show ?thesis using sw(2) by (auto split: if_splits)
  next
    case (Frame_arrives other n now)
    then have "other \<noteq> node" using Cons.prems(1) by (simp add: silent_def)
    then have "get (note_delivery other n now t) node = Some d" using Cons.prems(2) by (simp add: note_delivery_def Let_def table_simps)
    from Cons.IH [OF rest this Cons.prems(3)] show ?thesis by (simp add: Frame_arrives delivery_step_def found_overdue_def)
  next
    case (Node_gone other)
    then have "other \<noteq> node" using Cons.prems(1) by (simp add: silent_def)
    then have "get (forget_delivery other t) node = Some d" using Cons.prems(2) by (simp add: forget_delivery_def table_simps)
    from Cons.IH [OF rest this Cons.prems(3)] show ?thesis by (simp add: Node_gone delivery_step_def found_overdue_def)
  qed
qed (simp add: found_overdue_def)


lemma unseen_run:
  assumes "silent node evs" "get t node = None" "node \<notin> set alerts"
  shows "node \<notin> set (fst (fold delivery_step evs (alerts, t)))"
  using assms
proof (induction evs arbitrary: alerts t)
  case (Cons ev evs)
  obtain alerts1 t1 where step: "delivery_step ev (alerts, t) = (alerts1, t1)" by fastforce
  have "node \<notin> set alerts1 \<and> get t1 node = None"
  proof (cases ev)
    case (Sweep now s connected)
    have "node \<notin> set (fst (sweep_edge_metrics_delivery now s connected t)) \<and> get (snd (sweep_edge_metrics_delivery now s connected t)) node = None"
      unfolding sweep_edge_metrics_delivery_def by (rule sweep_nodes_unknown [OF Cons.prems(2)]) simp
    then show ?thesis using step Cons.prems(3) by (auto simp: Sweep delivery_step_def split: prod.splits)
  qed (use step Cons.prems in \<open>auto simp: delivery_step_def silent_def note_delivery_def forget_delivery_def Let_def table_simps\<close>)
  moreover have "silent node evs" using Cons.prems(1) by (simp add: silent_def)
  ultimately show ?case using Cons.IH by (simp add: step)
qed simp

text \<open>C20: A node that stops reporting is reported, and once. After a frame of it, with no other frame and no end of its channel
  since, the sweeps send one alert for the node if one of them finds it connected more than three intervals after that
  frame, and none otherwise, however many sweeps there are and whatever the other nodes do. A node that has never
  reported, or whose channel has ended, is never alerted for.
\<close>
theorem stall_is_alerted_once:
  assumes "node \<noteq> []" "silent node evs"
  shows "count_list (fst (delivery_run evs (note_delivery node n at t))) node = (if found_overdue node at evs then 1 else 0) \<and>
    node \<notin> set (fst (delivery_run evs (forget_delivery node t)))"
proof -
  define d where "d = the (get (note_delivery node n at t) node)"
  have d: "get (note_delivery node n at t) node = Some d" "dv_lastFrameAt d = Some at" "\<not> dv_alerted d"
    using assms(1) by (simp_all add: d_def note_delivery_def Let_def table_simps)
  have "count_list (fst (delivery_run evs (note_delivery node n at t))) node = (if found_overdue node at evs then 1 else 0)"
    using silent_run [OF assms(2) d(1,2), of "[]"] d(3) by (simp add: delivery_run_def)
  moreover have "node \<notin> set (fst (delivery_run evs (forget_delivery node t)))"
    unfolding delivery_run_def by (rule unseen_run [OF assms(2)]) (simp_all add: forget_delivery_def table_simps)
  ultimately show ?thesis by blast
qed

lemma stall_is_alerted_once_witness:
  "count_list (fst (delivery_run [Sweep (100 * second) 30 [''eu''], Sweep (160 * second) 30 [''eu'']] (note_delivery ''eu'' 0 0 []))) ''eu'' = 1"
  using stall_is_alerted_once [of "''eu''" "[Sweep (100 * second) 30 [''eu''], Sweep (160 * second) 30 [''eu'']]" 0 0 "[]"]
  by (simp add: silent_def found_overdue_def edge_metrics_interval_def second_def)

section \<open>Draining\<close>

lemma unix_later: "0 \<le> s \<Longrightarrow> unix (now + s * second) = unix now + s"
  by (simp add: unix_def second_def)

text \<open>A drain lasts exactly as announced. A call that is not direct from this machine changes nothing. A direct one with
  \<open>s\<close> seconds turns new work away as long as the clock reads less than the second it was made in plus \<open>s\<close>, flushes the
  queue of deltas, and answers with the seconds left; with none or fewer it puts the gateway back.
\<close>
theorem drain_exact:
  assumes "0 \<le> now" "s \<le> 9000000000" and result: "handle_local_drain now req (Drain_for s reason) reg sessions a = (reply, a1, flush)"
  shows "if is_local_request req
    then flush = (0 < s) \<and> (\<forall>later. announced later a1 \<longleftrightarrow> 0 < s \<and> unix later < unix now + s) \<and>
      (\<exists>st. reply = Drain_answer st \<and> ds_draining st = (0 < s) \<and> ds_secondsRemaining st = max 0 s)
    else reply = Drain_forbidden \<and> a1 = a \<and> \<not> flush"
proof (cases "is_local_request req")
  case True
  have "0 \<le> unix now" using assms(1) by (simp add: unix_def second_def pos_imp_zdiv_nonneg_iff)
  moreover have "0 < s \<Longrightarrow> wrap64 (s * second) = s * second"
    using assms(2) by (intro wrap64_small) (simp_all add: second_def)
  ultimately show ?thesis using result True unix_later [of s now]
    by (cases "0 < s") (auto simp: handle_local_drain_def announce_def announced_def current_drain_status_def Let_def)
qed (use result in \<open>auto simp: handle_local_drain_def\<close>)

text \<open>What a gateway says of its drain is not what it does. Once the announced second has passed the gateway takes new work
  again, and its report still says that it drains, with no time left, until it is told otherwise.
\<close>
theorem drain_report_outlives_drain:
  assumes "0 < an_at a" "an_at a \<le> unix later"
  shows "\<not> announced later a \<and> ds_draining (current_drain_status later a reg sessions) \<and>
    ds_secondsRemaining (current_drain_status later a reg sessions) = 0"
  using assms by (simp add: announced_def current_drain_status_def)

definition direct_request :: local_request where
  "direct_request = \<lparr>lr_remoteAddr = ''127.0.0.1:5000'', lr_forwardedFor = [], lr_forwardedHost = [], lr_realIP = []\<rparr>"

lemma direct_request_local: "is_local_request direct_request"
  by code_simp

lemma drain_exact_witness: "announced (59 * second) (fst (snd (handle_local_drain 0 direct_request (Drain_for 60 []) None None \<lparr>an_at = 0, an_reason = []\<rparr>)))"
proof -
  obtain reply a1 flush where run: "handle_local_drain 0 direct_request (Drain_for 60 []) None None \<lparr>an_at = 0, an_reason = []\<rparr> = (reply, a1, flush)"
    using prod_cases3 by blast
  from drain_exact [OF _ _ run] direct_request_local show ?thesis by (simp add: run unix_def second_def)
qed

lemma drain_report_outlives_drain_witness: "ds_draining (current_drain_status (61 * second) \<lparr>an_at = 60, an_reason = []\<rparr> None None)"
  using drain_report_outlives_drain [of "\<lparr>an_at = 60, an_reason = []\<rparr>" "61 * second" None None] by (simp add: unix_def second_def)

end
