(* ===== verification/Edge_Channel.thy ===== *)
theory Edge_Channel
  imports Edge_Metrics Ban_Guard Session_Keys "HOL-Library.List_Lexorder" "HOL-Library.Char_ord"
begin

text \<open>
  The control channel between the control plane and its edges (\<open>edge_control_ws.go\<close>, \<open>node_set.go\<close>): who may open one and
  under which identity, the table of connections and what a lost one takes with it, what the control plane tells its
  edges, what an edge does on each frame, and when an edge that lost the channel ends its tunnels.
\<close>

section \<open>Who may open a channel\<close>

text \<open>The identity of an edge, taken from its token \<open>id-secret\<close>.\<close>

definition edge_node_id_from_token :: "string \<Rightarrow> string" where
  "edge_node_id_from_token token =
     (let parts = split_on (CHR ''-'') token;
          i = (if 1 < length parts then join ''-'' (butlast parts) else hd parts)
      in if i = [] then ''edge'' else i)"

text \<open>\<open>mac\<close> is the keyed digest of a text, in bytes; the hash of the token is its key.\<close>

definition hash_signs :: "(nat list \<Rightarrow> string \<Rightarrow> nat list) \<Rightarrow> string \<Rightarrow> nat list \<Rightarrow> string \<Rightarrow> bool" where
  "hash_signs mac nonce response accepted \<longleftrightarrow>
     (case hex_decode accepted of None \<Rightarrow> False | Some key \<Rightarrow> response = mac key nonce)"

definition response_accepted :: "(nat list \<Rightarrow> string \<Rightarrow> nat list) \<Rightarrow> edge_node \<Rightarrow> string \<Rightarrow> string \<Rightarrow> bool" where
  "response_accepted mac n nonce response \<longleftrightarrow>
     (case hex_decode response of
        None \<Rightarrow> False
      | Some m \<Rightarrow> list_ex (hash_signs mac nonce m) (accepted_token_hashes n))"

datatype channel_refusal = No_node_id | No_auth_read | Unexpected_message | Unknown_node | Bad_signature

record auth_frame =
  af_type :: string
  af_response :: string

text \<open>The handshake up to the decision; no message when none was read in five seconds.\<close>

definition channel_refused ::
  "(nat list \<Rightarrow> string \<Rightarrow> nat list) \<Rightarrow> edge_node list \<Rightarrow> string \<Rightarrow> string \<Rightarrow> auth_frame option \<Rightarrow> channel_refusal option" where
  "channel_refused mac nodes nodeID nonce msg =
     (if nodeID = [] then Some No_node_id
      else case msg of None \<Rightarrow> Some No_auth_read
      | Some a \<Rightarrow>
          if af_type a \<noteq> ''auth'' then Some Unexpected_message
          else case List.find (\<lambda>n. en_id n = nodeID) nodes of None \<Rightarrow> Some Unknown_node
          | Some n \<Rightarrow> if response_accepted mac n nonce (af_response a) then None else Some Bad_signature)"

text \<open>What the edge answers: the digest of its token signs the nonce.\<close>

definition edge_response :: "(nat list \<Rightarrow> string \<Rightarrow> nat list) \<Rightarrow> (string \<Rightarrow> nat list) \<Rightarrow> string \<Rightarrow> string \<Rightarrow> auth_frame" where
  "edge_response mac sha token nonce = \<lparr>af_type = ''auth'', af_response = hex_encode (mac (sha token) nonce)\<rparr>"

section \<open>What is sent\<close>

record node_schedule =
  ns_enabled :: bool
  ns_stopTime :: string
  ns_startTime :: string
  ns_timezone :: string

datatype control_frame =
    Fr_auth_success
  | Fr_replaced
  | Fr_restart
  | Fr_route event
  | Fr_access string string string string
  | Fr_blacklist string string "time option"
  | Fr_maintenance string int string
  | Fr_shutdown_warning int int string
  | Fr_schedule node_schedule
  | Fr_node_set string
  | Fr_secrets stored_secrets
  | Fr_kick string
  | Fr_quota quota_frame
  | Fr_headers string "(string, string) table"
  | Fr_diagnostics string string duration
  | Fr_unknown string

section \<open>The control plane's table of connections\<close>

record node_health =
  nh_status :: string
  nh_latencyMs :: int
  nh_lastCheckAt :: int
  nh_error :: string
  nh_ipv4 :: string
  nh_ipv6 :: string
  nh_version :: string
  nh_onlineSince :: int
  nh_timezone :: string
  nh_stopTime :: string
  nh_startTime :: string
  nh_scheduled :: bool
  nh_fetchedAt :: int
  nh_scheduleError :: string
  nh_adminDisabled :: bool

definition no_health :: node_health where
  "no_health = \<lparr>nh_status = [], nh_latencyMs = 0, nh_lastCheckAt = 0, nh_error = [], nh_ipv4 = [], nh_ipv6 = [], nh_version = [],
     nh_onlineSince = 0, nh_timezone = [], nh_stopTime = [], nh_startTime = [], nh_scheduled = False, nh_fetchedAt = 0,
     nh_scheduleError = [], nh_adminDisabled = False\<rparr>"

definition health_of :: "(string, node_health) table \<Rightarrow> string \<Rightarrow> node_health" where
  "health_of t node = (case get t node of None \<Rightarrow> no_health | Some h \<Rightarrow> h)"

text \<open>Connections are numbered; \<open>fl_closed\<close> are those the control plane closed, \<open>fl_sent\<close> what it wrote, latest last.\<close>

record fleet =
  fl_conns :: "(string, nat) table"
  fl_versions :: "(string, string) table"
  fl_ips :: "(string, string) table"
  fl_health :: "(string, node_health) table"
  fl_pings :: "(string, time) table"
  fl_seen :: tracker
  fl_rows :: "tunnel_metric list"
  fl_leases :: edge_leases
  fl_closed :: "nat list"
  fl_sent :: "(nat \<times> control_frame) list"

definition write_frame :: "control_frame \<Rightarrow> nat \<Rightarrow> fleet \<Rightarrow> fleet" where
  "write_frame m c fl = fl\<lparr>fl_sent := fl_sent fl @ [(c, m)]\<rparr>"

definition attach :: "nat \<Rightarrow> string \<Rightarrow> string \<Rightarrow> string \<Rightarrow> fleet \<Rightarrow> fleet" where
  "attach c nodeID version ip fl =
     (let fl1 = (case get (fl_conns fl) nodeID of
                   None \<Rightarrow> fl
                 | Some old \<Rightarrow> (write_frame Fr_replaced old fl)\<lparr>fl_closed := fl_closed fl @ [old]\<rparr>)
      in write_frame Fr_auth_success c
           (fl1\<lparr>fl_conns := put nodeID c (fl_conns fl1),
              fl_versions := put nodeID (if version \<noteq> [] then version else ''Unknown'') (fl_versions fl1),
              fl_ips := put nodeID ip (fl_ips fl1)\<rparr>))"

definition mark_disconnected :: "node_health \<Rightarrow> node_health" where
  "mark_disconnected h = h\<lparr>nh_status := ''Offline'', nh_error := ''Control connection disconnected''\<rparr>"

text \<open>The end of a connection's read pump; whether the set of nodes changed.\<close>

definition detach :: "nat \<Rightarrow> string \<Rightarrow> fleet \<Rightarrow> bool \<times> fleet" where
  "detach c nodeID fl =
     (let active = (get (fl_conns fl) nodeID = Some c);
          fl1 = (if active then
                   fl\<lparr>fl_conns := del nodeID (fl_conns fl), fl_versions := del nodeID (fl_versions fl), fl_ips := del nodeID (fl_ips fl),
                      fl_seen := forget_delivery nodeID (fl_seen fl),
                      fl_health := (case get (fl_health fl) nodeID of None \<Rightarrow> fl_health fl
                                    | Some h \<Rightarrow> put nodeID (mark_disconnected h) (fl_health fl))\<rparr>
                 else fl)
      in (active, fl1\<lparr>fl_pings := del nodeID (fl_pings fl1), fl_closed := fl_closed fl1 @ [c]\<rparr>))"

definition ping_sent :: "time \<Rightarrow> string \<Rightarrow> fleet \<Rightarrow> fleet" where
  "ping_sent now nodeID fl = fl\<lparr>fl_pings := put nodeID now (fl_pings fl)\<rparr>"

definition update_edge_latency_from_ping :: "time \<Rightarrow> string \<Rightarrow> int \<Rightarrow> fleet \<Rightarrow> fleet" where
  "update_edge_latency_from_ping now nodeID ms fl =
     fl\<lparr>fl_health := put nodeID ((health_of (fl_health fl) nodeID)\<lparr>nh_latencyMs := ms, nh_lastCheckAt := unix now\<rparr>) (fl_health fl)\<rparr>"

definition pong_received :: "time \<Rightarrow> string \<Rightarrow> fleet \<Rightarrow> fleet" where
  "pong_received now nodeID fl =
     (case get (fl_pings fl) nodeID of
        None \<Rightarrow> fl
      | Some t0 \<Rightarrow> update_edge_latency_from_ping now nodeID ((now - t0) div 1000000) fl)"

text \<open>A report of bytes on the connection of \<open>nodeID\<close>.\<close>

definition metrics_received :: "time \<Rightarrow> string \<Rightarrow> edge_delta list \<Rightarrow> fleet \<Rightarrow> fleet" where
  "metrics_received now nodeID ds fl =
     (case queue_edge_metrics now nodeID ds (fl_rows fl, fl_leases fl) of (rows, leases) \<Rightarrow>
        fl\<lparr>fl_seen := note_delivery nodeID (length ds) now (fl_seen fl), fl_rows := rows, fl_leases := leases\<rparr>)"

section \<open>The set of nodes\<close>

definition central_aliases :: "string list" where "central_aliases = [''central'', ''eu'']"

text \<open>An edge under its identity and under each meaningful part of it.\<close>

definition region_parts :: "string \<Rightarrow> string list" where
  "region_parts edgeID =
     filter (\<lambda>p. p \<notin> {[], ''aws'', ''edge'', ''node''})
       (map trim_space (split_on (CHR ''-'') (trim_prefix (trim_prefix edgeID ''aws-'') ''edge-'')))"

definition add_edge_region_names :: "string \<Rightarrow> string \<Rightarrow> (string, string) table \<Rightarrow> (string, string) table" where
  "add_edge_region_names edgeID url rs = fold (\<lambda>p. put p url) (edgeID # region_parts edgeID) rs"

definition add_edge_node ::
  "(string, nat) table \<Rightarrow> edge_node \<Rightarrow> (string, string) table \<times> (string, string) table
   \<Rightarrow> (string, string) table \<times> (string, string) table" where
  "add_edge_node conns n acc =
     (case acc of (up, down) \<Rightarrow>
        (if en_url n = [] then (up, down)
         else if get conns (en_id n) \<noteq> None then (add_edge_region_names (en_id n) (en_url n) up, down)
         else (up, add_edge_region_names (en_id n) (en_url n) down)))"

definition advertised_regions ::
  "string list \<Rightarrow> string \<Rightarrow> edge_node list \<Rightarrow> (string, nat) table \<Rightarrow> (string, string) table \<times> (string, string) table" where
  "advertised_regions domains centralURL nodes conns =
     (let url = (if centralURL = [] then ''https://tunnel.'' @ hd domains else centralURL);
          own = (if domains = [] then [] else fold (\<lambda>a. put a url) central_aliases [])
      in fold (add_edge_node conns) nodes (own, []))"

text \<open>What is hashed: each name and its address, each with a zero byte behind it, by name.\<close>

definition node_set_stream :: "(string, string) table \<Rightarrow> string" where
  "node_set_stream regions =
     concat (map (\<lambda>name. name @ [CHR 0x00] @ the (get regions name) @ [CHR 0x00]) (sort (map fst regions)))"

definition node_set_fingerprint ::
  "(string \<Rightarrow> string) \<Rightarrow> string list \<Rightarrow> string \<Rightarrow> edge_node list \<Rightarrow> string \<Rightarrow> (string, nat) table \<Rightarrow> string" where
  "node_set_fingerprint digest domains centralURL nodes upstream conns =
     (if nodes = [] then upstream
      else (let regions = fst (advertised_regions domains centralURL nodes conns)
            in if regions = [] then [] else take 12 (digest (node_set_stream regions))))"

section \<open>What the control plane tells its edges\<close>

definition broadcast :: "control_frame \<Rightarrow> fleet \<Rightarrow> fleet" where
  "broadcast m fl = fold (\<lambda>(_, c). write_frame m c) (fl_conns fl) fl"

definition send_to :: "string \<Rightarrow> control_frame \<Rightarrow> fleet \<Rightarrow> bool \<times> fleet" where
  "send_to nodeID m fl =
     (case get (fl_conns fl) nodeID of None \<Rightarrow> (False, fl) | Some c \<Rightarrow> (True, write_frame m c fl))"

definition broadcast_access_control_update :: "string \<Rightarrow> string \<Rightarrow> string \<Rightarrow> string \<Rightarrow> fleet \<Rightarrow> fleet" where
  "broadcast_access_control_update sub pc wl am = broadcast (Fr_access sub pc wl am)"

definition broadcast_maintenance :: "string \<Rightarrow> int \<Rightarrow> string \<Rightarrow> fleet \<Rightarrow> fleet" where
  "broadcast_maintenance action mins reason = broadcast (Fr_maintenance action mins reason)"

definition send_edge_schedule :: "string \<Rightarrow> node_schedule \<Rightarrow> fleet \<Rightarrow> fleet" where
  "send_edge_schedule nodeID sched fl = snd (send_to nodeID (Fr_schedule sched) fl)"

definition broadcast_node_shutdown_warning :: "time \<Rightarrow> string \<Rightarrow> int \<Rightarrow> string \<Rightarrow> fleet \<Rightarrow> fleet" where
  "broadcast_node_shutdown_warning now nodeID seconds reason fl =
     (let m = Fr_shutdown_warning seconds (unix now + seconds) reason
      in if nodeID \<noteq> [] then snd (send_to nodeID m fl) else broadcast m fl)"

definition send_edge_kick :: "string \<Rightarrow> string \<Rightarrow> fleet \<Rightarrow> bool \<times> fleet" where
  "send_edge_kick nodeID sub = send_to nodeID (Fr_kick sub)"

definition send_edge_headers :: "string \<Rightarrow> string \<Rightarrow> (string, string) table \<Rightarrow> fleet \<Rightarrow> bool \<times> fleet" where
  "send_edge_headers nodeID host hs = send_to nodeID (Fr_headers host hs)"

definition send_edge_restart :: "string \<Rightarrow> fleet \<Rightarrow> bool \<times> fleet" where
  "send_edge_restart nodeID = send_to nodeID Fr_restart"

definition send_edge_maintenance :: "string \<Rightarrow> string \<Rightarrow> int \<Rightarrow> string \<Rightarrow> fleet \<Rightarrow> bool \<times> fleet" where
  "send_edge_maintenance nodeID action mins reason = send_to nodeID (Fr_maintenance action mins reason)"

definition send_edge_kick_all :: "string \<Rightarrow> fleet \<Rightarrow> bool \<times> fleet" where
  "send_edge_kick_all nodeID = send_to nodeID (Fr_kick ''*'')"

definition close_edge_control_conn :: "string \<Rightarrow> fleet \<Rightarrow> fleet" where
  "close_edge_control_conn nodeID fl =
     (case get (fl_conns fl) nodeID of None \<Rightarrow> fl | Some c \<Rightarrow> fl\<lparr>fl_closed := fl_closed fl @ [c]\<rparr>)"

text \<open>
  A change of the table starts a broadcast beside what goes on: it reads the set of nodes first and writes it to the
  connections later. \<open>ro_owed\<close> broadcasts have not read yet, \<open>ro_pending\<close> is what the others have read and not written.
\<close>

record rollout =
  ro_fleet :: fleet
  ro_owed :: nat
  ro_pending :: "string list"

datatype rollout_event = Node_up nat string string string | Node_down nat string | Set_read | Set_written nat

definition rollout_step :: "((string, nat) table \<Rightarrow> string) \<Rightarrow> rollout_event \<Rightarrow> rollout \<Rightarrow> rollout" where
  "rollout_step fingerprint ev ro =
     (case ev of
        Node_up c node version ip \<Rightarrow> ro\<lparr>ro_fleet := attach c node version ip (ro_fleet ro), ro_owed := ro_owed ro + 1\<rparr>
      | Node_down c node \<Rightarrow>
          (case detach c node (ro_fleet ro) of (active, fl) \<Rightarrow>
             ro\<lparr>ro_fleet := fl, ro_owed := (if active then ro_owed ro + 1 else ro_owed ro)\<rparr>)
      | Set_read \<Rightarrow>
          (if 0 < ro_owed ro
           then ro\<lparr>ro_owed := ro_owed ro - 1, ro_pending := ro_pending ro @ [fingerprint (fl_conns (ro_fleet ro))]\<rparr> else ro)
      | Set_written i \<Rightarrow>
          (if i < length (ro_pending ro)
           then ro\<lparr>ro_fleet := broadcast (Fr_node_set (ro_pending ro ! i)) (ro_fleet ro),
                   ro_pending := take i (ro_pending ro) @ drop (Suc i) (ro_pending ro)\<rparr>
           else ro))"

section \<open>What an edge does\<close>

text \<open>Every tunnel of this gateway, by the prefix of its lease.\<close>

definition kick_all_local_leases :: "time \<Rightarrow> registry \<Rightarrow> registry" where
  "kick_all_local_leases now r = fold (\<lambda>l r. snd (kick_lease now (l_subdomainPrefix l) r)) (list_leases r) r"

text \<open>A collection of logs asked of a client; one is outstanding for a user. An edge does not learn who asked.\<close>

record diagnostics_command =
  dc_id :: string
  dc_userID :: string
  dc_requestedBy :: string
  dc_queuedAt :: time
  dc_expiresAt :: "time option"

definition diagnostics_command_ttl :: duration where "diagnostics_command_ttl = 5 * minute"

definition queue_forwarded_diagnostics_collect ::
  "time \<Rightarrow> string \<Rightarrow> string \<Rightarrow> duration \<Rightarrow> (string, diagnostics_command list) table \<Rightarrow> (string, diagnostics_command list) table" where
  "queue_forwarded_diagnostics_collect now uid request expiresIn cmds =
     (if uid = [] \<or> request = [] then cmds
      else put uid [\<lparr>dc_id = request, dc_userID = uid, dc_requestedBy = [], dc_queuedAt = now,
             dc_expiresAt = Some (now + (if expiresIn \<le> 0 \<or> diagnostics_command_ttl < expiresIn then diagnostics_command_ttl else expiresIn))\<rparr>] cmds)"

record edge_gateway =
  gw_edge :: edge
  gw_shutdownReason :: string
  gw_maintenance :: bool
  gw_bans :: "(string, ban) table"
  gw_schedule :: node_schedule
  gw_nodeSet :: string
  gw_ring :: keyring
  gw_reporter :: reporter
  gw_commands :: "(string, diagnostics_command list) table"
  gw_uplink :: bool
  gw_running :: bool

datatype upward = Up_metrics "edge_delta list" | Up_secrets_ack string "string list"

definition with_registry :: "(registry \<Rightarrow> registry) \<Rightarrow> edge_gateway \<Rightarrow> edge_gateway" where
  "with_registry f g = g\<lparr>gw_edge := (gw_edge g)\<lparr>ed_registry := f (ed_registry (gw_edge g))\<rparr>\<rparr>"

text \<open>The frame of a warning records it and reports the bytes at once; \<open>oks\<close> are the answers of the connection.\<close>

definition warned :: "time \<Rightarrow> bool list \<Rightarrow> int \<Rightarrow> string \<Rightarrow> edge_gateway \<Rightarrow> upward list \<times> edge_gateway" where
  "warned now oks due reason g =
     (case flush_edge_metrics now (gw_uplink g) oks (ed_registry (gw_edge g), gw_reporter g) of
        (frames, reg, rep) \<Rightarrow>
          (map Up_metrics frames,
           g\<lparr>gw_edge := (gw_edge g)\<lparr>ed_pendingShutdownAt := due, ed_registry := reg\<rparr>, gw_shutdownReason := reason, gw_reporter := rep\<rparr>))"

definition apply_control_frame ::
  "time \<Rightarrow> bool list \<Rightarrow> control_frame \<Rightarrow> edge_gateway \<Rightarrow> upward list \<times> edge_gateway" where
  "apply_control_frame now oks m g =
     (case m of
        Fr_restart \<Rightarrow> ([], g\<lparr>gw_running := False\<rparr>)
      | Fr_route e \<Rightarrow> ([], g\<lparr>gw_edge := apply_route_event e (gw_edge g)\<rparr>)
      | Fr_access sub pc wl am \<Rightarrow> ([], with_registry (snd \<circ> set_access_controls_for_subdomain sub pc wl am) g)
      | Fr_blacklist action ip expires \<Rightarrow> ([], g\<lparr>gw_bans := apply_blacklist_frame (action, ip, expires) (gw_bans g)\<rparr>)
      | Fr_maintenance action _ _ \<Rightarrow>
          ([], if action = ''enable'' then with_registry (kick_all_local_leases now) (g\<lparr>gw_maintenance := True\<rparr>)
               else if action = ''disable'' then g\<lparr>gw_maintenance := False\<rparr> else g)
      | Fr_shutdown_warning _ due reason \<Rightarrow> warned now oks due reason g
      | Fr_schedule sched \<Rightarrow> ([], g\<lparr>gw_schedule := sched\<rparr>)
      | Fr_node_set fp \<Rightarrow> ([], g\<lparr>gw_nodeSet := fp\<rparr>)
      | Fr_secrets s \<Rightarrow>
          (case apply_secrets_frame s (gw_ring g) of
             (None, ring) \<Rightarrow> ([], g\<lparr>gw_ring := ring\<rparr>)
           | (Some (current, ids), ring) \<Rightarrow> (if gw_uplink g then [Up_secrets_ack current ids] else [], g\<lparr>gw_ring := ring\<rparr>))
      | Fr_kick sub \<Rightarrow>
          ([], if sub = ''*'' \<or> sub = [] then with_registry (kick_all_local_leases now) g
               else with_registry (snd \<circ> kick_lease now sub) g)
      | Fr_quota q \<Rightarrow> ([], with_registry (apply_quota_frame now q) g)
      | Fr_headers host hs \<Rightarrow> ([], with_registry (snd \<circ> update_lease_headers host hs) g)
      | Fr_diagnostics uid request expiresIn \<Rightarrow>
          ([], g\<lparr>gw_commands := queue_forwarded_diagnostics_collect now uid request expiresIn (gw_commands g)\<rparr>)
      | _ \<Rightarrow> ([], g))"

section \<open>A lost channel\<close>

definition outage_limit :: duration where "outage_limit = 3 * minute"

text \<open>What happens to the edge's loop: a dial that fails, a handshake that is not completed, and a session: its start, a
  frame in it, its end.\<close>

datatype uplink_event =
    Dial_failed time | Handshake_failed time | Session_opened time | Frame_received time "bool list" control_frame | Session_ended time

record uplink =
  ul_lostAt :: "time option"
  ul_gateway :: edge_gateway

definition uplink_step :: "uplink_event \<Rightarrow> uplink \<Rightarrow> uplink" where
  "uplink_step ev u =
     (case ev of
        Dial_failed now \<Rightarrow>
          (case ul_lostAt u of
             None \<Rightarrow> u\<lparr>ul_lostAt := Some now\<rparr>
           | Some t0 \<Rightarrow>
               if outage_limit < now - t0 then u\<lparr>ul_gateway := with_registry (kick_all_local_leases now) (ul_gateway u)\<rparr> else u)
      | Handshake_failed now \<Rightarrow> u\<lparr>ul_lostAt := None\<rparr>
      | Session_opened now \<Rightarrow> u\<lparr>ul_lostAt := None, ul_gateway := (ul_gateway u)\<lparr>gw_uplink := True\<rparr>\<rparr>
      | Frame_received now oks m \<Rightarrow> u\<lparr>ul_gateway := snd (apply_control_frame now oks m (ul_gateway u))\<rparr>
      | Session_ended now \<Rightarrow> u\<lparr>ul_lostAt := Some now, ul_gateway := (ul_gateway u)\<lparr>gw_uplink := False\<rparr>\<rparr>)"

end
