(* ===== verification/Edge_Outage.thy ===== *)
theory Edge_Outage
  imports Edge_Channel Registry_Teardown Registry_Views
begin

text \<open>
  What ends the tunnels of an edge: the frames of maintenance and of a kick, and a channel that stays lost.
\<close>

section \<open>Kicking every lease\<close>

definition gateway_ok :: "registry \<Rightarrow> bool" where
  "gateway_ok r \<longleftrightarrow> registry_wf r \<and> routes_owned r \<and> (\<forall>h l. get_lease r h = Some l \<longrightarrow> l_sessionToken l \<noteq> [])"

text \<open>The hosts that begin with a prefix and a dot.\<close>

definition hosts_under :: "string \<Rightarrow> registry \<Rightarrow> string set" where
  "hosts_under p r = {h. get_lease r h \<noteq> None \<and> has_prefix h (p @ ''.'')}"

definition kick_each :: "time \<Rightarrow> string list \<Rightarrow> registry \<Rightarrow> registry" where
  "kick_each now qs r = fold (\<lambda>q r. snd (kick_lease now q r)) qs r"

lemma kick_all_each: "kick_all_local_leases now r = kick_each now (map l_subdomainPrefix (list_leases r)) r"
  by (simp add: kick_all_local_leases_def kick_each_def fold_map comp_def)

text \<open>The token a host is routed for.\<close>

definition routed_for :: "registry \<Rightarrow> string \<Rightarrow> string option" where
  "routed_for r h = map_option l_sessionToken (get_lease r h)"

lemma routed_for_None: "routed_for r h = None \<longleftrightarrow> get_lease r h = None"
  by (simp add: routed_for_def)

lemma hosts_under_routed: "hosts_under p r = {h. routed_for r h \<noteq> None \<and> has_prefix h (p @ ''.'')}"
  by (simp add: hosts_under_def routed_for_def)

lemma clean_lease_routed:
  assumes "registry_wf r" "routes_owned r"
  shows "routed_for (clean_lease now tok r) h = (if routed_for r h = Some tok then None else routed_for r h)"
proof -
  have "l_sessionToken (deref (clean_lease now tok r) q) = l_sessionToken (deref r q)" for q
    by (rule same_leaseD [OF clean_lease_deref])
  then show ?thesis
    by (simp add: routed_for_def get_lease_def clean_lease_routes_aux [OF assms] split: option.split)
qed

lemma gateway_ok_token: "gateway_ok r \<Longrightarrow> routed_for r h \<noteq> Some []"
  by (auto simp: gateway_ok_def routed_for_def)

lemma kick_lease_routed:
  assumes "gateway_ok r"
  shows "gateway_ok (snd (kick_lease now p r))"
    and "hosts_under p r = {} \<Longrightarrow> snd (kick_lease now p r) = r"
    and "hosts_under p r \<noteq> {} \<Longrightarrow> \<exists>h0\<in>hosts_under p r. \<exists>tok. routed_for r h0 = Some tok \<and>
      (\<forall>h. routed_for (snd (kick_lease now p r)) h = (if routed_for r h = Some tok then None else routed_for r h))"
proof -
  have ok: "registry_wf r" "routes_owned r" "\<And>h l. get_lease r h = Some l \<Longrightarrow> l_sessionToken l \<noteq> []"
    using assms by (auto simp: gateway_ok_def)
  have kick: "(fst (kick_lease now p r) \<longleftrightarrow> (\<exists>h. get_lease r h \<noteq> None \<and> has_prefix h (p @ ''.'')))
      \<and> (if fst (kick_lease now p r)
         then \<exists>h l. get_lease r h = Some l \<and> has_prefix h (p @ ''.'') \<and> snd (kick_lease now p r) = clean_lease now (l_sessionToken l) r
         else snd (kick_lease now p r) = r)"
    by (rule kick_lease_ends_one_session [OF ok(1,2)]) (rule ok(3))
  show none: "snd (kick_lease now p r) = r" if "hosts_under p r = {}"
    using kick that by (auto simp: hosts_under_def split: if_splits)
  have some: "\<exists>h0\<in>hosts_under p r. \<exists>tok. routed_for r h0 = Some tok \<and> snd (kick_lease now p r) = clean_lease now tok r"
    if "hosts_under p r \<noteq> {}"
  proof -
    have "fst (kick_lease now p r)" using kick that by (auto simp: hosts_under_def)
    then obtain h0 l where "get_lease r h0 = Some l" "has_prefix h0 (p @ ''.'')"
      "snd (kick_lease now p r) = clean_lease now (l_sessionToken l) r"
      using kick by auto
    then show ?thesis by (intro bexI [of _ h0] exI [of _ "l_sessionToken l"]) (simp_all add: hosts_under_def routed_for_def)
  qed
  then show "\<exists>h0\<in>hosts_under p r. \<exists>tok. routed_for r h0 = Some tok \<and>
      (\<forall>h. routed_for (snd (kick_lease now p r)) h = (if routed_for r h = Some tok then None else routed_for r h))"
    if "hosts_under p r \<noteq> {}"
    using that clean_lease_routed [OF ok(1,2)] by metis
  have "gateway_ok (clean_lease now tok r)" for tok
  proof -
    have "l_sessionToken l \<noteq> []" if "get_lease (clean_lease now tok r) h = Some l" for h l
    proof -
      have "routed_for (clean_lease now tok r) h = Some (l_sessionToken l)" using that by (simp add: routed_for_def)
      then have "routed_for r h = Some (l_sessionToken l)" using clean_lease_routed [OF ok(1,2), of now tok h] by (simp split: if_splits)
      then show ?thesis using gateway_ok_token [OF assms, of h] by auto
    qed
    then show ?thesis using clean_lease_wf_aux [OF ok(1)] clean_lease_owned_aux [OF ok(1,2)] by (simp add: gateway_ok_def)
  qed
  then show "gateway_ok (snd (kick_lease now p r))" using none some assms by (cases "hosts_under p r = {}") auto
qed

lemma hosts_under_finite: "finite (hosts_under p r)"
proof (rule finite_subset)
  show "hosts_under p r \<subseteq> dom (map_of (r_leases r))" by (auto simp: hosts_under_def get_lease_def get_def)
qed (rule finite_dom_map_of)

lemma kick_lease_hosts:
  assumes "gateway_ok r"
  shows "hosts_under p (snd (kick_lease now q r)) \<subseteq> hosts_under p r"
    and "hosts_under q r \<noteq> {} \<Longrightarrow> hosts_under q (snd (kick_lease now q r)) \<subset> hosts_under q r"
proof -
  have eq: "hosts_under q r = {} \<Longrightarrow> snd (kick_lease now q r) = r" by (rule kick_lease_routed(2) [OF assms])
  have step: "\<exists>h0\<in>hosts_under q r. \<exists>tok. routed_for r h0 = Some tok \<and>
      (\<forall>h. routed_for (snd (kick_lease now q r)) h = (if routed_for r h = Some tok then None else routed_for r h))"
    if "hosts_under q r \<noteq> {}" by (rule kick_lease_routed(3) [OF assms that])
  then show "hosts_under p (snd (kick_lease now q r)) \<subseteq> hosts_under p r"
    using eq by (cases "hosts_under q r = {}") (auto simp: hosts_under_routed split: if_splits)
  show "hosts_under q (snd (kick_lease now q r)) \<subset> hosts_under q r" if ne: "hosts_under q r \<noteq> {}"
  proof -
    obtain h0 tok where h0: "h0 \<in> hosts_under q r" "routed_for r h0 = Some tok"
      "\<And>h. routed_for (snd (kick_lease now q r)) h = (if routed_for r h = Some tok then None else routed_for r h)"
      using step [OF ne] by blast
    then have "h0 \<notin> hosts_under q (snd (kick_lease now q r))" by (simp add: hosts_under_routed)
    moreover have "hosts_under q (snd (kick_lease now q r)) \<subseteq> hosts_under q r"
      using h0(3) by (auto simp: hosts_under_routed split: if_splits)
    ultimately show ?thesis using h0(1) by blast
  qed
qed

lemma kick_each_empties:
  assumes "gateway_ok r" "card (hosts_under p r) \<le> count_list qs p"
  shows "hosts_under p (kick_each now qs r) = {}"
  using assms
proof (induction qs arbitrary: r)
  case Nil
  then show ?case using hosts_under_finite [of p r] by (simp add: kick_each_def)
next
  case (Cons q qs)
  let ?r = "snd (kick_lease now q r)"
  have "card (hosts_under p ?r) \<le> count_list qs p"
  proof (cases "q = p \<and> hosts_under p r \<noteq> {}")
    case True
    then have "hosts_under p ?r \<subset> hosts_under p r" using kick_lease_hosts(2) [OF Cons.prems(1), where q = p] by simp
    then have "card (hosts_under p ?r) < card (hosts_under p r)" by (rule psubset_card_mono [OF hosts_under_finite])
    then show ?thesis using Cons.prems(2) True by simp
  next
    case False
    have "card (hosts_under p ?r) \<le> card (hosts_under p r)"
      by (rule card_mono [OF hosts_under_finite kick_lease_hosts(1) [OF Cons.prems(1)]])
    then show ?thesis using Cons.prems(2) False by (auto split: if_splits)
  qed
  then show ?case using Cons.IH kick_lease_routed(1) [OF Cons.prems(1)] by (simp add: kick_each_def)
qed

lemma kick_each_spares:
  assumes "gateway_ok r" "routed_for r h = Some tok"
    and "\<And>h' q. routed_for r h' = Some tok \<Longrightarrow> q \<in> set qs \<Longrightarrow> \<not> has_prefix h' (q @ ''.'')"
  shows "routed_for (kick_each now qs r) h = Some tok"
  using assms
proof (induction qs arbitrary: r)
  case (Cons q qs)
  let ?r = "snd (kick_lease now q r)"
  have same: "routed_for ?r h' = Some tok \<longleftrightarrow> routed_for r h' = Some tok" for h'
  proof (cases "hosts_under q r = {}")
    case False
    obtain h0 t0 where "h0 \<in> hosts_under q r" "routed_for r h0 = Some t0"
      "\<And>h. routed_for ?r h = (if routed_for r h = Some t0 then None else routed_for r h)"
      using kick_lease_routed(3) [OF Cons.prems(1) False] by blast
    moreover from this have "t0 \<noteq> tok" using Cons.prems(3) by (auto simp: hosts_under_def)
    ultimately show ?thesis by simp
  qed (simp add: kick_lease_routed(2) [OF Cons.prems(1)])
  have "routed_for (kick_each now qs ?r) h = Some tok"
  proof (rule Cons.IH)
    show "gateway_ok ?r" by (rule kick_lease_routed(1) [OF Cons.prems(1)])
    show "routed_for ?r h = Some tok" using same Cons.prems(2) by blast
    show "\<not> has_prefix h' (q' @ ''.'')" if "routed_for ?r h' = Some tok" "q' \<in> set qs" for h' q'
      using Cons.prems(3) [of h' q'] same that by simp
  qed
  then show ?case by (simp add: kick_each_def)
qed (simp add: kick_each_def)

text \<open>Every host under the prefix belongs to a lease with this prefix.\<close>

definition prefix_owned :: "string \<Rightarrow> registry \<Rightarrow> bool" where
  "prefix_owned p r \<longleftrightarrow> (\<forall>h l. get_lease r h = Some l \<and> has_prefix h (p @ ''.'') \<longrightarrow> l_subdomainPrefix l = p)"

lemma count_list_map_filter: "count_list (map f xs) p = length (filter (\<lambda>x. f x = p) xs)"
  by (induction xs) auto

lemma listed_often_enough:
  assumes "registry_wf r" "prefix_owned p r"
  shows "card (hosts_under p r) \<le> count_list (map l_subdomainPrefix (list_leases r)) p"
proof -
  let ?own = "filter (\<lambda>(h, q). l_subdomainPrefix (deref r q) = p) (r_leases r)"
  have "hosts_under p r \<subseteq> fst ` set ?own"
  proof
    fix h assume "h \<in> hosts_under p r"
    then obtain q where q: "get (r_leases r) h = Some q" "has_prefix h (p @ ''.'')"
      by (auto simp: hosts_under_def get_lease_def)
    then have "l_subdomainPrefix (deref r q) = p" using assms(2) by (auto simp: prefix_owned_def get_lease_def)
    moreover have "(h, q) \<in> set (r_leases r)" using q(1) by (simp add: get_def map_of_SomeD)
    ultimately show "h \<in> fst ` set ?own" by force
  qed
  then have "card (hosts_under p r) \<le> card (fst ` set ?own)" by (intro card_mono) simp
  also have "\<dots> \<le> length ?own" using card_length [of "map fst ?own"] by simp
  also have "\<dots> = count_list (map l_subdomainPrefix (list_leases r)) p"
    by (simp add: list_leases_def sort_by_host_sort count_list_map_filter filter_sort filter_map comp_def case_prod_unfold snapshot_lease_def)
  finally show ?thesis .
qed

text \<open>C21: Maintenance ends the named tunnels of a gateway, all of them and only named ones. Under a prefix whose hosts are all
  its own no host is routed afterwards, however many sessions share the prefix; and a session none of whose hosts begins
  with the prefix of some lease and a dot, as with one that registered a domain of its own only, keeps every route.
\<close>
theorem maintenance_ends_named_tunnels:
  assumes "registry_wf r" "routes_owned r" "\<And>h l. get_lease r h = Some l \<Longrightarrow> l_sessionToken l \<noteq> []"
    and "get_lease r h = Some l"
  shows "((\<forall>h' l'. get_lease r h' = Some l' \<and> has_prefix h' (p @ ''.'') \<longrightarrow> l_subdomainPrefix l' = p) \<and> has_prefix h (p @ ''.'') \<longrightarrow>
      get_lease (kick_all_local_leases now r) h = None) \<and>
    ((\<forall>h' l'. get_lease r h' = Some l' \<and> l_sessionToken l' = l_sessionToken l \<longrightarrow>
        (\<forall>k\<in>set (list_leases r). \<not> has_prefix h' (l_subdomainPrefix k @ ''.''))) \<longrightarrow>
      map_option l_sessionToken (get_lease (kick_all_local_leases now r) h) = Some (l_sessionToken l))"
proof (intro conjI impI)
  have ok: "gateway_ok r" using assms(1-3) by (auto simp: gateway_ok_def)
  assume "(\<forall>h' l'. get_lease r h' = Some l' \<and> has_prefix h' (p @ ''.'') \<longrightarrow> l_subdomainPrefix l' = p) \<and> has_prefix h (p @ ''.'')"
  then have p: "prefix_owned p r" "has_prefix h (p @ ''.'')" by (auto simp: prefix_owned_def)
  have "hosts_under p (kick_all_local_leases now r) = {}"
    unfolding kick_all_each by (rule kick_each_empties [OF ok listed_often_enough [OF assms(1) p(1)]])
  then show "get_lease (kick_all_local_leases now r) h = None" using p(2) by (auto simp: hosts_under_def)
next
  have ok: "gateway_ok r" using assms(1-3) by (auto simp: gateway_ok_def)
  assume spared: "\<forall>h' l'. get_lease r h' = Some l' \<and> l_sessionToken l' = l_sessionToken l \<longrightarrow>
        (\<forall>k\<in>set (list_leases r). \<not> has_prefix h' (l_subdomainPrefix k @ ''.''))"
  have "routed_for (kick_all_local_leases now r) h = Some (l_sessionToken l)"
    unfolding kick_all_each
  proof (rule kick_each_spares [OF ok])
    show "routed_for r h = Some (l_sessionToken l)" using assms(4) by (simp add: routed_for_def)
    show "\<not> has_prefix h' (q @ ''.'')" if own: "routed_for r h' = Some (l_sessionToken l)" and q: "q \<in> set (map l_subdomainPrefix (list_leases r))" for h' q
    proof -
      obtain l' where "get_lease r h' = Some l'" "l_sessionToken l' = l_sessionToken l" using own by (auto simp: routed_for_def)
      then have "\<forall>k\<in>set (list_leases r). \<not> has_prefix h' (l_subdomainPrefix k @ ''.'')" using spared by blast
      then show ?thesis using q by auto
    qed
  qed
  then show "map_option l_sessionToken (get_lease (kick_all_local_leases now r) h) = Some (l_sessionToken l)"
    by (simp add: routed_for_def)
qed


section \<open>A channel that stays lost\<close>



text \<open>The control plane could not be reached since \<open>t\<close>: a session ended then, or the first dial failed after a connection
  was opened or after the start, and no dial has succeeded since. Frames do not bear on it.\<close>

definition is_frame :: "uplink_event \<Rightarrow> bool" where
  "is_frame ev \<longleftrightarrow> (\<exists>now oks m. ev = Frame_received now oks m)"

definition connects :: "uplink_event \<Rightarrow> bool" where
  "connects ev \<longleftrightarrow> (\<exists>now. ev = Handshake_failed now \<or> ev = Session_opened now)"

definition link_events :: "uplink_event list \<Rightarrow> uplink_event list" where
  "link_events evs = filter (\<lambda>ev. \<not> is_frame ev) evs"

definition unreachable_since :: "uplink_event list \<Rightarrow> time \<Rightarrow> bool" where
  "unreachable_since evs t \<longleftrightarrow>
     (\<exists>pre e post. link_events evs = pre @ e # post \<and> (\<forall>d\<in>set post. \<exists>now. d = Dial_failed now) \<and>
        (e = Session_ended t \<or> e = Dial_failed t \<and> (pre = [] \<or> connects (last pre))))"

lemma link_events_snoc:
  "link_events (evs @ [ev]) = (if is_frame ev then link_events evs else link_events evs @ [ev])"
  by (simp add: link_events_def)

lemma connects_simps [simp]:
  "\<not> connects (Dial_failed now)" "connects (Handshake_failed now)" "connects (Session_opened now)" "\<not> connects (Session_ended now)"
  "\<not> is_frame (Dial_failed now)" "\<not> is_frame (Handshake_failed now)" "\<not> is_frame (Session_opened now)"
  "\<not> is_frame (Session_ended now)" "is_frame (Frame_received now oks m)"
  by (simp_all add: connects_def is_frame_def)

lemma unreachable_frame: "is_frame ev \<Longrightarrow> unreachable_since (evs @ [ev]) t \<longleftrightarrow> unreachable_since evs t"
  by (simp add: unreachable_since_def link_events_snoc)

lemma unreachable_snoc:
  assumes "\<not> is_frame ev"
  shows "unreachable_since (evs @ [ev]) t \<longleftrightarrow>
     (\<exists>now. ev = Dial_failed now) \<and> unreachable_since evs t \<or>
     ev = Session_ended t \<or> ev = Dial_failed t \<and> (link_events evs = [] \<or> connects (last (link_events evs)))"
    (is "_ \<longleftrightarrow> ?now")
proof
  have link: "link_events (evs @ [ev]) = link_events evs @ [ev]" using assms by (simp add: link_events_snoc)
  assume "unreachable_since (evs @ [ev]) t"
  then obtain pre e post where *: "link_events evs @ [ev] = pre @ e # post" "\<forall>d\<in>set post. \<exists>now. d = Dial_failed now"
    "e = Session_ended t \<or> e = Dial_failed t \<and> (pre = [] \<or> connects (last pre))"
    unfolding unreachable_since_def link by blast
  show ?now
  proof (cases post rule: rev_cases)
    case (snoc ps p)
    then have "link_events evs = pre @ e # ps" "ev = p" "\<forall>d\<in>set ps. \<exists>now. d = Dial_failed now" "\<exists>now. p = Dial_failed now"
      using *(1,2) by auto
    then show ?thesis using *(3) unfolding unreachable_since_def by blast
  qed (use * in simp)
next
  have link: "link_events (evs @ [ev]) = link_events evs @ [ev]" using assms by (simp add: link_events_snoc)
  assume ?now
  then consider (old) now where "ev = Dial_failed now" "unreachable_since evs t"
    | (new) "ev = Session_ended t \<or> ev = Dial_failed t \<and> (link_events evs = [] \<or> connects (last (link_events evs)))" by blast
  then show "unreachable_since (evs @ [ev]) t"
  proof cases
    case old
    then obtain pre e post where "link_events evs = pre @ e # post" "\<forall>d\<in>set post. \<exists>now. d = Dial_failed now"
      "e = Session_ended t \<or> e = Dial_failed t \<and> (pre = [] \<or> connects (last pre))"
      unfolding unreachable_since_def by blast
    then have "link_events (evs @ [ev]) = pre @ e # (post @ [ev])" "\<forall>d\<in>set (post @ [ev]). \<exists>now. d = Dial_failed now"
      "e = Session_ended t \<or> e = Dial_failed t \<and> (pre = [] \<or> connects (last pre))"
      unfolding link using old(1) by auto
    then show ?thesis unfolding unreachable_since_def by blast
  next
    case new
    then show ?thesis unfolding unreachable_since_def link
      by (intro exI [of _ "link_events evs"] exI [of _ ev] exI [of _ "[]"]) simp
  qed
qed

lemma reachable_exact: "(\<nexists>t. unreachable_since evs t) \<longleftrightarrow> link_events evs = [] \<or> connects (last (link_events evs))"
proof (induction evs rule: rev_induct)
  case (snoc ev evs)
  show ?case
  proof (cases "is_frame ev")
    case True
    then show ?thesis using snoc by (simp add: unreachable_frame link_events_snoc)
  next
    case False
    then show ?thesis using snoc unfolding unreachable_snoc [OF False]
      by (cases ev) (auto simp: link_events_snoc)
  qed
qed (simp add: unreachable_since_def link_events_def)

lemma unreachable_unique: "unreachable_since evs t \<Longrightarrow> unreachable_since evs u \<Longrightarrow> t = u"
proof (induction evs rule: rev_induct)
  case (snoc ev evs)
  have none: "\<not> unreachable_since evs t" if "link_events evs = [] \<or> connects (last (link_events evs))" for t
    using reachable_exact [of evs] that by blast
  show ?case
  proof (cases "is_frame ev")
    case True
    then show ?thesis using snoc by (simp add: unreachable_frame)
  next
    case False
    show ?thesis using snoc unfolding unreachable_snoc [OF False] by (cases ev) (use none in blast)+
  qed
qed (simp add: unreachable_since_def link_events_def)







text \<open>A tunnel on a domain of its user's own has no prefix: the frame of maintenance leaves it up.\<close>

lemma ex_custom_domain_values:
  "r_leases ex_custom_domain = [(''demo.acme.com'', 0)]" "r_sessions ex_custom_domain = [(''t9'', [0])]"
  "length (r_heap ex_custom_domain) = 1" "l_subdomainPrefix (deref ex_custom_domain 0) = []"
  "l_fullHost (deref ex_custom_domain 0) = ''demo.acme.com''" "l_sessionToken (deref ex_custom_domain 0) = ''t9''"
  by (simp_all add: ex_custom_domain_def new_registry_def eval_register)

lemma maintenance_ends_named_tunnels_witness:
  "map_option l_sessionToken (get_lease (kick_all_local_leases 0 ex_custom_domain) ''demo.acme.com'') = Some ''t9''"
proof -
  have wf: "registry_wf ex_custom_domain" "routes_owned ex_custom_domain"
    by (auto simp: registry_wf_def routes_owned_def session_pointers_def ex_custom_domain_values is_table_def get_def split: if_splits)
  have lease: "get_lease ex_custom_domain h = (if h = ''demo.acme.com'' then Some (deref ex_custom_domain 0) else None)" for h
    by (simp add: get_lease_def ex_custom_domain_values get_def)
  have "list_leases ex_custom_domain = [snapshot_lease (deref ex_custom_domain 0)]"
    by (simp add: list_leases_def sort_by_host_sort ex_custom_domain_values)
  then have list: "\<forall>k\<in>set (list_leases ex_custom_domain). l_subdomainPrefix k = []"
    by (simp add: snapshot_lease_def ex_custom_domain_values)
  have "l_sessionToken l \<noteq> []" if "get_lease ex_custom_domain h = Some l" for h l
    using that by (auto simp: lease ex_custom_domain_values split: if_splits)
  from maintenance_ends_named_tunnels [OF wf this, where h = "''demo.acme.com''" and l = "deref ex_custom_domain 0" and p = "[]" and now = 0]
  show ?thesis using list by (auto simp: lease ex_custom_domain_values has_prefix_def)
qed

end
