(* ===== verification/Edge_Schedule.thy ===== *)
theory Edge_Schedule
  imports Edge_Channel Net_Addr
begin

text \<open>
  When a gateway is meant to be down and what the control plane makes of it: schedules and how they are written
  (\<open>provisioner/backend.go\<close>, \<open>provisioner/aws.go\<close>, \<open>server_edge.go\<close>), the health of the nodes, the warning of a scheduled
  stop, the power actions of the portal (\<open>server_edge_provisioner.go\<close>), and the answer to the heartbeat of a client
  (\<open>handleTunnelStatus\<close> in \<open>server.go\<close>).

  \<open>zone\<close> is the time zone database: the second of the local day at an instant, for the names it knows.
\<close>

section \<open>Times of day\<close>

text \<open>What \<open>%d\<close> of \<open>fmt.Sscanf\<close> reads: blanks, a sign, digits; and what is left.\<close>

definition split_sign :: "string \<Rightarrow> string \<times> string" where
  "split_sign s = (case s of c # cs \<Rightarrow> if c = CHR ''-'' \<or> c = CHR ''+'' then ([c], cs) else ([], s) | [] \<Rightarrow> ([], []))"

definition scan_int :: "string \<Rightarrow> (int \<times> string) option" where
  "scan_int s =
     (case split_sign (dropWhile (\<lambda>c. is_space c \<and> c \<noteq> CHR 0x0A) s) of
        (sign, r) \<Rightarrow> map_option (\<lambda>n. (n, dropWhile is_digit r)) (parse_int (sign @ takeWhile is_digit r)))"

definition parse_hhmm :: "string \<Rightarrow> (int \<times> int) option" where
  "parse_hhmm s =
     (if CHR '':'' \<notin> set s then None
      else case (parse_int (takeWhile (\<lambda>c. c \<noteq> CHR '':'') s), parse_int (tl (dropWhile (\<lambda>c. c \<noteq> CHR '':'') s))) of
        (Some h, Some m) \<Rightarrow> if 0 \<le> h \<and> h \<le> 23 \<and> 0 \<le> m \<and> m \<le> 59 then Some (h, m) else None
      | _ \<Rightarrow> None)"

definition hhmm_to_seconds :: "string \<Rightarrow> int option" where
  "hhmm_to_seconds s =
     (case scan_int s of
        Some (h, c # r) \<Rightarrow>
          (if c \<noteq> CHR '':'' then None
           else case scan_int r of
             None \<Rightarrow> None
           | Some (m, _) \<Rightarrow> if h < 0 \<or> 23 < h \<or> m < 0 \<or> 59 < m then None else Some (h * 3600 + m * 60))
      | _ \<Rightarrow> None)"

text \<open>The expression of the cloud's scheduler, and back.\<close>

definition hhmm_to_cron :: "string \<Rightarrow> string option" where
  "hhmm_to_cron s =
     (case parse_hhmm s of None \<Rightarrow> None
      | Some (h, m) \<Rightarrow> Some (''cron('' @ itoa m @ '' '' @ itoa h @ '' * * ? *)''))"

definition white_fields :: "string \<Rightarrow> string list" where
  "white_fields s = filter (\<lambda>f. f \<noteq> []) (split_on (CHR '' '') (map (\<lambda>c. if is_space c then CHR '' '' else c) s))"

definition two_digits :: "int \<Rightarrow> string" where
  "two_digits n =
     (if 0 \<le> n then (if n < 10 then ''0'' else []) @ itoa n
      else itoa n)"

definition cron_to_hhmm :: "string \<Rightarrow> string option" where
  "cron_to_hhmm cron =
     (case white_fields (trim_suffix (trim_prefix cron ''cron('') '')'') of
        m # h # _ \<Rightarrow>
          (case (parse_int m, parse_int h) of
             (Some mm, Some hh) \<Rightarrow> Some (two_digits hh @ '':'' @ two_digits mm)
           | _ \<Rightarrow> None)
      | _ \<Rightarrow> None)"

section \<open>Schedules\<close>

datatype schedule_error =
    No_timezone | Unknown_timezone | Bad_stop_time | Bad_start_time | Same_times | Too_short_uptime int

definition min_daily_uptime :: int where "min_daily_uptime = 3600"

text \<open>\<open>Validate\<close>, in seconds of the day.\<close>

definition validate_schedule :: "(string \<Rightarrow> (time \<Rightarrow> int) option) \<Rightarrow> node_schedule \<Rightarrow> schedule_error option" where
  "validate_schedule zone s =
     (if \<not> ns_enabled s then None
      else if ns_timezone s = [] then Some No_timezone
      else if zone (ns_timezone s) = None then Some Unknown_timezone
      else case parse_hhmm (ns_stopTime s) of None \<Rightarrow> Some Bad_stop_time
      | Some (sh, sm) \<Rightarrow>
         (case parse_hhmm (ns_startTime s) of None \<Rightarrow> Some Bad_start_time
          | Some (th, tm) \<Rightarrow>
             (let stop = sh * 3600 + sm * 60; start = th * 3600 + tm * 60; uptime = 86400 - (start - stop + 86400) mod 86400
              in if stop = start then Some Same_times
                 else if uptime < min_daily_uptime then Some (Too_short_uptime uptime)
                 else None)))"

text \<open>A node's two rules at the scheduler: expression, zone and whether it fires.\<close>

record cloud_rule =
  cr_expression :: string
  cr_timezone :: string
  cr_enabled :: bool

record cloud_rules =
  cs_stop :: "cloud_rule option"
  cs_start :: "cloud_rule option"

datatype cloud_error = Rule_missing | Bad_time | Cloud_failed | Bad_expression

text \<open>\<open>GetSchedule\<close>; the two flags say whether each call to the scheduler succeeds.\<close>

definition get_schedule :: "bool \<Rightarrow> bool \<Rightarrow> cloud_rules \<Rightarrow> cloud_error + node_schedule" where
  "get_schedule okStop okStart rules =
     (let none = \<lparr>ns_enabled = False, ns_stopTime = [], ns_startTime = [], ns_timezone = []\<rparr>
      in if \<not> okStop then Inl Cloud_failed
         else case cs_stop rules of None \<Rightarrow> Inr none
         | Some stop \<Rightarrow>
           (if \<not> okStart then Inl Cloud_failed
            else case cs_start rules of None \<Rightarrow> Inr none
            | Some start \<Rightarrow>
              (case (cron_to_hhmm (cr_expression stop), cron_to_hhmm (cr_expression start)) of
                 (Some stopAt, Some startAt) \<Rightarrow>
                   Inr \<lparr>ns_enabled = (cr_enabled stop \<and> cr_enabled start), ns_stopTime = stopAt, ns_startTime = startAt,
                         ns_timezone = cr_timezone stop\<rparr>
               | _ \<Rightarrow> Inl Bad_expression)))"

text \<open>One rule is rewritten in place; the flags are the two calls.\<close>

definition update_one :: "bool \<Rightarrow> bool \<Rightarrow> string \<Rightarrow> string \<Rightarrow> bool \<Rightarrow> cloud_rule option \<Rightarrow> cloud_error + cloud_rule" where
  "update_one okGet okUpdate hhmm tz enabled current =
     (if \<not> okGet then Inl Cloud_failed
      else case current of None \<Rightarrow> Inl Rule_missing
      | Some _ \<Rightarrow>
        (case hhmm_to_cron hhmm of None \<Rightarrow> Inl Bad_time
         | Some cron \<Rightarrow>
           (if okUpdate then Inr \<lparr>cr_expression = cron, cr_timezone = tz, cr_enabled = enabled\<rparr> else Inl Cloud_failed)))"

text \<open>The start rule first, then the stop rule; nothing undoes the first when the second fails.\<close>

definition set_schedule :: "bool \<times> bool \<Rightarrow> bool \<times> bool \<Rightarrow> node_schedule \<Rightarrow> cloud_rules \<Rightarrow> cloud_error option \<times> cloud_rules" where
  "set_schedule oksStart oksStop s rules =
     (case update_one (fst oksStart) (snd oksStart) (ns_startTime s) (ns_timezone s) (ns_enabled s) (cs_start rules) of
        Inl e \<Rightarrow> (Some e, rules)
      | Inr start \<Rightarrow>
        (let rules1 = rules\<lparr>cs_start := Some start\<rparr>
         in case update_one (fst oksStop) (snd oksStop) (ns_stopTime s) (ns_timezone s) (ns_enabled s) (cs_stop rules1) of
              Inl e \<Rightarrow> (Some e, rules1)
            | Inr stop \<Rightarrow> (None, rules1\<lparr>cs_stop := Some stop\<rparr>)))"

text \<open>The sidecar checks the schedule for every caller.\<close>

datatype set_reply = Schedule_invalid schedule_error | Backend_error cloud_error | Schedule_set

definition handle_set_schedule ::
  "(string \<Rightarrow> (time \<Rightarrow> int) option) \<Rightarrow> bool \<times> bool \<Rightarrow> bool \<times> bool \<Rightarrow> node_schedule \<Rightarrow> cloud_rules \<Rightarrow> set_reply \<times> cloud_rules" where
  "handle_set_schedule zone oksStart oksStop s rules =
     (case validate_schedule zone s of
        Some e \<Rightarrow> (Schedule_invalid e, rules)
      | None \<Rightarrow>
        (case set_schedule oksStart oksStop s rules of
           (Some e, rules1) \<Rightarrow> (Backend_error e, rules1)
         | (None, rules1) \<Rightarrow> (Schedule_set, rules1)))"

section \<open>Inside the window\<close>

definition day_seconds :: int where "day_seconds = 86400"
definition scheduled_start_grace :: int where "scheduled_start_grace = 300"

definition is_within_scheduled_downtime ::
  "(string \<Rightarrow> (time \<Rightarrow> int) option) \<Rightarrow> time \<Rightarrow> string \<Rightarrow> string \<Rightarrow> string \<Rightarrow> bool" where
  "is_within_scheduled_downtime zone now stopAt startAt tz \<longleftrightarrow>
     (if stopAt = [] \<or> startAt = [] \<or> tz = [] then False
      else case (zone tz, hhmm_to_seconds stopAt, hhmm_to_seconds startAt) of
        (Some clock, Some stop, Some start) \<Rightarrow>
          stop \<noteq> start \<and>
          (clock now - stop + day_seconds) mod day_seconds < (start - stop + day_seconds) mod day_seconds + scheduled_start_grace
      | _ \<Rightarrow> False)"

definition seconds_until_scheduled_stop :: "(string \<Rightarrow> (time \<Rightarrow> int) option) \<Rightarrow> time \<Rightarrow> string \<Rightarrow> string \<Rightarrow> int option" where
  "seconds_until_scheduled_stop zone now stopAt tz =
     (if stopAt = [] \<or> tz = [] then None
      else case (zone tz, hhmm_to_seconds stopAt) of
        (Some clock, Some stop) \<Rightarrow> Some ((stop - clock now + day_seconds) mod day_seconds)
      | _ \<Rightarrow> None)"

section \<open>The health of the nodes\<close>

text \<open>What is outside: the address a look-up of the node's URL gives, and the answer of the sidecar, if there is one.\<close>

record health_inputs =
  hi_now :: time
  hi_zone :: "string \<Rightarrow> (time \<Rightarrow> int) option"
  hi_static :: "string \<Rightarrow> node_schedule option"
  hi_resolve :: "string \<Rightarrow> string \<times> string"
  hi_provisioner :: "string \<Rightarrow> (string + node_schedule) option"

text \<open>A schedule declared in the configuration that does not validate is dropped when the list is loaded.\<close>

definition static_schedule_for :: "(string \<Rightarrow> (time \<Rightarrow> int) option) \<Rightarrow> (string \<times> node_schedule option) list \<Rightarrow> string \<Rightarrow> node_schedule option" where
  "static_schedule_for zone nodes node =
     (case List.find (\<lambda>(i, _). i = node) nodes of
        Some (_, Some s) \<Rightarrow> if validate_schedule zone s = None \<and> ns_enabled s then Some s else None
      | _ \<Rightarrow> None)"

definition addresses :: "health_inputs \<Rightarrow> string \<Rightarrow> string \<Rightarrow> string \<times> string" where
  "addresses hi live node =
     (case (if live = [] then None else parse_ip live) of
        Some (H4 _) \<Rightarrow> (live, [])
      | Some (H6 _) \<Rightarrow> ([], live)
      | None \<Rightarrow> hi_resolve hi node)"

definition schedule_refetch_interval :: duration where "schedule_refetch_interval = hour"

text \<open>The schedule part: what is read again, what is kept, and whether the node is told.\<close>

definition refetch_due :: "time \<Rightarrow> node_health \<Rightarrow> bool" where
  "refetch_due now h \<longleftrightarrow> nh_timezone h = [] \<or> nh_fetchedAt h = 0 \<or> schedule_refetch_interval \<le> now - nh_fetchedAt h * second"

definition schedule_of :: "node_health \<Rightarrow> node_schedule" where
  "schedule_of h = \<lparr>ns_enabled = nh_scheduled h, ns_stopTime = nh_stopTime h, ns_startTime = nh_startTime h, ns_timezone = nh_timezone h\<rparr>"

definition adopt_schedule :: "time \<Rightarrow> node_schedule \<Rightarrow> node_health \<Rightarrow> node_health" where
  "adopt_schedule now s h =
     h\<lparr>nh_timezone := ns_timezone s, nh_stopTime := ns_stopTime s, nh_startTime := ns_startTime s, nh_scheduled := ns_enabled s,
       nh_fetchedAt := unix now\<rparr>"

definition refresh_schedule :: "health_inputs \<Rightarrow> string \<Rightarrow> node_health \<Rightarrow> node_schedule option \<times> node_health" where
  "refresh_schedule hi node h =
     (let (tell, h1) =
        (if refetch_due (hi_now hi) h then
           (case hi_provisioner hi node of
              None \<Rightarrow> (None, h)
            | Some (Inl e) \<Rightarrow> (None, h\<lparr>nh_scheduleError := e\<rparr>)
            | Some (Inr s) \<Rightarrow>
                (if s = schedule_of h then None else Some s, (adopt_schedule (hi_now hi) s h)\<lparr>nh_scheduleError := []\<rparr>))
         else (None, h))
      in (tell, if nh_timezone h1 = []
                then (case hi_static hi node of None \<Rightarrow> h1 | Some s \<Rightarrow> adopt_schedule (hi_now hi) s h1)
                else h1))"

definition shown_status :: "health_inputs \<Rightarrow> string \<Rightarrow> bool \<Rightarrow> node_health \<Rightarrow> string" where
  "shown_status hi status maintenanceActive h =
     (if status = ''Online'' \<and> maintenanceActive then ''Disabled''
      else if status = ''Offline'' \<and> nh_adminDisabled h then ''Disabled''
      else if status = ''Offline'' \<and> nh_scheduled h \<and>
        is_within_scheduled_downtime (hi_zone hi) (hi_now hi) (nh_stopTime h) (nh_startTime h) (nh_timezone h) then ''Disabled''
      else status)"

definition online_since :: "time \<Rightarrow> string \<Rightarrow> node_health \<Rightarrow> int" where
  "online_since now status prev =
     (if status = ''Online'' then (if nh_status prev \<noteq> ''Online'' \<or> nh_onlineSince prev = 0 then unix now else nh_onlineSince prev) else 0)"

text \<open>\<open>updateEdgeHealth\<close>: the schedule the node is told, if any, and the new entry.\<close>

definition update_edge_health ::
  "health_inputs \<Rightarrow> string \<Rightarrow> string \<Rightarrow> string \<Rightarrow> string \<Rightarrow> string \<Rightarrow> bool \<Rightarrow> node_health \<Rightarrow> node_schedule option \<times> node_health" where
  "update_edge_health hi live node status err version maintenanceActive prev =
     (case refresh_schedule hi node prev of (tell, h) \<Rightarrow>
        (let shown = shown_status hi status maintenanceActive h
         in (tell, h\<lparr>nh_status := shown, nh_latencyMs := 0, nh_lastCheckAt := unix (hi_now hi),
                     nh_error := (if shown = status then err else []),
                     nh_ipv4 := fst (addresses hi live node), nh_ipv6 := snd (addresses hi live node),
                     nh_version := (if version = [] then nh_version prev else version),
                     nh_onlineSince := online_since (hi_now hi) status prev\<rparr>)))"

definition address_of :: "(string, string) table \<Rightarrow> string \<Rightarrow> string" where
  "address_of t node = (case get t node of None \<Rightarrow> [] | Some a \<Rightarrow> a)"

definition record_health :: "health_inputs \<Rightarrow> string \<Rightarrow> string \<Rightarrow> string \<Rightarrow> string \<Rightarrow> fleet \<Rightarrow> fleet" where
  "record_health hi node status err version fl =
     (case update_edge_health hi (address_of (fl_ips fl) node) node status err version False (health_of (fl_health fl) node) of
        (tell, h) \<Rightarrow>
          (let fl1 = fl\<lparr>fl_health := put node h (fl_health fl)\<rparr>
           in case tell of None \<Rightarrow> fl1 | Some s \<Rightarrow> send_edge_schedule node s fl1))"

definition check_edge_node_health :: "health_inputs \<Rightarrow> bool \<Rightarrow> edge_node \<Rightarrow> fleet \<Rightarrow> fleet" where
  "check_edge_node_health hi outboundOk n fl =
     (if en_url n = [] then fl
      else if \<not> outboundOk then record_health hi (en_id n) ''Unknown'' ''Gateway outbound connectivity check failed'' [] fl
      else if get (fl_conns fl) (en_id n) \<noteq> None
      then record_health hi (en_id n) ''Online'' [] (address_of (fl_versions fl) (en_id n)) fl
      else record_health hi (en_id n) ''Offline'' ''Edge control channel disconnected'' [] fl)"

definition invalidate_edge_schedule_cache :: "string \<Rightarrow> fleet \<Rightarrow> fleet" where
  "invalidate_edge_schedule_cache node fl =
     (case get (fl_health fl) node of None \<Rightarrow> fl
      | Some h \<Rightarrow> fl\<lparr>fl_health := put node (h\<lparr>nh_timezone := [], nh_stopTime := [], nh_startTime := [], nh_scheduled := False,
          nh_fetchedAt := 0\<rparr>) (fl_health fl)\<rparr>)"

definition set_edge_admin_disabled :: "string \<Rightarrow> bool \<Rightarrow> fleet \<Rightarrow> fleet" where
  "set_edge_admin_disabled node b fl =
     fl\<lparr>fl_health := put node ((health_of (fl_health fl) node)\<lparr>nh_adminDisabled := b\<rparr>) (fl_health fl)\<rparr>"

section \<open>The warning of a scheduled stop\<close>

definition warning_minutes :: "int \<Rightarrow> int" where
  "warning_minutes configured = (if configured \<le> 0 then 5 else configured)"

definition shutdown_reason :: "int \<Rightarrow> string \<Rightarrow> string" where
  "shutdown_reason mins stopAt = ''Scheduled edge node shutdown in '' @ itoa mins @ '' minutes ('' @ stopAt @ '' local time)''"

definition shutdown_warning_due :: "(string \<Rightarrow> (time \<Rightarrow> int) option) \<Rightarrow> time \<Rightarrow> int \<Rightarrow> node_health \<Rightarrow> int option" where
  "shutdown_warning_due zone now configured h =
     (if \<not> nh_scheduled h \<or> nh_stopTime h = [] \<or> nh_timezone h = [] then None
      else case seconds_until_scheduled_stop zone now (nh_stopTime h) (nh_timezone h) of
        None \<Rightarrow> None
      | Some n \<Rightarrow> if 0 < n \<and> n \<le> warning_minutes configured * 60 then Some n else None)"

definition warn_node :: "(string \<Rightarrow> (time \<Rightarrow> int) option) \<Rightarrow> time \<Rightarrow> int \<Rightarrow> string \<times> node_health \<Rightarrow> fleet \<Rightarrow> fleet" where
  "warn_node zone now configured entry fl =
     (case entry of (node, h) \<Rightarrow>
        (case shutdown_warning_due zone now configured h of
           None \<Rightarrow> fl
         | Some n \<Rightarrow> broadcast_node_shutdown_warning now node n (shutdown_reason (warning_minutes configured) (nh_stopTime h)) fl))"

definition check_edge_shutdown_warnings :: "(string \<Rightarrow> (time \<Rightarrow> int) option) \<Rightarrow> time \<Rightarrow> int \<Rightarrow> fleet \<Rightarrow> fleet" where
  "check_edge_shutdown_warnings zone now configured fl = fold (warn_node zone now configured) (fl_health fl) fl"

text \<open>One pass of the monitor.\<close>

definition monitor_edge_health :: "health_inputs \<Rightarrow> bool \<Rightarrow> edge_node list \<Rightarrow> int \<Rightarrow> fleet \<Rightarrow> fleet" where
  "monitor_edge_health hi outboundOk nodes configured fl =
     check_edge_shutdown_warnings (hi_zone hi) (hi_now hi) configured (fold (check_edge_node_health hi outboundOk) nodes fl)"

section \<open>Power actions\<close>

definition with_health :: "string \<Rightarrow> (node_health \<Rightarrow> node_health) \<Rightarrow> fleet \<Rightarrow> fleet" where
  "with_health node f fl =
     (case get (fl_health fl) node of None \<Rightarrow> fl | Some h \<Rightarrow> fl\<lparr>fl_health := put node (f h) (fl_health fl)\<rparr>)"

definition edge_portal_stop_warning_seconds :: int where "edge_portal_stop_warning_seconds = 15"

definition portal_stop_reason :: string where "portal_stop_reason = ''Administrative stop requested from the portal''"

text \<open>The stop is asked for; fifteen seconds later the node is stopped, or is not.\<close>

definition edge_stop_requested :: "time \<Rightarrow> string \<Rightarrow> fleet \<Rightarrow> fleet" where
  "edge_stop_requested now node fl =
     with_health node (\<lambda>h. h\<lparr>nh_status := ''Stopping'', nh_error := ''Administrative stop requested; warning clients for 15s''\<rparr>)
       (set_edge_admin_disabled node True
         (broadcast_node_shutdown_warning now node edge_portal_stop_warning_seconds portal_stop_reason fl))"

definition edge_stop_finished :: "string option \<Rightarrow> string \<Rightarrow> fleet \<Rightarrow> fleet" where
  "edge_stop_finished failure node fl =
     (case failure of
        Some e \<Rightarrow>
          set_edge_admin_disabled node False
            (with_health node (\<lambda>h. h\<lparr>nh_status := ''Online'', nh_error := ''Administrative stop failed: '' @ e\<rparr>) fl)
      | None \<Rightarrow>
          with_health node (\<lambda>h. h\<lparr>nh_status := ''Offline'', nh_error := ''Administrative stop requested''\<rparr>)
            (close_edge_control_conn node (snd (send_edge_kick_all node fl))))"

text \<open>Start and restart, and the action on many nodes; the answers of the sidecar are inputs.\<close>

definition edge_started :: "bool \<Rightarrow> string \<Rightarrow> fleet \<Rightarrow> fleet" where
  "edge_started ok node fl = (if ok then set_edge_admin_disabled node False fl else fl)"

definition bulk_action :: "(string \<Rightarrow> bool) \<Rightarrow> string \<Rightarrow> string list \<Rightarrow> fleet \<Rightarrow> fleet" where
  "bulk_action ok action nodes fl =
     (if action \<notin> {''start'', ''stop'', ''restart''} then fl
      else fold (\<lambda>node fl. if ok node then set_edge_admin_disabled node (action = ''stop'') fl else fl) nodes fl)"

section \<open>The heartbeat of a client\<close>

definition names_node :: "string \<Rightarrow> string \<Rightarrow> bool" where
  "names_node region node \<longleftrightarrow>
     equal_fold node (to_lower region) \<or> has_suffix (to_lower node) (''-'' @ to_lower region) \<or> has_prefix (to_lower node) (to_lower region @ ''-'')"

definition is_region_offline :: "string \<Rightarrow> (string, node_health) table \<Rightarrow> bool" where
  "is_region_offline region health \<longleftrightarrow>
     region \<noteq> [] \<and>
     list_ex (\<lambda>(node, h). names_node region node \<and> (nh_status h = ''Offline'' \<or> nh_status h = ''Disabled'' \<or> nh_adminDisabled h)) health"

record heartbeat_body =
  hb_shutdown :: "(string \<times> int \<times> int \<times> string) option"
  hb_nodes :: "string option"

datatype heartbeat_reply = Region_offline | Session_gone | Lease_held heartbeat_body | Lease_not_held

definition pending_shutdown_warning :: "time \<Rightarrow> string \<Rightarrow> announcement \<Rightarrow> (string \<times> int \<times> int \<times> string) option" where
  "pending_shutdown_warning now node a =
     (if an_at a = 0 \<or> an_at a - unix now \<le> 0 then None else Some (node, an_at a - unix now, an_at a, an_reason a))"

definition handle_tunnel_status ::
  "time \<Rightarrow> (string, node_health) table \<Rightarrow> announcement \<Rightarrow> string \<Rightarrow> string \<Rightarrow> string \<Rightarrow> string \<Rightarrow> registry
   \<Rightarrow> heartbeat_reply \<times> offline_action \<times> registry" where
  "handle_tunnel_status now health a fingerprint region tok status r =
     (if is_region_offline region health \<or> list_ex (\<lambda>l. is_region_offline (l_nodeID l) health) (get_session_leases r tok)
      then (Region_offline, Alert_none, r)
      else if session_was_cleaned now tok r then (Session_gone, Alert_none, r)
      else case note_heartbeat tok status now r of
        ((True, alert), r1) \<Rightarrow>
          (Lease_held \<lparr>hb_shutdown = pending_shutdown_warning now (local_node_id r) a,
             hb_nodes = (if fingerprint = [] then None else Some fingerprint)\<rparr>, alert, r1)
      | ((False, _), r1) \<Rightarrow> (Lease_not_held, Alert_none, r1))"

end
