(* ===== verification/Edge_Channel_Facts.thy ===== *)
theory Edge_Channel_Facts
  imports Edge_Channel Registry_Teardown "HOL-Library.Multiset"
begin

text \<open>
  Whom the control plane takes for which edge; which connection speaks for a node; what is told of the set of nodes and
  in which order; what ends the tunnels of an edge.
\<close>

section \<open>Identity\<close>

lemma split_on_dashes: "CHR ''-'' \<notin> set secret \<Longrightarrow> split_on (CHR ''-'') (i @ CHR ''-'' # secret) = split_on (CHR ''-'') i @ [secret]"
proof (induction i)
  case (Cons x i)
  obtain y ys where "split_on (CHR ''-'') i = y # ys" by (cases "split_on (CHR ''-'') i") auto
  then show ?case using Cons by simp
qed (simp add: split_on_no_sep)

lemma edge_node_id_of_token:
  assumes "CHR ''-'' \<notin> set secret" "i \<noteq> []"
  shows "edge_node_id_from_token (i @ CHR ''-'' # secret) = i"
  using assms by (simp add: edge_node_id_from_token_def split_on_dashes join_split_on Let_def)

definition bytes :: "nat list \<Rightarrow> bool" where
  "bytes bs \<longleftrightarrow> (\<forall>b\<in>set bs. b < 256)"

lemma hex_val_digit:
  assumes "n < 16"
  shows "hex_val (hex_digit n) = Some n"
proof (cases "n < 10")
  case True
  then have "is_digit (digit n)" "digit_val (digit n) = n" by simp_all
  with True show ?thesis by (simp add: hex_val_def hex_digit_def digit_val_def is_digit_def Let_def)
next
  case False
  have "(of_char (hex_digit n) :: nat) = 87 + n" using False assms by (simp add: hex_digit_def of_char_of)
  with False assms show ?thesis by (simp add: hex_val_def Let_def)
qed

lemma hex_decode_encode: "bytes bs \<Longrightarrow> hex_decode (hex_encode bs) = Some bs"
proof (induction bs)
  case (Cons b bs)
  then have "b div 16 mod 16 = b div 16" "hex_val (hex_digit (b div 16)) = Some (b div 16)" "hex_val (hex_digit (b mod 16)) = Some (b mod 16)"
    by (auto intro!: hex_val_digit simp: bytes_def)
  then show ?case using Cons by (simp add: hex_encode_def bytes_def)
qed (simp add: hex_encode_def)

lemma find_distinct: "distinct (map f xs) \<Longrightarrow> x \<in> set xs \<Longrightarrow> List.find (\<lambda>y. f y = f x) xs = Some x"
  by (induction xs) (auto simp: rev_image_eqI)

text \<open>A secret with a dash belongs to another node, as the channel reads the token.\<close>

lemma dashed_secret_is_another_node:
  "CHR ''-'' \<notin> set secret \<Longrightarrow> i \<noteq> [] \<Longrightarrow>
   edge_node_id_from_token (i @ CHR ''-'' # half @ CHR ''-'' # secret) = i @ CHR ''-'' # half"
  using edge_node_id_of_token [of secret "i @ CHR ''-'' # half"] by simp

text \<open>C18: The identifiers of the nodes being distinct, the channel belongs to the holder of the token. The connection is
  admitted under an identity exactly when the answer is the digest of this nonce under one of the hashes accepted for
  that node; and an edge whose token \<open>id-secret\<close>, its secret without a dash, is accepted for its requests is admitted
  to the channel as the same node, during a rotation of the token too. The secret has to be without a dash: the
  channel takes what stands before the last dash for the identifier, so a token whose secret has one is accepted for
  the requests of its node and refused by the channel.
\<close>
theorem channel_identity_exact:
  assumes "distinct (map en_id nodes)" "\<And>k t. bytes (mac k t)" "\<And>t. bytes (sha t)"
  shows "(channel_refused mac nodes i nonce (Some \<lparr>af_type = ''auth'', af_response = response\<rparr>) = None \<longleftrightarrow>
      i \<noteq> [] \<and> (\<exists>n\<in>set nodes. en_id n = i \<and>
        (\<exists>h\<in>set (accepted_token_hashes n). \<exists>k. hex_decode h = Some k \<and> hex_decode response = Some (mac k nonce)))) \<and>
    (authorised_edge_node (\<lambda>t. hex_encode (sha t)) nodes (i @ CHR ''-'' # secret) = Some n \<and> en_id n = i \<and> i \<noteq> [] \<and> CHR ''-'' \<notin> set secret \<longrightarrow>
      channel_refused mac nodes (edge_node_id_from_token (i @ CHR ''-'' # secret)) nonce
        (Some (edge_response mac sha (i @ CHR ''-'' # secret) nonce)) = None)"
proof
  have found: "List.find (\<lambda>n. en_id n = i) nodes = Some n \<longleftrightarrow> n \<in> set nodes \<and> en_id n = i" for n i
    using find_distinct [OF assms(1), of n] by (auto simp: find_Some_iff)
  have none: "List.find (\<lambda>n. en_id n = i) nodes = None \<longleftrightarrow> (\<forall>n\<in>set nodes. en_id n \<noteq> i)" for i
    by (auto simp: find_None_iff)
  have signs: "response_accepted mac n nonce r \<longleftrightarrow>
      (\<exists>h\<in>set (accepted_token_hashes n). \<exists>k. hex_decode h = Some k \<and> hex_decode r = Some (mac k nonce))" for n r
    by (auto simp: response_accepted_def hash_signs_def list_ex_iff split: option.splits)
  show "channel_refused mac nodes i nonce (Some \<lparr>af_type = ''auth'', af_response = response\<rparr>) = None \<longleftrightarrow>
      i \<noteq> [] \<and> (\<exists>n\<in>set nodes. en_id n = i \<and>
        (\<exists>h\<in>set (accepted_token_hashes n). \<exists>k. hex_decode h = Some k \<and> hex_decode response = Some (mac k nonce)))"
  proof (cases "List.find (\<lambda>n. en_id n = i) nodes")
    case None
    then show ?thesis using none [of i] by (auto simp: channel_refused_def)
  next
    case (Some a)
    then have "channel_refused mac nodes i nonce (Some \<lparr>af_type = ''auth'', af_response = response\<rparr>) = None \<longleftrightarrow>
        i \<noteq> [] \<and> response_accepted mac a nonce response"
      by (simp add: channel_refused_def)
    moreover have "n \<in> set nodes \<and> en_id n = i \<longleftrightarrow> n = a" for n using found [of i n] Some by auto
    ultimately show ?thesis unfolding signs by metis
  qed
  show "authorised_edge_node (\<lambda>t. hex_encode (sha t)) nodes (i @ CHR ''-'' # secret) = Some n \<and> en_id n = i \<and> i \<noteq> [] \<and> CHR ''-'' \<notin> set secret \<longrightarrow>
      channel_refused mac nodes (edge_node_id_from_token (i @ CHR ''-'' # secret)) nonce
        (Some (edge_response mac sha (i @ CHR ''-'' # secret) nonce)) = None"
  proof
    assume *: "authorised_edge_node (\<lambda>t. hex_encode (sha t)) nodes (i @ CHR ''-'' # secret) = Some n \<and> en_id n = i \<and> i \<noteq> [] \<and> CHR ''-'' \<notin> set secret"
    then have n: "n \<in> set nodes" "hex_encode (sha (i @ CHR ''-'' # secret)) \<in> set (accepted_token_hashes n)"
      by (auto simp: authorised_edge_node_def find_Some_iff)
    then have "List.find (\<lambda>n. en_id n = i) nodes = Some n" using found * by blast
    moreover have "response_accepted mac n nonce (hex_encode (mac (sha (i @ CHR ''-'' # secret)) nonce))"
      unfolding signs using n(2) hex_decode_encode assms(2,3) by blast
    ultimately show "channel_refused mac nodes (edge_node_id_from_token (i @ CHR ''-'' # secret)) nonce
        (Some (edge_response mac sha (i @ CHR ''-'' # secret) nonce)) = None"
      using * by (simp add: edge_node_id_of_token channel_refused_def edge_response_def)
  qed
qed

section \<open>Which connection speaks for a node\<close>

datatype fleet_event =
    Attached nat string string string
  | Detached nat string
  | Pinged time string
  | Ponged time string
  | Reported time string "edge_delta list"

definition fleet_step :: "fleet_event \<Rightarrow> fleet \<Rightarrow> fleet" where
  "fleet_step ev fl =
     (case ev of
        Attached c node version ip \<Rightarrow> attach c node version ip fl
      | Detached c node \<Rightarrow> snd (detach c node fl)
      | Pinged now node \<Rightarrow> ping_sent now node fl
      | Ponged now node \<Rightarrow> pong_received now node fl
      | Reported now node ds \<Rightarrow> metrics_received now node ds fl)"

definition no_fleet :: fleet where
  "no_fleet = \<lparr>fl_conns = [], fl_versions = [], fl_ips = [], fl_health = [], fl_pings = [], fl_seen = [], fl_rows = [], fl_leases = [],
     fl_closed = [], fl_sent = []\<rparr>"

definition fleet_run :: "fleet_event list \<Rightarrow> fleet" where
  "fleet_run evs = fold fleet_step evs no_fleet"

text \<open>The connection that opened last for the node, unless it has ended since.\<close>

definition speaks_for :: "fleet_event list \<Rightarrow> string \<Rightarrow> nat \<Rightarrow> bool" where
  "speaks_for evs node c \<longleftrightarrow>
     (\<exists>before version ip after. evs = before @ Attached c node version ip # after \<and>
        (\<forall>c' v i. Attached c' node v i \<notin> set after) \<and> Detached c node \<notin> set after)"

lemma write_frame_frame [simp]:
  "fl_conns (write_frame m c fl) = fl_conns fl" "fl_versions (write_frame m c fl) = fl_versions fl" "fl_ips (write_frame m c fl) = fl_ips fl"
  "fl_health (write_frame m c fl) = fl_health fl" "fl_pings (write_frame m c fl) = fl_pings fl" "fl_seen (write_frame m c fl) = fl_seen fl"
  by (simp_all add: write_frame_def)

lemma attach_conns:
  "fl_conns (attach c node v i fl) = put node c (fl_conns fl)" "fl_health (attach c node v i fl) = fl_health fl"
  "fl_versions (attach c node v i fl) = put node (if v \<noteq> [] then v else ''Unknown'') (fl_versions fl)"
  "fl_ips (attach c node v i fl) = put node i (fl_ips fl)"
  by (simp_all add: attach_def Let_def split: option.split)

lemma detach_conns:
  "fl_conns (snd (detach c node fl)) = (if get (fl_conns fl) node = Some c then del node (fl_conns fl) else fl_conns fl)"
  "fl_versions (snd (detach c node fl)) = (if get (fl_conns fl) node = Some c then del node (fl_versions fl) else fl_versions fl)"
  "fl_ips (snd (detach c node fl)) = (if get (fl_conns fl) node = Some c then del node (fl_ips fl) else fl_ips fl)"
  by (simp_all add: detach_def Let_def)

lemma quiet_conns:
  "fl_conns (ping_sent now node fl) = fl_conns fl" "fl_conns (pong_received now node fl) = fl_conns fl"
  "fl_conns (metrics_received now node ds fl) = fl_conns fl"
  "fl_versions (ping_sent now node fl) = fl_versions fl" "fl_versions (pong_received now node fl) = fl_versions fl"
  "fl_versions (metrics_received now node ds fl) = fl_versions fl"
  "fl_ips (ping_sent now node fl) = fl_ips fl" "fl_ips (pong_received now node fl) = fl_ips fl" "fl_ips (metrics_received now node ds fl) = fl_ips fl"
  by (simp_all add: ping_sent_def pong_received_def update_edge_latency_from_ping_def metrics_received_def split: option.split prod.split)

lemma fleet_run_snoc: "fleet_run (evs @ [ev]) = fleet_step ev (fleet_run evs)"
  by (simp add: fleet_run_def)

lemma speaks_for_attached: "speaks_for (evs @ [Attached c' node v i]) node c \<longleftrightarrow> c = c'"
proof
  assume "speaks_for (evs @ [Attached c' node v i]) node c"
  then obtain before version ip "after" where *: "evs @ [Attached c' node v i] = before @ Attached c node version ip # after"
    "\<forall>c' v i. Attached c' node v i \<notin> set after"
    unfolding speaks_for_def by blast
  then show "c = c'" by (cases "after" rule: rev_cases) simp_all
next
  assume "c = c'"
  then show "speaks_for (evs @ [Attached c' node v i]) node c" unfolding speaks_for_def by fastforce
qed

lemma speaks_for_other:
  assumes "\<And>c' v i. ev \<noteq> Attached c' node v i"
  shows "speaks_for (evs @ [ev]) node c \<longleftrightarrow> speaks_for evs node c \<and> ev \<noteq> Detached c node"
proof
  assume "speaks_for (evs @ [ev]) node c"
  then obtain before version ip "after" where *: "evs @ [ev] = before @ Attached c node version ip # after"
    "\<forall>c' v i. Attached c' node v i \<notin> set after" "Detached c node \<notin> set after"
    unfolding speaks_for_def by blast
  with assms obtain rest where "after = rest @ [ev]" by (cases "after" rule: rev_cases) auto
  with * have "evs = before @ Attached c node version ip # rest" "\<forall>c' v i. Attached c' node v i \<notin> set rest"
    "Detached c node \<notin> set rest" "ev \<noteq> Detached c node"
    by auto
  then show "speaks_for evs node c \<and> ev \<noteq> Detached c node" unfolding speaks_for_def by blast
next
  assume "speaks_for evs node c \<and> ev \<noteq> Detached c node"
  then obtain before version ip "after" where *: "evs = before @ Attached c node version ip # after"
    "\<forall>c' v i. Attached c' node v i \<notin> set after" "Detached c node \<notin> set after" "ev \<noteq> Detached c node"
    unfolding speaks_for_def by blast
  then have "evs @ [ev] = before @ Attached c node version ip # (after @ [ev])" by simp
  moreover have "Attached c' node v i \<notin> set (after @ [ev])" for c' v i using *(2) assms [of c' v i] by auto
  moreover have "Detached c node \<notin> set (after @ [ev])" using *(3,4) by auto
  ultimately show "speaks_for (evs @ [ev]) node c" unfolding speaks_for_def by blast
qed

lemma speaks_for_unique: "speaks_for evs node c \<Longrightarrow> speaks_for evs node c' \<Longrightarrow> c = c'"
proof (induction evs rule: rev_induct)
  case (snoc ev evs)
  show ?case
  proof (cases "\<exists>c' v i. ev = Attached c' node v i")
    case True
    then show ?thesis using snoc.prems speaks_for_attached by auto
  next
    case False
    then have "speaks_for (evs @ [ev]) node d \<longleftrightarrow> speaks_for evs node d \<and> ev \<noteq> Detached d node" for d
      by (intro speaks_for_other) blast
    then show ?thesis using snoc by blast
  qed
qed (simp add: speaks_for_def)

lemma registered_aux: "get (fl_conns (fleet_run evs)) node = Some c \<longleftrightarrow> speaks_for evs node c"
proof (induction evs rule: rev_induct)
  case (snoc ev evs)
  show ?case
  proof (cases "\<exists>c' v i. ev = Attached c' node v i")
    case True
    then show ?thesis by (auto simp: fleet_run_snoc fleet_step_def attach_conns table_simps speaks_for_attached)
  next
    case False
    then have other: "speaks_for (evs @ [ev]) node c \<longleftrightarrow> speaks_for evs node c \<and> ev \<noteq> Detached c node"
      by (intro speaks_for_other) auto
    show ?thesis unfolding other snoc.IH [symmetric] using False
      by (cases ev) (auto simp: fleet_run_snoc fleet_step_def attach_conns detach_conns quiet_conns table_simps)
  qed
qed (simp add: fleet_run_def no_fleet_def speaks_for_def get_def)

text \<open>C19: In the tables of connections, versions and addresses a node is spoken for by the connection that opened last,
  and by it until that very one ends: the late clean-up of a connection that was replaced takes nothing from these
  three tables. What is known of the version and the address of a node is known exactly while a connection speaks for
  it. The table of outstanding pings is not among them: every clean-up deletes the node's entry there, that of a
  replaced connection too.
\<close>
theorem registered_is_last_opened:
  "(get (fl_conns (fleet_run evs)) node = Some c \<longleftrightarrow> speaks_for evs node c) \<and>
   (get (fl_versions (fleet_run evs)) node \<noteq> None \<longleftrightarrow> (\<exists>c. speaks_for evs node c)) \<and>
   (get (fl_ips (fleet_run evs)) node \<noteq> None \<longleftrightarrow> (\<exists>c. speaks_for evs node c))"
proof -
  have "(get (fl_versions (fleet_run evs)) node \<noteq> None \<longleftrightarrow> get (fl_conns (fleet_run evs)) node \<noteq> None) \<and>
    (get (fl_ips (fleet_run evs)) node \<noteq> None \<longleftrightarrow> get (fl_conns (fleet_run evs)) node \<noteq> None)"
  proof (induction evs rule: rev_induct)
    case (snoc ev evs)
    then show ?case
      by (cases ev) (auto simp: fleet_run_snoc fleet_step_def attach_conns detach_conns quiet_conns table_simps)
  qed (simp add: fleet_run_def no_fleet_def get_def)
  moreover have "get (fl_conns (fleet_run evs)) node \<noteq> None \<longleftrightarrow> (\<exists>c. speaks_for evs node c)"
    using registered_aux [of evs node] by auto
  ultimately show ?thesis using registered_aux [of evs node c] by blast
qed


text \<open>What the last clause warns of: the clean-up of any connection of a node, replaced or not, forgets the ping that is
  outstanding there, so the answer that follows is not timed.\<close>

lemma late_cleanup_forgets_ping:
  "get (fl_pings (snd (detach c node fl))) node = None"
  "get (fl_pings fl') node = None \<Longrightarrow> fl_health (pong_received now node fl') = fl_health fl'"
  by (simp_all add: detach_def Let_def get_del pong_received_def)

section \<open>The set of nodes\<close>

definition regions_entries :: "(string, string) table \<Rightarrow> (string \<times> string) list" where
  "regions_entries t = map (\<lambda>n. (n, the (get t n))) (sort (map fst t))"

lemma stream_fields:
  "\<forall>(n, v)\<in>set es. CHR 0x00 \<notin> set n \<and> CHR 0x00 \<notin> set v \<Longrightarrow>
   split_on (CHR 0x00) (concat (map (\<lambda>(n, v). n @ [CHR 0x00] @ v @ [CHR 0x00]) es)) = concat (map (\<lambda>(n, v). [n, v]) es) @ [[]]"
  by (induction es) (auto simp: split_on_append)

lemma fields_inject: "concat (map (\<lambda>(n, v). [n, v]) es) = concat (map (\<lambda>(n, v). [n, v]) fs) \<Longrightarrow> es = fs"
proof (induction es arbitrary: fs)
  case (Cons e es)
  then show ?case by (cases e; cases fs) auto
next
  case Nil
  then show ?case by (cases fs) auto
qed

lemma node_set_stream_entries:
  "node_set_stream t = concat (map (\<lambda>(n, v). n @ [CHR 0x00] @ v @ [CHR 0x00]) (regions_entries t))"
  by (simp add: node_set_stream_def regions_entries_def comp_def)

lemma entries_exact:
  assumes "is_table t" "is_table u"
  shows "regions_entries t = regions_entries u \<longleftrightarrow> (\<forall>n. get t n = get u n)"
proof
  assume same: "regions_entries t = regions_entries u"
  have lookup: "get t n = map_of (regions_entries t) n" if "is_table t" for t :: "(string, string) table" and n
  proof (cases "get t n")
    case None
    then have "n \<notin> set (map fst t)" by (simp add: get_def map_of_eq_None_iff)
    then have "map_of (regions_entries t) n = None" by (simp add: regions_entries_def map_of_eq_None_iff image_image)
    with None show ?thesis by simp
  next
    case (Some v)
    then have "n \<in> set (map fst t)" by (metis get_def image_set map_of_eq_None_iff option.distinct(1))
    moreover have "map_of (map (\<lambda>n. (n, the (get t n))) ns) n = Some (the (get t n))" if "n \<in> set ns" for ns
      using that by (induction ns) auto
    ultimately show ?thesis using Some by (simp add: regions_entries_def)
  qed
  show "\<forall>n. get t n = get u n" using lookup [OF assms(1)] lookup [OF assms(2)] same by simp
next
  assume same: "\<forall>n. get t n = get u n"
  have "set (map fst t) = set (map fst u)"
    using same by (metis (no_types, opaque_lifting) get_def map_of_eq_None_iff set_eqI image_set)
  moreover have "distinct (map fst t)" "distinct (map fst u)" using assms by (simp_all add: is_table_def)
  ultimately have "sort (map fst t) = sort (map fst u)" by (intro sorted_distinct_set_unique) simp_all
  then show "regions_entries t = regions_entries u" using same by (simp add: regions_entries_def)
qed

text \<open>The fingerprint sees every change of the set of nodes and nothing else. Two sets hash the same bytes exactly when
  they advertise the same addresses under the same names, whatever the order of their maps.
\<close>
theorem node_set_exact:
  assumes "is_table t" "is_table u"
    and "\<And>n v. (n, v) \<in> set t \<or> (n, v) \<in> set u \<Longrightarrow> CHR 0x00 \<notin> set n \<and> CHR 0x00 \<notin> set v"
  shows "node_set_stream t = node_set_stream u \<longleftrightarrow> (\<forall>n. get t n = get u n)"
proof -
  have clean: "\<forall>(n, v)\<in>set (regions_entries w). CHR 0x00 \<notin> set n \<and> CHR 0x00 \<notin> set v" if "w = t \<or> w = u" for w
  proof -
    have "(n, the (get w n)) \<in> set w" if "n \<in> set (map fst w)" for n
      using that by (metis get_def map_of_SomeD map_of_eq_None_iff option.collapse image_set)
    then show ?thesis using assms(3) that by (fastforce simp: regions_entries_def)
  qed
  have "node_set_stream t = node_set_stream u \<longleftrightarrow> regions_entries t = regions_entries u"
  proof
    assume "node_set_stream t = node_set_stream u"
    then have "concat (map (\<lambda>(n, v). [n, v]) (regions_entries t)) = concat (map (\<lambda>(n, v). [n, v]) (regions_entries u))"
      unfolding node_set_stream_entries using stream_fields [OF clean, of t] stream_fields [OF clean, of u] by simp
    then show "regions_entries t = regions_entries u" by (rule fields_inject)
  qed (simp add: node_set_stream_entries)
  then show ?thesis using entries_exact [OF assms(1,2)] by simp
qed


section \<open>Telling the edges\<close>

definition node_sets_to :: "nat \<Rightarrow> (nat \<times> control_frame) list \<Rightarrow> string list" where
  "node_sets_to c sent = concat (map (\<lambda>(d, m). case m of Fr_node_set fp \<Rightarrow> if d = c then [fp] else [] | _ \<Rightarrow> []) sent)"

text \<open>The set of nodes a connection was told last.\<close>

definition told :: "fleet \<Rightarrow> nat \<Rightarrow> string option" where
  "told fl c = (let fps = node_sets_to c (fl_sent fl) in if fps = [] then None else Some (last fps))"

lemma write_frames_sent:
  "fl_sent (fold (\<lambda>(_, c). write_frame m c) conns fl) = fl_sent fl @ map (\<lambda>(_, c). (c, m)) conns \<and>
   fl_conns (fold (\<lambda>(_, c). write_frame m c) conns fl) = fl_conns fl"
  by (induction conns arbitrary: fl) (auto simp: write_frame_def)

lemma node_sets_to_all:
  "node_sets_to c (map (\<lambda>(_, c). (c, Fr_node_set fp)) conns) = replicate (length (filter (\<lambda>(_, d). d = c) conns)) fp"
  by (induction conns) (auto simp: node_sets_to_def)

lemma told_broadcast:
  "told (broadcast (Fr_node_set fp) fl) c = (if c \<in> snd ` set (fl_conns fl) then Some fp else told fl c)"
proof -
  let ?n = "length (filter (\<lambda>(_, d). d = c) (fl_conns fl))"
  have sets: "node_sets_to c (fl_sent (broadcast (Fr_node_set fp) fl)) = node_sets_to c (fl_sent fl) @ replicate ?n fp"
    unfolding broadcast_def write_frames_sent [THEN conjunct1] node_sets_to_all [symmetric] by (simp add: node_sets_to_def)
  have "c \<in> snd ` set (fl_conns fl) \<longleftrightarrow> 0 < ?n" by (force simp: length_greater_0_conv filter_empty_conv)
  then show ?thesis unfolding told_def Let_def sets by auto
qed

lemma told_quiet:
  "told (snd (detach c node fl)) d = told fl d"
  by (simp add: told_def detach_def Let_def)

definition new_rollout :: rollout where
  "new_rollout = \<lparr>ro_fleet = no_fleet, ro_owed = 0, ro_pending = []\<rparr>"

definition rollout_run :: "((string, nat) table \<Rightarrow> string) \<Rightarrow> rollout_event list \<Rightarrow> rollout" where
  "rollout_run fingerprint evs = fold (rollout_step fingerprint) evs new_rollout"

definition rollout_ok :: "((string, nat) table \<Rightarrow> string) \<Rightarrow> rollout \<Rightarrow> bool" where
  "rollout_ok fingerprint ro \<longleftrightarrow>
     (ro_owed ro = 0 \<longrightarrow>
       (if ro_pending ro = [] then \<forall>c\<in>snd ` set (fl_conns (ro_fleet ro)). told (ro_fleet ro) c = Some (fingerprint (fl_conns (ro_fleet ro)))
        else last (ro_pending ro) = fingerprint (fl_conns (ro_fleet ro))))"

lemma rollout_step_ok:
  assumes "rollout_ok fingerprint ro" "\<And>i. ev = Set_written i \<Longrightarrow> i = 0"
  shows "rollout_ok fingerprint (rollout_step fingerprint ev ro)"
proof (cases ev)
  case (Node_up c node v i)
  then show ?thesis by (simp add: rollout_ok_def rollout_step_def)
next
  case (Node_down c node)
  have "fst (detach c node (ro_fleet ro)) \<longleftrightarrow> get (fl_conns (ro_fleet ro)) node = Some c" by (simp add: detach_def Let_def)
  then show ?thesis using assms(1)
    by (simp add: Node_down rollout_ok_def rollout_step_def split_beta detach_conns told_quiet)
next
  case Set_read
  then show ?thesis using assms(1) by (simp add: rollout_ok_def rollout_step_def)
next
  case (Set_written i)
  then have i: "i = 0" using assms(2) by blast
  show ?thesis
  proof (cases "ro_pending ro")
    case Nil
    then show ?thesis using assms(1) by (simp add: Set_written rollout_step_def)
  next
    case (Cons x xs)
    have conns: "fl_conns (broadcast m (ro_fleet ro)) = fl_conns (ro_fleet ro)" for m
      by (simp add: broadcast_def write_frames_sent)
    show ?thesis using assms(1) Cons by (auto simp: Set_written i rollout_ok_def rollout_step_def conns told_broadcast)
  qed
qed

text \<open>Every edge learns of every change. When the broadcasts write in the order in which they read, then once all are
  done each connected edge was told last the fingerprint of the nodes now connected.
\<close>
theorem node_set_reaches_every_edge:
  assumes "\<forall>i. Set_written i \<in> set evs \<longrightarrow> i = 0"
    and "ro_owed (rollout_run fingerprint evs) = 0" "ro_pending (rollout_run fingerprint evs) = []"
    and "get (fl_conns (ro_fleet (rollout_run fingerprint evs))) node = Some c"
  shows "told (ro_fleet (rollout_run fingerprint evs)) c = Some (fingerprint (fl_conns (ro_fleet (rollout_run fingerprint evs))))"
proof -
  have "rollout_ok fingerprint (fold (rollout_step fingerprint) evs ro)" if "rollout_ok fingerprint ro" for ro
    using assms(1) that
  proof (induction evs arbitrary: ro)
    case (Cons ev evs)
    have "rollout_ok fingerprint (rollout_step fingerprint ev ro)" by (rule rollout_step_ok [OF Cons.prems(2)]) (use Cons.prems(1) in auto)
    then show ?case using Cons.IH Cons.prems(1) by simp
  qed simp
  moreover have "rollout_ok fingerprint new_rollout" by (simp add: rollout_ok_def new_rollout_def no_fleet_def)
  ultimately have "rollout_ok fingerprint (rollout_run fingerprint evs)" by (simp add: rollout_run_def)
  moreover have "c \<in> snd ` set (fl_conns (ro_fleet (rollout_run fingerprint evs)))"
    using assms(4) by (force simp: get_def dest: map_of_SomeD)
  ultimately show ?thesis using assms(2,3) unfolding rollout_ok_def by metis
qed

text \<open>A broadcast that is overtaken leaves edges with the old set. Nothing orders the writes of two broadcasts: when the one
  that read first writes last, every broadcast is done and an edge holds the fingerprint of a set that is past, until the
  next change.
\<close>
theorem overtaken_broadcast_sticks:
  assumes "fingerprint [(a, 7)] \<noteq> fingerprint [(a, 7), (b, 8)]" "a \<noteq> b"
  shows "\<exists>evs. ro_owed (rollout_run fingerprint evs) = 0 \<and> ro_pending (rollout_run fingerprint evs) = [] \<and>
    get (fl_conns (ro_fleet (rollout_run fingerprint evs))) a = Some 7 \<and>
    told (ro_fleet (rollout_run fingerprint evs)) 7 \<noteq> Some (fingerprint (fl_conns (ro_fleet (rollout_run fingerprint evs))))"
proof -
  let ?evs = "[Node_up 7 a [] [], Set_read, Node_up 8 b [] [], Set_read, Set_written (Suc 0), Set_written 0]"
  define ro where "ro = rollout_run fingerprint ?evs"
  have "fl_conns (ro_fleet ro) = [(a, 7), (b, 8)]" "ro_owed ro = 0" "ro_pending ro = []"
    "told (ro_fleet ro) 7 = Some (fingerprint [(a, 7)])"
    using assms(2) by (simp_all add: ro_def rollout_run_def new_rollout_def no_fleet_def rollout_step_def attach_def write_frame_def Let_def
        broadcast_def told_def node_sets_to_def get_def put_def)
  then have "ro_owed ro = 0 \<and> ro_pending ro = [] \<and> get (fl_conns (ro_fleet ro)) a = Some 7 \<and>
      told (ro_fleet ro) 7 \<noteq> Some (fingerprint (fl_conns (ro_fleet ro)))"
    using assms by (simp add: get_def)
  then show ?thesis unfolding ro_def by blast
qed


section \<open>Witnesses\<close>

text \<open>A node \<open>eu-1\<close> with one accepted hash; the digests are stand-ins of one byte.\<close>

definition sample_node :: edge_node where
  "sample_node = \<lparr>en_id = ''eu-1'', en_tokenHash = hex_encode [7], en_additionalHashes = [], en_url = ''https://eu''\<rparr>"

lemma channel_identity_exact_witness:
  "channel_refused (\<lambda>k t. [7]) [sample_node] ''eu-1'' ''n'' (Some (edge_response (\<lambda>k t. [7]) (\<lambda>t. [7]) ''eu-1-s'' ''n'')) = None"
proof -
  have "edge_node_id_from_token ''eu-1-s'' = ''eu-1''" by code_simp
  moreover have "authorised_edge_node (\<lambda>t. hex_encode [7]) [sample_node] ''eu-1-s'' = Some sample_node"
    by (simp add: authorised_edge_node_def sample_node_def accepted_token_hashes_def hex_encode_def)
  ultimately show ?thesis
    using channel_identity_exact [of "[sample_node]" "\<lambda>k t. [7]" "\<lambda>t. [7]" "''eu-1''" "''n''" "[]" "''s''" sample_node]
    by (simp add: bytes_def sample_node_def edge_response_def)
qed

lemma node_set_exact_witness: "node_set_stream [(''us'', ''b''), (''eu'', ''a'')] = node_set_stream [(''eu'', ''a''), (''us'', ''b'')]"
  using node_set_exact [of "[(''us'', ''b''), (''eu'', ''a'')]" "[(''eu'', ''a''), (''us'', ''b'')]"]
  by (simp add: is_table_def get_def) fastforce

lemma node_set_reaches_every_edge_witness:
  "told (ro_fleet (rollout_run (\<lambda>_. ''f'') [Node_up 7 ''eu'' [] [], Set_read, Set_written 0])) 7 = Some ''f''"
  by (rule node_set_reaches_every_edge)
    (simp_all add: rollout_run_def new_rollout_def no_fleet_def rollout_step_def attach_def write_frame_def broadcast_def Let_def get_def put_def)

lemma overtaken_broadcast_sticks_witness:
  "\<exists>evs. ro_owed (rollout_run (\<lambda>t. replicate (length t) CHR ''x'') evs) = 0 \<and>
    told (ro_fleet (rollout_run (\<lambda>t. replicate (length t) CHR ''x'') evs)) 7 \<noteq>
      Some (replicate (length (fl_conns (ro_fleet (rollout_run (\<lambda>t. replicate (length t) CHR ''x'') evs)))) CHR ''x'')"
  using overtaken_broadcast_sticks [of "\<lambda>t. replicate (length t) CHR ''x''" "''eu''" "''us''"] by auto

end
