(* ===== verification/Edge_Schedule_Facts.thy ===== *)
theory Edge_Schedule_Facts
  imports Edge_Schedule Edge_Channel_Facts
begin

text \<open>
  The two readings of a time of day agree; a schedule set is the schedule read, and a half-finished change never leaves a
  node that stops and does not start; when a node counts as down; when its clients are warned; whose heartbeat is refused.
\<close>

section \<open>Times of day\<close>

lemma split_sign_cases:
  "(\<exists>c r. s = c # r \<and> (c = CHR ''-'' \<or> c = CHR ''+'') \<and> split_sign s = ([c], r)) \<or> split_sign s = ([], s)"
  by (cases s) (auto simp: split_sign_def)

lemma not_space_digit: "is_digit c \<Longrightarrow> \<not> is_space c"
  by (auto simp: is_digit_def is_space_def)

lemma not_space_sign: "\<not> is_space (CHR ''-'')" "\<not> is_space (CHR ''+'')" "\<not> is_digit (CHR '':'')"
  by (simp_all add: is_space_def is_digit_def)

text \<open>What \<open>parse_int\<close> accepts the scanner reads whole, and stops at a colon or the end.\<close>

lemma scan_int_parse:
  assumes "parse_int s = Some n" "rest = [] \<or> hd rest = CHR '':''"
  shows "scan_int (s @ rest) = Some (n, rest)"
proof -
  obtain sign ds where split: "split_sign s = (sign, ds)" by fastforce
  have sign: "s = sign @ ds \<and> (sign = [] \<or> sign = ''-'' \<or> sign = ''+'')"
    using split_sign_cases [of s] split by auto
  have "ds \<noteq> [] \<and> list_all is_digit ds"
    using assms(1) sign split by (auto simp: parse_int_def Let_def has_prefix_def split_sign_def split: if_splits list.splits)
  then obtain d r where ds: "list_all is_digit ds" and d: "ds = d # r" "is_digit d" by (cases ds) auto
  have "dropWhile (\<lambda>c. is_space c \<and> c \<noteq> CHR 0x0A) (s @ rest) = s @ rest"
    using sign d not_space_digit not_space_sign by auto
  moreover have "split_sign (s @ rest) = (sign, ds @ rest)"
    using sign d split by (auto simp: split_sign_def is_digit_def)
  moreover have "takeWhile is_digit (ds @ rest) = ds" "dropWhile is_digit (ds @ rest) = rest"
    using ds assms(2) not_space_sign(3) by (cases rest; auto simp: list_all_iff takeWhile_append dropWhile_append takeWhile_eq_all_conv dropWhile_eq_Nil_conv)+
  ultimately show ?thesis using assms(1) sign by (simp add: scan_int_def)
qed

lemma parse_hhmm_split:
  assumes "parse_hhmm s = Some (h, m)"
  obtains a b where "s = a @ CHR '':'' # b" "parse_int a = Some h" "parse_int b = Some m" "0 \<le> h" "h \<le> 23" "0 \<le> m" "m \<le> 59"
proof -
  have "CHR '':'' \<in> set s" using assms by (auto simp: parse_hhmm_def split: if_splits)
  then obtain a b where s: "s = a @ CHR '':'' # b" "CHR '':'' \<notin> set a" by (meson split_list_first)
  then have "takeWhile (\<lambda>c. c \<noteq> CHR '':'') s = a" "dropWhile (\<lambda>c. c \<noteq> CHR '':'') s = CHR '':'' # b"
    by (auto simp: takeWhile_append dropWhile_append)
  then show thesis using assms that [OF s(1)] by (auto simp: parse_hhmm_def split: if_splits option.splits)
qed

lemma hhmm_seconds_parse:
  assumes "parse_hhmm s = Some (h, m)"
  shows "hhmm_to_seconds s = Some (h * 3600 + m * 60)"
proof -
  obtain a b where *: "s = a @ CHR '':'' # b" "parse_int a = Some h" "parse_int b = Some m" "0 \<le> h" "h \<le> 23" "0 \<le> m" "m \<le> 59"
    using parse_hhmm_split [OF assms] by blast
  have "scan_int s = Some (h, CHR '':'' # b)" unfolding *(1) by (rule scan_int_parse [OF *(2)]) simp
  moreover have "scan_int b = Some (m, [])" using scan_int_parse [OF *(3), of "[]"] by simp
  ultimately show ?thesis using *(4-7) by (simp add: hhmm_to_seconds_def)
qed


lemma itoa_nonneg: "0 \<le> n \<Longrightarrow> itoa n = itoa_nat (nat n)"
  by (simp add: itoa_def)

lemma itoa_no_space: "0 \<le> n \<Longrightarrow> CHR '' '' \<notin> set (itoa n) \<and> map (\<lambda>c. if is_space c then CHR '' '' else c) (itoa n) = itoa n"
  using itoa_nat_digits [of "nat n"] not_space_digit
  by (auto simp: itoa_nonneg list_all_iff is_digit_def intro: map_idI)

lemma itoa_chars_digit: "0 \<le> n \<Longrightarrow> list_all is_digit (itoa n)"
  by (simp add: itoa_nonneg itoa_nat_digits)

lemma two_digits_parse:
  assumes "0 \<le> n" "n < 100"
  shows "parse_int (two_digits n) = Some n" "CHR '':'' \<notin> set (two_digits n)"
proof -
  have zero: "digits_val (CHR ''0'' # t) = digits_val t" for t by (simp add: digits_val_def digit_val_def)
  have digits: "list_all is_digit (two_digits n)" "two_digits n \<noteq> []" "digits_val (two_digits n) = nat n"
    using assms itoa_chars_digit [of n] by (auto simp: two_digits_def itoa_nonneg zero) (simp add: is_digit_def)
  then obtain c r where c: "two_digits n = c # r" "is_digit c" by (cases "two_digits n") auto
  then show "parse_int (two_digits n) = Some n"
    using digits assms by (auto simp: parse_int_def Let_def has_prefix_def dest: is_digit_not)
  show "CHR '':'' \<notin> set (two_digits n)" using digits(1) by (auto simp: list_all_iff is_digit_def)
qed

lemma trim_prefix_append: "trim_prefix (pre @ s) pre = s"
  by (simp add: trim_prefix_def has_prefix_def)

lemma trim_suffix_append: "trim_suffix (s @ suf) suf = s"
  by (simp add: trim_suffix_def has_suffix_def)

lemma cron_fields:
  assumes "0 \<le> h" "0 \<le> m"
  shows "\<exists>rest. white_fields (trim_suffix (trim_prefix (''cron('' @ itoa m @ '' '' @ itoa h @ '' * * ? *)'') ''cron('') '')'') = itoa m # itoa h # rest"
proof -
  have inner: "trim_suffix (trim_prefix (''cron('' @ itoa m @ '' '' @ itoa h @ '' * * ? *)'') ''cron('') '')'' = itoa m @ '' '' @ itoa h @ '' * * ? *''"
    unfolding trim_prefix_append using trim_suffix_append [of "itoa m @ '' '' @ itoa h @ '' * * ? *''" "'')''"] by simp
  have "itoa m \<noteq> []" "itoa h \<noteq> []" using assms by (simp_all add: itoa_nonneg)
  moreover have "map (\<lambda>c. if is_space c then CHR '' '' else c) (itoa m @ '' '' @ itoa h @ '' * * ? *'') = itoa m @ '' '' @ itoa h @ '' * * ? *''"
    using itoa_no_space [OF assms(1)] itoa_no_space [OF assms(2)] by (simp add: is_space_def)
  ultimately show ?thesis
    unfolding inner white_fields_def
    using split_on_append [of "CHR '' ''" "itoa m" "itoa h @ '' * * ? *''"] split_on_append [of "CHR '' ''" "itoa h" "''* * ? *''"]
      itoa_no_space [OF assms(1)] itoa_no_space [OF assms(2)]
    by auto
qed

lemma cron_round_trip:
  assumes "parse_hhmm s = Some (h, m)"
  shows "\<exists>cron. hhmm_to_cron s = Some cron \<and> cron_to_hhmm cron = Some (two_digits h @ '':'' @ two_digits m)"
    and "parse_hhmm (two_digits h @ '':'' @ two_digits m) = Some (h, m)"
proof -
  have hm: "0 \<le> h" "h \<le> 23" "0 \<le> m" "m \<le> 59" using parse_hhmm_split [OF assms] by metis+
  obtain rest where "white_fields (trim_suffix (trim_prefix (''cron('' @ itoa m @ '' '' @ itoa h @ '' * * ? *)'') ''cron('') '')'') = itoa m # itoa h # rest"
    using cron_fields [OF hm(1,3)] by blast
  moreover have "parse_int (itoa m) = Some m" "parse_int (itoa h) = Some h" using hm by (simp_all add: parse_int_itoa)
  ultimately show "\<exists>cron. hhmm_to_cron s = Some cron \<and> cron_to_hhmm cron = Some (two_digits h @ '':'' @ two_digits m)"
    using assms by (simp add: hhmm_to_cron_def cron_to_hhmm_def)
  have "takeWhile (\<lambda>c. c \<noteq> CHR '':'') (two_digits h @ '':'' @ two_digits m) = two_digits h"
    "dropWhile (\<lambda>c. c \<noteq> CHR '':'') (two_digits h @ '':'' @ two_digits m) = '':'' @ two_digits m"
    using two_digits_parse(2) [of h] hm by (auto simp: takeWhile_append dropWhile_append)
  then show "parse_hhmm (two_digits h @ '':'' @ two_digits m) = Some (h, m)"
    using two_digits_parse [of h] two_digits_parse [of m] hm by (simp add: parse_hhmm_def)
qed

section \<open>Setting a schedule\<close>

lemma valid_times:
  assumes "validate_schedule zone s = None" "ns_enabled s"
  obtains sh sm th tm clock where "parse_hhmm (ns_stopTime s) = Some (sh, sm)" "parse_hhmm (ns_startTime s) = Some (th, tm)"
    "zone (ns_timezone s) = Some clock" "ns_timezone s \<noteq> []" "sh * 3600 + sm * 60 \<noteq> th * 3600 + tm * 60"
    "(th * 3600 + tm * 60 - (sh * 3600 + sm * 60) + 86400) mod 86400 \<le> 82800"
  using assms by (auto simp: validate_schedule_def min_daily_uptime_def Let_def split: if_splits option.splits)

text \<open>C23: The schedule set is the schedule read. When the sidecar accepts an enabled schedule and the calls succeed, what is
  read back is enabled in the same zone with the same times of day, and reading it back and setting it again changes
  nothing; the gateway's own reading of the times is the same.
\<close>
theorem schedule_round_trip:
  assumes "validate_schedule zone s = None" "ns_enabled s" "cs_start rules = Some oldStart" "cs_stop rules = Some oldStop"
  shows "\<exists>rules1 s1. handle_set_schedule zone (True, True) (True, True) s rules = (Schedule_set, rules1) \<and> get_schedule True True rules1 = Inr s1 \<and>
    ns_enabled s1 \<and> ns_timezone s1 = ns_timezone s \<and>
    parse_hhmm (ns_stopTime s1) = parse_hhmm (ns_stopTime s) \<and> parse_hhmm (ns_startTime s1) = parse_hhmm (ns_startTime s) \<and>
    hhmm_to_seconds (ns_stopTime s1) = hhmm_to_seconds (ns_stopTime s) \<and> hhmm_to_seconds (ns_startTime s1) = hhmm_to_seconds (ns_startTime s) \<and>
    get_schedule True True (snd (handle_set_schedule zone (True, True) (True, True) s1 rules1)) = Inr s1"
proof -
  obtain sh sm th tm clock where t: "parse_hhmm (ns_stopTime s) = Some (sh, sm)" "parse_hhmm (ns_startTime s) = Some (th, tm)"
    using valid_times [OF assms(1,2)] by metis
  let ?stop = "two_digits sh @ '':'' @ two_digits sm" and ?start = "two_digits th @ '':'' @ two_digits tm"
  obtain c1 c2 where c: "hhmm_to_cron (ns_stopTime s) = Some c1" "cron_to_hhmm c1 = Some ?stop"
    "hhmm_to_cron (ns_startTime s) = Some c2" "cron_to_hhmm c2 = Some ?start"
    using cron_round_trip(1) [OF t(1)] cron_round_trip(1) [OF t(2)] by blast
  let ?s1 = "\<lparr>ns_enabled = True, ns_stopTime = ?stop, ns_startTime = ?start, ns_timezone = ns_timezone s\<rparr>"
  define rules1 where "rules1 = snd (set_schedule (True, True) (True, True) s rules)"
  have set: "set_schedule (True, True) (True, True) s rules = (None, rules1)"
    "cs_stop rules1 = Some \<lparr>cr_expression = c1, cr_timezone = ns_timezone s, cr_enabled = True\<rparr>"
    "cs_start rules1 = Some \<lparr>cr_expression = c2, cr_timezone = ns_timezone s, cr_enabled = True\<rparr>"
    using assms(2-4) c by (simp_all add: rules1_def set_schedule_def update_one_def Let_def)
  have parsed: "parse_hhmm ?stop = Some (sh, sm)" "parse_hhmm ?start = Some (th, tm)"
    using cron_round_trip(2) [OF t(1)] cron_round_trip(2) [OF t(2)] .
  then have same: "hhmm_to_cron ?stop = Some c1" "hhmm_to_cron ?start = Some c2"
    using c t by (simp_all add: hhmm_to_cron_def)
  have valid: "validate_schedule zone ?s1 = None"
    using assms(1,2) t parsed by (auto simp: validate_schedule_def Let_def split: if_splits)
  have read: "get_schedule True True rules1 = Inr ?s1" using c by (simp add: get_schedule_def set Let_def)
  have "get_schedule True True (snd (handle_set_schedule zone (True, True) (True, True) ?s1 rules1)) = Inr ?s1"
    using valid same c by (simp add: handle_set_schedule_def set_schedule_def update_one_def set Let_def get_schedule_def)
  moreover have "handle_set_schedule zone (True, True) (True, True) s rules = (Schedule_set, rules1)"
    by (simp add: handle_set_schedule_def assms(1) set(1))
  ultimately show ?thesis
    using read parsed t hhmm_seconds_parse [OF t(1)] hhmm_seconds_parse [OF t(2)] hhmm_seconds_parse [OF parsed(1)] hhmm_seconds_parse [OF parsed(2)]
    by (intro exI [of _ rules1] exI [of _ ?s1]) simp
qed

text \<open>A change that breaks off never leaves a node that goes to sleep and does not wake. Whatever call fails, the rule that
  stops the node has changed only when the rule that starts it already carries the new time, zone and state.
\<close>
theorem half_change_still_wakes:
  assumes "handle_set_schedule zone oksStart oksStop s rules = (reply, rules1)" "cs_stop rules1 \<noteq> cs_stop rules"
  shows "reply = Schedule_set \<and> (\<exists>start cron. cs_start rules1 = Some start \<and> hhmm_to_cron (ns_startTime s) = Some cron \<and>
    start = \<lparr>cr_expression = cron, cr_timezone = ns_timezone s, cr_enabled = ns_enabled s\<rparr>)"
  using assms
  by (auto simp: handle_set_schedule_def set_schedule_def update_one_def Let_def split: option.splits sum.splits if_splits prod.splits)

text \<open>A node cannot be taken off the rota without times. A schedule that is not enabled is accepted without times, which are
  said to be irrelevant then; setting it fails on them, and the rules go on firing.
\<close>
theorem disabling_without_times_fails:
  assumes "\<not> ns_enabled s" "ns_startTime s = []" "cs_start rules = Some r" "fst oksStart"
  shows "validate_schedule zone s = None \<and> handle_set_schedule zone oksStart oksStop s rules = (Backend_error Bad_time, rules)"
  using assms by (simp add: validate_schedule_def handle_set_schedule_def set_schedule_def update_one_def hhmm_to_cron_def parse_hhmm_def)


section \<open>The window\<close>

lemma mod_day_unique: "0 \<le> (k::int) \<Longrightarrow> k < 86400 \<Longrightarrow> 0 \<le> c \<Longrightarrow> c < 86400 \<Longrightarrow> c = (s + k) mod 86400 \<Longrightarrow> k = (c - s) mod 86400"
  by (metis add_diff_cancel_left' mod_diff_left_eq mod_pos_pos_trivial)

lemma day_shift: "((a::int) + 86400) mod 86400 = a mod 86400"
  by simp

text \<open>C24: When an accepted schedule says that its node is down. For every schedule the sidecar accepts and enables, the
  gateway counts the node as down exactly in the seconds from its stop time to five minutes past its start time, around
  midnight if need be; and that leaves at least fifty-five minutes of every day in which it must be up.
\<close>
theorem downtime_exact:
  assumes "validate_schedule zone s = None" "ns_enabled s"
    and "zone (ns_timezone s) = Some clock" "\<And>t. 0 \<le> clock t \<and> clock t < 86400"
  shows "\<exists>stop start. hhmm_to_seconds (ns_stopTime s) = Some stop \<and> hhmm_to_seconds (ns_startTime s) = Some start \<and>
    (\<forall>now. is_within_scheduled_downtime zone now (ns_stopTime s) (ns_startTime s) (ns_timezone s) \<longleftrightarrow>
       (\<exists>k. 0 \<le> k \<and> k < (start - stop) mod 86400 + 300 \<and> clock now = (stop + k) mod 86400)) \<and>
    (start - stop) mod 86400 + 300 \<le> 86400 - 3300"
proof -
  obtain sh sm th tm where t: "parse_hhmm (ns_stopTime s) = Some (sh, sm)" "parse_hhmm (ns_startTime s) = Some (th, tm)" "ns_timezone s \<noteq> []"
    "sh * 3600 + sm * 60 \<noteq> th * 3600 + tm * 60" "(th * 3600 + tm * 60 - (sh * 3600 + sm * 60) + 86400) mod 86400 \<le> 82800"
    using valid_times [OF assms(1,2)] by metis
  define stop where "stop = sh * 3600 + sm * 60"
  define start where "start = th * 3600 + tm * 60"
  have secs: "hhmm_to_seconds (ns_stopTime s) = Some stop" "hhmm_to_seconds (ns_startTime s) = Some start"
    using hhmm_seconds_parse [OF t(1)] hhmm_seconds_parse [OF t(2)] by (simp_all add: stop_def start_def)
  have ne: "ns_stopTime s \<noteq> []" "ns_startTime s \<noteq> []" using t(1,2) by (auto simp: parse_hhmm_def)
  have window: "(start - stop) mod 86400 \<le> 82800" using t(5) unfolding day_shift by (simp add: stop_def start_def)
  have within: "is_within_scheduled_downtime zone now (ns_stopTime s) (ns_startTime s) (ns_timezone s) \<longleftrightarrow>
      (clock now - stop) mod 86400 < (start - stop) mod 86400 + 300" for now
    using ne t(3,4) by (simp add: is_within_scheduled_downtime_def secs assms(3) day_seconds_def scheduled_start_grace_def stop_def start_def)
  have "(clock now - stop) mod 86400 < (start - stop) mod 86400 + 300 \<longleftrightarrow>
      (\<exists>k. 0 \<le> k \<and> k < (start - stop) mod 86400 + 300 \<and> clock now = (stop + k) mod 86400)" for now
  proof
    assume less: "(clock now - stop) mod 86400 < (start - stop) mod 86400 + 300"
    have "clock now = (stop + (clock now - stop) mod 86400) mod 86400"
      using assms(4) [of now] by (simp add: mod_add_right_eq)
    then show "\<exists>k. 0 \<le> k \<and> k < (start - stop) mod 86400 + 300 \<and> clock now = (stop + k) mod 86400"
      using less by (intro exI [of _ "(clock now - stop) mod 86400"]) simp
  next
    assume "\<exists>k. 0 \<le> k \<and> k < (start - stop) mod 86400 + 300 \<and> clock now = (stop + k) mod 86400"
    then obtain k where k: "0 \<le> k" "k < (start - stop) mod 86400 + 300" "clock now = (stop + k) mod 86400" by blast
    then have "k = (clock now - stop) mod 86400" using mod_day_unique [of k "clock now" stop] assms(4) [of now] window by simp
    then show "(clock now - stop) mod 86400 < (start - stop) mod 86400 + 300" using k(2) by simp
  qed
  then show ?thesis using secs within window by (intro exI [of _ stop] exI [of _ start]) simp
qed

section \<open>The warning of a stop\<close>

lemma warn_node_sent: "\<exists>more. fl_sent (warn_node zone now configured e fl) = fl_sent fl @ more"
proof -
  have one: "\<exists>more. fl_sent (write_frame m c fl) = fl_sent fl @ more" for m c fl by (simp add: write_frame_def)
  then show ?thesis
    by (cases e) (auto simp: warn_node_def broadcast_node_shutdown_warning_def send_to_def broadcast_def Let_def
        write_frames_sent [THEN conjunct1] split: option.splits)
qed

lemma warn_node_conns: "fl_conns (warn_node zone now configured e fl) = fl_conns fl"
  by (cases e) (auto simp: warn_node_def broadcast_node_shutdown_warning_def send_to_def broadcast_def Let_def
      write_frames_sent [THEN conjunct2] split: option.splits)

lemma warn_nodes_keep: "x \<in> set (fl_sent fl) \<Longrightarrow> x \<in> set (fl_sent (fold (warn_node zone now configured) es fl))"
proof (induction es arbitrary: fl)
  case (Cons e es)
  have "x \<in> set (fl_sent (warn_node zone now configured e fl))"
    using warn_node_sent [of zone now configured e fl] Cons.prems by auto
  then show ?case using Cons.IH by simp
qed simp

lemma warn_nodes_tells:
  assumes "(node, h) \<in> set es" "shutdown_warning_due zone now configured h = Some n" "node \<noteq> []" "get (fl_conns fl) node = Some c"
  shows "(c, Fr_shutdown_warning n (unix now + n) (shutdown_reason (warning_minutes configured) (nh_stopTime h)))
    \<in> set (fl_sent (fold (warn_node zone now configured) es fl))"
  using assms(1,4)
proof (induction es arbitrary: fl)
  case (Cons e es)
  show ?case
  proof (cases "e = (node, h)")
    case True
    then have "(c, Fr_shutdown_warning n (unix now + n) (shutdown_reason (warning_minutes configured) (nh_stopTime h)))
        \<in> set (fl_sent (warn_node zone now configured e fl))"
      using assms(2,3) Cons.prems(2)
      by (simp add: warn_node_def broadcast_node_shutdown_warning_def send_to_def Let_def write_frame_def)
    then show ?thesis by (simp add: warn_nodes_keep)
  next
    case False
    then show ?thesis using Cons by (simp add: warn_node_conns)
  qed
qed simp

text \<open>A scheduled stop is announced in time, and every warning announces the same instant. While its clock runs without a
  change of offset, each pass of the monitor in the minutes before the stop tells a connected node, on its connection, the
  instant of that stop.
\<close>
theorem scheduled_stop_is_announced:
  assumes health: "get (fl_health fl) node = Some h" "nh_scheduled h" "nh_timezone h \<noteq> []" "hhmm_to_seconds (nh_stopTime h) = Some stop"
    and clock: "zone (nh_timezone h) = Some clock" "\<And>t. clock t = (c0 + unix t) mod 86400"
    and stop: "0 \<le> stop" "stop < 86400" "(c0 + T) mod 86400 = stop"
    and pass: "T - warning_minutes configured * 60 \<le> unix now" "unix now < T" "warning_minutes configured < 1440"
    and node: "node \<noteq> []" "get (fl_conns fl) node = Some c"
  shows "(c, Fr_shutdown_warning (T - unix now) T (shutdown_reason (warning_minutes configured) (nh_stopTime h)))
    \<in> set (fl_sent (check_edge_shutdown_warnings zone now configured fl))"
proof -
  have "nh_stopTime h \<noteq> []" using health(4) by (auto simp: hhmm_to_seconds_def scan_int_def split_sign_def parse_int_def Let_def has_prefix_def)
  moreover have "(stop - clock now + 86400) mod 86400 = T - unix now"
  proof -
    have "(stop - clock now + 86400) mod 86400 = ((c0 + T) - (c0 + unix now)) mod 86400"
      unfolding day_shift clock(2) stop(3) [symmetric] by (rule mod_diff_eq)
    also have "\<dots> = T - unix now" using pass by simp
    finally show ?thesis .
  qed
  ultimately have "shutdown_warning_due zone now configured h = Some (T - unix now)"
    using health clock(1) pass by (simp add: shutdown_warning_due_def seconds_until_scheduled_stop_def day_seconds_def)
  from warn_nodes_tells [OF _ this node, of "fl_health fl"] health(1)
  show ?thesis by (simp add: check_edge_shutdown_warnings_def get_def map_of_SomeD)
qed

section \<open>Which gateway is down\<close>

lemma names_itself: "names_node node node"
  by (simp add: names_node_def equal_fold_def to_lower_def)

lemma region_offline_entry:
  assumes "get health node = Some h" "names_node region node" "region \<noteq> []"
    and "nh_status h = ''Offline'' \<or> nh_status h = ''Disabled'' \<or> nh_adminDisabled h"
  shows "is_region_offline region health"
  using assms by (auto simp: is_region_offline_def list_ex_iff get_def dest!: map_of_SomeD intro!: bexI [of _ "(node, h)"])

lemma fleet_step_offline:
  assumes "get (fl_health fl) node = Some h" "nh_status h = ''Offline''"
  shows "\<exists>h'. get (fl_health (fleet_step ev fl)) node = Some h' \<and> nh_status h' = ''Offline''"
proof (cases ev)
  case (Attached c other v i)
  then show ?thesis using assms by (simp add: fleet_step_def attach_conns)
next
  case (Detached c other)
  then show ?thesis using assms by (auto simp: fleet_step_def detach_def Let_def mark_disconnected_def table_simps split: option.split)
next
  case (Ponged now other)
  then show ?thesis using assms
    by (auto simp: fleet_step_def pong_received_def update_edge_latency_from_ping_def health_of_def table_simps split: option.split)
qed (use assms in \<open>auto simp: fleet_step_def ping_sent_def metrics_received_def split: prod.split\<close>)

text \<open>A node that was once disconnected can stay offline for ever. The end of its connection marks its entry, and neither a
  new connection nor anything that happens on it, nor, for a node without a URL, any check of its health, takes the mark
  off: the control plane goes on refusing the heartbeats of its clients while it is connected and serves them.
\<close>
theorem reconnected_node_stays_offline:
  assumes "get (fl_conns fl) node = Some c" "get (fl_health fl) node = Some h" "node \<noteq> []"
  shows "fst (handle_tunnel_status now (fl_health (fold fleet_step (Attached c' node v i # evs) (snd (detach c node fl)))) a fp node tok status r)
      = Region_offline \<and>
    (en_url n = [] \<longrightarrow> check_edge_node_health hi outboundOk n fl' = fl')"
proof -
  have "\<exists>h'. get (fl_health (snd (detach c node fl))) node = Some h' \<and> nh_status h' = ''Offline''"
    using assms by (simp add: detach_def Let_def mark_disconnected_def table_simps)
  moreover have "\<exists>h'. get (fl_health (fold fleet_step es g)) node = Some h' \<and> nh_status h' = ''Offline''"
    if "\<exists>h'. get (fl_health g) node = Some h' \<and> nh_status h' = ''Offline''" for es g
    using that
  proof (induction es arbitrary: g)
    case (Cons e es)
    then show ?case using fleet_step_offline [of g node _ e] by auto
  qed simp
  ultimately obtain h' where "get (fl_health (fold fleet_step (Attached c' node v i # evs) (snd (detach c node fl)))) node = Some h'"
    "nh_status h' = ''Offline''"
    by blast
  then have "is_region_offline node (fl_health (fold fleet_step (Attached c' node v i # evs) (snd (detach c node fl))))"
    using region_offline_entry [OF _ names_itself assms(3)] by blast
  then show ?thesis by (simp add: handle_tunnel_status_def check_edge_node_health_def del: fold_simps)
qed

text \<open>A gateway that is down takes its namesakes' clients with it. The heartbeat of a client is refused when any node whose
  name goes on behind the client's own region and a dash is down, though the client's gateway itself is online.
\<close>
theorem namesake_refuses_heartbeat:
  assumes "get health (region @ ''-'' @ x) = Some h" "nh_status h = ''Offline'' \<or> nh_status h = ''Disabled''" "region \<noteq> []"
  shows "fst (handle_tunnel_status now health a fp region tok status r) = Region_offline"
proof -
  have "names_node region (region @ ''-'' @ x)" by (simp add: names_node_def has_prefix_def to_lower_def lower_char_def)
  then have "is_region_offline region health" using region_offline_entry [OF assms(1)] assms(2,3) by blast
  then show ?thesis by (simp add: handle_tunnel_status_def)
qed


lemma send_edge_schedule_health [simp]: "fl_health (send_edge_schedule node s fl) = fl_health fl"
  by (simp add: send_edge_schedule_def send_to_def split: option.split)

lemma record_health_entry:
  "get (fl_health (record_health hi node status err version fl)) node =
     Some (snd (update_edge_health hi (address_of (fl_ips fl) node) node status err version False (health_of (fl_health fl) node)))"
  by (simp add: record_health_def Let_def table_simps split: prod.split option.split)

lemma refresh_keeps_admin: "nh_adminDisabled (snd (refresh_schedule hi node h)) = nh_adminDisabled h"
  by (auto simp: refresh_schedule_def adopt_schedule_def Let_def split: option.splits sum.splits prod.splits if_splits)

text \<open>A node is shown as what it is. A check says unknown when the control plane itself cannot reach out, online exactly
  for a node that is connected, disabled for one that is not and was stopped by an administrator or is inside the window of
  the schedule as just refreshed, and offline otherwise; and it keeps the version last reported.
\<close>
theorem node_status_exact:
  assumes "en_url n \<noteq> []"
  shows "\<exists>h. get (fl_health (check_edge_node_health hi outboundOk n fl)) (en_id n) = Some h \<and>
    nh_status h =
      (if \<not> outboundOk then ''Unknown''
       else if get (fl_conns fl) (en_id n) \<noteq> None then ''Online''
       else if nh_adminDisabled (health_of (fl_health fl) (en_id n)) \<or>
         nh_scheduled h \<and> is_within_scheduled_downtime (hi_zone hi) (hi_now hi) (nh_stopTime h) (nh_startTime h) (nh_timezone h) then ''Disabled''
       else ''Offline'') \<and>
    (nh_onlineSince h \<noteq> 0 \<longrightarrow> nh_status h = ''Online'') \<and>
    (get (fl_conns fl) (en_id n) = None \<longrightarrow> nh_version h = nh_version (health_of (fl_health fl) (en_id n)))"
proof -
  have parts: "nh_status (snd (update_edge_health hi live node status err version False prev)) =
        shown_status hi status False (snd (refresh_schedule hi node prev)) \<and>
      nh_scheduled (snd (update_edge_health hi live node status err version False prev)) = nh_scheduled (snd (refresh_schedule hi node prev)) \<and>
      nh_stopTime (snd (update_edge_health hi live node status err version False prev)) = nh_stopTime (snd (refresh_schedule hi node prev)) \<and>
      nh_startTime (snd (update_edge_health hi live node status err version False prev)) = nh_startTime (snd (refresh_schedule hi node prev)) \<and>
      nh_timezone (snd (update_edge_health hi live node status err version False prev)) = nh_timezone (snd (refresh_schedule hi node prev)) \<and>
      nh_onlineSince (snd (update_edge_health hi live node status err version False prev)) = online_since (hi_now hi) status prev \<and>
      nh_version (snd (update_edge_health hi live node status err version False prev)) = (if version = [] then nh_version prev else version)"
    for live node status err version prev
    by (simp add: update_edge_health_def Let_def split: prod.split)
  show ?thesis using assms
    by (auto simp: check_edge_node_health_def record_health_entry parts shown_status_def online_since_def refresh_keeps_admin)
qed

text \<open>A schedule in the configuration overrules the scheduler's answer that there is none. When the sidecar answers, and the
  node has no rules there, the window declared in the configuration is adopted and enabled, though the scheduler will not
  stop the node.
\<close>
theorem static_schedule_overrules_none:
  assumes "hi_provisioner hi node = Some (Inr \<lparr>ns_enabled = False, ns_stopTime = [], ns_startTime = [], ns_timezone = []\<rparr>)"
    and "refetch_due (hi_now hi) h" "hi_static hi node = Some s" "ns_enabled s"
  shows "schedule_of (snd (refresh_schedule hi node h)) = s"
  using assms by (simp add: refresh_schedule_def adopt_schedule_def schedule_of_def)

section \<open>Witnesses\<close>

text \<open>A node that stops at 22:00 and starts at 06:00 by a clock in UTC.\<close>

definition night :: node_schedule where
  "night = \<lparr>ns_enabled = True, ns_stopTime = ''22:00'', ns_startTime = ''6:00'', ns_timezone = ''UTC''\<rparr>"

definition utc :: "string \<Rightarrow> (time \<Rightarrow> int) option" where
  "utc tz = (if tz = ''UTC'' then Some (\<lambda>t. unix t mod 86400) else None)"

lemma night_times: "parse_hhmm ''22:00'' = Some (22, 0)" "parse_hhmm ''6:00'' = Some (6, 0)"
  by (simp_all add: parse_hhmm_def parse_int_def has_prefix_def is_digit_def digits_val_def digit_val_def Let_def)

lemma night_valid: "validate_schedule utc night = None"
  by (simp add: validate_schedule_def night_def utc_def night_times min_daily_uptime_def Let_def)

definition some_rules :: cloud_rules where
  "some_rules = \<lparr>cs_stop = Some \<lparr>cr_expression = [], cr_timezone = [], cr_enabled = False\<rparr>,
     cs_start = Some \<lparr>cr_expression = [], cr_timezone = [], cr_enabled = False\<rparr>\<rparr>"

lemma schedule_round_trip_witness:
  "\<exists>rules1 s1. handle_set_schedule utc (True, True) (True, True) night some_rules = (Schedule_set, rules1) \<and>
    get_schedule True True rules1 = Inr s1 \<and> parse_hhmm (ns_startTime s1) = Some (6, 0)"
  using schedule_round_trip [OF night_valid, of some_rules] by (auto simp: some_rules_def night_def night_times)

lemma half_change_still_wakes_witness:
  "\<exists>start. cs_start (snd (handle_set_schedule utc (True, True) (True, True) night some_rules)) = Some start \<and> cr_enabled start"
proof -
  obtain reply rules1 where set: "handle_set_schedule utc (True, True) (True, True) night some_rules = (reply, rules1)" by fastforce
  then have "cs_stop rules1 \<noteq> cs_stop some_rules"
    using night_valid by (auto simp: handle_set_schedule_def set_schedule_def update_one_def some_rules_def night_def hhmm_to_cron_def night_times Let_def)
  from half_change_still_wakes [OF set this] show ?thesis unfolding set by (auto simp: night_def)
qed

lemma disabling_without_times_fails_witness:
  "fst (handle_set_schedule utc (True, True) (True, True) (night\<lparr>ns_enabled := False, ns_startTime := []\<rparr>) some_rules) = Backend_error Bad_time"
  using disabling_without_times_fails [of "night\<lparr>ns_enabled := False, ns_startTime := []\<rparr>" some_rules _ "(True, True)" utc "(True, True)"]
  by (simp add: some_rules_def)

lemma downtime_exact_witness:
  "is_within_scheduled_downtime utc (23 * hour) ''22:00'' ''6:00'' ''UTC'' \<and> \<not> is_within_scheduled_downtime utc (12 * hour) ''22:00'' ''6:00'' ''UTC''"
proof -
  have enabled: "ns_enabled night" and zone: "utc (ns_timezone night) = Some (\<lambda>t. unix t mod 86400)" by (simp_all add: night_def utc_def)
  have range: "0 \<le> unix t mod 86400 \<and> unix t mod 86400 < 86400" for t by simp
  obtain stop start where secs: "hhmm_to_seconds ''22:00'' = Some stop" "hhmm_to_seconds ''6:00'' = Some start"
    and exact: "\<And>now. is_within_scheduled_downtime utc now ''22:00'' ''6:00'' ''UTC'' \<longleftrightarrow>
       (\<exists>k. 0 \<le> k \<and> k < (start - stop) mod 86400 + 300 \<and> unix now mod 86400 = (stop + k) mod 86400)"
    using downtime_exact [OF night_valid enabled zone range] unfolding night_def by auto
  have times: "stop = 79200" "start = 21600" using secs hhmm_seconds_parse [OF night_times(1)] hhmm_seconds_parse [OF night_times(2)] by simp_all
  have late: "unix (23 * hour) mod 86400 = 82800" "unix (12 * hour) mod 86400 = 43200"
    by (simp_all add: unix_def hour_def minute_def second_def)
  have "\<exists>k. 0 \<le> k \<and> k < (start - stop) mod 86400 + 300 \<and> (82800::int) = (stop + k) mod 86400"
    by (intro exI [of _ 3600]) (simp add: times)
  moreover have "\<not> (0 \<le> k \<and> k < (start - stop) mod 86400 + 300 \<and> (43200::int) = (stop + k) mod 86400)" for k
  proof
    assume "0 \<le> k \<and> k < (start - stop) mod 86400 + 300 \<and> (43200::int) = (stop + k) mod 86400"
    then have k: "0 \<le> k" "k < 29100" "43200 = (79200 + k) mod 86400" by (auto simp: times)
    have "k = (43200 - 79200) mod 86400" by (rule mod_day_unique [OF k(1) _ _ _ k(3)]) (use k(2) in simp_all)
    with k(2) show False by simp
  qed
  ultimately show ?thesis by (simp add: exact late)
qed

definition night_health :: node_health where
  "night_health = no_health\<lparr>nh_scheduled := True, nh_stopTime := ''22:00'', nh_startTime := ''6:00'', nh_timezone := ''UTC''\<rparr>"

definition night_fleet :: fleet where
  "night_fleet = no_fleet\<lparr>fl_conns := [(''eu'', 7)], fl_health := [(''eu'', night_health)]\<rparr>"

lemma scheduled_stop_is_announced_witness:
  "(7, Fr_shutdown_warning 120 79200 (shutdown_reason 5 ''22:00'')) \<in> set (fl_sent (check_edge_shutdown_warnings utc (79080 * second) 5 night_fleet))"
proof -
  have now: "unix (79080 * second) = 79080" by (simp add: unix_def second_def)
  have stop: "hhmm_to_seconds (nh_stopTime night_health) = Some 79200"
    using hhmm_seconds_parse [OF night_times(1)] by (simp add: night_health_def)
  have "(7, Fr_shutdown_warning (79200 - unix (79080 * second)) 79200 (shutdown_reason (warning_minutes 5) (nh_stopTime night_health)))
      \<in> set (fl_sent (check_edge_shutdown_warnings utc (79080 * second) 5 night_fleet))"
  proof (rule scheduled_stop_is_announced [OF _ _ _ stop])
    show "utc (nh_timezone night_health) = Some (\<lambda>t. unix t mod 86400)" by (simp add: utc_def night_health_def)
    show "unix t mod 86400 = (0 + unix t) mod 86400" for t by simp
  qed (simp_all add: night_fleet_def night_health_def get_def now warning_minutes_def)
  then show ?thesis by (simp add: now warning_minutes_def night_health_def)
qed

lemma reconnected_node_stays_offline_witness:
  "fst (handle_tunnel_status 0 (fl_health (attach 8 ''eu'' [] [] (snd (detach 7 ''eu'' night_fleet)))) \<lparr>an_at = 0, an_reason = []\<rparr> [] ''eu'' ''t'' ''up'' new_registry)
     = Region_offline"
  using reconnected_node_stays_offline [of night_fleet "''eu''" 7 night_health 0 8 "[]" "[]" "[]" "\<lparr>an_at = 0, an_reason = []\<rparr>" "[]" "''t''" "''up''" new_registry]
  by (simp add: night_fleet_def get_def fleet_step_def)

lemma namesake_refuses_heartbeat_witness:
  "fst (handle_tunnel_status 0 [(''edge-us'', no_health\<lparr>nh_status := ''Online''\<rparr>), (''edge-us-west'', no_health\<lparr>nh_status := ''Offline''\<rparr>)]
     \<lparr>an_at = 0, an_reason = []\<rparr> [] ''edge-us'' ''t'' ''up'' new_registry) = Region_offline"
  using namesake_refuses_heartbeat [of "[(''edge-us'', no_health\<lparr>nh_status := ''Online''\<rparr>), (''edge-us-west'', no_health\<lparr>nh_status := ''Offline''\<rparr>)]"
      "''edge-us''" "''west''" "no_health\<lparr>nh_status := ''Offline''\<rparr>"]
  by (simp add: get_def)

definition quiet_inputs :: health_inputs where
  "quiet_inputs = \<lparr>hi_now = 23 * hour, hi_zone = utc, hi_static = (\<lambda>_. Some night), hi_resolve = (\<lambda>_. ([], [])),
     hi_provisioner = (\<lambda>_. Some (Inr \<lparr>ns_enabled = False, ns_stopTime = [], ns_startTime = [], ns_timezone = []\<rparr>))\<rparr>"

lemma node_status_exact_witness:
  "\<exists>h. get (fl_health (check_edge_node_health quiet_inputs True sample_node no_fleet)) ''eu-1'' = Some h \<and> nh_status h \<noteq> ''Online''"
proof -
  have url: "en_url sample_node \<noteq> []" and i: "en_id sample_node = ''eu-1''" by (simp_all add: sample_node_def)
  have down: "get (fl_conns no_fleet) ''eu-1'' = None" by (simp add: no_fleet_def get_def)
  obtain h where "get (fl_health (check_edge_node_health quiet_inputs True sample_node no_fleet)) ''eu-1'' = Some h"
    "nh_status h = ''Disabled'' \<or> nh_status h = ''Offline''"
    using node_status_exact [OF url, of quiet_inputs True no_fleet] unfolding i down by (auto split: if_splits)
  then show ?thesis by auto
qed

lemma static_schedule_overrules_none_witness: "schedule_of (snd (refresh_schedule quiet_inputs ''eu'' no_health)) = night"
  using static_schedule_overrules_none [of quiet_inputs "''eu''" no_health night]
  by (simp add: quiet_inputs_def refetch_due_def no_health_def night_def)

end
