(* ===== verification/Client_Redact.thy ===== *)
theory Client_Redact
  imports Client_Election
begin

text \<open>
  What a client sends when its logs are collected (\<open>redact.go\<close>, \<open>diagnostics_command.go\<close>): the removal of secrets from
  text, paths, events and traffic lines, the bounded window over each log, the three logs under one budget, the commands
  taken from a heartbeat and their acknowledgements, and the upload.
\<close>

section \<open>Replacing in text\<close>

text \<open>
  A pattern is a function of the character before the position and the text from it on; where it matches it gives the
  number of characters it takes and what stands for them. All four patterns take at least one character and none needs
  to give characters back, since what follows each run is not in the class of the run. Letters outside ASCII that fold
  to \<open>k\<close> or \<open>s\<close> are not considered.
\<close>

type_synonym pattern = "char option \<Rightarrow> string \<Rightarrow> (nat \<times> string) option"

definition code_of :: "char \<Rightarrow> nat" where "code_of c = of_char c"

definition is_letter :: "char \<Rightarrow> bool" where
  "is_letter c \<longleftrightarrow> 65 \<le> code_of c \<and> code_of c \<le> 90 \<or> 97 \<le> code_of c \<and> code_of c \<le> 122"

definition is_decimal :: "char \<Rightarrow> bool" where "is_decimal c \<longleftrightarrow> 48 \<le> code_of c \<and> code_of c \<le> 57"

definition is_word :: "char \<Rightarrow> bool" where "is_word c \<longleftrightarrow> is_letter c \<or> is_decimal c \<or> c = CHR ''_''"

definition pattern_space :: "char \<Rightarrow> bool" where "pattern_space c \<longleftrightarrow> code_of c \<in> {9, 10, 12, 13, 32}"

definition word_boundary :: "char option \<Rightarrow> string \<Rightarrow> bool" where
  "word_boundary prev s \<longleftrightarrow>
     (case prev of None \<Rightarrow> False | Some c \<Rightarrow> is_word c) \<noteq> (case s of [] \<Rightarrow> False | c # _ \<Rightarrow> is_word c)"

text \<open>All matches, from the left, none overlapping another.\<close>

function replace_matches :: "pattern \<Rightarrow> char option \<Rightarrow> string \<Rightarrow> string" where
  "replace_matches m prev s =
     (case s of [] \<Rightarrow> []
      | c # cs \<Rightarrow>
          (case m prev s of
             Some (n, standin) \<Rightarrow>
               if n = 0 \<or> length s < n then c # replace_matches m (Some c) cs
               else standin @ replace_matches m (Some (s ! (n - 1))) (drop n s)
           | None \<Rightarrow> c # replace_matches m (Some c) cs))"
  by pat_completeness auto
termination by (relation "measure (\<lambda>(_, _, s). length s)") auto

declare replace_matches.simps [simp del]

definition redacted_placeholder :: string where "redacted_placeholder = ''[REDACTED]''"

definition token_char :: "char \<Rightarrow> bool" where "token_char c \<longleftrightarrow> is_word c \<or> c = CHR ''-''"

definition pat_pattern :: pattern where
  "pat_pattern prev s =
     (let n = length (takeWhile token_char (drop 8 s))
      in if word_boundary prev s \<and> has_prefix s ''lfr_pat_'' \<and> 0 < n then Some (8 + n, redacted_placeholder) else None)"

definition bearer_char :: "char \<Rightarrow> bool" where
  "bearer_char c \<longleftrightarrow> is_word c \<or> c \<in> set ''.-+/=''"

definition bearer_pattern :: pattern where
  "bearer_pattern prev s =
     (case List.find (\<lambda>w. has_prefix (to_lower s) w) [''bearer'', ''basic''] of
        None \<Rightarrow> None
      | Some w \<Rightarrow>
          (let spaces = length (takeWhile pattern_space (drop (length w) s));
               n = length (takeWhile bearer_char (drop (length w + spaces) s))
           in if word_boundary prev s \<and> 0 < spaces \<and> 8 \<le> n
              then Some (length w + spaces + n, take (length w) s @ '' '' @ redacted_placeholder) else None))"

definition scheme_char :: "char \<Rightarrow> bool" where
  "scheme_char c \<longleftrightarrow> is_letter c \<or> is_decimal c \<or> c \<in> set ''+.-''"

definition url_user_char :: "char \<Rightarrow> bool" where
  "url_user_char c \<longleftrightarrow> \<not> pattern_space c \<and> c \<notin> set ''/:@''"

definition url_secret_char :: "char \<Rightarrow> bool" where
  "url_secret_char c \<longleftrightarrow> \<not> pattern_space c \<and> c \<notin> set ''/@''"

definition url_credential_pattern :: pattern where
  "url_credential_pattern prev s =
     (case s of [] \<Rightarrow> None
      | c # cs \<Rightarrow>
          (let start = Suc (length (takeWhile scheme_char cs)) + 3;
               user = length (takeWhile url_user_char (drop start s));
               secret = length (takeWhile url_secret_char (drop (start + user + 1) s));
               finish = start + user + 1 + secret
           in if is_letter c \<and> has_prefix (drop (start - 3) s) ''://'' \<and> 0 < user \<and> has_prefix (drop (start + user) s) '':'' \<and>
                 0 < secret \<and> has_prefix (drop finish s) ''@''
              then Some (finish + 1, take start s @ redacted_placeholder @ ''@'') else None))"

definition query_names :: "string list" where
  "query_names = [''token'', ''api_key'', ''api-key'', ''apikey'', ''secret'', ''password'', ''passwd'', ''pwd'', ''auth'',
     ''access_token'', ''access-token'', ''accesstoken'', ''refresh_token'', ''refresh-token'', ''refreshtoken'',
     ''signature'', ''sig'', ''session'']"

definition query_value_char :: "char \<Rightarrow> bool" where
  "query_value_char c \<longleftrightarrow> \<not> pattern_space c \<and> c \<noteq> CHR ''&'' \<and> code_of c \<noteq> 34 \<and> code_of c \<noteq> 39"

definition query_credential_pattern :: pattern where
  "query_credential_pattern prev s =
     (case List.find (\<lambda>w. has_prefix (to_lower s) (w @ ''='')) query_names of
        None \<Rightarrow> None
      | Some w \<Rightarrow>
          (let n = length (takeWhile query_value_char (drop (length w + 1) s))
           in if word_boundary prev s \<and> 0 < n
              then Some (length w + 1 + n, take (length w) s @ ''='' @ redacted_placeholder) else None))"

definition redact_text :: "string \<Rightarrow> string" where
  "redact_text s =
     (if s = [] then s
      else replace_matches query_credential_pattern None
        (replace_matches bearer_pattern None (replace_matches url_credential_pattern None (replace_matches pat_pattern None s))))"

section \<open>Fields, paths and lines\<close>

definition secret_field_names :: "string list" where
  "secret_field_names = [''token'', ''password'', ''passwd'', ''pwd'', ''secret'', ''key'', ''auth'', ''authorization'', ''credential'',
     ''cookie'', ''session'', ''pat'', ''signature'']"

definition looks_like_secret_name :: "string \<Rightarrow> bool" where
  "looks_like_secret_name name \<longleftrightarrow> list_ex (contains (to_lower name)) secret_field_names"

datatype json = J_null | J_bool bool | J_number string | J_string string | J_array "json list" | J_object "(string \<times> json) list"

fun redact_item :: "json \<Rightarrow> json" where
  "redact_item (J_string s) = J_string (redact_text s)"
| "redact_item v = v"

function redact_fields :: "(string \<times> json) list \<Rightarrow> (string \<times> json) list" and redact_value :: "json \<Rightarrow> json" where
  "redact_fields [] = []"
| "redact_fields ((k, v) # rest) =
     (k, if looks_like_secret_name k then J_string redacted_placeholder else redact_value v) # redact_fields rest"
| "redact_value (J_string s) = J_string (redact_text s)"
| "redact_value (J_object m) = J_object (redact_fields m)"
| "redact_value (J_array xs) = J_array (map redact_item xs)"
| "redact_value J_null = J_null"
| "redact_value (J_bool b) = J_bool b"
| "redact_value (J_number n) = J_number n"
  by pat_completeness auto
termination
  by (relation "measure (\<lambda>x. case x of Inl m \<Rightarrow> size_list (size_prod (\<lambda>_. 0) size) m | Inr v \<Rightarrow> size v)") auto

record traffic_entry =
  te_time :: string
  te_method :: string
  te_path :: string
  te_status :: int
  te_durationMs :: int
  te_targetPort :: int
  te_targetHost :: string
  te_region :: string
  te_reqBody :: string
  te_respBody :: string

record event_entry =
  ve_time :: string
  ve_level :: string
  ve_event :: string
  ve_fields :: "(string \<times> json) list option"

text \<open>
  The parser of URLs gives the parameters of a query that is not empty, and a URL with other ones; the codec reads a line
  as an entry and writes it back.
\<close>

record codec =
  cd_query :: "string \<Rightarrow> (string, string list) table option"
  cd_withQuery :: "string \<Rightarrow> (string, string list) table \<Rightarrow> string"
  cd_readTraffic :: "string \<Rightarrow> traffic_entry option"
  cd_writeTraffic :: "traffic_entry \<Rightarrow> string option"
  cd_readEvent :: "string \<Rightarrow> event_entry option"
  cd_writeEvent :: "event_entry \<Rightarrow> string option"

definition redact_path :: "codec \<Rightarrow> string \<Rightarrow> string" where
  "redact_path cd p =
     (if p = [] then p
      else case cd_query cd p of None \<Rightarrow> redact_text p
      | Some q \<Rightarrow>
          if list_ex (\<lambda>(k, _). looks_like_secret_name k) q
          then redact_text (cd_withQuery cd p (map (\<lambda>(k, v). (k, if looks_like_secret_name k then [redacted_placeholder] else v)) q))
          else redact_text p)"

definition redact_traffic_line :: "codec \<Rightarrow> string \<Rightarrow> string option" where
  "redact_traffic_line cd line =
     (case cd_readTraffic cd line of None \<Rightarrow> None
      | Some e \<Rightarrow> cd_writeTraffic cd (e\<lparr>te_reqBody := [], te_respBody := [], te_path := redact_path cd (te_path e)\<rparr>))"

definition redact_event_line :: "codec \<Rightarrow> string \<Rightarrow> string" where
  "redact_event_line cd line =
     (case cd_readEvent cd line of None \<Rightarrow> redact_text line
      | Some e \<Rightarrow>
          (case cd_writeEvent cd (e\<lparr>ve_event := redact_text (ve_event e), ve_fields := map_option redact_fields (ve_fields e)\<rparr>) of
             None \<Rightarrow> redact_text line | Some out \<Rightarrow> out))"

section \<open>A log, within what is left of the budget\<close>

datatype log_kind = Kind_error | Kind_console | Kind_traffic

definition redact_line :: "codec \<Rightarrow> log_kind \<Rightarrow> string \<Rightarrow> string option" where
  "redact_line cd kind line =
     (case kind of Kind_traffic \<Rightarrow> redact_traffic_line cd line
      | Kind_error \<Rightarrow> Some (redact_event_line cd line)
      | Kind_console \<Rightarrow> Some (redact_text line))"

text \<open>A scan ends at a line that does not fit its buffer.\<close>

definition max_scan_line :: int where "max_scan_line = 8 * 2 ^ 20"

definition scan_lines :: "int \<Rightarrow> string \<Rightarrow> string list \<times> bool" where
  "scan_lines limit s =
     (let pieces = split_on (CHR 0x0A) s; rows = (if last pieces = [] then butlast pieces else pieces)
      in (takeWhile (\<lambda>l. int (length l) < limit) rows, list_ex (\<lambda>l. limit \<le> int (length l)) rows))"

record collection =
  co_kept :: "string list"
  co_keptBytes :: int
  co_truncated :: bool
  co_droppedLines :: nat

fun shrink_kept :: "int \<Rightarrow> string list \<times> int \<times> bool \<Rightarrow> string list \<times> int \<times> bool" where
  "shrink_kept budget ([], n, clipped) = ([], n, clipped)"
| "shrink_kept budget (l # ls, n, clipped) =
     (if budget < n then shrink_kept budget (ls, n - (int (length l) + 1), True) else (l # ls, n, clipped))"

definition collect_line :: "codec \<Rightarrow> log_kind \<Rightarrow> int \<Rightarrow> string \<Rightarrow> collection \<Rightarrow> collection" where
  "collect_line cd kind budget raw co =
     (let line = trim_space raw
      in if line = [] then co
         else case redact_line cd kind line of
           None \<Rightarrow> co\<lparr>co_droppedLines := Suc (co_droppedLines co)\<rparr>
         | Some red \<Rightarrow>
             (case shrink_kept budget (co_kept co @ [red], co_keptBytes co + int (length red) + 1, co_truncated co) of
                (kept, n, clipped) \<Rightarrow> co\<lparr>co_kept := kept, co_keptBytes := n, co_truncated := clipped\<rparr>))"

definition dropped_note :: "nat \<Rightarrow> string" where
  "dropped_note n = redacted_placeholder @ '' '' @ itoa (int n) @
     '' line(s) were unparseable and were dropped rather than uploaded unchecked.'' @ [CHR 0x0A]"

record redacted_log =
  rl_kind :: log_kind
  rl_content :: string
  rl_truncated :: bool
  rl_droppedLines :: nat

definition collect_one :: "codec \<Rightarrow> log_kind \<Rightarrow> int \<Rightarrow> string \<Rightarrow> redacted_log" where
  "collect_one cd kind budget content =
     (case scan_lines max_scan_line content of
        (rows, broken) \<Rightarrow>
          (let co = fold (collect_line cd kind budget) rows \<lparr>co_kept = [], co_keptBytes = 0, co_truncated = False, co_droppedLines = 0\<rparr>
           in \<lparr>rl_kind = kind,
               rl_content = concat (map (\<lambda>l. l @ [CHR 0x0A]) (co_kept co)) @
                 (if 0 < co_droppedLines co then dropped_note (co_droppedLines co) else []),
               rl_truncated = (co_truncated co \<or> broken), rl_droppedLines = co_droppedLines co\<rparr>))"

section \<open>The three logs\<close>

datatype log_read = Log_missing | Log_unreadable | Log_content string

definition wanted_logs :: "string \<Rightarrow> (log_kind \<times> string) list" where
  "wanted_logs subdomain =
     [(Kind_error, ''error-'' @ subdomain @ ''.log''), (Kind_console, ''client-'' @ subdomain @ ''.log''),
      (Kind_traffic, ''traffic-'' @ subdomain @ ''.log'')]"

fun collect_logs :: "codec \<Rightarrow> (string \<Rightarrow> log_read) \<Rightarrow> int \<Rightarrow> (log_kind \<times> string) list \<Rightarrow> redacted_log list option" where
  "collect_logs cd files remaining [] = Some []"
| "collect_logs cd files remaining ((kind, name) # rest) =
     (if remaining \<le> 0 then Some []
      else case files name of
        Log_missing \<Rightarrow> collect_logs cd files remaining rest
      | Log_unreadable \<Rightarrow> None
      | Log_content s \<Rightarrow>
          (let l = collect_one cd kind remaining s
           in if rl_content l = [] \<and> rl_droppedLines l = 0 then collect_logs cd files remaining rest
              else map_option (Cons l) (collect_logs cd files (remaining - int (length (rl_content l))) rest)))"

definition default_collection_max_bytes :: int where "default_collection_max_bytes = 4 * 2 ^ 20"

text \<open>\<open>None\<close> for the files when the directory of the logs cannot be made.\<close>

definition collect_redacted_logs ::
  "codec \<Rightarrow> (string \<Rightarrow> log_read) option \<Rightarrow> string \<Rightarrow> int \<Rightarrow> redacted_log list option" where
  "collect_redacted_logs cd dir subdomain maxTotal =
     (case dir of None \<Rightarrow> None
      | Some files \<Rightarrow> collect_logs cd files (if maxTotal \<le> 0 then default_collection_max_bytes else maxTotal) (wanted_logs subdomain))"

section \<open>Commands and acknowledgements\<close>

type_synonym wire_command = "string \<times> string"

definition collect_command :: string where "collect_command = ''collect_logs''"

definition parse_diagnostics_commands :: "(string \<Rightarrow> wire_command list option) \<Rightarrow> string \<Rightarrow> wire_command list" where
  "parse_diagnostics_commands read_commands body =
     (if body = [] then []
      else case read_commands body of None \<Rightarrow> []
      | Some cs \<Rightarrow> filter (\<lambda>(i, t). i \<noteq> [] \<and> t = collect_command) cs)"

record ack_state =
  ak_seen :: "string list"
  ak_pending :: "string list"

fun note_diagnostics_commands :: "wire_command list \<Rightarrow> ack_state \<Rightarrow> wire_command list \<times> ack_state" where
  "note_diagnostics_commands [] a = ([], a)"
| "note_diagnostics_commands ((i, t) # cs) a =
     (let a1 = a\<lparr>ak_pending := ak_pending a @ [i]\<rparr>
      in if i \<in> set (ak_seen a) then note_diagnostics_commands cs a1
         else case note_diagnostics_commands cs (a1\<lparr>ak_seen := i # ak_seen a\<rparr>) of (fresh, a2) \<Rightarrow> ((i, t) # fresh, a2))"

fun first_occurrences :: "string list \<Rightarrow> string list \<Rightarrow> string list" where
  "first_occurrences seen [] = []"
| "first_occurrences seen (i # is) =
     (if i \<in> set seen then first_occurrences seen is else i # first_occurrences (i # seen) is)"

definition take_diagnostics_acks :: "ack_state \<Rightarrow> string list \<times> ack_state" where
  "take_diagnostics_acks a = (first_occurrences [] (ak_pending a), a\<lparr>ak_pending := []\<rparr>)"

section \<open>The upload\<close>

record bundle_upload =
  bu_requestID :: string
  bu_logs :: "redacted_log list"

record upload_request =
  uq_url :: string
  uq_sessionToken :: string
  uq_payload :: bundle_upload

datatype collect_outcome = Read_failed | Nothing_to_send | Upload_failed | Upload_refused int | Upload_sent nat nat

text \<open>\<open>send\<close> is the gateway's status, none when it was not reached or no request could be made of its address.\<close>

definition upload_diagnostics_bundle ::
  "codec \<Rightarrow> (string \<Rightarrow> log_read) option \<Rightarrow> (upload_request \<Rightarrow> int option) \<Rightarrow> string \<Rightarrow> string \<Rightarrow> string \<Rightarrow> string \<Rightarrow>
   upload_request option \<times> collect_outcome" where
  "upload_diagnostics_bundle cd dir send serverURL token subdomain requestID =
     (case collect_redacted_logs cd dir subdomain default_collection_max_bytes of
        None \<Rightarrow> (None, Read_failed)
      | Some [] \<Rightarrow> (None, Nothing_to_send)
      | Some logs \<Rightarrow>
          (let req = \<lparr>uq_url = trim_right_slashes serverURL @ ''/api/client/diagnostics/upload'', uq_sessionToken = token,
                      uq_payload = \<lparr>bu_requestID = requestID, bu_logs = logs\<rparr>\<rparr>
           in (Some req,
               case send req of None \<Rightarrow> Upload_failed
               | Some status \<Rightarrow> if status \<noteq> 200 then Upload_refused status
                   else Upload_sent (length logs) (sum_list (map (length \<circ> rl_content) logs)))))"

end
