(* ===== verification/Diagnostics.thy ===== *)
theory Diagnostics
  imports Edge_Schedule Client_Redact Portal_Users
begin

text \<open>
  The collection of a client's logs by an administrator (\<open>diagnostics_consent.go\<close>, \<open>diagnostics_transport.go\<close>,
  \<open>diagnostics_edge.go\<close>, \<open>diagnostics_store.go\<close>, \<open>pkg/db/diagnostics_bundle.go\<close>): the consent of the user, the request
  and where it is sent, the command that rides a heartbeat and its acknowledgement, the upload to the control plane or
  through an edge, what is kept and for how long, and the audit trail. The same state is a control plane's, which has a
  database, and an edge's, which has none. Log lines, texts for people and the rendering of a time are left out.
\<close>

section \<open>State\<close>

datatype audit_event =
    Consent_granted | Consent_withdrawn | Collect_requested | Collect_refused | Collect_delivered string | Collect_expired
  | Collect_uploaded string nat nat | Bundle_read string | Bundles_purged nat

record audit_row =
  ar_actor :: string
  ar_event :: audit_event
  ar_target :: string
  ar_at :: time

record log_bundle =
  b_id :: string
  b_userID :: string
  b_requestedBy :: string
  b_kind :: string
  b_content :: string
  b_bytes :: nat
  b_truncated :: bool
  b_dropped :: int
  b_collectedAt :: time

type_synonym command_queue = "(string, diagnostics_command list) table"

record diag =
  dg_users :: "accounts option"
  dg_bundles :: "log_bundle list"
  dg_audit :: "audit_row list"
  dg_commands :: command_queue
  dg_acks :: "(string \<times> string) list"

text \<open>A request: its time, which of the database's operations succeed, and the identifiers that are drawn.\<close>

record diag_env =
  de_now :: time
  de_readsUser :: bool
  de_updatesUser :: bool
  de_stores :: "log_bundle \<Rightarrow> bool"
  de_readsBundles :: bool
  de_deletes :: bool
  de_audits :: "audit_row \<Rightarrow> bool"
  de_newID :: "nat \<Rightarrow> string"

definition audit_diagnostics :: "diag_env \<Rightarrow> string \<Rightarrow> audit_event \<Rightarrow> string \<Rightarrow> diag \<Rightarrow> diag" where
  "audit_diagnostics env actor e target st =
     (let row = \<lparr>ar_actor = actor, ar_event = e, ar_target = target, ar_at = de_now env\<rparr>
      in if dg_users st = None \<or> \<not> de_audits env row then st else st\<lparr>dg_audit := dg_audit st @ [row]\<rparr>)"

definition read_user :: "diag_env \<Rightarrow> string \<Rightarrow> diag \<Rightarrow> account option" where
  "read_user env uid st = (case dg_users st of None \<Rightarrow> None | Some rows \<Rightarrow> if de_readsUser env then get_user uid rows else None)"

definition read_user_by_email :: "diag_env \<Rightarrow> string \<Rightarrow> diag \<Rightarrow> account option" where
  "read_user_by_email env email st =
     (case dg_users st of None \<Rightarrow> None | Some rows \<Rightarrow> if de_readsUser env then get_user_by_email email rows else None)"

section \<open>The store of bundles\<close>

definition diagnostics_retention_days :: int where "diagnostics_retention_days = 30"

text \<open>A row is dated by the database, in whole seconds.\<close>

definition store_diagnostics_bundle :: "diag_env \<Rightarrow> log_bundle \<Rightarrow> diag \<Rightarrow> diag option" where
  "store_diagnostics_bundle env b st =
     (if b_id b = [] \<or> b_userID b = [] \<or> \<not> de_stores env b \<or> list_ex (\<lambda>old. b_id old = b_id b) (dg_bundles st) then None
      else Some (st\<lparr>dg_bundles := dg_bundles st @ [b\<lparr>b_collectedAt := unix (de_now env) * second\<rparr>]\<rparr>))"

definition get_diagnostics_bundle :: "string \<Rightarrow> diag \<Rightarrow> log_bundle option" where
  "get_diagnostics_bundle i st = List.find (\<lambda>b. b_id b = i) (dg_bundles st)"

text \<open>Newest first, without the contents.\<close>

definition list_diagnostics_bundles :: "string \<Rightarrow> diag \<Rightarrow> log_bundle list" where
  "list_diagnostics_bundles uid st =
     sort_key (\<lambda>b. - b_collectedAt b) (map (\<lambda>b. b\<lparr>b_content := []\<rparr>) (filter (\<lambda>b. b_userID b = uid) (dg_bundles st)))"

definition delete_diagnostics_bundles_for_user :: "diag_env \<Rightarrow> string \<Rightarrow> diag \<Rightarrow> (nat \<times> diag) option" where
  "delete_diagnostics_bundles_for_user env uid st =
     (if \<not> de_deletes env then None
      else Some (length (filter (\<lambda>b. b_userID b = uid) (dg_bundles st)),
                 st\<lparr>dg_bundles := filter (\<lambda>b. b_userID b \<noteq> uid) (dg_bundles st)\<rparr>))"

text \<open>
  The age is compared as text: the row's whole second, which is the start of a text that has the cutoff's second, is less
  than it.
\<close>

definition prune_diagnostics_bundles :: "diag_env \<Rightarrow> diag \<Rightarrow> diag" where
  "prune_diagnostics_bundles env st =
     (if dg_users st = None \<or> \<not> de_deletes env then st
      else st\<lparr>dg_bundles := filter (\<lambda>b. unix (de_now env - diagnostics_retention_days * (24 * hour)) < unix (b_collectedAt b))
                (dg_bundles st)\<rparr>)"

section \<open>Consent\<close>

record consent_state =
  cs_enabled :: bool
  cs_consentedAt :: "time option"

definition diagnostics_consent_state :: "account option \<Rightarrow> consent_state" where
  "diagnostics_consent_state user =
     (case user of None \<Rightarrow> \<lparr>cs_enabled = False, cs_consentedAt = None\<rparr>
      | Some a \<Rightarrow>
          (case ac_diagnosticsConsentAt a of None \<Rightarrow> \<lparr>cs_enabled = False, cs_consentedAt = None\<rparr>
           | Some t \<Rightarrow> \<lparr>cs_enabled = True, cs_consentedAt = Some t\<rparr>))"

definition diagnostics_collection_allowed :: "account option \<Rightarrow> bool" where
  "diagnostics_collection_allowed user \<longleftrightarrow>
     (case user of None \<Rightarrow> False | Some a \<Rightarrow> ac_diagnosticsConsentAt a \<noteq> None)"

definition purge_diagnostics_bundles_on_withdrawal :: "diag_env \<Rightarrow> string \<Rightarrow> string \<Rightarrow> diag \<Rightarrow> diag" where
  "purge_diagnostics_bundles_on_withdrawal env uid actor st =
     (if dg_users st = None then st
      else case delete_diagnostics_bundles_for_user env uid st of None \<Rightarrow> st
      | Some (n, st1) \<Rightarrow> if n = 0 then st1 else audit_diagnostics env actor (Bundles_purged n) uid st1)"

datatype consent_reply =
    Consent_unauthorized | Consent_no_store | Consent_invalid | Consent_not_saved | Consent_now consent_state

text \<open>\<open>user\<close> is the row of the session's user, \<open>body\<close> the switch, if it could be read.\<close>

definition handle_diagnostics_consent ::
  "diag_env \<Rightarrow> account option \<Rightarrow> bool option \<Rightarrow> diag \<Rightarrow> consent_reply \<times> diag" where
  "handle_diagnostics_consent env user body st =
     (case user of None \<Rightarrow> (Consent_unauthorized, st)
      | Some a \<Rightarrow>
          (case dg_users st of None \<Rightarrow> (Consent_no_store, st)
           | Some rows \<Rightarrow>
               (case body of None \<Rightarrow> (Consent_invalid, st)
                | Some enabled \<Rightarrow>
                    (let a1 = a\<lparr>ac_diagnosticsConsentAt := (if enabled then Some (de_now env) else None)\<rparr>
                     in case (if de_updatesUser env then update_user a1 rows else None) of
                          None \<Rightarrow> (Consent_not_saved, st)
                        | Some rows1 \<Rightarrow>
                            (let st1 = audit_diagnostics env (u_email a) (if enabled then Consent_granted else Consent_withdrawn) (u_id a)
                                         (st\<lparr>dg_users := Some rows1\<rparr>)
                             in (Consent_now (diagnostics_consent_state (Some a1)),
                                 if enabled then st1 else purge_diagnostics_bundles_on_withdrawal env (u_id a) (u_email a) st1))))))"

section \<open>The queue of commands\<close>

definition command_deadline :: "diagnostics_command \<Rightarrow> time" where
  "command_deadline c = (case dc_expiresAt c of None \<Rightarrow> dc_queuedAt c + diagnostics_command_ttl | Some t \<Rightarrow> t)"

definition queue_diagnostics_collect ::
  "diag_env \<Rightarrow> string \<Rightarrow> string \<Rightarrow> command_queue \<Rightarrow> diagnostics_command \<times> command_queue" where
  "queue_diagnostics_collect env uid requestedBy q =
     (let c = \<lparr>dc_id = de_newID env 0, dc_userID = uid, dc_requestedBy = requestedBy, dc_queuedAt = de_now env,
               dc_expiresAt = Some (de_now env + diagnostics_command_ttl)\<rparr>
      in (c, put uid [c] q))"

definition queued_for :: "string \<Rightarrow> command_queue \<Rightarrow> diagnostics_command list" where
  "queued_for uid q = (case get q uid of None \<Rightarrow> [] | Some cs \<Rightarrow> cs)"

definition keep_commands :: "string \<Rightarrow> diagnostics_command list \<Rightarrow> command_queue \<Rightarrow> command_queue" where
  "keep_commands uid cs q = (if cs = [] then del uid q else put uid cs q)"

text \<open>What rides the next heartbeat, what has expired, and the queue after that.\<close>

definition pending_diagnostics_commands ::
  "time \<Rightarrow> string \<Rightarrow> command_queue \<Rightarrow> diagnostics_command list \<times> diagnostics_command list \<times> command_queue" where
  "pending_diagnostics_commands now uid q =
     (if uid = [] \<or> queued_for uid q = [] then ([], [], q)
      else let keep = filter (\<lambda>c. \<not> command_deadline c < now) (queued_for uid q)
           in (take 1 keep, filter (\<lambda>c. command_deadline c < now) (queued_for uid q), keep_commands uid keep q))"

fun take_command :: "string \<Rightarrow> diagnostics_command list \<Rightarrow> (diagnostics_command \<times> diagnostics_command list) option" where
  "take_command i [] = None"
| "take_command i (c # cs) =
     (if dc_id c = i then Some (c, cs) else map_option (\<lambda>(found, rest). (found, c # rest)) (take_command i cs))"

definition ack_diagnostics_command :: "string \<Rightarrow> string \<Rightarrow> command_queue \<Rightarrow> diagnostics_command option \<times> command_queue" where
  "ack_diagnostics_command uid i q =
     (if uid = [] \<or> i = [] then (None, q)
      else case take_command i (queued_for uid q) of None \<Rightarrow> (None, q)
      | Some (c, rest) \<Rightarrow> (Some c, keep_commands uid rest q))"

definition has_pending_diagnostics_command :: "string \<Rightarrow> command_queue \<Rightarrow> bool" where
  "has_pending_diagnostics_command uid q \<longleftrightarrow> queued_for uid q \<noteq> []"

definition has_diagnostics_command_id :: "string \<Rightarrow> string \<Rightarrow> command_queue \<Rightarrow> bool" where
  "has_diagnostics_command_id uid i q \<longleftrightarrow> uid \<noteq> [] \<and> i \<noteq> [] \<and> list_ex (\<lambda>c. dc_id c = i) (queued_for uid q)"

text \<open>Go visits the users in any order; the model in that of the table.\<close>

definition claim_diagnostics_command_by_id :: "string \<Rightarrow> command_queue \<Rightarrow> diagnostics_command option \<times> command_queue" where
  "claim_diagnostics_command_by_id i q =
     (if i = [] then (None, q)
      else case List.find (\<lambda>(_, cs). take_command i cs \<noteq> None) q of None \<Rightarrow> (None, q)
      | Some (uid, cs) \<Rightarrow>
          (case take_command i cs of None \<Rightarrow> (None, q) | Some (c, rest) \<Rightarrow> (Some c, keep_commands uid rest q)))"

definition requeue_diagnostics_command :: "diagnostics_command \<Rightarrow> command_queue \<Rightarrow> command_queue" where
  "requeue_diagnostics_command c q =
     (if dc_userID c = [] \<or> has_pending_diagnostics_command (dc_userID c) q then q else put (dc_userID c) [c] q)"

section \<open>Asking for the logs\<close>

datatype reach = Served_here | Served_by string | Edge_unconnected string | No_tunnel

definition diagnostics_reachability ::
  "registry \<Rightarrow> edge_leases \<Rightarrow> (string, nat) table \<Rightarrow> string \<Rightarrow> reach" where
  "diagnostics_reachability r leases conns uid =
     (if list_ex (\<lambda>l. l_userID l = uid \<and> l_nodeID l = local_node_id r) (list_leases r) then Served_here
      else case (case get leases uid of Some (el # _) \<Rightarrow> el_nodeID el | _ \<Rightarrow> []) of
        [] \<Rightarrow> No_tunnel
      | node \<Rightarrow> if get conns node = None then Edge_unconnected node else Served_by node)"

text \<open>\<open>written\<close>: the connection took the frame.\<close>

definition send_edge_diagnostics_collect ::
  "bool \<Rightarrow> string \<Rightarrow> string \<Rightarrow> string \<Rightarrow> duration \<Rightarrow> fleet \<Rightarrow> bool \<times> fleet" where
  "send_edge_diagnostics_collect written nodeID uid request expiresIn fl =
     (let seconds = quot expiresIn second
      in if nodeID = [] \<or> uid = [] \<or> request = [] \<or> seconds \<le> 0 \<or> get (fl_conns fl) nodeID = None \<or> \<not> written then (False, fl)
         else send_to nodeID (Fr_diagnostics uid request (seconds * second)) fl)"

datatype collect_reply =
    Collect_unauthorized | Collect_forbidden | Collect_no_store | Collect_invalid | Collect_no_email | Collect_no_user
  | Collect_not_consented | Collect_already_requested | Collect_not_reachable reach | Collect_queued string reach

definition may_collect :: "diag_env \<Rightarrow> string \<Rightarrow> account \<Rightarrow> diag \<Rightarrow> bool" where
  "may_collect env owner actor st \<longleftrightarrow>
     u_role actor = ''admin'' \<or> u_role actor = ''owner'' \<or>
     is_owner owner (\<lambda>e. map_option user.truncate (read_user_by_email env e st)) (u_email actor)"

definition clean_email :: "string \<Rightarrow> string" where "clean_email raw = to_lower (trim_space raw)"

text \<open>A request that is allowed: recorded, then queued here and, where an edge serves the user, sent to it.\<close>

definition collect_from ::
  "diag_env \<Rightarrow> bool \<Rightarrow> registry \<Rightarrow> edge_leases \<Rightarrow> account \<Rightarrow> account \<Rightarrow> diag \<Rightarrow> fleet \<Rightarrow> collect_reply \<times> diag \<times> fleet" where
  "collect_from env written r leases actor target st fl =
     (let st1 = audit_diagnostics env (u_email actor) Collect_requested (u_id target) st
      in if has_pending_diagnostics_command (u_id target) (dg_commands st1) then (Collect_already_requested, st1, fl)
         else case diagnostics_reachability r leases (fl_conns fl) (u_id target) of
           No_tunnel \<Rightarrow> (Collect_not_reachable No_tunnel, st1, fl)
         | Edge_unconnected node \<Rightarrow> (Collect_not_reachable (Edge_unconnected node), st1, fl)
         | reach \<Rightarrow>
             (case queue_diagnostics_collect env (u_id target) (u_email actor) (dg_commands st1) of
                (c, q) \<Rightarrow>
                  (case reach of
                     Served_by node \<Rightarrow>
                       (case send_edge_diagnostics_collect written node (u_id target) (dc_id c) diagnostics_command_ttl fl of
                          (sent, fl1) \<Rightarrow>
                            if sent then (Collect_queued (dc_id c) reach, st1\<lparr>dg_commands := q\<rparr>, fl1)
                            else (Collect_not_reachable reach,
                                  st1\<lparr>dg_commands := snd (ack_diagnostics_command (u_id target) (dc_id c) q)\<rparr>, fl1))
                   | _ \<Rightarrow> (Collect_queued (dc_id c) reach, st1\<lparr>dg_commands := q\<rparr>, fl))))"

definition handle_admin_diagnostics_collect ::
  "diag_env \<Rightarrow> string \<Rightarrow> bool \<Rightarrow> registry \<Rightarrow> edge_leases \<Rightarrow> account option \<Rightarrow> string option \<Rightarrow> diag \<Rightarrow> fleet
   \<Rightarrow> collect_reply \<times> diag \<times> fleet" where
  "handle_admin_diagnostics_collect env owner written r leases actor body st fl =
     (case actor of None \<Rightarrow> (Collect_unauthorized, st, fl)
      | Some a \<Rightarrow>
          if \<not> may_collect env owner a st then (Collect_forbidden, st, fl)
          else if dg_users st = None then (Collect_no_store, st, fl)
          else case body of None \<Rightarrow> (Collect_invalid, st, fl)
          | Some raw \<Rightarrow>
              if clean_email raw = [] then (Collect_no_email, st, fl)
              else case read_user_by_email env (clean_email raw) st of None \<Rightarrow> (Collect_no_user, st, fl)
              | Some target \<Rightarrow>
                  if \<not> diagnostics_collection_allowed (Some target)
                  then (Collect_not_consented, audit_diagnostics env (u_email a) Collect_refused (u_id target) st, fl)
                  else collect_from env written r leases a target st fl)"

section \<open>Delivery and acknowledgement\<close>

definition session_user :: "lease list \<Rightarrow> string" where
  "session_user ls = (case List.find (\<lambda>l. l_userID l \<noteq> []) ls of None \<Rightarrow> [] | Some l \<Rightarrow> l_userID l)"

definition drop_unconsented :: "diag_env \<Rightarrow> diagnostics_command \<Rightarrow> diag \<Rightarrow> diag" where
  "drop_unconsented env c st =
     audit_diagnostics env (dc_requestedBy c) Collect_refused (dc_userID c)
       (st\<lparr>dg_commands := snd (ack_diagnostics_command (dc_userID c) (dc_id c) (dg_commands st))\<rparr>)"

definition audit_expired :: "diag_env \<Rightarrow> diagnostics_command \<Rightarrow> diag \<Rightarrow> diag" where
  "audit_expired env c st = audit_diagnostics env (dc_requestedBy c) Collect_expired (dc_userID c) st"

definition diagnostics_commands_for_session ::
  "diag_env \<Rightarrow> lease list \<Rightarrow> diag \<Rightarrow> diagnostics_command list \<times> diag" where
  "diagnostics_commands_for_session env ls st =
     (let uid = session_user ls
      in if uid = [] then ([], st)
         else case pending_diagnostics_commands (de_now env) uid (dg_commands st) of
           (live, expired, q) \<Rightarrow>
             (let st1 = fold (audit_expired env) expired (st\<lparr>dg_commands := q\<rparr>)
              in if live = [] then ([], st1)
                 else if dg_users st \<noteq> None \<and> \<not> diagnostics_collection_allowed (read_user env uid st)
                 then ([], fold (drop_unconsented env) live st1)
                 else (live, st1)))"

definition record_ack :: "diag_env \<Rightarrow> string \<Rightarrow> string \<Rightarrow> diag \<Rightarrow> diag" where
  "record_ack env uid i st =
     (case ack_diagnostics_command uid i (dg_commands st) of
        (None, _) \<Rightarrow> st
      | (Some c, q) \<Rightarrow> audit_diagnostics env (dc_requestedBy c) (Collect_delivered (dc_id c)) (dc_userID c) (st\<lparr>dg_commands := q\<rparr>))"

text \<open>
  On an edge an acknowledgement is passed on first, and the command is dropped once it has gone out. \<open>passed\<close> tells
  whether the connection takes the frame; the first component lists what was passed on.
\<close>

fun record_acks :: "diag_env \<Rightarrow> bool \<Rightarrow> (string \<Rightarrow> bool) \<Rightarrow> string \<Rightarrow> string list \<Rightarrow> diag \<Rightarrow> string list \<times> diag" where
  "record_acks env edge passed uid [] st = ([], st)"
| "record_acks env edge passed uid (i # is) st =
     (if edge \<and> (\<not> has_diagnostics_command_id uid i (dg_commands st) \<or> \<not> passed i) then record_acks env edge passed uid is st
      else
        case record_acks env edge passed uid is (record_ack env uid i st) of (up, st1) \<Rightarrow> (if edge then i # up else up, st1))"

definition record_diagnostics_acks ::
  "diag_env \<Rightarrow> bool \<Rightarrow> (string \<Rightarrow> bool) \<Rightarrow> lease list \<Rightarrow> string list \<Rightarrow> diag \<Rightarrow> string list \<times> diag" where
  "record_diagnostics_acks env edge passed ls ids st =
     (if session_user ls = [] then ([], st) else record_acks env edge passed (session_user ls) (take 4 ids) st)"

text \<open>
  The heartbeat of a client as far as collection goes: after the refusals for a region or a session that is gone come the
  acknowledgements, then, for a lease that is held, the commands.
\<close>

record diag_heartbeat =
  dh_reply :: heartbeat_reply
  dh_commands :: "diagnostics_command list"
  dh_passed :: "string list"
  dh_alert :: offline_action
  dh_registry :: registry

definition handle_tunnel_status_with_commands ::
  "diag_env \<Rightarrow> bool \<Rightarrow> (string \<Rightarrow> bool) \<Rightarrow> (string, node_health) table \<Rightarrow> announcement \<Rightarrow> string \<Rightarrow>
   string \<Rightarrow> string \<Rightarrow> string \<Rightarrow> string list \<Rightarrow> registry \<Rightarrow> diag \<Rightarrow> diag_heartbeat \<times> diag" where
  "handle_tunnel_status_with_commands env edge passed health a fingerprint region tok status acks r st =
     (let ls = get_session_leases r tok
      in case handle_tunnel_status (de_now env) health a fingerprint region tok status r of
        (reply, alert, r1) \<Rightarrow>
          (if reply = Region_offline \<or> reply = Session_gone
           then (\<lparr>dh_reply = reply, dh_commands = [], dh_passed = [], dh_alert = alert, dh_registry = r1\<rparr>, st)
           else case record_diagnostics_acks env edge passed ls acks st of
             (up, st1) \<Rightarrow>
               (case reply of
                  Lease_held _ \<Rightarrow>
                    (case diagnostics_commands_for_session env ls st1 of
                       (cs, st2) \<Rightarrow>
                         (\<lparr>dh_reply = reply, dh_commands = cs, dh_passed = up, dh_alert = alert, dh_registry = r1\<rparr>, st2))
                | _ \<Rightarrow> (\<lparr>dh_reply = reply, dh_commands = [], dh_passed = up, dh_alert = alert, dh_registry = r1\<rparr>, st1))))"

section \<open>The upload\<close>

record wire_log =
  wl_kind :: string
  wl_content :: string
  wl_truncated :: bool
  wl_dropped :: int

record wire_upload =
  wu_requestID :: string
  wu_logs :: "wire_log list"

text \<open>What a client's upload is on the wire.\<close>

definition kind_name :: "log_kind \<Rightarrow> string" where
  "kind_name k = (case k of Kind_error \<Rightarrow> ''error'' | Kind_console \<Rightarrow> ''console'' | Kind_traffic \<Rightarrow> ''traffic'')"

definition on_wire :: "bundle_upload \<Rightarrow> wire_upload" where
  "on_wire u = \<lparr>wu_requestID = bu_requestID u,
     wu_logs = map (\<lambda>l. \<lparr>wl_kind = kind_name (rl_kind l), wl_content = rl_content l, wl_truncated = rl_truncated l,
                     wl_dropped = int (rl_droppedLines l)\<rparr>) (bu_logs u)\<rparr>"

datatype upload_reply =
    Up_bad_method | Up_no_store | Up_unauthorized | Up_invalid | Up_not_requested | Up_not_allowed | Up_nothing_usable
  | Up_stored nat nat | Up_relay_failed | Up_relayed int

definition upload_status :: "upload_reply \<Rightarrow> int" where
  "upload_status reply =
     (case reply of Up_bad_method \<Rightarrow> 405 | Up_no_store \<Rightarrow> 501 | Up_unauthorized \<Rightarrow> 401 | Up_invalid \<Rightarrow> 400 | Up_not_requested \<Rightarrow> 403
      | Up_not_allowed \<Rightarrow> 403 | Up_nothing_usable \<Rightarrow> 400 | Up_stored _ _ \<Rightarrow> 200 | Up_relay_failed \<Rightarrow> 502 | Up_relayed s \<Rightarrow> s)"

text \<open>The bundles stored and their bytes, and the number of the next identifier.\<close>

fun store_logs :: "diag_env \<Rightarrow> diagnostics_command \<Rightarrow> nat \<Rightarrow> wire_log list \<Rightarrow> diag \<Rightarrow> nat \<times> nat \<times> diag" where
  "store_logs env c n [] st = (0, 0, st)"
| "store_logs env c n (l # ls) st =
     (let kind = trim_space (wl_kind l)
      in if kind = [] \<or> wl_content l = [] then store_logs env c n ls st
         else case store_diagnostics_bundle env
                \<lparr>b_id = de_newID env n @ ''-'' @ kind, b_userID = dc_userID c, b_requestedBy = dc_requestedBy c, b_kind = kind,
                 b_content = wl_content l, b_bytes = length (wl_content l), b_truncated = wl_truncated l, b_dropped = wl_dropped l,
                 b_collectedAt = 0\<rparr> st of
           None \<Rightarrow> store_logs env c (Suc n) ls st
         | Some st1 \<Rightarrow>
             (case store_logs env c (Suc n) ls st1 of
                (stored, bytes, st2) \<Rightarrow> (Suc stored, length (wl_content l) + bytes, st2)))"

definition store_diagnostics_bundles ::
  "diag_env \<Rightarrow> diagnostics_command \<Rightarrow> wire_upload \<Rightarrow> diag \<Rightarrow> upload_reply \<times> diag" where
  "store_diagnostics_bundles env c payload st =
     (if \<not> diagnostics_collection_allowed (read_user env (dc_userID c) st)
      then (Up_not_allowed, audit_diagnostics env (dc_requestedBy c) Collect_refused (dc_userID c) st)
      else case store_logs env c 0 (wu_logs payload) st of
        (stored, bytes, st1) \<Rightarrow>
          if stored = 0 then (Up_nothing_usable, st1)
          else (Up_stored stored bytes,
                audit_diagnostics env (dc_requestedBy c) (Collect_uploaded (dc_id c) stored bytes) (dc_userID c) st1))"

text \<open>
  An edge passes the body on as it came; \<open>answer\<close> is the status of the control plane, none when it was not reached or
  its answer not read. Only the identifier in the body concerns the edge.
\<close>

definition relay_diagnostics_upload ::
  "string \<Rightarrow> lease list \<Rightarrow> string option \<Rightarrow> int option \<Rightarrow> diag \<Rightarrow> upload_reply \<times> diag" where
  "relay_diagnostics_upload token ls requestID answer st =
     (if trim_space token = [] \<or> session_user ls = [] then (Up_unauthorized, st)
      else case requestID of None \<Rightarrow> (Up_invalid, st)
      | Some i \<Rightarrow>
          (case ack_diagnostics_command (session_user ls) (trim_space i) (dg_commands st) of
             (None, _) \<Rightarrow> (Up_not_requested, st)
           | (Some c, q) \<Rightarrow>
               (case answer of
                  None \<Rightarrow> (Up_relay_failed, st\<lparr>dg_commands := requeue_diagnostics_command c q\<rparr>)
                | Some status \<Rightarrow>
                    if 500 \<le> status then (Up_relay_failed, st\<lparr>dg_commands := requeue_diagnostics_command c q\<rparr>)
                    else (Up_relayed status, st\<lparr>dg_commands := q\<rparr>))))"

text \<open>\<open>ls\<close> are the leases of the trimmed session token; the payload is absent when it is not JSON or is cut at six megabytes.\<close>

definition handle_diagnostics_upload ::
  "diag_env \<Rightarrow> bool \<Rightarrow> bool \<Rightarrow> string \<Rightarrow> lease list \<Rightarrow> wire_upload option \<Rightarrow> int option \<Rightarrow> diag \<Rightarrow> upload_reply \<times> diag" where
  "handle_diagnostics_upload env post edge token ls payload answer st =
     (if \<not> post then (Up_bad_method, st)
      else if dg_users st = None then
        (if edge then relay_diagnostics_upload token ls (map_option wu_requestID payload) answer st else (Up_no_store, st))
      else if trim_space token = [] \<or> session_user ls = [] then (Up_unauthorized, st)
      else case payload of None \<Rightarrow> (Up_invalid, st)
      | Some p \<Rightarrow>
          (case ack_diagnostics_command (session_user ls) (trim_space (wu_requestID p)) (dg_commands st) of
             (None, _) \<Rightarrow> (Up_not_requested, st)
           | (Some c, q) \<Rightarrow> store_diagnostics_bundles env c p (st\<lparr>dg_commands := q\<rparr>)))"

definition handle_edge_diagnostics_upload ::
  "diag_env \<Rightarrow> (string \<Rightarrow> string) \<Rightarrow> edge_node list \<Rightarrow> bool \<Rightarrow> string \<Rightarrow> wire_upload option \<Rightarrow> diag \<Rightarrow> upload_reply \<times> diag" where
  "handle_edge_diagnostics_upload env digest nodes post edgeToken payload st =
     (if \<not> post then (Up_bad_method, st)
      else if authorised_edge_node digest nodes edgeToken = None then (Up_unauthorized, st)
      else if dg_users st = None then (Up_no_store, st)
      else case payload of None \<Rightarrow> (Up_invalid, st)
      | Some p \<Rightarrow>
          (case claim_diagnostics_command_by_id (trim_space (wu_requestID p)) (dg_commands st) of
             (None, _) \<Rightarrow> (Up_not_requested, st)
           | (Some c, q) \<Rightarrow> store_diagnostics_bundles env c p (st\<lparr>dg_commands := q\<rparr>)))"

section \<open>Acknowledgements from edges, and expiry\<close>

definition diagnostics_ack_grace :: duration where "diagnostics_ack_grace = 30 * second"
definition diagnostics_ack_buffer :: nat where "diagnostics_ack_buffer = 64"
definition diagnostics_expiry_sweep_interval :: duration where "diagnostics_expiry_sweep_interval = 30 * second"

definition queue_forwarded_diagnostics_ack :: "string \<Rightarrow> string \<Rightarrow> diag \<Rightarrow> diag" where
  "queue_forwarded_diagnostics_ack nodeID i st =
     (if trim_space i = [] \<or> diagnostics_ack_buffer \<le> length (dg_acks st) then st
      else st\<lparr>dg_acks := dg_acks st @ [(nodeID, trim_space i)]\<rparr>)"

definition record_forwarded_diagnostics_ack :: "diag_env \<Rightarrow> string \<Rightarrow> string \<Rightarrow> diag \<Rightarrow> diag" where
  "record_forwarded_diagnostics_ack env nodeID i st =
     (case claim_diagnostics_command_by_id (trim_space i) (dg_commands st) of
        (None, _) \<Rightarrow> st
      | (Some c, q) \<Rightarrow>
          audit_diagnostics env (dc_requestedBy c) (Collect_delivered (dc_id c)) (dc_userID c) (st\<lparr>dg_commands := q\<rparr>))"

definition overdue :: "time \<Rightarrow> diagnostics_command \<Rightarrow> bool" where
  "overdue now c \<longleftrightarrow> command_deadline c + diagnostics_ack_grace < now"

definition sweep_expired_diagnostics_commands :: "diag_env \<Rightarrow> diag \<Rightarrow> diag" where
  "sweep_expired_diagnostics_commands env st =
     fold (audit_expired env) (concat (map (\<lambda>(_, cs). filter (overdue (de_now env)) cs) (dg_commands st)))
       (st\<lparr>dg_commands := filter (\<lambda>(_, cs). cs \<noteq> [])
             (map (\<lambda>(uid, cs). (uid, filter (\<lambda>c. \<not> overdue (de_now env) c) cs)) (dg_commands st))\<rparr>)"

datatype expiry_event = Ack_taken | Expiry_tick

definition watch_diagnostics_expiry :: "diag_env \<Rightarrow> expiry_event \<Rightarrow> diag \<Rightarrow> diag" where
  "watch_diagnostics_expiry env ev st =
     (case ev of
        Expiry_tick \<Rightarrow> sweep_expired_diagnostics_commands env st
      | Ack_taken \<Rightarrow>
          (case dg_acks st of [] \<Rightarrow> st
           | (node, i) # rest \<Rightarrow> record_forwarded_diagnostics_ack env node i (st\<lparr>dg_acks := rest\<rparr>)))"

section \<open>Reading what was collected\<close>

datatype bundles_reply =
    Bundles_unauthorized | Bundles_forbidden | Bundles_no_store | Bundles_none_such | Bundle_content log_bundle
  | Bundles_no_email | Bundles_no_user | Bundles_unlisted | Bundles_listed "log_bundle list"

definition handle_admin_diagnostics_bundles ::
  "diag_env \<Rightarrow> string \<Rightarrow> account option \<Rightarrow> string \<Rightarrow> string \<Rightarrow> diag \<Rightarrow> bundles_reply \<times> diag" where
  "handle_admin_diagnostics_bundles env owner actor i email st =
     (case actor of None \<Rightarrow> (Bundles_unauthorized, st)
      | Some a \<Rightarrow>
          if \<not> may_collect env owner a st then (Bundles_forbidden, st)
          else if dg_users st = None then (Bundles_no_store, st)
          else if trim_space i \<noteq> [] then
            (case (if de_readsBundles env then get_diagnostics_bundle (trim_space i) st else None) of None \<Rightarrow> (Bundles_none_such, st)
             | Some b \<Rightarrow> (Bundle_content b, audit_diagnostics env (u_email a) (Bundle_read (b_kind b)) (b_userID b) st))
          else if clean_email email = [] then (Bundles_no_email, st)
          else case read_user_by_email env (clean_email email) st of None \<Rightarrow> (Bundles_no_user, st)
          | Some target \<Rightarrow>
              (if de_readsBundles env then Bundles_listed (list_diagnostics_bundles (u_id target) st) else Bundles_unlisted, st))"

section \<open>A control plane in operation\<close>

text \<open>
  What happens at the control plane, one request after another. The session of a user is given by its address; an account
  may be made, changed in all but the consent, or deleted, which takes its bundles with it.
\<close>

datatype diag_event =
    Switch_consent diag_env string "bool option"
  | Ask_for_logs diag_env string bool registry edge_leases string "string option" fleet
  | Heartbeat diag_env "lease list" "string list" bool
  | Upload diag_env string "lease list" "wire_upload option"
  | Relayed_upload diag_env "string \<Rightarrow> string" "edge_node list" string "wire_upload option"
  | Edge_acknowledges string string
  | Watch diag_env expiry_event
  | Prune diag_env
  | Read_bundles diag_env string string string string
  | Account_made account
  | Account_changed account
  | Account_deleted string

text \<open>A profile, a setting or a role is saved: the whole row is written, the consent with it, as the writer read it.\<close>

definition change_account :: "account \<Rightarrow> diag \<Rightarrow> diag" where
  "change_account a st =
     (case dg_users st of None \<Rightarrow> st
      | Some rows \<Rightarrow> (case update_user a rows of None \<Rightarrow> st | Some rows1 \<Rightarrow> st\<lparr>dg_users := Some rows1\<rparr>))"

definition make_account :: "account \<Rightarrow> diag \<Rightarrow> diag" where
  "make_account a st =
     (case dg_users st of None \<Rightarrow> st
      | Some rows \<Rightarrow> (case create_user a rows of None \<Rightarrow> st | Some rows1 \<Rightarrow> st\<lparr>dg_users := Some rows1\<rparr>))"

definition delete_account :: "string \<Rightarrow> diag \<Rightarrow> diag" where
  "delete_account uid st =
     st\<lparr>dg_users := map_option (delete_user uid) (dg_users st), dg_bundles := filter (\<lambda>b. b_userID b \<noteq> uid) (dg_bundles st)\<rparr>"

text \<open>The reply to an upload, if the step is one, and the state after it.\<close>

fun diag_step :: "diag_event \<Rightarrow> diag \<Rightarrow> upload_reply option \<times> diag" where
  "diag_step (Switch_consent env email body) st =
     (None, snd (handle_diagnostics_consent env (read_user_by_email env email st) body st))"
| "diag_step (Ask_for_logs env owner written r leases email body fl) st =
     (None, fst (snd (handle_admin_diagnostics_collect env owner written r leases (read_user_by_email env email st) body st fl)))"
| "diag_step (Heartbeat env ls acks held) st =
     (let st1 = snd (record_diagnostics_acks env False (\<lambda>_. False) ls acks st)
      in (None, if held then snd (diagnostics_commands_for_session env ls st1) else st1))"
| "diag_step (Upload env token ls payload) st =
     (case handle_diagnostics_upload env True False token ls payload None st of (reply, st1) \<Rightarrow> (Some reply, st1))"
| "diag_step (Relayed_upload env digest nodes token payload) st =
     (case handle_edge_diagnostics_upload env digest nodes True token payload st of (reply, st1) \<Rightarrow> (Some reply, st1))"
| "diag_step (Edge_acknowledges node i) st = (None, queue_forwarded_diagnostics_ack node i st)"
| "diag_step (Watch env ev) st = (None, watch_diagnostics_expiry env ev st)"
| "diag_step (Prune env) st = (None, prune_diagnostics_bundles env st)"
| "diag_step (Read_bundles env owner email i target) st =
     (None, snd (handle_admin_diagnostics_bundles env owner (read_user_by_email env email st) i target st))"
| "diag_step (Account_made a) st = (None, make_account a st)"
| "diag_step (Account_changed a) st = (None, change_account a st)"
| "diag_step (Account_deleted uid) st = (None, delete_account uid st)"

definition diag_run :: "diag_event list \<Rightarrow> diag \<Rightarrow> diag" where
  "diag_run steps st = fold (\<lambda>s st. snd (diag_step s st)) steps st"

end
