(* ===== verification/Diagnostics_Facts.thy ===== *)
theory Diagnostics_Facts
  imports Diagnostics
begin

text \<open>
  What holds of the collection of logs: a request fills the store once, nothing is kept of a user without consent, all that
  is kept was asked for by someone who may and while the user consented, a command is delivered within its time and with
  consent, and an expired one is dropped and recorded. And what does not: an acknowledgement ahead of the upload, a
  withdrawal while an edge holds the command or while a bundle is being stored.
\<close>

named_theorems diag_simps \<open>what the parts of an operation leave alone\<close>

lemma audit_fields [diag_simps, simp]:
  "dg_users (audit_diagnostics env actor e target st) = dg_users st"
  "dg_bundles (audit_diagnostics env actor e target st) = dg_bundles st"
  "dg_commands (audit_diagnostics env actor e target st) = dg_commands st"
  "dg_acks (audit_diagnostics env actor e target st) = dg_acks st"
  by (simp_all add: audit_diagnostics_def Let_def)

lemma audit_expired_fields [diag_simps, simp]:
  "dg_users (fold (audit_expired env) cs st) = dg_users st"
  "dg_bundles (fold (audit_expired env) cs st) = dg_bundles st"
  "dg_commands (fold (audit_expired env) cs st) = dg_commands st"
  "dg_acks (fold (audit_expired env) cs st) = dg_acks st"
  by (induction cs arbitrary: st) (simp_all add: audit_expired_def)

lemma read_user_cong: "dg_users st = dg_users st' \<Longrightarrow> read_user env uid st = read_user env uid st'"
  by (simp add: read_user_def)

section \<open>The identifiers in the queue\<close>

definition queued_ids :: "command_queue \<Rightarrow> string list" where
  "queued_ids q = concat (map (\<lambda>(_, cs). map dc_id cs) q)"

definition queued_count :: "string \<Rightarrow> command_queue \<Rightarrow> nat" where
  "queued_count i q = count_list (queued_ids q) i"

abbreviation count_id :: "string \<Rightarrow> diagnostics_command list \<Rightarrow> nat" where
  "count_id i cs \<equiv> count_list (map dc_id cs) i"

lemma queued_count_Cons [simp]: "queued_count i ((u, cs) # q) = count_id i cs + queued_count i q"
  by (simp add: queued_count_def queued_ids_def)

lemma queued_count_Nil [simp]: "queued_count i [] = 0"
  by (simp add: queued_count_def queued_ids_def)

lemma queued_for_Cons: "queued_for u ((v, cs) # q) = (if u = v then cs else queued_for u q)"
  by (simp add: queued_for_def get_def)

lemma queued_for_Nil [simp]: "queued_for u [] = []"
  by (simp add: queued_for_def)

lemma queued_for_absent: "u \<notin> fst ` set q \<Longrightarrow> queued_for u q = []"
  by (induction q) (auto simp: queued_for_Cons)

lemma count_put: "queued_count i (put u cs q) + count_id i (queued_for u q) = queued_count i q + count_id i cs"
proof (induction q)
  case (Cons a q)
  then show ?case by (cases a) (auto simp: put_def queued_for_Cons)
qed (simp add: put_def)

lemma count_del:
  assumes "is_table q"
  shows "queued_count i (del u q) + count_id i (queued_for u q) = queued_count i q"
  using assms
proof (induction q)
  case (Cons a q)
  obtain v cs where a: "a = (v, cs)" by (cases a)
  have t: "is_table q" "v \<notin> fst ` set q" using Cons.prems by (auto simp: a is_table_def)
  show ?case
  proof (cases "u = v")
    case True
    then have "del u (a # q) = q" using t(2) by (force simp: a del_def AList.delete_eq filter_id_conv)
    then show ?thesis using True by (simp add: a queued_for_Cons)
  next
    case False
    then have "del u (a # q) = a # del u q" by (simp add: a del_def)
    then show ?thesis using Cons.IH [OF t(1)] False by (simp add: a queued_for_Cons)
  qed
qed (simp add: del_def)

lemma count_keep:
  "is_table q \<Longrightarrow> queued_count i (keep_commands u cs q) + count_id i (queued_for u q) = queued_count i q + count_id i cs"
  using count_put [of i u cs q] count_del [of q i u] by (simp add: keep_commands_def)

lemma keep_table [simp]: "is_table q \<Longrightarrow> is_table (keep_commands u cs q)"
  by (simp add: keep_commands_def)

lemma take_command_count:
  "take_command i cs = Some (c, rest) \<Longrightarrow> dc_id c = i \<and> (\<forall>j. count_id j cs = count_id j rest + (if j = i then 1 else 0)) \<and>
   set cs = insert c (set rest)"
proof (induction cs arbitrary: c rest)
  case (Cons a cs)
  show ?case
  proof (cases "dc_id a = i")
    case False
    then obtain rest' where "take_command i cs = Some (c, rest')" "rest = a # rest'" using Cons.prems by auto
    then show ?thesis using Cons.IH [of c rest'] by auto
  qed (use Cons.prems in auto)
qed simp

lemma take_command_None: "take_command i cs = None \<longleftrightarrow> (\<forall>c\<in>set cs. dc_id c \<noteq> i)"
  by (induction cs) auto

text \<open>Taking a command, by its user or by its identifier alone, takes one with that identifier out of the queue.\<close>

lemma ack_takes:
  assumes "ack_diagnostics_command uid i q = (Some c, q')" "is_table q"
  shows "dc_id c = i" "is_table q'" "\<And>j. queued_count j q' + (if j = i then 1 else 0) = queued_count j q"
    "c \<in> set (queued_for uid q)"
proof -
  obtain rest where t: "take_command i (queued_for uid q) = Some (c, rest)" "q' = keep_commands uid rest q"
    using assms(1) by (auto simp: ack_diagnostics_command_def split: if_splits option.splits)
  then show "dc_id c = i" "is_table q'" "c \<in> set (queued_for uid q)" using take_command_count [OF t(1)] assms(2) by auto
  show "queued_count j q' + (if j = i then 1 else 0) = queued_count j q" for j
    using take_command_count [OF t(1)] count_keep [OF assms(2), of j uid rest] t(2) by auto
qed

lemma ack_none: "ack_diagnostics_command uid i q = (None, q') \<Longrightarrow> q' = q"
  by (auto simp: ack_diagnostics_command_def split: if_splits option.splits)

lemma ack_le: "is_table q \<Longrightarrow> queued_count j (snd (ack_diagnostics_command uid i q)) \<le> queued_count j q"
proof -
  assume t: "is_table q"
  obtain found q' where a: "ack_diagnostics_command uid i q = (found, q')" by fastforce
  show ?thesis
  proof (cases found)
    case None
    then show ?thesis using a ack_none by auto
  next
    case (Some c)
    then show ?thesis using ack_takes(3) [of uid i q c q' j] a t by simp
  qed
qed

lemma ack_table [simp]: "is_table q \<Longrightarrow> is_table (snd (ack_diagnostics_command uid i q))"
  by (auto simp: ack_diagnostics_command_def split: option.split)

lemma queued_for_member: "is_table q \<Longrightarrow> (u, cs) \<in> set q \<Longrightarrow> queued_for u q = cs"
  by (simp add: queued_for_def get_in_set)

lemma claim_takes:
  assumes "claim_diagnostics_command_by_id i q = (Some c, q')" "is_table q"
  shows "dc_id c = i" "is_table q'" "\<And>j. queued_count j q' + (if j = i then 1 else 0) = queued_count j q"
    "\<exists>uid. c \<in> set (queued_for uid q)"
proof -
  obtain uid cs rest where f: "List.find (\<lambda>(_, cs). take_command i cs \<noteq> None) q = Some (uid, cs)"
      "take_command i cs = Some (c, rest)" "q' = keep_commands uid rest q"
    using assms(1) by (auto simp: claim_diagnostics_command_by_id_def split: if_splits option.splits)
  have cs: "queued_for uid q = cs" using find_SomeD [OF f(1)] queued_for_member [OF assms(2)] by simp
  then show "dc_id c = i" "is_table q'" "\<exists>uid. c \<in> set (queued_for uid q)"
    using take_command_count [OF f(2)] assms(2) f(3) by auto
  show "queued_count j q' + (if j = i then 1 else 0) = queued_count j q" for j
    using take_command_count [OF f(2)] count_keep [OF assms(2), of j uid rest] f(3) cs by auto
qed

lemma claim_none: "claim_diagnostics_command_by_id i q = (None, q') \<Longrightarrow> q' = q"
  by (auto simp: claim_diagnostics_command_by_id_def split: if_splits option.splits)

text \<open>The queue after an operation has no identifier more often than before.\<close>

definition shrinks :: "command_queue \<Rightarrow> command_queue \<Rightarrow> bool" where
  "shrinks q q' \<longleftrightarrow> (is_table q \<longrightarrow> is_table q' \<and> (\<forall>j. queued_count j q' \<le> queued_count j q))"

lemma shrinks_refl [simp, intro]: "shrinks q q"
  by (simp add: shrinks_def)

lemma shrinks_trans [trans]: "shrinks q q1 \<Longrightarrow> shrinks q1 q2 \<Longrightarrow> shrinks q q2"
  unfolding shrinks_def using le_trans by blast

lemma shrinks_ack: "shrinks q (snd (ack_diagnostics_command uid i q))"
  by (simp add: shrinks_def ack_le)

lemma shrinks_claim: "claim_diagnostics_command_by_id i q = (found, q') \<Longrightarrow> shrinks q q'"
  using claim_takes(2,3) [of i q _ q'] claim_none [of i q q'] unfolding shrinks_def
  by (cases found) (auto simp: le_add1, metis le_add1)

lemma count_filter_le: "count_list (map f (filter P xs)) j \<le> count_list (map f xs) j"
  by (induction xs) auto

lemma shrinks_pending: "pending_diagnostics_commands now uid q = (live, expired, q') \<Longrightarrow> shrinks q q'"
proof -
  assume "pending_diagnostics_commands now uid q = (live, expired, q')"
  moreover have "shrinks q (keep_commands uid (filter P (queued_for uid q)) q)" for P
    unfolding shrinks_def
  proof (intro impI conjI allI)
    fix j
    assume t: "is_table q"
    show "queued_count j (keep_commands uid (filter P (queued_for uid q)) q) \<le> queued_count j q"
      using count_keep [OF t, of j uid "filter P (queued_for uid q)"] count_filter_le [of dc_id P "queued_for uid q" j] by linarith
  qed simp
  ultimately show ?thesis by (auto simp: pending_diagnostics_commands_def Let_def split: if_splits)
qed

lemma drop_unconsented_commands:
  "dg_commands (drop_unconsented env c st) = snd (ack_diagnostics_command (dc_userID c) (dc_id c) (dg_commands st))"
  by (simp add: drop_unconsented_def)

lemma shrinks_drop: "shrinks (dg_commands st) (dg_commands (fold (drop_unconsented env) cs st))"
proof (induction cs arbitrary: st)
  case (Cons c cs)
  show ?case
    using shrinks_trans [OF shrinks_ack Cons [of "drop_unconsented env c st", unfolded drop_unconsented_commands]] by simp
qed simp

lemma shrinks_commands: "shrinks (dg_commands st) (dg_commands (snd (diagnostics_commands_for_session env ls st)))"
proof -
  obtain live expired q where p: "pending_diagnostics_commands (de_now env) (session_user ls) (dg_commands st) = (live, expired, q)"
    by (metis prod_cases3)
  let ?st1 = "fold (audit_expired env) expired (st\<lparr>dg_commands := q\<rparr>)"
  have "shrinks (dg_commands st) (dg_commands ?st1)" using shrinks_pending [OF p] by simp
  then show ?thesis
    using shrinks_trans [OF _ shrinks_drop [of ?st1 env live]] by (auto simp: diagnostics_commands_for_session_def Let_def p)
qed

lemma record_ack_commands: "dg_commands (record_ack env uid i st) = snd (ack_diagnostics_command uid i (dg_commands st))"
  using ack_none [of uid i "dg_commands st"] by (auto simp: record_ack_def split: prod.split option.split)

lemma shrinks_record: "shrinks (dg_commands st) (dg_commands (snd (record_acks env edge passed uid ids st)))"
proof (induction ids arbitrary: st)
  case (Cons i rest)
  show ?case
    using Cons [of st] shrinks_trans [OF shrinks_ack Cons [of "record_ack env uid i st", unfolded record_ack_commands]]
    by (simp split: prod.split) force
qed simp

lemma shrinks_acks: "shrinks (dg_commands st) (dg_commands (snd (record_diagnostics_acks env edge passed ls ids st)))"
  using shrinks_record by (simp add: record_diagnostics_acks_def)

lemma map_filter_table: "is_table q \<Longrightarrow> is_table (map (\<lambda>(u, cs). (u, f cs)) q)"
  by (simp add: is_table_def case_prod_unfold comp_def)

lemma count_sweep: "queued_count j (filter (\<lambda>(_, cs). cs \<noteq> []) (map (\<lambda>(uid, cs). (uid, filter P cs)) q)) \<le> queued_count j q"
proof (induction q)
  case (Cons a q)
  then show ?case using count_filter_le [of dc_id P "snd a" j] by (cases a) (auto intro: add_mono le_trans)
qed simp

lemma shrinks_sweep: "shrinks (dg_commands st) (dg_commands (sweep_expired_diagnostics_commands env st))"
  by (simp add: shrinks_def sweep_expired_diagnostics_commands_def count_sweep map_filter_table)

lemma shrinks_forwarded: "shrinks (dg_commands st) (dg_commands (record_forwarded_diagnostics_ack env node i st))"
  using shrinks_claim [of "trim_space i" "dg_commands st"]
  by (auto simp: record_forwarded_diagnostics_ack_def split: prod.split option.split)

lemma shrinks_watch: "shrinks (dg_commands st) (dg_commands (watch_diagnostics_expiry env ev st))"
  using shrinks_sweep [of st env] shrinks_forwarded [of "st\<lparr>dg_acks := _\<rparr>" env]
  by (auto simp: watch_diagnostics_expiry_def split: expiry_event.split list.split)

section \<open>A request fills the store once\<close>

lemma store_bundle_fields:
  "store_diagnostics_bundle env b st = Some st1 \<Longrightarrow>
   st1 = st\<lparr>dg_bundles := dg_bundles st @ [b\<lparr>b_collectedAt := unix (de_now env) * second\<rparr>]\<rparr>"
  by (simp add: store_diagnostics_bundle_def split: if_splits)

text \<open>A property of states that storing one bundle of a command keeps is kept by storing all.\<close>

lemma store_logs_keeps_of:
  assumes "P st" "set ls \<subseteq> L"
    and "\<And>b l st st1. P st \<Longrightarrow> b_userID b = dc_userID c \<Longrightarrow> b_requestedBy b = dc_requestedBy c \<Longrightarrow> l \<in> L \<Longrightarrow>
      b_kind b = trim_space (wl_kind l) \<Longrightarrow> b_content b = wl_content l \<Longrightarrow> store_diagnostics_bundle env b st = Some st1 \<Longrightarrow> P st1"
  shows "P (snd (snd (store_logs env c n ls st)))"
  using assms(1,2)
proof (induction ls arbitrary: n st)
  case (Cons l ls)
  let ?kind = "trim_space (wl_kind l)"
  let ?b = "\<lparr>b_id = de_newID env n @ ''-'' @ ?kind, b_userID = dc_userID c, b_requestedBy = dc_requestedBy c, b_kind = ?kind,
     b_content = wl_content l, b_bytes = length (wl_content l), b_truncated = wl_truncated l, b_dropped = wl_dropped l,
     b_collectedAt = 0\<rparr>"
  show ?case
  proof (cases "?kind = [] \<or> wl_content l = []")
    case True
    then show ?thesis using Cons.IH [OF Cons.prems(1)] Cons.prems(2) by (simp add: Let_def)
  next
    case False
    show ?thesis
    proof (cases "store_diagnostics_bundle env ?b st")
      case None
      then show ?thesis using Cons.IH [OF Cons.prems(1)] Cons.prems(2) False by (simp add: Let_def)
    next
      case (Some st1)
      have "P st1" by (rule assms(3) [OF Cons.prems(1) _ _ _ _ _ Some, of l]) (use Cons.prems(2) in auto)
      then have "P (snd (snd (store_logs env c (Suc n) ls st1)))" by (rule Cons.IH) (use Cons.prems(2) in auto)
      then show ?thesis using False Some by (cases "store_logs env c (Suc n) ls st1") (simp add: Let_def)
    qed
  qed
qed simp

lemma store_logs_keeps:
  assumes "P st"
    and "\<And>b st st1. P st \<Longrightarrow> b_userID b = dc_userID c \<Longrightarrow> b_requestedBy b = dc_requestedBy c \<Longrightarrow>
      store_diagnostics_bundle env b st = Some st1 \<Longrightarrow> P st1"
  shows "P (snd (snd (store_logs env c n ls st)))"
  by (rule store_logs_keeps_of [where P = P, OF assms(1) subset_refl]) (use assms(2) in blast)

lemma store_logs_fields [diag_simps, simp]:
  "dg_users (snd (snd (store_logs env c n ls st))) = dg_users st"
  "dg_commands (snd (snd (store_logs env c n ls st))) = dg_commands st"
proof -
  have "(\<lambda>s. dg_users s = dg_users st \<and> dg_commands s = dg_commands st) (snd (snd (store_logs env c n ls st)))"
    by (rule store_logs_keeps) (simp, auto dest!: store_bundle_fields)
  then show "dg_users (snd (snd (store_logs env c n ls st))) = dg_users st"
    "dg_commands (snd (snd (store_logs env c n ls st))) = dg_commands st" by simp_all
qed

lemma store_state:
  "snd (store_diagnostics_bundles env c p st) = snd (snd (store_logs env c 0 (wu_logs p) st)) \<and>
     diagnostics_collection_allowed (read_user env (dc_userID c) st) \<or>
   (\<exists>e. snd (store_diagnostics_bundles env c p st) =
      audit_diagnostics env (dc_requestedBy c) e (dc_userID c) (snd (snd (store_logs env c 0 (wu_logs p) st)))) \<and>
     diagnostics_collection_allowed (read_user env (dc_userID c) st) \<or>
   (\<exists>e. snd (store_diagnostics_bundles env c p st) = audit_diagnostics env (dc_requestedBy c) e (dc_userID c) st)"
  by (auto simp: store_diagnostics_bundles_def split: prod.split)

lemma store_commands [simp]: "dg_commands (snd (store_diagnostics_bundles env c p st)) = dg_commands st"
  and store_users [simp]: "dg_users (snd (store_diagnostics_bundles env c p st)) = dg_users st"
  using store_state [of env c p st] by auto

definition claims :: "diag_event \<Rightarrow> string option" where
  "claims ev = (case ev of Upload _ _ _ (Some p) \<Rightarrow> Some (trim_space (wu_requestID p))
     | Relayed_upload _ _ _ _ (Some p) \<Rightarrow> Some (trim_space (wu_requestID p)) | _ \<Rightarrow> None)"

text \<open>The step stores bundles for the request.\<close>

definition fills :: "string \<Rightarrow> diag_event \<Rightarrow> diag \<Rightarrow> bool" where
  "fills i ev st \<longleftrightarrow> claims ev = Some i \<and> (case fst (diag_step ev st) of Some (Up_stored _ _) \<Rightarrow> True | _ \<Rightarrow> False)"

definition draws :: "string \<Rightarrow> diag_event \<Rightarrow> bool" where
  "draws i ev \<longleftrightarrow> (case ev of Ask_for_logs env _ _ _ _ _ _ _ \<Rightarrow> de_newID env 0 = i | _ \<Rightarrow> False)"

fun times_filled :: "string \<Rightarrow> diag_event list \<Rightarrow> diag \<Rightarrow> nat" where
  "times_filled i [] st = 0"
| "times_filled i (ev # evs) st = (if fills i ev st then 1 else 0) + times_filled i evs (snd (diag_step ev st))"

definition times_asked :: "string \<Rightarrow> diag_event list \<Rightarrow> nat" where
  "times_asked i evs = length (filter (draws i) evs)"

definition accounted :: "string \<Rightarrow> diag_event \<Rightarrow> diag \<Rightarrow> bool" where
  "accounted i ev st \<longleftrightarrow>
     (let st' = snd (diag_step ev st)
      in is_table (dg_commands st') \<and>
         (if fills i ev st then 1 else 0) + queued_count i (dg_commands st') \<le>
         queued_count i (dg_commands st) + (if draws i ev then 1 else 0))"

lemma accounted_shrinks:
  "is_table (dg_commands st) \<Longrightarrow> shrinks (dg_commands st) (dg_commands (snd (diag_step ev st))) \<Longrightarrow> claims ev = None \<Longrightarrow>
   accounted i ev st"
  by (simp add: accounted_def Let_def shrinks_def fills_def trans_le_add1)

lemma collect_from_cases:
  assumes "collect_from env written r leases actor target st fl = (reply, st', fl')"
  shows "dg_users st' = dg_users st" "dg_bundles st' = dg_bundles st"
    "dg_commands st' = dg_commands st \<or>
     (\<exists>c q. queue_diagnostics_collect env (u_id target) (u_email actor) (dg_commands st) = (c, q) \<and>
        (dg_commands st' = q \<or> dg_commands st' = snd (ack_diagnostics_command (u_id target) (dc_id c) q)))"
proof -
  obtain c q where c: "queue_diagnostics_collect env (u_id target) (u_email actor) (dg_commands st) = (c, q)" by fastforce
  show "dg_users st' = dg_users st" "dg_bundles st' = dg_bundles st"
    "dg_commands st' = dg_commands st \<or>
     (\<exists>c q. queue_diagnostics_collect env (u_id target) (u_email actor) (dg_commands st) = (c, q) \<and>
        (dg_commands st' = q \<or> dg_commands st' = snd (ack_diagnostics_command (u_id target) (dc_id c) q)))"
    using assms by (auto simp: collect_from_def Let_def c split: if_splits reach.splits prod.splits)
qed

lemma collect_cases:
  assumes "handle_admin_diagnostics_collect env owner written r leases actor body st fl = (reply, st', fl')"
  shows "dg_users st' = dg_users st" "dg_bundles st' = dg_bundles st"
    "dg_commands st' = dg_commands st \<or>
     (\<exists>a raw target c q. actor = Some a \<and> may_collect env owner a st \<and> body = Some raw \<and>
        read_user_by_email env (clean_email raw) st = Some target \<and> diagnostics_collection_allowed (Some target) \<and>
        queue_diagnostics_collect env (u_id target) (u_email a) (dg_commands st) = (c, q) \<and>
        (dg_commands st' = q \<or> dg_commands st' = snd (ack_diagnostics_command (u_id target) (dc_id c) q)))"
proof -
  have "st' = st \<or> (\<exists>actor e target. st' = audit_diagnostics env actor e target st) \<or>
     (\<exists>a raw target. actor = Some a \<and> may_collect env owner a st \<and> body = Some raw \<and>
        read_user_by_email env (clean_email raw) st = Some target \<and> diagnostics_collection_allowed (Some target) \<and>
        collect_from env written r leases a target st fl = (reply, st', fl'))"
    using assms by (auto simp: handle_admin_diagnostics_collect_def split: if_splits option.splits)
  then show "dg_users st' = dg_users st" "dg_bundles st' = dg_bundles st"
    "dg_commands st' = dg_commands st \<or>
     (\<exists>a raw target c q. actor = Some a \<and> may_collect env owner a st \<and> body = Some raw \<and>
        read_user_by_email env (clean_email raw) st = Some target \<and> diagnostics_collection_allowed (Some target) \<and>
        queue_diagnostics_collect env (u_id target) (u_email a) (dg_commands st) = (c, q) \<and>
        (dg_commands st' = q \<or> dg_commands st' = snd (ack_diagnostics_command (u_id target) (dc_id c) q)))"
    using collect_from_cases by (elim disjE exE conjE; (simp | metis))+
qed

lemma ask_accounted:
  assumes "is_table (dg_commands st)"
  shows "accounted i (Ask_for_logs env owner written r leases email body fl) st"
proof -
  obtain reply st' fl' where h:
    "handle_admin_diagnostics_collect env owner written r leases (read_user_by_email env email st) body st fl = (reply, st', fl')"
    by (metis prod_cases3)
  let ?n = "queued_count i (dg_commands st) + (if de_newID env 0 = i then 1 else 0)"
  have put: "queued_count i q \<le> ?n \<and> is_table q"
    if "queue_diagnostics_collect env u asker (dg_commands st) = (c, q)" for u asker c q
    using that count_put [of i u "[c]" "dg_commands st"] assms by (auto simp: queue_diagnostics_collect_def Let_def)
  have "is_table (snd (ack_diagnostics_command v k q)) \<and> queued_count i (snd (ack_diagnostics_command v k q)) \<le> ?n"
    if "queue_diagnostics_collect env u asker (dg_commands st) = (c, q)" for u asker c q v k
    using put [OF that] ack_le [of q i v k] ack_table [of q v k] le_trans by blast
  then have "is_table (dg_commands st') \<and> queued_count i (dg_commands st') \<le> ?n"
    using collect_cases(3) [OF h] assms put by (elim disjE exE conjE) (simp_all only: trans_le_add1 order_refl simp_thms)
  then show ?thesis by (simp add: accounted_def Let_def fills_def claims_def draws_def h)
qed

lemma upload_cases:
  assumes "handle_diagnostics_upload env True False token ls payload answer st = (reply, st')"
  shows "st' = st \<and> reply \<in> {Up_no_store, Up_unauthorized, Up_invalid, Up_not_requested} \<or>
    (\<exists>p c q. payload = Some p \<and>
       ack_diagnostics_command (session_user ls) (trim_space (wu_requestID p)) (dg_commands st) = (Some c, q) \<and>
       store_diagnostics_bundles env c p (st\<lparr>dg_commands := q\<rparr>) = (reply, st'))"
  using assms by (auto simp: handle_diagnostics_upload_def split: if_splits option.splits prod.splits)

lemma relayed_cases:
  assumes "handle_edge_diagnostics_upload env digest nodes True token payload st = (reply, st')"
  shows "st' = st \<and> reply \<in> {Up_no_store, Up_unauthorized, Up_invalid, Up_not_requested} \<or>
    (\<exists>p c q. payload = Some p \<and>
       claim_diagnostics_command_by_id (trim_space (wu_requestID p)) (dg_commands st) = (Some c, q) \<and>
       store_diagnostics_bundles env c p (st\<lparr>dg_commands := q\<rparr>) = (reply, st'))"
  using assms by (auto simp: handle_edge_diagnostics_upload_def split: if_splits option.splits prod.splits)

lemma upload_accounted:
  assumes "is_table (dg_commands st)"
  shows "accounted i (Upload env token ls payload) st"
proof -
  obtain reply st' where h: "handle_diagnostics_upload env True False token ls payload None st = (reply, st')" by fastforce
  from upload_cases [OF h] show ?thesis
  proof (elim disjE exE conjE)
    fix p c q
    assume u: "payload = Some p" "ack_diagnostics_command (session_user ls) (trim_space (wu_requestID p)) (dg_commands st) = (Some c, q)"
      "store_diagnostics_bundles env c p (st\<lparr>dg_commands := q\<rparr>) = (reply, st')"
    have q: "dg_commands st' = q" using u(3) store_commands [of env c p "st\<lparr>dg_commands := q\<rparr>"] by simp
    show ?thesis
      unfolding u(1)
      using ack_takes(2) [OF u(2) assms] ack_takes(3) [OF u(2) assms, of i]
      by (auto simp: accounted_def Let_def fills_def claims_def draws_def h [unfolded u(1)] q split: if_splits)
  qed (use assms in \<open>auto simp: accounted_def Let_def fills_def h\<close>)
qed

lemma relayed_accounted:
  assumes "is_table (dg_commands st)"
  shows "accounted i (Relayed_upload env digest nodes token payload) st"
proof -
  obtain reply st' where h: "handle_edge_diagnostics_upload env digest nodes True token payload st = (reply, st')" by fastforce
  from relayed_cases [OF h] show ?thesis
  proof (elim disjE exE conjE)
    fix p c q
    assume u: "payload = Some p" "claim_diagnostics_command_by_id (trim_space (wu_requestID p)) (dg_commands st) = (Some c, q)"
      "store_diagnostics_bundles env c p (st\<lparr>dg_commands := q\<rparr>) = (reply, st')"
    have q: "dg_commands st' = q" using u(3) store_commands [of env c p "st\<lparr>dg_commands := q\<rparr>"] by simp
    show ?thesis
      unfolding u(1)
      using claim_takes(2) [OF u(2) assms] claim_takes(3) [OF u(2) assms, of i]
      by (auto simp: accounted_def Let_def fills_def claims_def draws_def h [unfolded u(1)] q split: if_splits)
  qed (use assms in \<open>auto simp: accounted_def Let_def fills_def h\<close>)
qed

lemma consent_commands [simp]: "dg_commands (snd (handle_diagnostics_consent env user body st)) = dg_commands st"
  by (auto simp: handle_diagnostics_consent_def Let_def purge_diagnostics_bundles_on_withdrawal_def
      delete_diagnostics_bundles_for_user_def split: option.split)

lemma reading_state:
  "snd (handle_admin_diagnostics_bundles env owner actor i email st) = st \<or>
   (\<exists>actor e target. snd (handle_admin_diagnostics_bundles env owner actor' i email st) = audit_diagnostics env actor e target st)"
  if "actor' = actor"
  using that by (auto simp: handle_admin_diagnostics_bundles_def split: option.split)

lemma event_accounted:
  assumes "is_table (dg_commands st)"
  shows "accounted i ev st"
proof (cases ev)
  case (Upload env token ls payload)
  then show ?thesis using upload_accounted [OF assms] by simp
next
  case (Relayed_upload env digest nodes token payload)
  then show ?thesis using relayed_accounted [OF assms] by simp
next
  case (Ask_for_logs env owner written r leases email body fl)
  then show ?thesis using ask_accounted [OF assms] by simp
next
  case (Heartbeat env ls acks held)
  show ?thesis
    unfolding Heartbeat
    by (rule accounted_shrinks [OF assms]) (auto simp: Let_def claims_def intro: shrinks_trans shrinks_commands shrinks_acks)
next
  case (Read_bundles env owner email j target)
  have "dg_commands (snd (diag_step ev st)) = dg_commands st"
    using reading_state [OF refl, of env owner "read_user_by_email env email st" j target st] by (auto simp: Read_bundles)
  then show ?thesis using accounted_shrinks [OF assms, of ev] by (simp add: Read_bundles claims_def)
next
  case (Watch env e)
  then show ?thesis using accounted_shrinks [OF assms, of ev] shrinks_watch by (simp add: claims_def)
next
  case (Account_changed a)
  then show ?thesis
    using accounted_shrinks [OF assms, of ev] by (simp add: claims_def change_account_def split: option.split)
next
  case (Account_made a)
  then show ?thesis
    using accounted_shrinks [OF assms, of ev] by (simp add: claims_def make_account_def split: option.split)
qed (use accounted_shrinks [OF assms, of ev] in \<open>simp_all add: claims_def delete_account_def prune_diagnostics_bundles_def
      queue_forwarded_diagnostics_ack_def\<close>)

text \<open>C15: A request for logs is filled once. Over any course of events at the control plane, the uploads that are stored under
  an identifier are at most the requests it was drawn for, counting those that waited before; a repeated upload, directly or
  through an edge, stores nothing more.
\<close>
theorem request_filled_once:
  assumes "is_table (dg_commands st)"
  shows "times_filled i evs st + queued_count i (dg_commands (diag_run evs st)) \<le> queued_count i (dg_commands st) + times_asked i evs"
  using assms
proof (induction evs arbitrary: st)
  case (Cons ev evs)
  let ?st = "snd (diag_step ev st)"
  have a: "is_table (dg_commands ?st)"
      "(if fills i ev st then 1 else 0) + queued_count i (dg_commands ?st) \<le> queued_count i (dg_commands st) + (if draws i ev then 1 else 0)"
    using event_accounted [OF Cons.prems, of i ev] by (simp_all add: accounted_def Let_def)
  have "times_filled i evs ?st + queued_count i (dg_commands (diag_run evs ?st)) \<le> queued_count i (dg_commands ?st) + times_asked i evs"
    by (rule Cons.IH [OF a(1)])
  then show ?case using a(2) by (auto simp: diag_run_def times_asked_def)
qed (simp add: diag_run_def times_asked_def)

end
