(* ===== verification/Diagnostics_Consent.thy ===== *)
theory Diagnostics_Consent
  imports Diagnostics_Facts
begin

text \<open>
  What stands behind a bundle that is kept: the consent of its user for as long as it is kept, and a request by someone who
  may ask, made while the user consented. Both are stated over any course of events at the control plane.
\<close>

section \<open>Consent for as long as a bundle is kept\<close>

definition consents :: "account \<Rightarrow> bool" where
  "consents a \<longleftrightarrow> ac_diagnosticsConsentAt a \<noteq> None"

definition backed :: "account list \<Rightarrow> log_bundle \<Rightarrow> bool" where
  "backed rows b \<longleftrightarrow> (\<exists>a\<in>set rows. u_id a = b_userID b \<and> consents a)"

definition consent_ok :: "diag \<Rightarrow> bool" where
  "consent_ok st \<longleftrightarrow>
     (case dg_users st of None \<Rightarrow> dg_bundles st = []
      | Some rows \<Rightarrow> distinct (map u_id rows) \<and> (\<forall>b\<in>set (dg_bundles st). backed rows b))"

lemma consent_ok_fewer:
  "consent_ok st \<Longrightarrow> dg_users st' = dg_users st \<Longrightarrow> set (dg_bundles st') \<subseteq> set (dg_bundles st) \<Longrightarrow> consent_ok st'"
  by (auto simp: consent_ok_def split: option.splits)

lemma consent_ok_rows:
  assumes "consent_ok st" "dg_users st = Some rows" "dg_users st' = Some rows'" "set (dg_bundles st') \<subseteq> set (dg_bundles st)"
    "distinct (map u_id rows')" "\<And>b. b \<in> set (dg_bundles st') \<Longrightarrow> backed rows b \<Longrightarrow> backed rows' b"
  shows "consent_ok st'"
  using assms by (auto simp: consent_ok_def)

lemma get_user_in: "get_user uid rows = Some a \<Longrightarrow> a \<in> set rows \<and> u_id a = uid"
  unfolding get_user_def by (rule find_SomeD)

lemma get_user_by_email_in: "get_user_by_email e rows = Some a \<Longrightarrow> a \<in> set rows \<and> u_email a = e"
  unfolding get_user_by_email_def by (rule find_SomeD)

lemma update_user_rows:
  "update_user a rows = Some rows' \<Longrightarrow> rows' = map (\<lambda>b. if u_id b = u_id a then updated a b else b) rows"
  by (simp add: update_user_def split: if_splits)

lemma updated_row_fields [simp]: "u_id (updated a b) = u_id a" "ac_diagnosticsConsentAt (updated a b) = ac_diagnosticsConsentAt a"
  by (simp_all add: updated_def)

lemma update_user_ids: "update_user a rows = Some rows' \<Longrightarrow> map u_id rows' = map u_id rows"
  using update_user_rows [of a rows rows'] by (auto simp: comp_def)

text \<open>An update with a consent that is given, or is the stored one, keeps what is backed; any update does for others.\<close>

lemma backed_after_update:
  assumes "update_user a rows = Some rows'" "backed rows b"
    and "b_userID b = u_id a \<longrightarrow> consents a \<or> (\<exists>old. distinct (map u_id rows) \<and> get_user (u_id a) rows = Some old \<and>
      ac_diagnosticsConsentAt a = ac_diagnosticsConsentAt old)"
  shows "backed rows' b"
proof -
  obtain x where x: "x \<in> set rows" "u_id x = b_userID b" "consents x" using assms(2) by (auto simp: backed_def)
  let ?f = "\<lambda>b. if u_id b = u_id a then updated a b else b"
  have "u_id (?f x) = b_userID b" using x(2) by simp
  moreover have "consents (?f x)"
  proof (cases "u_id x = u_id a")
    case True
    then consider "consents a" | old where "distinct (map u_id rows)" "old \<in> set rows" "u_id old = u_id a"
        "ac_diagnosticsConsentAt a = ac_diagnosticsConsentAt old"
      using assms(3) x(2) get_user_in by metis
    then show ?thesis
    proof cases
      case 2
      then have "old = x" using x(1) True inj_on_eq_iff [of u_id "set rows" old x] by (simp add: distinct_map)
      then show ?thesis using 2(4) x(3) True by (simp add: consents_def)
    qed (use True in \<open>simp add: consents_def\<close>)
  qed (use x(3) in simp)
  moreover have "?f x \<in> set rows'" using update_user_rows [OF assms(1)] x(1) by simp
  ultimately show ?thesis unfolding backed_def by blast
qed

text \<open>What is supposed of an event when it comes: an erasure succeeds, and whoever saves an account's row has read it
  since its consent last changed, for the row is saved with the consent in it.\<close>

definition orderly :: "diag_event \<Rightarrow> diag \<Rightarrow> bool" where
  "orderly ev st \<longleftrightarrow>
     (case ev of
        Switch_consent env _ _ \<Rightarrow> de_deletes env
      | Account_changed a \<Rightarrow>
          (case dg_users st of None \<Rightarrow> True
           | Some rows \<Rightarrow>
               (case get_user (u_id a) rows of None \<Rightarrow> True
                | Some old \<Rightarrow> ac_diagnosticsConsentAt a = ac_diagnosticsConsentAt old))
      | _ \<Rightarrow> True)"

fun orderly_run :: "diag_event list \<Rightarrow> diag \<Rightarrow> bool" where
  "orderly_run [] st \<longleftrightarrow> True"
| "orderly_run (ev # evs) st \<longleftrightarrow> orderly ev st \<and> orderly_run evs (snd (diag_step ev st))"

lemma switch_consent_ok:
  assumes "consent_ok st" "de_deletes env"
  shows "consent_ok (snd (handle_diagnostics_consent env user body st))"
proof (cases "\<exists>a rows enabled rows'. user = Some a \<and> dg_users st = Some rows \<and> body = Some enabled \<and>
    (if de_updatesUser env
     then update_user (a\<lparr>ac_diagnosticsConsentAt := (if enabled then Some (de_now env) else None)\<rparr>) rows else None) = Some rows'")
  case False
  then have "snd (handle_diagnostics_consent env user body st) = st"
    by (auto simp: handle_diagnostics_consent_def Let_def split: option.split)
  then show ?thesis using assms(1) by simp
next
  case True
  then obtain a rows enabled rows' where h: "user = Some a" "dg_users st = Some rows" "body = Some enabled" "de_updatesUser env"
      "update_user (a\<lparr>ac_diagnosticsConsentAt := (if enabled then Some (de_now env) else None)\<rparr>) rows = Some rows'"
    by (auto split: if_splits)
  let ?st' = "snd (handle_diagnostics_consent env user body st)"
  have st': "?st' =
      (let st1 = audit_diagnostics env (u_email a) (if enabled then Consent_granted else Consent_withdrawn) (u_id a)
         (st\<lparr>dg_users := Some rows'\<rparr>)
       in if enabled then st1 else purge_diagnostics_bundles_on_withdrawal env (u_id a) (u_email a) st1)"
    unfolding handle_diagnostics_consent_def Let_def h(1-3) option.case using h(4,5) by simp
  have purged: "dg_users (purge_diagnostics_bundles_on_withdrawal env i e s) = dg_users s \<and>
      dg_bundles (purge_diagnostics_bundles_on_withdrawal env i e s) = filter (\<lambda>b. b_userID b \<noteq> i) (dg_bundles s)"
    if "dg_users s = Some us" for i e s us
    using that assms(2)
    by (auto simp: purge_diagnostics_bundles_on_withdrawal_def delete_diagnostics_bundles_for_user_def)
  have s: "dg_users ?st' = Some rows'" "set (dg_bundles ?st') \<subseteq> set (dg_bundles st)"
      "\<not> enabled \<Longrightarrow> b \<in> set (dg_bundles ?st') \<Longrightarrow> b_userID b \<noteq> u_id a" for b
    unfolding st' Let_def using purged by auto
  show ?thesis
  proof (rule consent_ok_rows [OF assms(1) h(2) s(1,2)])
    show "distinct (map u_id rows')" using assms(1) h(2) update_user_ids [OF h(5)] by (simp add: consent_ok_def)
    fix b
    assume b: "b \<in> set (dg_bundles ?st')" "backed rows b"
    show "backed rows' b"
      by (rule backed_after_update [OF h(5) b(2)]) (use s(3) [OF _ b(1)] in \<open>auto simp: consents_def\<close>)
  qed
qed

lemma audit_consent_ok [simp]: "consent_ok (audit_diagnostics env actor e target st) = consent_ok st"
  by (cases "dg_users st") (simp_all add: consent_ok_def)

lemma stored_consent_ok:
  assumes "consent_ok st"
  shows "consent_ok (snd (store_diagnostics_bundles env c p st))"
proof -
  have stored: "consent_ok (snd (snd (store_logs env c 0 (wu_logs p) st)))"
    if allowed: "diagnostics_collection_allowed (read_user env (dc_userID c) st)"
  proof -
    obtain rows a where r: "dg_users st = Some rows" "get_user (dc_userID c) rows = Some a" "consents a"
      using allowed
      by (cases "read_user env (dc_userID c) st")
         (auto simp: diagnostics_collection_allowed_def read_user_def consents_def split: option.splits if_splits)
    have "(\<lambda>s. consent_ok s \<and> dg_users s = Some rows) (snd (snd (store_logs env c 0 (wu_logs p) st)))"
      by (rule store_logs_keeps)
         (use assms r get_user_in [OF r(2)] in \<open>auto simp: consent_ok_def backed_def dest!: store_bundle_fields\<close>)
    then show ?thesis by simp
  qed
  from store_state [of env c p st] show ?thesis
    using stored assms by (elim disjE exE conjE) simp_all
qed

lemma claimed_consent_ok: "consent_ok st \<Longrightarrow> consent_ok (st\<lparr>dg_commands := q\<rparr>)"
  by (cases "dg_users st") (simp_all add: consent_ok_def)

lemma heartbeat_store:
  "dg_users (snd (diag_step (Heartbeat env ls acks held) st)) = dg_users st"
  "dg_bundles (snd (diag_step (Heartbeat env ls acks held) st)) = dg_bundles st"
proof -
  have drop: "dg_users (fold (drop_unconsented env) cs s) = dg_users s \<and> dg_bundles (fold (drop_unconsented env) cs s) = dg_bundles s"
    for cs s by (induction cs arbitrary: s) (simp_all add: drop_unconsented_def)
  have cmds: "dg_users (snd (diagnostics_commands_for_session env ls s)) = dg_users s \<and>
      dg_bundles (snd (diagnostics_commands_for_session env ls s)) = dg_bundles s" for s
    by (auto simp: diagnostics_commands_for_session_def Let_def drop split: prod.split)
  have noted: "dg_users (record_ack env uid i s) = dg_users s \<and> dg_bundles (record_ack env uid i s) = dg_bundles s" for uid i s
    by (auto simp: record_ack_def split: prod.split option.split)
  have "dg_users (snd (record_acks env False p uid ids s)) = dg_users s \<and> dg_bundles (snd (record_acks env False p uid ids s)) = dg_bundles s"
    for p uid ids s
  proof (induction ids arbitrary: s)
    case (Cons i rest)
    then show ?case using noted [of uid i s] by (simp split: prod.split)
  qed simp
  then show "dg_users (snd (diag_step (Heartbeat env ls acks held) st)) = dg_users st"
    "dg_bundles (snd (diag_step (Heartbeat env ls acks held) st)) = dg_bundles st"
    by (simp_all add: Let_def record_diagnostics_acks_def cmds)
qed

lemma watch_store:
  "dg_users (snd (diag_step (Watch env e) st)) = dg_users st"
  "dg_bundles (snd (diag_step (Watch env e) st)) = dg_bundles st"
  by (auto simp: watch_diagnostics_expiry_def sweep_expired_diagnostics_commands_def record_forwarded_diagnostics_ack_def
      split: expiry_event.split list.split prod.split option.split)

lemma event_consent_ok:
  assumes "consent_ok st" "orderly ev st"
  shows "consent_ok (snd (diag_step ev st))"
proof (cases ev)
  case (Switch_consent env email body)
  then show ?thesis using switch_consent_ok [OF assms(1)] assms(2) by (simp add: orderly_def)
next
  case (Ask_for_logs env owner written r leases email body fl)
  obtain reply st' fl' where h:
    "handle_admin_diagnostics_collect env owner written r leases (read_user_by_email env email st) body st fl = (reply, st', fl')"
    by (metis prod_cases3)
  show ?thesis using consent_ok_fewer [OF assms(1) collect_cases(1) [OF h]] collect_cases(2) [OF h] by (simp add: Ask_for_logs h)
next
  case (Heartbeat env ls acks held)
  show ?thesis using consent_ok_fewer [OF assms(1)] heartbeat_store unfolding Heartbeat by simp
next
  case (Upload env token ls payload)
  obtain reply st' where h: "handle_diagnostics_upload env True False token ls payload None st = (reply, st')" by fastforce
  show ?thesis
    using upload_cases [OF h] assms(1) stored_consent_ok [OF claimed_consent_ok [OF assms(1)]]
    by (simp add: Upload h) (metis snd_conv)
next
  case (Relayed_upload env digest nodes token payload)
  obtain reply st' where h: "handle_edge_diagnostics_upload env digest nodes True token payload st = (reply, st')" by fastforce
  show ?thesis
    using relayed_cases [OF h] assms(1) stored_consent_ok [OF claimed_consent_ok [OF assms(1)]]
    by (simp add: Relayed_upload h) (metis snd_conv)
next
  case (Watch env e)
  show ?thesis using consent_ok_fewer [OF assms(1)] watch_store unfolding Watch by simp
next
  case (Prune env)
  then show ?thesis
    by (auto intro!: consent_ok_fewer [OF assms(1)] simp: prune_diagnostics_bundles_def)
next
  case (Read_bundles env owner email j target)
  then show ?thesis
    using reading_state [OF refl, of env owner "read_user_by_email env email st" j target st] consent_ok_fewer [OF assms(1)] assms(1)
    by auto
next
  case (Account_made a)
  show ?thesis
  proof (cases "\<exists>rows rows'. dg_users st = Some rows \<and> create_user a rows = Some rows'")
    case True
    then obtain rows rows' where r: "dg_users st = Some rows" "create_user a rows = Some rows'" by blast
    then have "u_id a \<notin> u_id ` set rows" "rows' = rows @ [inserted a]"
      by (auto simp: create_user_def list_ex_iff split: if_splits)
    moreover have "u_id (inserted a) = u_id a" by (simp add: inserted_def)
    ultimately show ?thesis
      by (intro consent_ok_rows [OF assms(1) r(1), where rows' = rows'])
         (use assms(1) r in \<open>auto simp: Account_made make_account_def consent_ok_def backed_def\<close>)
  qed (use assms(1) in \<open>auto simp: Account_made make_account_def split: option.split\<close>)
next
  case (Account_changed a)
  show ?thesis
  proof (cases "\<exists>rows rows'. dg_users st = Some rows \<and> update_user a rows = Some rows'")
    case True
    then obtain rows rows' where r: "dg_users st = Some rows" "update_user a rows = Some rows'" by blast
    then obtain old where old: "get_user (u_id a) rows = Some old" by (auto simp: update_user_def split: if_splits)
    have c: "ac_diagnosticsConsentAt a = ac_diagnosticsConsentAt old"
      using assms(2) by (simp add: Account_changed orderly_def r(1) old)
    have d: "distinct (map u_id rows)" using assms(1) r(1) by (simp add: consent_ok_def)
    show ?thesis
    proof (rule consent_ok_rows [OF assms(1) r(1), where rows' = rows'])
      show "distinct (map u_id rows')" using d update_user_ids [OF r(2)] by simp
      show "backed rows' b" if "backed rows b" for b
        using backed_after_update [OF r(2) that] d old c by auto
    qed (simp_all add: Account_changed change_account_def r)
  qed (use assms(1) in \<open>auto simp: Account_changed change_account_def split: option.split\<close>)
next
  case (Account_deleted uid)
  then show ?thesis
    using assms(1)
    by (cases "dg_users st") (fastforce simp: delete_account_def delete_user_def consent_ok_def backed_def distinct_map_filter)+
qed (use assms(1) in \<open>auto simp: queue_forwarded_diagnostics_ack_def consent_ok_def split: option.split\<close>)

text \<open>C13: Nothing is kept of a user who does not consent. Over any course of events at the control plane, handled one after
  the other, in which erasures succeed and no row is saved with an outdated consent, every stored bundle belongs to an
  account that exists and consents: a withdrawal and a deletion erase what was collected, and an upload is stored only
  for a user whose consent is in force then. Two orders of events are outside it: a withdrawal between an upload's check
  of the consent and its storing (\<open>withdrawal_between_check_and_store\<close>), and the saving of a row read before a change of
  the consent, which undoes the change (\<open>stale_profile_restores_consent\<close>).\<close>

theorem kept_only_with_consent:
  assumes "consent_ok st" "orderly_run evs st" "b \<in> set (dg_bundles (diag_run evs st))"
  shows "\<exists>rows a. dg_users (diag_run evs st) = Some rows \<and> a \<in> set rows \<and> u_id a = b_userID b \<and>
    ac_diagnosticsConsentAt a \<noteq> None"
proof -
  have "consent_ok (diag_run evs st)" using assms(1,2)
  proof (induction evs arbitrary: st)
    case (Cons ev evs)
    then show ?case using event_consent_ok [of st ev] by (simp add: diag_run_def)
  qed (simp add: diag_run_def)
  then show ?thesis using assms(3)
    by (cases "dg_users (diag_run evs st)") (simp add: consent_ok_def, fastforce simp: consent_ok_def backed_def consents_def)
qed

section \<open>A request behind every bundle\<close>

text \<open>Somewhere in the course of events the user was asked for by this address, of one who may ask, while consenting.\<close>

definition asks :: "string \<Rightarrow> string \<Rightarrow> diag_event \<Rightarrow> diag \<Rightarrow> bool" where
  "asks uid asker ev st \<longleftrightarrow>
     (case ev of
        Ask_for_logs env owner _ _ _ email (Some raw) _ \<Rightarrow>
          (case (read_user_by_email env email st, read_user_by_email env (clean_email raw) st) of
             (Some a, Some target) \<Rightarrow>
               u_email a = asker \<and> u_id target = uid \<and> may_collect env owner a st \<and> diagnostics_collection_allowed (Some target)
           | _ \<Rightarrow> False)
      | _ \<Rightarrow> False)"

fun asked_in :: "string \<Rightarrow> string \<Rightarrow> diag_event list \<Rightarrow> diag \<Rightarrow> bool" where
  "asked_in uid asker [] st \<longleftrightarrow> False"
| "asked_in uid asker (ev # evs) st \<longleftrightarrow> asks uid asker ev st \<or> asked_in uid asker evs (snd (diag_step ev st))"

definition waiting :: "command_queue \<Rightarrow> diagnostics_command set" where
  "waiting q = (\<Union>(u, cs)\<in>set q. set cs)"

lemma waiting_queued: "set (queued_for u q) \<subseteq> waiting q"
  by (cases "get q u") (auto simp: waiting_def queued_for_def dest: get_SomeD)

lemma put_subset: "set (put u cs q) \<subseteq> insert (u, cs) (set q)"
proof (induction q)
  case (Cons a q)
  then show ?case by (cases a) (auto simp: put_def)
qed (simp add: put_def)

lemma waiting_put: "waiting (put u cs q) \<subseteq> set cs \<union> waiting q"
  using put_subset [of u cs q] by (fastforce simp: waiting_def)

lemma waiting_keep: "waiting (keep_commands u cs q) \<subseteq> set cs \<union> waiting q"
  using waiting_put [of u cs q] by (auto simp: keep_commands_def waiting_def del_def AList.delete_eq)

lemma ack_waiting:
  "ack_diagnostics_command u i q = (found, q') \<Longrightarrow> waiting q' \<subseteq> waiting q \<and> (\<forall>c. found = Some c \<longrightarrow> c \<in> waiting q)"
proof (cases found)
  case (Some c)
  assume "ack_diagnostics_command u i q = (found, q')"
  then obtain rest where t: "take_command i (queued_for u q) = Some (c, rest)" "q' = keep_commands u rest q"
    using Some by (auto simp: ack_diagnostics_command_def split: if_splits option.splits)
  then have "insert c (set rest) \<subseteq> waiting q" using take_command_count [OF t(1)] waiting_queued [of u q] by simp
  then show ?thesis using waiting_keep [of u rest q] t(2) Some by auto
qed (use ack_none in auto)

lemma claim_waiting:
  "claim_diagnostics_command_by_id i q = (found, q') \<Longrightarrow> waiting q' \<subseteq> waiting q \<and> (\<forall>c. found = Some c \<longrightarrow> c \<in> waiting q)"
proof (cases found)
  case (Some c)
  assume "claim_diagnostics_command_by_id i q = (found, q')"
  then obtain u cs rest where f: "List.find (\<lambda>(_, cs). take_command i cs \<noteq> None) q = Some (u, cs)"
      "take_command i cs = Some (c, rest)" "q' = keep_commands u rest q"
    using Some by (auto simp: claim_diagnostics_command_by_id_def split: if_splits option.splits)
  have "set cs \<subseteq> waiting q" using find_SomeD [OF f(1)] by (auto simp: waiting_def)
  then show ?thesis using waiting_keep [of u rest q] take_command_count [OF f(2)] f(3) Some by auto
qed (use claim_none in auto)

lemma ack_fewer: "waiting (snd (ack_diagnostics_command u i q)) \<subseteq> waiting q"
  using ack_waiting [of u i q] by (cases "ack_diagnostics_command u i q") auto

lemma pending_waiting: "pending_diagnostics_commands now u q = (live, expired, q') \<Longrightarrow> waiting q' \<subseteq> waiting q"
  using waiting_keep [of u "filter (\<lambda>c. \<not> command_deadline c < now) (queued_for u q)" q] waiting_queued [of u q]
  by (fastforce simp: pending_diagnostics_commands_def Let_def split: if_splits)

lemma drop_waiting: "waiting (dg_commands (fold (drop_unconsented env) cs st)) \<subseteq> waiting (dg_commands st)"
proof (induction cs arbitrary: st)
  case (Cons c cs)
  show ?case using Cons [of "drop_unconsented env c st"] ack_fewer unfolding drop_unconsented_commands by simp (meson subset_trans)
qed simp

lemma commands_waiting: "waiting (dg_commands (snd (diagnostics_commands_for_session env ls st))) \<subseteq> waiting (dg_commands st)"
proof -
  obtain live expired q where p: "pending_diagnostics_commands (de_now env) (session_user ls) (dg_commands st) = (live, expired, q)"
    by (metis prod_cases3)
  have "waiting (dg_commands (fold (drop_unconsented env) live (fold (audit_expired env) expired (st\<lparr>dg_commands := q\<rparr>)))) \<subseteq> waiting q"
    using drop_waiting [of env live "fold (audit_expired env) expired (st\<lparr>dg_commands := q\<rparr>)"] by simp
  then show ?thesis using pending_waiting [OF p] by (auto simp: diagnostics_commands_for_session_def Let_def p)
qed

lemma acks_waiting: "waiting (dg_commands (snd (record_diagnostics_acks env edge passed ls ids st))) \<subseteq> waiting (dg_commands st)"
proof -
  have "waiting (dg_commands (snd (record_acks env edge passed u ids st))) \<subseteq> waiting (dg_commands st)" for u ids
  proof (induction ids arbitrary: st)
    case (Cons i rest)
    show ?case
      using Cons [of st] Cons [of "record_ack env u i st"] ack_fewer [of u i "dg_commands st"]
      unfolding record_ack_commands by (simp split: prod.split) force
  qed simp
  then show ?thesis by (simp add: record_diagnostics_acks_def)
qed

lemma sweep_waiting: "waiting (dg_commands (sweep_expired_diagnostics_commands env st)) \<subseteq> waiting (dg_commands st)"
  by (auto simp: sweep_expired_diagnostics_commands_def waiting_def)

text \<open>All commands and bundles satisfy a relation of user and asker.\<close>

definition all_from :: "(string \<Rightarrow> string \<Rightarrow> bool) \<Rightarrow> diag \<Rightarrow> bool" where
  "all_from R st \<longleftrightarrow>
     (\<forall>c\<in>waiting (dg_commands st). R (dc_userID c) (dc_requestedBy c)) \<and>
     (\<forall>b\<in>set (dg_bundles st). R (b_userID b) (b_requestedBy b))"

lemma all_from_fewer:
  "all_from R st \<Longrightarrow> waiting (dg_commands st') \<subseteq> waiting (dg_commands st) \<Longrightarrow> set (dg_bundles st') \<subseteq> set (dg_bundles st) \<Longrightarrow>
   all_from R st'"
  by (auto simp: all_from_def)

lemma stored_from:
  assumes "all_from R st" "R (dc_userID c) (dc_requestedBy c)"
  shows "all_from R (snd (store_diagnostics_bundles env c p st))"
proof -
  have "all_from R (snd (snd (store_logs env c 0 (wu_logs p) st)))"
    by (rule store_logs_keeps [where P = "all_from R"]) (use assms in \<open>auto simp: all_from_def dest!: store_bundle_fields\<close>)
  then show ?thesis using store_state [of env c p st] assms(1) by (elim disjE exE conjE) (simp_all add: all_from_def)
qed

lemma consent_bundles: "set (dg_bundles (snd (handle_diagnostics_consent env user body st))) \<subseteq> set (dg_bundles st)"
  by (auto simp: handle_diagnostics_consent_def Let_def purge_diagnostics_bundles_on_withdrawal_def
      delete_diagnostics_bundles_for_user_def split: option.splits if_splits)

lemma ask_from:
  assumes "all_from R st" "\<And>u a. asks u a (Ask_for_logs env owner written r leases email body fl) st \<Longrightarrow> R u a"
  shows "all_from R (snd (diag_step (Ask_for_logs env owner written r leases email body fl) st))"
proof -
  obtain reply st' fl' where h:
    "handle_admin_diagnostics_collect env owner written r leases (read_user_by_email env email st) body st fl = (reply, st', fl')"
    by (metis prod_cases3)
  have "waiting (dg_commands st') \<subseteq> waiting (dg_commands st) \<or>
    (\<exists>c. waiting (dg_commands st') \<subseteq> insert c (waiting (dg_commands st)) \<and> R (dc_userID c) (dc_requestedBy c))"
  proof (cases "dg_commands st' = dg_commands st")
    case False
    then obtain a raw target c q where q: "read_user_by_email env email st = Some a" "may_collect env owner a st" "body = Some raw"
      "read_user_by_email env (clean_email raw) st = Some target" "diagnostics_collection_allowed (Some target)"
      "queue_diagnostics_collect env (u_id target) (u_email a) (dg_commands st) = (c, q)"
      "dg_commands st' = q \<or> dg_commands st' = snd (ack_diagnostics_command (u_id target) (dc_id c) q)"
      using collect_cases(3) [OF h] by blast
    have c: "dc_userID c = u_id target" "dc_requestedBy c = u_email a" "q = put (u_id target) [c] (dg_commands st)"
      using q(6) by (auto simp: queue_diagnostics_collect_def Let_def)
    have "R (dc_userID c) (dc_requestedBy c)" by (rule assms(2)) (simp add: asks_def q c)
    moreover have "waiting q \<subseteq> insert c (waiting (dg_commands st))" using waiting_put [of "u_id target" "[c]"] c(3) by auto
    ultimately show ?thesis using q(7) ack_fewer [of "u_id target" "dc_id c" q] by (metis subset_trans)
  qed simp
  then show ?thesis using assms(1) collect_cases(2) [OF h] by (auto simp: h all_from_def)
qed

lemma event_from:
  assumes "all_from R st" "\<And>u a. asks u a ev st \<Longrightarrow> R u a"
  shows "all_from R (snd (diag_step ev st))"
proof (cases ev)
  case (Ask_for_logs env owner written r leases email body fl)
  then show ?thesis using ask_from [OF assms(1)] assms(2) by blast
next
  case (Switch_consent env email body)
  then show ?thesis using all_from_fewer [OF assms(1)] consent_bundles by simp
next
  case (Heartbeat env ls acks held)
  have "waiting (dg_commands (snd (diag_step ev st))) \<subseteq> waiting (dg_commands st)"
    using commands_waiting acks_waiting by (simp add: Heartbeat Let_def) (meson subset_trans)
  then show ?thesis by (rule all_from_fewer [OF assms(1)]) (simp only: Heartbeat heartbeat_store(2) order_refl)
next
  case (Upload env token ls payload)
  obtain reply st' where h: "handle_diagnostics_upload env True False token ls payload None st = (reply, st')" by fastforce
  from upload_cases [OF h] have "all_from R st'"
  proof (elim disjE exE conjE)
    fix p c q
    assume u: "ack_diagnostics_command (session_user ls) (trim_space (wu_requestID p)) (dg_commands st) = (Some c, q)"
      "store_diagnostics_bundles env c p (st\<lparr>dg_commands := q\<rparr>) = (reply, st')"
    have "all_from R (st\<lparr>dg_commands := q\<rparr>)" using all_from_fewer [OF assms(1)] ack_waiting [OF u(1)] by simp
    then show ?thesis
      using stored_from [of R _ c env p] ack_waiting [OF u(1)] assms(1) u(2) by (metis all_from_def snd_conv)
  qed (use assms(1) in simp)
  then show ?thesis by (simp add: Upload h)
next
  case (Relayed_upload env digest nodes token payload)
  obtain reply st' where h: "handle_edge_diagnostics_upload env digest nodes True token payload st = (reply, st')" by fastforce
  from relayed_cases [OF h] have "all_from R st'"
  proof (elim disjE exE conjE)
    fix p c q
    assume u: "claim_diagnostics_command_by_id (trim_space (wu_requestID p)) (dg_commands st) = (Some c, q)"
      "store_diagnostics_bundles env c p (st\<lparr>dg_commands := q\<rparr>) = (reply, st')"
    have "all_from R (st\<lparr>dg_commands := q\<rparr>)" using all_from_fewer [OF assms(1)] claim_waiting [OF u(1)] by simp
    then show ?thesis
      using stored_from [of R _ c env p] claim_waiting [OF u(1)] assms(1) u(2) by (metis all_from_def snd_conv)
  qed (use assms(1) in simp)
  then show ?thesis by (simp add: Relayed_upload h)
next
  case (Watch env e)
  have "waiting (dg_commands (snd (diag_step ev st))) \<subseteq> waiting (dg_commands st)"
    using sweep_waiting [of env st] claim_waiting [of _ "dg_commands st"]
    by (auto simp: Watch watch_diagnostics_expiry_def record_forwarded_diagnostics_ack_def
        split: expiry_event.split list.split prod.split option.split)
  then show ?thesis by (rule all_from_fewer [OF assms(1)]) (simp only: Watch watch_store(2) order_refl)
next
  case (Read_bundles env owner email j target)
  then show ?thesis
    using reading_state [OF refl, of env owner "read_user_by_email env email st" j target st] assms(1) by (auto simp: all_from_def)
next
  case (Account_made a)
  then show ?thesis using all_from_fewer [OF assms(1)] by (simp add: make_account_def split: option.split)
next
  case (Account_changed a)
  then show ?thesis using all_from_fewer [OF assms(1)] by (simp add: change_account_def split: option.split)
qed (use all_from_fewer [OF assms(1)] in \<open>auto simp: delete_account_def prune_diagnostics_bundles_def queue_forwarded_diagnostics_ack_def\<close>)

lemma run_from:
  assumes "all_from R st" "\<And>u a. asked_in u a evs st \<Longrightarrow> R u a"
  shows "all_from R (diag_run evs st)"
  using assms
proof (induction evs arbitrary: st)
  case (Cons ev evs)
  have "all_from R (snd (diag_step ev st))" by (rule event_from) (use Cons.prems in auto)
  then have "all_from R (diag_run evs (snd (diag_step ev st)))" by (rule Cons.IH) (use Cons.prems(2) in auto)
  then show ?case by (simp add: diag_run_def)
qed (simp add: diag_run_def)

text \<open>C14: Nothing is kept that was not asked for. Over any course of events at a control plane that starts with nothing queued
  and nothing stored, every stored bundle names an asker who asked for the logs of its user in that course, was at that
  moment an administrator or the owner, and asked while the user consented; an edge or a client cannot file one otherwise.
\<close>
theorem kept_was_asked_for:
  assumes "dg_commands st = []" "dg_bundles st = []" "b \<in> set (dg_bundles (diag_run evs st))"
  shows "asked_in (b_userID b) (b_requestedBy b) evs st"
proof -
  have "all_from (\<lambda>u a. asked_in u a evs st) (diag_run evs st)"
    by (rule run_from) (simp_all add: all_from_def assms waiting_def)
  then show ?thesis using assms(3) by (simp add: all_from_def)
qed

end
