(* ===== verification/Client_Redact_Facts.thy ===== *)
theory Client_Redact_Facts
  imports Client_Redact
begin

text \<open>
  What collection keeps from leaving a client: no access token at the start of a word survives the redaction of a text, no
  body of a request or answer is written, no field named for a secret keeps its value, each log is the longest run of its
  newest lines that fits, and a command is acted on once. What it does let through is stated beside it.
\<close>

section \<open>A text without access tokens\<close>

fun displays :: "pattern \<Rightarrow> char option \<Rightarrow> string \<Rightarrow> bool" where
  "displays m prev [] \<longleftrightarrow> False"
| "displays m prev (c # cs) \<longleftrightarrow> m prev (c # cs) \<noteq> None \<or> displays m (Some c) cs"

abbreviation word_before :: "char option \<Rightarrow> bool" where
  "word_before prev \<equiv> (case prev of None \<Rightarrow> False | Some c \<Rightarrow> is_word c)"

lemma takeWhile_pos: "0 < length (takeWhile P xs) \<longleftrightarrow> (\<exists>x ys. xs = x # ys \<and> P x)"
  by (cases xs) auto

text \<open>A token is the prefix and one more character, after a character that is not part of a word.\<close>

definition token_starts :: "string \<Rightarrow> bool" where
  "token_starts s \<longleftrightarrow> (\<exists>c r. s = (''lfr_pat_'' @ [c]) @ r \<and> token_char c)"

lemma token_starts_iff: "token_starts s \<longleftrightarrow> has_prefix s ''lfr_pat_'' \<and> 0 < length (takeWhile token_char (drop 8 s))"
proof
  assume "token_starts s"
  then show "has_prefix s ''lfr_pat_'' \<and> 0 < length (takeWhile token_char (drop 8 s))"
    by (auto simp: token_starts_def has_prefix_def)
next
  assume a: "has_prefix s ''lfr_pat_'' \<and> 0 < length (takeWhile token_char (drop 8 s))"
  then obtain r where "s = ''lfr_pat_'' @ r" using has_prefix_iff [of s "''lfr_pat_''"] by blast
  then show "token_starts s" using a by (cases r) (auto simp: token_starts_def split: if_splits)
qed

lemma token_starts_word: "token_starts s \<Longrightarrow> word_boundary prev s \<longleftrightarrow> \<not> word_before prev"
  by (auto simp: token_starts_def word_boundary_def is_word_def is_letter_def code_of_def)

lemma pat_pattern_None: "pat_pattern prev s = None \<longleftrightarrow> word_before prev \<or> \<not> token_starts s"
  using token_starts_word [of s prev] by (auto simp: pat_pattern_def Let_def token_starts_iff)

text \<open>
  What a text must not show, said without the pattern: an access token, that is its prefix and one more character, at the
  start of the text or after a character that is no letter, no digit and no underscore.
\<close>

definition shows_token :: "string \<Rightarrow> bool" where
  "shows_token s \<longleftrightarrow>
     (\<exists>u c v. s = u @ ''lfr_pat_'' @ c # v \<and> token_char c \<and> (u = [] \<or> \<not> is_word (last u)))"

lemma displays_pat:
  "displays pat_pattern prev s \<longleftrightarrow>
   (\<exists>u c v. s = u @ ''lfr_pat_'' @ c # v \<and> token_char c \<and> \<not> word_before (if u = [] then prev else Some (last u)))"
proof (induction s arbitrary: prev)
  case (Cons x xs)
  have first: "pat_pattern prev (x # xs) \<noteq> None \<longleftrightarrow> \<not> word_before prev \<and> (\<exists>c v. x # xs = ''lfr_pat_'' @ c # v \<and> token_char c)"
    unfolding pat_pattern_None token_starts_def by auto
  show ?case (is "_ \<longleftrightarrow> ?R prev (x # xs)")
  proof
    assume "displays pat_pattern prev (x # xs)"
    then consider "pat_pattern prev (x # xs) \<noteq> None" | "displays pat_pattern (Some x) xs" by auto
    then show "?R prev (x # xs)"
    proof cases
      case 1
      then obtain c v where "x # xs = ''lfr_pat_'' @ c # v" "token_char c" "\<not> word_before prev" using first by blast
      then show ?thesis by (intro exI [of _ "[]"] exI [of _ c] exI [of _ v]) simp
    next
      case 2
      then obtain u c v where "xs = u @ ''lfr_pat_'' @ c # v" "token_char c" "\<not> word_before (if u = [] then Some x else Some (last u))"
        using Cons.IH by blast
      then show ?thesis by (intro exI [of _ "x # u"] exI [of _ c] exI [of _ v]) (simp split: if_splits)
    qed
  next
    assume "?R prev (x # xs)"
    then obtain u c v where u: "x # xs = u @ ''lfr_pat_'' @ c # v" "token_char c" "\<not> word_before (if u = [] then prev else Some (last u))"
      by blast
    show "displays pat_pattern prev (x # xs)"
    proof (cases u)
      case Nil
      then have "pat_pattern prev (x # xs) \<noteq> None" using u first by simp
      then show ?thesis by simp
    next
      case (Cons y u')
      then have "xs = u' @ ''lfr_pat_'' @ c # v" "\<not> word_before (if u' = [] then Some x else Some (last u'))" using u by auto
      then have "displays pat_pattern (Some x) xs" using Cons.IH u(2) by blast
      then show ?thesis by simp
    qed
  qed
qed simp

lemma displays_token: "displays pat_pattern None s \<longleftrightarrow> shows_token s"
proof -
  have "\<not> word_before (if u = [] then None else Some (last u)) \<longleftrightarrow> u = [] \<or> \<not> is_word (last u)" for u by simp
  then show ?thesis unfolding displays_pat shows_token_def by simp
qed

lemma token_starts_hd: "token_starts s \<Longrightarrow> \<exists>r. s = CHR ''l'' # r"
  by (auto simp: token_starts_def)

text \<open>A token at the front of a text that continues with another character lies before that character.\<close>

lemma prefix_before_stop:
  assumes "u @ x # v = q @ r" "x \<notin> set q"
  shows "\<exists>t. u = q @ t"
proof -
  have "length q \<le> length u"
  proof (rule ccontr)
    assume long: "\<not> length q \<le> length u"
    have "(u @ x # v) ! length u = q ! length u" using long by (simp only: assms(1) nth_append) simp
    then have "q ! length u = x" by simp
    then show False using assms(2) long by auto
  qed
  moreover have "take (length q) (u @ x # v) = q" by (simp only: assms(1)) simp
  ultimately have "take (length q) u = q" by simp
  then show ?thesis using append_take_drop_id [of "length q" u] by metis
qed

lemma token_before_stop:
  assumes "token_starts (u @ x # v)" "\<not> token_char x"
  shows "token_starts (u @ w)"
proof -
  obtain c r where s: "u @ x # v = (''lfr_pat_'' @ [c]) @ r" "token_char c" using assms(1) by (auto simp: token_starts_def)
  have "list_all token_char (''lfr_pat_'' @ [c])"
    using s(2) by (simp add: token_char_def is_word_def is_letter_def code_of_def)
  then have "x \<notin> set (''lfr_pat_'' @ [c])" using assms(2) unfolding list_all_iff by blast
  from prefix_before_stop [OF s(1) this] obtain t where "u = (''lfr_pat_'' @ [c]) @ t" ..
  then have "u @ w = (''lfr_pat_'' @ [c]) @ (t @ w)" by simp
  then show ?thesis using s(2) unfolding token_starts_def by blast
qed

text \<open>
  A pattern keeps tokens apart when what stands for a match is the start of the match followed by a character no token has,
  with nothing in it a token could start with, and when no token can start where the match ends.
\<close>

definition apart :: "bool \<Rightarrow> string \<Rightarrow> nat \<Rightarrow> string \<Rightarrow> bool" where
  "apart all s n standin \<longleftrightarrow>
     0 < n \<and> n \<le> length s \<and>
     (\<exists>j x t. j < n \<and> (all \<longrightarrow> j = 0) \<and> standin = take j s @ x # t \<and> \<not> token_char x \<and> CHR ''l'' \<notin> set (x # t) \<and>
        (token_starts (drop n s) \<longrightarrow> is_word (last (x # t)) = is_word (s ! (n - 1))))"

definition keeps_apart :: "bool \<Rightarrow> pattern \<Rightarrow> bool" where
  "keeps_apart all m \<longleftrightarrow> (\<forall>prev s n standin. m prev s = Some (n, standin) \<longrightarrow> apart all s n standin)"

lemma keeps_apartD: "keeps_apart all m \<Longrightarrow> m prev s = Some (n, standin) \<Longrightarrow> apart all s n standin"
  by (simp add: keeps_apart_def)

lemma replace_matches_Nil [simp]: "replace_matches m prev [] = []"
  by (simp add: replace_matches.simps)

lemma replace_matches_skip: "m prev (c # cs) = None \<Longrightarrow> replace_matches m prev (c # cs) = c # replace_matches m (Some c) cs"
  by (subst replace_matches.simps) simp

lemma replace_matches_match:
  "m prev s = Some (n, standin) \<Longrightarrow> 0 < n \<Longrightarrow> n \<le> length s \<Longrightarrow>
   replace_matches m prev s = standin @ replace_matches m (Some (s ! (n - 1))) (drop n s)"
  by (subst replace_matches.simps) (auto split: list.split)

lemma replace_induct [consumes 1, case_names done_ skip match]:
  assumes "keeps_apart all m"
    and "\<And>prev. P prev []"
    and "\<And>prev c cs. m prev (c # cs) = None \<Longrightarrow> P (Some c) cs \<Longrightarrow> P prev (c # cs)"
    and "\<And>prev s n standin. m prev s = Some (n, standin) \<Longrightarrow> 0 < n \<Longrightarrow> n \<le> length s \<Longrightarrow>
      P (Some (s ! (n - 1))) (drop n s) \<Longrightarrow> P prev s"
  shows "P prev s"
proof (induction "length s" arbitrary: prev s rule: less_induct)
  case less
  show ?case
  proof (cases s)
    case Nil
    then show ?thesis using assms(2) by simp
  next
    case (Cons c cs)
    show ?thesis
    proof (cases "m prev s")
      case None
      then show ?thesis using assms(3) less [of cs] Cons by simp
    next
      case (Some p)
      obtain n standin where p: "p = (n, standin)" by (cases p)
      then have "0 < n" "n \<le> length s" using keeps_apartD [OF assms(1)] Some by (auto simp: apart_def)
      then show ?thesis using assms(4) [OF Some [unfolded p]] less [of "drop n s"] by simp
    qed
  qed
qed

lemma prefix_of_replaced:
  assumes "keeps_apart all m" "list_all token_char q" "replace_matches m prev s = q @ r"
  shows "\<exists>t. s = q @ t"
  using assms
proof (induction prev s arbitrary: q r rule: replace_induct)
  case (done_ prev)
  then show ?case by simp
next
  case (skip prev c cs)
  show ?case
  proof (cases q)
    case (Cons a q')
    then show ?thesis using skip.IH [of q' r] skip.hyps skip.prems by (auto simp: replace_matches_skip)
  qed simp
next
  case (match prev s n standin)
  obtain j x t where standin: "standin = take j s @ x # t" "\<not> token_char x"
    using keeps_apartD [OF assms(1) match.hyps(1)] unfolding apart_def by blast
  have "take j s @ x # (t @ replace_matches m (Some (s ! (n - 1))) (drop n s)) = q @ r"
    by (simp only: match.prems(2) [symmetric] replace_matches_match [where m = m, OF match.hyps(1-3)] standin(1) append_assoc append_Cons)
  moreover have "x \<notin> set q" using match.prems(1) standin(2) unfolding list_all_iff by blast
  ultimately obtain v where "take j s = q @ v" using prefix_before_stop [of "take j s" x] by metis
  then have "s = q @ (v @ drop j s)" using append_take_drop_id [of j s] by simp
  then show ?case by blast
qed

lemma token_of_replaced:
  assumes "keeps_apart all m" "token_starts (c # replace_matches m (Some c) cs)" "m prev (c # cs) = None"
  shows "token_starts (c # cs)"
proof -
  obtain ch r where e: "c # replace_matches m (Some c) cs = (''lfr_pat_'' @ [ch]) @ r" "token_char ch"
    using assms(2) unfolding token_starts_def by blast
  have q: "list_all token_char (''lfr_pat_'' @ [ch])"
    using e(2) by (simp add: token_char_def is_word_def is_letter_def code_of_def)
  have "replace_matches m prev (c # cs) = (''lfr_pat_'' @ [ch]) @ r" using e(1) assms(3) by (simp only: replace_matches_skip)
  from prefix_of_replaced [OF assms(1) q this] show ?thesis using e(2) unfolding token_starts_def by blast
qed

lemma displays_drop:
  "0 < n \<Longrightarrow> n \<le> length s \<Longrightarrow> displays m (Some (s ! (n - 1))) (drop n s) \<Longrightarrow> displays m prev s"
proof (induction s arbitrary: prev n)
  case (Cons c cs)
  show ?case
  proof (cases "n = 1")
    case True
    then show ?thesis using Cons.prems by simp
  next
    case False
    then obtain k where "n = Suc (Suc k)" using Cons.prems(1) by (metis One_nat_def not_gr_zero old.nat.exhaust)
    then show ?thesis using Cons.IH [of "Suc k" "Some c"] Cons.prems by simp
  qed
qed simp

lemma displays_inert:
  "CHR ''l'' \<notin> set u \<Longrightarrow> u \<noteq> [] \<Longrightarrow> displays pat_pattern prev (u @ w) = displays pat_pattern (Some (last u)) w"
proof (induction u arbitrary: prev)
  case (Cons a u)
  have "pat_pattern prev (a # u @ w) = None"
    using Cons.prems(1) token_starts_hd [of "a # u @ w"] unfolding pat_pattern_None by auto
  then show ?case using Cons by (cases u) auto
qed simp

text \<open>A start of the match that is kept displays what the text itself displays there.\<close>

lemma displays_kept:
  assumes "displays pat_pattern prev' (u @ x # w)" "\<not> token_char x"
    and "word_before prev' = word_before prev \<or> \<not> token_starts (u @ v)"
  shows "displays pat_pattern prev (u @ v) \<or> (\<exists>p. displays pat_pattern p (x # w))"
  using assms(1,3)
proof (induction u arbitrary: prev prev')
  case (Cons a u)
  show ?case
  proof (cases "pat_pattern prev' (a # u @ x # w) = None")
    case True
    then have "displays pat_pattern (Some a) (u @ v) \<or> (\<exists>p. displays pat_pattern p (x # w))"
      using Cons.IH [of "Some a" "Some a"] Cons.prems(1) by simp
    then show ?thesis by auto
  next
    case False
    then have t: "\<not> word_before prev'" "token_starts ((a # u) @ v)"
      using token_before_stop [of "a # u" x w v] assms(2) unfolding pat_pattern_None by auto
    then have "pat_pattern prev (a # u @ v) \<noteq> None" using Cons.prems(2) unfolding pat_pattern_None by auto
    then show ?thesis by simp
  qed
qed auto

lemma replace_hides:
  assumes "keeps_apart all m"
    and "all \<and> (\<forall>p s. m p s = None \<longrightarrow> pat_pattern p s = None) \<or> \<not> displays pat_pattern prev s"
    and "word_before prev' = word_before prev \<or> \<not> token_starts s"
  shows "\<not> displays pat_pattern prev' (replace_matches m prev s)"
  using assms
proof (induction prev s arbitrary: prev' rule: replace_induct)
  case (done_ prev)
  then show ?case by simp
next
  case (skip prev c cs)
  have "pat_pattern prev (c # cs) = None"
    using skip.prems(1) skip.hyps by (cases "pat_pattern prev (c # cs)") fastforce+
  then have "pat_pattern prev' (c # replace_matches m (Some c) cs) = None"
    using token_of_replaced [OF assms(1) _ skip.hyps] skip.prems(2) unfolding pat_pattern_None by blast
  moreover have "\<not> displays pat_pattern (Some c) (replace_matches m (Some c) cs)"
    using skip.IH [of "Some c"] skip.prems(1) by auto
  ultimately show ?case by (simp add: replace_matches_skip [where m = m, OF skip.hyps])
next
  case (match prev s n standin)
  obtain j x t where standin: "all \<longrightarrow> j = 0" "standin = take j s @ x # t" "\<not> token_char x" "CHR ''l'' \<notin> set (x # t)"
      "token_starts (drop n s) \<longrightarrow> is_word (last (x # t)) = is_word (s ! (n - 1))"
    using keeps_apartD [OF assms(1) match.hyps(1)] unfolding apart_def by blast
  let ?R = "replace_matches m (Some (s ! (n - 1))) (drop n s)"
  have "all \<and> (\<forall>p s. m p s = None \<longrightarrow> pat_pattern p s = None) \<or> \<not> displays pat_pattern (Some (s ! (n - 1))) (drop n s)"
    using match.prems(1) displays_drop [OF match.hyps(2,3), of pat_pattern prev] by blast
  moreover have "word_before (Some (last (x # t))) = word_before (Some (s ! (n - 1))) \<or> \<not> token_starts (drop n s)"
    using standin(5) by (simp only: option.case) blast
  ultimately have rest: "\<not> displays pat_pattern (Some (last (x # t))) ?R" by (rule match.IH)
  have inert: "\<not> displays pat_pattern p (x # (t @ ?R))" for p
    using displays_inert [OF standin(4), of p ?R] rest by simp
  have "\<not> displays pat_pattern prev' (take j s @ x # (t @ ?R))"
  proof
    assume d: "displays pat_pattern prev' (take j s @ x # (t @ ?R))"
    have "displays pat_pattern prev (take j s @ drop j s) \<or> (\<exists>p. displays pat_pattern p (x # (t @ ?R)))"
      using displays_kept [OF d standin(3), of prev "drop j s"] match.prems(2) by simp
    then show False using inert standin(1) match.prems(1) d by auto
  qed
  then show ?case
    by (simp only: replace_matches_match [where m = m, OF match.hyps(1-3)] standin(2) append_assoc append_Cons not_False_eq_True)
qed

lemma no_token_after_run:
  assumes "P (CHR ''l'')"
  shows "\<not> token_starts (drop (length (takeWhile P xs)) xs)"
proof
  assume "token_starts (drop (length (takeWhile P xs)) xs)"
  then obtain r where "dropWhile P xs = CHR ''l'' # r" using token_starts_hd by (auto simp: dropWhile_eq_drop)
  then show False using hd_dropWhile [of P xs] assms by (cases "dropWhile P xs") auto
qed

lemma run_fits: "length (takeWhile P (drop k s)) \<le> length s - k"
  using length_takeWhile_le [of P "drop k s"] by simp

lemmas pattern_chars = token_char_def bearer_char_def query_value_char_def pattern_space_def is_word_def is_letter_def
  is_decimal_def code_of_def redacted_placeholder_def

lemma pat_keeps_apart: "keeps_apart True pat_pattern"
  unfolding keeps_apart_def
proof (intro allI impI)
  fix prev s n standin
  assume "pat_pattern prev s = Some (n, standin)"
  then have m: "n = 8 + length (takeWhile token_char (drop 8 s))" "standin = redacted_placeholder" "has_prefix s ''lfr_pat_''"
      "0 < length (takeWhile token_char (drop 8 s))"
    by (auto simp: pat_pattern_def Let_def split: if_splits)
  have "8 \<le> length s" using m(4) run_fits [of token_char 8 s] by linarith
  then have "n \<le> length s" using m(1) run_fits [of token_char 8 s] by linarith
  moreover have "\<not> token_starts (drop n s)"
    using no_token_after_run [of token_char "drop 8 s"] by (simp add: m(1) add.commute pattern_chars)
  ultimately show "apart True s n standin"
    unfolding apart_def using m(1)
    by (intro conjI exI [of _ "0::nat"] exI [of _ "CHR ''[''"] exI [of _ "''REDACTED]''"]) (simp_all add: m(2) pattern_chars)
qed

lemma bearer_keeps_apart: "keeps_apart False bearer_pattern"
  unfolding keeps_apart_def
proof (intro allI impI)
  fix prev s n standin
  assume "bearer_pattern prev s = Some (n, standin)"
  then obtain w where h: "bearer_pattern prev s = Some (n, standin)"
      and w: "List.find (\<lambda>w. has_prefix (to_lower s) w) [''bearer'', ''basic''] = Some w"
    unfolding bearer_pattern_def by (auto split: option.splits simp del: find.simps)
  define sp where "sp = length (takeWhile pattern_space (drop (length w) s))"
  define k where "k = length (takeWhile bearer_char (drop (length w + sp) s))"
  have m: "sp = length (takeWhile pattern_space (drop (length w) s))" "k = length (takeWhile bearer_char (drop (length w + sp) s))"
      "0 < sp" "8 \<le> k" "n = length w + sp + k" "standin = take (length w) s @ '' '' @ redacted_placeholder"
    using h unfolding bearer_pattern_def w option.case Let_def sp_def [symmetric] k_def [symmetric] by (simp_all add: sp_def k_def split: if_splits)
  have "n \<le> length s"
    using m(2,4,5) run_fits [of bearer_char "length w + sp" s] by linarith
  moreover have "\<not> token_starts (drop n s)"
    using no_token_after_run [of bearer_char "drop (length w + sp) s"] by (simp add: m(2,5) add.commute pattern_chars)
  ultimately show "apart False s n standin"
    unfolding apart_def using m(3-5)
    by (intro conjI exI [of _ "length w"] exI [of _ "CHR '' ''"] exI [of _ "redacted_placeholder"]) (simp_all add: m(6) pattern_chars)
qed

lemma query_keeps_apart: "keeps_apart False query_credential_pattern"
  unfolding keeps_apart_def
proof (intro allI impI)
  fix prev s n standin
  assume "query_credential_pattern prev s = Some (n, standin)"
  then obtain w where h: "query_credential_pattern prev s = Some (n, standin)"
      and w: "List.find (\<lambda>w. has_prefix (to_lower s) (w @ ''='')) query_names = Some w"
    by (auto simp: query_credential_pattern_def split: option.splits)
  define k where "k = length (takeWhile query_value_char (drop (length w + 1) s))"
  have m: "k = length (takeWhile query_value_char (drop (length w + 1) s))" "0 < k" "n = length w + 1 + k"
      "standin = take (length w) s @ ''='' @ redacted_placeholder"
    using h by (simp_all add: query_credential_pattern_def w Let_def k_def split: if_splits)
  have "n \<le> length s" using m(1-3) run_fits [of query_value_char "length w + 1" s] by linarith
  moreover have "\<not> token_starts (drop n s)"
    using no_token_after_run [of query_value_char "drop (length w + 1) s"] by (simp add: m(1,3) add.commute pattern_chars)
  ultimately show "apart False s n standin"
    unfolding apart_def using m(2,3)
    by (intro conjI exI [of _ "length w"] exI [of _ "CHR ''=''"] exI [of _ "redacted_placeholder"]) (simp_all add: m(4) pattern_chars)
qed

lemma url_keeps_apart: "keeps_apart False url_credential_pattern"
  unfolding keeps_apart_def
proof (intro allI impI)
  fix prev s n standin
  assume "url_credential_pattern prev s = Some (n, standin)"
  then have h: "url_credential_pattern prev s = Some (n, standin)" .
  then obtain c cs where s: "s = c # cs" by (cases s) (simp_all add: url_credential_pattern_def)
  define start where "start = Suc (length (takeWhile scheme_char cs)) + 3"
  define user where "user = length (takeWhile url_user_char (drop start s))"
  define secret where "secret = length (takeWhile url_secret_char (drop (start + user + 1) s))"
  define finish where "finish = start + user + 1 + secret"
  note lets = start_def [symmetric] user_def [symmetric] secret_def [symmetric] finish_def [symmetric]
  have m: "start < finish" "has_prefix (drop finish s) ''@''" "n = finish + 1" "standin = take start s @ redacted_placeholder @ ''@''"
    using h by (simp_all only: url_credential_pattern_def s list.case Let_def lets [unfolded s]) (simp_all add: finish_def s split: if_splits)
  then obtain r where r: "drop finish s = CHR ''@'' # r" using has_prefix_iff [of "drop finish s" "''@''"] by auto
  have "n \<le> length s" using r m(3) by (cases "finish < length s") auto
  moreover have "s ! finish = CHR ''@''" using r by (metis nth_via_drop)
  ultimately show "apart False s n standin"
    unfolding apart_def using m(1,3)
    by (intro conjI exI [of _ start] exI [of _ "CHR ''[''"] exI [of _ "''REDACTED]@''"]) (simp_all add: m(4) pattern_chars)
qed

text \<open>
  No access token leaves in a collected text. Wherever in a text a token stands at the start of a word, it is gone from
  what the redaction makes of it, and what the other three replacements put in does not bring another about.
\<close>

lemma redact_text_hides: "\<not> displays pat_pattern None (redact_text s)"
proof -
  let ?a = "replace_matches pat_pattern None s"
  let ?u = "replace_matches url_credential_pattern None ?a"
  let ?b = "replace_matches bearer_pattern None ?u"
  have "\<not> displays pat_pattern None ?a" by (rule replace_hides [OF pat_keeps_apart]) simp_all
  then have "\<not> displays pat_pattern None ?u" by (intro replace_hides [OF url_keeps_apart]) simp_all
  then have "\<not> displays pat_pattern None ?b" by (intro replace_hides [OF bearer_keeps_apart]) simp_all
  then have "\<not> displays pat_pattern None (replace_matches query_credential_pattern None ?b)"
    by (intro replace_hides [OF query_keeps_apart]) simp_all
  then show ?thesis by (simp add: redact_text_def)
qed

section \<open>Fields and lines\<close>

lemma redact_text_shows_none: "\<not> shows_token (redact_text s)"
  using redact_text_hides displays_token by blast

text \<open>
  What is asked of the fields of an event: a field named for a secret holds the placeholder only, a text holds no token,
  and so on into objects; of an array, the texts directly in it.
\<close>

fun item_safe :: "json \<Rightarrow> bool" where
  "item_safe (J_string s) \<longleftrightarrow> \<not> shows_token s"
| "item_safe _ \<longleftrightarrow> True"

function fields_safe :: "(string \<times> json) list \<Rightarrow> bool" and value_safe :: "json \<Rightarrow> bool" where
  "fields_safe [] \<longleftrightarrow> True"
| "fields_safe ((k, v) # rest) \<longleftrightarrow>
     (if looks_like_secret_name k then v = J_string redacted_placeholder else value_safe v) \<and> fields_safe rest"
| "value_safe (J_string s) \<longleftrightarrow> \<not> shows_token s"
| "value_safe (J_object m) \<longleftrightarrow> fields_safe m"
| "value_safe (J_array xs) \<longleftrightarrow> list_all item_safe xs"
| "value_safe J_null \<longleftrightarrow> True"
| "value_safe (J_bool b) \<longleftrightarrow> True"
| "value_safe (J_number n) \<longleftrightarrow> True"
  by pat_completeness auto
termination
  by (relation "measure (\<lambda>x. case x of Inl m \<Rightarrow> size_list (size_prod (\<lambda>_. 0) size) m | Inr v \<Rightarrow> size v)") auto

lemma redact_item_safe: "item_safe (redact_item v)"
  by (cases v) (simp_all add: redact_text_shows_none)

lemma redacted_safe: "fields_safe (redact_fields m)" "value_safe (redact_value v)"
  by (induction m and v rule: redact_fields_redact_value.induct)
     (simp_all add: redact_text_shows_none list_all_iff redact_item_safe)

definition event_line_safe :: "codec \<Rightarrow> string \<Rightarrow> bool" where
  "event_line_safe cd line \<longleftrightarrow>
     \<not> shows_token line \<or>
     (\<exists>e. cd_writeEvent cd e = Some line \<and> \<not> shows_token (ve_event e) \<and>
          (\<forall>m. ve_fields e = Some m \<longrightarrow> fields_safe m))"

definition traffic_line_safe :: "codec \<Rightarrow> string \<Rightarrow> bool" where
  "traffic_line_safe cd line \<longleftrightarrow>
     (\<exists>e. cd_writeTraffic cd e = Some line \<and> te_reqBody e = [] \<and> te_respBody e = [] \<and> \<not> shows_token (te_path e))"

definition line_safe :: "codec \<Rightarrow> log_kind \<Rightarrow> string \<Rightarrow> bool" where
  "line_safe cd kind line \<longleftrightarrow>
     (case kind of Kind_console \<Rightarrow> \<not> shows_token line
      | Kind_error \<Rightarrow> event_line_safe cd line
      | Kind_traffic \<Rightarrow> traffic_line_safe cd line)"

lemma redact_path_hides: "\<not> shows_token (redact_path cd p)"
proof -
  have "\<not> shows_token []" by (simp add: shows_token_def)
  then show ?thesis by (auto simp: redact_path_def redact_text_shows_none split: option.split)
qed

lemma redact_line_safe:
  assumes "redact_line cd kind line = Some out"
  shows "line_safe cd kind out"
proof (cases kind)
  case Kind_console
  then show ?thesis using assms by (auto simp: redact_line_def line_safe_def redact_text_shows_none)
next
  case Kind_traffic
  then obtain e where "cd_writeTraffic cd (e\<lparr>te_reqBody := [], te_respBody := [], te_path := redact_path cd (te_path e)\<rparr>) = Some out"
    using assms by (auto simp: redact_line_def redact_traffic_line_def split: option.splits)
  then show ?thesis
    unfolding line_safe_def Kind_traffic log_kind.case traffic_line_safe_def
    by (intro exI conjI) (assumption, simp_all add: redact_path_hides)
next
  case Kind_error
  then have out: "redact_event_line cd line = out" using assms by (simp add: redact_line_def)
  have "event_line_safe cd (redact_event_line cd line)"
  proof (cases "cd_readEvent cd line")
    case None
    then show ?thesis by (simp add: redact_event_line_def event_line_safe_def redact_text_shows_none)
  next
    case (Some e)
    let ?e = "e\<lparr>ve_event := redact_text (ve_event e), ve_fields := map_option redact_fields (ve_fields e)\<rparr>"
    show ?thesis
    proof (cases "cd_writeEvent cd ?e")
      case None
      then show ?thesis using Some by (simp add: redact_event_line_def event_line_safe_def redact_text_shows_none)
    next
      case (Some w)
      then show ?thesis
        using \<open>cd_readEvent cd line = Some e\<close> unfolding event_line_safe_def
        by (intro disjI2 exI [of _ ?e]) (auto simp: redact_event_line_def redact_text_shows_none redacted_safe)
    qed
  qed
  then show ?thesis using out Kind_error by (simp add: line_safe_def)
qed

section \<open>The newest lines that fit\<close>

definition lines_size :: "string list \<Rightarrow> int" where
  "lines_size ls = sum_list (map (\<lambda>l. int (length l) + 1) ls)"

fun newest_that_fit :: "int \<Rightarrow> string list \<Rightarrow> string list" where
  "newest_that_fit budget [] = []"
| "newest_that_fit budget (l # ls) = (if budget < lines_size (l # ls) then newest_that_fit budget ls else l # ls)"

lemma lines_size_simps [simp]:
  "lines_size [] = 0" "lines_size (l # ls) = int (length l) + 1 + lines_size ls"
  "lines_size (xs @ ys) = lines_size xs + lines_size ys"
  by (simp_all add: lines_size_def)

lemma lines_size_nonneg [simp]: "0 \<le> lines_size ls"
  by (induction ls) simp_all

lemma newest_size: "0 \<le> budget \<Longrightarrow> lines_size (newest_that_fit budget ls) \<le> budget"
  by (induction ls) auto

lemma newest_longest:
  "\<exists>older. ls = older @ newest_that_fit budget ls \<and> (older = [] \<or> budget < lines_size (last older # newest_that_fit budget ls))"
proof (induction ls)
  case (Cons l ls)
  then obtain older where IH: "ls = older @ newest_that_fit budget ls"
      "older = [] \<or> budget < lines_size (last older # newest_that_fit budget ls)" by blast
  show ?case
  proof (cases "budget < lines_size (l # ls)")
    case True
    then show ?thesis using IH by (intro exI [of _ "l # older"]) (cases older, auto)
  qed simp
qed simp

lemma newest_length: "length (newest_that_fit budget ls) \<le> length ls"
  by (induction ls) auto

lemma newest_subset: "set (newest_that_fit budget ls) \<subseteq> set ls"
  using newest_longest [of ls budget] by (metis Un_upper2 set_append)

lemma newest_snoc: "newest_that_fit budget (newest_that_fit budget ls @ [x]) = newest_that_fit budget (ls @ [x])"
  by (induction ls) auto

lemma shrink_kept_is:
  "shrink_kept budget (ls, lines_size ls, clipped) =
   (newest_that_fit budget ls, lines_size (newest_that_fit budget ls), clipped \<or> newest_that_fit budget ls \<noteq> ls)"
proof (induction ls arbitrary: clipped)
  case (Cons l ls)
  have "newest_that_fit budget ls \<noteq> l # ls"
    using newest_longest [of ls budget] by (metis append_Cons append_eq_append_conv list.distinct(1) not_Cons_self2 append_assoc append_Nil self_append_conv2)
  then show ?case using Cons [of True] by simp
qed simp

definition redacted_lines :: "codec \<Rightarrow> log_kind \<Rightarrow> string list \<Rightarrow> string list" where
  "redacted_lines cd kind rows = List.map_filter (redact_line cd kind) (filter (\<lambda>l. l \<noteq> []) (map trim_space rows))"

definition lost_lines :: "codec \<Rightarrow> log_kind \<Rightarrow> string list \<Rightarrow> nat" where
  "lost_lines cd kind rows = length (filter (\<lambda>l. l \<noteq> [] \<and> redact_line cd kind l = None) (map trim_space rows))"

definition collected :: "codec \<Rightarrow> log_kind \<Rightarrow> int \<Rightarrow> string list \<Rightarrow> collection" where
  "collected cd kind budget rows =
     (let red = redacted_lines cd kind rows; kept = newest_that_fit budget red
      in \<lparr>co_kept = kept, co_keptBytes = lines_size kept, co_truncated = (kept \<noteq> red), co_droppedLines = lost_lines cd kind rows\<rparr>)"

lemma newest_whole_snoc: "newest_that_fit budget (ls @ [x]) = ls @ [x] \<Longrightarrow> newest_that_fit budget ls = ls"
proof (cases ls)
  case (Cons l rest)
  assume "newest_that_fit budget (ls @ [x]) = ls @ [x]"
  then show ?thesis using Cons newest_length [of budget "rest @ [x]"] by (auto split: if_splits)
qed simp

lemma newest_snoc_whole:
  "newest_that_fit budget (newest_that_fit budget ls @ [x]) = newest_that_fit budget ls @ [x] \<and> newest_that_fit budget ls = ls \<longleftrightarrow>
   newest_that_fit budget (ls @ [x]) = ls @ [x]"
  using newest_whole_snoc [of budget ls x] newest_snoc [of budget ls x] by auto

lemma collect_line_snoc: "collect_line cd kind budget raw (collected cd kind budget rows) = collected cd kind budget (rows @ [raw])"
proof (cases "trim_space raw = [] \<or> redact_line cd kind (trim_space raw) = None")
  case True
  then show ?thesis
    by (auto simp: collect_line_def collected_def redacted_lines_def lost_lines_def Let_def map_filter_def)
next
  case False
  then obtain red where red: "trim_space raw \<noteq> []" "redact_line cd kind (trim_space raw) = Some red" by blast
  let ?ls = "redacted_lines cd kind rows"
  let ?k = "newest_that_fit budget ?ls"
  have app: "redacted_lines cd kind (rows @ [raw]) = ?ls @ [red]" "lost_lines cd kind (rows @ [raw]) = lost_lines cd kind rows"
    using red by (simp_all add: redacted_lines_def lost_lines_def map_filter_def)
  have "shrink_kept budget (?k @ [red], lines_size ?k + int (length red) + 1, ?k \<noteq> ?ls) =
      (newest_that_fit budget (?ls @ [red]), lines_size (newest_that_fit budget (?ls @ [red])),
       newest_that_fit budget (?ls @ [red]) \<noteq> ?ls @ [red])"
    using shrink_kept_is [of budget "?k @ [red]" "?k \<noteq> ?ls"] newest_snoc_whole [of budget ?ls red]
    by (simp add: newest_snoc add.assoc) blast
  then show ?thesis using red app by (simp add: collect_line_def collected_def Let_def)
qed

lemma fold_collect_line:
  "fold (collect_line cd kind budget) rows (collected cd kind budget done) = collected cd kind budget (done @ rows)"
  by (induction rows arbitrary: "done") (simp_all add: collect_line_snoc)

lemma collected_Nil: "collected cd kind budget [] = \<lparr>co_kept = [], co_keptBytes = 0, co_truncated = False, co_droppedLines = 0\<rparr>"
  by (simp add: collected_def redacted_lines_def lost_lines_def map_filter_def)

definition written :: "string list \<Rightarrow> string" where
  "written ls = concat (map (\<lambda>l. l @ [CHR 0x0A]) ls)"

definition note_of :: "nat \<Rightarrow> string" where
  "note_of n = (if 0 < n then dropped_note n else [])"

lemma collect_one_is:
  "scan_lines max_scan_line content = (rows, broken) \<Longrightarrow>
   collect_one cd kind budget content =
     (let red = redacted_lines cd kind rows; kept = newest_that_fit budget red; lost = lost_lines cd kind rows
      in \<lparr>rl_kind = kind, rl_content = written kept @ note_of lost, rl_truncated = (kept \<noteq> red \<or> broken), rl_droppedLines = lost\<rparr>)"
  using fold_collect_line [of cd kind budget rows "[]", unfolded collected_Nil]
  by (simp add: collect_one_def collected_def Let_def written_def note_of_def)

lemma redacted_lines_safe: "line \<in> set (redacted_lines cd kind rows) \<Longrightarrow> line_safe cd kind line"
  by (auto simp: redacted_lines_def map_filter_def intro: redact_line_safe)

text \<open>C27: What is kept of a log is the longest run of its newest lines within the budget. The lines that were read, each with
  its secrets removed, fall into an older and a newer part; the newer part fits, one more line would not, and it is what is
  written, followed by the count of the lines that could not be read when there are any. The log is marked as cut exactly
  when an older line was left out or the reading broke off.
\<close>
theorem collected_log_exact:
  assumes "scan_lines max_scan_line content = (rows, broken)" "0 \<le> budget"
  shows "\<exists>older kept. redacted_lines cd kind rows = older @ kept \<and> lines_size kept \<le> budget \<and>
    (older = [] \<or> budget < lines_size (last older # kept)) \<and>
    collect_one cd kind budget content =
      \<lparr>rl_kind = kind, rl_content = written kept @ note_of (lost_lines cd kind rows),
       rl_truncated = (older \<noteq> [] \<or> broken), rl_droppedLines = lost_lines cd kind rows\<rparr>"
proof -
  let ?red = "redacted_lines cd kind rows"
  obtain older where o: "?red = older @ newest_that_fit budget ?red"
      "older = [] \<or> budget < lines_size (last older # newest_that_fit budget ?red)"
    using newest_longest [of ?red budget] by blast
  moreover have "newest_that_fit budget ?red \<noteq> ?red \<longleftrightarrow> older \<noteq> []" using o(1) by (metis append_self_conv2)
  ultimately show ?thesis
    using newest_size [OF assms(2), of ?red] collect_one_is [OF assms(1), of cd kind budget]
    by (intro exI [of _ older] exI [of _ "newest_that_fit budget ?red"]) (simp add: Let_def)
qed

section \<open>The upload\<close>

lemma collect_logs_safe:
  "collect_logs cd files remaining wanted = Some logs \<Longrightarrow> l \<in> set logs \<Longrightarrow>
   \<exists>kept lost. rl_content l = written kept @ note_of lost \<and> (\<forall>line\<in>set kept. line_safe cd (rl_kind l) line)"
proof (induction wanted arbitrary: remaining logs)
  case (Cons w wanted)
  obtain kind name where w: "w = (kind, name)" by (cases w)
  have one: "\<exists>kept lost. rl_content (collect_one cd kind remaining s) = written kept @ note_of lost \<and>
      (\<forall>line\<in>set kept. line_safe cd (rl_kind (collect_one cd kind remaining s)) line)" for s
  proof -
    obtain rows broken where sc: "scan_lines max_scan_line s = (rows, broken)" by (cases "scan_lines max_scan_line s")
    show ?thesis
      using collect_one_is [OF sc, of cd kind remaining] newest_subset redacted_lines_safe
      by (simp add: Let_def) blast
  qed
  show ?case using Cons one by (auto simp: w Let_def split: if_splits log_read.splits)
qed simp

text \<open>A collection takes no secret that the redaction knows with it. Of every log in the request a client sends, each line
  is safe: a line of the console shows no access token; a line of the event log is the rendering of an event whose
  description and texts show none and whose fields named for a secret hold the placeholder only, or it is a text that shows
  none; a line of the traffic log is the rendering of an entry without the bodies of the request and the answer.
\<close>
theorem upload_carries_no_secret:
  assumes "upload_diagnostics_bundle cd dir send serverURL token subdomain requestID = (Some req, outcome)"
    "l \<in> set (bu_logs (uq_payload req))"
  shows "\<exists>kept lost. rl_content l = written kept @ note_of lost \<and> (\<forall>line\<in>set kept. line_safe cd (rl_kind l) line)"
  using assms collect_logs_safe
  by (auto simp: upload_diagnostics_bundle_def collect_redacted_logs_def Let_def split: option.splits list.splits if_splits)

lemma written_length: "int (length (written ls)) = lines_size ls"
  by (induction ls) (simp_all add: written_def)

lemma collect_one_size:
  assumes "0 \<le> budget"
  shows "int (length (rl_content (collect_one cd kind budget s))) \<le>
    budget + int (length (note_of (rl_droppedLines (collect_one cd kind budget s))))"
proof -
  obtain rows broken where sc: "scan_lines max_scan_line s = (rows, broken)" by (cases "scan_lines max_scan_line s")
  show ?thesis using collect_one_is [OF sc, of cd kind budget] newest_size [OF assms] by (simp add: Let_def written_length)
qed

text \<open>All the logs of a collection are within the budget, the counts of unreadable lines apart.\<close>

lemma collection_bounded:
  "collect_logs cd files remaining wanted = Some logs \<Longrightarrow>
   (\<Sum>l\<leftarrow>logs. int (length (rl_content l))) \<le> max 0 remaining + (\<Sum>l\<leftarrow>logs. int (length (note_of (rl_droppedLines l))))"
proof (induction wanted arbitrary: remaining logs)
  case (Cons w wanted)
  obtain kind name where w: "w = (kind, name)" by (cases w)
  show ?case
  proof (cases "files name")
    case (Log_content s)
    let ?l = "collect_one cd kind remaining s"
    show ?thesis
    proof (cases "remaining \<le> 0 \<or> rl_content ?l = [] \<and> rl_droppedLines ?l = 0")
      case True
      then show ?thesis
        using Cons.prems Cons.IH [of remaining logs] Log_content by (auto simp: w Let_def split: if_splits)
    next
      case False
      then obtain rest where r: "logs = ?l # rest"
          "collect_logs cd files (remaining - int (length (rl_content ?l))) wanted = Some rest"
        using Cons.prems Log_content by (auto simp: w Let_def)
      show ?thesis
        using Cons.IH [OF r(2)] False collect_one_size [of remaining cd kind s] unfolding r(1) by simp
    qed
  qed (use Cons.prems Cons.IH [of remaining logs] in \<open>auto simp: w split: if_splits\<close>)
qed simp

section \<open>Acting once\<close>

datatype ack_event = Commands_arrive "wire_command list" | Acks_leave

text \<open>The collections that are started, the acknowledgements that left, and the state after them.\<close>

fun ack_run :: "ack_event list \<Rightarrow> ack_state \<Rightarrow> string list \<times> string list \<times> ack_state" where
  "ack_run [] a = ([], [], a)"
| "ack_run (Commands_arrive cs # es) a =
     (case note_diagnostics_commands cs a of (fresh, a1) \<Rightarrow>
        (case ack_run es a1 of (started, acked, a2) \<Rightarrow> (map fst fresh @ started, acked, a2)))"
| "ack_run (Acks_leave # es) a =
     (case take_diagnostics_acks a of (acks, a1) \<Rightarrow>
        (case ack_run es a1 of (started, acked, a2) \<Rightarrow> (started, acks @ acked, a2)))"

fun arrived :: "ack_event list \<Rightarrow> string set" where
  "arrived [] = {}"
| "arrived (Commands_arrive cs # es) = fst ` set cs \<union> arrived es"
| "arrived (Acks_leave # es) = arrived es"

lemma note_commands:
  assumes "note_diagnostics_commands cs a = (fresh, a1)"
  shows "distinct (map fst fresh)" "set (map fst fresh) = fst ` set cs - set (ak_seen a)"
    "set (ak_seen a1) = set (ak_seen a) \<union> fst ` set cs" "set (ak_pending a1) = set (ak_pending a) \<union> fst ` set cs"
proof -
  have "distinct (map fst fresh) \<and> set (map fst fresh) = fst ` set cs - set (ak_seen a) \<and>
    set (ak_seen a1) = set (ak_seen a) \<union> fst ` set cs \<and> set (ak_pending a1) = set (ak_pending a) \<union> fst ` set cs"
    using assms
  proof (induction cs a arbitrary: fresh a1 rule: note_diagnostics_commands.induct)
    case (2 i t cs a)
    show ?case
    proof (cases "i \<in> set (ak_seen a)")
      case True
      then show ?thesis using 2(1) [OF refl] 2(3) by (auto simp: Let_def)
    next
      case False
      obtain rest a2 where r: "note_diagnostics_commands cs (a\<lparr>ak_pending := ak_pending a @ [i], ak_seen := i # ak_seen a\<rparr>) = (rest, a2)"
        by fastforce
      then have "fresh = (i, t) # rest" "a1 = a2" using 2(3) False by (auto simp: Let_def)
      then show ?thesis using 2(2) [OF refl False, of rest a2] r False by auto
    qed
  qed simp
  then show "distinct (map fst fresh)" "set (map fst fresh) = fst ` set cs - set (ak_seen a)"
    "set (ak_seen a1) = set (ak_seen a) \<union> fst ` set cs" "set (ak_pending a1) = set (ak_pending a) \<union> fst ` set cs" by auto
qed

lemma first_occurrences: "set (first_occurrences seen is) = set is - set seen" "distinct (first_occurrences seen is)"
  by (induction seen "is" rule: first_occurrences.induct) auto

text \<open>A request to collect is acted on once and acknowledged. Over any course of answers to the heartbeats and of
  acknowledgements leaving, the collections started are the identifiers that arrived and had not been seen, each once,
  however often an answer repeats them; and every identifier that arrived, or was waiting, has left as an acknowledgement
  or waits for the next heartbeat.
\<close>
theorem collection_started_once:
  assumes "ack_run es a = (started, acked, a')"
  shows "distinct started \<and> set started = arrived es - set (ak_seen a) \<and>
    set acked \<union> set (ak_pending a') = arrived es \<union> set (ak_pending a)"
proof -
  have "distinct started \<and> set started = arrived es - set (ak_seen a) \<and>
    set acked \<union> set (ak_pending a') = arrived es \<union> set (ak_pending a) \<and> set (ak_seen a') = set (ak_seen a) \<union> arrived es"
    using assms
  proof (induction es a arbitrary: started acked a' rule: ack_run.induct)
    case (2 cs es a)
    obtain fresh a1 where n: "note_diagnostics_commands cs a = (fresh, a1)" by fastforce
    obtain st ac a2 where r: "ack_run es a1 = (st, ac, a2)" by (cases "ack_run es a1")
    define ids where "ids = fst ` set cs"
    have "arrived (Commands_arrive cs # es) = ids \<union> arrived es" by (simp add: ids_def)
    then show ?case using 2(1) [OF n [symmetric] r] note_commands [OF n, folded ids_def] 2(2) n r by auto
  next
    case (3 es a)
    obtain acks a1 where n: "take_diagnostics_acks a = (acks, a1)" by fastforce
    obtain st ac a2 where r: "ack_run es a1 = (st, ac, a2)" by (cases "ack_run es a1")
    show ?case using 3(1) [OF n [symmetric] r] first_occurrences [of "[]" "ak_pending a"] 3(2) n r
      by (auto simp: take_diagnostics_acks_def)
  qed simp
  then show ?thesis by blast
qed

section \<open>What is let through\<close>

text \<open>
  A credential whose parameter only ends in a word of the list, the session token of this program among them, passes the
  redaction of texts, since no word begins where the listed one does; so does an access token after a letter, a digit or an
  underscore. An object inside an array keeps its fields as they are. And a newest line longer than the budget empties the
  log without a trace of it.
\<close>

lemma redaction_gaps:
  "redact_text ''session_token=s'' = ''session_token=s''"
  "redact_text ''client_secret=s'' = ''client_secret=s''"
  "redact_text ''id_lfr_pat_a'' = ''id_lfr_pat_a''"
  "redact_value (J_array [J_object [(''password'', J_string ''s3cr3t'')]]) = J_array [J_object [(''password'', J_string ''s3cr3t'')]]"
  by code_simp+

lemma oversized_line_empties_log:
  "rl_content (collect_one cd Kind_console 4 (''ab'' @ [CHR 0x0A] @ ''cdefg'')) = [] \<and> rl_truncated (collect_one cd Kind_console 4 (''ab'' @ [CHR 0x0A] @ ''cdefg''))"
  by code_simp

definition ex_codec :: codec where
  "ex_codec = \<lparr>cd_query = \<lambda>_. None, cd_withQuery = \<lambda>p _. p, cd_readTraffic = \<lambda>_. None, cd_writeTraffic = \<lambda>_. None,
     cd_readEvent = \<lambda>_. None, cd_writeEvent = \<lambda>_. None\<rparr>"

definition ex_log :: string where "ex_log = ''got lfr_pat_ab1'' @ [CHR 0x0A]"

lemma ex_collected:
  "fst (upload_diagnostics_bundle ex_codec (Some (\<lambda>name. if name = ''client-shop.log'' then Log_content ex_log else Log_missing))
     (\<lambda>_. Some 200) ''https://gw/'' ''tok'' ''shop'' ''r1'') =
   Some \<lparr>uq_url = ''https://gw/api/client/diagnostics/upload'', uq_sessionToken = ''tok'',
     uq_payload = \<lparr>bu_requestID = ''r1'', bu_logs =
       [\<lparr>rl_kind = Kind_console, rl_content = ''got [REDACTED]'' @ [CHR 0x0A],
         rl_truncated = False, rl_droppedLines = 0\<rparr>]\<rparr>\<rparr>"
  by code_simp

theorem collected_log_exact_witness:
  "\<exists>older kept. redacted_lines ex_codec Kind_console [''ab'', ''cd''] = older @ kept \<and> lines_size kept \<le> 4 \<and>
    (older = [] \<or> 4 < lines_size (last older # kept)) \<and>
    collect_one ex_codec Kind_console 4 (''ab'' @ [CHR 0x0A] @ ''cd'') =
      \<lparr>rl_kind = Kind_console, rl_content = written kept @ note_of (lost_lines ex_codec Kind_console [''ab'', ''cd'']),
       rl_truncated = (older \<noteq> []), rl_droppedLines = lost_lines ex_codec Kind_console [''ab'', ''cd'']\<rparr>"
proof -
  have "scan_lines max_scan_line (''ab'' @ [CHR 0x0A] @ ''cd'') = ([''ab'', ''cd''], False)" by code_simp
  from collected_log_exact [OF this, of 4 ex_codec Kind_console] show ?thesis by simp
qed

theorem upload_carries_no_secret_witness:
  "\<exists>kept lost. ''got [REDACTED]'' @ [CHR 0x0A] = written kept @ note_of lost \<and> (\<forall>line\<in>set kept. line_safe ex_codec Kind_console line)"
proof -
  let ?up = "upload_diagnostics_bundle ex_codec (Some (\<lambda>name. if name = ''client-shop.log'' then Log_content ex_log else Log_missing))
     (\<lambda>_. Some 200) ''https://gw/'' ''tok'' ''shop'' ''r1''"
  obtain req out where up: "?up = (Some req, out)" using ex_collected by (cases ?up) auto
  let ?l = "\<lparr>rl_kind = Kind_console, rl_content = ''got [REDACTED]'' @ [CHR 0x0A], rl_truncated = False, rl_droppedLines = 0\<rparr>"
  have "?l \<in> set (bu_logs (uq_payload req))" using ex_collected up by auto
  from upload_carries_no_secret [OF up this] show ?thesis by simp
qed

theorem collection_started_once_witness:
  "\<exists>acked a. ack_run [Commands_arrive [(''r1'', collect_command)], Acks_leave, Commands_arrive [(''r1'', collect_command)]]
     \<lparr>ak_seen = [], ak_pending = []\<rparr> = ([''r1''], acked, a) \<and> set acked \<union> set (ak_pending a) = {''r1''}"
proof -
  let ?es = "[Commands_arrive [(''r1'', collect_command)], Acks_leave, Commands_arrive [(''r1'', collect_command)]]"
  let ?a = "\<lparr>ak_seen = [], ak_pending = []\<rparr>"
  have "ack_run ?es ?a = ([''r1''], [''r1''], \<lparr>ak_seen = [''r1''], ak_pending = [''r1'']\<rparr>)"
    by (simp add: take_diagnostics_acks_def Let_def)
  with collection_started_once [OF this] show ?thesis by auto
qed

end
