(* ===== verification/Diagnostics_Delivery.thy ===== *)
theory Diagnostics_Delivery
  imports Diagnostics_Consent Client_Redact_Facts
begin

text \<open>
  A collection from the command to the store: when a heartbeat carries the command, what an expired one leaves behind, what
  arrives in the store of what the client sent, and where the parts get out of step: an acknowledgement that overtakes the
  upload, a withdrawal the edge does not learn of, one that falls between the check and the store, and a late frame.
\<close>

section \<open>Delivery\<close>

definition consenting :: "string \<Rightarrow> accounts \<Rightarrow> bool" where
  "consenting uid rows \<longleftrightarrow> (case get_user uid rows of None \<Rightarrow> False | Some a \<Rightarrow> consents a)"

lemma allowed_iff:
  "dg_users st = Some rows \<Longrightarrow> diagnostics_collection_allowed (read_user env uid st) \<longleftrightarrow> de_readsUser env \<and> consenting uid rows"
  by (simp add: diagnostics_collection_allowed_def read_user_def consenting_def consents_def split: option.split)

lemma queued_keep: "is_table q \<Longrightarrow> queued_for uid (keep_commands uid cs q) = cs"
  by (simp add: queued_for_def keep_commands_def table_simps)

text \<open>C25: The control plane hands a command to a client within its time and with consent only, and drops and records what it
  does not hand over. For a session whose user has one command waiting, the heartbeat carries it exactly when
  its deadline has not passed and the user, read then, consents; it then stays queued. Otherwise the queue is empty
  afterwards and the audit log names the asker and the reason, when the entry can be written. An edge, which has no
  database, asks for no consent (\<open>withdrawal_stops_at_the_store\<close>).
\<close>
theorem delivery_exact:
  assumes "session_user ls = uid" "uid \<noteq> []" "is_table (dg_commands st)" "queued_for uid (dg_commands st) = [c]"
    "dc_userID c = uid" "dc_id c \<noteq> []" "dg_users st = Some rows"
    "diagnostics_commands_for_session env ls st = (cs, st')"
    "delivered \<longleftrightarrow> de_now env \<le> command_deadline c \<and> de_readsUser env \<and> consenting uid rows"
    "row = \<lparr>ar_actor = dc_requestedBy c, ar_event = (if command_deadline c < de_now env then Collect_expired else Collect_refused),
      ar_target = uid, ar_at = de_now env\<rparr>"
  shows "cs = (if delivered then [c] else []) \<and> queued_for uid (dg_commands st') = cs \<and>
    dg_audit st' = dg_audit st @ (if delivered \<or> \<not> de_audits env row then [] else [row])"
proof (cases "command_deadline c < de_now env")
  case True
  then have "pending_diagnostics_commands (de_now env) uid (dg_commands st) = ([], [c], keep_commands uid [] (dg_commands st))"
    using assms(2,4) by (simp add: pending_diagnostics_commands_def)
  then show ?thesis
    using True assms(1,2,3,5,7-10) by (auto simp: diagnostics_commands_for_session_def Let_def queued_keep audit_expired_def audit_diagnostics_def)
next
  case False
  then have p: "pending_diagnostics_commands (de_now env) uid (dg_commands st) = ([c], [], keep_commands uid [c] (dg_commands st))"
    using assms(2,4) by (simp add: pending_diagnostics_commands_def Let_def)
  let ?st1 = "st\<lparr>dg_commands := keep_commands uid [c] (dg_commands st)\<rparr>"
  have allowed: "diagnostics_collection_allowed (read_user env uid st) \<longleftrightarrow> delivered"
    using allowed_iff [OF assms(7), of env uid] assms(9) False by auto
  have "ack_diagnostics_command uid (dc_id c) (dg_commands ?st1) = (Some c, keep_commands uid [] (dg_commands ?st1))"
    using assms(2,3,6) by (simp add: ack_diagnostics_command_def queued_keep)
  then show ?thesis
    using False p allowed assms(1,2,3,5,7,8,10)
    by (auto simp: diagnostics_commands_for_session_def Let_def queued_keep drop_unconsented_def audit_diagnostics_def)
qed

text \<open>C26: The sweep drops exactly what has run out. After it, a command waits when it waited before and its deadline lies at most
  the grace back; each of the others has its entry in the audit log, as far as that can be written.
\<close>
theorem expiry_exact:
  assumes "dg_users st \<noteq> None"
  shows "waiting (dg_commands (sweep_expired_diagnostics_commands env st)) =
      {c \<in> waiting (dg_commands st). de_now env \<le> command_deadline c + diagnostics_ack_grace} \<and>
    set (dg_audit (sweep_expired_diagnostics_commands env st)) = set (dg_audit st) \<union>
      {row. de_audits env row \<and> (\<exists>c\<in>waiting (dg_commands st). command_deadline c + diagnostics_ack_grace < de_now env \<and>
        row = \<lparr>ar_actor = dc_requestedBy c, ar_event = Collect_expired, ar_target = dc_userID c, ar_at = de_now env\<rparr>)}"
proof -
  have audit: "set (dg_audit (fold (audit_expired env) cs s)) = set (dg_audit s) \<union>
      {row. de_audits env row \<and> (\<exists>c\<in>set cs. row = \<lparr>ar_actor = dc_requestedBy c, ar_event = Collect_expired,
        ar_target = dc_userID c, ar_at = de_now env\<rparr>)}" if "dg_users s \<noteq> None" for cs s
    using that
  proof (induction cs arbitrary: s)
    case (Cons c cs)
    have "dg_users (audit_expired env c s) \<noteq> None" using Cons.prems by (simp add: audit_expired_def)
    from Cons.IH [OF this] show ?case using Cons.prems by (auto simp: audit_expired_def audit_diagnostics_def Let_def)
  qed simp
  have "set (concat (map (\<lambda>(_, cs). filter (overdue (de_now env)) cs) (dg_commands st))) =
      {c \<in> waiting (dg_commands st). command_deadline c + diagnostics_ack_grace < de_now env}"
    by (auto simp: waiting_def overdue_def)
  moreover have "waiting (dg_commands (sweep_expired_diagnostics_commands env st)) =
      {c \<in> waiting (dg_commands st). de_now env \<le> command_deadline c + diagnostics_ack_grace}"
  proof -
    have "waiting (filter (\<lambda>(_, cs). cs \<noteq> []) (map (\<lambda>(uid, cs). (uid, filter P cs)) q)) = {c \<in> waiting q. P c}" for P q
      by (induction q) (auto simp: waiting_def filter_empty_conv)
    then show ?thesis by (simp add: sweep_expired_diagnostics_commands_def overdue_def not_less)
  qed
  ultimately show ?thesis
    using audit assms by (simp add: sweep_expired_diagnostics_commands_def conj_assoc) blast
qed

section \<open>From the client's logs to the store\<close>

definition of_upload :: "diagnostics_command \<Rightarrow> wire_upload \<Rightarrow> log_bundle \<Rightarrow> bool" where
  "of_upload c p b \<longleftrightarrow> b_userID b = dc_userID c \<and> (\<exists>l\<in>set (wu_logs p). b_kind b = trim_space (wl_kind l) \<and> b_content b = wl_content l)"

lemma of_upload_dated: "of_upload c p (b\<lparr>b_collectedAt := t\<rparr>) = of_upload c p b"
  by (simp add: of_upload_def)

lemma stored_from_logs:
  assumes "b \<in> set (dg_bundles (snd (store_diagnostics_bundles env c p st)))"
  shows "b \<in> set (dg_bundles st) \<or> of_upload c p b"
proof -
  let ?P = "\<lambda>s. \<forall>b\<in>set (dg_bundles s). b \<in> set (dg_bundles st) \<or> of_upload c p b"
  have "?P (snd (snd (store_logs env c 0 (wu_logs p) st)))"
  proof (rule store_logs_keeps_of [where P = ?P, OF _ subset_refl])
    fix b l s s1
    assume b: "?P s" "b_userID b = dc_userID c" "l \<in> set (wu_logs p)" "b_kind b = trim_space (wl_kind l)"
      "b_content b = wl_content l" "store_diagnostics_bundle env b s = Some s1"
    then have "of_upload c p b" unfolding of_upload_def by blast
    then show "?P s1" using b(1) store_bundle_fields [OF b(6)] by (auto simp: of_upload_dated)
  qed simp
  then show ?thesis using store_state [of env c p st] assms by auto
qed

text \<open>C16: What a collection by a client that runs this code puts in the store has passed the redaction. When its request
  reaches the control plane that serves it, every bundle that is there afterwards and was not before holds one of the three
  logs and consists of lines of these kinds. No line of the console shows an access token at the start of a word
  (\<open>shows_token\<close>). A line of the event log shows none, or renders an event whose description and texts show none and
  whose fields named for a secret hold the placeholder; objects and arrays inside an array are passed over. A line of the
  traffic log renders an entry without bodies and with a path that shows no token. What else may pass is stated in
  \<open>redaction_gaps\<close>, and the control plane stores what any other client sends as it comes.
\<close>
theorem stored_is_redacted:
  assumes "upload_diagnostics_bundle cd dir send serverURL token subdomain i = (Some req, outcome)"
    "handle_diagnostics_upload env True False (uq_sessionToken req) ls (Some (on_wire (uq_payload req))) answer st = (reply, st')"
    "b \<in> set (dg_bundles st')" "b \<notin> set (dg_bundles st)"
  shows "\<exists>kind kept lost. b_kind b = kind_name kind \<and> b_content b = written kept @ note_of lost \<and>
    (\<forall>line\<in>set kept. line_safe cd kind line)"
proof -
  have safe: "\<exists>kept lost. rl_content l = written kept @ note_of lost \<and> (\<forall>line\<in>set kept. line_safe cd (rl_kind l) line)"
    if "l \<in> set (bu_logs (uq_payload req))" for l
    using assms(1) that collect_logs_safe
    by (auto simp: upload_diagnostics_bundle_def collect_redacted_logs_def Let_def split: option.splits list.splits if_splits)
  obtain p c q where u: "store_diagnostics_bundles env c p (st\<lparr>dg_commands := q\<rparr>) = (reply, st')" "p = on_wire (uq_payload req)"
    using upload_cases [OF assms(2)] assms(3,4) by auto
  from stored_from_logs [of b env c p "st\<lparr>dg_commands := q\<rparr>"] obtain l where
    "l \<in> set (wu_logs p)" "b_kind b = trim_space (wl_kind l)" "b_content b = wl_content l"
    using assms(3,4) u(1) by (auto simp: of_upload_def)
  then obtain r where r: "r \<in> set (bu_logs (uq_payload req))" "b_kind b = trim_space (kind_name (rl_kind r))" "b_content b = rl_content r"
    by (auto simp: u(2) on_wire_def)
  have "trim_space (kind_name k) = kind_name k" for k
    by (cases k) (simp_all add: kind_name_def trim_space_def is_space_def)
  then show ?thesis using safe [OF r(1)] r by auto
qed

section \<open>Where the parts get out of step\<close>

text \<open>C28: An acknowledgement that overtakes the upload costs the logs. The client acknowledges a command with its next heartbeat
  while it reads, cleans and sends its logs aside. If that heartbeat is handled first, it takes the command that authorises
  the upload: the log records a delivery, the upload is refused, nothing is stored, and the command is gone.
\<close>
theorem acknowledged_upload_is_refused:
  assumes "session_user ls = uid" "uid \<noteq> []" "is_table (dg_commands st)" "queued_for uid (dg_commands st) = [c]" "dc_id c \<noteq> []"
    "dg_users st \<noteq> None" "trim_space token \<noteq> []" "trim_space (wu_requestID p) = dc_id c"
    "row = \<lparr>ar_actor = dc_requestedBy c, ar_event = Collect_delivered (dc_id c), ar_target = dc_userID c, ar_at = de_now env\<rparr>"
    "de_audits env row"
  shows "case record_diagnostics_acks env False passed ls [dc_id c] st of (_, st1) \<Rightarrow>
    dg_audit st1 = dg_audit st @ [row] \<and> queued_for uid (dg_commands st1) = [] \<and>
    handle_diagnostics_upload env' True False token ls (Some p) answer st1 = (Up_not_requested, st1)"
proof -
  have a: "ack_diagnostics_command uid (dc_id c) (dg_commands st) = (Some c, keep_commands uid [] (dg_commands st))"
    using assms(2,4,5) by (simp add: ack_diagnostics_command_def)
  have "ack_diagnostics_command uid (dc_id c) (keep_commands uid [] (dg_commands st)) = (None, keep_commands uid [] (dg_commands st))"
    using assms(3) by (simp add: ack_diagnostics_command_def queued_keep)
  then show ?thesis
    using a assms by (auto simp: record_diagnostics_acks_def record_ack_def audit_diagnostics_def Let_def queued_keep
        handle_diagnostics_upload_def split: option.split)
qed

text \<open>A withdrawal does not reach the edge that holds the command. The edge has no database: it hands the command to its
  client after the user has withdrawn, and passes the client's logs on. The control plane then refuses them, stores nothing,
  and the edge closes the request with that answer; but the logs have left the client.
\<close>
theorem withdrawal_stops_at_the_store:
  assumes "session_user ls = uid" "uid \<noteq> []" "is_table (dg_commands ed)" "dg_users ed = None"
    "queued_for uid (dg_commands ed) = [c]" "de_now env \<le> command_deadline c" "dc_id c \<noteq> []"
    "dg_users st = Some rows" "\<not> consenting uid rows"
    "authorised_edge_node digest nodes edgeToken \<noteq> None" "trim_space token \<noteq> []" "trim_space (wu_requestID p) = dc_id c"
    "claim_diagnostics_command_by_id (dc_id c) (dg_commands st) = (Some c', q)" "dc_userID c' = uid"
  shows "case handle_edge_diagnostics_upload env' digest nodes True edgeToken (Some p) st of (reply, st') \<Rightarrow>
    reply = Up_not_allowed \<and> dg_bundles st' = dg_bundles st \<and> fst (diagnostics_commands_for_session env ls ed) = [c] \<and>
    (case handle_diagnostics_upload env True True token ls (Some p) (Some (upload_status reply))
        (snd (diagnostics_commands_for_session env ls ed)) of
       (edge_reply, ed') \<Rightarrow> edge_reply = Up_relayed 403 \<and> queued_for uid (dg_commands ed') = [])"
proof -
  have refused: "handle_edge_diagnostics_upload env' digest nodes True edgeToken (Some p) st =
      (Up_not_allowed, audit_diagnostics env' (dc_requestedBy c') Collect_refused uid (st\<lparr>dg_commands := q\<rparr>))"
    using assms(8-10,12-14) allowed_iff [of "st\<lparr>dg_commands := q\<rparr>" rows env' uid]
    by (auto simp: handle_edge_diagnostics_upload_def store_diagnostics_bundles_def)
  have keep: "pending_diagnostics_commands (de_now env) uid (dg_commands ed) = ([c], [], keep_commands uid [c] (dg_commands ed))"
    using assms(2,5,6) by (simp add: pending_diagnostics_commands_def Let_def)
  let ?ed = "ed\<lparr>dg_commands := keep_commands uid [c] (dg_commands ed)\<rparr>"
  have d: "diagnostics_commands_for_session env ls ed = ([c], ?ed)"
    using assms(1,2,4) keep by (simp add: diagnostics_commands_for_session_def Let_def)
  have "ack_diagnostics_command uid (dc_id c) (dg_commands ?ed) = (Some c, keep_commands uid [] (dg_commands ?ed))"
    using assms(2,3,7) by (simp add: ack_diagnostics_command_def queued_keep)
  then have "handle_diagnostics_upload env True True token ls (Some p) (Some 403) ?ed =
      (Up_relayed 403, ?ed\<lparr>dg_commands := keep_commands uid [] (dg_commands ?ed)\<rparr>)"
    using assms(1,2,4,11,12) by (auto simp: handle_diagnostics_upload_def relay_diagnostics_upload_def)
  then show ?thesis using refused d assms(3) by (simp add: upload_status_def queued_keep)
qed

text \<open>
  The edge gives a command its whole time from the arrival of the frame, on its own clock, so a frame that is under way for
  longer than the grace is offered after the control plane has dropped the command as expired.
\<close>
lemma late_frame_outlives_expiry:
  assumes "queue_diagnostics_collect env uid asker q = (c, q')" "uid \<noteq> []" "dc_id c \<noteq> []"
    "de_now env + diagnostics_ack_grace < arrival"
    "queued_for uid (queue_forwarded_diagnostics_collect arrival uid (dc_id c) diagnostics_command_ttl cmds) = [e]"
  shows "overdue (command_deadline e) c"
proof -
  have "command_deadline e = arrival + diagnostics_command_ttl"
    using assms(2,3,5) by (auto simp: queue_forwarded_diagnostics_collect_def queued_for_def table_simps command_deadline_def
        diagnostics_command_ttl_def minute_def second_def)
  then show ?thesis using assms(1,4) by (auto simp: overdue_def queue_diagnostics_collect_def Let_def command_deadline_def)
qed

end
