(* ===== verification/Diagnostics_Examples.thy ===== *)
theory Diagnostics_Examples
  imports Diagnostics_Delivery Sign_In Access_Facts Edge_Facts Edge_Channel_Facts
begin

text \<open>
  A small control plane for the collection of logs: an administrator, a user who consents and one command; the statements
  on collection applied to it, and two orders of events in which consent and store part.
\<close>

definition dx_env :: "time \<Rightarrow> diag_env" where
  "dx_env now = \<lparr>de_now = now, de_readsUser = True, de_updatesUser = True, de_stores = \<lambda>_. True, de_readsBundles = True,
     de_deletes = True, de_audits = \<lambda>_. True, de_newID = \<lambda>_. ''c1''\<rparr>"

definition dx_ann :: account where "dx_ann = new_account ''ann'' ''ann@ex'' ''admin'' status_approved 0"

definition dx_bob :: "time option \<Rightarrow> account" where
  "dx_bob consent = (new_account ''bob'' ''bob@ex'' ''user'' status_approved 0)\<lparr>ac_diagnosticsConsentAt := consent\<rparr>"

definition dx_command :: diagnostics_command where
  "dx_command = \<lparr>dc_id = ''c1'', dc_userID = ''bob'', dc_requestedBy = ''ann@ex'', dc_queuedAt = 0, dc_expiresAt = Some 300\<rparr>"

definition dx_diag :: "time option \<Rightarrow> command_queue \<Rightarrow> diag" where
  "dx_diag consent q = \<lparr>dg_users = Some [dx_ann, dx_bob consent], dg_bundles = [], dg_audit = [], dg_commands = q, dg_acks = []\<rparr>"

definition dx_leases :: "lease list" where "dx_leases = [ex_lease ''bob'' []]"

definition dx_payload :: wire_upload where
  "dx_payload = \<lparr>wu_requestID = ''c1'', wu_logs = [\<lparr>wl_kind = ''console'', wl_content = ''hi'', wl_truncated = False, wl_dropped = 0\<rparr>]\<rparr>"

lemmas dx_defs = dx_env_def dx_ann_def dx_bob_def dx_command_def dx_diag_def dx_leases_def dx_payload_def new_account_def

lemma dx_facts [simp]:
  "session_user dx_leases = ''bob''"
  "trim_space ''c1'' = ''c1''" "trim_space ''tok'' = ''tok''" "trim_space ''console'' = ''console''"
  "get_user ''bob'' [dx_ann, dx_bob consent] = Some (dx_bob consent)"
  "ac_diagnosticsConsentAt (dx_bob consent) = consent"
  "consenting ''bob'' [dx_ann, dx_bob consent] \<longleftrightarrow> consent \<noteq> None"
  "queued_for ''bob'' [(''bob'', cs)] = cs"
  "is_table [(''bob'', cs)]"
  by (simp_all add: dx_defs session_user_def ex_lease_def trim_space_def is_space_def get_user_def consenting_def consents_def
      queued_for_def get_def is_table_def)

definition dx_upload :: diag_event where "dx_upload = Upload (dx_env 100) ''tok'' dx_leases (Some dx_payload)"

definition dx_bundle :: log_bundle where
  "dx_bundle = \<lparr>b_id = ''c1-console'', b_userID = ''bob'', b_requestedBy = ''ann@ex'', b_kind = ''console'', b_content = ''hi'',
     b_bytes = 2, b_truncated = False, b_dropped = 0, b_collectedAt = 0\<rparr>"

lemma dx_stored:
  "diag_step dx_upload (dx_diag (Some 5) [(''bob'', [dx_command])]) =
   (Some (Up_stored 1 2), (dx_diag (Some 5) [])\<lparr>dg_bundles := [dx_bundle],
      dg_audit := [\<lparr>ar_actor = ''ann@ex'', ar_event = Collect_uploaded ''c1'' 1 2, ar_target = ''bob'', ar_at = 100\<rparr>]\<rparr>)"
  by (simp add: dx_upload_def dx_defs handle_diagnostics_upload_def ack_diagnostics_command_def queued_for_def get_def keep_commands_def
      del_def store_diagnostics_bundles_def diagnostics_collection_allowed_def read_user_def get_user_def store_diagnostics_bundle_def
      audit_diagnostics_def unix_def second_def session_user_def ex_lease_def trim_space_def is_space_def dx_bundle_def Let_def)

theorem request_filled_once_witness:
  "fills ''c1'' dx_upload (dx_diag (Some 5) [(''bob'', [dx_command])]) \<and>
   times_filled ''c1'' [dx_upload, dx_upload] (dx_diag (Some 5) [(''bob'', [dx_command])]) \<le> 1"
proof
  show "fills ''c1'' dx_upload (dx_diag (Some 5) [(''bob'', [dx_command])])"
    by (simp add: fills_def dx_stored) (simp add: claims_def dx_upload_def dx_payload_def)
  show "times_filled ''c1'' [dx_upload, dx_upload] (dx_diag (Some 5) [(''bob'', [dx_command])]) \<le> 1"
    using request_filled_once [of "dx_diag (Some 5) [(''bob'', [dx_command])]" "''c1''" "[dx_upload, dx_upload]"]
    by (simp add: times_asked_def draws_def dx_upload_def dx_diag_def dx_command_def is_table_def del: times_filled.simps)
qed

lemma dx_consent_ok: "consent_ok (dx_diag (Some 5) q)"
  by (simp add: consent_ok_def dx_defs)

theorem kept_only_with_consent_witness:
  "\<exists>rows a. dg_users (diag_run [dx_upload] (dx_diag (Some 5) [(''bob'', [dx_command])])) = Some rows \<and> a \<in> set rows \<and>
     u_id a = ''bob'' \<and> ac_diagnosticsConsentAt a \<noteq> None"
proof -
  have "dx_bundle \<in> set (dg_bundles (diag_run [dx_upload] (dx_diag (Some 5) [(''bob'', [dx_command])])))"
    by (simp add: diag_run_def dx_stored)
  from kept_only_with_consent [OF dx_consent_ok _ this] show ?thesis
    by (simp add: orderly_def dx_upload_def dx_bundle_def)
qed

definition dx_ask :: diag_event where
  "dx_ask = Ask_for_logs (dx_env 10) [] True new_registry
     [(''bob'', [\<lparr>el_nodeID = ''eu'', el_subdomain = ''shop'', el_userID = ''bob'', el_fullHost = [], el_localPort = 0, el_clientIP = [],
        el_clientVersion = [], el_clientOS = [], el_rateLimit = 0, el_bytesIn = 0, el_bytesOut = 0, el_createdAt = 0\<rparr>])]
     ''ann@ex'' (Some ''bob@ex'') (no_fleet\<lparr>fl_conns := [(''eu'', 1)]\<rparr>)"

lemma dx_asked:
  "dg_commands (snd (diag_step dx_ask (dx_diag (Some 5) []))) = [(''bob'', [dx_command\<lparr>dc_queuedAt := 10, dc_expiresAt := Some (10 + 5 * minute)\<rparr>])]"
  "dg_bundles (snd (diag_step dx_ask (dx_diag (Some 5) []))) = []"
  "dg_users (snd (diag_step dx_ask (dx_diag (Some 5) []))) = Some [dx_ann, dx_bob (Some 5)]"
  by (simp_all add: dx_ask_def dx_defs handle_admin_diagnostics_collect_def read_user_by_email_def get_user_by_email_def may_collect_def
      clean_email_def trim_space_def is_space_def to_lower_def lower_char_def diagnostics_collection_allowed_def collect_from_def Let_def
      has_pending_diagnostics_command_def queued_for_def get_def diagnostics_reachability_def list_leases_def new_registry_def
      sort_by_host_def queue_diagnostics_collect_def send_edge_diagnostics_collect_def diagnostics_command_ttl_def minute_def second_def
      quot_def send_to_def put_def)

theorem kept_was_asked_for_witness:
  "\<exists>b. b \<in> set (dg_bundles (diag_run [dx_ask, dx_upload] (dx_diag (Some 5) []))) \<and>
     asked_in (b_userID b) (b_requestedBy b) [dx_ask, dx_upload] (dx_diag (Some 5) [])"
proof -
  let ?st = "snd (diag_step dx_ask (dx_diag (Some 5) []))"
  have "dx_bundle \<in> set (dg_bundles (snd (diag_step dx_upload ?st)))"
    using dx_asked
    by (simp add: dx_upload_def handle_diagnostics_upload_def ack_diagnostics_command_def dx_payload_def dx_command_def
        store_diagnostics_bundles_def diagnostics_collection_allowed_def read_user_def store_diagnostics_bundle_def dx_env_def
        unix_def second_def dx_bundle_def Let_def)
  then have "dx_bundle \<in> set (dg_bundles (diag_run [dx_ask, dx_upload] (dx_diag (Some 5) [])))" by (simp add: diag_run_def)
  moreover have "dg_commands (dx_diag (Some 5) []) = []" "dg_bundles (dx_diag (Some 5) []) = []" by (simp_all add: dx_diag_def)
  ultimately show ?thesis using kept_was_asked_for by blast
qed

theorem delivery_exact_witness:
  "\<exists>st'. diagnostics_commands_for_session (dx_env 100) dx_leases (dx_diag (Some 5) [(''bob'', [dx_command])]) = ([dx_command], st') \<and>
     queued_for ''bob'' (dg_commands st') = [dx_command] \<and> dg_audit st' = []"
proof -
  let ?st = "dx_diag (Some 5) [(''bob'', [dx_command])]"
  obtain cs st' where h: "diagnostics_commands_for_session (dx_env 100) dx_leases ?st = (cs, st')" by fastforce
  have "session_user dx_leases = ''bob''" "''bob'' \<noteq> []" "is_table (dg_commands ?st)" "queued_for ''bob'' (dg_commands ?st) = [dx_command]"
      "dc_userID dx_command = ''bob''" "dc_id dx_command \<noteq> []" "dg_users ?st = Some [dx_ann, dx_bob (Some 5)]"
    by (simp_all add: dx_diag_def, simp_all add: dx_command_def)
  note applied = delivery_exact [OF this h, where delivered = True, OF _ refl]
  have "cs = [dx_command] \<and> queued_for ''bob'' (dg_commands st') = cs \<and> dg_audit st' = dg_audit ?st"
    using applied by (simp add: dx_env_def, simp add: dx_command_def command_deadline_def)
  then show ?thesis using h by (simp add: dx_diag_def)
qed

theorem expiry_exact_witness:
  "waiting (dg_commands (sweep_expired_diagnostics_commands (dx_env (hour)) (dx_diag (Some 5) [(''bob'', [dx_command])]))) = {} \<and>
   \<lparr>ar_actor = ''ann@ex'', ar_event = Collect_expired, ar_target = ''bob'', ar_at = hour\<rparr> \<in>
     set (dg_audit (sweep_expired_diagnostics_commands (dx_env (hour)) (dx_diag (Some 5) [(''bob'', [dx_command])])))"
proof -
  have "dg_users (dx_diag (Some 5) [(''bob'', [dx_command])]) \<noteq> None" by (simp add: dx_diag_def)
  from expiry_exact [OF this, of "dx_env hour"] show ?thesis
    by (simp add: dx_diag_def waiting_def dx_env_def dx_command_def command_deadline_def diagnostics_ack_grace_def hour_def minute_def second_def)
qed

theorem acknowledged_upload_is_refused_witness:
  "case record_diagnostics_acks (dx_env 50) False (\<lambda>_. False) dx_leases [''c1''] (dx_diag (Some 5) [(''bob'', [dx_command])]) of (_, st1) \<Rightarrow>
     queued_for ''bob'' (dg_commands st1) = [] \<and>
     handle_diagnostics_upload (dx_env 100) True False ''tok'' dx_leases (Some dx_payload) None st1 = (Up_not_requested, st1)"
proof -
  let ?st = "dx_diag (Some 5) [(''bob'', [dx_command])]"
  have "session_user dx_leases = ''bob''" "''bob'' \<noteq> []" "is_table (dg_commands ?st)" "queued_for ''bob'' (dg_commands ?st) = [dx_command]"
      "dc_id dx_command \<noteq> []" "dg_users ?st \<noteq> None" "trim_space ''tok'' \<noteq> []" "trim_space (wu_requestID dx_payload) = dc_id dx_command"
    by (simp_all add: dx_diag_def, simp_all add: dx_command_def dx_payload_def)
  from acknowledged_upload_is_refused [OF this refl, where env = "dx_env 50" and passed = "\<lambda>_. False" and env' = "dx_env 100" and answer = None] show ?thesis
    by (auto simp: dx_env_def dx_command_def split: prod.splits)
qed

definition dx_edge :: diag where
  "dx_edge = \<lparr>dg_users = None, dg_bundles = [], dg_audit = [], dg_commands = [(''bob'', [dx_command\<lparr>dc_requestedBy := []\<rparr>])], dg_acks = []\<rparr>"

theorem withdrawal_stops_at_the_store_witness:
  "case handle_edge_diagnostics_upload (dx_env 100) (\<lambda>s. s) ex_nodes True ''k2'' (Some dx_payload) (dx_diag None [(''bob'', [dx_command])]) of
     (reply, st') \<Rightarrow> reply = Up_not_allowed \<and> dg_bundles st' = [] \<and>
       fst (diagnostics_commands_for_session (dx_env 50) dx_leases dx_edge) = [dx_command\<lparr>dc_requestedBy := []\<rparr>]"
proof -
  have claim: "claim_diagnostics_command_by_id (dc_id (dx_command\<lparr>dc_requestedBy := []\<rparr>))
      (dg_commands (dx_diag None [(''bob'', [dx_command])])) = (Some dx_command, [])"
    by (simp add: dx_diag_def dx_command_def claim_diagnostics_command_by_id_def keep_commands_def del_def)
  have "session_user dx_leases = ''bob''" "''bob'' \<noteq> []" "is_table (dg_commands dx_edge)" "dg_users dx_edge = None"
      "queued_for ''bob'' (dg_commands dx_edge) = [dx_command\<lparr>dc_requestedBy := []\<rparr>]"
      "de_now (dx_env 50) \<le> command_deadline (dx_command\<lparr>dc_requestedBy := []\<rparr>)" "dc_id (dx_command\<lparr>dc_requestedBy := []\<rparr>) \<noteq> []"
      "dg_users (dx_diag None [(''bob'', [dx_command])]) = Some [dx_ann, dx_bob None]" "\<not> consenting ''bob'' [dx_ann, dx_bob None]"
      "authorised_edge_node (\<lambda>s. s) ex_nodes ''k2'' \<noteq> None" "trim_space ''tok'' \<noteq> []"
      "trim_space (wu_requestID dx_payload) = dc_id (dx_command\<lparr>dc_requestedBy := []\<rparr>)"
    by (simp_all add: dx_edge_def, simp_all add: dx_env_def dx_command_def command_deadline_def dx_diag_def dx_payload_def)
  from withdrawal_stops_at_the_store [OF this claim, where env' = "dx_env 100"] show ?thesis
    by (auto simp: dx_command_def dx_diag_def split: prod.splits)
qed

theorem stored_is_redacted_witness:
  "\<exists>kind kept lost. ''console'' = kind_name kind \<and> ''got [REDACTED]'' @ [CHR 0x0A] = written kept @ note_of lost \<and>
    (\<forall>line\<in>set kept. line_safe ex_codec kind line)"
proof -
  let ?up = "upload_diagnostics_bundle ex_codec (Some (\<lambda>name. if name = ''client-shop.log'' then Log_content ex_log else Log_missing))
     (\<lambda>_. Some 200) ''https://gw/'' ''tok'' ''shop'' ''r1''"
  obtain req out where up: "?up = (Some req, out)" using ex_collected by (cases ?up) auto
  then have req: "req = \<lparr>uq_url = ''https://gw/api/client/diagnostics/upload'', uq_sessionToken = ''tok'',
     uq_payload = \<lparr>bu_requestID = ''r1'', bu_logs =
       [\<lparr>rl_kind = Kind_console, rl_content = ''got [REDACTED]'' @ [CHR 0x0A], rl_truncated = False, rl_droppedLines = 0\<rparr>]\<rparr>\<rparr>"
    using ex_collected by simp
  let ?st = "dx_diag (Some 5) [(''bob'', [dx_command\<lparr>dc_id := ''r1''\<rparr>])]"
  let ?b = "dx_bundle\<lparr>b_content := ''got [REDACTED]'' @ [CHR 0x0A], b_bytes := 15\<rparr>"
  have r1: "trim_space ''r1'' = ''r1''" by (simp add: trim_space_def is_space_def)
  obtain reply st' where h: "handle_diagnostics_upload (dx_env 100) True False (uq_sessionToken req) dx_leases
      (Some (on_wire (uq_payload req))) None ?st = (reply, st')" by fastforce
  have "?b \<in> set (dg_bundles st')"
    using h unfolding req
    by (auto simp: handle_diagnostics_upload_def ack_diagnostics_command_def on_wire_def r1 kind_name_def dx_diag_def dx_command_def
        store_diagnostics_bundles_def diagnostics_collection_allowed_def read_user_def store_diagnostics_bundle_def dx_env_def
        unix_def second_def dx_bundle_def Let_def)
  moreover have "?b \<notin> set (dg_bundles ?st)" by (simp add: dx_diag_def)
  ultimately show ?thesis using stored_is_redacted [OF up h, of ?b] by (simp add: dx_bundle_def)
qed

section \<open>Two orders of events\<close>

text \<open>
  The check of the consent and the storing of the logs are separate calls of the database. A withdrawal that is handled
  between them erases what is there, and what is stored then stays with no consent behind it.
\<close>
lemma withdrawal_between_check_and_store:
  fixes q :: command_queue
  defines "withdrawn \<equiv> snd (handle_diagnostics_consent (dx_env 100) (Some (dx_bob (Some 5))) (Some False) (dx_diag (Some 5) q))"
  shows "diagnostics_collection_allowed (read_user (dx_env 100) ''bob'' (dx_diag (Some 5) q)) \<and>
    \<not> consent_ok (snd (snd (store_logs (dx_env 100) dx_command 0 (wu_logs dx_payload) withdrawn)))"
  unfolding withdrawn_def
  by (simp add: dx_defs read_user_def diagnostics_collection_allowed_def get_user_def handle_diagnostics_consent_def Let_def
      update_user_def updated_def null_if_empty_def column_def purge_diagnostics_bundles_on_withdrawal_def
      delete_diagnostics_bundles_for_user_def audit_diagnostics_def trim_space_def is_space_def store_diagnostics_bundle_def
      consent_ok_def backed_def consents_def)

text \<open>A profile that was read before a withdrawal and is saved after it writes the consent back, with all other columns.\<close>

lemma stale_profile_restores_consent:
  fixes q :: command_queue
  defines "withdrawn \<equiv> snd (handle_diagnostics_consent (dx_env 100) (Some (dx_bob (Some 5))) (Some False) (dx_diag (Some 5) q))"
  shows "\<not> diagnostics_collection_allowed (read_user (dx_env 200) ''bob'' withdrawn) \<and>
    diagnostics_collection_allowed (read_user (dx_env 200) ''bob'' (change_account (dx_bob (Some 5)) withdrawn))"
  unfolding withdrawn_def
  by (simp add: dx_defs get_user_def handle_diagnostics_consent_def Let_def update_user_def updated_def null_if_empty_def column_def
      purge_diagnostics_bundles_on_withdrawal_def delete_diagnostics_bundles_for_user_def audit_diagnostics_def
      change_account_def read_user_def diagnostics_collection_allowed_def)

end
