(* ===== verification/Spec2Isabelle.thy ===== *)
theory Spec2Isabelle
  imports Quota_Facts Session_Schedule Ban_Facts Access_Facts Registry_Views Gateway_Facts Tokens_Facts
    Reservations_Facts Consent_Facts Registration_Facts Allocation_Facts Edge_Facts Edge_Divergence
    Dns_Facts Portal_Sessions_Facts Portal_Gate_Facts Client_Moves Edge_Metrics_Facts Edge_Outage
    Edge_Schedule_Facts Diagnostics_Examples
begin

text \<open>
  A model of the gateway of lfr-tunnel (Go, \<open>pkg/server\<close>, \<open>pkg/db\<close>, \<open>pkg/config\<close>, \<open>pkg/nettrust\<close>,
  \<open>pkg/proxyutil\<close>): developers' clients register tunnels, visitors reach them under public host names, and
  a control plane owns the users, their limits, their reserved names, the signing keys and the bans, for
  itself and for regional edge gateways that keep no database.

  \<^bold>\<open>How the parts interact.\<close> A client presents a token to \<open>handleRegister\<close> (\<open>Registration\<close>), which checks
  it (\<open>Tokens\<close>), the policy and the minimum version (\<open>Consent\<close>), ranks the domains, settles the name
  (\<open>Reservations\<close>), applies the limits (\<open>Accounts\<close>, \<open>Quota\<close>) and enters the tunnel in the lease registry
  (\<open>Registry\<close>), then announces it to the DNS hook (\<open>Dns_Hook\<close>) and to the edges. Through an edge the same
  gates run at the control plane, on the edge's behalf (\<open>Edge_Control\<close>), and the edge's own registry holds
  the tunnel. A visitor's request passes the ban guard (\<open>Ban_Guard\<close>), then \<open>ProxyHandler.ServeHTTP\<close>
  (\<open>Gateway\<close>): firewall (\<open>Waf\<close>), routing by the registry, access rules (\<open>Access_Gate\<close>) with the session
  cookie (\<open>Session_Keys\<close>), credentials and rate, and the rewrite of the request or its hand-over to the
  gateway that holds the tunnel (\<open>Forwarding\<close>). Whose forwarding headers are believed is decided in
  \<open>Client_IP\<close>. The signing key is replaced by \<open>Session_Rotation\<close> without ending a session.

  \<^bold>\<open>Theories.\<close>
  \<^item> \<open>Prelude\<close>: tables (Go's maps as association lists), Go's string functions on ASCII, 64-bit wrap-around,
    times and durations in nanoseconds, numbers in text. \<open>Net_Addr\<close>: \<open>net.ParseIP\<close>, \<open>net.ParseCIDR\<close> and the
    corresponding part of \<open>net/netip\<close>, as far as the sources use them.
  \<^item> \<open>Registry\<close>, \<open>Registry_Lifecycle\<close> (\<open>auth.go\<close>, \<open>tunnel_offline.go\<close>): host table, session table, ports,
    the shared \<open>*TunnelLease\<close> as a heap of leases with positions for pointers; registering, tearing down, the
    sweep, byte watermarks, heartbeat. \<open>Registry_Facts\<close>, \<open>Registry_Register\<close>, \<open>Registry_Teardown\<close>,
    \<open>Registry_Views\<close>: the invariant, who keeps which route, what is removed, and the errors. The two
    memories of what was torn down are one interface (locale \<open>ttl_memory\<close>), interpreted twice.
  \<^item> \<open>Accounts\<close>, \<open>Quota\<close>, \<open>Quota_Facts\<close> (\<open>rate_limit.go\<close>, \<open>never_expires.go\<close>, \<open>registration_policy.go\<close>,
    \<open>quota.go\<close>): three-level limits, the never-expires policy, the bandwidth sweep and its stages: who is refused and who is throttled, told
    by the bytes they moved (\<open>moved_by\<close>).
  \<^item> \<open>Session_Keys\<close>, \<open>Session_Rotation\<close>, \<open>Session_Facts\<close>, \<open>Session_Survival\<close>, \<open>Session_Properties\<close>,
    \<open>Session_Schedule\<close> (\<open>visitor_session_secret.go\<close>, \<open>visitor_session_rotation.go\<close>, the cookie of \<open>proxy.go\<close>):
    the key ring, the three phases, an inductive step relation of the control plane, restarts included, with the
    invariant that every session alive verifies while the rows can be read and written, and the runs in which a failed
    read or write breaks it; the schedule and its backoff.
  \<^item> \<open>Client_IP\<close>, \<open>Client_IP_Facts\<close> (\<open>client_ip.go\<close>, \<open>nettrust/width.go\<close>): trusted proxies.
  \<^item> \<open>Ban_Guard\<close>, \<open>Ban_Facts\<close> (\<open>blacklist.go\<close>, \<open>server_ratelimit.go\<close>, \<open>pkg/db/blacklist.go\<close>): violations, bans,
    escalation; the ban store is an interface (locale) interpreted on the rows.
  \<^item> \<open>Access_Gate\<close>, \<open>Access_Facts\<close> (\<open>checkAccessControls\<close>, \<open>mtls.go\<close>, the saving of rules): the decision as a
    policy over the factors a mode requires.
  \<^item> \<open>Waf\<close>, \<open>Forwarding\<close>, \<open>Gateway\<close> and their \<open>_Facts\<close> (\<open>waf.go\<close>, \<open>proxy.go\<close>, \<open>proxyutil/forwarded.go\<close>): the pipeline
    of a visitor's request, the patterns of the firewall with their meaning as an inductive relation, the
    forwarding chain, loop prevention of hand-overs, the measured bytes of a message, the escaping of pages.
  \<^item> \<open>Tokens\<close>, \<open>Tokens_Facts\<close> (\<open>pkg/db/pat.go\<close>, \<open>server_auth.go\<close>, \<open>api_service_permanence.go\<close>,
    \<open>token_expiry.go\<close>): the table of personal access tokens as a machine over every operation on it; a revocation is final.
  \<^item> \<open>Reservations\<close>, \<open>Reservations_Facts\<close> (\<open>pkg/db/subdomain.go\<close>, \<open>registration_policy.go\<close>,
    \<open>api_service_reservation.go\<close>): reserved names; the table is an interface (locale \<open>name_table\<close>); what the policy lets through, and that
    no history of other users' operations touches the row of a protected name.
  \<^item> \<open>Consent\<close>, \<open>Consent_Facts\<close> (\<open>policy_consent.go\<close>, \<open>min_version.go\<close>, \<open>grace.go\<close>, \<open>acknowledgement.go\<close>,
    \<open>version.go\<close>): obligations with a period of grace.
  \<^item> \<open>Registration\<close>, \<open>Registration_Facts\<close>, \<open>Allocation_Facts\<close> (\<open>server.go\<close>, \<open>server_domain.go\<close>, \<open>drain.go\<close>): the
    composition of the above in \<open>handleRegister\<close>, the ranking of domains, \<open>handleDeregister\<close>.
  \<^item> \<open>Edge_Control\<close>, \<open>Edge_Facts\<close>, \<open>Edge_Divergence\<close> (\<open>server.go\<close>, \<open>server_edge.go\<close>, \<open>edge_control_ws.go\<close>):
    registration through an edge, both halves, and where the pictures of two gateways come apart.
  \<^item> \<open>Dns_Hook\<close>, \<open>Dns_Facts\<close> (\<open>dns_hook.go\<close>): the publisher of names as a machine over every schedule of
    requests, starts and ends of invocations, a killed invocation having changed the record and counting as failed.
  \<^item> \<open>Portal_Sessions\<close>, \<open>Portal_Sessions_Facts\<close> (\<open>pkg/db/portal_session.go\<close>, \<open>portal_session_store.go\<close>,
    \<open>session_cookie.go\<close>): the sessions of the portal, their cache and rows against a plain map from cookies to
    sessions, and the bound on their life.
  \<^item> \<open>Totp\<close>, \<open>Totp_Facts\<close> (\<open>totp.go\<close>): base 32, the truncation of RFC 4226 and the window of a code.
  \<^item> \<open>Portal_Users\<close>, \<open>Portal_Users_Facts\<close> (\<open>pkg/db/user.go\<close>, \<open>user_status.go\<close>, \<open>pkg/db/magiclink.go\<close>): the rows of
    users and of mailed links, and what each statement does to the look-up of an address.
  \<^item> \<open>Sign_In\<close> (\<open>server.go\<close>, \<open>api_service_mfa.go\<close>, \<open>sso.go\<close>, \<open>api.go\<close>, \<open>view_as.go\<close>): the ways into the portal and what
    a session is worth. \<open>Onboarding\<close> (\<open>server.go\<close>, \<open>register_reject.go\<close>, \<open>magiclink.go\<close>, \<open>api.go\<close>): how an account
    comes to be, changes its standing and ends.
  \<^item> \<open>Portal_Machine\<close>: both as one machine with the log of what proves an identity. \<open>Portal_Standing\<close>: it refines
    the state machine of statuses. \<open>Portal_Identity\<close>: a session proves control of the mailbox, and a link,
    presented one request at a time, works once but for failed markings. \<open>Portal_Gate_Facts\<close>: the decision on a link exactly, and where the gates do not hold.
  \<^item> \<open>Client_Election\<close>, \<open>Client_Session\<close>, \<open>Client_Loop\<close> (\<open>cmd/lfr-tunnel/main.go\<close>, \<open>reelection.go\<close>, \<open>pkg/client\<close>,
    \<open>pkg/regionvocab\<close>): a developer's client: the regions and their names, gateways held out, the probe and the cached
    election, registration and its retries, the heartbeat and the watchers, and the session loop as one step function.
    \<open>Client_Facts\<close>: the election exactly, and that no order of a map changes it. \<open>Client_Moves\<close>: what ends a session, what
    a move needs, pinned clients, failover, the gateways held out, pauses and retries.
  \<^item> \<open>Edge_Metrics\<close>, \<open>Edge_Metrics_Facts\<close> (\<open>edge_metrics.go\<close>, \<open>edge_metrics_health.go\<close>, \<open>drain.go\<close>): the bytes an edge has
    measured, conserved under every interleaving of flushes, the alert for a node that stops reporting, and draining.
  \<^item> \<open>Edge_Channel\<close>, \<open>Edge_Channel_Facts\<close>, \<open>Edge_Outage\<close> (\<open>edge_control_ws.go\<close>, \<open>node_set.go\<close>): who opens the channel of a
    node, the table of connections over every history, the frames and what an edge does on each, the fingerprint of the
    set of nodes, and what ends the tunnels of an edge in the loop that keeps it connected: dials, handshakes, frames.
  \<^item> \<open>Edge_Schedule\<close>, \<open>Edge_Schedule_Facts\<close> (\<open>server_edge.go\<close>, \<open>server_edge_provisioner.go\<close>, \<open>pkg/provisioner\<close>): schedules and
    the rules at the cloud's scheduler, the window of downtime, the health of the nodes and the heartbeat of a client.
  \<^item> \<open>Client_Redact\<close>, \<open>Client_Redact_Facts\<close> (\<open>redact.go\<close>, \<open>diagnostics_command.go\<close>): what a client sends of its logs: the four
    patterns as scanners over text, fields, paths and lines without their secrets, the newest lines within the budget, the
    commands acted on once, the upload; that a text that was cleaned shows no access token at the start of a word
    (\<open>shows_token\<close>, defined on the text and not by the patterns).
  \<^item> \<open>Diagnostics\<close> (\<open>diagnostics_consent.go\<close>, \<open>diagnostics_transport.go\<close>, \<open>diagnostics_edge.go\<close>, \<open>diagnostics_store.go\<close>,
    \<open>pkg/db/diagnostics_bundle.go\<close>): consent, the request for the logs of a user, its ride on a heartbeat here or through an
    edge, acknowledgement, expiry, upload and store, as one machine of events. \<open>Diagnostics_Facts\<close>: a request is filled once.
    \<open>Diagnostics_Consent\<close>: what is kept has consent, over orderly runs (\<open>orderly_run\<close>), and was asked for. \<open>Diagnostics_Delivery\<close>: delivery, expiry and the
    content of the store exactly, and where the parts get out of step; \<open>Diagnostics_Examples\<close>: runs of it.
  \<^bold>\<open>What the properties show.\<close> First the compositions: nothing is registered, granted to an edge, or
  proxied to a tunnel but past every gate, nobody's tunnel is taken by somebody else, and no reserved name by another
  user who is no administrator while its row can be read. Then each component: the invariant of its state
  under every operation and every failure of a query; its functional behaviour exactly (the decision of
  the access check, of a token check, of the quota sweep, of a deregistration, of a version comparison);
  refinements (a cleaner or a pruning that no later answer can see, bans as the sequence of offences);
  termination (hand-overs between gateways, the publisher's backlog); and the schedules or inputs under
  which the code does not do what its comments promise. Theorems without a number are results of the
  library that the properties and the findings rest on.

  \<^bold>\<open>Inputs.\<close> What the program obtains from elsewhere is an argument: the message authentication code, the
  digest of a token, bcrypt, \<open>net/url\<close>, the token bucket, a random source or a shuffle, the clock (read
  once per operation), whether a query, a mail, an \<open>AddUser\<close> of the embedded chisel or a hook succeeds. Where a
  property needs something of them it is a named hypothesis (a shuffle permutes, a digest does not repeat).

  \<^bold>\<open>Bounds and choices.\<close> Integers are unbounded where the code's values cannot reach 64 bits and wrap
  explicitly where they can (\<open>wrap64\<close>, \<open>u64\<close>); the round-robin counter is taken below \<open>2 ^ 63\<close>. A float64
  escalation factor is a rational. Text is ASCII; Go's iteration over a map is the order of the table, and no
  property depends on that order. Database times are instants in UTC. All recursions are structural or over
  a measure; parsing of an IPv6 address runs over at most eight groups. Concurrency appears where the code relies on it:
  the registry, the key ring and the tables are behind locks and their operations are atomic steps; the
  key rotation and the DNS publisher, which wait outside their locks, are step machines.

  \<^bold>\<open>Not modelled.\<close> Transport (HTTP, WebSocket, SSH), the embedded pages and their templates, audit and
  telemetry, mail and webhooks as output, SQL itself (a table's statements are modelled one by one), the
  geographic look-up, the operations tooling, the desktop interface and the web front ends. Planned next:
  the configuration and the pages of the portal.
\<close>

end
